(* ===== verification/Ld_Prelude.thy ===== *)
theory Ld_Prelude
  imports Main "HOL-Library.Word" "HOL-Library.AList"
begin

text \<open>
  Shared vocabulary of the development: the clock types of \<^verbatim>\<open>std::time\<close>, I/O errors and
  \<^verbatim>\<open>LibdenoError\<close> (src/src/lib.rs), hash maps as association lists without duplicate keys,
  and the interfaces that several components provide: first-writer-wins cells, registries
  whose removal is guarded by a registration token, transition systems with an invariant,
  and byte codecs.
\<close>

section \<open>Clock\<close>

text \<open>
  An \<^verbatim>\<open>Instant\<close> is a number of nanoseconds since the clock's origin and a \<^verbatim>\<open>Duration\<close> a number
  of nanoseconds. On Unix the standard library keeps an \<^verbatim>\<open>Instant\<close> as \<^verbatim>\<open>i64\<close> seconds plus
  nanoseconds, so \<^verbatim>\<open>checked_add\<close> fails from \<open>2 ^ 63\<close> seconds on.
\<close>

type_synonym instant = nat
type_synonym duration = nat

definition ns_per_sec :: nat where
  "ns_per_sec = 10 ^ 9"

definition instant_limit :: nat where
  "instant_limit = 2 ^ 63 * ns_per_sec"

definition duration_max :: duration where
  "duration_max = 2 ^ 64 * ns_per_sec - 1"

definition checked_add_instant :: "instant \<Rightarrow> duration \<Rightarrow> instant option" where
  "checked_add_instant t d = (if t + d < instant_limit then Some (t + d) else None)"

definition saturating_duration_since :: "instant \<Rightarrow> instant \<Rightarrow> duration" where
  "saturating_duration_since later earlier = later - earlier"

definition saturating_add_duration :: "duration \<Rightarrow> duration \<Rightarrow> duration" where
  "saturating_add_duration a b = min (a + b) duration_max"

definition millis :: "nat \<Rightarrow> duration" where
  "millis n = n * 10 ^ 6"

definition secs :: "nat \<Rightarrow> duration" where
  "secs n = n * ns_per_sec"

lemma checked_add_instant_Some:
  "checked_add_instant t d = Some u \<longleftrightarrow> u = t + d \<and> t + d < instant_limit"
  by (auto simp: checked_add_instant_def)

lemma checked_add_instant_None:
  "checked_add_instant t d = None \<longleftrightarrow> instant_limit \<le> t + d"
  by (auto simp: checked_add_instant_def)

lemma saturating_since_zero:
  "saturating_duration_since a b = 0 \<longleftrightarrow> a \<le> b"
  by (simp add: saturating_duration_since_def)

text \<open>\<open>is_some_and(|deadline| deadline <= now)\<close>: the test every deadline check of the code makes.\<close>

definition due :: "instant option \<Rightarrow> instant \<Rightarrow> bool" where
  "due deadline now = (case deadline of None \<Rightarrow> False | Some d \<Rightarrow> d \<le> now)"

lemma due_simps [simp]:
  "due None now = False"
  "due (Some d) now = (d \<le> now)"
  by (simp_all add: due_def)

lemma due_mono: "due d now \<Longrightarrow> now \<le> later \<Longrightarrow> due d later"
  by (cases d) auto

section \<open>Errors\<close>

text \<open>
  The \<^verbatim>\<open>io::ErrorKind\<close>s the code tests or produces; every other kind is \<open>EkOs\<close> with the
  operating system's code.
\<close>

datatype io_error_kind =
    EkUnexpectedEof | EkTimedOut | EkInterrupted | EkInvalidData | EkWriteZero
  | EkWouldBlock | EkConnectionReset | EkConnectionAborted | EkBrokenPipe | EkInvalidInput | EkOther
  | EkOs int

datatype io_error = IoError (io_kind: io_error_kind) (io_message: string)

text \<open>\<^verbatim>\<open>LibdenoError\<close>. The payloads of third-party error types are kept as their message.\<close>

datatype libdeno_error =
    ErrEntry string
  | ErrPermission string
  | ErrConfiguration string
  | ErrRuntime string
  | ErrCore string
  | ErrIo io_error
  | ErrTimeout string

type_synonym 'a io_result = "io_error + 'a"
type_synonym 'a libdeno_result = "libdeno_error + 'a"

definition invalid_data :: "string \<Rightarrow> io_error" where
  "invalid_data message = IoError EkInvalidData message"

lemma io_kind_invalid_data [simp]: "io_kind (invalid_data m) = EkInvalidData"
  by (simp add: invalid_data_def)

definition is_ok :: "'e + 'a \<Rightarrow> bool" where
  "is_ok r = (case r of Inl _ \<Rightarrow> False | Inr _ \<Rightarrow> True)"

lemma is_ok_simps [simp]: "is_ok (Inl e) = False" "is_ok (Inr x) = True"
  by (simp_all add: is_ok_def)

lemma is_ok_iff: "is_ok r \<longleftrightarrow> (\<exists>x. r = Inr x)"
  by (cases r) auto

definition map_err :: "('e \<Rightarrow> 'f) \<Rightarrow> 'e + 'a \<Rightarrow> 'f + 'a" where
  "map_err f r = (case r of Inl e \<Rightarrow> Inl (f e) | Inr x \<Rightarrow> Inr x)"

lemma map_err_simps [simp]: "map_err f (Inl e) = Inl (f e)" "map_err f (Inr x) = Inr x"
  by (simp_all add: map_err_def)

text \<open>The \<^verbatim>\<open>?\<close> operator: stop at the first error.\<close>

definition bind_res :: "'e + 'a \<Rightarrow> ('a \<Rightarrow> 'e + 'b) \<Rightarrow> 'e + 'b" where
  "bind_res r f = (case r of Inl e \<Rightarrow> Inl e | Inr x \<Rightarrow> f x)"

lemma bind_res_simps [simp]: "bind_res (Inl e) f = Inl e" "bind_res (Inr x) f = f x"
  by (simp_all add: bind_res_def)

lemma bind_res_Inr: "bind_res r f = Inr y \<longleftrightarrow> (\<exists>x. r = Inr x \<and> f x = Inr y)"
  by (cases r) auto

section \<open>Hash maps as association lists\<close>

text \<open>
  A \<^verbatim>\<open>HashMap\<close> is an association list with distinct keys; \<open>AList.update\<close> is \<^verbatim>\<open>insert\<close> and
  \<open>AList.delete\<close> is \<^verbatim>\<open>remove\<close>. The iteration order of a \<^verbatim>\<open>HashMap\<close> is unspecified; here it is
  the order of the list, for an arbitrary list.
\<close>

definition keys_distinct :: "('k \<times> 'v) list \<Rightarrow> bool" where
  "keys_distinct m = distinct (map fst m)"

lemma keys_distinct_Nil [simp]: "keys_distinct []"
  by (simp add: keys_distinct_def)

lemma keys_distinct_update [intro, simp]: "keys_distinct m \<Longrightarrow> keys_distinct (AList.update k v m)"
  by (simp add: keys_distinct_def distinct_update)

lemma keys_distinct_delete [intro, simp]: "keys_distinct m \<Longrightarrow> keys_distinct (AList.delete k m)"
  by (simp add: keys_distinct_def distinct_delete)

lemma length_alist_update:
  "length (AList.update k v m) = (if k \<in> fst ` set m then length m else Suc (length m))"
  by (induction m) auto

lemma length_alist_delete_le: "length (AList.delete k m) \<le> length m"
  by (induction m) auto

lemma length_alist_delete:
  "keys_distinct m \<Longrightarrow>
   length (AList.delete k m) = (if k \<in> fst ` set m then length m - 1 else length m)"
proof (induction m)
  case Nil
  then show ?case by simp
next
  case (Cons p m)
  show ?case
  proof (cases "fst p = k")
    case True
    with Cons.prems have "k \<notin> fst ` set m"
      by (auto simp: keys_distinct_def)
    then have "AList.delete k m = m"
      by (simp add: image_image delete_id)
    with True show ?thesis by simp
  next
    case False
    have "length m \<noteq> 0" if "k \<in> fst ` set m"
      using that by auto
    with False Cons show ?thesis
      by (auto simp: keys_distinct_def)
  qed
qed

lemma map_of_alist_update: "map_of (AList.update k v m) = (map_of m)(k \<mapsto> v)"
  by (rule update_conv')

lemma map_of_alist_delete: "map_of (AList.delete k m) = (map_of m)(k := None)"
  by (rule delete_conv')

lemma map_of_eq_Some_distinct:
  "keys_distinct m \<Longrightarrow> map_of m k = Some v \<longleftrightarrow> (k, v) \<in> set m"
  by (simp add: keys_distinct_def)

lemma set_alist_update:
  "keys_distinct m \<Longrightarrow> set (AList.update k v m) = {p \<in> set m. fst p \<noteq> k} \<union> {(k, v)}"
  by (induction m) (auto simp: keys_distinct_def, force)

lemma set_alist_delete: "set (AList.delete k m) = {p \<in> set m. fst p \<noteq> k}"
  by (induction m) auto

lemmas alist_simps =
  map_of_alist_update map_of_alist_delete length_alist_update set_alist_update set_alist_delete

section \<open>Lists\<close>

lemma find_index_split:
  "(\<exists>x \<in> set xs. P x) \<Longrightarrow>
   \<exists>ys x zs. xs = ys @ x # zs \<and> P x \<and> (\<forall>y \<in> set ys. \<not> P y)"
  by (rule split_list_first_prop) auto

text \<open>\<^verbatim>\<open>VecDeque::iter().position(p)\<close> followed by \<^verbatim>\<open>remove(index)\<close>.\<close>

fun remove_first :: "('a \<Rightarrow> bool) \<Rightarrow> 'a list \<Rightarrow> 'a option \<times> 'a list" where
  "remove_first p [] = (None, [])"
| "remove_first p (x # xs) =
     (if p x then (Some x, xs)
      else (case remove_first p xs of (r, rest) \<Rightarrow> (r, x # rest)))"

lemma remove_first_None:
  "fst (remove_first p xs) = None \<longleftrightarrow> (\<forall>x \<in> set xs. \<not> p x)"
  by (induction xs) (auto split: prod.splits)

lemma remove_first_None_rest:
  "remove_first p xs = (None, ys) \<Longrightarrow> ys = xs \<and> (\<forall>x \<in> set xs. \<not> p x)"
  by (induction xs arbitrary: ys) (auto split: prod.splits if_splits)

lemma remove_first_Some:
  "remove_first p xs = (Some x, ys) \<Longrightarrow>
   \<exists>us vs. xs = us @ x # vs \<and> ys = us @ vs \<and> p x \<and> (\<forall>u \<in> set us. \<not> p u)"
proof (induction xs arbitrary: ys)
  case Nil
  then show ?case by simp
next
  case (Cons a xs)
  show ?case
  proof (cases "p a")
    case True
    with Cons.prems have "xs = ys" and "a = x" by simp_all
    with True have "a # xs = [] @ x # ys \<and> ys = [] @ ys \<and> p x \<and> (\<forall>u \<in> set []. \<not> p u)"
      by simp
    then show ?thesis by blast
  next
    case False
    with Cons.prems obtain zs where r: "remove_first p xs = (Some x, zs)" and ys: "ys = a # zs"
      by (auto split: prod.splits)
    from Cons.IH [OF r] obtain us vs
      where "xs = us @ x # vs" "zs = us @ vs" "p x" "\<forall>u \<in> set us. \<not> p u"
      by blast
    with ys False have "a # xs = (a # us) @ x # vs \<and> ys = (a # us) @ vs \<and> p x
        \<and> (\<forall>u \<in> set (a # us). \<not> p u)"
      by simp
    then show ?thesis by blast
  qed
qed

lemma remove_first_length:
  "remove_first p xs = (Some x, ys) \<Longrightarrow> length xs = Suc (length ys)"
  by (auto dest: remove_first_Some)

lemma remove_first_set:
  "remove_first p xs = (r, ys) \<Longrightarrow> set ys \<subseteq> set xs"
  by (cases r) (auto dest: remove_first_None_rest remove_first_Some)

lemma filter_key_single:
  "distinct (map f xs) \<Longrightarrow> k \<in> f ` set xs \<Longrightarrow> length (filter (\<lambda>x. f x = k) xs) = 1"
proof (induction xs)
  case Nil
  then show ?case by simp
next
  case (Cons x xs)
  show ?case
  proof (cases "f x = k")
    case True
    with Cons.prems have "k \<notin> f ` set xs" by simp
    then have "filter (\<lambda>x. f x = k) xs = []"
      unfolding filter_empty_conv by (metis imageI)
    with True show ?thesis by simp
  next
    case False
    with Cons show ?thesis by auto
  qed
qed

section \<open>Formatting\<close>

text \<open>\<^verbatim>\<open>Display\<close> of an unsigned number.\<close>

fun show_nat :: "nat \<Rightarrow> string" where
  "show_nat n = (if n < 10 then [char_of (48 + n)] else show_nat (n div 10) @ [char_of (48 + n mod 10)])"

declare show_nat.simps [simp del]

section \<open>Interfaces\<close>

text \<open>
  A cell that keeps the first value written to it. \<open>CancellationContext.reason\<close>
  (\<^verbatim>\<open>get_or_insert\<close>) and \<open>ResultCell.completion\<close> (\<^verbatim>\<open>if completion.is_none()\<close>) are such cells.
\<close>

locale first_wins =
  fixes get :: "'s \<Rightarrow> 'v option"
    and put :: "'v \<Rightarrow> 's \<Rightarrow> 's"
  assumes put_fresh: "get s = None \<Longrightarrow> get (put v s) = Some v"
    and put_kept: "get s = Some w \<Longrightarrow> get (put v s) = Some w"
begin

lemma put_get: "get (put v s) = Some (case get s of None \<Rightarrow> v | Some w \<Rightarrow> w)"
  by (cases "get s") (simp_all add: put_fresh put_kept)

lemma fold_kept: "get s = Some w \<Longrightarrow> get (fold put vs s) = Some w"
  by (induction vs arbitrary: s) (simp_all add: put_kept)

lemma fold_first: "get s = None \<Longrightarrow> get (fold put vs s) = (case vs of [] \<Rightarrow> None | v # _ \<Rightarrow> Some v)"
  by (cases vs) (simp_all add: fold_kept put_fresh)

end

text \<open>
  A registry whose entries carry a registration token: inserting under a key replaces what
  was there, and removing needs the token that the entry still carries. The thread
  messaging domain (\<^verbatim>\<open>Arc::ptr_eq\<close>) and the worker registry (\<open>registration_id\<close>) share it.
\<close>

locale guarded_registry =
  fixes token :: "'s \<Rightarrow> 'k \<Rightarrow> 't option"
    and insert_entry :: "'k \<Rightarrow> 't \<Rightarrow> 's \<Rightarrow> 's"
    and remove_entry :: "'k \<Rightarrow> 't \<Rightarrow> 's \<Rightarrow> 's"
  assumes token_insert: "token (insert_entry k t s) = (token s)(k \<mapsto> t)"
    and token_remove:
      "token (remove_entry k t s) = (if token s k = Some t then (token s)(k := None) else token s)"
begin

text \<open>A removal with a stale token leaves the newer registration in place.\<close>

lemma stale_remove: "t \<noteq> t' \<Longrightarrow> token (remove_entry k t (insert_entry k t' s)) k = Some t'"
  by (simp add: token_insert token_remove)

lemma own_remove: "token (remove_entry k t (insert_entry k t s)) k = None"
  by (simp add: token_insert token_remove)

lemma remove_other: "k \<noteq> k' \<Longrightarrow> token (remove_entry k t s) k' = token s k'"
  by (simp add: token_remove)

lemma remove_idem: "token (remove_entry k t (remove_entry k t s)) = token (remove_entry k t s)"
  by (simp add: token_remove)

text \<open>Any number of stale removals keeps the current registration.\<close>

lemma stale_removes:
  "token s k = Some t' \<Longrightarrow> (k, t') \<notin> set kts \<Longrightarrow>
   token (fold (\<lambda>(k, t). remove_entry k t) kts s) k = Some t'"
proof (induction kts arbitrary: s)
  case Nil
  then show ?case by simp
next
  case (Cons p kts)
  obtain k1 t1 where p: "p = (k1, t1)" by (cases p)
  have "token (remove_entry k1 t1 s) k = Some t'"
    using Cons.prems p by (auto simp: token_remove)
  moreover have "(k, t') \<notin> set kts"
    using Cons.prems(2) by simp
  ultimately show ?case
    using p by (simp add: Cons.IH)
qed

end

text \<open>A transition system with an inductive invariant.\<close>

inductive reach :: "('s \<Rightarrow> bool) \<Rightarrow> ('s \<Rightarrow> 's \<Rightarrow> bool) \<Rightarrow> 's \<Rightarrow> bool" for init step where
  reach_init: "init s \<Longrightarrow> reach init step s"
| reach_step: "reach init step s \<Longrightarrow> step s t \<Longrightarrow> reach init step t"

lemma reach_steps: "step\<^sup>*\<^sup>* s t \<Longrightarrow> reach init step s \<Longrightarrow> reach init step t"
  by (induction rule: rtranclp_induct) (auto intro: reach_step)

locale invariant_system =
  fixes init :: "'s \<Rightarrow> bool"
    and step :: "'s \<Rightarrow> 's \<Rightarrow> bool"
    and inv :: "'s \<Rightarrow> bool"
  assumes inv_init: "init s \<Longrightarrow> inv s"
    and inv_step: "inv s \<Longrightarrow> step s t \<Longrightarrow> inv t"
begin

lemma reach_inv: "reach init step s \<Longrightarrow> inv s"
  by (induction rule: reach.induct) (auto intro: inv_init inv_step)

lemma steps_inv: "step\<^sup>*\<^sup>* s t \<Longrightarrow> inv s \<Longrightarrow> inv t"
  by (induction rule: rtranclp_induct) (auto intro: inv_step)

end

text \<open>A codec: decoding inverts encoding. A fixed-width codec yields byte lists of one length.\<close>

locale codec =
  fixes enc :: "'a \<Rightarrow> 'b"
    and dec :: "'b \<Rightarrow> 'a option"
  assumes dec_enc: "dec (enc x) = Some x"
begin

lemma enc_inject: "enc x = enc y \<longleftrightarrow> x = y"
proof
  assume "enc x = enc y"
  then have "dec (enc x) = dec (enc y)" by simp
  then show "x = y" by (simp add: dec_enc)
qed simp

end

locale fixed_codec = codec enc dec for enc :: "'a \<Rightarrow> 'c list" and dec :: "'c list \<Rightarrow> 'a option" +
  fixes width :: nat
  assumes enc_length: "length (enc x) = width"
begin

lemma dec_prefix: "dec (take width (enc x @ rest)) = Some x"
  by (simp add: enc_length dec_enc)

lemma drop_prefix: "drop width (enc x @ rest) = rest"
  by (simp add: enc_length)

end

end
