(* ===== verification/Ld_Token.thy ===== *)
theory Ld_Token
  imports Ld_Prelude
begin

unbundle bit_operations_syntax

text \<open>
  Tokens and resource budgets. \<open>constant_time_eq\<close> and \<open>hex_encode\<close> are src/src/token.rs;
  the \<open>token_\<close> operations are \<open>SupervisorToken\<close> of src/src/supervisor.rs. The second half is
  src/src/budget.rs: the compare-and-swap loop that reserves one of a fixed number of slots,
  as an interleaving of any number of threads.
\<close>

type_synonym byte = "8 word"
type_synonym bytes = "byte list"

section \<open>Comparison without early exit\<close>

text \<open>\<open>candidate.get(index).copied().unwrap_or_default()\<close>\<close>

definition get_or_zero :: "bytes \<Rightarrow> nat \<Rightarrow> byte" where
  "get_or_zero xs i = (if i < length xs then xs ! i else 0)"

text \<open>The loop \<open>for (index, byte) in expected.iter().enumerate()\<close> over the accumulator.\<close>

fun difference_from :: "bytes \<Rightarrow> nat \<Rightarrow> bytes \<Rightarrow> byte \<Rightarrow> byte" where
  "difference_from candidate index [] difference = difference"
| "difference_from candidate index (b # expected) difference =
     difference_from candidate (Suc index) expected
       (difference OR (b XOR get_or_zero candidate index))"

definition constant_time_eq :: "bytes \<Rightarrow> bytes \<Rightarrow> bool" where
  "constant_time_eq candidate expected =
     (if candidate = [] then False
      else difference_from candidate 0 expected
             (if length candidate \<noteq> length expected then 1 else 0) = 0)"

lemma or_eq_zero_word: "(a OR b = 0) \<longleftrightarrow> a = 0 \<and> b = (0 :: byte)"
  by (rule or_eq_0_iff)

lemma xor_eq_zero_word: "(a XOR b = 0) \<longleftrightarrow> a = (b :: byte)"
proof
  assume "a XOR b = 0"
  then have "(a XOR b) XOR b = b" by simp
  then show "a = b" by (simp add: xor.assoc)
qed simp

lemma difference_from_zero:
  "difference_from candidate i expected d = 0 \<longleftrightarrow>
   d = 0 \<and> (\<forall>j < length expected. expected ! j = get_or_zero candidate (i + j))"
proof (induction expected arbitrary: i d)
  case Nil
  then show ?case by simp
next
  case (Cons b expected)
  have "(\<forall>j < length (b # expected). (b # expected) ! j = get_or_zero candidate (i + j)) \<longleftrightarrow>
      b = get_or_zero candidate i \<and>
      (\<forall>j < length expected. expected ! j = get_or_zero candidate (Suc i + j))"
    by (auto simp: less_Suc_eq_0_disj)
  then show ?case
    by (auto simp: Cons or_eq_zero_word xor_eq_zero_word)
qed

lemma difference_from_eq:
  "difference_from candidate 0 expected (if length candidate \<noteq> length expected then 1 else 0) = 0
   \<longleftrightarrow> candidate = expected"
proof -
  have "candidate = expected \<longleftrightarrow> length candidate = length expected \<and>
      (\<forall>j < length expected. expected ! j = get_or_zero candidate j)"
    by (auto simp: get_or_zero_def list_eq_iff_nth_eq)
  then show ?thesis by (simp add: difference_from_zero)
qed

text \<open>
  The comparison without an early exit decides equality of non-empty byte strings.
\<close>

theorem constant_time_eq_correct:
  "constant_time_eq candidate expected \<longleftrightarrow> candidate = expected \<and> candidate \<noteq> []"
  by (auto simp: constant_time_eq_def difference_from_eq split: if_splits)

section \<open>Supervisor tokens\<close>

definition SUPERVISOR_TOKEN_LEN :: nat where
  "SUPERVISOR_TOKEN_LEN = 16"

text \<open>
  A \<open>SupervisorToken\<close> is an array of 16 bytes, here a list; \<open>token_wf\<close> is the array's length.
\<close>

type_synonym supervisor_token = bytes

definition token_wf :: "supervisor_token \<Rightarrow> bool" where
  "token_wf t = (length t = SUPERVISOR_TOKEN_LEN)"

fun auth_loop :: "supervisor_token \<Rightarrow> bytes \<Rightarrow> nat list \<Rightarrow> byte \<Rightarrow> byte" where
  "auth_loop token candidate [] difference = difference"
| "auth_loop token candidate (index # rest) difference =
     auth_loop token candidate rest
       (difference OR (get_or_zero token index XOR get_or_zero candidate index))"

definition token_authenticate :: "supervisor_token \<Rightarrow> bytes \<Rightarrow> bool" where
  "token_authenticate token candidate =
     (auth_loop token candidate [0..<length token]
        (if length candidate \<noteq> length token then 1 else 0) = 0)"

lemma auth_loop_zero:
  "auth_loop token candidate is d = 0 \<longleftrightarrow>
   d = 0 \<and> (\<forall>i \<in> set is. get_or_zero token i = get_or_zero candidate i)"
  by (induction "is" arbitrary: d) (auto simp: or_eq_zero_word xor_eq_zero_word)

lemma token_authenticate_iff: "token_authenticate token candidate \<longleftrightarrow> candidate = token"
proof -
  have "candidate = token \<longleftrightarrow> length candidate = length token \<and>
      (\<forall>i < length token. get_or_zero token i = get_or_zero candidate i)"
    by (auto simp: get_or_zero_def list_eq_iff_nth_eq)
  then show ?thesis by (auto simp: token_authenticate_def auth_loop_zero)
qed

text \<open>\<open>format!("{byte:02x}")\<close>: two lowercase hexadecimal digits.\<close>

definition hex_char :: "nat \<Rightarrow> char" where
  "hex_char n = (if n < 10 then char_of (48 + n) else char_of (87 + n))"

definition format_02x :: "byte \<Rightarrow> string" where
  "format_02x b = [hex_char (unat b div 16), hex_char (unat b mod 16)]"

definition hex_encode :: "bytes \<Rightarrow> string" where
  "hex_encode bs = concat (map format_02x bs)"

text \<open>
  \<open>random_hex\<close>: the operating system's randomness is an argument, an error or the bytes.
\<close>

definition random_hex :: "'e + bytes \<Rightarrow> 'e + string" where
  "random_hex fill = bind_res fill (\<lambda>buffer. Inr (hex_encode buffer))"

definition token_to_hex :: "supervisor_token \<Rightarrow> string" where
  "token_to_hex token = hex_encode token"

definition hex_digit :: "byte \<Rightarrow> byte io_result" where
  "hex_digit value =
     (if 48 \<le> value \<and> value \<le> 57 then Inr (value - 48)
      else if 97 \<le> value \<and> value \<le> 102 then Inr (value - 97 + 10)
      else if 65 \<le> value \<and> value \<le> 70 then Inr (value - 65 + 10)
      else Inl (invalid_data ''invalid supervisor token''))"

text \<open>\<open>as_chunks::<2>().0\<close> and the loop over the pairs.\<close>

fun decode_pairs :: "bytes \<Rightarrow> bytes io_result" where
  "decode_pairs (a # b # rest) =
     bind_res (hex_digit a) (\<lambda>hi.
     bind_res (hex_digit b) (\<lambda>lo.
     bind_res (decode_pairs rest) (\<lambda>bs.
     Inr ((push_bit 4 hi OR lo) # bs))))"
| "decode_pairs _ = Inr []"

definition str_bytes :: "string \<Rightarrow> bytes" where
  "str_bytes s = map of_char s"

definition token_from_hex :: "string \<Rightarrow> supervisor_token io_result" where
  "token_from_hex value =
     (if length (str_bytes value) \<noteq> SUPERVISOR_TOKEN_LEN * 2
      then Inl (invalid_data ''invalid supervisor token'')
      else decode_pairs (str_bytes value))"

lemma of_char_char_of: "of_char (char_of n) = (word_of_nat (n mod 256) :: byte)"
  by (metis of_char_of of_nat_of_char)

lemma unat_small_byte: "n < 256 \<Longrightarrow> unat (word_of_nat n :: byte) = n"
  by (simp add: unat_of_nat)

lemma hex_char_digit: "n < 16 \<Longrightarrow> hex_digit (of_char (hex_char n)) = Inr (word_of_nat n)"
proof (cases "n < 10")
  case True
  then have c: "of_char (hex_char n) = (word_of_nat (48 + n) :: byte)"
    by (simp add: hex_char_def of_char_char_of)
  have "unat (word_of_nat (48 + n) :: byte) = 48 + n"
    using True by (intro unat_small_byte) simp
  then show ?thesis
    using True by (simp only: c hex_digit_def word_le_nat_alt) simp
next
  case False
  assume n: "n < 16"
  with False have c: "of_char (hex_char n) = (word_of_nat (87 + n) :: byte)"
    by (simp add: hex_char_def of_char_char_of)
  have "unat (word_of_nat (87 + n) :: byte) = 87 + n"
    using n by (intro unat_small_byte) simp
  then show ?thesis
    using n False by (simp only: c hex_digit_def word_le_nat_alt) simp
qed

lemma high_nibble: "word_of_nat (unat b div 16) = drop_bit 4 (b :: byte)"
proof -
  have "unat (drop_bit 4 b) = unat b div 16"
    by (simp add: drop_bit_eq_div unat_div)
  then show ?thesis by (metis of_nat_unat ucast_id)
qed

lemma low_nibble: "word_of_nat (unat b mod 16) = take_bit 4 (b :: byte)"
proof -
  have "unat (take_bit 4 b) = unat b mod 16"
    by (simp add: take_bit_eq_mod unat_mod)
  then show ?thesis by (metis of_nat_unat ucast_id)
qed

lemma nibbles: "push_bit 4 (word_of_nat (unat b div 16)) OR word_of_nat (unat b mod 16) = (b :: byte)"
  unfolding high_nibble low_nibble by (rule bit_eqI) (auto simp: bit_simps)

lemma unat_byte_less: "unat (b :: byte) < 256"
  using unsigned_less [of b, where 'a = nat] by simp

lemma decode_pairs_hex: "decode_pairs (str_bytes (hex_encode bs)) = Inr bs"
proof (induction bs)
  case Nil
  then show ?case by (simp add: hex_encode_def str_bytes_def)
next
  case (Cons b bs)
  have "unat b < 256" by (rule unat_byte_less)
  then have "unat b div 16 < 16" and "unat b mod 16 < 16" by auto
  then show ?case
    using Cons by (simp add: hex_encode_def str_bytes_def format_02x_def hex_char_digit nibbles)
qed

lemma length_hex_encode [simp]: "length (hex_encode bs) = 2 * length bs"
  by (induction bs) (simp_all add: hex_encode_def format_02x_def)

lemma length_str_bytes [simp]: "length (str_bytes s) = length s"
  by (simp add: str_bytes_def)

lemma token_hex_roundtrip_any:
  "token_from_hex (token_to_hex t) =
   (if token_wf t then Inr t else Inl (invalid_data ''invalid supervisor token''))"
  by (simp add: token_from_hex_def token_to_hex_def token_wf_def decode_pairs_hex)

lemma decode_pairs_length: "decode_pairs xs = Inr bs \<Longrightarrow> length bs = length xs div 2"
  by (induction xs arbitrary: bs rule: decode_pairs.induct) (auto simp: bind_res_Inr)

lemma token_from_hex_wf: "token_from_hex s = Inr t \<Longrightarrow> token_wf t"
  by (auto simp: token_from_hex_def token_wf_def dest!: decode_pairs_length split: if_splits)

section \<open>Budgets\<close>

text \<open>
  \<open>budget_reserve\<close> is the loop of \<open>reserve\<close>. Its argument \<open>active\<close> is the value last read, and
  the list says how each \<open>compare_exchange_weak\<close> went: it succeeded, or it failed and read
  \<open>next\<close>. A weak exchange may fail although the counter did not change, so any list is
  possible; \<open>None\<close> is a loop that is still running when the list ends.
\<close>

datatype cas_outcome = CasOk | CasErr nat

fun budget_reserve ::
  "nat \<Rightarrow> string \<Rightarrow> nat \<Rightarrow> cas_outcome list \<Rightarrow> (io_error + nat) option" where
  "budget_reserve lim what active outcomes =
     (if lim \<le> active
      then Some (Inl (IoError EkWouldBlock (what @ '' resource budget exhausted: '' @ show_nat active
             @ '' active, maximum '' @ show_nat lim)))
      else (case outcomes of
              [] \<Rightarrow> None
            | CasOk # _ \<Rightarrow> Some (Inr (active + 1))
            | CasErr next # rest \<Rightarrow> budget_reserve lim what next rest))"

declare budget_reserve.simps [simp del]

lemma budget_reserve_bound: "budget_reserve lim what active outs = Some (Inr n) \<Longrightarrow> 0 < n \<and> n \<le> lim"
proof (induction lim what active outs rule: budget_reserve.induct)
  case (1 lim what active outs)
  from "1.prems" show ?case
    by (subst (asm) budget_reserve.simps)
      (auto split: if_splits list.splits cas_outcome.splits dest: "1.IH")
qed

text \<open>
  The interleaving of all threads on one counter. \<open>bs_local\<close> holds, for every thread that is
  inside \<open>reserve\<close>, the value it read last; \<open>bs_guards\<close> counts the live \<open>BudgetGuard\<close>s.
\<close>

record budget_sys =
  bs_counter :: nat
  bs_guards :: nat
  bs_local :: "(nat \<times> nat) list"

inductive budget_step :: "nat \<Rightarrow> budget_sys \<Rightarrow> budget_sys \<Rightarrow> bool" for lim where
  load: "budget_step lim s (s\<lparr>bs_local := AList.update t (bs_counter s) (bs_local s)\<rparr>)"
| exhausted: "map_of (bs_local s) t = Some a \<Longrightarrow> lim \<le> a \<Longrightarrow>
     budget_step lim s (s\<lparr>bs_local := AList.delete t (bs_local s)\<rparr>)"
| exchange: "map_of (bs_local s) t = Some a \<Longrightarrow> a < lim \<Longrightarrow> bs_counter s = a \<Longrightarrow>
     budget_step lim s (s\<lparr>bs_counter := a + 1, bs_guards := bs_guards s + 1,
                          bs_local := AList.delete t (bs_local s)\<rparr>)"
| exchange_failed: "map_of (bs_local s) t = Some a \<Longrightarrow> a < lim \<Longrightarrow>
     budget_step lim s (s\<lparr>bs_local := AList.update t (bs_counter s) (bs_local s)\<rparr>)"
| guard_drop: "0 < bs_guards s \<Longrightarrow>
     budget_step lim s (s\<lparr>bs_counter := bs_counter s - 1, bs_guards := bs_guards s - 1\<rparr>)"

definition budget_init :: "budget_sys \<Rightarrow> bool" where
  "budget_init s \<longleftrightarrow> s = \<lparr>bs_counter = 0, bs_guards = 0, bs_local = []\<rparr>"

definition budget_inv :: "nat \<Rightarrow> budget_sys \<Rightarrow> bool" where
  "budget_inv lim s \<longleftrightarrow> bs_counter s = bs_guards s \<and> bs_guards s \<le> lim"

interpretation budget: invariant_system budget_init "budget_step lim" "budget_inv lim" for lim
proof unfold_locales
  fix s assume "budget_init s"
  then show "budget_inv lim s" by (simp add: budget_init_def budget_inv_def)
next
  fix s t assume "budget_inv lim s" "budget_step lim s t"
  then show "budget_inv lim t"
    by (auto simp: budget_inv_def elim!: budget_step.cases)
qed

text \<open>
  Whatever the interleaving of reservations, failed exchanges and releases, the number of live
  guards never exceeds the maximum, and the counter is always the number of guards.
\<close>

theorem budget_never_exceeded:
  assumes "reach budget_init (budget_step lim) s"
  shows "bs_guards s \<le> lim \<and> bs_counter s = bs_guards s"
  using budget.reach_inv [OF assms] by (simp add: budget_inv_def)

text \<open>
  A run with a maximum of one: thread 0 reads the counter and its exchange succeeds.
\<close>

definition sample_budget :: budget_sys where
  "sample_budget = \<lparr>bs_counter = 1, bs_guards = 1, bs_local = []\<rparr>"

lemma sample_budget_reach: "reach budget_init (budget_step 1) sample_budget"
proof -
  let ?s0 = "\<lparr>bs_counter = 0, bs_guards = 0, bs_local = []\<rparr>"
  let ?s1 = "?s0\<lparr>bs_local := AList.update 0 0 []\<rparr>"
  have "budget_step 1 ?s0 ?s1" using budget_step.load [of 1 ?s0 0] by simp
  then have "reach budget_init (budget_step 1) ?s1"
    by (rule reach_step [rotated]) (simp add: reach_init budget_init_def)
  moreover have "budget_step 1 ?s1 sample_budget"
    using budget_step.exchange [of ?s1 0 0 1] by (simp add: sample_budget_def)
  ultimately show ?thesis by (rule reach_step)
qed

theorem budget_never_exceeded_witness: "bs_guards sample_budget \<le> 1"
  using budget_never_exceeded [OF sample_budget_reach] by simp

end
