(* ===== verification/Ld_Limits.thy ===== *)
theory Ld_Limits
  imports Ld_Token
begin

text \<open>
  src/src/limits.rs: the cancellation context shared by the executor, the supervisor and the
  runtime; option validation; the execution deadline of one run with its terminator thread;
  and the one-shot startup handoff of a Node IPC channel.
\<close>

section \<open>Cancellation\<close>

datatype cancel_reason = CrUser | CrDeadline | CrShutdown

text \<open>
  \<open>CancellationContext\<close>. \<open>cc_isolate\<close> is the registered isolate handle, a number here. The
  last two fields record effects: the isolates on which \<open>terminate_execution\<close> was called, in
  order, and how often \<open>notify_waiters\<close> was.
\<close>

record cancel_ctx =
  cc_requested :: bool
  cc_isolate :: "nat option"
  cc_reason :: "cancel_reason option"
  cc_terminated :: "nat list"
  cc_notified :: nat

definition cancel_ctx_new :: cancel_ctx where
  "cancel_ctx_new = \<lparr>cc_requested = False, cc_isolate = None, cc_reason = None,
     cc_terminated = [], cc_notified = 0\<rparr>"

definition terminate_isolate :: "nat option \<Rightarrow> cancel_ctx \<Rightarrow> cancel_ctx" where
  "terminate_isolate handle c =
     (case handle of None \<Rightarrow> c | Some i \<Rightarrow> c\<lparr>cc_terminated := cc_terminated c @ [i]\<rparr>)"

definition get_or_insert :: "'a \<Rightarrow> 'a option \<Rightarrow> 'a option" where
  "get_or_insert v cell = (case cell of None \<Rightarrow> Some v | Some w \<Rightarrow> Some w)"

definition request_with_reason :: "cancel_reason \<Rightarrow> cancel_ctx \<Rightarrow> cancel_ctx" where
  "request_with_reason reason c =
     (let c = c\<lparr>cc_reason := get_or_insert reason (cc_reason c)\<rparr>;
          c = c\<lparr>cc_requested := True\<rparr>;
          c = c\<lparr>cc_notified := cc_notified c + 1\<rparr>
      in terminate_isolate (cc_isolate c) c)"

definition cancel_register :: "nat \<Rightarrow> cancel_ctx \<Rightarrow> cancel_ctx" where
  "cancel_register isolate c =
     (let should_terminate = cc_requested c;
          c = c\<lparr>cc_isolate := Some isolate\<rparr>
      in if should_terminate then terminate_isolate (Some isolate) c else c)"

definition cancel_clear :: "cancel_ctx \<Rightarrow> cancel_ctx" where
  "cancel_clear c = c\<lparr>cc_isolate := None\<rparr>"

lemma cc_request_simps [simp]:
  "cc_requested (request_with_reason r c) = True"
  "cc_reason (request_with_reason r c) = get_or_insert r (cc_reason c)"
  "cc_isolate (request_with_reason r c) = cc_isolate c"
  "cc_terminated (request_with_reason r c) =
     cc_terminated c @ (case cc_isolate c of None \<Rightarrow> [] | Some i \<Rightarrow> [i])"
  by (simp_all add: request_with_reason_def terminate_isolate_def Let_def split: option.split)

lemma cc_register_simps [simp]:
  "cc_requested (cancel_register i c) = cc_requested c"
  "cc_reason (cancel_register i c) = cc_reason c"
  "cc_isolate (cancel_register i c) = Some i"
  "cc_terminated (cancel_register i c) =
     cc_terminated c @ (if cc_requested c then [i] else [])"
  by (simp_all add: cancel_register_def terminate_isolate_def Let_def)

lemma cc_clear_simps [simp]:
  "cc_requested (cancel_clear c) = cc_requested c"
  "cc_reason (cancel_clear c) = cc_reason c"
  "cc_isolate (cancel_clear c) = None"
  "cc_terminated (cancel_clear c) = cc_terminated c"
  by (simp_all add: cancel_clear_def)

interpretation reason_cell: first_wins cc_reason request_with_reason
  by unfold_locales (simp_all add: get_or_insert_def)

text \<open>The operations any thread may perform on a context, in any order.\<close>

datatype cancel_op = OpRequest cancel_reason | OpRegister nat | OpClear

fun cancel_apply :: "cancel_op \<Rightarrow> cancel_ctx \<Rightarrow> cancel_ctx" where
  "cancel_apply (OpRequest r) c = request_with_reason r c"
| "cancel_apply (OpRegister i) c = cancel_register i c"
| "cancel_apply OpClear c = cancel_clear c"

fun first_request :: "cancel_op list \<Rightarrow> cancel_reason option" where
  "first_request [] = None"
| "first_request (OpRequest r # ops) = Some r"
| "first_request (_ # ops) = first_request ops"

lemma cancel_reason_kept:
  "cc_reason c = Some r \<Longrightarrow> cc_reason (fold cancel_apply ops c) = Some r"
proof (induction ops arbitrary: c)
  case Nil
  then show ?case by simp
next
  case (Cons op ops)
  then show ?case by (cases op) (simp_all add: get_or_insert_def)
qed

lemma cancel_reason_first:
  "cc_reason c = None \<Longrightarrow> cc_reason (fold cancel_apply ops c) = first_request ops"
proof (induction ops arbitrary: c)
  case Nil
  then show ?case by simp
next
  case (Cons op ops)
  then show ?case
    by (cases op) (simp_all add: get_or_insert_def cancel_reason_kept)
qed

lemma cancel_requested_kept: "cc_requested c \<Longrightarrow> cc_requested (fold cancel_apply ops c)"
proof (induction ops arbitrary: c)
  case Nil
  then show ?case by simp
next
  case (Cons op ops)
  then show ?case by (cases op) simp_all
qed

lemma cancel_requested_iff:
  "\<not> cc_requested c \<Longrightarrow> cc_requested (fold cancel_apply ops c) \<longleftrightarrow> first_request ops \<noteq> None"
proof (induction ops arbitrary: c)
  case Nil
  then show ?case by simp
next
  case (Cons op ops)
  then show ?case by (cases op) (simp_all add: cancel_requested_kept)
qed

text \<open>
  No cancellation is missed between bootstrap and execution: an isolate that is registered
  when the request arrives, or registers afterwards, is terminated.
\<close>

definition cancel_delivered :: "cancel_ctx \<Rightarrow> bool" where
  "cancel_delivered c \<longleftrightarrow>
     (cc_requested c \<longleftrightarrow> cc_reason c \<noteq> None) \<and>
     (cc_requested c \<longrightarrow> (\<forall>i. cc_isolate c = Some i \<longrightarrow> i \<in> set (cc_terminated c)))"

lemma cancel_delivered_apply: "cancel_delivered c \<Longrightarrow> cancel_delivered (cancel_apply op c)"
  by (cases op) (auto simp: cancel_delivered_def get_or_insert_def split: option.split)

lemma cancel_delivered_fold: "cancel_delivered c \<Longrightarrow> cancel_delivered (fold cancel_apply ops c)"
  by (induction ops arbitrary: c) (simp_all add: cancel_delivered_apply)

lemma cancel_delivered_new: "cancel_delivered cancel_ctx_new"
  by (simp add: cancel_delivered_def cancel_ctx_new_def)

text \<open>
  The reason a cancellation context reports is the reason of the first request, however the
  requests, registrations and clears of all threads interleave; a request is never lost; and
  an isolate registered before or after the request has been terminated.
\<close>

theorem cancellation_first_reason_wins:
  "cc_reason (fold cancel_apply ops cancel_ctx_new) = first_request ops
   \<and> (cc_requested (fold cancel_apply ops cancel_ctx_new) = (first_request ops \<noteq> None))
   \<and> cancel_delivered (fold cancel_apply ops cancel_ctx_new)"
proof -
  have "cc_reason cancel_ctx_new = None" and "\<not> cc_requested cancel_ctx_new"
    by (simp_all add: cancel_ctx_new_def)
  then show ?thesis
    by (simp add: cancel_reason_first cancel_requested_iff cancel_delivered_fold
        cancel_delivered_new)
qed

section \<open>Absolute deadline of an in-process submission\<close>

text \<open>
  \<open>AbsoluteDeadlineGuard::new\<close>. The guard either has a watchdog thread waiting for the given
  duration, or none. \<open>spawn\<close> is the outcome of creating the thread.
\<close>

datatype deadline_guard = NoGuard | GuardThread duration

definition absolute_deadline_guard_new ::
  "instant option \<Rightarrow> cancel_ctx option \<Rightarrow> instant \<Rightarrow> unit io_result
   \<Rightarrow> deadline_guard io_result \<times> cancel_ctx option" where
  "absolute_deadline_guard_new deadline cancellation now spawn =
     (case deadline of
        None \<Rightarrow> (Inr NoGuard, cancellation)
      | Some at \<Rightarrow>
        (case cancellation of
           None \<Rightarrow> (Inr NoGuard, cancellation)
         | Some c \<Rightarrow>
           (if at \<le> now then (Inr NoGuard, Some (request_with_reason CrDeadline c))
            else (case spawn of
                    Inl e \<Rightarrow> (Inl e, cancellation)
                  | Inr _ \<Rightarrow> (Inr (GuardThread (saturating_duration_since at now)), cancellation)))))"

text \<open>
  The thread's body: \<open>stopped\<close> says whether the stop message arrived before the wait ended.
\<close>

definition deadline_guard_thread :: "bool \<Rightarrow> cancel_ctx \<Rightarrow> cancel_ctx" where
  "deadline_guard_thread stopped c = (if stopped then c else request_with_reason CrDeadline c)"

section \<open>Option validation\<close>

definition MIN_V8_OLD_GENERATION_BYTES :: "64 word" where
  "MIN_V8_OLD_GENERATION_BYTES = push_bit 20 8"

definition usize_max :: "64 word" where
  "usize_max = - 1"

definition validate_max_heap_bytes :: "64 word option \<Rightarrow> unit libdeno_result" where
  "validate_max_heap_bytes max_heap_bytes =
     (case max_heap_bytes of
        None \<Rightarrow> Inr ()
      | Some bytes \<Rightarrow>
        (if bytes < MIN_V8_OLD_GENERATION_BYTES
         then Inl (ErrConfiguration (''max_heap_bytes='' @ show_nat (unat bytes)
           @ '' is too small; use at least '' @ show_nat (unat MIN_V8_OLD_GENERATION_BYTES)
           @ '' bytes for a V8 old-generation limit''))
         else if bytes = usize_max
         then Inl (ErrConfiguration
                ''max_heap_bytes=usize::MAX cannot be represented as a finite V8 heap budget'')
         else Inr ()))"

text \<open>
  The near-heap-limit callback: it terminates the isolate and doubles the limit, saturating.
\<close>

definition near_heap_limit_callback :: "64 word \<Rightarrow> nat \<Rightarrow> nat list \<Rightarrow> 64 word \<times> nat list" where
  "near_heap_limit_callback current_limit isolate terminated =
     ((if unat current_limit * 2 < 2 ^ 64 then current_limit * 2 else usize_max),
      terminated @ [isolate])"

definition install_heap_limit_guard ::
  "bool \<Rightarrow> nat \<Rightarrow> (64 word \<Rightarrow> nat list \<Rightarrow> 64 word \<times> nat list) option" where
  "install_heap_limit_guard capped isolate =
     (if \<not> capped then None
      else Some (\<lambda>current_limit. near_heap_limit_callback current_limit isolate))"

definition validate_execution_deadline :: "instant \<Rightarrow> duration option \<Rightarrow> unit libdeno_result" where
  "validate_execution_deadline now deadline =
     (case deadline of
        None \<Rightarrow> Inr ()
      | Some d \<Rightarrow>
        (if checked_add_instant now d = None
         then Inl (ErrConfiguration ''execution deadline is too large for the host clock'')
         else Inr ()))"

definition reject_zero_deadline :: "duration option \<Rightarrow> unit libdeno_result" where
  "reject_zero_deadline deadline =
     (if deadline = Some 0
      then Inl (ErrTimeout ''execution deadline of 0ns exceeded; script was not started'')
      else Inr ())"

definition validate_prompt_capture :: "bool \<Rightarrow> bool \<Rightarrow> unit libdeno_result" where
  "validate_prompt_capture prompt capture_stderr =
     (if prompt \<and> capture_stderr
      then Inl (ErrConfiguration ''prompt and capture_stderr cannot be combined: permission prompts are written to stderr and require it to be a terminal, but capture replaces stderr with a pipe, so every ungranted check would be denied without prompting. Capture stdout only, or grant the capabilities up front'')
      else Inr ())"

lemma min_old_generation: "MIN_V8_OLD_GENERATION_BYTES = 8388608"
  by (simp add: MIN_V8_OLD_GENERATION_BYTES_def push_bit_eq_mult)

text \<open>
  An accepted heap cap lies between 8 MiB and usize::MAX, and the near-limit callback never
  lowers the limit and raises an accepted cap strictly, so V8 has the headroom to reach the
  next stack check.
\<close>

theorem heap_cap_has_headroom:
  "(validate_max_heap_bytes (Some bytes) = Inr ()) = (2 ^ 23 \<le> unat bytes \<and> unat bytes < 2 ^ 64 - 1)
   \<and> (validate_max_heap_bytes (Some bytes) = Inr () \<longrightarrow>
        unat bytes < unat (fst (near_heap_limit_callback bytes isolate terminated)))
   \<and> bytes \<le> fst (near_heap_limit_callback bytes isolate terminated)"
proof -
  have below: "bytes < MIN_V8_OLD_GENERATION_BYTES \<longleftrightarrow> unat bytes < 2 ^ 23"
    by (simp add: min_old_generation word_less_nat_alt)
  have bound: "unat bytes < 2 ^ 64" using unsigned_less [of bytes, where 'a = nat] by simp
  have top: "unat usize_max = 2 ^ 64 - 1" by (simp add: usize_max_def unsigned_minus_1_eq_mask mask_eq_exp_minus_1)
  have eqmax: "bytes = usize_max \<longleftrightarrow> unat bytes = 2 ^ 64 - 1"
    using top by (metis word_unat_eq_iff)
  have valid: "(validate_max_heap_bytes (Some bytes) = Inr ())
      = (2 ^ 23 \<le> unat bytes \<and> unat bytes < 2 ^ 64 - 1)"
    using bound by (auto simp: validate_max_heap_bytes_def below eqmax)
  have double: "unat (bytes * 2) = unat bytes * 2" if "unat bytes * 2 < 2 ^ 64"
    using that by (simp add: unat_word_ariths)
  have cb: "unat (fst (near_heap_limit_callback bytes isolate terminated)) =
      (if unat bytes * 2 < 2 ^ 64 then unat bytes * 2 else 2 ^ 64 - 1)"
    by (simp add: near_heap_limit_callback_def double top)
  show ?thesis
    using bound by (simp add: valid word_le_nat_alt cb)
qed

theorem heap_cap_has_headroom_witness:
  "unat (0x800000 :: 64 word) < unat (fst (near_heap_limit_callback 0x800000 0 []))"
  using heap_cap_has_headroom [of "0x800000" 0 "[]"] by simp

section \<open>Execution deadline of one run\<close>

datatype exec_termination =
    TermDeadline duration
  | TermCancelled
  | TermInfrastructure io_error

text \<open>
  The terminator thread of \<open>run_with_termination\<close>. One element of the list is one turn of its
  loop: whether the shared context was requested when the turn began, how \<open>recv_timeout\<close> on
  the completion channel ended, and the clock afterwards. The result says whether the thread
  left its loop, and which flags and effects it left behind.
\<close>

datatype recv_outcome = RecvMessage | RecvDisconnected | RecvTimeout

record terminator_tick =
  tk_requested :: bool
  tk_recv :: recv_outcome
  tk_now :: instant

record terminator_state =
  tm_deadline_fired :: bool
  tm_cancellation_fired :: bool
  tm_workers_closed :: bool
  tm_isolate_terminated :: bool

definition terminator_init :: terminator_state where
  "terminator_init = \<lparr>tm_deadline_fired = False, tm_cancellation_fired = False,
     tm_workers_closed = False, tm_isolate_terminated = False\<rparr>"

fun terminator_loop ::
  "instant option \<Rightarrow> terminator_tick list \<Rightarrow> terminator_state \<Rightarrow> bool \<times> terminator_state" where
  "terminator_loop deadline_at [] s = (False, s)"
| "terminator_loop deadline_at (t # ts) s =
     (if tk_requested t
      then (True, s\<lparr>tm_cancellation_fired := True, tm_workers_closed := True,
                    tm_isolate_terminated := True\<rparr>)
      else (case tk_recv t of
              RecvMessage \<Rightarrow> (True, s)
            | RecvDisconnected \<Rightarrow> (True, s)
            | RecvTimeout \<Rightarrow>
                (if due deadline_at (tk_now t)
                 then (True, s\<lparr>tm_deadline_fired := True, tm_workers_closed := True,
                               tm_isolate_terminated := True\<rparr>)
                 else terminator_loop deadline_at ts s)))"

text \<open>
  Which arm of the \<open>select!\<close> completed: the future itself, the outer timeout
  \<open>deadline + GRACE\<close>, or the cancellation request, after which the future either completes
  within the grace or not.
\<close>

datatype 'r race = RaceCompleted 'r | RaceTimedOut | RaceCancelled "'r option"

definition GRACE :: duration where
  "GRACE = secs 2"

fun race_possible :: "duration option \<Rightarrow> bool \<Rightarrow> 'r race \<Rightarrow> bool" where
  "race_possible deadline cancellable (RaceCompleted r) = True"
| "race_possible deadline cancellable RaceTimedOut = (deadline \<noteq> None)"
| "race_possible deadline cancellable (RaceCancelled r) = cancellable"

definition outer_timeout :: "duration \<Rightarrow> duration" where
  "outer_timeout deadline = saturating_add_duration deadline GRACE"

fun select_result :: "duration option \<Rightarrow> 'r race \<Rightarrow> 'r option \<times> exec_termination option" where
  "select_result deadline (RaceCompleted r) = (Some r, None)"
| "select_result deadline RaceTimedOut =
     (None, (case deadline of None \<Rightarrow> None | Some d \<Rightarrow> Some (TermDeadline d)))"
| "select_result deadline (RaceCancelled (Some r)) = (Some r, None)"
| "select_result deadline (RaceCancelled None) = (None, Some TermCancelled)"

text \<open>
  What \<open>run_with_termination\<close> leaves behind. \<open>rt_result\<close> is \<open>None\<close> for the \<open>expect\<close> that
  would panic; \<open>rt_polled\<close> says whether the future was polled at all.
\<close>

record 'r run_termination =
  rt_result :: "(exec_termination + 'r) option"
  rt_polled :: bool
  rt_context :: "cancel_ctx option"

definition termination_result ::
  "bool \<Rightarrow> exec_termination option \<Rightarrow> 'r option \<Rightarrow> terminator_state \<Rightarrow> duration option
   \<Rightarrow> (exec_termination + 'r) option" where
  "termination_result cancellation_requested termination result flags deadline =
     (if cancellation_requested then Some (Inl TermCancelled)
      else (case termination of
              Some t \<Rightarrow> Some (Inl t)
            | None \<Rightarrow>
              (case result of
                 None \<Rightarrow> None
               | Some r \<Rightarrow>
                 (if tm_cancellation_fired flags then Some (Inl TermCancelled)
                  else if tm_deadline_fired flags
                  then Some (Inl (TermDeadline (case deadline of None \<Rightarrow> 0 | Some d \<Rightarrow> d)))
                  else Some (Inr r)))))"

text \<open>
  \<open>future\<close> is what the future returns on its own; \<open>ops\<close> are the operations other threads
  perform on the context during the run; \<open>now\<close> is the clock when the terminator is created
  and \<open>spawn\<close> the outcome of creating it.
\<close>

definition run_with_termination ::
  "'r \<Rightarrow> duration option \<Rightarrow> nat \<Rightarrow> cancel_ctx option \<Rightarrow> instant \<Rightarrow> unit io_result
   \<Rightarrow> terminator_tick list \<Rightarrow> 'r race \<Rightarrow> cancel_op list \<Rightarrow> 'r run_termination" where
  "run_with_termination future deadline isolate cancellation now spawn ticks race ops =
     (if deadline = None \<and> cancellation = None
      then \<lparr>rt_result = Some (Inr future), rt_polled = True, rt_context = None\<rparr>
      else if deadline = Some 0
      then \<lparr>rt_result = Some (Inl (TermDeadline 0)), rt_polled = False, rt_context = cancellation\<rparr>
      else
        (let cancellation = map_option (cancel_register isolate) cancellation;
             deadline_at = Option.bind deadline (checked_add_instant now)
         in (case spawn of
               Inl e \<Rightarrow> \<lparr>rt_result = Some (Inl (TermInfrastructure e)), rt_polled = False,
                        rt_context = map_option cancel_clear cancellation\<rparr>
             | Inr _ \<Rightarrow>
               (let flags = snd (terminator_loop deadline_at ticks terminator_init);
                    (result, termination) = select_result deadline race;
                    cancellation = map_option (fold cancel_apply ops) cancellation;
                    requested = (case cancellation of None \<Rightarrow> False | Some c \<Rightarrow> cc_requested c)
                in \<lparr>rt_result = termination_result requested termination result flags deadline,
                    rt_polled = True, rt_context = map_option cancel_clear cancellation\<rparr>))))"

lemma terminator_not_fired:
  "terminator_loop at ticks s = (b, s') \<Longrightarrow> tm_cancellation_fired s' \<Longrightarrow>
   tm_cancellation_fired s \<or> (\<exists>t \<in> set ticks. tk_requested t)"
  by (induction ticks) (auto split: if_splits recv_outcome.splits)

lemma terminator_deadline_reached:
  "terminator_loop at ticks s = (b, s') \<Longrightarrow> tm_deadline_fired s' \<Longrightarrow>
   tm_deadline_fired s \<or> (\<exists>t \<in> set ticks. due at (tk_now t))"
  by (induction ticks) (auto split: if_splits recv_outcome.splits)

lemma select_result_cases:
  "race_possible deadline c race \<Longrightarrow> select_result deadline race = (result, termination) \<Longrightarrow>
   result \<noteq> None \<or> termination \<noteq> None"
  by (cases "(deadline, race)" rule: select_result.cases) (auto split: option.splits)

lemma select_result_Some:
  "select_result deadline race = (Some r, ended) \<Longrightarrow>
   race = RaceCompleted r \<or> race = RaceCancelled (Some r)"
  by (cases "(deadline, race)" rule: select_result.cases) auto

lemma termination_result_some:
  "result \<noteq> None \<or> ended \<noteq> None \<Longrightarrow> termination_result q ended result flags deadline \<noteq> None"
  by (auto simp: termination_result_def split: option.split)

lemma termination_result_requested [simp]:
  "termination_result True ended result flags deadline = Some (Inl TermCancelled)"
  by (simp add: termination_result_def)

lemma termination_result_Inr:
  "termination_result q ended result flags deadline = Some (Inr r) \<Longrightarrow>
   \<not> q \<and> ended = None \<and> result = Some r \<and> \<not> tm_deadline_fired flags"
  by (auto simp: termination_result_def split: option.splits if_splits)

text \<open>
  A bounded run always has a result: a zero deadline never polls the future, a requested
  cancellation is always reported as Cancelled, and the future's own result is returned only
  if it completed and the deadline watchdog did not fire.
\<close>

theorem run_with_termination_sound:
  assumes "race_possible deadline (cancellation \<noteq> None) race"
    and "deadline \<noteq> None \<or> cancellation \<noteq> None"
    and "run_with_termination future deadline isolate cancellation now spawn ticks race ops = out"
  shows "rt_result out \<noteq> None
    \<and> (deadline = Some 0 \<longrightarrow> \<not> rt_polled out \<and> rt_result out = Some (Inl (TermDeadline 0)))
    \<and> (\<forall>c. rt_polled out \<and> rt_context out = Some c \<and> cc_requested c \<longrightarrow>
           rt_result out = Some (Inl TermCancelled))
    \<and> (\<forall>r. rt_result out = Some (Inr r) \<longrightarrow>
           (\<exists>c. race = RaceCompleted r \<or> race = RaceCancelled (Some r))
           \<and> \<not> tm_deadline_fired (snd (terminator_loop
                 (Option.bind deadline (checked_add_instant now)) ticks terminator_init)))"
proof -
  let ?flags = "snd (terminator_loop (Option.bind deadline (checked_add_instant now)) ticks
      terminator_init)"
  obtain result ended where sel: "select_result deadline race = (result, ended)"
    by (cases "select_result deadline race")
  have some: "result \<noteq> None \<or> ended \<noteq> None"
    by (rule select_result_cases [OF assms(1) sel])
  have race: "\<exists>c. race = RaceCompleted r \<or> race = RaceCancelled (Some r)" if "result = Some r" for r
    using select_result_Some [of deadline race r ended] sel that by simp
  have slow: "\<not> (deadline = None \<and> cancellation = None)" using assms(2) by blast
  show ?thesis
  proof (cases "deadline = Some 0")
    case True
    then have "out = \<lparr>rt_result = Some (Inl (TermDeadline 0)), rt_polled = False,
        rt_context = cancellation\<rparr>"
      using assms(3) by (simp add: run_with_termination_def)
    then show ?thesis by simp
  next
    case nonzero: False
    show ?thesis
    proof (cases spawn)
      case (Inl e)
      then have "rt_result out = Some (Inl (TermInfrastructure e)) \<and> \<not> rt_polled out"
        using assms(3) slow nonzero by (auto simp: run_with_termination_def Let_def)
      then show ?thesis using nonzero by simp
    next
      case (Inr u)
      define after where "after = map_option (fold cancel_apply ops)
          (map_option (cancel_register isolate) cancellation)"
      define requested where "requested = (case after of None \<Rightarrow> False | Some c \<Rightarrow> cc_requested c)"
      have out: "rt_result out = termination_result requested ended result ?flags deadline"
          "rt_context out = map_option cancel_clear after"
        using assms(3) slow nonzero Inr
        by (simp_all add: run_with_termination_def Let_def sel after_def requested_def)
          (use slow in auto)
      have req: "requested" if "rt_context out = Some c" "cc_requested c" for c
        using that by (auto simp: out requested_def)
      show ?thesis
        using nonzero req termination_result_some [OF some]
        by (auto simp: out termination_result_requested dest!: termination_result_Inr race)
    qed
  qed
qed

theorem run_with_termination_sound_witness:
  "rt_result (run_with_termination ''ok'' (Some 5) 1 None 100 (Inr ())
     [\<lparr>tk_requested = False, tk_recv = RecvMessage, tk_now = 102\<rparr>] (RaceCompleted ''ok'') [])
   \<noteq> None"
  using run_with_termination_sound [of "Some 5" None "RaceCompleted ''ok''" "''ok''" 1 100 "Inr ()"
      "[\<lparr>tk_requested = False, tk_recv = RecvMessage, tk_now = 102\<rparr>]" "[]", OF _ _ refl]
  by simp

section \<open>Worker lifecycle of one run\<close>

text \<open>
  The future that \<open>run_worker_cancellable\<close> drives: main module, load event, then the event
  loop until neither \<open>beforeunload\<close> nor \<open>beforeexit\<close> asks to go on, then unload and exit. One
  element of the list gives the outcomes of one turn; the trace records the calls in order.
\<close>

datatype lifecycle_call =
    CallMainModule | CallLoad | CallEventLoop | CallBeforeUnload | CallBeforeExit | CallUnload | CallExit

record lifecycle_turn =
  lt_event_loop :: "unit libdeno_result"
  lt_beforeunload :: "bool libdeno_result"
  lt_beforeexit :: "bool libdeno_result"

fun lifecycle_loop ::
  "unit libdeno_result \<Rightarrow> unit libdeno_result \<Rightarrow> lifecycle_turn list
   \<Rightarrow> unit libdeno_result option \<times> lifecycle_call list" where
  "lifecycle_loop unload exit [] = (None, [])"
| "lifecycle_loop unload exit (t # ts) =
     (case lt_event_loop t of
        Inl e \<Rightarrow> (Some (Inl e), [CallEventLoop])
      | Inr _ \<Rightarrow>
        (case lt_beforeunload t of
           Inl e \<Rightarrow> (Some (Inl e), [CallEventLoop, CallBeforeUnload])
         | Inr True \<Rightarrow>
             (case lifecycle_loop unload exit ts of (r, tr) \<Rightarrow>
                (r, [CallEventLoop, CallBeforeUnload] @ tr))
         | Inr False \<Rightarrow>
             (case lt_beforeexit t of
                Inl e \<Rightarrow> (Some (Inl e), [CallEventLoop, CallBeforeUnload, CallBeforeExit])
              | Inr True \<Rightarrow>
                  (case lifecycle_loop unload exit ts of (r, tr) \<Rightarrow>
                     (r, [CallEventLoop, CallBeforeUnload, CallBeforeExit] @ tr))
              | Inr False \<Rightarrow>
                  (case unload of
                     Inl e \<Rightarrow> (Some (Inl e),
                       [CallEventLoop, CallBeforeUnload, CallBeforeExit, CallUnload])
                   | Inr _ \<Rightarrow> (Some exit,
                       [CallEventLoop, CallBeforeUnload, CallBeforeExit, CallUnload, CallExit])))))"

definition run_worker_future ::
  "unit libdeno_result \<Rightarrow> unit libdeno_result \<Rightarrow> lifecycle_turn list \<Rightarrow> unit libdeno_result
   \<Rightarrow> unit libdeno_result \<Rightarrow> unit libdeno_result option \<times> lifecycle_call list" where
  "run_worker_future main_module load turns unload exit =
     (case main_module of
        Inl e \<Rightarrow> (Some (Inl e), [CallMainModule])
      | Inr _ \<Rightarrow>
        (case load of
           Inl e \<Rightarrow> (Some (Inl e), [CallMainModule, CallLoad])
         | Inr _ \<Rightarrow>
             (case lifecycle_loop unload exit turns of (r, tr) \<Rightarrow>
                (r, [CallMainModule, CallLoad] @ tr))))"

text \<open>
  The \<open>poll_fn\<close> wrapper: a watcher exit seen before or after a poll ends the run successfully.
\<close>

definition watched_poll ::
  "bool \<Rightarrow> bool \<Rightarrow> unit libdeno_result option \<Rightarrow> unit libdeno_result option" where
  "watched_poll exited_before exited_after polled =
     (if exited_before then Some (Inr ())
      else if exited_after then Some (Inr ()) else polled)"

definition lifecycle_ok :: "lifecycle_call list \<Rightarrow> bool" where
  "lifecycle_ok tr \<longleftrightarrow>
     (\<exists>mid. tr = [CallMainModule, CallLoad] @ mid
               @ [CallEventLoop, CallBeforeUnload, CallBeforeExit, CallUnload, CallExit]
          \<and> CallUnload \<notin> set mid \<and> CallExit \<notin> set mid)"

lemma lifecycle_loop_Cons_ok:
  assumes "lifecycle_loop unload exit (t # ts) = (Some (Inr ()), tr)"
  shows "tr = [CallEventLoop, CallBeforeUnload, CallBeforeExit, CallUnload, CallExit]
    \<or> (\<exists>pre rest. tr = pre @ rest \<and> lifecycle_loop unload exit ts = (Some (Inr ()), rest)
         \<and> CallUnload \<notin> set pre \<and> CallExit \<notin> set pre)"
proof -
  obtain r rest where rec: "lifecycle_loop unload exit ts = (r, rest)"
    by (cases "lifecycle_loop unload exit ts")
  have loop: "lt_event_loop t = Inr ()"
    using assms by (cases "lt_event_loop t") simp_all
  obtain u where u: "lt_beforeunload t = Inr u"
    using assms loop by (cases "lt_beforeunload t") simp_all
  show ?thesis
  proof (cases u)
    case True
    with assms loop u rec have "r = Some (Inr ())" and "tr = [CallEventLoop, CallBeforeUnload] @ rest"
      by simp_all
    with rec show ?thesis
      by (intro disjI2 exI [of _ "[CallEventLoop, CallBeforeUnload]"] exI [of _ rest]) simp
  next
    case False
    with assms loop u obtain x where x: "lt_beforeexit t = Inr x"
      by (cases "lt_beforeexit t") simp_all
    show ?thesis
    proof (cases x)
      case True
      with assms loop u x False rec have "r = Some (Inr ())"
        and "tr = [CallEventLoop, CallBeforeUnload, CallBeforeExit] @ rest" by simp_all
      with rec show ?thesis
        by (intro disjI2 exI [of _ "[CallEventLoop, CallBeforeUnload, CallBeforeExit]"]
            exI [of _ rest]) simp
    next
      assume "\<not> x"
      with assms loop u x False show ?thesis by (cases unload) simp_all
    qed
  qed
qed

lemma lifecycle_loop_ok:
  "lifecycle_loop unload exit ts = (Some (Inr ()), tr) \<Longrightarrow>
   \<exists>mid. tr = mid @ [CallEventLoop, CallBeforeUnload, CallBeforeExit, CallUnload, CallExit]
        \<and> CallUnload \<notin> set mid \<and> CallExit \<notin> set mid"
proof (induction ts arbitrary: tr)
  case Nil
  then show ?case by simp
next
  case (Cons t ts)
  let ?tail = "[CallEventLoop, CallBeforeUnload, CallBeforeExit, CallUnload, CallExit]"
  from lifecycle_loop_Cons_ok [OF Cons.prems] show ?case
  proof
    assume "tr = ?tail"
    then show ?thesis by (intro exI [of _ "[]"]) simp
  next
    assume "\<exists>pre rest. tr = pre @ rest \<and> lifecycle_loop unload exit ts = (Some (Inr ()), rest)
         \<and> CallUnload \<notin> set pre \<and> CallExit \<notin> set pre"
    then obtain pre rest where tr: "tr = pre @ rest"
      and rest: "lifecycle_loop unload exit ts = (Some (Inr ()), rest)"
      and pre: "CallUnload \<notin> set pre" "CallExit \<notin> set pre" by blast
    from Cons.IH [OF rest] obtain mid
      where "rest = mid @ ?tail" "CallUnload \<notin> set mid" "CallExit \<notin> set mid" by blast
    with tr pre show ?thesis by (intro exI [of _ "pre @ mid"]) simp
  qed
qed

lemma run_worker_future_ok:
  assumes "run_worker_future main_module load turns unload exit = (Some (Inr ()), tr)"
  shows "lifecycle_ok tr"
proof -
  obtain r rest where rec: "lifecycle_loop unload exit turns = (r, rest)"
    by (cases "lifecycle_loop unload exit turns")
  have main: "main_module = Inr ()"
    using assms by (cases main_module) (simp_all add: run_worker_future_def)
  have "load = Inr ()"
    using assms main by (cases load) (simp_all add: run_worker_future_def)
  with main assms rec have "r = Some (Inr ())" and "tr = [CallMainModule, CallLoad] @ rest"
    by (simp_all add: run_worker_future_def)
  with lifecycle_loop_ok [of unload exit turns rest] rec show ?thesis
    by (force simp: lifecycle_ok_def)
qed

end
