(* ===== verification/Ld_NodeIpc.thy ===== *)
theory Ld_NodeIpc
  imports Ld_Limits
begin

text \<open>
  The Node IPC startup handoff of src/src/limits.rs on Unix. The operating system's answers
  (\<open>getsockopt\<close>, \<open>getsockname\<close>, \<open>getpeername\<close>, \<open>fcntl\<close>) are arguments; a descriptor that an
  \<open>OwnedFd\<close> guard closes is appended to a list.
\<close>

section \<open>Parsing the descriptor\<close>

definition digit_value :: "char \<Rightarrow> nat option" where
  "digit_value c = (if 48 \<le> (of_char c :: nat) \<and> (of_char c :: nat) \<le> 57
                    then Some (of_char c - 48) else None)"

fun parse_digits :: "nat \<Rightarrow> string \<Rightarrow> nat option" where
  "parse_digits acc [] = Some acc"
| "parse_digits acc (c # cs) =
     (case digit_value c of None \<Rightarrow> None | Some d \<Rightarrow> parse_digits (10 * acc + d) cs)"

text \<open>\<open>str::parse::<i64>()\<close>: an optional sign, at least one digit, and no overflow.\<close>

definition parse_i64 :: "string \<Rightarrow> int option" where
  "parse_i64 s =
     (let (negative, digits) =
        (case s of c # cs \<Rightarrow> (if c = CHR ''-'' then (True, cs)
                            else if c = CHR ''+'' then (False, cs) else (False, s))
         | [] \<Rightarrow> (False, []))
      in if digits = [] then None
         else (case parse_digits 0 digits of
                 None \<Rightarrow> None
               | Some n \<Rightarrow>
                 (let v = (if negative then - int n else int n)
                  in if - (2 ^ 63) \<le> v \<and> v < 2 ^ 63 then Some v else None)))"

definition I32_MAX :: int where
  "I32_MAX = 2 ^ 31 - 1"

definition parse_node_channel_fd :: "string \<Rightarrow> int option" where
  "parse_node_channel_fd value =
     (case parse_i64 value of
        None \<Rightarrow> None
      | Some fd \<Rightarrow> (if 0 \<le> fd \<and> fd \<le> I32_MAX then Some fd else None))"

lemma parse_node_channel_fd_range:
  "parse_node_channel_fd value = Some fd \<Longrightarrow> 0 \<le> fd \<and> fd \<le> I32_MAX"
  by (auto simp: parse_node_channel_fd_def split: option.splits if_splits)

section \<open>Claiming the descriptor\<close>

definition SOCK_STREAM :: int where "SOCK_STREAM = 1"
definition AF_UNIX :: int where "AF_UNIX = 1"
definition ENOTCONN :: int where "ENOTCONN = 107"

definition raw_os_error :: "io_error \<Rightarrow> int option" where
  "raw_os_error e = (case io_kind e of EkOs code \<Rightarrow> Some code | _ \<Rightarrow> None)"

text \<open>What the kernel answers about the descriptor.\<close>

record node_ipc_os =
  os_socket_type :: "int io_result"
  os_domain :: "int io_result"
  os_peer_family :: "int io_result"
  os_getfd :: "int io_result"
  os_setfd :: "unit io_result"

definition set_node_ipc_cloexec :: "node_ipc_os \<Rightarrow> unit io_result" where
  "set_node_ipc_cloexec os =
     (case os_getfd os of
        Inl e \<Rightarrow> Inl e
      | Inr flags \<Rightarrow> os_setfd os)"

definition check_node_ipc :: "node_ipc_os \<Rightarrow> unit libdeno_result" where
  "check_node_ipc os =
     (case os_socket_type os of
        Inl e \<Rightarrow> Inl (ErrIo e)
      | Inr socket_type \<Rightarrow>
     (if socket_type \<noteq> SOCK_STREAM
      then Inl (ErrConfiguration ''NODE_CHANNEL_FD must be a stream socket'')
      else
     (case os_domain os of
        Inl e \<Rightarrow> Inl (ErrIo e)
      | Inr domain \<Rightarrow>
     (if domain \<noteq> AF_UNIX
      then Inl (ErrConfiguration ''NODE_CHANNEL_FD must be a local Unix socket'')
      else
     (case os_peer_family os of
        Inl e \<Rightarrow>
          (if raw_os_error e = Some ENOTCONN
           then Inl (ErrConfiguration ''NODE_CHANNEL_FD must be a connected local Unix socket'')
           else Inl (ErrIo e))
      | Inr family \<Rightarrow>
     (if family \<noteq> AF_UNIX
      then Inl (ErrConfiguration ''NODE_CHANNEL_FD peer must be a local Unix socket'')
      else map_err ErrIo (set_node_ipc_cloexec os)))))))"

definition claim_node_ipc ::
  "node_ipc_os \<Rightarrow> string \<Rightarrow> int list \<Rightarrow> int libdeno_result \<times> int list" where
  "claim_node_ipc os raw closed =
     (case parse_node_channel_fd raw of
        None \<Rightarrow> (Inl (ErrConfiguration ''invalid NODE_CHANNEL_FD''), closed)
      | Some fd \<Rightarrow>
        (case check_node_ipc os of
           Inl e \<Rightarrow> (Inl e, closed @ [fd])
         | Inr _ \<Rightarrow> (Inr fd, closed)))"

section \<open>The one attempt\<close>

datatype ipc_serialization = IpcJson | IpcAdvanced

text \<open>
  \<open>NodeIpcState\<close>: \<open>None\<close> before any attempt; \<open>Some None\<close> after an attempt without a channel, or
  once the channel was taken.
\<close>

type_synonym node_ipc_state = "(int \<times> ipc_serialization) option option"

text \<open>\<open>std::env::var\<close>.\<close>

datatype env_var = VarNotPresent | VarNotUnicode string | VarPresent string

definition begin_node_ipc_attempt :: "node_ipc_state \<Rightarrow> bool \<times> node_ipc_state" where
  "begin_node_ipc_attempt state =
     (if state \<noteq> None then (False, state) else (True, Some None))"

definition node_ipc_serialization :: "env_var \<Rightarrow> ipc_serialization libdeno_result" where
  "node_ipc_serialization mode =
     (case mode of
        VarNotUnicode e \<Rightarrow>
          Inl (ErrConfiguration (''invalid NODE_CHANNEL_SERIALIZATION_MODE: '' @ e))
      | VarNotPresent \<Rightarrow> Inr IpcJson
      | VarPresent m \<Rightarrow>
          (if m = ''json'' then Inr IpcJson
           else if m = ''advanced'' then Inr IpcAdvanced
           else Inl (ErrConfiguration (''invalid NODE_CHANNEL_SERIALIZATION_MODE: '' @ m))))"

definition initialize_node_ipc_from_env ::
  "env_var \<Rightarrow> env_var \<Rightarrow> node_ipc_os \<Rightarrow> node_ipc_state \<Rightarrow> int list
   \<Rightarrow> unit libdeno_result \<times> node_ipc_state \<times> int list" where
  "initialize_node_ipc_from_env channel mode os state closed =
     (case begin_node_ipc_attempt state of (fresh, state) \<Rightarrow>
      (if \<not> fresh
       then (Inl (ErrConfiguration ''Node IPC initialization may only be performed once''),
             state, closed)
       else
         (case channel of
            VarNotPresent \<Rightarrow> (Inr (), state, closed)
          | VarNotUnicode e \<Rightarrow>
              (Inl (ErrConfiguration (''invalid NODE_CHANNEL_FD: '' @ e)), state, closed)
          | VarPresent raw \<Rightarrow>
              (case claim_node_ipc os raw closed of
                 (Inl e, closed) \<Rightarrow> (Inl e, state, closed)
               | (Inr fd, closed) \<Rightarrow>
                   (case node_ipc_serialization mode of
                      Inl e \<Rightarrow> (Inl e, state, closed @ [fd])
                    | Inr s \<Rightarrow> (Inr (), Some (Some (fd, s)), closed))))))"

definition take_node_ipc ::
  "node_ipc_state \<Rightarrow> (int \<times> ipc_serialization) option \<times> node_ipc_state" where
  "take_node_ipc state =
     (case state of
        None \<Rightarrow> (None, None)
      | Some None \<Rightarrow> (None, Some None)
      | Some (Some channel) \<Rightarrow> (Some channel, Some None))"

lemma take_node_ipc_once: "fst (take_node_ipc (snd (take_node_ipc state))) = None"
  by (auto simp: take_node_ipc_def split: option.splits)

lemma claim_node_ipc_cases:
  "claim_node_ipc os raw closed =
     (case parse_node_channel_fd raw of
        None \<Rightarrow> (Inl (ErrConfiguration ''invalid NODE_CHANNEL_FD''), closed)
      | Some fd \<Rightarrow> (if is_ok (check_node_ipc os) then (Inr fd, closed)
                   else (Inl (projl (check_node_ipc os)), closed @ [fd])))"
  by (auto simp: claim_node_ipc_def is_ok_def split: option.splits sum.splits)

text \<open>
  The Node IPC descriptor of the environment is claimed at most once: the first attempt fixes
  the state, a second is refused with no effect, the named descriptor is either owned or
  closed, and it can be taken only once.
\<close>

theorem node_ipc_single_attempt:
  assumes "initialize_node_ipc_from_env channel mode os None closed = (r, state, closed')"
  shows "state \<noteq> None
    \<and> initialize_node_ipc_from_env channel2 mode2 os2 state closed'
        = (Inl (ErrConfiguration ''Node IPC initialization may only be performed once''), state, closed')
    \<and> (\<forall>raw fd. channel = VarPresent raw \<and> parse_node_channel_fd raw = Some fd \<longrightarrow>
         (if is_ok r then (\<exists>s. state = Some (Some (fd, s))) \<and> closed' = closed
          else state = Some None \<and> closed' = closed @ [fd]))
    \<and> fst (take_node_ipc (snd (take_node_ipc state))) = None"
proof -
  have attempted: "state \<noteq> None"
    using assms
    by (auto simp: initialize_node_ipc_from_env_def begin_node_ipc_attempt_def
        split: env_var.splits sum.splits prod.splits)
  have owner: "if is_ok r then (\<exists>s. state = Some (Some (fd, s))) \<and> closed' = closed
      else state = Some None \<and> closed' = closed @ [fd]"
    if "channel = VarPresent raw" "parse_node_channel_fd raw = Some fd" for raw fd
    using assms that
    by (cases "is_ok (check_node_ipc os)"; cases "node_ipc_serialization mode")
      (auto simp: initialize_node_ipc_from_env_def begin_node_ipc_attempt_def claim_node_ipc_cases)
  from attempted owner show ?thesis
    by (auto simp: initialize_node_ipc_from_env_def begin_node_ipc_attempt_def take_node_ipc_once)
qed

theorem node_ipc_single_attempt_witness:
  "fst (snd (initialize_node_ipc_from_env (VarPresent ''12'') (VarPresent ''advanced'')
      \<lparr>os_socket_type = Inr 1, os_domain = Inr 1, os_peer_family = Inr 1,
       os_getfd = Inr 0, os_setfd = Inr ()\<rparr> None [])) = Some (Some (12, IpcAdvanced))
   \<and> snd (snd (initialize_node_ipc_from_env (VarPresent ''12'') (VarPresent ''binary'')
      \<lparr>os_socket_type = Inr 1, os_domain = Inr 1, os_peer_family = Inr 1,
       os_getfd = Inr 0, os_setfd = Inr ()\<rparr> None [])) = [12]"
proof -
  let ?os = "\<lparr>os_socket_type = Inr 1, os_domain = Inr 1, os_peer_family = Inr 1,
       os_getfd = Inr 0, os_setfd = Inr ()\<rparr>"
  have run: "initialize_node_ipc_from_env (VarPresent ''12'') (VarPresent ''advanced'') ?os None []
      = (Inr (), Some (Some (12, IpcAdvanced)), [])"
    by code_simp
  moreover have "initialize_node_ipc_from_env (VarPresent ''12'') (VarPresent ''binary'') ?os None []
      = (Inl (ErrConfiguration ''invalid NODE_CHANNEL_SERIALIZATION_MODE: binary''), Some None, [12])"
    by code_simp
  ultimately show ?thesis
    using node_ipc_single_attempt [OF run, of VarNotPresent VarNotPresent ?os] by simp
qed

end
