(* ===== verification/Ld_Timing.thy ===== *)
theory Ld_Timing
  imports Ld_Prelude
begin

text \<open>
  src/src/timing.rs: the phase durations attached to an execution report. An
  \<open>ExecutionTiming\<close> is an optional shared sink; \<open>None\<close> is the disabled one. The resource
  samples are those of a build without the \<^verbatim>\<open>phase-diagnostics\<close> feature (all fields empty).
  Durations are unbounded here, so the panic of \<^verbatim>\<open>Duration +=\<close> on overflow has no counterpart.
\<close>

datatype phase =
    PhAdmission | PhResolverManifestProbe | PhResolverReuse | PhResolverRebuild
  | PhPermissionRuntimeServices | PhGraphBuild | PhMainWorkerBootstrap | PhUserExecution
  | PhOutputDrain | PhCancelKillReap

record resource_sample =
  rs_threads :: "nat option"
  rs_fds :: "nat option"
  rs_rss_bytes :: "nat option"

definition resource_sample_default :: resource_sample where
  "resource_sample_default = \<lparr>rs_threads = None, rs_fds = None, rs_rss_bytes = None\<rparr>"

record phase_timing =
  pt_admission :: duration
  pt_queue_wait :: duration
  pt_resolver_manifest_probe :: "duration option"
  pt_resolver_reuse :: "duration option"
  pt_resolver_rebuild :: "duration option"
  pt_permission_runtime_services :: "duration option"
  pt_graph_build :: "duration option"
  pt_main_worker_bootstrap :: "duration option"
  pt_user_execution :: "duration option"
  pt_output_drain :: "duration option"
  pt_cancel_kill_reap :: "duration option"
  pt_resources_start :: resource_sample
  pt_resources_end :: resource_sample

definition phase_timing_default :: phase_timing where
  "phase_timing_default = \<lparr>
     pt_admission = 0, pt_queue_wait = 0, pt_resolver_manifest_probe = None,
     pt_resolver_reuse = None, pt_resolver_rebuild = None,
     pt_permission_runtime_services = None, pt_graph_build = None,
     pt_main_worker_bootstrap = None, pt_user_execution = None, pt_output_drain = None,
     pt_cancel_kill_reap = None, pt_resources_start = resource_sample_default,
     pt_resources_end = resource_sample_default\<rparr>"

record timing_state =
  tg_phases :: phase_timing
  tg_queue_wait_recorded :: bool

type_synonym execution_timing = "timing_state option"

definition timing_enabled :: execution_timing where
  "timing_enabled = Some \<lparr>tg_phases = phase_timing_default, tg_queue_wait_recorded = False\<rparr>"

definition timing_disabled :: execution_timing where
  "timing_disabled = None"

definition record_queue_wait :: "instant \<Rightarrow> instant \<Rightarrow> execution_timing \<Rightarrow> execution_timing" where
  "record_queue_wait now submitted timing =
     (case timing of
        None \<Rightarrow> None
      | Some st \<Rightarrow>
        (if \<not> tg_queue_wait_recorded st
         then Some \<lparr>tg_phases = (tg_phases st)\<lparr>pt_queue_wait := saturating_duration_since now submitted\<rparr>,
                    tg_queue_wait_recorded = True\<rparr>
         else Some st))"

definition add_optional :: "duration option \<Rightarrow> duration \<Rightarrow> duration option" where
  "add_optional value elapsed = Some ((case value of None \<Rightarrow> 0 | Some d \<Rightarrow> d) + elapsed)"

fun phases_add :: "phase \<Rightarrow> duration \<Rightarrow> phase_timing \<Rightarrow> phase_timing" where
  "phases_add PhAdmission e p = p\<lparr>pt_admission := pt_admission p + e\<rparr>"
| "phases_add PhResolverManifestProbe e p =
     p\<lparr>pt_resolver_manifest_probe := add_optional (pt_resolver_manifest_probe p) e\<rparr>"
| "phases_add PhResolverReuse e p = p\<lparr>pt_resolver_reuse := add_optional (pt_resolver_reuse p) e\<rparr>"
| "phases_add PhResolverRebuild e p =
     p\<lparr>pt_resolver_rebuild := add_optional (pt_resolver_rebuild p) e\<rparr>"
| "phases_add PhPermissionRuntimeServices e p =
     p\<lparr>pt_permission_runtime_services := add_optional (pt_permission_runtime_services p) e\<rparr>"
| "phases_add PhGraphBuild e p = p\<lparr>pt_graph_build := add_optional (pt_graph_build p) e\<rparr>"
| "phases_add PhMainWorkerBootstrap e p =
     p\<lparr>pt_main_worker_bootstrap := add_optional (pt_main_worker_bootstrap p) e\<rparr>"
| "phases_add PhUserExecution e p = p\<lparr>pt_user_execution := add_optional (pt_user_execution p) e\<rparr>"
| "phases_add PhOutputDrain e p = p\<lparr>pt_output_drain := add_optional (pt_output_drain p) e\<rparr>"
| "phases_add PhCancelKillReap e p =
     p\<lparr>pt_cancel_kill_reap := add_optional (pt_cancel_kill_reap p) e\<rparr>"

definition timing_add :: "phase \<Rightarrow> duration \<Rightarrow> execution_timing \<Rightarrow> execution_timing" where
  "timing_add ph elapsed timing =
     map_option (\<lambda>st. st\<lparr>tg_phases := phases_add ph elapsed (tg_phases st)\<rparr>) timing"

text \<open>A \<open>TimingSpan\<close> from \<open>started\<close> to the drop at \<open>now\<close>; a disabled timing records nothing.\<close>

definition timing_span :: "phase \<Rightarrow> instant \<Rightarrow> instant \<Rightarrow> execution_timing \<Rightarrow> execution_timing" where
  "timing_span ph started now timing = timing_add ph (saturating_duration_since now started) timing"

definition timing_snapshot :: "execution_timing \<Rightarrow> phase_timing" where
  "timing_snapshot timing =
     (case timing of
        None \<Rightarrow> phase_timing_default
      | Some st \<Rightarrow> (tg_phases st)\<lparr>pt_resources_end := resource_sample_default\<rparr>)"

lemma record_queue_wait_idem:
  "record_queue_wait later submitted (record_queue_wait now submitted timing) =
   record_queue_wait now submitted timing"
  by (auto simp: record_queue_wait_def split: option.splits)

lemma phases_add_keeps_queue_wait [simp]:
  "pt_queue_wait (phases_add ph e p) = pt_queue_wait p"
  by (cases ph) simp_all

lemma timing_span_disabled [simp]: "timing_span ph a b None = None"
  by (simp add: timing_span_def timing_add_def)

lemma phases_add_commute:
  "phases_add p1 e1 (phases_add p2 e2 t) = phases_add p2 e2 (phases_add p1 e1 t)"
  by (cases p1; cases p2) (auto simp: add_optional_def)

end
