(* ===== verification/Ld_Task.thy ===== *)
theory Ld_Task
  imports Ld_Limits Ld_Timing
begin

text \<open>
  The data model of src/src/executor.rs and the lifecycle of one task: backends and
  capabilities, outputs, reports, results and failures, and \<open>TaskControl\<close> with every
  transition that the scheduler and the task thread perform on it.
\<close>

section \<open>Backends, capabilities, outcomes\<close>

datatype execution_backend = BkInProcess | BkSubprocess | BkProcessPool

fun backend_name :: "execution_backend \<Rightarrow> string" where
  "backend_name BkInProcess = ''in-process''"
| "backend_name BkSubprocess = ''subprocess''"
| "backend_name BkProcessPool = ''process-pool''"

datatype execution_capability = CapBackend execution_backend | CapHardSandbox

fun capability_name :: "execution_capability \<Rightarrow> string" where
  "capability_name (CapBackend b) = backend_name b @ '' backend''"
| "capability_name CapHardSandbox = ''hard sandbox''"

datatype cleanup_strength = ClDirectChild | ClProcessGroup | ClWindowsJob
datatype transport_status = TrClean | TrFailed
datatype capability_availability = AvAvailable | AvUnsupported
datatype capability_outcome = CoNotRequested | CoUsed | CoFailed

record capability_report =
  cr_backends :: "capability_availability list"
  cr_hard_sandbox :: capability_availability
  cr_cleanup_strength :: "cleanup_strength option"

definition capability_report_default :: capability_report where
  "capability_report_default = \<lparr>cr_backends = [AvAvailable, AvAvailable, AvUnsupported],
     cr_hard_sandbox = AvUnsupported, cr_cleanup_strength = Some ClDirectChild\<rparr>"

fun availability :: "capability_report \<Rightarrow> execution_capability \<Rightarrow> capability_availability" where
  "availability r (CapBackend BkInProcess) = cr_backends r ! 0"
| "availability r (CapBackend BkSubprocess) = cr_backends r ! 1"
| "availability r (CapBackend BkProcessPool) = cr_backends r ! 2"
| "availability r CapHardSandbox = cr_hard_sandbox r"

datatype execution_state =
    EsQueued | EsAcceptedNotStarted | EsStarted | EsCancelling | EsTerminated | EsCompleted | EsFailed

datatype cancel_outcome =
    CxRequested | CxAlreadyRequested | CxAlreadyTerminal | CxNotEnforceableForStartedSubprocess

datatype submit_error = SeShutdown | SeQueueFull | SeInvalidTimeout | SeInternal string

datatype supervisor_failure_category =
    FcPermission | FcTimeout | FcRuntime | FcInfrastructure | FcChildCrash

record admission_config =
  ac_active_limit :: nat
  ac_queue_limit :: nat

definition admission_config_default :: admission_config where
  "admission_config_default = \<lparr>ac_active_limit = 16, ac_queue_limit = 64\<rparr>"

record shutdown_report =
  sr_queued_cancelled :: nat
  sr_accepted_not_started_cancelled :: nat
  sr_active_cancel_requested :: nat

section \<open>Outputs, reports, results\<close>

record execution_output =
  eo_stdout :: bytes
  eo_stderr :: bytes
  eo_truncated :: bool
  eo_incomplete :: bool
  eo_reader_error :: bool

definition execution_output_default :: execution_output where
  "execution_output_default = \<lparr>eo_stdout = [], eo_stderr = [], eo_truncated = False,
     eo_incomplete = False, eo_reader_error = False\<rparr>"

record execution_report =
  er_requested_backend :: execution_backend
  er_dispatched_backend :: "execution_backend option"
  er_elapsed :: duration
  er_backend_outcome :: capability_outcome
  er_timing :: phase_timing
  er_cleanup_strength :: "cleanup_strength option"
  er_transport_status :: "transport_status option"

definition report_outcome :: "execution_report \<Rightarrow> execution_capability \<Rightarrow> capability_outcome" where
  "report_outcome r capability =
     (case capability of
        CapBackend backend \<Rightarrow>
          (if backend = er_requested_backend r then er_backend_outcome r else CoNotRequested)
      | CapHardSandbox \<Rightarrow> CoNotRequested)"

record execution_result =
  ex_exit_code :: int
  ex_output :: execution_output
  ex_report :: execution_report

record unsupported_capability =
  uc_capability :: execution_capability
  uc_reason :: string

datatype execution_error =
    EeLibdeno libdeno_error
  | EeUnsupported unsupported_capability
  | EeInternal string
  | EeCancelled
  | EeSupervisor supervisor_failure_category

fun supervisor_category :: "execution_error \<Rightarrow> supervisor_failure_category option" where
  "supervisor_category (EeSupervisor category) = Some category"
| "supervisor_category _ = None"

record execution_failure =
  ef_error :: execution_error
  ef_report :: execution_report
  ef_partial_output :: "execution_output option"

type_synonym completion = "execution_failure + execution_result"

section \<open>Task control\<close>

text \<open>
  \<open>TaskControl\<close> with its \<open>ControlState\<close> (\<open>tc_lifecycle\<close>, \<open>tc_cancel_reason\<close>), the shared
  cancellation context and the shared timing sink.
\<close>

record task_control =
  tc_id :: "64 word"
  tc_backend :: execution_backend
  tc_submitted :: instant
  tc_deadline :: "instant option"
  tc_timing :: execution_timing
  tc_cancellation :: cancel_ctx
  tc_lifecycle :: execution_state
  tc_cancel_reason :: "cancel_reason option"

definition task_control_new ::
  "64 word \<Rightarrow> execution_backend \<Rightarrow> instant \<Rightarrow> instant option \<Rightarrow> execution_timing \<Rightarrow> task_control" where
  "task_control_new task_id backend submitted deadline timing =
     \<lparr>tc_id = task_id, tc_backend = backend, tc_submitted = submitted, tc_deadline = deadline,
      tc_timing = timing, tc_cancellation = cancel_ctx_new, tc_lifecycle = EsQueued,
      tc_cancel_reason = None\<rparr>"

definition is_terminal :: "execution_state \<Rightarrow> bool" where
  "is_terminal st \<longleftrightarrow> st \<in> {EsTerminated, EsCompleted, EsFailed}"

lemma is_terminal_simps [simp]:
  "\<not> is_terminal EsQueued" "\<not> is_terminal EsAcceptedNotStarted" "\<not> is_terminal EsStarted"
  "\<not> is_terminal EsCancelling" "is_terminal EsTerminated" "is_terminal EsCompleted"
  "is_terminal EsFailed"
  by (simp_all add: is_terminal_def)

definition mark_accepted :: "task_control \<Rightarrow> task_control" where
  "mark_accepted c =
     (if tc_lifecycle c = EsQueued then c\<lparr>tc_lifecycle := EsAcceptedNotStarted\<rparr> else c)"

definition begin_start :: "instant \<Rightarrow> task_control \<Rightarrow> bool \<times> task_control" where
  "begin_start now c =
     (if is_terminal (tc_lifecycle c) \<or> tc_cancel_reason c \<noteq> None then (False, c)
      else if due (tc_deadline c) now
      then (False, c\<lparr>tc_cancel_reason := Some CrDeadline, tc_lifecycle := EsCancelling,
                     tc_cancellation := request_with_reason CrDeadline (tc_cancellation c)\<rparr>)
      else if tc_backend c \<noteq> BkSubprocess then (True, c\<lparr>tc_lifecycle := EsStarted\<rparr>)
      else (True, c))"

definition mark_started :: "task_control \<Rightarrow> bool \<times> task_control" where
  "mark_started c =
     (if tc_lifecycle c = EsAcceptedNotStarted \<and> tc_cancel_reason c = None
      then (True, c\<lparr>tc_lifecycle := EsStarted\<rparr>) else (False, c))"

definition mark_cancelling :: "cancel_reason \<Rightarrow> task_control \<Rightarrow> cancel_outcome \<times> task_control" where
  "mark_cancelling reason c =
     (if is_terminal (tc_lifecycle c) then (CxAlreadyTerminal, c)
      else if tc_cancel_reason c \<noteq> None then (CxAlreadyRequested, c)
      else (CxRequested,
            c\<lparr>tc_cancel_reason := Some reason, tc_lifecycle := EsCancelling,
              tc_cancellation := request_with_reason reason (tc_cancellation c)\<rparr>))"

definition mark_terminal :: "execution_state \<Rightarrow> task_control \<Rightarrow> bool \<times> task_control" where
  "mark_terminal lifecycle c =
     (if is_terminal (tc_lifecycle c) then (False, c) else (True, c\<lparr>tc_lifecycle := lifecycle\<rparr>))"

subsection \<open>Reports and failures of a task\<close>

definition control_record_queue_wait :: "instant \<Rightarrow> task_control \<Rightarrow> task_control" where
  "control_record_queue_wait now c =
     c\<lparr>tc_timing := record_queue_wait now (tc_submitted c) (tc_timing c)\<rparr>"

definition control_report_with_metadata ::
  "instant \<Rightarrow> execution_backend option \<Rightarrow> cleanup_strength option \<Rightarrow> transport_status option
   \<Rightarrow> task_control \<Rightarrow> execution_report \<times> task_control" where
  "control_report_with_metadata now dispatched cleanup transport c =
     (let c = control_record_queue_wait now c
      in (\<lparr>er_requested_backend = tc_backend c, er_dispatched_backend = dispatched,
           er_elapsed = saturating_duration_since now (tc_submitted c),
           er_backend_outcome = CoFailed, er_timing = timing_snapshot (tc_timing c),
           er_cleanup_strength = cleanup, er_transport_status = transport\<rparr>, c))"

definition control_report ::
  "instant \<Rightarrow> execution_backend option \<Rightarrow> task_control \<Rightarrow> execution_report \<times> task_control" where
  "control_report now dispatched c = control_report_with_metadata now dispatched None None c"

definition control_failure ::
  "execution_error \<Rightarrow> instant \<Rightarrow> execution_backend option \<Rightarrow> cleanup_strength option
   \<Rightarrow> transport_status option \<Rightarrow> execution_output option \<Rightarrow> task_control
   \<Rightarrow> execution_failure \<times> task_control" where
  "control_failure error now dispatched cleanup transport partial c =
     (case control_report_with_metadata now dispatched cleanup transport c of
        (report, c) \<Rightarrow> (\<lparr>ef_error = error, ef_report = report, ef_partial_output = partial\<rparr>, c))"

definition cancelled_failure_with_partial_and_metadata ::
  "instant \<Rightarrow> execution_backend option \<Rightarrow> cleanup_strength option \<Rightarrow> transport_status option
   \<Rightarrow> execution_output option \<Rightarrow> task_control \<Rightarrow> execution_failure \<times> task_control" where
  "cancelled_failure_with_partial_and_metadata = control_failure EeCancelled"

definition cancelled_failure ::
  "instant \<Rightarrow> execution_backend option \<Rightarrow> task_control \<Rightarrow> execution_failure \<times> task_control" where
  "cancelled_failure now dispatched c =
     cancelled_failure_with_partial_and_metadata now dispatched None None None c"

definition request_deadline_error :: execution_error where
  "request_deadline_error = EeLibdeno (ErrTimeout ''execution request deadline exceeded'')"

definition deadline_failure_with_partial_and_metadata ::
  "instant \<Rightarrow> execution_backend option \<Rightarrow> cleanup_strength option \<Rightarrow> transport_status option
   \<Rightarrow> execution_output option \<Rightarrow> task_control \<Rightarrow> execution_failure \<times> task_control" where
  "deadline_failure_with_partial_and_metadata = control_failure request_deadline_error"

definition deadline_failure ::
  "instant \<Rightarrow> execution_backend option \<Rightarrow> task_control \<Rightarrow> execution_failure \<times> task_control" where
  "deadline_failure now dispatched c =
     deadline_failure_with_partial_and_metadata now dispatched None None None c"

definition backend_result_partial_output ::
  "completion \<Rightarrow> execution_backend \<Rightarrow> execution_output option" where
  "backend_result_partial_output result dispatched =
     (case result of
        Inr r \<Rightarrow> (if dispatched = BkSubprocess then Some (ex_output r) else None)
      | Inl failure \<Rightarrow> ef_partial_output failure)"

subsection \<open>Resolving a backend result\<close>

definition completion_report :: "completion \<Rightarrow> execution_report" where
  "completion_report result =
     (case result of Inr r \<Rightarrow> ex_report r | Inl failure \<Rightarrow> ef_report failure)"

definition supervisor_failure :: "completion \<Rightarrow> supervisor_failure_category option" where
  "supervisor_failure result =
     (case result of
        Inl failure \<Rightarrow>
          (case ef_error failure of
             EeSupervisor category \<Rightarrow>
               (if category = FcTimeout \<or> category = FcInfrastructure then Some category else None)
           | _ \<Rightarrow> None)
      | Inr _ \<Rightarrow> None)"

definition timed_out :: "execution_error \<Rightarrow> bool" where
  "timed_out error =
     (case error of
        EeLibdeno (ErrTimeout _) \<Rightarrow> True
      | EeSupervisor category \<Rightarrow> category = FcTimeout
      | _ \<Rightarrow> False)"

definition resolve_outcome ::
  "instant \<Rightarrow> completion \<Rightarrow> execution_backend \<Rightarrow> task_control
   \<Rightarrow> (execution_state \<times> completion) \<times> task_control" where
  "resolve_outcome now backend_result dispatched c =
     (let cleanup = er_cleanup_strength (completion_report backend_result);
          transport = er_transport_status (completion_report backend_result)
      in case supervisor_failure backend_result of
           Some category \<Rightarrow>
             (((if category = FcTimeout then EsTerminated else EsFailed), backend_result), c)
         | None \<Rightarrow>
           (case tc_cancel_reason c of
              Some CrDeadline \<Rightarrow>
                (case deadline_failure_with_partial_and_metadata now (Some dispatched) cleanup
                        transport (backend_result_partial_output backend_result dispatched) c of
                   (failure, c) \<Rightarrow> ((EsTerminated, Inl failure), c))
            | Some _ \<Rightarrow>
                (case cancelled_failure_with_partial_and_metadata now (Some dispatched) cleanup
                        transport (backend_result_partial_output backend_result dispatched) c of
                   (failure, c) \<Rightarrow> ((EsTerminated, Inl failure), c))
            | None \<Rightarrow>
                (case backend_result of
                   Inr result \<Rightarrow> ((EsCompleted, Inr result), c)
                 | Inl failure \<Rightarrow>
                     (((if timed_out (ef_error failure) then EsTerminated else EsFailed),
                       Inl failure), c))))"

definition resolve_backend_result ::
  "instant \<Rightarrow> completion \<Rightarrow> execution_backend \<Rightarrow> task_control
   \<Rightarrow> (execution_state \<times> completion) option \<times> task_control" where
  "resolve_backend_result now backend_result dispatched c =
     (if is_terminal (tc_lifecycle c) then (None, c)
      else (case resolve_outcome now backend_result dispatched c of
              ((lifecycle, result), c) \<Rightarrow> (Some (lifecycle, result), c\<lparr>tc_lifecycle := lifecycle\<rparr>)))"

end
