(* ===== verification/Ld_Scheduler.thy ===== *)
theory Ld_Scheduler
  imports Ld_Task
begin

text \<open>
  The admission scheduler of src/src/executor.rs: \<open>SchedulerState\<close> with its bounded queue, ready
  list and active map, the task owners that carry the permits, and every operation that
  takes the scheduler lock: \<open>submit\<close>, the manager's section, \<open>request_cancel\<close>,
  \<open>release_active\<close>, \<open>shutdown\<close> and \<open>fail_pending\<close>. The theory Ld_Schedule interleaves them.
\<close>

section \<open>State\<close>

text \<open>
  An \<^verbatim>\<open>Arc<TaskControl>\<close> and the \<^verbatim>\<open>Arc<ResultCell>\<close> created with it are shared by the owner, the
  handle and the active map, so both live in a store under one reference (\<open>ow_ref\<close>).
\<close>

datatype task_permit = PermitActive | PermitQueued

record 'q owner =
  ow_id :: "64 word"
  ow_ref :: nat
  ow_request :: 'q
  ow_deadline :: "instant option"
  ow_backend :: execution_backend
  ow_permit :: "task_permit option"

record 'q sched =
  sc_active_limit :: nat
  sc_queue_limit :: nat
  sc_accepting :: bool
  sc_queue :: "'q owner list"
  sc_ready :: "'q owner list"
  sc_active :: "(64 word \<times> nat) list"
  sc_next_id :: "64 word"
  sc_controls :: "nat \<Rightarrow> task_control"
  sc_results :: "nat \<Rightarrow> completion option"
  sc_next_ref :: nat

definition sched_new :: "admission_config \<Rightarrow> (nat \<Rightarrow> task_control) \<Rightarrow> 'q sched" where
  "sched_new config heap =
     \<lparr>sc_active_limit = ac_active_limit config, sc_queue_limit = ac_queue_limit config,
      sc_accepting = True, sc_queue = [], sc_ready = [], sc_active = [], sc_next_id = 1,
      sc_controls = heap, sc_results = (\<lambda>_. None), sc_next_ref = 0\<rparr>"

definition upd_control ::
  "nat \<Rightarrow> (task_control \<Rightarrow> task_control) \<Rightarrow> ('q, 'z) sched_scheme \<Rightarrow> ('q, 'z) sched_scheme" where
  "upd_control r f s = s\<lparr>sc_controls := (sc_controls s)(r := f (sc_controls s r))\<rparr>"

section \<open>Result cell\<close>

definition cell_publish ::
  "nat \<Rightarrow> completion \<Rightarrow> ('q, 'z) sched_scheme \<Rightarrow> ('q, 'z) sched_scheme" where
  "cell_publish r result s =
     (if sc_results s r = None then s\<lparr>sc_results := (sc_results s)(r \<mapsto> result)\<rparr> else s)"

definition cell_wait :: "nat \<Rightarrow> ('q, 'z) sched_scheme \<Rightarrow> completion option" where
  "cell_wait r s = sc_results s r"

interpretation result_cell: first_wins "cell_wait r" "cell_publish r"
  by unfold_locales (simp_all add: cell_wait_def cell_publish_def)

section \<open>Submission\<close>

definition next_task_id :: "64 word \<Rightarrow> 64 word" where
  "next_task_id n = (if n + 1 < 1 then 1 else n + 1)"

definition submit ::
  "instant \<Rightarrow> execution_backend \<Rightarrow> duration option \<Rightarrow> 'q \<Rightarrow> ('q, 'z) sched_scheme
   \<Rightarrow> (submit_error + nat) \<times> ('q, 'z) sched_scheme" where
  "submit now backend request_timeout request s =
     (case (case request_timeout of
              Some timeout \<Rightarrow> map_option Some (checked_add_instant now timeout)
            | None \<Rightarrow> Some None) of
        None \<Rightarrow> (Inl SeInvalidTimeout, s)
      | Some deadline \<Rightarrow>
          if \<not> sc_accepting s then (Inl SeShutdown, s)
          else let task_id = sc_next_id s;
                   s = s\<lparr>sc_next_id := next_task_id (sc_next_id s)\<rparr>;
                   r = sc_next_ref s;
                   control = task_control_new task_id backend now deadline timing_enabled;
                   owner = \<lparr>ow_id = task_id, ow_ref = r, ow_request = request,
                            ow_deadline = deadline, ow_backend = backend,
                            ow_permit = Some PermitQueued\<rparr>
               in if length (sc_active s) < sc_active_limit s \<and> sc_queue s = []
                  then (Inr r,
                        s\<lparr>sc_next_ref := Suc r,
                          sc_controls := (sc_controls s)
                            (r := control_record_queue_wait now (mark_accepted control)),
                          sc_results := (sc_results s)(r := None),
                          sc_active := AList.update task_id r (sc_active s),
                          sc_ready := sc_ready s @ [owner\<lparr>ow_permit := Some PermitActive\<rparr>]\<rparr>)
                  else if sc_queue_limit s \<le> length (sc_queue s) then (Inl SeQueueFull, s)
                  else (Inr r,
                        s\<lparr>sc_next_ref := Suc r,
                          sc_controls := (sc_controls s)(r := control),
                          sc_results := (sc_results s)(r := None),
                          sc_queue := sc_queue s @ [owner]\<rparr>))"

section \<open>The manager's locked section\<close>

text \<open>\<open>expire_loop\<close>: one of the two loops that take the due owners out of a queue.\<close>

fun expire_loop ::
  "instant \<Rightarrow> 'q owner list \<Rightarrow> 'q owner list \<Rightarrow> 'q owner list \<Rightarrow> (nat \<Rightarrow> task_control)
   \<Rightarrow> 'q owner list \<times> 'q owner list \<times> (nat \<Rightarrow> task_control)" where
  "expire_loop now [] retained expired controls = (retained, expired, controls)"
| "expire_loop now (owner # pending) retained expired controls =
     (if due (ow_deadline owner) now
      then expire_loop now pending retained (expired @ [owner])
             (controls(ow_ref owner := snd (mark_cancelling CrDeadline (controls (ow_ref owner)))))
      else expire_loop now pending (retained @ [owner]) expired controls)"

definition expire_queue ::
  "instant \<Rightarrow> ('q, 'z) sched_scheme \<Rightarrow> 'q owner list \<times> ('q, 'z) sched_scheme" where
  "expire_queue now s =
     (case expire_loop now (sc_queue s) [] [] (sc_controls s) of
        (retained, expired, controls) \<Rightarrow>
          (expired, s\<lparr>sc_queue := retained, sc_controls := controls\<rparr>))"

definition expire_ready ::
  "instant \<Rightarrow> ('q, 'z) sched_scheme \<Rightarrow> 'q owner list \<times> ('q, 'z) sched_scheme" where
  "expire_ready now s =
     (case expire_loop now (sc_ready s) [] [] (sc_controls s) of
        (retained, expired, controls) \<Rightarrow>
          (expired, s\<lparr>sc_ready := retained, sc_controls := controls\<rparr>))"

definition startable_or_started :: "execution_state \<Rightarrow> bool" where
  "startable_or_started st = (st = EsAcceptedNotStarted \<or> st = EsStarted)"

definition due_active :: "instant \<Rightarrow> ('q, 'z) sched_scheme \<Rightarrow> nat list" where
  "due_active now s =
     filter (\<lambda>r. due (tc_deadline (sc_controls s r)) now
                  \<and> startable_or_started (tc_lifecycle (sc_controls s r)))
       (map snd (sc_active s))"

definition cancel_all :: "cancel_reason \<Rightarrow> nat list \<Rightarrow> ('q, 'z) sched_scheme \<Rightarrow> ('q, 'z) sched_scheme"
  where
  "cancel_all reason rs s =
     fold (\<lambda>r. upd_control r (\<lambda>c. snd (mark_cancelling reason c))) rs s"

definition cancel_due_active :: "instant \<Rightarrow> ('q, 'z) sched_scheme \<Rightarrow> ('q, 'z) sched_scheme" where
  "cancel_due_active now s = cancel_all CrDeadline (due_active now s) s"

definition owner_promote :: "'q owner \<Rightarrow> 'q owner" where
  "owner_promote owner =
     (case ow_permit owner of
        Some PermitQueued \<Rightarrow> owner\<lparr>ow_permit := Some PermitActive\<rparr>
      | Some PermitActive \<Rightarrow> owner
      | None \<Rightarrow> owner)"

definition promote_owner ::
  "instant \<Rightarrow> 'q owner \<Rightarrow> ('q, 'z) sched_scheme \<Rightarrow> ('q, 'z) sched_scheme" where
  "promote_owner now owner s =
     upd_control (ow_ref owner) (\<lambda>c. control_record_queue_wait now (mark_accepted c))
       (s\<lparr>sc_active := AList.update (ow_id owner) (ow_ref owner) (sc_active s),
          sc_ready := sc_ready s @ [owner_promote owner]\<rparr>)"

function promote_loop :: "instant \<Rightarrow> ('q, 'z) sched_scheme \<Rightarrow> ('q, 'z) sched_scheme" where
  "promote_loop now s =
     (if length (sc_active s) < sc_active_limit s
      then (case sc_queue s of
              [] \<Rightarrow> s
            | owner # rest \<Rightarrow> promote_loop now (promote_owner now owner (s\<lparr>sc_queue := rest\<rparr>)))
      else s)"
  by pat_completeness auto

lemma sc_queue_promote_owner [simp]: "sc_queue (promote_owner now owner s) = sc_queue s"
  by (simp add: promote_owner_def upd_control_def)

termination promote_loop
  by (relation "measure (\<lambda>(now, s). length (sc_queue s))") simp_all

declare promote_loop.simps [simp del]

definition pop_ready :: "('q, 'z) sched_scheme \<Rightarrow> 'q owner option \<times> ('q, 'z) sched_scheme" where
  "pop_ready s =
     (case sc_ready s of
        [] \<Rightarrow> (None, s)
      | owner # rest \<Rightarrow> (Some owner, s\<lparr>sc_ready := rest\<rparr>))"

definition manager_should_exit :: "('q, 'z) sched_scheme \<Rightarrow> bool" where
  "manager_should_exit s =
     (\<not> sc_accepting s \<and> sc_active s = [] \<and> sc_queue s = [] \<and> sc_ready s = [])"

definition manager_section ::
  "instant \<Rightarrow> ('q, 'z) sched_scheme
   \<Rightarrow> ('q owner list \<times> 'q owner option \<times> bool) \<times> ('q, 'z) sched_scheme" where
  "manager_section now s =
     (case expire_queue now s of
        (expired_queue, s) \<Rightarrow>
          (case expire_ready now s of
             (expired_ready, s) \<Rightarrow>
               (case pop_ready (promote_loop now (cancel_due_active now s)) of
                  (dispatch, s) \<Rightarrow>
                    ((expired_queue @ expired_ready, dispatch, manager_should_exit s), s))))"

text \<open>What the manager does after a section that dispatched nothing.\<close>

datatype manager_turn = MtStop | MtAgain | MtWait duration

definition has_dispatchable_pending :: "nat \<Rightarrow> nat \<Rightarrow> bool \<Rightarrow> bool \<Rightarrow> bool" where
  "has_dispatchable_pending active active_limit queued ready =
     (ready \<or> (queued \<and> active < active_limit))"

definition next_deadline :: "('q, 'z) sched_scheme \<Rightarrow> instant option" where
  "next_deadline s =
     (let deadlines =
            List.map_filter ow_deadline (sc_queue s @ sc_ready s)
            @ List.map_filter (\<lambda>r. tc_deadline (sc_controls s r))
                (filter (\<lambda>r. startable_or_started (tc_lifecycle (sc_controls s r)))
                   (map snd (sc_active s)))
      in if deadlines = [] then None else Some (Min (set deadlines)))"

definition manager_idle :: "instant \<Rightarrow> ('q, 'z) sched_scheme \<Rightarrow> manager_turn" where
  "manager_idle now s =
     (if sc_active s = [] \<and> sc_queue s = [] \<and> sc_ready s = [] then MtStop
      else if has_dispatchable_pending (length (sc_active s)) (sc_active_limit s)
                (sc_queue s \<noteq> []) (sc_ready s \<noteq> [])
      then MtAgain
      else MtWait (case next_deadline s of
                     None \<Rightarrow> millis 100
                   | Some deadline \<Rightarrow> saturating_duration_since deadline now))"

section \<open>Cancellation, release, shutdown\<close>

text \<open>
  \<open>request_cancel\<close> returns its outcome and the owner it took out of the queue or the ready
  list, for which it then calls \<open>send_terminal\<close> outside the lock.
\<close>

definition sched_request_cancel ::
  "nat \<Rightarrow> cancel_reason \<Rightarrow> ('q, 'z) sched_scheme
   \<Rightarrow> (cancel_outcome \<times> 'q owner option) \<times> ('q, 'z) sched_scheme" where
  "sched_request_cancel r reason s =
     (let control = sc_controls s r
      in if is_terminal (tc_lifecycle control) then ((CxAlreadyTerminal, None), s)
         else
           let outcome = fst (mark_cancelling reason control);
               marked = upd_control r (\<lambda>c. snd (mark_cancelling reason c)) s
           in (case remove_first (\<lambda>task. ow_id task = tc_id control) (sc_queue s) of
                 (Some owner, rest) \<Rightarrow> ((outcome, Some owner), marked\<lparr>sc_queue := rest\<rparr>)
               | (None, _) \<Rightarrow>
                   (case remove_first (\<lambda>task. ow_id task = tc_id control) (sc_ready s) of
                      (Some owner, rest) \<Rightarrow> ((outcome, Some owner), marked\<lparr>sc_ready := rest\<rparr>)
                    | (None, _) \<Rightarrow> ((outcome, None), marked))))"

definition request_cancel ::
  "bool \<Rightarrow> nat \<Rightarrow> cancel_reason \<Rightarrow> ('q, 'z) sched_scheme
   \<Rightarrow> (cancel_outcome \<times> 'q owner option) \<times> ('q, 'z) sched_scheme" where
  "request_cancel scheduler_alive r reason s =
     (if scheduler_alive then sched_request_cancel r reason s
      else (((if is_terminal (tc_lifecycle (sc_controls s r)) then CxAlreadyTerminal
              else CxAlreadyRequested), None), s))"

definition release_active :: "64 word \<Rightarrow> ('q, 'z) sched_scheme \<Rightarrow> ('q, 'z) sched_scheme" where
  "release_active task_id s = s\<lparr>sc_active := AList.delete task_id (sc_active s)\<rparr>"

text \<open>Dropping a permit: an \<open>ActivePermit\<close> releases its slot, a \<open>QueuePermit\<close> holds nothing.\<close>

definition drop_permit :: "'q owner \<Rightarrow> ('q, 'z) sched_scheme \<Rightarrow> ('q, 'z) sched_scheme" where
  "drop_permit owner s =
     (if ow_permit owner = Some PermitActive then release_active (ow_id owner) s else s)"

text \<open>
  \<open>shutdown\<close>, first section: stop accepting, drain the queue and the ready list, and cancel
  every active task that has not started.
\<close>

definition shutdown_unstarted :: "('q, 'z) sched_scheme \<Rightarrow> nat list" where
  "shutdown_unstarted s =
     filter (\<lambda>r. tc_lifecycle (sc_controls s r) = EsAcceptedNotStarted
                  \<and> fst (mark_cancelling CrShutdown (sc_controls s r)) = CxRequested)
       (map snd (sc_active s))"

definition shutdown_drain ::
  "('q, 'z) sched_scheme \<Rightarrow> ('q owner list \<times> 'q owner list \<times> nat) \<times> ('q, 'z) sched_scheme" where
  "shutdown_drain s =
     (let queued = sc_queue s;
          ready = sc_ready s;
          s = cancel_all CrShutdown (map ow_ref ready)
                (s\<lparr>sc_accepting := False, sc_queue := [], sc_ready := []\<rparr>);
          unstarted = shutdown_unstarted s
      in ((queued, ready, length ready + length unstarted), cancel_all CrShutdown unstarted s))"

text \<open>
  The wait for the grace period: each iteration reads whether the active map is empty, the
  clock, and whether the condition variable's wait timed out. \<open>None\<close> is a wait that has not
  ended with the observations given.
\<close>

fun shutdown_wait :: "instant option \<Rightarrow> (bool \<times> instant \<times> bool) list \<Rightarrow> bool option" where
  "shutdown_wait deadline [] = None"
| "shutdown_wait deadline ((active_empty, now, wait_over) # rest) =
     (if active_empty then Some True
      else case deadline of
             None \<Rightarrow> shutdown_wait deadline rest
           | Some at \<Rightarrow>
               if saturating_duration_since at now = 0 then Some False
               else if wait_over then Some False
               else shutdown_wait deadline rest)"

text \<open>\<open>shutdown\<close>, last section: request cancellation of what is still started.\<close>

definition started_active :: "('q, 'z) sched_scheme \<Rightarrow> nat list" where
  "started_active s =
     filter (\<lambda>r. tc_lifecycle (sc_controls s r) = EsStarted) (map snd (sc_active s))"

fun shutdown_request_active ::
  "nat list \<Rightarrow> ('q, 'z) sched_scheme \<Rightarrow> nat \<times> ('q, 'z) sched_scheme" where
  "shutdown_request_active [] s = (0, s)"
| "shutdown_request_active (r # rs) s =
     (if is_terminal (tc_lifecycle (sc_controls s r)) then shutdown_request_active rs s
      else case sched_request_cancel r CrShutdown s of
             ((outcome, _), s) \<Rightarrow>
               (case shutdown_request_active rs s of
                  (n, s) \<Rightarrow>
                    ((if outcome = CxAlreadyTerminal \<or> outcome = CxAlreadyRequested then n
                      else Suc n), s)))"

definition shutdown_report_of :: "nat \<Rightarrow> nat \<Rightarrow> nat \<Rightarrow> shutdown_report" where
  "shutdown_report_of queued accepted active =
     \<lparr>sr_queued_cancelled = queued, sr_accepted_not_started_cancelled = accepted,
      sr_active_cancel_requested = active\<rparr>"

definition fail_pending ::
  "('q, 'z) sched_scheme \<Rightarrow> 'q owner list \<times> ('q, 'z) sched_scheme" where
  "fail_pending s = (sc_queue s @ sc_ready s, s\<lparr>sc_queue := [], sc_ready := []\<rparr>)"

end
