(* ===== verification/Ld_Sched_Inv.thy ===== *)
theory Ld_Sched_Inv
  imports Ld_Schedule "HOL-Library.Multiset"
begin

text \<open>
  The invariant of the executor's worlds (src/src/executor.rs): every task reference is in exactly
  one place or has a published result, permits and the active map agree, lifecycle and
  result agree, the dispatch order is the submission order, and pending work has a manager.
\<close>

section \<open>Control transitions\<close>

text \<open>
  What every transition of a \<open>TaskControl\<close> keeps: the identity of the task, a terminal
  lifecycle, and the first cancellation reason.
\<close>

definition control_kept :: "task_control \<Rightarrow> task_control \<Rightarrow> bool" where
  "control_kept c c' =
     (tc_id c' = tc_id c \<and> tc_deadline c' = tc_deadline c \<and> tc_backend c' = tc_backend c
      \<and> (is_terminal (tc_lifecycle c) \<longrightarrow> tc_lifecycle c' = tc_lifecycle c)
      \<and> (tc_cancel_reason c \<noteq> None \<longrightarrow> tc_cancel_reason c' = tc_cancel_reason c))"

text \<open>The transitions that do not end the task either.\<close>

definition control_soft :: "task_control \<Rightarrow> task_control \<Rightarrow> bool" where
  "control_soft c c' =
     (control_kept c c' \<and> (is_terminal (tc_lifecycle c') \<longrightarrow> is_terminal (tc_lifecycle c)))"

text \<open>Has the task not been started, or been cancelled?\<close>

definition unstarted :: "task_control \<Rightarrow> bool" where
  "unstarted c = (tc_lifecycle c = EsAcceptedNotStarted \<or> tc_cancel_reason c \<noteq> None)"

text \<open>The transitions that do not start it.\<close>

definition control_calm :: "task_control \<Rightarrow> task_control \<Rightarrow> bool" where
  "control_calm c c' = (control_soft c c' \<and> (unstarted c \<longrightarrow> unstarted c'))"

lemma control_kept_refl [simp]: "control_kept c c"
  by (simp add: control_kept_def)

lemma control_soft_refl [simp]: "control_soft c c"
  by (simp add: control_soft_def)

lemma control_kept_trans [trans]: "control_kept a b \<Longrightarrow> control_kept b c \<Longrightarrow> control_kept a c"
  unfolding control_kept_def
  by (cases "is_terminal (tc_lifecycle a)"; cases "tc_cancel_reason a") simp_all

lemma control_soft_trans [trans]: "control_soft a b \<Longrightarrow> control_soft b c \<Longrightarrow> control_soft a c"
  unfolding control_soft_def by (blast intro: control_kept_trans)

lemma control_soft_kept: "control_soft c c' \<Longrightarrow> control_kept c c'"
  by (simp add: control_soft_def)

lemma control_soft_terminal:
  "control_soft c c' \<Longrightarrow> is_terminal (tc_lifecycle c') = is_terminal (tc_lifecycle c)"
  unfolding control_soft_def control_kept_def by (cases "is_terminal (tc_lifecycle c)") simp_all

lemma control_calm_refl [simp]: "control_calm c c"
  by (simp add: control_calm_def)

lemma control_calm_soft: "control_calm c c' \<Longrightarrow> control_soft c c'"
  by (simp add: control_calm_def)

lemma control_calm_trans [trans]: "control_calm a b \<Longrightarrow> control_calm b c \<Longrightarrow> control_calm a c"
  unfolding control_calm_def by (blast intro: control_soft_trans)

lemma soft_mark_cancelling: "control_soft c (snd (mark_cancelling reason c))"
  by (simp add: control_soft_def control_kept_def mark_cancelling_def)

lemma soft_mark_started: "control_soft c (snd (mark_started c))"
  by (simp add: control_soft_def control_kept_def mark_started_def)

lemma soft_begin_start: "control_soft c (snd (begin_start now c))"
  by (simp add: control_soft_def control_kept_def begin_start_def)

lemma soft_mark_accepted: "control_soft c (mark_accepted c)"
  by (simp add: control_soft_def control_kept_def mark_accepted_def)

lemma soft_queue_wait: "control_soft c (control_record_queue_wait now c)"
  by (simp add: control_soft_def control_kept_def control_record_queue_wait_def)

lemma calm_mark_cancelling: "control_calm c (snd (mark_cancelling reason c))"
  using soft_mark_cancelling [of c reason]
  by (simp add: control_calm_def mark_cancelling_def unstarted_def)

lemma calm_mark_accepted: "control_calm c (mark_accepted c)"
  using soft_mark_accepted [of c]
  by (simp add: control_calm_def mark_accepted_def unstarted_def)

lemma calm_queue_wait: "control_calm c (control_record_queue_wait now c)"
  using soft_queue_wait [of c now]
  by (simp add: control_calm_def control_record_queue_wait_def unstarted_def)

lemma soft_control_failure:
  "control_failure e now d cl tr p c = (f, c') \<Longrightarrow> control_soft c c'"
  by (auto simp: control_failure_def control_report_with_metadata_def Let_def
      intro: soft_queue_wait)

lemma lifecycle_control_failure:
  "control_failure e now d cl tr p c = (f, c') \<Longrightarrow>
   tc_lifecycle c' = tc_lifecycle c \<and> tc_cancel_reason c' = tc_cancel_reason c
   \<and> ef_error f = e \<and> ef_partial_output f = p"
  by (auto simp: control_failure_def control_report_with_metadata_def Let_def
      control_record_queue_wait_def)

lemma cause_failure_control:
  "cause_failure now cause c = (f, c') \<Longrightarrow> \<exists>e d. control_failure e now d None None None c = (f, c')"
  by (cases cause)
     (auto simp: cause_failure_def deadline_failure_def cancelled_failure_def
      deadline_failure_with_partial_and_metadata_def
      cancelled_failure_with_partial_and_metadata_def)

lemma soft_cause_failure: "cause_failure now cause c = (f, c') \<Longrightarrow> control_soft c c'"
  by (blast dest: cause_failure_control intro: soft_control_failure)

lemma soft_resolve_outcome:
  assumes "resolve_outcome now result d c = ((lifecycle, r), c')"
  shows "control_soft c c' \<and> is_terminal lifecycle
         \<and> (lifecycle = EsCompleted \<longleftrightarrow> is_ok r)"
proof (cases "supervisor_failure result")
  case (Some category)
  with assms have eqs: "r = result" "c' = c"
      "lifecycle = (if category = FcTimeout then EsTerminated else EsFailed)"
    by (auto simp: resolve_outcome_def Let_def)
  from Some have "\<not> is_ok result"
    by (cases result) (auto simp: supervisor_failure_def)
  with eqs show ?thesis by simp
next
  case None
  note n = None
  show ?thesis
  proof (cases "tc_cancel_reason c")
    case None
    with n assms show ?thesis
      by (cases result) (auto simp: resolve_outcome_def Let_def split: if_splits)
  next
    case (Some reason)
    with n assms obtain f e cl tr p where
      f: "control_failure e now (Some d) cl tr p c = (f, c')" "lifecycle = EsTerminated" "r = Inl f"
      by (cases reason)
         (auto simp: resolve_outcome_def Let_def deadline_failure_with_partial_and_metadata_def
          cancelled_failure_with_partial_and_metadata_def split: prod.splits)
    then show ?thesis
      by (auto intro: soft_control_failure)
  qed
qed

lemma resolve_backend_result_Some:
  assumes "resolve_backend_result now result d c = (Some (lifecycle, r), c')"
  shows "control_kept c c' \<and> tc_lifecycle c' = lifecycle \<and> is_terminal lifecycle
         \<and> (lifecycle = EsCompleted \<longleftrightarrow> is_ok r) \<and> \<not> is_terminal (tc_lifecycle c)"
proof -
  from assms have nt: "\<not> is_terminal (tc_lifecycle c)"
    by (auto simp: resolve_backend_result_def split: if_splits)
  obtain l1 r1 c1 where o: "resolve_outcome now result d c = ((l1, r1), c1)"
    by (metis surj_pair)
  with assms nt have "l1 = lifecycle" "r1 = r" "c' = c1\<lparr>tc_lifecycle := lifecycle\<rparr>"
    by (auto simp: resolve_backend_result_def)
  with nt soft_resolve_outcome [OF o] show ?thesis
    by (simp add: control_soft_def control_kept_def)
qed

lemma resolve_backend_result_None:
  "\<not> is_terminal (tc_lifecycle c) \<Longrightarrow> fst (resolve_backend_result now result d c) \<noteq> None"
  by (auto simp: resolve_backend_result_def split: prod.splits)

section \<open>The structural invariant\<close>

text \<open>A published result agrees with the terminal lifecycle.\<close>

definition coherent :: "execution_state \<Rightarrow> completion \<Rightarrow> bool" where
  "coherent lifecycle result =
     (is_terminal lifecycle \<and> (lifecycle = EsCompleted \<longleftrightarrow> is_ok result))"

definition ids_inv :: "(nat \<Rightarrow> task_control) \<Rightarrow> nat \<Rightarrow> 64 word \<Rightarrow> bool" where
  "ids_inv ctl n nid =
     (nid \<noteq> 0 \<and> (\<forall>r < n. tc_id (ctl r) < nid) \<and> (\<forall>r < n. \<forall>r' < r. tc_id (ctl r') < tc_id (ctl r)))"

definition owner_inv :: "(nat \<Rightarrow> task_control) \<Rightarrow> nat \<Rightarrow> 'q owner \<Rightarrow> bool" where
  "owner_inv ctl n ow =
     (ow_ref ow < n \<and> ow_id ow = tc_id (ctl (ow_ref ow))
      \<and> ow_deadline ow = tc_deadline (ctl (ow_ref ow))
      \<and> ow_backend ow = tc_backend (ctl (ow_ref ow)))"

definition permit_keys :: "'q owner list \<Rightarrow> (64 word \<times> nat) set" where
  "permit_keys os = (\<lambda>ow. (ow_id ow, ow_ref ow)) ` {ow \<in> set os. ow_permit ow = Some PermitActive}"

definition done_inv ::
  "'q owner list \<Rightarrow> (nat \<Rightarrow> task_control) \<Rightarrow> (nat \<Rightarrow> completion option) \<Rightarrow> nat \<Rightarrow> bool" where
  "done_inv os ctl res r =
     (if r \<in> ow_ref ` set os then res r = None
      else (\<exists>c. res r = Some c \<and> coherent (tc_lifecycle (ctl r)) c))"

definition struct_inv ::
  "'q owner list \<Rightarrow> (64 word \<times> nat) list \<Rightarrow> (nat \<Rightarrow> task_control) \<Rightarrow> (nat \<Rightarrow> completion option)
   \<Rightarrow> nat \<Rightarrow> 64 word \<Rightarrow> bool" where
  "struct_inv os active ctl res n nid =
     (distinct (map ow_ref os) \<and> (\<forall>ow \<in> set os. owner_inv ctl n ow) \<and> ids_inv ctl n nid
      \<and> keys_distinct active \<and> set active = permit_keys os
      \<and> (\<forall>r < n. done_inv os ctl res r))"

lemma permit_keys_simps [simp]:
  "permit_keys [] = {}"
  "permit_keys (ow # os) =
     (if ow_permit ow = Some PermitActive then insert (ow_id ow, ow_ref ow) (permit_keys os)
      else permit_keys os)"
  by (auto simp: permit_keys_def)

lemma permit_keys_refs: "(i, r) \<in> permit_keys os \<Longrightarrow> r \<in> ow_ref ` set os"
  by (auto simp: permit_keys_def)

lemma ids_inj:
  assumes "ids_inv ctl n nid" "r < n" "r' < n" "tc_id (ctl r) = tc_id (ctl r')"
  shows "r = r'"
proof (rule ccontr)
  assume "r \<noteq> r'"
  then consider "r < r'" | "r' < r" by linarith
  then show False
    using assms by cases (auto simp: ids_inv_def, fastforce+)
qed

lemma owner_id_inj:
  "ids_inv ctl n nid \<Longrightarrow> owner_inv ctl n a \<Longrightarrow> owner_inv ctl n b \<Longrightarrow> ow_id a = ow_id b
   \<Longrightarrow> ow_ref a = ow_ref b"
  unfolding owner_inv_def by (metis ids_inj)

lemma struct_inv_perm:
  assumes "mset os = mset os'"
  shows "struct_inv os active ctl res n nid = struct_inv os' active ctl res n nid"
proof -
  have "set os = set os'"
    using assms by (rule mset_eq_setD)
  moreover have "distinct (map ow_ref os) = distinct (map ow_ref os')"
    using assms by (intro mset_eq_imp_distinct_iff) simp
  ultimately show ?thesis
    by (simp add: struct_inv_def permit_keys_def done_inv_def)
qed

lemma struct_inv_control:
  assumes inv: "struct_inv os active ctl res n nid"
    and kept: "\<forall>r. control_kept (ctl r) (ctl' r)"
  shows "struct_inv os active ctl' res n nid"
proof -
  have same: "tc_id (ctl' r) = tc_id (ctl r)" "tc_deadline (ctl' r) = tc_deadline (ctl r)"
      "tc_backend (ctl' r) = tc_backend (ctl r)" for r
    using kept by (simp_all add: control_kept_def)
  have life: "coherent (tc_lifecycle (ctl r)) c \<Longrightarrow> coherent (tc_lifecycle (ctl' r)) c" for r c
    using kept [rule_format, of r] by (auto simp: control_kept_def coherent_def)
  have d: "done_inv os ctl res r \<Longrightarrow> done_inv os ctl' res r" for r
    using life [of r] by (auto simp: done_inv_def)
  from inv show ?thesis
    by (auto simp: struct_inv_def owner_inv_def ids_inv_def same d)
qed

lemma struct_inv_new:
  assumes inv: "struct_inv os active ctl res n nid" and nid: "nid \<noteq> - 1"
    and ow: "ow_ref ow = n" "ow_id ow = nid" "ow_permit ow = Some PermitQueued"
    and c: "tc_id c = nid" "tc_deadline c = ow_deadline ow" "tc_backend c = ow_backend ow"
  shows "struct_inv (ow # os) active (ctl(n := c)) (res(n := None)) (Suc n) (nid + 1)"
proof -
  have refs: "\<forall>o' \<in> set os. ow_ref o' < n"
    using inv by (auto simp: struct_inv_def owner_inv_def)
  have nz: "1 + nid \<noteq> 0"
    using nid by (metis add.commute add_eq_0_iff)
  have lt: "nid < nid + 1"
    using unatSuc [OF nz] by (simp add: word_less_nat_alt add.commute)
  have ids: "ids_inv (ctl(n := c)) (Suc n) (nid + 1)"
    using inv lt c nz
    by (auto simp: struct_inv_def ids_inv_def less_Suc_eq nz add.commute intro: less_trans)
  have "\<forall>o' \<in> set (ow # os). owner_inv (ctl(n := c)) (Suc n) o'"
    using inv refs ow c by (fastforce simp: struct_inv_def owner_inv_def)
  moreover have "\<forall>r < Suc n. done_inv (ow # os) (ctl(n := c)) (res(n := None)) r"
    using inv ow by (auto simp: struct_inv_def done_inv_def less_Suc_eq)
  moreover have "distinct (map ow_ref (ow # os))"
    using inv refs ow by (auto simp: struct_inv_def)
  ultimately show ?thesis
    using inv ids ow by (simp add: struct_inv_def)
qed

lemma refs_Cons_notin:
  "struct_inv (ow # os) active ctl res n nid \<Longrightarrow> ow_ref ow \<notin> ow_ref ` set os"
  by (simp add: struct_inv_def)

lemma struct_inv_promote:
  assumes inv: "struct_inv (ow # os) active ctl res n nid" and q: "ow_permit ow = Some PermitQueued"
  shows "struct_inv (ow\<lparr>ow_permit := Some PermitActive\<rparr> # os)
           (AList.update (ow_id ow) (ow_ref ow) active) ctl res n nid"
    and "ow_id ow \<notin> fst ` set active"
proof -
  have k: "keys_distinct active" and a: "set active = permit_keys os"
    using inv q by (simp_all add: struct_inv_def)
  show fresh: "ow_id ow \<notin> fst ` set active"
  proof
    assume "ow_id ow \<in> fst ` set active"
    with a obtain o' where o': "o' \<in> set os" "ow_id o' = ow_id ow"
      by (auto simp: permit_keys_def)
    with inv have "ow_ref o' = ow_ref ow"
      by (auto simp: struct_inv_def intro: owner_id_inj)
    with o' refs_Cons_notin [OF inv] show False by (metis imageI)
  qed
  then have "{p \<in> set active. fst p \<noteq> ow_id ow} = set active"
    by force
  with k have "set (AList.update (ow_id ow) (ow_ref ow) active)
      = insert (ow_id ow, ow_ref ow) (permit_keys os)"
    by (simp add: set_alist_update a)
  with inv k show "struct_inv (ow\<lparr>ow_permit := Some PermitActive\<rparr> # os)
           (AList.update (ow_id ow) (ow_ref ow) active) ctl res n nid"
    by (simp add: struct_inv_def owner_inv_def done_inv_def)
qed

lemma struct_inv_release:
  assumes inv: "struct_inv (ow # os) active ctl res n nid"
  shows "struct_inv (ow\<lparr>ow_permit := None\<rparr> # os)
           (if ow_permit ow = Some PermitActive then AList.delete (ow_id ow) active else active)
           ctl res n nid"
proof -
  have "fst p \<noteq> ow_id ow" if "p \<in> permit_keys os" for p
  proof
    assume "fst p = ow_id ow"
    with that obtain o' where o': "o' \<in> set os" "ow_id o' = ow_id ow"
      by (auto simp: permit_keys_def)
    with inv have "ow_ref o' = ow_ref ow"
      by (auto simp: struct_inv_def intro: owner_id_inj)
    with o' refs_Cons_notin [OF inv] show False by (metis imageI)
  qed
  then have "{p \<in> insert (ow_id ow, ow_ref ow) (permit_keys os). fst p \<noteq> ow_id ow} = permit_keys os"
    by auto
  with inv show ?thesis
    by (auto simp: struct_inv_def owner_inv_def done_inv_def set_alist_delete)
qed

lemma struct_inv_publish:
  assumes inv: "struct_inv (ow # os) active ctl res n nid" and none: "ow_permit ow = None"
    and coh: "coherent (tc_lifecycle (ctl (ow_ref ow))) result"
  shows "struct_inv os active ctl (res(ow_ref ow \<mapsto> result)) n nid" "res (ow_ref ow) = None"
proof -
  have r: "ow_ref ow \<notin> ow_ref ` set os" "ow_ref ow < n"
    using inv by (auto simp: struct_inv_def owner_inv_def)
  have "done_inv os ctl (res(ow_ref ow \<mapsto> result)) r" if "r < n" for r
    using inv that coh r by (auto simp: struct_inv_def done_inv_def)
  with inv none show "struct_inv os active ctl (res(ow_ref ow \<mapsto> result)) n nid"
    by (simp add: struct_inv_def)
  show "res (ow_ref ow) = None"
    using inv r by (auto simp: struct_inv_def done_inv_def)
qed

section \<open>Places\<close>

definition queued_ok :: "(nat \<Rightarrow> task_control) \<Rightarrow> 'q owner \<Rightarrow> bool" where
  "queued_ok ctl ow =
     (ow_permit ow = Some PermitQueued \<and> tc_lifecycle (ctl (ow_ref ow)) = EsQueued
      \<and> tc_cancel_reason (ctl (ow_ref ow)) = None)"

definition ready_ok :: "(nat \<Rightarrow> task_control) \<Rightarrow> 'q owner \<Rightarrow> bool" where
  "ready_ok ctl ow =
     (ow_permit ow = Some PermitActive \<and> tc_lifecycle (ctl (ow_ref ow)) = EsAcceptedNotStarted
      \<and> tc_cancel_reason (ctl (ow_ref ow)) = None)"

fun job_ok :: "(nat \<Rightarrow> task_control) \<Rightarrow> 'q job \<Rightarrow> bool" where
  "job_ok ctl (JobTerminal ow lifecycle cause) =
     (ow_permit ow \<noteq> None \<and> \<not> is_terminal (tc_lifecycle (ctl (ow_ref ow)))
      \<and> is_terminal lifecycle \<and> lifecycle \<noteq> EsCompleted)"
| "job_ok ctl (JobDispatch ow) =
     (ow_permit ow = Some PermitActive \<and> \<not> is_terminal (tc_lifecycle (ctl (ow_ref ow)))
      \<and> unstarted (ctl (ow_ref ow)))"
| "job_ok ctl (JobStart ow) =
     (ow_permit ow = Some PermitActive \<and> \<not> is_terminal (tc_lifecycle (ctl (ow_ref ow)))
      \<and> unstarted (ctl (ow_ref ow)))"
| "job_ok ctl (JobBackend ow) =
     (ow_permit ow = Some PermitActive \<and> \<not> is_terminal (tc_lifecycle (ctl (ow_ref ow))))"
| "job_ok ctl (JobPublish ow result) =
     (ow_permit ow \<noteq> None \<and> coherent (tc_lifecycle (ctl (ow_ref ow))) result)"
| "job_ok ctl (JobWake ow result) =
     (ow_permit ow = None \<and> coherent (tc_lifecycle (ctl (ow_ref ow))) result)"

lemma coherent_terminal: "coherent lifecycle result \<Longrightarrow> is_terminal lifecycle"
  by (simp add: coherent_def)

fun unentered_job :: "'q job \<Rightarrow> bool" where
  "unentered_job (JobDispatch ow) = True"
| "unentered_job (JobStart ow) = True"
| "unentered_job _ = False"

lemma job_ok_soft:
  assumes "job_ok ctl j" "control_soft (ctl (ow_ref (job_owner j))) (ctl' (ow_ref (job_owner j)))"
    and "unentered_job j \<longrightarrow>
      control_calm (ctl (ow_ref (job_owner j))) (ctl' (ow_ref (job_owner j)))"
  shows "job_ok ctl' j"
proof -
  have t: "is_terminal (tc_lifecycle (ctl' (ow_ref (job_owner j))))
      = is_terminal (tc_lifecycle (ctl (ow_ref (job_owner j))))"
    by (rule control_soft_terminal) (rule assms(2))
  have "is_terminal (tc_lifecycle (ctl (ow_ref (job_owner j)))) \<Longrightarrow>
      tc_lifecycle (ctl' (ow_ref (job_owner j))) = tc_lifecycle (ctl (ow_ref (job_owner j)))"
    using assms(2) by (simp add: control_soft_def control_kept_def)
  with t assms show ?thesis
    by (cases j) (auto simp: control_calm_def dest: coherent_terminal)
qed

lemma job_ok_calm:
  "job_ok ctl j \<Longrightarrow> control_calm (ctl (ow_ref (job_owner j))) (ctl' (ow_ref (job_owner j))) \<Longrightarrow>
   job_ok ctl' j"
  by (auto intro: job_ok_soft control_calm_soft)

text \<open>The histories: dispatch follows submission, and a backend is entered at most once.\<close>

definition pending_refs :: "'q world \<Rightarrow> nat list" where
  "pending_refs w = map ow_ref (sc_ready w @ sc_queue w)"

definition history_inv :: "'q world \<Rightarrow> bool" where
  "history_inv w =
     (sorted_wrt (<) (w_dispatched w @ pending_refs w)
      \<and> (\<forall>r \<in> set (w_dispatched w @ pending_refs w). r < sc_next_ref w)
      \<and> distinct (w_entered w) \<and> set (w_entered w) \<subseteq> set (w_dispatched w)
      \<and> (\<forall>j \<in> set (w_jobs w). unentered_job j \<longrightarrow>
           ow_ref (job_owner j) \<in> set (w_dispatched w) - set (w_entered w)))"

definition bounds_inv :: "('q, 'z) sched_scheme \<Rightarrow> bool" where
  "bounds_inv s =
     (0 < sc_active_limit s \<and> length (sc_active s) \<le> sc_active_limit s
      \<and> length (sc_queue s) \<le> sc_queue_limit s)"

definition places_inv :: "'q world \<Rightarrow> bool" where
  "places_inv w =
     ((\<forall>ow \<in> set (sc_queue w). queued_ok (sc_controls w) ow)
      \<and> (\<forall>ow \<in> set (sc_ready w). ready_ok (sc_controls w) ow)
      \<and> (\<forall>j \<in> set (w_jobs w). job_ok (sc_controls w) j))"

definition tasks_inv :: "'q world \<Rightarrow> bool" where
  "tasks_inv w =
     (struct_inv (owners w) (sc_active w) (sc_controls w) (sc_results w) (sc_next_ref w)
        (sc_next_id w)
      \<and> places_inv w \<and> history_inv w \<and> bounds_inv w)"

end
