(* ===== verification/Ld_Sched_Steps.thy ===== *)
theory Ld_Sched_Steps
  imports Ld_Sched_Inv "HOL-Library.Sublist"
begin

text \<open>
  Every step of the executor keeps the invariant of Ld_Sched_Inv (src/src/executor.rs,
  \<open>AdmissionScheduler\<close>, \<open>spawn_task\<close>, \<open>TaskOwner\<close>).
\<close>

section \<open>Three ways the invariant is kept\<close>

definition same_frame :: "'q world \<Rightarrow> 'q world \<Rightarrow> bool" where
  "same_frame w w' =
     (sc_next_ref w' = sc_next_ref w \<and> sc_next_id w' = sc_next_id w
      \<and> sc_active_limit w' = sc_active_limit w \<and> sc_queue_limit w' = sc_queue_limit w)"

definition same_admission :: "'q world \<Rightarrow> 'q world \<Rightarrow> bool" where
  "same_admission w w' =
     (same_frame w w' \<and> sc_active w' = sc_active w \<and> sc_results w' = sc_results w)"

definition same_pending :: "'q world \<Rightarrow> 'q world \<Rightarrow> bool" where
  "same_pending w w' = (sc_queue w' = sc_queue w \<and> sc_ready w' = sc_ready w
     \<and> w_dispatched w' = w_dispatched w)"

lemma subseq_set_subset: "subseq xs ys \<Longrightarrow> set xs \<subseteq> set ys"
  by (induction rule: list_emb.induct) auto

lemma sorted_wrt_subseq: "subseq xs ys \<Longrightarrow> sorted_wrt P ys \<Longrightarrow> sorted_wrt P xs"
proof (induction rule: list_emb.induct)
  case (list_emb_Nil ys)
  then show ?case by simp
next
  case (list_emb_Cons xs ys y)
  then show ?case by simp
next
  case (list_emb_Cons2 x y xs ys)
  then show ?case by (auto dest: set_mp [OF subseq_set_subset])
qed

lemma terminal_jobs_owner [simp]: "map job_owner (terminal_jobs lifecycle cause os) = os"
  by (induction os) (simp_all add: terminal_jobs_def)

lemma set_terminal_jobs:
  "set (terminal_jobs lifecycle cause os) = (\<lambda>ow. JobTerminal ow lifecycle cause) ` set os"
  by (simp add: terminal_jobs_def)

text \<open>Owners leave the queue and the ready list for \<open>send_terminal\<close>.\<close>

lemma tasks_inv_move:
  assumes inv: "tasks_inv w" and adm: "same_admission w w'"
    and hist: "w_dispatched w' = w_dispatched w" "w_entered w' = w_entered w"
    and perm: "mset (sc_queue w' @ sc_ready w' @ moved) = mset (sc_queue w @ sc_ready w)"
    and order: "subseq (pending_refs w') (pending_refs w)"
    and len: "length (sc_queue w') \<le> length (sc_queue w)"
    and sub: "set (sc_queue w') \<subseteq> set (sc_queue w)" "set (sc_ready w') \<subseteq> set (sc_ready w)"
    and calm: "\<forall>r. control_calm (sc_controls w r) (sc_controls w' r)"
    and still: "\<forall>ow \<in> set (sc_queue w' @ sc_ready w').
                  sc_controls w' (ow_ref ow) = sc_controls w (ow_ref ow)"
    and jobs: "w_jobs w' = w_jobs w @ terminal_jobs lifecycle cause moved"
    and ending: "is_terminal lifecycle" "lifecycle \<noteq> EsCompleted"
  shows "tasks_inv w'"
proof -
  have places: "places_inv w" and bounds: "bounds_inv w" and history: "history_inv w"
    and struct: "struct_inv (owners w) (sc_active w) (sc_controls w) (sc_results w)
          (sc_next_ref w) (sc_next_id w)"
    using inv by (simp_all add: tasks_inv_def)
  have soft: "\<forall>r. control_soft (sc_controls w r) (sc_controls w' r)"
    using calm by (simp add: control_calm_soft)
  have m: "mset (owners w') = mset (owners w)"
    using perm jobs by (simp add: owners_def ac_simps)
  have "struct_inv (owners w) (sc_active w') (sc_controls w') (sc_results w')
          (sc_next_ref w') (sc_next_id w')"
    using struct soft adm
    by (auto simp: same_admission_def same_frame_def intro: struct_inv_control control_soft_kept)
  then have s: "struct_inv (owners w') (sc_active w') (sc_controls w') (sc_results w')
          (sc_next_ref w') (sc_next_id w')"
    by (simp add: struct_inv_perm [OF m])
  have moved: "ow_permit ow \<noteq> None \<and> \<not> is_terminal (tc_lifecycle (sc_controls w (ow_ref ow)))"
    if "ow \<in> set moved" for ow
  proof -
    have "set (sc_queue w' @ sc_ready w' @ moved) = set (sc_queue w @ sc_ready w)"
      by (rule mset_eq_setD) (rule perm)
    with that have "ow \<in> set (sc_queue w) \<union> set (sc_ready w)" by auto
    with places show ?thesis
      by (auto simp: places_inv_def queued_ok_def ready_ok_def)
  qed
  have "job_ok (sc_controls w') j" if "j \<in> set (w_jobs w')" for j
  proof (cases "j \<in> set (w_jobs w)")
    case True
    with places calm show ?thesis
      by (auto simp: places_inv_def intro: job_ok_calm)
  next
    case False
    with that jobs obtain ow where "ow \<in> set moved" "j = JobTerminal ow lifecycle cause"
      by (auto simp: set_terminal_jobs)
    with moved [of ow] ending control_soft_terminal [OF soft [rule_format]] show ?thesis
      by simp
  qed
  moreover have "queued_ok (sc_controls w') ow" if "ow \<in> set (sc_queue w')" for ow
    using that sub still places by (auto simp: places_inv_def queued_ok_def)
  moreover have "ready_ok (sc_controls w') ow" if "ow \<in> set (sc_ready w')" for ow
    using that sub still places by (auto simp: places_inv_def ready_ok_def)
  ultimately have p: "places_inv w'"
    by (simp add: places_inv_def)
  have "subseq (w_dispatched w' @ pending_refs w') (w_dispatched w @ pending_refs w)"
    using order hist by (simp add: list_emb_append_mono)
  then have "sorted_wrt (<) (w_dispatched w' @ pending_refs w')"
    "set (w_dispatched w' @ pending_refs w') \<subseteq> set (w_dispatched w @ pending_refs w)"
    using history by (auto simp: history_inv_def intro: sorted_wrt_subseq dest: subseq_set_subset
        simp del: set_append)
  then have h: "history_inv w'"
    using history hist adm jobs
    by (auto simp: history_inv_def same_admission_def same_frame_def set_terminal_jobs)
  have "bounds_inv w'"
    using bounds adm len by (auto simp: bounds_inv_def same_admission_def same_frame_def)
  with s p h show ?thesis by (simp add: tasks_inv_def)
qed

text \<open>One job takes a step of its own: the lifecycle of its task may become terminal.\<close>

lemma job_owner_other:
  assumes inv: "tasks_inv w" and jobs: "w_jobs w = us @ j # vs"
  shows "ow \<in> set (sc_queue w) \<union> set (sc_ready w) \<Longrightarrow> ow_ref ow \<noteq> ow_ref (job_owner j)"
    and "j' \<in> set us \<union> set vs \<Longrightarrow> ow_ref (job_owner j') \<noteq> ow_ref (job_owner j)"
proof -
  have d: "distinct (map ow_ref (owners w))"
    using inv by (simp add: tasks_inv_def struct_inv_def)
  then have q: "ow_ref (job_owner j) \<notin> ow_ref ` (set (sc_queue w) \<union> set (sc_ready w))"
    using jobs by (simp add: owners_def image_Un)
  then show "ow_ref ow \<noteq> ow_ref (job_owner j)" if "ow \<in> set (sc_queue w) \<union> set (sc_ready w)"
    using that by (metis imageI)
  have "ow_ref (job_owner j) \<notin> (\<lambda>i. ow_ref (job_owner i)) ` (set us \<union> set vs)"
    using d jobs by (simp add: owners_def image_Un image_image)
  then show "ow_ref (job_owner j') \<noteq> ow_ref (job_owner j)" if "j' \<in> set us \<union> set vs"
    using that by (metis (no_types, lifting) imageI)
qed

lemma tasks_inv_job:
  assumes inv: "tasks_inv w" and jobs: "w_jobs w = us @ j # vs"
    and adm: "same_admission w w'" and pend: "same_pending w w'"
    and kept: "control_kept (sc_controls w (ow_ref (job_owner j))) c"
    and ctl: "sc_controls w' = (sc_controls w)(ow_ref (job_owner j) := c)"
    and jobs': "w_jobs w' = us @ j' # vs" and own: "job_owner j' = job_owner j"
    and ok: "job_ok (sc_controls w') j'"
    and hist: "w_entered w' = w_entered w \<and> (unentered_job j' \<longrightarrow> unentered_job j)
        \<or> w_entered w' = w_entered w @ [ow_ref (job_owner j)] \<and> unentered_job j
            \<and> \<not> unentered_job j'"
  shows "tasks_inv w'"
proof -
  have places: "places_inv w" and bounds: "bounds_inv w" and history: "history_inv w"
    and struct: "struct_inv (owners w) (sc_active w) (sc_controls w) (sc_results w)
          (sc_next_ref w) (sc_next_id w)"
    using inv by (simp_all add: tasks_inv_def)
  have "owners w' = owners w"
    using jobs jobs' own pend by (simp add: owners_def same_pending_def)
  moreover have "struct_inv (owners w) (sc_active w') (sc_controls w') (sc_results w')
          (sc_next_ref w') (sc_next_id w')"
    using struct kept adm ctl
    by (auto simp: same_admission_def same_frame_def intro: struct_inv_control)
  ultimately have s: "struct_inv (owners w') (sc_active w') (sc_controls w') (sc_results w')
          (sc_next_ref w') (sc_next_id w')"
    by simp
  note other = job_owner_other [OF inv jobs]
  have "job_ok (sc_controls w') i" if "i \<in> set us \<union> set vs" for i
  proof -
    have "job_ok (sc_controls w) i"
      using that places jobs by (auto simp: places_inv_def)
    moreover have "sc_controls w' (ow_ref (job_owner i)) = sc_controls w (ow_ref (job_owner i))"
      using other(2) [OF that] ctl by simp
    ultimately show ?thesis
      by (auto intro: job_ok_calm)
  qed
  with ok jobs' have "\<forall>i \<in> set (w_jobs w'). job_ok (sc_controls w') i" by auto
  moreover have "\<forall>ow \<in> set (sc_queue w'). queued_ok (sc_controls w') ow"
    using other(1) ctl pend places by (auto simp: places_inv_def same_pending_def queued_ok_def)
  moreover have "\<forall>ow \<in> set (sc_ready w'). ready_ok (sc_controls w') ow"
    using other(1) ctl pend places by (auto simp: places_inv_def same_pending_def ready_ok_def)
  ultimately have p: "places_inv w'" by (simp add: places_inv_def)
  have sub: "\<forall>i \<in> set us \<union> set vs. unentered_job i \<longrightarrow>
      ow_ref (job_owner i) \<in> set (w_dispatched w) - set (w_entered w)"
    using history jobs by (auto simp: history_inv_def)
  have jref: "unentered_job j \<Longrightarrow>
      ow_ref (job_owner j) \<in> set (w_dispatched w) - set (w_entered w)"
    using history jobs by (auto simp: history_inv_def)
  have pr: "pending_refs w' = pending_refs w" "w_dispatched w' = w_dispatched w"
    using pend by (simp_all add: pending_refs_def same_pending_def)
  have rest: "sorted_wrt (<) (w_dispatched w' @ pending_refs w')"
      "\<forall>r \<in> set (w_dispatched w' @ pending_refs w'). r < sc_next_ref w'"
    using history pr adm by (simp_all add: history_inv_def same_admission_def same_frame_def)
  have "distinct (w_entered w') \<and> set (w_entered w') \<subseteq> set (w_dispatched w')"
    using history hist jref pr by (auto simp: history_inv_def)
  moreover have "\<forall>i \<in> set (w_jobs w'). unentered_job i \<longrightarrow>
      ow_ref (job_owner i) \<in> set (w_dispatched w') - set (w_entered w')"
  proof (intro ballI impI)
    fix i assume i: "i \<in> set (w_jobs w')" "unentered_job i"
    show "ow_ref (job_owner i) \<in> set (w_dispatched w') - set (w_entered w')"
    proof (cases "i \<in> set us \<union> set vs")
      case True
      then show ?thesis
        using i sub other(2) [OF True] hist pr by auto
    next
      case False
      with i jobs' have "i = j'" by auto
      with i hist jref own pr show ?thesis by auto
    qed
  qed
  ultimately have h: "history_inv w'"
    using rest by (simp add: history_inv_def)
  have "bounds_inv w'"
    using bounds adm pend
    by (simp add: bounds_inv_def same_admission_def same_frame_def same_pending_def)
  with s p h show ?thesis by (simp add: tasks_inv_def)
qed

section \<open>Jobs\<close>

lemma same_admission_jobs [simp]:
  "same_admission w (w\<lparr>w_jobs := js\<rparr>)" "same_pending w (w\<lparr>w_jobs := js\<rparr>)"
  by (simp_all add: same_admission_def same_frame_def same_pending_def)

lemma same_admission_control [simp]:
  "same_admission w (upd_control r f w)" "same_pending w (upd_control r f w)"
  by (simp_all add: same_admission_def same_frame_def same_pending_def upd_control_def)

lemma struct_of_tasks:
  "tasks_inv w \<Longrightarrow> struct_inv (owners w) (sc_active w) (sc_controls w) (sc_results w)
     (sc_next_ref w) (sc_next_id w)"
  by (simp add: tasks_inv_def)

lemma job_ok_of_tasks: "tasks_inv w \<Longrightarrow> w_jobs w = us @ j # vs \<Longrightarrow> job_ok (sc_controls w) j"
  by (simp add: tasks_inv_def places_inv_def)

lemma unentered_of_tasks:
  "tasks_inv w \<Longrightarrow> w_jobs w = us @ j # vs \<Longrightarrow> unentered_job j \<Longrightarrow>
   ow_ref (job_owner j) \<in> set (w_dispatched w) - set (w_entered w)"
  by (simp add: tasks_inv_def history_inv_def)

text \<open>The job's owner in front of the others.\<close>

lemma owners_job_first:
  assumes "w_jobs w = us @ j # vs"
  shows "mset (owners w)
    = mset (job_owner j # sc_queue w @ sc_ready w @ map job_owner us @ map job_owner vs)"
  using assms by (simp add: owners_def)

lemma struct_job_first:
  assumes "tasks_inv w" "w_jobs w = us @ j # vs"
  shows "struct_inv (job_owner j # sc_queue w @ sc_ready w @ map job_owner us @ map job_owner vs)
           (sc_active w) (sc_controls w) (sc_results w) (sc_next_ref w) (sc_next_id w)"
  using struct_of_tasks [OF assms(1)] struct_inv_perm [OF owners_job_first [OF assms(2)]] by simp

text \<open>A lifecycle step of a job that stays a job of the same owner.\<close>

lemma tasks_inv_relabel:
  assumes inv: "tasks_inv w" and jobs: "w_jobs w = us @ j # vs"
    and kept: "control_kept (sc_controls w (ow_ref (job_owner j))) c"
    and own: "job_owner j' = job_owner j"
    and ok: "job_ok ((sc_controls w)(ow_ref (job_owner j) := c)) j'"
    and un: "unentered_job j' \<longrightarrow> unentered_job j"
  shows "tasks_inv ((upd_control (ow_ref (job_owner j)) (\<lambda>_. c) w)\<lparr>w_jobs := us @ j' # vs\<rparr>)"
  by (rule tasks_inv_job [OF inv jobs _ _ kept _ _ own])
     (use ok un in \<open>simp_all add: upd_control_def same_admission_def same_frame_def
        same_pending_def\<close>)

lemma mark_terminal_True:
  "mark_terminal lifecycle c = (True, c') \<Longrightarrow>
   \<not> is_terminal (tc_lifecycle c) \<and> c' = c\<lparr>tc_lifecycle := lifecycle\<rparr>"
  by (auto simp: mark_terminal_def split: if_splits)

lemma mark_terminal_open: "\<not> is_terminal (tc_lifecycle c) \<Longrightarrow> fst (mark_terminal lifecycle c)"
  by (simp add: mark_terminal_def)

lemma kept_terminal_update:
  "\<not> is_terminal (tc_lifecycle c) \<Longrightarrow> control_kept c c1 \<Longrightarrow>
   control_kept c (c1\<lparr>tc_lifecycle := lifecycle\<rparr>)"
  by (simp add: control_kept_def)

lemma tasks_inv_send:
  assumes inv: "tasks_inv w" and jobs: "w_jobs w = us @ JobTerminal ow lifecycle cause # vs"
    and send: "job_send now ow lifecycle cause w = (js, w')"
  shows "tasks_inv (w'\<lparr>w_jobs := us @ js @ vs\<rparr>)"
proof -
  let ?c = "sc_controls w (ow_ref ow)"
  have ok: "ow_permit ow \<noteq> None" "\<not> is_terminal (tc_lifecycle ?c)" "is_terminal lifecycle"
      "lifecycle \<noteq> EsCompleted"
    using job_ok_of_tasks [OF inv jobs] by simp_all
  obtain f c1 where f: "cause_failure now cause ?c = (f, c1)"
    by (cases "cause_failure now cause ?c")
  have soft: "control_soft ?c c1"
    by (rule soft_cause_failure) (rule f)
  then have open1: "\<not> is_terminal (tc_lifecycle c1)"
    using ok by (simp add: control_soft_terminal)
  let ?c2 = "c1\<lparr>tc_lifecycle := lifecycle\<rparr>"
  have r: "js = [JobPublish ow (Inl f)]" "w' = upd_control (ow_ref ow) (\<lambda>_. ?c2) w"
    using send f open1 by (simp_all add: job_send_def mark_terminal_def)
  have "control_kept ?c ?c2"
    using ok soft by (intro kept_terminal_update) (simp_all add: control_soft_kept)
  with inv jobs ok r show ?thesis
    using tasks_inv_relabel [OF inv jobs, of ?c2 "JobPublish ow (Inl f)"]
    by (simp add: coherent_def)
qed

lemma tasks_inv_resolve:
  assumes inv: "tasks_inv w" and jobs: "w_jobs w = us @ JobBackend ow # vs"
    and ret: "job_return now result ow w = (js, w')"
  shows "tasks_inv (w'\<lparr>w_jobs := us @ js @ vs\<rparr>)"
proof -
  let ?c = "sc_controls w (ow_ref ow)"
  have ok: "ow_permit ow = Some PermitActive" "\<not> is_terminal (tc_lifecycle ?c)"
    using job_ok_of_tasks [OF inv jobs] by simp_all
  obtain o' c1 where o': "resolve_backend_result now result (ow_backend ow) ?c = (o', c1)"
    by (cases "resolve_backend_result now result (ow_backend ow) ?c")
  with ok resolve_backend_result_None have "o' \<noteq> None"
    by (metis fst_conv)
  then obtain lifecycle r where o2: "o' = Some (lifecycle, r)" by auto
  note res = resolve_backend_result_Some [OF o' [unfolded o2]]
  have "js = [JobPublish ow r]" "w' = upd_control (ow_ref ow) (\<lambda>_. c1) w"
    using ret o' o2 by (simp_all add: job_return_def)
  with ok res show ?thesis
    using tasks_inv_relabel [OF inv jobs, of c1 "JobPublish ow r"] by (simp add: coherent_def)
qed

lemma tasks_inv_soft_job:
  assumes inv: "tasks_inv w" and jobs: "w_jobs w = us @ j # vs" "w_jobs w' = us @ j # vs"
    and soft: "control_soft (sc_controls w (ow_ref (job_owner j))) c"
    and w': "w' = upd_control (ow_ref (job_owner j)) (\<lambda>_. c) w"
    and un: "\<not> unentered_job j"
  shows "tasks_inv w'"
proof -
  have "job_ok (sc_controls w) j"
    by (rule job_ok_of_tasks [OF inv jobs(1)])
  then have "job_ok ((sc_controls w)(ow_ref (job_owner j) := c)) j"
    by (rule job_ok_soft) (simp_all add: soft un)
  moreover have "w'\<lparr>w_jobs := us @ j # vs\<rparr> = w'"
    using jobs(2) by (metis world.surjective world.update_convs(1))
  ultimately show ?thesis
    using tasks_inv_relabel [OF inv jobs(1) control_soft_kept [OF soft] refl] w' by simp
qed

lemma tasks_inv_panic:
  assumes inv: "tasks_inv w" and jobs: "w_jobs w = us @ JobBackend ow # vs"
    and panic: "job_panic now ow w = (js, w')"
  shows "tasks_inv (w'\<lparr>w_jobs := us @ js @ vs\<rparr>)"
proof -
  let ?c = "sc_controls w (ow_ref ow)"
  obtain f c1 where f: "control_failure (EeInternal ''submission backend panicked'') now
      (Some (ow_backend ow)) None None None ?c = (f, c1)"
    by fastforce
  let ?w = "upd_control (ow_ref ow) (\<lambda>_. c1) w"
  have jobs2: "w_jobs ?w = us @ JobBackend ow # vs"
    using jobs by (simp add: upd_control_def)
  have "tasks_inv ?w"
    by (rule tasks_inv_soft_job [OF inv jobs jobs2])
       (use f in \<open>auto intro: soft_control_failure\<close>)
  moreover have "job_return now (Inl f) ow ?w = (js, w')"
    using panic f by (simp add: job_panic_def panicked_result_def)
  ultimately show ?thesis
    using jobs2 by (blast intro: tasks_inv_resolve)
qed

lemma tasks_inv_start:
  assumes inv: "tasks_inv w" and jobs: "w_jobs w = us @ JobStart ow # vs"
    and start: "job_start now ow w = (js, w')"
  shows "tasks_inv (w'\<lparr>w_jobs := us @ js @ vs\<rparr>)"
proof -
  let ?c = "sc_controls w (ow_ref ow)"
  have ok: "ow_permit ow = Some PermitActive" "\<not> is_terminal (tc_lifecycle ?c)"
    using job_ok_of_tasks [OF inv jobs] by simp_all
  obtain b c1 where b: "begin_start now ?c = (b, c1)"
    by (cases "begin_start now ?c")
  have soft: "control_soft ?c c1"
    using soft_begin_start [of ?c now] b by simp
  then have op: "\<not> is_terminal (tc_lifecycle c1)"
    using ok by (simp add: control_soft_terminal)
  show ?thesis
  proof (cases b)
    case True
    have w': "js = [JobBackend ow]" "w' = upd_control (ow_ref ow) (\<lambda>_. c1)
        (w\<lparr>w_entered := w_entered w @ [ow_ref ow]\<rparr>)"
      using start b True by (simp_all add: job_start_def)
    show ?thesis
      by (rule tasks_inv_job [OF inv jobs, where c = c1 and j' = "JobBackend ow"])
         (use w' ok op soft in \<open>simp_all add: upd_control_def same_admission_def same_frame_def
            same_pending_def control_soft_kept\<close>)
  next
    case False
    have "js = [JobTerminal ow EsTerminated (unstarted_cause c1)]"
        "w' = upd_control (ow_ref ow) (\<lambda>_. c1) w"
      using start b False by (simp_all add: job_start_def)
    with ok op soft show ?thesis
      using tasks_inv_relabel [OF inv jobs, of c1 "JobTerminal ow EsTerminated (unstarted_cause c1)"]
      by (simp add: control_soft_kept)
  qed
qed

lemma history_inv_cong:
  assumes "history_inv w" "w_dispatched w' = w_dispatched w" "w_entered w' = w_entered w"
    "pending_refs w' = pending_refs w" "sc_next_ref w' = sc_next_ref w"
    "\<forall>j \<in> set (w_jobs w'). unentered_job j \<longrightarrow> j \<in> set (w_jobs w)"
  shows "history_inv w'"
  using assms by (auto simp: history_inv_def)

lemma tasks_inv_release:
  assumes inv: "tasks_inv w" and jobs: "w_jobs w = us @ JobPublish ow result # vs"
    and rel: "job_release ow result w = (js, w')"
  shows "tasks_inv (w'\<lparr>w_jobs := us @ js @ vs\<rparr>)"
proof -
  let ?ow = "ow\<lparr>ow_permit := None\<rparr>"
  let ?w = "w'\<lparr>w_jobs := us @ js @ vs\<rparr>"
  have js: "js = [JobWake ?ow result]" and w': "w' = drop_permit ow w"
    using rel by (simp_all add: job_release_def)
  let ?rest = "sc_queue w @ sc_ready w @ map job_owner us @ map job_owner vs"
  let ?active = "if ow_permit ow = Some PermitActive then AList.delete (ow_id ow) (sc_active w)
    else sc_active w"
  have fields: "sc_active ?w = ?active" "sc_queue ?w = sc_queue w" "sc_ready ?w = sc_ready w"
      "sc_controls ?w = sc_controls w" "sc_results ?w = sc_results w"
      "sc_next_ref ?w = sc_next_ref w" "sc_next_id ?w = sc_next_id w"
      "sc_active_limit ?w = sc_active_limit w" "sc_queue_limit ?w = sc_queue_limit w"
      "w_dispatched ?w = w_dispatched w" "w_entered ?w = w_entered w"
    by (simp_all add: w' drop_permit_def release_active_def)
  have "struct_inv (?ow # ?rest) ?active (sc_controls w) (sc_results w) (sc_next_ref w)
      (sc_next_id w)"
    by (rule struct_inv_release) (use struct_job_first [OF inv jobs] in simp)
  moreover have "mset (owners ?w) = mset (?ow # ?rest)"
    by (simp add: owners_def js w' drop_permit_def release_active_def)
  ultimately have s: "struct_inv (owners ?w) (sc_active ?w) (sc_controls ?w) (sc_results ?w)
      (sc_next_ref ?w) (sc_next_id ?w)"
    using struct_inv_perm [of "owners ?w" "?ow # ?rest"] by (simp only: fields)
  have p: "places_inv ?w"
    using inv jobs by (auto simp: tasks_inv_def places_inv_def w' drop_permit_def
        release_active_def js)
  have h: "history_inv ?w"
    by (rule history_inv_cong [of w])
       (use inv jobs js in \<open>auto simp: tasks_inv_def pending_refs_def w' drop_permit_def
          release_active_def\<close>)
  have "length ?active \<le> length (sc_active w)"
    by (simp add: length_alist_delete_le)
  then have "bounds_inv ?w"
    using inv
    by (auto simp: tasks_inv_def bounds_inv_def w' drop_permit_def release_active_def
        split: if_splits)
  with s p h show ?thesis by (simp add: tasks_inv_def)
qed

lemma tasks_inv_wake:
  assumes inv: "tasks_inv w" and jobs: "w_jobs w = us @ JobWake ow result # vs"
    and wake: "job_wake ow result w = (js, w')"
  shows "tasks_inv (w'\<lparr>w_jobs := us @ js @ vs\<rparr>)"
proof -
  let ?w = "w'\<lparr>w_jobs := us @ js @ vs\<rparr>"
  let ?rest = "sc_queue w @ sc_ready w @ map job_owner us @ map job_owner vs"
  have ok: "ow_permit ow = None" "coherent (tc_lifecycle (sc_controls w (ow_ref ow))) result"
    using job_ok_of_tasks [OF inv jobs] by simp_all
  have first: "struct_inv (ow # ?rest) (sc_active w) (sc_controls w) (sc_results w)
      (sc_next_ref w) (sc_next_id w)"
    using struct_job_first [OF inv jobs] by simp
  note pub = struct_inv_publish [OF first ok]
  have js: "js = []" and w': "w' = w\<lparr>sc_results := (sc_results w)(ow_ref ow \<mapsto> result)\<rparr>"
    using wake pub(2) by (simp_all add: job_wake_def cell_publish_def)
  have "mset (owners ?w) = mset ?rest"
    by (simp add: owners_def js w')
  from struct_inv_perm [OF this]
  have s: "struct_inv (owners ?w) (sc_active ?w) (sc_controls ?w) (sc_results ?w)
      (sc_next_ref ?w) (sc_next_id ?w)"
    using pub(1) by (simp add: w')
  have p: "places_inv ?w"
    using inv jobs by (auto simp: tasks_inv_def places_inv_def w' js)
  have h: "history_inv ?w"
    by (rule history_inv_cong [of w])
       (use inv jobs js in \<open>auto simp: tasks_inv_def pending_refs_def w'\<close>)
  have "bounds_inv ?w"
    using inv by (simp add: tasks_inv_def bounds_inv_def w')
  with s p h show ?thesis by (simp add: tasks_inv_def)
qed

lemma tasks_inv_same_label:
  assumes inv: "tasks_inv w" and jobs: "w_jobs w = us @ j # vs"
    and own: "job_owner j' = job_owner j" and ok: "job_ok (sc_controls w) j'"
    and un: "unentered_job j' \<longrightarrow> unentered_job j"
  shows "tasks_inv (w\<lparr>w_jobs := us @ j' # vs\<rparr>)"
  using tasks_inv_relabel [OF inv jobs control_kept_refl own] ok un
  by (simp add: upd_control_def)

inductive_cases job_stepE: "job_step j w js w'"

lemma tasks_inv_job_step:
  assumes inv: "tasks_inv w" and jobs: "w_jobs w = us @ j # vs" and st: "job_step j w js w'"
  shows "tasks_inv (w'\<lparr>w_jobs := us @ js @ vs\<rparr>)"
  using st
proof cases
  case (js_spawned ow)
  with inv jobs job_ok_of_tasks [OF inv jobs] show ?thesis
    using tasks_inv_same_label [OF inv jobs, of "JobStart ow"] by simp
next
  case (js_spawn_failed ow m)
  with inv jobs job_ok_of_tasks [OF inv jobs] show ?thesis
    using tasks_inv_same_label [OF inv jobs, of "JobTerminal ow EsFailed
      (CauseInternal (''failed to start execution task: '' @ m) None)"] by simp
next
  case (js_start now ow)
  with inv jobs show ?thesis by (blast intro: tasks_inv_start)
next
  case (js_on_started ow)
  let ?c = "snd (mark_started (sc_controls w (ow_ref ow)))"
  have jobs2: "w_jobs (upd_control (ow_ref ow) (\<lambda>_. ?c) w) = us @ j # vs"
    using jobs by (simp add: upd_control_def)
  have "tasks_inv (upd_control (ow_ref ow) (\<lambda>_. ?c) w)"
    by (rule tasks_inv_soft_job [OF inv jobs jobs2]) (simp_all add: js_on_started soft_mark_started)
  moreover have "(upd_control (ow_ref ow) (\<lambda>_. ?c) w)\<lparr>w_jobs := us @ j # vs\<rparr>
      = upd_control (ow_ref ow) (\<lambda>_. ?c) w"
    using jobs2 by (metis world.surjective world.update_convs(1))
  moreover have "w' = upd_control (ow_ref ow) (\<lambda>_. ?c) w"
    by (simp add: js_on_started upd_control_def)
  ultimately show ?thesis
    using js_on_started by simp
next
  case (js_return now result ow)
  with inv jobs show ?thesis by (blast intro: tasks_inv_resolve)
next
  case (js_panic now ow)
  with inv jobs show ?thesis by (blast intro: tasks_inv_panic)
next
  case (js_task_panic ow)
  with inv jobs job_ok_of_tasks [OF inv jobs] show ?thesis
    using tasks_inv_same_label [OF inv jobs, of "JobTerminal ow EsFailed
      (CauseInternal ''submission task panicked'' None)"] by auto
next
  case (js_send now ow lifecycle cause)
  with inv jobs show ?thesis by (blast intro: tasks_inv_send)
next
  case (js_release ow result)
  with inv jobs show ?thesis by (blast intro: tasks_inv_release)
next
  case (js_wake ow result)
  with inv jobs show ?thesis by (blast intro: tasks_inv_wake)
qed

section \<open>The manager's section\<close>

lemma mark_cancelling_twice:
  "snd (mark_cancelling reason (snd (mark_cancelling reason c))) = snd (mark_cancelling reason c)"
  by (simp add: mark_cancelling_def)

lemma expire_loop_closed:
  "expire_loop now os retained expired ctl =
     (retained @ filter (\<lambda>ow. \<not> due (ow_deadline ow) now) os,
      expired @ filter (\<lambda>ow. due (ow_deadline ow) now) os,
      (\<lambda>r. if r \<in> ow_ref ` {ow \<in> set os. due (ow_deadline ow) now}
           then snd (mark_cancelling CrDeadline (ctl r)) else ctl r))"
proof (induction os arbitrary: retained expired ctl)
  case Nil
  then show ?case by simp
next
  case (Cons ow os)
  show ?case
  proof (cases "due (ow_deadline ow) now")
    case True
    then have e: "{o' \<in> set (ow # os). due (ow_deadline o') now}
        = insert ow {o' \<in> set os. due (ow_deadline o') now}" by auto
    with True show ?thesis
      by (simp add: Cons.IH fun_eq_iff mark_cancelling_twice)
  next
    case False
    then have e: "{o' \<in> set (ow # os). due (ow_deadline o') now}
        = {o' \<in> set os. due (ow_deadline o') now}" by auto
    with False show ?thesis by (simp add: Cons.IH e)
  qed
qed

lemma mset_filter_split: "mset (filter (\<lambda>x. \<not> P x) xs) + mset (filter P xs) = mset xs"
  by (induction xs) auto

lemma subseq_map_filter: "subseq (map f (filter P xs)) (map f xs)"
  by (rule subseq_map) simp

lemma tasks_inv_expire_queue:
  assumes inv: "tasks_inv w"
  shows "tasks_inv (world_expire_queue now w)"
proof -
  let ?D = "\<lambda>ow. due (ow_deadline ow) now"
  let ?w = "world_expire_queue now w"
  have e: "?w = w\<lparr>sc_queue := filter (\<lambda>ow. \<not> ?D ow) (sc_queue w),
      sc_controls := (\<lambda>r. if r \<in> ow_ref ` {ow \<in> set (sc_queue w). ?D ow}
           then snd (mark_cancelling CrDeadline (sc_controls w r)) else sc_controls w r),
      w_jobs := w_jobs w @ terminal_jobs EsTerminated CauseDeadline (filter ?D (sc_queue w))\<rparr>"
    by (simp add: world_expire_queue_def expire_queue_def expire_loop_closed add_jobs_def)
  have "distinct (map ow_ref (owners w))"
    using struct_of_tasks [OF inv] by (simp add: struct_inv_def)
  then have q: "distinct (map ow_ref (sc_queue w))"
    and qr: "ow_ref ` set (sc_queue w) \<inter> ow_ref ` set (sc_ready w) = {}"
    by (auto simp: owners_def)
  have still: "sc_controls ?w (ow_ref ow) = sc_controls w (ow_ref ow)"
    if "ow \<in> set (sc_queue ?w @ sc_ready ?w)" for ow
  proof -
    have "ow_ref ow \<notin> ow_ref ` {ow \<in> set (sc_queue w). ?D ow}"
    proof
      assume "ow_ref ow \<in> ow_ref ` {ow \<in> set (sc_queue w). ?D ow}"
      then obtain o' where o': "o' \<in> set (sc_queue w)" "?D o'" "ow_ref ow = ow_ref o'" by auto
      from that e consider "ow \<in> set (sc_queue w)" "\<not> ?D ow" | "ow \<in> set (sc_ready w)" by auto
      then show False
      proof cases
        case 1
        with o' q have "ow = o'" by (auto simp: distinct_map dest: inj_onD)
        with 1 o' show False by simp
      next
        case 2
        with o' qr show False by (metis IntI empty_iff imageI)
      qed
    qed
    then show ?thesis by (simp add: e)
  qed
  show ?thesis
    by (rule tasks_inv_move [OF inv, where moved = "filter ?D (sc_queue w)"
          and lifecycle = EsTerminated and cause = CauseDeadline])
       (use still mset_filter_split [of ?D "sc_queue w"]
          filter_is_subset [of "\<lambda>ow. \<not> ?D ow" "sc_queue w"] in
        \<open>simp_all add: e same_admission_def same_frame_def pending_refs_def calm_mark_cancelling
           list_emb_append_mono subseq_map_filter ac_simps\<close>)
qed

lemma tasks_inv_expire_ready:
  assumes inv: "tasks_inv w"
  shows "tasks_inv (world_expire_ready now w)"
proof -
  let ?D = "\<lambda>ow. due (ow_deadline ow) now"
  let ?w = "world_expire_ready now w"
  have e: "?w = w\<lparr>sc_ready := filter (\<lambda>ow. \<not> ?D ow) (sc_ready w),
      sc_controls := (\<lambda>r. if r \<in> ow_ref ` {ow \<in> set (sc_ready w). ?D ow}
           then snd (mark_cancelling CrDeadline (sc_controls w r)) else sc_controls w r),
      w_jobs := w_jobs w @ terminal_jobs EsTerminated CauseDeadline (filter ?D (sc_ready w))\<rparr>"
    by (simp add: world_expire_ready_def expire_ready_def expire_loop_closed add_jobs_def)
  have "distinct (map ow_ref (owners w))"
    using struct_of_tasks [OF inv] by (simp add: struct_inv_def)
  then have q: "distinct (map ow_ref (sc_ready w))"
    and qr: "ow_ref ` set (sc_queue w) \<inter> ow_ref ` set (sc_ready w) = {}"
    by (auto simp: owners_def)
  have still: "sc_controls ?w (ow_ref ow) = sc_controls w (ow_ref ow)"
    if "ow \<in> set (sc_queue ?w @ sc_ready ?w)" for ow
  proof -
    have "ow_ref ow \<notin> ow_ref ` {ow \<in> set (sc_ready w). ?D ow}"
    proof
      assume "ow_ref ow \<in> ow_ref ` {ow \<in> set (sc_ready w). ?D ow}"
      then obtain o' where o': "o' \<in> set (sc_ready w)" "?D o'" "ow_ref ow = ow_ref o'" by auto
      from that e consider "ow \<in> set (sc_ready w)" "\<not> ?D ow" | "ow \<in> set (sc_queue w)" by auto
      then show False
      proof cases
        case 1
        with o' q have "ow = o'" by (auto simp: distinct_map dest: inj_onD)
        with 1 o' show False by simp
      next
        case 2
        with o' qr show False by (metis IntI empty_iff imageI)
      qed
    qed
    then show ?thesis by (simp add: e)
  qed
  show ?thesis
    by (rule tasks_inv_move [OF inv, where moved = "filter ?D (sc_ready w)"
          and lifecycle = EsTerminated and cause = CauseDeadline])
       (use still mset_filter_split [of ?D "sc_ready w"]
          filter_is_subset [of "\<lambda>ow. \<not> ?D ow" "sc_ready w"] in
        \<open>simp_all add: e same_admission_def same_frame_def pending_refs_def calm_mark_cancelling
           list_emb_append_mono subseq_map_filter ac_simps\<close>)
qed

lemma expire_ready_not_due:
  "ow \<in> set (sc_ready (world_expire_ready now w)) \<Longrightarrow> \<not> due (ow_deadline ow) now"
  by (simp add: world_expire_ready_def expire_ready_def expire_loop_closed add_jobs_def)

lemma cancel_all_closed:
  "cancel_all reason rs s =
     s\<lparr>sc_controls := (\<lambda>r. if r \<in> set rs then snd (mark_cancelling reason (sc_controls s r))
                           else sc_controls s r)\<rparr>"
proof (induction rs arbitrary: s)
  case Nil
  then show ?case by (simp add: cancel_all_def)
next
  case (Cons r rs)
  have "cancel_all reason (r # rs) s
      = cancel_all reason rs (upd_control r (\<lambda>c. snd (mark_cancelling reason c)) s)"
    by (simp add: cancel_all_def)
  then show ?case
    by (simp add: Cons.IH upd_control_def fun_eq_iff mark_cancelling_twice cong: if_cong)
qed

text \<open>Cancelling tasks that are neither queued nor ready.\<close>

lemma tasks_inv_cancel_all:
  assumes inv: "tasks_inv w"
    and off: "\<forall>ow \<in> set (sc_queue w @ sc_ready w). ow_ref ow \<notin> set rs"
  shows "tasks_inv (cancel_all reason rs w)"
  by (rule tasks_inv_move [OF inv, where moved = "[]" and lifecycle = EsTerminated
        and cause = CauseDeadline])
     (use off in \<open>simp_all add: cancel_all_closed same_admission_def same_frame_def
        pending_refs_def calm_mark_cancelling terminal_jobs_def\<close>)

lemma due_active_off:
  assumes inv: "tasks_inv w" and nd: "\<forall>ow \<in> set (sc_ready w). \<not> due (ow_deadline ow) now"
    and ow: "ow \<in> set (sc_queue w @ sc_ready w)"
  shows "ow_ref ow \<notin> set (due_active now w)"
proof
  assume d: "ow_ref ow \<in> set (due_active now w)"
  then have life: "startable_or_started (tc_lifecycle (sc_controls w (ow_ref ow)))"
    and du: "due (tc_deadline (sc_controls w (ow_ref ow))) now"
    by (simp_all add: due_active_def)
  have own: "owner_inv (sc_controls w) (sc_next_ref w) ow"
    using struct_of_tasks [OF inv] ow by (auto simp: struct_inv_def owners_def)
  have "ow \<notin> set (sc_queue w)"
    using inv life by (auto simp: tasks_inv_def places_inv_def queued_ok_def startable_or_started_def)
  with ow nd du own show False by (auto simp: owner_inv_def)
qed

lemma owner_promote_queued:
  "ow_permit ow = Some PermitQueued \<Longrightarrow> owner_promote ow = ow\<lparr>ow_permit := Some PermitActive\<rparr>"
  by (simp add: owner_promote_def)

lemma tasks_inv_promote:
  assumes inv: "tasks_inv w" and q: "sc_queue w = ow # rest"
    and room: "length (sc_active w) < sc_active_limit w"
  shows "tasks_inv (promote_owner now ow (w\<lparr>sc_queue := rest\<rparr>))"
proof -
  let ?w = "promote_owner now ow (w\<lparr>sc_queue := rest\<rparr>)"
  let ?c = "control_record_queue_wait now (mark_accepted (sc_controls w (ow_ref ow)))"
  have pq: "queued_ok (sc_controls w) ow"
    using inv q by (simp add: tasks_inv_def places_inv_def)
  then have permit: "ow_permit ow = Some PermitQueued" by (simp add: queued_ok_def)
  have e: "?w = w\<lparr>sc_queue := rest, sc_ready := sc_ready w @ [ow\<lparr>ow_permit := Some PermitActive\<rparr>],
      sc_active := AList.update (ow_id ow) (ow_ref ow) (sc_active w),
      sc_controls := (sc_controls w)(ow_ref ow := ?c)\<rparr>"
    by (simp add: promote_owner_def upd_control_def owner_promote_queued [OF permit])
  let ?rest = "rest @ sc_ready w @ map job_owner (w_jobs w)"
  have first: "struct_inv (ow # ?rest) (sc_active w) (sc_controls w) (sc_results w)
      (sc_next_ref w) (sc_next_id w)"
    using struct_of_tasks [OF inv] q by (simp add: owners_def)
  note pr = struct_inv_promote [OF first permit]
  have calm: "control_calm (sc_controls w (ow_ref ow)) ?c"
    using calm_mark_accepted calm_queue_wait by (rule control_calm_trans)
  then have soft: "control_soft (sc_controls w (ow_ref ow)) ?c"
    by (rule control_calm_soft)
  have "mset (owners ?w) = mset (ow\<lparr>ow_permit := Some PermitActive\<rparr> # ?rest)"
    by (simp add: owners_def e)
  from struct_inv_perm [OF this] pr(1)
  have "struct_inv (owners ?w) (sc_active ?w) (sc_controls w) (sc_results w)
      (sc_next_ref w) (sc_next_id w)"
    by (simp add: e)
  then have "struct_inv (owners ?w) (sc_active ?w) ((sc_controls w)(ow_ref ow := ?c))
      (sc_results w) (sc_next_ref w) (sc_next_id w)"
    by (rule struct_inv_control) (simp add: control_soft_kept [OF soft])
  then have s: "struct_inv (owners ?w) (sc_active ?w) (sc_controls ?w) (sc_results ?w)
      (sc_next_ref ?w) (sc_next_id ?w)"
    by (simp add: e)
  have d: "ow_ref ow \<notin> ow_ref ` set ?rest"
    by (rule refs_Cons_notin [OF first])
  have c: "tc_lifecycle ?c = EsAcceptedNotStarted \<and> tc_cancel_reason ?c = None"
    using pq by (simp add: queued_ok_def control_record_queue_wait_def mark_accepted_def)
  have other: "x \<in> set ?rest \<Longrightarrow> ow_ref x \<noteq> ow_ref ow" for x
    using d by (metis imageI)
  have "places_inv ?w"
    unfolding places_inv_def
  proof (intro conjI ballI)
    fix x assume "x \<in> set (sc_queue ?w)"
    with q e have "x \<in> set rest" by simp
    with other [of x] inv q show "queued_ok (sc_controls ?w) x"
      by (simp add: tasks_inv_def places_inv_def queued_ok_def e)
  next
    fix x assume "x \<in> set (sc_ready ?w)"
    with e consider "x \<in> set (sc_ready w)" | "x = ow\<lparr>ow_permit := Some PermitActive\<rparr>" by auto
    then show "ready_ok (sc_controls ?w) x"
    proof cases
      case 1
      with other [of x] inv show ?thesis
        by (simp add: tasks_inv_def places_inv_def ready_ok_def e)
    next
      case 2
      with c show ?thesis by (simp add: ready_ok_def e)
    qed
  next
    fix j assume "j \<in> set (w_jobs ?w)"
    then have j: "j \<in> set (w_jobs w)" by (simp add: e)
    with inv have "job_ok (sc_controls w) j" by (simp add: tasks_inv_def places_inv_def)
    then show "job_ok (sc_controls ?w) j"
      by (rule job_ok_calm) (use calm in \<open>simp add: e\<close>)
  qed
  moreover have "history_inv ?w"
    by (rule history_inv_cong [of w])
       (use inv q in \<open>simp_all add: tasks_inv_def pending_refs_def e\<close>)
  moreover have "bounds_inv ?w"
    using inv q room by (simp add: tasks_inv_def bounds_inv_def e length_alist_update)
  ultimately show ?thesis using s by (simp add: tasks_inv_def)
qed

lemma tasks_inv_promote_loop: "tasks_inv w \<Longrightarrow> tasks_inv (promote_loop now w)"
proof (induction now w rule: promote_loop.induct)
  case (1 now w)
  show ?case
  proof (cases "length (sc_active w) < sc_active_limit w")
    case True
    show ?thesis
    proof (cases "sc_queue w")
      case Nil
      with 1 True show ?thesis by (simp add: promote_loop.simps)
    next
      case (Cons ow rest)
      have "tasks_inv (promote_loop now (promote_owner now ow (w\<lparr>sc_queue := rest\<rparr>)))"
        using True Cons by (intro 1 tasks_inv_promote) (simp_all add: 1(2))
      with True Cons show ?thesis by (simp add: promote_loop.simps [of now w])
    qed
  next
    case False
    with 1 show ?thesis by (simp add: promote_loop.simps)
  qed
qed

lemma tasks_inv_pop_ready:
  assumes inv: "tasks_inv w"
  shows "tasks_inv (world_pop_ready w)"
proof (cases "sc_ready w")
  case Nil
  with inv show ?thesis by (simp add: world_pop_ready_def pop_ready_def)
next
  case (Cons ow rest)
  let ?w = "world_pop_ready w"
  have e: "?w = w\<lparr>sc_ready := rest, w_dispatched := w_dispatched w @ [ow_ref ow],
      w_jobs := w_jobs w @ [JobDispatch ow]\<rparr>"
    using Cons by (simp add: world_pop_ready_def pop_ready_def add_jobs_def)
  have "mset (owners ?w) = mset (owners w)"
    using Cons by (simp add: owners_def e ac_simps)
  from struct_inv_perm [OF this] struct_of_tasks [OF inv]
  have s: "struct_inv (owners ?w) (sc_active ?w) (sc_controls ?w) (sc_results ?w)
      (sc_next_ref ?w) (sc_next_id ?w)"
    by (simp add: e)
  have p: "places_inv ?w"
    using inv Cons by (auto simp: tasks_inv_def places_inv_def e ready_ok_def unstarted_def)
  have pr: "w_dispatched ?w @ pending_refs ?w = w_dispatched w @ pending_refs w"
    using Cons by (simp add: e pending_refs_def)
  have "\<forall>r \<in> set (w_dispatched w). r < ow_ref ow"
    using inv Cons by (simp add: tasks_inv_def history_inv_def pending_refs_def sorted_wrt_append)
  then have "ow_ref ow \<notin> set (w_dispatched w)" by auto
  with inv have "ow_ref ow \<notin> set (w_entered w)"
    by (auto simp: tasks_inv_def history_inv_def)
  then have h: "history_inv ?w"
    using inv pr by (auto simp: tasks_inv_def history_inv_def e simp del: append_assoc)
  have "bounds_inv ?w"
    using inv by (simp add: tasks_inv_def bounds_inv_def e)
  with s p h show ?thesis by (simp add: tasks_inv_def)
qed

lemma sc_ready_cancel_all [simp]:
  "sc_ready (cancel_all reason rs s) = sc_ready s" "sc_queue (cancel_all reason rs s) = sc_queue s"
  by (simp_all add: cancel_all_closed)

text \<open>The section is the composition of its loops, with the jobs of what it took out added.\<close>

lemma pop_ready_add_jobs:
  "world_pop_ready (add_jobs js w) = (case pop_ready w of
     (None, w) \<Rightarrow> add_jobs js w
   | (Some owner, w) \<Rightarrow> add_jobs (js @ [JobDispatch owner])
        (w\<lparr>w_dispatched := w_dispatched w @ [ow_ref owner]\<rparr>))"
  by (cases "sc_ready w") (simp_all add: world_pop_ready_def pop_ready_def add_jobs_def)

lemma add_jobs_sel [simp]:
  "sc_active (add_jobs js w) = sc_active w" "sc_queue (add_jobs js w) = sc_queue w"
  "sc_active_limit (add_jobs js w) = sc_active_limit w"
  by (simp_all add: add_jobs_def)

lemma promote_owner_add_jobs:
  "promote_owner now ow (add_jobs js w) = add_jobs js (promote_owner now ow w)"
  by (simp add: promote_owner_def add_jobs_def upd_control_def)

lemma promote_loop_add_jobs: "promote_loop now (add_jobs js w) = add_jobs js (promote_loop now w)"
proof (induction now w rule: promote_loop.induct)
  case (1 now w)
  show ?case
  proof (cases "length (sc_active w) < sc_active_limit w")
    case True
    show ?thesis
    proof (cases "sc_queue w")
      case Nil
      then show ?thesis
        by (simp add: promote_loop.simps add_jobs_def)
    next
      case (Cons ow rest)
      have q: "add_jobs js w\<lparr>sc_queue := rest\<rparr> = add_jobs js (w\<lparr>sc_queue := rest\<rparr>)"
        by (simp add: add_jobs_def)
      have "promote_loop now (add_jobs js w)
          = promote_loop now (promote_owner now ow (add_jobs js (w\<lparr>sc_queue := rest\<rparr>)))"
        using True Cons by (subst promote_loop.simps) (simp add: q)
      also have "\<dots> = add_jobs js (promote_loop now (promote_owner now ow (w\<lparr>sc_queue := rest\<rparr>)))"
        using True Cons by (simp add: promote_owner_add_jobs 1)
      finally show ?thesis
        using True Cons by (simp add: promote_loop.simps [of now w])
    qed
  next
    case False
    then show ?thesis by (simp add: promote_loop.simps add_jobs_def)
  qed
qed

lemma cancel_due_add_jobs:
  "cancel_due_active now (add_jobs js w) = add_jobs js (cancel_due_active now w)"
  by (simp add: cancel_due_active_def due_active_def cancel_all_closed add_jobs_def cong: if_cong)

lemma expire_queue_world:
  "world_expire_queue now w = add_jobs (terminal_jobs EsTerminated CauseDeadline
     (fst (expire_queue now w))) (snd (expire_queue now w))"
  by (simp add: world_expire_queue_def split: prod.split)

lemma expire_ready_world:
  "world_expire_ready now (add_jobs js w) = add_jobs (js @ terminal_jobs EsTerminated CauseDeadline
     (fst (expire_ready now w))) (snd (expire_ready now w))"
  by (simp add: world_expire_ready_def expire_ready_def expire_loop_closed add_jobs_def)

lemma world_manager_section_eq:
  "snd (world_manager_section now w) =
     world_pop_ready (promote_loop now (cancel_due_active now
       (world_expire_ready now (world_expire_queue now w))))"
proof -
  obtain eq w1 where 1: "expire_queue now w = (eq, w1)" by fastforce
  obtain er w2 where 2: "expire_ready now w1 = (er, w2)" by fastforce
  have j: "terminal_jobs lc ca (xs @ ys) = terminal_jobs lc ca xs @ terminal_jobs lc ca ys"
    for lc ca and xs ys :: "'a owner list"
    by (simp add: terminal_jobs_def)
  show ?thesis
    by (simp add: world_manager_section_def manager_section_def 1 2 expire_queue_world
        expire_ready_world cancel_due_add_jobs promote_loop_add_jobs pop_ready_add_jobs j
        split: prod.split option.split)
qed

lemma tasks_inv_manager_section:
  assumes "tasks_inv w" "world_manager_section now w = (phase, w')"
  shows "tasks_inv w'"
proof -
  let ?e = "world_expire_ready now (world_expire_queue now w)"
  have e: "tasks_inv ?e"
    by (intro tasks_inv_expire_ready tasks_inv_expire_queue assms)
  have "tasks_inv (cancel_due_active now ?e)"
    unfolding cancel_due_active_def
    by (rule tasks_inv_cancel_all [OF e], rule ballI, rule due_active_off [OF e])
       (simp_all add: expire_ready_not_due)
  then have "tasks_inv (world_pop_ready (promote_loop now (cancel_due_active now ?e)))"
    by (intro tasks_inv_pop_ready tasks_inv_promote_loop)
  with assms(2) world_manager_section_eq [of now w] show ?thesis by simp
qed

section \<open>Clients\<close>

lemma next_task_id_Suc: "n \<noteq> - 1 \<Longrightarrow> next_task_id n = n + 1"
proof -
  assume "n \<noteq> - 1"
  then have "n + 1 \<noteq> 0" by (metis add_eq_0_iff add.commute)
  then have "\<not> n + 1 < 1" by (simp add: word_less_nat_alt unat_eq_zero)
  then show ?thesis by (simp add: next_task_id_def)
qed

lemma tasks_inv_append_queue:
  assumes inv: "tasks_inv w" and nid: "sc_next_id w \<noteq> - 1"
    and room: "length (sc_queue w) < limit" "sc_queue_limit w \<le> limit"
    and ow: "ow_ref ow = sc_next_ref w" "ow_id ow = sc_next_id w" "ow_permit ow = Some PermitQueued"
    and c: "tc_id c = sc_next_id w" "tc_deadline c = ow_deadline ow" "tc_backend c = ow_backend ow"
      "tc_lifecycle c = EsQueued" "tc_cancel_reason c = None"
  shows "tasks_inv (w\<lparr>sc_next_ref := Suc (sc_next_ref w), sc_next_id := sc_next_id w + 1,
      sc_controls := (sc_controls w)(sc_next_ref w := c),
      sc_results := (sc_results w)(sc_next_ref w := None),
      sc_queue := sc_queue w @ [ow], sc_queue_limit := limit\<rparr>)" (is "tasks_inv ?w")
proof -
  have st: "struct_inv (ow # owners w) (sc_active w) ((sc_controls w)(sc_next_ref w := c))
      ((sc_results w)(sc_next_ref w := None)) (Suc (sc_next_ref w)) (sc_next_id w + 1)"
    by (rule struct_inv_new [OF struct_of_tasks [OF inv] nid]) (use ow c in simp_all)
  have "mset (owners ?w) = mset (ow # owners w)"
    by (simp add: owners_def)
  from struct_inv_perm [OF this] st
  have s: "struct_inv (owners ?w) (sc_active ?w) (sc_controls ?w) (sc_results ?w)
      (sc_next_ref ?w) (sc_next_id ?w)"
    by simp
  have old: "x \<in> set (owners w) \<Longrightarrow> ow_ref x \<noteq> sc_next_ref w" for x
    using struct_of_tasks [OF inv] by (auto simp: struct_inv_def owner_inv_def)
  have "job_ok (sc_controls ?w) j" if j: "j \<in> set (w_jobs w)" for j
  proof -
    have "ow_ref (job_owner j) \<noteq> sc_next_ref w"
      using j by (intro old) (auto simp: owners_def)
    moreover have "job_ok (sc_controls w) j"
      using inv j by (simp add: tasks_inv_def places_inv_def)
    ultimately show ?thesis by (auto intro: job_ok_calm)
  qed
  then have p: "places_inv ?w"
    using inv old ow c
    by (auto simp: tasks_inv_def places_inv_def queued_ok_def ready_ok_def owners_def)
  have h: "history_inv ?w"
    using inv ow by (auto simp: tasks_inv_def history_inv_def pending_refs_def sorted_wrt_append
        less_Suc_eq)
  have "bounds_inv ?w"
    using inv room by (simp add: tasks_inv_def bounds_inv_def)
  with s p h show ?thesis by (simp add: tasks_inv_def)
qed

lemma tasks_inv_skip_id:
  assumes inv: "tasks_inv w" and nid: "sc_next_id w \<noteq> - 1"
  shows "tasks_inv (w\<lparr>sc_next_id := sc_next_id w + 1\<rparr>)"
proof -
  have nz: "1 + sc_next_id w \<noteq> 0"
    using nid by (metis add.commute add_eq_0_iff)
  have "sc_next_id w < sc_next_id w + 1"
    using unatSuc [OF nz] by (simp add: word_less_nat_alt add.commute)
  with inv nz show ?thesis
    by (auto simp: tasks_inv_def struct_inv_def ids_inv_def places_inv_def history_inv_def
        bounds_inv_def owners_def pending_refs_def add.commute intro: less_trans)
qed

lemma promote_loop_one:
  assumes "length (sc_active w) < sc_active_limit w" "sc_queue w = [ow]"
  shows "promote_loop now w = promote_owner now ow (w\<lparr>sc_queue := []\<rparr>)"
  using assms by (simp add: promote_loop.simps promote_owner_def upd_control_def)

lemma tasks_inv_queue_limit:
  "tasks_inv w \<Longrightarrow> length (sc_queue w) \<le> limit \<Longrightarrow> tasks_inv (w\<lparr>sc_queue_limit := limit\<rparr>)"
  by (simp add: tasks_inv_def places_inv_def history_inv_def bounds_inv_def owners_def
      pending_refs_def)

lemma tasks_inv_submit:
  assumes inv: "tasks_inv w" and nid: "sc_next_id w \<noteq> - 1"
    and sub: "submit now b t q w = (out, w')"
  shows "tasks_inv w'"
proof -
  define dl where "dl = (case t of Some timeout \<Rightarrow> map_option Some (checked_add_instant now timeout)
    | None \<Rightarrow> Some None)"
  show ?thesis
  proof (cases "dl = None \<or> \<not> sc_accepting w")
    case True
    with sub have "w' = w"
      by (auto simp: submit_def dl_def [symmetric] split: option.splits)
    with inv show ?thesis by simp
  next
    case False
    then obtain d where d: "dl = Some d" and acc: "sc_accepting w" by auto
    let ?r = "sc_next_ref w"
    let ?c = "task_control_new (sc_next_id w) b now d timing_enabled"
    let ?ow = "\<lparr>ow_id = sc_next_id w, ow_ref = ?r, ow_request = q, ow_deadline = d,
        ow_backend = b, ow_permit = Some PermitQueued\<rparr>"
    note new = tasks_inv_append_queue [OF inv nid, where ow = ?ow and c = ?c]
    show ?thesis
    proof (cases "length (sc_active w) < sc_active_limit w \<and> sc_queue w = []")
      case True
      let ?w1 = "w\<lparr>sc_next_ref := Suc ?r, sc_next_id := sc_next_id w + 1,
        sc_controls := (sc_controls w)(?r := ?c), sc_results := (sc_results w)(?r := None),
        sc_queue := [?ow], sc_queue_limit := Suc (sc_queue_limit w)\<rparr>"
      have "tasks_inv ?w1"
        using new [of "Suc (sc_queue_limit w)"] True by (simp add: task_control_new_def)
      then have "tasks_inv (promote_owner now ?ow (?w1\<lparr>sc_queue := []\<rparr>))"
        by (rule tasks_inv_promote) (use True in simp_all)
      then have "tasks_inv ((promote_owner now ?ow (?w1\<lparr>sc_queue := []\<rparr>))
          \<lparr>sc_queue_limit := sc_queue_limit w\<rparr>)"
        by (rule tasks_inv_queue_limit) simp
      moreover have "w' = (promote_owner now ?ow (?w1\<lparr>sc_queue := []\<rparr>))
          \<lparr>sc_queue_limit := sc_queue_limit w\<rparr>"
        using sub True acc d nid
        by (auto simp: submit_def dl_def [symmetric] Let_def next_task_id_Suc promote_owner_def
            upd_control_def owner_promote_def intro!: world.equality)
      ultimately show ?thesis by simp
    next
      case False
      show ?thesis
      proof (cases "sc_queue_limit w \<le> length (sc_queue w)")
        case True
        with sub False acc d nid have "w' = w\<lparr>sc_next_id := sc_next_id w + 1\<rparr>"
          by (auto simp: submit_def dl_def [symmetric] Let_def next_task_id_Suc)
        with tasks_inv_skip_id [OF inv nid] show ?thesis by simp
      next
        case room: False
        have "w' = w\<lparr>sc_next_ref := Suc ?r, sc_next_id := sc_next_id w + 1,
            sc_controls := (sc_controls w)(?r := ?c), sc_results := (sc_results w)(?r := None),
            sc_queue := sc_queue w @ [?ow], sc_queue_limit := sc_queue_limit w\<rparr>"
          using sub False room acc d nid
          by (auto simp: submit_def dl_def [symmetric] Let_def next_task_id_Suc)
        with new [of "sc_queue_limit w"] room show ?thesis
          by (simp add: task_control_new_def)
      qed
    qed
  qed
qed

lemma subseq_skip: "subseq (us @ vs) (us @ x # vs)"
  by (simp add: subseq_append' list_emb_Cons)

lemma tasks_inv_cancel:
  assumes inv: "tasks_inv w" and r: "r < sc_next_ref w"
  shows "tasks_inv (world_request_cancel r reason w)"
proof (cases "is_terminal (tc_lifecycle (sc_controls w r))")
  case True
  with inv show ?thesis by (simp add: world_request_cancel_def sched_request_cancel_def Let_def)
next
  case False
  note open1 = False
  let ?P = "\<lambda>task. ow_id task = tc_id (sc_controls w r)"
  let ?m = "upd_control r (\<lambda>c. snd (mark_cancelling reason c)) w"
  have st: "struct_inv (owners w) (sc_active w) (sc_controls w) (sc_results w)
      (sc_next_ref w) (sc_next_id w)"
    by (rule struct_of_tasks [OF inv])
  then have ids: "ids_inv (sc_controls w) (sc_next_ref w) (sc_next_id w)"
    by (simp add: struct_inv_def)
  have same: "?P ow \<longleftrightarrow> ow_ref ow = r" if "ow \<in> set (owners w)" for ow
    using st that r ids_inj [OF ids] by (auto simp: struct_inv_def owner_inv_def)
  have d: "distinct (map ow_ref (sc_queue w @ sc_ready w))"
    using st by (simp add: struct_inv_def owners_def) blast
  have own: "ow \<in> set (sc_queue w @ sc_ready w) \<Longrightarrow> ow \<in> set (owners w)" for ow
    by (auto simp: owners_def)
  obtain oq q where oq: "remove_first ?P (sc_queue w) = (oq, q)" by fastforce
  obtain ord rd where ord: "remove_first ?P (sc_ready w) = (ord, rd)" by fastforce
  show ?thesis
  proof (cases oq)
    case (Some ow)
    with oq obtain us vs where split: "sc_queue w = us @ ow # vs" "q = us @ vs" "?P ow"
      by (auto dest!: remove_first_Some)
    have ref: "ow_ref ow = r"
      using same [of ow] split own [of ow] by simp
    have w': "world_request_cancel r reason w =
        add_jobs (terminal_jobs EsTerminated (cancel_cause reason) [ow]) (?m\<lparr>sc_queue := q\<rparr>)"
      using open1 oq Some
      by (simp add: world_request_cancel_def sched_request_cancel_def Let_def)
    have "r \<notin> ow_ref ` set (us @ vs @ sc_ready w)"
      using d split ref by auto
    then have "\<forall>x \<in> set (q @ sc_ready w). ow_ref x \<noteq> r"
      using split by (metis append.assoc imageI)
    then show ?thesis
      unfolding w'
      by (intro tasks_inv_move [OF inv, where moved = "[ow]" and lifecycle = EsTerminated
            and cause = "cancel_cause reason"])
         (use split in \<open>auto simp: subseq_skip subseq_skip [of "_ @ _", simplified] add_jobs_def upd_control_def same_admission_def
            same_frame_def pending_refs_def list_emb_append_mono calm_mark_cancelling\<close>)
  next
    case None
    with oq have nq: "\<forall>x \<in> set (sc_queue w). \<not> ?P x"
      by (auto dest: remove_first_None_rest)
    show ?thesis
    proof (cases ord)
      case (Some ow)
      with ord obtain us vs where split: "sc_ready w = us @ ow # vs" "rd = us @ vs" "?P ow"
        by (auto dest!: remove_first_Some)
      have ref: "ow_ref ow = r"
        using same [of ow] split own [of ow] by simp
      have w': "world_request_cancel r reason w =
          add_jobs (terminal_jobs EsTerminated (cancel_cause reason) [ow]) (?m\<lparr>sc_ready := rd\<rparr>)"
        using open1 oq None ord Some
        by (simp add: world_request_cancel_def sched_request_cancel_def Let_def)
      have "r \<notin> ow_ref ` set (us @ vs @ sc_queue w)"
        using d split ref by auto
      then have "\<forall>x \<in> set (sc_queue w @ rd). ow_ref x \<noteq> r"
        using split by auto
      then show ?thesis
        unfolding w'
        by (intro tasks_inv_move [OF inv, where moved = "[ow]" and lifecycle = EsTerminated
              and cause = "cancel_cause reason"])
           (use split in \<open>auto simp: subseq_skip subseq_skip [of "_ @ _", simplified] add_jobs_def upd_control_def same_admission_def
              same_frame_def pending_refs_def list_emb_append_mono calm_mark_cancelling\<close>)
    next
      case None
      with ord have nr: "\<forall>x \<in> set (sc_ready w). \<not> ?P x"
        by (auto dest: remove_first_None_rest)
      have "world_request_cancel r reason w = cancel_all reason [r] w"
        using open1 oq \<open>oq = None\<close> ord None
        by (simp add: world_request_cancel_def sched_request_cancel_def cancel_all_def Let_def)
      moreover have "\<forall>x \<in> set (sc_queue w @ sc_ready w). ow_ref x \<notin> set [r]"
        using nq nr same own by auto
      ultimately show ?thesis
        using tasks_inv_cancel_all [OF inv] by simp
    qed
  qed
qed

lemma tasks_inv_accepting: "tasks_inv (w\<lparr>sc_accepting := b\<rparr>) = tasks_inv w"
  by (simp add: tasks_inv_def places_inv_def history_inv_def bounds_inv_def owners_def
      pending_refs_def)

lemma tasks_inv_fail_pending:
  assumes inv: "tasks_inv w"
  shows "tasks_inv (world_fail_pending message w)"
  by (rule tasks_inv_move [OF inv, where moved = "sc_queue w @ sc_ready w" and lifecycle = EsFailed
        and cause = "CauseInternal message None"])
     (simp_all add: world_fail_pending_def fail_pending_def add_jobs_def same_admission_def
        same_frame_def pending_refs_def)

lemma tasks_inv_shutdown:
  assumes inv: "tasks_inv w"
  shows "tasks_inv (world_shutdown_drain w)"
proof -
  let ?w1 = "cancel_all CrShutdown (map ow_ref (sc_ready w))
      (w\<lparr>sc_accepting := False, sc_queue := [], sc_ready := []\<rparr>)"
  let ?w2 = "add_jobs (terminal_jobs EsTerminated CauseCancelled (sc_queue w @ sc_ready w)) ?w1"
  have 2: "tasks_inv ?w2"
    by (rule tasks_inv_move [OF inv, where moved = "sc_queue w @ sc_ready w"
          and lifecycle = EsTerminated and cause = CauseCancelled])
       (simp_all add: cancel_all_closed add_jobs_def same_admission_def same_frame_def
          pending_refs_def calm_mark_cancelling)
  have "world_shutdown_drain w = cancel_all CrShutdown (shutdown_unstarted ?w1) ?w2"
    by (simp add: world_shutdown_drain_def shutdown_drain_def Let_def cancel_all_closed add_jobs_def
        cong: if_cong)
  moreover have "tasks_inv (cancel_all CrShutdown (shutdown_unstarted ?w1) ?w2)"
    by (rule tasks_inv_cancel_all [OF 2]) (simp add: cancel_all_closed add_jobs_def)
  ultimately show ?thesis by simp
qed

section \<open>The invariant of the reachable worlds\<close>

lemma tasks_inv_managers [simp]:
  "tasks_inv (w\<lparr>w_managers := ms\<rparr>) = tasks_inv w"
  "tasks_inv (w\<lparr>w_manager_started := b\<rparr>) = tasks_inv w"
  "tasks_inv (w\<lparr>w_ensuring := n\<rparr>) = tasks_inv w"
  "tasks_inv (w\<lparr>w_failing := f\<rparr>) = tasks_inv w"
  by (simp_all add: tasks_inv_def places_inv_def history_inv_def bounds_inv_def owners_def
      pending_refs_def)

lemma tasks_inv_init: "exec_init w \<Longrightarrow> tasks_inv w"
  by (auto simp: exec_init_def world_init_def sched_new_def sched.defs tasks_inv_def struct_inv_def
      owners_def ids_inv_def places_inv_def history_inv_def bounds_inv_def pending_refs_def)

lemma tasks_inv_progress:
  assumes inv: "tasks_inv w" and st: "progress_step w w'"
  shows "tasks_inv w'"
  using st
proof cases
  case (ps_job us job vs js w1)
  with inv show ?thesis by (auto intro: tasks_inv_job_step)
next
  case (ps_ensure n)
  with inv show ?thesis by (simp add: ensure_manager_def)
next
  case (ps_manager_spawned us vs)
  with inv show ?thesis by simp
next
  case (ps_manager_spawn_failed us vs message)
  with inv show ?thesis by simp
next
  case (ps_fail_pending message rest)
  with inv show ?thesis by (simp add: tasks_inv_fail_pending)
next
  case (ps_manager_section us vs now phase w1)
  with tasks_inv_manager_section [OF inv] show ?thesis by simp
next
  case (ps_manager_idle us vs now turn)
  with inv show ?thesis by simp
next
  case (ps_manager_exit us vs)
  with inv show ?thesis by simp
qed

lemma tasks_inv_client:
  assumes inv: "tasks_inv w" and st: "client_step w w'"
  shows "tasks_inv w'"
  using st
proof cases
  case (cs_submit now b t q)
  obtain out w1 where "submit now b t q w = (out, w1)" by fastforce
  with tasks_inv_submit [OF inv cs_submit(2) this] cs_submit(1) show ?thesis
    by (simp add: world_submit_def split: sum.split)
next
  case (cs_cancel r reason)
  with inv show ?thesis by (simp add: tasks_inv_cancel)
next
  case cs_shutdown
  with inv show ?thesis by (simp add: tasks_inv_shutdown)
qed

interpretation executor: invariant_system exec_init exec_step tasks_inv
  by unfold_locales
     (auto simp: exec_step_def intro: tasks_inv_init tasks_inv_progress tasks_inv_client)

end
