(* ===== verification/Ld_Sched_Props.thy ===== *)
theory Ld_Sched_Props
  imports Ld_Sched_Steps
begin

text \<open>
  What the executor (src/src/executor.rs) promises its clients: bounds, first-come-first-served
  dispatch, exactly one final result per task, cancellation and shutdown that stop tasks
  from starting, a manager for pending work, and that every task can finish.
\<close>

section \<open>What a step never undoes\<close>

definition world_le :: "'q world \<Rightarrow> 'q world \<Rightarrow> bool" where
  "world_le w w' =
     (sc_next_ref w \<le> sc_next_ref w'
      \<and> sc_active_limit w' = sc_active_limit w \<and> sc_queue_limit w' = sc_queue_limit w
      \<and> (\<not> sc_accepting w \<longrightarrow> \<not> sc_accepting w')
      \<and> (\<forall>r < sc_next_ref w.
           control_kept (sc_controls w r) (sc_controls w' r)
           \<and> (sc_results w r \<noteq> None \<longrightarrow> sc_results w' r = sc_results w r)))"

lemma world_le_refl [simp]: "world_le w w"
  by (simp add: world_le_def)

lemma world_le_trans [trans]: "world_le a b \<Longrightarrow> world_le b c \<Longrightarrow> world_le a c"
  unfolding world_le_def by (auto intro: control_kept_trans)

lemma world_le_upd: "control_kept (sc_controls w r) (f (sc_controls w r)) \<Longrightarrow> world_le w (upd_control r f w)"
  by (simp add: world_le_def upd_control_def)

lemma world_le_drop_permit: "world_le w (drop_permit ow w)"
  by (simp add: world_le_def drop_permit_def release_active_def)

lemma world_le_publish: "world_le w (cell_publish r c w)"
  by (auto simp: world_le_def cell_publish_def)

lemma world_le_skip:
  "world_le w (w\<lparr>w_jobs := js\<rparr>)" "world_le w (w\<lparr>w_managers := ms\<rparr>)"
  "world_le w (w\<lparr>w_manager_started := b\<rparr>)" "world_le w (w\<lparr>w_ensuring := n\<rparr>)"
  "world_le w (w\<lparr>w_failing := f\<rparr>)" "world_le w (add_jobs js w)"
  "world_le w (w\<lparr>w_entered := e\<rparr>)" "world_le w (w\<lparr>w_dispatched := e\<rparr>)"
  by (simp_all add: world_le_def add_jobs_def)

lemma world_le_job_send:
  assumes "job_send now ow lifecycle cause w = (js, w')"
  shows "world_le w w'"
proof -
  let ?c = "sc_controls w (ow_ref ow)"
  obtain f c1 where f: "cause_failure now cause ?c = (f, c1)"
    by (cases "cause_failure now cause ?c")
  have k: "control_kept ?c c1"
    using soft_cause_failure [OF f] by (rule control_soft_kept)
  show ?thesis
  proof (cases "is_terminal (tc_lifecycle c1)")
    case True
    with assms f have "w' = drop_permit ow (upd_control (ow_ref ow) (\<lambda>_. c1) w)"
      by (simp add: job_send_def mark_terminal_def)
    with k show ?thesis
      by (simp add: world_le_trans [OF world_le_upd world_le_drop_permit])
  next
    case False
    with soft_cause_failure [OF f] have "\<not> is_terminal (tc_lifecycle ?c)"
      by (simp add: control_soft_terminal)
    with assms f False k show ?thesis
      by (auto simp: job_send_def mark_terminal_def intro!: world_le_upd kept_terminal_update)
  qed
qed

lemma world_le_job_return:
  assumes "job_return now result ow w = (js, w')"
  shows "world_le w w'"
proof -
  let ?c = "sc_controls w (ow_ref ow)"
  obtain o' c1 where o': "resolve_backend_result now result (ow_backend ow) ?c = (o', c1)"
    by (cases "resolve_backend_result now result (ow_backend ow) ?c")
  show ?thesis
  proof (cases o')
    case None
    with o' have "c1 = ?c"
      by (auto simp: resolve_backend_result_def split: if_splits prod.splits)
    with assms o' None show ?thesis
      by (auto simp: job_return_def intro: world_le_trans [OF world_le_upd world_le_drop_permit])
  next
    case (Some p)
    then obtain lifecycle r where p: "o' = Some (lifecycle, r)" by (cases p) simp
    with assms o' show ?thesis
      using resolve_backend_result_Some [OF o' [unfolded p]]
      by (auto simp: job_return_def intro!: world_le_upd)
  qed
qed

lemma world_le_job_start:
  assumes "job_start now ow w = (js, w')"
  shows "world_le w w'"
proof -
  obtain b c1 where b: "begin_start now (sc_controls w (ow_ref ow)) = (b, c1)"
    by (cases "begin_start now (sc_controls w (ow_ref ow))")
  have "control_kept (sc_controls w (ow_ref ow)) c1"
    using soft_begin_start [of "sc_controls w (ow_ref ow)" now] b by (simp add: control_soft_kept)
  with assms b show ?thesis
    by (cases b) (auto simp: job_start_def world_le_def upd_control_def)
qed

lemma world_le_job_step:
  assumes "job_step j w js w'"
  shows "world_le w w'"
  using assms
proof cases
  case (js_panic now ow)
  then obtain f c1 where f: "control_failure (EeInternal ''submission backend panicked'') now
      (Some (ow_backend ow)) None None None (sc_controls w (ow_ref ow)) = (f, c1)"
    and r: "job_return now (Inl f) ow (upd_control (ow_ref ow) (\<lambda>_. c1) w) = (js, w')"
    by (auto simp: job_panic_def panicked_result_def split: prod.splits)
  have "world_le w (upd_control (ow_ref ow) (\<lambda>_. c1) w)"
    by (rule world_le_upd) (rule control_soft_kept [OF soft_control_failure [OF f]])
  with world_le_job_return [OF r] show ?thesis
    by (rule world_le_trans [rotated])
next
  case (js_on_started ow)
  then show ?thesis
    by (auto intro!: world_le_upd control_soft_kept soft_mark_started)
qed (auto intro: world_le_job_start world_le_job_return world_le_job_send
      simp: job_release_def job_wake_def world_le_drop_permit world_le_publish)

lemma kept_mark_cancelling: "control_kept c (snd (mark_cancelling reason c))"
  by (rule control_soft_kept) (rule soft_mark_cancelling)

lemma world_le_cancel_all: "world_le w (cancel_all reason rs w)"
  by (simp add: world_le_def cancel_all_closed kept_mark_cancelling)

lemma world_le_expire_queue: "world_le w (world_expire_queue now w)"
  by (simp add: world_le_def world_expire_queue_def expire_queue_def expire_loop_closed
      add_jobs_def kept_mark_cancelling)

lemma world_le_expire_ready: "world_le w (world_expire_ready now w)"
  by (simp add: world_le_def world_expire_ready_def expire_ready_def expire_loop_closed
      add_jobs_def kept_mark_cancelling)

lemma world_le_promote: "world_le w (promote_owner now ow (w\<lparr>sc_queue := rest\<rparr>))"
  using control_soft_kept [OF control_soft_trans [OF soft_mark_accepted soft_queue_wait]]
  by (simp add: world_le_def promote_owner_def upd_control_def)

lemma world_le_promote_loop: "world_le w (promote_loop now w)"
proof (induction now w rule: promote_loop.induct)
  case (1 now w)
  show ?case
  proof (cases "length (sc_active w) < sc_active_limit w \<and> sc_queue w \<noteq> []")
    case True
    then obtain ow rest where q: "sc_queue w = ow # rest" by (cases "sc_queue w") auto
    with True 1 have "world_le (promote_owner now ow (w\<lparr>sc_queue := rest\<rparr>))
        (promote_loop now (promote_owner now ow (w\<lparr>sc_queue := rest\<rparr>)))"
      by blast
    with world_le_promote have
      "world_le w (promote_loop now (promote_owner now ow (w\<lparr>sc_queue := rest\<rparr>)))"
      by (rule world_le_trans)
    with True q show ?thesis by (simp add: promote_loop.simps [of now w])
  next
    case False
    then show ?thesis by (auto simp: promote_loop.simps split: list.split)
  qed
qed

lemma world_le_pop_ready: "world_le w (world_pop_ready w)"
  by (simp add: world_le_def world_pop_ready_def pop_ready_def add_jobs_def split: list.split)

lemma world_le_manager_section:
  "world_manager_section now w = (phase, w') \<Longrightarrow> world_le w w'"
  using world_manager_section_eq [of now w] world_le_expire_queue [of w now]
    world_le_expire_ready world_le_cancel_all world_le_promote_loop world_le_pop_ready
  unfolding cancel_due_active_def by (metis snd_conv world_le_trans)

lemma world_le_submit: "submit now b t q w = (out, w') \<Longrightarrow> world_le w w'"
  by (auto simp: submit_def Let_def world_le_def split: option.splits if_splits)

lemma world_le_cancel: "world_le w (world_request_cancel r reason w)"
  by (simp add: world_request_cancel_def sched_request_cancel_def Let_def world_le_def
      upd_control_def add_jobs_def kept_mark_cancelling split: option.split prod.split)

lemma world_le_shutdown: "world_le w (world_shutdown_drain w)"
  by (simp add: world_le_def world_shutdown_drain_def shutdown_drain_def Let_def cancel_all_closed
      add_jobs_def kept_mark_cancelling control_kept_trans [OF kept_mark_cancelling kept_mark_cancelling])

lemma world_le_step: "exec_step w w' \<Longrightarrow> world_le w w'"
  unfolding exec_step_def
proof (elim disjE)
  assume "progress_step w w'"
  then show ?thesis
  proof cases
    case (ps_job us job vs js w1)
    then show ?thesis
      by (auto intro: world_le_trans [OF world_le_job_step world_le_skip(1)])
  next
    case (ps_manager_section us vs now phase w1)
    then show ?thesis
      by (auto intro: world_le_trans [OF world_le_manager_section world_le_skip(2)])
  qed (auto simp: world_le_def ensure_manager_def world_fail_pending_def fail_pending_def add_jobs_def)
next
  assume "client_step w w'"
  then show ?thesis
  proof cases
    case (cs_submit now b t q)
    obtain out w1 where "submit now b t q w = (out, w1)" by fastforce
    with cs_submit world_le_submit [OF this] show ?thesis
      by (auto simp: world_submit_def intro: world_le_trans [OF _ world_le_skip(4)] split: sum.splits)
  qed (simp_all add: world_le_cancel world_le_shutdown)
qed

lemma world_le_steps: "exec_step\<^sup>*\<^sup>* w w' \<Longrightarrow> world_le w w'"
  by (induction rule: rtranclp_induct) (auto intro: world_le_trans world_le_step)

section \<open>Managers\<close>

definition work_pending :: "('q, 'z) sched_scheme \<Rightarrow> bool" where
  "work_pending s = (sc_queue s \<noteq> [] \<or> sc_ready s \<noteq> [])"

definition managers_inv :: "'q world \<Rightarrow> bool" where
  "managers_inv w =
     (length (w_managers w) = (if w_manager_started w then 1 else 0)
      \<and> (work_pending w \<longrightarrow> w_manager_started w \<or> 0 < w_ensuring w \<or> w_failing w \<noteq> [])
      \<and> (MgrExit \<in> set (w_managers w) \<longrightarrow> \<not> sc_accepting w \<and> \<not> work_pending w))"

definition same_threads :: "'q world \<Rightarrow> 'q world \<Rightarrow> bool" where
  "same_threads w w' =
     (w_managers w' = w_managers w \<and> w_manager_started w' = w_manager_started w
      \<and> w_ensuring w' = w_ensuring w \<and> w_failing w' = w_failing w)"

text \<open>What a job leaves alone.\<close>

definition job_frame :: "'q world \<Rightarrow> 'q world \<Rightarrow> bool" where
  "job_frame w w' =
     (same_threads w w' \<and> sc_queue w' = sc_queue w \<and> sc_ready w' = sc_ready w
      \<and> sc_accepting w' = sc_accepting w \<and> w_jobs w' = w_jobs w)"

lemma job_frame_refl [simp]: "job_frame w w"
  by (simp add: job_frame_def same_threads_def)

lemma job_frame_upd [simp]:
  "job_frame w (upd_control r f w')  = job_frame w w'" "job_frame w (drop_permit ow w') = job_frame w w'"
  "job_frame w (cell_publish r c w') = job_frame w w'"
  "job_frame w (w'\<lparr>w_entered := e\<rparr>) = job_frame w w'"
  by (simp_all add: job_frame_def same_threads_def upd_control_def drop_permit_def
      release_active_def cell_publish_def)

lemma job_frame_return: "job_return now result ow w' = (js, w2) \<Longrightarrow> job_frame w w2 = job_frame w w'"
  by (auto simp: job_return_def split: prod.splits option.splits)

lemma job_step_frame:
  assumes "job_step j w js w'"
  shows "job_frame w w'"
  using assms
proof cases
  case (js_start now ow)
  then show ?thesis by (auto simp: job_start_def split: prod.splits bool.splits)
next
  case (js_panic now ow)
  then show ?thesis
    by (auto simp: job_panic_def panicked_result_def job_frame_return split: prod.splits)
next
  case (js_send now ow lifecycle cause)
  then show ?thesis by (auto simp: job_send_def split: prod.splits bool.splits)
qed (auto simp: job_frame_return job_release_def job_wake_def)

lemma managers_inv_shrink:
  assumes "managers_inv w" "same_threads w w'" "work_pending w' \<longrightarrow> work_pending w"
    "\<not> sc_accepting w \<longrightarrow> \<not> sc_accepting w'"
  shows "managers_inv w'"
  using assms by (auto simp: managers_inv_def same_threads_def)

lemma managers_single:
  "managers_inv w \<Longrightarrow> w_managers w = us @ m # vs \<Longrightarrow>
   us = [] \<and> vs = [] \<and> w_manager_started w"
  by (auto simp: managers_inv_def split: if_splits)

lemma promote_loop_frame:
  "same_threads w (promote_loop now w) \<and> sc_accepting (promote_loop now w) = sc_accepting w
   \<and> w_jobs (promote_loop now w) = w_jobs w
   \<and> (work_pending (promote_loop now w) \<longrightarrow> work_pending w)"
proof (induction now w rule: promote_loop.induct)
  case (1 now w)
  show ?case
  proof (cases "length (sc_active w) < sc_active_limit w \<and> sc_queue w \<noteq> []")
    case True
    then obtain ow rest where q: "sc_queue w = ow # rest" by (cases "sc_queue w") auto
    with True 1 show ?thesis
      by (simp add: promote_loop.simps [of now w] same_threads_def promote_owner_def
          upd_control_def work_pending_def)
  next
    case False
    then show ?thesis by (auto simp: promote_loop.simps same_threads_def split: list.split)
  qed
qed

lemma section_frame:
  assumes "world_manager_section now w = (phase, w')"
  shows "same_threads w w' \<and> sc_accepting w' = sc_accepting w
     \<and> (work_pending w' \<longrightarrow> work_pending w)
     \<and> (phase = MgrExit \<longrightarrow> \<not> sc_accepting w' \<and> \<not> work_pending w')"
proof -
  let ?e = "world_expire_ready now (world_expire_queue now w)"
  let ?p = "promote_loop now (cancel_due_active now ?e)"
  have w': "w' = world_pop_ready ?p"
    using assms world_manager_section_eq [of now w] by simp
  have e: "same_threads w ?e \<and> sc_accepting ?e = sc_accepting w \<and> (work_pending ?e \<longrightarrow> work_pending w)"
    by (auto simp: world_expire_ready_def expire_ready_def world_expire_queue_def expire_queue_def
        expire_loop_closed add_jobs_def same_threads_def work_pending_def)
  have c: "same_threads ?e (cancel_due_active now ?e)
      \<and> sc_accepting (cancel_due_active now ?e) = sc_accepting ?e
      \<and> work_pending (cancel_due_active now ?e) = work_pending ?e"
    by (simp add: cancel_due_active_def cancel_all_closed same_threads_def work_pending_def)
  have p: "same_threads w ?p \<and> sc_accepting ?p = sc_accepting w \<and> (work_pending ?p \<longrightarrow> work_pending w)"
    using promote_loop_frame [of "cancel_due_active now ?e" now] c e by (simp add: same_threads_def)
  have o: "same_threads ?p w' \<and> sc_accepting w' = sc_accepting ?p \<and> (work_pending w' \<longrightarrow> work_pending ?p)"
    by (auto simp: w' world_pop_ready_def pop_ready_def add_jobs_def same_threads_def
        work_pending_def split: list.split)
  have x: "phase = MgrExit \<longrightarrow> \<not> sc_accepting w' \<and> \<not> work_pending w'"
    using assms
    by (auto simp: world_manager_section_def manager_section_def manager_should_exit_def
        work_pending_def add_jobs_def split: prod.splits option.splits if_splits)
  show ?thesis
    using p o x by (simp add: same_threads_def)
qed

lemma managers_inv_step:
  assumes inv: "managers_inv w" and st: "exec_step w w'"
  shows "managers_inv w'"
proof -
  consider "progress_step w w'" | "client_step w w'"
    using st by (auto simp: exec_step_def)
  then show ?thesis
  proof cases
    case 1
    then show ?thesis
    proof cases
      case (ps_job us job vs js w1)
      have "job_frame w w1" by (rule job_step_frame) (rule ps_job)
      with inv ps_job(1) show ?thesis
        by (intro managers_inv_shrink [OF inv])
           (simp_all add: job_frame_def same_threads_def work_pending_def)
    next
      case (ps_ensure n)
      with inv show ?thesis
        by (auto simp: managers_inv_def ensure_manager_def work_pending_def)
    next
      case (ps_manager_spawned us vs)
      with inv managers_single [OF inv ps_manager_spawned(2)] show ?thesis
        by (auto simp: managers_inv_def work_pending_def)
    next
      case (ps_manager_spawn_failed us vs message)
      with inv managers_single [OF inv ps_manager_spawn_failed(2)] show ?thesis
        by (auto simp: managers_inv_def work_pending_def)
    next
      case (ps_fail_pending message rest)
      with inv show ?thesis
        by (auto simp: managers_inv_def world_fail_pending_def fail_pending_def add_jobs_def
            work_pending_def)
    next
      case (ps_manager_section us vs now phase w1)
      with inv managers_single [OF inv ps_manager_section(2)]
        section_frame [OF ps_manager_section(3)] show ?thesis
        by (auto simp: managers_inv_def same_threads_def work_pending_def)
    next
      case (ps_manager_idle us vs now turn)
      have "turn = MtStop \<longrightarrow> \<not> work_pending w"
        using ps_manager_idle(3) by (auto simp: manager_idle_def work_pending_def split: if_splits)
      with inv ps_manager_idle managers_single [OF inv ps_manager_idle(2)] show ?thesis
        by (auto simp: managers_inv_def work_pending_def)
    next
      case (ps_manager_exit us vs)
      with inv managers_single [OF inv ps_manager_exit(2)] show ?thesis
        by (auto simp: managers_inv_def work_pending_def)
    qed
  next
    case 2
    then show ?thesis
    proof cases
      case (cs_submit now b t q)
      obtain out w1 where s: "submit now b t q w = (out, w1)" by fastforce
      then have f: "same_threads w w1 \<and> sc_accepting w1 = sc_accepting w
          \<and> (\<not> sc_accepting w \<longrightarrow> w1 = w) \<and> (case out of Inl e \<Rightarrow> work_pending w1 = work_pending w | Inr r \<Rightarrow> sc_accepting w)"
        by (auto simp: submit_def Let_def same_threads_def work_pending_def
            split: option.splits if_splits)
      show ?thesis
      proof (cases out)
        case (Inl e)
        with cs_submit s have "w' = w1" by (simp add: world_submit_def)
        with f Inl show ?thesis by (intro managers_inv_shrink [OF inv]) simp_all
      next
        case (Inr r)
        with cs_submit s have "w' = w1\<lparr>w_ensuring := Suc (w_ensuring w1)\<rparr>"
          by (simp add: world_submit_def)
        with f Inr inv show ?thesis
          by (auto simp: managers_inv_def same_threads_def work_pending_def)
      qed
    next
      case (cs_cancel r reason)
      have "same_threads w w' \<and> sc_accepting w' = sc_accepting w \<and> (work_pending w' \<longrightarrow> work_pending w)"
        by (auto simp: cs_cancel world_request_cancel_def sched_request_cancel_def Let_def
            upd_control_def add_jobs_def same_threads_def work_pending_def split: option.splits prod.splits)
      with inv show ?thesis by (intro managers_inv_shrink [OF inv]) simp_all
    next
      case cs_shutdown
      have "same_threads w w' \<and> \<not> sc_accepting w' \<and> \<not> work_pending w'"
        by (simp add: cs_shutdown world_shutdown_drain_def shutdown_drain_def Let_def
            cancel_all_closed add_jobs_def same_threads_def work_pending_def)
      with inv show ?thesis by (intro managers_inv_shrink [OF inv]) simp_all
    qed
  qed
qed

lemma work_pending_step:
  assumes st: "exec_step w w'" and work: "work_pending w'"
  shows "work_pending w \<or> sc_accepting w"
proof -
  consider "progress_step w w'" | "client_step w w'"
    using st by (auto simp: exec_step_def)
  then show ?thesis
  proof cases
    case 1
    then show ?thesis
    proof cases
      case (ps_job us job vs js w1)
      have "job_frame w w1" by (rule job_step_frame) (rule ps_job)
      with work ps_job(1) show ?thesis by (simp add: job_frame_def work_pending_def)
    next
      case (ps_manager_section us vs now phase w1)
      with work section_frame [OF ps_manager_section(3)] show ?thesis
        by (simp add: work_pending_def)
    qed (use work in \<open>auto simp: ensure_manager_def world_fail_pending_def fail_pending_def
           add_jobs_def work_pending_def split: if_splits\<close>)
  next
    case 2
    then show ?thesis
    proof cases
      case (cs_submit now b t q)
      with work show ?thesis
        by (auto simp: world_submit_def submit_def split: option.splits)
    qed (use work in \<open>auto simp: world_request_cancel_def sched_request_cancel_def Let_def
           upd_control_def add_jobs_def work_pending_def world_shutdown_drain_def
           shutdown_drain_def cancel_all_closed split: option.splits prod.splits if_splits\<close>)
  qed
qed

lemma managers_inv_init: "exec_init w \<Longrightarrow> managers_inv w"
  by (auto simp: exec_init_def world_init_def sched_new_def sched.defs managers_inv_def
      work_pending_def)

interpretation executor_managers: invariant_system exec_init exec_step managers_inv
  by unfold_locales (auto intro: managers_inv_init managers_inv_step)

section \<open>Progress\<close>

text \<open>
  Weights that every step of the executor's own threads can lower: what is left to do for a
  task, and what is left to do for the managers.
\<close>

fun job_weight :: "'q job \<Rightarrow> nat" where
  "job_weight (JobDispatch ow) = 6"
| "job_weight (JobStart ow) = 5"
| "job_weight (JobBackend ow) = 4"
| "job_weight (JobTerminal ow lifecycle cause) = 3"
| "job_weight (JobPublish ow result) = 2"
| "job_weight (JobWake ow result) = 1"

fun phase_weight :: "manager_phase \<Rightarrow> nat" where
  "phase_weight MgrSpawning = 3"
| "phase_weight MgrIdle = 2"
| "phase_weight MgrTop = 1"
| "phase_weight MgrExit = 0"

definition task_weight :: "'q world \<Rightarrow> nat" where
  "task_weight w =
     8 * length (sc_queue w) + 7 * length (sc_ready w) + sum_list (map job_weight (w_jobs w))"

definition world_weight :: "'q world \<Rightarrow> nat" where
  "world_weight w =
     10 * task_weight w + 4 * w_ensuring w + length (w_failing w)
     + sum_list (map phase_weight (w_managers w))"

lemma terminal_jobs_weight:
  "sum_list (map job_weight (terminal_jobs lifecycle cause os)) = 3 * length os"
  by (induction os) (simp_all add: terminal_jobs_def)

lemma job_can_step:
  "\<exists>js w'. job_step j w js w' \<and> sum_list (map job_weight js) < job_weight j"
proof (cases j)
  case (JobTerminal ow lifecycle cause)
  obtain js w' where r: "job_send 0 ow lifecycle cause w = (js, w')" by fastforce
  then have "sum_list (map job_weight js) < job_weight j"
    using JobTerminal by (auto simp: job_send_def split: prod.splits bool.splits)
  with js_send [OF r] JobTerminal show ?thesis by blast
next
  case (JobDispatch ow)
  have "sum_list (map job_weight [JobStart ow]) < job_weight j"
    using JobDispatch by simp
  with js_spawned [of ow w] JobDispatch show ?thesis by blast
next
  case (JobStart ow)
  obtain js w' where r: "job_start 0 ow w = (js, w')" by fastforce
  then have "sum_list (map job_weight js) < job_weight j"
    using JobStart by (auto simp: job_start_def split: prod.splits bool.splits)
  with js_start [OF r] JobStart show ?thesis by blast
next
  case (JobBackend ow)
  obtain js w' where r: "job_panic 0 ow w = (js, w')" by fastforce
  then have "sum_list (map job_weight js) < job_weight j"
    using JobBackend
    by (auto simp: job_panic_def job_return_def split: prod.splits option.splits)
  with js_panic [OF r] JobBackend show ?thesis by blast
next
  case (JobPublish ow result)
  obtain js w' where r: "job_release ow result w = (js, w')" by fastforce
  then have "sum_list (map job_weight js) < job_weight j"
    using JobPublish by (auto simp: job_release_def)
  with js_release [OF r] JobPublish show ?thesis by blast
next
  case (JobWake ow result)
  obtain js w' where r: "job_wake ow result w = (js, w')" by fastforce
  then have "sum_list (map job_weight js) < job_weight j"
    using JobWake by (auto simp: job_wake_def)
  with js_wake [OF r] JobWake show ?thesis by blast
qed

lemma filter_weight: "length (filter (\<lambda>x. \<not> P x) xs) + length (filter P xs) = length xs"
  by (induction xs) auto

lemma expire_weight:
  "task_weight (world_expire_queue now w) \<le> task_weight w"
  "task_weight (world_expire_ready now w) \<le> task_weight w"
  using filter_weight [of "\<lambda>ow. due (ow_deadline ow) now" "sc_queue w"]
    filter_weight [of "\<lambda>ow. due (ow_deadline ow) now" "sc_ready w"]
  by (simp_all add: world_expire_queue_def expire_queue_def world_expire_ready_def expire_ready_def
      expire_loop_closed add_jobs_def task_weight_def terminal_jobs_weight)

lemma expire_weight_same:
  assumes "task_weight (world_expire_queue now w) = task_weight w"
  shows "sc_queue (world_expire_queue now w) = sc_queue w"
proof -
  have "length (filter (\<lambda>ow. \<not> due (ow_deadline ow) now) (sc_queue w)) = length (sc_queue w)"
    using assms filter_weight [of "\<lambda>ow. due (ow_deadline ow) now" "sc_queue w"]
    by (simp add: world_expire_queue_def expire_queue_def expire_loop_closed add_jobs_def
        task_weight_def terminal_jobs_weight)
  then have "filter (\<lambda>ow. \<not> due (ow_deadline ow) now) (sc_queue w) = sc_queue w"
    by (metis filter_id_conv length_filter_less nat_neq_iff)
  then show ?thesis
    by (simp add: world_expire_queue_def expire_queue_def expire_loop_closed add_jobs_def)
qed

lemma promote_loop_weight:
  "task_weight (promote_loop now w) \<le> task_weight w
   \<and> (sc_ready w \<noteq> [] \<or> sc_queue w \<noteq> [] \<and> length (sc_active w) < sc_active_limit w \<longrightarrow>
      sc_ready (promote_loop now w) \<noteq> [])"
proof (induction now w rule: promote_loop.induct)
  case (1 now w)
  show ?case
  proof (cases "length (sc_active w) < sc_active_limit w \<and> sc_queue w \<noteq> []")
    case True
    then obtain ow rest where q: "sc_queue w = ow # rest" by (cases "sc_queue w") auto
    let ?w = "promote_owner now ow (w\<lparr>sc_queue := rest\<rparr>)"
    have "task_weight ?w \<le> task_weight w" and "sc_ready ?w \<noteq> []"
      using q by (simp_all add: promote_owner_def upd_control_def task_weight_def)
    with True q 1 show ?thesis
      by (simp add: promote_loop.simps [of now w])
  next
    case False
    then show ?thesis by (auto simp: promote_loop.simps split: list.split)
  qed
qed

lemma pop_ready_weight:
  "task_weight (world_pop_ready w) + (if sc_ready w = [] then 0 else 1) = task_weight w"
  by (simp add: world_pop_ready_def pop_ready_def add_jobs_def task_weight_def split: list.split)

lemma section_weight:
  assumes sec: "world_manager_section now w = (phase, w')"
    and work: "work_pending w"
    and idle: "sc_ready w = [] \<longrightarrow> sc_active w = []" "0 < sc_active_limit w"
  shows "task_weight w' < task_weight w"
proof -
  let ?q = "world_expire_queue now w"
  let ?e = "world_expire_ready now ?q"
  let ?c = "cancel_due_active now ?e"
  have w': "w' = world_pop_ready (promote_loop now ?c)"
    using sec world_manager_section_eq [of now w] by simp
  note pop = pop_ready_weight
  have c: "task_weight ?c = task_weight ?e" "sc_ready ?c = sc_ready ?e" "sc_queue ?c = sc_queue ?e"
      "sc_active ?c = sc_active ?e" "sc_active_limit ?c = sc_active_limit ?e"
    by (simp_all add: cancel_due_active_def cancel_all_closed task_weight_def)
  have lim: "sc_active ?e = sc_active w" "sc_active_limit ?e = sc_active_limit w"
      "sc_queue ?e = sc_queue ?q"
    by (simp_all add: world_expire_ready_def expire_ready_def world_expire_queue_def
        expire_queue_def expire_loop_closed add_jobs_def)
  have le: "task_weight ?q \<le> task_weight w" "task_weight ?e \<le> task_weight ?q"
    by (rule expire_weight)+
  show ?thesis
  proof (cases "task_weight ?e < task_weight w")
    case True
    with pop [of "promote_loop now ?c"] promote_loop_weight [of now ?c] c show ?thesis
      unfolding w' by linarith
  next
    case False
    with le have eq: "task_weight ?q = task_weight w" "task_weight ?e = task_weight ?q" by simp_all
    have "sc_ready ?e \<noteq> [] \<or> sc_queue ?e \<noteq> [] \<and> sc_active w = []"
    proof -
      have "sc_queue ?q = sc_queue w" by (rule expire_weight_same) (rule eq)
      moreover have "length (filter (\<lambda>ow. \<not> due (ow_deadline ow) now) (sc_ready ?q))
          = length (sc_ready ?q)"
        using eq(2) filter_weight [of "\<lambda>ow. due (ow_deadline ow) now" "sc_ready ?q"]
        unfolding world_expire_ready_def expire_ready_def expire_loop_closed add_jobs_def
          task_weight_def
        by (simp add: terminal_jobs_weight del: length_0_conv)
      then have "length (sc_ready ?e) = length (sc_ready ?q)"
        by (simp add: world_expire_ready_def expire_ready_def expire_loop_closed add_jobs_def)
      moreover have "sc_ready ?q = sc_ready w"
        by (simp add: world_expire_queue_def expire_queue_def expire_loop_closed add_jobs_def)
      ultimately show ?thesis
        using work lim idle by (auto simp: work_pending_def)
    qed
    then have "sc_ready (promote_loop now ?c) \<noteq> []"
      using promote_loop_weight [of now ?c] c lim idle by auto
    with pop [of "promote_loop now ?c"] promote_loop_weight [of now ?c] c le show ?thesis
      unfolding w' by simp
  qed
qed

lemma no_jobs_idle:
  assumes inv: "tasks_inv w" and nj: "w_jobs w = []" and nr: "sc_ready w = []"
  shows "sc_active w = []"
proof -
  have "set (sc_active w) = permit_keys (sc_queue w)"
    using struct_of_tasks [OF inv] nj nr by (simp add: struct_inv_def owners_def)
  also have "\<dots> = {}"
    using inv by (auto simp: tasks_inv_def places_inv_def queued_ok_def permit_keys_def)
  finally show ?thesis by simp
qed

lemma manager_can_step:
  assumes inv: "tasks_inv w" "managers_inv w" and nj: "w_jobs w = []" and work: "work_pending w"
    and flag: "w_manager_started w"
  shows "\<exists>w'. progress_step w w' \<and> world_weight w' < world_weight w"
proof -
  from inv(2) flag obtain m where m: "w_managers w = [m]"
    by (auto simp: managers_inv_def length_Suc_conv)
  show ?thesis
  proof (cases m)
    case MgrSpawning
    with m have "progress_step w (w\<lparr>w_managers := [] @ MgrTop # []\<rparr>)"
      by (intro ps_manager_spawned) simp
    moreover have "world_weight (w\<lparr>w_managers := [] @ MgrTop # []\<rparr>) < world_weight w"
      using m MgrSpawning by (simp add: world_weight_def task_weight_def)
    ultimately show ?thesis by blast
  next
    case MgrTop
    obtain phase w1 where sec: "world_manager_section 0 w = (phase, w1)" by fastforce
    have "progress_step w (w1\<lparr>w_managers := [] @ phase # []\<rparr>)"
      by (rule ps_manager_section [OF _ sec]) (use m MgrTop in simp)
    moreover have "world_weight (w1\<lparr>w_managers := [] @ phase # []\<rparr>) < world_weight w"
    proof -
      have less: "task_weight w1 < task_weight w"
        by (rule section_weight [OF sec work])
           (use inv no_jobs_idle [OF inv(1) nj] in \<open>simp_all add: tasks_inv_def bounds_inv_def\<close>)
      moreover have "phase_weight phase \<le> 3" by (cases phase) simp_all
      moreover have "w_ensuring w1 = w_ensuring w" "w_failing w1 = w_failing w"
        using section_frame [OF sec] by (simp_all add: same_threads_def)
      moreover have "task_weight (w1\<lparr>w_managers := [phase]\<rparr>) = task_weight w1"
        by (simp add: task_weight_def)
      ultimately show ?thesis
        using m MgrTop by (simp add: world_weight_def)
    qed
    ultimately show ?thesis by blast
  next
    case MgrIdle
    have "progress_step w (if manager_idle 0 w = MtStop
        then w\<lparr>w_managers := [] @ [], w_manager_started := False\<rparr>
        else w\<lparr>w_managers := [] @ MgrTop # []\<rparr>)"
      by (rule ps_manager_idle [OF _ refl]) (use m MgrIdle in simp)
    moreover have "manager_idle 0 w \<noteq> MtStop"
      using work by (auto simp: manager_idle_def work_pending_def)
    moreover have "world_weight (w\<lparr>w_managers := [] @ MgrTop # []\<rparr>) < world_weight w"
      using m MgrIdle by (simp add: world_weight_def task_weight_def)
    ultimately show ?thesis by auto
  next
    case MgrExit
    with m inv(2) work show ?thesis by (simp add: managers_inv_def)
  qed
qed

lemma executor_can_step:
  assumes inv: "tasks_inv w" "managers_inv w" and left: "owners w \<noteq> []"
  shows "\<exists>w'. progress_step w w' \<and> world_weight w' < world_weight w"
proof (cases "w_jobs w")
  case (Cons j vs)
  obtain js w1 where st: "job_step j w js w1"
    and less: "sum_list (map job_weight js) < job_weight j"
    using job_can_step by blast
  have "progress_step w (w1\<lparr>w_jobs := [] @ js @ vs\<rparr>)"
    by (rule ps_job [OF _ st]) (simp add: Cons)
  moreover have "world_weight (w1\<lparr>w_jobs := [] @ js @ vs\<rparr>) < world_weight w"
    using job_step_frame [OF st] less Cons
    by (simp add: job_frame_def same_threads_def world_weight_def task_weight_def)
  ultimately show ?thesis by blast
next
  case Nil
  with left have work: "work_pending w" by (auto simp: owners_def work_pending_def)
  show ?thesis
  proof (cases "w_manager_started w")
    case True
    with inv Nil work show ?thesis by (intro manager_can_step)
  next
    case False
    show ?thesis
    proof (cases "w_ensuring w")
      case (Suc n)
      have "progress_step w (ensure_manager (w\<lparr>w_ensuring := n\<rparr>))"
        by (rule ps_ensure) (rule Suc)
      moreover have "world_weight (ensure_manager (w\<lparr>w_ensuring := n\<rparr>)) < world_weight w"
        using Suc by (simp add: ensure_manager_def world_weight_def task_weight_def)
      ultimately show ?thesis by blast
    next
      case 0
      with False inv(2) work obtain m rest where f: "w_failing w = m # rest"
        by (cases "w_failing w") (auto simp: managers_inv_def)
      have "progress_step w (world_fail_pending m (w\<lparr>w_failing := rest\<rparr>))"
        by (rule ps_fail_pending) (rule f)
      moreover have "world_weight (world_fail_pending m (w\<lparr>w_failing := rest\<rparr>)) < world_weight w"
        using f by (simp add: world_fail_pending_def fail_pending_def add_jobs_def
            world_weight_def task_weight_def terminal_jobs_weight)
      ultimately show ?thesis by blast
    qed
  qed
qed

lemma executor_can_finish:
  "tasks_inv w \<Longrightarrow> managers_inv w \<Longrightarrow> \<exists>w'. progress_step\<^sup>*\<^sup>* w w' \<and> owners w' = [] \<and> tasks_inv w'"
proof (induction "world_weight w" arbitrary: w rule: less_induct)
  case less
  show ?case
  proof (cases "owners w = []")
    case True
    with less.prems show ?thesis by blast
  next
    case False
    with less.prems obtain w1 where st: "progress_step w w1" "world_weight w1 < world_weight w"
      using executor_can_step by blast
    have "tasks_inv w1" "managers_inv w1"
      using less.prems st(1)
      by (auto intro: tasks_inv_progress managers_inv_step simp: exec_step_def)
    with less.hyps [OF st(2)] obtain w2
      where "progress_step\<^sup>*\<^sup>* w1 w2" "owners w2 = []" "tasks_inv w2" by blast
    with st(1) show ?thesis by (meson converse_rtranclp_into_rtranclp)
  qed
qed

end
