(* ===== verification/Ld_Sched_Main.thy ===== *)
theory Ld_Sched_Main
  imports Ld_Sched_Props
begin

text \<open>
  The properties of the executor's scheduler (src/src/executor.rs), each over the worlds
  reachable from a fresh scheduler, or over one operation.
\<close>

section \<open>A concrete run\<close>

text \<open>One active slot, one queue slot, two submissions: the first is ready, the second queued.\<close>

definition sample_config :: admission_config where
  "sample_config = \<lparr>ac_active_limit = 1, ac_queue_limit = 1\<rparr>"

definition sample_heap :: "nat \<Rightarrow> task_control" where
  "sample_heap r = task_control_new 0 BkInProcess 0 None timing_disabled"

definition sample_one :: "unit world" where
  "sample_one = world_submit 5 BkInProcess (Some 10) () (world_init sample_config sample_heap)"

definition sample_two :: "unit world" where
  "sample_two = world_submit 6 BkSubprocess None () sample_one"

lemmas sample_defs =
  sample_config_def sample_heap_def sample_one_def sample_two_def world_submit_def submit_def
  world_init_def sched_new_def sched.defs next_task_id_def task_control_new_def
  checked_add_instant_def instant_limit_def ns_per_sec_def mark_accepted_def
  control_record_queue_wait_def Let_def

lemma reach_sample_init: "reach exec_init exec_step (world_init sample_config sample_heap)"
proof (rule reach_init)
  have "0 < ac_active_limit sample_config" by (simp add: sample_config_def)
  then show "exec_init (world_init sample_config sample_heap)"
    unfolding exec_init_def by blast
qed

lemma reach_sample_one: "reach exec_init exec_step sample_one"
proof -
  have "client_step (world_init sample_config sample_heap) sample_one"
    unfolding sample_one_def by (rule cs_submit) (simp add: sample_defs)
  then show ?thesis
    by (intro reach_step [OF reach_sample_init]) (simp add: exec_step_def)
qed

lemma reach_sample_two: "reach exec_init exec_step sample_two"
proof -
  have "client_step sample_one sample_two"
    unfolding sample_two_def by (rule cs_submit) (simp add: sample_defs)
  then show ?thesis
    by (intro reach_step [OF reach_sample_one]) (simp add: exec_step_def)
qed

lemma sample_two_state:
  "map ow_ref (sc_ready sample_two) = [0]" "map ow_ref (sc_queue sample_two) = [1]"
  "sc_active sample_two = [(1, 0)]" "sc_next_ref sample_two = 2" "w_jobs sample_two = []"
  "sc_results sample_two = (\<lambda>_. None)" "w_entered sample_two = []" "w_dispatched sample_two = []"
  "w_managers sample_two = []" "w_ensuring sample_two = 2"
  by (simp_all add: sample_defs fun_eq_iff)

text \<open>The first job runs to its next step; a backend returns an empty success.\<close>

definition sample_result :: completion where
  "sample_result = Inr \<lparr>ex_exit_code = 0, ex_output = execution_output_default,
     ex_report = fst (control_report 9 (Some BkInProcess) (sample_heap 0))\<rparr>"

fun first_job :: "instant \<Rightarrow> 'q job \<Rightarrow> 'q world \<Rightarrow> 'q job list \<times> 'q world" where
  "first_job now (JobTerminal ow lifecycle cause) w = job_send now ow lifecycle cause w"
| "first_job now (JobDispatch ow) w = ([JobStart ow], w)"
| "first_job now (JobStart ow) w = job_start now ow w"
| "first_job now (JobBackend ow) w = job_return now sample_result ow w"
| "first_job now (JobPublish ow result) w = job_release ow result w"
| "first_job now (JobWake ow result) w = job_wake ow result w"

definition run_first :: "instant \<Rightarrow> 'q world \<Rightarrow> 'q world" where
  "run_first now w =
     (case w_jobs w of
        [] \<Rightarrow> w
      | j # rest \<Rightarrow> (case first_job now j w of (js, w') \<Rightarrow> w'\<lparr>w_jobs := [] @ js @ rest\<rparr>))"

lemma first_job_step: "first_job now j w = (js, w') \<Longrightarrow> job_step j w js w'"
  by (cases j) (auto intro: job_step.intros)

lemma run_first_reach:
  assumes "reach exec_init exec_step w"
  shows "reach exec_init exec_step (run_first now w)"
proof (cases "w_jobs w")
  case Nil
  with assms show ?thesis by (simp add: run_first_def)
next
  case (Cons j rest)
  obtain js w' where f: "first_job now j w = (js, w')" by fastforce
  have "progress_step w (w'\<lparr>w_jobs := [] @ js @ rest\<rparr>)"
    by (rule ps_job [OF _ first_job_step [OF f]]) (simp add: Cons)
  with assms f Cons show ?thesis
    by (intro reach_step [OF assms]) (simp add: run_first_def exec_step_def)
qed

text \<open>The queued task is cancelled by its user and its failure published.\<close>

definition sample_cancelled :: "unit world" where
  "sample_cancelled = world_request_cancel 1 CrUser sample_two"

definition sample_done :: "unit world" where
  "sample_done = run_first 9 (run_first 8 (run_first 7 sample_cancelled))"

lemma reach_sample_cancelled: "reach exec_init exec_step sample_cancelled"
proof -
  have "client_step sample_two sample_cancelled"
    unfolding sample_cancelled_def by (rule cs_cancel) (simp add: sample_two_state)
  then show ?thesis
    by (intro reach_step [OF reach_sample_two]) (simp add: exec_step_def)
qed

lemma reach_sample_done: "reach exec_init exec_step sample_done"
  unfolding sample_done_def by (intro run_first_reach reach_sample_cancelled)

lemmas run_defs =
  sample_cancelled_def sample_done_def run_first_def world_request_cancel_def
  sched_request_cancel_def cancel_cause_def mark_cancelling_def upd_control_def add_jobs_def
  terminal_jobs_def job_send_def cause_failure_def cancelled_failure_def
  cancelled_failure_with_partial_and_metadata_def control_failure_def
  control_report_with_metadata_def mark_terminal_def job_release_def job_wake_def
  drop_permit_def cell_publish_def

lemma sample_done_state:
  "sc_next_ref sample_done = 2" "\<exists>f. sc_results sample_done 1 = Some (Inl f) \<and> ef_error f = EeCancelled"
  "w_jobs sample_done = []"
  by (simp_all add: run_defs sample_defs)

section \<open>One place, one result\<close>

text \<open>
  C1: In every reachable state of the executor, whatever the interleaving of clients,
  managers, cancellation, deadlines, shutdown and task threads, each accepted submission
  either has no result and exactly one owner (in the FIFO, the ready list or on a task
  thread), or has its result, no owner left, no active slot and a terminal lifecycle, which is
  Completed exactly when the result is a success.
\<close>

theorem executor_exactly_one_result:
  assumes "reach exec_init exec_step w" and "r < sc_next_ref w"
  shows "(case sc_results w r of
            None \<Rightarrow> length (filter (\<lambda>ow. ow_ref ow = r) (owners w)) = 1
          | Some result \<Rightarrow> filter (\<lambda>ow. ow_ref ow = r) (owners w) = []
              \<and> r \<notin> snd ` set (sc_active w)
              \<and> is_terminal (tc_lifecycle (sc_controls w r))
              \<and> (tc_lifecycle (sc_controls w r) = EsCompleted \<longleftrightarrow> is_ok result))"
proof -
  have st: "struct_inv (owners w) (sc_active w) (sc_controls w) (sc_results w) (sc_next_ref w)
      (sc_next_id w)"
    by (rule struct_of_tasks) (rule executor.reach_inv [OF assms(1)])
  then have d: "distinct (map ow_ref (owners w))" and dn: "done_inv (owners w) (sc_controls w) (sc_results w) r"
    using assms(2) by (simp_all add: struct_inv_def)
  show ?thesis
  proof (cases "sc_results w r")
    case None
    with dn have "r \<in> ow_ref ` set (owners w)"
      by (auto simp: done_inv_def split: if_splits)
    with d None show ?thesis by (simp add: filter_key_single)
  next
    case (Some result)
    with dn have "r \<notin> ow_ref ` set (owners w)" and "coherent (tc_lifecycle (sc_controls w r)) result"
      by (auto simp: done_inv_def split: if_splits)
    moreover from this(1) have "r \<notin> snd ` set (sc_active w)"
      using st by (auto simp: struct_inv_def permit_keys_def)
    ultimately show ?thesis
      using Some by (auto simp: coherent_def filter_empty_conv)
  qed
qed

theorem executor_exactly_one_result_witness:
  "length (filter (\<lambda>ow. ow_ref ow = 1) (owners sample_two)) = 1"
  using executor_exactly_one_result [OF reach_sample_two, of 1] by (simp add: sample_two_state)

text \<open>
  C5: Once a submission has a result, no later step of any thread changes that result or its
  terminal lifecycle.
\<close>

theorem executor_result_is_final:
  assumes "reach exec_init exec_step w" and "sc_results w r = Some result" and "r < sc_next_ref w"
    and "exec_step\<^sup>*\<^sup>* w w'"
  shows "sc_results w' r = Some result
         \<and> tc_lifecycle (sc_controls w' r) = tc_lifecycle (sc_controls w r)"
proof -
  have "done_inv (owners w) (sc_controls w) (sc_results w) r"
    using struct_of_tasks [OF executor.reach_inv [OF assms(1)]] assms(3)
    by (simp add: struct_inv_def)
  then have "is_terminal (tc_lifecycle (sc_controls w r))"
    using assms(2) by (auto simp: done_inv_def coherent_def split: if_splits)
  with world_le_steps [OF assms(4)] assms(2,3) show ?thesis
    by (simp add: world_le_def control_kept_def)
qed

theorem executor_result_is_final_witness:
  "sc_results (world_shutdown_drain sample_done) 1 \<noteq> None"
proof -
  obtain f where f: "sc_results sample_done 1 = Some (Inl f)"
    using sample_done_state(2) by blast
  have "exec_step\<^sup>*\<^sup>* sample_done (world_shutdown_drain sample_done)"
    using cs_shutdown [of sample_done] by (auto simp: exec_step_def)
  with executor_result_is_final [OF reach_sample_done f] show ?thesis
    by (simp add: sample_done_state)
qed

section \<open>Bounds and order\<close>

text \<open>
  A task thread about to start its task, or inside the backend. A thread that only publishes its
  result or wakes the waiters is neither: \<open>publish_terminal\<close> gives the permit back first.
\<close>

fun runs_task :: "'q job \<Rightarrow> bool" where
  "runs_task (JobStart ow) = True"
| "runs_task (JobBackend ow) = True"
| "runs_task _ = False"

definition holds_slot :: "'q owner \<Rightarrow> bool" where
  "holds_slot ow \<longleftrightarrow> ow_permit ow = Some PermitActive"

lemma runs_task_holds_slot:
  "tasks_inv w \<Longrightarrow> j \<in> set (w_jobs w) \<Longrightarrow> runs_task j \<Longrightarrow> holds_slot (job_owner j)"
  by (cases j) (auto simp: tasks_inv_def places_inv_def holds_slot_def)

lemma slots_held:
  assumes "tasks_inv w"
  shows "length (sc_active w) = length (filter holds_slot (owners w))"
proof -
  have st: "struct_inv (owners w) (sc_active w) (sc_controls w) (sc_results w) (sc_next_ref w)
      (sc_next_id w)"
    by (rule struct_of_tasks) (rule assms)
  then have refs: "distinct (map ow_ref (owners w))" and active: "distinct (map fst (sc_active w))"
    and keys: "set (sc_active w) = permit_keys (owners w)"
    by (simp_all add: struct_inv_def keys_distinct_def)
  have "length (sc_active w) = card (set (sc_active w))"
    using active by (simp add: distinct_map distinct_card)
  also have "\<dots> = card ((\<lambda>ow. (ow_id ow, ow_ref ow)) ` set (filter holds_slot (owners w)))"
    by (simp add: keys permit_keys_def holds_slot_def)
  also have "\<dots> = card (set (filter holds_slot (owners w)))"
    using refs by (intro card_image) (auto simp: inj_on_def distinct_map)
  also have "\<dots> = length (filter holds_slot (owners w))"
    using refs by (intro distinct_card) (simp add: distinct_map)
  finally show ?thesis .
qed

lemma length_filter_mono:
  "(\<And>x. x \<in> set xs \<Longrightarrow> P x \<Longrightarrow> Q x) \<Longrightarrow> length (filter P xs) \<le> length (filter Q xs)"
  by (induction xs) auto

lemma running_le_slots:
  assumes "tasks_inv w"
  shows "length (filter runs_task (w_jobs w)) \<le> length (filter holds_slot (owners w))"
proof -
  have "length (filter runs_task (w_jobs w)) \<le> length (filter (\<lambda>j. holds_slot (job_owner j)) (w_jobs w))"
    by (rule length_filter_mono) (rule runs_task_holds_slot [OF assms])
  then show ?thesis by (simp add: owners_def filter_map comp_def)
qed

text \<open>
  C14: The admission limits hold in every state a fresh executor can reach: at most
  active_limit slots are taken, each by exactly one submission that holds an active permit;
  every task thread that is about to start its task or is inside the backend holds one, so at
  most active_limit tasks run; and at most queue_limit submissions wait. A task thread that is
  past publish_terminal's drop of the permit, and only publishes the result or wakes waiters,
  is not counted by any limit.
\<close>

theorem executor_capacity:
  assumes "0 < ac_active_limit config" and "exec_step\<^sup>*\<^sup>* (world_init config heap) w"
  shows "length (sc_active w) \<le> ac_active_limit config
         \<and> length (filter holds_slot (owners w)) = length (sc_active w)
         \<and> (\<forall>j \<in> set (w_jobs w). runs_task j \<longrightarrow> holds_slot (job_owner j))
         \<and> length (filter runs_task (w_jobs w)) \<le> ac_active_limit config
         \<and> length (sc_queue w) \<le> ac_queue_limit config"
proof -
  have "tasks_inv (world_init config heap)"
    by (rule tasks_inv_init) (use assms(1) in \<open>auto simp: exec_init_def\<close>)
  then have inv: "tasks_inv w"
    by (rule executor.steps_inv [OF assms(2)])
  have "length (sc_active w) \<le> ac_active_limit config" "length (sc_queue w) \<le> ac_queue_limit config"
    using world_le_steps [OF assms(2)] inv
    by (simp_all add: world_le_def tasks_inv_def bounds_inv_def world_init_def sched_new_def sched.defs)
  then show ?thesis
    using slots_held [OF inv] running_le_slots [OF inv] runs_task_holds_slot [OF inv] by simp
qed

theorem executor_capacity_witness:
  "length (sc_active sample_two) \<le> 1 \<and> length (sc_queue sample_two) \<le> 1"
proof -
  have "exec_step (world_init sample_config sample_heap) sample_one"
    unfolding sample_one_def exec_step_def by (intro disjI2 cs_submit) (simp add: sample_defs)
  moreover have "exec_step sample_one sample_two"
    unfolding sample_two_def exec_step_def by (intro disjI2 cs_submit) (simp add: sample_defs)
  ultimately have "exec_step\<^sup>*\<^sup>* (world_init sample_config sample_heap) sample_two"
    by simp
  from executor_capacity [OF _ this] show ?thesis by (simp add: sample_config_def)
qed

text \<open>
  C15: Dispatch order is submission order: the dispatched tasks followed by the ready and the
  queued ones are sorted by the id their submission received.
\<close>

theorem executor_dispatch_fifo:
  assumes "reach exec_init exec_step w"
  shows "sorted_wrt (\<lambda>r r'. tc_id (sc_controls w r) < tc_id (sc_controls w r'))
           (w_dispatched w @ map ow_ref (sc_ready w @ sc_queue w))"
proof -
  have inv: "tasks_inv w" by (rule executor.reach_inv [OF assms])
  then have ids: "ids_inv (sc_controls w) (sc_next_ref w) (sc_next_id w)"
    by (simp add: tasks_inv_def struct_inv_def)
  have h: "sorted_wrt (<) (w_dispatched w @ pending_refs w)"
    "\<forall>r \<in> set (w_dispatched w @ pending_refs w). r < sc_next_ref w"
    using inv by (simp_all add: tasks_inv_def history_inv_def)
  have "sorted_wrt (\<lambda>r r'. tc_id (sc_controls w r) < tc_id (sc_controls w r'))
           (w_dispatched w @ pending_refs w)"
    by (rule sorted_wrt_mono_rel [OF _ h(1)]) (use h(2) ids in \<open>auto simp: ids_inv_def\<close>)
  then show ?thesis by (simp add: pending_refs_def)
qed

theorem executor_dispatch_fifo_witness:
  "sorted_wrt (\<lambda>r r'. tc_id (sc_controls sample_two r) < tc_id (sc_controls sample_two r')) [0, 1]"
  using executor_dispatch_fifo [OF reach_sample_two]
  by (simp only: sample_two_state map_append) simp

section \<open>Starting a task\<close>

text \<open>A step enters at most one backend, of a task that was not cancelled.\<close>

lemma entered_job_step:
  assumes "job_step j w js w'"
  shows "w_entered w' = w_entered w
         \<or> (\<exists>ow. j = JobStart ow \<and> w_entered w' = w_entered w @ [ow_ref ow]
                \<and> tc_cancel_reason (sc_controls w (ow_ref ow)) = None)"
proof -
  have up: "w_entered (upd_control r f v) = w_entered v" "w_entered (drop_permit o' v) = w_entered v"
      "w_entered (cell_publish r c v) = w_entered v" for r f o' c and v :: "'a world"
    by (simp_all add: upd_control_def drop_permit_def release_active_def cell_publish_def)
  have ret: "job_return now result ow v = (js', v') \<Longrightarrow> w_entered v' = w_entered v"
    for now result ow and v v' :: "'a world" and js'
    by (auto simp: job_return_def up split: prod.splits option.splits)
  show ?thesis
    using assms
  proof cases
    case (js_start now ow)
    then show ?thesis
      by (auto simp: job_start_def begin_start_def up split: prod.splits bool.splits if_splits)
  next
    case (js_panic now ow)
    then show ?thesis
      by (auto simp: job_panic_def panicked_result_def up dest!: ret split: prod.splits)
  next
    case (js_send now ow lifecycle cause)
    then show ?thesis by (auto simp: job_send_def up split: prod.splits bool.splits)
  qed (auto simp: job_release_def job_wake_def up dest: ret)
qed

lemma entered_promote_loop: "w_entered (promote_loop now w) = w_entered w"
proof (induction now w rule: promote_loop.induct)
  case (1 now w)
  then show ?case
    by (subst promote_loop.simps)
       (auto simp: promote_owner_def upd_control_def split: list.split)
qed

lemma entered_section: "world_manager_section now w = (phase, w') \<Longrightarrow> w_entered w' = w_entered w"
  using world_manager_section_eq [of now w]
  by (simp add: world_pop_ready_def pop_ready_def entered_promote_loop cancel_due_active_def
      cancel_all_closed world_expire_ready_def expire_ready_def world_expire_queue_def
      expire_queue_def expire_loop_closed add_jobs_def split: list.splits)

lemma entered_step:
  assumes "exec_step w w'"
  shows "w_entered w' = w_entered w
         \<or> (\<exists>ow. JobStart ow \<in> set (w_jobs w) \<and> w_entered w' = w_entered w @ [ow_ref ow]
                \<and> tc_cancel_reason (sc_controls w (ow_ref ow)) = None)"
proof -
  consider "progress_step w w'" | "client_step w w'"
    using assms by (auto simp: exec_step_def)
  then show ?thesis
  proof cases
    case 1
    then show ?thesis
    proof cases
      case (ps_job us job vs js w1)
      with entered_job_step [OF ps_job(3)] show ?thesis by auto
    next
      case (ps_manager_section us vs now phase w1)
      with entered_section [OF ps_manager_section(3)] show ?thesis by simp
    qed (auto simp: ensure_manager_def world_fail_pending_def fail_pending_def add_jobs_def)
  next
    case 2
    then show ?thesis
    proof cases
      case (cs_submit now b t q)
      then show ?thesis
        by (auto simp: world_submit_def submit_def Let_def split: sum.splits option.splits if_splits)
    next
      case (cs_cancel r reason)
      then show ?thesis
        by (auto simp: world_request_cancel_def sched_request_cancel_def Let_def upd_control_def
            add_jobs_def split: option.splits prod.splits)
    next
      case cs_shutdown
      then show ?thesis
        by (simp add: world_shutdown_drain_def shutdown_drain_def Let_def cancel_all_closed
            add_jobs_def)
    qed
  qed
qed

text \<open>
  User code is entered at most once per submission, and only for submissions the manager
  dispatched.
\<close>

theorem executor_runs_each_task_once:
  assumes "reach exec_init exec_step w"
  shows "distinct (w_entered w) \<and> set (w_entered w) \<subseteq> set (w_dispatched w)"
  using executor.reach_inv [OF assms] by (simp add: tasks_inv_def history_inv_def)

theorem executor_runs_each_task_once_witness: "distinct (w_entered sample_two)"
  using executor_runs_each_task_once [OF reach_sample_two] by simp

lemma cancelled_stays_unstarted:
  assumes "tasks_inv w" and "tc_cancel_reason (sc_controls w r) \<noteq> None" and "r < sc_next_ref w"
    and "r \<notin> set (w_entered w)" and "exec_step\<^sup>*\<^sup>* w w'"
  shows "r \<notin> set (w_entered w') \<and> tc_cancel_reason (sc_controls w' r) = tc_cancel_reason (sc_controls w r)"
  using assms(5)
proof (induction rule: rtranclp_induct)
  case base
  with assms show ?case by simp
next
  case (step v u)
  have le: "world_le w v" "world_le v u"
    using step(1,2) by (auto intro: world_le_steps world_le_step)
  then have r: "r < sc_next_ref v" using assms(3) by (simp add: world_le_def)
  have "tc_cancel_reason (sc_controls v r) \<noteq> None"
    using step.IH assms(2) by simp
  then have "tc_cancel_reason (sc_controls u r) = tc_cancel_reason (sc_controls v r)"
    using le(2) r by (auto simp: world_le_def control_kept_def)
  moreover have "r \<notin> set (w_entered u)"
    using entered_step [OF step(2)] step.IH assms(2) by auto
  ultimately show ?case using step.IH by simp
qed

text \<open>
  A submission that has a cancellation reason before its backend is entered is never entered
  later, and keeps the first reason it was given.
\<close>

theorem executor_cancelled_never_starts:
  assumes "reach exec_init exec_step w" and "r < sc_next_ref w" and "r \<notin> set (w_entered w)"
    and "tc_cancel_reason (sc_controls w r) = Some reason" and "exec_step\<^sup>*\<^sup>* w w'"
  shows "r \<notin> set (w_entered w') \<and> tc_cancel_reason (sc_controls w' r) = Some reason"
  using cancelled_stays_unstarted [OF executor.reach_inv [OF assms(1)] _ assms(2,3,5)] assms(4)
  by simp

theorem executor_cancelled_never_starts_witness:
  "1 \<notin> set (w_entered (world_shutdown_drain sample_cancelled))"
proof -
  have "tc_cancel_reason (sc_controls sample_cancelled 1) = Some CrUser"
    "sc_next_ref sample_cancelled = 2" "w_entered sample_cancelled = []"
    by (simp_all add: run_defs sample_defs)
  moreover have "exec_step\<^sup>*\<^sup>* sample_cancelled (world_shutdown_drain sample_cancelled)"
    using cs_shutdown [of sample_cancelled] by (auto simp: exec_step_def)
  ultimately show ?thesis
    using executor_cancelled_never_starts [OF reach_sample_cancelled, of 1 CrUser] by simp
qed

section \<open>Shutdown\<close>

definition drained :: "'q world \<Rightarrow> 'q world" where
  "drained w =
     add_jobs (terminal_jobs EsTerminated CauseCancelled (sc_queue w @ sc_ready w))
       (cancel_all CrShutdown (map ow_ref (sc_ready w))
          (w\<lparr>sc_accepting := False, sc_queue := [], sc_ready := []\<rparr>))"

lemma shutdown_drained:
  "world_shutdown_drain w = cancel_all CrShutdown (shutdown_unstarted (drained w)) (drained w)"
  by (simp add: world_shutdown_drain_def shutdown_drain_def Let_def cancel_all_closed add_jobs_def
      drained_def shutdown_unstarted_def cong: if_cong)

lemma tasks_inv_drained:
  assumes inv: "tasks_inv w"
  shows "tasks_inv (drained w)"
  by (rule tasks_inv_move [OF inv, where moved = "sc_queue w @ sc_ready w"
        and lifecycle = EsTerminated and cause = CauseCancelled])
     (simp_all add: drained_def cancel_all_closed add_jobs_def same_admission_def same_frame_def
        pending_refs_def calm_mark_cancelling)

definition closed_down :: "'q world \<Rightarrow> bool" where
  "closed_down w =
     (\<not> sc_accepting w \<and> \<not> work_pending w
      \<and> (\<forall>j \<in> set (w_jobs w). unentered_job j \<longrightarrow>
           tc_cancel_reason (sc_controls w (ow_ref (job_owner j))) \<noteq> None))"

lemma mark_cancelling_reason: "\<not> is_terminal (tc_lifecycle c) \<Longrightarrow> tc_cancel_reason (snd (mark_cancelling reason c)) \<noteq> None"
  by (simp add: mark_cancelling_def)

lemma closed_down_shutdown:
  assumes inv: "tasks_inv w"
  shows "closed_down (world_shutdown_drain w)"
proof -
  let ?d = "drained w"
  have d: "tasks_inv ?d" by (rule tasks_inv_drained [OF inv])
  have fields: "sc_accepting ?d = False" "sc_queue ?d = []" "sc_ready ?d = []"
    by (simp_all add: drained_def cancel_all_closed add_jobs_def)
  have "tc_cancel_reason (sc_controls (world_shutdown_drain w) (ow_ref (job_owner j))) \<noteq> None"
    if j: "j \<in> set (w_jobs (world_shutdown_drain w))" "unentered_job j" for j
  proof -
    let ?r = "ow_ref (job_owner j)"
    have jd: "j \<in> set (w_jobs ?d)"
      using j by (simp add: shutdown_drained cancel_all_closed)
    then have "job_ok (sc_controls ?d) j"
      using d by (simp add: tasks_inv_def places_inv_def)
    then have ok: "\<not> is_terminal (tc_lifecycle (sc_controls ?d ?r))" "unstarted (sc_controls ?d ?r)"
      and act: "ow_permit (job_owner j) = Some PermitActive"
      using j(2) by (cases j; simp)+
    have "(ow_id (job_owner j), ?r) \<in> set (sc_active ?d)"
      using struct_of_tasks [OF d] act jd
      by (auto simp: struct_inv_def permit_keys_def owners_def)
    then have "?r \<in> set (map snd (sc_active ?d))" by force
    then have "?r \<in> set (shutdown_unstarted ?d)"
      if "tc_cancel_reason (sc_controls ?d ?r) = None"
      using ok that by (simp add: shutdown_unstarted_def unstarted_def mark_cancelling_def)
    then show ?thesis
      using ok kept_mark_cancelling [of "sc_controls ?d ?r" CrShutdown]
      by (auto simp: shutdown_drained cancel_all_closed mark_cancelling_reason
          mark_cancelling_def)
  qed
  then show ?thesis
    using fields by (simp add: closed_down_def shutdown_drained cancel_all_closed work_pending_def)
qed

lemma section_idle_jobs:
  assumes "\<not> work_pending w" and "world_manager_section now w = (phase, w')"
  shows "w_jobs w' = w_jobs w"
proof -
  have pl: "promote_loop now v = v" if "sc_queue v = []" for v :: "'a world"
    using that by (simp add: promote_loop.simps)
  show ?thesis
    using assms world_manager_section_eq [of now w]
    by (simp add: work_pending_def world_pop_ready_def pop_ready_def pl cancel_due_active_def
        cancel_all_closed world_expire_ready_def expire_ready_def world_expire_queue_def
        expire_queue_def expire_loop_closed add_jobs_def terminal_jobs_def)
qed

lemma job_step_unentered:
  "job_step j w js w' \<Longrightarrow> i \<in> set js \<Longrightarrow> unentered_job i \<Longrightarrow>
   unentered_job j \<and> job_owner i = job_owner j"
  by (auto elim!: job_step.cases simp: job_start_def job_return_def job_panic_def job_send_def
      job_release_def job_wake_def split: prod.splits bool.splits option.splits)

lemma closed_step:
  assumes closed: "\<not> sc_accepting w" "\<not> work_pending w" and st: "exec_step w w'"
  shows "\<forall>i \<in> set (w_jobs w'). unentered_job i \<longrightarrow>
           (\<exists>j \<in> set (w_jobs w). unentered_job j \<and> job_owner i = job_owner j)"
proof -
  have e: "sc_queue w = []" "sc_ready w = []" using closed by (simp_all add: work_pending_def)
  consider "progress_step w w'" | "client_step w w'"
    using st by (auto simp: exec_step_def)
  then show ?thesis
  proof cases
    case 1
    then show ?thesis
    proof cases
      case (ps_job us job vs js w1)
      then show ?thesis using job_step_unentered [OF ps_job(3)] by auto
    next
      case (ps_manager_section us vs now phase w1)
      with section_idle_jobs [OF closed(2) ps_manager_section(3)] show ?thesis by auto
    qed (use e in \<open>auto simp: ensure_manager_def world_fail_pending_def fail_pending_def
           add_jobs_def terminal_jobs_def\<close>)
  next
    case 2
    then show ?thesis
    proof cases
      case (cs_submit now b t q)
      have "submit now b t q w = (fst (submit now b t q w), w)"
        using closed by (simp add: submit_def split: option.split)
      moreover have "\<exists>error. fst (submit now b t q w) = Inl error"
        using closed by (simp add: submit_def split: option.split)
      ultimately have "w' = w"
        using cs_submit by (auto simp: world_submit_def split: prod.splits sum.splits)
      then show ?thesis by auto
    next
      case (cs_cancel r reason)
      with e show ?thesis
        by (auto simp: world_request_cancel_def sched_request_cancel_def Let_def upd_control_def)
    next
      case cs_shutdown
      with e show ?thesis
        by (auto simp: shutdown_drained drained_def cancel_all_closed add_jobs_def terminal_jobs_def)
    qed
  qed
qed

lemma closed_down_step:
  assumes inv: "tasks_inv w" and closed: "closed_down w" and st: "exec_step w w'"
  shows "closed_down w' \<and> w_entered w' = w_entered w"
proof -
  have c: "\<not> sc_accepting w" "\<not> work_pending w"
    using closed by (simp_all add: closed_down_def)
  have le: "world_le w w'" by (rule world_le_step) (rule st)
  have "\<not> work_pending w'"
  proof -
    have "exec_step w w' \<Longrightarrow> work_pending w' \<Longrightarrow> work_pending w \<or> sc_accepting w"
      by (rule work_pending_step)
    with c st show ?thesis by blast
  qed
  moreover have "tc_cancel_reason (sc_controls w' (ow_ref (job_owner i))) \<noteq> None"
    if i: "i \<in> set (w_jobs w')" "unentered_job i" for i
  proof -
    from closed_step [OF c st] i obtain j where j: "j \<in> set (w_jobs w)" "unentered_job j"
      "job_owner i = job_owner j" by blast
    then have "tc_cancel_reason (sc_controls w (ow_ref (job_owner j))) \<noteq> None"
      using closed by (simp add: closed_down_def)
    moreover have "ow_ref (job_owner j) < sc_next_ref w"
    proof -
      have "job_owner j \<in> set (owners w)" using j(1) by (simp add: owners_def)
      then show ?thesis using inv by (simp add: tasks_inv_def struct_inv_def owner_inv_def)
    qed
    ultimately show ?thesis
      using le j(3) by (simp add: world_le_def control_kept_def)
  qed
  moreover have "w_entered w' = w_entered w"
    using entered_step [OF st] closed by (fastforce simp: closed_down_def)
  ultimately show ?thesis
    using le c by (auto simp: closed_down_def world_le_def)
qed

text \<open>
  After shutdown has drained the scheduler no task enters user code any more, the FIFO and the
  ready list stay empty, and every later submission is refused without changing the state.
\<close>

theorem executor_shutdown_starts_nothing:
  assumes "reach exec_init exec_step w" and "exec_step\<^sup>*\<^sup>* (world_shutdown_drain w) w'"
  shows "w_entered w' = w_entered w \<and> sc_queue w' = [] \<and> sc_ready w' = []
         \<and> (\<forall>now backend timeout request. \<exists>error.
              submit now backend timeout request w' = (Inl error, w'))"
proof -
  have inv: "tasks_inv (world_shutdown_drain w)"
    by (intro tasks_inv_shutdown executor.reach_inv [OF assms(1)])
  have "closed_down (world_shutdown_drain w)"
    by (rule closed_down_shutdown) (rule executor.reach_inv [OF assms(1)])
  with assms(2) have "closed_down w' \<and> tasks_inv w' \<and> w_entered w' = w_entered (world_shutdown_drain w)"
  proof (induction rule: rtranclp_induct)
    case base
    with inv show ?case by simp
  next
    case (step v u)
    then show ?case
      using closed_down_step [of v u] executor.inv_step [of v u] by simp
  qed
  then show ?thesis
    by (auto simp: closed_down_def work_pending_def submit_def shutdown_drained drained_def
        cancel_all_closed add_jobs_def split: option.split)
qed

theorem executor_shutdown_starts_nothing_witness:
  "w_entered (run_first 7 (world_shutdown_drain sample_two)) = []"
proof -
  have "reach exec_init exec_step (world_shutdown_drain sample_two)"
    by (rule reach_step [OF reach_sample_two]) (simp add: exec_step_def cs_shutdown)
  have "w_jobs (world_shutdown_drain sample_two) \<noteq> []"
    using sample_two_state(2)
    by (auto simp: shutdown_drained drained_def cancel_all_closed add_jobs_def terminal_jobs_def)
  then obtain j rest where j: "w_jobs (world_shutdown_drain sample_two) = j # rest"
    by (cases "w_jobs (world_shutdown_drain sample_two)") auto
  obtain js v where f: "first_job 7 j (world_shutdown_drain sample_two) = (js, v)" by fastforce
  have "progress_step (world_shutdown_drain sample_two) (v\<lparr>w_jobs := [] @ js @ rest\<rparr>)"
    by (rule ps_job [OF _ first_job_step [OF f]]) (simp add: j)
  then have "exec_step\<^sup>*\<^sup>* (world_shutdown_drain sample_two)
      (run_first 7 (world_shutdown_drain sample_two))"
    using f j by (simp add: run_first_def exec_step_def r_into_rtranclp)
  from executor_shutdown_starts_nothing [OF reach_sample_two this] show ?thesis
    by (simp add: sample_two_state)
qed

section \<open>Progress\<close>

text \<open>
  C10: The scheduler cannot deadlock: from every reachable state the steps of managers and
  task threads alone, with no further client call, lead to a state in which every accepted
  submission has its result and no slot is active.
\<close>

theorem executor_every_task_can_finish:
  assumes "reach exec_init exec_step w"
  shows "\<exists>w'. progress_step\<^sup>*\<^sup>* w w'
           \<and> (\<forall>r. r < sc_next_ref w \<longrightarrow> sc_results w' r \<noteq> None) \<and> sc_active w' = []"
proof -
  from executor_can_finish [OF executor.reach_inv [OF assms] executor_managers.reach_inv [OF assms]]
  obtain w' where w': "progress_step\<^sup>*\<^sup>* w w'" "owners w' = []" "tasks_inv w'" by blast
  have "exec_step\<^sup>*\<^sup>* w w'"
    using w'(1) by (rule rtranclp_mono [THEN predicate2D, rotated]) (simp add: exec_step_def le_fun_def)
  from world_le_steps [OF this] have "sc_next_ref w \<le> sc_next_ref w'"
    by (simp add: world_le_def)
  moreover have "\<forall>r < sc_next_ref w'. sc_results w' r \<noteq> None" "sc_active w' = []"
    using struct_of_tasks [OF w'(3)] w'(2) by (auto simp: struct_inv_def done_inv_def)
  ultimately show ?thesis using w'(1) by auto
qed

theorem executor_every_task_can_finish_witness:
  "\<exists>w'. progress_step\<^sup>*\<^sup>* sample_two w' \<and> sc_results w' 1 \<noteq> None"
  using executor_every_task_can_finish [OF reach_sample_two] by (auto simp: sample_two_state)

text \<open>
  There is never more than one manager thread, and whenever a submission is queued or ready
  there is a manager that is not exiting, a submitter still about to start one, or a failed
  start whose pending submissions are being failed.
\<close>

theorem executor_manager_for_pending_work:
  assumes "reach exec_init exec_step w"
  shows "length (w_managers w) \<le> 1
         \<and> (sc_queue w = [] \<and> sc_ready w = []
            \<or> (\<exists>m. w_managers w = [m] \<and> m \<noteq> MgrExit) \<or> 0 < w_ensuring w \<or> w_failing w \<noteq> [])"
  using executor_managers.reach_inv [OF assms]
  by (auto simp: managers_inv_def work_pending_def length_Suc_conv split: if_splits)

theorem executor_manager_for_pending_work_witness:
  "(\<exists>m. w_managers sample_two = [m] \<and> m \<noteq> MgrExit) \<or> 0 < w_ensuring sample_two
   \<or> w_failing sample_two \<noteq> []"
  using executor_manager_for_pending_work [OF reach_sample_two] sample_two_state(1,2) by auto

section \<open>Single operations\<close>

lemma supervisor_failure_Some:
  "supervisor_failure result = Some category \<Longrightarrow>
   \<exists>failure. result = Inl failure \<and> ef_error failure = EeSupervisor category
     \<and> (category = FcTimeout \<or> category = FcInfrastructure)"
  by (cases result)
     (auto simp: supervisor_failure_def split: execution_error.splits if_splits)

text \<open>
  When a task with a recorded cancellation reason resolves its backend's result, the published
  result is a failure: the supervisor's timeout or infrastructure failure passes unchanged,
  otherwise it is the deadline or cancelled error of the reason with the partial output of the
  backend, and the lifecycle matches.
\<close>

theorem resolve_cancelled_result:
  assumes "resolve_backend_result now result dispatched c = (Some (lifecycle, published), c')"
    and "tc_cancel_reason c = Some reason"
  shows "\<exists>failure. published = Inl failure
     \<and> (if supervisor_failure result = None
        then lifecycle = EsTerminated
          \<and> ef_error failure = (if reason = CrDeadline then request_deadline_error else EeCancelled)
          \<and> ef_partial_output failure = backend_result_partial_output result dispatched
        else result = Inl failure
          \<and> lifecycle = (if ef_error failure = EeSupervisor FcTimeout then EsTerminated else EsFailed))"
proof -
  from assms(1) obtain c1 where o: "resolve_outcome now result dispatched c = ((lifecycle, published), c1)"
    by (auto simp: resolve_backend_result_def split: if_splits prod.splits)
  show ?thesis
  proof (cases "supervisor_failure result")
    case (Some category)
    with supervisor_failure_Some [OF Some] o show ?thesis
      by (auto simp: resolve_outcome_def Let_def)
  next
    case None
    show ?thesis
    proof (cases "reason = CrDeadline")
      case True
      with o None assms(2) show ?thesis
        by (auto simp: resolve_outcome_def Let_def deadline_failure_with_partial_and_metadata_def
            split: prod.splits dest: lifecycle_control_failure)
    next
      case False
      with o None assms(2) show ?thesis
        by (cases reason) (auto simp: resolve_outcome_def Let_def
            cancelled_failure_with_partial_and_metadata_def
            split: prod.splits dest: lifecycle_control_failure)
    qed
  qed
qed

theorem resolve_cancelled_result_witness:
  "\<exists>failure c'. resolve_backend_result 20 sample_result BkInProcess
      ((sample_heap 0)\<lparr>tc_cancel_reason := Some CrUser\<rparr>) = (Some (EsTerminated, Inl failure), c')
    \<and> ef_error failure = EeCancelled"
proof -
  let ?c = "(sample_heap 0)\<lparr>tc_cancel_reason := Some CrUser\<rparr>"
  have nt: "\<not> is_terminal (tc_lifecycle ?c)" and s: "supervisor_failure sample_result = None"
    by (simp_all add: sample_heap_def task_control_new_def sample_result_def supervisor_failure_def)
  obtain o' c' where r: "resolve_backend_result 20 sample_result BkInProcess ?c = (o', c')"
    by fastforce
  with resolve_backend_result_None [OF nt] obtain lifecycle published
    where o': "o' = Some (lifecycle, published)"
    by (metis fst_conv not_None_eq surj_pair)
  from resolve_cancelled_result [OF r [unfolded o'], of CrUser] s r o' show ?thesis by auto
qed

end
