(* ===== verification/Ld_Permissions.thy ===== *)
theory Ld_Permissions
  imports Ld_Prelude
begin

text \<open>
  Permission parsing (src/src/permissions.rs): \<open>build_permissions\<close> turns the \<^verbatim>\<open>--allow-*\<close> strings
  into the \<^verbatim>\<open>PermissionsOptions\<close> of the Deno crates. A \<^verbatim>\<open>String\<close> is its list of UTF-8 bytes. The
  constructor \<^verbatim>\<open>Permissions::from_options\<close> is a parameter.
\<close>

section \<open>Strings and paths\<close>

fun split_once :: "char \<Rightarrow> string \<Rightarrow> (string \<times> string) option" where
  "split_once c [] = None"
| "split_once c (x # xs) =
     (if x = c then Some ([], xs)
      else map_option (\<lambda>(a, b). (x # a, b)) (split_once c xs))"

fun split_on :: "char \<Rightarrow> string \<Rightarrow> string list" where
  "split_on c [] = [[]]"
| "split_on c (x # xs) =
     (if x = c then [] # split_on c xs
      else (case split_on c xs of [] \<Rightarrow> [[x]] | w # ws \<Rightarrow> (x # w) # ws))"

lemma split_once_Some: "split_once c s = Some (a, b) \<Longrightarrow> s = a @ c # b \<and> c \<notin> set a"
  by (induction s arbitrary: a) (auto split: if_splits)

lemma split_once_None: "split_once c s = None \<longleftrightarrow> c \<notin> set s"
  by (induction s) auto

lemma split_once_append: "c \<notin> set a \<Longrightarrow> split_once c (a @ c # b) = Some (a, b)"
  by (induction a) auto

lemma split_on_no_sep: "w \<in> set (split_on c s) \<Longrightarrow> c \<notin> set w"
proof (induction s arbitrary: w)
  case Nil
  then show ?case by simp
next
  case (Cons x xs)
  then show ?case by (cases "split_on c xs") (auto split: if_splits)
qed

text \<open>\<^verbatim>\<open>Path::is_absolute\<close>, \<^verbatim>\<open>Path::join\<close> and the UTF-8 check of \<^verbatim>\<open>into_string\<close>, on Unix.\<close>

definition is_absolute :: "string \<Rightarrow> bool" where
  "is_absolute p = (case p of [] \<Rightarrow> False | c # _ \<Rightarrow> c = CHR ''/'')"

definition path_join :: "string \<Rightarrow> string \<Rightarrow> string" where
  "path_join base p =
     (if is_absolute p then p
      else if base = [] \<or> last base = CHR ''/'' then base @ p
      else base @ ''/'' @ p)"

definition utf8_cont :: "nat \<Rightarrow> bool" where
  "utf8_cont b = (128 \<le> b \<and> b < 192)"

fun utf8_valid :: "nat list \<Rightarrow> bool" where
  "utf8_valid [] = True"
| "utf8_valid (b # bs) =
     (if b < 128 then utf8_valid bs
      else if 194 \<le> b \<and> b < 224 then
        (case bs of c # r \<Rightarrow> utf8_cont c \<and> utf8_valid r | _ \<Rightarrow> False)
      else if 224 \<le> b \<and> b < 240 then
        (case bs of
           c # d # r \<Rightarrow>
             utf8_cont c \<and> utf8_cont d \<and> (b = 224 \<longrightarrow> 160 \<le> c) \<and> (b = 237 \<longrightarrow> c < 160)
             \<and> utf8_valid r
         | _ \<Rightarrow> False)
      else if 240 \<le> b \<and> b < 245 then
        (case bs of
           c # d # e # r \<Rightarrow>
             utf8_cont c \<and> utf8_cont d \<and> utf8_cont e \<and> (b = 240 \<longrightarrow> 144 \<le> c)
             \<and> (b = 244 \<longrightarrow> c < 144) \<and> utf8_valid r
         | _ \<Rightarrow> False)
      else False)"

definition string_utf8 :: "string \<Rightarrow> bool" where
  "string_utf8 s = utf8_valid (map of_char s)"

definition is_run_path :: "string \<Rightarrow> bool" where
  "is_run_path spec =
     (is_absolute spec \<or> spec = ''.'' \<or> spec = ''..'' \<or> CHR ''/'' \<in> set spec)"

section \<open>Options\<close>

definition CONTROL_ENV_VARS :: "string list" where
  "CONTROL_ENV_VARS =
    [''LIBDENO_HOST_EXE'', ''LIBDENO_CHILD_MODE'', ''LIBDENO_CHILD_TOKEN'',
     ''LIBDENO_SUPERVISOR_MODE'', ''LIBDENO_SUPERVISOR_ENDPOINT'', ''LIBDENO_SUPERVISOR_TOKEN'',
     ''LIBDENO_ANALYSIS_CACHE_ENTRIES'', ''LIBDENO_MAX_TARBALL_DECOMPRESSED_BYTES'',
     ''DENO_DIR'', ''DENO_NO_PACKAGE_JSON'', ''JSR_URL'', ''NPM_CONFIG_REGISTRY'',
     ''npm_config_registry'', ''NPM_CONFIG_REPLACE_REGISTRY_HOST'',
     ''npm_config_replace_registry_host'']"

record permissions_options =
  po_allow_env :: "string list option"
  po_deny_env :: "string list option"
  po_ignore_env :: "string list option"
  po_allow_net :: "string list option"
  po_deny_net :: "string list option"
  po_allow_ffi :: "string list option"
  po_deny_ffi :: "string list option"
  po_allow_read :: "string list option"
  po_deny_read :: "string list option"
  po_ignore_read :: "string list option"
  po_allow_run :: "string list option"
  po_deny_run :: "string list option"
  po_allow_sys :: "string list option"
  po_deny_sys :: "string list option"
  po_allow_write :: "string list option"
  po_deny_write :: "string list option"
  po_allow_import :: "string list option"
  po_deny_import :: "string list option"
  po_prompt :: bool

definition options_init :: "bool \<Rightarrow> permissions_options" where
  "options_init prompt =
     \<lparr>po_allow_env = None, po_deny_env = Some CONTROL_ENV_VARS, po_ignore_env = None,
      po_allow_net = None, po_deny_net = None, po_allow_ffi = None, po_deny_ffi = None,
      po_allow_read = None, po_deny_read = None, po_ignore_read = None, po_allow_run = None,
      po_deny_run = None, po_allow_sys = None, po_deny_sys = None, po_allow_write = None,
      po_deny_write = None, po_allow_import = None, po_deny_import = None, po_prompt = prompt\<rparr>"

datatype 'p permissions_container = AllowAll | Restricted 'p

section \<open>Parsing one flag\<close>

definition parse_specs :: "string \<Rightarrow> string option \<Rightarrow> string list libdeno_result" where
  "parse_specs flag value =
     (case value of
        None \<Rightarrow> Inr []
      | Some v \<Rightarrow>
          (let specs = filter (\<lambda>s. s \<noteq> []) (split_on CHR '','' v)
           in if specs = []
              then Inl (ErrPermission (''flag `'' @ flag @ ''=` requires at least one value''))
              else Inr specs))"

fun collect_results :: "('e + 'a) list \<Rightarrow> 'e + 'a list" where
  "collect_results [] = Inr []"
| "collect_results (Inl e # rs) = Inl e"
| "collect_results (Inr x # rs) = bind_res (collect_results rs) (\<lambda>xs. Inr (x # xs))"

definition resolve_path :: "string \<Rightarrow> string \<Rightarrow> string libdeno_result" where
  "resolve_path cwd s =
     (if is_absolute s then Inr s
      else if string_utf8 (path_join cwd s) then Inr (path_join cwd s)
      else Inl (ErrPermission ''filesystem permission path is not valid UTF-8''))"

definition resolve_run_path :: "string \<Rightarrow> string \<Rightarrow> string libdeno_result" where
  "resolve_run_path cwd s =
     (if \<not> is_run_path s then Inr s
      else if string_utf8 (path_join cwd s) then Inr (path_join cwd s)
      else Inl (ErrPermission ''run permission path is not valid UTF-8''))"

definition paths :: "string \<Rightarrow> string list \<Rightarrow> string list libdeno_result" where
  "paths cwd specs = collect_results (map (resolve_path cwd) specs)"

definition run_paths :: "string \<Rightarrow> string list \<Rightarrow> string list libdeno_result" where
  "run_paths cwd specs = collect_results (map (resolve_run_path cwd) specs)"

definition extend_slot :: "string list option \<Rightarrow> string list \<Rightarrow> string list option" where
  "extend_slot slot specs =
     (if specs = [] then Some []
      else case slot of
             Some existing \<Rightarrow> (if existing \<noteq> [] then Some (existing @ specs) else Some existing)
           | None \<Rightarrow> Some specs)"

definition apply_flag ::
  "string \<Rightarrow> string \<Rightarrow> string list \<Rightarrow> permissions_options \<Rightarrow> permissions_options libdeno_result"
  where
  "apply_flag cwd flag specs opts =
     (if flag = ''--allow-read'' then
        bind_res (paths cwd specs) (\<lambda>ps. Inr (opts\<lparr>po_allow_read := extend_slot (po_allow_read opts) ps\<rparr>))
      else if flag = ''--allow-write'' then
        bind_res (paths cwd specs) (\<lambda>ps. Inr (opts\<lparr>po_allow_write := extend_slot (po_allow_write opts) ps\<rparr>))
      else if flag = ''--allow-env'' then
        Inr (opts\<lparr>po_allow_env := extend_slot (po_allow_env opts) specs\<rparr>)
      else if flag = ''--allow-net'' then
        Inr (opts\<lparr>po_allow_net := extend_slot (po_allow_net opts) specs\<rparr>)
      else if flag = ''--allow-run'' then
        bind_res (run_paths cwd specs) (\<lambda>ps. Inr (opts\<lparr>po_allow_run := extend_slot (po_allow_run opts) ps\<rparr>))
      else if flag = ''--allow-ffi'' then
        bind_res (paths cwd specs) (\<lambda>ps. Inr (opts\<lparr>po_allow_ffi := extend_slot (po_allow_ffi opts) ps\<rparr>))
      else if flag = ''--allow-sys'' then
        Inr (opts\<lparr>po_allow_sys := extend_slot (po_allow_sys opts) specs\<rparr>)
      else if flag = ''--allow-import'' then
        Inr (opts\<lparr>po_allow_import := extend_slot (po_allow_import opts) specs\<rparr>)
      else Inl (ErrPermission (''unknown permission flag: '' @ flag)))"

section \<open>The argument loop\<close>

definition split_arg :: "string \<Rightarrow> string \<times> string option" where
  "split_arg arg =
     (case split_once CHR ''='' arg of Some (f, v) \<Rightarrow> (f, Some v) | None \<Rightarrow> (arg, None))"

definition is_allow_all_flag :: "string \<Rightarrow> bool" where
  "is_allow_all_flag flag = (flag = ''-A'' \<or> flag = ''--allow-all'')"

text \<open>\<open>None\<close> is the early return of an allow-all container; the \<^verbatim>\<open>bool\<close> is \<open>has_allow\<close>.\<close>

fun permission_loop ::
  "string \<Rightarrow> string list \<Rightarrow> permissions_options \<Rightarrow> bool
   \<Rightarrow> (permissions_options \<times> bool) option libdeno_result" where
  "permission_loop cwd [] opts has_allow = Inr (Some (opts, has_allow))"
| "permission_loop cwd (arg # args) opts has_allow =
     (case split_arg arg of
        (flag, value) \<Rightarrow>
          if is_allow_all_flag flag then
            (if value \<noteq> None then Inl (ErrPermission (''flag `'' @ flag @ ''` does not take a value''))
             else Inr None)
          else bind_res (parse_specs flag value)
                 (\<lambda>specs. bind_res (apply_flag cwd flag specs opts)
                    (\<lambda>opts. permission_loop cwd args opts True)))"

definition no_flags_message :: string where
  "no_flags_message =
     ''no permission flags provided; since v0.2.0 an empty list grants nothing (it was allow-all before v0.2.0). Pass --allow-* capability flags, set LibdenoOptions.prompt = true for interactive prompting, or set LibdenoOptions.allow_all_permissions = true to grant all capabilities''"

definition build_permissions ::
  "(permissions_options \<Rightarrow> string + 'p) \<Rightarrow> string list \<Rightarrow> bool \<Rightarrow> bool \<Rightarrow> string
   \<Rightarrow> 'p permissions_container libdeno_result" where
  "build_permissions from_options permission_args allow_all prompt cwd =
     (if allow_all then Inr AllowAll
      else bind_res (permission_loop cwd permission_args (options_init prompt) False)
        (\<lambda>r. case r of
               None \<Rightarrow> Inr AllowAll
             | Some (opts, has_allow) \<Rightarrow>
                 if \<not> has_allow \<and> \<not> prompt then Inl (ErrConfiguration no_flags_message)
                 else bind_res (map_err ErrPermission (from_options opts))
                        (\<lambda>perms. Inr (Restricted perms))))"

definition validate_permission_args ::
  "(permissions_options \<Rightarrow> string + 'p) \<Rightarrow> string list \<Rightarrow> bool \<Rightarrow> bool \<Rightarrow> string \<Rightarrow> unit libdeno_result"
  where
  "validate_permission_args from_options permission_args allow_all prompt cwd =
     bind_res (build_permissions from_options permission_args allow_all prompt cwd) (\<lambda>_. Inr ())"

section \<open>What a list of flags grants\<close>

text \<open>
  The specification: a flag without a value grants a capability globally, whatever other
  flags say; otherwise the values of all flags for the capability, in order; no flag, no
  grant. \<open>granted\<close> computes it from the arguments without the loop's state.
\<close>

datatype capability = CapEnv | CapNet | CapFfi | CapRead | CapRun | CapSys | CapWrite | CapImport

fun capability_flag :: "capability \<Rightarrow> string" where
  "capability_flag CapEnv = ''--allow-env''"
| "capability_flag CapNet = ''--allow-net''"
| "capability_flag CapFfi = ''--allow-ffi''"
| "capability_flag CapRead = ''--allow-read''"
| "capability_flag CapRun = ''--allow-run''"
| "capability_flag CapSys = ''--allow-sys''"
| "capability_flag CapWrite = ''--allow-write''"
| "capability_flag CapImport = ''--allow-import''"

fun slot :: "capability \<Rightarrow> permissions_options \<Rightarrow> string list option" where
  "slot CapEnv opts = po_allow_env opts"
| "slot CapNet opts = po_allow_net opts"
| "slot CapFfi opts = po_allow_ffi opts"
| "slot CapRead opts = po_allow_read opts"
| "slot CapRun opts = po_allow_run opts"
| "slot CapSys opts = po_allow_sys opts"
| "slot CapWrite opts = po_allow_write opts"
| "slot CapImport opts = po_allow_import opts"

fun resolved :: "capability \<Rightarrow> string \<Rightarrow> string \<Rightarrow> string" where
  "resolved CapFfi cwd s = path_join cwd s"
| "resolved CapRead cwd s = path_join cwd s"
| "resolved CapWrite cwd s = path_join cwd s"
| "resolved CapRun cwd s = (if is_run_path s then path_join cwd s else s)"
| "resolved _ cwd s = s"

definition arg_values :: "string \<Rightarrow> string list" where
  "arg_values arg =
     (case snd (split_arg arg) of
        None \<Rightarrow> [] | Some v \<Rightarrow> filter (\<lambda>s. s \<noteq> []) (split_on CHR '','' v))"

definition granted :: "capability \<Rightarrow> string \<Rightarrow> string list \<Rightarrow> string list option" where
  "granted cap cwd args =
     (let mine = filter (\<lambda>arg. fst (split_arg arg) = capability_flag cap) args
      in if mine = [] then None
         else if \<exists>arg \<in> set mine. snd (split_arg arg) = None then Some []
         else Some (map (resolved cap cwd) (concat (map arg_values mine))))"

text \<open>The fields that no flag touches.\<close>

definition fixed_fields ::
  "permissions_options \<Rightarrow> string list option list \<times> bool" where
  "fixed_fields opts =
     ([po_deny_env opts, po_ignore_env opts, po_deny_net opts, po_deny_ffi opts, po_deny_read opts,
       po_ignore_read opts, po_deny_run opts, po_deny_sys opts, po_deny_write opts,
       po_deny_import opts], po_prompt opts)"

lemma collect_results_Inr:
  "collect_results (map f xs) = Inr ys \<Longrightarrow> list_all2 (\<lambda>x y. f x = Inr y) xs ys"
proof (induction xs arbitrary: ys)
  case Nil
  then show ?case by simp
next
  case (Cons x xs)
  then show ?case by (cases "f x") (auto simp: bind_res_Inr)
qed

lemma paths_Inr:
  assumes "paths cwd specs = Inr ps"
  shows "ps = map (path_join cwd) specs"
proof -
  have "list_all2 (\<lambda>x y. resolve_path cwd x = Inr y) specs ps"
    using assms unfolding paths_def by (rule collect_results_Inr)
  then show ?thesis
    by (induction rule: list_all2_induct) (auto simp: resolve_path_def path_join_def split: if_splits)
qed

lemma run_paths_Inr:
  assumes "run_paths cwd specs = Inr ps"
  shows "ps = map (resolved CapRun cwd) specs"
proof -
  have "list_all2 (\<lambda>x y. resolve_run_path cwd x = Inr y) specs ps"
    using assms unfolding run_paths_def by (rule collect_results_Inr)
  then show ?thesis
    by (induction rule: list_all2_induct) (auto simp: resolve_run_path_def split: if_splits)
qed

lemma apply_flag_Inr:
  assumes "apply_flag cwd flag specs opts = Inr opts'"
  shows "\<exists>cap. flag = capability_flag cap
    \<and> slot cap opts' = extend_slot (slot cap opts) (map (resolved cap cwd) specs)
    \<and> (\<forall>cap'. cap' \<noteq> cap \<longrightarrow> slot cap' opts' = slot cap' opts)
    \<and> fixed_fields opts' = fixed_fields opts"
proof -
  have *: ?thesis if "flag = capability_flag cap"
    "opts' = (case cap of
        CapEnv \<Rightarrow> opts\<lparr>po_allow_env := extend_slot (po_allow_env opts) (map (resolved cap cwd) specs)\<rparr>
      | CapNet \<Rightarrow> opts\<lparr>po_allow_net := extend_slot (po_allow_net opts) (map (resolved cap cwd) specs)\<rparr>
      | CapFfi \<Rightarrow> opts\<lparr>po_allow_ffi := extend_slot (po_allow_ffi opts) (map (resolved cap cwd) specs)\<rparr>
      | CapRead \<Rightarrow> opts\<lparr>po_allow_read := extend_slot (po_allow_read opts) (map (resolved cap cwd) specs)\<rparr>
      | CapRun \<Rightarrow> opts\<lparr>po_allow_run := extend_slot (po_allow_run opts) (map (resolved cap cwd) specs)\<rparr>
      | CapSys \<Rightarrow> opts\<lparr>po_allow_sys := extend_slot (po_allow_sys opts) (map (resolved cap cwd) specs)\<rparr>
      | CapWrite \<Rightarrow> opts\<lparr>po_allow_write := extend_slot (po_allow_write opts) (map (resolved cap cwd) specs)\<rparr>
      | CapImport \<Rightarrow> opts\<lparr>po_allow_import := extend_slot (po_allow_import opts) (map (resolved cap cwd) specs)\<rparr>)"
    for cap
  proof -
    have "slot cap opts' = extend_slot (slot cap opts) (map (resolved cap cwd) specs)"
      using that(2) by (cases cap) simp_all
    moreover have "slot cap' opts' = slot cap' opts" if "cap' \<noteq> cap" for cap'
      using that \<open>opts' = _\<close> by (cases cap; cases cap') simp_all
    moreover have "fixed_fields opts' = fixed_fields opts"
      using that(2) by (cases cap) (simp_all add: fixed_fields_def)
    ultimately show ?thesis using that(1) by blast
  qed
  have id1: "map (resolved c cwd) specs = specs" if "c \<in> {CapEnv, CapNet, CapSys, CapImport}" for c
    using that by (auto intro!: map_idI)
  have p1: "map (resolved c cwd) specs = map (path_join cwd) specs" if "c \<in> {CapRead, CapWrite, CapFfi}" for c
    using that by auto
  consider "flag = ''--allow-read''" | "flag = ''--allow-write''" | "flag = ''--allow-env''"
    | "flag = ''--allow-net''" | "flag = ''--allow-run''" | "flag = ''--allow-ffi''"
    | "flag = ''--allow-sys''" | "flag = ''--allow-import''"
    using assms unfolding apply_flag_def by (metis Inl_Inr_False)
  then show ?thesis
  proof cases
    case 1
    with assms show ?thesis
      by (intro * [of CapRead]) (auto simp: apply_flag_def bind_res_Inr p1 dest: paths_Inr)
  next
    case 2
    with assms show ?thesis
      by (intro * [of CapWrite]) (auto simp: apply_flag_def bind_res_Inr p1 dest: paths_Inr)
  next
    case 3
    with assms show ?thesis
      by (intro * [of CapEnv]) (auto simp: apply_flag_def id1)
  next
    case 4
    with assms show ?thesis
      by (intro * [of CapNet]) (auto simp: apply_flag_def id1)
  next
    case 5
    with assms show ?thesis
      by (intro * [of CapRun]) (auto simp: apply_flag_def bind_res_Inr dest: run_paths_Inr)
  next
    case 6
    with assms show ?thesis
      by (intro * [of CapFfi]) (auto simp: apply_flag_def bind_res_Inr p1 dest: paths_Inr)
  next
    case 7
    with assms show ?thesis
      by (intro * [of CapSys]) (auto simp: apply_flag_def id1)
  next
    case 8
    with assms show ?thesis
      by (intro * [of CapImport]) (auto simp: apply_flag_def id1)
  qed
qed

definition combine :: "string list option \<Rightarrow> string list option \<Rightarrow> string list option" where
  "combine a b =
     (case a of None \<Rightarrow> b
      | Some e \<Rightarrow> (case b of None \<Rightarrow> Some e
                   | Some g \<Rightarrow> if e = [] \<or> g = [] then Some [] else Some (e @ g)))"

lemma combine_None [simp]: "combine None b = b" "combine a None = a"
  by (simp_all add: combine_def split: option.split)

lemma combine_assoc: "combine (combine a b) c = combine a (combine b c)"
  by (simp add: combine_def split: option.split)

lemma extend_slot_combine: "extend_slot a specs = combine a (Some specs)"
  by (simp add: extend_slot_def combine_def split: option.split)

lemma parse_specs_Inr:
  "parse_specs flag value = Inr specs \<Longrightarrow>
   specs = (case value of None \<Rightarrow> [] | Some v \<Rightarrow> filter (\<lambda>s. s \<noteq> []) (split_on CHR '','' v))
   \<and> (value \<noteq> None \<longrightarrow> specs \<noteq> [])"
  by (auto simp: parse_specs_def Let_def split: option.splits if_splits)

lemma capability_flag_inj: "capability_flag a = capability_flag b \<longleftrightarrow> a = b"
  by (cases a; cases b) simp_all

text \<open>A valued flag with no value at all is rejected.\<close>

definition valued :: "string \<Rightarrow> bool" where
  "valued arg = (snd (split_arg arg) = None \<or> arg_values arg \<noteq> [])"

lemma granted_Cons:
  assumes "\<forall>a \<in> set (arg # args). valued a"
  shows "granted cap cwd (arg # args) =
    combine (if fst (split_arg arg) = capability_flag cap
             then Some (map (resolved cap cwd) (arg_values arg)) else None)
      (granted cap cwd args)"
proof -
  let ?mine = "filter (\<lambda>arg. fst (split_arg arg) = capability_flag cap)"
  have vals: "a \<in> set (arg # args) \<Longrightarrow> snd (split_arg a) = None \<longleftrightarrow> arg_values a = []" for a
    using assms by (auto simp: valued_def arg_values_def)
  have nil: "concat (map arg_values (?mine args)) = [] \<longleftrightarrow> (\<forall>a \<in> set (?mine args). arg_values a = [])"
    by auto
  show ?thesis
  proof (cases "fst (split_arg arg) = capability_flag cap")
    case False
    then show ?thesis by (simp add: granted_def)
  next
    case True
    show ?thesis
    proof (cases "?mine args = []")
      case True
      with \<open>fst (split_arg arg) = capability_flag cap\<close> show ?thesis
        using vals [of arg] by (simp add: granted_def Let_def)
    next
      case False
      then obtain a where a: "a \<in> set (?mine args)" by (cases "?mine args") auto
      then have "a \<in> set (arg # args)" by simp
      with a vals [of a] have "(\<exists>a \<in> set (?mine args). snd (split_arg a) = None) \<or>
          concat (map arg_values (?mine args)) \<noteq> []"
        using nil by auto
      with True False show ?thesis
        using vals [of arg] unfolding granted_def Let_def combine_def
        by (auto split: if_splits)
    qed
  qed
qed

lemma permission_loop_granted:
  assumes "permission_loop cwd args opts ha = Inr (Some (opts', ha'))"
  shows "(\<forall>arg \<in> set args. valued arg \<and> \<not> is_allow_all_flag (fst (split_arg arg)))
    \<and> slot cap opts' = combine (slot cap opts) (granted cap cwd args)
    \<and> fixed_fields opts' = fixed_fields opts \<and> ha' = (ha \<or> args \<noteq> [])"
  using assms
proof (induction args arbitrary: opts ha)
  case Nil
  then show ?case by (simp add: granted_def)
next
  case (Cons arg args)
  obtain flag v where sa: "split_arg arg = (flag, v)" by fastforce
  with Cons.prems have na: "\<not> is_allow_all_flag flag"
    by (auto split: if_splits)
  with Cons.prems sa obtain specs o1 where ps: "parse_specs flag v = Inr specs"
    and af: "apply_flag cwd flag specs opts = Inr o1"
    and rest: "permission_loop cwd args o1 True = Inr (Some (opts', ha'))"
    by (auto simp: bind_res_Inr)
  note IH = Cons.IH [OF rest]
  have av: "arg_values arg = specs" and vl: "valued arg"
    using parse_specs_Inr [OF ps] sa by (auto simp: arg_values_def valued_def split: option.splits)
  from apply_flag_Inr [OF af] obtain c where c: "flag = capability_flag c"
    "slot c o1 = extend_slot (slot c opts) (map (resolved c cwd) specs)"
    "\<forall>c'. c' \<noteq> c \<longrightarrow> slot c' o1 = slot c' opts" "fixed_fields o1 = fixed_fields opts" by blast
  have all: "\<forall>a \<in> set (arg # args). valued a" using IH vl by simp
  have "slot cap o1 = combine (slot cap opts)
      (if fst (split_arg arg) = capability_flag cap
       then Some (map (resolved cap cwd) (arg_values arg)) else None)"
    using c sa av by (cases "cap = c") (auto simp: extend_slot_combine capability_flag_inj)
  then have "slot cap opts' = combine (slot cap opts) (granted cap cwd (arg # args))"
    using IH by (simp add: granted_Cons [OF all] combine_assoc)
  with IH all na sa c show ?case by simp
qed

section \<open>Properties\<close>

text \<open>
  C30: A restricted container built from the flags grants, per capability, exactly what a
  declarative reading of the flags gives: nothing if no flag names it, everything if one flag
  has no value, otherwise the resolved values of all its flags in order; the control variables
  are always denied and the prompt setting is passed on.
\<close>

theorem permissions_grant_exactly_the_flags:
  assumes "build_permissions from_options args allow_all prompt cwd = Inr (Restricted perms)"
  shows "\<exists>opts. from_options opts = Inr perms
    \<and> (\<forall>cap. slot cap opts = granted cap cwd args)
    \<and> po_deny_env opts = Some CONTROL_ENV_VARS \<and> po_prompt opts = prompt"
proof -
  from assms have na: "\<not> allow_all" by (auto simp: build_permissions_def)
  from assms obtain opts ha where loop:
    "permission_loop cwd args (options_init prompt) False = Inr (Some (opts, ha))"
  proof (cases "permission_loop cwd args (options_init prompt) False")
    case (Inr r)
    with assms na that show ?thesis
      by (cases r) (auto simp: build_permissions_def)
  qed (use na in \<open>simp add: build_permissions_def\<close>)
  with assms na have fo: "from_options opts = Inr perms"
    by (cases "from_options opts") (auto simp: build_permissions_def split: if_splits)
  have "slot cap opts = granted cap cwd args" for cap
    using permission_loop_granted [OF loop, of cap] by (cases cap) (simp_all add: options_init_def)
  moreover have "fixed_fields opts = fixed_fields (options_init prompt)"
    using permission_loop_granted [OF loop] by simp
  ultimately show ?thesis
    using fo by (auto simp: fixed_fields_def options_init_def)
qed

theorem permissions_grant_exactly_the_flags_witness:
  "\<exists>opts. build_permissions Inr [''--allow-read=a,/b'', ''--allow-net'', ''--allow-read=c''] False
      False ''/w'' = Inr (Restricted opts)
    \<and> slot CapRead opts = Some [''/w/a'', ''/b'', ''/w/c''] \<and> slot CapNet opts = Some []
    \<and> slot CapWrite opts = None"
proof -
  let ?args = "[''--allow-read=a,/b'', ''--allow-net'', ''--allow-read=c'']"
  obtain opts where b: "build_permissions Inr ?args False False ''/w'' = Inr (Restricted opts)"
    by (simp add: build_permissions_def split_arg_def is_allow_all_flag_def parse_specs_def
        apply_flag_def paths_def resolve_path_def is_absolute_def path_join_def string_utf8_def
        options_init_def extend_slot_def map_err_def)
  from permissions_grant_exactly_the_flags [OF b] have
    s: "slot cap opts = granted cap ''/w'' ?args" for cap by auto
  have "slot CapRead opts = Some [''/w/a'', ''/b'', ''/w/c'']" "slot CapNet opts = Some []"
    "slot CapWrite opts = None"
    unfolding s
    by (simp_all add: granted_def split_arg_def arg_values_def path_join_def is_absolute_def)
  with b show ?thesis by blast
qed

lemma permission_loop_all:
  "permission_loop cwd args opts ha = Inr None \<Longrightarrow>
   ''-A'' \<in> set args \<or> ''--allow-all'' \<in> set args"
proof (induction args arbitrary: opts ha)
  case Nil
  then show ?case by simp
next
  case (Cons arg args)
  obtain flag v where sa: "split_arg arg = (flag, v)" by fastforce
  show ?case
  proof (cases "is_allow_all_flag flag")
    case True
    with Cons.prems sa have "v = None" by (auto split: if_splits)
    with sa have "arg = flag" by (auto simp: split_arg_def split: option.splits)
    with True show ?thesis by (auto simp: is_allow_all_flag_def)
  next
    case False
    with Cons.prems sa obtain o1 where "permission_loop cwd args o1 True = Inr None"
      by (auto simp: bind_res_Inr)
    from Cons.IH [OF this] show ?thesis by auto
  qed
qed

text \<open>
  Full permissions are opt-in: build_permissions returns the allow-all container only if
  allow_all is set or -A or --allow-all is literally among the arguments.
\<close>

theorem permissions_are_opt_in:
  assumes "build_permissions from_options args allow_all prompt cwd = Inr AllowAll"
  shows "allow_all \<or> ''-A'' \<in> set args \<or> ''--allow-all'' \<in> set args"
proof (cases "permission_loop cwd args (options_init prompt) False")
  case (Inl e)
  with assms show ?thesis by (auto simp: build_permissions_def split: if_splits)
next
  case (Inr r)
  show ?thesis
  proof (cases r)
    case None
    with Inr show ?thesis by (auto dest: permission_loop_all)
  next
    case (Some p)
    obtain opts ha where p: "p = (opts, ha)" by (cases p)
    show ?thesis
      using assms Inr Some p
      by (cases "from_options opts") (auto simp: build_permissions_def split: if_splits)
  qed
qed

theorem permissions_are_opt_in_witness:
  "\<exists>args. build_permissions Inr args False False ''/w'' = Inr (AllowAll :: permissions_options permissions_container)
     \<and> (''-A'' \<in> set args \<or> ''--allow-all'' \<in> set args)"
proof -
  have "build_permissions Inr [''--allow-net'', ''-A''] False False ''/w''
      = Inr (AllowAll :: permissions_options permissions_container)"
    by (simp add: build_permissions_def split_arg_def is_allow_all_flag_def parse_specs_def
        apply_flag_def)
  with permissions_are_opt_in [OF this] show ?thesis by blast
qed

text \<open>
  Arguments that no run accepts: an unknown flag, \<^verbatim>\<open>--allow-x=\<close> without a value, \<^verbatim>\<open>-A\<close> with one.
\<close>

definition bad_flag :: "string \<Rightarrow> bool" where
  "bad_flag arg =
     (case split_arg arg of
        (flag, v) \<Rightarrow>
          if is_allow_all_flag flag then v \<noteq> None
          else (\<forall>cap. flag \<noteq> capability_flag cap) \<or> (v \<noteq> None \<and> arg_values arg = []))"

lemma permission_loop_bad:
  assumes "\<exists>arg \<in> set args. bad_flag arg" "''-A'' \<notin> set args" "''--allow-all'' \<notin> set args"
  shows "\<exists>m. permission_loop cwd args opts ha = Inl (ErrPermission m)"
  using assms
proof (induction args arbitrary: opts ha)
  case Nil
  then show ?case by simp
next
  case (Cons arg args)
  obtain flag v where sa: "split_arg arg = (flag, v)" by fastforce
  have errs: "\<exists>m. e = ErrPermission m" if "apply_flag cwd flag specs opts = Inl e" for e specs
  proof -
    have c: "\<exists>m. e = ErrPermission m" if "collect_results (map f xs) = Inl e"
      "\<And>x e. f x = Inl e \<Longrightarrow> \<exists>m. e = ErrPermission m" for f :: "string \<Rightarrow> string libdeno_result" and xs e
      using that
    proof (induction xs)
      case (Cons x xs)
      then show ?case by (cases "f x"; cases "collect_results (map f xs)") auto
    qed simp
    have "\<exists>m. e = ErrPermission m" if "paths cwd xs = Inl e \<or> run_paths cwd xs = Inl e" for xs e
      using that unfolding paths_def run_paths_def
      by (auto elim!: c simp: resolve_path_def resolve_run_path_def split: if_splits)
    with that show ?thesis
      by (auto simp: apply_flag_def bind_res_def split: if_splits sum.splits)
  qed
  show ?case
  proof (cases "is_allow_all_flag flag")
    case True
    have "v \<noteq> None"
    proof
      assume "v = None"
      with sa have "arg = flag" by (auto simp: split_arg_def split: option.splits)
      with True Cons.prems show False by (auto simp: is_allow_all_flag_def)
    qed
    with True sa show ?thesis by simp
  next
    case False
    show ?thesis
    proof (cases "parse_specs flag v")
      case (Inl e)
      with False sa show ?thesis
        by (auto simp: parse_specs_def Let_def split: option.splits if_splits)
    next
      case (Inr specs)
      show ?thesis
      proof (cases "apply_flag cwd flag specs opts")
        case (Inl e)
        with errs [OF Inl] False sa Inr show ?thesis by auto
      next
        case inr2: (Inr o1)
        from apply_flag_Inr [OF inr2] obtain c where "flag = capability_flag c" by blast
        moreover have "v \<noteq> None \<longrightarrow> arg_values arg \<noteq> []"
          using parse_specs_Inr [OF Inr] sa by (auto simp: arg_values_def split: option.splits)
        ultimately have "\<not> bad_flag arg"
          using False sa by (auto simp: bad_flag_def)
        with Cons.prems have "\<exists>arg \<in> set args. bad_flag arg" by auto
        with Cons.IH [of o1 True] Cons.prems False sa Inr inr2 show ?thesis by auto
      qed
    qed
  qed
qed

text \<open>
  Without an allow-all flag, an argument that names no capability, gives an empty value list
  or puts a value on an allow-all flag makes build_permissions fail with a permission error.
\<close>

theorem permissions_reject_bad_flags:
  assumes "arg \<in> set args" and "bad_flag arg" and "''-A'' \<notin> set args" and "''--allow-all'' \<notin> set args"
  shows "\<exists>message. build_permissions from_options args False prompt cwd = Inl (ErrPermission message)"
proof -
  from permission_loop_bad [of args cwd "options_init prompt" False] assms obtain m
    where "permission_loop cwd args (options_init prompt) False = Inl (ErrPermission m)" by blast
  then show ?thesis by (simp add: build_permissions_def)
qed

theorem permissions_reject_bad_flags_witness:
  "\<exists>message. build_permissions Inr [''--allow-net'', ''--allow-read=,''] False True ''/w''
     = (Inl (ErrPermission message) :: permissions_options permissions_container libdeno_result)"
  by (rule permissions_reject_bad_flags [of "''--allow-read=,''"])
     (simp_all add: bad_flag_def split_arg_def is_allow_all_flag_def arg_values_def)

text \<open>The empty list is rejected as a configuration error unless prompting is enabled.\<close>

lemma permissions_empty_list:
  "build_permissions from_options [] False False cwd = Inl (ErrConfiguration no_flags_message)"
  by (simp add: build_permissions_def)

end
