(* ===== verification/Ld_Threads.thy ===== *)
theory Ld_Threads
  imports Ld_Prelude
begin

text \<open>
  Messaging between Node worker threads (src/src/thread_messaging.rs): the registry from thread
  identifiers to channel entries and the four operations on it. (De)serialising transferables
  is a parameter: it belongs to \<^verbatim>\<open>deno_web\<close>.
\<close>

section \<open>State\<close>

text \<open>
  An \<^verbatim>\<open>Arc<ThreadRegistryEntry>\<close> is a reference; \<^verbatim>\<open>Arc::ptr_eq\<close> is equality of references. The
  entry's listener count and its unbounded channel live in stores under the reference, and a
  channel is closed once its receiver is gone.
\<close>

type_synonym thread_id = "32 word"

record 'm thread_domain =
  td_entries :: "(thread_id \<times> nat) list"
  td_listeners :: "nat \<Rightarrow> 32 word"
  td_channel :: "nat \<Rightarrow> 'm list"
  td_closed :: "nat \<Rightarrow> bool"
  td_next :: nat

definition thread_domain_new :: "'m thread_domain" where
  "thread_domain_new =
     \<lparr>td_entries = [], td_listeners = (\<lambda>_. 0), td_channel = (\<lambda>_. []), td_closed = (\<lambda>_. False),
      td_next = 0\<rparr>"

definition thread_register :: "thread_id \<Rightarrow> 'm thread_domain \<Rightarrow> nat \<times> 'm thread_domain" where
  "thread_register t d =
     (let e = td_next d
      in (e, d\<lparr>td_next := Suc e, td_entries := AList.update t e (td_entries d),
               td_listeners := (td_listeners d)(e := 0), td_channel := (td_channel d)(e := []),
               td_closed := (td_closed d)(e := False)\<rparr>))"

definition thread_unregister :: "thread_id \<Rightarrow> nat \<Rightarrow> 'm thread_domain \<Rightarrow> 'm thread_domain" where
  "thread_unregister t expected d =
     (if map_of (td_entries d) t = Some expected
      then d\<lparr>td_entries := AList.delete t (td_entries d)\<rparr> else d)"

text \<open>The receiver resource: \<open>close\<close> cancels the pending receive, dropping it closes the channel.\<close>

record thread_receiver =
  tr_thread_id :: thread_id
  tr_entry :: nat
  tr_cancelled :: bool

definition receiver_close ::
  "thread_receiver \<Rightarrow> 'm thread_domain \<Rightarrow> thread_receiver \<times> 'm thread_domain" where
  "receiver_close r d =
     (r\<lparr>tr_cancelled := True\<rparr>, thread_unregister (tr_thread_id r) (tr_entry r) d)"

definition receiver_drop :: "thread_receiver \<Rightarrow> 'm thread_domain \<Rightarrow> 'm thread_domain" where
  "receiver_drop r d =
     (let d = thread_unregister (tr_thread_id r) (tr_entry r) d
      in d\<lparr>td_closed := (td_closed d)(tr_entry r := True)\<rparr>)"

definition op_register :: "thread_id \<Rightarrow> 'm thread_domain \<Rightarrow> thread_receiver \<times> 'm thread_domain" where
  "op_register t d =
     (case thread_register t d of
        (e, d) \<Rightarrow> (\<lparr>tr_thread_id = t, tr_entry = e, tr_cancelled = False\<rparr>, d))"

definition op_set_listener_count :: "thread_id \<Rightarrow> 32 word \<Rightarrow> 'm thread_domain \<Rightarrow> 'm thread_domain"
  where
  "op_set_listener_count t count d =
     (case map_of (td_entries d) t of
        Some e \<Rightarrow> d\<lparr>td_listeners := (td_listeners d)(e := count)\<rparr>
      | None \<Rightarrow> d)"

text \<open>
  \<open>post_message\<close>: 0 the thread is gone, 1 it has no listener, 2 the message was enqueued. The
  data is a detached buffer and its serialised transferables.
\<close>

definition op_post_message ::
  "('s list \<Rightarrow> 'e + 't list) \<Rightarrow> thread_id \<Rightarrow> 'b \<times> 's list \<Rightarrow> bool
   \<Rightarrow> ('b \<times> 't list) thread_domain \<Rightarrow> ('e + nat) \<times> ('b \<times> 't list) thread_domain" where
  "op_post_message deserialize target data force d =
     (case map_of (td_entries d) target of
        None \<Rightarrow> (Inr 0, d)
      | Some e \<Rightarrow>
          if \<not> force \<and> td_listeners d e = 0 then (Inr 1, d)
          else (case (if snd data = [] then Inr [] else deserialize (snd data)) of
                  Inl error \<Rightarrow> (Inl error, d)
                | Inr transferables \<Rightarrow>
                    if td_closed d e then (Inr 0, d)
                    else (Inr 2, d\<lparr>td_channel := (td_channel d)
                                    (e := td_channel d e @ [(fst data, transferables)])\<rparr>)))"

text \<open>
  \<open>recv_message\<close>, one poll of the receiving future: \<open>None\<close> is pending; a cancelled receiver or a
  channel without senders ends with the value \<^verbatim>\<open>None\<close>. The senders live in the registry and in
  the receiver itself, so the channel of a live receiver always has one.
\<close>

definition op_recv_message ::
  "('t list \<Rightarrow> 's list) \<Rightarrow> thread_receiver option \<Rightarrow> ('b \<times> 't list) thread_domain
   \<Rightarrow> ('b \<times> 's list) option option \<times> ('b \<times> 't list) thread_domain" where
  "op_recv_message serialize resource d =
     (case resource of
        None \<Rightarrow> (Some None, d)
      | Some r \<Rightarrow>
          if tr_cancelled r then (Some None, d)
          else (case td_channel d (tr_entry r) of
                  [] \<Rightarrow> (None, d)
                | (body, transferables) # rest \<Rightarrow>
                    (Some (Some (body, if transferables = [] then [] else serialize transferables)),
                     d\<lparr>td_channel := (td_channel d)(tr_entry r := rest)\<rparr>)))"

section \<open>The registry\<close>

definition entry_of :: "'m thread_domain \<Rightarrow> thread_id \<Rightarrow> nat option" where
  "entry_of d t = map_of (td_entries d) t"

definition put_entry :: "thread_id \<Rightarrow> nat \<Rightarrow> 'm thread_domain \<Rightarrow> 'm thread_domain" where
  "put_entry t e d = d\<lparr>td_entries := AList.update t e (td_entries d)\<rparr>"

lemma entry_of_unregister:
  "entry_of (thread_unregister t e d) =
     (if entry_of d t = Some e then (entry_of d)(t := None) else entry_of d)"
  by (simp add: entry_of_def thread_unregister_def fun_eq_iff map_of_alist_delete)

interpretation threads: guarded_registry entry_of put_entry thread_unregister
  by unfold_locales
     (simp_all add: entry_of_def put_entry_def thread_unregister_def map_of_alist_update
        map_of_alist_delete fun_eq_iff)

lemma register_put: "entry_of (snd (thread_register t d)) = entry_of (put_entry t (td_next d) d)"
  by (simp add: thread_register_def put_entry_def entry_of_def Let_def fun_eq_iff)

text \<open>Every registered entry was allocated.\<close>

definition domain_inv :: "'m thread_domain \<Rightarrow> bool" where
  "domain_inv d = (\<forall>t e. entry_of d t = Some e \<longrightarrow> e < td_next d)"

lemma domain_inv_register: "domain_inv d \<Longrightarrow> domain_inv (snd (thread_register t d))"
  by (auto simp: domain_inv_def thread_register_def entry_of_def Let_def map_of_alist_update
      less_Suc_eq split: if_splits)

lemma td_next_unregister [simp]: "td_next (thread_unregister t e d) = td_next d"
  by (simp add: thread_unregister_def)

lemma domain_inv_unregister: "domain_inv d \<Longrightarrow> domain_inv (thread_unregister t e d)"
  by (simp add: domain_inv_def entry_of_unregister)

lemma drop_entry_of: "entry_of (receiver_drop r d) = entry_of (thread_unregister (tr_thread_id r) (tr_entry r) d)"
  by (simp add: receiver_drop_def entry_of_def Let_def fun_eq_iff)

text \<open>
  Dropping the receivers of earlier registrations never unregisters a later registration of
  the same thread id.
\<close>

theorem thread_reregistration_survives_old_receivers:
  assumes "domain_inv d" and "\<forall>r \<in> set old. tr_entry r < td_next d"
  shows "entry_of (fold receiver_drop old (snd (op_register t d))) t = Some (td_next d)"
proof -
  have "entry_of (snd (op_register t d)) t = Some (td_next d)"
    by (simp add: op_register_def thread_register_def entry_of_def Let_def map_of_alist_update)
  moreover have "entry_of (fold receiver_drop rs d') = entry_of (fold (\<lambda>(k, e). thread_unregister k e)
      (map (\<lambda>r. (tr_thread_id r, tr_entry r)) rs) d')" for rs and d' :: "'a thread_domain"
  proof (induction rs arbitrary: d')
    case Nil
    then show ?case by simp
  next
    case (Cons r rs)
    have cong: "entry_of (fold (\<lambda>(k, e). thread_unregister k e) ks a) =
        entry_of (fold (\<lambda>(k, e). thread_unregister k e) ks b)"
      if "entry_of a = entry_of b" for ks and a b :: "'a thread_domain"
      using that
    proof (induction ks arbitrary: a b)
      case (Cons p ks)
      obtain k e where p: "p = (k, e)" by (cases p)
      have "entry_of (thread_unregister k e a) = entry_of (thread_unregister k e b)"
        using Cons.prems by (simp add: entry_of_unregister)
      from Cons.IH [OF this] p show ?case by simp
    qed simp
    have "entry_of (fold receiver_drop (r # rs) d') = entry_of (fold (\<lambda>(k, e). thread_unregister k e)
      (map (\<lambda>r. (tr_thread_id r, tr_entry r)) rs) (receiver_drop r d'))"
      by (simp add: Cons.IH)
    also have "\<dots> = entry_of (fold (\<lambda>(k, e). thread_unregister k e)
      (map (\<lambda>r. (tr_thread_id r, tr_entry r)) rs)
        (thread_unregister (tr_thread_id r) (tr_entry r) d'))"
      by (rule cong) (rule drop_entry_of)
    finally show ?case by simp
  qed
  moreover have "(t, td_next d) \<notin> set (map (\<lambda>r. (tr_thread_id r, tr_entry r)) old)"
    using assms(2) by auto
  ultimately show ?thesis
    by (simp add: threads.stale_removes)
qed

theorem thread_reregistration_survives_old_receivers_witness:
  "\<exists>d :: nat thread_domain.
     entry_of (receiver_drop (fst (op_register 7 (thread_domain_new :: nat thread_domain)))
       (snd (op_register 7 d))) 7 = Some 1"
proof -
  let ?d = "snd (op_register 7 thread_domain_new) :: nat thread_domain"
  have "domain_inv ?d"
    by (auto simp: op_register_def thread_register_def thread_domain_new_def domain_inv_def
        entry_of_def)
  moreover have "tr_entry (fst (op_register 7 (thread_domain_new :: nat thread_domain))) = 0"
    "td_next ?d = 1"
    by (simp_all add: op_register_def thread_register_def thread_domain_new_def)
  ultimately show ?thesis
    using thread_reregistration_survives_old_receivers
      [of ?d "[fst (op_register 7 (thread_domain_new :: nat thread_domain))]" 7]
    by (intro exI [of _ ?d]) simp
qed

section \<open>Delivery\<close>

text \<open>
  A run of operations by any threads. \<open>posted\<close> and \<open>received\<close> are what one entry's channel
  accepted and delivered.
\<close>

datatype ('b, 't) thread_op =
    OpRegister thread_id
  | OpListeners thread_id "32 word"
  | OpPost thread_id "'b \<times> 't list" bool
  | OpRecv thread_receiver
  | OpDrop thread_receiver

fun thread_apply ::
  "('b, 't) thread_op \<Rightarrow> ('b \<times> 't list) thread_domain \<Rightarrow> ('b \<times> 't list) thread_domain" where
  "thread_apply (OpRegister t) d = snd (op_register t d)"
| "thread_apply (OpListeners t n) d = op_set_listener_count t n d"
| "thread_apply (OpPost t m force) d = snd (op_post_message (Inr :: 't list \<Rightarrow> unit + 't list) t m force d)"
| "thread_apply (OpRecv r) d = snd (op_recv_message (\<lambda>x. x) (Some r) d)"
| "thread_apply (OpDrop r) d = receiver_drop r d"

fun posted :: "nat \<Rightarrow> ('b, 't) thread_op list \<Rightarrow> ('b \<times> 't list) thread_domain \<Rightarrow> ('b \<times> 't list) list" where
  "posted e [] d = []"
| "posted e (op # ops) d =
     (case op of
        OpPost t m force \<Rightarrow>
          (if entry_of d t = Some e
              \<and> fst (op_post_message (Inr :: 't list \<Rightarrow> unit + 't list) t m force d) = Inr 2
           then [m] else [])
      | _ \<Rightarrow> []) @ posted e ops (thread_apply op d)"

fun received :: "nat \<Rightarrow> ('b, 't) thread_op list \<Rightarrow> ('b \<times> 't list) thread_domain \<Rightarrow> ('b \<times> 't list) list" where
  "received e [] d = []"
| "received e (op # ops) d =
     (case op of
        OpRecv r \<Rightarrow>
          (case fst (op_recv_message (\<lambda>x. x) (Some r) d) of
             Some (Some m) \<Rightarrow> (if tr_entry r = e then [m] else [])
           | _ \<Rightarrow> [])
      | _ \<Rightarrow> []) @ received e ops (thread_apply op d)"

lemma td_next_mono: "td_next d \<le> td_next (thread_apply op d)"
  by (cases op)
     (simp_all add: op_register_def thread_register_def op_set_listener_count_def
        op_post_message_def op_recv_message_def receiver_drop_def thread_unregister_def Let_def
        split: option.split list.split prod.split)

text \<open>
  Messages between worker threads are neither lost nor reordered: what a registration's
  receivers have taken, followed by what is still in its channel, is what was there before
  followed by what was posted to it.
\<close>

theorem thread_messages_fifo_lossless:
  assumes "e < td_next d"
  shows "received e ops d @ td_channel (fold thread_apply ops d) e = td_channel d e @ posted e ops d"
  using assms
proof (induction ops arbitrary: d)
  case Nil
  then show ?case by simp
next
  case (Cons op ops)
  have n: "e < td_next (thread_apply op d)"
    using Cons.prems td_next_mono [of d op] by simp
  note IH = Cons.IH [OF n]
  show ?case
  proof (cases op)
    case (OpRegister t)
    with Cons.prems IH show ?thesis
      by (simp add: op_register_def thread_register_def Let_def)
  next
    case (OpListeners t c)
    with IH show ?thesis
      by (simp add: op_set_listener_count_def split: option.split)
  next
    case (OpPost t m force)
    with IH show ?thesis
      by (cases m) (auto simp: op_post_message_def entry_of_def split: option.split if_splits)
  next
    case (OpRecv r)
    with IH show ?thesis
      by (auto simp: op_recv_message_def split: list.split if_splits)
  next
    case (OpDrop r)
    with IH show ?thesis
      by (simp add: receiver_drop_def thread_unregister_def Let_def)
  qed
qed

theorem thread_messages_fifo_lossless_witness:
  "\<exists>d :: (nat \<times> nat list) thread_domain.
     td_channel (fold thread_apply [OpPost 7 (1, []) True, OpPost 7 (2, []) True] d) 0
     = [(1, []), (2, [])]"
proof -
  let ?d = "snd (op_register 7 thread_domain_new) :: (nat \<times> nat list) thread_domain"
  have "td_channel (fold thread_apply [OpPost 7 (1, []) True, OpPost 7 (2, []) True] ?d) 0
     = [(1, []), (2, [])]"
    using thread_messages_fifo_lossless [of 0 ?d "[OpPost 7 (1, []) True, OpPost 7 (2, []) True]"]
    by (simp add: op_register_def thread_register_def thread_domain_new_def op_post_message_def
        entry_of_def Let_def)
  then show ?thesis by blast
qed

end
