(* ===== verification/Ld_Workers.thy ===== *)
theory Ld_Workers
  imports Ld_Prelude
begin

text \<open>
  The worker lifecycle registry (src/src/worker_lifecycle.rs): reservation, attachment, closing
  and removal of workers, with the process-wide counters that all registries share.
\<close>

section \<open>State\<close>

text \<open>
  A \<open>Control\<close> (isolate handle and task spawner, both of other crates) is an opaque value; what
  \<open>request_stop\<close> does to it is recorded in \<open>wr_stops\<close>. \<open>wr_count\<close> and \<open>wr_closing_signal\<close> are the
  current values of the two watch channels.
\<close>

record 'c worker_record =
  wk_registration_id :: "64 word"
  wk_parent_id :: "32 word"
  wk_control :: "'c option"

record 'c worker_registry =
  wr_closing :: bool
  wr_workers :: "(32 word \<times> 'c worker_record) list"
  wr_count :: nat
  wr_closing_signal :: bool
  wr_stops :: "'c list"

definition worker_registry_new :: "'c worker_registry" where
  "worker_registry_new =
     \<lparr>wr_closing = False, wr_workers = [], wr_count = 0, wr_closing_signal = False, wr_stops = []\<rparr>"

text \<open>\<open>ACTIVE_WORKERS\<close> and \<open>REGISTRATION_ID\<close>; the registries are numbered.\<close>

record 'c workers_world =
  ww_active :: "64 word"
  ww_registration_id :: "64 word"
  ww_registries :: "'c worker_registry list"

definition workers_init :: "nat \<Rightarrow> 'c workers_world" where
  "workers_init n =
     \<lparr>ww_active = 0, ww_registration_id = 1, ww_registries = replicate n worker_registry_new\<rparr>"

definition active_worker_count :: "'c workers_world \<Rightarrow> 64 word" where
  "active_worker_count w = ww_active w"

definition request_stop :: "'c \<Rightarrow> 'c worker_registry \<Rightarrow> 'c worker_registry" where
  "request_stop control g = g\<lparr>wr_stops := wr_stops g @ [control]\<rparr>"

section \<open>Operations\<close>

definition registry_insert ::
  "32 word \<Rightarrow> 32 word \<Rightarrow> 64 word \<Rightarrow> 'c worker_registry \<Rightarrow> 'c worker_registry" where
  "registry_insert parent worker rid g =
     (let workers = AList.update worker
            \<lparr>wk_registration_id = rid, wk_parent_id = parent, wk_control = None\<rparr> (wr_workers g)
      in g\<lparr>wr_workers := workers, wr_count := length workers\<rparr>)"

definition registry_remove :: "32 word \<Rightarrow> 64 word \<Rightarrow> 'c worker_registry \<Rightarrow> 'c worker_registry" where
  "registry_remove worker rid g =
     (case map_of (wr_workers g) worker of
        None \<Rightarrow> g
      | Some rec \<Rightarrow>
          if wk_registration_id rec = rid
          then let workers = AList.delete worker (wr_workers g)
               in g\<lparr>wr_workers := workers, wr_count := length workers\<rparr>
          else g)"

definition registration_of :: "'c worker_registry \<Rightarrow> 32 word \<Rightarrow> 64 word option" where
  "registration_of g worker = map_option wk_registration_id (map_of (wr_workers g) worker)"

interpretation registrations: guarded_registry registration_of "registry_insert parent" registry_remove
  by unfold_locales
     (auto simp: registration_of_def registry_insert_def registry_remove_def Let_def fun_eq_iff
        map_of_alist_update map_of_alist_delete split: option.splits)

definition worker_reserve ::
  "nat \<Rightarrow> 32 word \<Rightarrow> 32 word \<Rightarrow> 'c workers_world \<Rightarrow> 64 word option \<times> 'c workers_world" where
  "worker_reserve i worker parent w =
     (let rid = ww_registration_id w;
          w = w\<lparr>ww_registration_id := rid + 1\<rparr>;
          g = ww_registries w ! i
      in if wr_closing g then (None, w)
         else (Some rid,
               w\<lparr>ww_active := (if map_of (wr_workers g) worker = None then ww_active w + 1
                               else ww_active w),
                 ww_registries := (ww_registries w)[i := registry_insert parent worker rid g]\<rparr>))"

definition worker_attach ::
  "nat \<Rightarrow> 32 word \<Rightarrow> 64 word \<Rightarrow> 'c \<Rightarrow> 'c workers_world \<Rightarrow> 'c workers_world" where
  "worker_attach i worker rid control w =
     (let g = ww_registries w ! i
      in case map_of (wr_workers g) worker of
           None \<Rightarrow> w
         | Some rec \<Rightarrow>
             if wk_registration_id rec = rid
             then let g' = g\<lparr>wr_workers := AList.update worker (rec\<lparr>wk_control := Some control\<rparr>)
                                (wr_workers g)\<rparr>
                  in w\<lparr>ww_registries := (ww_registries w)
                         [i := (if wr_closing g then request_stop control g' else g')]\<rparr>
             else w)"

definition attached_controls :: "'c worker_registry \<Rightarrow> (32 word \<times> 'c) list" where
  "attached_controls g =
     List.map_filter (\<lambda>(worker, rec). map_option (\<lambda>c. (wk_parent_id rec, c)) (wk_control rec))
       (wr_workers g)"

definition worker_close :: "nat \<Rightarrow> 'c workers_world \<Rightarrow> 'c workers_world" where
  "worker_close i w =
     (let g = (ww_registries w ! i)\<lparr>wr_closing := True, wr_closing_signal := True\<rparr>;
          controls = sort_key fst (attached_controls g)
      in w\<lparr>ww_registries := (ww_registries w)[i := fold (\<lambda>(_, c). request_stop c) controls g]\<rparr>)"

definition worker_unregister ::
  "nat \<Rightarrow> 32 word \<Rightarrow> 64 word \<Rightarrow> 'c workers_world \<Rightarrow> 'c workers_world" where
  "worker_unregister i worker rid w =
     (let g = ww_registries w ! i
      in case map_of (wr_workers g) worker of
           None \<Rightarrow> w
         | Some rec \<Rightarrow>
             if wk_registration_id rec = rid
             then w\<lparr>ww_active := ww_active w - 1,
                    ww_registries := (ww_registries w)[i := registry_remove worker rid g]\<rparr>
             else w)"

text \<open>
  \<open>close_and_wait\<close> after \<open>close\<close>: each element is what the watch channel shows next, \<open>None\<close> a
  sender that is gone. No value is a wait that has not ended.
\<close>

fun wait_for_zero :: "nat \<Rightarrow> nat option list \<Rightarrow> bool option" where
  "wait_for_zero count changes =
     (if count = 0 then Some True
      else case changes of
             [] \<Rightarrow> None
           | None # _ \<Rightarrow> Some False
           | Some count # changes \<Rightarrow> wait_for_zero count changes)"

section \<open>Reachable worlds\<close>

inductive worker_step :: "'c workers_world \<Rightarrow> 'c workers_world \<Rightarrow> bool" where
  wk_reserve:
    "i < length (ww_registries w) \<Longrightarrow> worker_step w (snd (worker_reserve i worker parent w))"
| wk_attach:
    "i < length (ww_registries w) \<Longrightarrow> worker_step w (worker_attach i worker rid control w)"
| wk_close: "i < length (ww_registries w) \<Longrightarrow> worker_step w (worker_close i w)"
| wk_unregister:
    "i < length (ww_registries w) \<Longrightarrow> worker_step w (worker_unregister i worker rid w)"

definition registry_inv :: "'c worker_registry \<Rightarrow> bool" where
  "registry_inv g =
     (keys_distinct (wr_workers g) \<and> wr_count g = length (wr_workers g)
      \<and> wr_closing_signal g = wr_closing g
      \<and> (wr_closing g \<longrightarrow>
           (\<forall>(worker, rec) \<in> set (wr_workers g). \<forall>c. wk_control rec = Some c \<longrightarrow> c \<in> set (wr_stops g)))
      \<and> (\<not> wr_closing g \<longrightarrow> wr_stops g = []))"

definition worker_total :: "'c workers_world \<Rightarrow> nat" where
  "worker_total w = sum_list (map (\<lambda>g. length (wr_workers g)) (ww_registries w))"

definition workers_inv :: "'c workers_world \<Rightarrow> bool" where
  "workers_inv w =
     ((\<forall>g \<in> set (ww_registries w). registry_inv g) \<and> ww_active w = of_nat (worker_total w))"

lemma sum_list_update:
  fixes f :: "'a \<Rightarrow> nat"
  shows "i < length xs \<Longrightarrow>
    sum_list (map f (xs[i := x])) + f (xs ! i) = sum_list (map f xs) + f x"
  by (induction xs arbitrary: i) (auto split: nat.split)

lemma workers_inv_update:
  assumes inv: "workers_inv w" and i: "i < length (ww_registries w)" and g: "registry_inv g"
    and act: "a + of_nat (length (wr_workers (ww_registries w ! i)))
                = ww_active w + of_nat (length (wr_workers g))"
  shows "workers_inv (w\<lparr>ww_active := a, ww_registration_id := r,
           ww_registries := (ww_registries w)[i := g]\<rparr>)"
proof -
  have "\<forall>h \<in> set ((ww_registries w)[i := g]). registry_inv h"
    using inv g by (auto simp: workers_inv_def dest!: set_update_subset_insert [THEN subsetD])
  moreover have "a = of_nat (sum_list (map (\<lambda>g. length (wr_workers g)) ((ww_registries w)[i := g])))"
  proof -
    have "sum_list (map (\<lambda>g. length (wr_workers g)) ((ww_registries w)[i := g]))
        + length (wr_workers (ww_registries w ! i))
        = worker_total w + length (wr_workers g)"
      unfolding worker_total_def by (rule sum_list_update) (rule i)
    then have "of_nat (sum_list (map (\<lambda>g. length (wr_workers g)) ((ww_registries w)[i := g])))
        + of_nat (length (wr_workers (ww_registries w ! i)))
        = (of_nat (worker_total w) + of_nat (length (wr_workers g)) :: 64 word)"
      by (metis of_nat_add)
    with act inv show ?thesis by (simp add: workers_inv_def) (metis add_right_cancel)
  qed
  ultimately show ?thesis by (simp add: workers_inv_def worker_total_def)
qed

lemma registry_of_inv: "workers_inv w \<Longrightarrow> i < length (ww_registries w) \<Longrightarrow> registry_inv (ww_registries w ! i)"
  by (simp add: workers_inv_def)

lemma workers_inv_reserve:
  assumes inv: "workers_inv w" and i: "i < length (ww_registries w)"
  shows "workers_inv (snd (worker_reserve i worker parent w))"
proof (cases "wr_closing (ww_registries w ! i)")
  case True
  with inv show ?thesis by (simp add: worker_reserve_def Let_def workers_inv_def worker_total_def)
next
  case False
  let ?g = "ww_registries w ! i"
  let ?ws = "AList.update worker \<lparr>wk_registration_id = ww_registration_id w, wk_parent_id = parent,
      wk_control = None\<rparr> (wr_workers ?g)"
  have g: "registry_inv ?g" by (rule registry_of_inv [OF inv i])
  then have g': "registry_inv (?g\<lparr>wr_workers := ?ws, wr_count := length ?ws\<rparr>)"
    using False by (simp add: registry_inv_def)
  have "map_of (wr_workers ?g) worker = None \<longleftrightarrow> worker \<notin> fst ` set (wr_workers ?g)"
    by (simp add: map_of_eq_None_iff)
  then have "(if map_of (wr_workers ?g) worker = None then ww_active w + 1 else ww_active w)
      + of_nat (length (wr_workers ?g)) = ww_active w + of_nat (length ?ws)"
    by (simp add: length_alist_update)
  from workers_inv_update [OF inv i g', of "if map_of (wr_workers ?g) worker = None
      then ww_active w + 1 else ww_active w" "ww_registration_id w + 1"] this
  have "workers_inv (w\<lparr>ww_active := if map_of (wr_workers ?g) worker = None then ww_active w + 1
        else ww_active w, ww_registration_id := ww_registration_id w + 1,
      ww_registries := (ww_registries w)[i := ?g\<lparr>wr_workers := ?ws, wr_count := length ?ws\<rparr>]\<rparr>)"
    by simp
  moreover have "snd (worker_reserve i worker parent w) = w\<lparr>ww_active :=
        if map_of (wr_workers ?g) worker = None then ww_active w + 1
        else ww_active w, ww_registration_id := ww_registration_id w + 1,
      ww_registries := (ww_registries w)[i := ?g\<lparr>wr_workers := ?ws, wr_count := length ?ws\<rparr>]\<rparr>"
    using False by (simp add: worker_reserve_def registry_insert_def Let_def)
  ultimately show ?thesis by simp
qed

lemma workers_inv_keep:
  assumes inv: "workers_inv w" and i: "i < length (ww_registries w)" and g: "registry_inv g"
    and len: "length (wr_workers g) = length (wr_workers (ww_registries w ! i))"
  shows "workers_inv (w\<lparr>ww_registries := (ww_registries w)[i := g]\<rparr>)"
  using workers_inv_update [OF inv i g, of "ww_active w" "ww_registration_id w"] len by simp

lemma map_of_in_set: "map_of m k = Some v \<Longrightarrow> (k, v) \<in> set m \<and> k \<in> fst ` set m"
  by (force dest: map_of_SomeD)

lemma workers_inv_attach:
  assumes inv: "workers_inv w" and i: "i < length (ww_registries w)"
  shows "workers_inv (worker_attach i worker rid control w)"
proof -
  let ?g = "ww_registries w ! i"
  have g: "registry_inv ?g" by (rule registry_of_inv [OF inv i])
  show ?thesis
  proof (cases "map_of (wr_workers ?g) worker")
    case None
    with inv show ?thesis by (simp add: worker_attach_def)
  next
    case (Some rec)
    let ?ws = "AList.update worker (rec\<lparr>wk_control := Some control\<rparr>) (wr_workers ?g)"
    let ?g1 = "?g\<lparr>wr_workers := ?ws\<rparr>"
    let ?g2 = "if wr_closing ?g then request_stop control ?g1 else ?g1"
    have len: "length ?ws = length (wr_workers ?g)"
      using map_of_in_set [OF Some] by (simp add: length_alist_update)
    have k: "keys_distinct (wr_workers ?g)" using g by (simp add: registry_inv_def)
    have "registry_inv ?g2"
      using g len
      by (auto simp: registry_inv_def request_stop_def set_alist_update [OF k])
    moreover have "length (wr_workers ?g2) = length (wr_workers ?g)"
      using len by (simp add: request_stop_def)
    ultimately have "workers_inv (w\<lparr>ww_registries := (ww_registries w)[i := ?g2]\<rparr>)"
      by (rule workers_inv_keep [OF inv i])
    with inv Some show ?thesis by (simp add: worker_attach_def Let_def)
  qed
qed

lemma fold_request_stop:
  "fold (\<lambda>(_, c). request_stop c) cs g = g\<lparr>wr_stops := wr_stops g @ map snd cs\<rparr>"
  by (induction cs arbitrary: g) (auto simp: request_stop_def)

lemma set_attached: "set (attached_controls g) =
    {(p, c). \<exists>worker rec. (worker, rec) \<in> set (wr_workers g) \<and> wk_parent_id rec = p \<and> wk_control rec = Some c}"
  by (force simp: attached_controls_def List.map_filter_def)

lemma workers_inv_close:
  assumes inv: "workers_inv w" and i: "i < length (ww_registries w)"
  shows "workers_inv (worker_close i w)"
proof -
  let ?g = "(ww_registries w ! i)\<lparr>wr_closing := True, wr_closing_signal := True\<rparr>"
  let ?h = "fold (\<lambda>(_, c). request_stop c) (sort_key fst (attached_controls ?g)) ?g"
  have g: "registry_inv (ww_registries w ! i)" by (rule registry_of_inv [OF inv i])
  have "c \<in> set (wr_stops ?h)" if "(worker, rec) \<in> set (wr_workers ?g)" "wk_control rec = Some c"
    for worker rec c
  proof -
    have "(wk_parent_id rec, c) \<in> set (attached_controls ?g)"
      using that by (auto simp: set_attached)
    then have "c \<in> snd ` set (attached_controls ?g)" by force
    then show ?thesis by (simp add: fold_request_stop)
  qed
  then have "registry_inv ?h"
    using g by (auto simp: registry_inv_def fold_request_stop)
  moreover have "length (wr_workers ?h) = length (wr_workers (ww_registries w ! i))"
    by (simp add: fold_request_stop)
  ultimately show ?thesis
    unfolding worker_close_def Let_def by (rule workers_inv_keep [OF inv i])
qed

lemma workers_inv_unregister:
  assumes inv: "workers_inv w" and i: "i < length (ww_registries w)"
  shows "workers_inv (worker_unregister i worker rid w)"
proof -
  let ?g = "ww_registries w ! i"
  have g: "registry_inv ?g" by (rule registry_of_inv [OF inv i])
  show ?thesis
  proof (cases "map_of (wr_workers ?g) worker")
    case None
    with inv show ?thesis by (simp add: worker_unregister_def)
  next
    case (Some rec)
    let ?ws = "AList.delete worker (wr_workers ?g)"
    let ?h = "?g\<lparr>wr_workers := ?ws, wr_count := length ?ws\<rparr>"
    have k: "keys_distinct (wr_workers ?g)" using g by (simp add: registry_inv_def)
    have "registry_inv ?h"
      using g k by (auto simp: registry_inv_def set_alist_delete)
    moreover have "length (wr_workers ?g) = Suc (length ?ws)"
      using map_of_in_set [OF Some] length_alist_delete [OF k, of worker]
      by (cases "wr_workers ?g") auto
    then have "ww_active w - 1 + of_nat (length (wr_workers ?g)) = ww_active w + of_nat (length ?ws)"
      by simp
    ultimately have "workers_inv (w\<lparr>ww_active := ww_active w - 1,
        ww_registration_id := ww_registration_id w, ww_registries := (ww_registries w)[i := ?h]\<rparr>)"
      by (intro workers_inv_update [OF inv i]) simp_all
    with inv Some show ?thesis by (simp add: worker_unregister_def registry_remove_def Let_def)
  qed
qed

lemma workers_inv_init: "workers_inv (workers_init n)"
  by (simp add: workers_inv_def workers_init_def registry_inv_def worker_registry_new_def
      worker_total_def)
     (induction n; simp)

interpretation workers: invariant_system "\<lambda>w. w = workers_init n" worker_step workers_inv
  by unfold_locales
     (auto simp: workers_inv_init elim!: worker_step.cases intro: workers_inv_reserve
        workers_inv_attach workers_inv_close workers_inv_unregister)

section \<open>Properties\<close>

text \<open>
  The process-wide worker counter is the number of registered workers of all registries, and
  each registry's published count is its own number of workers, which have distinct ids.
\<close>

theorem worker_counts_agree:
  assumes "reach (\<lambda>w. w = workers_init n) worker_step w"
  shows "active_worker_count w = of_nat (worker_total w)
    \<and> (\<forall>g \<in> set (ww_registries w). wr_count g = length (wr_workers g)
         \<and> distinct (map fst (wr_workers g)))"
  using workers.reach_inv [OF assms]
  by (simp add: workers_inv_def registry_inv_def active_worker_count_def keys_distinct_def)

text \<open>Two workers reserved in one of two registries, the first attached.\<close>

definition sample_workers :: "nat workers_world" where
  "sample_workers =
     worker_attach 0 5 1 100
       (snd (worker_reserve 0 6 0 (snd (worker_reserve 0 5 0 (workers_init 2)))))"

lemma reach_sample_workers: "reach (\<lambda>w. w = workers_init 2) worker_step sample_workers"
proof -
  let ?R = "reach (\<lambda>w. w = workers_init 2) worker_step"
  have one: "?R (snd (worker_reserve 0 5 0 (workers_init 2)))"
    by (rule reach_step [OF reach_init], rule refl, rule wk_reserve) (simp add: workers_init_def)
  have two: "?R (snd (worker_reserve 0 6 0 (snd (worker_reserve 0 5 0 (workers_init 2)))))"
    by (rule reach_step [OF one], rule wk_reserve)
       (simp add: worker_reserve_def workers_init_def Let_def)
  show ?thesis
    unfolding sample_workers_def
    by (rule reach_step [OF two], rule wk_attach)
       (simp add: worker_reserve_def workers_init_def Let_def)
qed

theorem worker_counts_agree_witness: "active_worker_count sample_workers = 2"
  using worker_counts_agree [OF reach_sample_workers]
  by (simp add: sample_workers_def worker_reserve_def worker_attach_def workers_init_def Let_def
      worker_registry_new_def numeral_2_eq_2 registry_insert_def worker_total_def)

text \<open>
  Once a registry is closing, every worker with a control, attached before or after the close,
  has been asked to stop, and the closing signal is visible.
\<close>

theorem worker_close_stops_attached:
  assumes "reach (\<lambda>w. w = workers_init n) worker_step w" and "i < length (ww_registries w)"
    and "wr_closing (ww_registries w ! i)"
    and "(worker, rec) \<in> set (wr_workers (ww_registries w ! i))" and "wk_control rec = Some control"
  shows "control \<in> set (wr_stops (ww_registries w ! i)) \<and> wr_closing_signal (ww_registries w ! i)"
  using registry_of_inv [OF workers.reach_inv [OF assms(1)] assms(2)] assms(3,4,5)
  by (auto simp: registry_inv_def)

theorem worker_close_stops_attached_witness:
  "100 \<in> set (wr_stops (ww_registries (worker_close 0 sample_workers) ! 0))"
proof -
  let ?w = "worker_close 0 sample_workers"
  have len: "length (ww_registries sample_workers) = 2"
    by (simp add: sample_workers_def worker_reserve_def worker_attach_def workers_init_def Let_def
        worker_registry_new_def numeral_2_eq_2 registry_insert_def)
  have r: "reach (\<lambda>w. w = workers_init 2) worker_step ?w"
    by (rule reach_step [OF reach_sample_workers]) (rule wk_close, simp add: len)
  have "wr_closing (ww_registries ?w ! 0)" "0 < length (ww_registries ?w)"
    using len by (simp_all add: worker_close_def Let_def fold_request_stop)
  moreover have "(5, \<lparr>wk_registration_id = 1, wk_parent_id = 0, wk_control = Some 100\<rparr>)
      \<in> set (wr_workers (ww_registries ?w ! 0))"
    by (simp add: sample_workers_def worker_reserve_def worker_attach_def workers_init_def Let_def
        worker_registry_new_def numeral_2_eq_2 registry_insert_def worker_close_def
        fold_request_stop)
  ultimately show ?thesis
    using worker_close_stops_attached [OF r] by fastforce
qed

lemma closed_registry_step:
  assumes st: "worker_step w w'" and i: "i < length (ww_registries w)"
    and closed: "wr_closing (ww_registries w ! i)"
  shows "length (ww_registries w') = length (ww_registries w) \<and> wr_closing (ww_registries w' ! i)
    \<and> fst ` set (wr_workers (ww_registries w' ! i)) \<subseteq> fst ` set (wr_workers (ww_registries w ! i))"
  using st
proof cases
  case (wk_reserve k worker parent)
  with i closed show ?thesis
    by (cases "k = i") (simp_all add: worker_reserve_def Let_def)
next
  case (wk_attach k worker rid control)
  show ?thesis
  proof (cases "k = i")
    case False
    with wk_attach i closed show ?thesis
      by (simp add: worker_attach_def Let_def split: option.split)
  next
    case True
    show ?thesis
    proof (cases "map_of (wr_workers (ww_registries w ! i)) worker")
      case None
      with wk_attach True closed show ?thesis by (simp add: worker_attach_def)
    next
      case (Some rec)
      with map_of_in_set [OF Some] wk_attach True i closed show ?thesis
        by (auto simp: worker_attach_def Let_def request_stop_def dom_update [unfolded dom_map_of_conv_image_fst])
    qed
  qed
next
  case (wk_close k)
  with i closed show ?thesis
    by (cases "k = i") (simp_all add: worker_close_def Let_def fold_request_stop)
next
  case (wk_unregister k worker rid)
  show ?thesis
  proof (cases "k = i")
    case False
    with wk_unregister i closed show ?thesis
      by (simp add: worker_unregister_def Let_def split: option.split)
  next
    case True
    with wk_unregister i closed show ?thesis
      by (auto simp: worker_unregister_def registry_remove_def Let_def set_alist_delete
          split: option.split)
  qed
qed

text \<open>
  A closing registry stays closing, its set of workers only shrinks, and it refuses every
  later reservation.
\<close>

theorem worker_close_is_final:
  assumes "worker_step\<^sup>*\<^sup>* w w'" and "i < length (ww_registries w)"
    and "wr_closing (ww_registries w ! i)"
  shows "wr_closing (ww_registries w' ! i)
    \<and> fst ` set (wr_workers (ww_registries w' ! i)) \<subseteq> fst ` set (wr_workers (ww_registries w ! i))
    \<and> fst (worker_reserve i worker parent w') = None"
proof -
  have "length (ww_registries w') = length (ww_registries w) \<and> wr_closing (ww_registries w' ! i)
    \<and> fst ` set (wr_workers (ww_registries w' ! i)) \<subseteq> fst ` set (wr_workers (ww_registries w ! i))"
    using assms(1)
  proof (induction rule: rtranclp_induct)
    case base
    with assms show ?case by simp
  next
    case (step v u)
    with closed_registry_step [OF step(2), of i] assms(2) show ?case by auto
  qed
  then show ?thesis by (simp add: worker_reserve_def Let_def)
qed

theorem worker_close_is_final_witness:
  "fst (worker_reserve 0 9 0 (worker_unregister 0 5 1 (worker_close 0 sample_workers))) = None"
proof -
  have len: "length (ww_registries (worker_close 0 sample_workers)) = 2"
    by (simp add: sample_workers_def worker_reserve_def worker_attach_def workers_init_def Let_def
        worker_registry_new_def numeral_2_eq_2 registry_insert_def worker_close_def)
  then have "worker_step\<^sup>*\<^sup>* (worker_close 0 sample_workers)
      (worker_unregister 0 5 1 (worker_close 0 sample_workers))"
    by (intro r_into_rtranclp wk_unregister) simp
  moreover have "wr_closing (ww_registries (worker_close 0 sample_workers) ! 0)"
    using len by (simp add: worker_close_def Let_def fold_request_stop)
  ultimately show ?thesis
    using worker_close_is_final [of "worker_close 0 sample_workers" _ 0 9 0] len by simp
qed

text \<open>
  Dropping a registration that a later reservation of the same worker id replaced leaves the
  later registration in place.
\<close>

theorem worker_stale_registration_drop:
  assumes "i < length (ww_registries w)"
    and "worker_reserve i worker p w = (Some rid, w1)" and "worker_reserve i worker q w1 = (Some rid', w2)"
  shows "registration_of (ww_registries (worker_unregister i worker rid w2) ! i) worker = Some rid'"
proof -
  let ?g = "ww_registries w ! i"
  from assms(2) have w1: "rid = ww_registration_id w" "ww_registration_id w1 = rid + 1"
    "ww_registries w1 ! i = registry_insert p worker rid ?g" "length (ww_registries w1) = length (ww_registries w)"
    using assms(1) by (auto simp: worker_reserve_def Let_def split: if_splits)
  with assms(3) have w2: "rid' = rid + 1" "length (ww_registries w2) = length (ww_registries w)"
    "ww_registries w2 ! i = registry_insert q worker rid' (registry_insert p worker rid ?g)"
    using assms(1) by (auto simp: worker_reserve_def Let_def split: if_splits)
  have ne: "rid \<noteq> rid'" using w2(1) by simp
  have "ww_registries (worker_unregister i worker rid w2) ! i
      = registry_remove worker rid (ww_registries w2 ! i)"
    using w2(2) assms(1)
    by (auto simp: worker_unregister_def registry_remove_def Let_def split: option.split)
  then show ?thesis
    using registrations.stale_remove [OF ne] w2(3) by simp
qed

theorem worker_stale_registration_drop_witness:
  "registration_of (ww_registries (worker_unregister 0 5 1
     (snd (worker_reserve 0 5 0 (snd (worker_reserve 0 5 0 (workers_init 1)))))) ! 0) 5 = Some 2"
  using worker_stale_registration_drop [of 0 "workers_init 1" 5 0 1 "snd (worker_reserve 0 5 0 (workers_init 1))" 0 2
      "snd (worker_reserve 0 5 0 (snd (worker_reserve 0 5 0 (workers_init 1))))"]
  by (simp add: worker_reserve_def workers_init_def Let_def worker_registry_new_def
      registry_insert_def)

end
