(* ===== verification/Ld_Capture.thy ===== *)
theory Ld_Capture
  imports Ld_Timing Ld_Token
begin

text \<open>
  Captured output: the in-process capture of src/src/output.rs (reader thread, collection,
  combination with the run's outcome) and the readers of a subprocess's pipes in
  src/src/subprocess.rs (\<open>drain_pipe_to_channel\<close>, \<open>SubprocessOutputReaders::collect\<close>). What the
  operating system and the channels answer is the input: one turn per loop iteration.
\<close>

section \<open>Reader threads\<close>

text \<open>
  One iteration of a reader: the answer of \<open>wait_readable\<close>, of the read, the stop flag after
  the read, and whether the channel still has a receiver. An empty read is the end of file.
\<close>

record read_turn =
  rt_wait :: "bool io_result"
  rt_read :: "bytes io_result"
  rt_stop :: bool
  rt_send :: bool

datatype reader_end = ReaderDone | ReaderFailed io_error

text \<open>
  The loop of the in-process reader thread. It yields the blocks sent, the overflow flag, and
  how it ended, \<open>None\<close> while it still runs after the given turns.
\<close>

fun capture_reader ::
  "nat option \<Rightarrow> nat \<Rightarrow> bool \<Rightarrow> read_turn list \<Rightarrow> bytes list \<times> bool \<times> reader_end option" where
  "capture_reader cap seen discarding [] = ([], False, None)"
| "capture_reader cap seen discarding (t # ts) =
     (case rt_wait t of
        Inl error \<Rightarrow> ([], False, Some (ReaderFailed error))
      | Inr ready \<Rightarrow>
          if \<not> ready then ([], False, Some ReaderDone)
          else if rt_stop t then ([], False, Some ReaderDone)
          else case rt_read t of
                 Inl error \<Rightarrow>
                   (if io_kind error = EkInterrupted then capture_reader cap seen discarding ts
                    else ([], False, Some (ReaderFailed error)))
               | Inr block \<Rightarrow>
                   if block = [] then ([], False, Some ReaderDone)
                   else if discarding then capture_reader cap seen discarding ts
                   else
                     let seen' = seen + length block
                     in if \<exists>limit. cap = Some limit \<and> limit < seen'
                        then
                          let keep = length block - (seen' - the cap)
                          in if 0 < keep \<and> \<not> rt_send t then ([], False, Some ReaderDone)
                             else (case capture_reader cap seen' True ts of
                                     (blocks, overflow, ended) \<Rightarrow>
                                       ((if 0 < keep then [take keep block] else []) @ blocks,
                                        True, ended))
                        else if \<not> rt_send t then ([], False, Some ReaderDone)
                        else (case capture_reader cap seen' discarding ts of
                                (blocks, overflow, ended) \<Rightarrow> (block # blocks, overflow, ended)))"

text \<open>What the receiver then sees: the blocks, a read error last, and the disconnection.\<close>

definition reader_messages :: "bytes list \<Rightarrow> reader_end \<Rightarrow> bytes io_result list" where
  "reader_messages blocks ended =
     map Inr blocks @ (case ended of ReaderDone \<Rightarrow> [] | ReaderFailed error \<Rightarrow> [Inl error])"

text \<open>\<open>drain_pipe_to_channel\<close>, the subprocess reader: its limit is not optional.\<close>

fun drain_pipe_to_channel ::
  "nat \<Rightarrow> nat \<Rightarrow> bool \<Rightarrow> read_turn list \<Rightarrow> bytes list \<times> bool \<times> reader_end option" where
  "drain_pipe_to_channel limit retained discarding [] = ([], False, None)"
| "drain_pipe_to_channel limit retained discarding (t # ts) =
     (case rt_wait t of
        Inl error \<Rightarrow> ([], False, Some (ReaderFailed error))
      | Inr ready \<Rightarrow>
          if \<not> ready then ([], False, Some ReaderDone)
          else case rt_read t of
                 Inl error \<Rightarrow>
                   (if io_kind error = EkInterrupted then drain_pipe_to_channel limit retained discarding ts
                    else ([], False, Some (ReaderFailed error)))
               | Inr block \<Rightarrow>
                   if rt_stop t then ([], False, Some ReaderDone)
                   else if block = [] then ([], False, Some ReaderDone)
                   else if discarding then drain_pipe_to_channel limit retained discarding ts
                   else
                     let keep = min (limit - retained) (length block)
                     in if 0 < keep \<and> \<not> rt_send t then ([], False, Some ReaderDone)
                        else
                          (case drain_pipe_to_channel limit (retained + keep) (keep < length block) ts of
                             (blocks, overflow, ended) \<Rightarrow>
                               ((if 0 < keep then [take keep block] else []) @ blocks,
                                keep < length block \<or> overflow, ended)))"

section \<open>Collection\<close>

text \<open>
  \<open>collect_blocks_until\<close>: each turn has the two clock readings of an iteration and what
  \<open>recv_timeout\<close> answers. \<open>None\<close> is a collection that has not ended with the turns given.
\<close>

datatype 'm recv = RvMessage 'm | RvTimeout | RvDisconnected

definition capture_incomplete_error :: io_error where
  "capture_incomplete_error = IoError EkTimedOut
     ''output capture incomplete: collection deadline expired before EOF; a detached child usually holds the captured stdout/stderr pipe open (give it stdout: \"null\" or a log file instead of \"inherit\")''"

fun collect_blocks_until ::
  "instant \<Rightarrow> bool \<Rightarrow> bytes \<Rightarrow> (instant \<times> bytes io_result recv) list \<Rightarrow> (bytes \<times> bool) io_result option"
  where
  "collect_blocks_until deadline overflow out [] = None"
| "collect_blocks_until deadline overflow out ((now, answer) # turns) =
     (if deadline \<le> now then Some (Inl capture_incomplete_error)
      else case answer of
             RvMessage (Inr block) \<Rightarrow> collect_blocks_until deadline overflow (out @ block) turns
           | RvMessage (Inl error) \<Rightarrow> Some (Inl error)
           | RvTimeout \<Rightarrow> Some (Inl capture_incomplete_error)
           | RvDisconnected \<Rightarrow> Some (Inr (out, overflow)))"

text \<open>\<open>StreamCapture::collect\<close>: a deferred flush error is reported only when collection succeeded.\<close>

definition stream_collect ::
  "io_error option \<Rightarrow> (bytes \<times> bool) io_result \<Rightarrow> (bytes \<times> bool) io_result" where
  "stream_collect flush_error collected =
     bind_res collected (\<lambda>c. case flush_error of Some error \<Rightarrow> Inl error | None \<Rightarrow> Inr c)"

text \<open>\<open>PendingCapture::collect\<close>: a stream that is not captured counts as empty.\<close>

definition pending_collect ::
  "(bytes \<times> bool) io_result option \<Rightarrow> (bytes \<times> bool) io_result option
   \<Rightarrow> (bytes \<times> bytes \<times> bool) io_result" where
  "pending_collect out err =
     (let o_res = (case out of Some r \<Rightarrow> r | None \<Rightarrow> Inr ([], False));
          e_res = (case err of Some r \<Rightarrow> r | None \<Rightarrow> Inr ([], False))
      in case (o_res, e_res) of
           (Inl error, _) \<Rightarrow> Inl error
         | (Inr _, Inl error) \<Rightarrow> Inl error
         | (Inr (out_bytes, out_trunc), Inr (err_bytes, err_trunc)) \<Rightarrow>
             Inr (out_bytes, err_bytes, out_trunc \<or> err_trunc))"

section \<open>The outcome of a captured run\<close>

record run_output =
  ro_exit_code :: int
  ro_stdout :: bytes
  ro_stderr :: bytes
  ro_capture_truncated :: bool

record captured_output =
  co_stdout :: bytes
  co_stderr :: bytes
  co_truncated :: bool

record captured_run_error =
  ce_error :: libdeno_error
  ce_output :: "captured_output option"

definition captured_run_error_new :: "libdeno_error \<Rightarrow> captured_run_error" where
  "captured_run_error_new error = \<lparr>ce_error = error, ce_output = None\<rparr>"

definition combine_capture ::
  "int libdeno_result \<Rightarrow> (bytes \<times> bytes \<times> bool) io_result \<Rightarrow> captured_run_error + run_output" where
  "combine_capture result capture_result =
     (case (result, capture_result) of
        (Inr exit_code, Inr (out, err, truncated)) \<Rightarrow>
          Inr \<lparr>ro_exit_code = exit_code, ro_stdout = out, ro_stderr = err,
               ro_capture_truncated = truncated\<rparr>
      | (Inr _, Inl error) \<Rightarrow> Inl (captured_run_error_new (ErrIo error))
      | (Inl error, Inr (out, err, truncated)) \<Rightarrow>
          if out \<noteq> [] \<or> err \<noteq> [] \<or> truncated
          then Inl \<lparr>ce_error = error, ce_output = Some \<lparr>co_stdout = out, co_stderr = err,
                                                     co_truncated = truncated\<rparr>\<rparr>
          else Inl (captured_run_error_new error)
      | (Inl error, Inl _) \<Rightarrow> Inl (captured_run_error_new error))"

section \<open>What the readers retain\<close>

text \<open>Undisturbed turns: the reader may read, nobody stops it, its receiver listens.\<close>

definition calm_turn :: "bytes io_result \<Rightarrow> read_turn" where
  "calm_turn r = \<lparr>rt_wait = Inr True, rt_read = r, rt_stop = False, rt_send = True\<rparr>"

lemma calm_turn_sel [simp]:
  "rt_wait (calm_turn r) = Inr True" "rt_read (calm_turn r) = r" "\<not> rt_stop (calm_turn r)"
  "rt_send (calm_turn r)"
  by (simp_all add: calm_turn_def)

lemma capture_reader_bound:
  "capture_reader (Some limit) seen discarding ts = (blocks, overflow, ended) \<Longrightarrow>
   seen \<le> limit \<or> discarding \<Longrightarrow>
   length (concat blocks) \<le> (if discarding then 0 else limit - seen)"
proof (induction ts arbitrary: seen discarding blocks overflow ended)
  case Nil
  then show ?case by simp
next
  case (Cons t ts)
  show ?case
  proof (cases "\<exists>block. rt_wait t = Inr True \<and> \<not> rt_stop t \<and> rt_read t = Inr block \<and> block \<noteq> []")
    case False
    show ?thesis
    proof (cases "\<exists>error. rt_wait t = Inr True \<and> \<not> rt_stop t \<and> rt_read t = Inl error
        \<and> io_kind error = EkInterrupted")
      case True
      with Cons.prems have "capture_reader (Some limit) seen discarding ts = (blocks, overflow, ended)" by auto
      with Cons show ?thesis by blast
    next
      case other: False
      with Cons.prems False have "blocks = []"
        by (auto split: sum.splits if_splits)
      then show ?thesis by simp
    qed
  next
    case True
    then obtain block where b: "rt_wait t = Inr True" "\<not> rt_stop t" "rt_read t = Inr block" "block \<noteq> []"
      by blast
    show ?thesis
    proof (cases discarding)
      case True
      with Cons.prems b Cons.IH [of seen True blocks overflow ended] show ?thesis by simp
    next
      case False
      let ?seen = "seen + length block"
      show ?thesis
      proof (cases "limit < ?seen")
        case True
        obtain bs ov en where r: "capture_reader (Some limit) ?seen True ts = (bs, ov, en)"
          by (cases "capture_reader (Some limit) ?seen True ts") auto
        have "length (concat bs) \<le> 0"
          using Cons.IH [OF r] by simp
        with Cons.prems b False True r show ?thesis
          by (auto simp: Let_def simp del: concat_eq_Nil_conv length_0_conv split: if_splits)
      next
        case fits: False
        obtain bs ov en where r: "capture_reader (Some limit) ?seen False ts = (bs, ov, en)"
          by (cases "capture_reader (Some limit) ?seen False ts") auto
        have "length (concat bs) \<le> limit - ?seen"
          using Cons.IH [OF r] fits by simp
        with Cons.prems b False fits r show ?thesis
          by (auto simp: Let_def split: if_splits)
      qed
    qed
  qed
qed

lemma drain_pipe_bound:
  "drain_pipe_to_channel limit retained discarding ts = (blocks, overflow, ended) \<Longrightarrow>
   length (concat blocks) \<le> (if discarding then 0 else limit - retained)"
proof (induction ts arbitrary: retained discarding blocks overflow ended)
  case Nil
  then show ?case by simp
next
  case (Cons t ts)
  show ?case
  proof (cases "\<exists>block. rt_wait t = Inr True \<and> \<not> rt_stop t \<and> rt_read t = Inr block \<and> block \<noteq> []")
    case False
    show ?thesis
    proof (cases "\<exists>error. rt_wait t = Inr True \<and> rt_read t = Inl error
        \<and> io_kind error = EkInterrupted")
      case True
      with Cons.prems have "drain_pipe_to_channel limit retained discarding ts = (blocks, overflow, ended)" by auto
      with Cons show ?thesis by blast
    next
      case other: False
      with Cons.prems False have "blocks = []"
        by (auto split: sum.splits if_splits)
      then show ?thesis by simp
    qed
  next
    case True
    then obtain block where b: "rt_wait t = Inr True" "\<not> rt_stop t" "rt_read t = Inr block" "block \<noteq> []"
      by blast
    show ?thesis
    proof (cases discarding)
      case True
      with Cons.prems b Cons.IH [of retained True blocks overflow ended] show ?thesis by simp
    next
      case False
      let ?keep = "min (limit - retained) (length block)"
      obtain bs ov en where r: "drain_pipe_to_channel limit (retained + ?keep) (?keep < length block) ts = (bs, ov, en)"
        by (cases "drain_pipe_to_channel limit (retained + ?keep) (?keep < length block) ts") auto
      have "length (concat bs) \<le> (if ?keep < length block then 0 else limit - (retained + ?keep))"
        by (rule Cons.IH [OF r])
      with Cons.prems b False r show ?thesis
        by (cases "limit - retained < length block")
           (auto simp: Let_def min_def simp del: concat_eq_Nil_conv length_0_conv split: if_splits)
    qed
  qed
qed

text \<open>
  An undisturbed stream: chunks, possibly with interrupted reads between them, then the end
  of file.
\<close>

inductive undisturbed :: "bytes \<Rightarrow> read_turn list \<Rightarrow> bool" where
  un_eof: "undisturbed [] (calm_turn (Inr []) # rest)"
| un_interrupted:
    "io_kind error = EkInterrupted \<Longrightarrow> undisturbed stream ts \<Longrightarrow>
     undisturbed stream (calm_turn (Inl error) # ts)"
| un_chunk:
    "block \<noteq> [] \<Longrightarrow> undisturbed stream ts \<Longrightarrow>
     undisturbed (block @ stream) (calm_turn (Inr block) # ts)"

lemma capture_reader_discarding:
  "undisturbed stream ts \<Longrightarrow> capture_reader cap seen True ts = ([], False, Some ReaderDone)"
  by (induction rule: undisturbed.induct) simp_all

lemma drain_pipe_discarding:
  "undisturbed stream ts \<Longrightarrow> drain_pipe_to_channel limit retained True ts = ([], False, Some ReaderDone)"
  by (induction rule: undisturbed.induct) simp_all

text \<open>
  Whatever the sizes of the reads and however often they are interrupted, the capture reader
  keeps exactly the first max_bytes bytes of the stream, flags an overflow exactly when there
  were more, and ends normally.
\<close>

theorem capture_reader_keeps_prefix:
  assumes "undisturbed stream ts"
  shows "\<exists>blocks. capture_reader cap 0 False ts
      = (blocks, (case cap of None \<Rightarrow> False | Some limit \<Rightarrow> limit < length stream), Some ReaderDone)
    \<and> concat blocks = (case cap of None \<Rightarrow> stream | Some limit \<Rightarrow> take limit stream)"
proof -
  have "\<exists>blocks. capture_reader cap seen False ts
      = (blocks, (case cap of None \<Rightarrow> False | Some limit \<Rightarrow> limit < seen + length stream), Some ReaderDone)
    \<and> concat blocks = (case cap of None \<Rightarrow> stream | Some limit \<Rightarrow> take (limit - seen) stream)"
    if "case cap of None \<Rightarrow> True | Some limit \<Rightarrow> seen \<le> limit" for seen
    using assms that
  proof (induction arbitrary: seen rule: undisturbed.induct)
    case (un_eof rest)
    then show ?case by (auto split: option.splits)
  next
    case (un_interrupted error stream ts)
    then show ?case by simp
  next
    case (un_chunk block stream ts)
    let ?seen = "seen + length block"
    show ?case
    proof (cases "\<exists>limit. cap = Some limit \<and> limit < ?seen")
      case True
      then obtain limit where l: "cap = Some limit" "limit < ?seen" by blast
      with un_chunk capture_reader_discarding [OF un_chunk(2), of "Some limit" ?seen] show ?thesis
        by (auto simp: Let_def)
    next
      case False
      then have ok: "case cap of None \<Rightarrow> True | Some limit \<Rightarrow> ?seen \<le> limit"
        by (auto split: option.split)
      from un_chunk.IH [OF ok] obtain blocks where
        "capture_reader cap ?seen False ts = (blocks, (case cap of None \<Rightarrow> False
            | Some limit \<Rightarrow> limit < ?seen + length stream), Some ReaderDone)"
        "concat blocks = (case cap of None \<Rightarrow> stream | Some limit \<Rightarrow> take (limit - ?seen) stream)"
        by blast
      with un_chunk(1) ok False show ?thesis
        by (cases cap) (auto simp: Let_def)
    qed
  qed
  from this [of 0] show ?thesis by (auto split: option.splits)
qed

lemma undisturbed_sample:
  "undisturbed [1, 2, 3] [calm_turn (Inr [1, 2]), calm_turn (Inl (IoError EkInterrupted [])),
     calm_turn (Inr [3]), calm_turn (Inr [])]"
proof -
  have "undisturbed ([3] @ []) [calm_turn (Inr [3]), calm_turn (Inr [])]"
    by (intro un_chunk un_eof) simp
  then have "undisturbed ([1, 2] @ [3]) [calm_turn (Inr [1, 2]),
      calm_turn (Inl (IoError EkInterrupted [])), calm_turn (Inr [3]), calm_turn (Inr [])]"
    by (intro un_chunk un_interrupted) simp_all
  then show ?thesis by simp
qed

theorem capture_reader_keeps_prefix_witness:
  "\<exists>blocks. capture_reader (Some 2) 0 False [calm_turn (Inr [1, 2]),
     calm_turn (Inl (IoError EkInterrupted [])), calm_turn (Inr [3]), calm_turn (Inr [])]
     = (blocks, True, Some ReaderDone) \<and> concat blocks = [1, 2]"
  using capture_reader_keeps_prefix [OF undisturbed_sample, of "Some 2"] by simp

lemma drain_pipe_prefix:
  assumes "undisturbed stream ts" and "retained \<le> limit"
  shows "\<exists>blocks. drain_pipe_to_channel limit retained False ts
      = (blocks, limit < retained + length stream, Some ReaderDone)
    \<and> concat blocks = take (limit - retained) stream"
  using assms
proof (induction arbitrary: retained rule: undisturbed.induct)
  case (un_eof rest)
  then show ?case by simp
next
  case (un_interrupted error stream ts)
  then show ?case by simp
next
  case (un_chunk block stream ts)
  show ?case
  proof (cases "limit - retained < length block")
    case True
    with un_chunk drain_pipe_discarding [OF un_chunk(2), of limit limit] show ?thesis
      by (auto simp: Let_def)
  next
    case False
    with un_chunk.prems have "retained + length block \<le> limit" by simp
    from un_chunk.IH [OF this] obtain blocks where
      "drain_pipe_to_channel limit (retained + length block) False ts
        = (blocks, limit < retained + length block + length stream, Some ReaderDone)"
      "concat blocks = take (limit - (retained + length block)) stream" by blast
    with un_chunk(1,4) False show ?thesis by (auto simp: Let_def min_def)
  qed
qed

text \<open>
  The subprocess pipe drain and the in-process capture reader are equivalent on an undisturbed
  stream: same kept bytes, same overflow flag, same end.
\<close>

theorem capture_readers_agree:
  assumes "undisturbed stream ts"
  shows "concat (fst (drain_pipe_to_channel limit 0 False ts)) = concat (fst (capture_reader (Some limit) 0 False ts))
    \<and> snd (drain_pipe_to_channel limit 0 False ts) = snd (capture_reader (Some limit) 0 False ts)"
  using drain_pipe_prefix [OF assms, of 0 limit]
    capture_reader_keeps_prefix [OF assms, of "Some limit"] by auto

theorem capture_readers_agree_witness:
  "concat (fst (drain_pipe_to_channel 2 0 False [calm_turn (Inr [1, 2]),
     calm_turn (Inl (IoError EkInterrupted [])), calm_turn (Inr [3]), calm_turn (Inr [])]))
   = concat (fst (capture_reader (Some 2) 0 False [calm_turn (Inr [1, 2]),
     calm_turn (Inl (IoError EkInterrupted [])), calm_turn (Inr [3]), calm_turn (Inr [])]))"
  using capture_readers_agree [OF undisturbed_sample, of 2] by simp

text \<open>Memory: whatever the pipe does, no more than the limit is ever sent.\<close>

text \<open>
  Neither reader ever keeps more than the capture limit, whatever happens on the pipe.
\<close>

theorem captured_bytes_bounded:
  "length (concat (fst (capture_reader (Some limit) 0 False ts))) \<le> limit
   \<and> length (concat (fst (drain_pipe_to_channel limit 0 False ts))) \<le> limit"
  using capture_reader_bound [of limit 0 False ts] drain_pipe_bound [of limit 0 False ts]
  by (cases "capture_reader (Some limit) 0 False ts"; cases "drain_pipe_to_channel limit 0 False ts") auto

text \<open>Collecting what the reader sent, each message before the deadline.\<close>

lemma collect_all:
  assumes "length ticks = length blocks" and "\<forall>now \<in> set ticks. now < deadline" and "last_now < deadline"
  shows "collect_blocks_until deadline overflow out
      (zip ticks (map (\<lambda>b. RvMessage (Inr b)) blocks) @ [(last_now, RvDisconnected)])
    = Some (Inr (out @ concat blocks, overflow))"
  using assms
proof (induction ticks blocks arbitrary: out rule: list_induct2)
  case Nil
  then show ?case by simp
next
  case (Cons t ts b bs)
  then show ?case by simp
qed

text \<open>
  If the writer's bytes reach the pipe undisturbed and the collector sees every block before
  its deadline, the collected output is the stream cut at the capture limit, with the
  truncation flag exactly when bytes were dropped.
\<close>

theorem captured_stream_end_to_end:
  assumes "undisturbed stream ts" and "capture_reader cap 0 False ts = (blocks, overflow, ended)"
    and "length ticks = length blocks" and "\<forall>now \<in> set ticks. now < deadline" and "last_now < deadline"
  shows "collect_blocks_until deadline overflow []
      (zip ticks (map RvMessage (reader_messages blocks (the ended))) @ [(last_now, RvDisconnected)])
    = Some (Inr (case cap of None \<Rightarrow> (stream, False)
                  | Some limit \<Rightarrow> (take limit stream, limit < length stream)))"
  using capture_reader_keeps_prefix [OF assms(1), of cap] assms(2)
    collect_all [OF assms(3,4,5), of overflow "[]"]
  by (auto simp: reader_messages_def comp_def split: option.splits)

theorem captured_stream_end_to_end_witness:
  "\<exists>blocks. length blocks \<le> 2 \<and> collect_blocks_until 500 True []
      (zip (replicate (length blocks) 1) (map RvMessage (reader_messages blocks ReaderDone))
       @ [(2, RvDisconnected)]) = Some (Inr ([1, 2], True))"
proof -
  let ?ts = "[calm_turn (Inr [1, 2]), calm_turn (Inl (IoError EkInterrupted [])),
     calm_turn (Inr [3]), calm_turn (Inr [])]"
  have r: "capture_reader (Some 2) 0 False ?ts = ([[1, 2]], True, Some ReaderDone)"
    by (simp add: calm_turn_def)
  from captured_stream_end_to_end [OF undisturbed_sample r, of "[1]" 500 2]
  show ?thesis by (intro exI [of _ "[[1, 2]]"]) simp
qed

text \<open>
  Combining a run with its capture loses nothing: a success carries both, the run's error
  outranks the capture's error, a capture error alone becomes an I/O error, and partial output
  is attached exactly when the capture holds something.
\<close>

theorem combine_capture_precedence:
  "case combine_capture result capture_result of
     Inr output \<Rightarrow> result = Inr (ro_exit_code output)
       \<and> capture_result = Inr (ro_stdout output, ro_stderr output, ro_capture_truncated output)
   | Inl failure \<Rightarrow>
       (case result of
          Inl error \<Rightarrow> ce_error failure = error
        | Inr _ \<Rightarrow> \<exists>error. capture_result = Inl error \<and> ce_error failure = ErrIo error)
       \<and> (case ce_output failure of
            None \<Rightarrow> True
          | Some output \<Rightarrow> capture_result = Inr (co_stdout output, co_stderr output, co_truncated output)
              \<and> (co_stdout output \<noteq> [] \<or> co_stderr output \<noteq> [] \<or> co_truncated output))"
  by (cases result; cases capture_result)
     (auto simp: combine_capture_def captured_run_error_new_def)

section \<open>The pipes of a subprocess\<close>

datatype reader_message = RmData bytes | RmFinished | RmFailed io_error

record output_stream =
  os_name :: string
  os_output :: bytes
  os_error :: "string option"
  os_done :: bool

definition output_stream_new :: "string \<Rightarrow> output_stream" where
  "output_stream_new name = \<lparr>os_name = name, os_output = [], os_error = None, os_done = False\<rparr>"

fun stream_accept :: "reader_message \<Rightarrow> output_stream \<Rightarrow> output_stream" where
  "stream_accept (RmData block) s = s\<lparr>os_output := os_output s @ block\<rparr>"
| "stream_accept RmFinished s = s\<lparr>os_done := True\<rparr>"
| "stream_accept (RmFailed error) s =
     s\<lparr>os_error := Some (os_name s @ '' reader failed: '' @ io_message error), os_done := True\<rparr>"

definition stream_disconnected :: "output_stream \<Rightarrow> output_stream" where
  "stream_disconnected s =
     s\<lparr>os_error := Some (os_name s @ '' reader disconnected unexpectedly''), os_done := True\<rparr>"

text \<open>\<open>try_receive\<close> and \<open>wait_receive\<close>: did anything arrive? An empty channel is a timeout.\<close>

definition stream_receive :: "reader_message recv \<Rightarrow> output_stream \<Rightarrow> bool \<times> output_stream" where
  "stream_receive answer s =
     (case answer of
        RvMessage message \<Rightarrow> (True, stream_accept message s)
      | RvTimeout \<Rightarrow> (False, s)
      | RvDisconnected \<Rightarrow> (True, stream_disconnected s))"

definition stream_poll ::
  "reader_message recv \<Rightarrow> output_stream option \<Rightarrow> bool \<times> output_stream option" where
  "stream_poll answer s =
     (case s of
        None \<Rightarrow> (False, None)
      | Some s \<Rightarrow> if os_done s then (False, Some s)
                  else (case stream_receive answer s of (progress, s) \<Rightarrow> (progress, Some s)))"

fun drain_queued :: "reader_message recv list \<Rightarrow> output_stream option \<Rightarrow> output_stream option" where
  "drain_queued [] s = s"
| "drain_queued (answer # answers) s =
     (case stream_poll answer s of
        (progress, s) \<Rightarrow> if progress then drain_queued answers s else s)"

definition stream_finished :: "output_stream option \<Rightarrow> bool" where
  "stream_finished s = (case s of None \<Rightarrow> True | Some s \<Rightarrow> os_done s)"

text \<open>
  One iteration of \<open>collect\<close>: the two polls, the clock, the wait for the first stream that is
  not done, and, for the last iteration, what the channels still queue.
\<close>

record collect_turn =
  ct_stdout :: "reader_message recv"
  ct_stderr :: "reader_message recv"
  ct_now :: instant
  ct_wait :: "reader_message recv"
  ct_queued_stdout :: "reader_message recv list"
  ct_queued_stderr :: "reader_message recv list"

type_synonym streams = "output_stream option \<times> output_stream option"

definition wait_first_unfinished :: "reader_message recv \<Rightarrow> streams \<Rightarrow> streams" where
  "wait_first_unfinished answer streams =
     (case streams of
        (out, err) \<Rightarrow>
          if \<not> stream_finished out then (snd (stream_poll answer out), err)
          else (out, snd (stream_poll answer err)))"

fun collect_loop ::
  "instant \<Rightarrow> bool \<Rightarrow> collect_turn list \<Rightarrow> streams \<Rightarrow> streams option" where
  "collect_loop deadline effective [] streams = None"
| "collect_loop deadline effective (t # ts) (out, err) =
     (case (stream_poll (ct_stdout t) out, stream_poll (ct_stderr t) err) of
        ((p1, out), (p2, err)) \<Rightarrow>
          if stream_finished out \<and> stream_finished err then Some (out, err)
          else if deadline \<le> ct_now t then
            Some (if effective
                  then (drain_queued (ct_queued_stdout t) out, drain_queued (ct_queued_stderr t) err)
                  else (out, err))
          else collect_loop deadline effective ts
                 (if p1 \<or> p2 then (out, err) else wait_first_unfinished (ct_wait t) (out, err)))"

record output_capture =
  oc_stdout :: bytes
  oc_stderr :: bytes
  oc_truncated :: bool
  oc_incomplete :: bool
  oc_reader_error :: bool
  oc_deadline_won :: bool
  oc_error :: "string option"

definition SUBPROCESS_OUTPUT_COLLECTION_TIMEOUT :: duration where
  "SUBPROCESS_OUTPUT_COLLECTION_TIMEOUT = millis 500"

definition fixed_collection_deadline :: "instant \<Rightarrow> instant \<Rightarrow> instant" where
  "fixed_collection_deadline now later =
     (case checked_add_instant now SUBPROCESS_OUTPUT_COLLECTION_TIMEOUT of Some d \<Rightarrow> d | None \<Rightarrow> later)"

definition collection_deadline :: "instant \<Rightarrow> instant \<Rightarrow> instant option \<Rightarrow> instant" where
  "collection_deadline now later effective_deadline =
     (case effective_deadline of
        None \<Rightarrow> fixed_collection_deadline now later
      | Some d \<Rightarrow> min (fixed_collection_deadline now later) d)"

definition output_of :: "output_stream option \<Rightarrow> bytes" where
  "output_of s = (case s of None \<Rightarrow> [] | Some s \<Rightarrow> os_output s)"

definition error_of :: "output_stream option \<Rightarrow> string option" where
  "error_of s = (case s of None \<Rightarrow> None | Some s \<Rightarrow> os_error s)"

definition collect_summary ::
  "instant \<Rightarrow> instant option \<Rightarrow> bool \<Rightarrow> bool \<Rightarrow> streams \<Rightarrow> output_capture" where
  "collect_summary fixed_deadline effective_deadline out_overflow err_overflow streams =
     (case streams of
        (out, err) \<Rightarrow>
          let incomplete = (\<not> stream_finished out \<or> \<not> stream_finished err);
              reader_error = (error_of out \<noteq> None \<or> error_of err \<noteq> None)
          in \<lparr>oc_stdout = output_of out, oc_stderr = output_of err,
              oc_truncated = (out \<noteq> None \<and> out_overflow \<or> err \<noteq> None \<and> err_overflow),
              oc_incomplete = (incomplete \<or> reader_error), oc_reader_error = reader_error,
              oc_deadline_won = (incomplete \<and> \<not> reader_error
                 \<and> (case effective_deadline of None \<Rightarrow> False | Some d \<Rightarrow> d \<le> fixed_deadline)),
              oc_error = (case (error_of out, error_of err) of
                            (Some o_err, Some e_err) \<Rightarrow> Some (o_err @ ''; '' @ e_err)
                          | (Some e, None) \<Rightarrow> Some e
                          | (None, Some e) \<Rightarrow> Some e
                          | (None, None) \<Rightarrow> None)\<rparr>)"

definition collect_streams ::
  "instant \<Rightarrow> instant \<Rightarrow> instant option \<Rightarrow> bool \<Rightarrow> bool \<Rightarrow> collect_turn list \<Rightarrow> streams
   \<Rightarrow> output_capture option" where
  "collect_streams now later effective_deadline out_overflow err_overflow turns streams =
     map_option
       (collect_summary (fixed_collection_deadline now later) effective_deadline out_overflow
          err_overflow)
       (collect_loop (collection_deadline now later effective_deadline) (effective_deadline \<noteq> None)
          turns streams)"

lemma collect_loop_ends:
  "\<exists>t \<in> set turns. deadline \<le> ct_now t \<Longrightarrow> collect_loop deadline effective turns streams \<noteq> None"
proof (induction turns arbitrary: streams)
  case Nil
  then show ?case by simp
next
  case (Cons t ts)
  obtain out err where s: "streams = (out, err)" by (cases streams)
  obtain p1 o1 where p1: "stream_poll (ct_stdout t) out = (p1, o1)" by fastforce
  obtain p2 e1 where p2: "stream_poll (ct_stderr t) err = (p2, e1)" by fastforce
  show ?case
  proof (cases "deadline \<le> ct_now t")
    case True
    with s p1 p2 show ?thesis by simp
  next
    case False
    with Cons.prems have "\<exists>t \<in> set ts. deadline \<le> ct_now t" by auto
    with False s p1 p2 Cons.IH show ?thesis by simp
  qed
qed

text \<open>The errors of a stream: only a stream that is done has one.\<close>

definition stream_inv :: "output_stream option \<Rightarrow> bool" where
  "stream_inv s = (error_of s \<noteq> None \<longrightarrow> stream_finished s)"

lemma stream_inv_poll: "stream_inv s \<Longrightarrow> stream_inv (snd (stream_poll answer s))"
proof (cases s)
  case (Some st)
  assume inv: "stream_inv s"
  have "os_error (stream_accept m st) \<noteq> None \<longrightarrow> os_error st \<noteq> None \<or> os_done (stream_accept m st)" for m
    by (cases m) simp_all
  with inv Some show ?thesis
    by (cases answer)
       (auto simp: stream_poll_def stream_receive_def stream_inv_def error_of_def
          stream_finished_def stream_disconnected_def)
qed (simp add: stream_poll_def)

lemma stream_inv_drain: "stream_inv s \<Longrightarrow> stream_inv (drain_queued answers s)"
proof (induction answers arbitrary: s)
  case Nil
  then show ?case by simp
next
  case (Cons answer answers)
  then show ?case
    using stream_inv_poll [of s answer] by (auto split: prod.split)
qed

lemma stream_poll_finished: "stream_finished s \<Longrightarrow> stream_poll answer s = (False, s)"
  by (cases s) (auto simp: stream_poll_def stream_finished_def)

lemma collect_loop_inv:
  "collect_loop deadline effective turns streams = Some (out', err') \<Longrightarrow>
   stream_inv (fst streams) \<Longrightarrow> stream_inv (snd streams) \<Longrightarrow>
   stream_inv out' \<and> stream_inv err'
   \<and> (\<not> stream_finished out' \<or> \<not> stream_finished err' \<longrightarrow> (\<exists>t \<in> set turns. deadline \<le> ct_now t))"
proof (induction turns arbitrary: streams)
  case Nil
  then show ?case by simp
next
  case (Cons t ts)
  obtain out err where s: "streams = (out, err)" by (cases streams)
  obtain p1 o1 where p1: "stream_poll (ct_stdout t) out = (p1, o1)" by fastforce
  obtain p2 e1 where p2: "stream_poll (ct_stderr t) err = (p2, e1)" by fastforce
  have i: "stream_inv o1" "stream_inv e1"
    using Cons.prems(2,3) s p1 p2 stream_inv_poll [of out "ct_stdout t"]
      stream_inv_poll [of err "ct_stderr t"] by simp_all
  show ?case
  proof (cases "stream_finished o1 \<and> stream_finished e1")
    case True
    with Cons.prems s p1 p2 i show ?thesis by auto
  next
    case False
    show ?thesis
    proof (cases "deadline \<le> ct_now t")
      case True
      with Cons.prems False s p1 p2 i show ?thesis
        by (auto simp: stream_inv_drain split: if_splits)
    next
      case late: False
      let ?next = "if p1 \<or> p2 then (o1, e1) else wait_first_unfinished (ct_wait t) (o1, e1)"
      have "collect_loop deadline effective ts ?next = Some (out', err')"
        using Cons.prems(1) False late s p1 p2 by auto
      moreover have "stream_inv (fst ?next)" "stream_inv (snd ?next)"
        using i by (simp_all add: wait_first_unfinished_def stream_inv_poll)
      ultimately show ?thesis
        using Cons.IH [of ?next] by auto
    qed
  qed
qed

text \<open>
  Collecting the output of a subprocess returns once the clock reaches the collection
  deadline, whatever the readers do; a complete capture carries no error, and the deadline is
  blamed only if the caller's own deadline was the earlier one.
\<close>

theorem subprocess_output_collection:
  assumes "\<exists>t \<in> set turns. collection_deadline now later deadline \<le> ct_now t"
  shows "\<exists>capture. collect_streams now later deadline oo eo turns
      (map_option output_stream_new out_name, map_option output_stream_new err_name) = Some capture
    \<and> (\<not> oc_incomplete capture \<longrightarrow> oc_error capture = None \<and> \<not> oc_deadline_won capture)
    \<and> (oc_deadline_won capture \<longrightarrow> oc_error capture = None
         \<and> (\<exists>d. deadline = Some d \<and> d \<le> fixed_collection_deadline now later))"
proof -
  let ?s = "(map_option output_stream_new out_name, map_option output_stream_new err_name)"
  obtain out err where r: "collect_loop (collection_deadline now later deadline) (deadline \<noteq> None)
      turns ?s = Some (out, err)"
    using collect_loop_ends [OF assms, of "deadline \<noteq> None" ?s] by auto
  let ?c = "collect_summary (fixed_collection_deadline now later) deadline oo eo (out, err)"
  have "collect_streams now later deadline oo eo turns ?s = Some ?c"
    using r by (simp add: collect_streams_def)
  moreover have "\<not> oc_incomplete ?c \<longrightarrow> oc_error ?c = None \<and> \<not> oc_deadline_won ?c"
    by (simp add: collect_summary_def Let_def)
  moreover have "oc_deadline_won ?c \<longrightarrow> oc_error ?c = None
      \<and> (\<exists>d. deadline = Some d \<and> d \<le> fixed_collection_deadline now later)"
    by (cases deadline) (simp_all add: collect_summary_def Let_def)
  ultimately show ?thesis by blast
qed

theorem subprocess_output_collection_witness:
  "\<exists>capture. collect_streams 0 0 None False False
      [\<lparr>ct_stdout = RvTimeout, ct_stderr = RvTimeout, ct_now = 10 ^ 12, ct_wait = RvTimeout,
        ct_queued_stdout = [], ct_queued_stderr = []\<rparr>] (Some (output_stream_new ''subprocess stdout''), None)
    = Some capture"
  using subprocess_output_collection [where turns = "[\<lparr>ct_stdout = RvTimeout, ct_stderr = RvTimeout,
        ct_now = 10 ^ 12, ct_wait = RvTimeout, ct_queued_stdout = [], ct_queued_stderr = []\<rparr>]"
      and now = 0 and later = 0 and deadline = None and oo = False and eo = False
      and out_name = "Some ''subprocess stdout''" and err_name = None]
  by (auto simp: collection_deadline_def fixed_collection_deadline_def SUBPROCESS_OUTPUT_COLLECTION_TIMEOUT_def millis_def
      checked_add_instant_def instant_limit_def ns_per_sec_def)

end
