(* ===== verification/Ld_Wire.thy ===== *)
theory Ld_Wire
  imports Ld_Token
begin

text \<open>
  The supervisor wire protocol (src/src/supervisor.rs): frame kinds and directions, the header,
  and reading and writing a frame over a socket under a deadline and a cancellation, on Unix.
  What the kernel answers to each call is the input.
\<close>

section \<open>Frames\<close>

definition SUPERVISOR_MAGIC :: bytes where
  "SUPERVISOR_MAGIC = str_bytes ''LDSV''"

definition SUPERVISOR_VERSION :: byte where
  "SUPERVISOR_VERSION = 2"

definition MAX_SUPERVISOR_FRAME_PAYLOAD :: nat where
  "MAX_SUPERVISOR_FRAME_PAYLOAD = 2 ^ 20"

definition SUPERVISOR_FRAME_TIMEOUT :: duration where
  "SUPERVISOR_FRAME_TIMEOUT = secs 10"

datatype frame_direction = ParentToChild | ChildToParent

datatype frame_kind =
    FkRequest | FkStart | FkCancel | FkHello | FkAccepted | FkStarted | FkTerminal

fun kind_to_byte :: "frame_kind \<Rightarrow> byte" where
  "kind_to_byte FkRequest = 1"
| "kind_to_byte FkStart = 2"
| "kind_to_byte FkCancel = 3"
| "kind_to_byte FkHello = 4"
| "kind_to_byte FkAccepted = 5"
| "kind_to_byte FkStarted = 6"
| "kind_to_byte FkTerminal = 7"

definition kind_from_byte :: "byte \<Rightarrow> frame_kind option" where
  "kind_from_byte b =
     (if b = 1 then Some FkRequest else if b = 2 then Some FkStart
      else if b = 3 then Some FkCancel else if b = 4 then Some FkHello
      else if b = 5 then Some FkAccepted else if b = 6 then Some FkStarted
      else if b = 7 then Some FkTerminal else None)"

fun kind_direction :: "frame_kind \<Rightarrow> frame_direction" where
  "kind_direction FkRequest = ParentToChild"
| "kind_direction FkStart = ParentToChild"
| "kind_direction FkCancel = ParentToChild"
| "kind_direction FkHello = ChildToParent"
| "kind_direction FkAccepted = ChildToParent"
| "kind_direction FkStarted = ChildToParent"
| "kind_direction FkTerminal = ChildToParent"

definition validate_direction :: "frame_kind \<Rightarrow> frame_direction \<Rightarrow> unit io_result" where
  "validate_direction kind expected =
     (if kind_direction kind = expected then Inr ()
      else Inl (invalid_data ''supervisor frame has the wrong direction''))"

record supervisor_frame =
  sf_kind :: frame_kind
  sf_request_id :: "64 word"
  sf_payload :: bytes

definition frame_new :: "frame_kind \<Rightarrow> 64 word \<Rightarrow> bytes \<Rightarrow> supervisor_frame io_result" where
  "frame_new kind request_id payload =
     (if MAX_SUPERVISOR_FRAME_PAYLOAD < length payload
      then Inl (invalid_data ''supervisor frame payload is too large'')
      else Inr \<lparr>sf_kind = kind, sf_request_id = request_id, sf_payload = payload\<rparr>)"

interpretation frame_kind_codec: codec kind_to_byte kind_from_byte
  by unfold_locales (rename_tac k, case_tac k; simp add: kind_from_byte_def)

section \<open>Big-endian numbers\<close>

fun be_bytes :: "nat \<Rightarrow> nat \<Rightarrow> bytes" where
  "be_bytes 0 x = []"
| "be_bytes (Suc n) x = of_nat (x div 256 ^ n mod 256) # be_bytes n x"

fun be_value :: "bytes \<Rightarrow> nat" where
  "be_value [] = 0"
| "be_value (b # bs) = unat b * 256 ^ length bs + be_value bs"

lemma length_be_bytes [simp]: "length (be_bytes n x) = n"
  by (induction n) simp_all

lemma be_value_bytes: "be_value (be_bytes n x) = x mod 256 ^ n"
proof (induction n)
  case 0
  then show ?case by simp
next
  case (Suc n)
  have "unat (of_nat (x div 256 ^ n mod 256) :: byte) = x div 256 ^ n mod 256"
    by (simp add: unat_of_nat)
  with Suc have "be_value (be_bytes (Suc n) x) = (x div 256 ^ n mod 256) * 256 ^ n + x mod 256 ^ n"
    by simp
  also have "\<dots> = x mod 256 ^ Suc n"
    using mod_mult2_eq [of x "256 ^ n" 256] by (simp add: mult.commute)
  finally show ?case .
qed

lemma be_value_less: "be_value bs < 256 ^ length bs"
proof (induction bs)
  case Nil
  then show ?case by simp
next
  case (Cons b bs)
  have "unat b < 256" using unsigned_less [of b, where 'a = nat] by simp
  then have "unat b * 256 ^ length bs + be_value bs < (unat b + 1) * 256 ^ length bs"
    using Cons by simp
  also have "\<dots> \<le> 256 * 256 ^ length bs"
    using \<open>unat b < 256\<close> by (intro mult_right_mono) simp_all
  finally show ?case by simp
qed

lemma be_bytes_value: "be_bytes (length bs) (be_value bs) = bs"
proof (induction bs)
  case Nil
  then show ?case by simp
next
  case (Cons b bs)
  have v: "be_value bs div 256 ^ length bs = 0"
    using be_value_less [of bs] by simp
  have "be_bytes n (k * 256 ^ n + y) = be_bytes n y" for n k y
  proof (induction n arbitrary: k)
    case 0
    then show ?case by simp
  next
    case (Suc n)
    have "(k * 256 ^ Suc n + y) div 256 ^ n mod 256 = y div 256 ^ n mod 256"
    proof -
      have "k * 256 ^ Suc n + y = y + (k * 256) * 256 ^ n" by simp
      then have "(k * 256 ^ Suc n + y) div 256 ^ n = k * 256 + y div 256 ^ n"
        by (simp only: div_mult_self1 power_eq_0_iff) simp
      then show ?thesis by simp
    qed
    moreover have "be_bytes n (k * 256 ^ Suc n + y) = be_bytes n y"
      using Suc [of "k * 256"] by (simp add: mult.assoc)
    ultimately show ?case by simp
  qed
  then have "be_bytes (length bs) (be_value (b # bs)) = bs"
    using Cons by simp
  moreover have "(of_nat (unat b mod 256) :: byte) = b"
    using unsigned_less [of b, where 'a = nat] by simp
  ultimately show ?case by (simp add: v)
qed

definition u64_to_be_bytes :: "64 word \<Rightarrow> bytes" where
  "u64_to_be_bytes x = be_bytes 8 (unat x)"

definition u64_from_be_bytes :: "bytes \<Rightarrow> 64 word" where
  "u64_from_be_bytes bs = of_nat (be_value bs)"

definition u64_decode :: "bytes \<Rightarrow> 64 word option" where
  "u64_decode bs = (if length bs = 8 then Some (u64_from_be_bytes bs) else None)"

interpretation u64_codec: fixed_codec u64_to_be_bytes u64_decode 8
proof unfold_locales
  fix x :: "64 word"
  have "unat x mod 256 ^ 8 = unat x"
    using unsigned_less [of x, where 'a = nat] by simp
  then show "u64_decode (u64_to_be_bytes x) = Some x"
    by (simp add: u64_decode_def u64_to_be_bytes_def u64_from_be_bytes_def be_value_bytes)
qed (simp add: u64_to_be_bytes_def)

lemma u64_to_from: "length bs = 8 \<Longrightarrow> u64_to_be_bytes (u64_from_be_bytes bs) = bs"
proof -
  assume "length bs = 8"
  moreover from this have "be_value bs < 2 ^ 64"
    using be_value_less [of bs] by simp
  ultimately show ?thesis
    using be_bytes_value [of bs]
    by (simp add: u64_to_be_bytes_def u64_from_be_bytes_def unat_of_nat)
qed

text \<open>\<open>encode_header\<close>: magic, version, kind, request identifier, payload length.\<close>

definition encode_header :: "supervisor_frame \<Rightarrow> bytes io_result" where
  "encode_header frame =
     (if 2 ^ 32 \<le> length (sf_payload frame)
      then Inl (invalid_data ''supervisor frame payload length does not fit'')
      else Inr (SUPERVISOR_MAGIC @ [SUPERVISOR_VERSION, kind_to_byte (sf_kind frame)]
                @ u64_to_be_bytes (sf_request_id frame) @ be_bytes 4 (length (sf_payload frame))))"

section \<open>Reading\<close>

text \<open>
  One iteration of \<open>read_until_with\<close>: is cancellation requested, the clock, the outcome of
  setting the read timeout, what the kernel answers (the bytes it has; none is the end of the
  stream), and, after a timeout of the read, cancellation and clock again. A read takes no
  more than the buffer holds and leaves the rest to the next one.
\<close>

record read_call =
  rc_cancelled :: bool
  rc_now :: instant
  rc_set_timeout :: "unit io_result"
  rc_answer :: "bytes io_result"
  rc_cancelled_after :: bool
  rc_now_after :: instant

definition cancelled_error :: io_error where
  "cancelled_error = IoError EkInterrupted ''supervisor cancellation requested''"

definition deadline_error :: io_error where
  "deadline_error = IoError EkTimedOut ''supervisor frame deadline exceeded''"

definition truncated_error :: io_error where
  "truncated_error = IoError EkUnexpectedEof ''truncated supervisor frame''"

text \<open>
  A reader consumes calls; \<open>None\<close> is a read that still waits after the given calls. The
  parameter \<open>watched\<close> says whether a cancellation was passed.
\<close>

type_synonym 'a reader = "read_call list \<Rightarrow> 'a io_result option \<times> read_call list"

fun read_until :: "instant option \<Rightarrow> bool \<Rightarrow> nat \<Rightarrow> bytes reader" where
  "read_until deadline watched n [] = (if n = 0 then Some (Inr []) else None, [])"
| "read_until deadline watched n (c # cs) =
     (if n = 0 then (Some (Inr []), c # cs)
      else if watched \<and> rc_cancelled c then (Some (Inl cancelled_error), c # cs)
      else if due deadline (rc_now c) then (Some (Inl deadline_error), c # cs)
      else case rc_set_timeout c of
             Inl error \<Rightarrow> (Some (Inl error), cs)
           | Inr _ \<Rightarrow>
             (case rc_answer c of
                Inr block \<Rightarrow>
                  if block = [] then (Some (Inl truncated_error), cs)
                  else if n < length block
                  then (Some (Inr (take n block)), c\<lparr>rc_answer := Inr (drop n block)\<rparr> # cs)
                  else (case read_until deadline watched (n - length block) cs of
                          (r, cs) \<Rightarrow> (map_option (\<lambda>r. bind_res r (\<lambda>bs. Inr (block @ bs))) r, cs))
              | Inl error \<Rightarrow>
                  if io_kind error = EkInterrupted then read_until deadline watched n cs
                  else if io_kind error = EkTimedOut \<or> io_kind error = EkWouldBlock then
                    (if watched \<and> rc_cancelled_after c then (Some (Inl cancelled_error), cs)
                     else if due deadline (rc_now_after c) then (Some (Inl deadline_error), cs)
                     else read_until deadline watched n cs)
                  else (Some (Inl error), cs)))"

definition rd_bind :: "'a reader \<Rightarrow> ('a \<Rightarrow> 'b reader) \<Rightarrow> 'b reader" where
  "rd_bind m f cs =
     (case m cs of
        (Some (Inr x), cs) \<Rightarrow> f x cs
      | (Some (Inl error), cs) \<Rightarrow> (Some (Inl error), cs)
      | (None, cs) \<Rightarrow> (None, cs))"

definition rd_result :: "'a io_result \<Rightarrow> 'a reader" where
  "rd_result r cs = (Some r, cs)"

definition rd_check :: "bool \<Rightarrow> string \<Rightarrow> unit reader" where
  "rd_check ok message = rd_result (if ok then Inr () else Inl (invalid_data message))"

definition read_frame_with_magic ::
  "frame_direction \<Rightarrow> bytes \<Rightarrow> instant option \<Rightarrow> bool \<Rightarrow> supervisor_frame reader" where
  "read_frame_with_magic expected magic deadline watched =
     rd_bind (rd_check (magic = SUPERVISOR_MAGIC) ''invalid supervisor frame magic'') (\<lambda>_.
     rd_bind (read_until deadline watched 1) (\<lambda>version.
     rd_bind (rd_check (version = [SUPERVISOR_VERSION]) ''unsupported supervisor frame version'') (\<lambda>_.
     rd_bind (read_until deadline watched 1) (\<lambda>kind_byte.
     rd_bind (rd_result (case kind_from_byte (hd kind_byte) of
                None \<Rightarrow> Inl (invalid_data ''unknown supervisor frame kind'')
              | Some kind \<Rightarrow> Inr kind)) (\<lambda>kind.
     rd_bind (rd_result (validate_direction kind expected)) (\<lambda>_.
     rd_bind (read_until deadline watched 8) (\<lambda>request_id.
     rd_bind (read_until deadline watched 4) (\<lambda>payload_len.
     rd_bind (rd_check (be_value payload_len \<le> MAX_SUPERVISOR_FRAME_PAYLOAD)
                ''supervisor frame payload is too large'') (\<lambda>_.
     rd_bind (read_until deadline watched (be_value payload_len)) (\<lambda>payload.
     rd_result (Inr \<lparr>sf_kind = kind, sf_request_id = u64_from_be_bytes request_id,
                     sf_payload = payload\<rparr>)))))))))))"

definition read_frame_with_deadline ::
  "frame_direction \<Rightarrow> instant option \<Rightarrow> bool \<Rightarrow> supervisor_frame reader" where
  "read_frame_with_deadline expected deadline watched =
     rd_bind (read_until deadline watched 4)
       (\<lambda>magic. read_frame_with_magic expected magic deadline watched)"

definition read_frame :: "frame_direction \<Rightarrow> instant \<Rightarrow> supervisor_frame reader" where
  "read_frame expected deadline = read_frame_with_deadline expected (Some deadline) False"

text \<open>
  \<open>read_frame_after_first_byte\<close>: the argument \<open>started\<close> is the clock after the first byte.
\<close>

definition read_frame_after_first_byte ::
  "frame_direction \<Rightarrow> instant option \<Rightarrow> instant option \<Rightarrow> bool \<Rightarrow> instant \<Rightarrow> supervisor_frame reader"
  where
  "read_frame_after_first_byte expected first_byte_deadline assembly_deadline watched started =
     rd_bind (read_until first_byte_deadline watched 1) (\<lambda>first.
       let assembly = (case assembly_deadline of
                         Some at \<Rightarrow> at
                       | None \<Rightarrow> (case checked_add_instant started SUPERVISOR_FRAME_TIMEOUT of
                                   Some at \<Rightarrow> at | None \<Rightarrow> started))
       in rd_bind (read_until (Some assembly) watched 3) (\<lambda>rest.
            read_frame_with_magic expected (first @ rest) (Some assembly) watched))"

definition duplicate_truncated :: io_error where
  "duplicate_truncated = invalid_data ''truncated duplicate supervisor frame''"

definition eof_or_timeout :: "io_error \<Rightarrow> bool" where
  "eof_or_timeout error = (io_kind error = EkUnexpectedEof \<or> io_kind error = EkTimedOut)"

definition read_optional_frame_until ::
  "frame_direction \<Rightarrow> instant \<Rightarrow> supervisor_frame option reader" where
  "read_optional_frame_until expected deadline cs =
     (case read_until (Some deadline) False 1 cs of
        (None, cs) \<Rightarrow> (None, cs)
      | (Some (Inl error), cs) \<Rightarrow>
          (Some (if eof_or_timeout error then Inr None else Inl error), cs)
      | (Some (Inr first), cs) \<Rightarrow>
          (case rd_bind (read_until (Some deadline) False 3)
                  (\<lambda>rest. read_frame_with_magic expected (first @ rest) (Some deadline) False) cs of
             (None, cs) \<Rightarrow> (None, cs)
           | (Some (Inl error), cs) \<Rightarrow>
               (Some (Inl (if eof_or_timeout error then duplicate_truncated else error)), cs)
           | (Some (Inr frame), cs) \<Rightarrow> (Some (Inr (Some frame)), cs)))"

section \<open>Writing\<close>

text \<open>\<open>check_write_conditions\<close> on one reading of the cancellation and the clock.\<close>

definition check_write_conditions ::
  "instant option \<Rightarrow> bool \<Rightarrow> bool \<times> instant \<Rightarrow> unit io_result" where
  "check_write_conditions deadline watched reading =
     (if watched \<and> fst reading then Inl cancelled_error
      else if due deadline (snd reading) then Inl deadline_error
      else Inr ())"

text \<open>One turn of \<open>poll_writable\<close>: the reading, the clock for the timeout, the answer of \<^verbatim>\<open>poll\<close>.\<close>

datatype poll_answer =
    PollFailed io_error | PollTimeout | PollInvalid | PollHangup io_error | PollWritable | PollOther

definition poll_wait :: "instant option \<Rightarrow> bool \<Rightarrow> instant \<Rightarrow> duration option" where
  "poll_wait deadline watched now =
     (case (map_option (\<lambda>at. saturating_duration_since at now) deadline, watched) of
        (Some remaining, True) \<Rightarrow> Some (min remaining (millis 10))
      | (Some remaining, False) \<Rightarrow> Some remaining
      | (None, True) \<Rightarrow> Some (millis 10)
      | (None, False) \<Rightarrow> None)"

definition duration_to_poll_timeout_ms :: "duration \<Rightarrow> int" where
  "duration_to_poll_timeout_ms d =
     (let round_up = (if (d mod ns_per_sec) mod 10 ^ 6 = 0 then 0 else 1)
      in int (min (d div 10 ^ 6 + round_up) (2 ^ 31 - 1)))"

definition poll_timeout :: "instant option \<Rightarrow> bool \<Rightarrow> instant \<Rightarrow> int" where
  "poll_timeout deadline watched now =
     (case poll_wait deadline watched now of
        None \<Rightarrow> - 1 | Some d \<Rightarrow> duration_to_poll_timeout_ms d)"

fun poll_writable ::
  "instant option \<Rightarrow> bool \<Rightarrow> ((bool \<times> instant) \<times> poll_answer) list \<Rightarrow> unit io_result option" where
  "poll_writable deadline watched [] = None"
| "poll_writable deadline watched ((reading, answer) # turns) =
     (case check_write_conditions deadline watched reading of
        Inl error \<Rightarrow> Some (Inl error)
      | Inr _ \<Rightarrow>
          (case answer of
             PollFailed error \<Rightarrow>
               (if io_kind error = EkInterrupted then poll_writable deadline watched turns
                else Some (Inl error))
           | PollTimeout \<Rightarrow> poll_writable deadline watched turns
           | PollInvalid \<Rightarrow> Some (Inl (IoError (EkOs 9) []))
           | PollHangup error \<Rightarrow> Some (Inl error)
           | PollWritable \<Rightarrow> Some (Inr ())
           | PollOther \<Rightarrow> poll_writable deadline watched turns))"

text \<open>
  One iteration of \<open>write_until\<close>: the check before \<^verbatim>\<open>send\<close>, its answer (the bytes the kernel
  could take), the check after it, and the poll that follows a full socket buffer. The last
  call of a completed write is its final check.
\<close>

record write_call =
  wc_before :: "bool \<times> instant"
  wc_sent :: "nat io_result"
  wc_after :: "bool \<times> instant"
  wc_poll :: "((bool \<times> instant) \<times> poll_answer) list"

text \<open>Yields what was transmitted, the result (\<open>None\<close>: still waiting) and the calls left.\<close>

fun write_until ::
  "instant option \<Rightarrow> bool \<Rightarrow> bytes \<Rightarrow> write_call list
   \<Rightarrow> bytes \<times> unit io_result option \<times> write_call list" where
  "write_until deadline watched data [] = ([], None, [])"
| "write_until deadline watched data (c # cs) =
     (case check_write_conditions deadline watched (wc_before c) of
        Inl error \<Rightarrow> ([], Some (Inl error), cs)
      | Inr _ \<Rightarrow>
          if data = [] then ([], Some (Inr ()), cs)
          else case wc_sent c of
                 Inr count \<Rightarrow>
                   if count = 0
                   then ([], Some (Inl (IoError EkWriteZero ''failed to write supervisor frame'')), cs)
                   else let n = min count (length data)
                        in (case check_write_conditions deadline watched (wc_after c) of
                              Inl error \<Rightarrow> (take n data, Some (Inl error), cs)
                            | Inr _ \<Rightarrow>
                                (case write_until deadline watched (drop n data) cs of
                                   (sent, r, cs) \<Rightarrow> (take n data @ sent, r, cs)))
               | Inl error \<Rightarrow>
                   if io_kind error = EkInterrupted then write_until deadline watched data cs
                   else if io_kind error = EkWouldBlock
                   then (case poll_writable deadline watched (wc_poll c) of
                           None \<Rightarrow> ([], None, cs)
                         | Some (Inl e) \<Rightarrow> ([], Some (Inl e), cs)
                         | Some (Inr _) \<Rightarrow> write_until deadline watched data cs)
                   else ([], Some (Inl error), cs))"

text \<open>
  \<open>write_frame_until\<close>: the bytes transmitted, the result, and whether the socket was shut down.
\<close>

definition write_frame_until ::
  "supervisor_frame \<Rightarrow> instant option \<Rightarrow> bool \<Rightarrow> write_call list
   \<Rightarrow> bytes \<times> unit io_result option \<times> bool" where
  "write_frame_until frame deadline watched cs =
     (if MAX_SUPERVISOR_FRAME_PAYLOAD < length (sf_payload frame)
      then ([], Some (Inl (invalid_data ''supervisor frame payload is too large'')), False)
      else case encode_header frame of
             Inl error \<Rightarrow> ([], Some (Inl error), False)
           | Inr header \<Rightarrow>
               (case write_until deadline watched header cs of
                  (sent, Some (Inr _), cs) \<Rightarrow>
                    (case write_until deadline watched (sf_payload frame) cs of
                       (sent2, r, cs) \<Rightarrow>
                         (sent @ sent2, r, (case r of Some (Inl _) \<Rightarrow> True | _ \<Rightarrow> False)))
                | (sent, Some (Inl error), cs) \<Rightarrow> (sent, Some (Inl error), True)
                | (sent, None, cs) \<Rightarrow> (sent, None, False)))"

section \<open>Reading a frame, any fragmentation\<close>

text \<open>The bytes the kernel will deliver in the calls, and calls that do deliver.\<close>

definition call_bytes :: "read_call \<Rightarrow> bytes" where
  "call_bytes c = (case rc_answer c of Inr block \<Rightarrow> block | Inl _ \<Rightarrow> [])"

definition delivered :: "read_call list \<Rightarrow> bytes" where
  "delivered cs = concat (map call_bytes cs)"

lemma delivered_simps [simp]:
  "delivered [] = []" "delivered (c # cs) = call_bytes c @ delivered cs"
  by (simp_all add: delivered_def)

definition good_call :: "instant option \<Rightarrow> bool \<Rightarrow> read_call \<Rightarrow> bool" where
  "good_call deadline watched c =
     (\<not> (watched \<and> rc_cancelled c) \<and> \<not> due deadline (rc_now c) \<and> rc_set_timeout c = Inr ()
      \<and> (case rc_answer c of
           Inr block \<Rightarrow> block \<noteq> []
         | Inl error \<Rightarrow>
             io_kind error = EkInterrupted
             \<or> ((io_kind error = EkTimedOut \<or> io_kind error = EkWouldBlock)
                \<and> \<not> (watched \<and> rc_cancelled_after c) \<and> \<not> due deadline (rc_now_after c))))"

lemma read_until_zero [simp]: "read_until deadline watched 0 cs = (Some (Inr []), cs)"
  by (cases cs) simp_all

lemma read_until_good:
  "\<forall>c \<in> set cs. good_call deadline watched c \<Longrightarrow> n \<le> length (delivered cs) \<Longrightarrow>
   \<exists>cs'. read_until deadline watched n cs = (Some (Inr (take n (delivered cs))), cs')
     \<and> delivered cs' = drop n (delivered cs) \<and> (\<forall>c \<in> set cs'. good_call deadline watched c)"
proof (induction cs arbitrary: n)
  case Nil
  then show ?case by simp
next
  case (Cons c cs)
  show ?case
  proof (cases "n = 0")
    case True
    with Cons.prems show ?thesis by simp
  next
    case False
    have g: "good_call deadline watched c" and gs: "\<forall>c \<in> set cs. good_call deadline watched c"
      using Cons.prems(1) by simp_all
    show ?thesis
    proof (cases "rc_answer c")
      case (Inl error)
      with g False have "read_until deadline watched n (c # cs) = read_until deadline watched n cs"
        by (auto simp: good_call_def)
      moreover have "n \<le> length (delivered cs)"
        using Cons.prems(2) Inl by (simp add: call_bytes_def)
      ultimately show ?thesis
        using Cons.IH [OF gs] Inl by (simp add: call_bytes_def)
    next
      case (Inr block)
      have ne: "block \<noteq> []" using g Inr by (simp add: good_call_def)
      show ?thesis
      proof (cases "n < length block")
        case True
        then have "good_call deadline watched (c\<lparr>rc_answer := Inr (drop n block)\<rparr>)"
          using g by (simp add: good_call_def)
        with g gs True Inr False ne show ?thesis
          by (auto simp: good_call_def call_bytes_def)
      next
        case big: False
        then have "n - length block \<le> length (delivered cs)"
          using Cons.prems(2) Inr by (simp add: call_bytes_def)
        from Cons.IH [OF gs this] obtain cs' where
          "read_until deadline watched (n - length block) cs
             = (Some (Inr (take (n - length block) (delivered cs))), cs')"
          "delivered cs' = drop (n - length block) (delivered cs)"
          "\<forall>c \<in> set cs'. good_call deadline watched c" by blast
        with g big Inr False ne show ?thesis
          by (auto simp: good_call_def call_bytes_def)
      qed
    qed
  qed
qed

lemma read_until_sound:
  "read_until deadline watched n cs = (Some (Inr out), cs') \<Longrightarrow>
   length out = n \<and> delivered cs = out @ delivered cs'"
proof (induction cs arbitrary: n out cs')
  case Nil
  then show ?case by (simp split: if_splits)
next
  case (Cons c cs)
  show ?case
  proof (cases "n = 0")
    case True
    with Cons.prems show ?thesis by simp
  next
    case False
    with Cons.prems have s: "rc_set_timeout c = Inr ()"
      by (auto split: if_splits sum.splits)
    show ?thesis
    proof (cases "rc_answer c")
      case (Inl error)
      with Cons.prems False s have "read_until deadline watched n cs = (Some (Inr out), cs')"
        by (auto split: if_splits)
      with Cons.IH Inl show ?thesis by (simp add: call_bytes_def)
    next
      case (Inr block)
      show ?thesis
      proof (cases "n < length block")
        case True
        with Cons.prems False s Inr show ?thesis
          by (auto simp: call_bytes_def split: if_splits)
      next
        case big: False
        obtain r cs1 where r: "read_until deadline watched (n - length block) cs = (r, cs1)"
          by fastforce
        with Cons.prems False s Inr big obtain bs where bs: "r = Some (Inr bs)" "out = block @ bs"
          "cs' = cs1"
          by (auto simp: bind_res_Inr split: if_splits)
        with Cons.IH r have "length bs = n - length block \<and> delivered cs = bs @ delivered cs'"
          by blast
        with Inr big bs show ?thesis by (simp add: call_bytes_def)
      qed
    qed
  qed
qed

lemma rd_bind_result [simp]:
  "rd_bind (rd_result (Inr x)) f cs = f x cs"
  "rd_bind (rd_result (Inl e)) f cs = (Some (Inl e), cs)"
  by (simp_all add: rd_bind_def rd_result_def)

lemma rd_check_simps [simp]: "rd_check True m = rd_result (Inr ())"
  "rd_check False m = rd_result (Inl (invalid_data m))"
  by (simp_all add: rd_check_def)

text \<open>The bytes of a frame on the wire.\<close>

definition frame_bytes :: "supervisor_frame \<Rightarrow> bytes" where
  "frame_bytes frame =
     SUPERVISOR_MAGIC @ [SUPERVISOR_VERSION, kind_to_byte (sf_kind frame)]
     @ u64_to_be_bytes (sf_request_id frame) @ be_bytes 4 (length (sf_payload frame))
     @ sf_payload frame"

definition frame_wf :: "supervisor_frame \<Rightarrow> bool" where
  "frame_wf frame = (length (sf_payload frame) \<le> MAX_SUPERVISOR_FRAME_PAYLOAD)"

lemma frame_new_wf: "frame_new kind rid payload = Inr frame \<Longrightarrow> frame_wf frame"
  by (auto simp: frame_new_def frame_wf_def split: if_splits)

lemma encode_header_bytes:
  "frame_wf frame \<Longrightarrow> \<exists>header. encode_header frame = Inr header \<and> header @ sf_payload frame = frame_bytes frame"
  by (simp add: encode_header_def frame_bytes_def frame_wf_def MAX_SUPERVISOR_FRAME_PAYLOAD_def)

lemma length_magic [simp]: "length SUPERVISOR_MAGIC = 4"
  by (simp add: SUPERVISOR_MAGIC_def str_bytes_def)

lemma be_length_payload:
  "frame_wf frame \<Longrightarrow> be_value (be_bytes 4 (length (sf_payload frame))) = length (sf_payload frame)"
  by (simp add: be_value_bytes frame_wf_def MAX_SUPERVISOR_FRAME_PAYLOAD_def)

lemma u64_from_to: "u64_from_be_bytes (u64_to_be_bytes x) = x"
  using u64_codec.dec_enc [of x] by (simp add: u64_decode_def split: if_splits)

lemma read_with_magic_good:
  assumes good: "\<forall>c \<in> set cs. good_call deadline watched c" and wf: "frame_wf frame"
    and dir: "kind_direction (sf_kind frame) = expected"
    and del: "SUPERVISOR_MAGIC @ delivered cs = frame_bytes frame @ rest"
  shows "\<exists>cs'. read_frame_with_magic expected SUPERVISOR_MAGIC deadline watched cs = (Some (Inr frame), cs')
    \<and> delivered cs' = rest \<and> (\<forall>c \<in> set cs'. good_call deadline watched c)"
proof -
  let ?id = "u64_to_be_bytes (sf_request_id frame)"
  let ?len = "be_bytes 4 (length (sf_payload frame))"
  have d: "delivered cs = [SUPERVISOR_VERSION] @ [kind_to_byte (sf_kind frame)] @ ?id @ ?len
      @ sf_payload frame @ rest"
    using del by (simp add: frame_bytes_def)
  obtain c1 where c1:
    "\<And>f :: bytes \<Rightarrow> supervisor_frame reader. rd_bind (read_until deadline watched 1) f cs = f [SUPERVISOR_VERSION] c1"
    "delivered c1 = [kind_to_byte (sf_kind frame)] @ ?id @ ?len @ sf_payload frame @ rest"
    "\<forall>c \<in> set c1. good_call deadline watched c"
    using read_until_good [OF good, of 1] d by (auto simp: rd_bind_def)
  obtain c2 where c2:
    "\<And>f :: bytes \<Rightarrow> supervisor_frame reader. rd_bind (read_until deadline watched 1) f c1 = f [kind_to_byte (sf_kind frame)] c2"
    "delivered c2 = ?id @ ?len @ sf_payload frame @ rest"
    "\<forall>c \<in> set c2. good_call deadline watched c"
    using read_until_good [OF c1(3), of 1] c1(2) by (auto simp: rd_bind_def)
  obtain c3 where c3:
    "\<And>f :: bytes \<Rightarrow> supervisor_frame reader. rd_bind (read_until deadline watched 8) f c2 = f ?id c3"
    "delivered c3 = ?len @ sf_payload frame @ rest"
    "\<forall>c \<in> set c3. good_call deadline watched c"
    using read_until_good [OF c2(3), of 8] c2(2) u64_codec.enc_length
    by (auto simp: rd_bind_def)
  obtain c4 where c4:
    "\<And>f :: bytes \<Rightarrow> supervisor_frame reader. rd_bind (read_until deadline watched 4) f c3 = f ?len c4"
    "delivered c4 = sf_payload frame @ rest"
    "\<forall>c \<in> set c4. good_call deadline watched c"
    using read_until_good [OF c3(3), of 4] c3(2) by (auto simp: rd_bind_def)
  obtain c5 where c5:
    "\<And>f :: bytes \<Rightarrow> supervisor_frame reader. rd_bind (read_until deadline watched (length (sf_payload frame))) f c4 = f (sf_payload frame) c5"
    "delivered c5 = rest"
    "\<forall>c \<in> set c5. good_call deadline watched c"
    using read_until_good [OF c4(3), of "length (sf_payload frame)"] c4(2)
    by (auto simp: rd_bind_def)
  have le: "length (sf_payload frame) \<le> MAX_SUPERVISOR_FRAME_PAYLOAD"
    using wf by (simp add: frame_wf_def)
  have "read_frame_with_magic expected SUPERVISOR_MAGIC deadline watched cs = (Some (Inr frame), c5)"
    unfolding read_frame_with_magic_def
    by (simp add: c1(1) c2(1) c3(1) c4(1) c5(1) frame_kind_codec.dec_enc validate_direction_def dir
        be_length_payload [OF wf] le u64_from_to rd_result_def
        del: One_nat_def)
  with c5 show ?thesis by blast
qed

lemma read_frame_good:
  assumes "\<forall>c \<in> set cs. good_call deadline watched c"
    and "delivered cs = frame_bytes frame @ rest"
    and "frame_wf frame" and "kind_direction (sf_kind frame) = expected"
  shows "\<exists>cs'. read_frame_with_deadline expected deadline watched cs = (Some (Inr frame), cs')
    \<and> delivered cs' = rest"
proof -
  have "4 \<le> length (delivered cs)" using assms(2) by (simp add: frame_bytes_def)
  from read_until_good [OF assms(1) this] obtain c1 where c1:
    "read_until deadline watched 4 cs = (Some (Inr (take 4 (delivered cs))), c1)"
    "delivered c1 = drop 4 (delivered cs)" "\<forall>c \<in> set c1. good_call deadline watched c" by blast
  have magic: "take 4 (delivered cs) = SUPERVISOR_MAGIC"
    using assms(2) by (simp add: frame_bytes_def)
  then have "SUPERVISOR_MAGIC @ delivered c1 = frame_bytes frame @ rest"
    using c1(2) assms(2) by (metis append_take_drop_id)
  from read_with_magic_good [OF c1(3) assms(3,4) this] show ?thesis
    using c1(1) magic by (auto simp: read_frame_with_deadline_def rd_bind_def)
qed

text \<open>
  C32: However the bytes of a well-formed frame are cut into reads (with interrupted and
  timed-out reads in between), the frame reader returns exactly that frame and leaves the
  bytes after it unread.
\<close>

theorem frame_roundtrip_any_fragmentation:
  assumes "\<forall>c \<in> set cs. good_call deadline watched c"
    and "delivered cs = frame_bytes frame @ rest"
    and "frame_wf frame" and "kind_direction (sf_kind frame) = expected"
  shows "\<exists>cs'. read_frame_with_deadline expected deadline watched cs = (Some (Inr frame), cs')
    \<and> delivered cs' = rest"
  by (rule read_frame_good) (fact assms)+

lemma rd_bind_Inr:
  "rd_bind m f cs = (Some (Inr y), cs') \<longleftrightarrow>
   (\<exists>x c1. m cs = (Some (Inr x), c1) \<and> f x c1 = (Some (Inr y), cs'))"
  by (auto simp: rd_bind_def split: prod.splits option.splits sum.splits)

lemma kind_from_byte_Some: "kind_from_byte b = Some k \<longleftrightarrow> b = kind_to_byte k"
  by (cases k) (auto simp: kind_from_byte_def split: if_splits)

lemma rd_check_Inr: "rd_check ok m cs = (Some (Inr u), cs') \<longleftrightarrow> ok \<and> cs' = cs"
  by (auto simp: rd_check_def rd_result_def)

text \<open>Nothing else is ever accepted: a frame that is returned was on the wire, byte for byte.\<close>

lemma read_frame_sound:
  assumes "read_frame_with_deadline expected deadline watched cs = (Some (Inr frame), cs')"
  shows "delivered cs = frame_bytes frame @ delivered cs' \<and> frame_wf frame
    \<and> kind_direction (sf_kind frame) = expected"
proof -
  from assms obtain magic c0 where m: "read_until deadline watched 4 cs = (Some (Inr magic), c0)"
    and f: "read_frame_with_magic expected magic deadline watched c0 = (Some (Inr frame), cs')"
    by (auto simp: read_frame_with_deadline_def rd_bind_Inr)
  from f obtain version c1 kb c2 kind rid c3 len c4 payload where
    magic: "magic = SUPERVISOR_MAGIC"
    and r1: "read_until deadline watched 1 c0 = (Some (Inr version), c1)"
    and ver: "version = [SUPERVISOR_VERSION]"
    and r2: "read_until deadline watched 1 c1 = (Some (Inr kb), c2)"
    and kind: "kind_from_byte (hd kb) = Some kind"
    and dir: "kind_direction kind = expected"
    and r3: "read_until deadline watched 8 c2 = (Some (Inr rid), c3)"
    and r4: "read_until deadline watched 4 c3 = (Some (Inr len), c4)"
    and le: "be_value len \<le> MAX_SUPERVISOR_FRAME_PAYLOAD"
    and r5: "read_until deadline watched (be_value len) c4 = (Some (Inr payload), cs')"
    and frame: "frame = \<lparr>sf_kind = kind, sf_request_id = u64_from_be_bytes rid, sf_payload = payload\<rparr>"
    unfolding read_frame_with_magic_def rd_bind_Inr rd_check_Inr rd_result_def
    by (auto simp: validate_direction_def split: option.splits if_splits)
  note s0 = read_until_sound [OF m] and s1 = read_until_sound [OF r1] and s2 = read_until_sound [OF r2]
    and s3 = read_until_sound [OF r3] and s4 = read_until_sound [OF r4] and s5 = read_until_sound [OF r5]
  have kb: "kb = [kind_to_byte kind]"
    using s2 kind by (cases kb) (auto simp: kind_from_byte_Some)
  have "u64_to_be_bytes (u64_from_be_bytes rid) = rid"
    using s3 by (intro u64_to_from) simp
  moreover have "be_bytes 4 (length payload) = len"
    using s4 s5 be_bytes_value [of len] by simp
  ultimately have "delivered cs = frame_bytes frame @ delivered cs'"
    using s0 s1 s2 s3 s4 s5 magic ver kb by (simp add: frame frame_bytes_def)
  with s5 le dir show ?thesis by (simp add: frame frame_wf_def)
qed

text \<open>
  The frame reader accepts only the encoding of a well-formed frame of the expected direction,
  and consumes exactly its bytes.
\<close>

theorem read_frame_accepts_only_frames:
  assumes "read_frame_with_deadline expected deadline watched cs = (Some (Inr frame), cs')"
  shows "delivered cs = frame_bytes frame @ delivered cs' \<and> frame_wf frame
    \<and> kind_direction (sf_kind frame) = expected"
  by (rule read_frame_sound) (fact assms)

text \<open>A frame in two fragments, with an interruption between them.\<close>

definition sample_frame :: supervisor_frame where
  "sample_frame = \<lparr>sf_kind = FkHello, sf_request_id = 0, sf_payload = [7, 8]\<rparr>"

definition ok_call :: "bytes io_result \<Rightarrow> read_call" where
  "ok_call r = \<lparr>rc_cancelled = False, rc_now = 1, rc_set_timeout = Inr (), rc_answer = r,
     rc_cancelled_after = False, rc_now_after = 2\<rparr>"

definition sample_calls :: "read_call list" where
  "sample_calls = [ok_call (Inr (take 5 (frame_bytes sample_frame))),
     ok_call (Inl (IoError EkWouldBlock [])), ok_call (Inr (drop 5 (frame_bytes sample_frame) @ [9]))]"

lemma sample_calls_good:
  "\<forall>c \<in> set sample_calls. good_call (Some 10) True c"
  "delivered sample_calls = frame_bytes sample_frame @ [9]"
  "frame_wf sample_frame"
proof -
  have "length (frame_bytes sample_frame) = 20"
    by (simp add: frame_bytes_def sample_frame_def u64_codec.enc_length)
  then have "take 5 (frame_bytes sample_frame) \<noteq> []" by auto
  then show "\<forall>c \<in> set sample_calls. good_call (Some 10) True c"
    by (simp add: sample_calls_def good_call_def ok_call_def)
  show "delivered sample_calls = frame_bytes sample_frame @ [9]"
    by (simp add: sample_calls_def call_bytes_def ok_call_def flip: append_assoc)
  show "frame_wf sample_frame"
    by (simp add: frame_wf_def sample_frame_def MAX_SUPERVISOR_FRAME_PAYLOAD_def)
qed

theorem frame_roundtrip_any_fragmentation_witness:
  "\<exists>cs'. read_frame_with_deadline ChildToParent (Some 10) True sample_calls = (Some (Inr sample_frame), cs')
     \<and> delivered cs' = [9]"
  by (rule frame_roundtrip_any_fragmentation [OF sample_calls_good(1,2,3)])
     (simp add: sample_frame_def)

theorem read_frame_accepts_only_frames_witness:
  "\<exists>frame cs'. read_frame_with_deadline ChildToParent (Some 10) True sample_calls = (Some (Inr frame), cs')
     \<and> delivered sample_calls = frame_bytes frame @ delivered cs'"
proof -
  obtain cs' where r: "read_frame_with_deadline ChildToParent (Some 10) True sample_calls
      = (Some (Inr sample_frame), cs')"
    using read_frame_good [OF sample_calls_good, of ChildToParent] by (auto simp: sample_frame_def)
  from read_frame_accepts_only_frames [OF r] r show ?thesis by blast
qed

section \<open>Writing a frame\<close>

lemma write_until_prefix:
  "write_until deadline watched data cs = (sent, r, cs') \<Longrightarrow>
   (\<exists>rest. data = sent @ rest) \<and> (\<forall>u. r = Some (Inr u) \<longrightarrow> sent = data)"
proof (induction cs arbitrary: data sent r cs')
  case Nil
  then show ?case by simp
next
  case (Cons c cs)
  show ?case
  proof (cases "check_write_conditions deadline watched (wc_before c)")
    case (Inl error)
    with Cons.prems show ?thesis by auto
  next
    case (Inr u)
    show ?thesis
    proof (cases "data = []")
      case True
      with Cons.prems Inr show ?thesis by auto
    next
      case False
      show ?thesis
      proof (cases "wc_sent c")
        case (Inl error)
        show ?thesis
        proof (cases "write_until deadline watched data cs = (sent, r, cs')")
          case True
          then show ?thesis by (rule Cons.IH)
        next
          case other: False
          with Cons.prems Inr False Inl have "sent = [] \<and> (\<forall>u. r \<noteq> Some (Inr u))"
            by (auto split: if_splits option.splits sum.splits)
          then show ?thesis by simp
        qed
      next
        case inr2: (Inr count)
        let ?n = "min count (length data)"
        obtain s2 r2 cs2 where w: "write_until deadline watched (drop ?n data) cs = (s2, r2, cs2)"
          by (cases "write_until deadline watched (drop ?n data) cs") auto
        from Cons.IH [OF w] obtain rest where "drop ?n data = s2 @ rest"
          and full: "\<forall>u. r2 = Some (Inr u) \<longrightarrow> s2 = drop ?n data" by blast
        then have split: "data = take ?n data @ s2 @ rest"
          by (metis append_take_drop_id)
        show ?thesis
        proof (cases "count = 0")
          case True
          with Cons.prems Inr False inr2 show ?thesis by auto
        next
          case pos: False
          show ?thesis
          proof (cases "check_write_conditions deadline watched (wc_after c)")
            case (Inl e)
            with Cons.prems Inr False inr2 pos have s: "sent = take ?n data" "r = Some (Inl e)"
              by (simp_all add: Let_def)
            then have "data = sent @ drop ?n data" by simp
            with s show ?thesis by blast
          next
            case inr3: (Inr v)
            with Cons.prems Inr False inr2 pos w have s: "sent = take ?n data @ s2" "r = r2"
              by (simp_all add: Let_def)
            with split full show ?thesis by (metis append.assoc append_take_drop_id)
          qed
        qed
      qed
    qed
  qed
qed

lemma write_frame_sent:
  assumes wf: "frame_wf frame" and w: "write_frame_until frame deadline watched cs = (sent, r, shut)"
  shows "(\<exists>rest. frame_bytes frame = sent @ rest)
    \<and> (r = Some (Inr ()) \<longrightarrow> sent = frame_bytes frame)
    \<and> shut = (case r of Some (Inl error) \<Rightarrow> True | _ \<Rightarrow> False)"
proof -
  from encode_header_bytes [OF wf] obtain header where h: "encode_header frame = Inr header"
    "header @ sf_payload frame = frame_bytes frame" by blast
  have small: "\<not> MAX_SUPERVISOR_FRAME_PAYLOAD < length (sf_payload frame)"
    using wf by (simp add: frame_wf_def)
  obtain s1 r1 cs1 where w1: "write_until deadline watched header cs = (s1, r1, cs1)"
    by (cases "write_until deadline watched header cs") auto
  note p1 = write_until_prefix [OF w1]
  show ?thesis
  proof (cases r1)
    case None
    with w h small w1 have "sent = s1" "r = None" "\<not> shut" by (simp_all add: write_frame_until_def)
    with p1 h show ?thesis by (auto simp flip: h(2))
  next
    case (Some res)
    show ?thesis
    proof (cases res)
      case (Inl e)
      with Some w h small w1 have "sent = s1" "r = Some (Inl e)" "shut"
        by (simp_all add: write_frame_until_def)
      with p1 show ?thesis by (auto simp flip: h(2))
    next
      case (Inr u)
      obtain s2 r2 cs2 where w2: "write_until deadline watched (sf_payload frame) cs1 = (s2, r2, cs2)"
        by (cases "write_until deadline watched (sf_payload frame) cs1") auto
      note p2 = write_until_prefix [OF w2]
      from Inr Some w h small w1 w2 have s: "sent = s1 @ s2" "r = r2"
        "shut = (case r of Some (Inl _) \<Rightarrow> True | _ \<Rightarrow> False)"
        by (auto simp: write_frame_until_def)
      from p1 Some Inr have s1: "s1 = header" by simp
      obtain rest where rest: "sf_payload frame = s2 @ rest" using p2 by blast
      have a: "frame_bytes frame = sent @ rest" using s(1) s1 rest h(2) by (simp flip: h(2))
      have b: "r = Some (Inr ()) \<longrightarrow> sent = frame_bytes frame"
        using p2 s(1,2) s1 h(2) by simp
      have c: "shut = (case r of Some (Inl error) \<Rightarrow> True | _ \<Rightarrow> False)"
        by (rule s(3))
      show ?thesis using a b c by (intro conjI) blast+
    qed
  qed
qed

text \<open>
  C21: Writing a frame is all or nothing for the stream: either every byte was sent and the
  call succeeds, or it fails and the stream is shut down, so no later frame can follow a
  partial one; what was sent is a prefix of the frame.
\<close>

theorem write_frame_all_or_shutdown:
  assumes "frame_wf frame" and "write_frame_until frame deadline watched cs = (sent, Some r, shut)"
  shows "(\<exists>rest. frame_bytes frame = sent @ rest)
    \<and> (if shut then \<exists>error. r = Inl error else r = Inr () \<and> sent = frame_bytes frame)"
  using write_frame_sent [OF assms] by (cases r) auto

definition send_call :: "nat io_result \<Rightarrow> write_call" where
  "send_call r = \<lparr>wc_before = (False, 1), wc_sent = r, wc_after = (False, 1),
     wc_poll = [((False, 1), PollWritable)]\<rparr>"

definition sample_sends :: "write_call list" where
  "sample_sends = [send_call (Inr 7), send_call (Inl (IoError EkWouldBlock [])), send_call (Inr 100),
     send_call (Inr 0), send_call (Inr 100), send_call (Inr 0)]"

lemma write_sample:
  "\<exists>sent. write_frame_until sample_frame (Some 10) True sample_sends = (sent, Some (Inr ()), False)"
proof -
  have "length (u64_to_be_bytes 0) = 8" by (rule u64_codec.enc_length)
  then show ?thesis
    by (simp add: write_frame_until_def sample_frame_def sample_sends_def send_call_def
        encode_header_def check_write_conditions_def MAX_SUPERVISOR_FRAME_PAYLOAD_def)
qed

theorem write_frame_all_or_shutdown_witness:
  "\<exists>sent. write_frame_until sample_frame (Some 10) True sample_sends = (sent, Some (Inr ()), False)
     \<and> sent = frame_bytes sample_frame"
proof -
  from write_sample obtain sent where w:
    "write_frame_until sample_frame (Some 10) True sample_sends = (sent, Some (Inr ()), False)" by blast
  from write_frame_all_or_shutdown [OF sample_calls_good(3) w] w show ?thesis by simp
qed

text \<open>
  A frame that write_frame_until reports as sent is read back as the same frame by the peer,
  whatever short writes happened on one side and short reads on the other.
\<close>

theorem frame_written_is_frame_read:
  assumes "frame_wf frame" and "write_frame_until frame wd ww ws = (sent, Some (Inr ()), shut)"
    and "\<forall>c \<in> set cs. good_call rd rw c" and "delivered cs = sent @ rest"
  shows "\<exists>cs'. read_frame_with_deadline (kind_direction (sf_kind frame)) rd rw cs = (Some (Inr frame), cs')
    \<and> delivered cs' = rest"
proof -
  have "sent = frame_bytes frame"
    using write_frame_sent [OF assms(1,2)] by simp
  with assms show ?thesis by (intro read_frame_good) simp_all
qed

theorem frame_written_is_frame_read_witness:
  "\<exists>sent cs'. write_frame_until sample_frame (Some 10) True sample_sends = (sent, Some (Inr ()), False)
     \<and> read_frame_with_deadline ChildToParent (Some 10) True sample_calls = (Some (Inr sample_frame), cs')"
proof -
  from write_sample obtain sent where w:
    "write_frame_until sample_frame (Some 10) True sample_sends = (sent, Some (Inr ()), False)" by blast
  have "sent = frame_bytes sample_frame"
    using write_frame_sent [OF sample_calls_good(3) w] by simp
  then have "delivered sample_calls = sent @ [9]" using sample_calls_good(2) by simp
  from frame_written_is_frame_read [OF sample_calls_good(3) w sample_calls_good(1) this] w
  show ?thesis by (auto simp: sample_frame_def)
qed

text \<open>
  A poll never spins on a positive wait that rounds down to zero milliseconds, and never waits
  shorter than the remaining time unless the platform's limit cuts it.
\<close>

text \<open>
  The poll timeout of a wait is the wait rounded up to milliseconds and capped at the largest
  C int, and is zero only for a zero wait.
\<close>

theorem poll_timeout_rounds_up:
  "0 \<le> duration_to_poll_timeout_ms d \<and> duration_to_poll_timeout_ms d \<le> 2 ^ 31 - 1
   \<and> (duration_to_poll_timeout_ms d = 2 ^ 31 - 1 \<or> int d \<le> duration_to_poll_timeout_ms d * 10 ^ 6)
   \<and> (duration_to_poll_timeout_ms d = 0 \<longleftrightarrow> d = 0)"
proof -
  have m: "(d mod ns_per_sec) mod 10 ^ 6 = d mod 10 ^ 6"
    by (simp add: ns_per_sec_def mod_mod_cancel)
  define q where "q = d div 10 ^ 6"
  define r where "r = d mod 10 ^ 6"
  have d: "d = q * 10 ^ 6 + r" "r < 10 ^ 6"
    by (simp_all add: q_def r_def)
  have e: "duration_to_poll_timeout_ms d = int (min (q + (if r = 0 then 0 else 1)) (2 ^ 31 - 1))"
    using m by (simp add: duration_to_poll_timeout_ms_def Let_def q_def r_def)
  show ?thesis
    unfolding e using d by (cases "r = 0") (auto simp: min_def)
qed

end
