(* ===== verification/Ld_Session.thy ===== *)
theory Ld_Session
  imports Ld_Wire Ld_Task
begin

text \<open>
  The supervisor session (src/src/supervisor.rs and the session drivers of
  src/src/subprocess.rs): terminal payloads, the parent's and the child's protocol state, the
  shared cancellation, the child's control reader, and the outcome the child reports.
\<close>

section \<open>Terminal payloads\<close>

datatype supervisor_outcome = SoCompleted | SoFailed | SoCancelled | SoDeadline

record supervisor_terminal =
  st_outcome :: supervisor_outcome
  st_exit_code :: "int option"
  st_category :: "supervisor_failure_category option"
  st_stdout :: bytes
  st_stderr :: bytes
  st_truncated :: bool

fun category_summary :: "supervisor_failure_category \<Rightarrow> string" where
  "category_summary FcPermission = ''supervisor child permission failure''"
| "category_summary FcTimeout = ''supervisor session timed out''"
| "category_summary FcRuntime = ''supervisor child runtime failure''"
| "category_summary FcInfrastructure = ''supervisor infrastructure failure''"
| "category_summary FcChildCrash = ''supervisor child exited without a terminal result''"

definition terminal_fields_valid :: "supervisor_terminal \<Rightarrow> bool" where
  "terminal_fields_valid t =
     (case st_outcome t of
        SoCompleted \<Rightarrow> st_exit_code t \<noteq> None \<and> st_category t = None
      | SoFailed \<Rightarrow> st_exit_code t = None \<and>
          (case st_category t of
             Some FcPermission \<Rightarrow> True
           | Some FcRuntime \<Rightarrow> True
           | Some FcInfrastructure \<Rightarrow> True
           | _ \<Rightarrow> False)
      | SoCancelled \<Rightarrow> st_exit_code t = None \<and> st_category t = None
      | SoDeadline \<Rightarrow> st_exit_code t = None \<and> st_category t = None)"

definition validate_supervisor_terminal_shape :: "supervisor_terminal \<Rightarrow> unit io_result" where
  "validate_supervisor_terminal_shape t =
     (if \<not> terminal_fields_valid t
      then Inl (invalid_data ''invalid supervisor TERMINAL result fields'')
      else if st_stdout t \<noteq> [] \<or> st_stderr t \<noteq> [] \<or> st_truncated t
      then Inl (invalid_data ''supervisor v2 TERMINAL must not carry output'')
      else Inr ())"

section \<open>Payload formats\<close>

text \<open>
  \<^verbatim>\<open>serde_json::to_vec\<close> and \<^verbatim>\<open>serde_json::from_slice\<close> are not part of the repository: a format is
  a pair of functions, a parameter of everything that sends a payload.
\<close>

record 'a serde =
  sd_to_vec :: "'a \<Rightarrow> string + bytes"
  sd_from_slice :: "bytes \<Rightarrow> string + 'a"

definition encode_payload :: "'a serde \<Rightarrow> 'a \<Rightarrow> bytes io_result" where
  "encode_payload sd v =
     (case sd_to_vec sd v of
        Inl e \<Rightarrow> Inl (invalid_data (''invalid supervisor payload: '' @ e))
      | Inr payload \<Rightarrow>
          if MAX_SUPERVISOR_FRAME_PAYLOAD < length payload
          then Inl (invalid_data ''supervisor payload is too large'')
          else Inr payload)"

definition decode_payload :: "'a serde \<Rightarrow> bytes \<Rightarrow> 'a io_result" where
  "decode_payload sd payload =
     (if MAX_SUPERVISOR_FRAME_PAYLOAD < length payload
      then Inl (invalid_data ''supervisor payload is too large'')
      else case sd_from_slice sd payload of
        Inl e \<Rightarrow> Inl (invalid_data (''invalid supervisor payload: '' @ e))
      | Inr v \<Rightarrow> Inr v)"

text \<open>The formats of the two payloads the session itself decodes.\<close>

record formats =
  fm_terminal :: "supervisor_terminal serde"
  fm_reason :: "cancel_reason serde"

text \<open>
  What \<^verbatim>\<open>serde\<close> documents for derived implementations: serialising these values succeeds and
  deserialising gives the value back. A terminal without output fits a frame. An exit code is
  an \<^verbatim>\<open>i32\<close>.
\<close>

definition exit_code_in_range :: "supervisor_terminal \<Rightarrow> bool" where
  "exit_code_in_range t =
     (case st_exit_code t of None \<Rightarrow> True | Some c \<Rightarrow> - (2 ^ 31) \<le> c \<and> c < 2 ^ 31)"

definition serde_total :: "'a serde \<Rightarrow> 'a \<Rightarrow> bool" where
  "serde_total sd v =
     (case sd_to_vec sd v of
        Inl _ \<Rightarrow> False
      | Inr payload \<Rightarrow> length payload \<le> MAX_SUPERVISOR_FRAME_PAYLOAD \<and> sd_from_slice sd payload = Inr v)"

definition formats_ok :: "formats \<Rightarrow> bool" where
  "formats_ok fm \<longleftrightarrow>
     (\<forall>r. serde_total (fm_reason fm) r) \<and>
     (\<forall>t. validate_supervisor_terminal_shape t = Inr () \<and> exit_code_in_range t \<longrightarrow>
        serde_total (fm_terminal fm) t)"

lemma serde_total_payload:
  "serde_total sd v \<Longrightarrow>
   \<exists>payload. encode_payload sd v = Inr payload \<and> decode_payload sd payload = Inr v
     \<and> length payload \<le> MAX_SUPERVISOR_FRAME_PAYLOAD"
  by (cases "sd_to_vec sd v") (simp_all add: serde_total_def encode_payload_def decode_payload_def)

section \<open>Shared cancellation\<close>

record supervisor_cancellation =
  sx_context :: cancel_ctx
  sx_default :: cancel_reason

definition sx_new :: "cancel_ctx \<Rightarrow> cancel_reason \<Rightarrow> supervisor_cancellation" where
  "sx_new ctx reason = \<lparr>sx_context = ctx, sx_default = reason\<rparr>"

definition sx_is_requested :: "supervisor_cancellation \<Rightarrow> bool" where
  "sx_is_requested c = cc_requested (sx_context c)"

definition sx_request :: "cancel_reason \<Rightarrow> supervisor_cancellation \<Rightarrow> supervisor_cancellation" where
  "sx_request reason c = c\<lparr>sx_context := request_with_reason reason (sx_context c)\<rparr>"

definition sx_requested_reason :: "supervisor_cancellation \<Rightarrow> cancel_reason option" where
  "sx_requested_reason c = cc_reason (sx_context c)"

definition sx_reason :: "supervisor_cancellation \<Rightarrow> cancel_reason" where
  "sx_reason c = (case sx_requested_reason c of Some r \<Rightarrow> r | None \<Rightarrow> sx_default c)"

interpretation supervisor_cancellation_cell: first_wins sx_requested_reason sx_request
  by unfold_locales (simp_all add: sx_requested_reason_def sx_request_def get_or_insert_def)

section \<open>The parent's protocol state\<close>

datatype parent_state =
    PsAwaitHello | PsAwaitAccepted | PsAccepted | PsAwaitStarted | PsStarted
  | PsCancellingBeforeAccepted | PsCancellingBeforeStart | PsCancelling | PsTerminal

datatype frame_event = FeAccepted | FeStarted | FeTerminal

record parent_session =
  ps_request_id :: "64 word"
  ps_state :: parent_state
  ps_request_sent :: bool
  ps_cancel_sent :: bool
  ps_started_received :: bool
  ps_cancel_reason :: "cancel_reason option"
  ps_terminal :: "supervisor_terminal option"

definition parent_new :: "64 word \<Rightarrow> parent_session" where
  "parent_new request_id = \<lparr>ps_request_id = request_id, ps_state = PsAwaitHello,
     ps_request_sent = False, ps_cancel_sent = False, ps_started_received = False,
     ps_cancel_reason = None, ps_terminal = None\<rparr>"

definition cancellation_before_terminal :: "parent_session \<Rightarrow> cancel_reason option" where
  "cancellation_before_terminal s = (case ps_terminal s of None \<Rightarrow> None | Some _ \<Rightarrow> ps_cancel_reason s)"

definition accept_hello ::
  "supervisor_frame \<Rightarrow> supervisor_token \<Rightarrow> parent_session \<Rightarrow> unit io_result \<times> parent_session" where
  "accept_hello frame token s =
     (if ps_state s \<noteq> PsAwaitHello \<or> sf_kind frame \<noteq> FkHello \<or> sf_request_id frame \<noteq> 0
         \<or> \<not> token_authenticate token (sf_payload frame)
      then (Inl (invalid_data ''invalid supervisor HELLO''), s)
      else (Inr (), s\<lparr>ps_state := PsAwaitAccepted\<rparr>))"

definition send_request :: "parent_session \<Rightarrow> unit io_result \<times> parent_session" where
  "send_request s =
     (if ps_state s = PsAwaitAccepted \<and> \<not> ps_request_sent s
      then (Inr (), s\<lparr>ps_request_sent := True\<rparr>)
      else (Inl (invalid_data ''supervisor REQUEST is out of order''), s))"

definition record_cancel :: "cancel_reason \<Rightarrow> parent_session \<Rightarrow> bool io_result \<times> parent_session" where
  "record_cancel reason s = (Inr True, s\<lparr>ps_cancel_reason := Some reason, ps_cancel_sent := True\<rparr>)"

definition send_cancel :: "cancel_reason \<Rightarrow> parent_session \<Rightarrow> bool io_result \<times> parent_session" where
  "send_cancel reason s =
     (case ps_cancel_reason s of
        Some previous \<Rightarrow>
          if previous \<noteq> reason
          then (Inl (invalid_data ''conflicting supervisor cancellation reason''), s)
          else if ps_state s = PsTerminal \<or> ps_cancel_sent s then (Inr False, s)
          else (Inr True, s\<lparr>ps_cancel_sent := True\<rparr>)
      | None \<Rightarrow>
          (case ps_state s of
             PsAwaitAccepted \<Rightarrow> record_cancel reason (s\<lparr>ps_state := PsCancellingBeforeAccepted\<rparr>)
           | PsAccepted \<Rightarrow> record_cancel reason (s\<lparr>ps_state := PsCancellingBeforeStart\<rparr>)
           | PsAwaitStarted \<Rightarrow> record_cancel reason (s\<lparr>ps_state := PsCancelling\<rparr>)
           | PsStarted \<Rightarrow> record_cancel reason (s\<lparr>ps_state := PsCancelling\<rparr>)
           | PsCancellingBeforeAccepted \<Rightarrow> record_cancel reason s
           | PsCancellingBeforeStart \<Rightarrow> record_cancel reason s
           | PsCancelling \<Rightarrow> record_cancel reason s
           | PsTerminal \<Rightarrow> (Inr False, s)
           | PsAwaitHello \<Rightarrow> (Inl (invalid_data ''supervisor CANCEL is out of order''), s)))"

definition authorize_start ::
  "supervisor_cancellation \<Rightarrow> parent_session \<Rightarrow> bool io_result \<times> parent_session" where
  "authorize_start c s =
     (if ps_state s \<noteq> PsAccepted
      then (Inl (invalid_data ''supervisor START is out of order''), s)
      else case sx_requested_reason c of
        Some reason \<Rightarrow>
          (Inr False, s\<lparr>ps_state := PsCancellingBeforeStart, ps_cancel_reason := Some reason\<rparr>)
      | None \<Rightarrow> (Inr True, s\<lparr>ps_state := PsAwaitStarted\<rparr>))"

text \<open>The outcome a pre-start cancellation must have.\<close>

fun reason_outcome :: "cancel_reason \<Rightarrow> supervisor_outcome" where
  "reason_outcome CrDeadline = SoDeadline"
| "reason_outcome CrUser = SoCancelled"
| "reason_outcome CrShutdown = SoCancelled"

definition prestart_check :: "supervisor_terminal \<Rightarrow> parent_session \<Rightarrow> unit io_result" where
  "prestart_check t s =
     (if ps_state s = PsCancellingBeforeStart then
        (case ps_cancel_reason s of
           None \<Rightarrow> Inl (invalid_data ''pre-start supervisor cancellation has no reason'')
         | Some reason \<Rightarrow>
             if st_outcome t \<noteq> reason_outcome reason
             then Inl (invalid_data ''pre-start supervisor cancellation has an invalid outcome'')
             else Inr ())
      else Inr ())"

definition receive_terminal ::
  "supervisor_terminal \<Rightarrow> parent_session \<Rightarrow> frame_event io_result \<times> parent_session" where
  "receive_terminal t s =
     (case validate_supervisor_terminal_shape t of
        Inl e \<Rightarrow> (Inl e, s)
      | Inr _ \<Rightarrow>
          (case ps_terminal s of
             Some previous \<Rightarrow>
               if previous = t then (Inr FeTerminal, s)
               else (Inl (invalid_data ''conflicting supervisor TERMINAL frames''), s)
           | None \<Rightarrow>
               (case prestart_check t s of
                  Inl e \<Rightarrow> (Inl e, s)
                | Inr _ \<Rightarrow>
                    if ps_state s \<notin> {PsStarted, PsCancellingBeforeStart, PsCancelling}
                    then (Inl (invalid_data ''supervisor TERMINAL is out of order''), s)
                    else (Inr FeTerminal, s\<lparr>ps_terminal := Some t, ps_state := PsTerminal\<rparr>))))"

definition receive_child_frame ::
  "formats \<Rightarrow> supervisor_frame \<Rightarrow> parent_session \<Rightarrow> frame_event io_result \<times> parent_session" where
  "receive_child_frame fm frame s =
     (if sf_request_id frame \<noteq> ps_request_id s \<and> \<not> (sf_kind frame = FkHello \<and> sf_request_id frame = 0)
      then (Inl (invalid_data ''supervisor request ID mismatch''), s)
      else if sf_kind frame = FkAccepted \<and> sf_payload frame = [] then
        (case ps_state s of
           PsAwaitAccepted \<Rightarrow> (Inr FeAccepted, s\<lparr>ps_state := PsAccepted\<rparr>)
         | PsCancellingBeforeAccepted \<Rightarrow> (Inr FeAccepted, s\<lparr>ps_state := PsCancellingBeforeStart\<rparr>)
         | _ \<Rightarrow> (Inl (invalid_data ''duplicate or out-of-order supervisor ACCEPTED''), s))
      else if sf_kind frame = FkStarted \<and> sf_payload frame = [] then
        (if ps_state s = PsAwaitStarted
         then (Inr FeStarted, s\<lparr>ps_started_received := True, ps_state := PsStarted\<rparr>)
         else if ps_state s = PsCancelling \<and> \<not> ps_started_received s
         then (Inr FeStarted, s\<lparr>ps_started_received := True\<rparr>)
         else (Inl (invalid_data ''duplicate or out-of-order supervisor STARTED''), s))
      else if sf_kind frame = FkTerminal then
        (case decode_payload (fm_terminal fm) (sf_payload frame) of
           Inl e \<Rightarrow> (Inl e, s)
         | Inr t \<Rightarrow> receive_terminal t s)
      else (Inl (invalid_data ''invalid supervisor child frame''), s))"

section \<open>The child's protocol state\<close>

datatype child_state = ChAwaitRequest | ChAwaitStart | ChStarted | ChCancelling | ChTerminal

record child_session =
  ch_request_id :: "64 word option"
  ch_state :: child_state
  ch_cancel_reason :: "cancel_reason option"
  ch_terminal :: "supervisor_terminal option"

definition child_new :: child_session where
  "child_new = \<lparr>ch_request_id = None, ch_state = ChAwaitRequest, ch_cancel_reason = None,
     ch_terminal = None\<rparr>"

definition receive_parent_frame ::
  "formats \<Rightarrow> supervisor_frame \<Rightarrow> child_session \<Rightarrow> frame_event option io_result \<times> child_session" where
  "receive_parent_frame fm frame s =
     (if (case ch_request_id s of None \<Rightarrow> False | Some request_id \<Rightarrow> sf_request_id frame \<noteq> request_id)
      then (Inl (invalid_data ''supervisor request ID mismatch''), s)
      else if sf_kind frame = FkRequest \<and> ch_state s = ChAwaitRequest then
        (if sf_request_id frame = 0 then (Inl (invalid_data ''invalid supervisor request ID''), s)
         else (Inr None, s\<lparr>ch_request_id := Some (sf_request_id frame), ch_state := ChAwaitStart\<rparr>))
      else if sf_kind frame = FkStart \<and> ch_state s = ChAwaitStart \<and> sf_payload frame = [] then
        (Inr (Some FeStarted), s\<lparr>ch_state := ChStarted\<rparr>)
      else if sf_kind frame = FkCancel then
        (case decode_payload (fm_reason fm) (sf_payload frame) of
           Inl e \<Rightarrow> (Inl e, s)
         | Inr reason \<Rightarrow>
             (case ch_cancel_reason s of
                Some previous \<Rightarrow>
                  if previous \<noteq> reason
                  then (Inl (invalid_data ''conflicting supervisor cancellation reason''), s)
                  else (Inr None, s)
              | None \<Rightarrow>
                  if ch_state s \<notin> {ChAwaitStart, ChStarted, ChCancelling}
                  then (Inl (invalid_data ''supervisor CANCEL is out of order''), s)
                  else (Inr None, s\<lparr>ch_cancel_reason := Some reason, ch_state := ChCancelling\<rparr>)))
      else (Inl (invalid_data ''invalid supervisor parent frame''), s))"

definition child_mark_terminal ::
  "supervisor_terminal \<Rightarrow> child_session \<Rightarrow> bool io_result \<times> child_session" where
  "child_mark_terminal t s =
     (case validate_supervisor_terminal_shape t of
        Inl e \<Rightarrow> (Inl e, s)
      | Inr _ \<Rightarrow>
          (case ch_terminal s of
             Some previous \<Rightarrow>
               if previous = t then (Inr False, s)
               else (Inl (invalid_data ''conflicting supervisor TERMINAL frames''), s)
           | None \<Rightarrow>
               if ch_state s \<notin> {ChCancelling, ChStarted}
               then (Inl (invalid_data ''supervisor TERMINAL is out of order''), s)
               else (Inr True, s\<lparr>ch_terminal := Some t, ch_state := ChTerminal\<rparr>)))"

section \<open>Sessions against an arbitrary peer\<close>

text \<open>Every operation the parent's threads perform on the shared session, in any order.\<close>

datatype parent_op =
    PoHello supervisor_frame supervisor_token
  | PoRequest
  | PoCancel cancel_reason
  | PoAuthorize supervisor_cancellation
  | PoFrame supervisor_frame

fun parent_apply :: "formats \<Rightarrow> parent_op \<Rightarrow> parent_session \<Rightarrow> parent_session" where
  "parent_apply fm (PoHello frame token) s = snd (accept_hello frame token s)"
| "parent_apply fm PoRequest s = snd (send_request s)"
| "parent_apply fm (PoCancel reason) s = snd (send_cancel reason s)"
| "parent_apply fm (PoAuthorize c) s = snd (authorize_start c s)"
| "parent_apply fm (PoFrame frame) s = snd (receive_child_frame fm frame s)"

definition parent_run :: "formats \<Rightarrow> parent_op list \<Rightarrow> parent_session \<Rightarrow> parent_session" where
  "parent_run fm ops s = fold (parent_apply fm) ops s"

lemma parent_run_simps [simp]:
  "parent_run fm [] s = s"
  "parent_run fm (op # ops) s = parent_run fm ops (parent_apply fm op s)"
  by (simp_all add: parent_run_def)

lemma parent_run_invariant:
  "(\<And>op s. P s \<Longrightarrow> P (parent_apply fm op s)) \<Longrightarrow> P s \<Longrightarrow> P (parent_run fm ops s)"
  by (induction ops arbitrary: s) simp_all

lemmas parent_defs =
  accept_hello_def send_request_def send_cancel_def record_cancel_def authorize_start_def

text \<open>A terminal is stored exactly in the terminal state, and only a valid one is.\<close>

definition parent_inv :: "parent_session \<Rightarrow> bool" where
  "parent_inv s \<longleftrightarrow>
     (ps_terminal s \<noteq> None \<longleftrightarrow> ps_state s = PsTerminal) \<and>
     (\<forall>t. ps_terminal s = Some t \<longrightarrow> validate_supervisor_terminal_shape t = Inr ()) \<and>
     (ps_state s \<in> {PsCancellingBeforeAccepted, PsCancellingBeforeStart, PsCancelling} \<longrightarrow>
        ps_cancel_reason s \<noteq> None)"

lemma receive_terminal_cases:
  "receive_terminal t s = (r, s') \<Longrightarrow>
   (\<exists>e. r = Inl e \<and> s' = s)
   \<or> r = Inr FeTerminal \<and> s' = s \<and> ps_terminal s = Some t
   \<or> r = Inr FeTerminal \<and> s' = s\<lparr>ps_terminal := Some t, ps_state := PsTerminal\<rparr>
      \<and> ps_terminal s = None \<and> prestart_check t s = Inr ()
      \<and> validate_supervisor_terminal_shape t = Inr ()
      \<and> ps_state s \<in> {PsStarted, PsCancellingBeforeStart, PsCancelling}"
  unfolding receive_terminal_def
  by (cases "validate_supervisor_terminal_shape t"; cases "ps_terminal s"; cases "prestart_check t s")
    (auto split: if_splits)

lemma receive_child_frame_cases:
  assumes "receive_child_frame fm frame s = (r, s')"
  shows "(\<exists>e. r = Inl e \<and> s' = s)
    \<or> r = Inr FeAccepted \<and> ps_state s = PsAwaitAccepted \<and> s' = s\<lparr>ps_state := PsAccepted\<rparr>
    \<or> r = Inr FeAccepted \<and> ps_state s = PsCancellingBeforeAccepted
       \<and> s' = s\<lparr>ps_state := PsCancellingBeforeStart\<rparr>
    \<or> r = Inr FeStarted \<and> ps_state s = PsAwaitStarted
       \<and> s' = s\<lparr>ps_started_received := True, ps_state := PsStarted\<rparr>
    \<or> r = Inr FeStarted \<and> ps_state s = PsCancelling \<and> \<not> ps_started_received s
       \<and> s' = s\<lparr>ps_started_received := True\<rparr>
    \<or> (\<exists>t. decode_payload (fm_terminal fm) (sf_payload frame) = Inr t \<and> receive_terminal t s = (r, s'))"
proof -
  consider "sf_request_id frame \<noteq> ps_request_id s \<and> \<not> (sf_kind frame = FkHello \<and> sf_request_id frame = 0)"
    | "sf_kind frame = FkAccepted \<and> sf_payload frame = []"
    | "sf_kind frame = FkStarted \<and> sf_payload frame = []"
    | "sf_kind frame = FkTerminal"
    | "\<not> (sf_kind frame = FkAccepted \<and> sf_payload frame = [])"
      "\<not> (sf_kind frame = FkStarted \<and> sf_payload frame = [])" "sf_kind frame \<noteq> FkTerminal"
    by blast
  then show ?thesis
  proof cases
    case 1
    with assms show ?thesis unfolding receive_child_frame_def by auto
  next
    case 2
    with assms show ?thesis unfolding receive_child_frame_def
      by (cases "ps_state s") (auto split: if_splits)
  next
    case 3
    with assms show ?thesis unfolding receive_child_frame_def by (auto split: if_splits)
  next
    case 4
    with assms show ?thesis unfolding receive_child_frame_def
      by (cases "decode_payload (fm_terminal fm) (sf_payload frame)") (auto split: if_splits)
  next
    case 5
    have "\<exists>e. receive_child_frame fm frame s = (Inl e, s)"
      unfolding receive_child_frame_def if_not_P [OF 5(1)] if_not_P [OF 5(2)] if_not_P [OF 5(3)] by simp
    with assms show ?thesis by auto
  qed
qed

text \<open>What one operation can do to the session.\<close>

fun cancel_next :: "parent_state \<Rightarrow> parent_state" where
  "cancel_next PsAwaitAccepted = PsCancellingBeforeAccepted"
| "cancel_next PsAccepted = PsCancellingBeforeStart"
| "cancel_next PsAwaitStarted = PsCancelling"
| "cancel_next PsStarted = PsCancelling"
| "cancel_next s = s"

inductive parent_moves :: "parent_session \<Rightarrow> parent_session \<Rightarrow> bool" where
  mv_same: "parent_moves s s"
| mv_hello: "ps_state s = PsAwaitHello \<Longrightarrow> parent_moves s (s\<lparr>ps_state := PsAwaitAccepted\<rparr>)"
| mv_request: "parent_moves s (s\<lparr>ps_request_sent := True\<rparr>)"
| mv_resend: "ps_cancel_reason s \<noteq> None \<Longrightarrow> parent_moves s (s\<lparr>ps_cancel_sent := True\<rparr>)"
| mv_cancel: "ps_cancel_reason s = None \<Longrightarrow> ps_state s \<notin> {PsTerminal, PsAwaitHello} \<Longrightarrow>
    parent_moves s (s\<lparr>ps_state := cancel_next (ps_state s), ps_cancel_reason := Some reason,
      ps_cancel_sent := True\<rparr>)"
| mv_refuse: "ps_state s = PsAccepted \<Longrightarrow>
    parent_moves s (s\<lparr>ps_state := PsCancellingBeforeStart, ps_cancel_reason := Some reason\<rparr>)"
| mv_authorize: "ps_state s = PsAccepted \<Longrightarrow> parent_moves s (s\<lparr>ps_state := PsAwaitStarted\<rparr>)"
| mv_accepted: "ps_state s = PsAwaitAccepted \<Longrightarrow> parent_moves s (s\<lparr>ps_state := PsAccepted\<rparr>)"
| mv_accepted_cancelled: "ps_state s = PsCancellingBeforeAccepted \<Longrightarrow>
    parent_moves s (s\<lparr>ps_state := PsCancellingBeforeStart\<rparr>)"
| mv_started: "ps_state s = PsAwaitStarted \<Longrightarrow>
    parent_moves s (s\<lparr>ps_started_received := True, ps_state := PsStarted\<rparr>)"
| mv_started_cancelled: "ps_state s = PsCancelling \<Longrightarrow> \<not> ps_started_received s \<Longrightarrow>
    parent_moves s (s\<lparr>ps_started_received := True\<rparr>)"
| mv_terminal: "ps_terminal s = None \<Longrightarrow> prestart_check t s = Inr () \<Longrightarrow>
    validate_supervisor_terminal_shape t = Inr () \<Longrightarrow>
    ps_state s \<in> {PsStarted, PsCancellingBeforeStart, PsCancelling} \<Longrightarrow>
    parent_moves s (s\<lparr>ps_terminal := Some t, ps_state := PsTerminal\<rparr>)"

lemma send_cancel_fresh:
  "ps_cancel_reason s = None \<Longrightarrow> ps_state s \<notin> {PsTerminal, PsAwaitHello} \<Longrightarrow>
   send_cancel reason s = (Inr True, s\<lparr>ps_state := cancel_next (ps_state s),
     ps_cancel_reason := Some reason, ps_cancel_sent := True\<rparr>)"
  by (cases s; cases "ps_state s") (simp_all add: send_cancel_def record_cancel_def)

lemma send_cancel_moves: "parent_moves s (snd (send_cancel reason s))"
proof (cases "ps_cancel_reason s")
  case None
  show ?thesis
  proof (cases "ps_state s \<in> {PsTerminal, PsAwaitHello}")
    case True
    with None have "snd (send_cancel reason s) = s" by (auto simp: send_cancel_def)
    then show ?thesis by (simp add: mv_same)
  next
    case False
    with None show ?thesis by (simp only: send_cancel_fresh snd_conv mv_cancel not_False_eq_True)
  qed
next
  case (Some previous)
  then show ?thesis by (simp add: send_cancel_def mv_same mv_resend)
qed

lemma receive_terminal_moves: "parent_moves s (snd (receive_terminal t s))"
  using receive_terminal_cases [of t s "fst (receive_terminal t s)" "snd (receive_terminal t s)"]
  by (auto intro: mv_same mv_terminal)

lemma receive_child_frame_moves: "parent_moves s (snd (receive_child_frame fm frame s))"
proof -
  obtain r s' where f: "receive_child_frame fm frame s = (r, s')"
    by (cases "receive_child_frame fm frame s")
  have "parent_moves s s'" if "receive_terminal t s = (r, s')" for t
    using receive_terminal_moves [of s t] that by simp
  with receive_child_frame_cases [OF f] have "parent_moves s s'"
    by (elim disjE exE conjE) (simp_all add: parent_moves.intros)
  with f show ?thesis by simp
qed

lemma parent_apply_moves: "parent_moves s (parent_apply fm op s)"
proof (cases op)
  case (PoAuthorize c)
  then show ?thesis
    by (cases "sx_requested_reason c")
      (simp_all add: authorize_start_def mv_same mv_refuse mv_authorize)
qed (simp_all add: accept_hello_def send_request_def send_cancel_moves receive_child_frame_moves
      mv_same mv_hello mv_request)

lemma parent_inv_new [simp]: "parent_inv (parent_new request_id)"
  by (simp add: parent_inv_def parent_new_def)

lemma cancel_next_cases:
  "cancel_next st \<in> {PsCancellingBeforeAccepted, PsCancellingBeforeStart, PsCancelling} \<or> cancel_next st = st"
  by (cases st) simp_all

lemma cancel_next_terminal [simp]: "cancel_next st = PsTerminal \<longleftrightarrow> st = PsTerminal"
  by (cases st) simp_all

lemma cancel_next_started: "st \<in> {PsStarted, PsCancelling} \<Longrightarrow> cancel_next st = PsCancelling"
  by auto

lemma parent_moves_inv: "parent_moves s s' \<Longrightarrow> parent_inv s \<Longrightarrow> parent_inv s'"
  by (induction rule: parent_moves.induct) (auto simp: parent_inv_def)

lemma parent_inv_apply: "parent_inv s \<Longrightarrow> parent_inv (parent_apply fm op s)"
  using parent_apply_moves [of s fm op] by (rule parent_moves_inv)

lemma parent_inv_run: "parent_inv s \<Longrightarrow> parent_inv (parent_run fm ops s)"
  by (rule parent_run_invariant) (rule parent_inv_apply)

text \<open>
  Once the parent session has stored a terminal it has a valid shape, and no further operation
  or frame changes it or the cancellation reason that preceded it.
\<close>

theorem session_terminal_is_final:
  assumes "ps_terminal (parent_run fm before (parent_new request_id)) = Some t"
  shows "ps_terminal (parent_run fm (before @ after) (parent_new request_id)) = Some t
    \<and> cancellation_before_terminal (parent_run fm (before @ after) (parent_new request_id))
        = cancellation_before_terminal (parent_run fm before (parent_new request_id))
    \<and> validate_supervisor_terminal_shape t = Inr ()"
proof -
  let ?s = "parent_run fm before (parent_new request_id)"
  let ?P = "\<lambda>s. parent_inv s \<and> ps_terminal s = Some t \<and> ps_cancel_reason s = ps_cancel_reason ?s"
  have "?P s'" if "parent_moves s s'" "?P s" for s s'
    using that parent_moves_inv [OF that(1)]
    by (cases rule: parent_moves.cases) (auto simp: parent_inv_def)
  then have "?P (parent_apply fm op s)" if "?P s" for op s
    using that parent_apply_moves by blast
  moreover have "?P ?s" using assms parent_inv_run [OF parent_inv_new] by blast
  ultimately have "?P (parent_run fm after ?s)" by (rule parent_run_invariant)
  moreover have "parent_run fm (before @ after) (parent_new request_id) = parent_run fm after ?s"
    by (simp add: parent_run_def)
  ultimately show ?thesis
    using assms by (auto simp: parent_inv_def cancellation_before_terminal_def)
qed

text \<open>Cancelled before START: no STARTED is ever accepted, and the terminal must say so.\<close>

definition prestart_cancelled :: "cancel_reason \<Rightarrow> parent_session \<Rightarrow> bool" where
  "prestart_cancelled reason s \<longleftrightarrow>
     ps_state s \<in> {PsCancellingBeforeStart, PsTerminal} \<and> \<not> ps_started_received s \<and>
     ps_cancel_reason s = Some reason \<and>
     (case ps_terminal s of
        None \<Rightarrow> ps_state s = PsCancellingBeforeStart
      | Some t \<Rightarrow> ps_state s = PsTerminal \<and> st_outcome t = reason_outcome reason)"

lemma prestart_cancelled_apply:
  "prestart_cancelled reason s \<Longrightarrow> prestart_cancelled reason (parent_apply fm op s)"
  using parent_apply_moves [of s fm op]
  by (cases rule: parent_moves.cases)
    (auto simp: prestart_cancelled_def prestart_check_def split: option.splits if_splits)

lemma authorize_refused:
  "authorize_start c s = (Inr False, s') \<Longrightarrow> parent_inv s \<Longrightarrow> \<not> ps_started_received s \<Longrightarrow>
   \<exists>reason. sx_requested_reason c = Some reason \<and> prestart_cancelled reason s'"
  by (auto simp: authorize_start_def prestart_cancelled_def parent_inv_def
      split: if_splits option.splits)

definition started_state :: "parent_session \<Rightarrow> bool" where
  "started_state s \<longleftrightarrow> (ps_started_received s \<longrightarrow> ps_state s \<in> {PsStarted, PsCancelling, PsTerminal})"

lemma started_state_apply: "started_state s \<Longrightarrow> started_state (parent_apply fm op s)"
  using parent_apply_moves [of s fm op]
  by (cases rule: parent_moves.cases) (auto simp: started_state_def)

lemma started_state_run: "started_state (parent_run fm ops (parent_new request_id))"
  by (rule parent_run_invariant, rule started_state_apply)
    (simp_all add: started_state_def parent_new_def)

text \<open>
  If the parent session refuses START because cancellation came first, then whatever frames
  and calls follow, STARTED is never accepted, the reason stays, and any accepted terminal
  carries the outcome of that reason.
\<close>

theorem session_refused_start_is_never_started:
  assumes "authorize_start c (parent_run fm before (parent_new request_id)) = (Inr False, s')"
  shows "\<exists>reason. sx_requested_reason c = Some reason
    \<and> \<not> ps_started_received (parent_run fm after s')
    \<and> ps_cancel_reason (parent_run fm after s') = Some reason
    \<and> (\<forall>t. ps_terminal (parent_run fm after s') = Some t \<longrightarrow>
         st_outcome t = reason_outcome reason
         \<and> cancellation_before_terminal (parent_run fm after s') = Some reason)"
proof -
  let ?s = "parent_run fm before (parent_new request_id)"
  have "ps_state ?s = PsAccepted"
    using assms by (auto simp: authorize_start_def split: if_splits)
  then have "\<not> ps_started_received ?s"
    using started_state_run [of fm before request_id] by (auto simp: started_state_def)
  with authorize_refused [OF assms parent_inv_run [OF parent_inv_new]]
  obtain reason where r: "sx_requested_reason c = Some reason" "prestart_cancelled reason s'"
    by blast
  have "prestart_cancelled reason (parent_run fm after s')"
    using r(2) by (rule parent_run_invariant [rotated]) (rule prestart_cancelled_apply)
  with r(1) show ?thesis
    by (auto simp: prestart_cancelled_def cancellation_before_terminal_def)
qed

section \<open>A concrete pair of formats\<close>

text \<open>Byte formats that satisfy \<open>formats_ok\<close>; the checks of the theorems below run on them.\<close>

definition plain_terminal :: "supervisor_outcome \<Rightarrow> int option \<Rightarrow> supervisor_failure_category option
    \<Rightarrow> supervisor_terminal" where
  "plain_terminal outcome code category = \<lparr>st_outcome = outcome, st_exit_code = code,
     st_category = category, st_stdout = [], st_stderr = [], st_truncated = False\<rparr>"

fun category_byte :: "supervisor_failure_category \<Rightarrow> byte" where
  "category_byte FcPermission = 0"
| "category_byte FcRuntime = 1"
| "category_byte _ = 2"

definition sample_terminal_bytes :: "supervisor_terminal \<Rightarrow> bytes" where
  "sample_terminal_bytes t =
     (case st_outcome t of
        SoCompleted \<Rightarrow> 0 # be_bytes 4 (nat (the (st_exit_code t) + 2 ^ 31))
      | SoFailed \<Rightarrow> [1, category_byte (the (st_category t))]
      | SoCancelled \<Rightarrow> [2]
      | SoDeadline \<Rightarrow> [3])"

fun sample_terminal_parse :: "bytes \<Rightarrow> supervisor_terminal" where
  "sample_terminal_parse (b # rest) =
     (if b = 0 then plain_terminal SoCompleted (Some (int (be_value rest) - 2 ^ 31)) None
      else if b = 1 then plain_terminal SoFailed None
        (Some (if rest = [0] then FcPermission else if rest = [1] then FcRuntime else FcInfrastructure))
      else if b = 2 then plain_terminal SoCancelled None None
      else plain_terminal SoDeadline None None)"
| "sample_terminal_parse [] = plain_terminal SoDeadline None None"

fun reason_byte :: "cancel_reason \<Rightarrow> byte" where
  "reason_byte CrUser = 0"
| "reason_byte CrDeadline = 1"
| "reason_byte CrShutdown = 2"

definition sample_formats :: formats where
  "sample_formats = \<lparr>
     fm_terminal = \<lparr>sd_to_vec = (\<lambda>t. Inr (sample_terminal_bytes t)),
       sd_from_slice = (\<lambda>bs. Inr (sample_terminal_parse bs))\<rparr>,
     fm_reason = \<lparr>sd_to_vec = (\<lambda>r. Inr [reason_byte r]),
       sd_from_slice = (\<lambda>bs. if bs = [0] then Inr CrUser else if bs = [1] then Inr CrDeadline
         else if bs = [2] then Inr CrShutdown else Inl ''unknown reason'')\<rparr>\<rparr>"

lemma plain_terminal_shape:
  assumes "validate_supervisor_terminal_shape t = Inr ()"
  shows "t = plain_terminal (st_outcome t) (st_exit_code t) (st_category t)" "terminal_fields_valid t"
  using assms by (cases t; simp add: validate_supervisor_terminal_shape_def plain_terminal_def
      split: if_splits)+

lemma sample_terminal_roundtrip:
  assumes shape: "validate_supervisor_terminal_shape t = Inr ()" and range: "exit_code_in_range t"
  shows "sample_terminal_parse (sample_terminal_bytes t) = t"
    "length (sample_terminal_bytes t) \<le> MAX_SUPERVISOR_FRAME_PAYLOAD"
proof -
  note plain = plain_terminal_shape [OF shape]
  show "length (sample_terminal_bytes t) \<le> MAX_SUPERVISOR_FRAME_PAYLOAD"
    by (cases "st_outcome t") (simp_all add: sample_terminal_bytes_def MAX_SUPERVISOR_FRAME_PAYLOAD_def)
  show "sample_terminal_parse (sample_terminal_bytes t) = t"
  proof (cases "st_outcome t")
    case SoCompleted
    with plain(2) obtain c where c: "st_exit_code t = Some c" "st_category t = None"
      by (auto simp: terminal_fields_valid_def)
    with range have "0 \<le> c + 2 ^ 31" "c + 2 ^ 31 < 256 ^ 4" by (simp_all add: exit_code_in_range_def)
    then have "nat (c + 2 ^ 31) < 256 ^ 4" by (simp add: nat_less_iff)
    with \<open>0 \<le> c + 2 ^ 31\<close> have "int (be_value (be_bytes 4 (nat (c + 2 ^ 31)))) = c + 2 ^ 31"
      unfolding be_value_bytes by (simp only: mod_less nat_0_le)
    moreover have "sample_terminal_parse (sample_terminal_bytes t) =
        plain_terminal SoCompleted (Some (int (be_value (be_bytes 4 (nat (c + 2 ^ 31)))) - 2 ^ 31)) None"
      unfolding sample_terminal_bytes_def SoCompleted c(1) by simp
    ultimately show ?thesis using plain(1) SoCompleted c by simp
  next
    case SoFailed
    with plain(2) obtain k where "st_exit_code t = None" "st_category t = Some k"
        "k \<in> {FcPermission, FcRuntime, FcInfrastructure}"
      by (auto simp: terminal_fields_valid_def split: option.splits supervisor_failure_category.splits)
    with plain(1) SoFailed show ?thesis by (auto simp: sample_terminal_bytes_def)
  next
    case SoCancelled
    with plain show ?thesis by (simp add: sample_terminal_bytes_def terminal_fields_valid_def)
  next
    case SoDeadline
    with plain show ?thesis by (simp add: sample_terminal_bytes_def terminal_fields_valid_def)
  qed
qed

lemma sample_formats_ok: "formats_ok sample_formats"
proof -
  have "serde_total (fm_reason sample_formats) r" for r
    by (cases r) (simp_all add: serde_total_def sample_formats_def MAX_SUPERVISOR_FRAME_PAYLOAD_def)
  moreover have "serde_total (fm_terminal sample_formats) t"
    if "validate_supervisor_terminal_shape t = Inr ()" "exit_code_in_range t" for t
    using sample_terminal_roundtrip [OF that] by (simp add: serde_total_def sample_formats_def)
  ultimately show ?thesis by (simp add: formats_ok_def)
qed

text \<open>A parent session up to its terminal: hello, request, accepted, authorised, started, finished.\<close>

definition sample_token :: supervisor_token where
  "sample_token = map word_of_nat [0..<16]"

definition plain_frame :: "frame_kind \<Rightarrow> 64 word \<Rightarrow> bytes \<Rightarrow> supervisor_frame" where
  "plain_frame kind request_id payload = \<lparr>sf_kind = kind, sf_request_id = request_id, sf_payload = payload\<rparr>"

definition sample_handshake :: "parent_op list" where
  "sample_handshake = [PoHello (plain_frame FkHello 0 sample_token) sample_token, PoRequest,
     PoFrame (plain_frame FkAccepted 1 [])]"

definition sample_finish :: "parent_op list" where
  "sample_finish = [PoAuthorize (sx_new cancel_ctx_new CrUser), PoFrame (plain_frame FkStarted 1 []),
     PoFrame (plain_frame FkTerminal 1 (sample_terminal_bytes (plain_terminal SoCancelled None None)))]"

lemma sample_handshake_run:
  "ps_state (parent_run fm sample_handshake (parent_new 1)) = PsAccepted"
  by (simp add: sample_handshake_def accept_hello_def parent_new_def plain_frame_def
      token_authenticate_iff send_request_def receive_child_frame_def)

lemma sample_finish_run:
  "ps_terminal (parent_run sample_formats (sample_handshake @ sample_finish) (parent_new 1)) =
   Some (plain_terminal SoCancelled None None)"
  by (simp add: sample_handshake_def sample_finish_def accept_hello_def parent_new_def plain_frame_def
      token_authenticate_iff send_request_def receive_child_frame_def authorize_start_def sx_new_def
      sx_requested_reason_def cancel_ctx_new_def decode_payload_def sample_formats_def
      sample_terminal_bytes_def plain_terminal_def receive_terminal_def
      validate_supervisor_terminal_shape_def terminal_fields_valid_def prestart_check_def
      MAX_SUPERVISOR_FRAME_PAYLOAD_def)

theorem session_terminal_is_final_witness:
  "ps_terminal (parent_run sample_formats ((sample_handshake @ sample_finish) @ [PoCancel CrShutdown])
     (parent_new 1)) = Some (plain_terminal SoCancelled None None)"
  using session_terminal_is_final [OF sample_finish_run, of "[PoCancel CrShutdown]"] by blast

theorem session_refused_start_is_never_started_witness:
  "\<not> ps_started_received (parent_run sample_formats [PoFrame (plain_frame FkStarted 1 [])]
      (snd (authorize_start (sx_new (request_with_reason CrDeadline cancel_ctx_new) CrUser)
        (parent_run sample_formats sample_handshake (parent_new 1)))))"
proof -
  let ?c = "sx_new (request_with_reason CrDeadline cancel_ctx_new) CrUser"
  let ?s = "parent_run sample_formats sample_handshake (parent_new 1)"
  have "fst (authorize_start ?c ?s) = Inr False"
    using sample_handshake_run [of sample_formats]
    by (simp add: authorize_start_def sx_requested_reason_def sx_new_def cancel_ctx_new_def get_or_insert_def)
  then have "authorize_start ?c ?s = (Inr False, snd (authorize_start ?c ?s))"
    by (simp add: prod_eq_iff)
  from session_refused_start_is_never_started [OF this] show ?thesis by blast
qed

section \<open>The child's start barrier\<close>

definition child_run :: "formats \<Rightarrow> supervisor_frame list \<Rightarrow> child_session" where
  "child_run fm frames = fold (\<lambda>frame s. snd (receive_parent_frame fm frame s)) frames child_new"

definition frames_opened :: "supervisor_frame list \<Rightarrow> 64 word \<Rightarrow> bool" where
  "frames_opened frames request_id \<longleftrightarrow>
     (\<exists>pre req post. frames = pre @ req # post \<and> sf_kind req = FkRequest
        \<and> sf_request_id req = request_id \<and> request_id \<noteq> 0)"

definition frames_started :: "supervisor_frame list \<Rightarrow> 64 word \<Rightarrow> bool" where
  "frames_started frames request_id \<longleftrightarrow>
     (\<exists>pre req mid start post. frames = pre @ req # mid @ start # post \<and> sf_kind req = FkRequest
        \<and> sf_request_id req = request_id \<and> request_id \<noteq> 0 \<and> sf_kind start = FkStart
        \<and> sf_payload start = [] \<and> sf_request_id start = request_id)"

lemma child_run_snoc:
  "child_run fm (frames @ [frame]) = snd (receive_parent_frame fm frame (child_run fm frames))"
  by (simp add: child_run_def)

lemma frames_opened_snoc: "frames_opened frames i \<Longrightarrow> frames_opened (frames @ [frame]) i"
  unfolding frames_opened_def by (metis append.assoc append_Cons)

lemma frames_started_snoc: "frames_started frames i \<Longrightarrow> frames_started (frames @ [frame]) i"
  unfolding frames_started_def by (metis append.assoc append_Cons)

lemma frames_started_now:
  "frames_opened frames i \<Longrightarrow> sf_kind frame = FkStart \<Longrightarrow> sf_payload frame = [] \<Longrightarrow>
   sf_request_id frame = i \<Longrightarrow> frames_started (frames @ [frame]) i"
  unfolding frames_opened_def frames_started_def by (metis append.assoc append_Cons)

inductive child_moves :: "supervisor_frame \<Rightarrow> child_session \<Rightarrow> child_session \<Rightarrow> bool" where
  cm_same: "child_moves frame s s"
| cm_request: "ch_state s = ChAwaitRequest \<Longrightarrow> sf_kind frame = FkRequest \<Longrightarrow> sf_request_id frame \<noteq> 0 \<Longrightarrow>
    child_moves frame s (s\<lparr>ch_request_id := Some (sf_request_id frame), ch_state := ChAwaitStart\<rparr>)"
| cm_start: "ch_state s = ChAwaitStart \<Longrightarrow> sf_kind frame = FkStart \<Longrightarrow> sf_payload frame = [] \<Longrightarrow>
    \<forall>i. ch_request_id s = Some i \<longrightarrow> sf_request_id frame = i \<Longrightarrow>
    child_moves frame s (s\<lparr>ch_state := ChStarted\<rparr>)"
| cm_cancel: "ch_cancel_reason s = None \<Longrightarrow> ch_state s \<in> {ChAwaitStart, ChStarted, ChCancelling} \<Longrightarrow>
    child_moves frame s (s\<lparr>ch_cancel_reason := Some reason, ch_state := ChCancelling\<rparr>)"

lemma receive_cancel_moves:
  assumes "sf_kind frame = FkCancel"
  shows "child_moves frame s (snd (receive_parent_frame fm frame s))"
proof (cases "decode_payload (fm_reason fm) (sf_payload frame)")
  case (Inl e)
  with assms have "snd (receive_parent_frame fm frame s) = s"
    by (simp add: receive_parent_frame_def)
  then show ?thesis by (simp add: cm_same)
next
  case (Inr reason)
  with assms show ?thesis
    by (cases "ch_cancel_reason s") (simp_all add: receive_parent_frame_def cm_same cm_cancel)
qed

lemma receive_parent_frame_moves: "child_moves frame s (snd (receive_parent_frame fm frame s))"
proof (cases "sf_kind frame = FkCancel")
  case True
  then show ?thesis by (rule receive_cancel_moves)
next
  case False
  then show ?thesis
    by (auto simp: receive_parent_frame_def split: option.splits intro: child_moves.intros)
qed

definition child_inv :: "supervisor_frame list \<Rightarrow> child_session \<Rightarrow> bool" where
  "child_inv frames s \<longleftrightarrow>
     (case ch_request_id s of
        None \<Rightarrow> ch_state s = ChAwaitRequest \<and> ch_cancel_reason s = None
      | Some i \<Rightarrow> frames_opened frames i \<and>
          (ch_state s = ChAwaitStart \<and> ch_cancel_reason s = None \<or>
           ch_state s = ChStarted \<and> ch_cancel_reason s = None \<and> frames_started frames i \<or>
           ch_state s = ChCancelling \<and> ch_cancel_reason s \<noteq> None))"

lemma frames_opened_now:
  "sf_kind frame = FkRequest \<Longrightarrow> sf_request_id frame \<noteq> 0 \<Longrightarrow>
   frames_opened (frames @ [frame]) (sf_request_id frame)"
  unfolding frames_opened_def by blast

lemma child_inv_moves:
  "child_moves frame s s' \<Longrightarrow> child_inv frames s \<Longrightarrow> child_inv (frames @ [frame]) s'"
  by (cases rule: child_moves.cases, assumption)
    (auto simp: child_inv_def frames_opened_snoc frames_started_snoc frames_started_now
      frames_opened_now split: option.splits)

lemma child_inv_run: "child_inv frames (child_run fm frames)"
proof (induction frames rule: rev_induct)
  case Nil
  show ?case by (simp add: child_inv_def child_run_def child_new_def)
next
  case (snoc frame frames)
  then show ?case
    unfolding child_run_snoc by (rule child_inv_moves [OF receive_parent_frame_moves])
qed

lemma child_cancel_kept:
  "ch_cancel_reason (child_run fm before) \<noteq> None \<Longrightarrow> ch_cancel_reason (child_run fm (before @ after)) \<noteq> None"
proof (induction after rule: rev_induct)
  case Nil
  then show ?case by simp
next
  case (snoc frame frames)
  then have "ch_cancel_reason (child_run fm (before @ frames)) \<noteq> None" by simp
  with receive_parent_frame_moves [of frame "child_run fm (before @ frames)" fm]
  have "ch_cancel_reason (snd (receive_parent_frame fm frame (child_run fm (before @ frames)))) \<noteq> None"
    by (cases rule: child_moves.cases) simp_all
  then show ?case by (simp add: child_run_def)
qed

text \<open>
  The child session is in its Started state only after exactly an authenticated request and
  START with the same request id, with no cancellation in any prefix of the frames it
  received.
\<close>

theorem child_start_barrier:
  assumes "ch_state (child_run fm frames) = ChStarted"
  shows "\<exists>request_id. ch_request_id (child_run fm frames) = Some request_id
    \<and> frames_started frames request_id
    \<and> (\<forall>before after. frames = before @ after \<longrightarrow> ch_cancel_reason (child_run fm before) = None)"
proof -
  obtain i where i: "ch_request_id (child_run fm frames) = Some i" "frames_started frames i"
      "ch_cancel_reason (child_run fm frames) = None"
    using assms child_inv_run [of frames fm] by (auto simp: child_inv_def split: option.splits)
  with child_cancel_kept [of fm] show ?thesis by blast
qed

theorem child_start_barrier_witness:
  "\<exists>request_id. frames_started [plain_frame FkRequest 1 [], plain_frame FkStart 1 []] request_id"
proof -
  have "ch_state (child_run sample_formats [plain_frame FkRequest 1 [], plain_frame FkStart 1 []]) = ChStarted"
    by (simp add: child_run_def child_new_def receive_parent_frame_def plain_frame_def)
  from child_start_barrier [OF this] show ?thesis by blast
qed

end
