(* ===== verification/Ld_Supervision.thy ===== *)
theory Ld_Supervision
  imports Ld_Session
begin

text \<open>
  One supervised run as two processes (src/src/subprocess.rs): the parent that drives the
  session (\<open>drive_supervisor_session\<close>, its control worker, \<open>read_supervisor_terminal\<close>), the
  child (\<open>run_supervisor_child\<close>, its control reader, \<open>supervisor_child_exit\<close>), and the two
  byte streams between them as queues of frames. Every step is one call of the code; the
  threads interleave arbitrarily, and either side may fail at any moment (I/O error, timeout,
  crash, an undecodable REQUEST).
\<close>

section \<open>What the child reports\<close>

definition SUPERVISOR_REQUEST_ID :: "64 word" where
  "SUPERVISOR_REQUEST_ID = 1"

definition supervisor_error :: "string \<Rightarrow> libdeno_error" where
  "supervisor_error message = ErrRuntime message"

text \<open>
  \<open>is_permission_error\<close> searches the error chain of the runtime crates; it is a parameter.
\<close>

definition supervisor_child_failure_category ::
  "(libdeno_error \<Rightarrow> bool) \<Rightarrow> libdeno_error \<Rightarrow> supervisor_failure_category" where
  "supervisor_child_failure_category is_permission_error error =
     (if (case error of ErrPermission _ \<Rightarrow> True | _ \<Rightarrow> False) \<or> is_permission_error error
      then FcPermission
      else (case error of
              ErrConfiguration _ \<Rightarrow> FcInfrastructure
            | ErrIo _ \<Rightarrow> FcInfrastructure
            | _ \<Rightarrow> FcRuntime))"

definition child_outcome ::
  "(libdeno_error \<Rightarrow> bool) \<Rightarrow> supervisor_cancellation \<Rightarrow> int libdeno_result
   \<Rightarrow> supervisor_outcome \<times> int option \<times> supervisor_failure_category option" where
  "child_outcome is_permission_error cancellation runtime_result =
     (if sx_reason cancellation = CrDeadline then (SoDeadline, None, None)
      else if sx_is_requested cancellation then (SoCancelled, None, None)
      else (case runtime_result of
              Inr exit_code \<Rightarrow> (SoCompleted, Some exit_code, None)
            | Inl error \<Rightarrow>
                (case error of
                   ErrTimeout _ \<Rightarrow> (SoDeadline, None, None)
                 | _ \<Rightarrow> (SoFailed, None,
                         Some (supervisor_child_failure_category is_permission_error error)))))"

text \<open>
  \<open>supervisor_child_exit\<close>: the process exit code, the TERMINAL frame that is written, and the
  child's session afterwards.
\<close>

definition supervisor_child_exit ::
  "formats \<Rightarrow> supervisor_outcome \<Rightarrow> int option \<Rightarrow> supervisor_failure_category option \<Rightarrow> child_session
   \<Rightarrow> (int \<times> supervisor_frame) libdeno_result \<times> child_session" where
  "supervisor_child_exit fm outcome exit_code category state =
     (let t = \<lparr>st_outcome = outcome, st_exit_code = exit_code, st_category = category,
            st_stdout = [], st_stderr = [], st_truncated = False\<rparr>
      in case child_mark_terminal t state of
           (Inl e, state) \<Rightarrow> (Inl (ErrIo e), state)
         | (Inr _, state) \<Rightarrow>
             (case ch_request_id state of
                None \<Rightarrow> (Inl (supervisor_error ''supervisor child has no request ID''), state)
              | Some request_id \<Rightarrow>
                  (case encode_payload (fm_terminal fm) t of
                     Inl e \<Rightarrow> (Inl (ErrIo e), state)
                   | Inr payload \<Rightarrow>
                       (case frame_new FkTerminal request_id payload of
                          Inl e \<Rightarrow> (Inl (ErrIo e), state)
                        | Inr frame \<Rightarrow>
                            (Inr (case outcome of
                                    SoCompleted \<Rightarrow> (case exit_code of None \<Rightarrow> 1 | Some c \<Rightarrow> c)
                                  | _ \<Rightarrow> 1, frame), state)))))"

text \<open>One frame in the child's control reader; an error ends the reader.\<close>

definition child_control_frame ::
  "formats \<Rightarrow> 64 word \<Rightarrow> supervisor_frame \<Rightarrow> supervisor_cancellation
   \<Rightarrow> unit io_result \<times> supervisor_cancellation" where
  "child_control_frame fm request_id frame cancellation =
     (if sf_kind frame \<noteq> FkCancel \<or> sf_request_id frame \<noteq> request_id
      then (Inl (invalid_data ''invalid supervisor control frame after START''), cancellation)
      else (case decode_payload (fm_reason fm) (sf_payload frame) of
              Inl e \<Rightarrow> (Inl e, cancellation)
            | Inr reason \<Rightarrow>
                (let previous = sx_reason cancellation
                 in if sx_is_requested cancellation \<and> previous \<noteq> reason
                    then (Inl (invalid_data ''conflicting supervisor cancellation reason''), cancellation)
                    else (Inr (), sx_request reason cancellation))))"

section \<open>The two processes\<close>

datatype parent_phase =
    PpListen | PpHello | PpRequest | PpAccepted | PpAuthorize | PpStart | PpRead
  | PpGrace supervisor_terminal
  | PpDone supervisor_terminal "cancel_reason option"
  | PpRejected

datatype worker_phase = WkNone | WkWatching | WkGrace | WkFailed

datatype child_phase =
    CpHello | CpRequest | CpNext | CpStarting | CpRunning | CpExited int | CpRejected

text \<open>
  \<open>sy_down\<close> carries frames to the child and \<open>sy_up\<close> to the parent. \<open>sy_cancel\<close> is the parent's
  cancellation and \<open>sy_child_cancel\<close> the child's. \<open>sy_due\<close> says that the effective deadline of the run has
  passed. \<open>sy_authorized\<close> and \<open>sy_ran\<close> record that START
  was authorised and that user code was entered.
\<close>

record session_sys =
  sy_parent :: parent_session
  sy_pphase :: parent_phase
  sy_worker :: worker_phase
  sy_cancel :: supervisor_cancellation
  sy_due :: bool
  sy_down :: "supervisor_frame list"
  sy_up :: "supervisor_frame list"
  sy_child :: child_session
  sy_cphase :: child_phase
  sy_control :: bool
  sy_child_cancel :: supervisor_cancellation
  sy_authorized :: bool
  sy_ran :: bool
  sy_parent_failed :: bool
  sy_child_failed :: bool

definition session_start :: "supervisor_cancellation \<Rightarrow> session_sys" where
  "session_start cancellation = \<lparr>sy_parent = parent_new SUPERVISOR_REQUEST_ID, sy_pphase = PpListen,
     sy_worker = WkNone, sy_cancel = cancellation, sy_due = False, sy_down = [], sy_up = [], sy_child = child_new,
     sy_cphase = CpHello, sy_control = False, sy_child_cancel = sx_new cancel_ctx_new CrUser,
     sy_authorized = False, sy_ran = False, sy_parent_failed = False, sy_child_failed = False\<rparr>"

definition send_down :: "frame_kind \<Rightarrow> bytes \<Rightarrow> session_sys \<Rightarrow> session_sys" where
  "send_down kind payload s =
     (case frame_new kind SUPERVISOR_REQUEST_ID payload of
        Inl _ \<Rightarrow> s\<lparr>sy_parent_failed := True\<rparr>
      | Inr frame \<Rightarrow> s\<lparr>sy_down := sy_down s @ [frame]\<rparr>)"

definition send_up :: "frame_kind \<Rightarrow> 64 word \<Rightarrow> bytes \<Rightarrow> session_sys \<Rightarrow> session_sys" where
  "send_up kind request_id payload s =
     (case frame_new kind request_id payload of
        Inl _ \<Rightarrow> s\<lparr>sy_child_failed := True\<rparr>
      | Inr frame \<Rightarrow> s\<lparr>sy_up := sy_up s @ [frame]\<rparr>)"

text \<open>
  \<open>cancellation_reason_if_due\<close>, with the passing of the effective deadline as a flag
  (\<open>Ld_Supervised\<close> has it on the clock).
\<close>

definition cancel_if_due :: "bool \<Rightarrow> supervisor_cancellation \<Rightarrow> supervisor_cancellation" where
  "cancel_if_due deadline_passed c =
     (if sx_requested_reason c = None \<and> deadline_passed then sx_request CrDeadline c else c)"

text \<open>
  A read or write of the handshake (\<open>read_supervisor_handshake_frame\<close>, \<open>write_supervisor_frame\<close>). It
  is given the cancellation and is bounded by the effective deadline: it fails when a cancellation
  is requested, and when the deadline has passed it also requests the cancellation for the
  deadline. The session fails with it. What the frame functions do after the last byte (they look
  once more) is a failure in the step after this one, and so is the bound of each frame.
\<close>

definition handshake_io :: "(session_sys \<Rightarrow> session_sys) \<Rightarrow> session_sys \<Rightarrow> session_sys" where
  "handshake_io transfer s =
     (if sx_is_requested (sy_cancel s) then s\<lparr>sy_parent_failed := True\<rparr>
      else if sy_due s
      then s\<lparr>sy_cancel := cancel_if_due (sy_due s) (sy_cancel s), sy_parent_failed := True\<rparr>
      else transfer s)"

text \<open>
  The parent's main thread, \<open>drive_supervisor_session\<close>, call by call. Before it accepts a peer it
  looks at the cancellation and the deadline (\<open>Ld_Supervised.await_peer\<close> has the loop with its
  clock); the HELLO itself is read without looking at the cancellation. A session whose frame could
  not be transferred is dropped, so it is left as it was.
\<close>

definition parent_listen :: "session_sys \<Rightarrow> session_sys" where
  "parent_listen s =
     (if sx_is_requested (sy_cancel s) \<or> sy_due s then s\<lparr>sy_parent_failed := True\<rparr>
      else s\<lparr>sy_pphase := PpHello\<rparr>)"

definition parent_hello :: "supervisor_token \<Rightarrow> supervisor_frame \<Rightarrow> session_sys \<Rightarrow> session_sys" where
  "parent_hello token frame s =
     (case accept_hello frame token (sy_parent s) of
        (Inl _, p) \<Rightarrow> s\<lparr>sy_parent := p, sy_pphase := PpRejected\<rparr>
      | (Inr _, p) \<Rightarrow> s\<lparr>sy_parent := p, sy_pphase := PpRequest\<rparr>)"

definition parent_request :: "bytes \<Rightarrow> session_sys \<Rightarrow> session_sys" where
  "parent_request payload = handshake_io (\<lambda>s.
     case send_request (sy_parent s) of
        (Inl _, p) \<Rightarrow> s\<lparr>sy_parent := p, sy_pphase := PpRejected\<rparr>
      | (Inr _, p) \<Rightarrow> send_down FkRequest payload (s\<lparr>sy_parent := p, sy_pphase := PpAccepted\<rparr>))"

definition parent_accepted :: "formats \<Rightarrow> session_sys \<Rightarrow> session_sys" where
  "parent_accepted fm = handshake_io (\<lambda>s.
     case sy_up s of
        [] \<Rightarrow> s
      | frame # rest \<Rightarrow>
          (case receive_child_frame fm frame (sy_parent s) of
             (Inl _, p) \<Rightarrow> s\<lparr>sy_up := rest, sy_parent := p, sy_pphase := PpRejected\<rparr>
           | (Inr event, p) \<Rightarrow>
               s\<lparr>sy_up := rest, sy_parent := p,
                 sy_pphase := (if event = FeAccepted then PpAuthorize else PpRejected)\<rparr>))"

text \<open>
  \<open>send_supervisor_cancel\<close> and the body of the control worker: record the cancellation, and
  write a CANCEL frame when this was the call that recorded it.
\<close>

definition write_cancel :: "formats \<Rightarrow> cancel_reason \<Rightarrow> bool \<Rightarrow> session_sys \<Rightarrow> session_sys" where
  "write_cancel fm reason should_send s =
     (if should_send then
        (case encode_payload (fm_reason fm) reason of
           Inl _ \<Rightarrow> s\<lparr>sy_parent_failed := True\<rparr>
         | Inr payload \<Rightarrow> send_down FkCancel payload s)
      else s)"

definition parent_authorize :: "formats \<Rightarrow> session_sys \<Rightarrow> session_sys" where
  "parent_authorize fm s =
     (let s = s\<lparr>sy_cancel := cancel_if_due (sy_due s) (sy_cancel s)\<rparr>
      in case authorize_start (sy_cancel s) (sy_parent s) of
        (Inl _, p) \<Rightarrow> s\<lparr>sy_parent := p, sy_pphase := PpRejected\<rparr>
      | (Inr start_authorized, p) \<Rightarrow>
          if start_authorized
          then s\<lparr>sy_parent := p, sy_pphase := PpStart, sy_authorized := True\<rparr>
          else (let reason = sx_reason (sy_cancel s)
                in case send_cancel reason p of
                     (Inl _, p) \<Rightarrow> s\<lparr>sy_parent := p, sy_pphase := PpRejected\<rparr>
                   | (Inr should_send, p) \<Rightarrow>
                       write_cancel fm reason should_send (s\<lparr>sy_parent := p, sy_pphase := PpRead\<rparr>)))"

text \<open>The START frame is a frame of the handshake; the control worker is spawned once it is written.\<close>

definition parent_start :: "session_sys \<Rightarrow> session_sys" where
  "parent_start = handshake_io (\<lambda>s.
     send_down FkStart [] (s\<lparr>sy_pphase := PpRead, sy_worker := WkWatching\<rparr>))"

definition worker_cancel :: "formats \<Rightarrow> session_sys \<Rightarrow> session_sys" where
  "worker_cancel fm s =
     (let reason = sx_reason (sy_cancel s)
      in case send_cancel reason (sy_parent s) of
           (Inl _, p) \<Rightarrow> s\<lparr>sy_parent := p, sy_worker := WkFailed\<rparr>
         | (Inr should_send, p) \<Rightarrow>
             write_cancel fm reason should_send (s\<lparr>sy_parent := p, sy_worker := WkGrace\<rparr>))"

definition parent_read :: "formats \<Rightarrow> supervisor_frame \<Rightarrow> session_sys \<Rightarrow> session_sys" where
  "parent_read fm frame s =
     (case receive_child_frame fm frame (sy_parent s) of
        (Inl _, p) \<Rightarrow> s\<lparr>sy_parent := p, sy_pphase := PpRejected\<rparr>
      | (Inr FeTerminal, p) \<Rightarrow>
          (case ps_terminal p of
             Some t \<Rightarrow> s\<lparr>sy_parent := p, sy_pphase := PpGrace t\<rparr>
           | None \<Rightarrow> s\<lparr>sy_parent := p, sy_pphase := PpRejected\<rparr>)
      | (Inr _, p) \<Rightarrow> s\<lparr>sy_parent := p\<rparr>)"

text \<open>The duplicate window after TERMINAL.\<close>

definition parent_duplicate :: "formats \<Rightarrow> supervisor_frame \<Rightarrow> session_sys \<Rightarrow> session_sys" where
  "parent_duplicate fm frame s =
     (case receive_child_frame fm frame (sy_parent s) of
        (Inr FeTerminal, p) \<Rightarrow> s\<lparr>sy_parent := p\<rparr>
      | (_, p) \<Rightarrow> s\<lparr>sy_parent := p, sy_pphase := PpRejected\<rparr>)"

definition parent_finish :: "supervisor_terminal \<Rightarrow> session_sys \<Rightarrow> session_sys" where
  "parent_finish t s = s\<lparr>sy_pphase := PpDone t (cancellation_before_terminal (sy_parent s))\<rparr>"

text \<open>The child, \<open>run_supervisor_child\<close>, call by call.\<close>

definition child_hello :: "supervisor_token \<Rightarrow> session_sys \<Rightarrow> session_sys" where
  "child_hello token s = send_up FkHello 0 token (s\<lparr>sy_cphase := CpRequest\<rparr>)"

definition child_request :: "formats \<Rightarrow> supervisor_frame \<Rightarrow> session_sys \<Rightarrow> session_sys" where
  "child_request fm frame s =
     (case receive_parent_frame fm frame (sy_child s) of
        (Inl _, c) \<Rightarrow> s\<lparr>sy_child := c, sy_cphase := CpRejected\<rparr>
      | (Inr _, c) \<Rightarrow>
          (case ch_request_id c of
             None \<Rightarrow> s\<lparr>sy_child := c, sy_cphase := CpRejected\<rparr>
           | Some request_id \<Rightarrow> send_up FkAccepted request_id [] (s\<lparr>sy_child := c, sy_cphase := CpNext\<rparr>)))"

definition child_exit ::
  "formats \<Rightarrow> supervisor_outcome \<times> int option \<times> supervisor_failure_category option
   \<Rightarrow> session_sys \<Rightarrow> session_sys" where
  "child_exit fm result s =
     (case result of (outcome, exit_code, category) \<Rightarrow>
        (case supervisor_child_exit fm outcome exit_code category (sy_child s) of
           (Inl _, c) \<Rightarrow> s\<lparr>sy_child := c, sy_cphase := CpRejected\<rparr>
         | (Inr (code, frame), c) \<Rightarrow>
             s\<lparr>sy_child := c, sy_cphase := CpExited code, sy_up := sy_up s @ [frame]\<rparr>))"

definition child_next :: "formats \<Rightarrow> supervisor_frame \<Rightarrow> session_sys \<Rightarrow> session_sys" where
  "child_next fm frame s =
     (case receive_parent_frame fm frame (sy_child s) of
        (Inl _, c) \<Rightarrow> s\<lparr>sy_child := c, sy_cphase := CpRejected\<rparr>
      | (Inr event, c) \<Rightarrow>
          if sf_kind frame = FkCancel
          then (let reason = (case ch_cancel_reason c of Some r \<Rightarrow> r | None \<Rightarrow> CrUser)
                in child_exit fm (reason_outcome reason, None, None) (s\<lparr>sy_child := c\<rparr>))
          else if event \<noteq> Some FeStarted \<or> sf_kind frame \<noteq> FkStart
          then s\<lparr>sy_child := c, sy_cphase := CpRejected\<rparr>
          else s\<lparr>sy_child := c, sy_cphase := CpStarting, sy_control := True\<rparr>)"

definition child_started :: "session_sys \<Rightarrow> session_sys" where
  "child_started s =
     (case ch_request_id (sy_child s) of
        None \<Rightarrow> s\<lparr>sy_cphase := CpRejected\<rparr>
      | Some request_id \<Rightarrow>
          send_up FkStarted request_id [] (s\<lparr>sy_cphase := CpRunning, sy_ran := True\<rparr>))"

definition child_control :: "formats \<Rightarrow> supervisor_frame \<Rightarrow> session_sys \<Rightarrow> session_sys" where
  "child_control fm frame s =
     (case ch_request_id (sy_child s) of
        None \<Rightarrow> s
      | Some request_id \<Rightarrow>
          (case child_control_frame fm request_id frame (sy_child_cancel s) of
             (Inl _, c) \<Rightarrow> s\<lparr>sy_child_cancel := sx_request CrUser c, sy_control := False\<rparr>
           | (Inr _, c) \<Rightarrow> s\<lparr>sy_child_cancel := c\<rparr>))"

text \<open>The control reader sees the end of the stream: the parent is gone.\<close>

definition child_control_closed :: "session_sys \<Rightarrow> session_sys" where
  "child_control_closed s =
     s\<lparr>sy_child_cancel := sx_request CrUser (sy_child_cancel s), sy_control := False\<rparr>"

definition child_finish ::
  "formats \<Rightarrow> (libdeno_error \<Rightarrow> bool) \<Rightarrow> int libdeno_result \<Rightarrow> session_sys \<Rightarrow> session_sys" where
  "child_finish fm is_permission_error runtime_result s =
     child_exit fm (child_outcome is_permission_error (sy_child_cancel s) runtime_result)
       (s\<lparr>sy_control := False\<rparr>)"

section \<open>Interleaving\<close>

text \<open>What one run is given: the payload formats, the token, the encoded request, and the error test.\<close>

record session_env =
  se_formats :: formats
  se_token :: supervisor_token
  se_request :: bytes
  se_permission :: "libdeno_error \<Rightarrow> bool"

definition runtime_result_ok :: "int libdeno_result \<Rightarrow> bool" where
  "runtime_result_ok r = (case r of Inl _ \<Rightarrow> True | Inr c \<Rightarrow> - (2 ^ 31) \<le> c \<and> c < 2 ^ 31)"

inductive parent_step :: "session_env \<Rightarrow> session_sys \<Rightarrow> session_sys \<Rightarrow> bool" for env where
  ps_listen: "sy_pphase s = PpListen \<Longrightarrow> parent_step env s (parent_listen s)"
| ps_hello: "sy_pphase s = PpHello \<Longrightarrow> sy_up s = frame # rest \<Longrightarrow>
    parent_step env s (parent_hello (se_token env) frame (s\<lparr>sy_up := rest\<rparr>))"
| ps_request: "sy_pphase s = PpRequest \<Longrightarrow> parent_step env s (parent_request (se_request env) s)"
| ps_accepted: "sy_pphase s = PpAccepted \<Longrightarrow> sy_up s \<noteq> [] \<or> sx_is_requested (sy_cancel s) \<or> sy_due s \<Longrightarrow>
    parent_step env s (parent_accepted (se_formats env) s)"
| ps_authorize: "sy_pphase s = PpAuthorize \<Longrightarrow> parent_step env s (parent_authorize (se_formats env) s)"
| ps_start: "sy_pphase s = PpStart \<Longrightarrow> parent_step env s (parent_start s)"
| ps_worker: "sy_worker s = WkWatching \<Longrightarrow> sx_is_requested (sy_cancel s) \<Longrightarrow>
    (\<forall>t c. sy_pphase s \<noteq> PpDone t c) \<Longrightarrow> parent_step env s (worker_cancel (se_formats env) s)"
| ps_read: "sy_pphase s = PpRead \<Longrightarrow> sy_up s = frame # rest \<Longrightarrow>
    parent_step env s (parent_read (se_formats env) frame (s\<lparr>sy_up := rest\<rparr>))"
| ps_duplicate: "sy_pphase s = PpGrace t \<Longrightarrow> sy_up s = frame # rest \<Longrightarrow>
    parent_step env s (parent_duplicate (se_formats env) frame (s\<lparr>sy_up := rest\<rparr>))"
| ps_finish: "sy_pphase s = PpGrace t \<Longrightarrow> parent_step env s (parent_finish t s)"

inductive child_step :: "session_env \<Rightarrow> session_sys \<Rightarrow> session_sys \<Rightarrow> bool" for env where
  cs_hello: "sy_cphase s = CpHello \<Longrightarrow> child_step env s (child_hello (se_token env) s)"
| cs_request: "sy_cphase s = CpRequest \<Longrightarrow> sy_down s = frame # rest \<Longrightarrow>
    child_step env s (child_request (se_formats env) frame (s\<lparr>sy_down := rest\<rparr>))"
| cs_next: "sy_cphase s = CpNext \<Longrightarrow> sy_down s = frame # rest \<Longrightarrow>
    child_step env s (child_next (se_formats env) frame (s\<lparr>sy_down := rest\<rparr>))"
| cs_started: "sy_cphase s = CpStarting \<Longrightarrow> child_step env s (child_started s)"
| cs_control: "sy_control s \<Longrightarrow> sy_down s = frame # rest \<Longrightarrow>
    child_step env s (child_control (se_formats env) frame (s\<lparr>sy_down := rest\<rparr>))"
| cs_closed: "sy_control s \<Longrightarrow> sy_down s = [] \<Longrightarrow> sy_parent_failed s \<Longrightarrow>
    child_step env s (child_control_closed s)"
| cs_finish: "sy_cphase s = CpRunning \<Longrightarrow> runtime_result_ok result \<Longrightarrow>
    child_step env s (child_finish (se_formats env) (se_permission env) result s)"

text \<open>
  A failed side takes no further step. Any thread may request a cancellation, for any reason, at
  any time, and the effective deadline may pass at any time (the control worker's request for it is
  one of these requests).
\<close>

inductive session_step :: "session_env \<Rightarrow> session_sys \<Rightarrow> session_sys \<Rightarrow> bool" for env where
  ss_parent: "\<not> sy_parent_failed s \<Longrightarrow> parent_step env s t \<Longrightarrow> session_step env s t"
| ss_child: "\<not> sy_child_failed s \<Longrightarrow> child_step env s t \<Longrightarrow> session_step env s t"
| ss_cancel: "session_step env s (s\<lparr>sy_cancel := sx_request reason (sy_cancel s)\<rparr>)"
| ss_due: "session_step env s (s\<lparr>sy_due := True\<rparr>)"
| ss_parent_fails: "session_step env s (s\<lparr>sy_parent_failed := True\<rparr>)"
| ss_child_fails: "session_step env s (s\<lparr>sy_child_failed := True\<rparr>)"

definition sx_consistent :: "supervisor_cancellation \<Rightarrow> bool" where
  "sx_consistent c \<longleftrightarrow> (sx_is_requested c \<longleftrightarrow> sx_requested_reason c \<noteq> None)"

definition session_init :: "session_sys \<Rightarrow> bool" where
  "session_init s \<longleftrightarrow> (\<exists>c. sx_consistent c \<and> s = session_start c)"

definition env_ok :: "session_env \<Rightarrow> bool" where
  "env_ok env \<longleftrightarrow> formats_ok (se_formats env) \<and> token_wf (se_token env)
     \<and> length (se_request env) \<le> MAX_SUPERVISOR_FRAME_PAYLOAD"

section \<open>The invariant\<close>

definition cancel_frame :: "session_env \<Rightarrow> cancel_reason \<Rightarrow> supervisor_frame" where
  "cancel_frame env reason = plain_frame FkCancel SUPERVISOR_REQUEST_ID
     (case encode_payload (fm_reason (se_formats env)) reason of Inl _ \<Rightarrow> [] | Inr p \<Rightarrow> p)"

definition terminal_frame :: "session_env \<Rightarrow> supervisor_terminal \<Rightarrow> supervisor_frame" where
  "terminal_frame env t = plain_frame FkTerminal SUPERVISOR_REQUEST_ID
     (case encode_payload (fm_terminal (se_formats env)) t of Inl _ \<Rightarrow> [] | Inr p \<Rightarrow> p)"

text \<open>Everything the child has written so far, and how much of it the parent has read.\<close>

definition opening_frames :: "session_env \<Rightarrow> supervisor_frame list" where
  "opening_frames env = [plain_frame FkHello 0 (se_token env), plain_frame FkAccepted SUPERVISOR_REQUEST_ID []]"

definition started_frames :: "bool \<Rightarrow> supervisor_frame list" where
  "started_frames entered = (if entered then [plain_frame FkStarted SUPERVISOR_REQUEST_ID []] else [])"

fun sent_up :: "session_env \<Rightarrow> child_phase \<Rightarrow> bool \<Rightarrow> supervisor_terminal option \<Rightarrow> supervisor_frame list" where
  "sent_up env CpHello entered t = []"
| "sent_up env CpRequest entered t = [plain_frame FkHello 0 (se_token env)]"
| "sent_up env CpNext entered t = opening_frames env"
| "sent_up env CpStarting entered t = opening_frames env"
| "sent_up env CpRunning entered t = opening_frames env @ started_frames entered"
| "sent_up env (CpExited code) entered t =
     opening_frames env @ started_frames entered @ (case t of None \<Rightarrow> [] | Some t \<Rightarrow> [terminal_frame env t])"
| "sent_up env CpRejected entered t = []"

fun read_up :: "parent_phase \<Rightarrow> bool \<Rightarrow> nat" where
  "read_up PpListen started = 0"
| "read_up PpHello started = 0"
| "read_up PpRequest started = 1"
| "read_up PpAccepted started = 1"
| "read_up PpAuthorize started = 2"
| "read_up PpStart started = 2"
| "read_up PpRead started = (if started then 3 else 2)"
| "read_up (PpGrace t) started = (if started then 4 else 3)"
| "read_up (PpDone t c) started = (if started then 4 else 3)"
| "read_up PpRejected started = 0"

text \<open>Everything the parent has written so far, and how much of it the child's main thread has read.\<close>

definition sent_down :: "session_env \<Rightarrow> parent_phase \<Rightarrow> bool \<Rightarrow> parent_session \<Rightarrow> supervisor_frame list" where
  "sent_down env phase authorized p =
     (if phase \<in> {PpListen, PpHello, PpRequest} then []
      else plain_frame FkRequest SUPERVISOR_REQUEST_ID (se_request env)
        # (if authorized \<and> phase \<noteq> PpStart then [plain_frame FkStart SUPERVISOR_REQUEST_ID []] else [])
        @ (if ps_cancel_sent p then [cancel_frame env (the (ps_cancel_reason p))] else []))"

fun read_down :: "child_phase \<Rightarrow> nat" where
  "read_down CpHello = 0"
| "read_down CpRequest = 0"
| "read_down CpNext = 1"
| "read_down _ = 2"

definition streams_inv :: "session_env \<Rightarrow> session_sys \<Rightarrow> bool" where
  "streams_inv env s \<longleftrightarrow>
     sy_up s = drop (read_up (sy_pphase s) (ps_started_received (sy_parent s)))
       (sent_up env (sy_cphase s) (sy_ran s) (ch_terminal (sy_child s)))
     \<and> read_up (sy_pphase s) (ps_started_received (sy_parent s))
       \<le> length (sent_up env (sy_cphase s) (sy_ran s) (ch_terminal (sy_child s)))
     \<and> read_down (sy_cphase s) \<le> length (sent_down env (sy_pphase s) (sy_authorized s) (sy_parent s))
     \<and> (sy_down s = drop (read_down (sy_cphase s))
         (sent_down env (sy_pphase s) (sy_authorized s) (sy_parent s))
        \<or> sy_down s = [] \<and> read_down (sy_cphase s) = 2 \<and> sx_is_requested (sy_child_cancel s))"

text \<open>The parent's session in each phase of the parent's main thread.\<close>

fun phase_inv :: "parent_phase \<Rightarrow> parent_session \<Rightarrow> bool \<Rightarrow> worker_phase \<Rightarrow> child_phase
    \<Rightarrow> supervisor_terminal option \<Rightarrow> bool" where
  "phase_inv PpListen p authorized worker c t =
     (p = parent_new SUPERVISOR_REQUEST_ID \<and> \<not> authorized \<and> worker = WkNone)"
| "phase_inv PpHello p authorized worker c t =
     (p = parent_new SUPERVISOR_REQUEST_ID \<and> \<not> authorized \<and> worker = WkNone)"
| "phase_inv PpRequest p authorized worker c t =
     (p = (parent_new SUPERVISOR_REQUEST_ID)\<lparr>ps_state := PsAwaitAccepted\<rparr>
      \<and> \<not> authorized \<and> worker = WkNone)"
| "phase_inv PpAccepted p authorized worker c t =
     (p = (parent_new SUPERVISOR_REQUEST_ID)\<lparr>ps_state := PsAwaitAccepted, ps_request_sent := True\<rparr>
      \<and> \<not> authorized \<and> worker = WkNone)"
| "phase_inv PpAuthorize p authorized worker c t =
     (p = (parent_new SUPERVISOR_REQUEST_ID)\<lparr>ps_state := PsAccepted, ps_request_sent := True\<rparr>
      \<and> \<not> authorized \<and> worker = WkNone)"
| "phase_inv PpStart p authorized worker c t =
     (p = (parent_new SUPERVISOR_REQUEST_ID)\<lparr>ps_state := PsAwaitStarted, ps_request_sent := True\<rparr>
      \<and> authorized \<and> worker = WkNone)"
| "phase_inv PpRead p authorized worker c t =
     (ps_request_id p = SUPERVISOR_REQUEST_ID \<and> ps_terminal p = None \<and>
      (if authorized
       then ps_state p = PsAwaitStarted \<and> \<not> ps_started_received p \<or>
            ps_state p = PsStarted \<and> ps_started_received p \<or>
            ps_state p = PsCancelling \<and> ps_cancel_reason p \<noteq> None
       else ps_state p = PsCancellingBeforeStart \<and> ps_cancel_sent p
            \<and> \<not> ps_started_received p \<and> worker = WkNone))"
| "phase_inv (PpGrace v) p authorized worker c t =
     (ps_request_id p = SUPERVISOR_REQUEST_ID \<and> ps_terminal p = Some v \<and> ps_state p = PsTerminal
      \<and> t = Some v \<and> (\<exists>code. c = CpExited code) \<and> ps_started_received p = authorized)"
| "phase_inv (PpDone v r) p authorized worker c t =
     (ps_request_id p = SUPERVISOR_REQUEST_ID \<and> ps_terminal p = Some v \<and> ps_state p = PsTerminal
      \<and> t = Some v \<and> (\<exists>code. c = CpExited code) \<and> ps_started_received p = authorized
      \<and> r = ps_cancel_reason p)"
| "phase_inv PpRejected p authorized worker c t = False"

definition cancel_inv :: "supervisor_cancellation \<Rightarrow> parent_session \<Rightarrow> worker_phase \<Rightarrow> bool" where
  "cancel_inv c p worker \<longleftrightarrow>
     sx_consistent c \<and>
     (ps_cancel_reason p \<noteq> None \<longrightarrow> ps_cancel_reason p = sx_requested_reason c) \<and>
     (ps_cancel_sent p \<longleftrightarrow> ps_cancel_reason p \<noteq> None) \<and>
     (worker = WkWatching \<longrightarrow> \<not> ps_cancel_sent p) \<and> worker \<noteq> WkFailed"

text \<open>The child's session in each phase of the child's main thread.\<close>

fun child_phase_inv :: "child_phase \<Rightarrow> child_session \<Rightarrow> bool \<Rightarrow> bool \<Rightarrow> cancel_reason option \<Rightarrow> bool" where
  "child_phase_inv CpHello c authorized entered reason = (c = child_new \<and> \<not> entered)"
| "child_phase_inv CpRequest c authorized entered reason = (c = child_new \<and> \<not> entered)"
| "child_phase_inv CpNext c authorized entered reason =
     (c = child_new\<lparr>ch_request_id := Some SUPERVISOR_REQUEST_ID, ch_state := ChAwaitStart\<rparr> \<and> \<not> entered)"
| "child_phase_inv CpStarting c authorized entered reason =
     (c = child_new\<lparr>ch_request_id := Some SUPERVISOR_REQUEST_ID, ch_state := ChStarted\<rparr>
      \<and> authorized \<and> \<not> entered)"
| "child_phase_inv CpRunning c authorized entered reason =
     (c = child_new\<lparr>ch_request_id := Some SUPERVISOR_REQUEST_ID, ch_state := ChStarted\<rparr>
      \<and> authorized \<and> entered)"
| "child_phase_inv (CpExited code) c authorized entered reason =
     (entered = authorized \<and>
      (\<exists>t. ch_terminal c = Some t \<and> validate_supervisor_terminal_shape t = Inr ()
        \<and> exit_code_in_range t \<and> code = (case st_exit_code t of None \<Rightarrow> 1 | Some c \<Rightarrow> c)
        \<and> (\<not> entered \<longrightarrow> (\<exists>r. reason = Some r \<and> st_outcome t = reason_outcome r))))"
| "child_phase_inv CpRejected c authorized entered reason = False"

definition control_inv :: "child_phase \<Rightarrow> bool \<Rightarrow> supervisor_cancellation \<Rightarrow> supervisor_frame list
    \<Rightarrow> parent_session \<Rightarrow> bool" where
  "control_inv phase control c down p \<longleftrightarrow>
     (control \<longrightarrow> phase \<in> {CpStarting, CpRunning}) \<and>
     (phase \<in> {CpHello, CpRequest, CpNext} \<longrightarrow> c = sx_new cancel_ctx_new CrUser) \<and>
     sx_consistent c \<and> sx_default c = CrUser \<and>
     (control \<and> down \<noteq> [] \<longrightarrow> \<not> sx_is_requested c) \<and>
     (control \<and> sx_is_requested c \<longrightarrow> ps_cancel_sent p)"

definition session_inv :: "session_env \<Rightarrow> session_sys \<Rightarrow> bool" where
  "session_inv env s \<longleftrightarrow> streams_inv env s
     \<and> phase_inv (sy_pphase s) (sy_parent s) (sy_authorized s) (sy_worker s) (sy_cphase s)
         (ch_terminal (sy_child s))
     \<and> cancel_inv (sy_cancel s) (sy_parent s) (sy_worker s)
     \<and> child_phase_inv (sy_cphase s) (sy_child s) (sy_authorized s) (sy_ran s)
         (ps_cancel_reason (sy_parent s))
     \<and> control_inv (sy_cphase s) (sy_control s) (sy_child_cancel s) (sy_down s) (sy_parent s)"

lemma drop_eq_ConsD: "drop n xs = x # ys \<Longrightarrow> n < length xs \<and> xs ! n = x \<and> ys = drop (Suc n) xs"
  by (metis Cons_nth_drop_Suc drop_eq_Nil2 leI list.distinct(1) list.inject)

lemma sent_up_0: "0 < length (sent_up env c entered t) \<Longrightarrow>
    sent_up env c entered t ! 0 = plain_frame FkHello 0 (se_token env)"
  by (cases c) (simp_all add: opening_frames_def)

lemma sent_up_1: "1 < length (sent_up env c entered t) \<Longrightarrow>
    sent_up env c entered t ! 1 = plain_frame FkAccepted SUPERVISOR_REQUEST_ID []"
  by (cases c) (simp_all add: opening_frames_def)

lemma sent_up_2: "2 < length (sent_up env c entered t) \<Longrightarrow>
    (entered \<and> sent_up env c entered t ! 2 = plain_frame FkStarted SUPERVISOR_REQUEST_ID [])
    \<or> (\<not> entered \<and> (\<exists>code v. c = CpExited code \<and> t = Some v \<and> sent_up env c entered t ! 2 = terminal_frame env v
         \<and> length (sent_up env c entered t) = 3))"
  by (cases c) (auto simp: opening_frames_def started_frames_def split: option.splits if_splits)

lemma sent_up_3: "3 < length (sent_up env c entered t) \<Longrightarrow>
    entered \<and> (\<exists>code v. c = CpExited code \<and> t = Some v \<and> sent_up env c entered t ! 3 = terminal_frame env v
         \<and> length (sent_up env c entered t) = 4)"
  by (cases c) (auto simp: opening_frames_def started_frames_def split: option.splits if_splits)

lemma frame_new_small:
  "length payload \<le> MAX_SUPERVISOR_FRAME_PAYLOAD \<Longrightarrow>
   frame_new kind request_id payload = Inr (plain_frame kind request_id payload)"
  by (simp add: frame_new_def plain_frame_def)

lemma plain_frame_simps [simp]:
  "sf_kind (plain_frame k i p) = k" "sf_request_id (plain_frame k i p) = i" "sf_payload (plain_frame k i p) = p"
  by (simp_all add: plain_frame_def)

lemma reason_payload:
  assumes "env_ok env"
  obtains payload where "encode_payload (fm_reason (se_formats env)) reason = Inr payload"
    "decode_payload (fm_reason (se_formats env)) payload = Inr reason"
    "length payload \<le> MAX_SUPERVISOR_FRAME_PAYLOAD"
    "cancel_frame env reason = plain_frame FkCancel SUPERVISOR_REQUEST_ID payload"
proof -
  from assms have "serde_total (fm_reason (se_formats env)) reason"
    by (simp add: env_ok_def formats_ok_def)
  from serde_total_payload [OF this] obtain payload where p:
    "encode_payload (fm_reason (se_formats env)) reason = Inr payload"
    "decode_payload (fm_reason (se_formats env)) payload = Inr reason"
    "length payload \<le> MAX_SUPERVISOR_FRAME_PAYLOAD" by blast
  with that show thesis by (simp add: cancel_frame_def)
qed

lemma terminal_payload:
  assumes "env_ok env" "validate_supervisor_terminal_shape t = Inr ()" "exit_code_in_range t"
  obtains payload where "encode_payload (fm_terminal (se_formats env)) t = Inr payload"
    "decode_payload (fm_terminal (se_formats env)) payload = Inr t"
    "length payload \<le> MAX_SUPERVISOR_FRAME_PAYLOAD"
    "terminal_frame env t = plain_frame FkTerminal SUPERVISOR_REQUEST_ID payload"
proof -
  from assms have "serde_total (fm_terminal (se_formats env)) t"
    by (simp add: env_ok_def formats_ok_def)
  from serde_total_payload [OF this] obtain payload where p:
    "encode_payload (fm_terminal (se_formats env)) t = Inr payload"
    "decode_payload (fm_terminal (se_formats env)) payload = Inr t"
    "length payload \<le> MAX_SUPERVISOR_FRAME_PAYLOAD" by blast
  with that show thesis by (simp add: terminal_frame_def)
qed

lemma request_id_nonzero [simp]: "SUPERVISOR_REQUEST_ID \<noteq> 0" "0 \<noteq> SUPERVISOR_REQUEST_ID"
  by (simp_all add: SUPERVISOR_REQUEST_ID_def)

lemma parent_new_simps [simp]:
  "ps_request_id (parent_new i) = i" "ps_state (parent_new i) = PsAwaitHello"
  "\<not> ps_request_sent (parent_new i)" "\<not> ps_cancel_sent (parent_new i)"
  "\<not> ps_started_received (parent_new i)" "ps_cancel_reason (parent_new i) = None"
  "ps_terminal (parent_new i) = None"
  by (simp_all add: parent_new_def)

lemma child_new_simps [simp]:
  "ch_request_id child_new = None" "ch_state child_new = ChAwaitRequest"
  "ch_cancel_reason child_new = None" "ch_terminal child_new = None"
  by (simp_all add: child_new_def)

lemmas session_inv_defs = session_inv_def streams_inv_def cancel_inv_def control_inv_def

lemma session_inv_init: "session_init s \<Longrightarrow> session_inv env s"
  unfolding session_init_def session_start_def session_inv_defs sent_down_def sx_consistent_def
  by (elim exE conjE) (simp add: sx_new_def sx_is_requested_def sx_requested_reason_def cancel_ctx_new_def)

lemma sx_request_simps [simp]:
  "sx_is_requested (sx_request r c)"
  "sx_requested_reason (sx_request r c) = Some (case sx_requested_reason c of None \<Rightarrow> r | Some w \<Rightarrow> w)"
  "sx_default (sx_request r c) = sx_default c"
  "sx_consistent (sx_request r c)"
  by (simp_all add: sx_request_def sx_is_requested_def sx_requested_reason_def sx_consistent_def
      get_or_insert_def split: option.split)

lemma cancel_inv_request: "cancel_inv c p worker \<Longrightarrow> cancel_inv (sx_request r c) p worker"
  by (auto simp: cancel_inv_def split: option.splits)

lemma session_inv_cancel:
  "session_inv env s \<Longrightarrow> session_inv env (s\<lparr>sy_cancel := sx_request reason (sy_cancel s)\<rparr>)"
  by (simp add: session_inv_def streams_inv_def cancel_inv_request)

lemma session_inv_failed:
  "session_inv env s \<Longrightarrow> session_inv env (s\<lparr>sy_parent_failed := True\<rparr>)"
  "session_inv env s \<Longrightarrow> session_inv env (s\<lparr>sy_child_failed := True\<rparr>)"
  "session_inv env s \<Longrightarrow> session_inv env (s\<lparr>sy_due := True\<rparr>)"
  by (simp_all add: session_inv_def streams_inv_def)

lemma session_invI:
  assumes "sy_up s = drop (read_up (sy_pphase s) (ps_started_received (sy_parent s)))
       (sent_up env (sy_cphase s) (sy_ran s) (ch_terminal (sy_child s)))"
    and "read_up (sy_pphase s) (ps_started_received (sy_parent s))
       \<le> length (sent_up env (sy_cphase s) (sy_ran s) (ch_terminal (sy_child s)))"
    and "read_down (sy_cphase s) \<le> length (sent_down env (sy_pphase s) (sy_authorized s) (sy_parent s))"
    and "sy_down s = drop (read_down (sy_cphase s))
         (sent_down env (sy_pphase s) (sy_authorized s) (sy_parent s))
        \<or> sy_down s = [] \<and> read_down (sy_cphase s) = 2 \<and> sx_is_requested (sy_child_cancel s)"
    and "phase_inv (sy_pphase s) (sy_parent s) (sy_authorized s) (sy_worker s) (sy_cphase s)
         (ch_terminal (sy_child s))"
    and "cancel_inv (sy_cancel s) (sy_parent s) (sy_worker s)"
    and "child_phase_inv (sy_cphase s) (sy_child s) (sy_authorized s) (sy_ran s)
         (ps_cancel_reason (sy_parent s))"
    and "control_inv (sy_cphase s) (sy_control s) (sy_child_cancel s) (sy_down s) (sy_parent s)"
  shows "session_inv env s"
  using assms by (simp add: session_inv_def streams_inv_def)

lemma session_invD:
  assumes "session_inv env s"
  shows "sy_up s = drop (read_up (sy_pphase s) (ps_started_received (sy_parent s)))
       (sent_up env (sy_cphase s) (sy_ran s) (ch_terminal (sy_child s)))"
    and "read_up (sy_pphase s) (ps_started_received (sy_parent s))
       \<le> length (sent_up env (sy_cphase s) (sy_ran s) (ch_terminal (sy_child s)))"
    and "read_down (sy_cphase s) \<le> length (sent_down env (sy_pphase s) (sy_authorized s) (sy_parent s))"
    and "sy_down s = drop (read_down (sy_cphase s))
         (sent_down env (sy_pphase s) (sy_authorized s) (sy_parent s))
        \<or> sy_down s = [] \<and> read_down (sy_cphase s) = 2 \<and> sx_is_requested (sy_child_cancel s)"
    and "phase_inv (sy_pphase s) (sy_parent s) (sy_authorized s) (sy_worker s) (sy_cphase s)
         (ch_terminal (sy_child s))"
    and "cancel_inv (sy_cancel s) (sy_parent s) (sy_worker s)"
    and "child_phase_inv (sy_cphase s) (sy_child s) (sy_authorized s) (sy_ran s)
         (ps_cancel_reason (sy_parent s))"
    and "control_inv (sy_cphase s) (sy_control s) (sy_child_cancel s) (sy_down s) (sy_parent s)"
  using assms by (simp_all add: session_inv_def streams_inv_def)

text \<open>Changes of the parent's session that leave what the other parts see of it.\<close>

lemma cancel_inv_cong:
  "cancel_inv c p w \<Longrightarrow> ps_cancel_reason p' = ps_cancel_reason p \<Longrightarrow> ps_cancel_sent p' = ps_cancel_sent p \<Longrightarrow>
   cancel_inv c p' w"
  by (auto simp: cancel_inv_def)

lemma control_inv_cong:
  "control_inv ph k c d p \<Longrightarrow> ps_cancel_sent p' = ps_cancel_sent p \<Longrightarrow> control_inv ph k c d p'"
  by (simp add: control_inv_def)

lemma sent_down_cong:
  "ps_cancel_sent p' = ps_cancel_sent p \<Longrightarrow> ps_cancel_reason p' = ps_cancel_reason p \<Longrightarrow>
   (ph \<in> {PpListen, PpHello, PpRequest} \<longleftrightarrow> ph' \<in> {PpListen, PpHello, PpRequest}) \<Longrightarrow>
   (ph = PpStart \<longleftrightarrow> ph' = PpStart) \<Longrightarrow>
   sent_down env ph' a p' = sent_down env ph a p"
  by (simp add: sent_down_def)

lemma session_inv_parent_reads:
  assumes inv: "session_inv env s" and s': "s' = s\<lparr>sy_up := rest, sy_parent := p', sy_pphase := ph'\<rparr>"
    and up: "rest = drop (read_up ph' (ps_started_received p'))
        (sent_up env (sy_cphase s) (sy_ran s) (ch_terminal (sy_child s)))"
      "read_up ph' (ps_started_received p')
        \<le> length (sent_up env (sy_cphase s) (sy_ran s) (ch_terminal (sy_child s)))"
    and p: "ps_cancel_reason p' = ps_cancel_reason (sy_parent s)"
      "ps_cancel_sent p' = ps_cancel_sent (sy_parent s)"
      "sy_pphase s \<in> {PpListen, PpHello, PpRequest} \<longleftrightarrow> ph' \<in> {PpListen, PpHello, PpRequest}"
      "sy_pphase s = PpStart \<longleftrightarrow> ph' = PpStart"
    and ph: "phase_inv ph' p' (sy_authorized s) (sy_worker s) (sy_cphase s) (ch_terminal (sy_child s))"
  shows "session_inv env s'"
proof -
  note D = session_invD [OF inv]
  have d: "sent_down env ph' (sy_authorized s) p' = sent_down env (sy_pphase s) (sy_authorized s) (sy_parent s)"
    using p by (intro sent_down_cong) simp_all
  show ?thesis
  proof (rule session_invI)
    show "cancel_inv (sy_cancel s') (sy_parent s') (sy_worker s')"
      using cancel_inv_cong [OF D(6) p(1,2)] by (simp add: s')
    show "control_inv (sy_cphase s') (sy_control s') (sy_child_cancel s') (sy_down s') (sy_parent s')"
      using D(8) p by (simp add: s' control_inv_def)
  qed (use D up p ph d in \<open>simp_all add: s'\<close>)
qed

lemma cancel_if_due_simps [simp]:
  "sx_requested_reason c = Some r \<Longrightarrow> cancel_if_due b c = c"
  "cancel_if_due False c = c"
  by (simp_all add: cancel_if_due_def)

lemma cancel_inv_due: "cancel_inv c p worker \<Longrightarrow> cancel_inv (cancel_if_due b c) p worker"
  by (simp add: cancel_if_due_def cancel_inv_request)

lemma session_inv_due:
  "session_inv env s \<Longrightarrow> session_inv env (s\<lparr>sy_cancel := cancel_if_due b (sy_cancel s)\<rparr>)"
  by (simp add: session_inv_def streams_inv_def cancel_inv_due)

lemma session_inv_handshake_io:
  assumes "session_inv env s" "\<not> sx_is_requested (sy_cancel s) \<Longrightarrow> \<not> sy_due s \<Longrightarrow> session_inv env (transfer s)"
  shows "session_inv env (handshake_io transfer s)"
  using assms session_inv_failed(1) [OF session_inv_due [OF assms(1), of "sy_due s"]]
  by (auto simp: handshake_io_def session_inv_failed)

lemma session_inv_listen:
  assumes inv: "session_inv env s" and ph: "sy_pphase s = PpListen"
  shows "session_inv env (parent_listen s)"
proof -
  have "session_inv env (s\<lparr>sy_pphase := PpHello\<rparr>)"
    using session_invD [OF inv] ph by (intro session_invI) (simp_all add: sent_down_def)
  then show ?thesis by (simp add: parent_listen_def session_inv_failed(1) [OF inv])
qed

lemma session_inv_hello:
  assumes inv: "session_inv env s" and ph: "sy_pphase s = PpHello" and "sy_up s = frame # rest"
  shows "session_inv env (parent_hello (se_token env) frame (s\<lparr>sy_up := rest\<rparr>))"
proof -
  let ?sent = "sent_up env (sy_cphase s) (sy_ran s) (ch_terminal (sy_child s))"
  note D = session_invD [OF inv]
  from D(5) ph have p: "sy_parent s = parent_new SUPERVISOR_REQUEST_ID" "\<not> sy_authorized s" "sy_worker s = WkNone"
    by simp_all
  from D(1) ph assms(3) have "drop 0 ?sent = frame # rest" by simp
  from drop_eq_ConsD [OF this] have up: "0 < length ?sent" "?sent ! 0 = frame" "rest = drop 1 ?sent"
    by (auto simp only: One_nat_def)
  have f: "frame = plain_frame FkHello 0 (se_token env)"
    using sent_up_0 [OF up(1)] up(2) by simp
  have h: "parent_hello (se_token env) frame (s\<lparr>sy_up := rest\<rparr>) =
      s\<lparr>sy_up := rest, sy_parent := (sy_parent s)\<lparr>ps_state := PsAwaitAccepted\<rparr>, sy_pphase := PpRequest\<rparr>"
    by (simp add: parent_hello_def accept_hello_def f p token_authenticate_iff)
  show ?thesis
    by (rule session_inv_parent_reads [OF inv h]) (use up p ph in \<open>simp_all add: Suc_le_eq\<close>)
qed

lemma session_inv_request:
  assumes inv: "session_inv env s" and ok: "env_ok env" and ph: "sy_pphase s = PpRequest"
  shows "session_inv env (parent_request (se_request env) s)"
proof -
  note D = session_invD [OF inv]
  from D(5) ph have p: "sy_parent s = (parent_new SUPERVISOR_REQUEST_ID)\<lparr>ps_state := PsAwaitAccepted\<rparr>"
      "\<not> sy_authorized s" "sy_worker s = WkNone"
    by simp_all
  from ok have small: "length (se_request env) \<le> MAX_SUPERVISOR_FRAME_PAYLOAD" by (simp add: env_ok_def)
  let ?transfer = "\<lambda>s. case send_request (sy_parent s) of
        (Inl _, p) \<Rightarrow> s\<lparr>sy_parent := p, sy_pphase := PpRejected\<rparr>
      | (Inr _, p) \<Rightarrow> send_down FkRequest (se_request env) (s\<lparr>sy_parent := p, sy_pphase := PpAccepted\<rparr>)"
  have h: "?transfer s = s\<lparr>sy_parent := (sy_parent s)\<lparr>ps_request_sent := True\<rparr>,
      sy_pphase := PpAccepted, sy_down := sy_down s @ [plain_frame FkRequest SUPERVISOR_REQUEST_ID (se_request env)]\<rparr>"
    by (simp add: send_request_def p send_down_def frame_new_small [OF small])
  have sent: "sent_down env PpRequest (sy_authorized s) (sy_parent s) = []" by (simp add: sent_down_def)
  have d: "sy_down s = []" "read_down (sy_cphase s) = 0"
    using D(3,4) ph sent by auto
  have sent': "sent_down env PpAccepted (sy_authorized s) ((sy_parent s)\<lparr>ps_request_sent := True\<rparr>) =
      [plain_frame FkRequest SUPERVISOR_REQUEST_ID (se_request env)]"
    using p by (simp add: sent_down_def)
  have c: "\<not> sy_control s" using d(2) D(8) by (cases "sy_cphase s") (simp_all add: control_inv_def)
  have "session_inv env (?transfer s)"
    unfolding h
  proof (rule session_invI, goal_cases)
    case 8
    then show ?case using D(8) c by (simp add: control_inv_def)
  next
    case 6
    show ?case using cancel_inv_cong [OF D(6), of "(sy_parent s)\<lparr>ps_request_sent := True\<rparr>"] by simp
  qed (use D ph p d sent' in simp_all)
  then show ?thesis unfolding parent_request_def by (rule session_inv_handshake_io [OF inv])
qed

lemma session_inv_accepted:
  assumes inv: "session_inv env s" and ph: "sy_pphase s = PpAccepted"
  shows "session_inv env (parent_accepted (se_formats env) s)"
  unfolding parent_accepted_def
proof (rule session_inv_handshake_io [OF inv], cases "sy_up s")
  case Nil
  then show "session_inv env (case sy_up s of
        [] \<Rightarrow> s
      | frame # rest \<Rightarrow>
          (case receive_child_frame (se_formats env) frame (sy_parent s) of
             (Inl _, p) \<Rightarrow> s\<lparr>sy_up := rest, sy_parent := p, sy_pphase := PpRejected\<rparr>
           | (Inr event, p) \<Rightarrow>
               s\<lparr>sy_up := rest, sy_parent := p,
                 sy_pphase := (if event = FeAccepted then PpAuthorize else PpRejected)\<rparr>))"
    using inv by simp
next
  case (Cons frame rest)
  let ?sent = "sent_up env (sy_cphase s) (sy_ran s) (ch_terminal (sy_child s))"
  note D = session_invD [OF inv]
  from D(5) ph have p: "sy_parent s = (parent_new SUPERVISOR_REQUEST_ID)
      \<lparr>ps_state := PsAwaitAccepted, ps_request_sent := True\<rparr>" "\<not> sy_authorized s" "sy_worker s = WkNone"
    by simp_all
  from D(1) ph Cons have "drop 1 ?sent = frame # rest" by simp
  from drop_eq_ConsD [OF this] have up: "1 < length ?sent" "?sent ! 1 = frame" "rest = drop 2 ?sent"
    by (auto simp only: numeral_2_eq_2 One_nat_def)
  have f: "frame = plain_frame FkAccepted SUPERVISOR_REQUEST_ID []"
    using sent_up_1 [OF up(1)] up(2) by simp
  show "session_inv env (case sy_up s of
        [] \<Rightarrow> s
      | frame # rest \<Rightarrow>
          (case receive_child_frame (se_formats env) frame (sy_parent s) of
             (Inl _, p) \<Rightarrow> s\<lparr>sy_up := rest, sy_parent := p, sy_pphase := PpRejected\<rparr>
           | (Inr event, p) \<Rightarrow>
               s\<lparr>sy_up := rest, sy_parent := p,
                 sy_pphase := (if event = FeAccepted then PpAuthorize else PpRejected)\<rparr>))"
    by (rule session_inv_parent_reads [OF inv, where rest = rest
          and p' = "(sy_parent s)\<lparr>ps_state := PsAccepted\<rparr>" and ph' = PpAuthorize])
      (use up p ph in \<open>simp_all add: Cons f receive_child_frame_def\<close>)
qed

lemma not_entered:
  "child_phase_inv c ch False e r \<Longrightarrow> \<not> e"
  "child_phase_inv c ch a e None \<Longrightarrow> \<not> a \<Longrightarrow> c \<in> {CpHello, CpRequest, CpNext}"
  by (cases c; auto)+

lemma entered_authorized: "child_phase_inv c ch a e r \<Longrightarrow> e \<Longrightarrow> a"
  by (cases c) auto

lemma child_phase_inv_early:
  "child_phase_inv c ch a e r \<Longrightarrow> c \<in> {CpHello, CpRequest, CpNext} \<Longrightarrow> child_phase_inv c ch a' e r'"
  by (cases c) auto

lemma child_phase_inv_cancel: "child_phase_inv c ch a e None \<Longrightarrow> child_phase_inv c ch a e r"
  by (cases c) auto

lemma early_read_down: "c \<in> {CpHello, CpRequest, CpNext} \<Longrightarrow> read_down c \<le> 1"
  by auto

lemma drop_pair: "k \<le> 1 \<Longrightarrow> drop k [a] @ [b] = drop k [a, b]"
  by (cases k) simp_all

lemma parent_authorize_due:
  "parent_authorize fm s = parent_authorize fm (s\<lparr>sy_cancel := cancel_if_due (sy_due s) (sy_cancel s), sy_due := False\<rparr>)
     \<lparr>sy_due := sy_due s\<rparr>"
  by (simp add: parent_authorize_def Let_def write_cancel_def send_down_def split: prod.split sum.split)

lemma session_inv_authorize_undue:
  assumes inv: "session_inv env s" and ok: "env_ok env" and ph: "sy_pphase s = PpAuthorize" and undue: "\<not> sy_due s"
  shows "session_inv env (parent_authorize (se_formats env) s)"
proof -
  note D = session_invD [OF inv]
  let ?req = "plain_frame FkRequest SUPERVISOR_REQUEST_ID (se_request env)"
  from D(5) ph have p: "sy_parent s = (parent_new SUPERVISOR_REQUEST_ID)
      \<lparr>ps_state := PsAccepted, ps_request_sent := True\<rparr>" "\<not> sy_authorized s" "sy_worker s = WkNone"
    by simp_all
  have c: "sy_cphase s \<in> {CpHello, CpRequest, CpNext}"
    using D(7) p by (auto dest: not_entered(2))
  then have r: "read_down (sy_cphase s) \<le> 1" by (rule early_read_down)
  have sent: "sent_down env (sy_pphase s) (sy_authorized s) (sy_parent s) = [?req]"
    using p ph by (simp add: sent_down_def)
  have down: "sy_down s = drop (read_down (sy_cphase s)) [?req]" using D(4) r sent by auto
  have nc: "\<not> sy_control s" using c D(8) by (auto simp: control_inv_def)
  show ?thesis
  proof (cases "sx_requested_reason (sy_cancel s)")
    case None
    have h: "parent_authorize (se_formats env) s = s\<lparr>sy_parent := (sy_parent s)\<lparr>ps_state := PsAwaitStarted\<rparr>,
        sy_pphase := PpStart, sy_authorized := True\<rparr>"
      by (simp add: parent_authorize_def authorize_start_def None p undue)
    show ?thesis
      unfolding h
    proof (rule session_invI, goal_cases)
      case 4
      then show ?case using down p drop_pair [OF r] by (simp add: sent_down_def)
    next
      case 6
      then show ?case using D(6) p by (simp add: cancel_inv_def)
    next
      case 7
      then show ?case using child_phase_inv_early [OF D(7) c] by simp
    next
      case 8
      then show ?case using D(8) nc p by (simp add: control_inv_def)
    qed (use D ph p r in \<open>simp_all add: sent_down_def\<close>)
  next
    case (Some reason)
    from reason_payload [OF ok, of reason] obtain payload where pl:
      "encode_payload (fm_reason (se_formats env)) reason = Inr payload"
      "length payload \<le> MAX_SUPERVISOR_FRAME_PAYLOAD"
      "cancel_frame env reason = plain_frame FkCancel SUPERVISOR_REQUEST_ID payload" by blast
    have h: "parent_authorize (se_formats env) s = s\<lparr>sy_parent := (sy_parent s)
          \<lparr>ps_state := PsCancellingBeforeStart, ps_cancel_reason := Some reason, ps_cancel_sent := True\<rparr>,
        sy_pphase := PpRead, sy_down := sy_down s @ [cancel_frame env reason]\<rparr>"
      using pl by (simp add: parent_authorize_def authorize_start_def Some p undue send_down_def frame_new_small
          sx_reason_def send_cancel_def write_cancel_def Let_def)
    show ?thesis
      unfolding h
    proof (rule session_invI, goal_cases)
      case 4
      then show ?case using down p drop_pair [OF r] by (simp add: sent_down_def)
    next
      case 6
      then show ?case using D(6) p Some by (simp add: cancel_inv_def)
    next
      case 7
      then show ?case using child_phase_inv_early [OF D(7) c] by simp
    next
      case 8
      then show ?case using D(8) nc p by (simp add: control_inv_def)
    qed (use D ph p r in \<open>simp_all add: sent_down_def\<close>)
  qed
qed

lemma session_inv_authorize:
  assumes inv: "session_inv env s" and ok: "env_ok env" and ph: "sy_pphase s = PpAuthorize"
  shows "session_inv env (parent_authorize (se_formats env) s)"
proof -
  have flag: "session_inv env (t\<lparr>sy_due := b\<rparr>) = session_inv env t" for t b
    by (simp add: session_inv_def streams_inv_def)
  have "session_inv env (s\<lparr>sy_cancel := cancel_if_due (sy_due s) (sy_cancel s), sy_due := False\<rparr>)"
    using session_inv_due [OF inv] by (simp only: flag)
  then have "session_inv env (parent_authorize (se_formats env)
      (s\<lparr>sy_cancel := cancel_if_due (sy_due s) (sy_cancel s), sy_due := False\<rparr>))"
    by (rule session_inv_authorize_undue [OF _ ok]) (simp_all add: ph)
  then show ?thesis by (simp only: parent_authorize_due [of _ s] flag)
qed

lemma session_inv_start:
  assumes inv: "session_inv env s" and ph: "sy_pphase s = PpStart"
  shows "session_inv env (parent_start s)"
  unfolding parent_start_def
proof (rule session_inv_handshake_io [OF inv])
  note D = session_invD [OF inv]
  let ?req = "plain_frame FkRequest SUPERVISOR_REQUEST_ID (se_request env)"
  from D(5) ph have p: "sy_parent s = (parent_new SUPERVISOR_REQUEST_ID)
      \<lparr>ps_state := PsAwaitStarted, ps_request_sent := True\<rparr>" "sy_authorized s" "sy_worker s = WkNone"
    by simp_all
  have sent: "sent_down env (sy_pphase s) (sy_authorized s) (sy_parent s) = [?req]"
    using p ph by (simp add: sent_down_def)
  have r: "read_down (sy_cphase s) \<le> 1" using D(3) unfolding sent by simp
  then have c: "sy_cphase s \<in> {CpHello, CpRequest, CpNext}" by (cases "sy_cphase s") simp_all
  have down: "sy_down s = drop (read_down (sy_cphase s)) [?req]" using D(4) r sent by auto
  have nc: "\<not> sy_control s" using c D(8) by (auto simp: control_inv_def)
  have h: "send_down FkStart [] (s\<lparr>sy_pphase := PpRead, sy_worker := WkWatching\<rparr>) = s\<lparr>sy_pphase := PpRead,
      sy_worker := WkWatching, sy_down := sy_down s @ [plain_frame FkStart SUPERVISOR_REQUEST_ID []]\<rparr>"
    by (simp add: send_down_def frame_new_small)
  show "session_inv env (send_down FkStart [] (s\<lparr>sy_pphase := PpRead, sy_worker := WkWatching\<rparr>))"
    unfolding h
  proof (rule session_invI, goal_cases)
    case 4
    then show ?case using down p drop_pair [OF r] by (simp add: sent_down_def)
  next
    case 6
    then show ?case using D(6) p by (simp add: cancel_inv_def)
  next
    case 8
    then show ?case using D(8) nc p by (simp add: control_inv_def)
  qed (use D ph p r in \<open>simp_all add: sent_down_def\<close>)
qed

lemma session_inv_worker:
  assumes inv: "session_inv env s" and ok: "env_ok env" and w: "sy_worker s = WkWatching"
    and rq: "sx_is_requested (sy_cancel s)" and nd: "\<forall>t c. sy_pphase s \<noteq> PpDone t c"
  shows "session_inv env (worker_cancel (se_formats env) s)"
proof -
  note D = session_invD [OF inv]
  obtain reason where reason: "sx_requested_reason (sy_cancel s) = Some reason"
    using rq D(6) by (auto simp: cancel_inv_def sx_consistent_def)
  have nc: "ps_cancel_reason (sy_parent s) = None" "\<not> ps_cancel_sent (sy_parent s)"
    using D(6) w by (auto simp: cancel_inv_def)
  consider "sy_pphase s = PpRead" | t where "sy_pphase s = PpGrace t"
    using D(5) w nd by (cases "sy_pphase s") auto
  then show ?thesis
  proof cases
    case 1
    from D(5) 1 w have p: "sy_authorized s" "ps_state (sy_parent s) \<in> {PsAwaitStarted, PsStarted}"
        "ps_state (sy_parent s) = PsStarted \<longleftrightarrow> ps_started_received (sy_parent s)"
        "ps_request_id (sy_parent s) = SUPERVISOR_REQUEST_ID" "ps_terminal (sy_parent s) = None"
      using nc by (auto split: if_splits)
    from reason_payload [OF ok, of reason] obtain payload where pl:
      "encode_payload (fm_reason (se_formats env)) reason = Inr payload"
      "length payload \<le> MAX_SUPERVISOR_FRAME_PAYLOAD"
      "cancel_frame env reason = plain_frame FkCancel SUPERVISOR_REQUEST_ID payload" by blast
    have sc: "send_cancel reason (sy_parent s) = (Inr True, (sy_parent s)\<lparr>ps_state := PsCancelling,
        ps_cancel_reason := Some reason, ps_cancel_sent := True\<rparr>)"
      using p(2) nc(1) by (auto simp: send_cancel_def record_cancel_def)
    have h: "worker_cancel (se_formats env) s = s\<lparr>sy_parent := (sy_parent s)\<lparr>ps_state := PsCancelling,
          ps_cancel_reason := Some reason, ps_cancel_sent := True\<rparr>, sy_worker := WkGrace,
        sy_down := sy_down s @ [cancel_frame env reason]\<rparr>"
      using pl by (simp add: worker_cancel_def sx_reason_def reason sc write_cancel_def send_down_def
          frame_new_small)
    have sent: "sent_down env (sy_pphase s) (sy_authorized s) (sy_parent s) =
        [plain_frame FkRequest SUPERVISOR_REQUEST_ID (se_request env), plain_frame FkStart SUPERVISOR_REQUEST_ID []]"
      using p 1 nc by (simp add: sent_down_def)
    have down: "sy_down s = drop (read_down (sy_cphase s))
        (sent_down env (sy_pphase s) (sy_authorized s) (sy_parent s))"
      using D(4) by (auto simp: sent)
    show ?thesis
      unfolding h
    proof (rule session_invI, goal_cases)
      case 3
      from D(3) have "read_down (sy_cphase s) \<le> 2" unfolding sent by simp
      then show ?case using 1 p by (simp add: sent_down_def)
    next
      case 4
      have "sent_down env PpRead True ((sy_parent s)\<lparr>ps_state := PsCancelling,
          ps_cancel_reason := Some reason, ps_cancel_sent := True\<rparr>) =
        sent_down env (sy_pphase s) (sy_authorized s) (sy_parent s) @ [cancel_frame env reason]"
        unfolding sent by (simp add: sent_down_def)
      then show ?case using down D(3) p 1 by simp
    next
      case 6
      then show ?case using D(6) reason by (simp add: cancel_inv_def)
    next
      case 7
      then show ?case using child_phase_inv_cancel D(7) nc by simp
    next
      case 8
      then show ?case using D(8) nc by (simp add: control_inv_def)
    qed (use D 1 p in simp_all)
  next
    case 2
    then have "worker_cancel (se_formats env) s = s\<lparr>sy_worker := WkGrace\<rparr>"
      using D(5) nc by (simp add: worker_cancel_def send_cancel_def write_cancel_def Let_def)
    then show ?thesis
      using D 2 by (simp add: session_inv_def streams_inv_def cancel_inv_def)
  qed
qed

lemma parent_reads_terminal:
  assumes ok: "env_ok env" and t: "validate_supervisor_terminal_shape t = Inr ()" "exit_code_in_range t"
    and p: "ps_request_id p = SUPERVISOR_REQUEST_ID" "ps_terminal p = None" "prestart_check t p = Inr ()"
      "ps_state p \<in> {PsStarted, PsCancellingBeforeStart, PsCancelling}"
  shows "receive_child_frame (se_formats env) (terminal_frame env t) p =
    (Inr FeTerminal, p\<lparr>ps_terminal := Some t, ps_state := PsTerminal\<rparr>)"
proof -
  from terminal_payload [OF ok t] obtain payload where
    "decode_payload (fm_terminal (se_formats env)) payload = Inr t"
    "terminal_frame env t = plain_frame FkTerminal SUPERVISOR_REQUEST_ID payload" by blast
  then show ?thesis
    using p t(1) by (simp add: receive_child_frame_def receive_terminal_def)
qed

lemma session_inv_read_terminal:
  assumes inv: "session_inv env s" and ok: "env_ok env" and ph: "sy_pphase s = PpRead"
    and up: "sy_up s = terminal_frame env t # rest" "ch_terminal (sy_child s) = Some t"
      "sy_cphase s = CpExited code"
      "Suc (read_up PpRead (ps_started_received (sy_parent s))) =
        length (sent_up env (sy_cphase s) (sy_ran s) (ch_terminal (sy_child s)))"
    and st: "ps_started_received (sy_parent s) = sy_authorized s"
  shows "session_inv env (parent_read (se_formats env) (terminal_frame env t) (s\<lparr>sy_up := rest\<rparr>))"
proof -
  let ?p = "sy_parent s"
  note D = session_invD [OF inv]
  from D(7) up have t: "validate_supervisor_terminal_shape t = Inr ()" "exit_code_in_range t"
      "sy_ran s = sy_authorized s" "\<not> sy_ran s \<Longrightarrow> \<exists>r. ps_cancel_reason ?p = Some r \<and> st_outcome t = reason_outcome r"
    by auto
  from D(5) ph have p: "ps_request_id ?p = SUPERVISOR_REQUEST_ID" "ps_terminal ?p = None"
      "ps_state ?p \<in> {PsStarted, PsCancellingBeforeStart, PsCancelling}"
      "ps_state ?p = PsCancellingBeforeStart \<Longrightarrow> \<not> sy_authorized s"
    using st by (auto split: if_splits)
  have pre: "prestart_check t ?p = Inr ()"
    using p(4) t(3,4) by (auto simp: prestart_check_def)
  have h: "parent_read (se_formats env) (terminal_frame env t) (s\<lparr>sy_up := rest\<rparr>) =
      s\<lparr>sy_up := rest, sy_parent := ?p\<lparr>ps_terminal := Some t, ps_state := PsTerminal\<rparr>, sy_pphase := PpGrace t\<rparr>"
    by (simp add: parent_read_def parent_reads_terminal [OF ok t(1,2) p(1,2) pre p(3)])
  have "drop (read_up PpRead (ps_started_received ?p))
      (sent_up env (sy_cphase s) (sy_ran s) (ch_terminal (sy_child s))) = terminal_frame env t # rest"
    using D(1) ph up(1) by simp
  from drop_eq_ConsD [OF this] up(4) have rest: "rest = []" by simp
  show ?thesis
    by (rule session_inv_parent_reads [OF inv h]) (use p up rest st ph in auto)
qed

lemma session_inv_read:
  assumes inv: "session_inv env s" and ok: "env_ok env" and ph: "sy_pphase s = PpRead"
    and up: "sy_up s = frame # rest"
  shows "session_inv env (parent_read (se_formats env) frame (s\<lparr>sy_up := rest\<rparr>))"
proof -
  let ?p = "sy_parent s"
  let ?sent = "sent_up env (sy_cphase s) (sy_ran s) (ch_terminal (sy_child s))"
  note D = session_invD [OF inv]
  have u: "drop (read_up PpRead (ps_started_received ?p)) ?sent = frame # rest"
    using D(1) ph up by simp
  note u = drop_eq_ConsD [OF u]
  show ?thesis
  proof (cases "ps_started_received ?p")
    case True
    with u have n: "3 < length ?sent" "?sent ! 3 = frame" by simp_all
    from sent_up_3 [OF n(1)] n(2) obtain code v where v: "sy_ran s" "sy_cphase s = CpExited code"
        "ch_terminal (sy_child s) = Some v" "frame = terminal_frame env v" "length ?sent = 4" by metis
    have "sy_authorized s" using v(1) D(7) by (rule entered_authorized [rotated])
    then show ?thesis
      unfolding v(4) using v True up
      by (intro session_inv_read_terminal [OF inv ok ph, of v rest code]) simp_all
  next
    case False
    with u have n: "2 < length ?sent" "?sent ! 2 = frame" "rest = drop 3 ?sent" by (simp_all add: numeral_3_eq_3)
    from sent_up_2 [OF n(1)] n(2) consider
        (started) "sy_ran s" "frame = plain_frame FkStarted SUPERVISOR_REQUEST_ID []"
      | (finished) code v where "\<not> sy_ran s" "sy_cphase s = CpExited code"
        "ch_terminal (sy_child s) = Some v" "frame = terminal_frame env v" "length ?sent = 3" by metis
    then show ?thesis
    proof cases
      case started
      have "sy_authorized s" using started(1) D(7) by (rule entered_authorized [rotated])
      with D(5) ph False have p: "ps_request_id ?p = SUPERVISOR_REQUEST_ID" "ps_terminal ?p = None"
          "ps_state ?p = PsAwaitStarted \<or> ps_state ?p = PsCancelling \<and> ps_cancel_reason ?p \<noteq> None"
        by (auto split: if_splits)
      define p' where "p' = (if ps_state ?p = PsAwaitStarted
        then ?p\<lparr>ps_started_received := True, ps_state := PsStarted\<rparr>
        else ?p\<lparr>ps_started_received := True\<rparr>)"
      have h: "parent_read (se_formats env) frame (s\<lparr>sy_up := rest\<rparr>) =
          s\<lparr>sy_up := rest, sy_parent := p', sy_pphase := PpRead\<rparr>"
        using p False ph by (auto simp: parent_read_def started(2) receive_child_frame_def p'_def)
      show ?thesis
        by (rule session_inv_parent_reads [OF inv h])
          (use p n ph \<open>sy_authorized s\<close> in \<open>auto simp: p'_def\<close>)
    next
      case finished
      have "\<not> sy_authorized s" using finished(1,2) D(7) by simp
      then show ?thesis
        unfolding finished(4) using finished False up
        by (intro session_inv_read_terminal [OF inv ok ph, of v rest code]) simp_all
    qed
  qed
qed

lemma session_inv_no_duplicate:
  assumes inv: "session_inv env s" and ph: "sy_pphase s = PpGrace t"
  shows "sy_up s = []"
proof -
  note D = session_invD [OF inv]
  from D(5) ph obtain code where c: "sy_cphase s = CpExited code" "ch_terminal (sy_child s) = Some t"
      "ps_started_received (sy_parent s) = sy_authorized s" by auto
  with D(7) have "sy_ran s = sy_authorized s" by simp
  with c ph D(1) show ?thesis
    by (simp add: opening_frames_def started_frames_def split: if_splits)
qed

lemma session_inv_finish:
  assumes inv: "session_inv env s" and ph: "sy_pphase s = PpGrace t"
  shows "session_inv env (parent_finish t s)"
proof -
  note D = session_invD [OF inv]
  have h: "parent_finish t s = s\<lparr>sy_up := sy_up s, sy_parent := sy_parent s,
      sy_pphase := PpDone t (ps_cancel_reason (sy_parent s))\<rparr>"
    using D(5) ph by (simp add: parent_finish_def cancellation_before_terminal_def)
  show ?thesis
    by (rule session_inv_parent_reads [OF inv h]) (use D ph in simp_all)
qed

text \<open>Steps of the child: it reads from one queue, writes to the other, and moves its own phase.\<close>

lemma phase_inv_child:
  "phase_inv ph p a w c t \<Longrightarrow> \<forall>code. c \<noteq> CpExited code \<Longrightarrow> phase_inv ph p a w c' t'"
  by (cases ph) auto

lemma session_inv_child_moves:
  assumes inv: "session_inv env s" and live: "\<forall>code. sy_cphase s \<noteq> CpExited code"
    and s': "s' = s\<lparr>sy_down := down, sy_up := sy_up s @ new, sy_child := c', sy_cphase := ph',
        sy_control := k', sy_child_cancel := x', sy_ran := e'\<rparr>"
    and up: "sent_up env ph' e' (ch_terminal c') =
        sent_up env (sy_cphase s) (sy_ran s) (ch_terminal (sy_child s)) @ new"
    and down: "read_down ph' \<le> length (sent_down env (sy_pphase s) (sy_authorized s) (sy_parent s))"
      "down = drop (read_down ph') (sent_down env (sy_pphase s) (sy_authorized s) (sy_parent s))
       \<or> down = [] \<and> read_down ph' = 2 \<and> sx_is_requested x'"
    and c: "child_phase_inv ph' c' (sy_authorized s) e' (ps_cancel_reason (sy_parent s))"
    and k: "control_inv ph' k' x' down (sy_parent s)"
  shows "session_inv env s'"
proof -
  note D = session_invD [OF inv]
  show ?thesis
    by (rule session_invI) (use D phase_inv_child [OF D(5) live] up down c k in \<open>simp_all add: s'\<close>)
qed

lemma session_inv_child_hello:
  assumes inv: "session_inv env s" and ok: "env_ok env" and ph: "sy_cphase s = CpHello"
  shows "session_inv env (child_hello (se_token env) s)"
proof -
  note D = session_invD [OF inv]
  have small: "length (se_token env) \<le> MAX_SUPERVISOR_FRAME_PAYLOAD"
    using ok by (simp add: env_ok_def token_wf_def SUPERVISOR_TOKEN_LEN_def MAX_SUPERVISOR_FRAME_PAYLOAD_def)
  have h: "child_hello (se_token env) s = s\<lparr>sy_down := sy_down s,
      sy_up := sy_up s @ [plain_frame FkHello 0 (se_token env)], sy_child := sy_child s,
      sy_cphase := CpRequest, sy_control := sy_control s, sy_child_cancel := sy_child_cancel s,
      sy_ran := sy_ran s\<rparr>"
    by (simp add: child_hello_def send_up_def frame_new_small [OF small])
  show ?thesis
    by (rule session_inv_child_moves [OF inv _ h])
      (use D ph in \<open>auto simp: control_inv_def\<close>)
qed

lemma session_inv_child_request:
  assumes inv: "session_inv env s" and ph: "sy_cphase s = CpRequest" and d: "sy_down s = frame # rest"
  shows "session_inv env (child_request (se_formats env) frame (s\<lparr>sy_down := rest\<rparr>))"
proof -
  let ?sent = "sent_down env (sy_pphase s) (sy_authorized s) (sy_parent s)"
  note D = session_invD [OF inv]
  have dn: "?sent = frame # rest" using D(4) ph d by simp
  then have f: "frame = plain_frame FkRequest SUPERVISOR_REQUEST_ID (se_request env)"
    by (auto simp: sent_down_def split: if_splits)
  have c: "sy_child s = child_new" "\<not> sy_ran s" using D(7) ph by simp_all
  have h: "child_request (se_formats env) frame (s\<lparr>sy_down := rest\<rparr>) = s\<lparr>sy_down := rest,
      sy_up := sy_up s @ [plain_frame FkAccepted SUPERVISOR_REQUEST_ID []],
      sy_child := child_new\<lparr>ch_request_id := Some SUPERVISOR_REQUEST_ID, ch_state := ChAwaitStart\<rparr>,
      sy_cphase := CpNext, sy_control := sy_control s, sy_child_cancel := sy_child_cancel s,
      sy_ran := sy_ran s\<rparr>"
    by (simp add: child_request_def f c receive_parent_frame_def send_up_def frame_new_small)
  show ?thesis
    by (rule session_inv_child_moves [OF inv _ h])
      (use D ph c dn in \<open>auto simp: control_inv_def opening_frames_def\<close>)
qed

lemma control_inv_stop:
  "control_inv ph k c d p \<Longrightarrow> control_inv (CpExited code) False c d' p"
  by (simp add: control_inv_def)

lemma child_exit_shape:
  "supervisor_child_exit fm outcome code category state =
   (let t = plain_terminal outcome code category in
    case child_mark_terminal t state of
      (Inl e, state) \<Rightarrow> (Inl (ErrIo e), state)
    | (Inr _, state) \<Rightarrow>
        (case ch_request_id state of
           None \<Rightarrow> (Inl (supervisor_error ''supervisor child has no request ID''), state)
         | Some request_id \<Rightarrow>
             (case encode_payload (fm_terminal fm) t of
                Inl e \<Rightarrow> (Inl (ErrIo e), state)
              | Inr payload \<Rightarrow>
                  (case frame_new FkTerminal request_id payload of
                     Inl e \<Rightarrow> (Inl (ErrIo e), state)
                   | Inr frame \<Rightarrow>
                       (Inr (case outcome of
                               SoCompleted \<Rightarrow> (case code of None \<Rightarrow> 1 | Some c \<Rightarrow> c)
                             | _ \<Rightarrow> 1, frame), state)))))"
  unfolding supervisor_child_exit_def plain_terminal_def ..

lemma valid_outcome_code:
  "validate_supervisor_terminal_shape (plain_terminal outcome code category) = Inr () \<Longrightarrow>
   (case outcome of SoCompleted \<Rightarrow> (case code of None \<Rightarrow> 1 | Some c \<Rightarrow> c) | _ \<Rightarrow> 1) =
   (case code of None \<Rightarrow> 1 | Some (c :: int) \<Rightarrow> c)"
  by (cases outcome) (auto simp: validate_supervisor_terminal_shape_def plain_terminal_def
      terminal_fields_valid_def split: if_splits)

lemma child_exit_result:
  assumes ok: "env_ok env"
    and t: "validate_supervisor_terminal_shape (plain_terminal outcome code category) = Inr ()"
      "exit_code_in_range (plain_terminal outcome code category)"
    and c: "ch_terminal (sy_child s) = None" "ch_state (sy_child s) \<in> {ChCancelling, ChStarted}"
      "ch_request_id (sy_child s) = Some SUPERVISOR_REQUEST_ID"
  shows "child_exit (se_formats env) (outcome, code, category) s =
    s\<lparr>sy_child := (sy_child s)\<lparr>ch_terminal := Some (plain_terminal outcome code category),
        ch_state := ChTerminal\<rparr>,
      sy_cphase := CpExited (case code of None \<Rightarrow> 1 | Some c \<Rightarrow> c),
      sy_up := sy_up s @ [terminal_frame env (plain_terminal outcome code category)]\<rparr>"
proof -
  let ?t = "plain_terminal outcome code category"
  from terminal_payload [OF ok t] obtain payload where p:
    "encode_payload (fm_terminal (se_formats env)) ?t = Inr payload"
    "length payload \<le> MAX_SUPERVISOR_FRAME_PAYLOAD"
    "terminal_frame env ?t = plain_frame FkTerminal SUPERVISOR_REQUEST_ID payload" by blast
  have m: "child_mark_terminal ?t (sy_child s) =
      (Inr True, (sy_child s)\<lparr>ch_terminal := Some ?t, ch_state := ChTerminal\<rparr>)"
    using t(1) c by (auto simp: child_mark_terminal_def)
  show ?thesis
    by (simp add: child_exit_def child_exit_shape m c(3) p frame_new_small Let_def
        valid_outcome_code [OF t(1)])
qed

lemma plain_terminal_simps [simp]:
  "st_outcome (plain_terminal o1 c k) = o1" "st_exit_code (plain_terminal o1 c k) = c"
  "st_category (plain_terminal o1 c k) = k"
  by (simp_all add: plain_terminal_def)

lemma cancelled_shape:
  "validate_supervisor_terminal_shape (plain_terminal (reason_outcome r) None None) = Inr ()"
  "exit_code_in_range (plain_terminal (reason_outcome r) None None)"
  by (cases r; simp add: validate_supervisor_terminal_shape_def terminal_fields_valid_def
      plain_terminal_def exit_code_in_range_def)+

lemma next_frames:
  assumes "sent_down env ph a p = req # frame # rest" "phase_inv ph p a w c t"
  shows "a \<and> frame = plain_frame FkStart SUPERVISOR_REQUEST_ID []
    \<or> \<not> a \<and> ps_cancel_sent p \<and> frame = cancel_frame env (the (ps_cancel_reason p)) \<and> rest = []"
  using assms by (cases "ph = PpStart") (auto simp: sent_down_def split: if_splits)

lemma session_inv_child_next:
  assumes inv: "session_inv env s" and ok: "env_ok env" and ph: "sy_cphase s = CpNext"
    and d: "sy_down s = frame # rest"
  shows "session_inv env (child_next (se_formats env) frame (s\<lparr>sy_down := rest\<rparr>))"
proof -
  let ?sent = "sent_down env (sy_pphase s) (sy_authorized s) (sy_parent s)"
  note D = session_invD [OF inv]
  have c: "sy_child s = child_new\<lparr>ch_request_id := Some SUPERVISOR_REQUEST_ID, ch_state := ChAwaitStart\<rparr>"
      "\<not> sy_ran s" "\<not> sy_control s" using D(7,8) ph by (simp_all add: control_inv_def)
  have "drop 1 ?sent = frame # rest" using D(4) ph d by simp
  then obtain req where dn: "?sent = req # frame # rest" by (cases ?sent) auto
  from next_frames [OF dn D(5)] consider
      (start) "sy_authorized s" "frame = plain_frame FkStart SUPERVISOR_REQUEST_ID []"
    | (cancel) "\<not> sy_authorized s" "ps_cancel_sent (sy_parent s)"
        "frame = cancel_frame env (the (ps_cancel_reason (sy_parent s)))" "rest = []"
    by blast
  then show ?thesis
  proof cases
    case start
    have h: "child_next (se_formats env) frame (s\<lparr>sy_down := rest\<rparr>) = s\<lparr>sy_down := rest,
        sy_up := sy_up s @ [], sy_child := child_new\<lparr>ch_request_id := Some SUPERVISOR_REQUEST_ID,
          ch_state := ChStarted\<rparr>,
        sy_cphase := CpStarting, sy_control := True, sy_child_cancel := sy_child_cancel s,
        sy_ran := sy_ran s\<rparr>"
      by (simp add: child_next_def start(2) c receive_parent_frame_def)
    have "\<not> sx_is_requested (sy_child_cancel s)"
      using D(8) ph by (simp add: control_inv_def sx_new_def sx_is_requested_def cancel_ctx_new_def)
    then show ?thesis
      by (intro session_inv_child_moves [OF inv _ h])
        (use D ph c dn start in \<open>auto simp: control_inv_def\<close>)
  next
    case cancel
    obtain reason where reason: "ps_cancel_reason (sy_parent s) = Some reason"
      using D(6) cancel(2) by (auto simp: cancel_inv_def)
    from reason_payload [OF ok, of reason] obtain payload where pl:
      "decode_payload (fm_reason (se_formats env)) payload = Inr reason"
      "cancel_frame env reason = plain_frame FkCancel SUPERVISOR_REQUEST_ID payload" by blast
    have f: "frame = plain_frame FkCancel SUPERVISOR_REQUEST_ID payload" using cancel(3) reason pl by simp
    let ?t = "plain_terminal (reason_outcome reason) None None"
    let ?c = "child_new\<lparr>ch_request_id := Some SUPERVISOR_REQUEST_ID, ch_cancel_reason := Some reason,
        ch_state := ChCancelling\<rparr>"
    have e: "child_exit (se_formats env) (reason_outcome reason, None, None)
          (s\<lparr>sy_down := rest, sy_child := ?c\<rparr>) =
        s\<lparr>sy_down := rest, sy_child := ?c\<lparr>ch_terminal := Some ?t, ch_state := ChTerminal\<rparr>,
          sy_cphase := CpExited 1, sy_up := sy_up s @ [terminal_frame env ?t]\<rparr>"
      by (subst child_exit_result [OF ok cancelled_shape]) simp_all
    have h: "child_next (se_formats env) frame (s\<lparr>sy_down := rest\<rparr>) =
        s\<lparr>sy_down := rest, sy_up := sy_up s @ [terminal_frame env ?t],
          sy_child := ?c\<lparr>ch_terminal := Some ?t, ch_state := ChTerminal\<rparr>,
          sy_cphase := CpExited 1, sy_control := sy_control s, sy_child_cancel := sy_child_cancel s,
          sy_ran := sy_ran s\<rparr>"
    proof -
      have "child_next (se_formats env) frame (s\<lparr>sy_down := rest\<rparr>) =
          child_exit (se_formats env) (reason_outcome reason, None, None) (s\<lparr>sy_down := rest, sy_child := ?c\<rparr>)"
        by (simp add: child_next_def f c(1) receive_parent_frame_def pl)
      also note e
      finally show ?thesis by (intro session_sys.equality) simp_all
    qed
    have k: "control_inv (CpExited 1) (sy_control s) (sy_child_cancel s) rest (sy_parent s)"
      using D(8) c(3) by (simp add: control_inv_def)
    show ?thesis
      by (rule session_inv_child_moves [OF inv _ h])
        (use D ph c dn cancel reason k cancelled_shape in
          \<open>auto simp: opening_frames_def started_frames_def\<close>)
  qed
qed

lemma session_inv_child_started:
  assumes inv: "session_inv env s" and ph: "sy_cphase s = CpStarting"
  shows "session_inv env (child_started s)"
proof -
  note D = session_invD [OF inv]
  have c: "sy_child s = child_new\<lparr>ch_request_id := Some SUPERVISOR_REQUEST_ID, ch_state := ChStarted\<rparr>"
      "\<not> sy_ran s" "sy_authorized s" using D(7) ph by simp_all
  have h: "child_started s = s\<lparr>sy_down := sy_down s,
      sy_up := sy_up s @ [plain_frame FkStarted SUPERVISOR_REQUEST_ID []], sy_child := sy_child s,
      sy_cphase := CpRunning, sy_control := sy_control s, sy_child_cancel := sy_child_cancel s,
      sy_ran := True\<rparr>"
    by (simp add: child_started_def c send_up_def frame_new_small)
  show ?thesis
    by (rule session_inv_child_moves [OF inv _ h])
      (use D ph c in \<open>auto simp: control_inv_def started_frames_def\<close>)
qed

lemma after_start_frames:
  assumes "drop 2 (sent_down env ph True p) = frame # rest"
  shows "ps_cancel_sent p \<and> frame = cancel_frame env (the (ps_cancel_reason p)) \<and> rest = []"
  using assms by (auto simp: sent_down_def split: if_splits)

lemma session_inv_child_control:
  assumes inv: "session_inv env s" and ok: "env_ok env" and k: "sy_control s" and d: "sy_down s = frame # rest"
  shows "session_inv env (child_control (se_formats env) frame (s\<lparr>sy_down := rest\<rparr>))"
proof -
  let ?sent = "sent_down env (sy_pphase s) (sy_authorized s) (sy_parent s)"
  note D = session_invD [OF inv]
  have ph: "sy_cphase s \<in> {CpStarting, CpRunning}" and nr: "\<not> sx_is_requested (sy_child_cancel s)"
    using D(8) k d by (auto simp: control_inv_def)
  have c: "ch_request_id (sy_child s) = Some SUPERVISOR_REQUEST_ID" "sy_authorized s"
      "read_down (sy_cphase s) = 2"
    using D(7) ph by auto
  have "drop 2 ?sent = frame # rest" using D(4) c d by auto
  with c(2) after_start_frames have f: "ps_cancel_sent (sy_parent s)"
      "frame = cancel_frame env (the (ps_cancel_reason (sy_parent s)))" "rest = []"
    by (metis (full_types))+
  obtain reason where reason: "ps_cancel_reason (sy_parent s) = Some reason"
    using D(6) f(1) by (auto simp: cancel_inv_def)
  from reason_payload [OF ok, of reason] obtain payload where pl:
    "decode_payload (fm_reason (se_formats env)) payload = Inr reason"
    "cancel_frame env reason = plain_frame FkCancel SUPERVISOR_REQUEST_ID payload" by blast
  have h: "child_control (se_formats env) frame (s\<lparr>sy_down := rest\<rparr>) = s\<lparr>sy_down := [],
      sy_up := sy_up s @ [], sy_child := sy_child s, sy_cphase := sy_cphase s, sy_control := sy_control s,
      sy_child_cancel := sx_request reason (sy_child_cancel s), sy_ran := sy_ran s\<rparr>"
    using nr by (simp add: child_control_def c f reason pl child_control_frame_def)
  show ?thesis
    by (rule session_inv_child_moves [OF inv _ h])
      (use D ph c f in \<open>auto simp: control_inv_def\<close>)
qed

lemma session_inv_child_closed:
  assumes inv: "session_inv env s" and k: "sy_control s" and d: "sy_down s = []"
  shows "session_inv env (child_control_closed s)"
proof -
  note D = session_invD [OF inv]
  have ph: "sy_cphase s \<in> {CpStarting, CpRunning}" using D(8) k by (auto simp: control_inv_def)
  have h: "child_control_closed s = s\<lparr>sy_down := [], sy_up := sy_up s @ [], sy_child := sy_child s,
      sy_cphase := sy_cphase s, sy_control := False,
      sy_child_cancel := sx_request CrUser (sy_child_cancel s), sy_ran := sy_ran s\<rparr>"
    using d by (simp add: child_control_closed_def)
  show ?thesis
  proof (rule session_inv_child_moves [OF inv _ h], goal_cases)
    case 1
    then show ?case using ph by auto
  next
    case 4
    then show ?case using D(4) d ph by auto
  next
    case 6
    then show ?case using D(8) ph by (auto simp: control_inv_def)
  qed (use D(3,7) in simp_all)
qed

lemma failure_category_cases:
  "supervisor_child_failure_category perm e \<in> {FcPermission, FcRuntime, FcInfrastructure}"
  by (cases e) (simp_all add: supervisor_child_failure_category_def)

lemma child_outcome_cases:
  "child_outcome perm cancellation result = (SoDeadline, None, None)
   \<or> child_outcome perm cancellation result = (SoCancelled, None, None)
   \<or> (\<exists>c. result = Inr c \<and> child_outcome perm cancellation result = (SoCompleted, Some c, None))
   \<or> (\<exists>e. child_outcome perm cancellation result =
        (SoFailed, None, Some (supervisor_child_failure_category perm e)))"
proof (cases result)
  case (Inl e)
  then show ?thesis by (cases e) (auto simp: child_outcome_def)
qed (auto simp: child_outcome_def)

lemma failed_shape:
  "validate_supervisor_terminal_shape
     (plain_terminal SoFailed None (Some (supervisor_child_failure_category perm e))) = Inr ()"
  using failure_category_cases [of perm e]
  by (auto simp: validate_supervisor_terminal_shape_def plain_terminal_def terminal_fields_valid_def)

lemma child_outcome_shape:
  assumes "child_outcome perm cancellation result = (outcome, code, category)" "runtime_result_ok result"
  shows "validate_supervisor_terminal_shape (plain_terminal outcome code category) = Inr ()
    \<and> exit_code_in_range (plain_terminal outcome code category)"
proof -
  consider "outcome = SoDeadline" "code = None" "category = None"
    | "outcome = SoCancelled" "code = None" "category = None"
    | c where "outcome = SoCompleted" "result = Inr c" "code = Some c" "category = None"
    | e where "outcome = SoFailed" "code = None" "category = Some (supervisor_child_failure_category perm e)"
    using child_outcome_cases [of perm cancellation result] assms(1) by auto
  then show ?thesis
  proof cases
    case 1
    then show ?thesis using cancelled_shape [of CrDeadline] by simp
  next
    case 2
    then show ?thesis using cancelled_shape [of CrUser] by simp
  next
    case 3
    with assms(2) show ?thesis
      by (simp add: runtime_result_ok_def exit_code_in_range_def validate_supervisor_terminal_shape_def
          plain_terminal_def terminal_fields_valid_def)
  next
    case 4
    then show ?thesis using failed_shape by (simp add: exit_code_in_range_def)
  qed
qed

lemma session_inv_child_finish:
  assumes inv: "session_inv env s" and ok: "env_ok env" and ph: "sy_cphase s = CpRunning"
    and result: "runtime_result_ok result"
  shows "session_inv env (child_finish (se_formats env) perm result s)"
proof -
  note D = session_invD [OF inv]
  obtain outcome code category where oc:
    "child_outcome perm (sy_child_cancel s) result = (outcome, code, category)"
    by (cases "child_outcome perm (sy_child_cancel s) result")
  note t = child_outcome_shape [OF oc result, THEN conjunct1] child_outcome_shape [OF oc result, THEN conjunct2]
  have c: "sy_child s = child_new\<lparr>ch_request_id := Some SUPERVISOR_REQUEST_ID, ch_state := ChStarted\<rparr>"
      "sy_ran s" "sy_authorized s" using D(7) ph by simp_all
  let ?t = "plain_terminal outcome code category"
  have e: "child_exit (se_formats env) (outcome, code, category) (s\<lparr>sy_control := False\<rparr>) =
      s\<lparr>sy_control := False, sy_child := (sy_child s)\<lparr>ch_terminal := Some ?t, ch_state := ChTerminal\<rparr>,
        sy_cphase := CpExited (case code of None \<Rightarrow> 1 | Some c \<Rightarrow> c),
        sy_up := sy_up s @ [terminal_frame env ?t]\<rparr>"
    by (subst child_exit_result [OF ok t]) (simp_all add: c)
  have h: "child_finish (se_formats env) perm result s = s\<lparr>sy_down := sy_down s,
      sy_up := sy_up s @ [terminal_frame env ?t],
      sy_child := (sy_child s)\<lparr>ch_terminal := Some ?t, ch_state := ChTerminal\<rparr>,
      sy_cphase := CpExited (case code of None \<Rightarrow> 1 | Some c \<Rightarrow> c), sy_control := False,
      sy_child_cancel := sy_child_cancel s, sy_ran := sy_ran s\<rparr>"
    unfolding child_finish_def oc e by (intro session_sys.equality) simp_all
  have k: "control_inv (CpExited (case code of None \<Rightarrow> 1 | Some c \<Rightarrow> c)) False (sy_child_cancel s)
      (sy_down s) (sy_parent s)"
    using D(8) by (simp add: control_inv_def)
  show ?thesis
    by (rule session_inv_child_moves [OF inv _ h])
      (use D ph c t k in \<open>auto simp: started_frames_def\<close>)
qed

lemma session_inv_parent_step:
  assumes "session_inv env s" "env_ok env" "parent_step env s t"
  shows "session_inv env t"
  using assms(3)
proof cases
  case ps_listen
  with assms show ?thesis by (simp add: session_inv_listen)
next
  case (ps_hello frame rest)
  with assms show ?thesis by (simp add: session_inv_hello)
next
  case ps_request
  with assms show ?thesis by (simp add: session_inv_request)
next
  case ps_accepted
  with assms show ?thesis by (simp add: session_inv_accepted)
next
  case ps_authorize
  with assms show ?thesis by (simp add: session_inv_authorize)
next
  case ps_start
  with assms show ?thesis by (simp add: session_inv_start)
next
  case ps_worker
  with assms show ?thesis by (simp add: session_inv_worker)
next
  case (ps_read frame rest)
  with assms show ?thesis by (simp add: session_inv_read)
next
  case (ps_duplicate t' frame rest)
  with session_inv_no_duplicate [OF assms(1)] show ?thesis by simp
next
  case (ps_finish t')
  with assms show ?thesis by (simp add: session_inv_finish)
qed

lemma session_inv_child_step:
  assumes "session_inv env s" "env_ok env" "child_step env s t"
  shows "session_inv env t"
  using assms(3)
proof cases
  case cs_hello
  with assms show ?thesis by (simp add: session_inv_child_hello)
next
  case (cs_request frame rest)
  with assms show ?thesis by (simp add: session_inv_child_request)
next
  case (cs_next frame rest)
  with assms show ?thesis by (simp add: session_inv_child_next)
next
  case cs_started
  with assms show ?thesis by (simp add: session_inv_child_started)
next
  case (cs_control frame rest)
  with assms show ?thesis by (simp add: session_inv_child_control)
next
  case cs_closed
  with assms show ?thesis by (simp add: session_inv_child_closed)
next
  case (cs_finish result)
  with assms show ?thesis by (simp add: session_inv_child_finish)
qed

lemma session_inv_step:
  assumes inv: "session_inv env s" and ok: "env_ok env" and step: "session_step env s t"
  shows "session_inv env t"
  using step
proof cases
  case ss_parent
  with inv ok show ?thesis by (blast intro: session_inv_parent_step)
next
  case ss_child
  with inv ok show ?thesis by (blast intro: session_inv_child_step)
qed (simp_all add: session_inv_cancel session_inv_failed inv)

text \<open>
  An environment that meets \<open>env_ok\<close> makes the two processes a transition system with
  \<open>session_inv\<close> as its invariant; without one there is no initial state.
\<close>

definition session_init_in :: "session_env \<Rightarrow> session_sys \<Rightarrow> bool" where
  "session_init_in env s \<longleftrightarrow> env_ok env \<and> session_init s"

definition session_step_in :: "session_env \<Rightarrow> session_sys \<Rightarrow> session_sys \<Rightarrow> bool" where
  "session_step_in env s t \<longleftrightarrow> env_ok env \<and> session_step env s t"

interpretation supervised_session: invariant_system "session_init_in env" "session_step_in env" "session_inv env"
  for env
  by unfold_locales (auto simp: session_init_in_def session_step_in_def
      intro: session_inv_init session_inv_step)

end
