(* ===== verification/Ld_Supervision_Main.thy ===== *)
theory Ld_Supervision_Main
  imports Ld_Supervision
begin

text \<open>
  What the two processes of a supervised run guarantee together: an honest peer is never
  rejected, a cancellation that precedes the authorisation keeps user code from running, both
  sides end with the same result, and a run that has not failed can still complete exactly when no
  cancellation or deadline is going to stop its handshake.
\<close>

section \<open>What single steps keep\<close>

lemma send_down_keeps [simp]:
  "sy_due (send_down k p s) = sy_due s" "sy_parent (send_down k p s) = sy_parent s" "sy_pphase (send_down k p s) = sy_pphase s"
  "sy_cphase (send_down k p s) = sy_cphase s" "sy_cancel (send_down k p s) = sy_cancel s"
  "sy_authorized (send_down k p s) = sy_authorized s" "sy_ran (send_down k p s) = sy_ran s"
  "sy_child_failed (send_down k p s) = sy_child_failed s"
  by (simp_all add: send_down_def split: sum.split)

lemma send_up_keeps [simp]:
  "sy_due (send_up k i p s) = sy_due s" "sy_parent (send_up k i p s) = sy_parent s" "sy_pphase (send_up k i p s) = sy_pphase s"
  "sy_cphase (send_up k i p s) = sy_cphase s" "sy_cancel (send_up k i p s) = sy_cancel s"
  "sy_authorized (send_up k i p s) = sy_authorized s" "sy_ran (send_up k i p s) = sy_ran s"
  "sy_parent_failed (send_up k i p s) = sy_parent_failed s"
  by (simp_all add: send_up_def split: sum.split)

lemma write_cancel_keeps [simp]:
  "sy_due (write_cancel fm r b s) = sy_due s" "sy_parent (write_cancel fm r b s) = sy_parent s" "sy_pphase (write_cancel fm r b s) = sy_pphase s"
  "sy_cphase (write_cancel fm r b s) = sy_cphase s" "sy_cancel (write_cancel fm r b s) = sy_cancel s"
  "sy_authorized (write_cancel fm r b s) = sy_authorized s" "sy_ran (write_cancel fm r b s) = sy_ran s"
  "sy_child_failed (write_cancel fm r b s) = sy_child_failed s"
  by (simp_all add: write_cancel_def split: sum.split)

lemma write_cancel_ok:
  assumes "env_ok env"
  shows "sy_parent_failed (write_cancel (se_formats env) reason b s) = sy_parent_failed s"
proof -
  from reason_payload [OF assms, of reason] obtain payload where
    "encode_payload (fm_reason (se_formats env)) reason = Inr payload"
    "length payload \<le> MAX_SUPERVISOR_FRAME_PAYLOAD" by blast
  then show ?thesis by (simp add: write_cancel_def send_down_def frame_new_small)
qed

lemma child_exit_keeps [simp]:
  "sy_due (child_exit fm r s) = sy_due s" "sy_parent (child_exit fm r s) = sy_parent s" "sy_pphase (child_exit fm r s) = sy_pphase s"
  "sy_cancel (child_exit fm r s) = sy_cancel s" "sy_authorized (child_exit fm r s) = sy_authorized s"
  "sy_ran (child_exit fm r s) = sy_ran s" "sy_parent_failed (child_exit fm r s) = sy_parent_failed s"
  "sy_child_failed (child_exit fm r s) = sy_child_failed s"
  by (simp_all add: child_exit_def split: prod.split sum.split)

lemma child_exit_phase:
  "sy_cphase (child_exit fm r s) = CpRejected \<or> (\<exists>code. sy_cphase (child_exit fm r s) = CpExited code)"
  by (simp add: child_exit_def split: prod.split sum.split)

lemma child_exit_phase_or:
  "sy_cphase (child_exit fm r s) = CpRejected \<or> sy_cphase (child_exit fm r s) = CpStarting
   \<or> (\<exists>code. sy_cphase (child_exit fm r s) = CpExited code)"
  using child_exit_phase by blast

lemma handshake_io_live:
  "\<not> sx_is_requested (sy_cancel s) \<Longrightarrow> \<not> sy_due s \<Longrightarrow> handshake_io transfer s = transfer s"
  by (simp add: handshake_io_def)

lemma handshake_io_refused:
  "sx_is_requested (sy_cancel s) \<or> sy_due s \<Longrightarrow>
   handshake_io transfer s = s\<lparr>sy_cancel := sy_cancel (handshake_io transfer s), sy_parent_failed := True\<rparr>"
  by (auto simp: handshake_io_def)

lemmas handshake_ops = parent_listen_def parent_request_def parent_accepted_def parent_start_def handshake_io_def

lemmas session_ops = handshake_ops parent_hello_def parent_authorize_def
  worker_cancel_def parent_read_def parent_duplicate_def parent_finish_def child_hello_def
  child_request_def child_next_def child_started_def child_control_def child_control_closed_def
  child_finish_def

lemma parent_ops_cancel [simp]:
  "sy_cancel (parent_hello token f s) = sy_cancel s"
  "sy_cancel (worker_cancel fm s) = sy_cancel s"
  "sy_cancel (parent_read fm f s) = sy_cancel s"
  "sy_cancel (parent_duplicate fm f s) = sy_cancel s"
  "sy_cancel (parent_finish t s) = sy_cancel s"
  by (simp_all add: session_ops Let_def split: prod.split sum.split frame_event.split option.split)

text \<open>An operation that finds the deadline passed requests the cancellation for it, unless one is recorded.\<close>

lemma handshake_ops_cancel [simp]:
  assumes "sx_requested_reason (sy_cancel s) = Some reason"
  shows "sy_cancel (parent_listen s) = sy_cancel s"
    "sy_cancel (parent_request payload s) = sy_cancel s"
    "sy_cancel (parent_accepted fm s) = sy_cancel s"
    "sy_cancel (parent_start s) = sy_cancel s"
    "sy_cancel (parent_authorize fm s) = sy_cancel s"
  using assms by (simp_all add: session_ops Let_def split: prod.split sum.split list.split)

lemma child_ops_cancel [simp]:
  "sy_cancel (child_hello token s) = sy_cancel s"
  "sy_cancel (child_request fm f s) = sy_cancel s"
  "sy_cancel (child_next fm f s) = sy_cancel s"
  "sy_cancel (child_started s) = sy_cancel s"
  "sy_cancel (child_control fm f s) = sy_cancel s"
  "sy_cancel (child_control_closed s) = sy_cancel s"
  "sy_cancel (child_finish fm perm r s) = sy_cancel s"
  by (simp_all add: session_ops Let_def split: prod.split sum.split option.split)

lemma parent_ops_authorized [simp]:
  "sy_authorized (parent_hello token f s) = sy_authorized s"
  "sy_authorized (parent_request payload s) = sy_authorized s"
  "sy_authorized (parent_accepted fm s) = sy_authorized s"
  "sy_authorized (parent_listen s) = sy_authorized s"
  "sy_authorized (parent_start s) = sy_authorized s"
  "sy_authorized (worker_cancel fm s) = sy_authorized s"
  "sy_authorized (parent_read fm f s) = sy_authorized s"
  "sy_authorized (parent_duplicate fm f s) = sy_authorized s"
  "sy_authorized (parent_finish t s) = sy_authorized s"
  by (simp_all add: session_ops Let_def split: prod.split sum.split frame_event.split option.split list.split)

lemma child_ops_authorized [simp]:
  "sy_authorized (child_hello token s) = sy_authorized s"
  "sy_authorized (child_request fm f s) = sy_authorized s"
  "sy_authorized (child_next fm f s) = sy_authorized s"
  "sy_authorized (child_started s) = sy_authorized s"
  "sy_authorized (child_control fm f s) = sy_authorized s"
  "sy_authorized (child_control_closed s) = sy_authorized s"
  "sy_authorized (child_finish fm perm r s) = sy_authorized s"
  by (simp_all add: session_ops Let_def split: prod.split sum.split option.split)

lemma authorize_needs_no_request:
  "sx_requested_reason (sy_cancel s) = Some reason \<Longrightarrow>
   sy_authorized (parent_authorize fm s) = sy_authorized s"
  by (simp add: parent_authorize_def authorize_start_def Let_def split: prod.split sum.split)

lemma refused_step:
  assumes "session_step env s t" and "sx_requested_reason (sy_cancel s) \<noteq> None" "\<not> sy_authorized s"
  shows "sx_requested_reason (sy_cancel t) \<noteq> None \<and> \<not> sy_authorized t"
  using assms(1)
proof cases
  case ss_parent
  from this(2) show ?thesis
    by cases (use assms authorize_needs_no_request in auto)
next
  case ss_child
  from this(2) show ?thesis
    by cases (use assms in auto)
qed (use assms in auto)

lemma refused_steps:
  "(session_step_in env)\<^sup>*\<^sup>* s t \<Longrightarrow> sx_requested_reason (sy_cancel s) \<noteq> None \<Longrightarrow> \<not> sy_authorized s \<Longrightarrow>
   sx_requested_reason (sy_cancel t) \<noteq> None \<and> \<not> sy_authorized t"
proof (induction rule: rtranclp_induct)
  case base
  then show ?case by simp
next
  case (step u v)
  then show ?case using refused_step [of env u v] by (auto simp: session_step_in_def)
qed
section \<open>Progress\<close>

fun parent_weight :: "parent_phase \<Rightarrow> bool \<Rightarrow> nat" where
  "parent_weight PpListen started = 9"
| "parent_weight PpHello started = 8"
| "parent_weight PpRequest started = 7"
| "parent_weight PpAccepted started = 6"
| "parent_weight PpAuthorize started = 5"
| "parent_weight PpStart started = 4"
| "parent_weight PpRead started = (if started then 2 else 3)"
| "parent_weight (PpGrace t) started = 1"
| "parent_weight (PpDone t c) started = 0"
| "parent_weight PpRejected started = 0"

fun child_weight :: "child_phase \<Rightarrow> nat" where
  "child_weight CpHello = 5"
| "child_weight CpRequest = 4"
| "child_weight CpNext = 3"
| "child_weight CpStarting = 2"
| "child_weight CpRunning = 1"
| "child_weight _ = 0"

definition session_weight :: "session_sys \<Rightarrow> nat" where
  "session_weight s = parent_weight (sy_pphase s) (ps_started_received (sy_parent s))
     + child_weight (sy_cphase s)"

text \<open>Up to the START frame, a requested cancellation or a passed deadline fails the next read or write.\<close>

definition handshake_live :: "session_sys \<Rightarrow> bool" where
  "handshake_live s \<longleftrightarrow>
     (sy_pphase s \<in> {PpListen, PpHello, PpRequest, PpAccepted, PpStart} \<longrightarrow>
      \<not> sx_is_requested (sy_cancel s) \<and> \<not> sy_due s)"

definition healthy :: "session_sys \<Rightarrow> bool" where
  "healthy s \<longleftrightarrow> \<not> sy_parent_failed s \<and> \<not> sy_child_failed s \<and> handshake_live s"

definition session_finished :: "session_sys \<Rightarrow> bool" where
  "session_finished s \<longleftrightarrow> (\<exists>t c. sy_pphase s = PpDone t c)"

lemma not_rejected: "session_inv env s \<Longrightarrow> sy_pphase s \<noteq> PpRejected \<and> sy_cphase s \<noteq> CpRejected"
  by (auto simp: session_inv_def)

lemma parent_phase_moves:
  "sy_pphase (parent_hello token f s) \<in> {PpRejected, PpRequest}"
  "sy_pphase (parent_authorize fm s) \<in> {PpRejected, PpStart, PpRead}"
  by (simp_all add: session_ops Let_def split: prod.split sum.split)

lemma handshake_phase_moves:
  assumes "\<not> sx_is_requested (sy_cancel s)" "\<not> sy_due s"
  shows "sy_pphase (parent_listen s) = PpHello"
    "sy_pphase (parent_request payload s) \<in> {PpRejected, PpAccepted}"
    "sy_up s \<noteq> [] \<Longrightarrow> sy_pphase (parent_accepted fm s) \<in> {PpRejected, PpAuthorize}"
    "sy_pphase (parent_start s) = PpRead"
  using assms by (simp_all add: session_ops split: prod.split sum.split list.split)

lemma parent_ops_child [simp]:
  "sy_cphase (parent_hello token f s) = sy_cphase s"
  "sy_cphase (parent_listen s) = sy_cphase s"
  "sy_cphase (parent_request payload s) = sy_cphase s"
  "sy_cphase (parent_accepted fm s) = sy_cphase s"
  "sy_cphase (parent_authorize fm s) = sy_cphase s"
  "sy_cphase (parent_start s) = sy_cphase s"
  "sy_cphase (parent_read fm f s) = sy_cphase s"
  "sy_cphase (parent_finish t s) = sy_cphase s"
  by (simp_all add: session_ops Let_def split: prod.split sum.split frame_event.split option.split list.split)

lemma child_ops_parent [simp]:
  "sy_pphase (child_hello token s) = sy_pphase s" "sy_parent (child_hello token s) = sy_parent s"
  "sy_pphase (child_request fm f s) = sy_pphase s" "sy_parent (child_request fm f s) = sy_parent s"
  "sy_pphase (child_next fm f s) = sy_pphase s" "sy_parent (child_next fm f s) = sy_parent s"
  "sy_pphase (child_started s) = sy_pphase s" "sy_parent (child_started s) = sy_parent s"
  "sy_pphase (child_control fm f s) = sy_pphase s" "sy_parent (child_control fm f s) = sy_parent s"
  "sy_pphase (child_control_closed s) = sy_pphase s" "sy_parent (child_control_closed s) = sy_parent s"
  "sy_pphase (child_finish fm perm r s) = sy_pphase s" "sy_parent (child_finish fm perm r s) = sy_parent s"
  by (simp_all add: session_ops Let_def split: prod.split sum.split option.split)

lemma child_phase_moves:
  "sy_cphase (child_hello token s) = CpRequest"
  "sy_cphase (child_request fm f s) \<in> {CpRejected, CpNext}"
  "sy_cphase (child_next fm f s) \<in> {CpRejected, CpStarting} \<or> (\<exists>code. sy_cphase (child_next fm f s) = CpExited code)"
  "sy_cphase (child_started s) \<in> {CpRejected, CpRunning}"
  "sy_cphase (child_finish fm perm r s) = CpRejected \<or> (\<exists>code. sy_cphase (child_finish fm perm r s) = CpExited code)"
  by (simp_all add: session_ops Let_def child_exit_phase child_exit_phase_or
      split: prod.split sum.split option.split)

lemma child_ops_due [simp]:
  "sy_due (child_hello token s) = sy_due s" "sy_parent_failed (child_hello token s) = sy_parent_failed s"
  "sy_due (child_request fm f s) = sy_due s" "sy_parent_failed (child_request fm f s) = sy_parent_failed s"
  "sy_due (child_next fm f s) = sy_due s" "sy_parent_failed (child_next fm f s) = sy_parent_failed s"
  "sy_due (child_started s) = sy_due s" "sy_parent_failed (child_started s) = sy_parent_failed s"
  "sy_due (child_control fm f s) = sy_due s" "sy_parent_failed (child_control fm f s) = sy_parent_failed s"
  "sy_due (child_control_closed s) = sy_due s" "sy_parent_failed (child_control_closed s) = sy_parent_failed s"
  "sy_due (child_finish fm perm r s) = sy_due s" "sy_parent_failed (child_finish fm perm r s) = sy_parent_failed s"
  by (simp_all add: session_ops Let_def split: prod.split sum.split option.split)

lemma authorized_undue:
  assumes "sy_pphase (parent_authorize fm s) = PpStart" "sx_consistent (sy_cancel s)"
  shows "\<not> sx_is_requested (sy_cancel s) \<and> \<not> sy_due s"
  using assms
  by (cases "sx_requested_reason (sy_cancel s)"; cases "sy_due s")
    (auto simp: parent_authorize_def authorize_start_def Let_def sx_consistent_def cancel_if_due_def
      split: prod.splits sum.splits if_splits)

lemma parent_ops_failed:
  assumes "env_ok env"
  shows "sy_parent_failed (parent_hello token f s) = sy_parent_failed s"
    "sy_child_failed (parent_hello token f s) = sy_child_failed s"
    "sy_parent_failed (parent_authorize (se_formats env) s) = sy_parent_failed s"
    "sy_child_failed (parent_authorize (se_formats env) s) = sy_child_failed s"
    "sy_parent_failed (parent_read (se_formats env) f s) = sy_parent_failed s"
    "sy_child_failed (parent_read (se_formats env) f s) = sy_child_failed s"
    "sy_parent_failed (parent_finish t s) = sy_parent_failed s"
    "sy_child_failed (parent_finish t s) = sy_child_failed s"
  using write_cancel_ok [OF assms]
  by (simp_all add: session_ops Let_def split: prod.split sum.split frame_event.split option.split)

lemma handshake_ops_healthy:
  assumes "env_ok env" "healthy s" "\<not> sx_is_requested (sy_cancel s)" "\<not> sy_due s"
  shows "healthy (parent_listen s)"
    "healthy (parent_request (se_request env) s)"
    "healthy (parent_accepted (se_formats env) s)"
    "healthy (parent_start s)"
  using assms
  by (simp_all add: healthy_def handshake_live_def session_ops send_down_def frame_new_small env_ok_def
      split: prod.split sum.split list.split)

lemma parent_ops_healthy:
  assumes "env_ok env" "healthy s"
  shows "sy_pphase s = PpHello \<Longrightarrow> healthy (parent_hello token f s)"
    "sx_consistent (sy_cancel s) \<Longrightarrow> healthy (parent_authorize (se_formats env) s)"
    "sy_pphase s = PpRead \<Longrightarrow> healthy (parent_read (se_formats env) f s)"
    "healthy (parent_finish t s)"
proof -
  show "healthy (parent_hello token f s)" if "sy_pphase s = PpHello"
    using assms that parent_ops_failed [OF assms(1)]
    by (simp add: healthy_def handshake_live_def)
      (simp add: parent_hello_def split: prod.split sum.split)
  show "healthy (parent_authorize (se_formats env) s)" if "sx_consistent (sy_cancel s)"
  proof -
    have "sy_cancel (parent_authorize (se_formats env) s) = sy_cancel s"
      if "\<not> sy_due s"
      using that by (simp add: parent_authorize_def Let_def split: prod.split sum.split)
    moreover have "sy_due (parent_authorize (se_formats env) s) = sy_due s"
      by (simp add: parent_authorize_def Let_def split: prod.split sum.split)
    ultimately show ?thesis
      using authorized_undue [OF _ that, of "se_formats env"] parent_phase_moves(2) [of "se_formats env" s]
        assms parent_ops_failed [OF assms(1)]
      by (cases "sy_pphase (parent_authorize (se_formats env) s)") (simp_all add: healthy_def handshake_live_def)
  qed
  show "healthy (parent_read (se_formats env) f s)" if "sy_pphase s = PpRead"
    using assms that parent_ops_failed [OF assms(1)]
    by (simp add: healthy_def handshake_live_def)
      (simp add: parent_read_def split: prod.split sum.split frame_event.split option.split)
  show "healthy (parent_finish t s)"
    using assms by (simp add: healthy_def handshake_live_def parent_finish_def)
qed

lemma child_ops_healthy:
  assumes "env_ok env"
  shows "healthy (child_hello (se_token env) s) = healthy s"
    "healthy (child_request (se_formats env) f s) = healthy s"
    "healthy (child_next (se_formats env) f s) = healthy s"
    "healthy (child_started s) = healthy s"
    "healthy (child_finish (se_formats env) perm r s) = healthy s"
  using assms
  by (simp_all add: healthy_def handshake_live_def)
    (simp_all add: session_ops Let_def send_up_def frame_new_small env_ok_def token_wf_def
      SUPERVISOR_TOKEN_LEN_def MAX_SUPERVISOR_FRAME_PAYLOAD_def
      split: prod.split sum.split option.split)

lemma parent_read_weight:
  assumes inv: "session_inv env s" and inv': "session_inv env (parent_read fm f (s\<lparr>sy_up := rest\<rparr>))"
    and ph: "sy_pphase s = PpRead"
  shows "parent_weight (sy_pphase (parent_read fm f (s\<lparr>sy_up := rest\<rparr>)))
      (ps_started_received (sy_parent (parent_read fm f (s\<lparr>sy_up := rest\<rparr>))))
    < parent_weight PpRead (ps_started_received (sy_parent s))"
proof -
  obtain r p where r: "receive_child_frame fm f (sy_parent s) = (r, p)"
    by (cases "receive_child_frame fm f (sy_parent s)")
  have st: "ps_state (sy_parent s) \<in> {PsAwaitStarted, PsStarted, PsCancelling, PsCancellingBeforeStart}"
    "ps_state (sy_parent s) = PsAwaitStarted \<Longrightarrow> \<not> ps_started_received (sy_parent s)"
    using session_invD(5) [OF inv] ph by (auto split: if_splits)
  note cases = receive_child_frame_cases [OF r]
  show ?thesis
  proof (cases r)
    case (Inl e)
    then have "sy_pphase (parent_read fm f (s\<lparr>sy_up := rest\<rparr>)) = PpRejected"
      by (simp add: parent_read_def r)
    with not_rejected [OF inv'] show ?thesis by simp
  next
    case (Inr event)
    show ?thesis
    proof (cases event)
      case FeTerminal
      with not_rejected [OF inv'] show ?thesis
        using r Inr by (cases "ps_terminal p") (simp_all add: parent_read_def)
    next
      case FeAccepted
      with Inr cases st show ?thesis by (auto dest: receive_terminal_cases)
    next
      case FeStarted
      with Inr cases st have "ps_started_received p" "\<not> ps_started_received (sy_parent s)"
        by (auto dest: receive_terminal_cases)
      with r Inr FeStarted ph show ?thesis by (simp add: parent_read_def)
    qed
  qed
qed

lemma sent_down_nonempty:
  "sent_down env ph a p = [] \<longleftrightarrow> ph \<in> {PpListen, PpHello, PpRequest}"
  by (simp add: sent_down_def)

text \<open>A healthy session that is not finished has a step towards its end.\<close>

definition advances :: "session_env \<Rightarrow> session_sys \<Rightarrow> session_sys \<Rightarrow> bool" where
  "advances env s t \<longleftrightarrow> session_step env s t \<and> healthy t \<and> session_weight t < session_weight s"

lemma parent_advances:
  assumes ok: "env_ok env" and inv: "session_inv env s" and h: "healthy s"
    and step: "parent_step env s t" and "healthy t"
    and "sy_cphase t = sy_cphase s"
    and "parent_weight (sy_pphase t) (ps_started_received (sy_parent t))
      < parent_weight (sy_pphase s) (ps_started_received (sy_parent s))"
  shows "advances env s t"
  using assms by (auto simp: advances_def session_weight_def healthy_def intro: ss_parent)

lemma parent_progress_up:
  assumes ok: "env_ok env" and inv: "session_inv env s" and h: "healthy s"
    and up: "sy_up s = frame # rest" and ph: "sy_pphase s \<in> {PpHello, PpAccepted, PpRead}"
  shows "\<exists>t. advances env s t"
proof -
  have h': "healthy (s\<lparr>sy_up := rest\<rparr>)" using h by (simp add: healthy_def handshake_live_def)
  from ph consider "sy_pphase s = PpHello" | "sy_pphase s = PpAccepted" | "sy_pphase s = PpRead" by blast
  then show ?thesis
  proof cases
    case 1
    note st = ps_hello [OF 1 up, of env]
    note i = not_rejected [OF session_inv_parent_step [OF inv ok st]]
    have "sy_pphase (parent_hello (se_token env) frame (s\<lparr>sy_up := rest\<rparr>)) = PpRequest"
      using parent_phase_moves(1) [of "se_token env" frame "s\<lparr>sy_up := rest\<rparr>"] i by blast
    then show ?thesis
      using parent_advances [OF ok inv h st] parent_ops_healthy(1) [OF ok h'] 1 by auto
  next
    case 2
    then have live: "\<not> sx_is_requested (sy_cancel s)" "\<not> sy_due s"
      using h by (simp_all add: healthy_def handshake_live_def)
    have "sy_up s \<noteq> [] \<or> sx_is_requested (sy_cancel s) \<or> sy_due s" using up by simp
    note st = ps_accepted [OF 2 this, of env]
    note i = not_rejected [OF session_inv_parent_step [OF inv ok st]]
    have "sy_pphase (parent_accepted (se_formats env) s) = PpAuthorize"
      using handshake_phase_moves(3) [OF live, of "se_formats env"] up i by auto
    then show ?thesis
      using parent_advances [OF ok inv h st] handshake_ops_healthy(3) [OF ok h live] 2 by auto
  next
    case 3
    note st = ps_read [OF 3 up, of env]
    note w = parent_read_weight [OF inv session_inv_parent_step [OF inv ok st] 3]
    then show ?thesis
      using parent_advances [OF ok inv h st] parent_ops_healthy(3) [OF ok h'] 3 by auto
  qed
qed

lemma parent_progress_own:
  assumes ok: "env_ok env" and inv: "session_inv env s" and h: "healthy s"
    and ph: "sy_pphase s \<in> {PpListen, PpRequest, PpAuthorize, PpStart} \<or> (\<exists>t. sy_pphase s = PpGrace t)"
  shows "\<exists>t. advances env s t"
proof -
  have live: "\<not> sx_is_requested (sy_cancel s)" "\<not> sy_due s"
    if "sy_pphase s \<in> {PpListen, PpRequest, PpStart}"
    using h that by (auto simp: healthy_def handshake_live_def)
  from ph consider (listen) "sy_pphase s = PpListen" | (request) "sy_pphase s = PpRequest"
    | (authorize) "sy_pphase s = PpAuthorize" | (start) "sy_pphase s = PpStart"
    | (grace) t where "sy_pphase s = PpGrace t" by blast
  then show ?thesis
  proof cases
    case listen
    note l = live [simplified listen, simplified]
    show ?thesis
      using parent_advances [OF ok inv h ps_listen [OF listen]] handshake_phase_moves(1) [OF l]
        handshake_ops_healthy(1) [OF ok h l] listen by auto
  next
    case request
    note l = live [simplified request, simplified]
    note st = ps_request [OF request, of env]
    note i = not_rejected [OF session_inv_parent_step [OF inv ok st]]
    have "sy_pphase (parent_request (se_request env) s) = PpAccepted"
      using handshake_phase_moves(2) [OF l, of "se_request env"] i by blast
    then show ?thesis
      using parent_advances [OF ok inv h st] handshake_ops_healthy(2) [OF ok h l] request by auto
  next
    case authorize
    note st = ps_authorize [OF authorize, of env]
    note i = not_rejected [OF session_inv_parent_step [OF inv ok st]]
    have c: "sx_consistent (sy_cancel s)" using session_invD(6) [OF inv] by (simp add: cancel_inv_def)
    have "sy_pphase (parent_authorize (se_formats env) s) \<in> {PpStart, PpRead}"
      using parent_phase_moves(2) [of "se_formats env" s] i by blast
    then have "advances env s (parent_authorize (se_formats env) s)"
      by (intro parent_advances [OF ok inv h st])
        (use parent_ops_healthy(2) [OF ok h c] authorize in \<open>auto split: if_split\<close>)
    then show ?thesis by blast
  next
    case start
    note l = live [simplified start, simplified]
    have "advances env s (parent_start s)"
      by (intro parent_advances [OF ok inv h ps_start [OF start]])
        (use handshake_phase_moves(4) [OF l] handshake_ops_healthy(4) [OF ok h l] start in \<open>auto split: if_split\<close>)
    then show ?thesis by blast
  next
    case grace
    note st = ps_finish [OF grace, of env]
    show ?thesis
      using parent_advances [OF ok inv h st] parent_ops_healthy(4) [OF ok h] grace
      by (auto simp: parent_finish_def)
  qed
qed

lemma child_advances:
  assumes "healthy s" "child_step env s t" "healthy t" "sy_pphase t = sy_pphase s"
    "sy_parent t = sy_parent s" "child_weight (sy_cphase t) < child_weight (sy_cphase s)"
  shows "advances env s t"
  using assms by (auto simp: advances_def session_weight_def healthy_def intro: ss_child)

lemma child_progress:
  assumes ok: "env_ok env" and inv: "session_inv env s" and h: "healthy s"
    and live: "sy_cphase s \<in> {CpHello, CpStarting, CpRunning}
      \<or> sy_cphase s \<in> {CpRequest, CpNext} \<and> sy_down s \<noteq> []"
  shows "\<exists>t. advances env s t"
proof -
  from live consider "sy_cphase s = CpHello" | "sy_cphase s = CpStarting" | "sy_cphase s = CpRunning"
    | frame rest where "sy_cphase s = CpRequest" "sy_down s = frame # rest"
    | frame rest where "sy_cphase s = CpNext" "sy_down s = frame # rest"
    by (metis empty_iff insertE neq_Nil_conv)
  then show ?thesis
  proof cases
    case 1
    show ?thesis
      using child_advances [OF h cs_hello [OF 1, of env]] child_ops_healthy(1) [OF ok] h 1
      by (auto simp: child_phase_moves)
  next
    case 2
    note st = cs_started [OF 2, of env]
    note i = not_rejected [OF session_inv_child_step [OF inv ok st]]
    have "sy_cphase (child_started s) = CpRunning" using child_phase_moves(4) [of s] i by blast
    then show ?thesis
      using child_advances [OF h st] child_ops_healthy(4) [OF ok] h 2 by auto
  next
    case 3
    have r: "runtime_result_ok (Inr 0)" by (simp add: runtime_result_ok_def)
    note st = cs_finish [OF 3 r, of env]
    note i = not_rejected [OF session_inv_child_step [OF inv ok st]]
    obtain code where "sy_cphase (child_finish (se_formats env) (se_permission env) (Inr 0) s) = CpExited code"
      using child_phase_moves(5) i by blast
    then show ?thesis
      using child_advances [OF h st] child_ops_healthy(5) [OF ok] h 3 by auto
  next
    case (4 frame rest)
    have h': "healthy (s\<lparr>sy_down := rest\<rparr>)" using h by (simp add: healthy_def handshake_live_def)
    note st = cs_request [OF 4, of env]
    note i = not_rejected [OF session_inv_child_step [OF inv ok st]]
    have "sy_cphase (child_request (se_formats env) frame (s\<lparr>sy_down := rest\<rparr>)) = CpNext"
      using child_phase_moves(2) [of "se_formats env" frame "s\<lparr>sy_down := rest\<rparr>"] i by blast
    then show ?thesis
      using child_advances [OF h st] child_ops_healthy(2) [OF ok] h' 4 by auto
  next
    case (5 frame rest)
    have h': "healthy (s\<lparr>sy_down := rest\<rparr>)" using h by (simp add: healthy_def handshake_live_def)
    note st = cs_next [OF 5, of env]
    note i = not_rejected [OF session_inv_child_step [OF inv ok st]]
    have "child_weight (sy_cphase (child_next (se_formats env) frame (s\<lparr>sy_down := rest\<rparr>))) < 3"
      using child_phase_moves(3) [of "se_formats env" frame "s\<lparr>sy_down := rest\<rparr>"] i by auto
    then show ?thesis
      using child_advances [OF h st] child_ops_healthy(3) [OF ok] h' 5 by auto
  qed
qed

lemma session_progress:
  assumes ok: "env_ok env" and inv: "session_inv env s" and h: "healthy s" and nf: "\<not> session_finished s"
  shows "\<exists>t. advances env s t"
proof -
  let ?sent = "sent_up env (sy_cphase s) (sy_ran s) (ch_terminal (sy_child s))"
  note D = session_invD [OF inv]
  note own = parent_progress_own [OF ok inv h]
  note child = child_progress [OF ok inv h]
  have up: "\<exists>t. advances env s t"
    if "sy_pphase s \<in> {PpHello, PpAccepted, PpRead}"
      "read_up (sy_pphase s) (ps_started_received (sy_parent s)) < length ?sent"
  proof (cases "sy_up s")
    case Nil
    with that D(1) show ?thesis by simp
  next
    case (Cons frame rest)
    then show ?thesis using parent_progress_up [OF ok inv h _ that(1)] by blast
  qed
  show ?thesis
  proof (cases "sy_cphase s")
    case CpRequest
    show ?thesis
    proof (cases "sy_down s = []")
      case True
      then have "sent_down env (sy_pphase s) (sy_authorized s) (sy_parent s) = []"
        using D(4) CpRequest by simp
      then have "sy_pphase s \<in> {PpListen, PpHello, PpRequest}" by (simp only: sent_down_nonempty)
      then show ?thesis using own up CpRequest by auto
    qed (use CpRequest child in simp)
  next
    case CpNext
    show ?thesis
    proof (cases "sy_down s = []")
      case True
      then have "length (sent_down env (sy_pphase s) (sy_authorized s) (sy_parent s)) = 1"
        using D(3,4) CpNext by simp
      then have "sy_pphase s \<in> {PpAccepted, PpAuthorize, PpStart}"
        using D(5,7) CpNext by (cases "sy_pphase s") (auto simp: sent_down_def split: if_splits)
      then show ?thesis using own up CpNext by (auto simp: opening_frames_def)
    qed (use CpNext child in simp)
  next
    case (CpExited code)
    then obtain t where t: "ch_terminal (sy_child s) = Some t" "sy_ran s = sy_authorized s"
      using D(7) by auto
    have len: "length ?sent = (if sy_authorized s then 4 else 3)"
      using CpExited t by (simp add: opening_frames_def started_frames_def)
    show ?thesis
      using D(5) own up len nf
      by (cases "sy_pphase s") (auto simp: session_finished_def split: if_splits)
  next
    case CpRejected
    with not_rejected [OF inv] show ?thesis by simp
  qed (use child in simp_all)
qed

lemma session_completes:
  assumes ok: "env_ok env" and "session_inv env s" and "healthy s"
  shows "\<exists>t. (session_step_in env)\<^sup>*\<^sup>* s t \<and> healthy t \<and> session_finished t"
  using assms(2,3)
proof (induction "session_weight s" arbitrary: s rule: less_induct)
  case less
  show ?case
  proof (cases "session_finished s")
    case True
    with less show ?thesis by blast
  next
    case False
    then obtain u where u: "session_step env s u" "healthy u" "session_weight u < session_weight s"
      using session_progress [OF ok less.prems] by (auto simp: advances_def)
    with less.hyps [OF u(3) session_inv_step [OF less.prems(1) ok u(1)] u(2)] obtain t where
      "(session_step_in env)\<^sup>*\<^sup>* u t" "healthy t" "session_finished t" by blast
    moreover have "session_step_in env s u" using ok u(1) by (simp add: session_step_in_def)
    ultimately show ?thesis by (blast intro: converse_rtranclp_into_rtranclp)
  qed
qed

section \<open>The guarantees of a supervised run\<close>

abbreviation session_reachable :: "session_env \<Rightarrow> session_sys \<Rightarrow> bool" where
  "session_reachable env s \<equiv> reach (session_init_in env) (session_step_in env) s"

lemma session_reachable_inv: "session_reachable env s \<Longrightarrow> session_inv env s \<and> env_ok env"
  using supervised_session.reach_inv
  by (auto elim: reach.cases simp: session_init_in_def session_step_in_def)

definition sample_env :: session_env where
  "sample_env = \<lparr>se_formats = sample_formats, se_token = sample_token, se_request = [],
     se_permission = (\<lambda>_. False)\<rparr>"

definition sample_session :: "cancel_ctx \<Rightarrow> session_sys" where
  "sample_session c = session_start (sx_new c CrUser)"

lemma sample_env_ok: "env_ok sample_env"
  by (simp add: env_ok_def sample_env_def sample_formats_ok sample_token_def token_wf_def
      SUPERVISOR_TOKEN_LEN_def)

lemma sample_reachable:
  "session_reachable sample_env (sample_session cancel_ctx_new)"
  "session_reachable sample_env (sample_session (request_with_reason r cancel_ctx_new))"
proof -
  have "sx_consistent (sx_new cancel_ctx_new CrUser)"
    "sx_consistent (sx_new (request_with_reason r cancel_ctx_new) CrUser)"
    by (simp_all add: sx_consistent_def sx_new_def sx_is_requested_def sx_requested_reason_def
        cancel_ctx_new_def get_or_insert_def)
  with sample_env_ok show "session_reachable sample_env (sample_session cancel_ctx_new)"
    "session_reachable sample_env (sample_session (request_with_reason r cancel_ctx_new))"
    by (auto simp: session_init_in_def session_init_def sample_session_def intro!: reach_init)
qed

lemma sample_completes:
  "\<exists>s t c. session_reachable sample_env s \<and> sy_pphase s = PpDone t c"
proof -
  let ?s = "sample_session cancel_ctx_new"
  have "healthy ?s"
    by (simp add: healthy_def handshake_live_def sample_session_def session_start_def sx_new_def
        sx_is_requested_def cancel_ctx_new_def)
  with session_completes [OF sample_env_ok] session_reachable_inv [OF sample_reachable(1)]
  obtain t where "(session_step_in sample_env)\<^sup>*\<^sup>* ?s t" "session_finished t" by blast
  with reach_steps [OF _ sample_reachable(1)] show ?thesis by (auto simp: session_finished_def)
qed

text \<open>
  C8: The two honest peers of a supervised run never reject each other: in no reachable
  interleaving of parent, control worker, child and child control reader does a session
  automaton refuse a frame or the control worker fail.
\<close>

theorem supervised_peers_never_rejected:
  assumes "session_reachable env s"
  shows "sy_pphase s \<noteq> PpRejected \<and> sy_cphase s \<noteq> CpRejected \<and> sy_worker s \<noteq> WkFailed"
  using session_reachable_inv [OF assms] by (auto simp: session_inv_def cancel_inv_def)

theorem supervised_peers_never_rejected_witness:
  "sy_pphase (sample_session cancel_ctx_new) \<noteq> PpRejected"
  using supervised_peers_never_rejected [OF sample_reachable(1)] by blast

text \<open>
  C7: A cancellation requested before the parent decides on START prevents it for good: no
  later step authorizes START or enters the child's runtime, and a parent that completes
  reports the first requested reason and its outcome.
\<close>

theorem supervised_cancel_before_start_never_runs:
  assumes "session_reachable env s" and "sy_pphase s \<in> {PpListen, PpHello, PpRequest, PpAccepted, PpAuthorize}"
    and "sx_is_requested (sy_cancel s)" and "(session_step_in env)\<^sup>*\<^sup>* s t"
  shows "\<not> sy_authorized t \<and> \<not> sy_ran t \<and> (\<forall>v c. sy_pphase t = PpDone v c \<longrightarrow>
     (\<exists>reason. sx_requested_reason (sy_cancel s) = Some reason \<and> c = Some reason
        \<and> st_outcome v = reason_outcome reason))"
proof -
  note inv = session_reachable_inv [OF assms(1), THEN conjunct1]
  note inv' = session_reachable_inv [OF reach_steps [OF assms(4,1)], THEN conjunct1]
  have "\<not> sy_authorized s" "sx_requested_reason (sy_cancel s) \<noteq> None"
    using inv assms(2,3) by (auto simp: session_inv_def cancel_inv_def sx_consistent_def)
  note keep = refused_steps [OF assms(4) this(2,1)]
  have reason: "sx_requested_reason (sy_cancel t) = sx_requested_reason (sy_cancel s)"
    using assms(4) \<open>sx_requested_reason (sy_cancel s) \<noteq> None\<close>
  proof (induction rule: rtranclp_induct)
    case (step u v)
    then have "session_step env u v" "sx_requested_reason (sy_cancel u) \<noteq> None"
      by (auto simp: session_step_in_def)
    then obtain r where r: "sx_requested_reason (sy_cancel u) = Some r" by blast
    from \<open>session_step env u v\<close> r have "sx_requested_reason (sy_cancel v) = sx_requested_reason (sy_cancel u)"
    proof cases
      case ss_parent
      from this(2) show ?thesis by cases (use r in simp_all)
    next
      case ss_child
      from this(2) show ?thesis by cases auto
    qed auto
    with step show ?case by simp
  qed simp
  have ran: "\<not> sy_ran t" using inv' keep not_entered(1) by (auto simp: session_inv_def)
  moreover have "\<exists>r. sx_requested_reason (sy_cancel s) = Some r \<and> c = Some r \<and> st_outcome v = reason_outcome r"
    if "sy_pphase t = PpDone v c" for v c
    using session_invD(5,6,7) [OF inv'] that ran reason by (auto simp: cancel_inv_def)
  ultimately show ?thesis using keep by blast
qed

theorem supervised_cancel_before_start_never_runs_witness:
  "\<not> sy_ran (child_hello sample_token (sample_session (request_with_reason CrDeadline cancel_ctx_new)))"
proof -
  let ?s = "sample_session (request_with_reason CrDeadline cancel_ctx_new)"
  have "session_step sample_env ?s (child_hello (se_token sample_env) ?s)"
    by (intro ss_child cs_hello) (simp_all add: sample_session_def session_start_def)
  then have "(session_step_in sample_env)\<^sup>*\<^sup>* ?s (child_hello sample_token ?s)"
    using sample_env_ok by (auto simp: session_step_in_def sample_env_def)
  from supervised_cancel_before_start_never_runs [OF sample_reachable(2) _ _ this]
  show ?thesis by (simp add: sample_session_def session_start_def sx_new_def sx_is_requested_def)
qed

text \<open>
  C4: When the parent of a supervised run reports a terminal, the child recorded the same
  terminal and exited with the code that terminal carries, its shape is valid, user code ran
  exactly if START was authorized, the cancellation reason the parent reports is the one first
  requested, and a run without user code reports the outcome of that reason.
\<close>

theorem supervised_results_agree:
  assumes "session_reachable env s" and "sy_pphase s = PpDone t c"
  shows "ch_terminal (sy_child s) = Some t
    \<and> sy_cphase s = CpExited (case st_exit_code t of None \<Rightarrow> 1 | Some code \<Rightarrow> code)
    \<and> validate_supervisor_terminal_shape t = Inr ()
    \<and> sy_ran s = sy_authorized s
    \<and> (c \<noteq> None \<longrightarrow> c = sx_requested_reason (sy_cancel s))
    \<and> (\<not> sy_ran s \<longrightarrow> (\<exists>reason. c = Some reason \<and> st_outcome t = reason_outcome reason))"
  using session_invD(5,6,7) [OF session_reachable_inv [OF assms(1), THEN conjunct1]] assms(2)
  by (auto simp: cancel_inv_def)

theorem supervised_results_agree_witness:
  "\<exists>s t c. sy_pphase s = PpDone t c \<and> session_reachable sample_env s \<and> ch_terminal (sy_child s) = Some t"
proof -
  from sample_completes obtain s t c where s: "session_reachable sample_env s" "sy_pphase s = PpDone t c"
    by blast
  with supervised_results_agree [OF s] show ?thesis by blast
qed

text \<open>A session that was refused in the handshake never completes.\<close>

definition session_refused :: "session_sys \<Rightarrow> bool" where
  "session_refused s \<longleftrightarrow> (\<forall>t c. sy_pphase s \<noteq> PpDone t c)
     \<and> (sy_parent_failed s \<or> \<not> handshake_live s \<or> sy_pphase s = PpRejected)"

lemma handshake_ops_refused:
  assumes "\<not> handshake_live s"
  shows "session_refused (s\<lparr>sy_up := rest, sy_parent := p, sy_pphase := PpRequest\<rparr>)"
    "session_refused (parent_listen s)" "session_refused (parent_request payload s)"
    "session_refused (parent_accepted fm s)" "session_refused (parent_start s)"
proof -
  have r: "sx_is_requested (sy_cancel s) \<or> sy_due s" "\<forall>t c. sy_pphase s \<noteq> PpDone t c"
    using assms by (auto simp: handshake_live_def)
  show "session_refused (s\<lparr>sy_up := rest, sy_parent := p, sy_pphase := PpRequest\<rparr>)"
    using r by (auto simp: session_refused_def handshake_live_def)
  show "session_refused (parent_listen s)"
    using r by (simp add: session_refused_def parent_listen_def)
  have "session_refused (handshake_io transfer s)" for transfer
    by (subst handshake_io_refused [OF r(1)]) (use r in \<open>simp add: session_refused_def\<close>)
  then show "session_refused (parent_request payload s)"
    "session_refused (parent_accepted fm s)" "session_refused (parent_start s)"
    by (simp_all add: parent_request_def parent_accepted_def parent_start_def)
qed

lemma refused_stays:
  assumes "session_step env s t" "session_refused s"
  shows "session_refused t"
  using assms(1)
proof cases
  case ss_parent
  then have n: "\<not> handshake_live s \<or> sy_pphase s = PpRejected" "\<forall>t c. sy_pphase s \<noteq> PpDone t c"
    using assms(2) by (auto simp: session_refused_def)
  note ops = handshake_ops_refused [of s]
  from ss_parent(2) show ?thesis
  proof cases
    case (ps_hello frame rest)
    with n have "\<not> handshake_live (s\<lparr>sy_up := rest\<rparr>)" by (auto simp: handshake_live_def)
    with ps_hello show ?thesis
      by (auto simp: session_refused_def handshake_live_def parent_hello_def split: prod.split sum.split)
  next
    case ps_worker
    then show ?thesis
      using n by (auto simp: session_refused_def handshake_live_def worker_cancel_def write_cancel_def
          send_down_def Let_def split: prod.split sum.split)
  qed (use n ops in \<open>auto simp: handshake_live_def\<close>)
next
  case ss_child
  from this(2) show ?thesis
    by cases (use assms(2) in \<open>simp_all add: session_refused_def handshake_live_def\<close>)
qed (use assms(2) in \<open>auto simp: session_refused_def handshake_live_def\<close>)

lemma refused_never_completes:
  assumes "(session_step_in env)\<^sup>*\<^sup>* s t" "session_refused s"
  shows "sy_pphase t \<noteq> PpDone v c"
proof -
  from assms have "session_refused t"
    by (induction rule: rtranclp_induct) (auto simp: session_step_in_def intro: refused_stays)
  then show ?thesis by (simp add: session_refused_def)
qed

text \<open>
  C9: From a reachable state in which neither process has failed, some continuation without a
  failure brings the parent to a reported terminal exactly when it is not the case that a
  cancellation was requested, or the effective deadline has passed, while the parent still has
  a frame of the handshake to transfer (it waits for the peer, for HELLO or for ACCEPTED, or
  has REQUEST or an authorised START to write). In those phases a cancelled or late run can
  only fail; a cancellation seen at the decision on START, or later, still ends in a terminal.
\<close>

theorem supervised_run_can_complete:
  assumes "session_reachable env s" and "\<not> sy_parent_failed s" and "\<not> sy_child_failed s"
  shows "(\<exists>u t c. (session_step_in env)\<^sup>*\<^sup>* s u \<and> sy_pphase u = PpDone t c
      \<and> \<not> sy_parent_failed u \<and> \<not> sy_child_failed u)
    \<longleftrightarrow> (sy_pphase s \<in> {PpListen, PpHello, PpRequest, PpAccepted, PpStart} \<longrightarrow>
      \<not> sx_is_requested (sy_cancel s) \<and> \<not> sy_due s)"
proof (unfold handshake_live_def [symmetric], rule iffI)
  assume "handshake_live s"
  with assms show "\<exists>u t c. (session_step_in env)\<^sup>*\<^sup>* s u \<and> sy_pphase u = PpDone t c
      \<and> \<not> sy_parent_failed u \<and> \<not> sy_child_failed u"
    using session_completes [of env s] session_reachable_inv [OF assms(1)]
    by (auto simp: healthy_def session_finished_def)
next
  assume completes: "\<exists>u t c. (session_step_in env)\<^sup>*\<^sup>* s u \<and> sy_pphase u = PpDone t c
      \<and> \<not> sy_parent_failed u \<and> \<not> sy_child_failed u"
  show "handshake_live s"
  proof (rule ccontr)
    assume dead: "\<not> handshake_live s"
    then have "session_refused s" by (auto simp: session_refused_def handshake_live_def)
    with completes refused_never_completes show False by blast
  qed
qed

theorem supervised_run_can_complete_witness:
  "(\<exists>u t c. (session_step_in sample_env)\<^sup>*\<^sup>* (sample_session cancel_ctx_new) u \<and> sy_pphase u = PpDone t c)
   \<and> \<not> (\<exists>u t c. (session_step_in sample_env)\<^sup>*\<^sup>* (sample_session (request_with_reason CrUser cancel_ctx_new)) u
        \<and> sy_pphase u = PpDone t c \<and> \<not> sy_parent_failed u \<and> \<not> sy_child_failed u)"
proof (rule conjI)
  show "\<exists>u t c. (session_step_in sample_env)\<^sup>*\<^sup>* (sample_session cancel_ctx_new) u \<and> sy_pphase u = PpDone t c"
    using supervised_run_can_complete [OF sample_reachable(1)]
    by (auto simp: sample_session_def session_start_def sx_new_def sx_is_requested_def cancel_ctx_new_def)
  show "\<not> (\<exists>u t c. (session_step_in sample_env)\<^sup>*\<^sup>* (sample_session (request_with_reason CrUser cancel_ctx_new)) u
        \<and> sy_pphase u = PpDone t c \<and> \<not> sy_parent_failed u \<and> \<not> sy_child_failed u)"
    using supervised_run_can_complete [OF sample_reachable(2) [of CrUser]]
    by (simp add: sample_session_def session_start_def sx_new_def sx_is_requested_def)
qed

end
