(* ===== verification/Ld_Options.thy ===== *)
theory Ld_Options
  imports Ld_Permissions Ld_Limits
begin

text \<open>
  \<open>LibdenoOptions\<close> and the resolution base of a run (src/src/lib.rs), and the validation of the
  options of a child process (\<open>validate_child_options\<close> of src/src/subprocess.rs), which the plain
  and the supervised subprocess backends share.
\<close>

section \<open>Options\<close>

text \<open>Of the extension factory (code of the embedder) only its presence is kept.\<close>

record libdeno_options =
  lo_permissions :: "string list"
  lo_allow_all_permissions :: bool
  lo_prompt :: bool
  lo_args :: "string list"
  lo_cwd :: "string option"
  lo_max_heap_bytes :: "64 word option"
  lo_execution_deadline :: "duration option"
  lo_capture_stdout :: bool
  lo_capture_stderr :: bool
  lo_max_capture_bytes :: "nat option"
  lo_features :: "string list option"
  lo_extensions :: bool

definition libdeno_options_default :: libdeno_options where
  "libdeno_options_default =
     \<lparr>lo_permissions = [], lo_allow_all_permissions = False, lo_prompt = False, lo_args = [],
      lo_cwd = None, lo_max_heap_bytes = None, lo_execution_deadline = None,
      lo_capture_stdout = False, lo_capture_stderr = False, lo_max_capture_bytes = None,
      lo_features = None, lo_extensions = False\<rparr>"

section \<open>The resolution base\<close>

text \<open>
  What the file system and the process environment answer: \<open>std::env::current_dir\<close>,
  \<open>std::env::current_exe\<close>, \<open>std::env::var_os\<close>, \<open>std::fs::canonicalize\<close> and \<open>Path::is_dir\<close>.
\<close>

record host_env =
  he_current_dir :: "string io_result"
  he_current_exe :: "string io_result"
  he_var :: "string \<Rightarrow> string option"
  he_canonicalize :: "string \<Rightarrow> string io_result"
  he_is_dir :: "string \<Rightarrow> bool"

definition raw_cwd :: "host_env \<Rightarrow> string \<Rightarrow> string libdeno_result" where
  "raw_cwd env cwd =
     (if is_absolute cwd then Inr cwd
      else bind_res (map_err ErrIo (he_current_dir env)) (\<lambda>base. Inr (path_join base cwd)))"

definition effective_cwd :: "host_env \<Rightarrow> libdeno_options \<Rightarrow> string libdeno_result" where
  "effective_cwd env options =
     (case lo_cwd options of
        None \<Rightarrow>
          bind_res (map_err ErrIo (he_current_dir env))
            (\<lambda>cwd. Inr (case he_canonicalize env cwd of Inr canonical \<Rightarrow> canonical | Inl _ \<Rightarrow> cwd))
      | Some cwd \<Rightarrow>
          bind_res (raw_cwd env cwd) (\<lambda>raw.
            case he_canonicalize env raw of
              Inl error \<Rightarrow> Inl (ErrConfiguration (''LibdenoOptions.cwd '' @ raw
                @ '' is not a usable directory: '' @ io_message error))
            | Inr found \<Rightarrow>
                if \<not> he_is_dir env found
                then Inl (ErrConfiguration (''LibdenoOptions.cwd '' @ raw @ '' is not a directory''))
                else Inr found))"

lemma effective_cwd_explicit:
  assumes "effective_cwd env options = Inr cwd" and "lo_cwd options = Some dir"
  shows "he_is_dir env cwd \<and> (\<exists>raw. raw_cwd env dir = Inr raw \<and> he_canonicalize env raw = Inr cwd)"
proof -
  obtain raw where raw: "raw_cwd env dir = Inr raw"
    using assms by (cases "raw_cwd env dir") (auto simp: effective_cwd_def)
  with assms show ?thesis
    by (cases "he_canonicalize env raw") (auto simp: effective_cwd_def split: if_splits)
qed

section \<open>Validation before a child is spawned\<close>

text \<open>
  \<open>static_feature_names\<close> (src/src/deno_runtime_adapter.rs), over the names of the unstable
  features of deno_features; the third argument is \<open>names\<close>.
\<close>

fun static_feature_names :: "string list \<Rightarrow> string list \<Rightarrow> string list \<Rightarrow> string + string list" where
  "static_feature_names known [] names = Inr names"
| "static_feature_names known (feature # features) names =
     (if feature \<notin> set known then Inl feature
      else static_feature_names known features
             (if feature \<in> set names then names else names @ [feature]))"

lemma static_feature_names_Inr:
  "static_feature_names known features names = Inr found \<Longrightarrow>
   set features \<subseteq> set known \<and> set found = set features \<union> set names \<and> (distinct names \<longrightarrow> distinct found)"
  by (induction known features names rule: static_feature_names.induct) (auto split: if_splits)

text \<open>
  The two parameters of the validation that are code of other crates: \<open>Permissions::from_options\<close>
  and the table of unstable features.
\<close>

record 'p upstream =
  up_from_options :: "permissions_options \<Rightarrow> string + 'p"
  up_features :: "string list"

definition implied_capture_message :: string where
  "implied_capture_message =
     ''prompt cannot be combined with run_in_subprocess_with_output: it always captures stderr, and permission prompts require stderr to be a terminal. Use run_in_subprocess (no capture), or grant the capabilities up front''"

definition validate_child_options ::
  "'p upstream \<Rightarrow> instant \<Rightarrow> libdeno_options \<Rightarrow> string \<Rightarrow> bool \<Rightarrow> unit libdeno_result" where
  "validate_child_options up now options cwd capture_stderr =
     bind_res (validate_max_heap_bytes (lo_max_heap_bytes options)) (\<lambda>_.
     bind_res (validate_execution_deadline now (lo_execution_deadline options)) (\<lambda>_.
     bind_res (reject_zero_deadline (lo_execution_deadline options)) (\<lambda>_.
     if lo_prompt options \<and> capture_stderr \<and> \<not> lo_capture_stderr options
     then Inl (ErrConfiguration implied_capture_message)
     else
     bind_res (validate_prompt_capture (lo_prompt options) capture_stderr) (\<lambda>_.
     bind_res (validate_permission_args (up_from_options up) (lo_permissions options)
                 (lo_allow_all_permissions options) (lo_prompt options) cwd) (\<lambda>_.
     case lo_features options of
       None \<Rightarrow> Inr ()
     | Some features \<Rightarrow>
         (case static_feature_names (up_features up) features [] of
            Inl bad \<Rightarrow> Inl (ErrConfiguration (''unknown runtime feature: '' @ bad))
          | Inr _ \<Rightarrow> Inr ()))))))"

lemma validate_child_options_ok:
  "validate_child_options up now options cwd capture_stderr = Inr () \<longleftrightarrow>
     validate_max_heap_bytes (lo_max_heap_bytes options) = Inr ()
   \<and> validate_execution_deadline now (lo_execution_deadline options) = Inr ()
   \<and> lo_execution_deadline options \<noteq> Some 0
   \<and> \<not> (lo_prompt options \<and> capture_stderr)
   \<and> validate_permission_args (up_from_options up) (lo_permissions options)
       (lo_allow_all_permissions options) (lo_prompt options) cwd = Inr ()
   \<and> (\<forall>features. lo_features options = Some features \<longrightarrow>
        is_ok (static_feature_names (up_features up) features []))"
  by (auto simp: validate_child_options_def bind_res_Inr reject_zero_deadline_def
      validate_prompt_capture_def split: option.splits sum.splits if_splits)

end
