(* ===== verification/Ld_Supervised.thy ===== *)
theory Ld_Supervised
  imports Ld_Supervision_Main Ld_Options Ld_Capture
begin

text \<open>
  One supervised run seen from the parent's caller (src/src/subprocess.rs): the request that is
  sent, the wait for an authenticated peer, the deadlines, reaping of the direct child, the
  reconciliation of the child's terminal with its exit status and with cancellation, and the
  classification of every failure. What happens on the authenticated stream is the subject of
  \<open>Ld_Supervision\<close>; here its result is an argument, and the last section puts the two together.
\<close>

section \<open>Errors\<close>

datatype sv_cleanup = SvDirectChild | SvProcessGroup | SvWindowsJob
datatype sv_transport = SvClean | SvFailed

definition supervisor_category_error :: "supervisor_failure_category \<Rightarrow> libdeno_error" where
  "supervisor_category_error category = ErrRuntime (category_summary category)"

definition supervisor_session_error_is_timeout :: "libdeno_error \<Rightarrow> bool" where
  "supervisor_session_error_is_timeout error =
     (case error of ErrTimeout _ \<Rightarrow> True | ErrIo e \<Rightarrow> io_kind e = EkTimedOut | _ \<Rightarrow> False)"

definition supervisor_session_error_is_natural_exit :: "libdeno_error \<Rightarrow> bool" where
  "supervisor_session_error_is_natural_exit error =
     (case error of
        ErrIo e \<Rightarrow> io_kind e \<in> {EkUnexpectedEof, EkConnectionReset, EkBrokenPipe}
      | _ \<Rightarrow> False)"

definition supervisor_session_error_is_protocol :: "libdeno_error \<Rightarrow> bool" where
  "supervisor_session_error_is_protocol error =
     (case error of ErrRuntime _ \<Rightarrow> True | ErrIo e \<Rightarrow> io_kind e = EkInvalidData | _ \<Rightarrow> False)"

fun supervisor_cancel_error :: "cancel_reason \<Rightarrow> libdeno_error" where
  "supervisor_cancel_error CrDeadline = ErrTimeout ''supervisor execution deadline exceeded''"
| "supervisor_cancel_error CrUser = ErrRuntime ''supervisor execution cancelled''"
| "supervisor_cancel_error CrShutdown = ErrRuntime ''supervisor execution cancelled''"

text \<open>\<open>supervisor_exit_code_for_status\<close> on Unix: the low byte of the code is what the parent sees.\<close>

definition supervisor_exit_code_for_status :: "int \<Rightarrow> int" where
  "supervisor_exit_code_for_status exit_code = exit_code mod 256"

record supervisor_partial_output =
  po_stdout :: bytes
  po_stderr :: bytes
  po_truncated :: bool
  po_incomplete :: bool
  po_reader_error :: bool

definition partial_output_empty :: supervisor_partial_output where
  "partial_output_empty = \<lparr>po_stdout = [], po_stderr = [], po_truncated = False,
     po_incomplete = False, po_reader_error = False\<rparr>"

definition partial_output_reader_error :: supervisor_partial_output where
  "partial_output_reader_error = partial_output_empty\<lparr>po_incomplete := True, po_reader_error := True\<rparr>"

definition into_supervisor_partial :: "output_capture \<Rightarrow> supervisor_partial_output" where
  "into_supervisor_partial c = \<lparr>po_stdout = oc_stdout c, po_stderr = oc_stderr c,
     po_truncated = oc_truncated c, po_incomplete = oc_incomplete c,
     po_reader_error = oc_reader_error c\<rparr>"

record supervised_error =
  sve_error :: libdeno_error
  sve_category :: "supervisor_failure_category option"
  sve_partial_output :: "supervisor_partial_output option"
  sve_cleanup_strength :: "sv_cleanup option"
  sve_transport_status :: "sv_transport option"

definition with_metadata_and_partial ::
  "libdeno_error \<Rightarrow> supervisor_partial_output option \<Rightarrow> sv_cleanup option \<Rightarrow> sv_transport option
   \<Rightarrow> supervised_error" where
  "with_metadata_and_partial error partial_output cleanup_strength transport =
     \<lparr>sve_error = error, sve_category = None, sve_partial_output = partial_output,
      sve_cleanup_strength = cleanup_strength, sve_transport_status = transport\<rparr>"

definition with_category_and_partial ::
  "supervisor_failure_category \<Rightarrow> supervisor_partial_output option \<Rightarrow> sv_cleanup option
   \<Rightarrow> sv_transport option \<Rightarrow> supervised_error" where
  "with_category_and_partial category partial_output cleanup_strength transport =
     \<lparr>sve_error = (if category = FcTimeout then ErrTimeout (category_summary category)
                   else supervisor_category_error category),
      sve_category = Some category, sve_partial_output = partial_output,
      sve_cleanup_strength = cleanup_strength, sve_transport_status = transport\<rparr>"

definition collection_deadline_error ::
  "bool \<Rightarrow> supervisor_cancellation \<Rightarrow> supervisor_partial_output option \<Rightarrow> sv_transport
   \<Rightarrow> supervised_error option" where
  "collection_deadline_error collection_deadline_won cancellation partial_output transport =
     (if \<not> collection_deadline_won then None
      else Some (case sx_requested_reason cancellation of
        Some CrUser \<Rightarrow> with_metadata_and_partial (supervisor_cancel_error CrUser) partial_output
          (Some SvDirectChild) (Some transport)
      | Some CrShutdown \<Rightarrow> with_metadata_and_partial (supervisor_cancel_error CrShutdown)
          partial_output (Some SvDirectChild) (Some transport)
      | _ \<Rightarrow> with_category_and_partial FcTimeout partial_output (Some SvDirectChild)
          (Some transport)))"

section \<open>The request\<close>

definition SUPERVISOR_CAPTURE_BYTES_PER_STREAM :: nat where
  "SUPERVISOR_CAPTURE_BYTES_PER_STREAM = 64 * 1024"

definition SUPERVISOR_MAX_CAPTURE_BYTES_PER_STREAM :: nat where
  "SUPERVISOR_MAX_CAPTURE_BYTES_PER_STREAM = 96 * 1024"

definition supervisor_capture_limit :: "bool \<Rightarrow> bool \<Rightarrow> nat option \<Rightarrow> nat option libdeno_result" where
  "supervisor_capture_limit capture_stdout capture_stderr max_capture_bytes =
     (if \<not> capture_stdout \<and> \<not> capture_stderr then Inr None
      else let limit = (case max_capture_bytes of Some n \<Rightarrow> n | None \<Rightarrow> SUPERVISOR_CAPTURE_BYTES_PER_STREAM)
           in if SUPERVISOR_MAX_CAPTURE_BYTES_PER_STREAM < limit
              then Inl (ErrConfiguration (''supervisor capture limit '' @ show_nat limit
                     @ '' exceeds the '' @ show_nat SUPERVISOR_MAX_CAPTURE_BYTES_PER_STREAM
                     @ ''-byte per-stream maximum''))
              else Inr (Some limit))"

record supervisor_request =
  sq_entry :: string
  sq_cwd :: string
  sq_permissions :: "string list"
  sq_allow_all_permissions :: bool
  sq_prompt :: bool
  sq_args :: "string list"
  sq_features :: "string list option"
  sq_max_heap_bytes :: "64 word option"
  sq_execution_deadline :: "duration option"
  sq_capture_stdout :: bool
  sq_capture_stderr :: bool
  sq_max_capture_bytes :: "nat option"

definition extensions_error :: libdeno_error where
  "extensions_error = ErrConfiguration
     ''native extension factories are not supported by subprocess execution''"

definition make_supervisor_request ::
  "'p upstream \<Rightarrow> instant \<Rightarrow> string \<Rightarrow> libdeno_options \<Rightarrow> string \<Rightarrow> supervisor_request libdeno_result" where
  "make_supervisor_request up now entry options cwd =
     (if lo_extensions options then Inl extensions_error
      else bind_res (validate_child_options up now options cwd (lo_capture_stderr options)) (\<lambda>_.
           bind_res (supervisor_capture_limit (lo_capture_stdout options) (lo_capture_stderr options)
                       (lo_max_capture_bytes options)) (\<lambda>max_capture_bytes.
           Inr \<lparr>sq_entry = entry, sq_cwd = cwd, sq_permissions = lo_permissions options,
                sq_allow_all_permissions = lo_allow_all_permissions options,
                sq_prompt = lo_prompt options, sq_args = lo_args options,
                sq_features = lo_features options, sq_max_heap_bytes = lo_max_heap_bytes options,
                sq_execution_deadline = lo_execution_deadline options,
                sq_capture_stdout = lo_capture_stdout options,
                sq_capture_stderr = lo_capture_stderr options,
                sq_max_capture_bytes = max_capture_bytes\<rparr>)))"

text \<open>The options the child derives from the request (\<open>run_supervisor_child\<close>).\<close>

definition supervisor_child_options :: "supervisor_request \<Rightarrow> libdeno_options" where
  "supervisor_child_options request =
     \<lparr>lo_permissions = sq_permissions request,
      lo_allow_all_permissions = sq_allow_all_permissions request,
      lo_prompt = sq_prompt request, lo_args = sq_args request, lo_cwd = Some (sq_cwd request),
      lo_max_heap_bytes = sq_max_heap_bytes request,
      lo_execution_deadline = sq_execution_deadline request,
      lo_capture_stdout = False, lo_capture_stderr = False, lo_max_capture_bytes = None,
      lo_features = sq_features request, lo_extensions = False\<rparr>"

definition supervisor_host_executable :: "host_env \<Rightarrow> string option \<Rightarrow> string libdeno_result" where
  "supervisor_host_executable env explicit =
     (case explicit of
        Some path \<Rightarrow> Inr path
      | None \<Rightarrow> (case he_var env ''LIBDENO_HOST_EXE'' of
                   Some path \<Rightarrow> Inr path
                 | None \<Rightarrow> map_err ErrIo (he_current_exe env)))"

section \<open>Deadlines\<close>

text \<open>\<open>supervisor_deadline_after\<close>: \<open>later\<close> is the clock read again when the sum does not exist.\<close>

definition SUPERVISOR_CONNECT_TIMEOUT :: duration where
  "SUPERVISOR_CONNECT_TIMEOUT = secs 5"

definition SUPERVISOR_CANCEL_GRACE :: duration where
  "SUPERVISOR_CANCEL_GRACE = secs 2"

definition SUPERVISOR_CHILD_EXIT_GRACE :: duration where
  "SUPERVISOR_CHILD_EXIT_GRACE = millis 250"

definition supervisor_deadline_after :: "instant \<Rightarrow> instant \<Rightarrow> duration \<Rightarrow> instant" where
  "supervisor_deadline_after now later d =
     (case checked_add_instant now d of Some t \<Rightarrow> t | None \<Rightarrow> later)"

definition effective_supervisor_deadline ::
  "instant \<Rightarrow> instant option \<Rightarrow> duration option \<Rightarrow> instant option libdeno_result" where
  "effective_supervisor_deadline started parent_deadline execution_deadline =
     (case (case execution_deadline of
              None \<Rightarrow> Inr None
            | Some d \<Rightarrow> (case checked_add_instant started d of
                           None \<Rightarrow> Inl (ErrConfiguration ''execution deadline is too large for the host clock'')
                         | Some t \<Rightarrow> Inr (Some t))) of
        Inl error \<Rightarrow> Inl error
      | Inr option_deadline \<Rightarrow>
          Inr (case (parent_deadline, option_deadline) of
                 (Some parent, Some option_at) \<Rightarrow> Some (min parent option_at)
               | (Some parent, None) \<Rightarrow> Some parent
               | (None, Some option_at) \<Rightarrow> Some option_at
               | (None, None) \<Rightarrow> None))"

definition phase_frame_deadline :: "instant \<Rightarrow> instant \<Rightarrow> instant option \<Rightarrow> instant" where
  "phase_frame_deadline now later effective_deadline =
     (let frame_deadline = supervisor_deadline_after now later SUPERVISOR_FRAME_TIMEOUT
      in case effective_deadline of
           None \<Rightarrow> frame_deadline
         | Some deadline \<Rightarrow> min deadline frame_deadline)"

definition cancellation_reason_if_due ::
  "instant option \<Rightarrow> instant \<Rightarrow> supervisor_cancellation
   \<Rightarrow> cancel_reason option \<times> supervisor_cancellation" where
  "cancellation_reason_if_due deadline now cancellation =
     (case sx_requested_reason cancellation of
        Some reason \<Rightarrow> (Some reason, cancellation)
      | None \<Rightarrow>
          if due deadline now then (Some CrDeadline, sx_request CrDeadline cancellation)
          else (None, cancellation))"

text \<open>
  What a handshake read or write does when it fails (\<open>read_supervisor_handshake_frame\<close>,
  \<open>write_supervisor_frame\<close>): a time-out at or after the effective deadline is that deadline.
\<close>

definition note_phase_timeout ::
  "'a io_result \<Rightarrow> instant option \<Rightarrow> instant \<Rightarrow> supervisor_cancellation \<Rightarrow> supervisor_cancellation" where
  "note_phase_timeout result effective_deadline now cancellation =
     (case result of
        Inl e \<Rightarrow>
          if io_kind e = EkTimedOut \<and> due effective_deadline now \<and> sx_requested_reason cancellation = None
          then sx_request CrDeadline cancellation else cancellation
      | Inr _ \<Rightarrow> cancellation)"

section \<open>Waiting for the authenticated child\<close>

text \<open>
  One turn of \<open>accept_supervisor_peer\<close>: the reason requested so far, what \<open>accept\<close> answers (a
  stream, with whether the peer is on the loopback interface), whether the stream could be
  prepared, and the clock before and after the wait is computed. \<open>None\<close> is a loop that still
  waits; the flag is whether it requests cancellation for the deadline.
\<close>

record 's accept_turn =
  at_requested :: "cancel_reason option"
  at_accept :: "('s \<times> bool) io_result"
  at_prepare :: "unit io_result"
  at_now :: instant
  at_now_effective :: instant

fun reason_debug :: "cancel_reason \<Rightarrow> string" where
  "reason_debug CrUser = ''User''"
| "reason_debug CrDeadline = ''Deadline''"
| "reason_debug CrShutdown = ''Shutdown''"

fun accept_supervisor_peer ::
  "instant \<Rightarrow> instant option \<Rightarrow> 's accept_turn list \<Rightarrow> ('s io_result \<times> bool) option" where
  "accept_supervisor_peer deadline effective_deadline [] = None"
| "accept_supervisor_peer deadline effective_deadline (t # ts) =
     (case at_requested t of
        Some reason \<Rightarrow> Some (Inl (IoError EkInterrupted
          (''supervisor connection cancelled ('' @ reason_debug reason @ '')'')), False)
      | None \<Rightarrow>
          (case at_accept t of
             Inr (stream, loopback) \<Rightarrow>
               if \<not> loopback then accept_supervisor_peer deadline effective_deadline ts
               else (case at_prepare t of
                       Inl e \<Rightarrow> Some (Inl e, False)
                     | Inr _ \<Rightarrow> Some (Inr stream, False))
           | Inl e \<Rightarrow>
               if io_kind e = EkWouldBlock
               then (if saturating_duration_since deadline (at_now t) = 0
                     then Some (Inl (IoError EkTimedOut ''supervisor connect deadline exceeded''),
                                due effective_deadline (at_now_effective t))
                     else accept_supervisor_peer deadline effective_deadline ts)
               else Some (Inl e, False)))"

text \<open>
  One turn of the loop that opens \<open>drive_supervisor_session\<close>: the reason requested so far, the
  clock, the turns of the accept loop, the clock for the peer's own deadline, and the socket
  calls of reading the peer's first frame.
\<close>

record 's peer_turn =
  pt_requested :: "cancel_reason option"
  pt_now :: instant
  pt_accept :: "'s accept_turn list"
  pt_peer_now :: instant
  pt_peer_later :: instant
  pt_reads :: "read_call list"

definition PEER_HELLO_TIMEOUT :: duration where
  "PEER_HELLO_TIMEOUT = secs 1"

definition is_hello :: "supervisor_token \<Rightarrow> supervisor_frame \<Rightarrow> bool" where
  "is_hello token hello \<longleftrightarrow>
     token_authenticate token (sf_payload hello) \<and> sf_kind hello = FkHello \<and> sf_request_id hello = 0"

fun await_peer ::
  "supervisor_token \<Rightarrow> instant \<Rightarrow> instant option \<Rightarrow> 's peer_turn list
   \<Rightarrow> (('s \<times> supervisor_frame) libdeno_result \<times> bool) option" where
  "await_peer token handshake_deadline deadline [] = None"
| "await_peer token handshake_deadline deadline (t # ts) =
     (if pt_requested t \<noteq> None
      then Some (Inl (ErrIo (IoError EkInterrupted ''supervisor handshake cancelled'')), False)
      else if handshake_deadline \<le> pt_now t
      then Some (Inl (supervisor_error
             ''supervisor handshake deadline exceeded while waiting for an authenticated peer''), False)
      else case accept_supervisor_peer handshake_deadline deadline (pt_accept t) of
             None \<Rightarrow> None
           | Some (Inl e, requested) \<Rightarrow> Some (Inl (ErrIo e), requested)
           | Some (Inr stream, requested) \<Rightarrow>
               (let peer_deadline = min handshake_deadline
                      (supervisor_deadline_after (pt_peer_now t) (pt_peer_later t) PEER_HELLO_TIMEOUT)
                in case fst (read_frame_with_deadline ChildToParent (Some peer_deadline) False
                               (pt_reads t)) of
                     None \<Rightarrow> None
                   | Some (Inl _) \<Rightarrow> await_peer token handshake_deadline deadline ts
                   | Some (Inr hello) \<Rightarrow>
                       if is_hello token hello then Some (Inr (stream, hello), False)
                       else await_peer token handshake_deadline deadline ts))"

definition handshake_deadline_of :: "instant \<Rightarrow> instant \<Rightarrow> instant option \<Rightarrow> instant" where
  "handshake_deadline_of now later deadline =
     (let connect_deadline = supervisor_deadline_after now later SUPERVISOR_CONNECT_TIMEOUT
      in case deadline of None \<Rightarrow> connect_deadline | Some d \<Rightarrow> min d connect_deadline)"

section \<open>Reaping the direct child\<close>

text \<open>
  An \<open>ExitStatus\<close> is its code (\<open>None\<close> after a signal) and its display text. \<open>child_call\<close> records
  what is done to the child process; \<open>CcTryWait\<close> carries whether the child had exited.
\<close>

record exit_status =
  es_code :: "int option"
  es_display :: string

datatype child_call = CcSpawn | CcTryWait bool | CcKill | CcWait bool

record supervisor_child_reap =
  cr_status :: exit_status
  cr_forced_kill :: bool

definition kill_and_wait_supervisor_child ::
  "unit io_result \<Rightarrow> exit_status io_result \<Rightarrow> exit_status io_result \<times> child_call list" where
  "kill_and_wait_supervisor_child kill_result wait_result =
     (case (kill_result, wait_result) of
        (Inr _, Inr status) \<Rightarrow> Inr status
      | (Inl kill, Inr status) \<Rightarrow> Inl (IoError EkOther
          (''supervisor child kill failed after reaping exit status '' @ es_display status @ '': ''
           @ io_message kill))
      | (Inr _, Inl wait) \<Rightarrow> Inl (IoError EkOther
          (''supervisor child was killed but wait failed: '' @ io_message wait))
      | (Inl kill, Inl wait) \<Rightarrow> Inl (IoError EkOther
          (''supervisor child kill failed: '' @ io_message kill @ ''; wait failed: ''
           @ io_message wait)),
      [CcKill, CcWait (is_ok wait_result)])"

text \<open>One turn of the reaping loop: the answer of \<open>try_wait\<close> and the clock read after it.\<close>

fun reap_loop ::
  "instant \<Rightarrow> unit io_result \<Rightarrow> exit_status io_result \<Rightarrow> (exit_status option io_result \<times> instant) list
   \<Rightarrow> (supervisor_child_reap io_result \<times> child_call list) option" where
  "reap_loop deadline kill_result wait_result [] = None"
| "reap_loop deadline kill_result wait_result ((answer, now) # turns) =
     (case answer of
        Inr (Some status) \<Rightarrow>
          Some (Inr \<lparr>cr_status = status, cr_forced_kill = False\<rparr>, [CcTryWait True])
      | Inr None \<Rightarrow>
          if now < deadline
          then map_option (\<lambda>(r, calls). (r, CcTryWait False # calls))
                 (reap_loop deadline kill_result wait_result turns)
          else (case kill_and_wait_supervisor_child kill_result wait_result of
                  (r, calls) \<Rightarrow>
                    Some (case r of
                            Inl e \<Rightarrow> Inl e
                          | Inr status \<Rightarrow> Inr \<lparr>cr_status = status, cr_forced_kill = True\<rparr>,
                          CcTryWait False # calls))
      | Inl error \<Rightarrow>
          (case kill_and_wait_supervisor_child kill_result wait_result of
             (r, calls) \<Rightarrow>
               Some (Inl (IoError EkOther (''supervisor child inspection failed: '' @ io_message error
                 @ (case r of
                      Inr status \<Rightarrow> ''; cleanup reaped exit status '' @ es_display status
                    | Inl cleanup \<Rightarrow> ''; cleanup failed: '' @ io_message cleanup))),
                 CcTryWait False # calls)))"

definition reap_supervisor_child ::
  "instant \<Rightarrow> instant \<Rightarrow> unit io_result \<Rightarrow> exit_status io_result
   \<Rightarrow> (exit_status option io_result \<times> instant) list
   \<Rightarrow> (supervisor_child_reap io_result \<times> child_call list) option" where
  "reap_supervisor_child now later =
     reap_loop (supervisor_deadline_after now later SUPERVISOR_CHILD_EXIT_GRACE)"

section \<open>Reconciling the terminal\<close>

definition supervisor_session_failure_category ::
  "libdeno_error \<Rightarrow> supervisor_child_reap io_result \<Rightarrow> supervisor_cancellation
   \<Rightarrow> supervisor_failure_category option" where
  "supervisor_session_failure_category error cleanup cancellation =
     (case cleanup of
        Inl _ \<Rightarrow> Some FcInfrastructure
      | Inr reap \<Rightarrow>
          if sx_is_requested cancellation
          then (case sx_reason cancellation of CrDeadline \<Rightarrow> Some FcTimeout | _ \<Rightarrow> None)
          else if \<not> cr_forced_kill reap
               \<and> (supervisor_session_error_is_natural_exit error
                  \<or> supervisor_session_error_is_timeout error
                    \<and> \<not> supervisor_session_error_is_protocol error)
          then Some FcChildCrash
          else if supervisor_session_error_is_timeout error then Some FcTimeout
          else Some FcInfrastructure)"

text \<open>The \<open>expect\<close>s on the exit code are reached only behind the shape check; see \<open>completed_code\<close>.\<close>

definition completed_code :: "supervisor_terminal \<Rightarrow> int" where
  "completed_code t = (case st_exit_code t of Some code \<Rightarrow> code | None \<Rightarrow> 0)"

fun outcome_word :: "supervisor_outcome \<Rightarrow> string" where
  "outcome_word SoCompleted = ''completed''"
| "outcome_word SoCancelled = ''cancelled''"
| "outcome_word SoDeadline = ''deadline''"
| "outcome_word SoFailed = ''failed''"

definition validate_supervisor_terminal_status ::
  "supervisor_terminal \<Rightarrow> exit_status \<Rightarrow> bool \<Rightarrow> unit libdeno_result" where
  "validate_supervisor_terminal_status t status forced_kill =
     (if forced_kill then Inr ()
      else let expected = (case st_outcome t of
                 SoCompleted \<Rightarrow> supervisor_exit_code_for_status (completed_code t)
               | _ \<Rightarrow> 1)
           in if es_code status \<noteq> Some expected
              then Inl (supervisor_error (outcome_word (st_outcome t)
                     @ '' supervisor TERMINAL disagrees with direct-child exit status''))
              else Inr ())"

definition validate_supervisor_terminal :: "supervisor_terminal \<Rightarrow> unit libdeno_result" where
  "validate_supervisor_terminal t = map_err ErrIo (validate_supervisor_terminal_shape t)"

definition map_supervisor_terminal_with_cancellation ::
  "supervisor_terminal \<Rightarrow> exit_status \<Rightarrow> bool \<Rightarrow> cancel_reason option \<Rightarrow> run_output libdeno_result" where
  "map_supervisor_terminal_with_cancellation t status forced_kill cancelled_before =
     bind_res (validate_supervisor_terminal t) (\<lambda>_.
       case cancelled_before of
         Some reason \<Rightarrow>
           bind_res (validate_supervisor_terminal_status t status forced_kill)
             (\<lambda>_. Inl (supervisor_cancel_error reason))
       | None \<Rightarrow>
           (case st_outcome t of
              SoCompleted \<Rightarrow>
                if \<not> forced_kill
                   \<and> es_code status \<noteq> Some (supervisor_exit_code_for_status (completed_code t))
                then Inl (supervisor_error
                       ''supervisor TERMINAL disagrees with direct-child exit status'')
                else Inr \<lparr>ro_exit_code = completed_code t, ro_stdout = st_stdout t,
                          ro_stderr = st_stderr t, ro_capture_truncated = st_truncated t\<rparr>
            | SoCancelled \<Rightarrow>
                if \<not> forced_kill \<and> es_code status \<noteq> Some 1
                then Inl (supervisor_error
                       ''cancelled supervisor TERMINAL disagrees with direct-child exit status'')
                else Inl (supervisor_cancel_error CrUser)
            | SoDeadline \<Rightarrow>
                if \<not> forced_kill \<and> es_code status \<noteq> Some 1
                then Inl (supervisor_error
                       ''deadline supervisor TERMINAL disagrees with direct-child exit status'')
                else Inl (supervisor_cancel_error CrDeadline)
            | SoFailed \<Rightarrow>
                if \<not> forced_kill \<and> es_code status \<noteq> Some 1
                then Inl (supervisor_error
                       ''failed supervisor TERMINAL disagrees with direct-child exit status'')
                else Inl (supervisor_error ''supervised child execution failed'')))"

section \<open>The run\<close>

record session_outcome =
  so_terminal :: supervisor_terminal
  so_cancellation_before_terminal :: "cancel_reason option"
  so_transport_status :: sv_transport

record supervisor_run_result =
  srr_exit_code :: int
  srr_partial_output :: "supervisor_partial_output option"
  srr_cleanup_strength :: sv_cleanup
  srr_transport_status :: sv_transport

text \<open>The category of a terminal that does not map to an output.\<close>

definition terminal_failure_category ::
  "libdeno_error \<Rightarrow> supervisor_terminal \<Rightarrow> exit_status \<Rightarrow> bool \<Rightarrow> cancel_reason option
   \<Rightarrow> supervisor_failure_category option" where
  "terminal_failure_category error t status forced_kill cancelled_before =
     (let timeout = (case error of ErrTimeout _ \<Rightarrow> True | _ \<Rightarrow> False);
          user = (cancelled_before = Some CrUser \<or> cancelled_before = Some CrShutdown)
      in if timeout \<and> st_outcome t = SoDeadline \<and> \<not> user then Some FcTimeout
         else if user \<or> st_outcome t = SoCancelled \<or> timeout then None
         else if st_outcome t = SoFailed \<and> is_ok (validate_supervisor_terminal t)
           \<and> is_ok (validate_supervisor_terminal_status t status forced_kill)
         then st_category t
         else Some FcInfrastructure)"

text \<open>
  What follows the session (\<open>run_supervised_subprocess_with_executable_observed_and_started\<close>
  after \<open>collect\<close>): \<open>cancellation\<close> is the shared cancellation as it is then.
\<close>

definition finish_supervised_run ::
  "session_outcome libdeno_result \<Rightarrow> supervisor_child_reap io_result \<Rightarrow> supervisor_partial_output option
   \<Rightarrow> bool \<Rightarrow> supervisor_cancellation \<Rightarrow> supervised_error + supervisor_run_result" where
  "finish_supervised_run session cleanup partial_output collection_deadline_won cancellation =
     (case session of
        Inl error \<Rightarrow>
          Inl (case supervisor_session_failure_category error cleanup cancellation of
                 Some category \<Rightarrow>
                   with_category_and_partial category partial_output (Some SvDirectChild) (Some SvFailed)
               | None \<Rightarrow>
                   with_metadata_and_partial (supervisor_cancel_error (sx_reason cancellation))
                     partial_output (Some SvDirectChild) (Some SvFailed))
      | Inr session \<Rightarrow>
          (case cleanup of
             Inl _ \<Rightarrow> Inl (with_category_and_partial FcInfrastructure partial_output
                            (Some SvDirectChild) (Some SvFailed))
           | Inr reap \<Rightarrow>
               (let status = cr_status reap;
                    capture_failed = (case partial_output of
                      None \<Rightarrow> False | Some o_out \<Rightarrow> po_incomplete o_out \<or> po_reader_error o_out);
                    transport = (if capture_failed then SvFailed else so_transport_status session);
                    t = so_terminal session;
                    before = so_cancellation_before_terminal session
                in case map_supervisor_terminal_with_cancellation t status (cr_forced_kill reap) before of
                     Inr out \<Rightarrow>
                       (case collection_deadline_error collection_deadline_won cancellation
                               partial_output transport of
                          Some error \<Rightarrow> Inl error
                        | None \<Rightarrow> Inr \<lparr>srr_exit_code = ro_exit_code out,
                            srr_partial_output = partial_output, srr_cleanup_strength = SvDirectChild,
                            srr_transport_status = transport\<rparr>)
                   | Inl error \<Rightarrow>
                       Inl (case terminal_failure_category error t status (cr_forced_kill reap) before of
                              Some category \<Rightarrow> with_category_and_partial category partial_output
                                (Some SvDirectChild) (Some transport)
                            | None \<Rightarrow> with_metadata_and_partial error partial_output
                                (Some SvDirectChild) (Some transport)))))"

text \<open>
  The environment of one run: the host, the clock at the start, at the deadline check and in
  the validation, and the answers of the calls that make the token, the listener, the child and
  the output readers. \<open>sn_session\<close>, \<open>sn_reap\<close>, \<open>sn_collect\<close> and \<open>sn_cancellation\<close> are what the session,
  the reaping loop and the output collection came to, and the cancellation after them.
\<close>

record 'p supervised_env =
  sn_host :: host_env
  sn_upstream :: "'p upstream"
  sn_started :: instant
  sn_checked :: instant
  sn_validated :: instant
  sn_request_format :: "supervisor_request serde"
  sn_token :: "string + supervisor_token"
  sn_bind :: "unit io_result"
  sn_local_addr :: "string io_result"
  sn_spawn :: "unit io_result"
  sn_readers :: "unit io_result"
  sn_kill :: "unit io_result"
  sn_wait :: "exit_status io_result"
  sn_session :: "bytes \<Rightarrow> supervisor_token \<Rightarrow> instant option \<Rightarrow> session_outcome libdeno_result"
  sn_reap :: "supervisor_child_reap io_result \<times> child_call list"
  sn_collect :: "instant option \<Rightarrow> output_capture"
  sn_cancellation :: supervisor_cancellation

definition run_supervised_child ::
  "'p supervised_env \<Rightarrow> supervisor_request \<Rightarrow> bytes \<Rightarrow> supervisor_token \<Rightarrow> instant option
   \<Rightarrow> (supervised_error + supervisor_run_result) \<times> child_call list" where
  "run_supervised_child env request payload token deadline =
     (let capture = (sq_capture_stdout request \<or> sq_capture_stderr request)
      in if capture \<and> \<not> is_ok (sn_readers env)
         then (Inl (with_category_and_partial FcInfrastructure (Some partial_output_reader_error)
                      (Some SvDirectChild) (Some SvFailed)),
               CcSpawn # snd (kill_and_wait_supervisor_child (sn_kill env) (sn_wait env)))
         else let session = sn_session env payload token deadline;
                  collected = sn_collect env deadline
              in (finish_supervised_run session (fst (sn_reap env))
                    (if capture then Some (into_supervisor_partial collected) else None)
                    (capture \<and> oc_deadline_won collected) (sn_cancellation env),
                  CcSpawn # snd (sn_reap env)))"

definition run_supervised_subprocess ::
  "'p supervised_env \<Rightarrow> string \<Rightarrow> libdeno_options \<Rightarrow> supervisor_cancellation \<Rightarrow> instant option
   \<Rightarrow> (supervised_error + supervisor_run_result) \<times> child_call list" where
  "run_supervised_subprocess env entry options cancellation parent_deadline =
     (let empty = (if lo_capture_stdout options \<or> lo_capture_stderr options
                   then Some partial_output_empty else None);
          early = (\<lambda>error. (Inl (with_metadata_and_partial error empty None None), []));
          infrastructure = (Inl (with_category_and_partial FcInfrastructure empty None None), [])
      in case effective_supervisor_deadline (sn_started env) parent_deadline
                (lo_execution_deadline options) of
           Inl error \<Rightarrow> early error
         | Inr deadline \<Rightarrow>
             (case sx_requested_reason cancellation of
                Some reason \<Rightarrow> early (supervisor_cancel_error reason)
              | None \<Rightarrow>
                  if due deadline (sn_checked env)
                  then early (supervisor_cancel_error (sx_reason (sx_request CrDeadline cancellation)))
                  else case bind_res (effective_cwd (sn_host env) options)
                              (make_supervisor_request (sn_upstream env) (sn_validated env) entry options) of
                         Inl error \<Rightarrow> early error
                       | Inr request \<Rightarrow>
                           (case (encode_payload (sn_request_format env) request, sn_token env,
                                  sn_bind env, sn_local_addr env, sn_spawn env) of
                              (Inr payload, Inr token, Inr _, Inr _, Inr _) \<Rightarrow>
                                run_supervised_child env request payload token deadline
                            | _ \<Rightarrow> infrastructure)))"

text \<open>\<open>run_in_supervised_subprocess\<close>, from the result of the run.\<close>

definition supervised_helper_result ::
  "supervised_error + supervisor_run_result \<Rightarrow> run_output libdeno_result" where
  "supervised_helper_result r =
     (let broken = (\<lambda>p. case p of None \<Rightarrow> False | Some o_out \<Rightarrow> po_incomplete o_out \<or> po_reader_error o_out)
      in case r of
           Inl e \<Rightarrow>
             if sve_category e = None \<and> sve_cleanup_strength e = Some SvDirectChild
                \<and> sve_transport_status e = Some SvFailed \<and> broken (sve_partial_output e)
             then Inl (supervisor_category_error FcInfrastructure)
             else Inl (sve_error e)
         | Inr result \<Rightarrow>
             if srr_transport_status result \<noteq> SvClean \<or> broken (srr_partial_output result)
             then Inl (supervisor_category_error FcInfrastructure)
             else let partial = (case srr_partial_output result of
                                   Some p \<Rightarrow> p | None \<Rightarrow> partial_output_empty)
                  in Inr \<lparr>ro_exit_code = srr_exit_code result, ro_stdout = po_stdout partial,
                          ro_stderr = po_stderr partial, ro_capture_truncated = po_truncated partial\<rparr>)"

section \<open>The direct child is never left behind\<close>

lemma reap_loop_calls:
  "reap_loop deadline kill_result wait_result turns = Some (r, calls) \<Longrightarrow>
     calls \<noteq> [] \<and> CcSpawn \<notin> set calls
     \<and> (last calls = CcTryWait True \<and> is_ok r
        \<or> last calls = CcWait (is_ok wait_result) \<and> CcKill \<in> set calls \<and> (is_ok r \<longrightarrow> is_ok wait_result))"
proof (induction turns arbitrary: r calls)
  case (Cons turn turns)
  obtain answer now where turn: "turn = (answer, now)" by (cases turn)
  show ?case
  proof (cases answer)
    case (Inl error)
    then show ?thesis
      using Cons.prems turn by (auto simp: kill_and_wait_supervisor_child_def)
  next
    case (Inr status)
    show ?thesis
    proof (cases "status = None \<and> now < deadline")
      case True
      then obtain calls' where "reap_loop deadline kill_result wait_result turns = Some (r, calls')"
        "calls = CcTryWait False # calls'"
        using Cons.prems turn Inr by auto
      with Cons.IH [of r calls'] show ?thesis by auto
    next
      case False
      then show ?thesis
        using Cons.prems turn Inr
        by (cases kill_result; cases wait_result; cases status)
           (auto simp: kill_and_wait_supervisor_child_def)
    qed
  qed
qed simp

lemma run_supervised_spawned:
  assumes "snd (run_supervised_subprocess env entry options cancellation parent_deadline) \<noteq> []"
  shows "\<exists>deadline cwd request payload token.
      effective_supervisor_deadline (sn_started env) parent_deadline (lo_execution_deadline options)
        = Inr deadline
    \<and> sx_requested_reason cancellation = None \<and> \<not> due deadline (sn_checked env)
    \<and> effective_cwd (sn_host env) options = Inr cwd
    \<and> make_supervisor_request (sn_upstream env) (sn_validated env) entry options cwd = Inr request
    \<and> encode_payload (sn_request_format env) request = Inr payload \<and> sn_token env = Inr token
    \<and> run_supervised_subprocess env entry options cancellation parent_deadline
        = run_supervised_child env request payload token deadline"
  using assms unfolding run_supervised_subprocess_def Let_def
  by (cases "effective_cwd (sn_host env) options") (auto split: sum.splits option.splits if_splits)

text \<open>
  C16: A supervised run leaves no direct child behind: if it spawns, it spawns once and its
  last action on the child is a try_wait that found it exited or a wait after a kill; if that
  wait failed the run is reported as an infrastructure failure.
\<close>

theorem supervised_child_always_reaped:
  assumes "reap_supervisor_child now later (sn_kill env) (sn_wait env) turns = Some (sn_reap env)"
    and "run_supervised_subprocess env entry options cancellation parent_deadline = (r, calls)"
  shows "(calls = [] \<or> (\<exists>rest. calls = CcSpawn # rest \<and> CcSpawn \<notin> set rest \<and> rest \<noteq> []
            \<and> (last rest = CcTryWait True
               \<or> last rest = CcWait (is_ok (sn_wait env)) \<and> CcKill \<in> set rest)))
    \<and> (calls \<noteq> [] \<and> last calls = CcWait False \<longrightarrow> (\<exists>e. r = Inl e \<and> sve_category e = Some FcInfrastructure))"
proof (cases "calls = []")
  case False
  then obtain deadline request payload token where
    run: "run_supervised_child env request payload token deadline = (r, calls)"
    using run_supervised_spawned [of env entry options cancellation parent_deadline] assms(2) by auto
  obtain cleanup reaped where reap: "sn_reap env = (cleanup, reaped)" by (cases "sn_reap env")
  have reap_calls: "reaped \<noteq> [] \<and> CcSpawn \<notin> set reaped
     \<and> (last reaped = CcTryWait True \<and> is_ok cleanup
        \<or> last reaped = CcWait (is_ok (sn_wait env)) \<and> CcKill \<in> set reaped
          \<and> (is_ok cleanup \<longrightarrow> is_ok (sn_wait env)))"
    using reap_loop_calls assms(1) by (simp add: reap_supervisor_child_def reap)
  show ?thesis
  proof (cases "(sq_capture_stdout request \<or> sq_capture_stderr request) \<and> \<not> is_ok (sn_readers env)")
    case True
    then show ?thesis
      using run by (auto simp: run_supervised_child_def kill_and_wait_supervisor_child_def
          with_category_and_partial_def)
  next
    case no_readers: False
    let ?session = "sn_session env payload token deadline"
    from no_readers run have calls: "calls = CcSpawn # reaped"
      and r: "\<exists>partial won. r = finish_supervised_run ?session cleanup partial won (sn_cancellation env)"
      by (auto simp: run_supervised_child_def reap Let_def split: if_splits)
    have "\<exists>e. r = Inl e \<and> sve_category e = Some FcInfrastructure" if "\<not> is_ok cleanup"
      using r that
      by (cases cleanup; cases ?session)
         (auto simp: finish_supervised_run_def supervisor_session_failure_category_def
           with_category_and_partial_def)
    with reap_calls show ?thesis using calls by (auto simp: is_ok_iff)
  qed
qed simp

text \<open>
  A supervised child is spawned only if nothing was cancelled, neither the caller's nor the
  options' deadline has passed, the options are valid for the child in a usable working
  directory, and the capture limit is within 96 KiB.
\<close>

theorem supervised_spawn_needs_admission:
  assumes "snd (run_supervised_subprocess env entry options cancellation parent_deadline) \<noteq> []"
  shows "sx_requested_reason cancellation = None
    \<and> (\<forall>p. parent_deadline = Some p \<longrightarrow> sn_checked env < p)
    \<and> (\<forall>d. lo_execution_deadline options = Some d \<longrightarrow> sn_checked env < sn_started env + d \<and> 0 < d)
    \<and> \<not> lo_extensions options
    \<and> (\<exists>cwd. effective_cwd (sn_host env) options = Inr cwd
         \<and> validate_child_options (sn_upstream env) (sn_validated env) options cwd
             (lo_capture_stderr options) = Inr ())
    \<and> (lo_capture_stdout options \<or> lo_capture_stderr options \<longrightarrow>
         (\<forall>n. lo_max_capture_bytes options = Some n \<longrightarrow> n \<le> 96 * 1024))"
proof -
  obtain deadline cwd request where run:
    "effective_supervisor_deadline (sn_started env) parent_deadline (lo_execution_deadline options)
       = Inr deadline"
    "sx_requested_reason cancellation = None" "\<not> due deadline (sn_checked env)"
    "effective_cwd (sn_host env) options = Inr cwd"
    "make_supervisor_request (sn_upstream env) (sn_validated env) entry options cwd = Inr request"
    using run_supervised_spawned [OF assms] by blast
  have deadlines: "\<forall>p. parent_deadline = Some p \<longrightarrow> sn_checked env < p"
    "\<forall>d. lo_execution_deadline options = Some d \<longrightarrow> sn_checked env < sn_started env + d"
    using run(1,3)
    by (auto simp: effective_supervisor_deadline_def due_def checked_add_instant_def min_def
        split: option.splits if_splits sum.splits)
  have valid: "validate_child_options (sn_upstream env) (sn_validated env) options cwd
      (lo_capture_stderr options) = Inr ()" "\<not> lo_extensions options"
    using run(5) by (auto simp: make_supervisor_request_def bind_res_Inr split: if_splits)
  moreover have "lo_execution_deadline options \<noteq> Some 0"
    using valid(1) by (simp add: validate_child_options_ok)
  moreover have "lo_capture_stdout options \<or> lo_capture_stderr options \<longrightarrow>
         (\<forall>n. lo_max_capture_bytes options = Some n \<longrightarrow> n \<le> 96 * 1024)"
    using run(5)
    by (auto simp: make_supervisor_request_def bind_res_Inr supervisor_capture_limit_def
        SUPERVISOR_MAX_CAPTURE_BYTES_PER_STREAM_def split: if_splits)
  ultimately show ?thesis using run(2,4) deadlines by (auto intro: gr0I)
qed

section \<open>The result agrees with the session\<close>

lemma valid_terminal_status:
  assumes "validate_supervisor_terminal_shape t = Inr ()"
    and "forced_kill \<or> es_code status = Some (supervisor_exit_code_for_status
           (case st_exit_code t of None \<Rightarrow> 1 | Some code \<Rightarrow> code))"
  shows "validate_supervisor_terminal_status t status forced_kill = Inr ()"
  using assms
  by (cases "st_outcome t")
     (auto simp: validate_supervisor_terminal_status_def validate_supervisor_terminal_shape_def
       terminal_fields_valid_def completed_code_def supervisor_exit_code_for_status_def
       split: if_splits option.splits)

text \<open>
  The result that a terminal \<open>t\<close> and a first cancellation reason \<open>c\<close> amount to, without looking
  at processes: the specification of a run. A cancellation decides before the terminal does.
  \<open>late\<close> is set when the output was cut off by the deadline of its collection, to the reason that
  is then recorded: it turns a completed run into a failure and leaves the others as they are.
\<close>

definition session_verdict ::
  "supervisor_terminal \<Rightarrow> cancel_reason option \<Rightarrow> supervisor_partial_output option \<Rightarrow> sv_transport
   \<Rightarrow> cancel_reason option option \<Rightarrow> supervised_error + supervisor_run_result" where
  "session_verdict t c partial_output transport late =
     (let failed = (\<lambda>e. Inl (with_metadata_and_partial e partial_output (Some SvDirectChild) (Some transport)));
          category = (\<lambda>k. Inl (with_category_and_partial k partial_output (Some SvDirectChild) (Some transport)))
      in case c of
           Some CrDeadline \<Rightarrow>
             if st_outcome t = SoDeadline then category FcTimeout
             else failed (ErrTimeout ''supervisor execution deadline exceeded'')
         | Some _ \<Rightarrow> failed (ErrRuntime ''supervisor execution cancelled'')
         | None \<Rightarrow>
             (case st_outcome t of
                SoCompleted \<Rightarrow>
                  (case late of
                     None \<Rightarrow> Inr \<lparr>srr_exit_code = the (st_exit_code t),
                       srr_partial_output = partial_output, srr_cleanup_strength = SvDirectChild,
                       srr_transport_status = transport\<rparr>
                   | Some reason \<Rightarrow>
                       if reason = Some CrUser \<or> reason = Some CrShutdown
                       then failed (ErrRuntime ''supervisor execution cancelled'')
                       else category FcTimeout)
              | SoCancelled \<Rightarrow> failed (ErrRuntime ''supervisor execution cancelled'')
              | SoDeadline \<Rightarrow> category FcTimeout
              | SoFailed \<Rightarrow> category (the (st_category t))))"

definition capture_complete :: "supervisor_partial_output option \<Rightarrow> bool" where
  "capture_complete partial_output =
     (case partial_output of None \<Rightarrow> True | Some p \<Rightarrow> \<not> po_incomplete p \<and> \<not> po_reader_error p)"

lemma finish_session_verdict:
  assumes shape: "validate_supervisor_terminal_shape t = Inr ()"
    and status: "forced_kill \<or> es_code status = Some (supervisor_exit_code_for_status
           (case st_exit_code t of None \<Rightarrow> 1 | Some code \<Rightarrow> code))"
  shows "finish_supervised_run
       (Inr \<lparr>so_terminal = t, so_cancellation_before_terminal = c, so_transport_status = transport\<rparr>)
       (Inr \<lparr>cr_status = status, cr_forced_kill = forced_kill\<rparr>) partial_output won cancellation
     = session_verdict t c partial_output (if capture_complete partial_output then transport else SvFailed)
         (if won then Some (sx_requested_reason cancellation) else None)"
proof -
  note valid = valid_terminal_status [OF shape status]
  have "validate_supervisor_terminal t = Inr ()"
    using shape by (simp add: validate_supervisor_terminal_def)
  moreover have "(case partial_output of None \<Rightarrow> False | Some p \<Rightarrow> po_incomplete p \<or> po_reader_error p)
      = (\<not> capture_complete partial_output)"
    by (simp add: capture_complete_def split: option.split)
  moreover have "st_outcome t = SoCompleted \<Longrightarrow> st_exit_code t \<noteq> None"
    "st_outcome t \<noteq> SoCompleted \<Longrightarrow> st_exit_code t = None"
    "st_outcome t = SoFailed \<Longrightarrow> st_category t \<noteq> None"
    using shape by (cases "st_category t"; auto simp: validate_supervisor_terminal_shape_def
        terminal_fields_valid_def split: if_splits supervisor_outcome.splits)+
  ultimately show ?thesis
    using valid status
    by (cases "st_outcome t"; cases c rule: option.exhaust; cases "the c")
       (auto simp: finish_supervised_run_def map_supervisor_terminal_with_cancellation_def
         terminal_failure_category_def session_verdict_def collection_deadline_error_def
         completed_code_def supervisor_exit_code_for_status_def supervisor_error_def
         split: option.splits cancel_reason.splits)
qed

lemma reachable_done:
  assumes "session_reachable env s" and "sy_pphase s = PpDone t c"
  shows "sy_cphase s = CpExited (case st_exit_code t of None \<Rightarrow> 1 | Some code \<Rightarrow> code)
    \<and> validate_supervisor_terminal_shape t = Inr ()
    \<and> (\<not> sy_ran s \<longrightarrow> c \<noteq> None)"
  using session_invD(5,6,7) [OF session_reachable_inv [OF assms(1), THEN conjunct1]] assms(2)
  by (auto simp: cancel_inv_def)

lemma session_verdict_Inr:
  assumes "session_verdict t c partial_output transport late = Inr result"
  shows "c = None \<and> st_outcome t = SoCompleted \<and> late = None \<and> srr_exit_code result = the (st_exit_code t)"
  using assms
  by (auto simp: session_verdict_def Let_def split: option.splits cancel_reason.splits
      supervisor_outcome.splits if_splits)

text \<open>
  C2: The caller's view of a supervised run refines the session. When the parent's session has
  ended with a terminal, the direct child was reaped, and either it had to be killed or the
  system reports the low byte of the code it exited with, the reported result is the verdict
  of the terminal, the first cancellation reason, the transport (failed when the captured
  output is incomplete or its reader failed) and whether the deadline of the output collection
  was reached first. Success is reported only for a run that entered user code, was not
  cancelled, completed and was collected in time, with the code the child exited with.
\<close>

theorem supervised_run_refines_session:
  assumes "session_reachable env s" and "sy_pphase s = PpDone t c" and "sy_cphase s = CpExited code"
    and "forced_kill \<or> es_code status = Some (supervisor_exit_code_for_status code)"
    and "finish_supervised_run
       (Inr \<lparr>so_terminal = t, so_cancellation_before_terminal = c, so_transport_status = transport\<rparr>)
       (Inr \<lparr>cr_status = status, cr_forced_kill = forced_kill\<rparr>) partial_output won cancellation = verdict"
  shows "verdict = session_verdict t c partial_output
       (if capture_complete partial_output then transport else SvFailed)
       (if won then Some (sx_requested_reason cancellation) else None)
    \<and> (\<forall>result. verdict = Inr result \<longrightarrow>
         sy_ran s \<and> c = None \<and> st_outcome t = SoCompleted \<and> \<not> won \<and> srr_exit_code result = code)"
proof -
  note fin = reachable_done [OF assms(1,2)]
  have verdict: "verdict = session_verdict t c partial_output
       (if capture_complete partial_output then transport else SvFailed)
       (if won then Some (sx_requested_reason cancellation) else None)"
    using finish_session_verdict [of t forced_kill status c transport partial_output won cancellation] fin assms(3-5)
    by simp
  have "sy_ran s \<and> c = None \<and> st_outcome t = SoCompleted \<and> \<not> won \<and> srr_exit_code result = code"
    if "verdict = Inr result" for result
  proof -
    have v: "c = None" "st_outcome t = SoCompleted" "\<not> won" "srr_exit_code result = the (st_exit_code t)"
      using session_verdict_Inr [OF that [unfolded verdict]] by (auto split: if_splits)
    then have "st_exit_code t \<noteq> None"
      using fin by (auto simp: validate_supervisor_terminal_shape_def terminal_fields_valid_def
          split: if_splits)
    with v fin assms(3) show ?thesis by auto
  qed
  with verdict show ?thesis by blast
qed

section \<open>Strangers on the loopback port\<close>

text \<open>
  A connection that reaches the front of the queue in time and whose first frame does not
  arrive, is malformed, or is not the HELLO that carries the token.
\<close>

definition stranger :: "supervisor_token \<Rightarrow> instant \<Rightarrow> instant option \<Rightarrow> 's peer_turn \<Rightarrow> bool" where
  "stranger token handshake_deadline deadline t \<longleftrightarrow>
     pt_requested t = None \<and> pt_now t < handshake_deadline
   \<and> (\<exists>stream requested. accept_supervisor_peer handshake_deadline deadline (pt_accept t)
        = Some (Inr stream, requested))
   \<and> (case fst (read_frame_with_deadline ChildToParent
              (Some (min handshake_deadline
                 (supervisor_deadline_after (pt_peer_now t) (pt_peer_later t) PEER_HELLO_TIMEOUT)))
              False (pt_reads t)) of
        None \<Rightarrow> False
      | Some (Inl _) \<Rightarrow> True
      | Some (Inr frame) \<Rightarrow> \<not> is_hello token frame)"

lemma await_peer_stranger:
  "stranger token handshake_deadline deadline t \<Longrightarrow>
     await_peer token handshake_deadline deadline (t # ts) = await_peer token handshake_deadline deadline ts"
  by (auto simp: stranger_def Let_def split: option.splits sum.splits)

definition hello_frame :: "supervisor_token \<Rightarrow> supervisor_frame" where
  "hello_frame token = \<lparr>sf_kind = FkHello, sf_request_id = 0, sf_payload = token\<rparr>"

lemma is_hello_frame: "is_hello token frame \<longleftrightarrow> frame = hello_frame token"
  by (cases frame) (auto simp: is_hello_def hello_frame_def token_authenticate_iff)

lemma await_peer_hello:
  assumes "pt_requested child = None" and "pt_now child < handshake_deadline" and "token_wf token"
    and "accept_supervisor_peer handshake_deadline deadline (pt_accept child) = Some (Inr stream, requested)"
    and "\<forall>c \<in> set (pt_reads child). good_call (Some (min handshake_deadline
           (supervisor_deadline_after (pt_peer_now child) (pt_peer_later child) PEER_HELLO_TIMEOUT))) False c"
    and "delivered (pt_reads child) = frame_bytes (hello_frame token) @ rest"
  shows "await_peer token handshake_deadline deadline (child # others)
    = Some (Inr (stream, hello_frame token), False)"
proof -
  have "frame_wf (hello_frame token)" "kind_direction (sf_kind (hello_frame token)) = ChildToParent"
    using assms(3) by (simp_all add: frame_wf_def hello_frame_def token_wf_def
        SUPERVISOR_TOKEN_LEN_def MAX_SUPERVISOR_FRAME_PAYLOAD_def)
  from read_frame_good [OF assms(5,6) this] show ?thesis
    using assms(1,2,4) by (auto simp: is_hello_frame)
qed

text \<open>
  However many other connections reach the loopback port first, with silent, malformed or
  wrong frames, as long as the budget lasts the wait for the child goes on and accepts the
  peer whose bytes are the HELLO frame with the token.
\<close>

theorem strangers_cannot_abort_handshake:
  assumes "\<forall>t \<in> set strangers. stranger token handshake_deadline deadline t"
    and "pt_requested child = None" and "pt_now child < handshake_deadline" and "token_wf token"
    and "accept_supervisor_peer handshake_deadline deadline (pt_accept child) = Some (Inr stream, requested)"
    and "\<forall>c \<in> set (pt_reads child). good_call (Some (min handshake_deadline
           (supervisor_deadline_after (pt_peer_now child) (pt_peer_later child) PEER_HELLO_TIMEOUT))) False c"
    and "delivered (pt_reads child) = frame_bytes (hello_frame token) @ rest"
  shows "await_peer token handshake_deadline deadline (strangers @ child # others)
    = Some (Inr (stream, hello_frame token), False)"
  using assms(1)
proof (induction strangers)
  case Nil
  show ?case using await_peer_hello [OF assms(2-7)] by simp
next
  case (Cons t ts)
  then show ?case using await_peer_stranger [of token handshake_deadline deadline t] by simp
qed

lemma accept_supervisor_peer_accepts:
  "accept_supervisor_peer d e ts = Some (Inr stream, r) \<Longrightarrow>
     \<exists>tried a rest. ts = tried @ a # rest \<and> (\<forall>b \<in> set (tried @ [a]). at_requested b = None)
       \<and> at_accept a = Inr (stream, True) \<and> at_prepare a = Inr ()"
proof (induction ts)
  case (Cons t ts)
  show ?case
  proof (cases "accept_supervisor_peer d e ts = Some (Inr stream, r)")
    case True
    with Cons.IH obtain tried a rest where "t # ts = (t # tried) @ a # rest"
      "\<forall>b \<in> set (tried @ [a]). at_requested b = None" "at_accept a = Inr (stream, True)" "at_prepare a = Inr ()"
      by auto
    moreover have "at_requested t = None" using Cons.prems by (auto split: option.splits)
    ultimately show ?thesis by (metis append_Cons set_ConsD)
  next
    case False
    with Cons.prems have "at_requested t = None" "at_accept t = Inr (stream, True)" "at_prepare t = Inr ()"
      by (auto split: option.splits sum.splits if_splits)
    then have "\<forall>b \<in> set ([] @ [t]). at_requested b = None" by simp
    then show ?thesis
      using \<open>at_accept t = Inr (stream, True)\<close> \<open>at_prepare t = Inr ()\<close> by (metis append_Nil)
  qed
qed simp

text \<open>
  C17: A peer is accepted only over a loopback connection and only if the bytes it sent begin
  with the HELLO frame that carries the run's token. At the start of its turn, and of every
  turn before it, no cancellation was requested and the handshake deadline had not passed, and
  no look of the accept loop that took its connection found a cancellation. HELLO itself is
  read under the peer's own deadline and without looking at the cancellation: one requested
  during that read is seen by the write of REQUEST.
\<close>

theorem handshake_needs_token:
  assumes "await_peer token handshake_deadline deadline turns = Some (Inr (stream, hello), requested)"
  shows "hello = hello_frame token
    \<and> (\<exists>before t after. turns = before @ t # after
         \<and> (\<forall>u \<in> set (before @ [t]). pt_requested u = None \<and> pt_now u < handshake_deadline)
         \<and> (\<exists>tried a rest. pt_accept t = tried @ a # rest \<and> (\<forall>b \<in> set (tried @ [a]). at_requested b = None)
              \<and> at_accept a = Inr (stream, True) \<and> at_prepare a = Inr ())
         \<and> (\<exists>rest. delivered (pt_reads t) = frame_bytes (hello_frame token) @ rest))"
  using assms
proof (induction turns)
  case (Cons t ts)
  let ?read = "read_frame_with_deadline ChildToParent (Some (min handshake_deadline
      (supervisor_deadline_after (pt_peer_now t) (pt_peer_later t) PEER_HELLO_TIMEOUT))) False (pt_reads t)"
  have open_turn: "pt_requested t = None" "pt_now t < handshake_deadline"
    using Cons.prems by (auto split: if_splits)
  show ?case
  proof (cases "await_peer token handshake_deadline deadline ts = Some (Inr (stream, hello), requested)")
    case True
    from Cons.IH [OF this] obtain before u after where hello: "hello = hello_frame token"
      and "ts = before @ u # after"
      and looks: "\<forall>w \<in> set (before @ [u]). pt_requested w = None \<and> pt_now w < handshake_deadline"
      and rest: "\<exists>tried a rest. pt_accept u = tried @ a # rest \<and> (\<forall>b \<in> set (tried @ [a]). at_requested b = None)
          \<and> at_accept a = Inr (stream, True) \<and> at_prepare a = Inr ()"
        "\<exists>rest. delivered (pt_reads u) = frame_bytes (hello_frame token) @ rest"
      by blast
    then have turns: "t # ts = (t # before) @ u # after" by simp
    have "\<forall>w \<in> set ((t # before) @ [u]). pt_requested w = None \<and> pt_now w < handshake_deadline"
      using open_turn looks by simp
    with hello turns rest show ?thesis by blast
  next
    case False
    then obtain s r where acc: "accept_supervisor_peer handshake_deadline deadline (pt_accept t)
        = Some (Inr s, r)"
      using Cons.prems open_turn by (auto split: option.splits sum.splits prod.splits)
    then obtain frame where frame: "fst ?read = Some (Inr frame)"
      using Cons.prems open_turn False by (auto split: option.splits sum.splits)
    then have "is_hello token frame" "s = stream" "hello = frame"
      using Cons.prems open_turn acc False by (auto split: if_splits)
    moreover obtain cs' where "?read = (Some (Inr frame), cs')"
      using frame by (cases ?read) auto
    then have "delivered (pt_reads t) = frame_bytes frame @ delivered cs'"
      by (rule read_frame_sound [THEN conjunct1])
    ultimately have hello: "hello = hello_frame token"
      and bytes: "\<exists>rest. delivered (pt_reads t) = frame_bytes (hello_frame token) @ rest"
      and "accept_supervisor_peer handshake_deadline deadline (pt_accept t) = Some (Inr stream, r)"
      using acc by (auto simp: is_hello_frame)
    note accepted = accept_supervisor_peer_accepts [OF this(3)]
    have looks: "\<forall>u \<in> set ([] @ [t]). pt_requested u = None \<and> pt_now u < handshake_deadline"
      using open_turn by simp
    have "t # ts = [] @ t # ts" by simp
    then have "\<exists>before u after. t # ts = before @ u # after
         \<and> (\<forall>w \<in> set (before @ [u]). pt_requested w = None \<and> pt_now w < handshake_deadline)
         \<and> (\<exists>tried a rest. pt_accept u = tried @ a # rest \<and> (\<forall>b \<in> set (tried @ [a]). at_requested b = None)
              \<and> at_accept a = Inr (stream, True) \<and> at_prepare a = Inr ())
         \<and> (\<exists>rest. delivered (pt_reads u) = frame_bytes (hello_frame token) @ rest)"
      using looks accepted bytes by - (rule exI [of _ "[]"], rule exI [of _ t], rule exI [of _ ts], intro conjI)
    with hello show ?thesis ..
  qed
qed simp

section \<open>The child runs what was validated\<close>

text \<open>
  The request that is sent to the supervised child decodes to itself, and the options the
  child derives from it are the caller's options with the working directory pinned and capture
  turned off; they pass the child's own validation.
\<close>

theorem supervised_child_gets_validated_options:
  assumes "make_supervisor_request up now entry options cwd = Inr request"
    and "encode_payload fmt request = Inr payload"
    and "\<And>bytes. sd_to_vec fmt request = Inr bytes \<Longrightarrow> sd_from_slice fmt bytes = Inr request"
  shows "decode_payload fmt payload = Inr request
    \<and> sq_entry request = entry
    \<and> supervisor_child_options request
        = options\<lparr>lo_cwd := Some cwd, lo_capture_stdout := False, lo_capture_stderr := False,
            lo_max_capture_bytes := None\<rparr>
    \<and> validate_child_options up now (supervisor_child_options request) cwd False = Inr ()"
proof -
  have "validate_child_options up now options cwd (lo_capture_stderr options) = Inr ()"
    and request: "sq_entry request = entry" "supervisor_child_options request
        = options\<lparr>lo_cwd := Some cwd, lo_capture_stdout := False, lo_capture_stderr := False,
            lo_max_capture_bytes := None\<rparr>"
    using assms(1)
    by (auto simp: make_supervisor_request_def bind_res_Inr supervisor_child_options_def split: if_splits)
  moreover have "decode_payload fmt payload = Inr request"
    using assms(2,3) by (auto simp: encode_payload_def decode_payload_def split: sum.splits if_splits)
  ultimately show ?thesis by (auto simp: validate_child_options_ok)
qed

text \<open>
  run_in_supervised_subprocess returns output only for a run whose transport was clean and
  whose captured output is complete, and then exactly that output and exit code.
\<close>

theorem supervised_helper_complete_or_error:
  assumes "supervised_helper_result r = Inr out"
  shows "\<exists>result. r = Inr result \<and> srr_transport_status result = SvClean
    \<and> capture_complete (srr_partial_output result) \<and> ro_exit_code out = srr_exit_code result
    \<and> (\<forall>p. srr_partial_output result = Some p \<longrightarrow>
         ro_stdout out = po_stdout p \<and> ro_stderr out = po_stderr p
         \<and> ro_capture_truncated out = po_truncated p)"
  using assms
  by (cases r; cases "srr_partial_output (projr r)")
     (auto simp: supervised_helper_result_def capture_complete_def Let_def split: if_splits option.splits)

section \<open>A sample run\<close>

definition sample_options :: libdeno_options where
  "sample_options = libdeno_options_default\<lparr>lo_allow_all_permissions := True, lo_cwd := Some ''/w'',
     lo_execution_deadline := Some 5, lo_capture_stdout := True\<rparr>"

definition sample_host :: host_env where
  "sample_host = \<lparr>he_current_dir = Inr ''/w'', he_current_exe = Inr ''/h'', he_var = (\<lambda>_. None),
     he_canonicalize = Inr, he_is_dir = (\<lambda>_. True)\<rparr>"

definition sample_upstream :: "unit upstream" where
  "sample_upstream = \<lparr>up_from_options = (\<lambda>_. Inr ()), up_features = []\<rparr>"

definition sample_request :: supervisor_request where
  "sample_request =
     \<lparr>sq_entry = ''m.ts'', sq_cwd = ''/w'', sq_permissions = [], sq_allow_all_permissions = True,
      sq_prompt = False, sq_args = [], sq_features = None, sq_max_heap_bytes = None,
      sq_execution_deadline = Some 5, sq_capture_stdout = True, sq_capture_stderr = False,
      sq_max_capture_bytes = Some 65536\<rparr>"

definition sample_request_format :: "supervisor_request serde" where
  "sample_request_format =
     \<lparr>sd_to_vec = (\<lambda>r. if r = sample_request then Inr [1] else Inl ''other''),
      sd_from_slice = (\<lambda>bs. if bs = [1] then Inr sample_request else Inl ''other'')\<rparr>"

definition sample_status :: exit_status where
  "sample_status = \<lparr>es_code = Some 0, es_display = ''exit status: 0''\<rparr>"

definition sample_collected :: output_capture where
  "sample_collected = \<lparr>oc_stdout = [104, 105], oc_stderr = [], oc_truncated = False, oc_incomplete = False,
     oc_reader_error = False, oc_deadline_won = False, oc_error = None\<rparr>"

definition sample_supervised :: "unit supervised_env" where
  "sample_supervised =
     \<lparr>sn_host = sample_host, sn_upstream = sample_upstream, sn_started = 1, sn_checked = 2,
      sn_validated = 3, sn_request_format = sample_request_format, sn_token = Inr sample_token,
      sn_bind = Inr (), sn_local_addr = Inr ''127.0.0.1:4000'', sn_spawn = Inr (), sn_readers = Inr (),
      sn_kill = Inr (), sn_wait = Inr sample_status,
      sn_session = (\<lambda>_ _ _. Inr \<lparr>so_terminal = plain_terminal SoCompleted (Some 0) None,
        so_cancellation_before_terminal = None, so_transport_status = SvClean\<rparr>),
      sn_reap = (Inr \<lparr>cr_status = sample_status, cr_forced_kill = False\<rparr>,
                 [CcTryWait False, CcTryWait True]),
      sn_collect = (\<lambda>_. sample_collected), sn_cancellation = sx_new cancel_ctx_new CrUser\<rparr>"

lemma sample_validated:
  "make_supervisor_request sample_upstream 3 ''m.ts'' sample_options ''/w'' = Inr sample_request"
  by (simp add: make_supervisor_request_def sample_options_def libdeno_options_default_def
      validate_child_options_def sample_upstream_def validate_max_heap_bytes_def
      validate_execution_deadline_def checked_add_instant_def instant_limit_def ns_per_sec_def
      reject_zero_deadline_def validate_prompt_capture_def validate_permission_args_def
      build_permissions_def supervisor_capture_limit_def SUPERVISOR_CAPTURE_BYTES_PER_STREAM_def
      SUPERVISOR_MAX_CAPTURE_BYTES_PER_STREAM_def sample_request_def)

lemma sample_run:
  "run_supervised_subprocess sample_supervised ''m.ts'' sample_options (sx_new cancel_ctx_new CrUser) None
     = (Inr \<lparr>srr_exit_code = 0, srr_partial_output = Some (into_supervisor_partial sample_collected),
          srr_cleanup_strength = SvDirectChild, srr_transport_status = SvClean\<rparr>,
        [CcSpawn, CcTryWait False, CcTryWait True])"
proof -
  have "effective_cwd sample_host sample_options = Inr ''/w''"
    by (simp add: effective_cwd_def sample_options_def sample_host_def raw_cwd_def is_absolute_def)
  moreover have "effective_supervisor_deadline 1 None (lo_execution_deadline sample_options) = Inr (Some 6)"
    by (simp add: effective_supervisor_deadline_def sample_options_def checked_add_instant_def
        instant_limit_def ns_per_sec_def)
  moreover have "encode_payload sample_request_format sample_request = Inr [1]"
    by (simp add: encode_payload_def sample_request_format_def MAX_SUPERVISOR_FRAME_PAYLOAD_def)
  moreover have "sq_capture_stdout sample_request" by (simp add: sample_request_def)
  ultimately show ?thesis
    using sample_validated
    by (simp add: run_supervised_subprocess_def sample_supervised_def sx_new_def sx_requested_reason_def
        cancel_ctx_new_def due_def run_supervised_child_def Let_def finish_supervised_run_def
        map_supervisor_terminal_with_cancellation_def validate_supervisor_terminal_def
        validate_supervisor_terminal_shape_def terminal_fields_valid_def plain_terminal_def
        sample_status_def supervisor_exit_code_for_status_def completed_code_def
        collection_deadline_error_def sample_collected_def into_supervisor_partial_def)
qed

theorem supervised_child_always_reaped_witness:
  "last [CcSpawn, CcTryWait False, CcTryWait True] = CcTryWait True \<and>
   (\<exists>rest. [CcSpawn, CcTryWait False, CcTryWait True] = CcSpawn # rest \<and> CcSpawn \<notin> set rest)"
proof -
  have "reap_supervisor_child 0 0 (sn_kill sample_supervised) (sn_wait sample_supervised)
      [(Inr None, 1), (Inr (Some sample_status), 2)] = Some (sn_reap sample_supervised)"
    by (simp add: reap_supervisor_child_def sample_supervised_def supervisor_deadline_after_def
        checked_add_instant_def instant_limit_def ns_per_sec_def SUPERVISOR_CHILD_EXIT_GRACE_def millis_def)
  from supervised_child_always_reaped [OF this sample_run] show ?thesis by auto
qed

theorem supervised_spawn_needs_admission_witness:
  "\<exists>cwd. effective_cwd sample_host sample_options = Inr cwd
     \<and> validate_child_options sample_upstream 3 sample_options cwd False = Inr ()"
  using supervised_spawn_needs_admission [of sample_supervised "''m.ts''" sample_options
      "sx_new cancel_ctx_new CrUser" None]
  unfolding sample_run
  by (auto simp: sample_supervised_def sample_options_def libdeno_options_default_def)

theorem supervised_run_refines_session_witness:
  "\<exists>s t c status. session_reachable sample_env s \<and> sy_pphase s = PpDone t c
     \<and> finish_supervised_run
       (Inr \<lparr>so_terminal = t, so_cancellation_before_terminal = c, so_transport_status = SvClean\<rparr>)
       (Inr \<lparr>cr_status = status, cr_forced_kill = False\<rparr>) (Some partial_output_reader_error) True
       (sx_new cancel_ctx_new CrUser)
       = session_verdict t c (Some partial_output_reader_error) SvFailed (Some None)"
proof -
  from sample_completes obtain s t c where s: "session_reachable sample_env s" "sy_pphase s = PpDone t c"
    by blast
  from reachable_done [OF s] obtain code where code: "sy_cphase s = CpExited code" by blast
  from supervised_run_refines_session [OF s code, where forced_kill = False and won = True and transport = SvClean
      and partial_output = "Some partial_output_reader_error" and cancellation = "sx_new cancel_ctx_new CrUser"
      and status = "\<lparr>es_code = Some (supervisor_exit_code_for_status code), es_display = []\<rparr>", OF _ refl] s
  show ?thesis
    by (force simp: capture_complete_def partial_output_reader_error_def sx_requested_reason_def sx_new_def
        cancel_ctx_new_def)
qed

definition sample_hello_turn :: "bytes \<Rightarrow> nat peer_turn" where
  "sample_hello_turn bs =
     \<lparr>pt_requested = None, pt_now = 1,
      pt_accept = [\<lparr>at_requested = None, at_accept = Inr (7, True), at_prepare = Inr (), at_now = 1,
                    at_now_effective = 1\<rparr>],
      pt_peer_now = 1, pt_peer_later = 1, pt_reads = [ok_call (Inr bs)]\<rparr>"

lemma sample_peer_deadline:
  "min (10 :: nat) (supervisor_deadline_after (Suc 0) (Suc 0) PEER_HELLO_TIMEOUT) = 10"
  by (simp add: supervisor_deadline_after_def checked_add_instant_def instant_limit_def ns_per_sec_def
      PEER_HELLO_TIMEOUT_def secs_def)

lemma frame_bytes_nonempty: "frame_bytes frame \<noteq> []"
  by (simp add: frame_bytes_def)

text \<open>A stranger that sends a frame with the right token and the wrong request id.\<close>

lemma sample_stranger:
  "stranger sample_token 10 None (sample_hello_turn (frame_bytes ((hello_frame sample_token)\<lparr>sf_request_id := 1\<rparr>)))"
proof -
  let ?frame = "(hello_frame sample_token)\<lparr>sf_request_id := 1\<rparr>"
  have "\<exists>cs'. read_frame_with_deadline ChildToParent (Some 10) False [ok_call (Inr (frame_bytes ?frame))]
      = (Some (Inr ?frame), cs') \<and> delivered cs' = []"
    by (rule read_frame_good)
       (simp_all add: good_call_def ok_call_def due_def frame_bytes_nonempty delivered_def call_bytes_def
         frame_wf_def hello_frame_def sample_token_def MAX_SUPERVISOR_FRAME_PAYLOAD_def)
  then show ?thesis
    by (auto simp: stranger_def sample_hello_turn_def sample_peer_deadline is_hello_frame hello_frame_def)
qed

lemma sample_child_reads:
  defines "child \<equiv> sample_hello_turn (frame_bytes (hello_frame sample_token))"
  shows "\<forall>c \<in> set (pt_reads child). good_call (Some (min 10
      (supervisor_deadline_after (pt_peer_now child) (pt_peer_later child) PEER_HELLO_TIMEOUT))) False c"
    and "delivered (pt_reads child) = frame_bytes (hello_frame sample_token) @ []"
    and "token_wf sample_token"
  by (simp_all add: child_def sample_hello_turn_def sample_peer_deadline good_call_def ok_call_def due_def
      frame_bytes_nonempty delivered_def call_bytes_def token_wf_def sample_token_def SUPERVISOR_TOKEN_LEN_def)

theorem strangers_cannot_abort_handshake_witness:
  "await_peer sample_token 10 None
     [sample_hello_turn (frame_bytes ((hello_frame sample_token)\<lparr>sf_request_id := 1\<rparr>)),
      sample_hello_turn (frame_bytes (hello_frame sample_token))]
     = Some (Inr (7, hello_frame sample_token), False)"
  using strangers_cannot_abort_handshake [of "[sample_hello_turn
      (frame_bytes ((hello_frame sample_token)\<lparr>sf_request_id := 1\<rparr>))]"
      sample_token 10 None "sample_hello_turn (frame_bytes (hello_frame sample_token))" 7 False "[]" "[]"]
    sample_stranger sample_child_reads
  by (simp add: sample_hello_turn_def)

theorem handshake_needs_token_witness:
  "\<exists>rest. delivered (pt_reads (sample_hello_turn (frame_bytes (hello_frame sample_token))))
     = frame_bytes (hello_frame sample_token) @ rest"
proof -
  have "await_peer sample_token 10 None [sample_hello_turn (frame_bytes (hello_frame sample_token))]
      = Some (Inr (7, hello_frame sample_token), False)"
    by (rule await_peer_hello [where requested = False, OF _ _ sample_child_reads(3) _ sample_child_reads(1,2)])
      (simp_all add: sample_hello_turn_def)
  from handshake_needs_token [OF this] show ?thesis by (auto simp: append_eq_Cons_conv Cons_eq_append_conv)
qed

theorem supervised_child_gets_validated_options_witness:
  "decode_payload sample_request_format [1] = Inr sample_request
   \<and> validate_child_options sample_upstream 3 (supervisor_child_options sample_request) ''/w'' False = Inr ()"
proof -
  have "encode_payload sample_request_format sample_request = Inr [1]"
    by (simp add: encode_payload_def sample_request_format_def MAX_SUPERVISOR_FRAME_PAYLOAD_def)
  from supervised_child_gets_validated_options [OF sample_validated this] show ?thesis
    by (auto simp: sample_request_format_def split: if_splits)
qed

theorem supervised_helper_complete_or_error_witness:
  "\<exists>result. fst (run_supervised_subprocess sample_supervised ''m.ts'' sample_options
       (sx_new cancel_ctx_new CrUser) None) = Inr result \<and> srr_transport_status result = SvClean"
  using supervised_helper_complete_or_error [of "fst (run_supervised_subprocess sample_supervised
      ''m.ts'' sample_options (sx_new cancel_ctx_new CrUser) None)"]
  unfolding sample_run
  by (simp add: supervised_helper_result_def into_supervisor_partial_def sample_collected_def Let_def)

text \<open>
  A connection that fails in \<open>accept\<close> itself (a peer that connects and resets before it is
  accepted) does end the session.
\<close>

theorem aborted_connection_ends_session:
  assumes "pt_requested p = None" and "pt_now p < handshake_deadline" and "pt_accept p = t # ts"
    and "at_requested t = None" and "at_accept t = Inl e" and "io_kind e = EkConnectionAborted"
  shows "await_peer token handshake_deadline deadline (p # others) = Some (Inl (ErrIo e), False)"
  using assms by simp

end
