(* ===== verification/Ld_Subprocess.thy ===== *)
theory Ld_Subprocess
  imports Ld_Supervised
begin

text \<open>
  The plain subprocess backend (src/src/subprocess.rs): the request a child reads from its
  standard input, spawning the child, the bounded write of the request, the run with and without
  output capture, and child mode on the other side. The entry of the supervised child
  (\<open>maybe_handle_supervisor_mode\<close>) is here too. \<open>child_call\<close> lists what is done to the child.
\<close>

section \<open>Errors and budgets\<close>

text \<open>The display text of a \<open>LibdenoError\<close> (src/src/lib.rs).\<close>

fun libdeno_error_display :: "libdeno_error \<Rightarrow> string" where
  "libdeno_error_display (ErrEntry m) = ''failed to resolve entry module: '' @ m"
| "libdeno_error_display (ErrPermission m) = ''invalid permission flags: '' @ m"
| "libdeno_error_display (ErrConfiguration m) = m"
| "libdeno_error_display (ErrRuntime m) = m"
| "libdeno_error_display (ErrCore m) = m"
| "libdeno_error_display (ErrIo e) = io_message e"
| "libdeno_error_display (ErrTimeout m) = m"

definition MAX_ACTIVE_HANDSHAKE_WRITERS :: nat where
  "MAX_ACTIVE_HANDSHAKE_WRITERS = 32"

definition reserve_handshake_writer :: "nat \<Rightarrow> cas_outcome list \<Rightarrow> nat io_result option" where
  "reserve_handshake_writer =
     budget_reserve MAX_ACTIVE_HANDSHAKE_WRITERS ''subprocess handshake writer''"

definition MAX_ACTIVE_SUBPROCESS_OUTPUT_READERS :: nat where
  "MAX_ACTIVE_SUBPROCESS_OUTPUT_READERS = 64"

definition reserve_subprocess_output_reader :: "nat \<Rightarrow> cas_outcome list \<Rightarrow> nat io_result option" where
  "reserve_subprocess_output_reader =
     budget_reserve MAX_ACTIVE_SUBPROCESS_OUTPUT_READERS ''subprocess output reader/pipe''"

section \<open>The request\<close>

definition LIBDENO_CHILD_MODE :: string where
  "LIBDENO_CHILD_MODE = ''LIBDENO_CHILD_MODE''"

definition LIBDENO_CHILD_TOKEN :: string where
  "LIBDENO_CHILD_TOKEN = ''LIBDENO_CHILD_TOKEN''"

definition LIBDENO_HOST_EXE :: string where
  "LIBDENO_HOST_EXE = ''LIBDENO_HOST_EXE''"

definition MAX_CHILD_REQUEST_BYTES :: nat where
  "MAX_CHILD_REQUEST_BYTES = 1024 * 1024"

record child_run_request =
  cq_entry :: string
  cq_permissions :: "string list"
  cq_allow_all_permissions :: bool
  cq_prompt :: bool
  cq_args :: "string list"
  cq_cwd :: string
  cq_token :: string
  cq_features :: "string list option"
  cq_max_heap_bytes :: "64 word option"
  cq_execution_deadline :: "duration option"

text \<open>\<open>child_token\<close> asks for 16 random bytes; the argument is what the operating system filled in.\<close>

definition child_token :: "string + bytes \<Rightarrow> string libdeno_result" where
  "child_token fill = map_err ErrRuntime (random_hex fill)"

definition token_matches :: "string \<Rightarrow> string \<Rightarrow> bool" where
  "token_matches a b = constant_time_eq (str_bytes a) (str_bytes b)"

definition validate_child_request_size :: "bytes \<Rightarrow> unit libdeno_result" where
  "validate_child_request_size payload =
     (if MAX_CHILD_REQUEST_BYTES < length payload
      then Inl (ErrRuntime (''child-mode request exceeds the ''
             @ show_nat MAX_CHILD_REQUEST_BYTES @ ''-byte limit''))
      else Inr ())"

definition child_request_of ::
  "string \<Rightarrow> libdeno_options \<Rightarrow> string \<Rightarrow> string \<Rightarrow> child_run_request" where
  "child_request_of entry options cwd token =
     \<lparr>cq_entry = entry, cq_permissions = lo_permissions options,
      cq_allow_all_permissions = lo_allow_all_permissions options, cq_prompt = lo_prompt options,
      cq_args = lo_args options, cq_cwd = cwd, cq_token = token, cq_features = lo_features options,
      cq_max_heap_bytes = lo_max_heap_bytes options,
      cq_execution_deadline = lo_execution_deadline options\<rparr>"

section \<open>Spawning the child\<close>

datatype stdio = StPiped | StInherit

definition stdio_for :: "bool \<Rightarrow> stdio" where
  "stdio_for capture = (if capture then StPiped else StInherit)"

text \<open>A \<^verbatim>\<open>std::process::Command\<close>: what it sets and removes in the inherited environment.\<close>

record child_command =
  cc_exe :: string
  cc_env :: "(string \<times> string) list"
  cc_env_remove :: "string list"
  cc_current_dir :: string
  cc_stdin :: stdio
  cc_stdout :: stdio
  cc_stderr :: stdio

definition child_vars :: "child_command \<Rightarrow> (string \<Rightarrow> string option) \<Rightarrow> string \<Rightarrow> string option" where
  "child_vars command parent name =
     (if name \<in> set (cc_env_remove command) then None
      else case map_of (cc_env command) name of Some v \<Rightarrow> Some v | None \<Rightarrow> parent name)"

text \<open>
  \<open>std::env::var_os(LIBDENO_HOST_EXE).map(PathBuf::from).unwrap_or(std::env::current_exe()?)\<close>: the
  argument of \<open>unwrap_or\<close> is evaluated, and may fail, whether or not the variable is set.
\<close>

definition child_host_executable :: "host_env \<Rightarrow> string option \<Rightarrow> string libdeno_result" where
  "child_host_executable env explicit =
     (case explicit of
        Some path \<Rightarrow> Inr path
      | None \<Rightarrow>
          bind_res (map_err ErrIo (he_current_exe env)) (\<lambda>current.
            Inr (case he_var env LIBDENO_HOST_EXE of Some path \<Rightarrow> path | None \<Rightarrow> current)))"

definition unserviced_child_message :: string where
  "unserviced_child_message =
     ''run_in_subprocess was called from a process spawned as a libdeno child that never serviced child mode; call maybe_handle_child_mode() at the start of main()''"

text \<open>
  The environment of one run: the host, the clock of the validation, the random bytes, the JSON
  format of the request, and the answers of the operating system.
\<close>

record write_env =
  wv_stdin :: bool
  wv_budget :: "nat io_result"
  wv_thread :: "unit io_result"
  wv_answer :: "unit io_result recv"
  wv_try_wait :: "exit_status option io_result"
  wv_wait :: "exit_status io_result"
  wv_cleanup_from :: instant
  wv_cleanup_to :: instant

record reader_env =
  rv_pipe :: bool
  rv_budget :: "nat io_result"
  rv_thread :: "unit io_result"

record 'p subprocess_env =
  sb_host :: host_env
  sb_upstream :: "'p upstream"
  sb_now :: instant
  sb_random :: "string + bytes"
  sb_format :: "child_run_request serde"
  sb_spawn :: "child_command \<Rightarrow> unit io_result"
  sb_write :: write_env
  sb_stdout :: reader_env
  sb_stderr :: reader_env
  sb_wait :: "exit_status io_result"
  sb_reap_from :: instant
  sb_reap_to :: instant
  sb_drain_from :: instant
  sb_drain_to :: instant
  sb_collect :: "bool \<Rightarrow> bool \<Rightarrow> nat \<Rightarrow> output_capture"

definition child_command_of ::
  "string \<Rightarrow> string \<Rightarrow> string \<Rightarrow> bool \<Rightarrow> bool \<Rightarrow> child_command" where
  "child_command_of exe token cwd capture_stdout capture_stderr =
     \<lparr>cc_exe = exe, cc_env = [(LIBDENO_CHILD_MODE, ''1''), (LIBDENO_CHILD_TOKEN, token)],
      cc_env_remove = [''NODE_CHANNEL_FD'', ''NODE_CHANNEL_SERIALIZATION_MODE'', ''LIBDENO_SPAWNED_IPC''],
      cc_current_dir = cwd, cc_stdin = StPiped, cc_stdout = stdio_for capture_stdout,
      cc_stderr = stdio_for capture_stderr\<rparr>"

definition spawn_child_request ::
  "'p subprocess_env \<Rightarrow> string \<Rightarrow> libdeno_options \<Rightarrow> string option \<Rightarrow> bool \<Rightarrow> bool
   \<Rightarrow> (bytes \<times> child_command) libdeno_result" where
  "spawn_child_request env entry options explicit_host capture_stdout capture_stderr =
     (if lo_extensions options then Inl extensions_error
      else
        bind_res (child_token (sb_random env)) (\<lambda>token.
        bind_res (effective_cwd (sb_host env) options) (\<lambda>cwd.
        bind_res (validate_child_options (sb_upstream env) (sb_now env) options cwd capture_stderr) (\<lambda>_.
        bind_res (map_err ErrRuntime
                    (sd_to_vec (sb_format env) (child_request_of entry options cwd token))) (\<lambda>payload.
        bind_res (validate_child_request_size payload) (\<lambda>_.
        if he_var (sb_host env) LIBDENO_CHILD_MODE \<noteq> None
           \<and> he_var (sb_host env) LIBDENO_CHILD_TOKEN \<noteq> None
        then Inl (ErrConfiguration unserviced_child_message)
        else
          bind_res (child_host_executable (sb_host env) explicit_host) (\<lambda>exe.
          let command = child_command_of exe token cwd capture_stdout capture_stderr
          in bind_res (map_err ErrIo (sb_spawn env command)) (\<lambda>_. Inr (payload, command)))))))))"

section \<open>Writing the request\<close>

definition handshake_write_result :: "write_env \<Rightarrow> unit libdeno_result" where
  "handshake_write_result env =
     (if \<not> wv_stdin env then Inl (ErrRuntime ''child has no stdin'')
      else case wv_thread env of
        Inl error \<Rightarrow> Inl (ErrIo error)
      | Inr _ \<Rightarrow>
          (case wv_answer env of
             RvMessage (Inr _) \<Rightarrow> Inr ()
           | RvMessage (Inl e) \<Rightarrow> Inl (ErrIo e)
           | RvTimeout \<Rightarrow> Inl (ErrTimeout
               ''subprocess handshake timed out after 10s: host did not service child mode (stdin not read)'')
           | RvDisconnected \<Rightarrow> Inl (ErrRuntime ''child stdin writer terminated unexpectedly'')))"

text \<open>\<open>let _ = child.kill(); let _ = child.wait();\<close> under a cleanup span.\<close>

definition kill_and_wait :: "write_env \<Rightarrow> child_call list" where
  "kill_and_wait env = [CcKill, CcWait (is_ok (wv_wait env))]"

definition cleanup_span :: "write_env \<Rightarrow> execution_timing \<Rightarrow> execution_timing" where
  "cleanup_span env = timing_span PhCancelKillReap (wv_cleanup_from env) (wv_cleanup_to env)"

definition write_child_request ::
  "write_env \<Rightarrow> execution_timing \<Rightarrow> unit libdeno_result \<times> child_call list \<times> execution_timing" where
  "write_child_request env timing =
     (case (wv_stdin env, wv_budget env) of
        (True, Inl error) \<Rightarrow> (Inl (ErrIo error), kill_and_wait env, cleanup_span env timing)
      | _ \<Rightarrow>
          (case handshake_write_result env of
             Inr _ \<Rightarrow> (Inr (), [], timing)
           | Inl e \<Rightarrow>
               (case wv_try_wait env of
                  Inr (Some status) \<Rightarrow>
                    (Inl (ErrRuntime (''child exited with '' @ es_display status
                       @ '' before accepting the run request (request write failed: ''
                       @ libdeno_error_display e @ '')'')), [CcTryWait True], timing)
                | _ \<Rightarrow> (Inl e, CcTryWait False # kill_and_wait env, cleanup_span env timing))))"

section \<open>The output readers\<close>

definition take_pipe :: "string \<Rightarrow> reader_env \<Rightarrow> bool \<Rightarrow> bool io_result" where
  "take_pipe name env capture =
     (if \<not> capture then Inr False
      else if rv_pipe env then Inr True
      else Inl (IoError EkOther (''subprocess '' @ name @ '' pipe was not created'')))"

text \<open>\<open>SubprocessOutputReader::spawn\<close>: a slot of the reader budget, then the thread.\<close>

definition spawn_output_reader :: "reader_env \<Rightarrow> bool \<Rightarrow> unit io_result" where
  "spawn_output_reader env has_pipe =
     (if has_pipe then bind_res (rv_budget env) (\<lambda>_. rv_thread env) else Inr ())"

definition take_output_readers ::
  "reader_env \<Rightarrow> reader_env \<Rightarrow> bool \<Rightarrow> bool \<Rightarrow> (bool \<times> bool) io_result" where
  "take_output_readers out err capture_stdout capture_stderr =
     bind_res (take_pipe ''stdout'' out capture_stdout) (\<lambda>out_pipe.
     bind_res (take_pipe ''stderr'' err capture_stderr) (\<lambda>err_pipe.
     bind_res (spawn_output_reader out out_pipe) (\<lambda>_.
     bind_res (spawn_output_reader err err_pipe) (\<lambda>_.
     Inr (out_pipe, err_pipe)))))"

section \<open>The run\<close>

definition status_code :: "exit_status \<Rightarrow> int" where
  "status_code status = (case es_code status of Some code \<Rightarrow> code | None \<Rightarrow> 1)"

definition reap_span :: "'p subprocess_env \<Rightarrow> execution_timing \<Rightarrow> execution_timing" where
  "reap_span env = timing_span PhCancelKillReap (sb_reap_from env) (sb_reap_to env)"

definition run_in_subprocess_inner ::
  "'p subprocess_env \<Rightarrow> string \<Rightarrow> libdeno_options \<Rightarrow> string option \<Rightarrow> execution_timing
   \<Rightarrow> int libdeno_result \<times> child_call list \<times> execution_timing" where
  "run_in_subprocess_inner env entry options explicit_host timing =
     (case spawn_child_request env entry options explicit_host False False of
        Inl e \<Rightarrow> (Inl e, [], timing)
      | Inr _ \<Rightarrow>
          (case write_child_request (sb_write env) timing of
             (Inl e, calls, timing) \<Rightarrow> (Inl e, CcSpawn # calls, timing)
           | (Inr _, calls, timing) \<Rightarrow>
               (case sb_wait env of
                  Inl e \<Rightarrow> (Inl (ErrIo e), CcSpawn # calls @ [CcWait False], reap_span env timing)
                | Inr status \<Rightarrow>
                    (Inr (status_code status), CcSpawn # calls @ [CcWait True], reap_span env timing))))"

definition subprocess_incomplete_error :: io_error where
  "subprocess_incomplete_error = IoError EkTimedOut
     ''subprocess output capture incomplete: collection deadline expired before EOF; a detached child usually holds the captured stdout/stderr pipe open (give it stdout: \"null\" or a log file instead of \"inherit\")''"

definition output_of_capture :: "exit_status \<Rightarrow> output_capture \<Rightarrow> run_output libdeno_result" where
  "output_of_capture status capture =
     (case oc_error capture of
        Some e \<Rightarrow> Inl (ErrIo (IoError EkOther e))
      | None \<Rightarrow>
          if oc_incomplete capture then Inl (ErrIo subprocess_incomplete_error)
          else Inr \<lparr>ro_exit_code = status_code status, ro_stdout = oc_stdout capture,
                    ro_stderr = oc_stderr capture, ro_capture_truncated = oc_truncated capture\<rparr>)"

definition drain_span :: "'p subprocess_env \<Rightarrow> bool \<Rightarrow> execution_timing \<Rightarrow> execution_timing" where
  "drain_span env capture timing =
     (if capture then timing_span PhOutputDrain (sb_drain_from env) (sb_drain_to env) timing
      else timing)"

definition run_in_subprocess_with_output_inner ::
  "'p subprocess_env \<Rightarrow> string \<Rightarrow> libdeno_options \<Rightarrow> string option \<Rightarrow> bool \<Rightarrow> bool \<Rightarrow> execution_timing
   \<Rightarrow> run_output libdeno_result \<times> child_call list \<times> execution_timing" where
  "run_in_subprocess_with_output_inner env entry options explicit_host capture_stdout capture_stderr timing =
     (case spawn_child_request env entry options explicit_host capture_stdout capture_stderr of
        Inl e \<Rightarrow> (Inl e, [], timing)
      | Inr _ \<Rightarrow>
          (case take_output_readers (sb_stdout env) (sb_stderr env) capture_stdout capture_stderr of
             Inl error \<Rightarrow>
               (Inl (ErrIo error), CcSpawn # kill_and_wait (sb_write env), cleanup_span (sb_write env) timing)
           | Inr _ \<Rightarrow>
               (case write_child_request (sb_write env) timing of
                  (Inl e, calls, timing) \<Rightarrow> (Inl e, CcSpawn # calls, timing)
                | (Inr _, calls, timing) \<Rightarrow>
                    let timing = drain_span env (capture_stdout \<or> capture_stderr) (reap_span env timing)
                    in (case sb_wait env of
                          Inl e \<Rightarrow> (Inl (ErrIo e), CcSpawn # calls @ [CcWait False], timing)
                        | Inr status \<Rightarrow>
                            (output_of_capture status (sb_collect env capture_stdout capture_stderr
                               (case lo_max_capture_bytes options of Some n \<Rightarrow> n | None \<Rightarrow> unat usize_max)),
                             CcSpawn # calls @ [CcWait True], timing)))))"

definition run_in_subprocess ::
  "'p subprocess_env \<Rightarrow> string \<Rightarrow> libdeno_options
   \<Rightarrow> int libdeno_result \<times> child_call list \<times> execution_timing" where
  "run_in_subprocess env entry options = run_in_subprocess_inner env entry options None timing_disabled"

definition run_in_subprocess_with_output ::
  "'p subprocess_env \<Rightarrow> string \<Rightarrow> libdeno_options
   \<Rightarrow> run_output libdeno_result \<times> child_call list \<times> execution_timing" where
  "run_in_subprocess_with_output env entry options =
     run_in_subprocess_with_output_inner env entry options None True True timing_disabled"

section \<open>Child mode\<close>

text \<open>
  What a process in child mode sees: its environment, what the thread that reads standard input
  sends within ten seconds (the bytes up to the end of the stream, or an error), and the runs it
  can make. The result is whether the function returns (\<open>None\<close>: the host goes on) or the exit code, the
  run that was made, and the environment afterwards.
\<close>

record child_mode_env =
  me_vars :: "string \<Rightarrow> string option"
  me_stdin :: "bytes io_result recv"
  me_format :: "child_run_request serde"
  me_run :: "string \<Rightarrow> libdeno_options \<Rightarrow> int libdeno_result"

record child_mode_result =
  mr_exit :: "int option"
  mr_ran :: "(string \<times> libdeno_options) option"
  mr_vars :: "string \<Rightarrow> string option"

definition parse_child_request ::
  "child_run_request serde \<Rightarrow> bytes io_result \<Rightarrow> child_run_request libdeno_result" where
  "parse_child_request format stdin =
     bind_res (map_err ErrIo stdin) (\<lambda>bytes.
     let payload = take (Suc MAX_CHILD_REQUEST_BYTES) bytes
     in bind_res (validate_child_request_size payload) (\<lambda>_.
        map_err ErrRuntime (sd_from_slice format payload)))"

definition child_mode_options :: "child_run_request \<Rightarrow> libdeno_options" where
  "child_mode_options request = libdeno_options_default\<lparr>
     lo_permissions := cq_permissions request,
     lo_allow_all_permissions := cq_allow_all_permissions request,
     lo_prompt := cq_prompt request, lo_args := cq_args request, lo_cwd := Some (cq_cwd request),
     lo_features := cq_features request, lo_max_heap_bytes := cq_max_heap_bytes request,
     lo_execution_deadline := cq_execution_deadline request\<rparr>"

definition child_exit_code :: "int libdeno_result \<Rightarrow> int" where
  "child_exit_code result = (case result of Inr code \<Rightarrow> code | Inl _ \<Rightarrow> 1)"

definition maybe_handle_child_mode :: "child_mode_env \<Rightarrow> child_mode_result" where
  "maybe_handle_child_mode env =
     (let refuse = \<lparr>mr_exit = Some 1, mr_ran = None, mr_vars = me_vars env\<rparr>
      in if me_vars env LIBDENO_CHILD_MODE \<noteq> Some ''1''
         then \<lparr>mr_exit = None, mr_ran = None, mr_vars = me_vars env\<rparr>
         else case (me_vars env LIBDENO_CHILD_TOKEN, me_stdin env) of
                (Some env_token, RvMessage stdin) \<Rightarrow>
                  (case parse_child_request (me_format env) stdin of
                     Inl _ \<Rightarrow> refuse
                   | Inr request \<Rightarrow>
                       if \<not> token_matches (cq_token request) env_token then refuse
                       else let options = child_mode_options request
                            in \<lparr>mr_exit = Some (child_exit_code (me_run env (cq_entry request) options)),
                                mr_ran = Some (cq_entry request, options),
                                mr_vars = (me_vars env)(LIBDENO_CHILD_MODE := None,
                                                        LIBDENO_CHILD_TOKEN := None)\<rparr>)
              | _ \<Rightarrow> refuse)"

section \<open>The entry of a supervised child\<close>

definition SUPERVISOR_MODE_ENV :: string where
  "SUPERVISOR_MODE_ENV = ''LIBDENO_SUPERVISOR_MODE''"

definition SUPERVISOR_ENDPOINT_ENV :: string where
  "SUPERVISOR_ENDPOINT_ENV = ''LIBDENO_SUPERVISOR_ENDPOINT''"

definition SUPERVISOR_TOKEN_ENV :: string where
  "SUPERVISOR_TOKEN_ENV = ''LIBDENO_SUPERVISOR_TOKEN''"

definition supervisor_command ::
  "string \<Rightarrow> string \<Rightarrow> string \<Rightarrow> supervisor_token \<Rightarrow> bool \<Rightarrow> bool \<Rightarrow> child_command" where
  "supervisor_command host_executable cwd endpoint token capture_stdout capture_stderr =
     \<lparr>cc_exe = host_executable,
      cc_env = [(SUPERVISOR_MODE_ENV, ''1''), (SUPERVISOR_ENDPOINT_ENV, endpoint),
                (SUPERVISOR_TOKEN_ENV, token_to_hex token)],
      cc_env_remove = [''NODE_CHANNEL_FD'', ''NODE_CHANNEL_SERIALIZATION_MODE'', ''LIBDENO_SPAWNED_IPC''],
      cc_current_dir = cwd, cc_stdin = StInherit, cc_stdout = stdio_for capture_stdout,
      cc_stderr = stdio_for capture_stderr\<rparr>"

text \<open>A \<^verbatim>\<open>SocketAddr\<close>, of which the code asks whether the address is on the loopback interface, and the port.\<close>

record socket_addr =
  sa_loopback :: bool
  sa_port :: nat

text \<open>\<open>parse\<close> is \<^verbatim>\<open>str::parse::<SocketAddr>\<close>.\<close>

definition parse_supervisor_endpoint ::
  "(string \<Rightarrow> socket_addr option) \<Rightarrow> string \<Rightarrow> socket_addr libdeno_result" where
  "parse_supervisor_endpoint parse value_text =
     (case parse value_text of
        None \<Rightarrow> Inl (supervisor_error ''malformed supervisor endpoint'')
      | Some endpoint \<Rightarrow>
          if \<not> sa_loopback endpoint \<or> sa_port endpoint = 0
          then Inl (supervisor_error ''supervisor endpoint is not loopback'')
          else Inr endpoint)"

record supervisor_mode_env =
  um_vars :: "string \<Rightarrow> string option"
  um_parse :: "string \<Rightarrow> socket_addr option"
  um_child :: "socket_addr \<Rightarrow> supervisor_token \<Rightarrow> int libdeno_result"

record supervisor_mode_result =
  ur_exit :: "int option"
  ur_child :: "(socket_addr \<times> supervisor_token) option"
  ur_vars :: "string \<Rightarrow> string option"

definition supervisor_clean_vars :: "(string \<Rightarrow> string option) \<Rightarrow> string \<Rightarrow> string option" where
  "supervisor_clean_vars vars = vars(SUPERVISOR_MODE_ENV := None, SUPERVISOR_ENDPOINT_ENV := None,
     SUPERVISOR_TOKEN_ENV := None)"

definition maybe_handle_supervisor_mode :: "supervisor_mode_env \<Rightarrow> supervisor_mode_result" where
  "maybe_handle_supervisor_mode env =
     (let clean = supervisor_clean_vars (um_vars env);
          refuse = \<lparr>ur_exit = Some 1, ur_child = None, ur_vars = clean\<rparr>
      in case um_vars env SUPERVISOR_MODE_ENV of
           None \<Rightarrow> \<lparr>ur_exit = None, ur_child = None, ur_vars = um_vars env\<rparr>
         | Some marker \<Rightarrow>
             if marker \<noteq> ''1'' then refuse
             else (case (um_vars env SUPERVISOR_ENDPOINT_ENV, um_vars env SUPERVISOR_TOKEN_ENV) of
                     (Some endpoint_value, Some token_value) \<Rightarrow>
                       (case (parse_supervisor_endpoint (um_parse env) endpoint_value,
                              token_from_hex token_value) of
                          (Inr endpoint, Inr token) \<Rightarrow>
                            \<lparr>ur_exit = Some (child_exit_code (um_child env endpoint token)),
                             ur_child = Some (endpoint, token), ur_vars = clean\<rparr>
                        | _ \<Rightarrow> refuse)
                   | _ \<Rightarrow> refuse))"

section \<open>What becomes of the child\<close>

text \<open>The child was found exited, or was waited for: nothing of it is left.\<close>

definition child_reaped :: "child_call list \<Rightarrow> bool" where
  "child_reaped calls \<longleftrightarrow> calls \<noteq> [] \<and> last calls \<in> {CcTryWait True, CcWait True}"

lemma write_child_request_calls:
  assumes "write_child_request env timing = (r, calls, timing')"
  shows "(is_ok r \<longrightarrow> calls = [])
    \<and> (\<not> is_ok r \<longrightarrow> calls = [CcTryWait True] \<or> (\<exists>prefix. calls = prefix @ [CcKill, CcWait (is_ok (wv_wait env))]))"
proof -
  have "case write_child_request env timing of (r, calls, timing') \<Rightarrow> (is_ok r \<longrightarrow> calls = [])
    \<and> (\<not> is_ok r \<longrightarrow> calls = [CcTryWait True] \<or> (\<exists>prefix. calls = prefix @ [CcKill, CcWait (is_ok (wv_wait env))]))"
    by (cases "handshake_write_result env"; cases "wv_try_wait env"; cases "wv_budget env"; cases "wv_stdin env")
       (auto simp: write_child_request_def kill_and_wait_def split: sum.split if_splits option.split bool.split)
  then show ?thesis using assms by simp
qed

text \<open>
  How a run ends for its child, where \<open>wait\<close> is the answer of the wait for the run's end and
  \<open>kill_wait\<close> that of the wait after a kill: the three cases in which it is not reaped are those in
  which it was not spawned, the wait after the kill failed, and the wait for its end failed, which
  is then the run's error. In the last case the child is not killed.
\<close>

definition child_outcome_of ::
  "exit_status io_result \<Rightarrow> exit_status io_result \<Rightarrow> 'a libdeno_result \<Rightarrow> child_call list \<Rightarrow> bool" where
  "child_outcome_of wait kill_wait r calls \<longleftrightarrow>
     calls = [] \<and> \<not> is_ok r
   \<or> hd calls = CcSpawn \<and> child_reaped calls
   \<or> \<not> is_ok r \<and> (\<exists>prefix. calls = CcSpawn # prefix @ [CcKill, CcWait False]) \<and> \<not> is_ok kill_wait
   \<or> calls = [CcSpawn, CcWait False] \<and> (\<exists>e. wait = Inl e \<and> r = Inl (ErrIo e))"

lemma write_child_request_outcome:
  assumes "write_child_request (sb_write env) timing = (r, calls, timing')" and "\<not> is_ok r"
  shows "child_outcome_of wait (wv_wait (sb_write env)) (Inl e) (CcSpawn # calls) \<and> calls \<noteq> [CcWait True]"
  using write_child_request_calls [OF assms(1)] assms(2)
  by (cases "is_ok (wv_wait (sb_write env))") (auto simp: child_outcome_of_def child_reaped_def)

lemma run_inner_calls:
  assumes "run_in_subprocess_inner env entry options host timing = (r, calls, timing')"
  shows "child_outcome_of (sb_wait env) (wv_wait (sb_write env)) r calls \<and> (calls = [CcSpawn, CcWait True] \<longleftrightarrow> is_ok r)"
proof (cases "spawn_child_request env entry options host False False")
  case (Inl e)
  then show ?thesis using assms by (auto simp: run_in_subprocess_inner_def child_outcome_of_def)
next
  case (Inr spawned)
  obtain w calls' timing'' where request: "write_child_request (sb_write env) timing = (w, calls', timing'')"
    by (metis prod_cases3)
  show ?thesis
  proof (cases w)
    case (Inl e)
    then show ?thesis
      using assms Inr request write_child_request_outcome [OF request, of "sb_wait env" e]
      by (auto simp: run_in_subprocess_inner_def)
  next
    case ok: (Inr u)
    then show ?thesis
      using assms Inr request write_child_request_calls [OF request]
      by (cases "sb_wait env") (auto simp: run_in_subprocess_inner_def child_outcome_of_def child_reaped_def)
  qed
qed

lemma run_output_calls:
  assumes "run_in_subprocess_with_output_inner env entry options host cs ce timing = (r, calls, timing')"
  shows "child_outcome_of (sb_wait env) (wv_wait (sb_write env)) r calls \<and> (is_ok r \<longrightarrow> calls = [CcSpawn, CcWait True])"
proof (cases "spawn_child_request env entry options host cs ce")
  case (Inl e)
  then show ?thesis using assms by (auto simp: run_in_subprocess_with_output_inner_def child_outcome_of_def)
next
  case (Inr spawned)
  obtain w calls' timing'' where request: "write_child_request (sb_write env) timing = (w, calls', timing'')"
    by (metis prod_cases3)
  show ?thesis
  proof (cases "take_output_readers (sb_stdout env) (sb_stderr env) cs ce")
    case (Inl e)
    then show ?thesis
      using assms Inr
      by (cases "is_ok (wv_wait (sb_write env))")
        (auto simp: run_in_subprocess_with_output_inner_def kill_and_wait_def child_outcome_of_def child_reaped_def)
  next
    case readers: (Inr pipes)
    show ?thesis
    proof (cases w)
      case (Inl e)
      then show ?thesis
        using assms Inr readers request write_child_request_outcome [OF request, of "sb_wait env" e]
        by (auto simp: run_in_subprocess_with_output_inner_def)
    next
      case ok: (Inr u)
      then show ?thesis
        using assms Inr readers request write_child_request_calls [OF request]
        by (cases "sb_wait env")
          (auto simp: run_in_subprocess_with_output_inner_def child_outcome_of_def child_reaped_def Let_def)
    qed
  qed
qed

lemma run_spawns:
  "run_in_subprocess_inner env entry options host timing = (r, calls, timing') \<Longrightarrow>
     calls = [] \<longleftrightarrow> \<not> is_ok (spawn_child_request env entry options host False False)"
  "run_in_subprocess_with_output_inner env entry options host cs ce timing = (r2, calls2, timing2) \<Longrightarrow>
     calls2 = [] \<longleftrightarrow> \<not> is_ok (spawn_child_request env entry options host cs ce)"
  by (auto simp: run_in_subprocess_inner_def run_in_subprocess_with_output_inner_def Let_def
      split: sum.splits prod.splits)

text \<open>
  C40: What becomes of the child of a plain subprocess run. Nothing is done when the spawn is
  refused, and a run succeeds only by waiting for the child. Whenever a child was spawned, it
  was found exited or waited for, with two exceptions in which the run fails: it was killed
  and the wait after the kill failed, or the request was written and the wait for the end of
  the child itself failed, in which case the run returns the error of that wait and the child
  is not killed.
\<close>

theorem subprocess_child_reaped:
  assumes "run_in_subprocess_inner env entry options host timing = (r, calls, timing')"
    and "run_in_subprocess_with_output_inner env entry options host cs ce timing = (r2, calls2, timing2)"
  shows "((calls = [] \<longleftrightarrow> \<not> is_ok (spawn_child_request env entry options host False False))
      \<and> (is_ok r \<longleftrightarrow> calls = [CcSpawn, CcWait True])
      \<and> (calls = []
         \<or> hd calls = CcSpawn \<and> last calls \<in> {CcTryWait True, CcWait True}
         \<or> \<not> is_ok r \<and> (\<exists>prefix. calls = CcSpawn # prefix @ [CcKill, CcWait False]) \<and> \<not> is_ok (wv_wait (sb_write env))
         \<or> calls = [CcSpawn, CcWait False] \<and> (\<exists>e. sb_wait env = Inl e \<and> r = Inl (ErrIo e))))
    \<and> ((calls2 = [] \<longleftrightarrow> \<not> is_ok (spawn_child_request env entry options host cs ce))
      \<and> (is_ok r2 \<longrightarrow> calls2 = [CcSpawn, CcWait True])
      \<and> (calls2 = []
         \<or> hd calls2 = CcSpawn \<and> last calls2 \<in> {CcTryWait True, CcWait True}
         \<or> \<not> is_ok r2 \<and> (\<exists>prefix. calls2 = CcSpawn # prefix @ [CcKill, CcWait False]) \<and> \<not> is_ok (wv_wait (sb_write env))
         \<or> calls2 = [CcSpawn, CcWait False] \<and> (\<exists>e. sb_wait env = Inl e \<and> r2 = Inl (ErrIo e))))"
  using run_inner_calls [OF assms(1)] run_output_calls [OF assms(2)] run_spawns(1) [OF assms(1)]
    run_spawns(2) [OF assms(2)] unfolding child_outcome_of_def child_reaped_def by blast

section \<open>What a spawned child was given\<close>

lemma spawn_child_request_Inr:
  assumes "spawn_child_request env entry options host cs ce = Inr (payload, command)"
  shows "\<exists>cwd token exe. \<not> lo_extensions options
    \<and> child_token (sb_random env) = Inr token \<and> effective_cwd (sb_host env) options = Inr cwd
    \<and> validate_child_options (sb_upstream env) (sb_now env) options cwd ce = Inr ()
    \<and> sd_to_vec (sb_format env) (child_request_of entry options cwd token) = Inr payload
    \<and> length payload \<le> MAX_CHILD_REQUEST_BYTES
    \<and> (he_var (sb_host env) LIBDENO_CHILD_MODE = None \<or> he_var (sb_host env) LIBDENO_CHILD_TOKEN = None)
    \<and> child_host_executable (sb_host env) host = Inr exe
    \<and> command = child_command_of exe token cwd cs ce \<and> sb_spawn env command = Inr ()"
proof -
  obtain token cwd exe where run: "\<not> lo_extensions options" "child_token (sb_random env) = Inr token"
      "effective_cwd (sb_host env) options = Inr cwd"
      "validate_child_options (sb_upstream env) (sb_now env) options cwd ce = Inr ()"
      "map_err ErrRuntime (sd_to_vec (sb_format env) (child_request_of entry options cwd token)) = Inr payload"
      "validate_child_request_size payload = Inr ()"
      "he_var (sb_host env) LIBDENO_CHILD_MODE = None \<or> he_var (sb_host env) LIBDENO_CHILD_TOKEN = None"
      "child_host_executable (sb_host env) host = Inr exe"
      "command = child_command_of exe token cwd cs ce"
      "map_err ErrIo (sb_spawn env command) = Inr ()"
    using assms by (auto simp: spawn_child_request_def bind_res_Inr Let_def split: if_splits)
  then show ?thesis
    by (auto simp: validate_child_request_size_def map_err_def split: if_splits sum.splits)
qed

lemma str_bytes_inj: "str_bytes a = str_bytes b \<longleftrightarrow> a = b"
proof -
  have "c = d" if "(of_char c :: byte) = of_char d" for c d :: char
  proof -
    have "unat (of_char c :: byte) = of_char c" for c :: char
      by (metis of_nat_of_char unat_small_byte nat_of_char_less_256)
    with that have "(of_char c :: nat) = of_char d" by metis
    then show ?thesis by simp
  qed
  then have "inj (of_char :: char \<Rightarrow> byte)" by (rule injI)
  then show ?thesis by (simp add: str_bytes_def inj_map_eq_map)
qed

lemma token_matches_iff: "token_matches a b \<longleftrightarrow> a = b \<and> a \<noteq> []"
proof -
  have "str_bytes a \<noteq> [] \<longleftrightarrow> a \<noteq> []" by (simp add: str_bytes_def)
  then show ?thesis
    using difference_from_eq [of "str_bytes a" "str_bytes b"]
    by (auto simp: token_matches_def constant_time_eq_def str_bytes_inj simp del: length_str_bytes)
qed

text \<open>
  A child is spawned only for options without an extension factory that are valid in a usable
  working directory, with a request of at most 1 MiB, and never from a process that is itself
  a child which did not service child mode; the command carries the child-mode marker and the
  request's token.
\<close>

theorem subprocess_spawn_guards:
  assumes "spawn_child_request env entry options host cs ce = Inr (payload, command)"
  shows "\<exists>token exe. \<not> lo_extensions options
    \<and> effective_cwd (sb_host env) options = Inr (cc_current_dir command)
    \<and> validate_child_options (sb_upstream env) (sb_now env) options (cc_current_dir command) ce = Inr ()
    \<and> sd_to_vec (sb_format env) (child_request_of entry options (cc_current_dir command) token) = Inr payload
    \<and> length payload \<le> MAX_CHILD_REQUEST_BYTES
    \<and> (he_var (sb_host env) LIBDENO_CHILD_MODE = None \<or> he_var (sb_host env) LIBDENO_CHILD_TOKEN = None)
    \<and> command = child_command_of exe token (cc_current_dir command) cs ce"
proof -
  obtain cwd token exe where "command = child_command_of exe token cwd cs ce"
    "\<not> lo_extensions options" "effective_cwd (sb_host env) options = Inr cwd"
    "validate_child_options (sb_upstream env) (sb_now env) options cwd ce = Inr ()"
    "sd_to_vec (sb_format env) (child_request_of entry options cwd token) = Inr payload"
    "length payload \<le> MAX_CHILD_REQUEST_BYTES"
    "he_var (sb_host env) LIBDENO_CHILD_MODE = None \<or> he_var (sb_host env) LIBDENO_CHILD_TOKEN = None"
    using spawn_child_request_Inr [OF assms] by blast
  then show ?thesis by (auto simp: child_command_of_def)
qed

section \<open>Child mode\<close>

definition format_faithful :: "'a serde \<Rightarrow> bool" where
  "format_faithful format \<longleftrightarrow>
     (\<forall>v payload. sd_to_vec format v = Inr payload \<longrightarrow> sd_from_slice format payload = Inr v)"

definition pinned_options :: "libdeno_options \<Rightarrow> string \<Rightarrow> libdeno_options" where
  "pinned_options options cwd = options\<lparr>lo_cwd := Some cwd, lo_capture_stdout := False,
     lo_capture_stderr := False, lo_max_capture_bytes := None, lo_extensions := False\<rparr>"

lemma child_mode_options_of:
  "child_mode_options (child_request_of entry options cwd token) = pinned_options options cwd"
  by (simp add: child_mode_options_def child_request_of_def pinned_options_def libdeno_options_default_def)

lemma child_env_names:
  "LIBDENO_CHILD_MODE \<noteq> LIBDENO_CHILD_TOKEN"
  "LIBDENO_CHILD_MODE \<notin> {''NODE_CHANNEL_FD'', ''NODE_CHANNEL_SERIALIZATION_MODE'', ''LIBDENO_SPAWNED_IPC''}"
  "LIBDENO_CHILD_TOKEN \<notin> {''NODE_CHANNEL_FD'', ''NODE_CHANNEL_SERIALIZATION_MODE'', ''LIBDENO_SPAWNED_IPC''}"
  by (simp_all add: LIBDENO_CHILD_MODE_def LIBDENO_CHILD_TOKEN_def)

lemma child_mode_services_request:
  assumes "spawn_child_request env entry options host cs ce = Inr (payload, command)"
    and "format_faithful (sb_format env)" and "sb_random env = Inr fill" and "fill \<noteq> []"
  defines "child \<equiv> pinned_options options (cc_current_dir command)"
  shows "maybe_handle_child_mode \<lparr>me_vars = child_vars command parent, me_stdin = RvMessage (Inr payload),
      me_format = sb_format env, me_run = run\<rparr>
    = \<lparr>mr_exit = Some (child_exit_code (run entry child)), mr_ran = Some (entry, child),
       mr_vars = (child_vars command parent)(LIBDENO_CHILD_MODE := None, LIBDENO_CHILD_TOKEN := None)\<rparr>"
proof -
  obtain cwd token exe where req: "child_token (sb_random env) = Inr token"
      "sd_to_vec (sb_format env) (child_request_of entry options cwd token) = Inr payload"
      "length payload \<le> MAX_CHILD_REQUEST_BYTES" "command = child_command_of exe token cwd cs ce"
    using spawn_child_request_Inr [OF assms(1)] by blast
  have "token = hex_encode fill"
    using req(1) assms(3) by (simp add: child_token_def random_hex_def)
  then have "token \<noteq> []"
    using assms(4) length_hex_encode [of fill] by (metis length_0_conv mult_eq_0_iff zero_neq_numeral)
  moreover have "parse_child_request (sb_format env) (Inr payload)
      = Inr (child_request_of entry options cwd token)"
    using assms(2) req(2,3)
    by (simp add: parse_child_request_def validate_child_request_size_def format_faithful_def)
  moreover have "child_vars command parent LIBDENO_CHILD_MODE = Some ''1''"
      "child_vars command parent LIBDENO_CHILD_TOKEN = Some token"
    using req(4) child_env_names by (simp_all add: child_vars_def child_command_of_def)
  moreover have "cc_current_dir command = cwd" using req(4) by (simp add: child_command_of_def)
  ultimately show ?thesis
    by (simp add: maybe_handle_child_mode_def Let_def token_matches_iff child_mode_options_of child_def)
       (simp add: child_request_of_def)
qed

text \<open>
  The plain subprocess run end to end: if the request is written and the child is a process
  that services child mode with the environment and the standard input it was given, then the
  child runs exactly the caller's entry under the caller's options (working directory pinned,
  capture off) with the markers removed, and the caller gets the low byte of the run's exit
  code.
\<close>

theorem subprocess_runs_the_request:
  assumes "spawn_child_request env entry options host False False = Inr (payload, command)"
    and "format_faithful (sb_format env)" and "sb_random env = Inr fill" and "length fill = 16"
    and "child = maybe_handle_child_mode \<lparr>me_vars = child_vars command parent,
           me_stdin = RvMessage (Inr payload), me_format = sb_format env, me_run = run\<rparr>"
    and "wv_stdin (sb_write env)" and "is_ok (wv_budget (sb_write env))" and "is_ok (wv_thread (sb_write env))"
    and "wv_answer (sb_write env) = RvMessage (Inr ())"
    and "\<And>code. mr_exit child = Some code \<Longrightarrow>
           \<exists>status. sb_wait env = Inr status \<and> es_code status = Some (code mod 256)"
  shows "fst (run_in_subprocess_inner env entry options host timing)
      = Inr (child_exit_code (run entry (pinned_options options (cc_current_dir command))) mod 256)
    \<and> mr_ran child = Some (entry, pinned_options options (cc_current_dir command))
    \<and> mr_vars child LIBDENO_CHILD_MODE = None \<and> mr_vars child LIBDENO_CHILD_TOKEN = None"
proof -
  have "fill \<noteq> []" using assms(4) by auto
  note child = child_mode_services_request [OF assms(1-3) this, of parent run, folded assms(5)]
  then obtain status where wait: "sb_wait env = Inr status" and "es_code status
      = Some (child_exit_code (run entry (pinned_options options (cc_current_dir command))) mod 256)"
    using assms(10) by auto
  then have "status_code status
      = child_exit_code (run entry (pinned_options options (cc_current_dir command))) mod 256"
    by (simp add: status_code_def)
  moreover have "write_child_request (sb_write env) timing = (Inr (), [], timing)"
    using assms(6-9) by (auto simp: write_child_request_def handshake_write_result_def is_ok_iff)
  ultimately have "fst (run_in_subprocess_inner env entry options host timing)
      = Inr (child_exit_code (run entry (pinned_options options (cc_current_dir command))) mod 256)"
    using assms(1) wait by (simp add: run_in_subprocess_inner_def)
  then show ?thesis using child by simp
qed

text \<open>
  Child mode runs user code only when it was asked for with the value 1, the request is at
  most 1 MiB, and the token in the request is the non-empty token of the environment; the run
  then starts without the two markers. Any other request in child mode ends the process with
  status 1, and without the marker the host goes on untouched.
\<close>

theorem child_mode_needs_token:
  "case mr_ran (maybe_handle_child_mode env) of
     Some (entry, options) \<Rightarrow>
       me_vars env LIBDENO_CHILD_MODE = Some ''1''
     \<and> (\<exists>stdin request. me_stdin env = RvMessage (Inr stdin) \<and> length stdin \<le> MAX_CHILD_REQUEST_BYTES
          \<and> sd_from_slice (me_format env) stdin = Inr request
          \<and> me_vars env LIBDENO_CHILD_TOKEN = Some (cq_token request) \<and> cq_token request \<noteq> []
          \<and> entry = cq_entry request \<and> options = child_mode_options request)
     \<and> mr_vars (maybe_handle_child_mode env)
         = (me_vars env)(LIBDENO_CHILD_MODE := None, LIBDENO_CHILD_TOKEN := None)
   | None \<Rightarrow>
       mr_vars (maybe_handle_child_mode env) = me_vars env
     \<and> mr_exit (maybe_handle_child_mode env)
         = (if me_vars env LIBDENO_CHILD_MODE = Some ''1'' then Some 1 else None)"
proof -
  have short: "length bytes \<le> MAX_CHILD_REQUEST_BYTES"
    if "\<not> MAX_CHILD_REQUEST_BYTES < length (take (Suc MAX_CHILD_REQUEST_BYTES) bytes)" for bytes :: bytes
    using that by auto
  have parse: "\<exists>bytes. stdin = Inr bytes \<and> length bytes \<le> MAX_CHILD_REQUEST_BYTES
      \<and> sd_from_slice (me_format env) bytes = Inr request"
    if "parse_child_request (me_format env) stdin = Inr request" for stdin request
    using that short
    by (cases stdin) (auto simp: parse_child_request_def validate_child_request_size_def Let_def
        bind_res_Inr map_err_def split: if_splits sum.splits)
  show ?thesis
    by (auto simp: maybe_handle_child_mode_def Let_def token_matches_iff
        split: option.splits recv.splits sum.splits dest: parse)
qed

section \<open>Supervisor mode\<close>

lemma supervisor_env_names [simp]:
  "SUPERVISOR_MODE_ENV \<noteq> SUPERVISOR_ENDPOINT_ENV" "SUPERVISOR_MODE_ENV \<noteq> SUPERVISOR_TOKEN_ENV"
  "SUPERVISOR_ENDPOINT_ENV \<noteq> SUPERVISOR_TOKEN_ENV" "SUPERVISOR_ENDPOINT_ENV \<noteq> SUPERVISOR_MODE_ENV"
  "SUPERVISOR_TOKEN_ENV \<noteq> SUPERVISOR_MODE_ENV" "SUPERVISOR_TOKEN_ENV \<noteq> SUPERVISOR_ENDPOINT_ENV"
  by (simp_all add: SUPERVISOR_MODE_ENV_def SUPERVISOR_ENDPOINT_ENV_def SUPERVISOR_TOKEN_ENV_def)

lemma supervisor_env_kept:
  "name \<in> {SUPERVISOR_MODE_ENV, SUPERVISOR_ENDPOINT_ENV, SUPERVISOR_TOKEN_ENV} \<Longrightarrow>
   name \<notin> {''NODE_CHANNEL_FD'', ''NODE_CHANNEL_SERIALIZATION_MODE'', ''LIBDENO_SPAWNED_IPC''}"
  by (auto simp: SUPERVISOR_MODE_ENV_def SUPERVISOR_ENDPOINT_ENV_def SUPERVISOR_TOKEN_ENV_def)

lemma supervisor_command_vars:
  "child_vars (supervisor_command exe cwd endpoint token cs ce) parent SUPERVISOR_MODE_ENV = Some ''1''"
  "child_vars (supervisor_command exe cwd endpoint token cs ce) parent SUPERVISOR_ENDPOINT_ENV = Some endpoint"
  "child_vars (supervisor_command exe cwd endpoint token cs ce) parent SUPERVISOR_TOKEN_ENV
     = Some (token_to_hex token)"
  using supervisor_env_kept by (simp_all add: child_vars_def supervisor_command_def)

text \<open>
  A process spawned for supervision whose endpoint is a loopback address starts the supervised
  child with exactly the parent's token and endpoint, and its environment no longer holds the
  marker, the endpoint or the token.
\<close>

theorem supervisor_mode_round_trip:
  assumes "token_wf token" and "parse endpoint = Some address"
    and "sa_loopback address" and "sa_port address \<noteq> 0"
  shows "maybe_handle_supervisor_mode
       \<lparr>um_vars = child_vars (supervisor_command exe cwd endpoint token cs ce) parent,
        um_parse = parse, um_child = child\<rparr>
     = \<lparr>ur_exit = Some (child_exit_code (child address token)), ur_child = Some (address, token),
        ur_vars = supervisor_clean_vars (child_vars (supervisor_command exe cwd endpoint token cs ce) parent)\<rparr>"
proof -
  have "token_from_hex (token_to_hex token) = Inr token"
    using assms(1) by (simp add: token_hex_roundtrip_any)
  then show ?thesis
    using assms(2-4)
    by (simp add: maybe_handle_supervisor_mode_def Let_def supervisor_command_vars parse_supervisor_endpoint_def)
qed

text \<open>
  Supervisor mode starts a child only with the marker 1, a loopback endpoint with a port and a
  well-formed token; the three variables are removed on every path, except when there is no
  marker and the host goes on untouched.
\<close>

theorem supervisor_mode_guards:
  "case ur_child (maybe_handle_supervisor_mode env) of
     Some (address, token) \<Rightarrow>
       um_vars env SUPERVISOR_MODE_ENV = Some ''1'' \<and> sa_loopback address \<and> sa_port address \<noteq> 0
     \<and> token_wf token \<and> ur_vars (maybe_handle_supervisor_mode env) = supervisor_clean_vars (um_vars env)
   | None \<Rightarrow>
       if um_vars env SUPERVISOR_MODE_ENV = None
       then maybe_handle_supervisor_mode env = \<lparr>ur_exit = None, ur_child = None, ur_vars = um_vars env\<rparr>
       else ur_exit (maybe_handle_supervisor_mode env) = Some 1
          \<and> ur_vars (maybe_handle_supervisor_mode env) = supervisor_clean_vars (um_vars env)"
  by (auto simp: maybe_handle_supervisor_mode_def Let_def parse_supervisor_endpoint_def
      split: option.splits sum.splits if_splits dest: token_from_hex_wf)

section \<open>The host override\<close>

text \<open>
  The plain backend asks for the current executable even when the override names the host, so it
  fails where the supervised backend uses the override.
\<close>

theorem host_override_needs_current_exe:
  assumes "he_var env LIBDENO_HOST_EXE = Some path" and "he_current_exe env = Inl e"
  shows "child_host_executable env None = Inl (ErrIo e) \<and> supervisor_host_executable env None = Inr path"
  using assms by (simp add: child_host_executable_def supervisor_host_executable_def LIBDENO_HOST_EXE_def)

theorem host_override_needs_current_exe_witness:
  "child_host_executable (sample_host\<lparr>he_var := (\<lambda>_. Some ''/h''), he_current_exe := Inl (IoError EkOther [])\<rparr>)
     None = Inl (ErrIo (IoError EkOther []))"
  using host_override_needs_current_exe
    [of "sample_host\<lparr>he_var := (\<lambda>_. Some ''/h''), he_current_exe := Inl (IoError EkOther [])\<rparr>"] by simp

section \<open>A concrete run\<close>

definition sample_fill :: bytes where
  "sample_fill = replicate 16 7"

definition sample_child_request :: child_run_request where
  "sample_child_request = child_request_of ''m.ts'' sample_options ''/w'' (hex_encode sample_fill)"

definition sample_child_format :: "child_run_request serde" where
  "sample_child_format =
     \<lparr>sd_to_vec = (\<lambda>r. if r = sample_child_request then Inr [1] else Inl ''other''),
      sd_from_slice = (\<lambda>bs. if bs = [1] then Inr sample_child_request else Inl ''other'')\<rparr>"

definition sample_write :: write_env where
  "sample_write = \<lparr>wv_stdin = True, wv_budget = Inr 1, wv_thread = Inr (), wv_answer = RvMessage (Inr ()),
     wv_try_wait = Inr None, wv_wait = Inr sample_status, wv_cleanup_from = 0, wv_cleanup_to = 0\<rparr>"

definition sample_reader :: reader_env where
  "sample_reader = \<lparr>rv_pipe = True, rv_budget = Inr 1, rv_thread = Inr ()\<rparr>"

definition sample_subprocess :: "unit subprocess_env" where
  "sample_subprocess =
     \<lparr>sb_host = sample_host, sb_upstream = sample_upstream, sb_now = 3,
      sb_random = Inr sample_fill, sb_format = sample_child_format, sb_spawn = (\<lambda>_. Inr ()),
      sb_write = sample_write, sb_stdout = sample_reader, sb_stderr = sample_reader,
      sb_wait = Inr \<lparr>es_code = Some 44, es_display = ''exit status: 44''\<rparr>, sb_reap_from = 4, sb_reap_to = 5,
      sb_drain_from = 4, sb_drain_to = 6, sb_collect = (\<lambda>_ _ _. sample_collected)\<rparr>"

definition sample_child_command :: "bool \<Rightarrow> child_command" where
  "sample_child_command ce = child_command_of ''/h'' (hex_encode sample_fill) ''/w'' ce ce"

lemma sample_spawn:
  "spawn_child_request sample_subprocess ''m.ts'' sample_options None c c = Inr ([1], sample_child_command c)"
proof -
  have "validate_child_options sample_upstream 3 sample_options ''/w'' c = Inr ()"
    by (simp add: validate_child_options_ok sample_options_def libdeno_options_default_def sample_upstream_def
        validate_max_heap_bytes_def validate_execution_deadline_def validate_permission_args_def
        build_permissions_def checked_add_instant_def instant_limit_def ns_per_sec_def)
  moreover have "child_token (Inr sample_fill) = Inr (hex_encode sample_fill)"
    by (simp add: child_token_def random_hex_def)
  moreover have "effective_cwd sample_host sample_options = Inr ''/w''"
    by (simp add: effective_cwd_def sample_options_def sample_host_def libdeno_options_default_def
        raw_cwd_def is_absolute_def)
  moreover have "sd_to_vec sample_child_format
      (child_request_of ''m.ts'' sample_options ''/w'' (hex_encode sample_fill)) = Inr [1]"
    by (simp add: sample_child_format_def sample_child_request_def)
  moreover have "\<not> lo_extensions sample_options"
    by (simp add: sample_options_def libdeno_options_default_def)
  moreover have "child_host_executable sample_host None = Inr ''/h''" "he_var sample_host LIBDENO_CHILD_MODE = None"
    by (simp_all add: child_host_executable_def sample_host_def)
  moreover have "validate_child_request_size [1] = Inr ()"
    by (simp add: validate_child_request_size_def MAX_CHILD_REQUEST_BYTES_def)
  ultimately show ?thesis
    by (simp add: spawn_child_request_def sample_subprocess_def sample_child_command_def)
qed

lemma sample_collect:
  "output_of_capture status sample_collected
     = Inr \<lparr>ro_exit_code = status_code status, ro_stdout = [104, 105], ro_stderr = [], ro_capture_truncated = False\<rparr>"
  by (simp add: output_of_capture_def sample_collected_def)

lemma sample_runs:
  "run_in_subprocess_inner sample_subprocess ''m.ts'' sample_options None timing_disabled
     = (Inr 44, [CcSpawn, CcWait True], None)"
  "run_in_subprocess_with_output_inner sample_subprocess ''m.ts'' sample_options None True True timing_disabled
     = (Inr \<lparr>ro_exit_code = 44, ro_stdout = [104, 105], ro_stderr = [], ro_capture_truncated = False\<rparr>,
        [CcSpawn, CcWait True], None)"
proof -
  have w: "write_child_request (sb_write sample_subprocess) None = (Inr (), [], None)"
    by (simp add: sample_subprocess_def sample_write_def write_child_request_def handshake_write_result_def)
  have wait: "sb_wait sample_subprocess = Inr \<lparr>es_code = Some 44, es_display = ''exit status: 44''\<rparr>"
    "sb_collect sample_subprocess c d n = sample_collected" for c d n
    by (simp_all add: sample_subprocess_def)
  have readers: "take_output_readers (sb_stdout sample_subprocess) (sb_stderr sample_subprocess) True True
      = Inr (True, True)"
    by (simp add: sample_subprocess_def sample_reader_def take_output_readers_def take_pipe_def
        spawn_output_reader_def)
  show "run_in_subprocess_inner sample_subprocess ''m.ts'' sample_options None timing_disabled
      = (Inr 44, [CcSpawn, CcWait True], None)"
    by (simp add: run_in_subprocess_inner_def sample_spawn w wait status_code_def reap_span_def
        timing_disabled_def)
  show "run_in_subprocess_with_output_inner sample_subprocess ''m.ts'' sample_options None True True
      timing_disabled = (Inr \<lparr>ro_exit_code = 44, ro_stdout = [104, 105], ro_stderr = [],
        ro_capture_truncated = False\<rparr>, [CcSpawn, CcWait True], None)"
    by (simp add: run_in_subprocess_with_output_inner_def sample_spawn w wait readers sample_collect
        status_code_def reap_span_def drain_span_def timing_disabled_def Let_def)
qed

theorem subprocess_child_reaped_witness:
  "is_ok (spawn_child_request sample_subprocess ''m.ts'' sample_options None True True)
   \<and> last [CcSpawn, CcWait True] \<in> {CcTryWait True, CcWait True}"
  using subprocess_child_reaped [OF sample_runs] by simp

theorem subprocess_spawn_guards_witness:
  "effective_cwd sample_host sample_options = Inr ''/w''"
  using subprocess_spawn_guards [OF sample_spawn [of False]]
  by (simp add: sample_subprocess_def sample_child_command_def child_command_of_def)

lemma sample_child_faithful: "format_faithful sample_child_format"
  by (simp add: format_faithful_def sample_child_format_def)

theorem subprocess_runs_the_request_witness:
  "fst (run_in_subprocess_inner sample_subprocess ''m.ts'' sample_options None timing_disabled) = Inr (300 mod 256)"
proof -
  let ?child = "maybe_handle_child_mode \<lparr>me_vars = child_vars (sample_child_command False) (\<lambda>_. None),
      me_stdin = RvMessage (Inr [1]), me_format = sample_child_format, me_run = (\<lambda>_ _. Inr 300)\<rparr>"
  have env: "sb_format sample_subprocess = sample_child_format" "sb_random sample_subprocess = Inr sample_fill"
    "sb_write sample_subprocess = sample_write"
    "sb_wait sample_subprocess = Inr \<lparr>es_code = Some 44, es_display = ''exit status: 44''\<rparr>"
    by (simp_all add: sample_subprocess_def)
  have fill: "length sample_fill = 16" "sample_fill \<noteq> []" by (simp_all add: sample_fill_def)
  have "mr_exit ?child = Some 300"
    using child_mode_services_request [OF sample_spawn [of False], of sample_fill "\<lambda>_. None" "\<lambda>_ _. Inr 300"]
      sample_child_faithful fill env by (simp add: child_exit_code_def)
  then have "\<exists>status. sb_wait sample_subprocess = Inr status \<and> es_code status = Some (code mod 256)"
    if "mr_exit ?child = Some code" for code
    using that env by simp
  then show ?thesis
    using subprocess_runs_the_request [OF sample_spawn [of False], of sample_fill ?child "\<lambda>_. None"
        "\<lambda>_ _. Inr 300" timing_disabled] sample_child_faithful fill env
    by (simp add: sample_write_def child_exit_code_def)
qed

theorem supervisor_mode_round_trip_witness:
  "ur_child (maybe_handle_supervisor_mode
     \<lparr>um_vars = child_vars (supervisor_command ''/h'' ''/w'' ''127.0.0.1:4000'' sample_token True True) (\<lambda>_. None),
      um_parse = (\<lambda>_. Some \<lparr>sa_loopback = True, sa_port = 4000\<rparr>), um_child = (\<lambda>_ _. Inr 0)\<rparr>)
   = Some (\<lparr>sa_loopback = True, sa_port = 4000\<rparr>, sample_token)"
  using supervisor_mode_round_trip [of sample_token "\<lambda>_. Some \<lparr>sa_loopback = True, sa_port = 4000\<rparr>"
      "''127.0.0.1:4000''" "\<lparr>sa_loopback = True, sa_port = 4000\<rparr>"] sample_child_reads(3)
  by simp

end
