(* ===== verification/Ld_Executor.thy ===== *)
theory Ld_Executor
  imports Ld_Subprocess
begin

text \<open>
  \<open>Executor\<close> and \<open>ExecutorDispatch\<close> (src/src/executor.rs): the builder, the normalisation of a
  request's options, the execution of a submission on the backend the executor was built for, the
  plain synchronous and asynchronous execution, and the reports, results and failures they return.
  The in-process runtime is a parameter; the subprocess backends are those of \<open>Ld_Subprocess\<close> and
  \<open>Ld_Supervised\<close>. Which submissions run, and when, is the subject of \<open>Ld_Schedule\<close>.
\<close>

section \<open>Requests and executors\<close>

record execution_request =
  rq_entry :: string
  rq_options :: libdeno_options

datatype 'r executor_backend = XbInProcess 'r | XbSubprocess string

record 'r executor =
  xe_project_dir :: string
  xe_backend :: execution_backend
  xe_state :: "'r executor_backend"

text \<open>The executors that \<open>build\<close> makes: the state is that of the configured backend.\<close>

definition executor_wf :: "'r executor \<Rightarrow> bool" where
  "executor_wf x \<longleftrightarrow>
     (case xe_state x of
        XbInProcess _ \<Rightarrow> xe_backend x = BkInProcess
      | XbSubprocess host \<Rightarrow> xe_backend x = BkSubprocess \<and> is_absolute host)"

record executor_builder =
  xb_project_dir :: string
  xb_backend :: execution_backend
  xb_host_executable :: "string option"
  xb_admission :: admission_config

definition executor_builder_new :: "string \<Rightarrow> executor_builder" where
  "executor_builder_new project_dir =
     \<lparr>xb_project_dir = project_dir, xb_backend = BkInProcess, xb_host_executable = None,
      xb_admission = admission_config_default\<rparr>"

definition fixed_host_executable :: "host_env \<Rightarrow> string option \<Rightarrow> string libdeno_result" where
  "fixed_host_executable env host_executable =
     (case host_executable of
        Some host \<Rightarrow>
          if is_absolute host then Inr host
          else bind_res (map_err ErrIo (he_current_dir env)) (\<lambda>cwd. Inr (path_join cwd host))
      | None \<Rightarrow> map_err ErrIo (he_current_exe env))"

text \<open>\<open>runtime_new\<close> is \<open>LibdenoRuntime::new\<close>. The admission limits go to a new scheduler.\<close>

definition executor_build ::
  "host_env \<Rightarrow> (string \<Rightarrow> 'r libdeno_result) \<Rightarrow> executor_builder
   \<Rightarrow> execution_error + ('r executor \<times> admission_config)" where
  "executor_build env runtime_new builder =
     (if xb_backend builder = BkProcessPool
      then Inl (EeUnsupported \<lparr>uc_capability = CapBackend BkProcessPool,
                               uc_reason = ''process pool backend is not available''\<rparr>)
      else map_err EeLibdeno
        (bind_res (map_err ErrIo (he_canonicalize env (xb_project_dir builder))) (\<lambda>project_dir.
         bind_res (case xb_backend builder of
                     BkInProcess \<Rightarrow> bind_res (runtime_new project_dir) (\<lambda>r. Inr (XbInProcess r))
                   | _ \<Rightarrow> bind_res (fixed_host_executable env (xb_host_executable builder))
                            (\<lambda>host. Inr (XbSubprocess host)))
           (\<lambda>state. Inr (\<lparr>xe_project_dir = project_dir, xe_backend = xb_backend builder,
                          xe_state = state\<rparr>, xb_admission builder)))))"

section \<open>Options\<close>

definition cwd_mismatch_error :: "string \<Rightarrow> string \<Rightarrow> libdeno_error" where
  "cwd_mismatch_error cwd project_dir =
     ErrConfiguration (''execution request cwd '' @ cwd
       @ '' does not match executor project directory '' @ project_dir)"

text \<open>\<open>Executor::normalize_options\<close>.\<close>

definition normalize_options ::
  "host_env \<Rightarrow> 'r executor \<Rightarrow> execution_request \<Rightarrow> libdeno_options libdeno_result" where
  "normalize_options env x request =
     (let options = rq_options request;
          pinned = options\<lparr>lo_cwd := Some (xe_project_dir x)\<rparr>
      in case lo_cwd options of
           None \<Rightarrow> Inr pinned
         | Some cwd \<Rightarrow>
             bind_res (map_err ErrIo (he_canonicalize env cwd)) (\<lambda>canonical.
               if canonical \<noteq> xe_project_dir x then Inl (cwd_mismatch_error cwd (xe_project_dir x))
               else Inr pinned))"

text \<open>\<open>ExecutorDispatch::normalize_options\<close>, which validates the deadline first.\<close>

definition dispatch_normalize_options ::
  "host_env \<Rightarrow> instant \<Rightarrow> 'r executor \<Rightarrow> execution_request \<Rightarrow> libdeno_options libdeno_result" where
  "dispatch_normalize_options env now x request =
     bind_res (validate_execution_deadline now (lo_execution_deadline (rq_options request)))
       (\<lambda>_. normalize_options env x request)"

section \<open>Deadlines\<close>

definition min_deadline :: "duration option \<Rightarrow> duration option \<Rightarrow> duration option" where
  "min_deadline backend request =
     (case (backend, request) of
        (Some backend, Some request) \<Rightarrow> Some (min backend request)
      | (Some backend, None) \<Rightarrow> Some backend
      | (None, Some request) \<Rightarrow> Some request
      | (None, None) \<Rightarrow> None)"

definition min_absolute_deadline :: "instant option \<Rightarrow> instant option \<Rightarrow> instant option" where
  "min_absolute_deadline first second =
     (case (first, second) of
        (Some first, Some second) \<Rightarrow> Some (min first second)
      | (Some first, None) \<Rightarrow> Some first
      | (None, Some second) \<Rightarrow> Some second
      | (None, None) \<Rightarrow> None)"

definition absolute_execution_deadline ::
  "instant \<Rightarrow> instant option \<Rightarrow> duration option \<Rightarrow> unit + instant option" where
  "absolute_execution_deadline started request_deadline execution_duration =
     (case execution_duration of
        None \<Rightarrow> Inr (min_absolute_deadline request_deadline None)
      | Some d \<Rightarrow>
          (case checked_add_instant started d of
             None \<Rightarrow> Inl ()
           | Some at_option \<Rightarrow> Inr (min_absolute_deadline request_deadline (Some at_option))))"

section \<open>Reports, results and failures\<close>

definition report_with_metadata ::
  "'r executor \<Rightarrow> instant \<Rightarrow> instant \<Rightarrow> execution_backend option \<Rightarrow> capability_outcome
   \<Rightarrow> execution_timing \<Rightarrow> cleanup_strength option \<Rightarrow> transport_status option \<Rightarrow> execution_report" where
  "report_with_metadata x started now dispatched outcome timing cleanup transport =
     \<lparr>er_requested_backend = xe_backend x, er_dispatched_backend = dispatched,
      er_elapsed = saturating_duration_since now started, er_backend_outcome = outcome,
      er_timing = timing_snapshot timing, er_cleanup_strength = cleanup,
      er_transport_status = transport\<rparr>"

definition report ::
  "'r executor \<Rightarrow> instant \<Rightarrow> instant \<Rightarrow> execution_backend option \<Rightarrow> capability_outcome
   \<Rightarrow> execution_timing \<Rightarrow> execution_report" where
  "report x started now dispatched outcome timing =
     report_with_metadata x started now dispatched outcome timing None None"

definition kept :: "bool \<Rightarrow> bytes \<Rightarrow> bytes" where
  "kept capture stream = (if capture then stream else [])"

definition result_with_metadata ::
  "'r executor \<Rightarrow> instant \<Rightarrow> instant \<Rightarrow> execution_backend option \<Rightarrow> capability_outcome \<Rightarrow> run_output
   \<Rightarrow> libdeno_options \<Rightarrow> execution_timing \<Rightarrow> cleanup_strength option \<Rightarrow> transport_status option
   \<Rightarrow> execution_result" where
  "result_with_metadata x started now dispatched outcome out options timing cleanup transport =
     \<lparr>ex_exit_code = ro_exit_code out,
      ex_output = \<lparr>eo_stdout = kept (lo_capture_stdout options) (ro_stdout out),
                   eo_stderr = kept (lo_capture_stderr options) (ro_stderr out),
                   eo_truncated = ro_capture_truncated out, eo_incomplete = False,
                   eo_reader_error = False\<rparr>,
      ex_report = report_with_metadata x started now dispatched outcome timing cleanup transport\<rparr>"

definition execution_failure_of ::
  "'r executor \<Rightarrow> instant \<Rightarrow> instant \<Rightarrow> execution_backend option \<Rightarrow> libdeno_error \<Rightarrow> execution_timing
   \<Rightarrow> execution_failure" where
  "execution_failure_of x started now dispatched error timing =
     \<lparr>ef_error = EeLibdeno error, ef_report = report x started now dispatched CoFailed timing,
      ef_partial_output = None\<rparr>"

definition captured_execution_failure ::
  "captured_run_error \<Rightarrow> execution_report \<Rightarrow> libdeno_options \<Rightarrow> execution_failure" where
  "captured_execution_failure failure rep options =
     \<lparr>ef_error = EeLibdeno (ce_error failure), ef_report = rep,
      ef_partial_output = map_option (\<lambda>captured.
        \<lparr>eo_stdout = kept (lo_capture_stdout options) (co_stdout captured),
         eo_stderr = kept (lo_capture_stderr options) (co_stderr captured),
         eo_truncated = co_truncated captured, eo_incomplete = False, eo_reader_error = False\<rparr>)
        (ce_output failure)\<rparr>"

definition supervisor_execution_output ::
  "supervisor_partial_output option \<Rightarrow> libdeno_options \<Rightarrow> execution_output" where
  "supervisor_execution_output partial options =
     (case partial of
        None \<Rightarrow> execution_output_default
      | Some partial \<Rightarrow>
          \<lparr>eo_stdout = kept (lo_capture_stdout options) (po_stdout partial),
           eo_stderr = kept (lo_capture_stderr options) (po_stderr partial),
           eo_truncated = po_truncated partial, eo_incomplete = po_incomplete partial,
           eo_reader_error = po_reader_error partial\<rparr>)"

fun supervisor_cleanup_strength :: "sv_cleanup \<Rightarrow> cleanup_strength" where
  "supervisor_cleanup_strength SvDirectChild = ClDirectChild"
| "supervisor_cleanup_strength SvProcessGroup = ClProcessGroup"
| "supervisor_cleanup_strength SvWindowsJob = ClWindowsJob"

fun supervisor_transport_status :: "sv_transport \<Rightarrow> transport_status" where
  "supervisor_transport_status SvClean = TrClean"
| "supervisor_transport_status SvFailed = TrFailed"

definition finish_as ::
  "'r executor \<Rightarrow> instant \<Rightarrow> instant \<Rightarrow> execution_backend \<Rightarrow> captured_run_error + run_output
   \<Rightarrow> libdeno_options \<Rightarrow> execution_timing \<Rightarrow> completion" where
  "finish_as x started now dispatched result options timing =
     (case result of
        Inr out \<Rightarrow> Inr (result_with_metadata x started now (Some dispatched) CoUsed out options
                          timing None None)
      | Inl error \<Rightarrow> Inl (captured_execution_failure error
                          (report x started now (Some dispatched) CoFailed timing) options))"

definition finish ::
  "'r executor \<Rightarrow> instant \<Rightarrow> instant \<Rightarrow> captured_run_error + run_output \<Rightarrow> libdeno_options
   \<Rightarrow> execution_timing \<Rightarrow> completion" where
  "finish x started now result options timing =
     finish_as x started now (xe_backend x) result options timing"

definition finish_supervised ::
  "'r executor \<Rightarrow> instant \<Rightarrow> instant \<Rightarrow> supervised_error + supervisor_run_result \<Rightarrow> libdeno_options
   \<Rightarrow> execution_timing \<Rightarrow> completion" where
  "finish_supervised x started now result options timing =
     (case result of
        Inr supervised \<Rightarrow>
          Inr \<lparr>ex_exit_code = srr_exit_code supervised,
               ex_output = supervisor_execution_output (srr_partial_output supervised) options,
               ex_report = report_with_metadata x started now (Some BkSubprocess) CoUsed timing
                 (Some (supervisor_cleanup_strength (srr_cleanup_strength supervised)))
                 (Some (supervisor_transport_status (srr_transport_status supervised)))\<rparr>
      | Inl error \<Rightarrow>
          Inl \<lparr>ef_error = (case sve_category error of
                             None \<Rightarrow> EeLibdeno (sve_error error)
                           | Some category \<Rightarrow> EeSupervisor category),
               ef_report = report_with_metadata x started now (Some BkSubprocess) CoFailed timing
                 (map_option supervisor_cleanup_strength (sve_cleanup_strength error))
                 (map_option supervisor_transport_status (sve_transport_status error)),
               ef_partial_output = map_option
                 (\<lambda>partial. supervisor_execution_output (Some partial) options)
                 (sve_partial_output error)\<rparr>)"

section \<open>Executing a submission\<close>

text \<open>
  The clock readings of one submission and the two backends. A backend may add to the timing.
  \<open>dispatched_call\<close> records what was handed to it.
\<close>

record 'r submission_env =
  xv_host :: host_env
  xv_started :: instant
  xv_admission_from :: instant
  xv_admission_to :: instant
  xv_validated :: instant
  xv_now :: instant
  xv_now_in_process :: instant
  xv_finished :: instant
  xv_in_process :: "'r \<Rightarrow> string \<Rightarrow> libdeno_options \<Rightarrow> execution_timing \<Rightarrow> cancel_ctx
    \<Rightarrow> instant option \<Rightarrow> (captured_run_error + run_output) \<times> execution_timing"
  xv_supervised :: "string \<Rightarrow> string \<Rightarrow> libdeno_options \<Rightarrow> cancel_ctx \<Rightarrow> cancel_reason
    \<Rightarrow> instant option \<Rightarrow> execution_timing
    \<Rightarrow> (supervised_error + supervisor_run_result) \<times> execution_timing"

record dispatched_call =
  dc_backend :: execution_backend
  dc_entry :: string
  dc_options :: libdeno_options
  dc_deadline :: "instant option"

definition dispatch_backend ::
  "'r submission_env \<Rightarrow> 'r executor \<Rightarrow> string \<Rightarrow> libdeno_options \<Rightarrow> instant option \<Rightarrow> instant option
   \<Rightarrow> cancel_ctx \<Rightarrow> cancel_reason \<Rightarrow> execution_timing
   \<Rightarrow> completion \<times> execution_timing \<times> dispatched_call option" where
  "dispatch_backend env x entry options deadline in_process_deadline cancellation default_reason timing =
     (case xe_state x of
        XbInProcess r \<Rightarrow>
          (case xv_in_process env r entry options timing cancellation in_process_deadline of
             (result, timing) \<Rightarrow>
               (finish x (xv_started env) (xv_finished env) result options timing, timing,
                Some \<lparr>dc_backend = BkInProcess, dc_entry = entry, dc_options = options,
                      dc_deadline = in_process_deadline\<rparr>))
      | XbSubprocess host \<Rightarrow>
          (case xv_supervised env host entry options cancellation default_reason deadline timing of
             (result, timing) \<Rightarrow>
               (finish_supervised x (xv_started env) (xv_finished env) result options timing, timing,
                Some \<lparr>dc_backend = BkSubprocess, dc_entry = entry, dc_options = options,
                      dc_deadline = deadline\<rparr>)))"

definition execution_expired_error :: libdeno_error where
  "execution_expired_error = ErrTimeout ''execution request deadline exceeded''"

definition submission_in_process_deadline ::
  "'r executor \<Rightarrow> instant \<Rightarrow> instant option \<Rightarrow> duration option \<Rightarrow> unit + instant option" where
  "submission_in_process_deadline x started deadline requested_execution_deadline =
     (case xe_state x of
        XbInProcess _ \<Rightarrow> absolute_execution_deadline started deadline requested_execution_deadline
      | XbSubprocess _ \<Rightarrow> Inr None)"

definition execute_submission ::
  "'r submission_env \<Rightarrow> 'r executor \<Rightarrow> execution_request \<Rightarrow> instant option \<Rightarrow> cancel_ctx
   \<Rightarrow> cancel_reason \<Rightarrow> execution_timing \<Rightarrow> completion \<times> execution_timing \<times> dispatched_call option" where
  "execute_submission env x request deadline cancellation default_reason timing =
     (let timing = timing_span PhAdmission (xv_admission_from env) (xv_admission_to env) timing;
          refuse = (\<lambda>error. (Inl (execution_failure_of x (xv_started env) (xv_finished env) None error
                                    timing), timing, None))
      in case dispatch_normalize_options (xv_host env) (xv_validated env) x request of
           Inl error \<Rightarrow> refuse error
         | Inr options \<Rightarrow>
             let remaining = map_option (\<lambda>d. saturating_duration_since d (xv_now env)) deadline
             in if remaining = Some 0 then refuse execution_expired_error
                else
                  (case submission_in_process_deadline x (xv_started env) deadline
                          (lo_execution_deadline options) of
                     Inl _ \<Rightarrow> refuse (ErrConfiguration ''execution deadline is too large for the host clock'')
                   | Inr in_process_deadline \<Rightarrow>
                       if due in_process_deadline (xv_now_in_process env)
                       then refuse execution_expired_error
                       else dispatch_backend env x (rq_entry request)
                              (options\<lparr>lo_execution_deadline :=
                                 min_deadline (lo_execution_deadline options) remaining\<rparr>)
                              deadline in_process_deadline cancellation default_reason timing))"

text \<open>The supervised backend of the executor is the supervised run, one environment per host.\<close>

definition supervised_backend ::
  "(string \<Rightarrow> 'p supervised_env) \<Rightarrow> string \<Rightarrow> string \<Rightarrow> libdeno_options \<Rightarrow> cancel_ctx \<Rightarrow> cancel_reason
   \<Rightarrow> instant option \<Rightarrow> execution_timing
   \<Rightarrow> (supervised_error + supervisor_run_result) \<times> execution_timing" where
  "supervised_backend envs host entry options cancellation default_reason deadline timing =
     (fst (run_supervised_subprocess (envs host) entry options (sx_new cancellation default_reason) deadline),
      timing)"

section \<open>Direct execution\<close>

text \<open>
  \<open>ev_run\<close> and \<open>ev_run_async\<close> are the in-process runs; \<open>ev_join\<close> is the answer of the joined
  blocking task, \<open>None\<close> when it returned; \<open>ev_context\<close> is \<open>check_async_context\<close>.
\<close>

record ('r, 'p) direct_env =
  ev_host :: host_env
  ev_started :: instant
  ev_admission_from :: instant
  ev_admission_to :: instant
  ev_context_from :: instant
  ev_context_to :: instant
  ev_normalized :: instant
  ev_finished :: instant
  ev_context :: "unit libdeno_result"
  ev_run :: "'r \<Rightarrow> string \<Rightarrow> libdeno_options \<Rightarrow> execution_timing
    \<Rightarrow> (captured_run_error + run_output) \<times> execution_timing"
  ev_run_async :: "'r \<Rightarrow> string \<Rightarrow> libdeno_options \<Rightarrow> execution_timing
    \<Rightarrow> (captured_run_error + run_output) \<times> execution_timing"
  ev_subprocess :: "'p subprocess_env"
  ev_join :: "string option"

definition finish_sync_result ::
  "'r executor \<Rightarrow> instant \<Rightarrow> instant \<Rightarrow> captured_run_error + run_output \<Rightarrow> libdeno_options
   \<Rightarrow> execution_timing \<Rightarrow> completion" where
  "finish_sync_result x started now result options timing =
     finish_as x started now (xe_backend x) result options timing"

definition execute_normalized_sync ::
  "('r, 'p) direct_env \<Rightarrow> 'r executor \<Rightarrow> execution_request \<Rightarrow> libdeno_options \<Rightarrow> execution_timing
   \<Rightarrow> completion \<times> child_call list" where
  "execute_normalized_sync env x request options timing =
     (case xe_state x of
        XbInProcess r \<Rightarrow>
          (case ev_run env r (rq_entry request) options timing of
             (result, timing) \<Rightarrow>
               (finish_sync_result x (ev_normalized env) (ev_finished env) result options timing, []))
      | XbSubprocess host \<Rightarrow>
          if lo_capture_stdout options \<or> lo_capture_stderr options
          then (case run_in_subprocess_with_output_inner (ev_subprocess env) (rq_entry request) options
                       (Some host) (lo_capture_stdout options) (lo_capture_stderr options) timing of
                  (result, calls, timing) \<Rightarrow>
                    (finish_sync_result x (ev_normalized env) (ev_finished env)
                       (map_err captured_run_error_new result) options timing, calls))
          else (case run_in_subprocess_inner (ev_subprocess env) (rq_entry request) options
                       (Some host) timing of
                  (Inr exit_code, calls, timing) \<Rightarrow>
                    (Inr \<lparr>ex_exit_code = exit_code, ex_output = execution_output_default,
                          ex_report = report x (ev_normalized env) (ev_finished env)
                            (Some BkSubprocess) CoUsed timing\<rparr>, calls)
                | (Inl error, calls, timing) \<Rightarrow>
                    (Inl (execution_failure_of x (ev_normalized env) (ev_finished env)
                            (Some BkSubprocess) error timing), calls)))"

definition execute_sync ::
  "('r, 'p) direct_env \<Rightarrow> 'r executor \<Rightarrow> execution_request \<Rightarrow> completion \<times> child_call list" where
  "execute_sync env x request =
     (let timing = timing_span PhAdmission (ev_admission_from env) (ev_admission_to env) timing_enabled
      in case normalize_options (ev_host env) x request of
           Inl error \<Rightarrow>
             (Inl (execution_failure_of x (ev_started env) (ev_finished env) None error timing), [])
         | Inr options \<Rightarrow> execute_normalized_sync env x request options timing)"

definition execute_async ::
  "('r, 'p) direct_env \<Rightarrow> 'r executor \<Rightarrow> execution_request \<Rightarrow> completion \<times> child_call list" where
  "execute_async env x request =
     (let timing = timing_span PhAdmission (ev_admission_from env) (ev_admission_to env) timing_enabled
      in case normalize_options (ev_host env) x request of
           Inl error \<Rightarrow>
             (Inl (execution_failure_of x (ev_started env) (ev_finished env) None error timing), [])
         | Inr options \<Rightarrow>
             let timing = timing_span PhAdmission (ev_context_from env) (ev_context_to env) timing
             in (case ev_context env of
                   Inl error \<Rightarrow>
                     (Inl (execution_failure_of x (ev_started env) (ev_finished env) None error timing), [])
                 | Inr _ \<Rightarrow>
                     (case xe_state x of
                        XbInProcess r \<Rightarrow>
                          (case ev_run_async env r (rq_entry request) options timing of
                             (result, timing) \<Rightarrow>
                               (finish_as x (ev_started env) (ev_finished env) BkInProcess result options
                                  timing, []))
                      | XbSubprocess _ \<Rightarrow>
                          (case ev_join env of
                             None \<Rightarrow> execute_normalized_sync env x request options timing
                           | Some error \<Rightarrow>
                               (Inl \<lparr>ef_error = EeInternal (''subprocess dispatch task failed: '' @ error),
                                     ef_report = report x (ev_started env) (ev_finished env) None
                                       CoFailed timing, ef_partial_output = None\<rparr>, [])))))"

section \<open>What the builder guarantees\<close>

lemma is_absolute_join: "is_absolute base \<Longrightarrow> is_absolute (path_join base p)"
  by (cases base) (auto simp: path_join_def is_absolute_def split: list.splits)

text \<open>
  C29: Every executor that the builder makes is well formed: its project directory is the
  canonical one, its state is that of the configured backend with an absolute host executable,
  a process pool is never built, and the admission limits are the configured ones.
\<close>

theorem executor_build_well_formed:
  assumes "executor_build env runtime_new builder = Inr (x, admission)"
    and "\<And>p. he_current_exe env = Inr p \<Longrightarrow> is_absolute p"
    and "\<And>p. he_current_dir env = Inr p \<Longrightarrow> is_absolute p"
  shows "executor_wf x \<and> he_canonicalize env (xb_project_dir builder) = Inr (xe_project_dir x)
    \<and> xe_backend x = xb_backend builder \<and> xe_backend x \<noteq> BkProcessPool \<and> admission = xb_admission builder"
proof -
  have "is_absolute host" if "fixed_host_executable env (xb_host_executable builder) = Inr host" for host
    using that assms(2,3) is_absolute_join
    by (auto simp: fixed_host_executable_def map_err_def bind_res_Inr split: option.splits if_splits sum.splits)
  then show ?thesis
    using assms(1)
    by (auto simp: executor_build_def executor_wf_def map_err_def bind_res_Inr
        split: if_splits sum.splits execution_backend.splits)
qed

section \<open>What a submission hands to its backend\<close>

lemma normalize_options_Inr:
  assumes "normalize_options env x request = Inr options"
  shows "options = (rq_options request)\<lparr>lo_cwd := Some (xe_project_dir x)\<rparr>
    \<and> (\<forall>cwd. lo_cwd (rq_options request) = Some cwd \<longrightarrow> he_canonicalize env cwd = Inr (xe_project_dir x))"
  using assms
  by (auto simp: normalize_options_def bind_res_Inr map_err_def Let_def split: option.splits sum.splits if_splits)

lemma finish_as_report:
  "completion_report (finish_as x started now b result options timing)
     = report x started now (Some b) (case result of Inr _ \<Rightarrow> CoUsed | Inl _ \<Rightarrow> CoFailed) timing"
  by (cases result) (simp_all add: finish_as_def completion_report_def result_with_metadata_def
      captured_execution_failure_def report_def)

lemma finish_supervised_report:
  "er_dispatched_backend (completion_report (finish_supervised x started now result options timing))
     = Some BkSubprocess"
  "er_requested_backend (completion_report (finish_supervised x started now result options timing))
     = xe_backend x"
  by (cases result; simp add: finish_supervised_def completion_report_def report_with_metadata_def)+

lemma failure_report:
  "completion_report (Inl (execution_failure_of x started now b error timing))
     = report x started now b CoFailed timing"
  by (simp add: completion_report_def execution_failure_of_def)

lemma execute_submission_dispatched:
  assumes "execute_submission env x request deadline cancellation reason timing = (completion, timing', Some call)"
  shows "\<exists>options in_process_deadline.
      dispatch_normalize_options (xv_host env) (xv_validated env) x request = Inr options
    \<and> \<not> due deadline (xv_now env) \<and> \<not> due in_process_deadline (xv_now_in_process env)
    \<and> submission_in_process_deadline x (xv_started env) deadline (lo_execution_deadline options)
        = Inr in_process_deadline
    \<and> dispatch_backend env x (rq_entry request)
        (options\<lparr>lo_execution_deadline := min_deadline (lo_execution_deadline options)
           (map_option (\<lambda>d. saturating_duration_since d (xv_now env)) deadline)\<rparr>)
        deadline in_process_deadline cancellation reason
        (timing_span PhAdmission (xv_admission_from env) (xv_admission_to env) timing)
      = (completion, timing', Some call)"
  using assms
  by (cases deadline)
     (auto simp: execute_submission_def Let_def saturating_since_zero split: sum.splits if_splits)

lemma execute_submission_refused:
  assumes "execute_submission env x request deadline cancellation reason timing = (completion, timing', None)"
  shows "\<exists>error. completion = Inl (execution_failure_of x (xv_started env) (xv_finished env) None error timing')"
  using assms
  by (auto simp: execute_submission_def Let_def dispatch_backend_def
      split: sum.splits if_splits executor_backend.splits prod.splits)

lemma dispatch_backend_call:
  assumes "dispatch_backend env x entry options deadline in_process cancellation reason timing
      = (completion, timing', Some call)" and "executor_wf x"
  shows "dc_entry call = entry \<and> dc_options call = options \<and> dc_backend call = xe_backend x
    \<and> dc_deadline call = (if xe_backend x = BkInProcess then in_process else deadline)
    \<and> er_dispatched_backend (completion_report completion) = Some (xe_backend x)"
  using assms
  by (auto simp: dispatch_backend_def executor_wf_def finish_def finish_as_report finish_supervised_report
      report_def report_with_metadata_def split: executor_backend.splits prod.splits)

text \<open>
  C28: A submission reaches its backend only before its deadline, with the caller's options in
  which the working directory is the executor's project directory (any other one is refused)
  and the execution deadline is the tighter of the caller's and of the time that is left; the
  report names the backend. Anything else fails without a dispatched backend and without
  output.
\<close>

theorem submission_dispatch_contract:
  assumes "executor_wf x"
    and "execute_submission env x request deadline cancellation reason timing = (completion, timing', call)"
  shows "case call of
      None \<Rightarrow> (\<exists>error. completion = Inl (execution_failure_of x (xv_started env) (xv_finished env) None error timing'))
    | Some c \<Rightarrow>
        \<not> due deadline (xv_now env) \<and> dc_entry c = rq_entry request \<and> dc_backend c = xe_backend x
      \<and> dc_options c = (rq_options request)\<lparr>lo_cwd := Some (xe_project_dir x),
          lo_execution_deadline := min_deadline (lo_execution_deadline (rq_options request))
            (map_option (\<lambda>d. d - xv_now env) deadline)\<rparr>
      \<and> (\<forall>cwd \<in> set_option (lo_cwd (rq_options request)).
           he_canonicalize (xv_host env) cwd = Inr (xe_project_dir x))
      \<and> er_dispatched_backend (completion_report completion) = Some (xe_backend x)"
proof (cases call)
  case None
  with execute_submission_refused assms(2) show ?thesis by fastforce
next
  case (Some c)
  with execute_submission_dispatched assms(2) obtain options in_process where
    options: "dispatch_normalize_options (xv_host env) (xv_validated env) x request = Inr options"
    and early: "\<not> due deadline (xv_now env)"
    and run: "dispatch_backend env x (rq_entry request)
        (options\<lparr>lo_execution_deadline := min_deadline (lo_execution_deadline options)
           (map_option (\<lambda>d. saturating_duration_since d (xv_now env)) deadline)\<rparr>)
        deadline in_process cancellation reason
        (timing_span PhAdmission (xv_admission_from env) (xv_admission_to env) timing)
      = (completion, timing', Some c)"
    by blast
  have "normalize_options (xv_host env) x request = Inr options"
    using options by (auto simp: dispatch_normalize_options_def bind_res_Inr)
  from normalize_options_Inr [OF this] dispatch_backend_call [OF run assms(1)] early Some
  show ?thesis by (auto simp: saturating_duration_since_def)
qed

text \<open>
  A submission whose deadline has passed when it is executed fails with a timeout, whatever
  its backend, without a backend being called, and resolves its task as terminated.
\<close>

theorem expired_submission_times_out:
  assumes "due deadline (xv_now env)" and "is_ok (dispatch_normalize_options (xv_host env) (xv_validated env) x request)"
    and "\<not> is_terminal (tc_lifecycle control)" and "tc_cancel_reason control = None"
    and "execute_submission env x request deadline cancellation reason timing = (completion, timing', call)"
  shows "call = None \<and> (\<exists>f. completion = Inl f \<and> timed_out (ef_error f) \<and> ef_partial_output f = None)
    \<and> fst (resolve_backend_result now completion dispatched control) = Some (EsTerminated, completion)"
proof -
  obtain d where d: "deadline = Some d" "d \<le> xv_now env" using assms(1) by (cases deadline) auto
  obtain options where "dispatch_normalize_options (xv_host env) (xv_validated env) x request = Inr options"
    using assms(2) by (auto simp: is_ok_iff)
  then have run: "call = None" "completion = Inl (execution_failure_of x (xv_started env) (xv_finished env) None
      execution_expired_error timing')"
    using assms(5) d by (auto simp: execute_submission_def Let_def saturating_since_zero)
  then show ?thesis
    using assms(3,4) by (simp add: resolve_backend_result_def resolve_outcome_def Let_def supervisor_failure_def
        timed_out_def execution_failure_of_def execution_expired_error_def)
qed

section \<open>A submission over the supervised run\<close>

definition supervised_failed_state :: "supervised_error \<Rightarrow> execution_state" where
  "supervised_failed_state error =
     (case sve_category error of
        Some category \<Rightarrow> if category = FcTimeout then EsTerminated else EsFailed
      | None \<Rightarrow> (case sve_error error of ErrTimeout _ \<Rightarrow> EsTerminated | _ \<Rightarrow> EsFailed))"

lemma resolve_finish_supervised:
  assumes "\<not> is_terminal (tc_lifecycle control)" and "tc_cancel_reason control = None"
  shows "fst (resolve_backend_result now (finish_supervised x started finished result options timing) b control)
    = Some (case result of Inr _ \<Rightarrow> EsCompleted | Inl error \<Rightarrow> supervised_failed_state error,
            finish_supervised x started finished result options timing)"
  using assms
  by (cases result)
     (auto simp: resolve_backend_result_def resolve_outcome_def Let_def supervisor_failure_def timed_out_def
       finish_supervised_def supervised_failed_state_def completion_report_def split: option.split libdeno_error.split)

text \<open>
  A dispatched submission over the supervised backend is exactly one supervised run under the
  pinned options: the task resolves to completed, with the run's exit code, if and only if
  that run succeeded, to terminated for a timeout and to failed otherwise; and if the run
  spawned a child, the deadline it enforces is not later than the submission's and had not
  passed.
\<close>

theorem supervised_submission_outcome:
  assumes "execute_submission env x request deadline cancellation reason timing = (completion, timing', Some c)"
    and "executor_wf x" and "xe_state x = XbSubprocess host" and "xv_supervised env = supervised_backend envs"
    and "\<not> is_terminal (tc_lifecycle control)" and "tc_cancel_reason control = None"
    and "run_supervised_subprocess (envs host) (rq_entry request) (dc_options c)
           (sx_new cancellation reason) deadline = (result, calls)"
  shows "fst (resolve_backend_result now completion BkSubprocess control)
      = Some (case result of Inr _ \<Rightarrow> EsCompleted | Inl error \<Rightarrow> supervised_failed_state error, completion)
    \<and> (\<forall>r. completion = Inr r \<longrightarrow> (\<exists>run. result = Inr run \<and> ex_exit_code r = srr_exit_code run))
    \<and> (calls \<noteq> [] \<longrightarrow> (\<forall>d. deadline = Some d \<longrightarrow>
         (\<exists>at. effective_supervisor_deadline (sn_started (envs host)) deadline
                 (lo_execution_deadline (dc_options c)) = Inr (Some at)
             \<and> at \<le> d \<and> sn_checked (envs host) < at)))"
proof -
  obtain options in_process where run: "dispatch_backend env x (rq_entry request) options deadline in_process
      cancellation reason (timing_span PhAdmission (xv_admission_from env) (xv_admission_to env) timing)
      = (completion, timing', Some c)"
    using execute_submission_dispatched [OF assms(1)] by blast
  have "dc_options c = options" using dispatch_backend_call [OF run assms(2)] by simp
  then have completion: "completion = finish_supervised x (xv_started env) (xv_finished env) result options timing'"
    using run assms(3,4,7) by (auto simp: dispatch_backend_def supervised_backend_def)
  have "\<exists>run. result = Inr run \<and> ex_exit_code r = srr_exit_code run" if "completion = Inr r" for r
    using that completion by (cases result) (auto simp: finish_supervised_def)
  moreover have "\<exists>at. effective_supervisor_deadline (sn_started (envs host)) deadline
      (lo_execution_deadline (dc_options c)) = Inr (Some at) \<and> at \<le> d \<and> sn_checked (envs host) < at"
    if "calls \<noteq> []" "deadline = Some d" for d
  proof -
    have "snd (run_supervised_subprocess (envs host) (rq_entry request) (dc_options c)
        (sx_new cancellation reason) deadline) \<noteq> []" using assms(7) that(1) by simp
    from run_supervised_spawned [OF this] obtain at_opt where at: "effective_supervisor_deadline (sn_started (envs host)) deadline
        (lo_execution_deadline (dc_options c)) = Inr at_opt" "\<not> due at_opt (sn_checked (envs host))"
      by blast
    then show ?thesis
      using that(2) by (auto simp: effective_supervisor_deadline_def split: option.splits)
  qed
  ultimately show ?thesis
    using completion resolve_finish_supervised [OF assms(5,6)] by simp
qed

section \<open>Direct execution\<close>

lemma normalize_options_capture:
  assumes "normalize_options env x request = Inr options"
  shows "lo_capture_stdout options = lo_capture_stdout (rq_options request)"
    and "lo_capture_stderr options = lo_capture_stderr (rq_options request)"
  using normalize_options_Inr [OF assms] by simp_all

definition report_of_run :: "'r executor \<Rightarrow> execution_backend option \<Rightarrow> completion \<Rightarrow> bool" where
  "report_of_run x dispatched completion \<longleftrightarrow>
     er_requested_backend (completion_report completion) = xe_backend x
   \<and> er_dispatched_backend (completion_report completion) = dispatched
   \<and> er_backend_outcome (completion_report completion)
       = (case completion of Inr _ \<Rightarrow> CoUsed | Inl _ \<Rightarrow> CoFailed)"

definition streams_as_requested :: "libdeno_options \<Rightarrow> completion \<Rightarrow> bool" where
  "streams_as_requested options completion \<longleftrightarrow>
     (case backend_result_partial_output completion BkSubprocess of
        None \<Rightarrow> True
      | Some out \<Rightarrow> (lo_capture_stdout options \<or> eo_stdout out = [])
                  \<and> (lo_capture_stderr options \<or> eo_stderr out = []))"

lemma kept_nil: "capture \<or> kept capture bs = []"
  by (simp add: kept_def)

lemma finish_as_ok:
  "report_of_run x (Some b) (finish_as x started now b result options timing)"
  "streams_as_requested options (finish_as x started now b result options timing)"
proof -
  show "report_of_run x (Some b) (finish_as x started now b result options timing)"
    unfolding report_of_run_def finish_as_report
    by (cases result) (simp_all add: report_def report_with_metadata_def finish_as_def)
  show "streams_as_requested options (finish_as x started now b result options timing)"
    by (cases result) (auto simp: streams_as_requested_def finish_as_def backend_result_partial_output_def
        result_with_metadata_def captured_execution_failure_def kept_nil split: option.split)
qed

lemma failure_ok:
  "report_of_run x b (Inl (execution_failure_of x started now b error timing))"
  "streams_as_requested options (Inl (execution_failure_of x started now b error timing))"
  unfolding report_of_run_def streams_as_requested_def failure_report
  by (simp_all add: report_def report_with_metadata_def backend_result_partial_output_def execution_failure_of_def)

lemma plain_success_ok:
  "report_of_run x b (Inr \<lparr>ex_exit_code = code, ex_output = execution_output_default,
      ex_report = report x started now b CoUsed timing\<rparr>)"
  "streams_as_requested options (Inr \<lparr>ex_exit_code = code, ex_output = execution_output_default,
      ex_report = report x started now b CoUsed timing\<rparr>)"
  by (simp_all add: report_of_run_def streams_as_requested_def completion_report_def report_def
      report_with_metadata_def backend_result_partial_output_def execution_output_default_def)

text \<open>Nothing was spawned, or the child was reaped, or the last thing done was to wait for it, in vain.\<close>

definition child_accounted :: "child_call list \<Rightarrow> bool" where
  "child_accounted calls \<longleftrightarrow> calls = [] \<or> child_reaped calls \<or> last calls = CcWait False"

lemma child_outcome_accounted: "child_outcome_of wait kill_wait r calls \<Longrightarrow> child_accounted calls"
  by (auto simp: child_outcome_of_def child_accounted_def)

lemma execute_normalized_sync_ok:
  assumes "executor_wf x" and "execute_normalized_sync env x request options timing = (completion, calls)"
  shows "report_of_run x (Some (xe_backend x)) completion \<and> streams_as_requested options completion
    \<and> child_accounted calls \<and> (xe_backend x = BkSubprocess \<and> is_ok completion \<longrightarrow> calls = [CcSpawn, CcWait True])"
proof (cases "xe_state x")
  case (XbInProcess r)
  with assms have "completion = finish_as x (ev_normalized env) (ev_finished env) (xe_backend x)
      (fst (ev_run env r (rq_entry request) options timing)) options
      (snd (ev_run env r (rq_entry request) options timing))" "calls = []" "xe_backend x = BkInProcess"
    by (auto simp: execute_normalized_sync_def finish_sync_result_def executor_wf_def split: prod.splits)
  then show ?thesis by (simp add: finish_as_ok child_accounted_def child_reaped_def)
next
  case (XbSubprocess host)
  with assms(1) have backend: "xe_backend x = BkSubprocess" by (simp add: executor_wf_def)
  show ?thesis
  proof (cases "lo_capture_stdout options \<or> lo_capture_stderr options")
    case True
    obtain result calls' timing' where run: "run_in_subprocess_with_output_inner (ev_subprocess env)
        (rq_entry request) options (Some host) (lo_capture_stdout options) (lo_capture_stderr options) timing
      = (result, calls', timing')" by (metis prod_cases3)
    then have "completion = finish_as x (ev_normalized env) (ev_finished env) (xe_backend x)
        (map_err captured_run_error_new result) options timing'" "calls = calls'"
      using assms(2) True XbSubprocess by (auto simp: execute_normalized_sync_def finish_sync_result_def)
    then show ?thesis
      using run_output_calls [OF run] child_outcome_accounted by (cases result) (simp_all add: finish_as_ok child_accounted_def child_reaped_def, simp add: finish_as_def)
  next
    case False
    obtain result calls' timing' where run: "run_in_subprocess_inner (ev_subprocess env)
        (rq_entry request) options (Some host) timing = (result, calls', timing')" by (metis prod_cases3)
    then show ?thesis
      using assms(2) False XbSubprocess backend run_inner_calls [OF run] child_outcome_accounted
      by (cases result) (auto simp: execute_normalized_sync_def failure_ok plain_success_ok)
  qed
qed

text \<open>
  Direct execution: the report always names the configured backend, says used exactly for a
  result, and names a dispatched backend exactly when the working directory was accepted; a
  stream that was not captured is empty; and a child that was spawned is reaped unless waiting
  for it fails.
\<close>

theorem direct_execution_contract:
  assumes "executor_wf x" and "execute_sync env x request = (completion, calls)"
  shows "report_of_run x (if is_ok (normalize_options (ev_host env) x request) then Some (xe_backend x) else None)
      completion
    \<and> streams_as_requested (rq_options request) completion \<and> child_accounted calls
    \<and> (calls \<noteq> [] \<longrightarrow> is_ok (normalize_options (ev_host env) x request) \<and> xe_backend x = BkSubprocess)"
proof (cases "normalize_options (ev_host env) x request")
  case (Inl error)
  with assms(2) have "completion = Inl (execution_failure_of x (ev_started env) (ev_finished env) None error
      (timing_span PhAdmission (ev_admission_from env) (ev_admission_to env) timing_enabled))" "calls = []"
    by (auto simp: execute_sync_def Let_def)
  then show ?thesis using Inl by (simp add: failure_ok child_accounted_def)
next
  case (Inr options)
  with assms(2) have run: "execute_normalized_sync env x request options
      (timing_span PhAdmission (ev_admission_from env) (ev_admission_to env) timing_enabled) = (completion, calls)"
    by (simp add: execute_sync_def Let_def)
  have "calls \<noteq> [] \<longrightarrow> xe_backend x = BkSubprocess"
    using run assms(1)
    by (auto simp: execute_normalized_sync_def executor_wf_def split: executor_backend.splits prod.splits)
  moreover have "streams_as_requested (rq_options request) completion = streams_as_requested options completion"
    by (simp add: streams_as_requested_def normalize_options_capture [OF Inr] split: option.split)
  ultimately show ?thesis
    using execute_normalized_sync_ok [OF assms(1) run] Inr by simp
qed

text \<open>
  On a subprocess executor, asynchronous execution is synchronous execution: when the caller's
  context is accepted and the blocking task returns, both give the same result, report
  included if checking the context took no time.
\<close>

theorem execute_async_agrees:
  assumes "xe_state x = XbSubprocess host" and "ev_context env = Inr ()" and "ev_join env = None"
    and "ev_context_to env \<le> ev_context_from env"
  shows "execute_async env x request = execute_sync env x request"
proof -
  have "timing_span PhAdmission (ev_context_from env) (ev_context_to env) timing = timing" for timing
    using assms(4) by (cases timing) (simp_all add: timing_span_def timing_add_def saturating_duration_since_def)
  then show ?thesis
    using assms(1-3) by (simp add: execute_async_def execute_sync_def Let_def split: sum.split)
qed

section \<open>Concrete executors\<close>

definition sample_executor :: "nat executor" where
  "sample_executor = \<lparr>xe_project_dir = ''/w'', xe_backend = BkSubprocess, xe_state = XbSubprocess ''/h''\<rparr>"

definition sample_execution :: execution_request where
  "sample_execution = \<lparr>rq_entry = ''m.ts'', rq_options = sample_options\<rparr>"

definition sample_submission :: "nat submission_env" where
  "sample_submission =
     \<lparr>xv_host = sample_host, xv_started = 1, xv_admission_from = 1, xv_admission_to = 2, xv_validated = 2,
      xv_now = 3, xv_now_in_process = 3, xv_finished = 9,
      xv_in_process = (\<lambda>_ _ _ timing _ _. (Inl (captured_run_error_new (ErrRuntime [])), timing)),
      xv_supervised = supervised_backend (\<lambda>_. sample_supervised)\<rparr>"

definition sample_call :: "instant \<Rightarrow> dispatched_call" where
  "sample_call d = \<lparr>dc_backend = BkSubprocess, dc_entry = ''m.ts'', dc_options = sample_options,
     dc_deadline = Some d\<rparr>"

definition sample_control :: task_control where
  "sample_control = task_control_new 1 BkSubprocess 0 None None"

lemma sample_executor_wf: "executor_wf sample_executor"
  by (simp add: executor_wf_def sample_executor_def is_absolute_def)

lemma sample_normalized:
  "dispatch_normalize_options sample_host 2 sample_executor sample_execution = Inr sample_options"
  "normalize_options sample_host sample_executor sample_execution = Inr sample_options"
  by (simp_all add: dispatch_normalize_options_def normalize_options_def sample_execution_def
      sample_options_def libdeno_options_default_def sample_host_def sample_executor_def Let_def
      validate_execution_deadline_def checked_add_instant_def instant_limit_def ns_per_sec_def)

lemma sample_run_until:
  "run_supervised_subprocess sample_supervised ''m.ts'' sample_options (sx_new cancel_ctx_new CrUser) (Some 50)
     = run_supervised_subprocess sample_supervised ''m.ts'' sample_options (sx_new cancel_ctx_new CrUser) None"
proof -
  have "effective_supervisor_deadline (sn_started sample_supervised) (Some 50) (lo_execution_deadline sample_options)
      = effective_supervisor_deadline (sn_started sample_supervised) None (lo_execution_deadline sample_options)"
    by (simp add: effective_supervisor_deadline_def sample_supervised_def sample_options_def
        libdeno_options_default_def checked_add_instant_def instant_limit_def ns_per_sec_def)
  then show ?thesis by (simp add: run_supervised_subprocess_def)
qed

lemma sample_submission_run:
  "\<exists>r timing'. execute_submission sample_submission sample_executor sample_execution (Some 50) cancel_ctx_new
      CrUser None = (Inr r, timing', Some (sample_call 50)) \<and> ex_exit_code r = 0"
proof -
  have "sample_options\<lparr>lo_execution_deadline := min_deadline (lo_execution_deadline sample_options)
      (Some (saturating_duration_since 50 3))\<rparr> = sample_options"
    by (simp add: sample_options_def libdeno_options_default_def min_deadline_def saturating_duration_since_def)
  then show ?thesis
    using sample_normalized(1)
    by (simp add: execute_submission_def Let_def sample_submission_def submission_in_process_deadline_def
        dispatch_backend_def supervised_backend_def sample_run_until sample_run finish_supervised_def
        sample_call_def sample_executor_def sample_execution_def saturating_duration_since_def)
qed

theorem executor_build_well_formed_witness:
  "\<exists>x. executor_build sample_host (\<lambda>_. Inr (7 :: nat)) ((executor_builder_new ''/w'')\<lparr>xb_backend := BkSubprocess\<rparr>)
     = Inr (x, admission_config_default) \<and> executor_wf x \<and> xe_backend x = BkSubprocess"
proof -
  have "executor_build sample_host (\<lambda>_. Inr (7 :: nat)) ((executor_builder_new ''/w'')\<lparr>xb_backend := BkSubprocess\<rparr>)
      = Inr (sample_executor, admission_config_default)"
    by (simp add: executor_build_def executor_builder_new_def sample_host_def fixed_host_executable_def
        sample_executor_def)
  with executor_build_well_formed [OF this] show ?thesis
    by (auto simp: sample_host_def is_absolute_def executor_builder_new_def)
qed

theorem submission_dispatch_contract_witness:
  "lo_execution_deadline (dc_options (sample_call 50)) = min_deadline (Some 5) (Some 47)
   \<and> (\<exists>completion timing'. execute_submission sample_submission sample_executor sample_execution (Some 50)
        cancel_ctx_new CrUser None = (completion, timing', Some (sample_call 50))
      \<and> er_dispatched_backend (completion_report completion) = Some BkSubprocess)"
proof -
  obtain r timing' where run: "execute_submission sample_submission sample_executor sample_execution (Some 50)
      cancel_ctx_new CrUser None = (Inr r, timing', Some (sample_call 50))"
    using sample_submission_run by blast
  have "lo_execution_deadline (rq_options sample_execution) = Some 5" "xv_now sample_submission = 3"
    by (simp_all add: sample_execution_def sample_options_def sample_submission_def)
  with submission_dispatch_contract [OF sample_executor_wf run] run show ?thesis
    by (simp add: sample_executor_def)
qed

theorem expired_submission_times_out_witness:
  "\<exists>completion timing'. execute_submission sample_submission sample_executor sample_execution (Some 3)
      cancel_ctx_new CrUser None = (completion, timing', None)
    \<and> fst (resolve_backend_result 9 completion BkSubprocess sample_control) = Some (EsTerminated, completion)"
proof -
  obtain completion timing' call where run: "execute_submission sample_submission sample_executor sample_execution
      (Some 3) cancel_ctx_new CrUser None = (completion, timing', call)" by (metis prod_cases3)
  have "due (Some 3) (xv_now sample_submission)"
    "is_ok (dispatch_normalize_options (xv_host sample_submission) (xv_validated sample_submission)
       sample_executor sample_execution)"
    "\<not> is_terminal (tc_lifecycle sample_control)" "tc_cancel_reason sample_control = None"
    using sample_normalized(1)
    by (simp_all add: sample_submission_def sample_control_def task_control_new_def)
  from expired_submission_times_out [OF this run, of 9 BkSubprocess] run show ?thesis by simp
qed

theorem supervised_submission_outcome_witness:
  "\<exists>r timing'. execute_submission sample_submission sample_executor sample_execution (Some 50)
      cancel_ctx_new CrUser None = (Inr r, timing', Some (sample_call 50))
    \<and> fst (resolve_backend_result 9 (Inr r) BkSubprocess sample_control) = Some (EsCompleted, Inr r)
    \<and> ex_exit_code r = 0"
proof -
  obtain r timing' where run: "execute_submission sample_submission sample_executor sample_execution (Some 50)
      cancel_ctx_new CrUser None = (Inr r, timing', Some (sample_call 50))"
    using sample_submission_run by blast
  have prems: "xe_state sample_executor = XbSubprocess ''/h''"
    "xv_supervised sample_submission = supervised_backend (\<lambda>_. sample_supervised)"
    "\<not> is_terminal (tc_lifecycle sample_control)" "tc_cancel_reason sample_control = None"
    by (simp_all add: sample_executor_def sample_submission_def sample_control_def task_control_new_def)
  have ran: "run_supervised_subprocess sample_supervised (rq_entry sample_execution) (dc_options (sample_call 50))
      (sx_new cancel_ctx_new CrUser) (Some 50)
    = (Inr \<lparr>srr_exit_code = 0, srr_partial_output = Some (into_supervisor_partial sample_collected),
          srr_cleanup_strength = SvDirectChild, srr_transport_status = SvClean\<rparr>, [CcSpawn, CcTryWait False, CcTryWait True])"
    by (simp add: sample_execution_def sample_call_def sample_run_until sample_run)
  from supervised_submission_outcome [OF run sample_executor_wf prems ran, of 9] run show ?thesis by auto
qed

definition sample_direct :: "(nat, unit) direct_env" where
  "sample_direct =
     \<lparr>ev_host = sample_host, ev_started = 1, ev_admission_from = 1, ev_admission_to = 2, ev_context_from = 2,
      ev_context_to = 2, ev_normalized = 2, ev_finished = 9, ev_context = Inr (),
      ev_run = (\<lambda>_ _ _ timing. (Inl (captured_run_error_new (ErrRuntime [])), timing)),
      ev_run_async = (\<lambda>_ _ _ timing. (Inl (captured_run_error_new (ErrRuntime [])), timing)),
      ev_subprocess = sample_subprocess, ev_join = None\<rparr>"

theorem direct_execution_contract_witness:
  "\<exists>completion calls. execute_sync sample_direct sample_executor sample_execution = (completion, calls)
     \<and> report_of_run sample_executor (Some BkSubprocess) completion \<and> child_accounted calls"
proof -
  obtain completion calls where run: "execute_sync sample_direct sample_executor sample_execution = (completion, calls)"
    by (cases "execute_sync sample_direct sample_executor sample_execution")
  from direct_execution_contract [OF sample_executor_wf this] run sample_normalized(2) show ?thesis
    by (simp add: sample_direct_def, simp add: sample_executor_def)
qed

theorem execute_async_agrees_witness:
  "execute_async sample_direct sample_executor sample_execution
     = execute_sync sample_direct sample_executor sample_execution"
  by (rule execute_async_agrees [of _ "''/h''"]) (simp_all add: sample_executor_def sample_direct_def)

end
