(* ===== verification/Ld_Lease.thy ===== *)
theory Ld_Lease
  imports Ld_Prelude
begin

text \<open>
  The admission lease of in-process runs (\<open>RunLease\<close> in src/src/lib.rs): ordinary runs share a
  counter, while output capture and the installation of a permission broker are exclusive and
  store a marker in the same word. The theory holds the atomic operations of the lease, their
  interleaving over all threads together with the workers the runs start, and the exclusion
  they give.
\<close>

section \<open>Atomic operations\<close>

definition CAPTURE_MARKER :: "64 word" where
  "CAPTURE_MARKER = - 1"

definition BROKER_INSTALL_MARKER :: "64 word" where
  "BROKER_INSTALL_MARKER = - 2"

definition capture_blocked_by_worker :: libdeno_error where
  "capture_blocked_by_worker = ErrConfiguration
     ''output capture is process-global and cannot coexist with an active run or worker; use run_in_subprocess_with_output instead''"

definition broker_install_in_progress :: libdeno_error where
  "broker_install_in_progress = ErrConfiguration
     ''a permission broker or hook is being installed; runs cannot start until installation completes''"

definition broker_install_blocked :: libdeno_error where
  "broker_install_blocked = ErrConfiguration
     ''permission broker or hook installation requires no active runs or workers''"

text \<open>
  A \<open>RunLease\<close> is its \<open>exclusive_marker\<close>. \<open>lease_load\<close> is the load and the two checks of the loop
  in \<open>acquire\<close>; the compare-exchange that follows is \<open>lease_exchange\<close>, whose \<open>None\<close> is the next turn
  of the loop.
\<close>

type_synonym run_lease = "64 word option"

definition lease_load :: "64 word \<Rightarrow> 64 word libdeno_result" where
  "lease_load state =
     (if state = CAPTURE_MARKER then Inl capture_blocked_by_worker
      else if state = BROKER_INSTALL_MARKER then Inl broker_install_in_progress
      else Inr state)"

definition lease_exchange :: "64 word \<Rightarrow> 64 word \<Rightarrow> run_lease option \<times> 64 word" where
  "lease_exchange cur state = (if state = cur then (Some None, cur + 1) else (None, state))"

text \<open>
  The three accesses of \<open>acquire_exclusive\<close>: the first count of the workers, the exchange of 0 for
  the marker, and the second count.
\<close>

definition exclusive_conflict :: "64 word \<Rightarrow> libdeno_error" where
  "exclusive_conflict marker =
     (if marker = BROKER_INSTALL_MARKER then broker_install_blocked else capture_blocked_by_worker)"

definition exclusive_check :: "64 word \<Rightarrow> nat \<Rightarrow> unit libdeno_result" where
  "exclusive_check marker active_workers =
     (if active_workers \<noteq> 0 then Inl (exclusive_conflict marker) else Inr ())"

definition exclusive_exchange :: "64 word \<Rightarrow> 64 word \<Rightarrow> unit libdeno_result \<times> 64 word" where
  "exclusive_exchange marker state =
     (if state = 0 then (Inr (), marker)
      else (Inl (if state = BROKER_INSTALL_MARKER then broker_install_in_progress
                 else exclusive_conflict marker), state))"

definition lease_drop :: "run_lease \<Rightarrow> 64 word \<Rightarrow> 64 word" where
  "lease_drop lease state = (if lease \<noteq> None then 0 else state - 1)"

definition acquire_marker :: "bool \<Rightarrow> 64 word" where
  "acquire_marker install = (if install then BROKER_INSTALL_MARKER else CAPTURE_MARKER)"

section \<open>Interleaving\<close>

text \<open>
  Each thread is at one point of \<open>acquire\<close>, holds a lease, or holds none. Workers are the live
  workers of the process, each with the thread whose run it belongs to: a run starts workers
  while it holds its lease, a worker can start another of the same run, and workers can outlive
  the lease.
\<close>

datatype lease_pc =
    LpIdle
  | LpLoading
  | LpLoaded "64 word"
  | LpOrdinary
  | LpChecked "64 word"
  | LpSwapped "64 word"
  | LpAborting "64 word"
  | LpExclusive "64 word"

record lease_sys =
  ls_state :: "64 word"
  ls_workers :: "nat list"
  ls_pc :: "nat \<Rightarrow> lease_pc"

definition lease_at :: "nat \<Rightarrow> lease_pc \<Rightarrow> 64 word \<Rightarrow> lease_sys \<Rightarrow> lease_sys" where
  "lease_at t pc state s = s\<lparr>ls_pc := (ls_pc s)(t := pc), ls_state := state\<rparr>"

definition runs_script :: "lease_pc \<Rightarrow> bool" where
  "runs_script pc \<longleftrightarrow> pc = LpOrdinary \<or> pc = LpExclusive CAPTURE_MARKER"

inductive lease_step :: "nat \<Rightarrow> lease_sys \<Rightarrow> lease_sys \<Rightarrow> bool" for n where
  acquire: "t < n \<Longrightarrow> ls_pc s t = LpIdle \<Longrightarrow> lease_step n s (lease_at t LpLoading (ls_state s) s)"
| load_refused: "t < n \<Longrightarrow> ls_pc s t = LpLoading \<Longrightarrow> lease_load (ls_state s) = Inl e \<Longrightarrow>
     lease_step n s (lease_at t LpIdle (ls_state s) s)"
| load: "t < n \<Longrightarrow> ls_pc s t = LpLoading \<Longrightarrow> lease_load (ls_state s) = Inr cur \<Longrightarrow>
     lease_step n s (lease_at t (LpLoaded cur) (ls_state s) s)"
| exchange: "t < n \<Longrightarrow> ls_pc s t = LpLoaded cur \<Longrightarrow>
     lease_exchange cur (ls_state s) = (Some lease, state) \<Longrightarrow>
     lease_step n s (lease_at t LpOrdinary state s)"
| exchange_failed: "t < n \<Longrightarrow> ls_pc s t = LpLoaded cur \<Longrightarrow>
     lease_exchange cur (ls_state s) = (None, state) \<Longrightarrow>
     lease_step n s (lease_at t LpLoading state s)"
| exclusive_checked: "t < n \<Longrightarrow> ls_pc s t = LpIdle \<Longrightarrow>
     exclusive_check (acquire_marker install) (length (ls_workers s)) = Inr u \<Longrightarrow>
     lease_step n s (lease_at t (LpChecked (acquire_marker install)) (ls_state s) s)"
| exclusive_swapped: "t < n \<Longrightarrow> ls_pc s t = LpChecked marker \<Longrightarrow>
     exclusive_exchange marker (ls_state s) = (Inr u, state) \<Longrightarrow>
     lease_step n s (lease_at t (LpSwapped marker) state s)"
| exclusive_refused: "t < n \<Longrightarrow> ls_pc s t = LpChecked marker \<Longrightarrow>
     exclusive_exchange marker (ls_state s) = (Inl e, state) \<Longrightarrow>
     lease_step n s (lease_at t LpIdle state s)"
| exclusive_acquired: "t < n \<Longrightarrow> ls_pc s t = LpSwapped marker \<Longrightarrow>
     exclusive_check marker (length (ls_workers s)) = Inr u \<Longrightarrow>
     lease_step n s (lease_at t (LpExclusive marker) (ls_state s) s)"
| exclusive_recheck: "t < n \<Longrightarrow> ls_pc s t = LpSwapped marker \<Longrightarrow>
     exclusive_check marker (length (ls_workers s)) = Inl e \<Longrightarrow>
     lease_step n s (lease_at t (LpAborting marker) (ls_state s) s)"
| exclusive_abort: "t < n \<Longrightarrow> ls_pc s t = LpAborting marker \<Longrightarrow>
     lease_step n s (lease_at t LpIdle 0 s)"
| drop_ordinary: "t < n \<Longrightarrow> ls_pc s t = LpOrdinary \<Longrightarrow>
     lease_step n s (lease_at t LpIdle (lease_drop None (ls_state s)) s)"
| drop_exclusive: "t < n \<Longrightarrow> ls_pc s t = LpExclusive marker \<Longrightarrow>
     lease_step n s (lease_at t LpIdle (lease_drop (Some marker) (ls_state s)) s)"
| worker_start: "t < n \<Longrightarrow> runs_script (ls_pc s t) \<Longrightarrow>
     lease_step n s (s\<lparr>ls_workers := t # ls_workers s\<rparr>)"
| worker_nested: "t \<in> set (ls_workers s) \<Longrightarrow>
     lease_step n s (s\<lparr>ls_workers := t # ls_workers s\<rparr>)"
| worker_end: "t \<in> set (ls_workers s) \<Longrightarrow>
     lease_step n s (s\<lparr>ls_workers := remove1 t (ls_workers s)\<rparr>)"

definition lease_init :: "lease_sys \<Rightarrow> bool" where
  "lease_init s \<longleftrightarrow> ls_state s = 0 \<and> ls_workers s = [] \<and> ls_pc s = (\<lambda>_. LpIdle)"

section \<open>Invariant\<close>

fun marker_of :: "lease_pc \<Rightarrow> 64 word option" where
  "marker_of (LpSwapped m) = Some m"
| "marker_of (LpAborting m) = Some m"
| "marker_of (LpExclusive m) = Some m"
| "marker_of _ = None"

definition ordinaries :: "(nat \<Rightarrow> lease_pc) \<Rightarrow> nat set" where
  "ordinaries pc = {t. pc t = LpOrdinary}"

definition shared_inv :: "64 word \<Rightarrow> (nat \<Rightarrow> lease_pc) \<Rightarrow> bool" where
  "shared_inv state pc \<longleftrightarrow> (\<forall>t. marker_of (pc t) = None) \<and> state = of_nat (card (ordinaries pc))"

definition held_inv :: "64 word \<Rightarrow> (nat \<Rightarrow> lease_pc) \<Rightarrow> bool" where
  "held_inv state pc \<longleftrightarrow> ordinaries pc = {} \<and> (state = CAPTURE_MARKER \<or> state = BROKER_INSTALL_MARKER)
     \<and> (\<exists>t. marker_of (pc t) = Some state \<and> (\<forall>u. u \<noteq> t \<longrightarrow> marker_of (pc u) = None))"

definition lease_inv :: "nat \<Rightarrow> 64 word \<Rightarrow> nat list \<Rightarrow> (nat \<Rightarrow> lease_pc) \<Rightarrow> bool" where
  "lease_inv n state workers pc \<longleftrightarrow>
     (\<forall>t. n \<le> t \<longrightarrow> pc t = LpIdle)
   \<and> (\<forall>t c. pc t = LpLoaded c \<longrightarrow> c \<noteq> CAPTURE_MARKER \<and> c \<noteq> BROKER_INSTALL_MARKER)
   \<and> (\<forall>t m. pc t = LpChecked m \<longrightarrow> m = CAPTURE_MARKER \<or> m = BROKER_INSTALL_MARKER)
   \<and> (\<forall>t m. pc t = LpExclusive m \<longrightarrow> set workers \<subseteq> {t})
   \<and> (shared_inv state pc \<or> held_inv state pc)"

lemma markers: "CAPTURE_MARKER \<noteq> 0" "BROKER_INSTALL_MARKER \<noteq> 0" "CAPTURE_MARKER \<noteq> BROKER_INSTALL_MARKER"
  by (simp_all add: CAPTURE_MARKER_def BROKER_INSTALL_MARKER_def)

lemma ordinaries_upd:
  "ordinaries (pc(t := x)) = (if x = LpOrdinary then insert t (ordinaries pc) else ordinaries pc - {t})"
  by (auto simp: ordinaries_def)

lemma finite_ordinaries: "\<forall>t. n \<le> t \<longrightarrow> pc t = LpIdle \<Longrightarrow> ordinaries pc \<subseteq> {..<n} \<and> finite (ordinaries pc)"
  by (metis (mono_tags, lifting) finite_lessThan finite_subset lease_pc.distinct(5) lessThan_iff
      mem_Collect_eq not_le ordinaries_def subsetI)

lemma shared_zero:
  assumes "shared_inv 0 pc" and "\<forall>t. n \<le> t \<longrightarrow> pc t = LpIdle" and "n < 2 ^ 64"
  shows "ordinaries pc = {}"
proof -
  have fin: "ordinaries pc \<subseteq> {..<n}" "finite (ordinaries pc)"
    using finite_ordinaries [OF assms(2)] by auto
  then have "card (ordinaries pc) \<le> n" by (metis card_lessThan card_mono finite_lessThan)
  then have "card (ordinaries pc) < 2 ^ 64" using assms(3) by simp
  moreover have "of_nat (card (ordinaries pc)) = (0 :: 64 word)"
    using assms(1) by (simp add: shared_inv_def)
  ultimately have "card (ordinaries pc) = 0"
    using nat_dvd_not_less [of "card (ordinaries pc)" "2 ^ 64"] by (auto simp: word_of_nat_eq_0_iff)
  then show ?thesis using fin by simp
qed

lemma shared_or_held_pc:
  assumes "shared_inv state pc \<or> held_inv state pc" and "marker_of (pc t) = None" and "pc t \<noteq> LpOrdinary"
    and "marker_of x = None" and "x \<noteq> LpOrdinary"
  shows "shared_inv state (pc(t := x)) \<or> held_inv state (pc(t := x))"
proof -
  have "marker_of ((pc(t := x)) u) = marker_of (pc u)" for u using assms by auto
  moreover have "ordinaries (pc(t := x)) = ordinaries pc" using assms by (auto simp: ordinaries_def)
  ultimately show ?thesis using assms(1) by (simp only: shared_inv_def held_inv_def)
qed

lemma lease_inv_pc:
  assumes "lease_inv n state workers pc" and "t < n" and "marker_of (pc t) = None" and "pc t \<noteq> LpOrdinary"
    and "marker_of x = None" and "x \<noteq> LpOrdinary"
    and "\<And>c. x = LpLoaded c \<Longrightarrow> c \<noteq> CAPTURE_MARKER \<and> c \<noteq> BROKER_INSTALL_MARKER"
    and "\<And>m. x = LpChecked m \<Longrightarrow> m = CAPTURE_MARKER \<or> m = BROKER_INSTALL_MARKER"
  shows "lease_inv n state workers (pc(t := x))"
  using assms shared_or_held_pc [of state pc t x] unfolding lease_inv_def by auto

lemma lease_inv_ordinary:
  assumes "lease_inv n state workers pc" and "t < n" and "pc t = LpLoaded state"
  shows "lease_inv n (state + 1) workers (pc(t := LpOrdinary))"
proof -
  have "\<not> held_inv state pc" using assms by (auto simp: lease_inv_def held_inv_def)
  then have shared: "shared_inv state pc" using assms(1) by (simp add: lease_inv_def)
  have "t \<notin> ordinaries pc" and "finite (ordinaries pc)"
    using assms finite_ordinaries [of n pc] by (auto simp: ordinaries_def lease_inv_def)
  then have "shared_inv (state + 1) (pc(t := LpOrdinary))"
    using shared by (auto simp: shared_inv_def ordinaries_upd)
  then show ?thesis using assms by (auto simp: lease_inv_def)
qed

lemma lease_inv_drop_ordinary:
  assumes "lease_inv n state workers pc" and "t < n" and "pc t = LpOrdinary"
  shows "lease_inv n (state - 1) workers (pc(t := LpIdle))"
proof -
  have mem: "t \<in> ordinaries pc" using assms by (simp add: ordinaries_def)
  then have shared: "shared_inv state pc" using assms(1) by (auto simp: lease_inv_def held_inv_def)
  have fin: "finite (ordinaries pc)" using assms finite_ordinaries [of n pc] by (auto simp: lease_inv_def)
  have "card (ordinaries pc) = Suc (card (ordinaries pc - {t}))"
    using card_Suc_Diff1 [OF fin mem] by simp
  then have "shared_inv (state - 1) (pc(t := LpIdle))"
    using shared by (auto simp: shared_inv_def ordinaries_upd)
  then show ?thesis using assms by (auto simp: lease_inv_def)
qed

lemma lease_inv_swapped:
  assumes "lease_inv n 0 workers pc" and "t < n" and "pc t = LpChecked m" and "n < 2 ^ 64"
  shows "lease_inv n m workers (pc(t := LpSwapped m))"
proof -
  have shared: "shared_inv 0 pc" using assms(1) markers by (auto simp: lease_inv_def held_inv_def)
  have "ordinaries pc = {}" using shared_zero [OF shared _ assms(4)] assms(1) by (simp add: lease_inv_def)
  moreover have "m = CAPTURE_MARKER \<or> m = BROKER_INSTALL_MARKER"
    using assms by (auto simp: lease_inv_def)
  ultimately have "held_inv m (pc(t := LpSwapped m))"
    using shared by (auto simp: held_inv_def shared_inv_def ordinaries_upd)
  then show ?thesis using assms by (auto simp: lease_inv_def)
qed

lemma held_marker:
  assumes "lease_inv n state workers pc" and "marker_of (pc t) = Some m"
  shows "held_inv state pc \<and> m = state \<and> (\<forall>u. u \<noteq> t \<longrightarrow> marker_of (pc u) = None)"
proof -
  have held: "held_inv state pc"
    using assms by (auto simp: lease_inv_def shared_inv_def)
  then obtain v where v: "marker_of (pc v) = Some state" "\<forall>u. u \<noteq> v \<longrightarrow> marker_of (pc u) = None"
    by (auto simp: held_inv_def)
  then have "v = t" using assms(2) by (metis option.distinct(1))
  then show ?thesis using held v assms(2) by auto
qed

lemma lease_inv_marked:
  assumes "lease_inv n state workers pc" and "t < n" and "marker_of (pc t) = Some m"
    and "marker_of x = Some m" and "\<And>m. x = LpExclusive m \<Longrightarrow> workers = []"
  shows "lease_inv n state workers (pc(t := x))"
proof -
  note held = held_marker [OF assms(1,3)]
  then have "held_inv state (pc(t := x))"
    using assms(4) by (auto simp: held_inv_def ordinaries_upd)
  moreover have "x \<noteq> LpOrdinary" "\<And>c. x \<noteq> LpLoaded c" "\<And>c. x \<noteq> LpChecked c" using assms(4) by auto
  ultimately show ?thesis using assms by (auto simp: lease_inv_def)
qed

lemma lease_inv_release:
  assumes "lease_inv n state workers pc" and "t < n" and "marker_of (pc t) = Some m"
  shows "lease_inv n 0 workers (pc(t := LpIdle))"
proof -
  have "shared_inv 0 (pc(t := LpIdle))"
    using held_marker [OF assms(1,3)] by (auto simp: held_inv_def shared_inv_def ordinaries_upd)
  then show ?thesis using assms by (auto simp: lease_inv_def)
qed

lemma lease_inv_worker:
  assumes "lease_inv n state workers pc" and "runs_script (pc t) \<or> t \<in> set workers"
  shows "lease_inv n state (t # workers) pc"
proof -
  have "t = u" if "pc u = LpExclusive m" for u m
  proof (cases "t \<in> set workers")
    case True
    then show ?thesis using assms(1) that by (auto simp: lease_inv_def)
  next
    case False
    then have runs: "runs_script (pc t)" using assms(2) by simp
    note held = held_marker [OF assms(1), of u m]
    show ?thesis
      using runs held that by (auto simp: runs_script_def held_inv_def ordinaries_def)
  qed
  then show ?thesis using assms(1) by (fastforce simp: lease_inv_def)
qed

lemma lease_inv_fewer: "lease_inv n state workers pc \<Longrightarrow> set ws \<subseteq> set workers \<Longrightarrow> lease_inv n state ws pc"
  unfolding lease_inv_def by blast

lemma lease_inv_step:
  assumes "lease_inv n (ls_state s) (ls_workers s) (ls_pc s)" and "lease_step n s s'" and "n < 2 ^ 64"
  shows "lease_inv n (ls_state s') (ls_workers s') (ls_pc s')"
  using assms(2)
proof cases
  case (exchange t cur lease state)
  then show ?thesis
    using assms(1) lease_inv_ordinary [of n "ls_state s" "ls_workers s" "ls_pc s" t]
    by (auto simp: lease_at_def lease_exchange_def split: if_splits)
next
  case (exclusive_swapped t marker u state)
  then show ?thesis
    using assms lease_inv_swapped [of n "ls_workers s" "ls_pc s" t marker]
    by (auto simp: lease_at_def exclusive_exchange_def split: if_splits)
next
  case (drop_ordinary t)
  then show ?thesis
    using assms(1) lease_inv_drop_ordinary [of n "ls_state s" "ls_workers s" "ls_pc s" t]
    by (auto simp: lease_at_def lease_drop_def)
next
  case (exclusive_acquired t marker u)
  then show ?thesis
    using lease_inv_marked [OF assms(1), of t marker "LpExclusive marker"]
    by (auto simp: lease_at_def exclusive_check_def split: if_splits)
next
  case (exclusive_recheck t marker e)
  then show ?thesis
    using lease_inv_marked [OF assms(1), of t marker "LpAborting marker"] by (auto simp: lease_at_def)
next
  case (exclusive_abort t marker)
  then show ?thesis
    using lease_inv_release [OF assms(1), of t marker] by (auto simp: lease_at_def)
next
  case (drop_exclusive t marker)
  then show ?thesis
    using lease_inv_release [OF assms(1), of t marker] by (auto simp: lease_at_def lease_drop_def)
next
  case (worker_start t)
  then show ?thesis using lease_inv_worker [OF assms(1)] by simp
next
  case (worker_nested t)
  then show ?thesis using lease_inv_worker [OF assms(1)] by simp
next
  case (worker_end t)
  then show ?thesis using lease_inv_fewer [OF assms(1) set_remove1_subset] by simp
next
  case (acquire t)
  then show ?thesis using lease_inv_pc [OF assms(1), of t LpLoading] by (simp add: lease_at_def)
next
  case (load_refused t e)
  then show ?thesis using lease_inv_pc [OF assms(1), of t LpIdle] by (simp add: lease_at_def)
next
  case (load t cur)
  then show ?thesis
    using lease_inv_pc [OF assms(1), of t "LpLoaded cur"]
    by (auto simp: lease_at_def lease_load_def split: if_splits)
next
  case (exchange_failed t cur state)
  then show ?thesis
    using lease_inv_pc [OF assms(1), of t LpLoading]
    by (auto simp: lease_at_def lease_exchange_def split: if_splits)
next
  case (exclusive_checked t install u)
  then show ?thesis
    using lease_inv_pc [OF assms(1), of t "LpChecked (acquire_marker install)"]
    by (simp add: lease_at_def acquire_marker_def)
next
  case (exclusive_refused t marker e state)
  then show ?thesis
    using lease_inv_pc [OF assms(1), of t LpIdle]
    by (auto simp: lease_at_def exclusive_exchange_def split: if_splits)
qed

definition lease_inv_in :: "nat \<Rightarrow> lease_sys \<Rightarrow> bool" where
  "lease_inv_in n s \<longleftrightarrow> n < 2 ^ 64 \<longrightarrow> lease_inv n (ls_state s) (ls_workers s) (ls_pc s)"

lemma lease_inv_init: "lease_init s \<Longrightarrow> lease_inv n (ls_state s) (ls_workers s) (ls_pc s)"
  by (simp add: lease_init_def lease_inv_def shared_inv_def ordinaries_def)

interpretation run_leases: invariant_system lease_init "lease_step n" "lease_inv_in n" for n
  using lease_inv_init lease_inv_step by unfold_locales (simp_all add: lease_inv_in_def, blast)

section \<open>Properties\<close>

text \<open>
  C18: While one thread holds an exclusive lease (output capture or broker installation), no
  other thread holds any lease and no live worker belongs to another run, in every
  interleaving of acquisitions, releases and workers that outlive their runs.
\<close>

theorem lease_exclusion:
  assumes "reach lease_init (lease_step n) s" and "n < 2 ^ 64" and "ls_pc s t = LpExclusive marker"
    and "u \<noteq> t"
  shows "ls_pc s u \<noteq> LpOrdinary \<and> (\<forall>m. ls_pc s u \<noteq> LpExclusive m) \<and> u \<notin> set (ls_workers s)"
proof -
  have inv: "lease_inv n (ls_state s) (ls_workers s) (ls_pc s)"
    using run_leases.reach_inv [OF assms(1)] assms(2) by (simp add: lease_inv_in_def)
  note held_marker [OF inv, of t marker]
  then have "ordinaries (ls_pc s) = {}" and "marker_of (ls_pc s u) = None"
    using assms(3,4) by (auto simp: held_inv_def)
  then show ?thesis
    using inv assms(3,4) by (auto simp: ordinaries_def lease_inv_def)
qed

text \<open>
  When no thread holds or is taking an exclusive lease and no ordinary run is active, the
  shared word is zero again: no acquisition that failed half-way and no release leaves a
  marker behind that would block later runs.
\<close>

theorem lease_leaves_no_marker:
  assumes "reach lease_init (lease_step n) s" and "n < 2 ^ 64"
    and "\<forall>t. ls_pc s t \<in> {LpIdle, LpLoading} \<union> range LpLoaded \<union> range LpChecked"
  shows "ls_state s = 0"
proof -
  have "lease_inv n (ls_state s) (ls_workers s) (ls_pc s)"
    using run_leases.reach_inv [OF assms(1)] assms(2) by (simp add: lease_inv_in_def)
  moreover have "marker_of (ls_pc s t) = None" and "ls_pc s t \<noteq> LpOrdinary" for t
    using spec [OF assms(3), of t] by auto
  ultimately show ?thesis
    by (auto simp: lease_inv_def shared_inv_def held_inv_def ordinaries_def)
qed

text \<open>
  A run with captured output on thread 0 that has started one worker, on a system of two threads.
\<close>

definition sample_capture :: lease_sys where
  "sample_capture = \<lparr>ls_state = CAPTURE_MARKER, ls_workers = [0],
     ls_pc = (\<lambda>_. LpIdle)(0 := LpExclusive CAPTURE_MARKER)\<rparr>"

definition sample_idle :: lease_sys where
  "sample_idle = \<lparr>ls_state = 0, ls_workers = [], ls_pc = (\<lambda>_. LpIdle)\<rparr>"

lemma sample_idle_reach: "reach lease_init (lease_step 2) sample_idle"
  by (rule reach_init) (simp add: lease_init_def sample_idle_def)

lemma sample_capture_reach: "reach lease_init (lease_step 2) sample_capture"
proof -
  let ?m = CAPTURE_MARKER
  let ?at = "\<lambda>pc state. lease_at 0 pc state sample_idle"
  have "lease_step 2 sample_idle (?at (LpChecked ?m) 0)"
    using lease_step.exclusive_checked [of 0 2 sample_idle False "()"]
    by (simp add: sample_idle_def acquire_marker_def exclusive_check_def)
  with sample_idle_reach have "reach lease_init (lease_step 2) (?at (LpChecked ?m) 0)"
    by (rule reach_step)
  moreover have "lease_step 2 (?at (LpChecked ?m) 0) (?at (LpSwapped ?m) ?m)"
    using lease_step.exclusive_swapped [of 0 2 "?at (LpChecked ?m) 0" ?m "()" ?m]
    by (simp add: lease_at_def exclusive_exchange_def)
  ultimately have "reach lease_init (lease_step 2) (?at (LpSwapped ?m) ?m)" by (rule reach_step)
  moreover have "lease_step 2 (?at (LpSwapped ?m) ?m) (?at (LpExclusive ?m) ?m)"
    using lease_step.exclusive_acquired [of 0 2 "?at (LpSwapped ?m) ?m" ?m "()"]
    by (simp add: lease_at_def sample_idle_def exclusive_check_def)
  ultimately have "reach lease_init (lease_step 2) (?at (LpExclusive ?m) ?m)" by (rule reach_step)
  moreover have "lease_step 2 (?at (LpExclusive ?m) ?m) sample_capture"
    using lease_step.worker_start [of 0 2 "?at (LpExclusive ?m) ?m"]
    by (simp add: lease_at_def sample_idle_def sample_capture_def runs_script_def)
  ultimately show ?thesis by (rule reach_step)
qed

theorem lease_exclusion_witness: "ls_pc sample_capture 1 \<noteq> LpOrdinary \<and> 1 \<notin> set (ls_workers sample_capture)"
  using lease_exclusion [OF sample_capture_reach, of 0 CAPTURE_MARKER 1] by (simp add: sample_capture_def)

theorem lease_leaves_no_marker_witness: "ls_state sample_idle = 0"
  using lease_leaves_no_marker [OF sample_idle_reach] by (simp add: sample_idle_def)

end
