(* ===== verification/Ld_Broker.thy ===== *)
theory Ld_Broker
  imports Ld_Lease Ld_Permissions Ld_Token
begin

text \<open>
  src/src/permission_broker.rs: the bridge that serves an in-process permission hook. The bounded
  line reader over a buffered stream, the recovery of a request's id, the serving loop that fails
  closed, and the install-once installation with its cleanup. The JSON deserialiser, the hook and
  the operating system are parameters.
\<close>

section \<open>Requests\<close>

record permission_request =
  pq_name :: string
  pq_value :: "string option"

record broker_request =
  bq_v :: nat
  bq_pid :: nat
  bq_id :: nat
  bq_datetime :: string
  bq_permission :: string
  bq_value :: "string option"

definition MAX_BROKER_LINE_BYTES :: nat where
  "MAX_BROKER_LINE_BYTES = 64 * 1024"

datatype broker_line = BlRequest bytes | BlOversized "nat option"

text \<open>
  What a streaming JSON deserialiser reports of an object: its entries in order (the value only
  when it is a \<^verbatim>\<open>u32\<close>) up to where it stops, and how it stops: at the closing brace with nothing
  after it, with trailing characters, at the end of the input, or at a syntax error.
\<close>

datatype json_end = JeClosed | JeTrailing | JeEof | JeBad

record json_scan =
  js_entries :: "(string \<times> nat option) list"
  js_end :: json_end

record broker_codec =
  bc_parse :: "bytes \<Rightarrow> broker_request option"
  bc_scan :: "bytes \<Rightarrow> json_scan"

text \<open>\<open>visit_map\<close> of \<open>IdVisitor\<close>: the id found so far, and whether the visitor went on.\<close>

fun visit_id :: "nat option \<Rightarrow> (string \<times> nat option) list \<Rightarrow> nat option \<times> bool" where
  "visit_id id_seen [] = (id_seen, True)"
| "visit_id id_seen ((key, v) # entries) =
     (if key = ''id''
      then (case (id_seen, v) of
              (Some _, _) \<Rightarrow> (None, False)
            | (None, Some n) \<Rightarrow> visit_id (Some n) entries
            | (None, None) \<Rightarrow> (None, False))
      else visit_id id_seen entries)"

definition broker_request_id :: "broker_codec \<Rightarrow> bytes \<Rightarrow> bool \<Rightarrow> nat option" where
  "broker_request_id json prefix allow_truncated_eof =
     (let scan = bc_scan json prefix
      in case visit_id None (js_entries scan) of
           (id_seen, False) \<Rightarrow> None
         | (id_seen, True) \<Rightarrow>
             (case js_end scan of
                JeClosed \<Rightarrow> id_seen
              | JeEof \<Rightarrow> if allow_truncated_eof then id_seen else None
              | _ \<Rightarrow> None))"

section \<open>Reading a line\<close>

text \<open>
  The buffered reader is the list of what its future \<open>fill_buf\<close> calls return; consuming a part of
  a block leaves the rest in front. An empty block is the end of the stream. \<open>None\<close> is a reader
  that still waits.
\<close>

definition NEWLINE :: byte where
  "NEWLINE = 10"

definition split_newline :: "bytes \<Rightarrow> bytes \<times> bytes" where
  "split_newline available =
     (let k = length (takeWhile (\<lambda>b. b \<noteq> NEWLINE) available)
      in (take (Suc k) available, drop (Suc k) available))"

definition broker_take :: "bytes \<Rightarrow> bool \<Rightarrow> bytes \<Rightarrow> bytes \<times> bool" where
  "broker_take prefix oversized taken =
     (if oversized then (prefix, True)
      else let room = MAX_BROKER_LINE_BYTES + 1 - length prefix;
               prefix = prefix @ take room taken
           in (prefix, MAX_BROKER_LINE_BYTES < length prefix))"

definition broker_line_of :: "broker_codec \<Rightarrow> bytes \<Rightarrow> bool \<Rightarrow> broker_line" where
  "broker_line_of json prefix oversized =
     (if oversized then BlOversized (broker_request_id json prefix True) else BlRequest prefix)"

fun read_broker_line ::
  "broker_codec \<Rightarrow> bytes \<Rightarrow> bool \<Rightarrow> bytes io_result list
   \<Rightarrow> (broker_line option io_result \<times> bytes io_result list) option" where
  "read_broker_line json prefix oversized [] = None"
| "read_broker_line json prefix oversized (Inl e # reads) =
     (if io_kind e = EkInterrupted then read_broker_line json prefix oversized reads
      else Some (Inl e, reads))"
| "read_broker_line json prefix oversized (Inr available # reads) =
     (if available = []
      then Some (if prefix = [] then Inr None else Inl (invalid_data ''unterminated broker request''), reads)
      else case split_newline available of
        (taken, rest) \<Rightarrow>
          (case broker_take prefix oversized taken of
             (prefix, oversized) \<Rightarrow>
               if last taken = NEWLINE
               then Some (Inr (Some (broker_line_of json prefix oversized)),
                          if rest = [] then reads else Inr rest # reads)
               else read_broker_line json prefix oversized reads))"

definition reads_size :: "bytes io_result list \<Rightarrow> nat" where
  "reads_size reads = sum_list (map (\<lambda>r. case r of Inl _ \<Rightarrow> 1 | Inr bs \<Rightarrow> Suc (length bs)) reads)"

lemma reads_size_simps [simp]:
  "reads_size [] = 0" "reads_size (Inl e # reads) = Suc (reads_size reads)"
  "reads_size (Inr bs # reads) = Suc (length bs) + reads_size reads"
  by (simp_all add: reads_size_def)

lemma read_broker_line_smaller:
  "read_broker_line json prefix oversized reads = Some (r, reads') \<Longrightarrow> reads_size reads' < reads_size reads"
proof (induction json prefix oversized reads rule: read_broker_line.induct)
  case (2 json prefix oversized e reads)
  then show ?case by (fastforce split: if_splits)
next
  case (3 json prefix oversized available reads)
  show ?case
  proof (cases "available = []")
    case False
    obtain taken rest where split: "split_newline available = (taken, rest)" by fastforce
    then have "length rest < length available"
      using False by (auto simp: split_newline_def Let_def)
    moreover obtain p o' where "broker_take prefix oversized taken = (p, o')" by fastforce
    ultimately show ?thesis
      using 3 False split by (fastforce split: if_splits)
  qed (use 3 in auto)
qed simp

section \<open>Serving\<close>

text \<open>The response to one line, or none when the connection is given up. A hook that panics is \<open>None\<close>.\<close>

definition broker_answer ::
  "broker_codec \<Rightarrow> (permission_request \<Rightarrow> bool option) \<Rightarrow> broker_line \<Rightarrow> (nat \<times> bool) option" where
  "broker_answer json hook line =
     (case line of
        BlOversized (Some id_seen) \<Rightarrow> Some (id_seen, False)
      | BlOversized None \<Rightarrow> None
      | BlRequest bs \<Rightarrow>
          (case bc_parse json bs of
             Some req \<Rightarrow>
               Some (bq_id req,
                     hook \<lparr>pq_name = bq_permission req, pq_value = bq_value req\<rparr> = Some True)
           | None \<Rightarrow> map_option (\<lambda>id_seen. (id_seen, False)) (broker_request_id json bs False)))"

text \<open>
  \<open>serve_broker_connection\<close>: the responses it writes, and whether it ended. \<open>writes n\<close> says whether
  the write of the \<open>n\<close>-th response succeeds.
\<close>

function serve_broker_connection ::
  "broker_codec \<Rightarrow> (permission_request \<Rightarrow> bool option) \<Rightarrow> (nat \<Rightarrow> bool) \<Rightarrow> nat \<Rightarrow> bytes io_result list
   \<Rightarrow> (nat \<times> bool) list \<times> bool" where
  "serve_broker_connection json hook writes n reads =
     (case read_broker_line json [] False reads of
        None \<Rightarrow> ([], False)
      | Some (Inr (Some line), reads') \<Rightarrow>
          (case broker_answer json hook line of
             None \<Rightarrow> ([], True)
           | Some response \<Rightarrow>
               if writes n
               then (case serve_broker_connection json hook writes (Suc n) reads' of
                       (responses, ended) \<Rightarrow> (response # responses, ended))
               else ([response], True))
      | Some (_, reads') \<Rightarrow> ([], True))"
  by pat_completeness auto
termination
  by (relation "measure (\<lambda>(json, hook, writes, n, reads). reads_size reads)")
     (auto dest: read_broker_line_smaller)

declare serve_broker_connection.simps [simp del]

section \<open>Lines survive any fragmentation\<close>

text \<open>Reads that lose nothing: blocks and interruptions only.\<close>

definition calm_read :: "bytes io_result \<Rightarrow> bool" where
  "calm_read r = (case r of Inl e \<Rightarrow> io_kind e = EkInterrupted | Inr bs \<Rightarrow> bs \<noteq> [])"

definition reads_content :: "bytes io_result list \<Rightarrow> bytes" where
  "reads_content reads = concat (map (\<lambda>r. case r of Inl _ \<Rightarrow> [] | Inr bs \<Rightarrow> bs) reads)"

lemma reads_content_simps [simp]:
  "reads_content [] = []" "reads_content (Inl e # reads) = reads_content reads"
  "reads_content (Inr bs # reads) = bs @ reads_content reads"
  by (simp_all add: reads_content_def)

lemma calm_read_simps [simp]:
  "calm_read (Inl e) = (io_kind e = EkInterrupted)" "calm_read (Inr bs) = (bs \<noteq> [])"
  by (simp_all add: calm_read_def)

lemma broker_take_seen:
  "broker_take (take (Suc MAX_BROKER_LINE_BYTES) seen) (MAX_BROKER_LINE_BYTES < length seen) taken
     = (take (Suc MAX_BROKER_LINE_BYTES) (seen @ taken), MAX_BROKER_LINE_BYTES < length (seen @ taken))"
proof (cases "MAX_BROKER_LINE_BYTES < length seen")
  case True
  then have "take (Suc MAX_BROKER_LINE_BYTES) (seen @ taken) = take (Suc MAX_BROKER_LINE_BYTES) seen"
    by simp
  with True show ?thesis by (simp add: broker_take_def)
next
  case False
  then show ?thesis by (auto simp: broker_take_def Let_def min_def)
qed

lemma split_newline_inside:
  assumes "NEWLINE \<notin> set line"
  shows "split_newline (line @ NEWLINE # rest) = (line @ [NEWLINE], rest)"
proof -
  have "takeWhile (\<lambda>b. b \<noteq> NEWLINE) (line @ NEWLINE # rest) = line"
    using assms by (subst takeWhile_append2) auto
  then show ?thesis by (simp add: split_newline_def)
qed

lemma split_newline_outside:
  assumes "NEWLINE \<notin> set bs"
  shows "split_newline bs = (bs, [])"
proof -
  have "takeWhile (\<lambda>b. b \<noteq> NEWLINE) bs = bs" using assms by (auto simp: takeWhile_eq_all_conv)
  show ?thesis unfolding split_newline_def Let_def \<open>takeWhile (\<lambda>b. b \<noteq> NEWLINE) bs = bs\<close> by simp
qed

definition whole_line :: "broker_codec \<Rightarrow> bytes \<Rightarrow> broker_line" where
  "whole_line json line =
     (if length line \<le> MAX_BROKER_LINE_BYTES then BlRequest line
      else BlOversized (broker_request_id json (take (Suc MAX_BROKER_LINE_BYTES) line) True))"

lemma broker_line_of_whole:
  "broker_line_of json (take (Suc MAX_BROKER_LINE_BYTES) line) (MAX_BROKER_LINE_BYTES < length line)
     = whole_line json line"
  by (simp add: broker_line_of_def whole_line_def)

lemma read_broker_line_whole:
  assumes "list_all calm_read reads" and "reads_content reads = line @ NEWLINE # rest" and "NEWLINE \<notin> set line"
  shows "\<exists>reads'. list_all calm_read reads' \<and> reads_content reads' = rest
    \<and> read_broker_line json (take (Suc MAX_BROKER_LINE_BYTES) seen) (MAX_BROKER_LINE_BYTES < length seen)
        (reads @ tail_reads)
      = Some (Inr (Some (whole_line json (seen @ line @ [NEWLINE]))), reads' @ tail_reads)"
  using assms
proof (induction reads arbitrary: seen line)
  case (Cons r reads)
  show ?case
  proof (cases r)
    case (Inl e)
    with Cons show ?thesis by auto
  next
    case (Inr bs)
    with Cons.prems have bs: "bs \<noteq> []" "bs @ reads_content reads = line @ NEWLINE # rest" by auto
    show ?thesis
    proof (cases "length bs \<le> length line")
      case True
      obtain line' where line: "line = bs @ line'" "reads_content reads = line' @ NEWLINE # rest"
        using bs(2) True by (auto simp: append_eq_append_conv_if append_eq_append_conv2)
          (metis append_Nil2 append_eq_append_conv_if append_take_drop_id same_append_eq)
      have "NEWLINE \<notin> set bs" "NEWLINE \<notin> set line'" using Cons.prems(3) line(1) by auto
      moreover have "last bs \<noteq> NEWLINE" using \<open>NEWLINE \<notin> set bs\<close> bs(1) last_in_set by metis
      ultimately show ?thesis
        using Cons.IH [of line' "seen @ bs"] Cons.prems(1) line Inr bs(1)
        by (auto simp: split_newline_outside broker_take_seen)
    next
      case False
      then obtain rest' where split: "bs = line @ NEWLINE # rest'" "rest = rest' @ reads_content reads"
        using bs(2) by (auto simp: append_eq_append_conv2 append_eq_Cons_conv)
      have "read_broker_line json (take (Suc MAX_BROKER_LINE_BYTES) seen) (MAX_BROKER_LINE_BYTES < length seen)
          ((r # reads) @ tail_reads)
        = Some (Inr (Some (whole_line json (seen @ line @ [NEWLINE]))),
                (if rest' = [] then reads else Inr rest' # reads) @ tail_reads)"
        using Inr split(1) Cons.prems(3)
        by (simp add: split_newline_inside broker_take_seen broker_line_of_whole [symmetric] del: append_assoc)
      then show ?thesis
        using Cons.prems(1) split(2) by (intro exI [of _ "if rest' = [] then reads else Inr rest' # reads"]) auto
    qed
  qed
qed simp

section \<open>Serving line by line\<close>

text \<open>What is answered to a sequence of lines: one response each, until one cannot be answered.\<close>

fun broker_serve_lines ::
  "broker_codec \<Rightarrow> (permission_request \<Rightarrow> bool option) \<Rightarrow> (nat \<Rightarrow> bool) \<Rightarrow> nat \<Rightarrow> bytes list
   \<Rightarrow> (nat \<times> bool) list" where
  "broker_serve_lines json hook writes n [] = []"
| "broker_serve_lines json hook writes n (line # lines) =
     (case broker_answer json hook (whole_line json line) of
        None \<Rightarrow> []
      | Some response \<Rightarrow>
          response # (if writes n then broker_serve_lines json hook writes (Suc n) lines else []))"

lemma read_broker_line_end:
  "list_all calm_read reads \<Longrightarrow> reads_content reads = [] \<Longrightarrow>
     read_broker_line json [] False (reads @ [Inr []]) = Some (Inr None, [])"
proof (induction reads)
  case (Cons r reads)
  then show ?case by (cases r) auto
qed simp

text \<open>
  However the operating system cuts the requests of a connection into blocks, with interrupted
  reads in between, the bridge answers them line by line in order: the responses are those of
  the lines one after another, up to the first line that cannot be answered or response that
  cannot be written, and the bridge ends when the connection does.
\<close>

theorem broker_serves_line_by_line:
  assumes "list_all calm_read reads" and "reads_content reads = concat (map (\<lambda>line. line @ [NEWLINE]) lines)"
    and "\<forall>line \<in> set lines. NEWLINE \<notin> set line"
  shows "serve_broker_connection json hook writes n (reads @ [Inr []])
    = (broker_serve_lines json hook writes n (map (\<lambda>line. line @ [NEWLINE]) lines), True)"
  using assms
proof (induction lines arbitrary: n reads)
  case Nil
  then have "read_broker_line json [] False (reads @ [Inr []]) = Some (Inr None, [])"
    by (intro read_broker_line_end) simp_all
  then show ?case by (subst serve_broker_connection.simps) simp
next
  case (Cons line lines)
  have "reads_content reads = line @ NEWLINE # concat (map (\<lambda>line. line @ [NEWLINE]) lines)"
    using Cons.prems(2) by simp
  moreover have "NEWLINE \<notin> set line" using Cons.prems(3) by simp
  ultimately obtain reads' where reads': "list_all calm_read reads'"
      "reads_content reads' = concat (map (\<lambda>line. line @ [NEWLINE]) lines)"
      "read_broker_line json [] False (reads @ [Inr []])
        = Some (Inr (Some (whole_line json (line @ [NEWLINE]))), reads' @ [Inr []])"
    using read_broker_line_whole [OF Cons.prems(1), of line _ json "[]" "[Inr []]"] by auto
  have "serve_broker_connection json hook writes (Suc n) (reads' @ [Inr []])
      = (broker_serve_lines json hook writes (Suc n) (map (\<lambda>line. line @ [NEWLINE]) lines), True)"
    using Cons.IH reads'(1,2) Cons.prems(3) by simp
  then show ?case
    by (subst serve_broker_connection.simps) (simp add: reads'(3) split: option.split)
qed

lemma broker_take_bound:
  assumes "broker_take prefix oversized taken = (prefix', oversized')"
    and "oversized \<longleftrightarrow> MAX_BROKER_LINE_BYTES < length prefix" and "length prefix \<le> Suc MAX_BROKER_LINE_BYTES"
  shows "(oversized' \<longleftrightarrow> MAX_BROKER_LINE_BYTES < length prefix') \<and> length prefix' \<le> Suc MAX_BROKER_LINE_BYTES"
  using assms by (auto simp: broker_take_def Let_def split: if_splits)

lemma read_broker_line_bound:
  "read_broker_line json prefix oversized reads = Some (Inr (Some (BlRequest line)), reads') \<Longrightarrow>
   (oversized \<longleftrightarrow> MAX_BROKER_LINE_BYTES < length prefix) \<Longrightarrow> length prefix \<le> Suc MAX_BROKER_LINE_BYTES \<Longrightarrow>
   length line \<le> MAX_BROKER_LINE_BYTES"
proof (induction json prefix oversized reads rule: read_broker_line.induct)
  case (3 json prefix oversized available reads)
  obtain taken rest where split: "split_newline available = (taken, rest)" by fastforce
  obtain p o' where take: "broker_take prefix oversized taken = (p, o')" by fastforce
  from broker_take_bound [OF take "3.prems"(2,3)] 3 split take show ?case
    by (auto simp: broker_line_of_def split: if_splits)
qed (auto split: if_splits)

text \<open>
  C27: The bridge fails closed: whatever arrives on the connection, it allows only a request
  of at most 64 KiB that decodes, and only because the hook returned true for exactly its
  capability and value; a hook that panics denies.
\<close>

theorem broker_fails_closed:
  assumes "(response_id, True) \<in> set (fst (serve_broker_connection json hook writes n reads))"
  shows "\<exists>line req. length line \<le> MAX_BROKER_LINE_BYTES \<and> bc_parse json line = Some req
    \<and> bq_id req = response_id \<and> hook \<lparr>pq_name = bq_permission req, pq_value = bq_value req\<rparr> = Some True"
  using assms
proof (induction json hook writes n reads rule: serve_broker_connection.induct)
  case (1 json hook writes n reads)
  then obtain line reads' response where
    read: "read_broker_line json [] False reads = Some (Inr (Some line), reads')"
    and answer: "broker_answer json hook line = Some response"
    by (subst (asm) (2) serve_broker_connection.simps)
       (auto split: option.splits sum.splits prod.splits)
  show ?case
  proof (cases "response = (response_id, True)")
    case True
    then obtain bs req where "line = BlRequest bs" "bc_parse json bs = Some req" "bq_id req = response_id"
        "hook \<lparr>pq_name = bq_permission req, pq_value = bq_value req\<rparr> = Some True"
      using answer by (auto simp: broker_answer_def split: broker_line.splits option.splits)
    moreover have "length bs \<le> MAX_BROKER_LINE_BYTES" if "line = BlRequest bs"
      using read_broker_line_bound [of json "[]" False reads bs reads'] read that by simp
    ultimately show ?thesis by blast
  next
    case False
    then have "(response_id, True) \<in> set (fst (serve_broker_connection json hook writes (Suc n) reads'))"
      and "writes n"
      using "1.prems" read answer
      by (subst (asm) serve_broker_connection.simps, auto split: if_splits prod.splits)+
    then show ?thesis using "1.IH" [OF read refl refl refl answer] by auto
  qed
qed

section \<open>Installation\<close>

text \<open>
  What an installation does, in order. \<open>IaJoin\<close> is the drop of a \<open>BrokerThreadGuard\<close> that was not
  committed: the thread is told that it will not start and is joined.
\<close>

datatype install_action =
    IaLease | IaMkdir string | IaBind | IaConnect | IaAccept | IaSpawn | IaSetBroker | IaStart | IaJoin
  | IaRemoveSocket | IaRemoveDir | IaLeaseDrop

text \<open>
  \<open>ie_connect\<close> is \<open>False\<close> when the upstream constructor cannot connect and exits the process;
  \<open>ie_race\<close> is a broker set directly upstream meanwhile, on which \<open>set_broker\<close> panics.
\<close>

record install_env =
  ie_has_broker :: bool
  ie_lease :: "unit libdeno_result"
  ie_temp_dir :: string
  ie_random :: "string + bytes"
  ie_mkdir :: "unit io_result"
  ie_bind :: "unit io_result"
  ie_connect :: bool
  ie_accept :: "unit io_result"
  ie_spawn :: "unit io_result"
  ie_race :: bool

datatype install_result = IrReturn "unit libdeno_result" | IrExit | IrPanic

definition broker_installed_message :: string where
  "broker_installed_message =
     ''a permission broker is already installed; it can only be installed once per process''"

definition hook_installed_message :: string where
  "hook_installed_message =
     ''a permission broker is already installed; install_permission_broker and install_permission_hook are mutually exclusive and both install-once''"

definition install_permission_broker :: "install_env \<Rightarrow> install_result \<times> install_action list" where
  "install_permission_broker env =
     (if ie_has_broker env then (IrReturn (Inl (ErrPermission broker_installed_message)), [])
      else case ie_lease env of
        Inl e \<Rightarrow> (IrReturn (Inl e), [])
      | Inr _ \<Rightarrow>
          if \<not> ie_connect env then (IrExit, [IaLease])
          else if ie_race env then (IrPanic, [IaLease, IaConnect, IaLeaseDrop])
          else (IrReturn (Inr ()), [IaLease, IaConnect, IaSetBroker, IaLeaseDrop]))"

definition random_suffix :: "string + bytes \<Rightarrow> string libdeno_result" where
  "random_suffix fill = map_err ErrRuntime (bind_res fill (\<lambda>buf. Inr (hex_encode buf)))"

definition hook_cleanup :: "install_action list" where
  "hook_cleanup = [IaRemoveSocket, IaRemoveDir, IaLeaseDrop]"

definition install_hook_in :: "install_env \<Rightarrow> string \<Rightarrow> install_result \<times> install_action list" where
  "install_hook_in env socket_dir =
     (let socket_path = path_join socket_dir ''h.sock''
      in case ie_bind env of
           Inl e \<Rightarrow> (IrReturn (Inl (ErrPermission (''failed to bind hook socket '' @ socket_path @ '': ''
                       @ io_message e))), hook_cleanup)
         | Inr _ \<Rightarrow>
             if \<not> ie_connect env then (IrExit, [IaBind])
             else (case (ie_accept env, ie_spawn env) of
                     (Inl e, _) \<Rightarrow>
                       (IrReturn (Inl (ErrPermission (''failed to accept hook broker connection: ''
                          @ io_message e))), [IaBind, IaConnect] @ hook_cleanup)
                   | (Inr _, Inl e) \<Rightarrow>
                       (IrReturn (Inl (ErrIo e)), [IaBind, IaConnect, IaAccept] @ hook_cleanup)
                   | (Inr _, Inr _) \<Rightarrow>
                       if ie_race env
                       then (IrPanic, [IaBind, IaConnect, IaAccept, IaSpawn, IaJoin] @ hook_cleanup)
                       else (IrReturn (Inr ()),
                             [IaBind, IaConnect, IaAccept, IaSpawn, IaSetBroker, IaStart] @ hook_cleanup)))"

definition install_permission_hook :: "install_env \<Rightarrow> install_result \<times> install_action list" where
  "install_permission_hook env =
     (if ie_has_broker env then (IrReturn (Inl (ErrPermission hook_installed_message)), [])
      else case ie_lease env of
        Inl e \<Rightarrow> (IrReturn (Inl e), [])
      | Inr _ \<Rightarrow>
          (case random_suffix (ie_random env) of
             Inl e \<Rightarrow> (IrReturn (Inl e), [IaLease, IaLeaseDrop])
           | Inr suffix \<Rightarrow>
               let socket_dir = path_join (ie_temp_dir env) (''libdeno-hook-'' @ suffix)
               in (case ie_mkdir env of
                     Inl e \<Rightarrow> (IrReturn (Inl (ErrPermission (''failed to create hook socket dir ''
                                 @ socket_dir @ '': '' @ io_message e))), [IaLease, IaLeaseDrop])
                   | Inr _ \<Rightarrow>
                       (case install_hook_in env socket_dir of
                          (result, actions) \<Rightarrow> (result, [IaLease, IaMkdir socket_dir] @ actions)))))"

text \<open>
  Installing a hook is all or nothing: the broker is set exactly when the call succeeds, and
  then the serving thread is started after it; an installed broker is never replaced; and
  unless the process exits, the socket directory and the lease are given back and a thread
  that was spawned is started or joined.
\<close>

theorem hook_install_all_or_nothing:
  assumes "install_permission_hook env = (result, actions)"
  shows "(IaSetBroker \<in> set actions \<longleftrightarrow> result = IrReturn (Inr ()))
    \<and> (IaStart \<in> set actions \<longleftrightarrow> result = IrReturn (Inr ()))
    \<and> (ie_has_broker env \<longrightarrow> actions = [])
    \<and> (actions \<noteq> [] \<longrightarrow> hd actions = IaLease \<and> (result \<noteq> IrExit \<longrightarrow> last actions = IaLeaseDrop))
    \<and> (result \<noteq> IrExit \<and> (\<exists>dir. IaMkdir dir \<in> set actions) \<longrightarrow>
         (\<exists>done_before. actions = done_before @ hook_cleanup))
    \<and> (IaSpawn \<in> set actions \<longrightarrow> IaStart \<in> set actions \<or> IaJoin \<in> set actions)"
proof (cases "ie_has_broker env \<or> (\<exists>e. ie_lease env = Inl e) \<or> (\<exists>e. random_suffix (ie_random env) = Inl e)
    \<or> (\<exists>e. ie_mkdir env = Inl e)")
  case True
  with assms show ?thesis
    by (auto simp: install_permission_hook_def Let_def split: if_splits sum.splits prod.splits)
next
  case False
  then obtain suffix where "random_suffix (ie_random env) = Inr suffix" "\<not> ie_has_broker env"
      "ie_lease env = Inr ()" "ie_mkdir env = Inr ()"
    by (cases "random_suffix (ie_random env)"; cases "ie_lease env"; cases "ie_mkdir env") auto
  then obtain inner where "install_hook_in env (path_join (ie_temp_dir env) (''libdeno-hook-'' @ suffix)) = (result, inner)"
      "actions = [IaLease, IaMkdir (path_join (ie_temp_dir env) (''libdeno-hook-'' @ suffix))] @ inner"
    using assms by (auto simp: install_permission_hook_def Let_def split: prod.splits)
  then show ?thesis
    using \<open>\<not> ie_has_broker env\<close>
    by (auto simp: install_hook_in_def hook_cleanup_def Let_def split: sum.splits if_splits)
qed

section \<open>A concrete connection\<close>

definition sample_request_json :: broker_request where
  "sample_request_json = \<lparr>bq_v = 1, bq_pid = 2, bq_id = 7, bq_datetime = [], bq_permission = ''read'',
     bq_value = Some ''/etc''\<rparr>"

text \<open>A codec that knows one request, \<open>[65, 10]\<close>, and recovers an id only from lines that start with 66.\<close>

definition sample_json :: broker_codec where
  "sample_json =
     \<lparr>bc_parse = (\<lambda>bs. if bs = [65, NEWLINE] then Some sample_request_json else None),
      bc_scan = (\<lambda>bs. if take 1 bs = [66] then \<lparr>js_entries = [(''v'', None), (''id'', Some 8)], js_end = JeClosed\<rparr>
                     else \<lparr>js_entries = [], js_end = JeBad\<rparr>)\<rparr>"

definition sample_hook :: "permission_request \<Rightarrow> bool option" where
  "sample_hook request = Some (pq_name request = ''read'')"

theorem broker_serves_line_by_line_witness:
  "serve_broker_connection sample_json sample_hook (\<lambda>_. True) 0
     ([Inr [65], Inl (IoError EkInterrupted []), Inr [NEWLINE, 66], Inr [NEWLINE, 67, NEWLINE]] @ [Inr []])
   = ([(7, True), (8, False)], True)"
proof -
  have "broker_serve_lines sample_json sample_hook (\<lambda>_. True) 0
      (map (\<lambda>line. line @ [NEWLINE]) [[65], [66], [67]]) = [(7, True), (8, False)]"
    by (simp add: whole_line_def MAX_BROKER_LINE_BYTES_def broker_answer_def sample_json_def NEWLINE_def
        sample_request_json_def sample_hook_def broker_request_id_def)
  then show ?thesis
    using broker_serves_line_by_line [of "[Inr [65], Inl (IoError EkInterrupted []), Inr [NEWLINE, 66],
        Inr [NEWLINE, 67, NEWLINE]]" "[[65], [66], [67]]" sample_json sample_hook "\<lambda>_. True" 0]
    by (simp add: NEWLINE_def)
qed

theorem broker_fails_closed_witness:
  "\<exists>req :: broker_request. bq_id req = 7 \<and> sample_hook \<lparr>pq_name = bq_permission req, pq_value = bq_value req\<rparr> = Some True"
proof -
  have "read_broker_line sample_json [] False [Inr [65, NEWLINE], Inr []]
      = Some (Inr (Some (BlRequest [65, NEWLINE])), [Inr []])"
    by (simp add: split_newline_def Let_def NEWLINE_def broker_take_def MAX_BROKER_LINE_BYTES_def
        broker_line_of_def)
  moreover have "broker_answer sample_json sample_hook (BlRequest [65, NEWLINE]) = Some (7, True)"
    by (simp add: broker_answer_def sample_json_def sample_request_json_def sample_hook_def)
  ultimately have "(7, True) \<in> set (fst (serve_broker_connection sample_json sample_hook (\<lambda>_. True) 0
      [Inr [65, NEWLINE], Inr []]))"
    by (subst serve_broker_connection.simps) (simp split: prod.split)
  from broker_fails_closed [OF this] show ?thesis by blast
qed

definition sample_install :: install_env where
  "sample_install =
     \<lparr>ie_has_broker = False, ie_lease = Inr (), ie_temp_dir = ''/tmp'', ie_random = Inr [1], ie_mkdir = Inr (),
      ie_bind = Inr (), ie_connect = True, ie_accept = Inr (), ie_spawn = Inr (), ie_race = False\<rparr>"

theorem hook_install_all_or_nothing_witness:
  "IaSetBroker \<in> set (snd (install_permission_hook sample_install))"
proof -
  obtain actions where run: "install_permission_hook sample_install = (IrReturn (Inr ()), actions)"
    by (simp add: install_permission_hook_def sample_install_def random_suffix_def install_hook_in_def Let_def)
  from hook_install_all_or_nothing [OF this] show ?thesis unfolding run by simp
qed

end
