(* ===== verification/Ld_Caches.thy ===== *)
theory Ld_Caches
  imports Ld_NodeIpc
begin

text \<open>
  The process-wide caches: the module and CommonJS analysis caches of src/src/analysis_cache.rs,
  which reset when they are full, and the first-in first-out cache of npm resolution snapshots of
  src/src/npm_cache.rs. What they hold is opaque. The locale states the contract of a bounded
  cache, and each cache interprets it.
\<close>

section \<open>Bounded caches\<close>

locale bounded_cache =
  fixes lookup :: "'s \<Rightarrow> 'k \<Rightarrow> 'v option"
    and store :: "'k \<Rightarrow> 'v \<Rightarrow> 's \<Rightarrow> 's"
    and entries :: "'s \<Rightarrow> nat"
    and capacity :: nat
    and ok :: "'s \<Rightarrow> bool"
  assumes store_ok: "ok s \<Longrightarrow> ok (store k v s)"
    and store_bound: "ok s \<Longrightarrow> entries (store k v s) \<le> capacity"
    and lookup_store: "ok s \<Longrightarrow> lookup (store k v s) k = Some v"
    and lookup_other: "ok s \<Longrightarrow> k' \<noteq> k \<Longrightarrow> lookup (store k v s) k' = Some w \<Longrightarrow> lookup s k' = Some w"
begin

definition stored :: "('k \<times> 'v) list \<Rightarrow> 's \<Rightarrow> 's" where
  "stored history s = fold (\<lambda>(k, v). store k v) history s"

lemma stored_Nil [simp]: "stored [] s = s"
  by (simp add: stored_def)

lemma stored_snoc [simp]: "stored (history @ [(k, v)]) s = store k v (stored history s)"
  by (simp add: stored_def)

lemma stored_ok: "ok s \<Longrightarrow> ok (stored history s)"
  by (induction history rule: rev_induct) (auto simp: store_ok)

text \<open>Whatever was evicted, a cache never answers with anything but the last value stored for the key.\<close>

lemma never_stale:
  assumes "ok s" and "\<And>k. lookup s k = None"
  shows "lookup (stored history s) k = Some v \<Longrightarrow> map_of (rev history) k = Some v"
proof (induction history rule: rev_induct)
  case Nil
  then show ?case using assms(2) by simp
next
  case (snoc p history)
  obtain k' v' where p: "p = (k', v')" by fastforce
  have "ok (stored history s)" by (rule stored_ok [OF assms(1)])
  then show ?case
    using snoc p lookup_store lookup_other by (cases "k = k'") auto
qed

lemma bounded: "ok s \<Longrightarrow> entries s \<le> capacity \<Longrightarrow> entries (stored history s) \<le> capacity"
  by (induction history rule: rev_induct) (auto simp: stored_ok store_bound)

lemma last_stored_found: "ok s \<Longrightarrow> lookup (stored (history @ [(k, v)]) s) k = Some v"
  by (simp add: stored_ok lookup_store)

end

section \<open>Analysis caches\<close>

text \<open>\<open>str::parse::<usize>\<close>: an optional plus sign, at least one digit, no overflow.\<close>

definition parse_usize :: "string \<Rightarrow> nat option" where
  "parse_usize s =
     (let digits = (case s of c # cs \<Rightarrow> if c = CHR ''+'' then cs else s | [] \<Rightarrow> [])
      in if digits = [] then None
         else case parse_digits 0 digits of
                None \<Rightarrow> None
              | Some n \<Rightarrow> if n < 2 ^ 64 then Some n else None)"

definition DEFAULT_CACHE_ENTRIES :: nat where
  "DEFAULT_CACHE_ENTRIES = 8192"

definition cache_capacity :: "string option \<Rightarrow> nat" where
  "cache_capacity var =
     (case var of
        None \<Rightarrow> DEFAULT_CACHE_ENTRIES
      | Some v \<Rightarrow> (case parse_usize v of
                    Some n \<Rightarrow> if 0 < n then n else DEFAULT_CACHE_ENTRIES
                  | None \<Rightarrow> DEFAULT_CACHE_ENTRIES))"

lemma cache_capacity_pos: "0 < cache_capacity var"
  by (simp add: cache_capacity_def DEFAULT_CACHE_ENTRIES_def split: option.split)

text \<open>\<open>if entries.len() >= cache_capacity() { entries.clear() }\<close> and \<open>insert\<close>.\<close>

definition clearing_insert :: "nat \<Rightarrow> 'k \<Rightarrow> 'v \<Rightarrow> ('k \<times> 'v) list \<Rightarrow> ('k \<times> 'v) list" where
  "clearing_insert capacity k v m = AList.update k v (if capacity \<le> length m then [] else m)"

lemma clearing_insert_length:
  "0 < capacity \<Longrightarrow> keys_distinct m \<Longrightarrow> length (clearing_insert capacity k v m) \<le> capacity"
  by (auto simp: clearing_insert_def length_alist_update)

interpretation clearing: bounded_cache map_of "clearing_insert (cache_capacity var)" length
    "cache_capacity var" keys_distinct
  for var
proof
  fix s :: "('k \<times> 'v) list" and k v
  assume ok: "keys_distinct s"
  then show "keys_distinct (clearing_insert (cache_capacity var) k v s)"
    by (simp add: clearing_insert_def)
  show "length (clearing_insert (cache_capacity var) k v s) \<le> cache_capacity var"
    by (rule clearing_insert_length [OF cache_capacity_pos ok])
  show "map_of (clearing_insert (cache_capacity var) k v s) k = Some v"
    by (simp add: clearing_insert_def map_of_alist_update)
  fix k' w
  assume "k' \<noteq> k" "map_of (clearing_insert (cache_capacity var) k v s) k' = Some w"
  then show "map_of s k' = Some w"
    by (auto simp: clearing_insert_def map_of_alist_update split: if_splits)
qed

text \<open>
  The module cache: a specifier's hash and information. \<open>hash\<close> is \<open>module_info_hash\<close> of the media
  type and the source.
\<close>

type_synonym ('s, 'i) module_cache = "('s \<times> (64 word \<times> 'i)) list"

definition analyze_lookup :: "'s \<Rightarrow> 64 word \<Rightarrow> ('s, 'i) module_cache \<Rightarrow> 'i option" where
  "analyze_lookup specifier hash m =
     (case map_of m specifier of
        Some (cached_hash, info) \<Rightarrow> if cached_hash = hash then Some info else None
      | None \<Rightarrow> None)"

definition cache_module_info ::
  "nat \<Rightarrow> 's \<Rightarrow> 64 word \<Rightarrow> 'i \<Rightarrow> ('s, 'i) module_cache \<Rightarrow> ('s, 'i) module_cache" where
  "cache_module_info capacity specifier hash info m = clearing_insert capacity specifier (hash, info) m"

text \<open>
  Concurrent \<open>analyze\<close> calls. The lock is held for the lookup and for the store, not in between:
  \<open>ms_running\<close> are the calls that missed and are being analysed, \<open>ms_returned\<close> what was returned.
  \<open>sources\<close> are the sources that are ever analysed, \<open>valid\<close> is what their analysis computes.
\<close>

record ('s, 'm, 'i) module_sys =
  ms_entries :: "('s, 'i) module_cache"
  ms_running :: "(nat \<times> ('s \<times> 'm \<times> bytes)) list"
  ms_returned :: "(('s \<times> 'm \<times> bytes) \<times> 'i) list"

inductive module_step ::
  "nat \<Rightarrow> ('m \<Rightarrow> bytes \<Rightarrow> 64 word) \<Rightarrow> ('s \<Rightarrow> 'm \<Rightarrow> bytes \<Rightarrow> 'i \<Rightarrow> bool)
   \<Rightarrow> ('m \<times> bytes) set \<Rightarrow> ('s, 'm, 'i) module_sys \<Rightarrow> ('s, 'm, 'i) module_sys \<Rightarrow> bool"
  for capacity hash valid sources where
  hit: "(m, src) \<in> sources \<Longrightarrow> analyze_lookup s (hash m src) (ms_entries c) = Some info \<Longrightarrow>
     module_step capacity hash valid sources c (c\<lparr>ms_returned := ((s, m, src), info) # ms_returned c\<rparr>)"
| miss: "(m, src) \<in> sources \<Longrightarrow> analyze_lookup s (hash m src) (ms_entries c) = None \<Longrightarrow>
     module_step capacity hash valid sources c (c\<lparr>ms_running := (t, (s, m, src)) # ms_running c\<rparr>)"
| finish: "(t, (s, m, src)) \<in> set (ms_running c) \<Longrightarrow> valid s m src info \<Longrightarrow>
     module_step capacity hash valid sources c
       (c\<lparr>ms_running := remove1 (t, (s, m, src)) (ms_running c),
          ms_entries := cache_module_info capacity s (hash m src) info (ms_entries c),
          ms_returned := ((s, m, src), info) # ms_returned c\<rparr>)"
| fail: "(t, call) \<in> set (ms_running c) \<Longrightarrow>
     module_step capacity hash valid sources c (c\<lparr>ms_running := remove1 (t, call) (ms_running c)\<rparr>)"
| refresh: "(m, src) \<in> sources \<Longrightarrow> valid s m src info \<Longrightarrow>
     module_step capacity hash valid sources c
       (c\<lparr>ms_entries := cache_module_info capacity s (hash m src) info (ms_entries c)\<rparr>)"

definition module_init :: "('s, 'm, 'i) module_sys \<Rightarrow> bool" where
  "module_init c \<longleftrightarrow> c = \<lparr>ms_entries = [], ms_running = [], ms_returned = []\<rparr>"

definition entries_inv ::
  "nat \<Rightarrow> ('m \<Rightarrow> bytes \<Rightarrow> 64 word) \<Rightarrow> ('s \<Rightarrow> 'm \<Rightarrow> bytes \<Rightarrow> 'i \<Rightarrow> bool) \<Rightarrow> ('m \<times> bytes) set
   \<Rightarrow> ('s, 'i) module_cache \<Rightarrow> bool" where
  "entries_inv capacity hash valid sources es \<longleftrightarrow>
     keys_distinct es \<and> length es \<le> capacity
   \<and> (\<forall>(s, h, info) \<in> set es. \<exists>m src. (m, src) \<in> sources \<and> h = hash m src \<and> valid s m src info)"

definition call_inv ::
  "('m \<Rightarrow> bytes \<Rightarrow> 64 word) \<Rightarrow> ('s \<Rightarrow> 'm \<Rightarrow> bytes \<Rightarrow> 'i \<Rightarrow> bool) \<Rightarrow> ('m \<times> bytes) set
   \<Rightarrow> ('s \<times> 'm \<times> bytes) \<times> 'i \<Rightarrow> bool" where
  "call_inv hash valid sources = (\<lambda>((s, m, src), info). (m, src) \<in> sources
     \<and> (\<exists>m' src'. (m', src') \<in> sources \<and> hash m' src' = hash m src \<and> valid s m' src' info))"

definition module_inv ::
  "nat \<Rightarrow> ('m \<Rightarrow> bytes \<Rightarrow> 64 word) \<Rightarrow> ('s \<Rightarrow> 'm \<Rightarrow> bytes \<Rightarrow> 'i \<Rightarrow> bool) \<Rightarrow> ('m \<times> bytes) set
   \<Rightarrow> ('s, 'm, 'i) module_sys \<Rightarrow> bool" where
  "module_inv capacity hash valid sources c \<longleftrightarrow>
     entries_inv capacity hash valid sources (ms_entries c)
   \<and> (\<forall>(t, s, call) \<in> set (ms_running c). call \<in> sources)
   \<and> (\<forall>p \<in> set (ms_returned c). call_inv hash valid sources p)"

lemma entries_inv_cache:
  assumes "0 < capacity" and "entries_inv capacity hash valid sources es" and "valid s m src info"
    and "(m, src) \<in> sources"
  shows "entries_inv capacity hash valid sources (cache_module_info capacity s (hash m src) info es)"
proof -
  have "keys_distinct es" using assms(2) by (simp add: entries_inv_def)
  then have "length (cache_module_info capacity s (hash m src) info es) \<le> capacity"
    using clearing_insert_length [OF assms(1)] by (simp add: cache_module_info_def)
  moreover have "set (cache_module_info capacity s (hash m src) info es)
      \<subseteq> set es \<union> {(s, hash m src, info)}"
    using \<open>keys_distinct es\<close> by (auto simp: cache_module_info_def clearing_insert_def set_alist_update)
  moreover have "keys_distinct (cache_module_info capacity s (hash m src) info es)"
    using \<open>keys_distinct es\<close> by (simp add: cache_module_info_def clearing_insert_def)
  ultimately show ?thesis
    using assms(2-4) unfolding entries_inv_def by blast
qed

lemma analyze_lookup_valid:
  assumes "entries_inv capacity hash valid sources es" and "analyze_lookup s (hash m src) es = Some info"
    and "(m, src) \<in> sources"
  shows "call_inv hash valid sources ((s, m, src), info)"
proof -
  have "(s, hash m src, info) \<in> set es"
    using assms(2) by (auto simp: analyze_lookup_def dest!: map_of_SomeD split: option.splits if_splits)
  then show ?thesis using assms(1,3) by (fastforce simp: entries_inv_def call_inv_def)
qed

lemma module_inv_step:
  assumes "0 < capacity" and "module_inv capacity hash valid sources c"
    and "module_step capacity hash valid sources c d"
  shows "module_inv capacity hash valid sources d"
  using assms(3)
proof cases
  case (hit m src s info)
  then show ?thesis
    using assms(2) analyze_lookup_valid [of capacity hash valid sources "ms_entries c" s m src info]
    by (auto simp: module_inv_def)
next
  case (finish t s m src info)
  then have "(m, src) \<in> sources" using assms(2) by (auto simp: module_inv_def)
  moreover from this have "call_inv hash valid sources ((s, m, src), info)"
    using finish by (auto simp: call_inv_def)
  moreover have "entries_inv capacity hash valid sources (ms_entries d)"
  proof -
    have "entries_inv capacity hash valid sources (ms_entries c)" using assms(2) by (simp add: module_inv_def)
    from entries_inv_cache [OF assms(1) this finish(3) calculation(1)] show ?thesis using finish(1) by simp
  qed
  moreover have "set (ms_running d) \<subseteq> set (ms_running c)" using finish by (simp add: set_remove1_subset)
  moreover have "ms_returned d = ((s, m, src), info) # ms_returned c" using finish by simp
  ultimately show ?thesis using assms(2) unfolding module_inv_def by auto
next
  case (fail t call)
  then have "set (ms_running d) \<subseteq> set (ms_running c)" "ms_entries d = ms_entries c"
    "ms_returned d = ms_returned c" by (simp_all add: set_remove1_subset)
  then show ?thesis using assms(2) unfolding module_inv_def by auto
next
  case (refresh m src s info)
  have "entries_inv capacity hash valid sources (ms_entries c)" using assms(2) by (simp add: module_inv_def)
  from entries_inv_cache [OF assms(1) this refresh(3,2)] show ?thesis
    using refresh(1) assms(2) by (simp add: module_inv_def)
qed (use assms(2) in \<open>auto simp: module_inv_def\<close>)

interpretation module_cache: invariant_system module_init
    "module_step (cache_capacity var) hash valid sources" "module_inv (cache_capacity var) hash valid sources"
  for var and hash :: "'m \<Rightarrow> bytes \<Rightarrow> 64 word" and valid :: "'s \<Rightarrow> 'm \<Rightarrow> bytes \<Rightarrow> 'i \<Rightarrow> bool" and sources
proof
  fix c :: "('s, 'm, 'i) module_sys" assume "module_init c"
  then show "module_inv (cache_capacity var) hash valid sources c"
    by (simp add: module_init_def module_inv_def entries_inv_def)
next
  fix c d :: "('s, 'm, 'i) module_sys"
  assume "module_inv (cache_capacity var) hash valid sources c"
    "module_step (cache_capacity var) hash valid sources c d"
  then show "module_inv (cache_capacity var) hash valid sources d"
    by (rule module_inv_step [OF cache_capacity_pos])
qed

text \<open>
  C35: Under any interleaving of concurrent analyses the module cache is transparent: what a
  call returns is information computed for exactly its specifier, media type and source, as
  long as the hashes of the analysed sources differ; and the cache stays within its capacity.
\<close>

theorem module_cache_transparent:
  assumes "reach module_init (module_step (cache_capacity var) hash valid sources) c"
    and "inj_on (\<lambda>(m, src). hash m src) sources"
  shows "(\<forall>((s, m, src), info) \<in> set (ms_returned c). valid s m src info)
    \<and> length (ms_entries c) \<le> cache_capacity var"
proof -
  have inv: "module_inv (cache_capacity var) hash valid sources c" by (rule module_cache.reach_inv [OF assms(1)])
  have "valid s m src info" if "((s, m, src), info) \<in> set (ms_returned c)" for s m src info
  proof -
    have "call_inv hash valid sources ((s, m, src), info)" using inv that by (simp add: module_inv_def)
    then obtain m' src' where "(m, src) \<in> sources" "(m', src') \<in> sources" "hash m' src' = hash m src"
        "valid s m' src' info" by (auto simp: call_inv_def)
    with inj_onD [OF assms(2), of "(m', src')" "(m, src)"] show ?thesis by simp
  qed
  then show ?thesis using inv by (auto simp: module_inv_def entries_inv_def)
qed

section \<open>The CommonJS analysis cache\<close>

datatype 'a cjs_analysis = CjsEsm | CjsModule 'a

definition set_cjs_analysis ::
  "nat \<Rightarrow> 's \<Rightarrow> 64 word \<Rightarrow> 'a cjs_analysis \<Rightarrow> (('s \<times> 64 word) \<times> 'a cjs_analysis) list
   \<Rightarrow> (('s \<times> 64 word) \<times> 'a cjs_analysis) list" where
  "set_cjs_analysis capacity specifier hash analysis m =
     (case analysis of
        CjsEsm \<Rightarrow> m
      | CjsModule _ \<Rightarrow> clearing_insert capacity (specifier, hash) analysis m)"

definition get_cjs_analysis ::
  "'s \<Rightarrow> 64 word \<Rightarrow> (('s \<times> 64 word) \<times> 'a cjs_analysis) list \<Rightarrow> 'a cjs_analysis option" where
  "get_cjs_analysis specifier hash m = map_of m (specifier, hash)"

definition cjs_stored ::
  "nat \<Rightarrow> (('s \<times> 64 word) \<times> 'a cjs_analysis) list \<Rightarrow> (('s \<times> 64 word) \<times> 'a cjs_analysis) list" where
  "cjs_stored capacity history =
     fold (\<lambda>((specifier, hash), analysis). set_cjs_analysis capacity specifier hash analysis) history []"

lemma cjs_stored_clearing:
  "cjs_stored (cache_capacity var) history = clearing.stored var (filter (\<lambda>p. snd p \<noteq> CjsEsm) history) []"
proof (induction history rule: rev_induct)
  case (snoc p history)
  obtain s h a where "p = ((s, h), a)" by (metis surj_pair)
  with snoc show ?case
    by (cases a) (simp_all add: cjs_stored_def set_cjs_analysis_def clearing.stored_def)
qed (simp add: cjs_stored_def clearing.stored_def)

text \<open>
  The CommonJS cache answers only with the last analysis stored for the same specifier and
  source, never with the analysis of a mode that lacks exports, and keeps at most its
  capacity.
\<close>

theorem cjs_cache_never_poisoned:
  assumes "get_cjs_analysis specifier hash (cjs_stored (cache_capacity var) history) = Some analysis"
  shows "analysis \<noteq> CjsEsm
    \<and> map_of (rev (filter (\<lambda>p. snd p \<noteq> CjsEsm) history)) (specifier, hash) = Some analysis
    \<and> length (cjs_stored (cache_capacity var) history) \<le> cache_capacity var"
proof -
  have last: "map_of (rev (filter (\<lambda>p. snd p \<noteq> CjsEsm) history)) (specifier, hash) = Some analysis"
    using assms unfolding get_cjs_analysis_def cjs_stored_clearing
    by (rule clearing.never_stale [rotated 2]) simp_all
  then have "((specifier, hash), analysis) \<in> set (filter (\<lambda>p. snd p \<noteq> CjsEsm) history)"
    using map_of_SomeD by fastforce
  moreover have "length (cjs_stored (cache_capacity var) history) \<le> cache_capacity var"
    unfolding cjs_stored_clearing by (rule clearing.bounded) simp_all
  ultimately show ?thesis using last by auto
qed

section \<open>The cache of npm resolution snapshots\<close>

definition MAX_ENTRIES :: nat where
  "MAX_ENTRIES = 8"

definition snapshot_get :: "('k \<times> 'v) list \<Rightarrow> 'k \<Rightarrow> 'v option" where
  "snapshot_get entries key = map_option snd (find (\<lambda>(candidate, _). candidate = key) entries)"

text \<open>\<open>iter_mut().find\<close> and the assignment to the entry that was found.\<close>

fun replace_first :: "'k \<Rightarrow> 'v \<Rightarrow> ('k \<times> 'v) list \<Rightarrow> ('k \<times> 'v) list option" where
  "replace_first key snapshot [] = None"
| "replace_first key snapshot ((candidate, v) # entries) =
     (if candidate = key then Some ((candidate, snapshot) # entries)
      else map_option ((#) (candidate, v)) (replace_first key snapshot entries))"

definition snapshot_insert :: "'k \<Rightarrow> 'v \<Rightarrow> ('k \<times> 'v) list \<Rightarrow> ('k \<times> 'v) list" where
  "snapshot_insert key snapshot entries =
     (case replace_first key snapshot entries of
        Some entries \<Rightarrow> entries
      | None \<Rightarrow>
          let entries = entries @ [(key, snapshot)]
          in if MAX_ENTRIES < length entries then tl entries else entries)"

definition snapshot_ok :: "('k \<times> 'v) list \<Rightarrow> bool" where
  "snapshot_ok entries \<longleftrightarrow> keys_distinct entries \<and> length entries \<le> MAX_ENTRIES"

lemma snapshot_get_map_of: "snapshot_get entries key = map_of entries key"
  by (induction entries) (auto simp: snapshot_get_def)

lemma replace_first_update:
  "replace_first key snapshot entries
     = (if key \<in> fst ` set entries then Some (AList.update key snapshot entries) else None)"
proof (induction entries)
  case (Cons p entries)
  then show ?case by (cases p) (simp add: image_iff)
qed simp

lemma snapshot_insert_alt:
  "snapshot_insert key snapshot entries =
     (if key \<in> fst ` set entries then AList.update key snapshot entries
      else if MAX_ENTRIES \<le> length entries then tl (entries @ [(key, snapshot)])
      else entries @ [(key, snapshot)])"
  by (simp add: snapshot_insert_def replace_first_update Let_def less_Suc_eq_le)

lemma map_of_tl: "keys_distinct m \<Longrightarrow> map_of (tl m) k = Some v \<Longrightarrow> map_of m k = Some v"
proof (cases m)
  case (Cons p m')
  assume "keys_distinct m" "map_of (tl m) k = Some v"
  then have "fst p \<notin> fst ` set m'" "map_of m' k = Some v" using Cons by (simp_all add: keys_distinct_def)
  moreover from this(2) have "k \<in> fst ` set m'" by (metis domI dom_map_of_conv_image_fst)
  ultimately have "fst p \<noteq> k" by metis
  then show ?thesis using Cons \<open>map_of m' k = Some v\<close> by simp
qed simp

interpretation snapshots: bounded_cache snapshot_get snapshot_insert length MAX_ENTRIES snapshot_ok
proof
  fix s :: "('k \<times> 'v) list" and k v
  assume ok: "snapshot_ok s"
  have fresh: "keys_distinct (s @ [(k, v)])" if "k \<notin> fst ` set s"
    using that ok by (auto simp: snapshot_ok_def keys_distinct_def)
  have short: "0 < MAX_ENTRIES" by (simp add: MAX_ENTRIES_def)
  have tail: "keys_distinct m \<Longrightarrow> keys_distinct (tl m)" for m :: "('k \<times> 'v) list"
    by (cases m) (simp_all add: keys_distinct_def)
  show "snapshot_ok (snapshot_insert k v s)"
    using ok fresh tail [OF fresh] short
    by (auto simp: snapshot_insert_alt snapshot_ok_def length_alist_update)
  then show "length (snapshot_insert k v s) \<le> MAX_ENTRIES" by (simp add: snapshot_ok_def)
  show "snapshot_get (snapshot_insert k v s) k = Some v"
  proof (cases "k \<in> fst ` set s")
    case True
    then show ?thesis by (simp add: snapshot_get_map_of snapshot_insert_alt map_of_alist_update)
  next
    case False
    then have none: "map_of s k = None" by (simp add: map_of_eq_None_iff)
    show ?thesis
    proof (cases s)
      case Nil
      then show ?thesis using short by (simp add: snapshot_get_map_of snapshot_insert_alt)
    next
      case (Cons p s')
      then have "map_of s' k = None" using none by (auto split: if_splits)
      then show ?thesis
        using False none Cons by (simp add: snapshot_get_map_of snapshot_insert_alt map_add_Some_iff)
    qed
  qed
  fix k' w
  assume other: "k' \<noteq> k" and found: "snapshot_get (snapshot_insert k v s) k' = Some w"
  have "map_of (s @ [(k, v)]) k' = Some w \<Longrightarrow> map_of s k' = Some w"
    using other by (auto simp: map_add_Some_iff split: if_splits)
  moreover have "k' \<noteq> k \<and> map_of (snapshot_insert k v s) k' = Some w" using other found by (simp add: snapshot_get_map_of)
  ultimately have "map_of s k' = Some w"
  proof (cases "k \<in> fst ` set s")
    case True
    then show ?thesis using \<open>k' \<noteq> k \<and> _\<close> by (auto simp: snapshot_insert_alt map_of_alist_update)
  next
    case False
    then have "map_of (tl (s @ [(k, v)])) k' = Some w \<or> map_of (s @ [(k, v)]) k' = Some w"
      using \<open>k' \<noteq> k \<and> _\<close> by (simp add: snapshot_insert_alt split: if_splits)
    then have "map_of (s @ [(k, v)]) k' = Some w" using map_of_tl [OF fresh [OF False]] by blast
    then show ?thesis using other by (auto simp: map_add_Some_iff split: if_splits)
  qed
  then show "snapshot_get s k' = Some w" by (simp add: snapshot_get_map_of)
qed

text \<open>
  The snapshot cache holds at most eight entries, always finds the snapshot stored last, and
  never answers with anything but the last snapshot stored for exactly that key.
\<close>

theorem snapshot_cache_contract:
  "length (snapshots.stored (history @ [(key, snapshot)]) []) \<le> MAX_ENTRIES
   \<and> snapshot_get (snapshots.stored (history @ [(key, snapshot)]) []) key = Some snapshot
   \<and> (case snapshot_get (snapshots.stored history []) other of
        None \<Rightarrow> True
      | Some found \<Rightarrow> map_of (rev history) other = Some found)"
proof -
  have ok: "snapshot_ok []" by (simp add: snapshot_ok_def)
  have "map_of (rev history) other = Some found" if "snapshot_get (snapshots.stored history []) other = Some found" for found
    using ok _ that by (rule snapshots.never_stale) (simp add: snapshot_get_map_of)
  then show ?thesis
    using snapshots.last_stored_found [OF ok, of history key snapshot]
      snapshots.bounded [OF ok, of "history @ [(key, snapshot)]"]
    by (auto split: option.split)
qed

section \<open>Concrete caches\<close>

definition sample_modules :: "(string, bool, nat) module_sys" where
  "sample_modules = \<lparr>ms_entries = [(''m'', (2, 9))], ms_running = [],
     ms_returned = [((''m'', True, [1, 2]), 9), ((''m'', True, [1, 2]), 9)]\<rparr>"

lemma sample_modules_reach:
  "reach module_init (module_step (cache_capacity None) (\<lambda>m src. word_of_nat (length src))
     (\<lambda>s m src info. info = (9 :: nat)) {(True, [1, 2])}) sample_modules"
proof -
  let ?step = "module_step (cache_capacity None) (\<lambda>m src. word_of_nat (length src))
     (\<lambda>s m src info. info = (9 :: nat)) {(True, [1, 2])}"
  let ?s0 = "\<lparr>ms_entries = [], ms_running = [], ms_returned = []\<rparr> :: (string, bool, nat) module_sys"
  let ?s1 = "?s0\<lparr>ms_running := [(0, (''m'', True, [1, 2]))]\<rparr>"
  let ?s2 = "\<lparr>ms_entries = [(''m'', (2, 9))], ms_running = [], ms_returned = [((''m'', True, [1, 2]), 9)]\<rparr>
     :: (string, bool, nat) module_sys"
  have "?step ?s0 ?s1"
    using module_step.miss [of True "[1, 2]" "{(True, [1, 2])}" "''m''" "\<lambda>m src. word_of_nat (length src)" ?s0
        "cache_capacity None" "\<lambda>s m src info. info = (9 :: nat)" 0] by (simp add: analyze_lookup_def)
  moreover have "?step ?s1 ?s2"
    using module_step.finish [of 0 "''m''" True "[1, 2]" ?s1 "\<lambda>s m src info. info = (9 :: nat)" 9
        "cache_capacity None" "\<lambda>m src. word_of_nat (length src)" "{(True, [1, 2])}"]
    by (simp add: cache_module_info_def clearing_insert_def cache_capacity_def DEFAULT_CACHE_ENTRIES_def)
  moreover have "?step ?s2 sample_modules"
    using module_step.hit [of True "[1, 2]" "{(True, [1, 2])}" "''m''" "\<lambda>m src. word_of_nat (length src)" ?s2 9
        "cache_capacity None" "\<lambda>s m src info. info = (9 :: nat)"]
    by (simp add: analyze_lookup_def sample_modules_def)
  moreover have "reach module_init ?step ?s0" by (rule reach_init) (simp add: module_init_def)
  ultimately show ?thesis by (meson reach_step)
qed

theorem module_cache_transparent_witness:
  "length (ms_entries sample_modules) \<le> 8192"
  using module_cache_transparent [OF sample_modules_reach]
  by (simp add: cache_capacity_def DEFAULT_CACHE_ENTRIES_def)

theorem cjs_cache_never_poisoned_witness:
  "length (cjs_stored (cache_capacity None) [((''m'', 1), CjsModule (5 :: nat)), ((''m'', 1), CjsEsm)]) \<le> 8192"
proof -
  have "get_cjs_analysis ''m'' 1 (cjs_stored (cache_capacity None)
      [((''m'', 1), CjsModule (5 :: nat)), ((''m'', 1), CjsEsm)]) = Some (CjsModule 5)"
    by (simp add: cjs_stored_def set_cjs_analysis_def clearing_insert_def get_cjs_analysis_def
        cache_capacity_def DEFAULT_CACHE_ENTRIES_def)
  from cjs_cache_never_poisoned [OF this] show ?thesis
    by (simp add: cache_capacity_def DEFAULT_CACHE_ENTRIES_def)
qed

end
