(* ===== verification/Ld_Http.thy ===== *)
theory Ld_Http
  imports Ld_Caches
begin

text \<open>
  The HTTP client of src/src/http.rs: module fetches and npm downloads with bounded retries,
  redirects, body sizes and wall-clock time. The client of \<^verbatim>\<open>reqwest\<close> appears as the outcome of
  each request together with the clock readings around it; URL joining and origins, the reading of
  a header as text, base64 and the display of a status are parameters, and so is the variable
  \<^verbatim>\<open>LIBDENO_MAX_TARBALL_DECOMPRESSED_BYTES\<close>. Every run of a loop yields
  the list of the requests it sent.
\<close>

section \<open>Limits and the wall clock\<close>

definition MAX_RESPONSE_BODY_BYTES :: nat where
  "MAX_RESPONSE_BODY_BYTES = 256 * 2 ^ 20"

definition MAX_TARBALL_BODY_BYTES :: nat where
  "MAX_TARBALL_BODY_BYTES = 2 ^ 30"

definition HTTP_RETRY_WALL_CLOCK_BUDGET :: duration where
  "HTTP_RETRY_WALL_CLOCK_BUDGET = secs 300"

definition budget_message :: "string \<Rightarrow> string" where
  "budget_message what = what @ '' exceeded the '' @ show_nat 300 @ ''-second wall-clock budget''"

definition remaining_http_budget :: "instant \<Rightarrow> instant \<Rightarrow> string + duration" where
  "remaining_http_budget deadline now =
     (let remaining = saturating_duration_since deadline now
      in if remaining = 0 then Inl (budget_message ''HTTP request'') else Inr remaining)"

text \<open>The backoff before the next attempt; it may not reach the deadline.\<close>

definition http_backoff :: "string \<Rightarrow> instant \<Rightarrow> instant \<Rightarrow> nat \<Rightarrow> string + unit" where
  "http_backoff what deadline now attempt =
     bind_res (remaining_http_budget deadline now) (\<lambda>remaining.
       if remaining \<le> millis (200 * attempt) then Inl (budget_message what) else Inr ())"

section \<open>Responses\<close>

record http_response =
  hr_status :: nat
  hr_headers :: "(string \<times> string) list"
  hr_chunks :: "(string + bytes) list"
  hr_body_elapsed :: bool

text \<open>
  One request: the clock before it is sent, what came of it under its timeout, and the clock when
  the outcome is looked at. \<open>hr_body_elapsed\<close> says that the timeout of the body read fires first.
\<close>

datatype send_outcome = SoElapsed | SoNetError string | SoResponse http_response

record http_attempt =
  ha_now :: instant
  ha_outcome :: send_outcome
  ha_then :: instant

definition is_success :: "nat \<Rightarrow> bool" where
  "is_success status \<longleftrightarrow> 200 \<le> status \<and> status \<le> 299"

definition is_redirection :: "nat \<Rightarrow> bool" where
  "is_redirection status \<longleftrightarrow> 300 \<le> status \<and> status \<le> 399"

definition is_transient :: "nat \<Rightarrow> bool" where
  "is_transient status \<longleftrightarrow> status = 429 \<or> (500 \<le> status \<and> status \<le> 599)"

fun read_chunks :: "nat \<Rightarrow> bytes \<Rightarrow> (string + bytes) list \<Rightarrow> string + bytes" where
  "read_chunks limit body [] = Inr body"
| "read_chunks limit body (Inl e # rest) = Inl (''failed to read response body: '' @ e)"
| "read_chunks limit body (Inr chunk # rest) =
     (if limit - length body < length chunk
      then Inl (''response body exceeded the '' @ show_nat limit @ ''-byte limit'')
      else read_chunks limit (body @ chunk) rest)"

definition read_body_limited :: "http_response \<Rightarrow> nat \<Rightarrow> string + bytes" where
  "read_body_limited response limit = read_chunks limit [] (hr_chunks response)"

text \<open>The body read of a successful response: a budget check, then the read under what remains.\<close>

definition read_body_in_budget ::
  "string \<Rightarrow> string \<Rightarrow> instant \<Rightarrow> instant \<Rightarrow> http_response \<Rightarrow> nat \<Rightarrow> string + bytes" where
  "read_body_in_budget what prefix deadline now response limit =
     bind_res (remaining_http_budget deadline now) (\<lambda>remaining.
       if hr_body_elapsed response then Inl (budget_message what)
       else map_err (\<lambda>e. prefix @ e) (read_body_limited response limit))"

section \<open>Module fetches\<close>

datatype send_error = SeFailed string | SeStatusCode nat | SeNotFound

datatype send_response =
    SrNotModified | SrRedirect "(string \<times> string) list" | SrSuccess "(string \<times> string) list" bytes

datatype 'r http_step = HsDone 'r | HsRetry

definition send_step ::
  "(string \<times> string) list \<Rightarrow> instant \<Rightarrow> nat \<Rightarrow> http_attempt \<Rightarrow> (send_error + send_response) http_step" where
  "send_step headers deadline attempt a =
     (let retry = (case http_backoff ''HTTP request'' deadline (ha_then a) attempt of
                     Inl e \<Rightarrow> HsDone (Inl (SeFailed e))
                   | Inr _ \<Rightarrow> HsRetry)
      in case ha_outcome a of
           SoElapsed \<Rightarrow> HsDone (Inl (SeFailed (budget_message ''HTTP request'')))
         | SoNetError e \<Rightarrow> if attempt < 3 then retry else HsDone (Inl (SeFailed e))
         | SoResponse response \<Rightarrow>
             (let status = hr_status response
              in if status = 304
                 then HsDone (if map_of headers ''if-none-match'' \<noteq> None then Inr SrNotModified
                              else Inl (SeStatusCode status))
                 else if is_redirection status
                 then HsDone (Inr (SrRedirect
                        (case map_of (hr_headers response) ''location'' of
                           Some location \<Rightarrow> [(''location'', location)]
                         | None \<Rightarrow> [])))
                 else if is_success status
                 then HsDone (case read_body_in_budget ''HTTP request'' [] deadline (ha_then a) response
                                MAX_RESPONSE_BODY_BYTES of
                                Inl e \<Rightarrow> Inl (SeFailed e)
                              | Inr body \<Rightarrow> Inr (SrSuccess (hr_headers response) body))
                 else if status = 404 then HsDone (Inl SeNotFound)
                 else if is_transient status \<and> attempt < 3 then retry
                 else HsDone (Inl (SeStatusCode status))))"

text \<open>The loop: attempt \<open>n\<close> sees \<open>env n\<close>. The first component is the timeouts of the requests sent.\<close>

function send_loop ::
  "(nat \<Rightarrow> http_attempt) \<Rightarrow> (string \<times> string) list \<Rightarrow> instant \<Rightarrow> nat
   \<Rightarrow> (instant \<times> duration) list \<times> (send_error + send_response)" where
  "send_loop env headers deadline attempt =
     (let a = env attempt
      in case remaining_http_budget deadline (ha_now a) of
           Inl e \<Rightarrow> ([], Inl (SeFailed e))
         | Inr remaining \<Rightarrow>
             (case send_step headers deadline (Suc attempt) a of
                HsDone result \<Rightarrow> ([(ha_now a, remaining)], result)
              | HsRetry \<Rightarrow> apfst ((#) (ha_now a, remaining)) (send_loop env headers deadline (Suc attempt))))"
  by pat_completeness auto
termination
proof (relation "measure (\<lambda>(env, headers, deadline, attempt). 3 - attempt)", goal_cases)
  case (2 env headers deadline attempt a remaining)
  then show ?case
    by (auto simp: send_step_def Let_def split: send_outcome.splits if_splits sum.splits)
qed simp

declare send_loop.simps [simp del]

definition send_no_follow ::
  "(nat \<Rightarrow> http_attempt) \<Rightarrow> instant \<Rightarrow> (string \<times> string) list
   \<Rightarrow> (instant \<times> duration) list \<times> (send_error + send_response)" where
  "send_no_follow env start headers = send_loop env headers (start + HTTP_RETRY_WALL_CLOCK_BUDGET) 0"

section \<open>npm downloads\<close>

record url_ops =
  uo_path :: "string \<Rightarrow> string"
  uo_join :: "string \<Rightarrow> string \<Rightarrow> string + string"
  uo_origin :: "string \<Rightarrow> string"
  uo_to_str :: "string \<Rightarrow> string option"
  uo_base64 :: "string \<Rightarrow> string"
  uo_show_status :: "nat \<Rightarrow> string"
  uo_decompress_var :: "string option"

text \<open>A URL is its text here, as \<^verbatim>\<open>Url\<close> compares by its serialisation.\<close>

record registry_credentials =
  rc_auth_token :: "string option"
  rc_auth :: "string option"
  rc_username :: "string option"
  rc_password :: "string option"

definition registry_auth :: "url_ops \<Rightarrow> registry_credentials \<Rightarrow> string option" where
  "registry_auth ops c =
     (case rc_auth_token c of
        Some token \<Rightarrow> Some (''Bearer '' @ token)
      | None \<Rightarrow>
          (case rc_auth c of
             Some token \<Rightarrow> Some (''Basic '' @ token)
           | None \<Rightarrow>
               (case (rc_username c, rc_password c) of
                  (Some user, Some pass) \<Rightarrow> Some (''Basic '' @ uo_base64 ops (user @ '':'' @ pass))
                | _ \<Rightarrow> None)))"

definition initial_auth :: "url_ops \<Rightarrow> string option \<Rightarrow> registry_credentials option \<Rightarrow> string option" where
  "initial_auth ops maybe_auth config =
     (case maybe_auth of Some a \<Rightarrow> Some a | None \<Rightarrow> Option.bind config (registry_auth ops))"

text \<open>\<open>path().ends_with(".tgz")\<close>\<close>

definition is_tarball_url :: "url_ops \<Rightarrow> string \<Rightarrow> bool" where
  "is_tarball_url ops url \<longleftrightarrow> drop (length (uo_path ops url) - 4) (uo_path ops url) = ''.tgz''"

definition npm_body_limit :: "bool \<Rightarrow> nat" where
  "npm_body_limit is_tarball = (if is_tarball then MAX_TARBALL_BODY_BYTES else MAX_RESPONSE_BODY_BYTES)"

text \<open>The variable may lower or raise the default of 1 GiB.\<close>

definition tarball_decompress_budget :: "string option \<Rightarrow> nat" where
  "tarball_decompress_budget var =
     (case Option.bind var parse_usize of Some n \<Rightarrow> n | None \<Rightarrow> 2 ^ 30)"

definition u32_from_le_bytes :: "bytes \<Rightarrow> nat" where
  "u32_from_le_bytes bs = unat (bs ! 0) + 256 * unat (bs ! 1) + 256 ^ 2 * unat (bs ! 2) + 256 ^ 3 * unat (bs ! 3)"

definition guard_tarball_isize :: "nat \<Rightarrow> bool \<Rightarrow> bytes \<Rightarrow> string + bytes" where
  "guard_tarball_isize budget is_tarball bs =
     (if \<not> is_tarball \<or> length bs < 8 \<or> take 2 bs \<noteq> [0x1f, 0x8b] then Inr bs
      else
        (let isize = u32_from_le_bytes (drop (length bs - 4) bs)
         in if budget < isize
            then Inl (''tarball declares '' @ show_nat isize @ '' decompressed bytes, over the ''
                   @ show_nat budget
                   @ ''-byte budget (raise LIBDENO_MAX_TARBALL_DECOMPRESSED_BYTES to allow it)'')
            else Inr bs))"

datatype npm_response = NrNotFound | NrNotModified | NrBytes bytes "string option"

type_synonym npm_result = "(nat option \<times> string) + npm_response"

datatype npm_step =
    NsDone npm_result
  | NsRedirect string "string option" "string option"
  | NsRetry

definition npm_prefix :: string where
  "npm_prefix = ''npm registry request''"

definition status_failed :: "url_ops \<Rightarrow> nat \<Rightarrow> nat option \<times> string" where
  "status_failed ops status =
     (Some status, npm_prefix @ '' failed with status '' @ uo_show_status ops status)"

definition npm_body :: "url_ops \<Rightarrow> instant \<Rightarrow> instant \<Rightarrow> bool \<Rightarrow> http_response \<Rightarrow> npm_result" where
  "npm_body ops deadline now is_tarball response =
     map_err (Pair None)
       (bind_res (read_body_in_budget npm_prefix ''failed to read npm registry response: '' deadline now response
                    (npm_body_limit is_tarball)) (\<lambda>body.
        bind_res (map_err (\<lambda>e. ''failed to download npm tarball: '' @ e)
                    (guard_tarball_isize (tarball_decompress_budget (uo_decompress_var ops)) is_tarball body)) (\<lambda>body.
          Inr (NrBytes body (Option.bind (map_of (hr_headers response) ''etag'') (uo_to_str ops))))))"

definition npm_redirect ::
  "url_ops \<Rightarrow> nat \<Rightarrow> string \<Rightarrow> string option \<Rightarrow> string option \<Rightarrow> http_response \<Rightarrow> npm_step" where
  "npm_redirect ops redirects_remaining url auth etag response =
     (if redirects_remaining = 0 then NsDone (Inl (status_failed ops (hr_status response)))
      else
        (case Option.bind (map_of (hr_headers response) ''location'') (uo_to_str ops) of
           None \<Rightarrow> NsDone (Inl (status_failed ops (hr_status response)))
         | Some location \<Rightarrow>
             (case uo_join ops url location of
                Inl e \<Rightarrow> NsDone (Inl (Some (hr_status response), ''invalid npm registry redirect location: '' @ e))
              | Inr next_url \<Rightarrow>
                  NsRedirect next_url
                    (if uo_origin ops next_url \<noteq> uo_origin ops url then None else auth)
                    (if next_url \<noteq> url then None else etag))))"

definition npm_download_step ::
  "url_ops \<Rightarrow> instant \<Rightarrow> bool \<Rightarrow> nat \<Rightarrow> nat \<Rightarrow> string \<Rightarrow> string option \<Rightarrow> string option \<Rightarrow> http_attempt \<Rightarrow> npm_step" where
  "npm_download_step ops deadline is_tarball attempt redirects_remaining url auth etag a =
     (let retry = (case http_backoff npm_prefix deadline (ha_then a) attempt of
                     Inl e \<Rightarrow> NsDone (Inl (None, e))
                   | Inr _ \<Rightarrow> NsRetry)
      in case ha_outcome a of
           SoElapsed \<Rightarrow> NsDone (Inl (None, budget_message npm_prefix))
         | SoNetError e \<Rightarrow>
             if attempt < 3 then retry else NsDone (Inl (None, npm_prefix @ '' failed: '' @ e))
         | SoResponse response \<Rightarrow>
             (let status = hr_status response
              in if status = 404 then NsDone (Inr NrNotFound)
                 else if status = 304
                 then NsDone (if etag \<noteq> None then Inr NrNotModified
                              else Inl (Some status, ''npm registry returned 304 without a conditional ETag request''))
                 else if is_success status then NsDone (npm_body ops deadline (ha_then a) is_tarball response)
                 else if is_redirection status then npm_redirect ops redirects_remaining url auth etag response
                 else if is_transient status \<and> attempt < 3 then retry
                 else NsDone (Inl (status_failed ops status))))"

record npm_request =
  rq_url :: string
  rq_auth :: "string option"
  rq_etag :: "string option"
  rq_at :: instant
  rq_timeout :: duration

lemma npm_step_retry: "npm_download_step ops d tar attempt redirects url auth etag a = NsRetry \<Longrightarrow> attempt < 3"
  by (auto simp: npm_download_step_def npm_redirect_def Let_def
      split: send_outcome.splits if_splits sum.splits option.splits)

lemma npm_step_redirect:
  assumes "npm_download_step ops d tar attempt redirects url auth etag a = NsRedirect url' auth' etag'"
  shows "0 < redirects
    \<and> auth' = (if uo_origin ops url' \<noteq> uo_origin ops url then None else auth)
    \<and> etag' = (if url' \<noteq> url then None else etag)"
  using assms by (auto simp: npm_download_step_def npm_redirect_def Let_def
      split: send_outcome.splits if_splits sum.splits option.splits)

function npm_download_loop ::
  "url_ops \<Rightarrow> (nat \<Rightarrow> http_attempt) \<Rightarrow> instant \<Rightarrow> bool \<Rightarrow> nat \<Rightarrow> nat \<Rightarrow> nat \<Rightarrow> string \<Rightarrow> string option \<Rightarrow> string option
   \<Rightarrow> npm_request list \<times> npm_result" where
  "npm_download_loop ops env deadline tar i attempt redirects url auth etag =
     (let a = env i
      in case remaining_http_budget deadline (ha_now a) of
           Inl e \<Rightarrow> ([], Inl (None, e))
         | Inr remaining \<Rightarrow>
             apfst ((#) \<lparr>rq_url = url, rq_auth = auth, rq_etag = etag, rq_at = ha_now a, rq_timeout = remaining\<rparr>)
               (case npm_download_step ops deadline tar (Suc attempt) redirects url auth etag a of
                  NsDone result \<Rightarrow> ([], result)
                | NsRedirect url' auth' etag' \<Rightarrow>
                    npm_download_loop ops env deadline tar (Suc i) 0 (redirects - 1) url' auth' etag'
                | NsRetry \<Rightarrow>
                    npm_download_loop ops env deadline tar (Suc i) (Suc attempt) redirects url auth etag))"
  by pat_completeness auto
termination
proof (relation "measures [\<lambda>(ops, env, deadline, tar, i, attempt, redirects, url, auth, etag). redirects,
    \<lambda>(ops, env, deadline, tar, i, attempt, redirects, url, auth, etag). 3 - attempt]", goal_cases)
  case (2 ops env deadline tar i attempt redirects url auth etag a remaining url' auth' etag')
  then show ?case using npm_step_redirect by fastforce
next
  case (3 ops env deadline tar i attempt redirects url auth etag a remaining)
  then show ?case using npm_step_retry by fastforce
qed simp

declare npm_download_loop.simps [simp del]

definition download_with_retries ::
  "url_ops \<Rightarrow> (nat \<Rightarrow> http_attempt) \<Rightarrow> instant \<Rightarrow> string \<Rightarrow> string option \<Rightarrow> string option
   \<Rightarrow> registry_credentials option \<Rightarrow> npm_request list \<times> npm_result" where
  "download_with_retries ops env start url maybe_auth maybe_etag config =
     npm_download_loop ops env (start + HTTP_RETRY_WALL_CLOCK_BUDGET) (is_tarball_url ops url) 0 0 10 url
       (initial_auth ops maybe_auth config) maybe_etag"

section \<open>Where credentials go\<close>

text \<open>One unfolding of the loop, by what the step decides.\<close>

lemma npm_loop_cases:
  assumes "npm_download_loop ops env deadline tar i attempt redirects url auth etag = (reqs, result)"
  obtains
    (expired) "reqs = []" "result = Inl (None, budget_message ''HTTP request'')" "deadline \<le> ha_now (env i)"
  | (finished) "reqs = [\<lparr>rq_url = url, rq_auth = auth, rq_etag = etag, rq_at = ha_now (env i),
        rq_timeout = deadline - ha_now (env i)\<rparr>]" "ha_now (env i) < deadline"
      "npm_download_step ops deadline tar (Suc attempt) redirects url auth etag (env i) = NsDone result"
  | (redirected) url' auth' etag' rest where "reqs = \<lparr>rq_url = url, rq_auth = auth, rq_etag = etag,
        rq_at = ha_now (env i), rq_timeout = deadline - ha_now (env i)\<rparr> # rest" "ha_now (env i) < deadline"
      "npm_download_step ops deadline tar (Suc attempt) redirects url auth etag (env i) = NsRedirect url' auth' etag'"
      "npm_download_loop ops env deadline tar (Suc i) 0 (redirects - 1) url' auth' etag' = (rest, result)"
  | (retried) rest where "reqs = \<lparr>rq_url = url, rq_auth = auth, rq_etag = etag,
        rq_at = ha_now (env i), rq_timeout = deadline - ha_now (env i)\<rparr> # rest" "ha_now (env i) < deadline"
      "npm_download_step ops deadline tar (Suc attempt) redirects url auth etag (env i) = NsRetry"
      "npm_download_loop ops env deadline tar (Suc i) (Suc attempt) redirects url auth etag = (rest, result)"
proof (cases "ha_now (env i) < deadline")
  case False
  then show thesis
    using assms expired by (simp add: npm_download_loop.simps [of ops env deadline tar i] remaining_http_budget_def
        saturating_duration_since_def)
next
  case True
  then have budget: "remaining_http_budget deadline (ha_now (env i)) = Inr (deadline - ha_now (env i))"
    by (simp add: remaining_http_budget_def saturating_duration_since_def)
  show thesis
  proof (cases "npm_download_step ops deadline tar (Suc attempt) redirects url auth etag (env i)")
    case (NsDone r)
    then show thesis using assms True budget finished
      by (auto simp: npm_download_loop.simps [of ops env deadline tar i] Let_def)
  next
    case (NsRedirect url' auth' etag')
    then show thesis using assms True budget redirected
      by (cases "npm_download_loop ops env deadline tar (Suc i) 0 (redirects - 1) url' auth' etag'")
        (auto simp: npm_download_loop.simps [of ops env deadline tar i] Let_def)
  next
    case NsRetry
    then show thesis using assms True budget retried
      by (cases "npm_download_loop ops env deadline tar (Suc i) (Suc attempt) redirects url auth etag")
        (auto simp: npm_download_loop.simps [of ops env deadline tar i] Let_def)
  qed
qed

text \<open>What may be sent, given what the loop holds: nothing new, and each secret only where it belongs.\<close>

definition carries :: "url_ops \<Rightarrow> string \<Rightarrow> string option \<Rightarrow> string option \<Rightarrow> npm_request \<Rightarrow> bool" where
  "carries ops url auth etag rq \<longleftrightarrow>
     (rq_auth rq = None \<or> (rq_auth rq = auth \<and> uo_origin ops (rq_url rq) = uo_origin ops url))
   \<and> (rq_etag rq = None \<or> (rq_etag rq = etag \<and> rq_url rq = url))"

lemma npm_loop_carries:
  "npm_download_loop ops env deadline tar i attempt redirects url auth etag = (reqs, result) \<Longrightarrow>
   \<forall>rq \<in> set reqs. carries ops url auth etag rq"
proof (induction ops env deadline tar i attempt redirects url auth etag arbitrary: reqs result
    rule: npm_download_loop.induct)
  case (1 ops env deadline tar i attempt redirects url auth etag)
  have budget: "remaining_http_budget deadline (ha_now (env i)) = Inr (deadline - ha_now (env i))"
    if "ha_now (env i) < deadline"
    using that by (simp add: remaining_http_budget_def saturating_duration_since_def)
  from "1.prems" show ?case
  proof (cases rule: npm_loop_cases)
    case (redirected url' auth' etag' rest)
    have "\<forall>rq \<in> set rest. carries ops url' auth' etag' rq"
      using "1.IH"(1) budget redirected by blast
    then show ?thesis
      using redirected(1) npm_step_redirect [OF redirected(3)] by (auto simp: carries_def split: if_splits)
  next
    case (retried rest)
    have "\<forall>rq \<in> set rest. carries ops url auth etag rq"
      using "1.IH"(2) budget retried by blast
    then show ?thesis using retried(1) by (simp add: carries_def)
  qed (simp_all add: carries_def)
qed

text \<open>
  C33: Credentials stay on their origin: however a registry redirects an npm download, every
  request that carries an authorization carries the one the download was given and goes to the
  scheme, host and port of the URL it was given for, and a conditional request goes only to
  the very URL whose entity tag it carries.
\<close>

theorem npm_credentials_stay_on_origin:
  "list_all (\<lambda>rq.
      (rq_auth rq = None \<or> (rq_auth rq = initial_auth ops maybe_auth config
                             \<and> uo_origin ops (rq_url rq) = uo_origin ops url))
    \<and> (rq_etag rq = None \<or> (rq_etag rq = maybe_etag \<and> rq_url rq = url)))
     (fst (download_with_retries ops env start url maybe_auth maybe_etag config))"
  unfolding download_with_retries_def list_all_iff
  by (rule npm_loop_carries [OF prod.collapse [symmetric], unfolded carries_def])

section \<open>Bounded work\<close>

lemma npm_loop_bounded:
  "npm_download_loop ops env deadline tar i attempt redirects url auth etag = (reqs, result) \<Longrightarrow> attempt < 3 \<Longrightarrow>
   length reqs \<le> 3 * redirects + (3 - attempt)
   \<and> (\<forall>rq \<in> set reqs. rq_at rq < deadline \<and> rq_timeout rq = deadline - rq_at rq)"
proof (induction ops env deadline tar i attempt redirects url auth etag arbitrary: reqs result
    rule: npm_download_loop.induct)
  case (1 ops env deadline tar i attempt redirects url auth etag)
  have budget: "remaining_http_budget deadline (ha_now (env i)) = Inr (deadline - ha_now (env i))"
    if "ha_now (env i) < deadline"
    using that by (simp add: remaining_http_budget_def saturating_duration_since_def)
  from "1.prems"(1) show ?case
  proof (cases rule: npm_loop_cases)
    case (redirected url' auth' etag' rest)
    have "length rest \<le> 3 * (redirects - 1) + (3 - 0)
        \<and> (\<forall>rq \<in> set rest. rq_at rq < deadline \<and> rq_timeout rq = deadline - rq_at rq)"
      using "1.IH"(1) budget redirected by (metis zero_less_numeral)
    then show ?thesis
      using redirected(1,2) npm_step_redirect [OF redirected(3)] "1.prems"(2) by auto
  next
    case (retried rest)
    have "Suc attempt < 3" using npm_step_retry [OF retried(3)] .
    then have "length rest \<le> 3 * redirects + (3 - Suc attempt)
        \<and> (\<forall>rq \<in> set rest. rq_at rq < deadline \<and> rq_timeout rq = deadline - rq_at rq)"
      using "1.IH"(2) budget retried by blast
    then show ?thesis using retried(1,2) \<open>Suc attempt < 3\<close> by auto
  qed (use "1.prems"(2) in auto)
qed

lemma send_loop_bounded:
  "attempt < 3 \<Longrightarrow> length (fst (send_loop env headers deadline attempt)) \<le> 3 - attempt
   \<and> (\<forall>(at, timeout) \<in> set (fst (send_loop env headers deadline attempt)). at < deadline \<and> timeout = deadline - at)"
proof (induction env headers deadline attempt rule: send_loop.induct)
  case (1 env headers deadline attempt)
  have retry: "Suc attempt < 3" if "send_step headers deadline (Suc attempt) (env attempt) = HsRetry"
    using that by (auto simp: send_step_def Let_def split: send_outcome.splits if_splits sum.splits)
  have "length (fst (send_loop env headers deadline (Suc attempt))) \<le> 3 - Suc attempt
      \<and> (\<forall>(at, timeout) \<in> set (fst (send_loop env headers deadline (Suc attempt))).
            at < deadline \<and> timeout = deadline - at)"
    if "ha_now (env attempt) < deadline" "send_step headers deadline (Suc attempt) (env attempt) = HsRetry"
    using "1.IH" [OF refl _ that(2) retry [OF that(2)]] that(1)
    by (simp add: remaining_http_budget_def saturating_duration_since_def)
  then show ?case
    using "1.prems" retry
    by (auto simp: send_loop.simps [of env headers deadline attempt] Let_def remaining_http_budget_def
        saturating_duration_since_def split: http_step.split if_splits)
qed

text \<open>
  C34: An HTTP operation sends a bounded number of requests whatever the servers answer, at
  most three for a module fetch and thirty-three for an npm download with all its redirects;
  each is sent before the deadline of 300 seconds, with exactly the time that is left as
  timeout.
\<close>

theorem http_work_bounded:
  "length (fst (send_no_follow env start headers)) \<le> 3
   \<and> length (fst (download_with_retries ops env start url maybe_auth maybe_etag config)) \<le> 33
   \<and> list_all (\<lambda>(at, timeout). at < start + secs 300 \<and> timeout = start + secs 300 - at)
       (fst (send_no_follow env start headers))
   \<and> list_all (\<lambda>rq. rq_at rq < start + secs 300 \<and> rq_timeout rq = start + secs 300 - rq_at rq)
       (fst (download_with_retries ops env start url maybe_auth maybe_etag config))"
  using send_loop_bounded [of 0 env headers "start + secs 300"]
    npm_loop_bounded [OF prod.collapse [symmetric], of 0 ops env "start + secs 300" "is_tarball_url ops url" 0 10 url
      "initial_auth ops maybe_auth config" maybe_etag]
  unfolding send_no_follow_def download_with_retries_def HTTP_RETRY_WALL_CLOCK_BUDGET_def list_all_iff
  by simp

section \<open>What a download returns\<close>

lemma read_chunks_body:
  assumes "read_chunks limit acc chunks = Inr body" and "length acc \<le> limit"
  shows "length body \<le> limit \<and> (\<exists>cs. chunks = map Inr cs \<and> body = acc @ concat cs)"
  using assms
proof (induction limit acc chunks rule: read_chunks.induct)
  case (3 limit acc chunk rest)
  then have "\<not> limit - length acc < length chunk" by (auto split: if_splits)
  moreover from this have "length (acc @ chunk) \<le> limit" using "3.prems"(2) by simp
  ultimately obtain cs where "rest = map Inr cs" "body = (acc @ chunk) @ concat cs" "length body \<le> limit"
    using 3 by auto
  then show ?case by (auto intro!: exI [of _ "chunk # cs"])
qed auto

lemma read_body_in_budget_body:
  assumes "read_body_in_budget what prefix deadline now response limit = Inr body"
  shows "length body \<le> limit \<and> (\<exists>cs. hr_chunks response = map Inr cs \<and> body = concat cs)"
proof -
  have "read_chunks limit [] (hr_chunks response) = Inr body"
    using assms
    by (cases "read_chunks limit [] (hr_chunks response)")
      (auto simp: read_body_in_budget_def read_body_limited_def bind_res_Inr split: if_splits)
  then show ?thesis using read_chunks_body by fastforce
qed

lemma guard_tarball_isize_Inr:
  "guard_tarball_isize budget tar bs = Inr bs' \<longleftrightarrow>
     bs' = bs \<and> (tar \<and> 8 \<le> length bs \<and> take 2 bs = [0x1f, 0x8b]
       \<longrightarrow> u32_from_le_bytes (drop (length bs - 4) bs) \<le> budget)"
  by (auto simp: guard_tarball_isize_def Let_def)

text \<open>What a final answer may be, given the response and the entity tag of the request.\<close>

definition npm_answer :: "url_ops \<Rightarrow> bool \<Rightarrow> string option \<Rightarrow> send_outcome \<Rightarrow> npm_result \<Rightarrow> bool" where
  "npm_answer ops tar etag outcome result \<longleftrightarrow>
     (case (result, outcome) of
        (Inr NrNotFound, SoResponse response) \<Rightarrow> hr_status response = 404
      | (Inr NrNotModified, SoResponse response) \<Rightarrow> hr_status response = 304 \<and> etag \<noteq> None
      | (Inr (NrBytes body _), SoResponse response) \<Rightarrow>
          is_success (hr_status response) \<and> length body \<le> npm_body_limit tar
        \<and> (\<exists>cs. hr_chunks response = map Inr cs \<and> body = concat cs)
        \<and> (tar \<and> 8 \<le> length body \<and> take 2 body = [0x1f, 0x8b]
             \<longrightarrow> u32_from_le_bytes (drop (length body - 4) body) \<le> tarball_decompress_budget (uo_decompress_var ops))
      | (Inr _, _) \<Rightarrow> False
      | (Inl (Some status, _), SoResponse response) \<Rightarrow> status = hr_status response \<and> \<not> is_success status
      | (Inl (Some _, _), _) \<Rightarrow> False
      | (Inl (None, _), _) \<Rightarrow> True)"

lemma npm_body_answer:
  assumes "is_success (hr_status response)"
  shows "npm_answer ops tar etag (SoResponse response) (npm_body ops deadline now tar response)"
proof (cases "read_body_in_budget npm_prefix ''failed to read npm registry response: '' deadline now response
    (npm_body_limit tar)")
  case (Inl e)
  then show ?thesis by (simp add: npm_body_def npm_answer_def)
next
  case (Inr body)
  note body = read_body_in_budget_body [OF this]
  show ?thesis
  proof (cases "guard_tarball_isize (tarball_decompress_budget (uo_decompress_var ops)) tar body")
    case (Inl e)
    then show ?thesis using Inr by (simp add: npm_body_def npm_answer_def)
  next
    case guard: (Inr body')
    then show ?thesis
      using Inr assms body guard [unfolded guard_tarball_isize_Inr]
      by (simp add: npm_body_def npm_answer_def)
  qed
qed

lemma npm_step_answer:
  assumes "npm_download_step ops deadline tar attempt redirects url auth etag a = NsDone result"
  shows "npm_answer ops tar etag (ha_outcome a) result"
proof (cases "ha_outcome a")
  case (SoResponse response)
  show ?thesis
  proof (cases "hr_status response \<noteq> 404 \<and> hr_status response \<noteq> 304 \<and> is_success (hr_status response)")
    case True
    then have "result = npm_body ops deadline (ha_then a) tar response"
      using assms SoResponse by (simp add: npm_download_step_def)
    then show ?thesis using npm_body_answer True SoResponse by simp
  next
    case False
    then show ?thesis
      using assms SoResponse
      by (auto simp: npm_download_step_def npm_redirect_def npm_answer_def status_failed_def is_success_def
          is_redirection_def is_transient_def Let_def split: if_splits option.splits sum.splits)
  qed
qed (use assms in \<open>auto simp: npm_download_step_def npm_answer_def Let_def split: if_splits sum.splits\<close>)

lemma npm_loop_answer:
  "npm_download_loop ops env deadline tar i attempt redirects url auth etag = (reqs, result) \<Longrightarrow>
   (reqs = [] \<and> (\<exists>e. result = Inl (None, e)))
   \<or> (reqs \<noteq> [] \<and> (npm_answer ops tar (rq_etag (last reqs)) (ha_outcome (env (i + length reqs - 1))) result))"
proof (induction ops env deadline tar i attempt redirects url auth etag arbitrary: reqs result
    rule: npm_download_loop.induct)
  case (1 ops env deadline tar i attempt redirects url auth etag)
  have budget: "remaining_http_budget deadline (ha_now (env i)) = Inr (deadline - ha_now (env i))"
    if "ha_now (env i) < deadline"
    using that by (simp add: remaining_http_budget_def saturating_duration_since_def)
  from "1.prems" show ?case
  proof (cases rule: npm_loop_cases)
    case finished
    then show ?thesis using npm_step_answer [OF finished(3)] by simp
  next
    case (redirected url' auth' etag' rest)
    from "1.IH"(1) [OF refl budget [OF redirected(2)] redirected(3) redirected(4)]
    show ?thesis using redirected(1) by (auto simp: npm_answer_def)
  next
    case (retried rest)
    from "1.IH"(2) [OF refl budget [OF retried(2)] retried(3) retried(4)]
    show ?thesis using retried(1) by (auto simp: npm_answer_def)
  qed simp
qed

text \<open>
  An npm download returns what its last request was answered with, or fails: bytes come whole
  from a successful response and stay within 1 GiB for a path that ends in .tgz, whatever
  redirects and headers say, and 256 MiB otherwise; a gzip tarball declares no more than the
  decompression budget; not modified is returned only for a conditional request.
\<close>

theorem npm_download_answers:
  assumes "download_with_retries ops env start url maybe_auth maybe_etag config = (reqs, result)"
  shows "case result of
      Inr response \<Rightarrow> reqs \<noteq> [] \<and> (\<exists>r. ha_outcome (env (length reqs - 1)) = SoResponse r \<and>
        (case response of
           NrNotFound \<Rightarrow> hr_status r = 404
         | NrNotModified \<Rightarrow> hr_status r = 304 \<and> rq_etag (last reqs) \<noteq> None
         | NrBytes body _ \<Rightarrow> is_success (hr_status r) \<and> (\<exists>cs. hr_chunks r = map Inr cs \<and> body = concat cs)
             \<and> length body \<le> (if is_tarball_url ops url then 2 ^ 30 else 256 * 2 ^ 20)
             \<and> (is_tarball_url ops url \<and> 8 \<le> length body \<and> take 2 body = [0x1f, 0x8b]
                  \<longrightarrow> u32_from_le_bytes (drop (length body - 4) body) \<le> tarball_decompress_budget (uo_decompress_var ops))))
    | Inl (Some status, _) \<Rightarrow> reqs \<noteq> [] \<and> (\<exists>r. ha_outcome (env (length reqs - 1)) = SoResponse r
        \<and> hr_status r = status \<and> \<not> is_success status)
    | Inl (None, _) \<Rightarrow> True"
  using npm_loop_answer [OF assms [unfolded download_with_retries_def]]
  by (cases "ha_outcome (env (length reqs - 1))") (auto simp: npm_answer_def npm_body_limit_def MAX_TARBALL_BODY_BYTES_def MAX_RESPONSE_BODY_BYTES_def
      split: sum.splits npm_response.splits send_outcome.splits option.splits)

section \<open>Module fetches as a function of the answers\<close>

text \<open>An attempt that is not worth repeating, and what the code makes of an answer.\<close>

definition conclusive :: "http_attempt \<Rightarrow> bool" where
  "conclusive a \<longleftrightarrow> (case ha_outcome a of SoResponse r \<Rightarrow> \<not> is_transient (hr_status r) | _ \<Rightarrow> False)"

definition fetch_result :: "(string \<times> string) list \<Rightarrow> send_outcome \<Rightarrow> send_error + send_response" where
  "fetch_result headers outcome =
     (case outcome of
        SoElapsed \<Rightarrow> Inl (SeFailed (budget_message ''HTTP request''))
      | SoNetError e \<Rightarrow> Inl (SeFailed e)
      | SoResponse r \<Rightarrow>
          if hr_status r = 304
          then (if map_of headers ''if-none-match'' = None then Inl (SeStatusCode 304) else Inr SrNotModified)
          else if is_redirection (hr_status r)
          then Inr (SrRedirect
                 (case map_of (hr_headers r) ''location'' of None \<Rightarrow> [] | Some l \<Rightarrow> [(''location'', l)]))
          else if is_success (hr_status r)
          then (case read_body_limited r MAX_RESPONSE_BODY_BYTES of
                  Inl e \<Rightarrow> Inl (SeFailed e)
                | Inr body \<Rightarrow> Inr (SrSuccess (hr_headers r) body))
          else if hr_status r = 404 then Inl SeNotFound
          else Inl (SeStatusCode (hr_status r)))"

definition first_conclusive :: "(nat \<Rightarrow> http_attempt) \<Rightarrow> nat" where
  "first_conclusive env = (if conclusive (env 0) then 0 else if conclusive (env 1) then 1 else 2)"

text \<open>Nothing times out, and there is room for a backoff after each attempt.\<close>

definition in_time :: "instant \<Rightarrow> http_attempt \<Rightarrow> bool" where
  "in_time deadline a \<longleftrightarrow>
     ha_now a < deadline \<and> ha_then a + millis 400 < deadline
   \<and> (case ha_outcome a of SoElapsed \<Rightarrow> False | SoNetError _ \<Rightarrow> True | SoResponse r \<Rightarrow> \<not> hr_body_elapsed r)"

lemma send_step_in_time:
  assumes "in_time deadline a" and "attempt \<le> 3" and "0 < attempt"
  shows "send_step headers deadline attempt a =
    (if \<not> conclusive a \<and> attempt < 3 then HsRetry else HsDone (fetch_result headers (ha_outcome a)))"
proof -
  have "millis (200 * attempt) \<le> millis 400" if "attempt < 3"
    using that by (simp add: millis_def)
  then have backoff: "http_backoff ''HTTP request'' deadline (ha_then a) attempt = Inr ()" if "attempt < 3"
    using assms(1) that
    by (auto simp: http_backoff_def remaining_http_budget_def saturating_duration_since_def in_time_def Let_def)
  have remaining: "remaining_http_budget deadline (ha_then a) = Inr (deadline - ha_then a)"
    using assms(1) by (simp add: remaining_http_budget_def saturating_duration_since_def in_time_def Let_def)
  show ?thesis
  proof (cases "ha_outcome a")
    case SoElapsed
    then show ?thesis using assms(1) by (simp add: in_time_def)
  next
    case (SoNetError e)
    then show ?thesis using backoff by (simp add: send_step_def conclusive_def fetch_result_def)
  next
    case (SoResponse r)
    then have "\<not> hr_body_elapsed r" using assms(1) by (simp add: in_time_def)
    then have body: "read_body_in_budget ''HTTP request'' [] deadline (ha_then a) r MAX_RESPONSE_BODY_BYTES
        = read_body_limited r MAX_RESPONSE_BODY_BYTES"
      by (cases "read_body_limited r MAX_RESPONSE_BODY_BYTES") (simp_all add: read_body_in_budget_def remaining)
    have "is_transient s \<Longrightarrow> s \<noteq> 304 \<and> \<not> is_redirection s \<and> \<not> is_success s \<and> s \<noteq> 404" for s
      by (auto simp: is_transient_def is_redirection_def is_success_def)
    then show ?thesis
      using SoResponse backoff body
      by (auto simp: send_step_def conclusive_def fetch_result_def Let_def)
  qed
qed

text \<open>
  While the time lasts a module fetch is a function of the answers alone: it retries exactly
  network errors and the statuses 429 and 5xx, at most twice, returns what the first
  conclusive answer means, or the last of three, and sends no request after it.
\<close>

theorem module_fetch_retries_transient_failures:
  assumes "\<forall>i < 3. in_time (start + HTTP_RETRY_WALL_CLOCK_BUDGET) (env i)"
  shows "snd (send_no_follow env start headers) = fetch_result headers (ha_outcome (env (first_conclusive env)))
    \<and> length (fst (send_no_follow env start headers)) = Suc (first_conclusive env)"
proof -
  let ?d = "start + HTTP_RETRY_WALL_CLOCK_BUDGET"
  have early: "\<not> ?d \<le> ha_now (env n)" if "n < 3" for n
    using assms that by (auto simp: in_time_def)
  have unfold: "send_loop env headers ?d n =
      (if \<not> conclusive (env n) \<and> n < 2
       then apfst ((#) (ha_now (env n), ?d - ha_now (env n))) (send_loop env headers ?d (Suc n))
       else ([(ha_now (env n), ?d - ha_now (env n))], fetch_result headers (ha_outcome (env n))))" if "n < 3" for n
    using that assms early [OF that] send_step_in_time [of ?d "env n" "Suc n" headers]
    by (subst send_loop.simps)
      (simp add: remaining_http_budget_def saturating_duration_since_def Let_def)
  show ?thesis
    by (simp add: send_no_follow_def first_conclusive_def unfold numeral_2_eq_2)
qed

section \<open>Concrete requests\<close>

definition example_http_ops :: url_ops where
  "example_http_ops =
     \<lparr>uo_path = (\<lambda>u. u), uo_join = (\<lambda>u l. Inr l), uo_origin = takeWhile (\<lambda>c. c \<noteq> CHR ''/''), uo_to_str = Some,
      uo_base64 = (\<lambda>s. s), uo_show_status = show_nat, uo_decompress_var = None\<rparr>"

definition example_response :: "nat \<Rightarrow> (string \<times> string) list \<Rightarrow> bytes \<Rightarrow> http_attempt" where
  "example_response status headers body =
     \<lparr>ha_now = 0, ha_outcome = SoResponse \<lparr>hr_status = status, hr_headers = headers, hr_chunks = [Inr body],
        hr_body_elapsed = False\<rparr>, ha_then = 0\<rparr>"

definition example_attempts :: "nat \<Rightarrow> http_attempt" where
  "example_attempts i =
     (if i = 0 then example_response 503 [] [] else example_response 200 [] [1, 2])"

lemma example_attempts_simps:
  "example_attempts 0 = example_response 503 [] []" "0 < i \<Longrightarrow> example_attempts i = example_response 200 [] [1, 2]"
  by (simp_all add: example_attempts_def)

theorem module_fetch_retries_transient_failures_witness:
  "snd (send_no_follow example_attempts 0 []) = Inr (SrSuccess [] [1, 2])"
proof -
  have "\<forall>i < 3. in_time (0 + HTTP_RETRY_WALL_CLOCK_BUDGET) (example_attempts i)"
    by (simp add: in_time_def example_attempts_def example_response_def HTTP_RETRY_WALL_CLOCK_BUDGET_def
        secs_def millis_def ns_per_sec_def)
  from module_fetch_retries_transient_failures [OF this, of "[]"] show ?thesis
    by (simp add: first_conclusive_def conclusive_def example_attempts_simps example_response_def fetch_result_def
        is_transient_def is_redirection_def is_success_def read_body_limited_def MAX_RESPONSE_BODY_BYTES_def)
qed

definition example_registry_answers :: "nat \<Rightarrow> http_attempt" where
  "example_registry_answers i =
     (if i = 0 then example_response 302 [(''location'', ''cdn/blob'')] [] else example_response 200 [] [7])"

theorem npm_download_answers_witness:
  "\<exists>reqs. download_with_retries example_http_ops example_registry_answers 0 ''reg/p.tgz'' (Some ''Bearer t'') None None
      = (reqs, Inr (NrBytes [7] None))
    \<and> reqs \<noteq> [] \<and> (\<exists>r. ha_outcome (example_registry_answers (length reqs - 1)) = SoResponse r \<and> is_success (hr_status r))"
proof -
  have budget: "remaining_http_budget (0 + HTTP_RETRY_WALL_CLOCK_BUDGET) 0 = Inr (secs 300)"
    by (simp add: remaining_http_budget_def saturating_duration_since_def HTTP_RETRY_WALL_CLOCK_BUDGET_def
        secs_def ns_per_sec_def)
  have tar: "is_tarball_url example_http_ops ''reg/p.tgz''"
    by (simp add: is_tarball_url_def example_http_ops_def)
  obtain reqs where run: "download_with_retries example_http_ops example_registry_answers 0 ''reg/p.tgz''
      (Some ''Bearer t'') None None = (reqs, Inr (NrBytes [7] None))"
    using budget tar
    by (simp add: download_with_retries_def npm_download_loop.simps npm_download_step_def npm_redirect_def
        npm_body_def read_body_in_budget_def read_body_limited_def guard_tarball_isize_def npm_body_limit_def
        MAX_TARBALL_BODY_BYTES_def example_registry_answers_def example_response_def example_http_ops_def
        is_success_def is_redirection_def initial_auth_def)
  from npm_download_answers [OF this] show ?thesis using run by auto
qed

end
