(* ===== verification/Ld_Npm.thy ===== *)
theory Ld_Npm
  imports Ld_Permissions "HOL-Library.Multiset" "HOL-Library.List_Lexorder" "HOL-Library.Char_ord" "HOL-Library.Product_Lexorder"
begin

text \<open>
  The identity of the resolver's inputs (src/src/npm_cache.rs): canonical JSON, the names an
  \<open>.npmrc\<close> refers to, the fingerprint of the npm configuration without its credentials, and the
  probes that decide whether a resolver can be reused and whether its resolution has a cache key.
  URL parsing, hashing and the file system are parameters; the configuration types of
  \<^verbatim>\<open>deno_npmrc\<close> are records of the fields the code reads.
\<close>

section \<open>Canonical JSON\<close>

text \<open>\<open>serde_json::Value\<close>; numbers are kept as their text. An object is its entries in iteration order.\<close>

datatype json =
    JNull | JBool bool | JNumber string | JString string
  | JArray "json list" | JObject "(string \<times> json) list"

function canonical_json :: "json \<Rightarrow> json" where
  "canonical_json (JArray vals) = JArray (map canonical_json vals)"
| "canonical_json (JObject entries) =
     JObject (map (\<lambda>p. (fst p, canonical_json (snd p))) (sort_key fst entries))"
| "canonical_json JNull = JNull"
| "canonical_json (JBool b) = JBool b"
| "canonical_json (JNumber n) = JNumber n"
| "canonical_json (JString s) = JString s"
  by pat_completeness auto
termination
proof (relation "measure size", goal_cases)
  case (2 vals v)
  then show ?case by (simp add: size_list_estimation' less_Suc_eq_le)
next
  case (3 entries p)
  then have "p \<in> set entries" by simp
  then have "size (snd p) \<le> size_list (size_prod (\<lambda>_. 0) size) entries"
    by (intro size_list_estimation') (auto simp: size_prod_simp)
  then show ?case by (simp add: less_Suc_eq_le)
qed simp

section \<open>Names in an npmrc\<close>

text \<open>The text after the first \<^verbatim>\<open>${\<close>.\<close>

fun after_open :: "string \<Rightarrow> string option" where
  "after_open (a # b # cs) =
     (if a = CHR ''$'' \<and> b = CHR ''{'' then Some cs else after_open (b # cs))"
| "after_open _ = None"

text \<open>The text before and after the first \<^verbatim>\<open>}\<close>.\<close>

fun split_close :: "string \<Rightarrow> (string \<times> string) option" where
  "split_close [] = None"
| "split_close (c # cs) =
     (if c = CHR ''}'' then Some ([], cs)
      else map_option (\<lambda>(name, rest). (c # name, rest)) (split_close cs))"

definition env_name_ok :: "string \<Rightarrow> bool" where
  "env_name_ok name \<longleftrightarrow> name \<noteq> [] \<and> CHR ''$'' \<notin> set name \<and> CHR ''{'' \<notin> set name \<and> CHR 0x5C \<notin> set name"

lemma after_open_shorter: "after_open s = Some rest \<Longrightarrow> length rest < length s"
  by (induction s rule: after_open.induct) (auto split: if_splits)

lemma split_close_shorter: "split_close s = Some (name, rest) \<Longrightarrow> length rest < length s"
  by (induction s arbitrary: name) (auto split: if_splits)

function referenced_env_names :: "string \<Rightarrow> string list" where
  "referenced_env_names text =
     (case after_open text of
        None \<Rightarrow> []
      | Some rest \<Rightarrow>
          (case split_close rest of
             None \<Rightarrow> []
           | Some (name, rest') \<Rightarrow>
               (if env_name_ok name then [name] else []) @ referenced_env_names rest'))"
  by pat_completeness auto
termination
  by (relation "measure length") (fastforce dest!: after_open_shorter split_close_shorter)+

declare referenced_env_names.simps [simp del]

section \<open>What the canonical form decides\<close>

text \<open>The data of a value: the shape of what is found along every path.\<close>

datatype json_step = StKey string | StIndex nat

datatype json_shape =
    ShNull | ShBool bool | ShNumber string | ShString string | ShArray nat | ShObject "string set"

fun json_shape_of :: "json \<Rightarrow> json_shape" where
  "json_shape_of JNull = ShNull"
| "json_shape_of (JBool b) = ShBool b"
| "json_shape_of (JNumber n) = ShNumber n"
| "json_shape_of (JString s) = ShString s"
| "json_shape_of (JArray vs) = ShArray (length vs)"
| "json_shape_of (JObject es) = ShObject (fst ` set es)"

definition json_child :: "json_step \<Rightarrow> json \<Rightarrow> json option" where
  "json_child st v =
     (case (st, v) of
        (StIndex i, JArray vs) \<Rightarrow> if i < length vs then Some (vs ! i) else None
      | (StKey k, JObject es) \<Rightarrow> map_of es k
      | _ \<Rightarrow> None)"

primrec json_at :: "json_step list \<Rightarrow> json \<Rightarrow> json option" where
  "json_at [] v = Some v"
| "json_at (st # path) v = Option.bind (json_child st v) (json_at path)"

definition same_data :: "json \<Rightarrow> json \<Rightarrow> bool" where
  "same_data x y \<longleftrightarrow> (\<forall>path. map_option json_shape_of (json_at path x) = map_option json_shape_of (json_at path y))"

function json_wf :: "json \<Rightarrow> bool" where
  "json_wf (JArray vs) = (\<forall>v \<in> set vs. json_wf v)"
| "json_wf (JObject es) = (keys_distinct es \<and> (\<forall>p \<in> set es. json_wf (snd p)))"
| "json_wf JNull = True"
| "json_wf (JBool b) = True"
| "json_wf (JNumber n) = True"
| "json_wf (JString s) = True"
  by pat_completeness auto
termination
proof (relation "measure size", goal_cases)
  case (2 vs v)
  then show ?case by (simp add: size_list_estimation' less_Suc_eq_le)
next
  case (3 es p)
  then have "size (snd p) \<le> size_list (size_prod (\<lambda>_. 0) size) es"
    by (intro size_list_estimation') (auto simp: size_prod_simp)
  then show ?case by (simp add: less_Suc_eq_le)
qed simp

lemma map_of_sort_key:
  assumes "keys_distinct es"
  shows "map_of (sort_key fst es) = map_of es"
proof (rule map_of_inject_set [THEN iffD2])
  show "distinct (map fst (sort_key fst es))"
    using assms by (metis distinct_map distinct_sort inj_on_def keys_distinct_def set_sort sort_key_simps(1) distinct_sort)
  show "distinct (map fst es)" using assms by (simp add: keys_distinct_def)
qed simp

lemma map_of_canonical:
  "keys_distinct es \<Longrightarrow>
   map_of (map (\<lambda>p. (fst p, canonical_json (snd p))) (sort_key fst es)) k = map_option canonical_json (map_of es k)"
  using map_of_map [of canonical_json "sort_key fst es"]
  by (simp add: case_prod_beta' map_of_sort_key)

lemma json_child_canonical:
  assumes "json_wf v"
  shows "json_child st (canonical_json v) = map_option canonical_json (json_child st v)"
  using assms by (cases v; cases st) (auto simp: json_child_def map_of_canonical)

lemma json_child_wf: "json_wf v \<Longrightarrow> json_child st v = Some w \<Longrightarrow> json_wf w"
  by (cases v; cases st) (fastforce simp: json_child_def split: if_splits dest: map_of_SomeD)+

lemma json_at_canonical:
  "json_wf v \<Longrightarrow> json_at path (canonical_json v) = map_option canonical_json (json_at path v)"
proof (induction path arbitrary: v)
  case (Cons st path)
  then show ?case
    by (cases "json_child st v") (auto simp: json_child_canonical dest: json_child_wf)
qed simp

lemma shape_canonical [simp]: "json_shape_of (canonical_json v) = json_shape_of v"
  by (cases v) (auto simp: image_image)

lemma same_data_canonical: "json_wf v \<Longrightarrow> same_data v (canonical_json v)"
  by (simp add: same_data_def json_at_canonical option.map_comp comp_def)

lemma same_data_shape: "same_data x y \<Longrightarrow> json_shape_of x = json_shape_of y"
  unfolding same_data_def by (drule spec [of _ "[]"]) simp

lemma same_data_child:
  assumes "same_data x y" and "json_child st x = Some v" and "json_child st y = Some w"
  shows "same_data v w"
  unfolding same_data_def
proof
  fix path
  show "map_option json_shape_of (json_at path v) = map_option json_shape_of (json_at path w)"
    using assms unfolding same_data_def by (drule_tac spec [of _ "st # path"]) simp
qed

lemma sorted_alist_unique:
  assumes "keys_distinct es" and "keys_distinct fs" and "fst ` set es = fst ` set fs"
    and "\<And>k v w. map_of es k = Some v \<Longrightarrow> map_of fs k = Some w \<Longrightarrow> f v = f w"
  shows "map (\<lambda>p. (fst p, f (snd p))) (sort_key fst es) = map (\<lambda>p. (fst p, f (snd p))) (sort_key fst fs)"
proof -
  let ?es = "sort_key fst es" and ?fs = "sort_key fst fs"
  have dist: "distinct (map fst ?es)" "distinct (map fst ?fs)"
    using assms(1,2) by (simp_all add: keys_distinct_def distinct_map inj_on_def)
  have keys: "map fst ?es = map fst ?fs"
    by (rule sorted_distinct_set_unique) (simp_all add: dist assms(3))
  then have len: "length ?es = length ?fs" by (metis length_map)
  show ?thesis
  proof (rule nth_equalityI)
    fix i assume "i < length (map (\<lambda>p. (fst p, f (snd p))) ?es)"
    then have i: "i < length ?es" "i < length ?fs" using len by simp_all
    have key: "fst (?es ! i) = fst (?fs ! i)" using keys i by (metis nth_map)
    have "map_of ?es (fst (?es ! i)) = Some (snd (?es ! i))" "map_of ?fs (fst (?fs ! i)) = Some (snd (?fs ! i))"
      using dist i by (simp_all add: map_of_eq_Some_iff del: set_sort)
    then have "f (snd (?es ! i)) = f (snd (?fs ! i))"
      using assms(4) [of "fst (?es ! i)"] key assms(1,2) by (simp add: map_of_sort_key)
    then show "map (\<lambda>p. (fst p, f (snd p))) ?es ! i = map (\<lambda>p. (fst p, f (snd p))) ?fs ! i"
      using i key by simp
  qed (use len in simp)
qed

lemma canonical_of_same_data:
  "json_wf x \<Longrightarrow> json_wf y \<Longrightarrow> same_data x y \<Longrightarrow> canonical_json x = canonical_json y"
proof (induction x arbitrary: y rule: canonical_json.induct)
  case (1 vs)
  obtain ws where y: "y = JArray ws" "length ws = length vs"
    using same_data_shape [OF "1.prems"(3)] by (cases y) auto
  have "canonical_json (vs ! i) = canonical_json (ws ! i)" if "i < length vs" for i
    using that y "1.prems" "1.IH" [of "vs ! i" "ws ! i"] same_data_child [OF "1.prems"(3), of "StIndex i"]
    by (simp add: json_child_def)
  then show ?case using y by (simp add: list_eq_iff_nth_eq)
next
  case (2 es)
  obtain fs where y: "y = JObject fs" "fst ` set es = fst ` set fs"
    using same_data_shape [OF "2.prems"(3)] by (cases y) auto
  have "canonical_json v = canonical_json w" if "map_of es k = Some v" "map_of fs k = Some w" for k v w
  proof -
    have "(k, v) \<in> set (sort_key fst es)" "(k, w) \<in> set fs" using that by (auto dest: map_of_SomeD)
    then show ?thesis
      using "2.IH" [of "(k, v)" w] "2.prems"(1,2) y(1) that
        same_data_child [OF "2.prems"(3), of "StKey k" v w]
      by (force simp: json_child_def)
  qed
  then show ?case
    using sorted_alist_unique [OF _ _ y(2), of canonical_json] "2.prems"(1,2) y(1) by simp
qed (use same_data_shape in \<open>(case_tac y; fastforce)+\<close>)

lemma same_data_of_canonical:
  assumes "json_wf x" and "json_wf y" and "canonical_json x = canonical_json y"
  shows "same_data x y"
  using same_data_canonical [OF assms(1)] same_data_canonical [OF assms(2)] assms(3) by (simp add: same_data_def)

text \<open>
  The canonical form decides whether two JSON values hold the same data: it is equal exactly
  when, along every path, both have the same value, whatever the order of the entries of their
  objects.
\<close>

theorem canonical_json_decides:
  assumes "json_wf x" and "json_wf y"
  shows "canonical_json x = canonical_json y \<longleftrightarrow> same_data x y"
  using same_data_of_canonical [OF assms] canonical_of_same_data [OF assms] by blast

theorem canonical_json_decides_witness:
  "same_data (JObject [(''b'', JNull), (''a'', JArray [JBool True])])
     (JObject [(''a'', JArray [JBool True]), (''b'', JNull)])"
  by (subst canonical_json_decides [symmetric]) (simp_all add: keys_distinct_def)

section \<open>The names an npmrc refers to\<close>

lemma after_open_append:
  "after_open literal = None \<Longrightarrow> after_open (literal @ CHR ''$'' # CHR ''{'' # rest) = Some rest"
proof (induction literal rule: after_open.induct)
  case (1 a b cs)
  then show ?case by (cases cs) (auto split: if_splits)
qed auto

lemma split_close_append:
  "CHR ''}'' \<notin> set name \<Longrightarrow> split_close (name @ CHR ''}'' # rest) = Some (name, rest)"
  by (induction name) auto

definition npmrc_reference :: "string \<times> string \<Rightarrow> string" where
  "npmrc_reference r = fst r @ ''${'' @ snd r @ ''}''"

text \<open>
  The scan of an npmrc finds every variable reference, in order, between any texts that open
  none, and keeps exactly those whose name could be a variable.
\<close>

theorem referenced_env_names_complete:
  assumes "\<forall>r \<in> set refs. after_open (fst r) = None \<and> CHR ''}'' \<notin> set (snd r)"
    and "after_open rest = None"
  shows "referenced_env_names (concat (map npmrc_reference refs) @ rest) = filter env_name_ok (map snd refs)"
  using assms
proof (induction refs)
  case Nil
  then show ?case by (subst referenced_env_names.simps) simp
next
  case (Cons r refs)
  let ?tail = "concat (map npmrc_reference refs) @ rest"
  have "after_open (concat (map npmrc_reference (r # refs)) @ rest) = Some (snd r @ CHR ''}'' # ?tail)"
    using Cons.prems after_open_append [of "fst r" "snd r @ CHR ''}'' # ?tail"]
    by (simp add: npmrc_reference_def)
  moreover have "split_close (snd r @ CHR ''}'' # ?tail) = Some (snd r, ?tail)"
    using Cons.prems by (intro split_close_append) simp
  ultimately show ?case
    using Cons by (subst referenced_env_names.simps) simp
qed

theorem referenced_env_names_complete_witness:
  "referenced_env_names ''//r/:_auth=${TOK}${}x'' = [''TOK'']"
  using referenced_env_names_complete [of "[(''//r/:_auth='', ''TOK''), ([], [])]" "''x''"]
  by (simp add: npmrc_reference_def env_name_ok_def)

section \<open>Credentials\<close>

text \<open>A \<^verbatim>\<open>Url\<close>: the parts the code reads or removes, and the rest of its text.\<close>

record url =
  ul_scheme :: string
  ul_username :: string
  ul_password :: "string option"
  ul_host :: "string option"
  ul_rest :: string

text \<open>Parsing and printing of URLs.\<close>

record url_codec =
  uc_parse :: "string \<Rightarrow> url option"
  uc_print :: "url \<Rightarrow> string"

text \<open>
  \<^verbatim>\<open>RegistryConfig\<close>: what its \<open>has_auth\<close> answers, the two paths, and the rest of its fields, which are
  only compared.
\<close>

record registry_config =
  rg_fields :: "string option list"
  rg_has_auth :: bool
  rg_certfile :: "string option"
  rg_keyfile :: "string option"

record registry =
  ry_url :: url
  ry_config :: registry_config

datatype replace_registry_host =
    RhNpmJs | RhNever | RhAlways | RhHostname string | RhUrl url

record npmrc =
  nr_default :: registry
  nr_scopes :: "(string \<times> registry) list"
  nr_registry_configs :: "(string \<times> registry_config) list"
  nr_replace :: replace_registry_host
  nr_min_release_age_days :: "nat option"
  nr_no_downgrade :: bool
  nr_ignore_after_minutes :: "nat option"
  nr_exclude :: "string list"

record npm_config_fingerprint =
  nf_default_registry :: string
  nf_scoped_registries :: "(string \<times> string) list"
  nf_registry_configs :: "string list"
  nf_replace_registry_host :: string
  nf_min_release_age_days :: "nat option"
  nf_no_downgrade :: bool
  nf_ignore_after_minutes :: "nat option"
  nf_exclude :: "string list"

definition registry_config_has_sensitive :: "registry_config \<Rightarrow> bool" where
  "registry_config_has_sensitive c \<longleftrightarrow> rg_has_auth c \<or> rg_certfile c \<noteq> None \<or> rg_keyfile c \<noteq> None"

definition url_has_userinfo :: "url \<Rightarrow> bool" where
  "url_has_userinfo u \<longleftrightarrow> ul_username u \<noteq> [] \<or> ul_password u \<noteq> None"

definition key_candidate :: "string \<Rightarrow> string" where
  "key_candidate key = (if take 2 key = ''//'' then ''https:'' @ key else key)"

text \<open>\<open>candidate.split_once("://")\<close> and the part before the next slash.\<close>

fun after_scheme :: "string \<Rightarrow> string option" where
  "after_scheme (a # b # c # cs) =
     (if [a, b, c] = ''://'' then Some cs else after_scheme (b # c # cs))"
| "after_scheme _ = None"

definition registry_config_key_has_userinfo :: "url_codec \<Rightarrow> string \<Rightarrow> bool" where
  "registry_config_key_has_userinfo urls key =
     (case uc_parse urls (key_candidate key) of
        Some u \<Rightarrow> url_has_userinfo u
      | None \<Rightarrow>
          (case after_scheme (key_candidate key) of
             None \<Rightarrow> False
           | Some rest \<Rightarrow> CHR ''@'' \<in> set (takeWhile (\<lambda>c. c \<noteq> CHR ''/'') rest)))"

definition strip_userinfo :: "url \<Rightarrow> url" where
  "strip_userinfo u = u\<lparr>ul_username := [], ul_password := None\<rparr>"

definition public_registry_url :: "url_codec \<Rightarrow> url \<Rightarrow> string" where
  "public_registry_url urls u = uc_print urls (strip_userinfo u)"

definition public_registry_config_key :: "url_codec \<Rightarrow> string \<Rightarrow> string" where
  "public_registry_config_key urls key =
     (case uc_parse urls (key_candidate key) of
        Some u \<Rightarrow> public_registry_url urls u
      | None \<Rightarrow> if CHR ''@'' \<in> set (key_candidate key) then ''<redacted-registry>'' else key_candidate key)"

definition replace_registry_host_identity :: "url_codec \<Rightarrow> replace_registry_host \<Rightarrow> string" where
  "replace_registry_host_identity urls host =
     (case host of
        RhNpmJs \<Rightarrow> ''npmjs''
      | RhNever \<Rightarrow> ''never''
      | RhAlways \<Rightarrow> ''always''
      | RhHostname hostname \<Rightarrow> ''hostname:'' @ hostname
      | RhUrl u \<Rightarrow> ''url:'' @ public_registry_url urls u)"

definition replace_host_has_userinfo :: "replace_registry_host \<Rightarrow> bool" where
  "replace_host_has_userinfo host = (case host of RhUrl u \<Rightarrow> url_has_userinfo u | _ \<Rightarrow> False)"

definition registry_has_auth :: "registry \<Rightarrow> bool" where
  "registry_has_auth r \<longleftrightarrow> registry_config_has_sensitive (ry_config r) \<or> url_has_userinfo (ry_url r)"

definition npm_auth_presence :: "url_codec \<Rightarrow> npmrc \<Rightarrow> bool" where
  "npm_auth_presence urls n \<longleftrightarrow>
     registry_has_auth (nr_default n)
   \<or> list_ex (\<lambda>(scope, r). registry_has_auth r) (nr_scopes n)
   \<or> list_ex (\<lambda>(key, c). registry_config_has_sensitive c \<or> registry_config_key_has_userinfo urls key)
       (nr_registry_configs n)
   \<or> replace_host_has_userinfo (nr_replace n)"

text \<open>
  The closures of \<open>npm_config_fingerprint\<close> accumulate \<open>has_auth\<close> while they map the entries.
\<close>

definition map_with_auth :: "('a \<Rightarrow> bool) \<Rightarrow> ('a \<Rightarrow> 'b) \<Rightarrow> bool \<Rightarrow> 'a list \<Rightarrow> bool \<times> 'b list" where
  "map_with_auth auth f has_auth entries =
     (fold (\<lambda>e acc. acc \<or> auth e) entries has_auth, map f entries)"

definition npm_config_fingerprint_of :: "url_codec \<Rightarrow> npmrc \<Rightarrow> npm_config_fingerprint \<times> bool" where
  "npm_config_fingerprint_of urls n =
     (case map_with_auth (\<lambda>(scope, r). registry_has_auth r)
             (\<lambda>(scope, r). (scope, public_registry_url urls (ry_url r)))
             (registry_has_auth (nr_default n)) (nr_scopes n) of
        (has_auth, scoped) \<Rightarrow>
          (case map_with_auth
                  (\<lambda>(key, c). registry_config_has_sensitive c \<or> registry_config_key_has_userinfo urls key)
                  (\<lambda>(key, c). public_registry_config_key urls key) has_auth (nr_registry_configs n) of
             (has_auth, configs) \<Rightarrow>
               (\<lparr>nf_default_registry = public_registry_url urls (ry_url (nr_default n)),
                 nf_scoped_registries = sort scoped, nf_registry_configs = sort configs,
                 nf_replace_registry_host = replace_registry_host_identity urls (nr_replace n),
                 nf_min_release_age_days = nr_min_release_age_days n,
                 nf_no_downgrade = nr_no_downgrade n,
                 nf_ignore_after_minutes = nr_ignore_after_minutes n,
                 nf_exclude = remdups_adj (sort (nr_exclude n))\<rparr>,
                has_auth \<or> replace_host_has_userinfo (nr_replace n))))"

lemma fold_or: "fold (\<lambda>e acc. acc \<or> auth e) entries b \<longleftrightarrow> b \<or> list_ex auth entries"
  by (induction entries arbitrary: b) auto

text \<open>Everything of a configuration that is not a credential.\<close>

definition strip_registry :: "registry \<Rightarrow> url" where
  "strip_registry r = strip_userinfo (ry_url r)"

definition strip_host :: "replace_registry_host \<Rightarrow> replace_registry_host" where
  "strip_host host = (case host of RhUrl u \<Rightarrow> RhUrl (strip_userinfo u) | _ \<Rightarrow> host)"

definition same_but_credentials :: "npmrc \<Rightarrow> npmrc \<Rightarrow> bool" where
  "same_but_credentials n m \<longleftrightarrow>
     strip_registry (nr_default n) = strip_registry (nr_default m)
   \<and> mset (map (\<lambda>(s, r). (s, strip_registry r)) (nr_scopes n))
       = mset (map (\<lambda>(s, r). (s, strip_registry r)) (nr_scopes m))
   \<and> mset (map fst (nr_registry_configs n)) = mset (map fst (nr_registry_configs m))
   \<and> strip_host (nr_replace n) = strip_host (nr_replace m)
   \<and> nr_min_release_age_days n = nr_min_release_age_days m \<and> nr_no_downgrade n = nr_no_downgrade m
   \<and> nr_ignore_after_minutes n = nr_ignore_after_minutes m \<and> set (nr_exclude n) = set (nr_exclude m)"

lemma sort_mset_eq: "mset xs = mset ys \<Longrightarrow> sort xs = sort ys"
  by (metis properties_for_sort sorted_sort mset_sort)

lemma sorted_remdups_adj_distinct: "sorted xs \<Longrightarrow> distinct (remdups_adj xs)"
  by (induction xs rule: remdups_adj.induct) auto

lemma remdups_adj_sort: "set xs = set ys \<Longrightarrow> remdups_adj (sort xs) = remdups_adj (sort ys)"
proof -
  assume "set xs = set ys"
  moreover have "distinct (remdups_adj (sort zs))" for zs :: "'b :: linorder list"
    by (rule sorted_remdups_adj_distinct) simp
  ultimately show ?thesis
    by (intro sorted_distinct_set_unique) (simp_all add: sorted_remdups_adj)
qed

lemma npm_auth_of_fingerprint: "snd (npm_config_fingerprint_of urls n) = npm_auth_presence urls n"
  by (simp add: npm_config_fingerprint_of_def map_with_auth_def fold_or npm_auth_presence_def disj_assoc)

lemma npm_fingerprint_same:
  assumes same: "same_but_credentials n m"
  shows "fst (npm_config_fingerprint_of urls n) = fst (npm_config_fingerprint_of urls m)"
proof -
  have scoped: "sort (map (\<lambda>(s, r). (s, public_registry_url urls (ry_url r))) (nr_scopes m))
      = sort (map (\<lambda>(s, r). (s, public_registry_url urls (ry_url r))) (nr_scopes n))"
  proof (rule sort_mset_eq)
    have "image_mset (\<lambda>(s, u). (s, uc_print urls u)) (mset (map (\<lambda>(s, r). (s, strip_registry r)) (nr_scopes m)))
        = image_mset (\<lambda>(s, u). (s, uc_print urls u)) (mset (map (\<lambda>(s, r). (s, strip_registry r)) (nr_scopes n)))"
      using same by (simp add: same_but_credentials_def del: mset_map)
    then show "mset (map (\<lambda>(s, r). (s, public_registry_url urls (ry_url r))) (nr_scopes m))
        = mset (map (\<lambda>(s, r). (s, public_registry_url urls (ry_url r))) (nr_scopes n))"
      by (simp add: image_mset.compositionality comp_def case_prod_beta' public_registry_url_def strip_registry_def)
  qed
  have keys: "sort (map (\<lambda>(key, c). public_registry_config_key urls key) (nr_registry_configs m))
      = sort (map (\<lambda>(key, c). public_registry_config_key urls key) (nr_registry_configs n))"
  proof (rule sort_mset_eq)
    have "image_mset (public_registry_config_key urls) (mset (map fst (nr_registry_configs m)))
        = image_mset (public_registry_config_key urls) (mset (map fst (nr_registry_configs n)))"
      using same by (simp add: same_but_credentials_def del: mset_map)
    then show "mset (map (\<lambda>(key, c). public_registry_config_key urls key) (nr_registry_configs m))
        = mset (map (\<lambda>(key, c). public_registry_config_key urls key) (nr_registry_configs n))"
      by (simp add: image_mset.compositionality comp_def case_prod_beta')
  qed
  have replace: "replace_registry_host_identity urls (nr_replace m) = replace_registry_host_identity urls (nr_replace n)"
    using same unfolding same_but_credentials_def strip_host_def replace_registry_host_identity_def
    by (auto simp: public_registry_url_def split: replace_registry_host.splits)
  show ?thesis
    using same scoped keys replace remdups_adj_sort [of "nr_exclude m" "nr_exclude n"]
    by (simp add: npm_config_fingerprint_of_def map_with_auth_def same_but_credentials_def
        public_registry_url_def strip_registry_def)
qed

text \<open>
  The fingerprint of the npm configuration does not depend on credentials: two configurations
  that differ only in user names, passwords, tokens, certificates and the order of their
  entries have the same one; and the fingerprint and the separate test agree on whether there
  are credentials.
\<close>

theorem npm_fingerprint_credential_free:
  "snd (npm_config_fingerprint_of urls n) = npm_auth_presence urls n
   \<and> (\<forall>m. same_but_credentials n m \<longrightarrow>
        fst (npm_config_fingerprint_of urls m) = fst (npm_config_fingerprint_of urls n))"
  by (metis npm_auth_of_fingerprint npm_fingerprint_same)

definition example_urls :: url_codec where
  "example_urls = \<lparr>uc_parse = (\<lambda>s. None), uc_print = (\<lambda>u. ul_scheme u @ ul_username u @ ul_rest u)\<rparr>"

definition example_registry :: "string \<Rightarrow> registry" where
  "example_registry user =
     \<lparr>ry_url = \<lparr>ul_scheme = ''https://'', ul_username = user, ul_password = None,
                ul_host = Some ''npm.io'', ul_rest = ''npm.io/''\<rparr>,
      ry_config = \<lparr>rg_fields = [Some user], rg_has_auth = user \<noteq> [], rg_certfile = None, rg_keyfile = None\<rparr>\<rparr>"

definition example_npmrc :: "string \<Rightarrow> npmrc" where
  "example_npmrc user =
     \<lparr>nr_default = example_registry user, nr_scopes = [(''@b'', example_registry []), (''@a'', example_registry user)],
      nr_registry_configs = [], nr_replace = RhAlways, nr_min_release_age_days = None, nr_no_downgrade = False,
      nr_ignore_after_minutes = None, nr_exclude = [''x'']\<rparr>"

theorem npm_fingerprint_credential_free_witness:
  "fst (npm_config_fingerprint_of example_urls (example_npmrc ''me''))
     = fst (npm_config_fingerprint_of example_urls (example_npmrc []))"
proof -
  have "same_but_credentials (example_npmrc []) (example_npmrc ''me'')"
    by (simp add: same_but_credentials_def example_npmrc_def example_registry_def strip_registry_def
        strip_userinfo_def strip_host_def)
  then show ?thesis
    using npm_fingerprint_credential_free [of example_urls "example_npmrc []"] by simp
qed

end
