(* ===== verification/Ld_Manifest.thy ===== *)
theory Ld_Manifest
  imports Ld_Npm
begin

text \<open>
  The resolver input manifest of src/src/npm_cache.rs: what it records of the workspace, the
  probes of files, directories and environment, when it is still current and reusable, and the key
  it gives to a resolution snapshot. One state of the file system, the environment and the process
  is a \<open>world\<close>; parsing, hashing and the workspace of the upstream crates are parameters.
\<close>

section \<open>Paths\<close>

text \<open>The components of a path, in the order in which \<open>std::path::Component\<close> compares them.\<close>

datatype path_component = RootDir | CurDir | ParentDir | PcNormal string

type_synonym path = "path_component list"

fun component_rank :: "path_component \<Rightarrow> nat \<times> string" where
  "component_rank RootDir = (0, [])"
| "component_rank CurDir = (1, [])"
| "component_rank ParentDir = (2, [])"
| "component_rank (PcNormal name) = (3, name)"

lemma component_rank_inject: "component_rank a = component_rank b \<longleftrightarrow> a = b"
  by (cases a; cases b) auto

instantiation path_component :: linorder
begin

definition less_eq_path_component :: "path_component \<Rightarrow> path_component \<Rightarrow> bool" where
  "less_eq_path_component a b \<longleftrightarrow> component_rank a \<le> component_rank b"

definition less_path_component :: "path_component \<Rightarrow> path_component \<Rightarrow> bool" where
  "less_path_component a b \<longleftrightarrow> component_rank a < component_rank b"

instance
  by standard (auto simp: less_eq_path_component_def less_path_component_def component_rank_inject
      dest: order_antisym)

end

definition path_is_absolute :: "path \<Rightarrow> bool" where
  "path_is_absolute p \<longleftrightarrow> (case p of RootDir # _ \<Rightarrow> True | _ \<Rightarrow> False)"

definition join_path :: "path \<Rightarrow> path \<Rightarrow> path" where
  "join_path dir p = (if path_is_absolute p then p else dir @ p)"

definition path_parent :: "path \<Rightarrow> path option" where
  "path_parent p = (if p = [] \<or> last p = RootDir then None else Some (butlast p))"

definition file_name :: "path \<Rightarrow> string option" where
  "file_name p = (if p = [] then None else case last p of PcNormal name \<Rightarrow> Some name | _ \<Rightarrow> None)"

function ancestors :: "path \<Rightarrow> path list" where
  "ancestors p = p # (case path_parent p of None \<Rightarrow> [] | Some dir \<Rightarrow> ancestors dir)"
  by pat_completeness auto
termination
  by (relation "measure length") (auto simp: path_parent_def split: if_splits)

declare ancestors.simps [simp del]

section \<open>The world the probes look at\<close>

record metadata =
  md_modified :: "int option"
  md_len :: "64 word"

record world =
  wd_var :: "string \<Rightarrow> string option"
  wd_var_os :: "string \<Rightarrow> string option"
  wd_current_dir :: "path option"
  wd_home_dir :: "path option"
  wd_canonicalize :: "path \<Rightarrow> path option"
  wd_read :: "path \<Rightarrow> string option"
  wd_read_to_string :: "path \<Rightarrow> string option"
  wd_metadata :: "path \<Rightarrow> metadata option"
  wd_symlink_metadata :: "path \<Rightarrow> (bool \<times> metadata) option"
  wd_read_link :: "path \<Rightarrow> path option"
  wd_exists :: "path \<Rightarrow> bool"

text \<open>\<open>DefaultHasher\<close> over the bytes, and over what \<open>path_probe_fingerprint\<close> feeds to it.\<close>

type_synonym fingerprint = "(64 word \<times> 64 word) option"

type_synonym link_data =
  "bool \<times> 64 word \<times> 64 word option \<times> path option \<times> path option \<times> fingerprint"

record codecs =
  cd_urls :: url_codec
  cd_trim :: "string \<Rightarrow> string"
  cd_hash_bytes :: "string \<Rightarrow> 64 word"
  cd_hash_link :: "link_data \<Rightarrow> 64 word"
  cd_to_vec :: "json \<Rightarrow> string"

definition absolute_path :: "world \<Rightarrow> path \<Rightarrow> path" where
  "absolute_path w p =
     (if path_is_absolute p then p
      else join_path (case wd_current_dir w of Some d \<Rightarrow> d | None \<Rightarrow> [CurDir]) p)"

definition canonical_path :: "world \<Rightarrow> path \<Rightarrow> path" where
  "canonical_path w p =
     (case wd_canonicalize w p of
        Some c \<Rightarrow> c
      | None \<Rightarrow>
          (let absolute = absolute_path w p
           in case file_name absolute of
                None \<Rightarrow> absolute
              | Some name \<Rightarrow>
                  (case Option.bind (path_parent absolute) (wd_canonicalize w) of
                     Some parent \<Rightarrow> join_path parent [PcNormal name]
                   | None \<Rightarrow> absolute)))"

text \<open>\<open>duration_since(UNIX_EPOCH)\<close> fails for an earlier time; \<open>as u64\<close> truncates the nanoseconds.\<close>

definition meta_fingerprint :: "metadata \<Rightarrow> 64 word option" where
  "meta_fingerprint m =
     (case md_modified m of
        None \<Rightarrow> None
      | Some t \<Rightarrow> if t < 0 then None else Some (word_of_int t))"

definition metadata_fingerprint :: "world \<Rightarrow> path \<Rightarrow> fingerprint" where
  "metadata_fingerprint w p =
     Option.bind (wd_metadata w p) (\<lambda>m. map_option (\<lambda>f. (f, md_len m)) (meta_fingerprint m))"

definition content_fingerprint :: "codecs \<Rightarrow> world \<Rightarrow> path \<Rightarrow> fingerprint" where
  "content_fingerprint cd w p =
     map_option (\<lambda>bytes. (cd_hash_bytes cd bytes, word_of_nat (length bytes))) (wd_read w p)"

definition link_data_of :: "world \<Rightarrow> path \<Rightarrow> fingerprint \<Rightarrow> bool \<times> metadata \<Rightarrow> link_data" where
  "link_data_of w p target lm =
     (fst lm, md_len (snd lm), meta_fingerprint (snd lm), wd_read_link w p, wd_canonicalize w p, target)"

definition path_probe_fingerprint :: "codecs \<Rightarrow> world \<Rightarrow> path \<Rightarrow> fingerprint \<Rightarrow> fingerprint" where
  "path_probe_fingerprint cd w p target =
     map_option (\<lambda>lm. (cd_hash_link cd (link_data_of w p target lm),
                        case target of None \<Rightarrow> 0 | Some (h, len) \<Rightarrow> len))
       (wd_symlink_metadata w p)"

datatype file_probe_kind = FkContent | FkMetadata

fun kind_rank :: "file_probe_kind \<Rightarrow> nat" where
  "kind_rank FkContent = 0"
| "kind_rank FkMetadata = 1"

definition current_file_fingerprint :: "codecs \<Rightarrow> world \<Rightarrow> path \<Rightarrow> file_probe_kind \<Rightarrow> fingerprint" where
  "current_file_fingerprint cd w p kind =
     path_probe_fingerprint cd w p
       (case kind of
          FkContent \<Rightarrow> content_fingerprint cd w p
        | FkMetadata \<Rightarrow> metadata_fingerprint w p)"

definition current_directory_fingerprint :: "codecs \<Rightarrow> world \<Rightarrow> path \<Rightarrow> fingerprint" where
  "current_directory_fingerprint cd w p = path_probe_fingerprint cd w p (metadata_fingerprint w p)"

record file_probe_rec =
  fp_path :: path
  fp_kind :: file_probe_kind
  fp_fingerprint :: fingerprint

definition file_probe :: "codecs \<Rightarrow> world \<Rightarrow> path \<Rightarrow> file_probe_kind \<Rightarrow> file_probe_rec" where
  "file_probe cd w p kind =
     (let path = absolute_path w p
      in \<lparr>fp_path = path, fp_kind = kind, fp_fingerprint = current_file_fingerprint cd w path kind\<rparr>)"

definition global_npmrc_path :: "world \<Rightarrow> path option" where
  "global_npmrc_path w =
     map_option (\<lambda>home. absolute_path w (join_path home [PcNormal ''.npmrc''])) (wd_home_dir w)"

section \<open>The environment\<close>

record env_value_probe =
  ev_name :: string
  ev_fingerprint :: fingerprint

record environment_probe_rec =
  ep_deno_dir :: "string option"
  ep_no_package_json :: bool
  ep_jsr_url :: "string option"
  ep_jsr_url_has_auth :: bool
  ep_registry :: "string option"
  ep_registry_has_auth :: bool
  ep_replace_registry_host :: "string option"
  ep_replace_registry_host_has_auth :: bool
  ep_min_release_age :: "string option"
  ep_global_npmrc :: "path option"
  ep_referenced_npmrc_vars :: "env_value_probe list"

text \<open>The first of several variables that is set, as the loops with \<open>continue\<close> and \<open>return\<close> find it.\<close>

primrec env_scalar_identity :: "world \<Rightarrow> string list \<Rightarrow> string option" where
  "env_scalar_identity w [] = None"
| "env_scalar_identity w (name # names) =
     (case wd_var w name of Some v \<Rightarrow> Some v | None \<Rightarrow> env_scalar_identity w names)"

definition env_url_identity :: "codecs \<Rightarrow> world \<Rightarrow> string list \<Rightarrow> string option" where
  "env_url_identity cd w names =
     map_option (\<lambda>v. case uc_parse (cd_urls cd) v of
                       Some u \<Rightarrow> public_registry_url (cd_urls cd) u
                     | None \<Rightarrow> ''<invalid>'')
       (env_scalar_identity w names)"

definition env_url_has_userinfo :: "codecs \<Rightarrow> world \<Rightarrow> string list \<Rightarrow> bool" where
  "env_url_has_userinfo cd w names =
     (case env_scalar_identity w names of
        None \<Rightarrow> False
      | Some v \<Rightarrow> (case uc_parse (cd_urls cd) v of Some u \<Rightarrow> url_has_userinfo u | None \<Rightarrow> False))"

definition parse_with_host :: "codecs \<Rightarrow> string \<Rightarrow> url option" where
  "parse_with_host cd text =
     (case uc_parse (cd_urls cd) text of
        Some u \<Rightarrow> if ul_host u \<noteq> None then Some u else None
      | None \<Rightarrow> None)"

text \<open>\<open>rsplit_once('@')\<close>: the text after the last \<^verbatim>\<open>@\<close>, or all of it.\<close>

definition after_last_at :: "string \<Rightarrow> string" where
  "after_last_at s = rev (takeWhile (\<lambda>c. c \<noteq> CHR ''@'') (rev s))"

definition env_replace_registry_hostname_identity :: "codecs \<Rightarrow> string \<Rightarrow> string" where
  "env_replace_registry_hostname_identity cd v =
     (case parse_with_host cd (''https://'' @ v) of
        Some u \<Rightarrow> public_registry_url (cd_urls cd) u
      | None \<Rightarrow> after_last_at v)"

definition REPLACE_HOST_NAMES :: "string list" where
  "REPLACE_HOST_NAMES = [''NPM_CONFIG_REPLACE_REGISTRY_HOST'', ''npm_config_replace_registry_host'']"

definition env_replace_registry_host_identity :: "codecs \<Rightarrow> world \<Rightarrow> string option" where
  "env_replace_registry_host_identity cd w =
     map_option (\<lambda>v.
       let t = cd_trim cd v
       in if t \<in> {[], ''npmjs'', ''never'', ''always''} then t
          else case parse_with_host cd t of
                 Some u \<Rightarrow> ''url:'' @ public_registry_url (cd_urls cd) u
               | None \<Rightarrow> ''hostname:'' @ env_replace_registry_hostname_identity cd t)
       (env_scalar_identity w REPLACE_HOST_NAMES)"

definition env_replace_registry_host_has_auth :: "codecs \<Rightarrow> world \<Rightarrow> bool" where
  "env_replace_registry_host_has_auth cd w =
     (case env_scalar_identity w REPLACE_HOST_NAMES of
        None \<Rightarrow> False
      | Some v \<Rightarrow> (case parse_with_host cd (cd_trim cd v) of
                    Some u \<Rightarrow> url_has_userinfo u
                  | None \<Rightarrow> False))"

definition env_value_fingerprint :: "codecs \<Rightarrow> world \<Rightarrow> string \<Rightarrow> fingerprint" where
  "env_value_fingerprint cd w name =
     map_option (\<lambda>v. (cd_hash_bytes cd v, word_of_nat (length v))) (wd_var w name)"

definition npmrc_env_names :: "world \<Rightarrow> path \<Rightarrow> string list" where
  "npmrc_env_names w p =
     (case wd_read_to_string w p of None \<Rightarrow> [] | Some text \<Rightarrow> referenced_env_names text)"

definition referenced_vars :: "codecs \<Rightarrow> world \<Rightarrow> file_probe_rec list \<Rightarrow> env_value_probe list" where
  "referenced_vars cd w files =
     map (\<lambda>name. \<lparr>ev_name = name, ev_fingerprint = env_value_fingerprint cd w name\<rparr>)
       (remdups_adj (sort (concat (map (\<lambda>f. npmrc_env_names w (fp_path f))
          (filter (\<lambda>f. fp_kind f = FkContent \<and> file_name (fp_path f) = Some ''.npmrc'') files)))))"

definition environment_values ::
  "codecs \<Rightarrow> world \<Rightarrow> path option \<Rightarrow> env_value_probe list \<Rightarrow> environment_probe_rec" where
  "environment_values cd w global_npmrc vars =
     \<lparr>ep_deno_dir = wd_var_os w ''DENO_DIR'',
      ep_no_package_json = (wd_var_os w ''DENO_NO_PACKAGE_JSON'' = Some ''1''),
      ep_jsr_url = env_url_identity cd w [''JSR_URL''],
      ep_jsr_url_has_auth = env_url_has_userinfo cd w [''JSR_URL''],
      ep_registry = env_url_identity cd w [''NPM_CONFIG_REGISTRY'', ''npm_config_registry''],
      ep_registry_has_auth = env_url_has_userinfo cd w [''NPM_CONFIG_REGISTRY'', ''npm_config_registry''],
      ep_replace_registry_host = env_replace_registry_host_identity cd w,
      ep_replace_registry_host_has_auth = env_replace_registry_host_has_auth cd w,
      ep_min_release_age =
        env_scalar_identity w [''NPM_CONFIG_MIN_RELEASE_AGE'', ''npm_config_min_release_age''],
      ep_global_npmrc = global_npmrc,
      ep_referenced_npmrc_vars = vars\<rparr>"

definition environment_probe ::
  "codecs \<Rightarrow> world \<Rightarrow> file_probe_rec list \<Rightarrow> bool \<Rightarrow> path option \<Rightarrow> environment_probe_rec" where
  "environment_probe cd w files npmrc_has_auth global_npmrc =
     environment_values cd w global_npmrc
       (sort_key ev_name (if npmrc_has_auth then [] else referenced_vars cd w files))"

definition current_environment_probe ::
  "codecs \<Rightarrow> world \<Rightarrow> environment_probe_rec \<Rightarrow> environment_probe_rec" where
  "current_environment_probe cd w baseline =
     environment_values cd w (global_npmrc_path w)
       (map (\<lambda>p. \<lparr>ev_name = ev_name p, ev_fingerprint = env_value_fingerprint cd w (ev_name p)\<rparr>)
          (ep_referenced_npmrc_vars baseline))"

section \<open>The manifest\<close>

text \<open>\<^verbatim>\<open>anyhow::Error\<close> is kept as its text.\<close>

type_synonym 'a anyhow = "string + 'a"

record semantic_fingerprint =
  sf_path :: path
  sf_hash :: "64 word"

record directory_probe =
  dp_path :: path
  dp_fingerprint :: fingerprint

record root_path_probe =
  rp_path :: path
  rp_identity :: path

record resolver_input_identity =
  ri_initial_cwd :: path
  ri_workspace_root :: path
  ri_discovery_dir :: path
  ri_members :: "path list"
  ri_links :: "path list"
  ri_configs :: "semantic_fingerprint list"
  ri_external_configs :: "semantic_fingerprint list"
  ri_packages :: "semantic_fingerprint list"
  ri_npmrc :: npm_config_fingerprint
  ri_lockfile :: "path option"
  ri_lockfile_present :: bool
  ri_byonm :: bool

record resolver_input_probe =
  rb_files :: "file_probe_rec list"
  rb_byonm_node_modules :: "directory_probe list"
  rb_managed_root :: "root_path_probe option"
  rb_npmrc_has_auth :: bool
  rb_environment :: environment_probe_rec

record manifest =
  mf_identity :: resolver_input_identity
  mf_probe :: resolver_input_probe

text \<open>
  What the code asks of a \<^verbatim>\<open>WorkspaceDirectory\<close>. A configuration is the path of its specifier, if
  it is a file, its value as JSON and its import map; folders are the paths of their URLs.
\<close>

record deno_json_file =
  dj_path :: "path option"
  dj_json :: "json anyhow"
  dj_import_map_path :: "path option anyhow"
  dj_import_map_value :: "json option anyhow"

record workspace =
  wk_dir_path :: path
  wk_root_dir_path :: path
  wk_deno_jsons :: "deno_json_file list"
  wk_package_jsons :: "(path \<times> json anyhow) list"
  wk_link_pkg_jsons :: "(path \<times> json anyhow) list"
  wk_config_folders :: "path option list"
  wk_link_folders :: "path option list"
  wk_lockfile_path :: "path option anyhow"
  wk_root_deno_json_dir :: "path option"
  wk_root_pkg_json :: "path option"

record resolver_inputs =
  rs_npmrc_path :: "path option"
  rs_byonm :: bool
  rs_node_modules_path :: "path option"
  rs_managed_root_path :: "path option"

definition semantic_hash :: "codecs \<Rightarrow> json anyhow \<Rightarrow> 64 word anyhow" where
  "semantic_hash cd value_json =
     bind_res value_json (\<lambda>v. Inr (cd_hash_bytes cd (cd_to_vec cd (canonical_json v))))"

text \<open>A loop over a list that stops at the first error; the body gives the elements it pushes.\<close>

primrec push_each :: "('a \<Rightarrow> 'b list anyhow) \<Rightarrow> 'a list \<Rightarrow> 'b list anyhow" where
  "push_each f [] = Inr []"
| "push_each f (x # xs) = bind_res (f x) (\<lambda>ys. bind_res (push_each f xs) (\<lambda>zs. Inr (ys @ zs)))"

text \<open>\<open>dedup_by\<close> with the equality of a key: the first of equal neighbours stays.\<close>

fun dedup_by_key :: "('a \<Rightarrow> 'k) \<Rightarrow> 'a list \<Rightarrow> 'a list" where
  "dedup_by_key f (x # y # xs) =
     (if f x = f y then dedup_by_key f (x # xs) else x # dedup_by_key f (y # xs))"
| "dedup_by_key f xs = xs"

definition normalize_paths :: "path list \<Rightarrow> path list" where
  "normalize_paths ps = remdups_adj (sort ps)"

definition normalize_semantic_fingerprints :: "semantic_fingerprint list \<Rightarrow> semantic_fingerprint list" where
  "normalize_semantic_fingerprints ps = dedup_by_key sf_path (sort_key sf_path ps)"

definition normalize_file_probes :: "file_probe_rec list \<Rightarrow> file_probe_rec list" where
  "normalize_file_probes ps =
     dedup_by_key (\<lambda>p. (fp_path p, fp_kind p)) (sort_key (\<lambda>p. (fp_path p, kind_rank (fp_kind p))) ps)"

definition collect_byonm_node_modules_paths :: "world \<Rightarrow> path list \<Rightarrow> path list" where
  "collect_byonm_node_modules_paths w dirs =
     concat (map (\<lambda>dir. map (\<lambda>a. absolute_path w (join_path a [PcNormal ''node_modules''])) (ancestors dir)) dirs)"

definition discovery_candidate_dirs :: "world \<Rightarrow> path \<Rightarrow> path list \<Rightarrow> path list" where
  "discovery_candidate_dirs w initial_cwd start_paths =
     ancestors (canonical_path w initial_cwd)
     @ concat (map (\<lambda>p. ancestors (canonical_path w p)) start_paths)"

definition map_ok :: "('a \<Rightarrow> 'b) \<Rightarrow> 'a anyhow \<Rightarrow> 'b anyhow" where
  "map_ok f r = bind_res r (\<lambda>x. Inr (f x))"

definition the_list :: "'a option \<Rightarrow> 'a list" where
  "the_list x = (case x of None \<Rightarrow> [] | Some y \<Rightarrow> [y])"

definition manifest_configs :: "codecs \<Rightarrow> world \<Rightarrow> workspace \<Rightarrow> semantic_fingerprint list anyhow" where
  "manifest_configs cd w wk =
     map_ok normalize_semantic_fingerprints
       (push_each (\<lambda>c. case dj_path c of
            None \<Rightarrow> Inr []
          | Some p \<Rightarrow> bind_res (semantic_hash cd (dj_json c))
              (\<lambda>h. Inr [\<lparr>sf_path = canonical_path w p, sf_hash = h\<rparr>])) (wk_deno_jsons wk))"

text \<open>Each step gives the path it probes and, if the import map has a value, its fingerprint.\<close>

definition external_steps ::
  "codecs \<Rightarrow> world \<Rightarrow> workspace \<Rightarrow> (path \<times> semantic_fingerprint option) list anyhow" where
  "external_steps cd w wk =
     push_each (\<lambda>c. bind_res (dj_import_map_path c) (\<lambda>path.
         case path of
           None \<Rightarrow> Inr []
         | Some p \<Rightarrow> bind_res (dj_import_map_value c) (\<lambda>v.
             case v of
               None \<Rightarrow> Inr [(absolute_path w p, None)]
             | Some j \<Rightarrow> bind_res (semantic_hash cd (Inr j)) (\<lambda>h.
                 Inr [(absolute_path w p, Some \<lparr>sf_path = canonical_path w p, sf_hash = h\<rparr>)]))))
       (wk_deno_jsons wk)"

definition manifest_packages :: "codecs \<Rightarrow> world \<Rightarrow> workspace \<Rightarrow> semantic_fingerprint list anyhow" where
  "manifest_packages cd w wk =
     map_ok normalize_semantic_fingerprints
       (push_each (\<lambda>(p, j). bind_res (semantic_hash cd j)
            (\<lambda>h. Inr [\<lparr>sf_path = canonical_path w p, sf_hash = h\<rparr>]))
          (wk_package_jsons wk @ wk_link_pkg_jsons wk))"

definition folder_paths :: "world \<Rightarrow> path option list \<Rightarrow> path list" where
  "folder_paths w folders = normalize_paths (map (canonical_path w) (List.map_filter (\<lambda>f. f) folders))"

definition parent_dirs :: "semantic_fingerprint list \<Rightarrow> path list" where
  "parent_dirs entries = List.map_filter (\<lambda>e. path_parent (sf_path e)) entries"

definition scope_dirs_of ::
  "world \<Rightarrow> path \<Rightarrow> path list \<Rightarrow> workspace \<Rightarrow> semantic_fingerprint list \<Rightarrow> path list" where
  "scope_dirs_of w initial_cwd start_paths wk entries =
     normalize_paths ([wk_dir_path wk, wk_root_dir_path wk]
       @ discovery_candidate_dirs w initial_cwd start_paths
       @ folder_paths w (wk_config_folders wk) @ folder_paths w (wk_link_folders wk)
       @ parent_dirs entries)"

definition MANIFEST_CANDIDATE_FILE_NAMES :: "string list" where
  "MANIFEST_CANDIDATE_FILE_NAMES = [''deno.json'', ''deno.jsonc'', ''package.json'']"

definition dir_probes :: "codecs \<Rightarrow> world \<Rightarrow> file_probe_kind \<Rightarrow> path \<Rightarrow> file_probe_rec list" where
  "dir_probes cd w npmrc_kind dir =
     map (\<lambda>name. file_probe cd w (join_path dir [PcNormal name]) FkContent) MANIFEST_CANDIDATE_FILE_NAMES
     @ [file_probe cd w (join_path dir [PcNormal ''package.json'']) FkContent,
        file_probe cd w (join_path dir [PcNormal ''.npmrc'']) npmrc_kind]"

definition npmrc_probe_kind :: "bool \<Rightarrow> file_probe_kind" where
  "npmrc_probe_kind has_auth = (if has_auth then FkMetadata else FkContent)"

definition manifest_files ::
  "codecs \<Rightarrow> world \<Rightarrow> path list \<Rightarrow> path list \<Rightarrow> path list \<Rightarrow> bool \<Rightarrow> path option \<Rightarrow> path option
   \<Rightarrow> file_probe_rec list" where
  "manifest_files cd w semantic_paths external_paths scope_dirs has_auth npmrc_path lockfile_path =
     normalize_file_probes
       (map (\<lambda>p. file_probe cd w p FkContent) (semantic_paths @ external_paths)
        @ concat (map (dir_probes cd w (npmrc_probe_kind has_auth)) scope_dirs)
        @ map (\<lambda>p. file_probe cd w p (npmrc_probe_kind has_auth))
            (the_list npmrc_path @ the_list (global_npmrc_path w))
        @ map (\<lambda>p. file_probe cd w p FkContent) (the_list lockfile_path))"

definition byonm_paths :: "world \<Rightarrow> path list \<Rightarrow> resolver_inputs \<Rightarrow> path list" where
  "byonm_paths w scope_dirs rs =
     (if rs_byonm rs
      then normalize_paths (collect_byonm_node_modules_paths w scope_dirs
             @ map (absolute_path w) (the_list (rs_node_modules_path rs)))
      else [])"

definition root_path_probe_of :: "world \<Rightarrow> path \<Rightarrow> root_path_probe" where
  "root_path_probe_of w p =
     \<lparr>rp_path = absolute_path w p, rp_identity = canonical_path w (absolute_path w p)\<rparr>"

definition manifest_probe ::
  "codecs \<Rightarrow> world \<Rightarrow> path list \<Rightarrow> file_probe_rec list \<Rightarrow> bool \<Rightarrow> resolver_inputs \<Rightarrow> resolver_input_probe" where
  "manifest_probe cd w scope_dirs files has_auth rs =
     \<lparr>rb_files = files,
      rb_byonm_node_modules =
        map (\<lambda>p. \<lparr>dp_path = p, dp_fingerprint = current_directory_fingerprint cd w p\<rparr>)
          (byonm_paths w scope_dirs rs),
      rb_managed_root = map_option (root_path_probe_of w) (rs_managed_root_path rs),
      rb_npmrc_has_auth = has_auth,
      rb_environment = environment_probe cd w files has_auth (global_npmrc_path w)\<rparr>"

definition manifest_from_workspace ::
  "codecs \<Rightarrow> world \<Rightarrow> path \<Rightarrow> path list \<Rightarrow> workspace \<Rightarrow> npmrc \<Rightarrow> resolver_inputs \<Rightarrow> manifest anyhow" where
  "manifest_from_workspace cd w initial_cwd start_paths wk n rs =
     (case npm_config_fingerprint_of (cd_urls cd) n of
        (npmrc_identity, has_auth) \<Rightarrow>
          bind_res (manifest_configs cd w wk) (\<lambda>configs.
          bind_res (external_steps cd w wk) (\<lambda>external.
          bind_res (manifest_packages cd w wk) (\<lambda>packages.
          bind_res (wk_lockfile_path wk) (\<lambda>lockfile_path.
            (let external_configs = normalize_semantic_fingerprints (List.map_filter snd external);
                 scope_dirs = scope_dirs_of w initial_cwd start_paths wk (configs @ external_configs @ packages);
                 files = manifest_files cd w (map sf_path (configs @ packages)) (map fst external)
                   scope_dirs has_auth (rs_npmrc_path rs) lockfile_path
             in Inr \<lparr>mf_identity =
                        \<lparr>ri_initial_cwd = canonical_path w initial_cwd,
                         ri_workspace_root = canonical_path w (wk_root_dir_path wk),
                         ri_discovery_dir = canonical_path w (wk_dir_path wk),
                         ri_members = folder_paths w (wk_config_folders wk),
                         ri_links = folder_paths w (wk_link_folders wk),
                         ri_configs = configs, ri_external_configs = external_configs, ri_packages = packages,
                         ri_npmrc = npmrc_identity,
                         ri_lockfile = map_option (canonical_path w) lockfile_path,
                         ri_lockfile_present = (case lockfile_path of Some p \<Rightarrow> wd_exists w p | None \<Rightarrow> False),
                         ri_byonm = rs_byonm rs\<rparr>,
                      mf_probe = manifest_probe cd w scope_dirs files has_auth rs\<rparr>))))))"

definition is_current :: "codecs \<Rightarrow> world \<Rightarrow> manifest \<Rightarrow> bool" where
  "is_current cd w m =
     (let probe = mf_probe m
      in if list_ex (\<lambda>p. current_file_fingerprint cd w (fp_path p) (fp_kind p) \<noteq> fp_fingerprint p) (rb_files probe)
         then False
         else if (case rb_managed_root probe of
                    Some r \<Rightarrow> canonical_path w (rp_path r) \<noteq> rp_identity r
                  | None \<Rightarrow> False)
         then False
         else if list_ex (\<lambda>d. current_directory_fingerprint cd w (dp_path d) \<noteq> dp_fingerprint d)
                (rb_byonm_node_modules probe)
         then False
         else current_environment_probe cd w (rb_environment probe) = rb_environment probe)"

definition is_reusable :: "codecs \<Rightarrow> world \<Rightarrow> manifest \<Rightarrow> bool" where
  "is_reusable cd w m =
     (if rb_npmrc_has_auth (mf_probe m) \<or> ep_jsr_url_has_auth (rb_environment (mf_probe m)) then False
      else is_current cd w m)"

text \<open>The key of the snapshot cache is the identity itself.\<close>

definition managed_snapshot_key :: "manifest \<Rightarrow> resolver_input_identity option" where
  "managed_snapshot_key m =
     (if ri_byonm (mf_identity m) \<or> ri_lockfile_present (mf_identity m) \<or> rb_npmrc_has_auth (mf_probe m)
      then None
      else Some (mf_identity m))"

section \<open>Building against a changing workspace\<close>

text \<open>
  What one workspace factory and its resolver answer, in the state of the world at that time. An
  error of a factory or of the resolver is an answer.
\<close>

record factory_view =
  fv_world :: world
  fv_workspace :: "workspace anyhow"
  fv_npmrc :: "(npmrc \<times> path option) anyhow"
  fv_use_byonm :: "bool anyhow"
  fv_root_node_modules :: "path option anyhow"

definition resolver_byonm_and_root_node_modules_path :: "factory_view \<Rightarrow> (bool \<times> path option) anyhow" where
  "resolver_byonm_and_root_node_modules_path v =
     bind_res (fv_use_byonm v) (\<lambda>byonm. map_ok (\<lambda>root. (byonm, root)) (fv_root_node_modules v))"

definition managed_root_node_modules_path :: "path \<Rightarrow> factory_view \<Rightarrow> path option anyhow" where
  "managed_root_node_modules_path initial_cwd v =
     bind_res (resolver_byonm_and_root_node_modules_path v) (\<lambda>(byonm, configured_root).
       if byonm \<or> configured_root = None then Inr None
       else bind_res (fv_workspace v) (\<lambda>wk.
         (let root = (case wk_root_deno_json_dir wk of
                        Some d \<Rightarrow> d
                      | None \<Rightarrow>
                          (case Option.bind (wk_root_pkg_json wk) path_parent of
                             Some d \<Rightarrow> d
                           | None \<Rightarrow> initial_cwd))
          in Inr (Some (join_path root [PcNormal ''node_modules''])))))"

record built_view =
  bv_manifest :: manifest
  bv_npmrc :: npmrc
  bv_node_modules_path :: "path option"
  bv_managed_root :: "path option"

definition build_view :: "codecs \<Rightarrow> path \<Rightarrow> path list \<Rightarrow> factory_view \<Rightarrow> built_view anyhow" where
  "build_view cd initial_cwd start_paths v =
     bind_res (fv_workspace v) (\<lambda>wk.
     bind_res (fv_npmrc v) (\<lambda>(n, npmrc_path).
     bind_res (resolver_byonm_and_root_node_modules_path v) (\<lambda>(byonm, node_modules_path).
     bind_res (managed_root_node_modules_path initial_cwd v) (\<lambda>managed_root.
     bind_res (manifest_from_workspace cd (fv_world v) initial_cwd start_paths wk n
         \<lparr>rs_npmrc_path = npmrc_path, rs_byonm = byonm, rs_node_modules_path = node_modules_path,
          rs_managed_root_path = managed_root\<rparr>) (\<lambda>m.
       Inr \<lparr>bv_manifest = m, bv_npmrc = n, bv_node_modules_path = node_modules_path,
            bv_managed_root = managed_root\<rparr>)))))"

definition npm_sensitive_state_equal :: "url_codec \<Rightarrow> npmrc \<Rightarrow> npmrc \<Rightarrow> bool" where
  "npm_sensitive_state_equal urls l r \<longleftrightarrow>
     npm_auth_presence urls l = npm_auth_presence urls r
   \<and> nr_default l = nr_default r
   \<and> mset (nr_scopes l) = mset (nr_scopes r)
   \<and> mset (nr_registry_configs l) = mset (nr_registry_configs r)
   \<and> nr_replace l = nr_replace r"

definition RESOLVER_INPUTS_CHANGED :: string where
  "RESOLVER_INPUTS_CHANGED = ''resolver inputs changed during construction''"

text \<open>
  \<open>root_node_modules_path_equal\<close> canonicalises both paths after the second build, in the world
  \<open>w\<close> of that moment.
\<close>

definition root_node_modules_path_equal :: "world \<Rightarrow> path option \<Rightarrow> path option \<Rightarrow> bool" where
  "root_node_modules_path_equal w l r \<longleftrightarrow> map_option (canonical_path w) l = map_option (canonical_path w) r"

definition resolver_input_manifest ::
  "codecs \<Rightarrow> world \<Rightarrow> path \<Rightarrow> path list \<Rightarrow> factory_view \<Rightarrow> factory_view anyhow \<Rightarrow> manifest anyhow" where
  "resolver_input_manifest cd w initial_cwd start_paths original fresh =
     bind_res (build_view cd initial_cwd start_paths original) (\<lambda>b.
     bind_res fresh (\<lambda>v.
     bind_res (build_view cd initial_cwd start_paths v) (\<lambda>a.
       if mf_identity (bv_manifest b) \<noteq> mf_identity (bv_manifest a)
        \<or> \<not> npm_sensitive_state_equal (cd_urls cd) (bv_npmrc b) (bv_npmrc a)
        \<or> \<not> root_node_modules_path_equal w (bv_node_modules_path b) (bv_node_modules_path a)
        \<or> bv_managed_root b \<noteq> bv_managed_root a
       then Inl RESOLVER_INPUTS_CHANGED
       else Inr (bv_manifest b))))"

section \<open>A fresh manifest\<close>

lemma dedup_by_key_subset: "set (dedup_by_key f xs) \<subseteq> set xs"
  by (induction f xs rule: dedup_by_key.induct) auto

lemma dedup_by_key_keys: "f ` set (dedup_by_key f xs) = f ` set xs"
  by (induction f xs rule: dedup_by_key.induct) simp_all

lemma normalize_file_probes_subset: "set (normalize_file_probes ps) \<subseteq> set ps"
  unfolding normalize_file_probes_def using dedup_by_key_subset by fastforce

lemma normalize_file_probes_keys:
  assumes "p \<in> set ps"
  shows "\<exists>q \<in> set (normalize_file_probes ps). fp_path q = fp_path p \<and> fp_kind q = fp_kind p"
proof -
  let ?f = "\<lambda>p. (fp_path p, fp_kind p)"
  have "?f p \<in> ?f ` set (normalize_file_probes ps)"
    unfolding normalize_file_probes_def dedup_by_key_keys using assms by auto
  then show ?thesis by auto
qed

lemma normalize_paths_set [simp]: "set (normalize_paths ps) = set ps"
  by (simp add: normalize_paths_def)

text \<open>Every probe holds what the world showed.\<close>

definition probe_of :: "codecs \<Rightarrow> world \<Rightarrow> file_probe_rec \<Rightarrow> bool" where
  "probe_of cd w p \<longleftrightarrow> fp_fingerprint p = current_file_fingerprint cd w (fp_path p) (fp_kind p)"

lemma probe_of_file_probe [simp]: "probe_of cd w (file_probe cd w p kind)"
  by (simp add: probe_of_def file_probe_def Let_def)

lemma manifest_files_probes:
  "p \<in> set (manifest_files cd w semantic external dirs auth npmrc_path lock) \<Longrightarrow> probe_of cd w p"
  unfolding manifest_files_def
  by (drule subsetD [OF normalize_file_probes_subset]) (auto simp: dir_probes_def)

lemma current_environment_fresh:
  "current_environment_probe cd w (environment_probe cd w files auth (global_npmrc_path w))
   = environment_probe cd w files auth (global_npmrc_path w)"
proof -
  have "map (\<lambda>p. \<lparr>ev_name = ev_name p, ev_fingerprint = env_value_fingerprint cd w (ev_name p)\<rparr>)
      (sort_key ev_name (if auth then [] else referenced_vars cd w files))
      = sort_key ev_name (if auth then [] else referenced_vars cd w files)"
    by (intro map_idI) (auto simp: referenced_vars_def split: if_splits)
  then show ?thesis
    by (simp add: current_environment_probe_def environment_probe_def environment_values_def)
qed

lemma manifest_from_workspace_probe:
  assumes "manifest_from_workspace cd w initial_cwd start_paths wk n rs = Inr m"
  obtains configs external packages lock files where
    "manifest_configs cd w wk = Inr configs" "external_steps cd w wk = Inr external"
    "manifest_packages cd w wk = Inr packages" "wk_lockfile_path wk = Inr lock"
    "files = manifest_files cd w (map sf_path (configs @ packages)) (map fst external)
       (scope_dirs_of w initial_cwd start_paths wk
         (configs @ normalize_semantic_fingerprints (List.map_filter snd external) @ packages))
       (npm_auth_presence (cd_urls cd) n) (rs_npmrc_path rs) lock"
    "mf_probe m = manifest_probe cd w
       (scope_dirs_of w initial_cwd start_paths wk
         (configs @ normalize_semantic_fingerprints (List.map_filter snd external) @ packages))
       files (npm_auth_presence (cd_urls cd) n) rs"
    "ri_byonm (mf_identity m) = rs_byonm rs"
    "ri_lockfile_present (mf_identity m) = (case lock of Some p \<Rightarrow> wd_exists w p | None \<Rightarrow> False)"
    "ri_npmrc (mf_identity m) = fst (npm_config_fingerprint_of (cd_urls cd) n)"
proof -
  have auth: "snd (npm_config_fingerprint_of (cd_urls cd) n) = npm_auth_presence (cd_urls cd) n"
    by (rule npm_auth_of_fingerprint)
  show thesis
    using assms that auth
    by (cases "npm_config_fingerprint_of (cd_urls cd) n")
      (auto simp: manifest_from_workspace_def bind_res_Inr Let_def)
qed

lemma is_current_iff:
  "is_current cd w m \<longleftrightarrow>
     (\<forall>p \<in> set (rb_files (mf_probe m)). current_file_fingerprint cd w (fp_path p) (fp_kind p) = fp_fingerprint p)
   \<and> (\<forall>r \<in> set_option (rb_managed_root (mf_probe m)). canonical_path w (rp_path r) = rp_identity r)
   \<and> (\<forall>d \<in> set (rb_byonm_node_modules (mf_probe m)).
         current_directory_fingerprint cd w (dp_path d) = dp_fingerprint d)
   \<and> current_environment_probe cd w (rb_environment (mf_probe m)) = rb_environment (mf_probe m)"
  by (auto simp: is_current_def Let_def list_ex_iff split: option.split)

lemma fresh_current:
  assumes "manifest_from_workspace cd w initial_cwd start_paths wk n rs = Inr m"
  shows "is_current cd w m \<and> rb_npmrc_has_auth (mf_probe m) = npm_auth_presence (cd_urls cd) n
    \<and> ep_jsr_url_has_auth (rb_environment (mf_probe m)) = env_url_has_userinfo cd w [''JSR_URL'']"
proof -
  obtain dirs files where probe:
    "mf_probe m = manifest_probe cd w dirs files (npm_auth_presence (cd_urls cd) n) rs"
    "\<forall>p \<in> set files. probe_of cd w p"
    using manifest_from_workspace_probe [OF assms] manifest_files_probes by metis
  have "is_current cd w m"
    using probe(2)
    by (auto simp: is_current_iff probe(1) manifest_probe_def probe_of_def current_environment_fresh
        root_path_probe_of_def)
  then show ?thesis
    by (simp add: probe(1) manifest_probe_def environment_probe_def environment_values_def)
qed

text \<open>
  A manifest is current in the world in which it was built, and it is reusable there unless
  the npm configuration or the JSR URL holds credentials.
\<close>

theorem fresh_manifest_current:
  assumes "manifest_from_workspace cd w initial_cwd start_paths wk n rs = Inr m"
  shows "is_current cd w m
    \<and> (is_reusable cd w m \<longleftrightarrow>
         \<not> npm_auth_presence (cd_urls cd) n \<and> \<not> env_url_has_userinfo cd w [''JSR_URL''])"
  using fresh_current [OF assms] by (simp add: is_reusable_def)

section \<open>What a reusable manifest guarantees\<close>

text \<open>
  What the code relies on: what can be read exists, and reading as text gives the bytes; and the
  hashes of the contents, variables and link data that the two worlds show do not collide.
\<close>

definition world_ok :: "world \<Rightarrow> bool" where
  "world_ok v \<longleftrightarrow>
     (\<forall>p. wd_symlink_metadata v p = None \<longrightarrow> wd_read v p = None)
   \<and> (\<forall>p. wd_read_to_string v p \<in> {None, wd_read v p})"

definition contents :: "world \<Rightarrow> string set" where
  "contents v = {b. (\<exists>p. wd_read v p = Some b) \<or> (\<exists>name. wd_var v name = Some b)}"

definition links :: "codecs \<Rightarrow> world \<Rightarrow> link_data set" where
  "links cd v = {l. \<exists>p lm. wd_symlink_metadata v p = Some lm \<and> l = link_data_of v p (content_fingerprint cd v p) lm}"

definition hashes_distinct :: "codecs \<Rightarrow> world \<Rightarrow> world \<Rightarrow> bool" where
  "hashes_distinct cd v w \<longleftrightarrow>
     inj_on (cd_hash_bytes cd) (contents v \<union> contents w) \<and> inj_on (cd_hash_link cd) (links cd v \<union> links cd w)"

lemma hashed_option_eq:
  assumes "inj_on h S" and "map_option (\<lambda>b. (h b, g b)) x = map_option (\<lambda>b. (h b, g b)) y"
    and "set_option x \<subseteq> S" and "set_option y \<subseteq> S"
  shows "x = y"
  using assms by (cases x; cases y) (auto dest: inj_onD)

lemma content_fingerprint_eq:
  assumes "hashes_distinct cd v w" and "content_fingerprint cd v p = content_fingerprint cd w p"
  shows "wd_read v p = wd_read w p"
  using assms unfolding hashes_distinct_def content_fingerprint_def
  by (elim conjE hashed_option_eq) (auto simp: contents_def)

lemma env_value_fingerprint_eq:
  assumes "hashes_distinct cd v w" and "env_value_fingerprint cd v name = env_value_fingerprint cd w name"
  shows "wd_var v name = wd_var w name"
  using assms unfolding hashes_distinct_def env_value_fingerprint_def
  by (elim conjE hashed_option_eq) (auto simp: contents_def)

lemma linksI:
  "wd_symlink_metadata v p = Some lm \<Longrightarrow> link_data_of v p (content_fingerprint cd v p) lm \<in> links cd v"
  unfolding links_def by blast

lemma content_probe_eq:
  assumes ok: "world_ok v" "world_ok w" and distinct: "hashes_distinct cd v w"
    and same: "current_file_fingerprint cd v p FkContent = current_file_fingerprint cd w p FkContent"
  shows "wd_read v p = wd_read w p"
proof (cases "wd_symlink_metadata v p")
  case None
  then have "wd_symlink_metadata w p = None"
    using same by (simp add: current_file_fingerprint_def path_probe_fingerprint_def)
  then show ?thesis using None ok by (simp add: world_ok_def)
next
  case (Some lm)
  then obtain lm' where lm': "wd_symlink_metadata w p = Some lm'"
    "cd_hash_link cd (link_data_of v p (content_fingerprint cd v p) lm)
       = cd_hash_link cd (link_data_of w p (content_fingerprint cd w p) lm')"
    using same by (cases "wd_symlink_metadata w p") (auto simp: current_file_fingerprint_def path_probe_fingerprint_def)
  have "link_data_of v p (content_fingerprint cd v p) lm = link_data_of w p (content_fingerprint cd w p) lm'"
    using distinct lm'(2) unfolding hashes_distinct_def
    by (rule inj_onD [OF conjunct2]) (simp_all add: linksI Some lm'(1))
  then have "content_fingerprint cd v p = content_fingerprint cd w p"
    by (simp add: link_data_of_def)
  then show ?thesis by (rule content_fingerprint_eq [OF distinct])
qed

lemma file_name_of_candidate [simp]:
  "file_name (absolute_path w (join_path dir [PcNormal name])) = Some name"
  by (auto simp: absolute_path_def join_path_def file_name_def path_is_absolute_def)

lemma file_probe_fields [simp]:
  "fp_path (file_probe cd w p kind) = absolute_path w p" "fp_kind (file_probe cd w p kind) = kind"
  by (simp_all add: file_probe_def Let_def)

text \<open>The probes before they are sorted and deduplicated.\<close>

lemma manifest_files_has:
  assumes "p \<in> set (map (\<lambda>p. file_probe cd w p FkContent) (semantic @ external))
      \<or> (\<exists>dir \<in> set dirs. p \<in> set (dir_probes cd w (npmrc_probe_kind auth) dir))
      \<or> p \<in> set (map (\<lambda>p. file_probe cd w p (npmrc_probe_kind auth)) (the_list npmrc_path @ the_list (global_npmrc_path w)))
      \<or> p \<in> set (map (\<lambda>p. file_probe cd w p FkContent) (the_list lock))"
  shows "\<exists>q \<in> set (manifest_files cd w semantic external dirs auth npmrc_path lock).
    fp_path q = fp_path p \<and> fp_kind q = fp_kind p"
  unfolding manifest_files_def by (rule normalize_file_probes_keys) (use assms in auto)

lemma manifest_files_file:
  assumes "p \<in> set (semantic @ external @ the_list npmrc_path @ the_list (global_npmrc_path w) @ the_list lock)"
  shows "\<exists>q \<in> set (manifest_files cd w semantic external dirs False npmrc_path lock).
    fp_path q = absolute_path w p \<and> fp_kind q = FkContent"
  using manifest_files_has [of "file_probe cd w p FkContent" cd w semantic external dirs False npmrc_path lock] assms
  by (auto simp: npmrc_probe_kind_def)

lemma manifest_files_candidates:
  assumes "dir \<in> set dirs" and "name \<in> set (''.npmrc'' # MANIFEST_CANDIDATE_FILE_NAMES)"
  shows "\<exists>q \<in> set (manifest_files cd w semantic external dirs False npmrc_path lock).
    fp_path q = absolute_path w (join_path dir [PcNormal name]) \<and> fp_kind q = FkContent"
proof -
  let ?p = "file_probe cd w (join_path dir [PcNormal name]) FkContent"
  have "?p \<in> set (dir_probes cd w (npmrc_probe_kind False) dir)"
    using assms(2) by (auto simp: dir_probes_def npmrc_probe_kind_def)
  then show ?thesis using manifest_files_has [of ?p] assms(1) by fastforce
qed

lemma current_vars:
  assumes "current_environment_probe cd w e = e" and "p \<in> set (ep_referenced_npmrc_vars e)"
  shows "ev_fingerprint p = env_value_fingerprint cd w (ev_name p)"
proof -
  let ?f = "\<lambda>p. \<lparr>ev_name = ev_name p, ev_fingerprint = env_value_fingerprint cd w (ev_name p)\<rparr>"
  have "map ?f (ep_referenced_npmrc_vars e) = map (\<lambda>p. p) (ep_referenced_npmrc_vars e)"
    using arg_cong [OF assms(1), of ep_referenced_npmrc_vars]
    by (simp add: current_environment_probe_def environment_values_def)
  then have "?f p = p" using assms(2) by (simp only: map_eq_conv)
  then show ?thesis by (metis env_value_probe.select_convs(2))
qed

lemma referenced_vars_member:
  "q \<in> set files \<Longrightarrow> fp_kind q = FkContent \<Longrightarrow> file_name (fp_path q) = Some ''.npmrc'' \<Longrightarrow>
   name \<in> set (npmrc_env_names w (fp_path q)) \<Longrightarrow>
   \<lparr>ev_name = name, ev_fingerprint = env_value_fingerprint cd w name\<rparr>
     \<in> set (ep_referenced_npmrc_vars (environment_probe cd w files False global_npmrc))"
  by (auto simp: environment_probe_def environment_values_def referenced_vars_def)

text \<open>
  What a manifest watches: the workspace's own directory and root, its members and links, and every
  directory above the working directory and the start paths; and the files that were read: the
  configurations, the packages, the import maps, the npmrc files and the lockfile.
\<close>

definition watched_dirs :: "world \<Rightarrow> path \<Rightarrow> path list \<Rightarrow> workspace \<Rightarrow> path set" where
  "watched_dirs w initial_cwd start_paths wk =
     {wk_dir_path wk, wk_root_dir_path wk}
     \<union> canonical_path w ` {dir. Some dir \<in> set (wk_config_folders wk) \<union> set (wk_link_folders wk)}
     \<union> {dir. \<exists>p \<in> set (initial_cwd # start_paths). dir \<in> set (ancestors (canonical_path w p))}"

definition watched_files :: "world \<Rightarrow> workspace \<Rightarrow> resolver_inputs \<Rightarrow> path set" where
  "watched_files w wk rs =
     canonical_path w ` {p. \<exists>c \<in> set (wk_deno_jsons wk). dj_path c = Some p}
     \<union> canonical_path w ` fst ` (set (wk_package_jsons wk) \<union> set (wk_link_pkg_jsons wk))
     \<union> {p. \<exists>c \<in> set (wk_deno_jsons wk). dj_import_map_path c = Inr (Some p)}
     \<union> {p. rs_npmrc_path rs = Some p \<or> global_npmrc_path w = Some p \<or> wk_lockfile_path wk = Inr (Some p)}"

lemma push_each_member:
  "push_each f xs = Inr zs \<Longrightarrow> x \<in> set xs \<Longrightarrow> \<exists>ys. f x = Inr ys \<and> set ys \<subseteq> set zs"
  by (induction xs arbitrary: zs) (auto simp: bind_res_Inr; fastforce)+

lemma normalize_semantic_fingerprints_paths [simp]:
  "sf_path ` set (normalize_semantic_fingerprints ps) = sf_path ` set ps"
  by (simp add: normalize_semantic_fingerprints_def dedup_by_key_keys)

lemma manifest_configs_paths:
  assumes "manifest_configs cd w wk = Inr configs" and "c \<in> set (wk_deno_jsons wk)" and "dj_path c = Some p"
  shows "canonical_path w p \<in> sf_path ` set configs"
proof -
  obtain zs where zs: "configs = normalize_semantic_fingerprints zs" and
    "push_each (\<lambda>c. case dj_path c of None \<Rightarrow> Inr [] | Some p \<Rightarrow> bind_res (semantic_hash cd (dj_json c))
        (\<lambda>h. Inr [\<lparr>sf_path = canonical_path w p, sf_hash = h\<rparr>])) (wk_deno_jsons wk) = Inr zs"
    using assms(1) by (auto simp: manifest_configs_def map_ok_def bind_res_Inr)
  from push_each_member [OF this(2) assms(2)] assms(3) show ?thesis
    by (force simp: zs bind_res_Inr)
qed

lemma manifest_packages_paths:
  assumes "manifest_packages cd w wk = Inr packages" and "e \<in> set (wk_package_jsons wk @ wk_link_pkg_jsons wk)"
  shows "canonical_path w (fst e) \<in> sf_path ` set packages"
proof -
  obtain zs where zs: "packages = normalize_semantic_fingerprints zs" and
    "push_each (\<lambda>(p, j). bind_res (semantic_hash cd j)
        (\<lambda>h. Inr [\<lparr>sf_path = canonical_path w p, sf_hash = h\<rparr>])) (wk_package_jsons wk @ wk_link_pkg_jsons wk) = Inr zs"
    using assms(1) by (auto simp: manifest_packages_def map_ok_def bind_res_Inr)
  from push_each_member [OF this(2) assms(2)] show ?thesis
    by (cases e) (force simp: zs bind_res_Inr)
qed

lemma external_steps_paths:
  assumes "external_steps cd w wk = Inr external" and "c \<in> set (wk_deno_jsons wk)"
    and "dj_import_map_path c = Inr (Some p)"
  shows "absolute_path w p \<in> fst ` set external"
  using push_each_member [OF assms(1) [unfolded external_steps_def] assms(2)] assms(3)
  by (force simp: bind_res_Inr split: option.splits)

lemma scope_dirs_watched:
  assumes "dir \<in> watched_dirs w initial_cwd start_paths wk"
  shows "dir \<in> set (scope_dirs_of w initial_cwd start_paths wk entries)"
proof -
  have "Some d \<in> set xs \<Longrightarrow> canonical_path w d \<in> set (folder_paths w xs)" for d xs
    by (force simp: folder_paths_def map_filter_def)
  then show ?thesis
    using assms by (auto simp: scope_dirs_of_def watched_dirs_def discovery_candidate_dirs_def)
qed

lemma file_name_absolute_path: "file_name p = Some name \<Longrightarrow> file_name (absolute_path w p) = Some name"
  by (auto simp: absolute_path_def join_path_def file_name_def path_is_absolute_def split: if_splits)

lemma referenced_var_current:
  assumes env: "current_environment_probe cd v (environment_probe cd w files False npmrc) = environment_probe cd w files False npmrc"
    and distinct: "hashes_distinct cd w v"
    and q: "q \<in> set files" "fp_kind q = FkContent" "fp_path q = path" "file_name path = Some ''.npmrc''"
    and name: "name \<in> set (npmrc_env_names w path)"
  shows "wd_var v name = wd_var w name"
proof -
  have "\<lparr>ev_name = name, ev_fingerprint = env_value_fingerprint cd w name\<rparr>
      \<in> set (ep_referenced_npmrc_vars (environment_probe cd w files False npmrc))"
    by (rule referenced_vars_member [OF q(1,2)]) (use q(3,4) name in simp_all)
  from current_vars [OF env this] show ?thesis
    by (simp add: env_value_fingerprint_eq [OF distinct, symmetric])
qed

lemma path_is_absolute_absolute:
  assumes "wd_current_dir w = Some cwd" and "path_is_absolute cwd"
  shows "path_is_absolute (absolute_path w p)"
proof (cases cwd)
  case (Cons c rest)
  then show ?thesis
    using assms by (cases c) (simp_all add: absolute_path_def join_path_def path_is_absolute_def)
qed (use assms in \<open>simp add: path_is_absolute_def\<close>)

text \<open>What the probes of a manifest cover.\<close>

lemma manifest_probe_covers:
  assumes built: "manifest_from_workspace cd w initial_cwd start_paths wk n rs = Inr m"
    and no_auth: "\<not> npm_auth_presence (cd_urls cd) n"
  obtains dirs files where "mf_probe m = manifest_probe cd w dirs files False rs"
    and "\<And>p. p \<in> set files \<Longrightarrow> probe_of cd w p"
    and "\<And>dir name. dir \<in> watched_dirs w initial_cwd start_paths wk \<Longrightarrow>
        name \<in> set (''.npmrc'' # MANIFEST_CANDIDATE_FILE_NAMES) \<Longrightarrow>
        \<exists>q \<in> set files. fp_path q = absolute_path w (join_path dir [PcNormal name]) \<and> fp_kind q = FkContent"
    and "\<And>p. p \<in> watched_files w wk rs \<Longrightarrow>
        \<exists>q \<in> set files. \<exists>p' \<in> {p, absolute_path w p}. fp_path q = absolute_path w p' \<and> fp_kind q = FkContent"
proof -
  obtain configs external packages lock files where parts: "manifest_configs cd w wk = Inr configs"
      "external_steps cd w wk = Inr external" "manifest_packages cd w wk = Inr packages" "wk_lockfile_path wk = Inr lock"
    and files: "files = manifest_files cd w (map sf_path (configs @ packages)) (map fst external)
       (scope_dirs_of w initial_cwd start_paths wk
         (configs @ normalize_semantic_fingerprints (List.map_filter snd external) @ packages))
       False (rs_npmrc_path rs) lock"
    and probe: "mf_probe m = manifest_probe cd w
       (scope_dirs_of w initial_cwd start_paths wk
         (configs @ normalize_semantic_fingerprints (List.map_filter snd external) @ packages)) files False rs"
    using manifest_from_workspace_probe [OF built] no_auth by metis
  have watched: "p \<in> set (map sf_path (configs @ packages) @ the_list (rs_npmrc_path rs)
      @ the_list (global_npmrc_path w) @ the_list lock) \<or> absolute_path w p \<in> set (map fst external)"
    if "p \<in> watched_files w wk rs" for p
    using that manifest_configs_paths [OF parts(1)] manifest_packages_paths [OF parts(3)]
      external_steps_paths [OF parts(2)] parts(4)
    by (fastforce simp: watched_files_def the_list_def split: option.splits)
  show thesis
  proof (rule that [OF probe])
    show "probe_of cd w p" if "p \<in> set files" for p
      using that unfolding files by (rule manifest_files_probes)
    show "\<exists>q \<in> set files. fp_path q = absolute_path w (join_path dir [PcNormal name]) \<and> fp_kind q = FkContent"
      if "dir \<in> watched_dirs w initial_cwd start_paths wk" "name \<in> set (''.npmrc'' # MANIFEST_CANDIDATE_FILE_NAMES)"
      for dir name
      unfolding files by (rule manifest_files_candidates [OF scope_dirs_watched [OF that(1)] that(2)])
    show "\<exists>q \<in> set files. \<exists>p' \<in> {p, absolute_path w p}. fp_path q = absolute_path w p' \<and> fp_kind q = FkContent"
      if watching: "p \<in> watched_files w wk rs" for p
    proof -
      obtain p' where p': "p' \<in> {p, absolute_path w p}" "p' \<in> set (map sf_path (configs @ packages) @ map fst external
          @ the_list (rs_npmrc_path rs) @ the_list (global_npmrc_path w) @ the_list lock)"
        using watched [OF watching] by auto
      then show ?thesis unfolding files using manifest_files_file [OF p'(2)] by blast
    qed
  qed
qed

text \<open>
  C36: A manifest that is still reusable in a later state of the world saw no edit. The
  deno.json, deno.jsonc, package.json and .npmrc of the workspace's own directory and root, of
  every member and link, and of every directory above the working directory and the start
  paths; the configuration files, packages and import maps wherever they are; the npmrc files
  in use and the lockfile: all have the same contents or are still missing, and every variable
  that one of these .npmrc files refers to, DENO_DIR and the place of the global npmrc are the
  same. This assumes an absolute working directory, that what can be read exists, and that the
  64-bit hashes do not collide on what the two states show.
\<close>

theorem reusable_manifest_sees_edits:
  assumes built: "manifest_from_workspace cd w initial_cwd start_paths wk n rs = Inr m"
    and reusable: "is_reusable cd v m"
    and ok: "world_ok w" "world_ok v" and distinct: "hashes_distinct cd w v"
    and "wd_current_dir w = Some cwd" "path_is_absolute cwd"
  shows "(\<forall>dir \<in> watched_dirs w initial_cwd start_paths wk.
            (\<forall>name \<in> {''deno.json'', ''deno.jsonc'', ''package.json'', ''.npmrc''}.
               wd_read v (absolute_path w (join_path dir [PcNormal name]))
                 = wd_read w (absolute_path w (join_path dir [PcNormal name])))
          \<and> (\<forall>name \<in> set (npmrc_env_names w (absolute_path w (join_path dir [PcNormal ''.npmrc'']))).
               wd_var v name = wd_var w name))
    \<and> (\<forall>p \<in> watched_files w wk rs. wd_read v (absolute_path w p) = wd_read w (absolute_path w p)
          \<and> (file_name p = Some ''.npmrc'' \<longrightarrow>
               (\<forall>name \<in> set (npmrc_env_names w (absolute_path w p)). wd_var v name = wd_var w name)))
    \<and> wd_var_os v ''DENO_DIR'' = wd_var_os w ''DENO_DIR'' \<and> global_npmrc_path v = global_npmrc_path w"
proof -
  have no_auth: "\<not> npm_auth_presence (cd_urls cd) n" and current: "is_current cd v m"
    using reusable fresh_current [OF built] by (auto simp: is_reusable_def split: if_splits)
  obtain dirs files where probe: "mf_probe m = manifest_probe cd w dirs files False rs"
    and fresh: "\<And>p. p \<in> set files \<Longrightarrow> probe_of cd w p"
    and candidates: "\<And>dir name. dir \<in> watched_dirs w initial_cwd start_paths wk \<Longrightarrow>
        name \<in> set (''.npmrc'' # MANIFEST_CANDIDATE_FILE_NAMES) \<Longrightarrow>
        \<exists>q \<in> set files. fp_path q = absolute_path w (join_path dir [PcNormal name]) \<and> fp_kind q = FkContent"
    and watched: "\<And>p. p \<in> watched_files w wk rs \<Longrightarrow>
        \<exists>q \<in> set files. \<exists>p' \<in> {p, absolute_path w p}. fp_path q = absolute_path w p' \<and> fp_kind q = FkContent"
    by (rule manifest_probe_covers [OF built no_auth]) (rule that; assumption)
  let ?env = "environment_probe cd w files False (global_npmrc_path w)"
  have env: "current_environment_probe cd v ?env = ?env"
    using current by (simp add: is_current_iff probe manifest_probe_def)
  have same: "wd_read v (fp_path q) = wd_read w (fp_path q)" if "q \<in> set files" "fp_kind q = FkContent" for q
    using current that fresh [OF that(1)]
    by (intro content_probe_eq [OF ok distinct, symmetric]) (force simp: is_current_iff probe manifest_probe_def probe_of_def)
  have absolute: "absolute_path w (absolute_path w p) = absolute_path w p" for p
    using path_is_absolute_absolute [OF assms(6,7)] by (simp add: absolute_path_def [of w "absolute_path w p"])
  have probed: "\<exists>q \<in> set files. fp_path q = absolute_path w p \<and> fp_kind q = FkContent"
    if "p \<in> watched_files w wk rs" for p
    using watched [OF that] by (auto simp: absolute)
  note var = referenced_var_current [OF env distinct]
  have rest: "wd_var_os v ''DENO_DIR'' = wd_var_os w ''DENO_DIR''" "global_npmrc_path v = global_npmrc_path w"
    using arg_cong [OF env, of ep_deno_dir] arg_cong [OF env, of ep_global_npmrc]
    by (simp_all add: current_environment_probe_def environment_probe_def environment_values_def)
  show ?thesis
  proof (intro conjI ballI impI rest)
    fix dir name assume dir: "dir \<in> watched_dirs w initial_cwd start_paths wk"
      and "name \<in> {''deno.json'', ''deno.jsonc'', ''package.json'', ''.npmrc''}"
    then have "name \<in> set (''.npmrc'' # MANIFEST_CANDIDATE_FILE_NAMES)"
      by (simp add: MANIFEST_CANDIDATE_FILE_NAMES_def) blast
    then show "wd_read v (absolute_path w (join_path dir [PcNormal name]))
        = wd_read w (absolute_path w (join_path dir [PcNormal name]))"
      using candidates [OF dir] same by metis
  next
    fix dir name assume "dir \<in> watched_dirs w initial_cwd start_paths wk"
      "name \<in> set (npmrc_env_names w (absolute_path w (join_path dir [PcNormal ''.npmrc''])))"
    then show "wd_var v name = wd_var w name"
      using candidates [of dir "''.npmrc''"] var by (metis file_name_of_candidate list.set_intros(1))
  next
    fix p assume "p \<in> watched_files w wk rs"
    then show "wd_read v (absolute_path w p) = wd_read w (absolute_path w p)"
      using probed [of p] same by metis
  next
    fix p name assume "p \<in> watched_files w wk rs" "file_name p = Some ''.npmrc''"
      "name \<in> set (npmrc_env_names w (absolute_path w p))"
    then show "wd_var v name = wd_var w name"
      using probed [of p] var file_name_absolute_path by metis
  qed
qed

section \<open>The snapshot key\<close>

lemma push_each_cong:
  "list_all2 (\<lambda>x y. f x = g y) xs ys \<Longrightarrow> push_each f xs = push_each g ys"
  by (induction rule: list_all2_induct) simp_all

definition same_json :: "json \<Rightarrow> json \<Rightarrow> bool" where
  "same_json x y \<longleftrightarrow> json_wf x \<and> json_wf y \<and> same_data x y"

definition same_deno_json :: "deno_json_file \<Rightarrow> deno_json_file \<Rightarrow> bool" where
  "same_deno_json c d \<longleftrightarrow>
     dj_path c = dj_path d \<and> rel_sum (=) same_json (dj_json c) (dj_json d)
   \<and> dj_import_map_path c = dj_import_map_path d
   \<and> rel_sum (=) (rel_option same_json) (dj_import_map_value c) (dj_import_map_value d)"

definition same_package :: "path \<times> json anyhow \<Rightarrow> path \<times> json anyhow \<Rightarrow> bool" where
  "same_package p q \<longleftrightarrow> fst p = fst q \<and> rel_sum (=) same_json (snd p) (snd q)"

text \<open>The same workspace up to the order of the entries of its JSON objects.\<close>

definition same_workspace :: "workspace \<Rightarrow> workspace \<Rightarrow> bool" where
  "same_workspace a b \<longleftrightarrow>
     wk_dir_path a = wk_dir_path b \<and> wk_root_dir_path a = wk_root_dir_path b
   \<and> list_all2 same_deno_json (wk_deno_jsons a) (wk_deno_jsons b)
   \<and> list_all2 same_package (wk_package_jsons a) (wk_package_jsons b)
   \<and> list_all2 same_package (wk_link_pkg_jsons a) (wk_link_pkg_jsons b)
   \<and> wk_config_folders a = wk_config_folders b \<and> wk_link_folders a = wk_link_folders b
   \<and> wk_lockfile_path a = wk_lockfile_path b"

lemma semantic_hash_cong:
  "rel_sum (=) same_json x y \<Longrightarrow> semantic_hash cd x = semantic_hash cd y"
  by (auto simp: rel_sum.simps semantic_hash_def same_json_def dest: canonical_of_same_data)

lemma manifest_configs_cong: "same_workspace a b \<Longrightarrow> manifest_configs cd w a = manifest_configs cd w b"
  unfolding manifest_configs_def same_workspace_def
  by (intro arg_cong [of _ _ "map_ok _"] push_each_cong)
    (auto elim!: list_all2_mono simp: same_deno_json_def dest!: semantic_hash_cong [where cd = cd] split: option.split)

lemma manifest_packages_cong: "same_workspace a b \<Longrightarrow> manifest_packages cd w a = manifest_packages cd w b"
  unfolding manifest_packages_def same_workspace_def
  by (intro arg_cong [of _ _ "map_ok _"] push_each_cong list_all2_appendI)
    (auto elim!: list_all2_mono simp: same_package_def dest!: semantic_hash_cong [where cd = cd])

lemma external_steps_cong: "same_workspace a b \<Longrightarrow> external_steps cd w a = external_steps cd w b"
proof -
  have "bind_res v (\<lambda>v. case v of None \<Rightarrow> Inr x | Some j \<Rightarrow> bind_res (semantic_hash cd (Inr j)) f)
      = bind_res u (\<lambda>v. case v of None \<Rightarrow> Inr x | Some j \<Rightarrow> bind_res (semantic_hash cd (Inr j)) f)"
    if "rel_sum (=) (rel_option same_json) v u"
    for v u :: "json option anyhow" and x :: "'c" and f
    using that by (cases v; cases u)
      (auto simp: rel_option_iff split: option.splits dest!: semantic_hash_cong [OF rel_sum.intros(2), where cd = cd])
  note step = this
  assume "same_workspace a b"
  then show ?thesis
    unfolding external_steps_def same_workspace_def
    by (intro push_each_cong) (auto elim!: list_all2_mono simp: same_deno_json_def intro!: step
        arg_cong [of _ _ "bind_res _"] ext split: option.split)
qed

text \<open>
  The key of a resolution snapshot is semantic: it does not depend on the order of the entries
  of any configuration object, on credentials or on the order of registries; and a resolver
  has a key exactly when it is managed, has no lockfile and its configuration holds no
  credentials.
\<close>

theorem snapshot_key_semantic:
  assumes "same_workspace a b" and "same_but_credentials n n'" and "rs_byonm rs = rs_byonm rs'"
  shows "map_ok mf_identity (manifest_from_workspace cd w initial_cwd start_paths a n rs)
      = map_ok mf_identity (manifest_from_workspace cd w initial_cwd start_paths b n' rs')
    \<and> (\<forall>m. manifest_from_workspace cd w initial_cwd start_paths a n rs = Inr m \<longrightarrow>
         (managed_snapshot_key m = None \<longleftrightarrow>
            rs_byonm rs \<or> npm_auth_presence (cd_urls cd) n
          \<or> (case wk_lockfile_path a of Inr (Some p) \<Rightarrow> wd_exists w p | _ \<Rightarrow> False)))"
proof (intro conjI allI impI)
  have "fst (npm_config_fingerprint_of (cd_urls cd) n) = fst (npm_config_fingerprint_of (cd_urls cd) n')"
    by (rule npm_fingerprint_same [OF assms(2)])
  moreover have "wk_dir_path a = wk_dir_path b" "wk_root_dir_path a = wk_root_dir_path b"
    "wk_config_folders a = wk_config_folders b" "wk_link_folders a = wk_link_folders b"
    "wk_lockfile_path a = wk_lockfile_path b"
    using assms(1) by (simp_all add: same_workspace_def)
  ultimately show "map_ok mf_identity (manifest_from_workspace cd w initial_cwd start_paths a n rs)
      = map_ok mf_identity (manifest_from_workspace cd w initial_cwd start_paths b n' rs')"
    using manifest_configs_cong [OF assms(1), of cd w] manifest_packages_cong [OF assms(1), of cd w]
      external_steps_cong [OF assms(1), of cd w] assms(3)
    by (cases "npm_config_fingerprint_of (cd_urls cd) n"; cases "npm_config_fingerprint_of (cd_urls cd) n'";
        cases "manifest_configs cd w b"; cases "external_steps cd w b"; cases "manifest_packages cd w b";
        cases "wk_lockfile_path b")
      (simp_all add: manifest_from_workspace_def map_ok_def Let_def)
next
  fix m assume "manifest_from_workspace cd w initial_cwd start_paths a n rs = Inr m"
  then show "managed_snapshot_key m = None \<longleftrightarrow>
      rs_byonm rs \<or> npm_auth_presence (cd_urls cd) n
    \<or> (case wk_lockfile_path a of Inr (Some p) \<Rightarrow> wd_exists w p | _ \<Rightarrow> False)"
    by (rule manifest_from_workspace_probe)
      (auto simp: managed_snapshot_key_def manifest_probe_def split: option.splits)
qed

section \<open>The authoritative check\<close>

lemma build_view_auth:
  assumes "build_view cd initial_cwd start_paths v = Inr b"
  shows "rb_npmrc_has_auth (mf_probe (bv_manifest b)) = npm_auth_presence (cd_urls cd) (bv_npmrc b)"
proof -
  obtain wk n rs where "manifest_from_workspace cd (fv_world v) initial_cwd start_paths wk n rs = Inr (bv_manifest b)"
      "bv_npmrc b = n"
    using assms unfolding build_view_def by (auto simp: bind_res_Inr)
  then show ?thesis
    by (auto simp: manifest_probe_def elim!: manifest_from_workspace_probe)
qed

text \<open>
  A manifest that is accepted speaks for the workspace as a fresh discovery sees it: the same
  identity, the same credentials in the parsed configuration and the same snapshot key; and
  when the fresh discovery sees what the first one saw, the manifest is accepted as built.
\<close>

theorem accepted_manifest_is_authoritative:
  "(\<forall>m. resolver_input_manifest cd w initial_cwd start_paths original fresh = Inr m \<longrightarrow>
      (\<exists>v b a. fresh = Inr v \<and> build_view cd initial_cwd start_paths original = Inr b
         \<and> build_view cd initial_cwd start_paths v = Inr a \<and> m = bv_manifest b
         \<and> mf_identity m = mf_identity (bv_manifest a)
         \<and> managed_snapshot_key m = managed_snapshot_key (bv_manifest a)
         \<and> npm_sensitive_state_equal (cd_urls cd) (bv_npmrc b) (bv_npmrc a)))
   \<and> resolver_input_manifest cd w initial_cwd start_paths original (Inr original)
       = map_ok bv_manifest (build_view cd initial_cwd start_paths original)"
proof (intro conjI allI impI)
  fix m assume accepted: "resolver_input_manifest cd w initial_cwd start_paths original fresh = Inr m"
  then obtain v b a where ok: "fresh = Inr v" "build_view cd initial_cwd start_paths original = Inr b"
      "build_view cd initial_cwd start_paths v = Inr a" "m = bv_manifest b"
      "mf_identity (bv_manifest b) = mf_identity (bv_manifest a)"
      "npm_sensitive_state_equal (cd_urls cd) (bv_npmrc b) (bv_npmrc a)"
    by (auto simp: resolver_input_manifest_def bind_res_Inr split: if_splits)
  moreover have "rb_npmrc_has_auth (mf_probe (bv_manifest b)) = rb_npmrc_has_auth (mf_probe (bv_manifest a))"
    using ok(6) build_view_auth [OF ok(2)] build_view_auth [OF ok(3)] by (simp add: npm_sensitive_state_equal_def)
  ultimately show "\<exists>v b a. fresh = Inr v \<and> build_view cd initial_cwd start_paths original = Inr b
         \<and> build_view cd initial_cwd start_paths v = Inr a \<and> m = bv_manifest b
         \<and> mf_identity m = mf_identity (bv_manifest a)
         \<and> managed_snapshot_key m = managed_snapshot_key (bv_manifest a)
         \<and> npm_sensitive_state_equal (cd_urls cd) (bv_npmrc b) (bv_npmrc a)"
    by (auto simp: managed_snapshot_key_def)
next
  show "resolver_input_manifest cd w initial_cwd start_paths original (Inr original)
       = map_ok bv_manifest (build_view cd initial_cwd start_paths original)"
    by (cases "build_view cd initial_cwd start_paths original")
      (simp_all add: resolver_input_manifest_def map_ok_def npm_sensitive_state_equal_def
        root_node_modules_path_equal_def)
qed

section \<open>A concrete workspace\<close>

definition example_codecs :: codecs where
  "example_codecs =
     \<lparr>cd_urls = example_urls, cd_trim = (\<lambda>s. s), cd_hash_bytes = (\<lambda>s. word_of_nat (length s)),
      cd_hash_link = (\<lambda>_. 0), cd_to_vec = (\<lambda>j. case j of JObject es \<Rightarrow> concat (map fst es) | _ \<Rightarrow> [])\<rparr>"

definition example_world :: world where
  "example_world =
     \<lparr>wd_var = (\<lambda>_. None), wd_var_os = (\<lambda>_. None), wd_current_dir = Some [RootDir], wd_home_dir = None,
      wd_canonicalize = Some,
      wd_read = (\<lambda>p. if p = [RootDir, PcNormal ''.npmrc''] then Some ''k=${T}'' else None),
      wd_read_to_string = (\<lambda>p. if p = [RootDir, PcNormal ''.npmrc''] then Some ''k=${T}'' else None),
      wd_metadata = (\<lambda>_. None),
      wd_symlink_metadata = (\<lambda>p. if p = [RootDir, PcNormal ''.npmrc'']
         then Some (False, \<lparr>md_modified = None, md_len = 6\<rparr>) else None),
      wd_read_link = (\<lambda>_. None), wd_exists = (\<lambda>_. False)\<rparr>"

definition example_workspace :: "(string \<times> json) list \<Rightarrow> workspace" where
  "example_workspace config =
     \<lparr>wk_dir_path = [RootDir], wk_root_dir_path = [RootDir],
      wk_deno_jsons = [\<lparr>dj_path = Some [RootDir, PcNormal ''deno.json''], dj_json = Inr (JObject config),
                        dj_import_map_path = Inr None, dj_import_map_value = Inr None\<rparr>],
      wk_package_jsons = [], wk_link_pkg_jsons = [], wk_config_folders = [Some [RootDir]], wk_link_folders = [],
      wk_lockfile_path = Inr None, wk_root_deno_json_dir = Some [RootDir], wk_root_pkg_json = None\<rparr>"

definition example_inputs :: resolver_inputs where
  "example_inputs =
     \<lparr>rs_npmrc_path = None, rs_byonm = False, rs_node_modules_path = None, rs_managed_root_path = None\<rparr>"

definition example_config :: "(string \<times> json) list" where
  "example_config = [(''b'', JNull), (''a'', JBool True)]"

lemma example_built:
  "\<exists>m. manifest_from_workspace example_codecs example_world [RootDir] [] (example_workspace example_config)
     (example_npmrc user) example_inputs = Inr m"
  by (cases "npm_config_fingerprint_of (cd_urls example_codecs) (example_npmrc user)")
    (simp add: manifest_from_workspace_def manifest_configs_def external_steps_def manifest_packages_def
      example_workspace_def semantic_hash_def map_ok_def Let_def)

lemma example_reusable:
  "\<exists>m. manifest_from_workspace example_codecs example_world [RootDir] [] (example_workspace example_config)
      (example_npmrc []) example_inputs = Inr m \<and> is_reusable example_codecs example_world m"
proof -
  obtain m where m: "manifest_from_workspace example_codecs example_world [RootDir] []
      (example_workspace example_config) (example_npmrc []) example_inputs = Inr m"
    using example_built by blast
  have "\<not> npm_auth_presence (cd_urls example_codecs) (example_npmrc [])"
    "\<not> env_url_has_userinfo example_codecs example_world [''JSR_URL'']"
    by (simp_all add: npm_auth_presence_def registry_has_auth_def registry_config_has_sensitive_def
        url_has_userinfo_def replace_host_has_userinfo_def example_npmrc_def example_registry_def
        env_url_has_userinfo_def example_world_def)
  then show ?thesis using m fresh_current [OF m] by (auto simp: is_reusable_def)
qed

theorem fresh_manifest_current_witness:
  "\<exists>m. manifest_from_workspace example_codecs example_world [RootDir] [] (example_workspace example_config)
      (example_npmrc []) example_inputs = Inr m
    \<and> is_current example_codecs example_world m"
  using example_built [of "[]"] fresh_manifest_current by blast

definition example_later :: world where
  "example_later = example_world\<lparr>wd_exists := (\<lambda>_. True)\<rparr>"

lemma is_current_later: "is_current cd example_later m = is_current cd example_world m"
proof -
  have "current_file_fingerprint cd example_later = current_file_fingerprint cd example_world"
    by (intro ext, case_tac xa) (simp_all add: example_later_def current_file_fingerprint_def path_probe_fingerprint_def
        link_data_of_def content_fingerprint_def metadata_fingerprint_def)
  moreover have "current_directory_fingerprint cd example_later = current_directory_fingerprint cd example_world"
    by (intro ext) (simp add: example_later_def current_directory_fingerprint_def path_probe_fingerprint_def
        link_data_of_def metadata_fingerprint_def)
  moreover have "canonical_path example_later = canonical_path example_world"
    by (intro ext) (simp add: example_later_def canonical_path_def absolute_path_def example_world_def)
  moreover have vars: "env_scalar_identity example_later = env_scalar_identity example_world"
  proof (rule ext)
    fix names show "env_scalar_identity example_later names = env_scalar_identity example_world names"
      by (induction names) (simp_all add: example_later_def example_world_def)
  qed
  have "env_value_fingerprint cd example_later = env_value_fingerprint cd example_world"
    "wd_var_os example_later = wd_var_os example_world" "global_npmrc_path example_later = global_npmrc_path example_world"
    by (simp_all add: fun_eq_iff env_value_fingerprint_def global_npmrc_path_def example_later_def example_world_def)
  with vars have "current_environment_probe cd example_later e = current_environment_probe cd example_world e" for e
    by (simp add: current_environment_probe_def environment_values_def env_url_identity_def
        env_url_has_userinfo_def env_replace_registry_host_identity_def env_replace_registry_host_has_auth_def)
  ultimately show ?thesis by (simp add: is_current_iff)
qed

lemma inj_on_subset_singleton: "S \<subseteq> {x} \<Longrightarrow> inj_on f S"
  by (auto simp: inj_on_def)

lemma example_hashes: "hashes_distinct example_codecs example_world example_later"
proof -
  have "contents v \<subseteq> {''k=${T}''}" "links example_codecs v \<subseteq> {link_data_of example_world
      [RootDir, PcNormal ''.npmrc''] (content_fingerprint example_codecs example_world [RootDir, PcNormal ''.npmrc''])
      (False, \<lparr>md_modified = None, md_len = 6\<rparr>)}"
    if "v = example_world \<or> v = example_later" for v
    using that
    by (auto simp: contents_def links_def example_world_def example_later_def link_data_of_def
        content_fingerprint_def split: if_splits)
  then show ?thesis
    unfolding hashes_distinct_def by (intro conjI inj_on_subset_singleton) (rule Un_least; blast)+
qed

theorem reusable_manifest_sees_edits_witness:
  "wd_read example_later [RootDir, PcNormal ''.npmrc''] = wd_read example_world [RootDir, PcNormal ''.npmrc'']"
proof -
  obtain m where m: "manifest_from_workspace example_codecs example_world [RootDir] []
      (example_workspace example_config) (example_npmrc []) example_inputs = Inr m"
    "is_reusable example_codecs example_world m"
    using example_reusable by blast
  from m(2) have "is_reusable example_codecs example_later m"
    by (simp add: is_reusable_def is_current_later split: if_splits)
  moreover have "world_ok example_world" "world_ok example_later"
    by (simp_all add: world_ok_def example_world_def example_later_def)
  moreover have "[RootDir] \<in> watched_dirs example_world [RootDir] [] (example_workspace example_config)"
    by (simp add: watched_dirs_def example_workspace_def)
  moreover have "wd_current_dir example_world = Some [RootDir]" "path_is_absolute [RootDir]"
    by (simp_all add: example_world_def path_is_absolute_def)
  ultimately have "wd_read example_later (absolute_path example_world (join_path [RootDir] [PcNormal ''.npmrc'']))
        = wd_read example_world (absolute_path example_world (join_path [RootDir] [PcNormal ''.npmrc'']))"
    using reusable_manifest_sees_edits [OF m(1) _ _ _ example_hashes, of "[RootDir]"] by auto
  then show ?thesis
    by (simp add: absolute_path_def join_path_def path_is_absolute_def)
qed

theorem snapshot_key_semantic_witness:
  "map_ok mf_identity (manifest_from_workspace example_codecs example_world [RootDir] []
      (example_workspace [(''a'', JBool True), (''b'', JNull)]) (example_npmrc []) example_inputs)
   = map_ok mf_identity (manifest_from_workspace example_codecs example_world [RootDir] []
      (example_workspace example_config) (example_npmrc ''me'') example_inputs)"
proof -
  have "same_data (JObject [(''a'', JBool True), (''b'', JNull)]) (JObject example_config)"
    by (rule same_data_of_canonical) (simp_all add: example_config_def keys_distinct_def)
  then have "same_workspace (example_workspace [(''a'', JBool True), (''b'', JNull)]) (example_workspace example_config)"
    by (simp add: same_workspace_def example_workspace_def same_deno_json_def same_json_def keys_distinct_def
        example_config_def)
  moreover have "same_but_credentials (example_npmrc []) (example_npmrc ''me'')"
    by (simp add: same_but_credentials_def example_npmrc_def example_registry_def strip_registry_def
        strip_userinfo_def strip_host_def)
  ultimately show ?thesis
    using snapshot_key_semantic [of _ _ "example_npmrc []" "example_npmrc ''me''" example_inputs example_inputs] by blast
qed

definition example_view :: factory_view where
  "example_view =
     \<lparr>fv_world = example_world, fv_workspace = Inr (example_workspace example_config),
      fv_npmrc = Inr (example_npmrc ''me'', None), fv_use_byonm = Inr False, fv_root_node_modules = Inr None\<rparr>"

theorem accepted_manifest_is_authoritative_witness:
  "\<exists>m. resolver_input_manifest example_codecs example_later [RootDir] [] example_view (Inr example_view) = Inr m
    \<and> (\<exists>a. build_view example_codecs [RootDir] [] example_view = Inr a
          \<and> managed_snapshot_key m = managed_snapshot_key (bv_manifest a))"
proof -
  obtain m where m: "manifest_from_workspace example_codecs example_world [RootDir] []
      (example_workspace example_config) (example_npmrc ''me'') example_inputs = Inr m"
    using example_built by blast
  have "map_ok bv_manifest (build_view example_codecs [RootDir] [] example_view) = Inr m"
    using m by (simp add: build_view_def example_view_def managed_root_node_modules_path_def map_ok_def
        resolver_byonm_and_root_node_modules_path_def example_inputs_def)
  then have accepted: "resolver_input_manifest example_codecs example_later [RootDir] [] example_view
      (Inr example_view) = Inr m"
    using accepted_manifest_is_authoritative by simp
  then show ?thesis using accepted_manifest_is_authoritative by blast
qed

end
