(* ===== verification/Ld_Reuse.thy ===== *)
theory Ld_Reuse
  imports Ld_Manifest Ld_Caches
begin

text \<open>
  The reusable resolver stack: the stable build of src/src/services.rs, and the runtime of
  src/src/runtime.rs that shares one stack among concurrent runs, rebuilds it behind a gate when
  its inputs changed or a refresh was asked for, and publishes a rebuilt stack only if no refresh
  came meanwhile. Building one candidate is an outcome; what its manifest says of the world is
  decided by \<open>Ld_Manifest\<close>.
\<close>

section \<open>Stable builds\<close>

definition MAX_STABLE_BUILD_ATTEMPTS :: nat where
  "MAX_STABLE_BUILD_ATTEMPTS = 2"

definition stable_build_decision :: "nat \<Rightarrow> bool \<Rightarrow> bool anyhow" where
  "stable_build_decision attempt settled =
     (if settled then Inr True
      else if attempt + 1 < MAX_STABLE_BUILD_ATTEMPTS then Inr False
      else Inl RESOLVER_INPUTS_CHANGED)"

datatype 'c build_verdict = BvDone "'c anyhow" | BvAgain

text \<open>One iteration: what \<open>build_once\<close> returned, and whether the manifest was current after it.\<close>

definition build_attempt :: "nat \<Rightarrow> 'c anyhow \<Rightarrow> ('c \<Rightarrow> bool) \<Rightarrow> 'c build_verdict" where
  "build_attempt attempt built settled =
     (case built of
        Inl e \<Rightarrow>
          (if e = RESOLVER_INPUTS_CHANGED \<and> attempt + 1 < MAX_STABLE_BUILD_ATTEMPTS then BvAgain
           else BvDone (Inl e))
      | Inr candidate \<Rightarrow>
          (case stable_build_decision attempt (settled candidate) of
             Inl e \<Rightarrow> BvDone (Inl e)
           | Inr True \<Rightarrow> BvDone (Inr candidate)
           | Inr False \<Rightarrow> BvAgain))"

lemma build_attempt_again: "build_attempt attempt built settled = BvAgain \<Longrightarrow> attempt + 1 < MAX_STABLE_BUILD_ATTEMPTS"
  by (auto simp: build_attempt_def stable_build_decision_def split: sum.splits if_splits bool.splits)

lemma build_attempt_done:
  "build_attempt attempt built settled = BvDone (Inr candidate) \<Longrightarrow> built = Inr candidate \<and> settled candidate"
  by (auto simp: build_attempt_def stable_build_decision_def split: sum.splits if_splits bool.splits)

section \<open>Runs that share a stack\<close>

text \<open>
  \<open>st_born\<close> is history: how many refreshes had been asked for when the build of the stack began.
\<close>

record stack =
  st_manifest :: manifest
  st_born :: nat

record runtime_state =
  rt_manifest :: manifest
  rt_shared :: stack
  rt_refresh :: "64 word"
  rt_built :: "64 word"

definition needs_rebuild :: "bool \<Rightarrow> 64 word \<Rightarrow> 64 word \<Rightarrow> bool" where
  "needs_rebuild manifest_changed refresh built \<longleftrightarrow> manifest_changed \<or> built \<noteq> refresh"

definition singleflight_build_generation :: "bool \<Rightarrow> 64 word \<Rightarrow> 64 word \<Rightarrow> 64 word option" where
  "singleflight_build_generation manifest_changed refresh built =
     (if needs_rebuild manifest_changed refresh built then Some refresh else None)"

definition can_publish :: "64 word \<Rightarrow> 64 word \<Rightarrow> bool" where
  "can_publish build_generation current_generation \<longleftrightarrow> build_generation = current_generation"

definition publish :: "64 word \<Rightarrow> stack \<Rightarrow> runtime_state \<Rightarrow> runtime_state" where
  "publish build_generation candidate st =
     (if can_publish build_generation (rt_refresh st)
      then st\<lparr>rt_manifest := st_manifest candidate, rt_shared := candidate, rt_built := build_generation\<rparr>
      else st)"

definition refresh :: "runtime_state \<Rightarrow> runtime_state" where
  "refresh st = st\<lparr>rt_refresh := rt_refresh st + 1\<rparr>"

text \<open>
  Where a call of \<open>shared_for_run\<close> stands. \<open>RpProbe\<close> holds what was read of the state under its
  lock; \<open>RpGate\<close> is the wait for the gate; from \<open>RpGated\<close> to \<open>RpPublish\<close> the call holds it.
\<close>

datatype run_phase =
    RpIdle
  | RpRead
  | RpProbe manifest "64 word" "64 word" stack
  | RpGate
  | RpGated
  | RpGateProbe manifest "64 word" "64 word"
  | RpReuse
  | RpBuild "64 word" nat nat
  | RpCheck "64 word" nat stack
  | RpPublish "64 word" stack
  | RpDone "stack anyhow"

text \<open>
  All calls on one runtime. \<open>rs_refreshes\<close> counts the refreshes and \<open>rs_worlds\<close> is the history of
  the world, the present one last; \<open>rs_since\<close> and \<open>rs_from\<close> are their values when a call began.
\<close>

record reuse_sys =
  rs_state :: runtime_state
  rs_gate :: "nat option"
  rs_phase :: "nat \<Rightarrow> run_phase"
  rs_since :: "nat \<Rightarrow> nat"
  rs_from :: "nat \<Rightarrow> nat"
  rs_refreshes :: nat
  rs_worlds :: "world list"

definition set_phase :: "nat \<Rightarrow> run_phase \<Rightarrow> reuse_sys \<Rightarrow> reuse_sys" where
  "set_phase t p s = s\<lparr>rs_phase := (rs_phase s)(t := p)\<rparr>"

text \<open>A call returns, or its future is dropped: the guard of the gate is released.\<close>

definition leave :: "nat \<Rightarrow> run_phase \<Rightarrow> reuse_sys \<Rightarrow> reuse_sys" where
  "leave t p s = set_phase t p (if rs_gate s = Some t then s\<lparr>rs_gate := None\<rparr> else s)"

lemma set_phase_simps [simp]:
  "rs_state (set_phase t p s) = rs_state s" "rs_gate (set_phase t p s) = rs_gate s"
  "rs_phase (set_phase t p s) = (rs_phase s)(t := p)" "rs_since (set_phase t p s) = rs_since s"
  "rs_from (set_phase t p s) = rs_from s" "rs_refreshes (set_phase t p s) = rs_refreshes s"
  "rs_worlds (set_phase t p s) = rs_worlds s"
  by (simp_all add: set_phase_def)

lemma leave_simps [simp]:
  "rs_state (leave t p s) = rs_state s" "rs_gate (leave t p s) = (if rs_gate s = Some t then None else rs_gate s)"
  "rs_phase (leave t p s) = (rs_phase s)(t := p)" "rs_since (leave t p s) = rs_since s"
  "rs_from (leave t p s) = rs_from s" "rs_refreshes (leave t p s) = rs_refreshes s"
  "rs_worlds (leave t p s) = rs_worlds s"
  by (simp_all add: leave_def)

definition probe_changed :: "codecs \<Rightarrow> reuse_sys \<Rightarrow> manifest \<Rightarrow> bool" where
  "probe_changed cd s m \<longleftrightarrow> \<not> is_reusable cd (last (rs_worlds s)) m"

text \<open>
  The next step of call \<open>t\<close>; \<open>outcome\<close> is what \<open>build_once\<close> returns if the step is a build: the
  manifest of the candidate.
\<close>

definition run_next :: "codecs \<Rightarrow> nat \<Rightarrow> manifest anyhow \<Rightarrow> reuse_sys \<Rightarrow> reuse_sys option" where
  "run_next cd t outcome s =
     (let st = rs_state s
      in case rs_phase s t of
           RpIdle \<Rightarrow>
             Some (set_phase t RpRead s
               \<lparr>rs_since := (rs_since s)(t := rs_refreshes s), rs_from := (rs_from s)(t := length (rs_worlds s) - 1)\<rparr>)
         | RpRead \<Rightarrow> Some (set_phase t (RpProbe (rt_manifest st) (rt_refresh st) (rt_built st) (rt_shared st)) s)
         | RpProbe m r b shared \<Rightarrow>
             Some (case singleflight_build_generation (probe_changed cd s m) r b of
                     None \<Rightarrow> leave t (RpDone (Inr shared)) s
                   | Some _ \<Rightarrow> set_phase t RpGate s)
         | RpGate \<Rightarrow>
             (if rs_gate s = None then Some (set_phase t RpGated (s\<lparr>rs_gate := Some t\<rparr>)) else None)
         | RpGated \<Rightarrow> Some (set_phase t (RpGateProbe (rt_manifest st) (rt_refresh st) (rt_built st)) s)
         | RpGateProbe m r b \<Rightarrow>
             Some (case singleflight_build_generation (probe_changed cd s m) r b of
                     None \<Rightarrow> set_phase t RpReuse s
                   | Some generation \<Rightarrow> set_phase t (RpBuild generation 0 (rs_refreshes s)) s)
         | RpReuse \<Rightarrow> Some (leave t (RpDone (Inr (rt_shared st))) s)
         | RpBuild generation attempt born \<Rightarrow>
             Some (case outcome of
                     Inr m \<Rightarrow> set_phase t (RpCheck generation attempt \<lparr>st_manifest = m, st_born = born\<rparr>) s
                   | Inl e \<Rightarrow>
                       (case build_attempt attempt (Inl e :: stack anyhow) (\<lambda>_. False) of
                          BvDone r \<Rightarrow> leave t (RpDone r) s
                        | BvAgain \<Rightarrow> set_phase t (RpBuild generation (attempt + 1) (rs_refreshes s)) s))
         | RpCheck generation attempt candidate \<Rightarrow>
             Some (case build_attempt attempt (Inr candidate)
                          (\<lambda>c. is_current cd (last (rs_worlds s)) (st_manifest c)) of
                     BvDone (Inl e) \<Rightarrow> leave t (RpDone (Inl e)) s
                   | BvDone (Inr c) \<Rightarrow> set_phase t (RpPublish generation c) s
                   | BvAgain \<Rightarrow> set_phase t (RpBuild generation (attempt + 1) (rs_refreshes s)) s)
         | RpPublish generation candidate \<Rightarrow>
             Some (leave t (RpDone (Inr candidate)) (s\<lparr>rs_state := publish generation candidate st\<rparr>))
         | RpDone _ \<Rightarrow> None)"

text \<open>Steps of the calls, of hosts that refresh or drop a call, and of the world.\<close>

inductive reuse_step :: "codecs \<Rightarrow> reuse_sys \<Rightarrow> reuse_sys \<Rightarrow> bool" for cd where
  run: "run_next cd t outcome s = Some s' \<Longrightarrow> reuse_step cd s s'"
| drop: "reuse_step cd s (leave t RpIdle s)"
| refresh: "reuse_step cd s (s\<lparr>rs_state := refresh (rs_state s), rs_refreshes := rs_refreshes s + 1\<rparr>)"
| world: "reuse_step cd s (s\<lparr>rs_worlds := rs_worlds s @ [w]\<rparr>)"

text \<open>\<open>LibdenoRuntime::new\<close> installs the stack of one stable build.\<close>

definition runtime_new :: "stack \<Rightarrow> runtime_state" where
  "runtime_new shared = \<lparr>rt_manifest = st_manifest shared, rt_shared = shared, rt_refresh = 0, rt_built = 0\<rparr>"

definition reuse_init :: "reuse_sys \<Rightarrow> bool" where
  "reuse_init s \<longleftrightarrow>
     (\<exists>shared. st_born shared = 0 \<and> rs_state s = runtime_new shared) \<and> rs_gate s = None
   \<and> (\<forall>t. rs_phase s t = RpIdle) \<and> rs_refreshes s = 0 \<and> rs_worlds s \<noteq> []"

section \<open>Invariant\<close>

fun holds_gate :: "run_phase \<Rightarrow> bool" where
  "holds_gate RpGated = True"
| "holds_gate (RpGateProbe _ _ _) = True"
| "holds_gate RpReuse = True"
| "holds_gate (RpBuild _ _ _) = True"
| "holds_gate (RpCheck _ _ _) = True"
| "holds_gate (RpPublish _ _) = True"
| "holds_gate _ = False"

text \<open>A stack that a call may use: built no earlier than the call's start asks for, and seen current since.\<close>

definition seen_current :: "codecs \<Rightarrow> reuse_sys \<Rightarrow> nat \<Rightarrow> manifest \<Rightarrow> bool" where
  "seen_current cd s t m \<longleftrightarrow>
     (\<exists>i. rs_from s t \<le> i \<and> i < length (rs_worlds s) \<and> is_current cd (rs_worlds s ! i) m)"

definition generation_of :: "reuse_sys \<Rightarrow> nat \<Rightarrow> 64 word \<Rightarrow> nat \<Rightarrow> bool" where
  "generation_of s t r n \<longleftrightarrow> r = of_nat n \<and> rs_since s t \<le> n \<and> n \<le> rs_refreshes s"

definition installed_ok :: "reuse_sys \<Rightarrow> manifest \<Rightarrow> 64 word \<Rightarrow> stack \<Rightarrow> bool" where
  "installed_ok s m b shared \<longleftrightarrow>
     m = st_manifest shared \<and> st_born shared \<le> rs_refreshes s \<and> (\<exists>n. b = of_nat n \<and> n \<le> st_born shared)"

fun phase_inv :: "codecs \<Rightarrow> reuse_sys \<Rightarrow> nat \<Rightarrow> run_phase \<Rightarrow> bool" where
  "phase_inv cd s t (RpProbe m r b shared) \<longleftrightarrow> installed_ok s m b shared \<and> (\<exists>n. generation_of s t r n)"
| "phase_inv cd s t (RpGateProbe m r b) \<longleftrightarrow>
     m = rt_manifest (rs_state s) \<and> b = rt_built (rs_state s) \<and> (\<exists>n. generation_of s t r n)"
| "phase_inv cd s t RpReuse \<longleftrightarrow>
     (rs_refreshes s < 2 ^ 64 \<longrightarrow> rs_since s t \<le> st_born (rt_shared (rs_state s)))
   \<and> seen_current cd s t (st_manifest (rt_shared (rs_state s)))"
| "phase_inv cd s t (RpBuild g attempt born) \<longleftrightarrow> (\<exists>n. generation_of s t g n \<and> n \<le> born) \<and> born \<le> rs_refreshes s"
| "phase_inv cd s t (RpCheck g attempt c) \<longleftrightarrow>
     (\<exists>n. generation_of s t g n \<and> n \<le> st_born c) \<and> st_born c \<le> rs_refreshes s"
| "phase_inv cd s t (RpPublish g c) \<longleftrightarrow>
     (\<exists>n. generation_of s t g n \<and> n \<le> st_born c) \<and> st_born c \<le> rs_refreshes s
   \<and> seen_current cd s t (st_manifest c)"
| "phase_inv cd s t (RpDone (Inr c)) \<longleftrightarrow>
     (rs_refreshes s < 2 ^ 64 \<longrightarrow> rs_since s t \<le> st_born c) \<and> seen_current cd s t (st_manifest c)"
| "phase_inv cd s t _ \<longleftrightarrow> True"

definition reuse_inv :: "codecs \<Rightarrow> reuse_sys \<Rightarrow> bool" where
  "reuse_inv cd s \<longleftrightarrow>
     rs_worlds s \<noteq> [] \<and> (\<forall>t. holds_gate (rs_phase s t) \<longleftrightarrow> rs_gate s = Some t)
   \<and> rt_refresh (rs_state s) = of_nat (rs_refreshes s)
   \<and> installed_ok s (rt_manifest (rs_state s)) (rt_built (rs_state s)) (rt_shared (rs_state s))
   \<and> (\<forall>t. rs_phase s t \<noteq> RpIdle \<longrightarrow> rs_since s t \<le> rs_refreshes s \<and> rs_from s t < length (rs_worlds s))
   \<and> (\<forall>t. phase_inv cd s t (rs_phase s t))"

text \<open>What another call, a refresh or the world can do leaves a call's own phase valid.\<close>

lemma seen_current_frame:
  assumes "seen_current cd s t m" and "rs_from s' t = rs_from s t" and "\<exists>ws. rs_worlds s' = rs_worlds s @ ws"
  shows "seen_current cd s' t m"
proof -
  obtain i where "rs_from s t \<le> i" "i < length (rs_worlds s)" "is_current cd (rs_worlds s ! i) m"
    using assms(1) unfolding seen_current_def by blast
  then show ?thesis
    using assms(2,3) unfolding seen_current_def by (auto simp: nth_append intro!: exI [of _ i])
qed

lemma phase_inv_frame:
  assumes "phase_inv cd s t p"
    and "rs_since s' t = rs_since s t" "rs_from s' t = rs_from s t" "rs_refreshes s \<le> rs_refreshes s'"
    and "\<exists>ws. rs_worlds s' = rs_worlds s @ ws"
    and "holds_gate p \<Longrightarrow> rt_manifest (rs_state s') = rt_manifest (rs_state s)
       \<and> rt_built (rs_state s') = rt_built (rs_state s) \<and> rt_shared (rs_state s') = rt_shared (rs_state s)"
  shows "phase_inv cd s' t p"
proof -
  have gen: "generation_of s' t r n" if "generation_of s t r n" for r n
    using that assms(2,4) by (auto simp: generation_of_def)
  have inst: "installed_ok s' m b sh" if "installed_ok s m b sh" for m b sh
    using that assms(4) by (auto simp: installed_ok_def)
  have seen: "seen_current cd s' t m" if "seen_current cd s t m" for m
    using seen_current_frame that assms(3,5) by blast
  show ?thesis
    using assms(1,2,4,6)
  proof (cases p)
    case (RpDone r)
    then show ?thesis using assms(1,2,4) seen by (cases r) auto
  qed (use gen inst seen in \<open>(auto | (meson gen order_trans))+\<close>)
qed

lemma of_nat_64_inject: "n < 2 ^ 64 \<Longrightarrow> m < 2 ^ 64 \<Longrightarrow> (of_nat n :: 64 word) = of_nat m \<Longrightarrow> n = m"
  by (drule arg_cong [where f = unat]) (simp add: unat_of_nat)

lemma reuse_invD:
  assumes "reuse_inv cd s"
  shows "rs_worlds s \<noteq> []" "holds_gate (rs_phase s t) \<longleftrightarrow> rs_gate s = Some t"
    "rt_refresh (rs_state s) = of_nat (rs_refreshes s)"
    "installed_ok s (rt_manifest (rs_state s)) (rt_built (rs_state s)) (rt_shared (rs_state s))"
    "rs_phase s t \<noteq> RpIdle \<Longrightarrow> rs_since s t \<le> rs_refreshes s \<and> rs_from s t < length (rs_worlds s)"
    "phase_inv cd s t (rs_phase s t)"
  using assms unfolding reuse_inv_def by blast+

text \<open>A step of call \<open>t\<close> keeps the invariant if it keeps what the others rely on.\<close>

lemma reuse_inv_frame:
  assumes inv: "reuse_inv cd s"
    and worlds: "\<exists>ws. rs_worlds s' = rs_worlds s @ ws" and mono: "rs_refreshes s \<le> rs_refreshes s'"
    and others: "\<And>u. u \<noteq> t \<Longrightarrow> rs_phase s' u = rs_phase s u \<and> rs_since s' u = rs_since s u \<and> rs_from s' u = rs_from s u"
    and kept: "\<And>u. u \<noteq> t \<Longrightarrow> rs_gate s = Some u \<Longrightarrow> rt_manifest (rs_state s') = rt_manifest (rs_state s)
       \<and> rt_built (rs_state s') = rt_built (rs_state s) \<and> rt_shared (rs_state s') = rt_shared (rs_state s)"
    and gate: "\<And>u. holds_gate (rs_phase s' u) \<longleftrightarrow> rs_gate s' = Some u"
    and state: "rt_refresh (rs_state s') = of_nat (rs_refreshes s')"
      "installed_ok s' (rt_manifest (rs_state s')) (rt_built (rs_state s')) (rt_shared (rs_state s'))"
    and own: "rs_phase s' t \<noteq> RpIdle \<Longrightarrow> rs_since s' t \<le> rs_refreshes s' \<and> rs_from s' t < length (rs_worlds s')"
      "phase_inv cd s' t (rs_phase s' t)"
  shows "reuse_inv cd s'"
  unfolding reuse_inv_def
proof (intro conjI allI impI)
  show "rs_worlds s' \<noteq> []" using reuse_invD(1) [OF inv] worlds by auto
next
  fix u assume active: "rs_phase s' u \<noteq> RpIdle"
  show "rs_since s' u \<le> rs_refreshes s'"
    using own(1) active others [of u] reuse_invD(5) [OF inv, of u] mono by (cases "u = t") auto
  show "rs_from s' u < length (rs_worlds s')"
    using own(1) active others [of u] reuse_invD(5) [OF inv, of u] worlds by (cases "u = t") auto
next
  fix u
  show "phase_inv cd s' u (rs_phase s' u)"
  proof (cases "u = t")
    case False
    have "phase_inv cd s' u (rs_phase s u)"
    proof (rule phase_inv_frame)
      show "phase_inv cd s u (rs_phase s u)" by (rule reuse_invD(6) [OF inv])
      show "rt_manifest (rs_state s') = rt_manifest (rs_state s) \<and> rt_built (rs_state s') = rt_built (rs_state s)
          \<and> rt_shared (rs_state s') = rt_shared (rs_state s)" if "holds_gate (rs_phase s u)"
        using kept [OF False] that reuse_invD(2) [OF inv] by blast
    qed (use others [OF False] mono worlds in auto)
    then show ?thesis using others [OF False] by simp
  qed (use own(2) in simp)
qed (use gate state in auto)

lemma phase_inv_cong:
  assumes "rs_refreshes s' = rs_refreshes s" "rs_worlds s' = rs_worlds s" "rs_since s' t = rs_since s t"
    "rs_from s' t = rs_from s t" "rs_state s' = rs_state s"
  shows "phase_inv cd s' t p = phase_inv cd s t p"
  using assms phase_inv_frame [of cd s t p s'] phase_inv_frame [of cd s' t p s] by auto

lemma reuse_inv_phase:
  assumes inv: "reuse_inv cd s" and phase: "phase_inv cd s t p"
    and gate: "holds_gate p \<longleftrightarrow> holds_gate (rs_phase s t)" and active: "rs_phase s t \<noteq> RpIdle"
  shows "reuse_inv cd (set_phase t p s)"
proof (rule reuse_inv_frame [OF inv, of _ t])
  show "holds_gate (rs_phase (set_phase t p s) u) \<longleftrightarrow> rs_gate (set_phase t p s) = Some u" for u
    using reuse_invD(2) [OF inv] gate by simp
  show "phase_inv cd (set_phase t p s) t (rs_phase (set_phase t p s) t)"
    using phase phase_inv_cong [of "set_phase t p s" s t] by simp
  show "installed_ok (set_phase t p s) (rt_manifest (rs_state (set_phase t p s)))
      (rt_built (rs_state (set_phase t p s))) (rt_shared (rs_state (set_phase t p s)))"
    using reuse_invD(4) [OF inv] by (simp add: installed_ok_def)
qed (use reuse_invD(3) [OF inv] reuse_invD(5) [OF inv, of t] active in \<open>simp_all\<close>)

lemma reuse_inv_leave:
  assumes inv: "reuse_inv cd s" and phase: "phase_inv cd s t p"
    and free: "\<not> holds_gate p" and active: "rs_phase s t \<noteq> RpIdle \<or> p = RpIdle"
  shows "reuse_inv cd (leave t p s)"
proof (rule reuse_inv_frame [OF inv, of _ t])
  show "holds_gate (rs_phase (leave t p s) u) \<longleftrightarrow> rs_gate (leave t p s) = Some u" for u
    using reuse_invD(2) [OF inv] free by auto
  show "phase_inv cd (leave t p s) t (rs_phase (leave t p s) t)"
    using phase phase_inv_cong [of "leave t p s" s t] by simp
  show "installed_ok (leave t p s) (rt_manifest (rs_state (leave t p s)))
      (rt_built (rs_state (leave t p s))) (rt_shared (rs_state (leave t p s)))"
    using reuse_invD(4) [OF inv] by (simp add: installed_ok_def)
qed (use reuse_invD(3) [OF inv] reuse_invD(5) [OF inv, of t] active in \<open>auto\<close>)

text \<open>
  The candidate that is published is at least as new as the generation it is published for,
  whatever the number of refreshes.
\<close>

lemma reuse_inv_publish:
  assumes inv: "reuse_inv cd s" and phase: "rs_phase s t = RpPublish g c"
  shows "reuse_inv cd (s\<lparr>rs_state := publish g c (rs_state s)\<rparr>)" (is "reuse_inv cd ?s")
proof (rule reuse_inv_frame [OF inv, of _ t])
  have holder: "rs_gate s = Some t" using reuse_invD(2) [OF inv, of t] phase by simp
  then show "rt_manifest (rs_state ?s) = rt_manifest (rs_state s)
       \<and> rt_built (rs_state ?s) = rt_built (rs_state s) \<and> rt_shared (rs_state ?s) = rt_shared (rs_state s)"
    if "u \<noteq> t" "rs_gate s = Some u" for u using that by simp
  show "holds_gate (rs_phase ?s u) \<longleftrightarrow> rs_gate ?s = Some u" for u using reuse_invD(2) [OF inv] by simp
  show "rt_refresh (rs_state ?s) = of_nat (rs_refreshes ?s)"
    using reuse_invD(3) [OF inv] by (simp add: publish_def)
  show "installed_ok ?s (rt_manifest (rs_state ?s)) (rt_built (rs_state ?s)) (rt_shared (rs_state ?s))"
    using reuse_invD(4) [OF inv] reuse_invD(6) [OF inv, of t] phase
    by (auto simp: publish_def installed_ok_def generation_of_def)
  show "phase_inv cd ?s t (rs_phase ?s t)"
    using reuse_invD(6) [OF inv, of t] phase by (auto simp: generation_of_def seen_current_def)
qed (use reuse_invD(5) [OF inv, of t] in simp_all)

lemma reuse_inv_start:
  assumes inv: "reuse_inv cd s" and idle: "rs_phase s t = RpIdle"
  shows "reuse_inv cd (set_phase t RpRead s
     \<lparr>rs_since := (rs_since s)(t := rs_refreshes s), rs_from := (rs_from s)(t := length (rs_worlds s) - 1)\<rparr>)"
    (is "reuse_inv cd ?s")
proof (rule reuse_inv_frame [OF inv, of _ t])
  show "holds_gate (rs_phase ?s u) \<longleftrightarrow> rs_gate ?s = Some u" for u
    using reuse_invD(2) [OF inv, of u] idle by auto
  show "installed_ok ?s (rt_manifest (rs_state ?s)) (rt_built (rs_state ?s)) (rt_shared (rs_state ?s))"
    using reuse_invD(4) [OF inv] by (simp add: installed_ok_def)
qed (use reuse_invD(1,3) [OF inv] in \<open>simp_all\<close>)

lemma reuse_inv_acquire:
  assumes inv: "reuse_inv cd s" and phase: "rs_phase s t = RpGate" and free: "rs_gate s = None"
  shows "reuse_inv cd (set_phase t RpGated (s\<lparr>rs_gate := Some t\<rparr>))" (is "reuse_inv cd ?s")
proof (rule reuse_inv_frame [OF inv, of _ t])
  show "holds_gate (rs_phase ?s u) \<longleftrightarrow> rs_gate ?s = Some u" for u
    using reuse_invD(2) [OF inv, of u] free by auto
  show "installed_ok ?s (rt_manifest (rs_state ?s)) (rt_built (rs_state ?s)) (rt_shared (rs_state ?s))"
    using reuse_invD(4) [OF inv] by (simp add: installed_ok_def)
qed (use reuse_invD(3) [OF inv] reuse_invD(5) [OF inv, of t] phase in \<open>simp_all\<close>)

text \<open>The world and a refresh are steps of no call; any idle or busy call may stand for them.\<close>

lemma reuse_inv_world:
  assumes inv: "reuse_inv cd s"
  shows "reuse_inv cd (s\<lparr>rs_worlds := rs_worlds s @ [w]\<rparr>)" (is "reuse_inv cd ?s")
proof (rule reuse_inv_frame [OF inv, of _ 0])
  show "holds_gate (rs_phase ?s u) \<longleftrightarrow> rs_gate ?s = Some u" for u using reuse_invD(2) [OF inv, of u] by simp
  show "installed_ok ?s (rt_manifest (rs_state ?s)) (rt_built (rs_state ?s)) (rt_shared (rs_state ?s))"
    using reuse_invD(4) [OF inv] by (simp add: installed_ok_def)
  show "phase_inv cd ?s 0 (rs_phase ?s 0)"
    using phase_inv_frame [OF reuse_invD(6) [OF inv, of 0], of ?s] by simp
qed (use reuse_invD(3) [OF inv] reuse_invD(5) [OF inv, of 0] in auto)

lemma reuse_inv_refresh:
  assumes inv: "reuse_inv cd s"
  shows "reuse_inv cd (s\<lparr>rs_state := refresh (rs_state s), rs_refreshes := rs_refreshes s + 1\<rparr>)" (is "reuse_inv cd ?s")
proof (rule reuse_inv_frame [OF inv, of _ 0])
  show "holds_gate (rs_phase ?s u) \<longleftrightarrow> rs_gate ?s = Some u" for u using reuse_invD(2) [OF inv, of u] by simp
  show "installed_ok ?s (rt_manifest (rs_state ?s)) (rt_built (rs_state ?s)) (rt_shared (rs_state ?s))"
    using reuse_invD(4) [OF inv] by (auto simp: installed_ok_def refresh_def)
  show "phase_inv cd ?s 0 (rs_phase ?s 0)"
    using phase_inv_frame [OF reuse_invD(6) [OF inv, of 0], of ?s] by (simp add: refresh_def)
qed (use reuse_invD(3) [OF inv] reuse_invD(5) [OF inv, of 0] in \<open>auto simp: refresh_def\<close>)

lemma seen_current_now:
  "rs_worlds s \<noteq> [] \<Longrightarrow> rs_from s t < length (rs_worlds s) \<Longrightarrow> is_current cd (last (rs_worlds s)) m \<Longrightarrow>
   seen_current cd s t m"
  unfolding seen_current_def
  by (intro exI [of _ "length (rs_worlds s) - 1"]) (auto simp: last_conv_nth)

text \<open>What a probe that finds nothing to rebuild has established.\<close>

lemma no_rebuild:
  assumes inv: "reuse_inv cd s" and active: "rs_phase s t \<noteq> RpIdle"
    and decided: "singleflight_build_generation (probe_changed cd s m) r b = None"
    and installed: "installed_ok s m b shared" and generation: "generation_of s t r n"
  shows "(rs_refreshes s < 2 ^ 64 \<longrightarrow> rs_since s t \<le> st_born shared) \<and> seen_current cd s t (st_manifest shared)"
proof -
  have same: "b = r" and reusable: "is_reusable cd (last (rs_worlds s)) m"
    using decided by (auto simp: singleflight_build_generation_def needs_rebuild_def probe_changed_def split: if_splits)
  obtain k where k: "b = of_nat k" "k \<le> st_born shared" and m: "m = st_manifest shared"
      and born: "st_born shared \<le> rs_refreshes s"
    using installed by (auto simp: installed_ok_def)
  have "k = n" if "rs_refreshes s < 2 ^ 64"
    using same k generation born that by (intro of_nat_64_inject) (auto simp: generation_of_def)
  then have "rs_refreshes s < 2 ^ 64 \<longrightarrow> rs_since s t \<le> st_born shared"
    using generation k by (auto simp: generation_of_def)
  moreover have "is_current cd (last (rs_worlds s)) m"
    using reusable by (auto simp: is_reusable_def split: if_splits)
  ultimately show ?thesis
    using m seen_current_now reuse_invD(1) [OF inv] reuse_invD(5) [OF inv active] by blast
qed

lemmas run_next_unfolded = run_next_def [unfolded Let_def]

lemma reuse_inv_run:
  assumes inv: "reuse_inv cd s" and step: "run_next cd t outcome s = Some s'"
  shows "reuse_inv cd s'"
proof -
  note own = reuse_invD(6) [OF inv, of t] and alive = reuse_invD(5) [OF inv, of t]
  have refresh: "rt_refresh (rs_state s) = of_nat (rs_refreshes s)"
    and installed: "installed_ok s (rt_manifest (rs_state s)) (rt_built (rs_state s)) (rt_shared (rs_state s))"
    using reuse_invD(3,4) [OF inv] by simp_all
  have generation: "\<exists>n. generation_of s t (rt_refresh (rs_state s)) n" if "rs_phase s t \<noteq> RpIdle"
    using alive that refresh unfolding generation_of_def by blast
  show ?thesis
  proof (cases "rs_phase s t")
    case RpIdle
    then show ?thesis using step reuse_inv_start [OF inv, of t] by (auto simp: run_next_unfolded)
  next
    case RpRead
    then show ?thesis using step installed generation
      by (auto simp: run_next_unfolded intro!: reuse_inv_phase [OF inv])
  next
    case (RpProbe m r b shared)
    show ?thesis
    proof (cases "singleflight_build_generation (probe_changed cd s m) r b")
      case None
      have "(rs_refreshes s < 2 ^ 64 \<longrightarrow> rs_since s t \<le> st_born shared) \<and> seen_current cd s t (st_manifest shared)"
        using own RpProbe no_rebuild [OF inv _ None] by auto
      then show ?thesis using step RpProbe None
        by (auto simp: run_next_unfolded intro!: reuse_inv_leave [OF inv])
    next
      case (Some g)
      then show ?thesis using step RpProbe by (auto simp: run_next_unfolded intro!: reuse_inv_phase [OF inv])
    qed
  next
    case RpGate
    then show ?thesis using step reuse_inv_acquire [OF inv] by (auto simp: run_next_unfolded split: if_splits)
  next
    case RpGated
    then show ?thesis using step generation by (auto simp: run_next_unfolded intro!: reuse_inv_phase [OF inv])
  next
    case (RpGateProbe m r b)
    show ?thesis
    proof (cases "singleflight_build_generation (probe_changed cd s m) r b")
      case None
      have "phase_inv cd s t RpReuse"
        using own RpGateProbe no_rebuild [OF inv _ None, of t "rt_shared (rs_state s)"] installed by auto
      then show ?thesis using step RpGateProbe None
        by (auto simp: run_next_unfolded intro!: reuse_inv_phase [OF inv])
    next
      case (Some g)
      then have "g = r" by (auto simp: singleflight_build_generation_def split: if_splits)
      have "phase_inv cd s t (RpBuild g 0 (rs_refreshes s))"
        using own RpGateProbe \<open>g = r\<close> by (auto simp: generation_of_def)
      then show ?thesis using step RpGateProbe Some
        by (auto simp: run_next_unfolded simp del: phase_inv.simps intro!: reuse_inv_phase [OF inv])
    qed
  next
    case RpReuse
    then show ?thesis using step own by (auto simp: run_next_unfolded intro!: reuse_inv_leave [OF inv])
  next
    case (RpBuild g attempt born)
    have again: "phase_inv cd s t (RpBuild g (attempt + 1) (rs_refreshes s))"
      using own RpBuild by (auto simp: generation_of_def)
    have built: "phase_inv cd s t (RpCheck g attempt \<lparr>st_manifest = m, st_born = born\<rparr>)" for m
      using own RpBuild by auto
    show ?thesis
      using step RpBuild again built
      by (auto simp: run_next_unfolded build_attempt_def simp del: phase_inv.simps(4,5) split: sum.splits if_splits
          intro!: reuse_inv_phase [OF inv] reuse_inv_leave [OF inv])
  next
    case (RpCheck g attempt c)
    have again: "phase_inv cd s t (RpBuild g (attempt + 1) (rs_refreshes s))"
      using own RpCheck by (auto simp: generation_of_def)
    have accepted: "phase_inv cd s t (RpPublish g c)"
      if "is_current cd (last (rs_worlds s)) (st_manifest c)"
      using own that RpCheck seen_current_now reuse_invD(1) [OF inv] alive by auto
    show ?thesis
    proof (cases "build_attempt attempt (Inr c) (\<lambda>c. is_current cd (last (rs_worlds s)) (st_manifest c))")
      case (BvDone r)
      then show ?thesis
      proof (cases r)
        case (Inl e)
        then show ?thesis using step RpCheck BvDone by (auto simp: run_next_unfolded intro!: reuse_inv_leave [OF inv])
      next
        case (Inr c')
        with BvDone build_attempt_done have "c' = c" "is_current cd (last (rs_worlds s)) (st_manifest c)" by fastforce+
        then show ?thesis using step RpCheck BvDone Inr accepted
          by (auto simp: run_next_unfolded simp del: phase_inv.simps intro!: reuse_inv_phase [OF inv])
      qed
    next
      case BvAgain
      then show ?thesis using step RpCheck again
        by (auto simp: run_next_unfolded simp del: phase_inv.simps intro!: reuse_inv_phase [OF inv])
    qed
  next
    case (RpPublish g c)
    let ?s = "s\<lparr>rs_state := publish g c (rs_state s)\<rparr>"
    have published: "reuse_inv cd ?s" by (rule reuse_inv_publish [OF inv RpPublish])
    have "reuse_inv cd (leave t (RpDone (Inr c)) ?s)"
      using own RpPublish by (intro reuse_inv_leave [OF published]) (auto simp: generation_of_def seen_current_def)
    then show ?thesis using step RpPublish by (auto simp: run_next_unfolded)
  next
    case (RpDone r)
    then show ?thesis using step by (simp add: run_next_unfolded)
  qed
qed

lemma reuse_inv_step:
  assumes inv: "reuse_inv cd s" and step: "reuse_step cd s s'"
  shows "reuse_inv cd s'"
  using step
proof cases
  case (drop t)
  then show ?thesis using reuse_inv_leave [OF inv, of t RpIdle] by simp
qed (use inv reuse_inv_run reuse_inv_world reuse_inv_refresh in \<open>simp_all only:\<close>)

interpretation reuse: invariant_system reuse_init "reuse_step cd" "reuse_inv cd" for cd
proof
  fix s assume "reuse_init s"
  then obtain shared where "st_born shared = 0" "rs_state s = runtime_new shared" and
      rest: "rs_gate s = None" "\<forall>t. rs_phase s t = RpIdle" "rs_refreshes s = 0" "rs_worlds s \<noteq> []"
    by (auto simp: reuse_init_def)
  then show "reuse_inv cd s" by (auto simp: reuse_inv_def runtime_new_def installed_ok_def)
next
  fix s s' assume "reuse_inv cd s" "reuse_step cd s s'"
  then show "reuse_inv cd s'" by (rule reuse_inv_step)
qed

text \<open>
  C13: A run never uses a stale resolver stack: in every interleaving of concurrent runs,
  refreshes, dropped futures and changes of the world, the stack a call returns was built
  after every refresh asked for before the call began, and its manifest was current at some
  moment since then, as long as the refreshes do not wrap the generation counter.
\<close>

theorem reused_stack_is_fresh:
  assumes "reach reuse_init (reuse_step cd) s" and "rs_refreshes s < 2 ^ 64"
    and "rs_phase s t = RpDone (Inr shared)"
  shows "rs_since s t \<le> st_born shared
    \<and> (\<exists>i. rs_from s t \<le> i \<and> i < length (rs_worlds s) \<and> is_current cd (rs_worlds s ! i) (st_manifest shared))"
  using reuse_invD(6) [OF reuse.reach_inv [OF assms(1)], of t] assms(2,3) by (simp add: seen_current_def)

text \<open>
  At most one call holds the rebuild gate, so at most one stack is being built or published at
  a time; the generation recorded as built is one that the installed stack covers, and the
  installed manifest is that stack's.
\<close>

theorem rebuild_is_single:
  assumes "reach reuse_init (reuse_step cd) s"
    and "holds_gate (rs_phase s t)" and "holds_gate (rs_phase s u)"
  shows "t = u \<and> (\<exists>n. rt_built (rs_state s) = of_nat n \<and> n \<le> st_born (rt_shared (rs_state s)))
    \<and> rt_manifest (rs_state s) = st_manifest (rt_shared (rs_state s))"
  using reuse_invD(2,4) [OF reuse.reach_inv [OF assms(1)]] assms(2,3) by (auto simp: installed_ok_def)

section \<open>No call is stuck\<close>

text \<open>How far a call is from its end, if every build fails.\<close>

fun distance :: "run_phase \<Rightarrow> nat" where
  "distance RpIdle = 9"
| "distance RpRead = 8"
| "distance (RpProbe _ _ _ _) = 7"
| "distance RpGate = 6"
| "distance RpGated = 5"
| "distance (RpGateProbe _ _ _) = 4"
| "distance (RpCheck _ _ _) = 3"
| "distance (RpBuild _ _ _) = 1"
| "distance RpReuse = 1"
| "distance (RpPublish _ _) = 1"
| "distance (RpDone _) = 0"

text \<open>Each step of a call that is not waiting for the gate brings it nearer, with a failing build.\<close>

lemma run_next_nearer:
  assumes "rs_phase s t \<noteq> RpGate \<or> rs_gate s = None" and "0 < distance (rs_phase s t)"
  shows "\<exists>s'. run_next cd t (Inl ''failed'') s = Some s' \<and> distance (rs_phase s' t) < distance (rs_phase s t)
    \<and> (\<forall>u. u \<noteq> t \<longrightarrow> rs_phase s' u = rs_phase s u)
    \<and> (rs_gate s' = rs_gate s \<or> rs_phase s t = RpGate \<or> (\<exists>r. rs_phase s' t = RpDone r))"
  using assms
  by (cases "rs_phase s t")
    (auto simp: run_next_unfolded build_attempt_def stable_build_decision_def RESOLVER_INPUTS_CHANGED_def
      split: option.splits sum.splits bool.splits build_verdict.splits)

lemma call_finishes:
  assumes "reuse_inv cd s" and "rs_gate s = None \<or> rs_gate s = Some t"
  shows "\<exists>s'. (reuse_step cd)\<^sup>*\<^sup>* s s' \<and> (\<exists>r. rs_phase s' t = RpDone r) \<and> rs_gate s' = None"
  using assms
proof (induction "distance (rs_phase s t)" arbitrary: s rule: less_induct)
  case less
  note own = reuse_invD(2) [OF less.prems(1), of t]
  show ?case
  proof (cases "distance (rs_phase s t) = 0")
    case True
    then obtain r where "rs_phase s t = RpDone r" by (cases "rs_phase s t") auto
    then show ?thesis using own less.prems(2) by auto
  next
    case False
    have "rs_phase s t \<noteq> RpGate \<or> rs_gate s = None" using own less.prems(2) by auto
    then obtain s' where s': "run_next cd t (Inl ''failed'') s = Some s'"
        "distance (rs_phase s' t) < distance (rs_phase s t)" "\<forall>u. u \<noteq> t \<longrightarrow> rs_phase s' u = rs_phase s u"
      using run_next_nearer False by blast
    have inv': "reuse_inv cd s'" by (rule reuse_inv_run [OF less.prems(1) s'(1)])
    have "rs_gate s' = None \<or> rs_gate s' = Some t"
    proof (cases "rs_gate s'")
      case (Some u)
      then have "holds_gate (rs_phase s' u)" using reuse_invD(2) [OF inv'] by simp
      then show ?thesis
        using Some s'(3) reuse_invD(2) [OF less.prems(1), of u] less.prems(2) by (cases "u = t") auto
    qed simp
    from less.hyps [OF s'(2) inv' this] obtain s'' where "(reuse_step cd)\<^sup>*\<^sup>* s' s''"
        "\<exists>r. rs_phase s'' t = RpDone r" "rs_gate s'' = None" by blast
    then show ?thesis using reuse_step.run [OF s'(1)] by (meson converse_rtranclp_into_rtranclp)
  qed
qed

text \<open>
  From every reachable state every call can still return, whoever builds and however many
  wait; and while the installed stack is reusable and no refresh is pending, a call returns it
  without waiting for a build that is under way.
\<close>

theorem reuse_no_call_is_stuck:
  assumes "reach reuse_init (reuse_step cd) s"
  shows "(\<exists>s'. (reuse_step cd)\<^sup>*\<^sup>* s s' \<and> (\<exists>r. rs_phase s' t = RpDone r))
    \<and> (rs_phase s t = RpRead \<and> rt_built (rs_state s) = rt_refresh (rs_state s)
         \<and> is_reusable cd (last (rs_worlds s)) (rt_manifest (rs_state s)) \<longrightarrow>
         (\<exists>s1 s2. run_next cd t outcome s = Some s1 \<and> run_next cd t outcome s1 = Some s2
            \<and> rs_phase s2 t = RpDone (Inr (rt_shared (rs_state s))) \<and> rs_gate s2 = rs_gate s))"
proof (intro conjI impI)
  have inv: "reuse_inv cd s" by (rule reuse.reach_inv [OF assms])
  obtain s1 where s1: "(reuse_step cd)\<^sup>*\<^sup>* s s1" "rs_gate s1 = None"
  proof (cases "rs_gate s")
    case None
    then show thesis using that [OF rtranclp.rtrancl_refl] by blast
  next
    case (Some u)
    then show thesis using that call_finishes [OF inv, of u] by blast
  qed
  have "reuse_inv cd s1" by (rule reuse.steps_inv [OF s1(1) inv])
  from call_finishes [OF this] s1(2) obtain s2 where "(reuse_step cd)\<^sup>*\<^sup>* s1 s2" "\<exists>r. rs_phase s2 t = RpDone r"
    by blast
  then show "\<exists>s'. (reuse_step cd)\<^sup>*\<^sup>* s s' \<and> (\<exists>r. rs_phase s' t = RpDone r)"
    using s1(1) by (meson rtranclp_trans)
next
  assume fast: "rs_phase s t = RpRead \<and> rt_built (rs_state s) = rt_refresh (rs_state s)
         \<and> is_reusable cd (last (rs_worlds s)) (rt_manifest (rs_state s))"
  have "rs_gate s \<noteq> Some t"
    using reuse_invD(2) [OF reuse.reach_inv [OF assms], of t] fast by auto
  then show "\<exists>s1 s2. run_next cd t outcome s = Some s1 \<and> run_next cd t outcome s1 = Some s2
            \<and> rs_phase s2 t = RpDone (Inr (rt_shared (rs_state s))) \<and> rs_gate s2 = rs_gate s"
    using fast by (simp add: run_next_unfolded singleflight_build_generation_def needs_rebuild_def probe_changed_def)
qed

section \<open>The stable build as a whole\<close>

text \<open>\<open>new_with_timing\<close> over the candidates of its attempts and whether each was current after its build.\<close>

function stable_build :: "(nat \<Rightarrow> 'c anyhow) \<Rightarrow> (nat \<Rightarrow> 'c \<Rightarrow> bool) \<Rightarrow> nat \<Rightarrow> 'c anyhow" where
  "stable_build built settled attempt =
     (case build_attempt attempt (built attempt) (settled attempt) of
        BvDone r \<Rightarrow> r
      | BvAgain \<Rightarrow> stable_build built settled (attempt + 1))"
  by pat_completeness auto
termination
proof (relation "measure (\<lambda>(built, settled, attempt). MAX_STABLE_BUILD_ATTEMPTS - attempt)", goal_cases)
  case (2 built settled attempt)
  from build_attempt_again [OF 2] show ?case by simp
qed simp

declare stable_build.simps [simp del]

text \<open>
  The stable build makes at most two attempts: it returns the first candidate that is still
  current after its build, gives up with the error that the inputs changed if both were
  overtaken, and passes any other error on at once.
\<close>

theorem stable_build_result:
  "stable_build built settled 0 =
     (let overtaken = (\<lambda>i. case built i of Inl e \<Rightarrow> e = RESOLVER_INPUTS_CHANGED | Inr c \<Rightarrow> \<not> settled i c);
          result = (\<lambda>i. if overtaken i then Inl RESOLVER_INPUTS_CHANGED else built i)
      in if overtaken 0 then result 1 else result 0)"
  by (simp add: stable_build.simps [of built settled 0] stable_build.simps [of built settled "Suc 0"] Let_def
      build_attempt_def stable_build_decision_def MAX_STABLE_BUILD_ATTEMPTS_def split: sum.split)

section \<open>Saving resolution snapshots\<close>

text \<open>\<open>save_npm_snapshot_cache\<close>: the resolver's snapshot, if it is managed.\<close>

definition save_npm_snapshot_cache ::
  "codecs \<Rightarrow> world \<Rightarrow> manifest \<Rightarrow> 'v option \<Rightarrow> (resolver_input_identity \<times> 'v) list
   \<Rightarrow> (resolver_input_identity \<times> 'v) list" where
  "save_npm_snapshot_cache cd w m managed cache =
     (if \<not> is_current cd w m then cache
      else case managed of
             None \<Rightarrow> cache
           | Some snapshot \<Rightarrow>
               (case managed_snapshot_key m of
                  None \<Rightarrow> cache
                | Some key \<Rightarrow> snapshot_insert key snapshot cache))"

text \<open>What a save stores, if it stores anything.\<close>

definition saved_entry ::
  "codecs \<Rightarrow> world \<times> manifest \<times> 'v option \<Rightarrow> (resolver_input_identity \<times> 'v) option" where
  "saved_entry cd = (\<lambda>(w, m, managed).
     if is_current cd w m
     then Option.bind managed (\<lambda>v. map_option (\<lambda>key. (key, v)) (managed_snapshot_key m))
     else None)"

definition saved_snapshots ::
  "codecs \<Rightarrow> (world \<times> manifest \<times> 'v option) list \<Rightarrow> (resolver_input_identity \<times> 'v) list" where
  "saved_snapshots cd saves = fold (\<lambda>(w, m, managed). save_npm_snapshot_cache cd w m managed) saves []"

lemma saved_snapshots_stored:
  "saved_snapshots cd saves = snapshots.stored (List.map_filter (saved_entry cd) saves) []"
proof (induction saves rule: rev_induct)
  case (snoc p saves)
  obtain w m managed where "p = (w, m, managed)" by (metis surj_pair)
  with snoc show ?case
    by (cases managed; cases "managed_snapshot_key m")
      (simp_all add: saved_snapshots_def save_npm_snapshot_cache_def saved_entry_def map_filter_def
        snapshots.stored_def)
qed (simp add: saved_snapshots_def snapshots.stored_def map_filter_def)

lemma saved_snapshot_origin:
  assumes "snapshot_get (saved_snapshots cd saves) key = Some v"
  shows "map_of (rev (List.map_filter (saved_entry cd) saves)) key = Some v
    \<and> (\<exists>w m. (w, m, Some v) \<in> set saves \<and> is_current cd w m \<and> managed_snapshot_key m = Some key)"
proof -
  have last: "map_of (rev (List.map_filter (saved_entry cd) saves)) key = Some v"
    using assms unfolding saved_snapshots_stored
    by (rule snapshots.never_stale [rotated 2]) (simp_all add: snapshot_ok_def snapshot_get_map_of)
  then have "(key, v) \<in> set (List.map_filter (saved_entry cd) saves)" using map_of_SomeD by fastforce
  then obtain w m managed where "(w, m, managed) \<in> set saves" "saved_entry cd (w, m, managed) = Some (key, v)"
    by (auto simp: map_filter_def)
  then have "(w, m, Some v) \<in> set saves \<and> is_current cd w m \<and> managed_snapshot_key m = Some key"
    by (auto simp: saved_entry_def Option.bind_eq_Some_conv split: if_splits)
  then show ?thesis using last by blast
qed

lemma saved_snapshots_ok: "snapshot_ok (saved_snapshots cd saves)"
  unfolding saved_snapshots_stored by (rule snapshots.stored_ok) (simp add: snapshot_ok_def)

text \<open>
  The cache of resolution snapshots never crosses projects or outlives its inputs: what is
  found under a key was saved by a run whose manifest has exactly that identity, was current
  when it saved and belongs to a managed project without lockfile and credentials.
\<close>

theorem saved_snapshots_sound:
  assumes "snapshot_get (saved_snapshots cd saves) key = Some v"
  shows "(\<exists>w m. (w, m, Some v) \<in> set saves \<and> is_current cd w m \<and> mf_identity m = key
        \<and> \<not> ri_byonm key \<and> \<not> ri_lockfile_present key \<and> \<not> rb_npmrc_has_auth (mf_probe m))
    \<and> map_of (rev (List.map_filter (saved_entry cd) saves)) key = Some v"
  using saved_snapshot_origin [OF assms] by (auto simp: managed_snapshot_key_def split: if_splits)

section \<open>A concrete runtime\<close>

definition example_runtime :: "manifest \<Rightarrow> reuse_sys" where
  "example_runtime m =
     \<lparr>rs_state = runtime_new \<lparr>st_manifest = m, st_born = 0\<rparr>, rs_gate = None, rs_phase = (\<lambda>_. RpIdle),
      rs_since = (\<lambda>_. 0), rs_from = (\<lambda>_. 0), rs_refreshes = 0, rs_worlds = [example_world]\<rparr>"

lemma example_runtime_init: "reuse_init (example_runtime m)"
  by (auto simp: reuse_init_def example_runtime_def intro!: exI [of _ "\<lparr>st_manifest = m, st_born = 0\<rparr>"])

lemma example_runtime_run:
  assumes "reach reuse_init (reuse_step cd) s" and "run_next cd t (Inl []) s = Some s'"
  shows "reach reuse_init (reuse_step cd) s'"
  using reach_step [OF assms(1) reuse_step.run [OF assms(2)]] .

theorem reused_stack_is_fresh_witness:
  "\<exists>s shared. reach reuse_init (reuse_step example_codecs) s \<and> rs_phase s 0 = RpDone (Inr shared)
     \<and> rs_since s 0 \<le> st_born shared"
proof -
  obtain m where m: "is_reusable example_codecs example_world m" using example_reusable by blast
  define s1 where "s1 = the (run_next example_codecs 0 (Inl []) (example_runtime m))"
  define s2 where "s2 = the (run_next example_codecs 0 (Inl []) s1)"
  define s3 where "s3 = the (run_next example_codecs 0 (Inl []) s2)"
  have run: "run_next example_codecs 0 (Inl []) (example_runtime m) = Some s1"
    "run_next example_codecs 0 (Inl []) s1 = Some s2" "run_next example_codecs 0 (Inl []) s2 = Some s3"
    "rs_phase s3 0 = RpDone (Inr \<lparr>st_manifest = m, st_born = 0\<rparr>)" "rs_refreshes s3 = 0"
    using m by (simp_all add: s1_def s2_def s3_def run_next_unfolded example_runtime_def runtime_new_def
        singleflight_build_generation_def needs_rebuild_def probe_changed_def)
  have "reach reuse_init (reuse_step example_codecs) s3"
    using run reach_init [of reuse_init, OF example_runtime_init] by (blast intro: example_runtime_run)
  then show ?thesis using reused_stack_is_fresh [of example_codecs s3 0] run(4,5) by auto
qed

definition example_gated :: "manifest \<Rightarrow> reuse_sys" where
  "example_gated m =
     set_phase 0 RpGated (example_runtime m\<lparr>rs_gate := Some 0, rs_from := (rs_from (example_runtime m))(0 := 0),
       rs_since := (rs_since (example_runtime m))(0 := 1), rs_refreshes := 1,
       rs_state := refresh (rs_state (example_runtime m))\<rparr>)"

lemma example_gated_reached: "reach reuse_init (reuse_step cd) (example_gated m)"
proof -
  define s0 where "s0 = (example_runtime m)\<lparr>rs_state := refresh (rs_state (example_runtime m)),
      rs_refreshes := rs_refreshes (example_runtime m) + 1\<rparr>"
  define s1 where "s1 = the (run_next cd 0 (Inl []) s0)"
  define s2 where "s2 = the (run_next cd 0 (Inl []) s1)"
  define s3 where "s3 = the (run_next cd 0 (Inl []) s2)"
  have "run_next cd 0 (Inl []) s0 = Some s1" "run_next cd 0 (Inl []) s1 = Some s2"
    "run_next cd 0 (Inl []) s2 = Some s3" "run_next cd 0 (Inl []) s3 = Some (example_gated m)"
    by (simp_all add: s0_def s1_def s2_def s3_def run_next_unfolded example_runtime_def example_gated_def
        runtime_new_def refresh_def singleflight_build_generation_def needs_rebuild_def set_phase_def fun_eq_iff)
  moreover have "reach reuse_init (reuse_step cd) s0"
    unfolding s0_def by (rule reach_step, rule reach_init, rule example_runtime_init, rule reuse_step.refresh)
  ultimately show ?thesis by (blast intro: example_runtime_run)
qed

theorem rebuild_is_single_witness:
  "\<exists>s t. reach reuse_init (reuse_step example_codecs) s \<and> holds_gate (rs_phase s t)
     \<and> rt_manifest (rs_state s) = st_manifest (rt_shared (rs_state s))"
proof -
  obtain m where "is_reusable example_codecs example_world m" using example_reusable by blast
  have "holds_gate (rs_phase (example_gated m) 0)" by (simp add: example_gated_def)
  then show ?thesis using rebuild_is_single [OF example_gated_reached] example_gated_reached by blast
qed

theorem reuse_no_call_is_stuck_witness:
  "\<exists>m s'. (reuse_step example_codecs)\<^sup>*\<^sup>* (example_gated m) s' \<and> (\<exists>r. rs_phase s' 7 = RpDone r)"
  using reuse_no_call_is_stuck [OF example_gated_reached] by blast

lemma example_managed:
  "\<exists>m. managed_snapshot_key m = Some (mf_identity m) \<and> is_current example_codecs example_world m"
proof -
  obtain m where m: "manifest_from_workspace example_codecs example_world [RootDir] []
      (example_workspace example_config) (example_npmrc []) example_inputs = Inr m"
    "is_reusable example_codecs example_world m" using example_reusable by blast
  have "managed_snapshot_key m = Some (mf_identity m)"
    using m by (auto simp: managed_snapshot_key_def is_reusable_def example_inputs_def example_workspace_def
        elim!: manifest_from_workspace_probe split: if_splits)
  moreover have "is_current example_codecs example_world m"
    using m(2) by (simp add: is_reusable_def split: if_splits)
  ultimately show ?thesis by blast
qed

lemma example_saved:
  "managed_snapshot_key m = Some key \<Longrightarrow> is_current example_codecs example_world m \<Longrightarrow>
   snapshot_get (saved_snapshots example_codecs [(example_world, m, Some v)]) key = Some v"
  by (simp add: saved_snapshots_def save_npm_snapshot_cache_def snapshot_get_def snapshot_insert_def MAX_ENTRIES_def)

theorem saved_snapshots_sound_witness:
  "\<exists>w m. snapshot_get (saved_snapshots example_codecs [(w, m, Some (7 :: nat))]) (mf_identity m) = Some 7
     \<and> is_current example_codecs w m \<and> \<not> ri_lockfile_present (mf_identity m)"
proof -
  obtain m where m: "managed_snapshot_key m = Some (mf_identity m)" "is_current example_codecs example_world m"
    using example_managed by blast
  note found = example_saved [OF m, of "7 :: nat"]
  from saved_snapshots_sound [OF found] found m(2) show ?thesis by blast
qed

end
