(* ===== verification/Ld_Redirect.thy ===== *)
theory Ld_Redirect
  imports Ld_Capture
begin

text \<open>
  The redirection of the process's own stdout and stderr for a captured run
  (\<open>OutputCapture\<close>, \<open>StreamCapture\<close>, \<open>SavedFd\<close> and \<open>restore_target\<close> of src/src/output.rs, on
  Unix): the descriptor table of the process with the calls the code makes on it, the setup with
  every failure path, the restoration, and the theorems that no path leaves the process's stdio
  redirected or a descriptor open.
\<close>

section \<open>Descriptors and the calls on them\<close>

text \<open>
  What a descriptor refers to: a file the host opened, or an end of a pipe. An entry of the table
  is a file with the flag \<open>FD_CLOEXEC\<close>. A call first takes the next element of \<open>os_faults\<close>, an
  error that the operating system injects into it, whatever the state; without one it behaves as
  documented: the lowest free descriptor is allocated, \<open>dup2\<close> clears the flag of its target.
  \<open>os_threads\<close> holds the reader threads, each by the descriptor it reads with its stop flag.
\<close>

datatype open_file = HostFile nat | PipeRead nat | PipeWrite nat

type_synonym fd_entry = "open_file \<times> bool"

record os =
  os_fds :: "nat \<Rightarrow> fd_entry option"
  os_limit :: nat
  os_pipes :: nat
  os_faults :: "io_error option list"
  os_readers :: nat
  os_threads :: "(nat \<times> bool) list"

text \<open>A step of the code: a value, an error, or the abort of the process.\<close>

datatype 'a answer = Ok 'a | Fail io_error | Aborted

type_synonym 'a act = "os \<Rightarrow> 'a answer \<times> os"

definition return_act :: "'a \<Rightarrow> 'a act" where
  "return_act x s = (Ok x, s)"

definition bind_act :: "'a act \<Rightarrow> ('a \<Rightarrow> 'b act) \<Rightarrow> 'b act" where
  "bind_act m k s =
     (case m s of
        (Ok x, t) \<Rightarrow> k x t
      | (Fail e, t) \<Rightarrow> (Fail e, t)
      | (Aborted, t) \<Rightarrow> (Aborted, t))"

text \<open>The cleanup that an error path runs before it returns the error.\<close>

definition on_fail :: "'a act \<Rightarrow> unit act \<Rightarrow> 'a act" where
  "on_fail m cleanup s =
     (case m s of
        (Fail e, t) \<Rightarrow> (case cleanup t of (Aborted, u) \<Rightarrow> (Aborted, u) | (_, u) \<Rightarrow> (Fail e, u))
      | r \<Rightarrow> r)"

definition syscall :: "'a act \<Rightarrow> 'a act" where
  "syscall m s =
     (case os_faults s of
        [] \<Rightarrow> m s
      | None # rest \<Rightarrow> m (s\<lparr>os_faults := rest\<rparr>)
      | Some e # rest \<Rightarrow> (Fail e, s\<lparr>os_faults := rest\<rparr>))"

definition EBADF :: io_error where
  "EBADF = IoError (EkOs 9) ''Bad file descriptor''"

definition EMFILE :: io_error where
  "EMFILE = IoError (EkOs 24) ''Too many open files''"

definition lowest_free :: "nat \<Rightarrow> os \<Rightarrow> nat option" where
  "lowest_free from s = List.find (\<lambda>n. os_fds s n = None) [from..<os_limit s]"

definition set_fd :: "nat \<Rightarrow> fd_entry option \<Rightarrow> os \<Rightarrow> os" where
  "set_fd fd entry s = s\<lparr>os_fds := (os_fds s)(fd := entry)\<rparr>"

definition fcntl_dupfd_cloexec :: "nat \<Rightarrow> nat \<Rightarrow> nat act" where
  "fcntl_dupfd_cloexec fd from =
     syscall (\<lambda>s. case os_fds s fd of
         None \<Rightarrow> (Fail EBADF, s)
       | Some (file, _) \<Rightarrow>
           (case lowest_free from s of
              None \<Rightarrow> (Fail EMFILE, s)
            | Some n \<Rightarrow> (Ok n, set_fd n (Some (file, True)) s)))"

definition fcntl_getfd :: "nat \<Rightarrow> bool act" where
  "fcntl_getfd fd =
     syscall (\<lambda>s. case os_fds s fd of None \<Rightarrow> (Fail EBADF, s) | Some (_, flags) \<Rightarrow> (Ok flags, s))"

definition fcntl_setfd :: "nat \<Rightarrow> bool \<Rightarrow> unit act" where
  "fcntl_setfd fd flags =
     syscall (\<lambda>s. case os_fds s fd of
         None \<Rightarrow> (Fail EBADF, s)
       | Some (file, _) \<Rightarrow> (Ok (), set_fd fd (Some (file, flags)) s))"

definition sys_dup2 :: "nat \<Rightarrow> nat \<Rightarrow> unit act" where
  "sys_dup2 src target =
     syscall (\<lambda>s. case os_fds s src of
         None \<Rightarrow> (Fail EBADF, s)
       | Some (file, _) \<Rightarrow>
           (Ok (), if src = target then s else set_fd target (Some (file, False)) s))"

definition sys_pipe :: "(nat \<times> nat) act" where
  "sys_pipe =
     syscall (\<lambda>s. case lowest_free 0 s of
         None \<Rightarrow> (Fail EMFILE, s)
       | Some r \<Rightarrow>
           (case lowest_free 0 (set_fd r (Some (PipeRead (os_pipes s), False)) s) of
              None \<Rightarrow> (Fail EMFILE, s)
            | Some w \<Rightarrow>
                (Ok (r, w),
                 (set_fd w (Some (PipeWrite (os_pipes s), False))
                    (set_fd r (Some (PipeRead (os_pipes s), False)) s))\<lparr>os_pipes := os_pipes s + 1\<rparr>)))"

text \<open>The code ignores what \<open>close\<close> returns; the descriptor is released in any case.\<close>

definition sys_close :: "nat \<Rightarrow> unit act" where
  "sys_close fd s = (Ok (), set_fd fd None s)"

definition close_all :: "nat list \<Rightarrow> unit act" where
  "close_all fds s = (Ok (), fold (\<lambda>fd. set_fd fd None) fds s)"

text \<open>Flushing a standard stream is a write that can fail; it changes no descriptor.\<close>

definition flush_stdio :: "nat \<Rightarrow> unit act" where
  "flush_stdio fd = syscall (\<lambda>s. (Ok (), s))"

section \<open>Reader threads and their budget\<close>

definition MAX_ACTIVE_CAPTURE_READERS :: nat where
  "MAX_ACTIVE_CAPTURE_READERS = 64"

definition reserve_capture_reader :: "unit act" where
  "reserve_capture_reader s =
     (if MAX_ACTIVE_CAPTURE_READERS \<le> os_readers s
      then (Fail (IoError EkWouldBlock (''output capture reader/pipe resource budget exhausted: ''
              @ show_nat (os_readers s) @ '' active, maximum ''
              @ show_nat MAX_ACTIVE_CAPTURE_READERS)), s)
      else (Ok (), s\<lparr>os_readers := os_readers s + 1\<rparr>))"

definition release_reader_budget :: "unit act" where
  "release_reader_budget s = (Ok (), s\<lparr>os_readers := os_readers s - 1\<rparr>)"

text \<open>Starting the thread can fail; then its closure is dropped without having run.\<close>

definition spawn_reader :: "nat \<Rightarrow> unit act" where
  "spawn_reader read_fd =
     syscall (\<lambda>s. (Ok (), s\<lparr>os_threads := os_threads s @ [(read_fd, False)]\<rparr>))"

text \<open>The end of the thread: it closes its pipe end, then drops its reservation.\<close>

definition reader_exit :: "nat \<Rightarrow> os \<Rightarrow> os" where
  "reader_exit read_fd s =
     (set_fd read_fd None s)\<lparr>os_readers := os_readers s - 1,
        os_threads := filter (\<lambda>t. fst t \<noteq> read_fd) (os_threads s)\<rparr>"

definition set_stop :: "nat \<Rightarrow> os \<Rightarrow> os" where
  "set_stop read_fd s =
     s\<lparr>os_threads := map (\<lambda>(r, stop). (r, stop \<or> r = read_fd)) (os_threads s)\<rparr>"

section \<open>Restoration\<close>

text \<open>The two loops of \<open>restore_target\<close>: an interrupted call is repeated, any other error returned.\<close>

definition interrupted :: "'a answer \<Rightarrow> bool" where
  "interrupted a = (case a of Fail e \<Rightarrow> io_kind e = EkInterrupted | _ \<Rightarrow> False)"

lemma syscall_interrupted:
  "interrupted (fst (syscall m s)) \<Longrightarrow> (\<And>t. \<not> interrupted (fst (m t))) \<Longrightarrow>
   length (os_faults (snd (syscall m s))) < length (os_faults s)"
  by (cases "os_faults s") (auto simp: syscall_def split: option.splits)

lemma dup2_shrinks:
  "interrupted (fst (sys_dup2 a b s)) \<Longrightarrow>
   length (os_faults (snd (sys_dup2 a b s))) < length (os_faults s)"
  unfolding sys_dup2_def
  by (rule syscall_interrupted) (auto simp: interrupted_def EBADF_def split: option.splits)

lemma setfd_shrinks:
  "interrupted (fst (fcntl_setfd a b s)) \<Longrightarrow>
   length (os_faults (snd (fcntl_setfd a b s))) < length (os_faults s)"
  unfolding fcntl_setfd_def
  by (rule syscall_interrupted) (auto simp: interrupted_def EBADF_def split: option.splits)

function dup2_retry :: "nat \<Rightarrow> nat \<Rightarrow> unit act" where
  "dup2_retry saved target s =
     (if interrupted (fst (sys_dup2 saved target s))
      then dup2_retry saved target (snd (sys_dup2 saved target s))
      else sys_dup2 saved target s)"
  by pat_completeness auto
termination
  by (relation "measure (\<lambda>(_, _, s). length (os_faults s))") (simp_all add: dup2_shrinks)

function setfd_retry :: "nat \<Rightarrow> bool \<Rightarrow> unit act" where
  "setfd_retry target flags s =
     (if interrupted (fst (fcntl_setfd target flags s))
      then setfd_retry target flags (snd (fcntl_setfd target flags s))
      else fcntl_setfd target flags s)"
  by pat_completeness auto
termination
  by (relation "measure (\<lambda>(_, _, s). length (os_faults s))") (simp_all add: setfd_shrinks)

declare dup2_retry.simps [simp del] setfd_retry.simps [simp del]

definition restore_target :: "nat \<Rightarrow> nat \<Rightarrow> bool \<Rightarrow> unit act" where
  "restore_target target saved flags =
     bind_act (dup2_retry saved target) (\<lambda>_. setfd_retry target flags)"

definition abort_restore :: "'a act" where
  "abort_restore s = (Aborted, s)"

definition restore_or_abort :: "nat \<Rightarrow> nat \<Rightarrow> bool \<Rightarrow> unit act" where
  "restore_or_abort target saved flags = on_fail (restore_target target saved flags) abort_restore"

section \<open>One captured stream\<close>

text \<open>\<open>st_reader\<close> is the descriptor its reader thread reads: it stands for the channel and the stop flag.\<close>

record stream_capture =
  st_target :: nat
  st_saved :: "nat option"
  st_target_flags :: bool
  st_reader :: nat
  st_flush_error :: "io_error option"

text \<open>One turn of the relocation loop, for the end \<open>fd\<close> of the pipe: it is moved to 3 or above.\<close>

definition relocate_slot :: "nat \<Rightarrow> nat list \<Rightarrow> nat act" where
  "relocate_slot fd open_fds =
     (if fd < 3
      then on_fail
             (bind_act (fcntl_dupfd_cloexec fd 3) (\<lambda>relocated.
              bind_act (sys_close fd) (\<lambda>_. return_act relocated)))
             (close_all open_fds)
      else return_act fd)"

definition open_capture_pipe :: "nat \<Rightarrow> (nat \<times> nat) act" where
  "open_capture_pipe dup_fd =
     bind_act (on_fail sys_pipe (sys_close dup_fd)) (\<lambda>(r, w).
     bind_act (relocate_slot r [r, w, dup_fd]) (\<lambda>read_fd.
     bind_act (relocate_slot w [read_fd, w, dup_fd]) (\<lambda>write_fd.
     return_act (read_fd, write_fd))))"

definition set_cloexec :: "nat \<Rightarrow> unit act" where
  "set_cloexec fd = bind_act (fcntl_getfd fd) (\<lambda>_. fcntl_setfd fd True)"

definition redirect_target :: "nat \<Rightarrow> nat \<Rightarrow> bool \<Rightarrow> nat \<Rightarrow> nat \<Rightarrow> unit act" where
  "redirect_target fd dup_fd flags read_fd write_fd =
     bind_act (on_fail (sys_dup2 write_fd fd) (close_all [dup_fd, read_fd, write_fd])) (\<lambda>_.
     on_fail (set_cloexec fd)
       (bind_act (restore_or_abort fd dup_fd flags) (\<lambda>_. close_all [dup_fd, read_fd, write_fd])))"

text \<open>
  \<open>StreamCapture::new\<close>: \<open>stream_setup\<close> is what it does from the creation of the pipe on,
  \<open>start_reader\<close> its last part. The
  caller's duplicate \<open>dup_fd\<close> is a \<open>SavedFd\<close> until the budget is reserved, so the first two errors
  drop it; the reservation is released by every later error.
\<close>

definition start_reader :: "nat \<Rightarrow> nat \<Rightarrow> bool \<Rightarrow> nat \<Rightarrow> stream_capture act" where
  "start_reader fd dup_fd flags read_fd =
     bind_act
       (on_fail (spawn_reader read_fd)
          (bind_act (restore_or_abort fd dup_fd flags) (\<lambda>_. close_all [dup_fd, read_fd]))) (\<lambda>_.
     return_act \<lparr>st_target = fd, st_saved = Some dup_fd, st_target_flags = flags,
                 st_reader = read_fd, st_flush_error = None\<rparr>)"

definition stream_setup :: "nat \<Rightarrow> nat \<Rightarrow> bool \<Rightarrow> stream_capture act" where
  "stream_setup fd dup_fd flags =
     bind_act (open_capture_pipe dup_fd) (\<lambda>(read_fd, write_fd).
     bind_act
       (on_fail (bind_act (set_cloexec read_fd) (\<lambda>_. set_cloexec write_fd))
          (close_all [read_fd, write_fd, dup_fd])) (\<lambda>_.
     bind_act (redirect_target fd dup_fd flags read_fd write_fd) (\<lambda>_.
     bind_act (sys_close write_fd) (\<lambda>_.
     start_reader fd dup_fd flags read_fd))))"

definition stream_capture_new :: "nat \<Rightarrow> nat \<Rightarrow> stream_capture act" where
  "stream_capture_new fd dup_fd =
     bind_act (on_fail (fcntl_getfd fd) (sys_close dup_fd)) (\<lambda>flags.
     bind_act (on_fail reserve_capture_reader (sys_close dup_fd)) (\<lambda>_.
     on_fail (stream_setup fd dup_fd flags) release_reader_budget))"

text \<open>
  \<open>StreamCapture::restore\<close>: once, and whatever the flush before it returned. \<open>Drop\<close> restores
  if that has not been done, and stops the reader.
\<close>

definition flush_result :: "nat \<Rightarrow> io_error option act" where
  "flush_result target s =
     (case flush_stdio target s of
        (Ok _, t) \<Rightarrow> (Ok None, t) | (Fail e, t) \<Rightarrow> (Ok (Some e), t) | (Aborted, t) \<Rightarrow> (Aborted, t))"

definition stream_restore :: "stream_capture \<Rightarrow> stream_capture act" where
  "stream_restore stream =
     (case st_saved stream of
        None \<Rightarrow> return_act stream
      | Some saved \<Rightarrow>
          bind_act (flush_result (st_target stream)) (\<lambda>flush_error.
          bind_act (restore_or_abort (st_target stream) saved (st_target_flags stream)) (\<lambda>_.
          bind_act (sys_close saved) (\<lambda>_.
          return_act (stream\<lparr>st_saved := None, st_flush_error := flush_error\<rparr>)))))"

definition stream_drop :: "stream_capture \<Rightarrow> unit act" where
  "stream_drop stream =
     bind_act (stream_restore stream) (\<lambda>stream. (\<lambda>s. (Ok (), set_stop (st_reader stream) s)))"

section \<open>A capture of one or both streams\<close>

type_synonym capture_pair = "stream_capture option \<times> stream_capture option"

definition when_act :: "bool \<Rightarrow> 'a act \<Rightarrow> 'a option act" where
  "when_act c m = (if c then bind_act m (\<lambda>x. return_act (Some x)) else return_act None)"

definition drop_saved :: "nat option \<Rightarrow> unit act" where
  "drop_saved saved = (case saved of None \<Rightarrow> return_act () | Some fd \<Rightarrow> sys_close fd)"

definition drop_stream :: "stream_capture option \<Rightarrow> unit act" where
  "drop_stream stream = (case stream of None \<Rightarrow> return_act () | Some c \<Rightarrow> stream_drop c)"

text \<open>The stream over the duplicate of its target; there is one exactly when the stream is captured.\<close>

definition new_stream :: "nat \<Rightarrow> nat option \<Rightarrow> stream_capture option act" where
  "new_stream fd saved =
     (case saved of
        None \<Rightarrow> return_act None
      | Some dup_fd \<Rightarrow> bind_act (stream_capture_new fd dup_fd) (\<lambda>c. return_act (Some c)))"

text \<open>
  \<open>OutputCapture::new\<close>: every value that is alive where an error returns is dropped.
\<close>

definition output_capture_new :: "bool \<Rightarrow> bool \<Rightarrow> capture_pair act" where
  "output_capture_new capture_stdout capture_stderr =
     bind_act (when_act capture_stdout (flush_stdio 1)) (\<lambda>_.
     bind_act (when_act capture_stderr (flush_stdio 2)) (\<lambda>_.
     bind_act (when_act capture_stdout (fcntl_dupfd_cloexec 1 3)) (\<lambda>saved_stdout.
     bind_act (on_fail (when_act capture_stderr (fcntl_dupfd_cloexec 2 3))
                 (drop_saved saved_stdout)) (\<lambda>saved_stderr.
     bind_act (on_fail (new_stream 1 saved_stdout) (drop_saved saved_stderr)) (\<lambda>out.
     bind_act (on_fail (new_stream 2 saved_stderr) (drop_stream out)) (\<lambda>err.
     return_act (out, err)))))))"

definition restore_stream :: "stream_capture option \<Rightarrow> stream_capture option act" where
  "restore_stream stream =
     (case stream of
        None \<Rightarrow> return_act None
      | Some c \<Rightarrow> bind_act (stream_restore c) (\<lambda>c. return_act (Some c)))"

text \<open>\<open>OutputCapture::restore\<close> gives the \<open>PendingCapture\<close>, which the collection consumes and drops.\<close>

definition output_capture_restore :: "capture_pair \<Rightarrow> capture_pair act" where
  "output_capture_restore pair =
     bind_act (restore_stream (fst pair)) (\<lambda>out.
     bind_act (restore_stream (snd pair)) (\<lambda>err.
     return_act (out, err)))"

definition drop_pending :: "capture_pair \<Rightarrow> unit act" where
  "drop_pending pair =
     bind_act (drop_stream (fst pair)) (\<lambda>_. drop_stream (snd pair))"

text \<open>
  \<open>PendingCapture::collect\<close>: what each reader delivered (\<open>collect_blocks\<close>) with the flush error
  that the restoration recorded.
\<close>

definition collected_stream ::
  "stream_capture option \<Rightarrow> (bytes \<times> bool) io_result \<Rightarrow> (bytes \<times> bool) io_result option" where
  "collected_stream stream blocks =
     map_option (\<lambda>c. stream_collect (st_flush_error c) blocks) stream"

definition capture_collect ::
  "capture_pair \<Rightarrow> (bytes \<times> bool) io_result \<Rightarrow> (bytes \<times> bool) io_result
   \<Rightarrow> (bytes \<times> bytes \<times> bool) io_result act" where
  "capture_collect pair out err =
     bind_act (drop_pending pair) (\<lambda>_.
     return_act (pending_collect (collected_stream (fst pair) out) (collected_stream (snd pair) err)))"

definition output_capture_finish ::
  "capture_pair \<Rightarrow> (bytes \<times> bool) io_result \<Rightarrow> (bytes \<times> bool) io_result
   \<Rightarrow> (bytes \<times> bytes \<times> bool) io_result act" where
  "output_capture_finish pair out err =
     bind_act (output_capture_restore pair) (\<lambda>pending. capture_collect pending out err)"

section \<open>Reasoning about the steps\<close>

text \<open>
  \<open>outcome m Q E s\<close>: from \<open>s\<close> the step \<open>m\<close> returns a value and a state in \<open>Q\<close>, or an error and a
  state in \<open>E\<close>, or aborts.
\<close>

definition outcome :: "'a act \<Rightarrow> ('a \<Rightarrow> os \<Rightarrow> bool) \<Rightarrow> (os \<Rightarrow> bool) \<Rightarrow> os \<Rightarrow> bool" where
  "outcome m Q E s =
     (case m s of (Ok x, t) \<Rightarrow> Q x t | (Fail e, t) \<Rightarrow> E t | (Aborted, t) \<Rightarrow> True)"

lemma outcome_return [simp]: "outcome (return_act x) Q E = Q x"
  by (rule ext) (simp add: outcome_def return_act_def)

lemma outcome_bind [simp]: "outcome (bind_act m k) Q E = outcome m (\<lambda>x. outcome (k x) Q E) E"
proof
  fix s show "outcome (bind_act m k) Q E s = outcome m (\<lambda>x. outcome (k x) Q E) E s"
    by (cases "m s"; cases "fst (m s)") (auto simp: outcome_def bind_act_def)
qed

lemma outcome_on_fail [simp]:
  "outcome (on_fail m c) Q E = outcome m Q (outcome c (\<lambda>_. E) E)"
proof
  fix s show "outcome (on_fail m c) Q E s = outcome m Q (outcome c (\<lambda>_. E) E) s"
  proof (cases "m s")
    case (Pair r t)
    then show ?thesis
      by (cases r; cases "c t"; cases "fst (c t)") (auto simp: outcome_def on_fail_def)
  qed
qed

lemma outcome_case_prod [simp]:
  "outcome (case p of (a, b) \<Rightarrow> k a b) Q E = (case p of (a, b) \<Rightarrow> outcome (k a b) Q E)"
  by (cases p) simp

lemma outcome_mono:
  "outcome m Q E s \<Longrightarrow> (\<And>x t. Q x t \<Longrightarrow> Q' x t) \<Longrightarrow> (\<And>t. E t \<Longrightarrow> E' t) \<Longrightarrow> outcome m Q' E' s"
  by (auto simp: outcome_def split: prod.splits answer.splits)

text \<open>The part of the state the theorems speak of: descriptors, reservations and reader threads.\<close>

definition same_core :: "os \<Rightarrow> os \<Rightarrow> bool" where
  "same_core s t \<longleftrightarrow> os_fds t = os_fds s \<and> os_readers t = os_readers s \<and> os_threads t = os_threads s"

definition core_fds :: "(nat \<Rightarrow> fd_entry option) \<Rightarrow> os \<Rightarrow> os \<Rightarrow> bool" where
  "core_fds fds s t \<longleftrightarrow> os_fds t = fds \<and> os_readers t = os_readers s \<and> os_threads t = os_threads s"

lemmas core_defs = same_core_def core_fds_def

lemma core_trans:
  "same_core s t \<Longrightarrow> same_core t u \<Longrightarrow> same_core s u"
  "same_core s t \<Longrightarrow> core_fds fds t u \<Longrightarrow> core_fds fds s u"
  "core_fds fds s t \<Longrightarrow> same_core t u \<Longrightarrow> core_fds fds s u"
  "core_fds fds s t \<Longrightarrow> core_fds fds' t u \<Longrightarrow> core_fds fds' s u"
  by (simp_all add: core_defs)

lemma same_core_refl [simp]: "same_core s s"
  by (simp add: core_defs)

lemma outcome_syscall:
  assumes "\<And>t. same_core s t \<Longrightarrow> os_limit t = os_limit s \<Longrightarrow> outcome m Q E t"
    and "\<And>t. same_core s t \<Longrightarrow> E t"
  shows "outcome (syscall m) Q E s"
proof (cases "os_faults s")
  case Nil
  with assms(1) [of s] show ?thesis by (simp add: outcome_def syscall_def)
next
  case (Cons f rest)
  let ?t = "s\<lparr>os_faults := rest\<rparr>"
  have "same_core s ?t" "os_limit ?t = os_limit s" by (simp_all add: core_defs)
  with assms [of ?t] Cons show ?thesis
    by (cases f) (simp_all add: outcome_def syscall_def)
qed

lemma lowest_free_Some: "lowest_free from s = Some n \<Longrightarrow> from \<le> n \<and> os_fds s n = None"
  by (auto simp: lowest_free_def find_Some_iff)

lemma outcome_dupfd:
  assumes "\<And>n t file fl. os_fds s fd = Some (file, fl) \<Longrightarrow> from \<le> n \<Longrightarrow> os_fds s n = None \<Longrightarrow>
      core_fds ((os_fds s)(n \<mapsto> (file, True))) s t \<Longrightarrow> Q n t"
    and "\<And>t. same_core s t \<Longrightarrow> E t"
  shows "outcome (fcntl_dupfd_cloexec fd from) Q E s"
  unfolding fcntl_dupfd_cloexec_def
proof (rule outcome_syscall)
  fix t assume t: "same_core s t"
  show "outcome (\<lambda>s. case os_fds s fd of None \<Rightarrow> (Fail EBADF, s)
       | Some (file, _) \<Rightarrow> (case lowest_free from s of None \<Rightarrow> (Fail EMFILE, s)
            | Some n \<Rightarrow> (Ok n, set_fd n (Some (file, True)) s))) Q E t"
    using t assms lowest_free_Some [of "from" t]
    by (auto simp: outcome_def core_defs set_fd_def split: option.splits)
qed (rule assms(2))

lemma outcome_getfd:
  assumes "\<And>t file flags. os_fds s fd = Some (file, flags) \<Longrightarrow> same_core s t \<Longrightarrow> Q flags t"
    and "\<And>t. same_core s t \<Longrightarrow> E t"
  shows "outcome (fcntl_getfd fd) Q E s"
  unfolding fcntl_getfd_def
  by (rule outcome_syscall) (use assms in \<open>auto simp: outcome_def core_defs split: option.splits\<close>)

lemma outcome_setfd:
  assumes "\<And>t file fl. os_fds s fd = Some (file, fl) \<Longrightarrow>
      core_fds ((os_fds s)(fd \<mapsto> (file, flags))) s t \<Longrightarrow> Q () t"
    and "\<And>t. same_core s t \<Longrightarrow> E t"
  shows "outcome (fcntl_setfd fd flags) Q E s"
  unfolding fcntl_setfd_def
  by (rule outcome_syscall)
    (use assms in \<open>auto simp: outcome_def core_defs set_fd_def split: option.splits\<close>)

lemma outcome_dup2:
  assumes "src \<noteq> target"
    and "\<And>t file fl. os_fds s src = Some (file, fl) \<Longrightarrow>
      core_fds ((os_fds s)(target \<mapsto> (file, False))) s t \<Longrightarrow> Q () t"
    and "\<And>t. same_core s t \<Longrightarrow> E t"
  shows "outcome (sys_dup2 src target) Q E s"
  unfolding sys_dup2_def
  by (rule outcome_syscall)
    (use assms in \<open>auto simp: outcome_def core_defs set_fd_def split: option.splits\<close>)

lemma outcome_pipe:
  assumes "\<And>r w p t. os_fds s r = None \<Longrightarrow> os_fds s w = None \<Longrightarrow> r \<noteq> w \<Longrightarrow>
      core_fds ((os_fds s)(r \<mapsto> (PipeRead p, False), w \<mapsto> (PipeWrite p, False))) s t \<Longrightarrow> Q (r, w) t"
    and "\<And>t. same_core s t \<Longrightarrow> E t"
  shows "outcome sys_pipe Q E s"
  unfolding sys_pipe_def
proof (rule outcome_syscall)
  fix t assume t: "same_core s t"
  show "outcome (\<lambda>s. case lowest_free 0 s of None \<Rightarrow> (Fail EMFILE, s)
       | Some r \<Rightarrow> (case lowest_free 0 (set_fd r (Some (PipeRead (os_pipes s), False)) s) of
              None \<Rightarrow> (Fail EMFILE, s)
            | Some w \<Rightarrow> (Ok (r, w), (set_fd w (Some (PipeWrite (os_pipes s), False))
                 (set_fd r (Some (PipeRead (os_pipes s), False)) s))\<lparr>os_pipes := os_pipes s + 1\<rparr>))) Q E t"
    using t assms
    by (auto simp: outcome_def core_defs set_fd_def split: option.splits if_splits
        dest!: lowest_free_Some)
qed (rule assms(2))

lemma outcome_close:
  assumes "\<And>t. core_fds ((os_fds s)(fd := None)) s t \<Longrightarrow> Q () t"
  shows "outcome (sys_close fd) Q E s"
  using assms by (simp add: outcome_def sys_close_def set_fd_def core_defs)

lemma fold_set_fd:
  "os_fds (fold (\<lambda>fd. set_fd fd None) fds s) = (\<lambda>n. if n \<in> set fds then None else os_fds s n)"
  "os_readers (fold (\<lambda>fd. set_fd fd None) fds s) = os_readers s"
  "os_threads (fold (\<lambda>fd. set_fd fd None) fds s) = os_threads s"
  by (induction fds arbitrary: s) (auto simp: set_fd_def)

lemma outcome_close_all:
  assumes "\<And>t. core_fds (\<lambda>n. if n \<in> set fds then None else os_fds s n) s t \<Longrightarrow> Q () t"
  shows "outcome (close_all fds) Q E s"
  using assms by (simp add: outcome_def close_all_def core_defs fold_set_fd)

lemma outcome_flush:
  assumes "\<And>t. same_core s t \<Longrightarrow> Q () t" and "\<And>t. same_core s t \<Longrightarrow> E t"
  shows "outcome (flush_stdio fd) Q E s"
  unfolding flush_stdio_def
  by (rule outcome_syscall) (use assms in \<open>auto simp: outcome_def\<close>)

lemma outcome_flush_result:
  assumes "\<And>r t. same_core s t \<Longrightarrow> Q r t"
  shows "outcome (flush_result fd) Q E s"
  using assms outcome_flush [of s "\<lambda>_. same_core s" "same_core s" fd]
  by (auto simp: outcome_def flush_result_def split: prod.splits answer.splits)

lemma outcome_reserve:
  assumes "\<And>t. os_fds t = os_fds s \<Longrightarrow> os_readers t = os_readers s + 1 \<Longrightarrow>
      os_threads t = os_threads s \<Longrightarrow> Q () t" and "E s"
  shows "outcome reserve_capture_reader Q E s"
  using assms by (auto simp: outcome_def reserve_capture_reader_def)

lemma outcome_release:
  assumes "\<And>t. os_fds t = os_fds s \<Longrightarrow> os_readers t = os_readers s - 1 \<Longrightarrow>
      os_threads t = os_threads s \<Longrightarrow> Q () t"
  shows "outcome release_reader_budget Q E s"
  using assms by (auto simp: outcome_def release_reader_budget_def)

lemma outcome_spawn:
  assumes "\<And>t. os_fds t = os_fds s \<Longrightarrow> os_readers t = os_readers s \<Longrightarrow>
      os_threads t = os_threads s @ [(fd, False)] \<Longrightarrow> Q () t"
    and "\<And>t. same_core s t \<Longrightarrow> E t"
  shows "outcome (spawn_reader fd) Q E s"
  unfolding spawn_reader_def
  by (rule outcome_syscall) (use assms in \<open>auto simp: outcome_def core_defs\<close>)

lemma outcome_abort [simp]: "outcome abort_restore Q E s"
  by (simp add: outcome_def abort_restore_def)

lemma sys_dup2_core:
  "interrupted (fst (sys_dup2 a b s)) \<Longrightarrow> same_core s (snd (sys_dup2 a b s))"
  unfolding sys_dup2_def
  by (cases "os_faults s")
    (auto simp: syscall_def interrupted_def EBADF_def core_defs split: option.splits if_splits)

lemma fcntl_setfd_core:
  "interrupted (fst (fcntl_setfd a b s)) \<Longrightarrow> same_core s (snd (fcntl_setfd a b s))"
  unfolding fcntl_setfd_def
  by (cases "os_faults s")
    (auto simp: syscall_def interrupted_def EBADF_def core_defs split: option.splits if_splits)

lemma outcome_step: "m s = m' t \<Longrightarrow> outcome m' Q E t \<Longrightarrow> outcome m Q E s"
  by (simp add: outcome_def)

lemma same_coreD:
  assumes "same_core s0 s"
  shows "os_fds s = os_fds s0" "core_fds f s t \<longleftrightarrow> core_fds f s0 t" "same_core s t \<longleftrightarrow> same_core s0 t"
  using assms by (simp_all add: core_defs)

lemma outcome_dup2_retry_from:
  assumes "src \<noteq> target" and "same_core s0 s"
    and "\<And>t file fl. os_fds s0 src = Some (file, fl) \<Longrightarrow>
      core_fds ((os_fds s0)(target \<mapsto> (file, False))) s0 t \<Longrightarrow> Q () t"
    and "\<And>t. same_core s0 t \<Longrightarrow> E t"
  shows "outcome (dup2_retry src target) Q E s"
  using assms
proof (induction src target s rule: dup2_retry.induct)
  case (1 src target s)
  show ?case
  proof (cases "interrupted (fst (sys_dup2 src target s))")
    case True
    have "outcome (dup2_retry src target) Q E (snd (sys_dup2 src target s))"
      by (rule "1.IH" [OF True "1.prems"(1)])
        (use "1.prems" core_trans(1) [OF _ sys_dup2_core [OF True]] in auto)
    then show ?thesis using True by (simp add: outcome_def dup2_retry.simps [of src target s])
  next
    case False
    have "outcome (sys_dup2 src target) Q E s"
      by (rule outcome_dup2) (use "1.prems" in \<open>auto simp: same_coreD [OF "1.prems"(2)] simp del: fun_upd_apply\<close>)
    then show ?thesis using False by (simp add: outcome_def dup2_retry.simps [of src target s])
  qed
qed

lemma outcome_setfd_retry_from:
  assumes "same_core s0 s"
    and "\<And>t file fl. os_fds s0 fd = Some (file, fl) \<Longrightarrow>
      core_fds ((os_fds s0)(fd \<mapsto> (file, flags))) s0 t \<Longrightarrow> Q () t"
    and "\<And>t. same_core s0 t \<Longrightarrow> E t"
  shows "outcome (setfd_retry fd flags) Q E s"
  using assms
proof (induction fd flags s rule: setfd_retry.induct)
  case (1 fd flags s)
  show ?case
  proof (cases "interrupted (fst (fcntl_setfd fd flags s))")
    case True
    have "outcome (setfd_retry fd flags) Q E (snd (fcntl_setfd fd flags s))"
      by (rule "1.IH" [OF True])
        (use "1.prems" core_trans(1) [OF _ fcntl_setfd_core [OF True]] in auto)
    then show ?thesis using True by (simp add: outcome_def setfd_retry.simps [of fd flags s])
  next
    case False
    have "outcome (fcntl_setfd fd flags) Q E s"
      by (rule outcome_setfd) (use "1.prems" in \<open>auto simp: same_coreD [OF "1.prems"(1)] simp del: fun_upd_apply\<close>)
    then show ?thesis using False by (simp add: outcome_def setfd_retry.simps [of fd flags s])
  qed
qed

lemmas outcome_dup2_retry = outcome_dup2_retry_from [OF _ same_core_refl]
  and outcome_setfd_retry = outcome_setfd_retry_from [OF same_core_refl]

text \<open>When it returns, \<open>restore_or_abort\<close> has put the saved file and the flags back.\<close>

lemma outcome_restore_or_abort:
  assumes "saved \<noteq> target"
    and "\<And>t file fl. os_fds s saved = Some (file, fl) \<Longrightarrow>
      core_fds ((os_fds s)(target \<mapsto> (file, flags))) s t \<Longrightarrow> Q () t"
  shows "outcome (restore_or_abort target saved flags) Q E s"
  unfolding restore_or_abort_def restore_target_def outcome_on_fail outcome_bind
proof (rule outcome_dup2_retry)
  fix t f fl
  assume a: "os_fds s saved = Some (f, fl)" "core_fds ((os_fds s)(target \<mapsto> (f, False))) s t"
  show "outcome (setfd_retry target flags) Q (outcome abort_restore (\<lambda>_. E) E) t"
    by (rule outcome_setfd_retry) (use a assms(2) in \<open>auto simp: core_defs\<close>)
qed (use assms in simp_all)

section \<open>What each part leaves behind\<close>

lemma outcome_relocate:
  assumes fd: "os_fds s fd = Some (f, c)"
    and ok: "\<And>n c' t. 3 \<le> n \<Longrightarrow> n = fd \<or> os_fds s n = None \<Longrightarrow>
      core_fds ((os_fds s)(fd := None, n \<mapsto> (f, c'))) s t \<Longrightarrow> Q n t"
    and fail: "\<And>t. core_fds (\<lambda>n. if n \<in> set others then None else os_fds s n) s t \<Longrightarrow> E t"
  shows "outcome (relocate_slot fd others) Q E s"
proof (cases "fd < 3")
  case True
  have "outcome (fcntl_dupfd_cloexec fd 3)
      (\<lambda>n. outcome (sys_close fd) (\<lambda>_. Q n) (outcome (close_all others) (\<lambda>_. E) E))
      (outcome (close_all others) (\<lambda>_. E) E) s"
  proof (rule outcome_dupfd)
    fix n t f' fl
    assume a: "os_fds s fd = Some (f', fl)" "3 \<le> n" "os_fds s n = None"
      "core_fds ((os_fds s)(n \<mapsto> (f', True))) s t"
    show "outcome (sys_close fd) (\<lambda>_. Q n) (outcome (close_all others) (\<lambda>_. E) E) t"
    proof (rule outcome_close)
      fix u assume "core_fds ((os_fds t)(fd := None)) t u"
      with a fd have "core_fds ((os_fds s)(fd := None, n \<mapsto> (f, True))) s u"
        by (auto simp: core_defs fun_eq_iff)
      with a show "Q n u" by (blast intro: ok)
    qed
  next
    fix t assume "same_core s t"
    then show "outcome (close_all others) (\<lambda>_. E) E t"
      by (intro outcome_close_all fail) (simp add: core_defs fun_eq_iff)
  qed
  with True show ?thesis by (simp add: relocate_slot_def)
next
  case False
  have "core_fds ((os_fds s)(fd := None, fd \<mapsto> (f, c))) s s"
    using fd by (auto simp: core_defs)
  with False show ?thesis using ok [of fd c s] by (simp add: relocate_slot_def)
qed

lemma outcome_open_pipe:
  assumes dup: "os_fds s dup_fd \<noteq> None" "3 \<le> dup_fd"
    and ok: "\<And>r w p c d t. 3 \<le> r \<Longrightarrow> 3 \<le> w \<Longrightarrow> r \<noteq> w \<Longrightarrow> os_fds s r = None \<Longrightarrow> os_fds s w = None \<Longrightarrow>
      core_fds ((os_fds s)(r \<mapsto> (PipeRead p, c), w \<mapsto> (PipeWrite p, d))) s t \<Longrightarrow> Q (r, w) t"
    and fail: "\<And>t. core_fds ((os_fds s)(dup_fd := None)) s t \<Longrightarrow> E t"
  shows "outcome (open_capture_pipe dup_fd) Q E s"
  unfolding open_capture_pipe_def outcome_bind outcome_on_fail outcome_case_prod
proof (rule outcome_pipe)
  fix r w p t
  assume a: "os_fds s r = None" "os_fds s w = None" "r \<noteq> w"
    "core_fds ((os_fds s)(r \<mapsto> (PipeRead p, False), w \<mapsto> (PipeWrite p, False))) s t"
  have "outcome (relocate_slot r [r, w, dup_fd]) (\<lambda>n.
      outcome (relocate_slot w [n, w, dup_fd]) (\<lambda>m. outcome (return_act (n, m)) Q E) E) E t"
  proof (rule outcome_relocate)
    show "os_fds t r = Some (PipeRead p, False)" using a by (simp add: core_defs)
  next
    fix n c u
    assume n: "3 \<le> n" "n = r \<or> os_fds t n = None" "core_fds ((os_fds t)(r := None, n \<mapsto> (PipeRead p, c))) t u"
    then have free: "os_fds s n = None" "n \<noteq> w" "n \<noteq> dup_fd"
      using a dup by (auto simp: core_defs split: if_splits)
    have u: "core_fds ((os_fds s)(n \<mapsto> (PipeRead p, c), w \<mapsto> (PipeWrite p, False))) s u"
      using a n free by (auto simp: core_defs)
    show "outcome (relocate_slot w [n, w, dup_fd]) (\<lambda>m. outcome (return_act (n, m)) Q E) E u"
    proof (rule outcome_relocate)
      show "os_fds u w = Some (PipeWrite p, False)" using u by (simp add: core_defs)
    next
      fix m d v
      assume m: "3 \<le> m" "m = w \<or> os_fds u m = None" "core_fds ((os_fds u)(w := None, m \<mapsto> (PipeWrite p, d))) u v"
      then have "os_fds s m = None" "m \<noteq> n"
        using u a free by (auto simp: core_defs split: if_splits)
      moreover have "core_fds ((os_fds s)(n \<mapsto> (PipeRead p, c), m \<mapsto> (PipeWrite p, d))) s v"
        using m u a free calculation by (auto simp: core_defs fun_eq_iff)
      ultimately show "outcome (return_act (n, m)) Q E v"
        using n m free by (auto intro: ok)
    next
      fix v assume "core_fds (\<lambda>x. if x \<in> set [n, w, dup_fd] then None else os_fds u x) u v"
      then show "E v" using u a free
        by (intro fail) (auto simp: core_defs fun_eq_iff)
    qed
  next
    fix u assume "core_fds (\<lambda>x. if x \<in> set [r, w, dup_fd] then None else os_fds t x) t u"
    then show "E u" using a by (intro fail) (auto simp: core_defs fun_eq_iff)
  qed
  then show "(case (r, w) of (r, w) \<Rightarrow> outcome (relocate_slot r [r, w, dup_fd]) (\<lambda>n.
      outcome (relocate_slot w [n, w, dup_fd]) (\<lambda>m. outcome (return_act (n, m)) Q E) E) E) t"
    by simp
next
  fix t assume "same_core s t"
  then show "outcome (sys_close dup_fd) (\<lambda>_. E) E t"
    by (intro outcome_close fail) (simp add: core_defs)
qed

lemma outcome_set_cloexec:
  assumes "\<And>t f fl. os_fds s fd = Some (f, fl) \<Longrightarrow> core_fds ((os_fds s)(fd \<mapsto> (f, True))) s t \<Longrightarrow> Q () t"
    and "\<And>t. same_core s t \<Longrightarrow> E t"
  shows "outcome (set_cloexec fd) Q E s"
  unfolding set_cloexec_def outcome_bind
proof (rule outcome_getfd)
  fix t f fl assume "os_fds s fd = Some (f, fl)" and t: "same_core s t"
  show "outcome (fcntl_setfd fd True) Q E t"
    by (rule outcome_setfd) (use assms in \<open>auto simp: same_coreD [OF t] simp del: fun_upd_apply\<close>)
qed (rule assms(2))

lemma outcome_redirect:
  assumes fd: "os_fds s fd = Some (f, flags)" and dup: "os_fds s dup_fd = Some (f, c)"
    and r: "os_fds s r \<noteq> None" and w: "os_fds s w = Some (g, d)"
    and d: "fd < 3" "3 \<le> dup_fd" "3 \<le> r" "3 \<le> w" "w \<noteq> dup_fd" "r \<noteq> dup_fd"
    and ok: "\<And>t. core_fds ((os_fds s)(fd \<mapsto> (g, True))) s t \<Longrightarrow> Q () t"
    and fail: "\<And>t. core_fds ((os_fds s)(dup_fd := None, r := None, w := None)) s t \<Longrightarrow> E t"
  shows "outcome (redirect_target fd dup_fd flags r w) Q E s"
  unfolding redirect_target_def outcome_bind outcome_on_fail
proof (rule outcome_dup2)
  show "w \<noteq> fd" using d by simp
next
  fix t g' d'
  assume a: "os_fds s w = Some (g', d')" "core_fds ((os_fds s)(fd \<mapsto> (g', False))) s t"
  show "outcome (set_cloexec fd) Q
      (outcome (restore_or_abort fd dup_fd flags)
        (\<lambda>_. outcome (close_all [dup_fd, r, w]) (\<lambda>_. E) E) E) t"
  proof (rule outcome_set_cloexec)
    fix u h fl assume "os_fds t fd = Some (h, fl)" "core_fds ((os_fds t)(fd \<mapsto> (h, True))) t u"
    then show "Q () u" using a w by (intro ok) (auto simp: core_defs)
  next
    fix u assume u: "same_core t u"
    show "outcome (restore_or_abort fd dup_fd flags) (\<lambda>_. outcome (close_all [dup_fd, r, w]) (\<lambda>_. E) E) E u"
    proof (rule outcome_restore_or_abort)
      show "dup_fd \<noteq> fd" using d by simp
    next
      fix v h fl
      assume v: "os_fds u dup_fd = Some (h, fl)" "core_fds ((os_fds u)(fd \<mapsto> (h, flags))) u v"
      have "h = f" using v u a dup d by (auto simp: core_defs)
      then have "core_fds (os_fds s) s v"
        using v u a fd by (auto simp: core_defs fun_eq_iff)
      then show "outcome (close_all [dup_fd, r, w]) (\<lambda>_. E) E v"
        by (intro outcome_close_all fail) (auto simp: core_defs fun_eq_iff)
    qed
  qed
next
  fix t assume "same_core s t"
  then show "outcome (close_all [dup_fd, r, w]) (\<lambda>_. E) E t"
    by (intro outcome_close_all fail) (auto simp: core_defs fun_eq_iff)
qed

text \<open>
  \<open>captured_from\<close>: the target is the write end of a pipe whose read end a reader thread has; the
  target's old entry is saved; nothing else has changed.
\<close>

definition captured_from :: "nat \<Rightarrow> nat \<Rightarrow> os \<Rightarrow> stream_capture \<Rightarrow> os \<Rightarrow> bool" where
  "captured_from fd dup_fd s c t \<longleftrightarrow>
     st_target c = fd \<and> st_saved c = Some dup_fd \<and>
     map_option snd (os_fds s fd) = Some (st_target_flags c) \<and> st_flush_error c = None \<and>
     3 \<le> st_reader c \<and> os_fds s (st_reader c) = None \<and>
     (\<exists>p k. os_fds t = (os_fds s)(st_reader c \<mapsto> (PipeRead p, k), fd \<mapsto> (PipeWrite p, True))) \<and>
     os_readers t = os_readers s + 1 \<and> os_threads t = os_threads s @ [(st_reader c, False)]"

definition duplicate_of :: "nat \<Rightarrow> nat \<Rightarrow> os \<Rightarrow> bool" where
  "duplicate_of fd dup_fd s \<longleftrightarrow> 3 \<le> dup_fd \<and>
     (\<exists>f c d. os_fds s fd = Some (f, c) \<and> os_fds s dup_fd = Some (f, d))"

lemma outcome_new_tail:
  assumes s: "os_fds s fd = Some (f, flags)" "os_fds s dup_fd = Some (f, d)" "fd < 3" "3 \<le> dup_fd"
    and rw: "3 \<le> r" "3 \<le> w" "r \<noteq> w" "os_fds s r = None" "os_fds s w = None"
    and v: "core_fds ((os_fds s)(r \<mapsto> (PipeRead p, True), w \<mapsto> (PipeWrite p, True))) s v"
    and ok: "\<And>r p k t. 3 \<le> r \<Longrightarrow> os_fds s r = None \<Longrightarrow>
      os_fds t = (os_fds s)(r \<mapsto> (PipeRead p, k), fd \<mapsto> (PipeWrite p, True)) \<Longrightarrow>
      os_readers t = os_readers s \<Longrightarrow> os_threads t = os_threads s @ [(r, False)] \<Longrightarrow> Q r t"
    and fail: "\<And>t. core_fds ((os_fds s)(dup_fd := None)) s t \<Longrightarrow> E t"
  shows "outcome (redirect_target fd dup_fd flags r w) (\<lambda>_. outcome (sys_close w) (\<lambda>_.
      outcome (spawn_reader r) (\<lambda>_. Q r)
        (outcome (restore_or_abort fd dup_fd flags) (\<lambda>_. outcome (close_all [dup_fd, r]) (\<lambda>_. E) E) E)) E) E v"
proof -
  have dist: "r \<noteq> dup_fd" "w \<noteq> dup_fd" "r \<noteq> fd" "w \<noteq> fd" "dup_fd \<noteq> fd" using rw s by auto
  have v': "os_fds v fd = Some (f, flags)" "os_fds v dup_fd = Some (f, d)" "os_fds v r \<noteq> None"
      "os_fds v w = Some (PipeWrite p, True)"
    using v dist s rw by (auto simp: core_defs)
  show ?thesis
  proof (rule outcome_redirect [OF v'])
    fix t assume t: "core_fds ((os_fds v)(fd \<mapsto> (PipeWrite p, True))) v t"
    show "outcome (sys_close w) (\<lambda>_. outcome (spawn_reader r) (\<lambda>_. Q r)
        (outcome (restore_or_abort fd dup_fd flags) (\<lambda>_. outcome (close_all [dup_fd, r]) (\<lambda>_. E) E) E)) E t"
    proof (rule outcome_close, rule outcome_spawn)
      fix u x
      assume u: "core_fds ((os_fds t)(w := None)) t u" and x: "os_fds (x :: os) = os_fds u"
        "os_readers x = os_readers u" "os_threads x = os_threads u @ [(r, False)]"
      have "os_fds x = (os_fds s)(r \<mapsto> (PipeRead p, True), fd \<mapsto> (PipeWrite p, True))"
        using u x t v rw dist by (auto simp: core_defs fun_eq_iff)
      moreover have "os_readers x = os_readers s" "os_threads x = os_threads s @ [(r, False)]"
        using u x t v by (simp_all add: core_defs)
      ultimately show "Q r x" by (rule ok [OF rw(1) rw(4)])
    next
      fix u x assume u: "core_fds ((os_fds t)(w := None)) t u" "same_core u x"
      then have x: "core_fds ((os_fds s)(r \<mapsto> (PipeRead p, True), fd \<mapsto> (PipeWrite p, True))) s x"
        using t v rw dist by (auto simp: core_defs fun_eq_iff)
      show "outcome (restore_or_abort fd dup_fd flags) (\<lambda>_. outcome (close_all [dup_fd, r]) (\<lambda>_. E) E) E x"
      proof (rule outcome_restore_or_abort [OF dist(5)])
        fix y h fl
        assume y: "os_fds x dup_fd = Some (h, fl)" "core_fds ((os_fds x)(fd \<mapsto> (h, flags))) x y"
        show "outcome (close_all [dup_fd, r]) (\<lambda>_. E) E y"
          by (rule outcome_close_all, rule fail)
            (use x y s rw dist in \<open>auto simp: core_defs fun_eq_iff\<close>)
      qed
    qed
  next
    fix t assume "core_fds ((os_fds v)(dup_fd := None, r := None, w := None)) v t"
    then show "E t" using v rw by (intro fail) (auto simp: core_defs fun_eq_iff)
  qed (use s rw dist in simp_all)
qed

lemma outcome_new_rest:
  assumes s: "os_fds s fd = Some (f, flags)" "os_fds s dup_fd = Some (f, d)" "fd < 3" "3 \<le> dup_fd"
    and ok: "\<And>r p k t. 3 \<le> r \<Longrightarrow> os_fds s r = None \<Longrightarrow>
      os_fds t = (os_fds s)(r \<mapsto> (PipeRead p, k), fd \<mapsto> (PipeWrite p, True)) \<Longrightarrow>
      os_readers t = os_readers s \<Longrightarrow> os_threads t = os_threads s @ [(r, False)] \<Longrightarrow> Q r t"
    and fail: "\<And>t. core_fds ((os_fds s)(dup_fd := None)) s t \<Longrightarrow> E t"
  shows "outcome (open_capture_pipe dup_fd) (\<lambda>(r, w).
      outcome (set_cloexec r) (\<lambda>_. outcome (set_cloexec w)
        (\<lambda>_. outcome (redirect_target fd dup_fd flags r w) (\<lambda>_. outcome (sys_close w) (\<lambda>_.
           outcome (spawn_reader r) (\<lambda>_. Q r)
             (outcome (restore_or_abort fd dup_fd flags) (\<lambda>_. outcome (close_all [dup_fd, r]) (\<lambda>_. E) E) E)) E) E)
        (outcome (close_all [r, w, dup_fd]) (\<lambda>_. E) E))
        (outcome (close_all [r, w, dup_fd]) (\<lambda>_. E) E)) E s"
proof (rule outcome_open_pipe, goal_cases)
  case (3 r w p c e t)
  have dist: "r \<noteq> dup_fd" "w \<noteq> dup_fd" "r \<noteq> fd" "w \<noteq> fd" using 3 s by auto
  have closing: "outcome (close_all [r, w, dup_fd]) (\<lambda>_. E) E u"
    if "core_fds ((os_fds s)(r \<mapsto> (PipeRead p, c'), w \<mapsto> (PipeWrite p, e'))) s u" for u c' e'
    by (rule outcome_close_all)
      (use that 3 dist in \<open>intro fail, auto simp: core_defs fun_eq_iff\<close>)
  show ?case unfolding prod.case
  proof (rule outcome_set_cloexec)
    fix u h fl assume "os_fds t r = Some (h, fl)" and "core_fds ((os_fds t)(r \<mapsto> (h, True))) t u"
    then have u: "core_fds ((os_fds s)(r \<mapsto> (PipeRead p, True), w \<mapsto> (PipeWrite p, e))) s u"
      using 3 by (auto simp: core_defs fun_eq_iff)
    show "outcome (set_cloexec w)
        (\<lambda>_. outcome (redirect_target fd dup_fd flags r w) (\<lambda>_. outcome (sys_close w) (\<lambda>_.
           outcome (spawn_reader r) (\<lambda>_. Q r)
             (outcome (restore_or_abort fd dup_fd flags) (\<lambda>_. outcome (close_all [dup_fd, r]) (\<lambda>_. E) E) E)) E) E)
        (outcome (close_all [r, w, dup_fd]) (\<lambda>_. E) E) u"
    proof (rule outcome_set_cloexec)
      fix v h fl assume "os_fds u w = Some (h, fl)" and "core_fds ((os_fds u)(w \<mapsto> (h, True))) u v"
      then have v: "core_fds ((os_fds s)(r \<mapsto> (PipeRead p, True), w \<mapsto> (PipeWrite p, True))) s v"
        using u by (auto simp: core_defs fun_eq_iff)
      show "outcome (redirect_target fd dup_fd flags r w) (\<lambda>_. outcome (sys_close w) (\<lambda>_.
           outcome (spawn_reader r) (\<lambda>_. Q r)
             (outcome (restore_or_abort fd dup_fd flags) (\<lambda>_. outcome (close_all [dup_fd, r]) (\<lambda>_. E) E) E)) E) E v"
        by (rule outcome_new_tail [OF s 3(1-5) v ok fail])
    next
      fix v assume "same_core u v"
      then show "outcome (close_all [r, w, dup_fd]) (\<lambda>_. E) E v"
        using u by (intro closing) (auto simp: core_defs)
    qed
  next
    fix u assume "same_core t u"
    then show "outcome (close_all [r, w, dup_fd]) (\<lambda>_. E) E u"
      using 3 by (intro closing) (auto simp: core_defs)
  qed
qed (use s fail in auto)

lemma outcome_stream_setup:
  assumes s: "os_fds s fd = Some (f, flags)" "os_fds s dup_fd = Some (f, d)" "fd < 3" "3 \<le> dup_fd"
    and ok: "\<And>r p k t. 3 \<le> r \<Longrightarrow> os_fds s r = None \<Longrightarrow>
      os_fds t = (os_fds s)(r \<mapsto> (PipeRead p, k), fd \<mapsto> (PipeWrite p, True)) \<Longrightarrow>
      os_readers t = os_readers s \<Longrightarrow> os_threads t = os_threads s @ [(r, False)] \<Longrightarrow>
      Q \<lparr>st_target = fd, st_saved = Some dup_fd, st_target_flags = flags, st_reader = r,
         st_flush_error = None\<rparr> t"
    and fail: "\<And>t. core_fds ((os_fds s)(dup_fd := None)) s t \<Longrightarrow> E t"
  shows "outcome (stream_setup fd dup_fd flags) Q E s"
  unfolding stream_setup_def start_reader_def outcome_bind outcome_case_prod outcome_on_fail outcome_return
  by (rule outcome_new_rest [OF s ok fail])

lemma outcome_stream_new:
  assumes dup: "duplicate_of fd dup_fd s" and "fd < 3"
    and ok: "\<And>c t. captured_from fd dup_fd s c t \<Longrightarrow> Q c t"
    and fail: "\<And>t. core_fds ((os_fds s)(dup_fd := None)) s t \<Longrightarrow> E t"
  shows "outcome (stream_capture_new fd dup_fd) Q E s"
proof -
  obtain f flags d where s: "os_fds s fd = Some (f, flags)" "os_fds s dup_fd = Some (f, d)" "3 \<le> dup_fd"
    using dup by (auto simp: duplicate_of_def)
  have early: "outcome (sys_close dup_fd) (\<lambda>_. E) E t" if "same_core s t" for t
    by (rule outcome_close, rule fail) (use that in \<open>simp add: core_defs\<close>)
  show ?thesis
    unfolding stream_capture_new_def outcome_bind outcome_on_fail
  proof (rule outcome_getfd)
    fix t g fl assume "os_fds s fd = Some (g, fl)" and t: "same_core s t"
    then have fl: "fl = flags" using s by simp
    show "outcome reserve_capture_reader
        (\<lambda>_. outcome (stream_setup fd dup_fd fl) Q (outcome release_reader_budget (\<lambda>_. E) E))
        (outcome (sys_close dup_fd) (\<lambda>_. E) E) t"
    proof (rule outcome_reserve)
      fix u :: os
      assume u: "os_fds u = os_fds t" "os_readers u = os_readers t + 1" "os_threads u = os_threads t"
      show "outcome (stream_setup fd dup_fd fl) Q (outcome release_reader_budget (\<lambda>_. E) E) u"
      proof (rule outcome_stream_setup)
        show "os_fds u fd = Some (f, fl)" "os_fds u dup_fd = Some (f, d)"
          using s t u fl by (simp_all add: core_defs)
      next
        fix v assume v: "core_fds ((os_fds u)(dup_fd := None)) u v"
        show "outcome release_reader_budget (\<lambda>_. E) E v"
          by (rule outcome_release, rule fail) (use t u v in \<open>simp add: core_defs\<close>)
      next
        fix r p k and v :: os
        assume "3 \<le> r" "os_fds u r = None" "os_threads v = os_threads u @ [(r, False)]"
          "os_fds v = (os_fds u)(r \<mapsto> (PipeRead p, k), fd \<mapsto> (PipeWrite p, True))" "os_readers v = os_readers u"
        then show "Q \<lparr>st_target = fd, st_saved = Some dup_fd, st_target_flags = fl, st_reader = r,
            st_flush_error = None\<rparr> v"
          using s t u fl by (intro ok) (auto simp: captured_from_def core_defs)
      qed (use s assms in simp_all)
    qed (rule early [OF t])
  qed (rule early)
qed

lemma outcome_stream_restore:
  assumes c: "st_saved c = Some d" "d \<noteq> st_target c" "os_fds s d = Some (f, k)"
    and ok: "\<And>e t. core_fds ((os_fds s)(st_target c \<mapsto> (f, st_target_flags c), d := None)) s t \<Longrightarrow>
      Q (c\<lparr>st_saved := None, st_flush_error := e\<rparr>) t"
  shows "outcome (stream_restore c) Q E s"
  unfolding stream_restore_def c option.case outcome_bind
proof (rule outcome_flush_result, rule outcome_restore_or_abort [OF c(2)], rule outcome_close)
  fix e t g fl u v
  assume "same_core s t" "os_fds t d = Some (g, fl)" "core_fds ((os_fds t)(st_target c \<mapsto> (g, st_target_flags c))) t u"
    "core_fds ((os_fds u)(d := None)) u v"
  then show "outcome (return_act (c\<lparr>st_saved := None, st_flush_error := e\<rparr>)) Q E v"
    unfolding outcome_return using c by (intro ok) (simp add: core_defs)
qed

lemma outcome_stream_drop:
  assumes c: "st_saved c = Some d" "d \<noteq> st_target c" "os_fds s d = Some (f, k)"
    and ok: "\<And>t. os_fds t = (os_fds s)(st_target c \<mapsto> (f, st_target_flags c), d := None) \<Longrightarrow>
      os_readers t = os_readers s \<Longrightarrow>
      os_threads t = map (\<lambda>(r, stop). (r, stop \<or> r = st_reader c)) (os_threads s) \<Longrightarrow> Q () t"
  shows "outcome (stream_drop c) Q E s"
  unfolding stream_drop_def outcome_bind
  by (rule outcome_stream_restore [OF c])
    (use ok in \<open>auto simp: outcome_def set_stop_def core_defs\<close>)

lemma outcome_drop_restored:
  assumes c: "st_saved c = None"
    and ok: "\<And>t. os_fds t = os_fds s \<Longrightarrow> os_readers t = os_readers s \<Longrightarrow>
      os_threads t = map (\<lambda>(r, stop). (r, stop \<or> r = st_reader c)) (os_threads s) \<Longrightarrow> Q () t"
  shows "outcome (stream_drop c) Q E s"
  using ok by (simp add: stream_drop_def stream_restore_def c outcome_def set_stop_def
      bind_act_def return_act_def)

section \<open>A capture as a whole\<close>

definition captured_streams :: "capture_pair \<Rightarrow> stream_capture list" where
  "captured_streams pair = (case fst pair of None \<Rightarrow> [] | Some c \<Rightarrow> [c])
     @ (case snd pair of None \<Rightarrow> [] | Some c \<Rightarrow> [c])"

definition stream_fds :: "stream_capture \<Rightarrow> nat list" where
  "stream_fds c = [st_target c, the (st_saved c), st_reader c]"

definition capture_fds :: "capture_pair \<Rightarrow> nat list" where
  "capture_fds pair = concat (map stream_fds (captured_streams pair))"

text \<open>
  A captured stream: its target is the write end of the pipe its reader reads, the target's old
  file is saved, and all that is internal sits on descriptors that were free, above stderr.
\<close>

definition stream_open :: "os \<Rightarrow> stream_capture \<Rightarrow> os \<Rightarrow> bool" where
  "stream_open s c t \<longleftrightarrow>
     (\<exists>d f k. st_saved c = Some d \<and> 3 \<le> d \<and> os_fds s d = None \<and> os_fds t d = Some (f, k) \<and>
        os_fds s (st_target c) = Some (f, st_target_flags c)) \<and>
     (\<exists>p k. 3 \<le> st_reader c \<and> os_fds s (st_reader c) = None \<and>
        os_fds t (st_reader c) = Some (PipeRead p, k) \<and>
        os_fds t (st_target c) = Some (PipeWrite p, True))"

definition capture_open :: "bool \<Rightarrow> bool \<Rightarrow> os \<Rightarrow> capture_pair \<Rightarrow> os \<Rightarrow> bool" where
  "capture_open out err s pair t \<longleftrightarrow>
     map_option st_target (fst pair) = (if out then Some 1 else None) \<and>
     map_option st_target (snd pair) = (if err then Some 2 else None) \<and>
     distinct (capture_fds pair) \<and>
     (\<forall>c \<in> set (captured_streams pair). stream_open s c t) \<and>
     (\<forall>fd. fd \<notin> set (capture_fds pair) \<longrightarrow> os_fds t fd = os_fds s fd) \<and>
     os_readers t = os_readers s + length (captured_streams pair) \<and>
     os_threads t = os_threads s @ map (\<lambda>c. (st_reader c, False)) (captured_streams pair)"

text \<open>
  Nothing is left but reader threads that were told to stop; when they have ended, the state is
  the old one.
\<close>

definition all_cleaned :: "os \<Rightarrow> os \<Rightarrow> bool" where
  "all_cleaned s t \<longleftrightarrow>
     (\<exists>rs. os_threads t = os_threads s @ map (\<lambda>r. (r, True)) rs \<and>
        same_core s (fold reader_exit rs t))"

text \<open>Running reader threads have the descriptors they read open.\<close>

definition readers_open :: "os \<Rightarrow> bool" where
  "readers_open s \<longleftrightarrow> (\<forall>t \<in> set (os_threads s). os_fds s (fst t) \<noteq> None)"

lemma all_cleaned_same: "same_core s t \<Longrightarrow> all_cleaned s t"
  unfolding all_cleaned_def by (rule exI [of _ "[]"]) (simp add: core_defs)

lemma readers_open_fresh:
  "readers_open s \<Longrightarrow> os_fds s r = None \<Longrightarrow> filter (\<lambda>t. fst t \<noteq> r) (os_threads s) = os_threads s"
  by (auto simp: readers_open_def filter_id_conv)

lemma readers_open_set_stop:
  "readers_open s \<Longrightarrow> os_fds s r = None \<Longrightarrow>
   map (\<lambda>(r', stop). (r', stop \<or> r' = r)) (os_threads s) = os_threads s"
  by (induction "os_threads s") (auto simp: readers_open_def intro!: map_idI)

lemma all_cleaned_one:
  assumes "readers_open s" "os_fds s r = None"
    and "os_fds t = (os_fds s)(r := e)" "os_readers t = os_readers s + 1"
    and "os_threads t = os_threads s @ [(r, True)]"
  shows "all_cleaned s t"
  unfolding all_cleaned_def
  by (rule exI [of _ "[r]"])
    (use assms in \<open>auto simp: reader_exit_def set_fd_def core_defs fun_eq_iff readers_open_fresh\<close>)

lemma outcome_when:
  assumes "c \<Longrightarrow> outcome m (\<lambda>x. Q (Some x)) E s" and "\<not> c \<Longrightarrow> Q None s"
  shows "outcome (when_act c m) Q E s"
  using assms by (simp add: when_act_def)

text \<open>The duplicates: each captured target has one, on a descriptor that was free.\<close>

definition saved_of :: "nat \<Rightarrow> bool \<Rightarrow> os \<Rightarrow> nat option \<Rightarrow> os \<Rightarrow> bool" where
  "saved_of fd c s saved t \<longleftrightarrow>
     (case saved of
        None \<Rightarrow> \<not> c \<and> same_core s t
      | Some d \<Rightarrow> c \<and> 3 \<le> d \<and> os_fds s d = None \<and>
          (\<exists>f k. os_fds s fd = Some (f, k) \<and> core_fds ((os_fds s)(d \<mapsto> (f, True))) s t))"

lemma outcome_save:
  assumes "\<And>saved t. saved_of fd c s saved t \<Longrightarrow> Q saved t" and "\<And>t. same_core s t \<Longrightarrow> E t"
  shows "outcome (when_act c (fcntl_dupfd_cloexec fd 3)) Q E s"
proof (rule outcome_when)
  assume c
  show "outcome (fcntl_dupfd_cloexec fd 3) (\<lambda>x. Q (Some x)) E s"
    by (rule outcome_dupfd) (use \<open>c\<close> assms in \<open>auto simp: saved_of_def simp del: fun_upd_apply\<close>)
qed (use assms in \<open>simp add: saved_of_def\<close>)

lemma outcome_flush_when:
  assumes "\<And>r t. same_core s t \<Longrightarrow> Q r t" and "\<And>t. same_core s t \<Longrightarrow> E t"
  shows "outcome (when_act c (flush_stdio fd)) Q E s"
  by (rule outcome_when) (use assms in \<open>auto intro!: outcome_flush\<close>)

lemma outcome_new_stream:
  assumes "\<And>d. saved = Some d \<Longrightarrow> duplicate_of fd d s" and "fd < 3"
    and "saved = None \<Longrightarrow> Q None s"
    and "\<And>d c t. saved = Some d \<Longrightarrow> captured_from fd d s c t \<Longrightarrow> Q (Some c) t"
    and "\<And>d t. saved = Some d \<Longrightarrow> core_fds ((os_fds s)(d := None)) s t \<Longrightarrow> E t"
  shows "outcome (new_stream fd saved) Q E s"
  by (cases saved)
    (use assms in \<open>auto simp: new_stream_def simp del: fun_upd_apply intro!: outcome_stream_new\<close>)

lemma outcome_drop_saved:
  assumes "saved = None \<Longrightarrow> Q () s"
    and "\<And>d t. saved = Some d \<Longrightarrow> core_fds ((os_fds s)(d := None)) s t \<Longrightarrow> Q () t"
  shows "outcome (drop_saved saved) Q E s"
  by (cases saved) (use assms in \<open>auto simp: drop_saved_def simp del: fun_upd_apply intro!: outcome_close\<close>)

text \<open>Both duplicates exist and nothing else has happened.\<close>

lemma outcome_saves:
  assumes ok: "\<And>so se t1 t2. saved_of 1 out s so t1 \<Longrightarrow> saved_of 2 err t1 se t2 \<Longrightarrow> Q so se t2"
    and fail: "\<And>t. same_core s t \<Longrightarrow> E t"
  shows "outcome (when_act out (fcntl_dupfd_cloexec 1 3)) (\<lambda>so.
      outcome (when_act err (fcntl_dupfd_cloexec 2 3)) (Q so) (outcome (drop_saved so) (\<lambda>_. E) E)) E s"
proof (rule outcome_save)
  fix so t1 assume so: "saved_of 1 out s so t1"
  show "outcome (when_act err (fcntl_dupfd_cloexec 2 3)) (Q so) (outcome (drop_saved so) (\<lambda>_. E) E) t1"
  proof (rule outcome_save)
    fix t assume "same_core t1 t"
    with so show "outcome (drop_saved so) (\<lambda>_. E) E t"
      by (intro outcome_drop_saved fail) (auto simp: saved_of_def core_defs fun_eq_iff)
  qed (use so ok in blast)
qed (use fail in blast)

lemmas capture_defs = capture_open_def stream_open_def capture_fds_def stream_fds_def captured_streams_def

lemma capture_open_one:
  assumes "fd = 1 \<and> pair = (Some c, None) \<and> out \<and> \<not> err \<or> fd = 2 \<and> pair = (None, Some c) \<and> \<not> out \<and> err"
    and "os_fds u = (os_fds s)(d \<mapsto> (f, True))" "os_readers u = os_readers s" "os_threads u = os_threads s"
    and "3 \<le> d" "os_fds s d = None" "os_fds s fd = Some (f, k)" "captured_from fd d u c t"
  shows "capture_open out err s pair t"
  using assms(1)
  by (elim disjE conjE) (use assms(2-) in \<open>auto simp: capture_defs captured_from_def split: if_splits\<close>)

lemma capture_open_two:
  assumes "os_fds u = (os_fds s)(d1 \<mapsto> (f1, True), d2 \<mapsto> (f2, True))" "os_readers u = os_readers s"
    "os_threads u = os_threads s" "d1 \<noteq> d2"
    and "3 \<le> d1" "os_fds s d1 = None" "os_fds s 1 = Some (f1, k1)" "captured_from 1 d1 u c1 v"
    and "3 \<le> d2" "os_fds s d2 = None" "os_fds s 2 = Some (f2, k2)" "captured_from 2 d2 v c2 t"
  shows "capture_open True True s (Some c1, Some c2) t"
  using assms by (auto simp: capture_defs captured_from_def split: if_splits)

lemma saved_of_Some:
  assumes "saved_of fd c s (Some d) t"
  obtains f k where "c" "3 \<le> d" "os_fds s d = None" "os_fds s fd = Some (f, k)"
    "os_fds t = (os_fds s)(d \<mapsto> (f, True))" "os_readers t = os_readers s" "os_threads t = os_threads s"
  using assms by (auto simp: saved_of_def core_defs)

text \<open>The second stream after the first: it is captured too, or the first is dropped.\<close>

lemma outcome_second_stream:
  assumes ro: "readers_open s"
    and d1: "3 \<le> d1" "os_fds s d1 = None" "os_fds s 1 = Some (f1, k1)"
    and t1: "os_fds t1 = (os_fds s)(d1 \<mapsto> (f1, True))" "os_readers t1 = os_readers s" "os_threads t1 = os_threads s"
    and se: "saved_of 2 err t1 se t2" and c: "captured_from 1 d1 t2 c t"
    and ok: "\<And>pair t. capture_open True err s pair t \<Longrightarrow> Q pair t"
    and fail: "\<And>t. all_cleaned s t \<Longrightarrow> E t"
  shows "outcome (new_stream 2 se) (\<lambda>e_c. Q (Some c, e_c)) (outcome (drop_stream (Some c)) (\<lambda>_. E) E) t"
proof (rule outcome_new_stream)
  show "duplicate_of 2 d t" if "se = Some d" for d
    using se that c t1 d1
    by (auto simp: duplicate_of_def saved_of_def captured_from_def core_defs split: if_splits)
next
  assume "se = None"
  then have "\<not> err" "same_core t1 t2" using se by (auto simp: saved_of_def)
  then show "Q (Some c, None) t"
    using capture_open_one [of 1 "(Some c, None)" c True err t2 s d1 f1 k1 t] c t1 d1
    by (intro ok) (simp add: core_defs)
next
  fix d2 c2 u assume d2: "se = Some d2" and c2: "captured_from 2 d2 t c2 u"
  obtain f2 k2 where e: "err" "3 \<le> d2" "os_fds t1 d2 = None" "os_fds t1 2 = Some (f2, k2)"
    "os_fds t2 = (os_fds t1)(d2 \<mapsto> (f2, True))" "os_readers t2 = os_readers t1" "os_threads t2 = os_threads t1"
    using se [unfolded d2] by (rule saved_of_Some)
  have "capture_open True True s (Some c, Some c2) u"
    by (rule capture_open_two [OF _ _ _ _ d1 c _ _ _ c2]) (use e t1 d1 in \<open>auto split: if_splits\<close>)
  then show "Q (Some c, Some c2) u" using ok [of "(Some c, Some c2)" u] e(1) by simp
next
  fix d2 u assume d2: "se = Some d2" and u: "core_fds ((os_fds t)(d2 := None)) t u"
  obtain f2 k2 where e: "err" "3 \<le> d2" "os_fds t1 d2 = None" "os_fds t1 2 = Some (f2, k2)"
    "os_fds t2 = (os_fds t1)(d2 \<mapsto> (f2, True))" "os_readers t2 = os_readers t1" "os_threads t2 = os_threads t1"
    using se [unfolded d2] by (rule saved_of_Some)
  have ne: "d2 \<noteq> d1" "d2 \<noteq> 1" using e t1 d1 by (auto split: if_splits)
  have st: "st_saved c = Some d1" "st_target c = 1" "k1 = st_target_flags c" "st_reader c \<noteq> d1"
      "3 \<le> st_reader c" "os_fds s (st_reader c) = None" "st_reader c \<noteq> d2"
      "os_fds u d1 = Some (f1, True)" "os_readers u = os_readers s + 1"
      "os_threads u = os_threads s @ [(st_reader c, False)]"
    using c u e t1 d1 ne by (auto simp: captured_from_def core_defs split: if_splits)
  have fds: "(os_fds u)(1 \<mapsto> (f1, k1), d1 := None) = (os_fds s)(st_reader c := os_fds u (st_reader c))"
    using c u e t1 d1 ne st by (auto simp: captured_from_def core_defs fun_eq_iff)
  have "outcome (stream_drop c) (\<lambda>_. E) E u"
  proof (rule outcome_stream_drop)
    fix v :: os
    assume v: "os_fds v = (os_fds u)(st_target c \<mapsto> (f1, st_target_flags c), d1 := None)"
      "os_readers v = os_readers u"
      "os_threads v = map (\<lambda>(r, stop). (r, stop \<or> r = st_reader c)) (os_threads u)"
    show "E v"
      by (rule fail, rule all_cleaned_one [OF ro st(6)])
        (use v st fds ro readers_open_set_stop in simp_all)
  qed (use st d1 in simp_all)
  then show "outcome (drop_stream (Some c)) (\<lambda>_. E) E u" by (simp add: drop_stream_def)
qed simp

lemma outcome_capture_tail:
  assumes ro: "readers_open s" and s1: "same_core s s1"
    and so: "saved_of 1 out s1 so t1" and se: "saved_of 2 err t1 se t2"
    and ok: "\<And>pair t. capture_open out err s pair t \<Longrightarrow> Q pair t"
    and fail: "\<And>t. all_cleaned s t \<Longrightarrow> E t"
  shows "outcome (new_stream 1 so) (\<lambda>o_c. outcome (new_stream 2 se) (\<lambda>e_c. Q (o_c, e_c))
      (outcome (drop_stream o_c) (\<lambda>_. E) E)) (outcome (drop_saved se) (\<lambda>_. E) E) t2"
proof (rule outcome_new_stream)
  show "duplicate_of 1 d t2" if "so = Some d" for d
    using so se that by (auto simp: duplicate_of_def saved_of_def core_defs split: option.splits)
next
  assume none: "so = None"
  then have out: "\<not> out" "same_core s t1" using so s1 by (auto simp: saved_of_def intro: core_trans)
  show "outcome (new_stream 2 se) (\<lambda>e_c. Q (None, e_c)) (outcome (drop_stream None) (\<lambda>_. E) E) t2"
  proof (rule outcome_new_stream)
    show "duplicate_of 2 d t2" if "se = Some d" for d
      using se that by (auto simp: duplicate_of_def saved_of_def core_defs)
  next
    assume "se = None"
    then show "Q (None, None) t2"
      using se out by (intro ok) (auto simp: capture_defs saved_of_def core_defs)
  next
    fix d c t assume "se = Some d" "captured_from 2 d t2 c t"
    with se out show "Q (None, Some c) t"
      by (auto elim!: saved_of_Some simp: core_defs intro!: ok capture_open_one [of 2 _ c _ _ t2 s d])
  next
    fix d t assume "se = Some d" "core_fds ((os_fds t2)(d := None)) t2 t"
    then show "outcome (drop_stream None) (\<lambda>_. E) E t"
      using se out by (auto simp: drop_stream_def saved_of_def core_defs fun_eq_iff intro!: fail all_cleaned_same)
  qed simp
next
  fix d c t assume d: "so = Some d" and c: "captured_from 1 d t2 c t"
  obtain f k where o: "out" "3 \<le> d" "os_fds s1 d = None" "os_fds s1 1 = Some (f, k)"
    "os_fds t1 = (os_fds s1)(d \<mapsto> (f, True))" "os_readers t1 = os_readers s1" "os_threads t1 = os_threads s1"
    using so [unfolded d] by (rule saved_of_Some)
  show "outcome (new_stream 2 se) (\<lambda>e_c. Q (Some c, e_c)) (outcome (drop_stream (Some c)) (\<lambda>_. E) E) t"
    by (rule outcome_second_stream [OF ro _ _ _ _ _ _ se c])
      (use o s1 ok fail in \<open>simp_all add: core_defs\<close>)
next
  fix d t assume d: "so = Some d" and t: "core_fds ((os_fds t2)(d := None)) t2 t"
  show "outcome (drop_saved se) (\<lambda>_. E) E t"
  proof (rule outcome_drop_saved, goal_cases)
    case 1
    then have "same_core s t" using d t so se s1 by (auto simp: saved_of_def core_defs fun_eq_iff)
    then show ?case by (intro fail all_cleaned_same)
  next
    case (2 e u)
    then have "same_core s u" using d t so se s1 by (auto simp: saved_of_def core_defs fun_eq_iff)
    then show ?case by (intro fail all_cleaned_same)
  qed
qed simp

lemma outcome_capture_new:
  assumes "readers_open s"
    and ok: "\<And>pair t. capture_open out err s pair t \<Longrightarrow> Q pair t"
    and fail: "\<And>t. all_cleaned s t \<Longrightarrow> E t"
  shows "outcome (output_capture_new out err) Q E s"
  unfolding output_capture_new_def outcome_bind outcome_on_fail outcome_return
proof (rule outcome_flush_when, rule outcome_flush_when, rule outcome_saves, goal_cases)
  case (1 r0 s0 r1 s1 so se t1 t2)
  then have "same_core s s1" by (blast intro: core_trans)
  then show ?case by (rule outcome_capture_tail [OF assms(1) _ 1(3,4) ok fail])
qed (use fail all_cleaned_same core_trans(1) in blast)+

text \<open>After the restoration only the pipe ends of the reader threads are left.\<close>

definition capture_restored :: "os \<Rightarrow> capture_pair \<Rightarrow> os \<Rightarrow> bool" where
  "capture_restored s pair t \<longleftrightarrow>
     (\<forall>c \<in> set (captured_streams pair). st_saved c = None \<and> os_fds s (st_reader c) = None) \<and>
     distinct (map st_reader (captured_streams pair)) \<and>
     (\<forall>fd. fd \<notin> st_reader ` set (captured_streams pair) \<longrightarrow> os_fds t fd = os_fds s fd) \<and>
     os_readers t = os_readers s + length (captured_streams pair) \<and>
     os_threads t = os_threads s @ map (\<lambda>c. (st_reader c, False)) (captured_streams pair)"

text \<open>One stream of an open capture is restored, in a state that agrees on its three entries.\<close>

lemma outcome_restore_open:
  assumes c: "stream_open s c t" "distinct (stream_fds c)"
    and u: "\<And>fd. fd \<in> set (stream_fds c) \<Longrightarrow> os_fds u fd = os_fds t fd"
    and ok: "\<And>c' v. st_reader c' = st_reader c \<Longrightarrow> st_saved c' = None \<Longrightarrow>
      core_fds ((os_fds u)(st_target c := os_fds s (st_target c), the (st_saved c) := None)) u v \<Longrightarrow>
      Q (Some c') v"
  shows "outcome (restore_stream (Some c)) Q E u"
proof -
  obtain d f k where d: "st_saved c = Some d" "os_fds t d = Some (f, k)"
      "os_fds s (st_target c) = Some (f, st_target_flags c)"
    using c by (auto simp: stream_open_def)
  have "outcome (stream_restore c) (\<lambda>c. Q (Some c)) E u"
  proof (rule outcome_stream_restore)
    show "os_fds u d = Some (f, k)" using u d by (simp add: stream_fds_def)
    show "d \<noteq> st_target c" using c d by (auto simp: stream_fds_def)
  next
    fix e v assume "core_fds ((os_fds u)(st_target c \<mapsto> (f, st_target_flags c), d := None)) u v"
    then show "Q (Some (c\<lparr>st_saved := None, st_flush_error := e\<rparr>)) v"
      by (intro ok) (simp_all add: d)
  qed (rule d(1))
  then show ?thesis by (simp add: restore_stream_def)
qed

lemma outcome_capture_restore:
  assumes t: "capture_open out err s pair t" and ok: "\<And>p u. capture_restored s p u \<Longrightarrow>
      map_option st_reader (fst p) = map_option st_reader (fst pair) \<Longrightarrow>
      map_option st_reader (snd p) = map_option st_reader (snd pair) \<Longrightarrow> Q p u"
  shows "outcome (output_capture_restore pair) Q E t"
proof (cases pair)
  case (Pair a b)
  have facts: "\<And>c. c \<in> set (captured_streams pair) \<Longrightarrow> stream_open s c t \<and> distinct (stream_fds c)"
    using t by (auto simp: capture_open_def capture_fds_def captured_streams_def split: option.splits)
  show ?thesis
  proof (cases a; cases b)
    assume "a = None" "b = None"
    with t Pair show ?thesis
      by (auto simp: output_capture_restore_def restore_stream_def capture_defs capture_restored_def intro!: ok)
  next
    fix c assume ab: "a = None" "b = Some c"
    then have c: "stream_open s c t" "distinct (stream_fds c)" using facts Pair by (auto simp: captured_streams_def)
    have "outcome (restore_stream (Some c)) (\<lambda>e. Q (None, e)) E t"
      by (rule outcome_restore_open [OF c], simp, rule ok)
        (use ab Pair t in \<open>auto simp: capture_restored_def capture_defs core_defs\<close>)
    then show ?thesis using ab Pair by (simp add: output_capture_restore_def restore_stream_def [of None])
  next
    fix c assume ab: "a = Some c" "b = None"
    then have c: "stream_open s c t" "distinct (stream_fds c)" using facts Pair by (auto simp: captured_streams_def)
    have "outcome (restore_stream (Some c)) (\<lambda>e. Q (e, None)) E t"
      by (rule outcome_restore_open [OF c], simp, rule ok)
        (use ab Pair t in \<open>auto simp: capture_restored_def capture_defs core_defs\<close>)
    then show ?thesis using ab Pair by (simp add: output_capture_restore_def restore_stream_def [of None])
  next
    fix c e assume ab: "a = Some c" "b = Some e"
    then have c: "stream_open s c t" "distinct (stream_fds c)" "stream_open s e t" "distinct (stream_fds e)"
      using facts Pair by (auto simp: captured_streams_def)
    have dis: "set (stream_fds c) \<inter> set (stream_fds e) = {}"
      using t ab Pair by (auto simp: capture_open_def capture_fds_def captured_streams_def)
    have "outcome (restore_stream (Some c)) (\<lambda>o_c. outcome (restore_stream (Some e)) (\<lambda>e_c. Q (o_c, e_c)) E) E t"
    proof (rule outcome_restore_open [OF c(1,2)], simp, rule outcome_restore_open [OF c(3,4)])
      fix c' u fd assume "core_fds ((os_fds t)(st_target c := os_fds s (st_target c), the (st_saved c) := None)) t u"
        "fd \<in> set (stream_fds e)"
      then show "os_fds u fd = os_fds t fd" using dis by (auto simp: core_defs stream_fds_def)
    next
      fix c' e' :: stream_capture and u v
      assume "st_reader c' = st_reader c" "st_saved c' = None" "st_reader e' = st_reader e" "st_saved e' = None"
        "core_fds ((os_fds t)(st_target c := os_fds s (st_target c), the (st_saved c) := None)) t u"
        "core_fds ((os_fds u)(st_target e := os_fds s (st_target e), the (st_saved e) := None)) u v"
      then show "Q (Some c', Some e') v" using t ab Pair dis
        by (intro ok) (auto simp: capture_restored_def capture_defs core_defs)
    qed
    then show ?thesis using ab Pair by (simp add: output_capture_restore_def)
  qed
qed

lemma outcome_drop_pending:
  assumes ro: "readers_open s" and p: "capture_restored s p u"
    and ok: "\<And>t. all_cleaned s t \<Longrightarrow> Q () t"
  shows "outcome (drop_pending p) Q E u"
proof -
  have stop: "map (\<lambda>(r', stop). (r', stop \<or> r' = st_reader c)) (os_threads s) = os_threads s"
      "filter (\<lambda>t. fst t \<noteq> st_reader c) (os_threads s) = os_threads s"
    if "c \<in> set (captured_streams p)" for c
    using that p readers_open_set_stop [OF ro] readers_open_fresh [OF ro]
    by (auto simp: capture_restored_def)
  have cleaned: "all_cleaned s t"
    if "os_fds t = os_fds u" "os_readers t = os_readers u"
      "os_threads t = os_threads s @ map (\<lambda>c. (st_reader c, True)) (captured_streams p)" for t
    unfolding all_cleaned_def
    by (rule exI [of _ "map st_reader (captured_streams p)"])
      (use that p stop in \<open>auto simp: capture_restored_def captured_streams_def reader_exit_def set_fd_def
         core_defs fun_eq_iff split: option.splits\<close>)
  show ?thesis
  proof (cases "fst p"; cases "snd p")
    assume "fst p = None" "snd p = None"
    with p show ?thesis
      by (auto simp: drop_pending_def drop_stream_def captured_streams_def capture_restored_def
          intro!: ok cleaned)
  next
    fix c assume "fst p = None" "snd p = Some c"
    with p show ?thesis
      by (auto simp: drop_pending_def drop_stream_def captured_streams_def capture_restored_def stop
          intro!: ok cleaned outcome_drop_restored)
  next
    fix c assume "fst p = Some c" "snd p = None"
    with p show ?thesis
      by (auto simp: drop_pending_def drop_stream_def captured_streams_def capture_restored_def stop
          intro!: ok cleaned outcome_drop_restored)
  next
    fix c e assume "fst p = Some c" "snd p = Some e"
    with p show ?thesis
      by (auto simp: drop_pending_def drop_stream_def captured_streams_def capture_restored_def stop
          intro!: ok cleaned outcome_drop_restored)
  qed
qed

lemma outcome_capture_finish:
  assumes "readers_open s" "capture_open out err s pair t"
  shows "outcome (output_capture_finish pair o_blocks e_blocks) (\<lambda>_. all_cleaned s) (\<lambda>_. False) t"
  unfolding output_capture_finish_def capture_collect_def outcome_bind outcome_return
  by (rule outcome_capture_restore [OF assms(2)], rule outcome_drop_pending [OF assms(1)])

text \<open>
  C12: However the operating system answers the calls of a capture, the process's stdio
  survives it. A setup that fails has changed nothing but reader threads that are already told
  to stop: once they have ended, the descriptor table, the reservations and the threads are
  the old ones. A setup that succeeds has redirected exactly the requested streams to pipes of
  their own, with every internal descriptor above 2 and all others untouched; finishing it
  never fails and brings the old state back. The only other outcome is the abort of the
  process when a target cannot be restored.
\<close>

theorem stdio_survives_every_capture:
  assumes "readers_open s"
  shows "case output_capture_new out err s of
      (Ok pair, t) \<Rightarrow> capture_open out err s pair t \<and>
        (case output_capture_finish pair o_blocks e_blocks t of
           (Ok r, u) \<Rightarrow> all_cleaned s u | (Fail e, u) \<Rightarrow> False | (Aborted, u) \<Rightarrow> True)
    | (Fail e, t) \<Rightarrow> all_cleaned s t
    | (Aborted, t) \<Rightarrow> True"
proof -
  have "outcome (output_capture_new out err) (\<lambda>pair t. capture_open out err s pair t \<and>
      outcome (output_capture_finish pair o_blocks e_blocks) (\<lambda>_. all_cleaned s) (\<lambda>_. False) t)
      (all_cleaned s) s"
    by (rule outcome_capture_new [OF assms]) (use outcome_capture_finish [OF assms] in auto)
  then show ?thesis by (simp add: outcome_def)
qed

text \<open>A host with its three standard files, and no injected failures but a signal at one call.\<close>

definition sample_os :: "io_error option list \<Rightarrow> os" where
  "sample_os faults =
     \<lparr>os_fds = (\<lambda>fd. if fd < 3 then Some (HostFile fd, False) else None), os_limit = 16,
      os_pipes = 0, os_faults = faults, os_readers = 0, os_threads = []\<rparr>"

lemma sample_os_readers: "readers_open (sample_os faults)"
  by (simp add: readers_open_def sample_os_def)

text \<open>In that host the capture of both streams is set up.\<close>

lemma sample_capture: "fst (output_capture_new True True (sample_os [])) =
    Ok (Some \<lparr>st_target = 1, st_saved = Some 3, st_target_flags = False, st_reader = 5, st_flush_error = None\<rparr>,
        Some \<lparr>st_target = 2, st_saved = Some 4, st_target_flags = False, st_reader = 6, st_flush_error = None\<rparr>)"
  by code_simp

theorem stdio_survives_every_capture_witness:
  "case output_capture_new True True (sample_os []) of
      (Ok pair, t) \<Rightarrow> capture_open True True (sample_os []) pair t
    | (Fail e, t) \<Rightarrow> False
    | (Aborted, t) \<Rightarrow> False"
  using stdio_survives_every_capture [OF sample_os_readers, of True True "[]"] sample_capture
  by (cases "output_capture_new True True (sample_os [])") auto

text \<open>The only failures that are still to come are interruptions by a signal.\<close>

definition only_signals :: "os \<Rightarrow> bool" where
  "only_signals s \<longleftrightarrow> (\<forall>e. Some e \<in> set (os_faults s) \<longrightarrow> io_kind e = EkInterrupted)"

lemma dup2_retry_signals:
  assumes "only_signals s" "os_fds s saved = Some (f, k)" "saved \<noteq> target"
  shows "fst (dup2_retry saved target s) = Ok () \<and>
    os_fds (snd (dup2_retry saved target s)) = (os_fds s)(target \<mapsto> (f, False)) \<and>
    only_signals (snd (dup2_retry saved target s))"
  using assms
proof (induction saved target s rule: dup2_retry.induct)
  case (1 saved target s)
  show ?case
  proof (cases "os_faults s")
    case Nil
    with 1 show ?thesis
      by (simp add: dup2_retry.simps [of saved target s] sys_dup2_def syscall_def interrupted_def
          set_fd_def only_signals_def)
  next
    case (Cons x rest)
    then show ?thesis using 1
      by (cases x) (simp_all add: dup2_retry.simps [of saved target s] sys_dup2_def syscall_def
          interrupted_def set_fd_def only_signals_def)
  qed
qed

lemma setfd_retry_signals:
  assumes "only_signals s" "os_fds s fd = Some (f, k)"
  shows "fst (setfd_retry fd flags s) = Ok () \<and>
    os_fds (snd (setfd_retry fd flags s)) = (os_fds s)(fd \<mapsto> (f, flags))"
  using assms
proof (induction fd flags s rule: setfd_retry.induct)
  case (1 fd flags s)
  show ?case
  proof (cases "os_faults s")
    case Nil
    with 1 show ?thesis
      by (simp add: setfd_retry.simps [of fd flags s] fcntl_setfd_def syscall_def interrupted_def
          set_fd_def)
  next
    case (Cons x rest)
    then show ?thesis using 1
      by (cases x) (simp_all add: setfd_retry.simps [of fd flags s] fcntl_setfd_def syscall_def
          interrupted_def set_fd_def only_signals_def)
  qed
qed

text \<open>
  C39: A signal never leaves stdio redirected: when the only failures injected are
  interruptions, restore_target repeats the interrupted call until the saved file and its
  flags are back on the target.
\<close>

theorem restore_survives_signals:
  assumes "only_signals s" "os_fds s saved = Some (f, k)" "saved \<noteq> target"
  shows "fst (restore_or_abort target saved flags s) = Ok () \<and>
    os_fds (snd (restore_or_abort target saved flags s)) = (os_fds s)(target \<mapsto> (f, flags))"
proof -
  obtain t where t: "dup2_retry saved target s = (Ok (), t)"
      "os_fds t = (os_fds s)(target \<mapsto> (f, False))" "only_signals t"
    using dup2_retry_signals [OF assms] by (cases "dup2_retry saved target s") auto
  obtain u where u: "setfd_retry target flags t = (Ok (), u)" "os_fds u = (os_fds t)(target \<mapsto> (f, flags))"
    using setfd_retry_signals [OF t(3), of target f False flags] t(2)
    by (cases "setfd_retry target flags t") auto
  show ?thesis
    by (simp add: restore_or_abort_def restore_target_def on_fail_def bind_act_def t u)
qed

theorem restore_survives_signals_witness:
  "os_fds (snd (restore_or_abort 2 1 False (sample_os [Some (IoError EkInterrupted ''signal'')]))) 2
     = Some (HostFile 1, False)"
  using restore_survives_signals [of "sample_os [Some (IoError EkInterrupted ''signal'')]" 1 "HostFile 1"
      False 2 False]
  by (simp add: sample_os_def only_signals_def)

end
