(* ===== verification/Ld_Entry.thy ===== *)
theory Ld_Entry
  imports Ld_Options Ld_Manifest Ld_Token "HOL-Library.Sublist"
begin

text \<open>
  The entry of a run (src/src/lib.rs): in-memory sources and paths, the resolution base, the
  main module with the \<open>main\<close> field of a package.json, the directories where the configuration is
  looked for, and the classification of errors as permission errors.
\<close>

section \<open>Paths of an entry\<close>

text \<open>
  \<open>Path::components\<close> on Unix: repeated separators and inner \<open>.\<close> segments vanish. Two paths are
  equal when their components are; \<open>render_path\<close> gives a string with these components.
\<close>

definition component_of :: "string \<Rightarrow> path_component" where
  "component_of segment = (if segment = ''..'' then ParentDir else PcNormal segment)"

definition path_components :: "string \<Rightarrow> path" where
  "path_components p =
     (if is_absolute p then [RootDir]
      else if p = ''.'' \<or> take 2 p = ''./'' then [CurDir] else [])
     @ map component_of (filter (\<lambda>s. s \<noteq> '''' \<and> s \<noteq> ''.'') (split_on CHR ''/'' p))"

fun render_component :: "path_component \<Rightarrow> string" where
  "render_component RootDir = ''''"
| "render_component CurDir = ''.''"
| "render_component ParentDir = ''..''"
| "render_component (PcNormal name) = name"

fun render_path :: "path \<Rightarrow> string" where
  "render_path [] = ''''"
| "render_path [c] = (if c = RootDir then ''/'' else render_component c)"
| "render_path (c # cs) = render_component c @ ''/'' @ render_path cs"

definition parent_string :: "string \<Rightarrow> string option" where
  "parent_string p = map_option render_path (path_parent (path_components p))"

definition strip_prefix :: "path \<Rightarrow> path \<Rightarrow> path option" where
  "strip_prefix p dir = (if take (length dir) p = dir then Some (drop (length dir) p) else None)"

section \<open>The entry\<close>

datatype source_lang = JavaScript | TypeScript

fun ext :: "source_lang \<Rightarrow> string" where
  "ext JavaScript = ''js''"
| "ext TypeScript = ''ts''"

datatype entry_source =
    EntryPath string
  | EntryMemory (em_code: bytes) (em_ext: string) (em_base_dir: string) (em_cwd: string)

text \<open>
  What the file system, serde_json and the URL type of deno_core answer; \<open>'u\<close> is \<open>ModuleSpecifier\<close>.
\<close>

record 'u entry_env =
  en_host :: host_env
  en_exists :: "string \<Rightarrow> bool"
  en_read_to_string :: "string \<Rightarrow> string io_result"
  en_parse_json :: "string \<Rightarrow> string + json"
  en_from_file_path :: "string \<Rightarrow> 'u option"
  en_to_file_path :: "'u \<Rightarrow> string option"

definition from_path :: "string \<Rightarrow> entry_source" where
  "from_path p = EntryPath p"

definition entry_cwd :: "'u entry_env \<Rightarrow> entry_source \<Rightarrow> libdeno_options \<Rightarrow> string libdeno_result" where
  "entry_cwd en entry options =
     (case entry of
        EntryMemory _ _ _ cwd \<Rightarrow> Inr cwd
      | EntryPath _ \<Rightarrow> effective_cwd (en_host en) options)"

definition entry_source_memory ::
  "'u entry_env \<Rightarrow> bytes \<Rightarrow> source_lang \<Rightarrow> string \<Rightarrow> string \<Rightarrow> entry_source libdeno_result" where
  "entry_source_memory en code lang base_dir cwd =
     (let base = (if is_absolute base_dir then base_dir else path_join cwd base_dir)
      in case he_canonicalize (en_host en) base of
           Inl e \<Rightarrow> Inl (ErrConfiguration (''in-memory base_dir does not exist or cannot be resolved: ''
             @ base @ '': '' @ io_message e))
         | Inr found \<Rightarrow>
             if \<not> he_is_dir (en_host en) found
             then Inl (ErrConfiguration (''in-memory base_dir is not a directory: '' @ found))
             else Inr (EntryMemory code (ext lang) found cwd))"

section \<open>The main module\<close>

text \<open>The scan of the components of \<open>main\<close> for one that leaves the package directory.\<close>

fun escapes :: "nat \<Rightarrow> path \<Rightarrow> bool" where
  "escapes depth [] = False"
| "escapes depth (PcNormal _ # cs) = escapes (Suc depth) cs"
| "escapes depth (CurDir # cs) = escapes depth cs"
| "escapes depth (ParentDir # cs) = (if depth = 0 then True else escapes (depth - 1) cs)"
| "escapes depth (RootDir # cs) = True"

definition main_escapes :: "string \<Rightarrow> string \<Rightarrow> bool" where
  "main_escapes main_path dir =
     (case strip_prefix (path_components main_path) (path_components dir) of
        None \<Rightarrow> True
      | Some rest \<Rightarrow> escapes 0 rest)"

definition main_field :: "json \<Rightarrow> string" where
  "main_field json =
     (case json of
        JObject entries \<Rightarrow> (case map_of entries ''main'' of Some (JString m) \<Rightarrow> m | _ \<Rightarrow> ''index.js'')
      | _ \<Rightarrow> ''index.js'')"

definition package_main :: "'u entry_env \<Rightarrow> string \<Rightarrow> string + string" where
  "package_main en pkg_path =
     bind_res (map_err io_message (en_read_to_string en pkg_path)) (\<lambda>text.
     bind_res (en_parse_json en text) (\<lambda>json.
     let main = main_field json;
         dir = (case parent_string pkg_path of Some d \<Rightarrow> d | None \<Rightarrow> ''.'');
         main_path = path_join dir main
     in if main_escapes main_path dir
        then Inl (''package.json `main` field '' @ main @ '' escapes the package directory'')
        else Inr main_path))"

definition resolve_entry :: "'u entry_env \<Rightarrow> string \<Rightarrow> string \<Rightarrow> string + 'u" where
  "resolve_entry en p cwd =
     (let path = (if is_absolute p then p else path_join cwd p);
          pkg = path_join path ''package.json''
      in bind_res
           (if he_is_dir (en_host en) path
            then if en_exists en pkg then package_main en pkg else Inr (path_join path ''index.js'')
            else if file_name (path_components path) = Some ''package.json'' then package_main en path
            else Inr path) (\<lambda>file_path.
         case en_from_file_path en file_path of
           Some url \<Rightarrow> Inr url
         | None \<Rightarrow> Inl (''Invalid entry file path: '' @ file_path)))"

definition virtual_path :: "string \<Rightarrow> string \<Rightarrow> string \<Rightarrow> string" where
  "virtual_path base_dir tail extension =
     path_join base_dir (''$deno$__libdeno_virtual_'' @ tail @ ''.'' @ extension)"

text \<open>
  \<open>resolve_main_module\<close> on the map of the run's in-memory files; \<open>fill\<close> is what the operating
  system's randomness answers for the eight bytes of the suffix.
\<close>

definition resolve_main_module ::
  "'u entry_env \<Rightarrow> string + bytes \<Rightarrow> entry_source \<Rightarrow> string \<Rightarrow> ('u \<rightharpoonup> bytes)
   \<Rightarrow> 'u libdeno_result \<times> ('u \<rightharpoonup> bytes)" where
  "resolve_main_module en fill entry cwd memory_files =
     (case entry of
        EntryPath p \<Rightarrow> (map_err ErrEntry (resolve_entry en p cwd), memory_files)
      | EntryMemory code extension base_dir _ \<Rightarrow>
          (case random_hex fill of
             Inl e \<Rightarrow> (Inl (ErrRuntime (''failed to generate a virtual in-memory entry name: '' @ e)),
                       memory_files)
           | Inr tail \<Rightarrow>
               (case en_from_file_path en (virtual_path base_dir tail extension) of
                  None \<Rightarrow> (Inl (ErrEntry (''Invalid in-memory entry path: ''
                             @ virtual_path base_dir tail extension)), memory_files)
                | Some url \<Rightarrow> (Inr url, memory_files(url \<mapsto> code)))))"

definition config_start_paths ::
  "'u entry_env \<Rightarrow> entry_source \<Rightarrow> string \<Rightarrow> string list libdeno_result" where
  "config_start_paths en entry cwd =
     (case entry of
        EntryMemory _ _ base_dir _ \<Rightarrow> Inr [base_dir]
      | EntryPath p \<Rightarrow>
          bind_res (map_err ErrEntry (resolve_entry en p cwd)) (\<lambda>main_module.
            Inr (case Option.bind (en_to_file_path en main_module) parent_string of
                   Some dir \<Rightarrow> [dir]
                 | None \<Rightarrow> [cwd])))"

section \<open>Permission errors\<close>

text \<open>
  A Rust error by its dynamic type, with what \<open>error_chain_has_permission_source\<close> can look at:
  the errors it wraps and its standard source (the last argument where there is one).
  \<open>PermissionCheckError\<close> and \<open>ChildPermissionError\<close> carry whether they are the denial and the
  escalation; \<open>ReOther\<close> is every other type.
\<close>

datatype rust_error =
    RePermissionDenied
  | RePermissionCheck bool "rust_error option"
  | ReChildPermission bool "rust_error option"
  | ReCoreError rust_error
  | ReCoreJsBox rust_error
  | ReCoreExtensionTranspiler "rust_error option"
  | ReBoxCoreError rust_error
  | ReBoxCoreErrorKind rust_error
  | ReJsErrorBox "rust_error option" "rust_error option"
  | ReOther "rust_error option"

fun error_chain_has_permission_source :: "rust_error \<Rightarrow> bool" where
  "error_chain_has_permission_source RePermissionDenied = True"
| "error_chain_has_permission_source (RePermissionCheck denied source) =
     (denied \<or> (case source of None \<Rightarrow> False | Some e \<Rightarrow> error_chain_has_permission_source e))"
| "error_chain_has_permission_source (ReChildPermission escalation source) =
     (escalation \<or> (case source of None \<Rightarrow> False | Some e \<Rightarrow> error_chain_has_permission_source e))"
| "error_chain_has_permission_source (ReCoreError kind) = error_chain_has_permission_source kind"
| "error_chain_has_permission_source (ReCoreJsBox box) = error_chain_has_permission_source box"
| "error_chain_has_permission_source (ReCoreExtensionTranspiler inner) =
     (case inner of None \<Rightarrow> False | Some e \<Rightarrow> error_chain_has_permission_source e)"
| "error_chain_has_permission_source (ReBoxCoreError e) = error_chain_has_permission_source e"
| "error_chain_has_permission_source (ReBoxCoreErrorKind e) = error_chain_has_permission_source e"
| "error_chain_has_permission_source (ReJsErrorBox inner source) =
     ((case inner of None \<Rightarrow> False | Some e \<Rightarrow> error_chain_has_permission_source e) \<or>
      (case source of None \<Rightarrow> False | Some e \<Rightarrow> error_chain_has_permission_source e))"
| "error_chain_has_permission_source (ReOther source) =
     (case source of None \<Rightarrow> False | Some e \<Rightarrow> error_chain_has_permission_source e)"

text \<open>
  The payload of a \<open>LibdenoError\<close> as the classification sees it: an anyhow error is its
  \<open>chain()\<close>.
\<close>

datatype error_payload = EpRuntime "rust_error list" | EpCore rust_error | EpOther libdeno_error

fun is_permission_error :: "error_payload \<Rightarrow> bool" where
  "is_permission_error (EpRuntime chain) = list_ex error_chain_has_permission_source chain"
| "is_permission_error (EpCore e) = error_chain_has_permission_source e"
| "is_permission_error (EpOther _) = False"

text \<open>
  \<open>check_entry_read_permission\<close>: \<open>check_open\<close> of the permissions container is a parameter, an
  entry without a file path is left to the loader.
\<close>

definition check_entry_read_permission ::
  "'u entry_env \<Rightarrow> (string \<Rightarrow> string + unit) \<Rightarrow> 'u \<Rightarrow> unit libdeno_result" where
  "check_entry_read_permission en check_open main_module =
     (case en_to_file_path en main_module of
        None \<Rightarrow> Inr ()
      | Some p \<Rightarrow> map_err ErrCore (check_open p))"

text \<open>\<open>join_worker\<close>: the spawn, then the join, whose \<open>None\<close> is a panic of the thread.\<close>

definition join_worker :: "'a option io_result \<Rightarrow> 'a libdeno_result" where
  "join_worker spawned =
     bind_res (map_err ErrIo spawned) (\<lambda>joined.
       case joined of
         None \<Rightarrow> Inl (ErrRuntime ''libdeno worker thread panicked'')
       | Some x \<Rightarrow> Inr x)"

section \<open>The scan of the main field\<close>

text \<open>
  Where a walk along the components of \<open>main\<close> goes, without looking at the file system: the stack
  of the directories entered.
\<close>

fun walk :: "path \<Rightarrow> path \<Rightarrow> path" where
  "walk here [] = here"
| "walk here (PcNormal name # cs) = walk (here @ [PcNormal name]) cs"
| "walk here (CurDir # cs) = walk here cs"
| "walk here (ParentDir # cs) = walk (butlast here) cs"
| "walk here (RootDir # cs) = walk [RootDir] cs"

text \<open>The walk stays inside a directory when every point it passes is below it.\<close>

definition stays_inside :: "path \<Rightarrow> path \<Rightarrow> bool" where
  "stays_inside dir cs \<longleftrightarrow> (\<forall>k \<le> length cs. prefix dir (walk dir (take k cs)))"

lemma walk_append: "walk here (a @ b) = walk (walk here a) b"
  by (induction here a rule: walk.induct) auto

lemma escapes_walk:
  assumes "\<not> escapes (length extra) cs"
  shows "prefix dir (walk (dir @ extra) (take k cs))"
  using assms
proof (induction cs arbitrary: extra k)
  case (Cons c cs)
  show ?case
  proof (cases k)
    case (Suc n)
    show ?thesis
    proof (cases c)
      case ParentDir
      then have "extra \<noteq> []" "\<not> escapes (length (butlast extra)) cs" using Cons.prems by (auto split: if_splits)
      then show ?thesis using Cons.IH [of "butlast extra" n] Suc ParentDir by (simp add: butlast_append)
    next
      case (PcNormal name)
      then show ?thesis using Cons.IH [of "extra @ [c]" n] Cons.prems Suc by simp
    qed (use Cons.IH [of extra n] Cons.prems Suc in auto)
  qed simp
qed simp

lemma escapes_leaves:
  assumes "escapes (length extra) cs" "RootDir \<notin> set cs" "dir \<noteq> []"
  shows "\<exists>k \<le> length cs. \<not> prefix dir (walk (dir @ extra) (take k cs))"
  using assms(1,2)
proof (induction cs arbitrary: extra)
  case (Cons c cs)
  have step: ?case if "\<exists>k \<le> length cs. \<not> prefix dir (walk (walk (dir @ extra) [c]) (take k cs))"
  proof -
    from that obtain k where "k \<le> length cs" "\<not> prefix dir (walk (walk (dir @ extra) [c]) (take k cs))" by blast
    moreover have "walk (dir @ extra) (take (Suc k) (c # cs)) = walk (walk (dir @ extra) [c]) (take k cs)"
      using walk_append [of "dir @ extra" "[c]" "take k cs"] by simp
    ultimately show ?thesis by (intro exI [of _ "Suc k"]) simp
  qed
  show ?case
  proof (cases c)
    case ParentDir
    show ?thesis
    proof (cases "extra = []")
      case True
      have "\<not> prefix dir (butlast dir)"
        using assms(3) prefix_length_le [of dir "butlast dir"] by (cases dir) auto
      with True ParentDir show ?thesis by (intro exI [of _ 1]) simp
    next
      case False
      then have "escapes (length (butlast extra)) cs" using Cons.prems ParentDir by auto
      then show ?thesis using Cons.IH [of "butlast extra"] Cons.prems False ParentDir
        by (intro step) (simp add: butlast_append)
    qed
  next
    case (PcNormal name)
    then show ?thesis using Cons.IH [of "extra @ [c]"] Cons.prems by (intro step) simp
  next
    case CurDir
    then show ?thesis using Cons.IH [of extra] Cons.prems by (intro step) simp
  qed (use Cons.prems in simp)
qed simp

lemma escapes_iff:
  assumes "RootDir \<notin> set cs" "dir \<noteq> []"
  shows "escapes 0 cs \<longleftrightarrow> \<not> stays_inside dir cs"
  using escapes_walk [of "[]" cs dir] escapes_leaves [of "[]" cs dir] assms
  by (auto simp: stays_inside_def)

section \<open>Components and strings\<close>

lemma split_on_neq_Nil [simp]: "split_on c a \<noteq> []"
  by (induction a) (auto split: list.splits)

lemma split_on_append: "split_on c (a @ c # b) = split_on c a @ split_on c b"
  by (induction a) (auto split: list.splits)

lemma split_on_single: "c \<notin> set a \<Longrightarrow> split_on c a = [a]"
  by (induction a) auto

definition segments :: "string \<Rightarrow> path" where
  "segments p = map component_of (filter (\<lambda>s. s \<noteq> '''' \<and> s \<noteq> ''.'') (split_on CHR ''/'' p))"

definition path_head :: "string \<Rightarrow> path" where
  "path_head p = (if is_absolute p then [RootDir]
      else if p = ''.'' \<or> take 2 p = ''./'' then [CurDir] else [])"

lemma path_components_eq: "path_components p = path_head p @ segments p"
  by (simp add: path_components_def path_head_def segments_def)

lemma segments_append: "segments (a @ CHR ''/'' # b) = segments a @ segments b"
  by (simp add: segments_def split_on_append)

lemma segments_Nil [simp]: "segments [] = []"
  by (simp add: segments_def)

lemma RootDir_segments [simp]: "RootDir \<notin> set (segments p)" "CurDir \<notin> set (segments p)"
  by (auto simp: segments_def component_of_def)

lemma RootDir_only_first: "RootDir \<notin> set (tl (path_components p))"
  using RootDir_segments(1) [of p]
  by (cases "segments p") (auto simp: path_components_eq path_head_def simp del: RootDir_segments)

lemma path_head_append:
  "a \<noteq> [] \<Longrightarrow> path_head (a @ CHR ''/'' # b) = path_head a"
proof (cases a)
  case (Cons x xs)
  then show ?thesis by (cases xs) (auto simp: path_head_def is_absolute_def)
qed simp

lemma path_components_join:
  assumes "dir \<noteq> []" "\<not> is_absolute p"
  shows "path_components (path_join dir p) = path_components dir @ segments p"
proof (cases "last dir = CHR ''/''")
  case True
  then obtain d where d: "dir = d @ [CHR ''/'']" using assms(1) by (metis append_butlast_last_id)
  have "path_head (d @ CHR ''/'' # p) = path_head (d @ [CHR ''/''])"
    by (cases "d = []") (simp_all add: path_head_append, simp add: path_head_def is_absolute_def)
  with assms d show ?thesis
    using segments_append [of d "[]"] segments_append [of d p]
    by (simp add: path_join_def path_components_eq)
next
  case False
  with assms show ?thesis
    using segments_append [of dir p] by (simp add: path_join_def path_components_eq path_head_append)
qed

text \<open>A normal name is a segment that a path can have.\<close>

definition name_ok :: "string \<Rightarrow> bool" where
  "name_ok s \<longleftrightarrow> s \<noteq> '''' \<and> s \<noteq> ''.'' \<and> s \<noteq> ''..'' \<and> CHR ''/'' \<notin> set s"

fun body_ok :: "path_component \<Rightarrow> bool" where
  "body_ok (PcNormal s) = name_ok s"
| "body_ok ParentDir = True"
| "body_ok _ = False"

definition path_ok :: "path \<Rightarrow> bool" where
  "path_ok cs \<longleftrightarrow> (case cs of [] \<Rightarrow> True | c # rest \<Rightarrow>
     (c = RootDir \<or> c = CurDir \<or> body_ok c) \<and> list_all body_ok rest)"

lemma body_ok_segments: "list_all body_ok (segments p)"
  using split_on_no_sep [of _ "CHR ''/''" p]
  by (auto simp: segments_def component_of_def name_ok_def list_all_iff)

lemma path_ok_components: "path_ok (path_components p)"
  using body_ok_segments [of p]
  by (auto simp: path_components_eq path_head_def path_ok_def split: list.splits)

lemma path_ok_butlast: "path_ok cs \<Longrightarrow> path_ok (butlast cs)"
  by (cases cs) (auto simp: path_ok_def list_all_iff dest: in_set_butlastD split: list.splits)

lemma segments_component: "body_ok c \<Longrightarrow> segments (render_component c) = [c]"
  by (cases c) (auto simp: segments_def split_on_single name_ok_def component_of_def)

lemma segments_render: "list_all body_ok cs \<Longrightarrow> segments (render_path cs) = cs"
proof (induction cs rule: render_path.induct)
  case (3 c d cs)
  then show ?case using segments_append [of "render_component c" "render_path (d # cs)"] segments_component
    by simp
qed (auto simp: segments_component)

lemma head_render: "body_ok c \<Longrightarrow> path_head (render_path (c # cs)) = []"
proof -
  assume c: "body_ok c"
  define s where "s = render_component c"
  have s: "s \<noteq> []" "s \<noteq> ''.''" "CHR ''/'' \<notin> set s" using c by (cases c; auto simp: s_def name_ok_def)+
  have "path_head s = []" "path_head (s @ CHR ''/'' # t) = path_head s" for t
    using s by (cases s; cases "tl s"; auto simp: path_head_def is_absolute_def)+
  then show ?thesis using c by (cases cs) (auto simp: s_def)
qed

lemma components_render:
  assumes "path_ok cs"
  shows "path_components (render_path cs) = cs"
proof (cases cs)
  case Nil
  then show ?thesis by (simp add: path_components_eq path_head_def is_absolute_def)
next
  case (Cons c rest)
  with assms have rest: "list_all body_ok rest" and c: "c = RootDir \<or> c = CurDir \<or> body_ok c"
    by (simp_all add: path_ok_def)
  show ?thesis
  proof (cases "body_ok c")
    case True
    with rest Cons show ?thesis
      using segments_render [of cs] head_render [of c rest] by (simp add: path_components_eq)
  next
    case False
    have "segments (render_component c @ CHR ''/'' # render_path rest) = rest" if "rest \<noteq> []"
      using False c segments_append [of "render_component c" "render_path rest"] segments_render [OF rest]
      by (auto simp: segments_def)
    moreover have "path_head (render_component c @ CHR ''/'' # render_path rest) = [c]"
      using False c by (auto simp: path_head_def is_absolute_def)
    moreover have "render_path cs = (if rest = [] then if c = RootDir then ''/'' else render_component c
        else render_component c @ CHR ''/'' # render_path rest)"
      using Cons by (cases rest) auto
    ultimately show ?thesis using False c Cons
      by (auto simp: path_components_eq path_head_def is_absolute_def segments_def split: if_splits)
  qed
qed

lemma parent_components:
  "parent_string p = Some d \<Longrightarrow> path_components d = butlast (path_components p)"
  using components_render [OF path_ok_butlast [OF path_ok_components]]
  by (auto simp: parent_string_def path_parent_def split: if_splits)

section \<open>The main module stays in its package\<close>

definition package_dir :: "string \<Rightarrow> string" where
  "package_dir pkg_path = (case parent_string pkg_path of Some d \<Rightarrow> d | None \<Rightarrow> ''.'')"

lemma package_dir_components:
  assumes "is_absolute pkg_path"
  shows "path_components (package_dir pkg_path) \<noteq> []"
proof (cases "parent_string pkg_path")
  case None
  then show ?thesis by (simp add: package_dir_def path_components_eq path_head_def is_absolute_def)
next
  case (Some d)
  have "path_components pkg_path = RootDir # segments pkg_path"
    using assms by (simp add: path_components_eq path_head_def)
  with Some have "segments pkg_path \<noteq> []"
    by (auto simp: parent_string_def path_parent_def)
  with parent_components [OF Some] \<open>path_components pkg_path = _\<close> Some
  show ?thesis by (simp add: package_dir_def)
qed

lemma main_escapes_iff:
  assumes "path_components dir \<noteq> []"
  shows "main_escapes p dir \<longleftrightarrow>
    \<not> (\<exists>rest. path_components p = path_components dir @ rest \<and> stays_inside (path_components dir) rest)"
proof (cases "\<exists>rest. path_components p = path_components dir @ rest")
  case True
  then obtain rest where rest: "path_components p = path_components dir @ rest" by blast
  have "RootDir \<notin> set rest"
    using RootDir_only_first [of p] rest assms by (cases "path_components dir") auto
  with rest show ?thesis
    using escapes_iff [of rest "path_components dir"] assms by (simp add: main_escapes_def strip_prefix_def)
next
  case False
  then have "take (length (path_components dir)) (path_components p) \<noteq> path_components dir"
    by (metis append_take_drop_id)
  with False show ?thesis by (auto simp: main_escapes_def strip_prefix_def)
qed

text \<open>
  A package.json is followed exactly when its main stays in the package: the entry is the
  package directory joined with main (or index.js), and it is accepted if and only if that
  path begins with the package directory and no point of a walk along the rest of it is
  outside.
\<close>

theorem package_main_stays_inside:
  assumes "is_absolute pkg_path" "en_read_to_string en pkg_path = Inr text" "en_parse_json en text = Inr json"
  shows "package_main en pkg_path = Inr main_path \<longleftrightarrow>
    main_path = path_join (package_dir pkg_path) (main_field json) \<and>
    (\<exists>rest. path_components main_path = path_components (package_dir pkg_path) @ rest \<and>
       stays_inside (path_components (package_dir pkg_path)) rest)"
proof -
  let ?dir = "package_dir pkg_path" and ?main = "path_join (package_dir pkg_path) (main_field json)"
  have "package_main en pkg_path = (if main_escapes ?main ?dir
      then Inl (''package.json `main` field '' @ main_field json @ '' escapes the package directory'')
      else Inr ?main)"
    using assms(2,3) by (simp add: package_main_def package_dir_def Let_def)
  then show ?thesis
    using main_escapes_iff [OF package_dir_components [OF assms(1)], of ?main] by auto
qed

text \<open>A file system with one package, and the URL of a path as the path itself.\<close>

definition sample_entry_env :: "string \<Rightarrow> string entry_env" where
  "sample_entry_env main =
     \<lparr>en_host = \<lparr>he_current_dir = Inr ''/work'', he_current_exe = Inr ''/bin/host'', he_var = (\<lambda>_. None),
        he_canonicalize = (\<lambda>p. if is_absolute p then Inr p else Inl (IoError EkOther ''relative'')), he_is_dir = (\<lambda>p. p = ''/work'' \<or> p = ''/work/app'')\<rparr>,
      en_exists = (\<lambda>p. p = ''/work/app/package.json''),
      en_read_to_string = (\<lambda>p. Inr main),
      en_parse_json = (\<lambda>text. Inr (JObject [(''main'', JString text)])),
      en_from_file_path = (\<lambda>p. if is_absolute p then Some p else None),
      en_to_file_path = Some\<rparr>"

lemma sample_package_main:
  "package_main (sample_entry_env ''lib/../start.js'') ''/work/app/package.json'' = Inr ''/work/app/lib/../start.js''"
  by code_simp

theorem package_main_stays_inside_witness:
  "\<exists>rest. path_components ''/work/app/lib/../start.js'' = [RootDir, PcNormal ''work'', PcNormal ''app''] @ rest \<and>
     stays_inside [RootDir, PcNormal ''work'', PcNormal ''app''] rest"
proof -
  have dir: "path_components (package_dir ''/work/app/package.json'') = [RootDir, PcNormal ''work'', PcNormal ''app'']"
    by code_simp
  have env: "is_absolute ''/work/app/package.json''"
    "en_read_to_string (sample_entry_env ''lib/../start.js'') ''/work/app/package.json'' = Inr ''lib/../start.js''"
    "en_parse_json (sample_entry_env ''lib/../start.js'') ''lib/../start.js''
       = Inr (JObject [(''main'', JString ''lib/../start.js'')])"
    by (simp_all add: sample_entry_env_def is_absolute_def)
  show ?thesis
    using package_main_stays_inside [OF env, THEN iffD1, OF sample_package_main] unfolding dir by (rule conjunct2)
qed

section \<open>In-memory entries\<close>

lemma hex_encode_inject: "hex_encode a = hex_encode b \<Longrightarrow> a = b"
  by (metis decode_pairs_hex sum.inject(2))

lemma hex_chars: "CHR ''/'' \<notin> set (hex_encode bs)"
proof -
  have "\<forall>n \<in> set [0..<16]. hex_char n \<noteq> CHR ''/''" by code_simp
  then have "hex_char n \<noteq> CHR ''/''" if "n < 16" for n using that by simp
  moreover have "unat b div 16 < 16 \<and> unat b mod 16 < 16" for b :: byte
  proof -
    have "unat b < 2 ^ LENGTH(8)" by (rule unsigned_less)
    then show ?thesis by (simp add: less_mult_imp_div_less)
  qed
  ultimately have "CHR ''/'' \<noteq> hex_char (unat b div 16)" "CHR ''/'' \<noteq> hex_char (unat b mod 16)" for b :: byte
    by metis+
  then show ?thesis by (simp add: hex_encode_def format_02x_def)
qed

text \<open>The name of a virtual file is one normal component below its base directory.\<close>

definition virtual_name :: "string \<Rightarrow> source_lang \<Rightarrow> string" where
  "virtual_name tail lang = ''$deno$__libdeno_virtual_'' @ tail @ ''.'' @ ext lang"

lemma ext_cases: "ext lang = ''js'' \<or> ext lang = ''ts''"
  by (cases lang) simp_all

lemma virtual_path_components:
  assumes "is_absolute dir"
  shows "path_components (virtual_path dir (hex_encode bs) (ext lang))
    = path_components dir @ [PcNormal (virtual_name (hex_encode bs) lang)]"
proof -
  have "dir \<noteq> []" using assms by (auto simp: is_absolute_def)
  moreover have "CHR ''/'' \<notin> set (virtual_name (hex_encode bs) lang)"
    using hex_chars ext_cases [of lang] by (auto simp: virtual_name_def)
  then have "segments (virtual_name (hex_encode bs) lang) = [PcNormal (virtual_name (hex_encode bs) lang)]"
    by (simp add: segments_def split_on_single component_of_def, simp add: virtual_name_def)
  moreover have "\<not> is_absolute (virtual_name (hex_encode bs) lang)"
    by (simp add: virtual_name_def is_absolute_def)
  moreover have "virtual_path dir (hex_encode bs) (ext lang) = path_join dir (virtual_name (hex_encode bs) lang)"
    by (simp add: virtual_path_def virtual_name_def)
  ultimately show ?thesis using path_components_join by simp
qed

lemma virtual_path_inject:
  assumes "is_absolute dir" "is_absolute dir'"
    and "virtual_path dir (hex_encode bs) (ext lang) = virtual_path dir' (hex_encode bs') (ext lang')"
  shows "bs = bs'"
proof -
  have "virtual_name (hex_encode bs) lang = virtual_name (hex_encode bs') lang'"
    using virtual_path_components [OF assms(1), of bs lang] virtual_path_components [OF assms(2), of bs' lang']
      assms(3) by simp
  then have "hex_encode bs @ ''.'' @ ext lang = hex_encode bs' @ ''.'' @ ext lang'"
    by (simp add: virtual_name_def)
  moreover have "length (ext lang) = length (ext lang')" using ext_cases by (metis length_Cons list.size(3))
  ultimately show ?thesis by (intro hex_encode_inject) simp
qed

text \<open>
  An in-memory entry becomes a module of its own: when its main module resolves, the source is
  registered under exactly that URL and nothing else of the map changes; the URL is that of a
  path with one more component than the canonical base directory; and two entries whose random
  bytes differ never get the same URL. When it does not resolve, the map is unchanged.
\<close>

theorem virtual_entry_registered:
  assumes env: "\<And>p u. en_from_file_path en p = Some u \<Longrightarrow> en_to_file_path en u = Some p"
    and canonical: "\<And>p found. he_canonicalize (en_host en) p = Inr found \<Longrightarrow> is_absolute found"
    and entry: "entry_source_memory en code lang base cwd = Inr entry"
  shows "case resolve_main_module en (Inr bs) entry cwd files of
      (Inl e, files') \<Rightarrow> files' = files
    | (Inr url, files') \<Rightarrow> files' = files(url \<mapsto> code) \<and>
        (\<exists>p name. en_to_file_path en url = Some p \<and>
           path_components p = path_components (em_base_dir entry) @ [PcNormal name]) \<and>
        (\<forall>code' lang' base' cwd' entry' bs' url' others.
           entry_source_memory en code' lang' base' cwd' = Inr entry' \<and> bs' \<noteq> bs \<and>
           fst (resolve_main_module en (Inr bs') entry' cwd' others) = Inr url' \<longrightarrow> url' \<noteq> url)"
proof -
  have memory: "\<exists>dir. is_absolute dir \<and> e = EntryMemory c (ext l) dir w"
    if "entry_source_memory en c l b w = Inr e" for c l b w e
    using that canonical by (auto simp: entry_source_memory_def Let_def split: sum.splits if_splits)
  obtain dir where dir: "is_absolute dir" "entry = EntryMemory code (ext lang) dir cwd"
    using memory [OF entry] by blast
  show ?thesis
  proof (cases "en_from_file_path en (virtual_path dir (hex_encode bs) (ext lang))")
    case None
    with dir show ?thesis by (simp add: resolve_main_module_def random_hex_def)
  next
    case (Some url)
    have other: "url' \<noteq> url" if e': "entry_source_memory en code' lang' base' cwd' = Inr entry'"
      and ne: "bs' \<noteq> bs" and r': "fst (resolve_main_module en (Inr bs') entry' cwd' others) = Inr url'"
      for code' lang' base' cwd' entry' bs' url' others
    proof -
      obtain dir' where dir': "is_absolute dir'" "entry' = EntryMemory code' (ext lang') dir' cwd'"
        using memory [OF e'] by blast
      then have from': "en_from_file_path en (virtual_path dir' (hex_encode bs') (ext lang')) = Some url'"
        using r' by (simp add: resolve_main_module_def random_hex_def split: option.splits)
      then show ?thesis
        using env [OF from'] env [OF Some] virtual_path_inject [OF dir'(1) dir(1), of bs' lang' bs lang] ne by auto
    qed
    show ?thesis
      using dir Some env [OF Some] virtual_path_components [OF dir(1), of bs lang] other
      by (simp add: resolve_main_module_def random_hex_def) blast
  qed
qed

theorem virtual_entry_registered_witness:
  "\<exists>p name. p = virtual_path ''/work/app'' (hex_encode [7]) ''ts'' \<and>
     path_components p = path_components ''/work/app'' @ [PcNormal name] \<and>
     snd (resolve_main_module (sample_entry_env '''') (Inr [7]) (EntryMemory [1] ''ts'' ''/work/app'' ''/work'')
       ''/work'' Map.empty) = [p \<mapsto> [1]]"
proof -
  let ?en = "sample_entry_env ''''" and ?e = "EntryMemory [1] ''ts'' ''/work/app'' ''/work''"
  have e: "entry_source_memory ?en [1] TypeScript ''app'' ''/work'' = Inr ?e"
    by (simp add: entry_source_memory_def sample_entry_env_def is_absolute_def path_join_def)
  have r: "resolve_main_module ?en (Inr [7]) ?e ''/work'' Map.empty
      = (Inr (virtual_path ''/work/app'' (hex_encode [7]) ''ts''),
         [virtual_path ''/work/app'' (hex_encode [7]) ''ts'' \<mapsto> [1]])"
    by (simp add: resolve_main_module_def random_hex_def sample_entry_env_def virtual_path_def
        path_join_def is_absolute_def)
  have "case resolve_main_module ?en (Inr [7]) ?e ''/work'' Map.empty of
      (Inl e, files') \<Rightarrow> files' = Map.empty
    | (Inr url, files') \<Rightarrow> files' = [url \<mapsto> [1]] \<and>
        (\<exists>p name. en_to_file_path ?en url = Some p \<and>
           path_components p = path_components (em_base_dir ?e) @ [PcNormal name]) \<and>
        (\<forall>code' lang' base' cwd' entry' bs' url' others.
           entry_source_memory ?en code' lang' base' cwd' = Inr entry' \<and> bs' \<noteq> [7] \<and>
           fst (resolve_main_module ?en (Inr bs') entry' cwd' others) = Inr url' \<longrightarrow> url' \<noteq> url)"
    by (rule virtual_entry_registered [OF _ _ e])
      (auto simp: sample_entry_env_def split: if_splits)
  then show ?thesis unfolding r by (auto simp: sample_entry_env_def)
qed

section \<open>Where the configuration is looked for\<close>

text \<open>
  The search for the configuration starts beside the main module: for a path entry at the
  directory of the file the entry resolves to, for an in-memory entry at the directory its
  virtual file is in.
\<close>

theorem config_starts_beside_main_module:
  assumes env: "\<And>p u. en_from_file_path en p = Some u \<Longrightarrow> en_to_file_path en u = Some p"
    and start: "config_start_paths en entry cwd = Inr dirs"
    and main: "fst (resolve_main_module en (Inr bs) entry cwd files) = Inr url"
    and path: "en_to_file_path en url = Some p" "path_components p \<noteq> [RootDir]" "path_components p \<noteq> []"
    and entry: "case entry of EntryPath _ \<Rightarrow> True
      | EntryMemory _ x dir _ \<Rightarrow> is_absolute dir \<and> (\<exists>lang. x = ext lang)"
  shows "map path_components dirs = [butlast (path_components p)]"
proof (cases entry)
  case (EntryPath e)
  then have url: "resolve_entry en e cwd = Inr url"
    using main by (cases "resolve_entry en e cwd") (auto simp: resolve_main_module_def)
  have ne: "last (path_components p) \<noteq> RootDir"
    using RootDir_only_first [of p] path(2,3)
    by (cases "path_components p") (auto dest: last_in_set split: if_splits)
  then obtain d where d: "parent_string p = Some d"
    using path(3) by (auto simp: parent_string_def path_parent_def)
  then have "dirs = [d]" using start EntryPath url path(1) by (simp add: config_start_paths_def)
  then show ?thesis using parent_components [OF d] by simp
next
  case (EntryMemory code x dir w)
  then obtain lang where x: "is_absolute dir" "x = ext lang" using entry by auto
  have "en_from_file_path en (virtual_path dir (hex_encode bs) x) = Some url"
    using main EntryMemory by (simp add: resolve_main_module_def random_hex_def split: option.splits)
  then have "p = virtual_path dir (hex_encode bs) x" using env path(1) by fastforce
  then show ?thesis
    using start EntryMemory virtual_path_components [OF x(1), of bs lang] x
    by (auto simp: config_start_paths_def)
qed

theorem config_starts_beside_main_module_witness:
  "map path_components [''/work/app''] = [butlast (path_components ''/work/app/a.ts'')]"
proof (rule config_starts_beside_main_module)
  let ?en = "sample_entry_env ''''"
  show "\<And>p u. en_from_file_path ?en p = Some u \<Longrightarrow> en_to_file_path ?en u = Some p"
    by (auto simp: sample_entry_env_def split: if_splits)
  show "config_start_paths ?en (EntryPath ''app/a.ts'') ''/work'' = Inr [''/work/app'']" by code_simp
  show "fst (resolve_main_module ?en (Inr []) (EntryPath ''app/a.ts'') ''/work'' Map.empty) = Inr ''/work/app/a.ts''"
    by code_simp
  show "en_to_file_path ?en ''/work/app/a.ts'' = Some ''/work/app/a.ts''" by (simp add: sample_entry_env_def)
  show "path_components ''/work/app/a.ts'' \<noteq> [RootDir]" "path_components ''/work/app/a.ts'' \<noteq> []" by code_simp+
  show "case EntryPath ''app/a.ts'' of EntryPath _ \<Rightarrow> True
      | EntryMemory _ x dir _ \<Rightarrow> is_absolute dir \<and> (\<exists>lang. x = ext lang)" by simp
qed

section \<open>What counts as a permission error\<close>

text \<open>The Rust errors that a Rust error leads to: those it wraps and its standard source.\<close>

inductive leads_to :: "rust_error \<Rightarrow> rust_error \<Rightarrow> bool" where
  check_source: "leads_to (RePermissionCheck denied (Some e)) e"
| child_source: "leads_to (ReChildPermission escalation (Some e)) e"
| core_kind: "leads_to (ReCoreError e) e"
| core_js_box: "leads_to (ReCoreJsBox e) e"
| transpiler_inner: "leads_to (ReCoreExtensionTranspiler (Some e)) e"
| box_core: "leads_to (ReBoxCoreError e) e"
| box_kind: "leads_to (ReBoxCoreErrorKind e) e"
| js_inner: "leads_to (ReJsErrorBox (Some e) source) e"
| js_source: "leads_to (ReJsErrorBox inner (Some e)) e"
| other_source: "leads_to (ReOther (Some e)) e"

inductive_simps leads_to_simps:
  "leads_to RePermissionDenied x"
  "leads_to (RePermissionCheck d s) x"
  "leads_to (ReChildPermission d s) x"
  "leads_to (ReCoreError e) x"
  "leads_to (ReCoreJsBox e) x"
  "leads_to (ReCoreExtensionTranspiler s) x"
  "leads_to (ReBoxCoreError e) x"
  "leads_to (ReBoxCoreErrorKind e) x"
  "leads_to (ReJsErrorBox s t) x"
  "leads_to (ReOther s) x"

definition denies :: "rust_error \<Rightarrow> bool" where
  "denies e \<longleftrightarrow> e = RePermissionDenied \<or> (\<exists>s. e = RePermissionCheck True s) \<or> (\<exists>s. e = ReChildPermission True s)"

lemma chain_iff:
  "error_chain_has_permission_source e \<longleftrightarrow> denies e \<or> (\<exists>x. leads_to e x \<and> error_chain_has_permission_source x)"
  by (cases e) (auto simp: leads_to_simps denies_def split: option.splits)

lemma chain_sound: "error_chain_has_permission_source e \<Longrightarrow> \<exists>x. leads_to\<^sup>*\<^sup>* e x \<and> denies x"
proof (induction e rule: measure_induct_rule [of size])
  case (less e)
  show ?case
  proof (cases "denies e")
    case False
    with less.prems obtain x where x: "leads_to e x" "error_chain_has_permission_source x"
      using chain_iff [of e] by blast
    then have "size x < size e" by (cases rule: leads_to.cases) auto
    with less.IH [of x] x show ?thesis by (meson converse_rtranclp_into_rtranclp)
  qed blast
qed

lemma chain_complete: "leads_to\<^sup>*\<^sup>* e x \<Longrightarrow> denies x \<Longrightarrow> error_chain_has_permission_source e"
  by (induction rule: converse_rtranclp_induct) (use chain_iff in blast)+

text \<open>
  C31: A failure counts as a permission error exactly when the chain of Rust errors behind it
  contains a denial of a permission check or an escalation of a child's permissions; what a
  script throws, and every error that carries none of these types, never does.
\<close>

theorem permission_error_iff_denied:
  "is_permission_error payload \<longleftrightarrow>
     (case payload of
        EpRuntime chain \<Rightarrow> \<exists>e \<in> set chain. \<exists>x. leads_to\<^sup>*\<^sup>* e x \<and> denies x
      | EpCore e \<Rightarrow> \<exists>x. leads_to\<^sup>*\<^sup>* e x \<and> denies x
      | EpOther _ \<Rightarrow> False)"
proof -
  have "error_chain_has_permission_source e \<longleftrightarrow> (\<exists>x. leads_to\<^sup>*\<^sup>* e x \<and> denies x)" for e
    using chain_sound chain_complete by blast
  then show ?thesis by (cases payload) (simp_all add: list_ex_iff)
qed

end
