(* ===== verification/Ld_Guards.thy ===== *)
theory Ld_Guards
  imports Ld_Options Ld_Workers
begin

text \<open>
  The runtime surface of a script: which unstable features are enabled
  (src/src/deno_runtime_adapter.rs), the guards that replace upstream ops
  (src/src/runtime_guards.rs, src/src/runtime_guards/require.rs), and what a worker gets from the
  factory of the runtime that creates it (src/src/worker_factory.rs).
\<close>

section \<open>Features\<close>




definition feature_on :: "string list \<Rightarrow> string \<Rightarrow> bool" where
  "feature_on checker feature \<longleftrightarrow> feature \<in> set checker"

section \<open>Replaced ops\<close>

text \<open>
  An \<open>OpDecl\<close>: the name scripts call it by, and whose implementation runs, the upstream one of an
  op or that of a guard. \<open>replace_op\<close> keeps the name.
\<close>

datatype op_impl = Upstream string | Guard string

record op_decl =
  od_name :: string
  od_impl :: op_impl

definition upstream_op :: "string \<Rightarrow> op_decl" where
  "upstream_op name = \<lparr>od_name = name, od_impl = Upstream name\<rparr>"

definition guard_op :: "string \<Rightarrow> op_decl" where
  "guard_op name = \<lparr>od_name = name, od_impl = Guard name\<rparr>"

definition replace_op :: "op_decl \<Rightarrow> op_decl \<Rightarrow> op_decl" where
  "replace_op original guard = original\<lparr>od_impl := od_impl guard\<rparr>"

definition push_alias :: "op_decl list \<Rightarrow> op_decl \<Rightarrow> string \<Rightarrow> op_decl list" where
  "push_alias ops original name = ops @ [original\<lparr>od_name := name\<rparr>]"

definition replacement_op_decls :: "op_decl list" where
  "replacement_op_decls = map guard_op
     [''op_node_worker_thread_register'', ''op_node_worker_thread_set_listener_count'',
      ''op_node_worker_thread_post_message'', ''op_node_worker_thread_recv_message'']"

definition require_declarations :: "op_decl list" where
  "require_declarations = map guard_op
     [''op_libdeno_install_require_delegates'', ''op_require_stat_guard'',
      ''op_require_real_path_guard'', ''op_require_package_imports_guard'',
      ''op_require_package_scope_guard'']"

definition guard_name :: "string \<Rightarrow> string" where
  "guard_name op =
     (if op = ''op_require_stat'' then ''op_require_stat_guard''
      else if op = ''op_require_real_path'' then ''op_require_real_path_guard''
      else if op = ''op_require_package_imports_resolve'' then ''op_require_package_imports_guard''
      else if op = ''op_require_read_package_scope'' then ''op_require_package_scope_guard''
      else '''')"

definition require_guarded :: "string list" where
  "require_guarded = [''op_require_stat'', ''op_require_real_path'',
     ''op_require_package_imports_resolve'', ''op_require_read_package_scope'']"

text \<open>The target the crate is built for, as far as the middleware tests it.\<close>

record target =
  tg_unix :: bool
  tg_vsock :: bool

definition select_guard :: "target \<Rightarrow> string list \<Rightarrow> string \<Rightarrow> op_decl option" where
  "select_guard tg checker name =
     (if name = ''op_net_listen_tcp'' then Some (guard_op ''op_net_listen_tcp_guard'')
      else if name = ''op_net_listen_tls'' then Some (guard_op ''op_net_listen_tls_guard'')
      else if name = ''op_fs_chdir'' then Some (guard_op ''op_fs_chdir_denied'')
      else if name = ''op_net_listen_udp'' \<and> \<not> feature_on checker ''net''
        then Some (guard_op ''op_net_listen_udp_denied'')
      else if tg_unix tg \<and> name = ''op_net_listen_unixpacket'' \<and> \<not> feature_on checker ''net''
        then Some (guard_op ''op_net_listen_unixpacket_denied'')
      else if tg_vsock tg \<and> name = ''op_net_connect_vsock'' \<and> \<not> feature_on checker ''vsock''
        then Some (guard_op ''op_net_connect_vsock_denied'')
      else if tg_vsock tg \<and> name = ''op_net_listen_vsock'' \<and> \<not> feature_on checker ''vsock''
        then Some (guard_op ''op_net_listen_vsock_denied'')
      else if name = ''op_kv_database_open'' \<and> \<not> feature_on checker ''kv''
        then Some (guard_op ''op_kv_database_open_denied'')
      else if name = ''op_cron_create'' \<and> \<not> feature_on checker ''cron''
        then Some (guard_op ''op_cron_create_denied'')
      else None)"

definition middleware :: "target \<Rightarrow> string list \<Rightarrow> op_decl \<Rightarrow> op_decl" where
  "middleware tg checker op =
     (case List.find (\<lambda>decl. od_name decl = od_name op) replacement_op_decls of
        Some replacement \<Rightarrow> replace_op op replacement
      | None \<Rightarrow>
          (case List.find (\<lambda>decl. od_name op \<in> set require_guarded \<and>
                              od_name decl = guard_name (od_name op)) require_declarations of
             Some guard \<Rightarrow> replace_op op guard
           | None \<Rightarrow>
               (case select_guard tg checker (od_name op) of
                  Some guard \<Rightarrow> replace_op op guard
                | None \<Rightarrow> op)))"

text \<open>The ops the extension adds: the guards' own and the aliases of the originals.\<close>

definition extension_ops :: "op_decl list" where
  "extension_ops =
     push_alias
       (push_alias
          ([guard_op ''op_libdeno_install_net_delegates''] @ require_declarations @
           map (\<lambda>(original, alias). (upstream_op original)\<lparr>od_name := alias\<rparr>)
             [(''op_require_stat'', ''op_libdeno_require_stat_alias''),
              (''op_require_real_path'', ''op_libdeno_require_real_path_alias''),
              (''op_require_read_package_scope'', ''op_libdeno_require_package_scope_alias''),
              (''op_require_package_imports_resolve'', ''op_libdeno_require_package_imports_alias'')])
          (upstream_op ''op_net_listen_tcp'') ''op_libdeno_net_listen_tcp_alias'')
       (upstream_op ''op_net_listen_tls'') ''op_libdeno_net_listen_tls_alias''"

section \<open>Guards that refuse\<close>










section \<open>Guards that pass a checked call on\<close>

text \<open>
  The outcome of a call into V8: a value, or an exception that is thrown again. \<open>'v\<close> is a V8
  value, \<open>'f\<close> a function.
\<close>

datatype 'v js = Returned 'v | Thrown 'v

record 'f net_delegates =
  nd_tcp :: 'f
  nd_tls :: 'f

text \<open>The part of the op state that the guards read.\<close>

record 'f guard_state =
  gs_checker :: "string list option"
  gs_delegates :: "'f net_delegates option"

definition delegate :: "'f guard_state \<Rightarrow> string \<Rightarrow> ('f net_delegates \<Rightarrow> 'f) \<Rightarrow> string + bool \<times> 'f" where
  "delegate st feature select =
     (case gs_checker st of
        None \<Rightarrow> Inl ''runtime feature state is unavailable''
      | Some checker \<Rightarrow>
          (case gs_delegates st of
             None \<Rightarrow> Inl ''runtime guard delegate state is unavailable''
           | Some delegates \<Rightarrow> Inr (feature_on checker feature, select delegates)))"

definition reuse_port_denied :: string where
  "reuse_port_denied = ''reusePort requires the net feature''"

text \<open>\<open>js_bool\<close> and \<open>js_int\<close> convert to V8 values, which can fail for an address (\<open>addr\<close> is the result);
  \<open>call\<close> is the original op.\<close>

definition op_net_listen_tcp_guard ::
  "(bool \<Rightarrow> 'v) \<Rightarrow> (int \<Rightarrow> 'v) \<Rightarrow> ('f \<Rightarrow> 'v list \<Rightarrow> 'v js) \<Rightarrow> 'f guard_state
   \<Rightarrow> string + 'v \<Rightarrow> bool \<Rightarrow> bool \<Rightarrow> int \<Rightarrow> string + 'v js" where
  "op_net_listen_tcp_guard js_bool js_int call st addr reuse_port load_balanced tcp_backlog =
     bind_res (delegate st ''net'' nd_tcp) (\<lambda>(net_enabled, callback).
       if reuse_port \<and> \<not> net_enabled then Inl reuse_port_denied
       else bind_res addr (\<lambda>a.
         Inr (call callback [a, js_bool reuse_port, js_bool load_balanced, js_int tcp_backlog])))"

text \<open>
  \<open>normalize_tls_args\<close>: the properties are read once, in this order, whatever getters do; \<open>'s\<close> is
  the state of the script's heap that a getter can change. The normalised object has no prototype
  and holds the values that were read.
\<close>

definition tls_names :: "string list" where
  "tls_names = [''alpnProtocols'', ''reusePort'', ''loadBalanced'', ''tcpBacklog'']"

fun read_properties ::
  "(string \<Rightarrow> 's \<Rightarrow> 'v js \<times> 's) \<Rightarrow> string list \<Rightarrow> 's \<Rightarrow> ('v + (string \<times> 'v) list) \<times> 's" where
  "read_properties get [] s = (Inr [], s)"
| "read_properties get (name # names) s =
     (case get name s of
        (Thrown e, t) \<Rightarrow> (Inl e, t)
      | (Returned v, t) \<Rightarrow>
          (case read_properties get names t of
             (Inl e, u) \<Rightarrow> (Inl e, u)
           | (Inr rest, u) \<Rightarrow> (Inr ((name, v) # rest), u)))"

definition normalize_tls_args ::
  "('v \<Rightarrow> bool) \<Rightarrow> (string \<Rightarrow> 's \<Rightarrow> 'v js \<times> 's) \<Rightarrow> 's
   \<Rightarrow> ('v + bool \<times> (string \<times> 'v) list) \<times> 's" where
  "normalize_tls_args boolean_value get s =
     (case read_properties get tls_names s of
        (Inl e, t) \<Rightarrow> (Inl e, t)
      | (Inr properties, t) \<Rightarrow> (Inr (boolean_value (snd (properties ! 1)), properties), t))"

definition op_net_listen_tls_guard ::
  "('v \<Rightarrow> bool) \<Rightarrow> ((string \<times> 'v) list \<Rightarrow> 'v) \<Rightarrow> ('f \<Rightarrow> 'v list \<Rightarrow> 's \<Rightarrow> 'v js \<times> 's) \<Rightarrow> 'f guard_state
   \<Rightarrow> string + 'v \<Rightarrow> (string \<Rightarrow> 's \<Rightarrow> 'v js \<times> 's) \<Rightarrow> 'v \<Rightarrow> 's \<Rightarrow> (string + 'v js) \<times> 's" where
  "op_net_listen_tls_guard boolean_value js_object call st addr get keys s =
     (case delegate st ''net'' nd_tls of
        Inl e \<Rightarrow> (Inl e, s)
      | Inr (net_enabled, callback) \<Rightarrow>
          (case normalize_tls_args boolean_value get s of
             (Inl e, t) \<Rightarrow> (Inr (Thrown e), t)
           | (Inr (reuse_port, args), t) \<Rightarrow>
               if reuse_port \<and> \<not> net_enabled then (Inl reuse_port_denied, t)
               else (case addr of
                       Inl e \<Rightarrow> (Inl e, t)
                     | Inr a \<Rightarrow> (case call callback [a, js_object args, keys] t of (r, u) \<Rightarrow> (Inr r, u)))))"

section \<open>Guards of require\<close>

record 'f require_delegates =
  rd_stat :: 'f
  rd_real_path :: 'f
  rd_package_scope :: 'f
  rd_package_imports :: 'f

text \<open>
  What the guards of require read: whether a permission broker is installed, the delegates and the
  permissions of the op state, the file system, and V8's conversions. \<open>check_open\<close> of the
  permissions container returns the path it checked.
\<close>

record ('f, 'v, 'p) require_env =
  rq_broker_installed :: bool
  rq_delegates :: "'f require_delegates option"
  rq_check_open :: "(string \<Rightarrow> string + string) option"
  rq_canonicalize :: "string \<Rightarrow> string option"
  rq_load_package_json :: "string \<Rightarrow> 'p option"
  rq_js_string :: "string \<Rightarrow> 'v option"
  rq_js_package :: "'p option \<Rightarrow> 'v"
  rq_call :: "'f \<Rightarrow> 'v list \<Rightarrow> 'v js"

definition require_delegate ::
  "('f, 'v, 'p) require_env \<Rightarrow> ('f require_delegates \<Rightarrow> 'f) \<Rightarrow> string + 'f" where
  "require_delegate rq select =
     (case rq_delegates rq of
        None \<Rightarrow> Inl ''require op delegates are unavailable''
      | Some delegates \<Rightarrow> Inr (select delegates))"

definition checked_path :: "('f, 'v, 'p) require_env \<Rightarrow> string \<Rightarrow> string + string" where
  "checked_path rq path =
     (let canonical = (case rq_canonicalize rq path of Some c \<Rightarrow> c | None \<Rightarrow> path)
      in case rq_check_open rq of
           None \<Rightarrow> Inl ''permissions are unavailable''
         | Some check_open \<Rightarrow> check_open canonical)"

definition path_string :: "('f, 'v, 'p) require_env \<Rightarrow> string \<Rightarrow> string + 'v" where
  "path_string rq path =
     (if \<not> string_utf8 path then Inl ''require path is not valid UTF-8''
      else case rq_js_string rq path of
             None \<Rightarrow> Inl ''failed to encode require path''
           | Some v \<Rightarrow> Inr v)"

definition string_value :: "('f, 'v, 'p) require_env \<Rightarrow> string \<Rightarrow> string + 'v" where
  "string_value rq s =
     (case rq_js_string rq s of None \<Rightarrow> Inl ''failed to encode require argument'' | Some v \<Rightarrow> Inr v)"

text \<open>The common shape of the guards of \<open>op_require_stat\<close> and \<open>op_require_real_path\<close>.\<close>

definition op_require_path_guard ::
  "('f require_delegates \<Rightarrow> 'f) \<Rightarrow> ('f, 'v, 'p) require_env \<Rightarrow> string \<Rightarrow> string + 'v js" where
  "op_require_path_guard select rq path =
     bind_res (require_delegate rq select) (\<lambda>callback.
       if \<not> rq_broker_installed rq
       then bind_res (string_value rq path) (\<lambda>v. Inr (rq_call rq callback [v]))
       else bind_res (checked_path rq path) (\<lambda>checked.
            bind_res (path_string rq checked) (\<lambda>v. Inr (rq_call rq callback [v]))))"

definition op_require_stat_guard :: "('f, 'v, 'p) require_env \<Rightarrow> string \<Rightarrow> string + 'v js" where
  "op_require_stat_guard = op_require_path_guard rd_stat"

definition op_require_real_path_guard :: "('f, 'v, 'p) require_env \<Rightarrow> string \<Rightarrow> string + 'v js" where
  "op_require_real_path_guard = op_require_path_guard rd_real_path"

definition op_require_package_imports_guard ::
  "('f, 'v, 'p) require_env \<Rightarrow> string \<Rightarrow> string \<Rightarrow> string + 'v js" where
  "op_require_package_imports_guard rq referrer request =
     bind_res (require_delegate rq rd_package_imports) (\<lambda>callback.
       if \<not> rq_broker_installed rq
       then bind_res (string_value rq referrer) (\<lambda>a.
            bind_res (string_value rq request) (\<lambda>b. Inr (rq_call rq callback [a, b])))
       else bind_res (checked_path rq referrer) (\<lambda>checked.
            bind_res (path_string rq checked) (\<lambda>a.
            bind_res (string_value rq request) (\<lambda>b. Inr (rq_call rq callback [a, b])))))"

text \<open>\<open>Path::file_name\<close> on a string: the last segment, unless it is \<open>..\<close>.\<close>

definition last_segment :: "string \<Rightarrow> string option" where
  "last_segment path =
     (case filter (\<lambda>s. s \<noteq> '''' \<and> s \<noteq> ''.'') (split_on CHR ''/'' path) of
        [] \<Rightarrow> None
      | names \<Rightarrow> if last names = ''..'' then None else Some (last names))"

definition op_require_package_scope_guard ::
  "('f, 'v, 'p) require_env \<Rightarrow> string \<Rightarrow> string + 'v js" where
  "op_require_package_scope_guard rq path =
     bind_res (require_delegate rq rd_package_scope) (\<lambda>callback.
       if \<not> rq_broker_installed rq
       then bind_res (string_value rq path) (\<lambda>v. Inr (rq_call rq callback [v]))
       else if last_segment path \<noteq> Some ''package.json'' then Inr (Returned (rq_js_package rq None))
       else bind_res (checked_path rq path) (\<lambda>checked.
            Inr (Returned (rq_js_package rq (rq_load_package_json rq checked)))))"

section \<open>The main worker and the workers it creates\<close>

text \<open>
  \<open>BootstrapOptions\<close>, as far as they are not upstream defaults: the arguments, the identifiers of the
  unstable features, and the Node IPC descriptor.
\<close>

record bootstrap_options =
  bo_args :: "string list"
  bo_unstable_features :: "int list"
  bo_has_node_modules_dir :: bool
  bo_node_ipc :: "nat option"
  bo_worker_mode :: bool
  bo_close_on_idle :: bool

text \<open>
  What the callback that creates workers closes over (\<open>WebWorkerFactoryShared\<close>) and the thread it
  belongs to. \<open>'c\<close> is a permissions container; \<open>fs_run_container\<close> is the one the services of the run
  were built with.
\<close>

record 'c factory_shared =
  fs_target :: target
  fs_feature_checker :: "string list"
  fs_bootstrap_base :: bootstrap_options
  fs_max_heap_bytes :: "64 word option"
  fs_extensions :: bool
  fs_run_container :: 'c

record 'c worker_factory =
  wf_shared :: "'c factory_shared"
  wf_parent :: nat







text \<open>
  One call of the callback (\<open>build_web_worker_factory\<close>): the permissions that \<open>new Worker\<close> captured and
  the identity of the new thread come with the call. The new worker's ops, module loader, graph
  loader and \<open>require\<close> each get a permissions container; its graph starts with no module. \<open>reserve\<close> is
  the lifecycle registry's answer for a worker and its parent: a worker that is not admitted is
  terminated before it runs. The second result is the factory the worker itself is given.
\<close>

record 'c worker_args =
  wa_permissions :: 'c
  wa_worker_id :: nat
  wa_close_on_idle :: bool

record 'c web_worker =
  ww_permissions :: 'c
  ww_module_permissions :: 'c
  ww_graph_permissions :: 'c
  ww_require_permissions :: 'c
  ww_graph :: "string list"
  ww_feature_checker :: "string list"
  ww_bootstrap :: bootstrap_options
  ww_middleware :: "op_decl \<Rightarrow> op_decl"
  ww_extensions :: bool
  ww_heap_limit :: "64 word option"
  ww_heap_guard :: bool
  ww_registration :: "nat option"
  ww_terminated :: bool

definition create_web_worker ::
  "(nat \<Rightarrow> nat \<Rightarrow> nat option) \<Rightarrow> 'c worker_factory \<Rightarrow> 'c worker_args \<Rightarrow> 'c web_worker \<times> 'c worker_factory" where
  "create_web_worker reserve factory args =
     (let shared = wf_shared factory;
          worker_permissions = wa_permissions args;
          worker_id = wa_worker_id args;
          registration = reserve worker_id (wf_parent factory);
          nested_cb = \<lparr>wf_shared = shared, wf_parent = worker_id\<rparr>
      in (\<lparr>ww_permissions = worker_permissions, ww_module_permissions = worker_permissions,
           ww_graph_permissions = worker_permissions, ww_require_permissions = worker_permissions,
           ww_graph = [], ww_feature_checker = fs_feature_checker shared,
           ww_bootstrap = (fs_bootstrap_base shared)\<lparr>bo_worker_mode := True,
             bo_close_on_idle := wa_close_on_idle args\<rparr>,
           ww_middleware = middleware (fs_target shared) (fs_feature_checker shared),
           ww_extensions = fs_extensions shared, ww_heap_limit = fs_max_heap_bytes shared,
           ww_heap_guard = (fs_max_heap_bytes shared \<noteq> None), ww_registration = registration,
           ww_terminated = (registration = None)\<rparr>,
          nested_cb))"

text \<open>The factory of a worker that was created through a chain of workers.\<close>

fun nested_factory ::
  "(nat \<Rightarrow> nat \<Rightarrow> nat option) \<Rightarrow> 'c worker_factory \<Rightarrow> 'c worker_args list \<Rightarrow> 'c worker_factory" where
  "nested_factory reserve factory [] = factory"
| "nested_factory reserve factory (args # chain) =
     nested_factory reserve (snd (create_web_worker reserve factory args)) chain"

section \<open>What the guards guarantee\<close>

definition always_guarded :: "string list" where
  "always_guarded = map od_name replacement_op_decls @ require_guarded
     @ [''op_net_listen_tcp'', ''op_net_listen_tls'', ''op_fs_chdir'']"







lemma read_properties_names:
  "read_properties get names s = (Inr properties, t) \<Longrightarrow> map fst properties = names"
  by (induction get names s arbitrary: properties t rule: read_properties.induct)
    (auto split: prod.splits js.splits sum.splits)

lemma normalize_reads_once:
  assumes "normalize_tls_args boolean_value get s = (Inr (reuse_port, args), t)"
  shows "map fst args = tls_names \<and> (\<exists>v. map_of args ''reusePort'' = Some v \<and> boolean_value v = reuse_port)"
proof -
  have "\<exists>a. read_properties get tls_names s = (Inr a, t) \<and> args = a \<and> reuse_port = boolean_value (snd (a ! 1))"
  proof (cases "read_properties get tls_names s")
    case (Pair r u)
    show ?thesis
    proof (cases r)
      case (Inl e)
      with Pair assms show ?thesis unfolding normalize_tls_args_def by simp
    next
      case (Inr a)
      with Pair assms show ?thesis unfolding normalize_tls_args_def by auto
    qed
  qed
  then obtain a where "read_properties get tls_names s = (Inr a, t) \<and> args = a \<and>
      reuse_port = boolean_value (snd (a ! 1))" ..
  then have a: "read_properties get tls_names s = (Inr args, t)" "reuse_port = boolean_value (snd (args ! 1))"
    by simp_all
  have names: "map fst args = tls_names" by (rule read_properties_names [OF a(1)])
  then have "length (map fst args) = 4" by (simp add: tls_names_def)
  then have "length args = 4" by simp
  then have "args ! 1 \<in> set args" by simp
  moreover have "fst (args ! 1) = ''reusePort''"
    using names \<open>length args = 4\<close> nth_map [of 1 args fst] by (simp add: tls_names_def)
  moreover have "distinct (map fst args)" unfolding names by (simp add: tls_names_def)
  ultimately have "map_of args ''reusePort'' = Some (snd (args ! 1))"
    by (metis map_of_eq_Some_iff prod.collapse)
  with names a show ?thesis by simp
qed

text \<open>
  Without the net feature no listener reuses a port, whatever the script's objects do: the TCP
  guard calls the original op only with reusePort false, and the TLS guard, which reads every
  property of the script's object once, calls it only with a plain object whose reusePort is
  false, so a getter cannot show the check one value and the op another.
\<close>

theorem reuse_port_needs_net:
  assumes "gs_checker st = Some checker" "\<not> feature_on checker ''net''"
  shows "op_net_listen_tcp_guard js_bool js_int tcp st addr reuse_port load_balanced backlog = Inr r \<longrightarrow>
      \<not> reuse_port \<and> (\<exists>d a. gs_delegates st = Some d \<and> addr = Inr a \<and>
        r = tcp (nd_tcp d) [a, js_bool False, js_bool load_balanced, js_int backlog])"
    and "op_net_listen_tls_guard boolean_value js_object tls st addr get keys s = (Inr r, u) \<longrightarrow>
      (\<exists>e. normalize_tls_args boolean_value get s = (Inl e, u) \<and> r = Thrown e) \<or>
      (\<exists>d a args t v. gs_delegates st = Some d \<and> tls (nd_tls d) [a, js_object args, keys] t = (r, u) \<and>
        map fst args = tls_names \<and> map_of args ''reusePort'' = Some v \<and> \<not> boolean_value v)"
proof -
  show "op_net_listen_tcp_guard js_bool js_int tcp st addr reuse_port load_balanced backlog = Inr r \<longrightarrow>
      \<not> reuse_port \<and> (\<exists>d a. gs_delegates st = Some d \<and> addr = Inr a \<and>
        r = tcp (nd_tcp d) [a, js_bool False, js_bool load_balanced, js_int backlog])"
    using assms by (cases "gs_delegates st"; cases addr) (auto simp: op_net_listen_tcp_guard_def delegate_def)
next
  show "op_net_listen_tls_guard boolean_value js_object tls st addr get keys s = (Inr r, u) \<longrightarrow>
      (\<exists>e. normalize_tls_args boolean_value get s = (Inl e, u) \<and> r = Thrown e) \<or>
      (\<exists>d a args t v. gs_delegates st = Some d \<and> tls (nd_tls d) [a, js_object args, keys] t = (r, u) \<and>
        map fst args = tls_names \<and> map_of args ''reusePort'' = Some v \<and> \<not> boolean_value v)"
  proof (cases "normalize_tls_args boolean_value get s")
    case (Pair n t)
    show ?thesis
    proof (cases n)
      case (Inr p)
      then obtain reuse args where "n = Inr (reuse, args)" by (cases p) auto
      with Pair have n: "normalize_tls_args boolean_value get s = (Inr (reuse, args), t)" by simp
      obtain v where v: "map fst args = tls_names" "map_of args ''reusePort'' = Some v" "boolean_value v = reuse"
        using normalize_reads_once [OF n] by blast
      show ?thesis
      proof
        assume r: "op_net_listen_tls_guard boolean_value js_object tls st addr get keys s = (Inr r, u)"
        then obtain d where d: "gs_delegates st = Some d"
          using assms by (cases "gs_delegates st") (auto simp: op_net_listen_tls_guard_def delegate_def)
        then obtain a where "addr = Inr a" "\<not> reuse" "tls (nd_tls d) [a, js_object args, keys] t = (r, u)"
          using r n assms
          by (cases addr) (auto simp: op_net_listen_tls_guard_def delegate_def split: prod.splits if_splits)
        with d v show "(\<exists>e. normalize_tls_args boolean_value get s = (Inl e, u) \<and> r = Thrown e) \<or>
            (\<exists>d a args t v. gs_delegates st = Some d \<and> tls (nd_tls d) [a, js_object args, keys] t = (r, u) \<and>
              map fst args = tls_names \<and> map_of args ''reusePort'' = Some v \<and> \<not> boolean_value v)"
          by blast
      qed
    qed (use Pair assms in \<open>cases "gs_delegates st"; auto simp: op_net_listen_tls_guard_def delegate_def\<close>)
  qed
qed

text \<open>A script whose getter for \<open>reusePort\<close> answers false the first time and true from then on.\<close>

definition sneaky_getter :: "string \<Rightarrow> nat \<Rightarrow> bool js \<times> nat" where
  "sneaky_getter name reads = (Returned (name = ''reusePort'' \<and> 0 < reads), if name = ''reusePort'' then reads + 1 else reads)"

theorem reuse_port_needs_net_witness:
  "\<exists>args v. map fst args = tls_names \<and> map_of args ''reusePort'' = Some v \<and> \<not> v \<and>
     op_net_listen_tls_guard (\<lambda>b. b) (\<lambda>args. map_of args ''reusePort'' = Some True)
       (\<lambda>f vs n. (Returned (vs ! 1), n)) \<lparr>gs_checker = Some [], gs_delegates = Some \<lparr>nd_tcp = (), nd_tls = ()\<rparr>\<rparr>
       (Inr True) sneaky_getter True 0 = (Inr (Returned False), 1)"
proof -
  let ?st = "\<lparr>gs_checker = Some [], gs_delegates = Some \<lparr>nd_tcp = (), nd_tls = ()\<rparr>\<rparr>"
  let ?jo = "\<lambda>args. map_of args ''reusePort'' = Some True"
  let ?call = "\<lambda>f vs n. (Returned (vs ! 1), n)"
  have run: "op_net_listen_tls_guard (\<lambda>b. b) ?jo ?call ?st (Inr True) sneaky_getter True 0 = (Inr (Returned False), 1)"
    by (simp add: op_net_listen_tls_guard_def delegate_def normalize_tls_args_def tls_names_def sneaky_getter_def
        feature_on_def)
  have "\<not> (\<exists>e. normalize_tls_args (\<lambda>b. b) sneaky_getter 0 = (Inl e, 1) \<and> Returned False = Thrown e)"
    by simp
  with reuse_port_needs_net(2) [of ?st "[]" "\<lambda>b. b" ?jo ?call "Inr True" sneaky_getter True 0 "Returned False" 1,
      rule_format, OF _ _ run]
  have "\<exists>args v. map fst args = tls_names \<and> map_of args ''reusePort'' = Some v \<and> \<not> v"
    by (auto simp: feature_on_def)
  with run show ?thesis by blast
qed

text \<open>
  C24: With a permission broker installed, require touches only what the permissions allowed.
  A guard that does not refuse has canonicalised the path it was given (a path that cannot be
  canonicalised stands for itself), has had that form checked by check_open, and calls the
  original op with the very path that the check returned, or, for a package scope, loads the
  package.json at that path; a package scope that is no package.json is answered with nothing
  at all.
\<close>

theorem require_uses_checked_paths:
  assumes "rq_broker_installed rq"
  shows "(case op_require_path_guard select rq path of Inl e \<Rightarrow> True | Inr r \<Rightarrow>
       \<exists>delegates check_open checked v. rq_delegates rq = Some delegates \<and> rq_check_open rq = Some check_open \<and>
         check_open (case rq_canonicalize rq path of Some canonical \<Rightarrow> canonical | None \<Rightarrow> path) = Inr checked \<and>
         rq_js_string rq checked = Some v \<and> r = rq_call rq (select delegates) [v]) \<and>
    (case op_require_package_imports_guard rq path request of Inl e \<Rightarrow> True | Inr r \<Rightarrow>
       \<exists>delegates check_open checked v w. rq_delegates rq = Some delegates \<and> rq_check_open rq = Some check_open \<and>
         check_open (case rq_canonicalize rq path of Some canonical \<Rightarrow> canonical | None \<Rightarrow> path) = Inr checked \<and>
         rq_js_string rq checked = Some v \<and> rq_js_string rq request = Some w \<and>
         r = rq_call rq (rd_package_imports delegates) [v, w]) \<and>
    (case op_require_package_scope_guard rq path of Inl e \<Rightarrow> True | Inr r \<Rightarrow>
       (if last_segment path \<noteq> Some ''package.json'' then r = Returned (rq_js_package rq None)
        else \<exists>check_open checked. rq_check_open rq = Some check_open \<and>
          check_open (case rq_canonicalize rq path of Some canonical \<Rightarrow> canonical | None \<Rightarrow> path) = Inr checked \<and>
          r = Returned (rq_js_package rq (rq_load_package_json rq checked))))"
proof (intro conjI)
  note defs = require_delegate_def checked_path_def path_string_def string_value_def bind_res_def Let_def
  show "case op_require_path_guard select rq path of Inl e \<Rightarrow> True | Inr r \<Rightarrow>
       \<exists>delegates check_open checked v. rq_delegates rq = Some delegates \<and> rq_check_open rq = Some check_open \<and>
         check_open (case rq_canonicalize rq path of Some canonical \<Rightarrow> canonical | None \<Rightarrow> path) = Inr checked \<and>
         rq_js_string rq checked = Some v \<and> r = rq_call rq (select delegates) [v]"
    using assms
    by (cases "rq_delegates rq"; cases "rq_check_open rq")
      (auto simp: op_require_path_guard_def defs split: sum.splits option.splits if_splits)
  show "case op_require_package_imports_guard rq path request of Inl e \<Rightarrow> True | Inr r \<Rightarrow>
       \<exists>delegates check_open checked v w. rq_delegates rq = Some delegates \<and> rq_check_open rq = Some check_open \<and>
         check_open (case rq_canonicalize rq path of Some canonical \<Rightarrow> canonical | None \<Rightarrow> path) = Inr checked \<and>
         rq_js_string rq checked = Some v \<and> rq_js_string rq request = Some w \<and>
         r = rq_call rq (rd_package_imports delegates) [v, w]"
    using assms
    by (cases "rq_delegates rq"; cases "rq_check_open rq")
      (auto simp: op_require_package_imports_guard_def defs split: sum.splits option.splits if_splits)
  show "case op_require_package_scope_guard rq path of Inl e \<Rightarrow> True | Inr r \<Rightarrow>
       (if last_segment path \<noteq> Some ''package.json'' then r = Returned (rq_js_package rq None)
        else \<exists>check_open checked. rq_check_open rq = Some check_open \<and>
          check_open (case rq_canonicalize rq path of Some canonical \<Rightarrow> canonical | None \<Rightarrow> path) = Inr checked \<and>
          r = Returned (rq_js_package rq (rq_load_package_json rq checked)))"
    using assms
    by (cases "rq_delegates rq"; cases "rq_check_open rq")
      (auto simp: op_require_package_scope_guard_def defs split: sum.splits option.splits if_splits)
qed

definition sample_require_env :: "(nat, string, string) require_env" where
  "sample_require_env =
     \<lparr>rq_broker_installed = True,
      rq_delegates = Some \<lparr>rd_stat = 1, rd_real_path = 2, rd_package_scope = 3, rd_package_imports = 4\<rparr>,
      rq_check_open = Some (\<lambda>p. if take 5 p = ''/safe'' then Inr p else Inl ''denied''),
      rq_canonicalize = (\<lambda>p. if p = ''/safe/link'' then Some ''/secret'' else None),
      rq_load_package_json = (\<lambda>p. None), rq_js_string = Some, rq_js_package = (\<lambda>_. ''''),
      rq_call = (\<lambda>f vs. Returned (concat vs))\<rparr>"

theorem require_uses_checked_paths_witness:
  "op_require_stat_guard sample_require_env ''/safe/link'' = Inl ''denied'' \<and>
   (\<exists>check_open. rq_check_open sample_require_env = Some check_open \<and> check_open ''/safe/a'' = Inr ''/safe/a'')"
proof
  show "op_require_stat_guard sample_require_env ''/safe/link'' = Inl ''denied''"
    by (simp add: op_require_stat_guard_def op_require_path_guard_def require_delegate_def checked_path_def
        sample_require_env_def)
  have "op_require_path_guard rd_stat sample_require_env ''/safe/a'' = Inr (Returned ''/safe/a'')"
    by (simp add: op_require_path_guard_def require_delegate_def checked_path_def path_string_def
        sample_require_env_def) code_simp
  then show "\<exists>check_open. rq_check_open sample_require_env = Some check_open \<and> check_open ''/safe/a'' = Inr ''/safe/a''"
    using require_uses_checked_paths [where rq = sample_require_env and select = rd_stat and path = "''/safe/a''"]
    by (auto simp: sample_require_env_def split: if_splits)
qed

section \<open>Workers\<close>


lemma nested_factory_simps [simp]:
  "wf_shared (nested_factory reserve factory chain) = wf_shared factory"
  "wf_parent (nested_factory reserve factory chain) =
     (if chain = [] then wf_parent factory else wa_worker_id (last chain))"
  by (induction chain arbitrary: factory) (simp_all add: create_web_worker_def Let_def)




end
