(* ===== verification/Ld_Loader.thy ===== *)
theory Ld_Loader
  imports Ld_Prelude
begin

text \<open>
  The module loader of a run (src/src/module_loader.rs): resolution of specifiers, the graph builds
  of \<open>prepare_load\<close> with the locker of a frozen lockfile, the permission checks of \<open>load\<close>, and how a
  loaded module is handed to the engine. deno_graph, the resolver stack and the URL type are
  parameters.
\<close>

section \<open>What the loader calls\<close>

text \<open>
  \<open>'u\<close> is \<open>ModuleSpecifier\<close>. Errors are \<open>JsErrorBox\<close>es, of which the message is kept.
  \<open>ld_strip\<close> removes the query and the fragment of a URL.
\<close>

record 'u loader_env =
  ld_parse :: "string \<Rightarrow> string + 'u"
  ld_scheme :: "'u \<Rightarrow> string"
  ld_path :: "'u \<Rightarrow> string"
  ld_strip :: "'u \<Rightarrow> 'u"
  ld_from_directory_path :: "string \<Rightarrow> 'u option"
  ld_from_file_path :: "string \<Rightarrow> 'u option"
  ld_to_file_path :: "'u \<Rightarrow> string option"
  ld_show :: "'u \<Rightarrow> string"
  ld_is_builtin :: "string \<Rightarrow> bool"
  ld_npm_is_managed :: "string + bool"
  ld_in_npm_package :: "string + ('u \<Rightarrow> bool)"
  ld_graph_resolve :: "string \<Rightarrow> 'u \<Rightarrow> string + 'u"
  ld_broker_installed :: bool
  ld_query_read_all :: bool
  ld_check_open :: "string \<Rightarrow> string + string"
  ld_canonicalize :: "string \<Rightarrow> string option"

section \<open>Resolution\<close>

definition normalize_node_builtin :: "'u loader_env \<Rightarrow> 'u \<Rightarrow> string + 'u" where
  "normalize_node_builtin ld url =
     (if \<not> ld_is_builtin ld (ld_path ld url) then Inl (''Unknown node builtin: '' @ ld_show ld url)
      else Inr (ld_strip ld url))"

definition validate_node_builtin_identity :: "'u loader_env \<Rightarrow> 'u \<Rightarrow> string + unit" where
  "validate_node_builtin_identity ld url =
     bind_res (normalize_node_builtin ld url) (\<lambda>canonical.
       if canonical \<noteq> url then Inl (''Non-canonical node builtin identity: '' @ ld_show ld url)
       else Inr ())"

definition resolve_referrer :: "'u loader_env \<Rightarrow> string \<Rightarrow> string \<Rightarrow> string + 'u" where
  "resolve_referrer ld referrer cwd =
     (if referrer = '''' \<or> referrer = ''.''
      then (case ld_from_directory_path ld cwd of
              None \<Rightarrow> Inl ''Invalid cwd for module resolution''
            | Some url \<Rightarrow> Inr url)
      else map_err (\<lambda>e. ''Invalid referrer: '' @ e) (ld_parse ld referrer))"

definition starts_with :: "string \<Rightarrow> string \<Rightarrow> bool" where
  "starts_with p s \<longleftrightarrow> take (length p) s = p"

definition node_or :: "'u loader_env \<Rightarrow> 'u \<Rightarrow> string + 'u" where
  "node_or ld url = (if ld_scheme ld url = ''node'' then normalize_node_builtin ld url else Inr url)"

text \<open>The message of a failed resolution: the specifier stands between quotation marks (0x22).\<close>

definition cannot_resolve :: "string \<Rightarrow> string \<Rightarrow> string" where
  "cannot_resolve specifier e = ''Cannot resolve '' @ [CHR 0x22] @ specifier @ [CHR 0x22] @ '': '' @ e"

text \<open>\<open>resolve_specifier\<close>; the first argument after the environment says whether the kind is \<open>MainModule\<close>.\<close>

definition is_managed_npm_package :: "'u loader_env \<Rightarrow> string \<Rightarrow> 'u \<Rightarrow> string + bool" where
  "is_managed_npm_package ld specifier referrer_url =
     (if starts_with ''npm:'' specifier \<or> starts_with ''jsr:'' specifier
      then bind_res (ld_npm_is_managed ld) (\<lambda>managed.
             if \<not> managed then Inr False
             else bind_res (ld_in_npm_package ld) (\<lambda>check. Inr (check referrer_url)))
      else Inr False)"

definition resolve_specifier ::
  "'u loader_env \<Rightarrow> bool \<Rightarrow> string \<Rightarrow> string \<Rightarrow> string \<Rightarrow> string + 'u" where
  "resolve_specifier ld main_module specifier referrer cwd =
     (if main_module
      then bind_res (map_err (\<lambda>e. ''Invalid main module URL: '' @ e) (ld_parse ld specifier)) (node_or ld)
      else case ld_parse ld specifier of
             Inr url \<Rightarrow>
               if ld_scheme ld url = ''node'' then normalize_node_builtin ld url
               else bind_res (resolve_referrer ld referrer cwd) (\<lambda>referrer_url.
                    bind_res (is_managed_npm_package ld specifier referrer_url) (\<lambda>managed.
                    if managed then Inr url
                    else bind_res (map_err (\<lambda>e. cannot_resolve specifier e)
                           (ld_graph_resolve ld specifier referrer_url)) (node_or ld)))
           | Inl e \<Rightarrow>
               bind_res (resolve_referrer ld referrer cwd) (\<lambda>referrer_url.
               bind_res (is_managed_npm_package ld specifier referrer_url) (\<lambda>managed.
               if managed then Inl (''Invalid module specifier: '' @ e)
               else bind_res (map_err (\<lambda>e. cannot_resolve specifier e)
                      (ld_graph_resolve ld specifier referrer_url)) (node_or ld))))"

section \<open>The locker of a frozen lockfile\<close>

text \<open>
  The lockfile in memory: checksums of remote modules and of package manifests (\<open>'n\<close> is
  \<open>PackageNv\<close>), and what npm requirements resolved to. \<open>FrozenGraphLocker\<close> holds a reference to it
  (\<open>fl_lockfile\<close>), lays the changes of a build over it (a \<open>HashMapLocker\<close>) and remembers whether one
  of them was a change.
\<close>

record ('u, 'n) lockfile =
  lk_remote :: "'u \<rightharpoonup> string"
  lk_pkg :: "'n \<rightharpoonup> string"
  lk_npm :: "string \<rightharpoonup> string"

record ('u, 'n) hash_map_locker =
  hl_remote :: "'u \<rightharpoonup> string"
  hl_pkg :: "'n \<rightharpoonup> string"

record ('u, 'n) frozen_locker =
  fl_lockfile :: "('u, 'n) lockfile"
  fl_changes :: "('u, 'n) hash_map_locker"
  fl_changed :: bool

definition frozen_locker_new :: "('u, 'n) lockfile \<Rightarrow> ('u, 'n) frozen_locker" where
  "frozen_locker_new lockfile =
     \<lparr>fl_lockfile = lockfile, fl_changes = \<lparr>hl_remote = Map.empty, hl_pkg = Map.empty\<rparr>, fl_changed = False\<rparr>"

definition get_remote_checksum :: "('u, 'n) frozen_locker \<Rightarrow> 'u \<Rightarrow> string option" where
  "get_remote_checksum fl specifier =
     (case hl_remote (fl_changes fl) specifier of
        Some c \<Rightarrow> Some c
      | None \<Rightarrow> lk_remote (fl_lockfile fl) specifier)"

definition set_remote_checksum :: "('u, 'n) frozen_locker \<Rightarrow> 'u \<Rightarrow> string \<Rightarrow> ('u, 'n) frozen_locker" where
  "set_remote_checksum fl specifier checksum =
     fl\<lparr>fl_changed := fl_changed fl \<or> get_remote_checksum fl specifier \<noteq> Some checksum,
        fl_changes := (fl_changes fl)\<lparr>hl_remote := (hl_remote (fl_changes fl))(specifier \<mapsto> checksum)\<rparr>\<rparr>"

definition get_pkg_manifest_checksum :: "('u, 'n) frozen_locker \<Rightarrow> 'n \<Rightarrow> string option" where
  "get_pkg_manifest_checksum fl nv =
     (case hl_pkg (fl_changes fl) nv of Some c \<Rightarrow> Some c | None \<Rightarrow> lk_pkg (fl_lockfile fl) nv)"

definition set_pkg_manifest_checksum :: "('u, 'n) frozen_locker \<Rightarrow> 'n \<Rightarrow> string \<Rightarrow> ('u, 'n) frozen_locker" where
  "set_pkg_manifest_checksum fl nv checksum =
     fl\<lparr>fl_changed := fl_changed fl \<or> get_pkg_manifest_checksum fl nv \<noteq> Some checksum,
        fl_changes := (fl_changes fl)\<lparr>hl_pkg := (hl_pkg (fl_changes fl))(nv \<mapsto> checksum)\<rparr>\<rparr>"

text \<open>What a build asks of its locker.\<close>

datatype ('u, 'n) locker_op = SetRemote 'u string | SetPkg 'n string

fun frozen_apply :: "('u, 'n) locker_op \<Rightarrow> ('u, 'n) frozen_locker \<Rightarrow> ('u, 'n) frozen_locker" where
  "frozen_apply (SetRemote u c) fl = set_remote_checksum fl u c"
| "frozen_apply (SetPkg n c) fl = set_pkg_manifest_checksum fl n c"

fun lockfile_apply :: "('u, 'n) locker_op \<Rightarrow> ('u, 'n) lockfile \<Rightarrow> ('u, 'n) lockfile" where
  "lockfile_apply (SetRemote u c) l = l\<lparr>lk_remote := (lk_remote l)(u \<mapsto> c)\<rparr>"
| "lockfile_apply (SetPkg n c) l = l\<lparr>lk_pkg := (lk_pkg l)(n \<mapsto> c)\<rparr>"

text \<open>
  The contract of a store of checksums: reading after writing. The client of both lockers is the
  graph build.
\<close>

locale checksum_store =
  fixes get :: "'s \<Rightarrow> 'k \<Rightarrow> string option"
    and put :: "'s \<Rightarrow> 'k \<Rightarrow> string \<Rightarrow> 's"
  assumes get_put: "get (put s k c) k' = (if k' = k then Some c else get s k')"
begin

lemma get_fold: "get (fold (\<lambda>(k, c) s. put s k c) writes s) = get s ++ map_of (rev writes)"
proof (induction writes arbitrary: s)
  case (Cons w writes)
  have "get (put s (fst w) (snd w)) = get s ++ [fst w \<mapsto> snd w]"
    by (rule ext) (simp add: get_put map_add_def)
  with Cons show ?case by (simp add: split_def del: fun_upd_apply)
qed simp

lemma put_same: "get s k = Some c \<Longrightarrow> get (put s k c) = get s"
  by (rule ext) (simp add: get_put)

end

interpretation frozen_remote: checksum_store get_remote_checksum set_remote_checksum
  by unfold_locales (simp add: get_remote_checksum_def set_remote_checksum_def split: option.split)

interpretation frozen_pkg: checksum_store get_pkg_manifest_checksum set_pkg_manifest_checksum
  by unfold_locales (simp add: get_pkg_manifest_checksum_def set_pkg_manifest_checksum_def split: option.split)

interpretation plain_remote: checksum_store lk_remote "\<lambda>l u c. lockfile_apply (SetRemote u c) l"
  by unfold_locales simp

interpretation plain_pkg: checksum_store lk_pkg "\<lambda>l n c. lockfile_apply (SetPkg n c) l"
  by unfold_locales simp

lemma other_store [simp]:
  "get_remote_checksum (set_pkg_manifest_checksum fl n c) = get_remote_checksum fl"
  "get_pkg_manifest_checksum (set_remote_checksum fl u c) = get_pkg_manifest_checksum fl"
  by (auto simp: get_remote_checksum_def set_pkg_manifest_checksum_def get_pkg_manifest_checksum_def
      set_remote_checksum_def fun_eq_iff split: option.split)

text \<open>
  What a build does to the lockfile in memory: writes to its locker, and what the npm resolver
  records for a requirement, which goes past the locker in a frozen run too.
\<close>

datatype ('u, 'n) build_op = LockerWrite "('u, 'n) locker_op" | NpmResolved string string

definition npm_record :: "string \<Rightarrow> string \<Rightarrow> ('u, 'n) lockfile \<Rightarrow> ('u, 'n) lockfile" where
  "npm_record req nv l = l\<lparr>lk_npm := (lk_npm l)(req \<mapsto> nv)\<rparr>"

text \<open>The locker of a build: none without a lockfile, an overlay in a frozen run, else the lockfile itself.\<close>

datatype ('u, 'n) graph_locker =
    NoLocker
  | FrozenLocker "('u, 'n) frozen_locker"
  | PlainLocker "('u, 'n) lockfile"

definition graph_locker_new :: "bool \<Rightarrow> ('u, 'n) lockfile option \<Rightarrow> ('u, 'n) graph_locker" where
  "graph_locker_new frozen lockfile =
     (case lockfile of
        None \<Rightarrow> NoLocker
      | Some l \<Rightarrow> if frozen then FrozenLocker (frozen_locker_new l) else PlainLocker l)"

fun frozen_op :: "('u, 'n) build_op \<Rightarrow> ('u, 'n) frozen_locker \<Rightarrow> ('u, 'n) frozen_locker" where
  "frozen_op (LockerWrite op) fl = frozen_apply op fl"
| "frozen_op (NpmResolved req nv) fl = fl\<lparr>fl_lockfile := npm_record req nv (fl_lockfile fl)\<rparr>"

fun plain_op :: "('u, 'n) build_op \<Rightarrow> ('u, 'n) lockfile \<Rightarrow> ('u, 'n) lockfile" where
  "plain_op (LockerWrite op) l = lockfile_apply op l"
| "plain_op (NpmResolved req nv) l = npm_record req nv l"

fun build_apply :: "('u, 'n) build_op \<Rightarrow> ('u, 'n) graph_locker \<Rightarrow> ('u, 'n) graph_locker" where
  "build_apply op NoLocker = NoLocker"
| "build_apply op (FrozenLocker fl) = FrozenLocker (frozen_op op fl)"
| "build_apply op (PlainLocker l) = PlainLocker (plain_op op l)"

text \<open>The lockfile in memory behind a locker, and \<open>has_changes\<close> of a frozen one.\<close>

fun locker_lockfile :: "('u, 'n) graph_locker \<Rightarrow> ('u, 'n) lockfile option" where
  "locker_lockfile NoLocker = None"
| "locker_lockfile (FrozenLocker fl) = Some (fl_lockfile fl)"
| "locker_lockfile (PlainLocker l) = Some l"

fun has_changes :: "('u, 'n) graph_locker \<Rightarrow> bool" where
  "has_changes (FrozenLocker fl) = fl_changed fl"
| "has_changes _ = False"

fun locker_writes :: "('u, 'n) build_op list \<Rightarrow> ('u, 'n) locker_op list" where
  "locker_writes [] = []"
| "locker_writes (LockerWrite op # ops) = op # locker_writes ops"
| "locker_writes (NpmResolved req nv # ops) = locker_writes ops"

lemma npm_record_simps [simp]: "lk_remote (npm_record req nv l) = lk_remote l" "lk_pkg (npm_record req nv l) = lk_pkg l"
  by (simp_all add: npm_record_def)

text \<open>
  A step of a frozen build writes no checksum to the lockfile, and one that saw no change still
  shows the lockfile's checksums.
\<close>

lemma fold_build_apply [simp]:
  "fold build_apply ops NoLocker = NoLocker"
  "fold build_apply ops (FrozenLocker fl) = FrozenLocker (fold frozen_op ops fl)"
  "fold build_apply ops (PlainLocker l) = PlainLocker (fold plain_op ops l)"
  by (induction ops arbitrary: fl l) simp_all

lemma frozen_apply_keeps [simp]:
  "fl_lockfile (frozen_apply op fl) = fl_lockfile fl"
  "fl_changed fl \<Longrightarrow> fl_changed (frozen_apply op fl)"
  by (cases op; simp add: set_remote_checksum_def set_pkg_manifest_checksum_def)+

lemma frozen_op_keeps:
  "lk_remote (fl_lockfile (frozen_op op fl)) = lk_remote (fl_lockfile fl)"
  "lk_pkg (fl_lockfile (frozen_op op fl)) = lk_pkg (fl_lockfile fl)"
  "fl_changed fl \<Longrightarrow> fl_changed (frozen_op op fl)"
  by (cases op; simp)+

lemma frozen_op_same:
  assumes "\<not> fl_changed (frozen_op op fl)"
  shows "get_remote_checksum (frozen_op op fl) = get_remote_checksum fl"
    "get_pkg_manifest_checksum (frozen_op op fl) = get_pkg_manifest_checksum fl"
proof -
  have "get_remote_checksum (frozen_op op fl) = get_remote_checksum fl \<and>
      get_pkg_manifest_checksum (frozen_op op fl) = get_pkg_manifest_checksum fl"
  proof (cases op)
    case (LockerWrite w)
    then show ?thesis
    proof (cases w)
      case (SetRemote u c)
      with LockerWrite assms have "get_remote_checksum fl u = Some c" by (simp add: set_remote_checksum_def)
      then show ?thesis using LockerWrite SetRemote by (simp add: frozen_remote.put_same)
    next
      case (SetPkg n c)
      with LockerWrite assms have "get_pkg_manifest_checksum fl n = Some c"
        by (simp add: set_pkg_manifest_checksum_def)
      then show ?thesis using LockerWrite SetPkg by (simp add: frozen_pkg.put_same)
    qed
  next
    case (NpmResolved req nv)
    then show ?thesis
      by (simp add: get_remote_checksum_def get_pkg_manifest_checksum_def fun_eq_iff split: option.split)
  qed
  then show "get_remote_checksum (frozen_op op fl) = get_remote_checksum fl"
    "get_pkg_manifest_checksum (frozen_op op fl) = get_pkg_manifest_checksum fl" by blast+
qed

lemma frozen_fold:
  "lk_remote (fl_lockfile (fold frozen_op ops fl)) = lk_remote (fl_lockfile fl)"
  "lk_pkg (fl_lockfile (fold frozen_op ops fl)) = lk_pkg (fl_lockfile fl)"
  "fl_changed fl \<Longrightarrow> fl_changed (fold frozen_op ops fl)"
  by (induction ops arbitrary: fl) (simp_all add: frozen_op_keeps)

lemma frozen_new [simp]:
  "get_remote_checksum (frozen_locker_new l) = lk_remote l"
  "get_pkg_manifest_checksum (frozen_locker_new l) = lk_pkg l"
  "\<not> fl_changed (frozen_locker_new l)"
  by (simp_all add: frozen_locker_new_def get_remote_checksum_def get_pkg_manifest_checksum_def fun_eq_iff)

text \<open>The writes of a build that the lockfile already has.\<close>

fun agrees :: "('u, 'n) lockfile \<Rightarrow> ('u, 'n) locker_op \<Rightarrow> bool" where
  "agrees l (SetRemote u c) \<longleftrightarrow> lk_remote l u = Some c"
| "agrees l (SetPkg n c) \<longleftrightarrow> lk_pkg l n = Some c"

lemma frozen_unchanged_iff:
  assumes "get_remote_checksum fl = lk_remote l" "get_pkg_manifest_checksum fl = lk_pkg l" "\<not> fl_changed fl"
  shows "\<not> fl_changed (fold frozen_op ops fl) \<longleftrightarrow> list_all (agrees l) (locker_writes ops)"
  using assms
proof (induction ops arbitrary: fl)
  case (Cons op ops)
  have agree: "\<not> fl_changed (frozen_op op fl) \<longleftrightarrow> (\<forall>w. op = LockerWrite w \<longrightarrow> agrees l w)"
  proof (cases op)
    case (LockerWrite w)
    with Cons.prems show ?thesis
      by (cases w) (auto simp: set_remote_checksum_def set_pkg_manifest_checksum_def)
  next
    case (NpmResolved req nv)
    with Cons.prems(3) show ?thesis by simp
  qed
  have writes: "list_all (agrees l) (locker_writes (op # ops)) \<longleftrightarrow>
      (\<forall>w. op = LockerWrite w \<longrightarrow> agrees l w) \<and> list_all (agrees l) (locker_writes ops)"
    by (cases op) simp_all
  show ?case
  proof (cases "fl_changed (frozen_op op fl)")
    case True
    with frozen_fold(3) [of "frozen_op op fl" ops] agree show ?thesis unfolding writes by simp
  next
    case False
    with Cons.IH [of "frozen_op op fl"] frozen_op_same [OF False] Cons.prems(1,2) agree
    show ?thesis unfolding writes by simp
  qed
qed simp

section \<open>Graph builds\<close>

text \<open>
  deno_graph: \<open>'g\<close> is \<open>ModuleGraph\<close>. A build or a reload takes what its locker answers and returns
  the new graph with what it did to the lockfile, in order; errors of modules end up in the graph.
  \<open>gr_lockfile_error\<close> is \<open>error_if_changed\<close> of the lockfile, \<open>gr_walk_errors\<close> the specifiers that
  the walk's errors name.
\<close>

datatype 'u graph_error = ModuleError 'u | ResolutionError 'u | TypesResolutionError 'u

record ('u, 'n, 'g) graph_ops =
  gr_fill :: "('u, 'n) lockfile \<Rightarrow> 'g \<Rightarrow> 'g"
  gr_lockfile_error :: "('u, 'n) lockfile \<Rightarrow> string + unit"
  gr_jsr_version_resolver :: "string + unit"
  gr_contains :: "'g \<Rightarrow> 'u \<Rightarrow> bool"
  gr_module_errors :: "'g \<Rightarrow> 'u list"
  gr_validate_root :: "'g \<Rightarrow> 'u \<Rightarrow> string + unit"
  gr_walk_errors :: "'g \<Rightarrow> 'u \<Rightarrow> 'u graph_error list"
  gr_resolve :: "'g \<Rightarrow> 'u \<Rightarrow> 'u"
  gr_reload :: "'u list \<Rightarrow> ('u \<Rightarrow> string option) \<times> ('n \<Rightarrow> string option) \<Rightarrow> 'g
    \<Rightarrow> 'g \<times> ('u, 'n) build_op list"
  gr_build :: "'u list \<Rightarrow> ('u \<Rightarrow> string option) \<times> ('n \<Rightarrow> string option) \<Rightarrow> 'g
    \<Rightarrow> 'g \<times> ('u, 'n) build_op list"

fun retry_of :: "'u graph_error \<Rightarrow> 'u option" where
  "retry_of (ModuleError u) = Some u"
| "retry_of (ResolutionError u) = Some u"
| "retry_of (TypesResolutionError u) = None"

definition retry_list :: "('u :: linorder, 'n, 'g) graph_ops \<Rightarrow> 'g \<Rightarrow> 'u \<Rightarrow> 'u list" where
  "retry_list gr graph specifier =
     remdups_adj (sort (map (gr_resolve gr graph)
       (specifier # List.map_filter retry_of (gr_walk_errors gr graph specifier))))"

definition lockfile_check :: "('u, 'n, 'g) graph_ops \<Rightarrow> ('u, 'n) lockfile option \<Rightarrow> string + unit" where
  "lockfile_check gr lockfile = (case lockfile of None \<Rightarrow> Inr () | Some l \<Rightarrow> gr_lockfile_error gr l)"

definition already_loaded :: "('u, 'n, 'g) graph_ops \<Rightarrow> 'g \<Rightarrow> 'u \<Rightarrow> bool" where
  "already_loaded gr graph specifier \<longleftrightarrow>
     gr_contains gr graph specifier \<and> specifier \<notin> set (gr_module_errors gr graph) \<and>
     is_ok (gr_validate_root gr graph specifier)"

text \<open>What the locker of the build answers: nothing without a lockfile.\<close>

definition locker_view :: "('u, 'n) lockfile option \<Rightarrow> ('u \<Rightarrow> string option) \<times> ('n \<Rightarrow> string option)" where
  "locker_view lockfile =
     (case lockfile of None \<Rightarrow> (Map.empty, Map.empty) | Some l \<Rightarrow> (lk_remote l, lk_pkg l))"

definition run_build ::
  "('u :: linorder, 'n, 'g) graph_ops \<Rightarrow> ('u, 'n) lockfile option \<Rightarrow> 'g \<Rightarrow> 'u
   \<Rightarrow> 'g \<times> ('u, 'n) build_op list" where
  "run_build gr lockfile graph specifier =
     (let retry = retry_list gr graph specifier
      in if list_ex (\<lambda>url. gr_contains gr graph url \<or> url \<in> set (gr_module_errors gr graph)) retry
         then gr_reload gr retry (locker_view lockfile) graph
         else gr_build gr [specifier] (locker_view lockfile) graph)"

text \<open>
  \<open>build_graph_attempt\<close> on the graph and the lockfile in memory; \<open>frozen\<close> is
  \<open>SharedServices::frozen_lockfile\<close>.
\<close>

definition build_graph_attempt ::
  "('u :: linorder, 'n, 'g) graph_ops \<Rightarrow> bool \<Rightarrow> 'u \<Rightarrow> ('u, 'n) lockfile option \<Rightarrow> 'g
   \<Rightarrow> (string + unit) \<times> ('u, 'n) lockfile option \<times> 'g" where
  "build_graph_attempt gr frozen specifier lockfile graph =
     (case gr_jsr_version_resolver gr of
        Inl e \<Rightarrow> (Inl e, lockfile, graph)
      | Inr _ \<Rightarrow>
          (let filled = (case lockfile of None \<Rightarrow> graph | Some l \<Rightarrow> gr_fill gr l graph)
           in case lockfile_check gr lockfile of
                Inl e \<Rightarrow> (Inl e, lockfile, filled)
              | Inr _ \<Rightarrow>
                  if already_loaded gr filled specifier
                  then (lockfile_check gr lockfile, lockfile, filled)
                  else
                    (case run_build gr lockfile filled specifier of
                       (built, ops) \<Rightarrow>
                         (let locker = fold build_apply ops (graph_locker_new frozen lockfile);
                              after = locker_lockfile locker
                          in (bind_res (gr_validate_root gr built specifier) (\<lambda>_.
                              if has_changes locker
                              then Inl ''frozen lockfile would change''
                              else lockfile_check gr after), after, built)))))"

text \<open>\<open>build_graph_with_npm_resolver\<close>: a frozen build works on a copy that is stored only on success.\<close>

definition build_graph ::
  "('u :: linorder, 'n, 'g) graph_ops \<Rightarrow> bool \<Rightarrow> 'u \<Rightarrow> ('u, 'n) lockfile option \<Rightarrow> 'g
   \<Rightarrow> (string + unit) \<times> ('u, 'n) lockfile option \<times> 'g" where
  "build_graph gr frozen specifier lockfile graph =
     (case build_graph_attempt gr frozen specifier lockfile graph of
        (result, lockfile', candidate) \<Rightarrow>
          (result, lockfile', if frozen \<and> \<not> is_ok result then graph else candidate))"

text \<open>
  \<open>prepare_load\<close>. The lifecycle is polled first; it can also close while the build runs, which drops
  the build with the graph as far as it got and what it did to the lockfile so far (\<open>ClosesDuring\<close>).
\<close>

datatype ('u, 'n, 'g) lifecycle = StaysOpen | Closing | ClosesDuring 'g "('u, 'n) build_op list"

definition cancelled_by_shutdown :: string where
  "cancelled_by_shutdown = ''module graph load cancelled during runtime shutdown''"

definition prepare_load ::
  "'u loader_env \<Rightarrow> ('u :: linorder, 'n, 'g) graph_ops \<Rightarrow> bool \<Rightarrow> ('u, 'n, 'g) lifecycle \<Rightarrow> 'u
   \<Rightarrow> ('u, 'n) lockfile option \<Rightarrow> 'g \<Rightarrow> (string + unit) \<times> ('u, 'n) lockfile option \<times> 'g" where
  "prepare_load ld gr frozen lifecycle specifier lockfile graph =
     (if ld_scheme ld specifier = ''node''
      then (validate_node_builtin_identity ld specifier, lockfile, graph)
      else case lifecycle of
             Closing \<Rightarrow> (Inl cancelled_by_shutdown, lockfile, graph)
           | ClosesDuring partial ops \<Rightarrow>
               (Inl cancelled_by_shutdown,
                locker_lockfile (fold build_apply ops (graph_locker_new frozen lockfile)),
                if frozen then graph else partial)
           | StaysOpen \<Rightarrow> build_graph gr frozen specifier lockfile graph)"

section \<open>Loading\<close>

text \<open>\<open>check_dynamic_import_read\<close> and \<open>check_npm_source_read\<close>; \<open>in_npm\<close> is the package checker.\<close>

definition check_dynamic_import_read :: "'u loader_env \<Rightarrow> ('u \<Rightarrow> bool) \<Rightarrow> 'u \<Rightarrow> string + unit" where
  "check_dynamic_import_read ld in_npm specifier =
     (if ld_scheme ld specifier \<noteq> ''file'' \<or> in_npm specifier then Inr ()
      else if \<not> ld_broker_installed ld \<and> ld_query_read_all ld then Inr ()
      else case ld_to_file_path ld specifier of
             None \<Rightarrow> Inr ()
           | Some path \<Rightarrow> bind_res (ld_check_open ld path) (\<lambda>_. Inr ()))"

definition check_npm_source_read :: "'u loader_env \<Rightarrow> ('u \<Rightarrow> bool) \<Rightarrow> 'u \<Rightarrow> string + 'u" where
  "check_npm_source_read ld in_npm specifier =
     (if \<not> ld_broker_installed ld \<or> \<not> in_npm specifier then Inr specifier
      else case ld_to_file_path ld specifier of
             None \<Rightarrow> Inr specifier
           | Some path \<Rightarrow>
               (let canonical = (case ld_canonicalize ld path of Some c \<Rightarrow> c | None \<Rightarrow> path)
                in bind_res (ld_check_open ld canonical) (\<lambda>checked.
                   case ld_from_file_path ld checked of
                     None \<Rightarrow> Inl (''Invalid npm module path: '' @ ld_show ld specifier)
                   | Some url \<Rightarrow> Inr url)))"

datatype requested_module_type = RmNone | RmJson | RmText | RmBytes | RmOther string

datatype module_type = MtJavaScript | MtWasm | MtJson | MtText | MtBytes | MtOther string

fun module_type_from_media_and_requested_type :: "bool \<Rightarrow> requested_module_type \<Rightarrow> module_type" where
  "module_type_from_media_and_requested_type wasm RmNone = (if wasm then MtWasm else MtJavaScript)"
| "module_type_from_media_and_requested_type wasm RmJson = MtJson"
| "module_type_from_media_and_requested_type wasm RmText = MtText"
| "module_type_from_media_and_requested_type wasm RmBytes = MtBytes"
| "module_type_from_media_and_requested_type wasm (RmOther ty) = MtOther ty"

text \<open>
  What the upstream loader returns: a module with its source (text or bytes), whether its media type
  is Wasm, and the specifier it was found under; or an asset that is still to be fetched.
\<close>

datatype 'u loaded =
    LoadedModule (lm_text: "string + string") (lm_wasm: bool) (lm_specifier: 'u)
  | ExternalAsset 'u

record 'u module_source =
  ms_type :: module_type
  ms_code :: "string + string"
  ms_requested :: 'u
  ms_found :: 'u

text \<open>
  The upstream calls of \<open>load\<close>: npm references with their resolution, the loader on the graph, and the
  fetch of an asset under the live permissions.
\<close>

record ('u, 'g) load_ops =
  lo_npm_reference :: "'u \<Rightarrow> ('u \<Rightarrow> string + 'u) option"
  lo_load :: "'g \<Rightarrow> 'u \<Rightarrow> 'u option \<Rightarrow> requested_module_type \<Rightarrow> string + 'u loaded"
  lo_fetch :: "'u \<Rightarrow> string + string \<times> bool"

definition load_target ::
  "'u loader_env \<Rightarrow> ('u, 'g) load_ops \<Rightarrow> bool \<Rightarrow> 'u option \<Rightarrow> 'u \<Rightarrow> string + 'u" where
  "load_target ld lo is_dynamic referrer requested =
     bind_res (case lo_npm_reference lo requested of
                 Some resolve \<Rightarrow>
                   map_err (\<lambda>e. cannot_resolve (ld_show ld requested) e)
                     (resolve (case referrer of Some r \<Rightarrow> r | None \<Rightarrow> requested))
               | None \<Rightarrow> Inr requested) (\<lambda>specifier.
     bind_res (ld_in_npm_package ld) (\<lambda>in_npm.
     bind_res (if is_dynamic then check_dynamic_import_read ld in_npm specifier else Inr ()) (\<lambda>_.
     check_npm_source_read ld in_npm specifier)))"

definition load ::
  "'u loader_env \<Rightarrow> ('u, 'g) load_ops \<Rightarrow> bool \<Rightarrow> 'u option \<Rightarrow> requested_module_type \<Rightarrow> 'g \<Rightarrow> 'u
   \<Rightarrow> string + 'u module_source" where
  "load ld lo is_dynamic referrer ty graph requested =
     (if ld_scheme ld requested = ''node''
      then bind_res (validate_node_builtin_identity ld requested) (\<lambda>_.
             Inr \<lparr>ms_type = MtJavaScript, ms_code = Inl '''', ms_requested = requested, ms_found = requested\<rparr>)
      else bind_res (load_target ld lo is_dynamic referrer requested) (\<lambda>specifier.
           bind_res (lo_load lo graph specifier referrer ty) (\<lambda>loaded.
           case loaded of
             LoadedModule source wasm found \<Rightarrow>
               Inr \<lparr>ms_type = module_type_from_media_and_requested_type wasm ty, ms_code = source,
                    ms_requested = requested, ms_found = found\<rparr>
           | ExternalAsset asset \<Rightarrow>
               bind_res (lo_fetch lo asset) (\<lambda>(bytes, wasm).
                 Inr \<lparr>ms_type = module_type_from_media_and_requested_type wasm ty, ms_code = Inr bytes,
                      ms_requested = asset, ms_found = asset\<rparr>))))"

section \<open>Properties of the builds\<close>

text \<open>The checksums of a lockfile: all of it but the part of the npm resolver.\<close>

definition checksums :: "('u, 'n) lockfile option \<Rightarrow> (('u \<rightharpoonup> string) \<times> ('n \<rightharpoonup> string)) option" where
  "checksums = map_option (\<lambda>l. (lk_remote l, lk_pkg l))"

lemma frozen_locker_checksums:
  "checksums (locker_lockfile (fold build_apply ops (graph_locker_new True lockfile))) = checksums lockfile"
  by (cases lockfile)
    (simp_all add: graph_locker_new_def checksums_def frozen_fold, simp add: frozen_locker_new_def)

lemma attempt_frozen_checksums:
  "build_graph_attempt gr True specifier lockfile graph = (result, lockfile', graph') \<Longrightarrow>
   checksums lockfile' = checksums lockfile"
  by (auto simp: build_graph_attempt_def Let_def frozen_locker_checksums split: sum.splits prod.splits if_splits)

lemma frozen_agrees:
  "\<not> has_changes (fold build_apply ops (graph_locker_new True (Some l))) \<longleftrightarrow> list_all (agrees l) (locker_writes ops)"
  using frozen_unchanged_iff [of "frozen_locker_new l" l ops] by (simp add: graph_locker_new_def)

definition filled_graph :: "('u, 'n, 'g) graph_ops \<Rightarrow> ('u, 'n) lockfile option \<Rightarrow> 'g \<Rightarrow> 'g" where
  "filled_graph gr lockfile graph = (case lockfile of None \<Rightarrow> graph | Some l \<Rightarrow> gr_fill gr l graph)"

text \<open>What a successful attempt has done, for any lockfile.\<close>

lemma attempt_ok:
  assumes "build_graph_attempt gr frozen specifier lockfile graph = (Inr u, lockfile', graph')"
  shows "lockfile_check gr lockfile' = Inr () \<and> is_ok (gr_validate_root gr graph' specifier) \<and>
    (already_loaded gr (filled_graph gr lockfile graph) specifier \<and> graph' = filled_graph gr lockfile graph \<and>
       lockfile' = lockfile \<or>
     (\<exists>ops. run_build gr lockfile (filled_graph gr lockfile graph) specifier = (graph', ops) \<and>
        \<not> has_changes (fold build_apply ops (graph_locker_new frozen lockfile))))"
proof -
  obtain v where v: "gr_jsr_version_resolver gr = Inr v"
    using assms by (cases "gr_jsr_version_resolver gr") (auto simp: build_graph_attempt_def)
  obtain w where w: "lockfile_check gr lockfile = Inr w"
    using assms v by (cases "lockfile_check gr lockfile") (auto simp: build_graph_attempt_def Let_def)
  show ?thesis
  proof (cases "already_loaded gr (filled_graph gr lockfile graph) specifier")
    case True
    with assms v w show ?thesis
      by (auto simp: build_graph_attempt_def Let_def filled_graph_def already_loaded_def)
  next
    case False
    obtain built ops where b: "run_build gr lockfile (filled_graph gr lockfile graph) specifier = (built, ops)"
      by (cases "run_build gr lockfile (filled_graph gr lockfile graph) specifier") auto
    with assms v w False show ?thesis
      by (auto simp: build_graph_attempt_def Let_def filled_graph_def bind_res_Inr split: if_splits)
  qed
qed

text \<open>
  C22: A run with a frozen lockfile. Whatever a build does, the checksums of remote modules
  and of package manifests in the lockfile stay as they are; a build that fails (a load error,
  a checksum that would change, a shutdown) leaves the module graph exactly as it was; one
  that succeeds has a valid root, wrote to its locker only checksums that the lockfile already
  had, and passed the lockfile's own comparison after its last write. That comparison
  (upstream's error_if_changed) is also what sees the packages that the npm resolver records
  in the lockfile in memory, past the locker: those are not undone when the build fails.
\<close>

theorem frozen_build_is_transactional:
  assumes "prepare_load ld gr True lifecycle specifier lockfile graph = (result, lockfile', graph')"
  shows "checksums lockfile' = checksums lockfile \<and>
    (case result of
       Inl e \<Rightarrow> graph' = graph
     | Inr _ \<Rightarrow> ld_scheme ld specifier = ''node'' \<and> graph' = graph \<and> lockfile' = lockfile \<or>
         lockfile_check gr lockfile' = Inr () \<and> is_ok (gr_validate_root gr graph' specifier) \<and>
         (graph' = filled_graph gr lockfile graph \<and> lockfile' = lockfile \<or>
          (\<exists>ops. run_build gr lockfile (filled_graph gr lockfile graph) specifier = (graph', ops) \<and>
             (\<forall>l. lockfile = Some l \<longrightarrow> list_all (agrees l) (locker_writes ops)))))"
proof (cases "ld_scheme ld specifier = ''node''")
  case True
  with assms show ?thesis by (auto simp: prepare_load_def split: sum.splits)
next
  case False
  show ?thesis
  proof (cases lifecycle)
    case StaysOpen
    obtain r l' g' where a: "build_graph_attempt gr True specifier lockfile graph = (r, l', g')"
      by (cases "build_graph_attempt gr True specifier lockfile graph") auto
    then have res: "result = r" "lockfile' = l'" "graph' = (if is_ok r then g' else graph)"
      using assms False StaysOpen by (auto simp: prepare_load_def build_graph_def)
    note same = attempt_frozen_checksums [OF a]
    show ?thesis
    proof (cases r)
      case (Inl e)
      with res same show ?thesis by simp
    next
      case (Inr u)
      from attempt_ok [of gr True specifier lockfile graph u l' g'] a Inr
      have ok: "lockfile_check gr l' = Inr ()" "is_ok (gr_validate_root gr g' specifier)"
        "g' = filled_graph gr lockfile graph \<and> l' = lockfile \<or>
         (\<exists>ops. run_build gr lockfile (filled_graph gr lockfile graph) specifier = (g', ops) \<and>
            (\<forall>l. lockfile = Some l \<longrightarrow> list_all (agrees l) (locker_writes ops)))"
        using frozen_agrees by fastforce+
      then show ?thesis using res same Inr by simp
    qed
  qed (use assms False in \<open>auto simp: prepare_load_def frozen_locker_checksums\<close>)
qed

text \<open>
  prepare_load succeeds only with a graph whose root validates and a lockfile without pending
  changes, and a module that is already loaded is not built again.
\<close>

theorem prepared_module_is_valid:
  assumes "ld_scheme ld specifier \<noteq> ''node''"
  shows "prepare_load ld gr frozen lifecycle specifier lockfile graph = (Inr u, lockfile', graph') \<longrightarrow>
      is_ok (gr_validate_root gr graph' specifier) \<and> lockfile_check gr lockfile' = Inr ()"
    and "already_loaded gr (filled_graph gr lockfile graph) specifier \<and> is_ok (gr_jsr_version_resolver gr) \<and>
      is_ok (lockfile_check gr lockfile) \<longrightarrow>
      prepare_load ld (gr\<lparr>gr_reload := reload, gr_build := build\<rparr>) frozen StaysOpen specifier lockfile graph
        = (Inr (), lockfile, filled_graph gr lockfile graph)"
proof -
  show "prepare_load ld gr frozen lifecycle specifier lockfile graph = (Inr u, lockfile', graph') \<longrightarrow>
      is_ok (gr_validate_root gr graph' specifier) \<and> lockfile_check gr lockfile' = Inr ()"
  proof
    assume p: "prepare_load ld gr frozen lifecycle specifier lockfile graph = (Inr u, lockfile', graph')"
    obtain r l' g' where a: "build_graph_attempt gr frozen specifier lockfile graph = (r, l', g')"
      by (cases "build_graph_attempt gr frozen specifier lockfile graph") auto
    have "r = Inr u" "l' = lockfile'" "g' = graph'"
      using p assms a by (auto simp: prepare_load_def build_graph_def split: lifecycle.splits if_splits)
    with a attempt_ok [of gr frozen specifier lockfile graph u lockfile' graph']
    show "is_ok (gr_validate_root gr graph' specifier) \<and> lockfile_check gr lockfile' = Inr ()" by blast
  qed
next
  show "already_loaded gr (filled_graph gr lockfile graph) specifier \<and> is_ok (gr_jsr_version_resolver gr) \<and>
      is_ok (lockfile_check gr lockfile) \<longrightarrow>
      prepare_load ld (gr\<lparr>gr_reload := reload, gr_build := build\<rparr>) frozen StaysOpen specifier lockfile graph
        = (Inr (), lockfile, filled_graph gr lockfile graph)"
    using assms
    by (auto simp: prepare_load_def build_graph_def build_graph_attempt_def Let_def filled_graph_def
        is_ok_iff already_loaded_def lockfile_check_def split: option.splits)
qed

lemma sorted_distinct_remdups_adj: "sorted (xs :: 'a :: linorder list) \<Longrightarrow> distinct (remdups_adj xs)"
proof (induction xs rule: remdups_adj.induct)
  case (3 x y xs)
  then show ?case by (cases "x = y") (auto simp: less_le)
qed simp_all

text \<open>
  A failure is not sticky: when the module has an error in the graph, the next build reloads
  it, together with every module that the errors of its root name; the list is sorted and has
  no duplicates.
\<close>

theorem failed_modules_are_retried:
  assumes "gr_resolve gr graph specifier = specifier" "specifier \<in> set (gr_module_errors gr graph)"
  shows "\<not> already_loaded gr graph specifier"
    and "run_build gr lockfile graph specifier
      = gr_reload gr (retry_list gr graph specifier) (locker_view lockfile) graph"
    and "set (retry_list gr graph specifier) = gr_resolve gr graph ` ({specifier} \<union>
      {u. ModuleError u \<in> set (gr_walk_errors gr graph specifier) \<or>
          ResolutionError u \<in> set (gr_walk_errors gr graph specifier)})"
    and "sorted (retry_list gr graph specifier) \<and> distinct (retry_list gr graph specifier)"
proof -
  show "\<not> already_loaded gr graph specifier" using assms by (simp add: already_loaded_def)
  have mf: "set (List.map_filter retry_of es) = {u. ModuleError u \<in> set es \<or> ResolutionError u \<in> set es}" for es
  proof (induction es)
    case (Cons e es)
    then show ?case by (cases e) (auto simp: List.map_filter_simps)
  qed (simp add: List.map_filter_simps)
  show set: "set (retry_list gr graph specifier) = gr_resolve gr graph ` ({specifier} \<union>
      {u. ModuleError u \<in> set (gr_walk_errors gr graph specifier) \<or>
          ResolutionError u \<in> set (gr_walk_errors gr graph specifier)})"
    unfolding retry_list_def remdups_adj_set set_sort set_map list.set(2) mf by auto
  have "specifier \<in> set (retry_list gr graph specifier)" unfolding set using assms(1) by force
  then show "run_build gr lockfile graph specifier
      = gr_reload gr (retry_list gr graph specifier) (locker_view lockfile) graph"
    using assms(2) by (auto simp: run_build_def Let_def list_ex_iff)
  show "sorted (retry_list gr graph specifier) \<and> distinct (retry_list gr graph specifier)"
    unfolding retry_list_def by (metis sorted_sort sorted_remdups_adj sorted_distinct_remdups_adj)
qed

text \<open>A graph over numbers: a module is loaded, failed or absent; a build loads the roots it is given.\<close>

definition sample_graph_ops :: "(nat, nat, nat list \<times> nat list) graph_ops" where
  "sample_graph_ops =
     \<lparr>gr_fill = (\<lambda>l g. g), gr_lockfile_error = (\<lambda>_. Inr ()), gr_jsr_version_resolver = Inr (),
      gr_contains = (\<lambda>g u. u \<in> set (fst g)), gr_module_errors = snd,
      gr_validate_root = (\<lambda>g u. if u \<in> set (fst g) \<and> u \<notin> set (snd g) then Inr () else Inl ''missing''),
      gr_walk_errors = (\<lambda>g u. map ModuleError (snd g)), gr_resolve = (\<lambda>_ u. u),
      gr_reload = (\<lambda>us _ g. ((us @ fst g, []), [NpmResolved ''chalk@5'' ''chalk@5.3.0'', LockerWrite (SetRemote 7 ''new'')])),
      gr_build = (\<lambda>us _ g. ((us @ fst g, snd g), [LockerWrite (SetRemote 7 ''sum'')]))\<rparr>"

definition sample_loader_env :: "nat loader_env" where
  "sample_loader_env =
     \<lparr>ld_parse = (\<lambda>s. if s = ''node:fs?x'' then Inr 21 else Inr (length s)),
      ld_scheme = (\<lambda>u. if 20 \<le> u then ''node'' else ''file''), ld_path = (\<lambda>u. if u \<le> 21 then ''fs'' else ''no''),
      ld_strip = (\<lambda>u. if u = 21 then 20 else u), ld_from_directory_path = (\<lambda>_. Some 1),
      ld_from_file_path = (\<lambda>p. Some (length p)), ld_to_file_path = (\<lambda>u. Some (replicate u CHR ''a'')),
      ld_show = (\<lambda>_. ''url''), ld_is_builtin = (\<lambda>p. p = ''fs''), ld_npm_is_managed = Inr True,
      ld_in_npm_package = Inr (\<lambda>u. u = 5), ld_graph_resolve = (\<lambda>s r. Inr (length s)),
      ld_broker_installed = True, ld_query_read_all = True,
      ld_check_open = (\<lambda>p. if length p < 6 then Inr p else Inl ''denied''), ld_canonicalize = (\<lambda>p. Some (tl p))\<rparr>"

text \<open>A reload that would change a checksum, after the npm resolver has recorded a package.\<close>

theorem frozen_build_is_transactional_witness:
  "\<exists>l'. prepare_load sample_loader_env sample_graph_ops True StaysOpen 3
     (Some \<lparr>lk_remote = [7 \<mapsto> ''sum''], lk_pkg = Map.empty, lk_npm = Map.empty\<rparr>) ([3], [3])
   = (Inl ''frozen lockfile would change'', Some l', ([3], [3])) \<and> lk_remote l' = [7 \<mapsto> ''sum'']"
proof -
  let ?l = "Some \<lparr>lk_remote = [7 \<mapsto> ''sum''], lk_pkg = Map.empty, lk_npm = Map.empty\<rparr> :: (nat, nat) lockfile option"
  have result: "fst (prepare_load sample_loader_env sample_graph_ops True StaysOpen 3 ?l ([3], [3]))
      = Inl ''frozen lockfile would change''"
    by (simp add: prepare_load_def build_graph_def build_graph_attempt_def sample_loader_env_def
        sample_graph_ops_def lockfile_check_def already_loaded_def run_build_def retry_list_def Let_def
        List.map_filter_simps graph_locker_new_def frozen_locker_new_def set_remote_checksum_def
        get_remote_checksum_def)
  obtain l' g' where p: "prepare_load sample_loader_env sample_graph_ops True StaysOpen 3 ?l ([3], [3])
      = (Inl ''frozen lockfile would change'', l', g')"
    using result by (cases "prepare_load sample_loader_env sample_graph_ops True StaysOpen 3 ?l ([3], [3])") auto
  with frozen_build_is_transactional [OF p] show ?thesis by (cases l') (auto simp: checksums_def)
qed

theorem prepared_module_is_valid_witness:
  "\<exists>g. snd (snd (prepare_load sample_loader_env sample_graph_ops False StaysOpen 3 None ([], []))) = g \<and>
     is_ok (gr_validate_root sample_graph_ops g 3)"
proof -
  have node: "ld_scheme sample_loader_env 3 \<noteq> ''node''" by (simp add: sample_loader_env_def)
  have p: "prepare_load sample_loader_env sample_graph_ops False StaysOpen 3 None ([], []) = (Inr (), None, ([3], []))"
    by (simp add: prepare_load_def build_graph_def build_graph_attempt_def sample_loader_env_def
        sample_graph_ops_def lockfile_check_def already_loaded_def run_build_def retry_list_def Let_def
        List.map_filter_simps graph_locker_new_def)
  show ?thesis
    using prepared_module_is_valid(1) [OF node, of sample_graph_ops False StaysOpen None "([], [])" "()" None
        "([3], [])"] p by simp
qed

theorem failed_modules_are_retried_witness:
  "run_build sample_graph_ops None ([3, 4], [4, 3]) 3
     = gr_reload sample_graph_ops [3, 4] (locker_view None) ([3, 4], [4, 3])"
proof -
  have list: "retry_list sample_graph_ops ([3, 4], [4, 3]) 3 = [3, 4]"
    by (simp add: retry_list_def sample_graph_ops_def List.map_filter_simps)
  show ?thesis
    using failed_modules_are_retried(2) [of sample_graph_ops "([3, 4], [4, 3])" 3 None]
    unfolding list by (simp add: sample_graph_ops_def)
qed

section \<open>Properties of loading\<close>

text \<open>
  C23: Every file that load hands on was checked: a dynamic import of a file outside the npm
  packages was allowed now (unless no broker is installed and all reads are granted), and a
  package file is loaded, while a broker is installed, under the very path that the broker's
  check returned for its canonical form.
\<close>

theorem loads_are_checked:
  assumes "ld_scheme ld requested \<noteq> ''node''"
    and "load ld lo is_dynamic referrer ty graph requested = Inr source"
  shows "\<exists>specifier target in_npm loaded. ld_in_npm_package ld = Inr in_npm \<and>
    (lo_npm_reference lo requested = None \<longrightarrow> specifier = requested) \<and>
    lo_load lo graph target referrer ty = Inr loaded \<and>
    (is_dynamic \<and> ld_scheme ld specifier = ''file'' \<and> \<not> in_npm specifier \<and>
       (ld_broker_installed ld \<or> \<not> ld_query_read_all ld) \<longrightarrow>
       (\<forall>path. ld_to_file_path ld specifier = Some path \<longrightarrow> is_ok (ld_check_open ld path))) \<and>
    (if ld_broker_installed ld \<and> in_npm specifier \<and> ld_to_file_path ld specifier \<noteq> None
     then \<exists>path checked. ld_to_file_path ld specifier = Some path \<and>
       ld_check_open ld (case ld_canonicalize ld path of Some c \<Rightarrow> c | None \<Rightarrow> path) = Inr checked \<and>
       ld_from_file_path ld checked = Some target
     else target = specifier)"
proof -
  obtain target loaded where t: "load_target ld lo is_dynamic referrer requested = Inr target"
    and l: "lo_load lo graph target referrer ty = Inr loaded"
    using assms by (auto simp: load_def bind_res_Inr)
  obtain specifier in_npm u where found: "(case lo_npm_reference lo requested of
        Some resolve \<Rightarrow> map_err (\<lambda>e. cannot_resolve (ld_show ld requested) e)
          (resolve (case referrer of Some r \<Rightarrow> r | None \<Rightarrow> requested))
      | None \<Rightarrow> Inr requested) = Inr specifier"
      and s: "ld_in_npm_package ld = Inr in_npm"
      "(if is_dynamic then check_dynamic_import_read ld in_npm specifier else Inr ()) = Inr u"
      "check_npm_source_read ld in_npm specifier = Inr target"
    using t unfolding load_target_def bind_res_Inr by (elim exE conjE)
  have named: "lo_npm_reference lo requested = None \<longrightarrow> specifier = requested" using found by auto
  have "\<forall>path. ld_to_file_path ld specifier = Some path \<longrightarrow> is_ok (ld_check_open ld path)"
    if "is_dynamic \<and> ld_scheme ld specifier = ''file'' \<and> \<not> in_npm specifier \<and>
       (ld_broker_installed ld \<or> \<not> ld_query_read_all ld)"
    using s(2) that by (auto simp: check_dynamic_import_read_def bind_res_Inr is_ok_iff)
  moreover have "if ld_broker_installed ld \<and> in_npm specifier \<and> ld_to_file_path ld specifier \<noteq> None
     then \<exists>path checked. ld_to_file_path ld specifier = Some path \<and>
       ld_check_open ld (case ld_canonicalize ld path of Some c \<Rightarrow> c | None \<Rightarrow> path) = Inr checked \<and>
       ld_from_file_path ld checked = Some target
     else target = specifier"
    using s(3) by (auto simp: check_npm_source_read_def Let_def bind_res_Inr split: option.splits if_splits)
  ultimately show ?thesis
    using s(1) named l by (intro exI [of _ specifier] exI [of _ target] exI [of _ in_npm] exI [of _ loaded]) simp
qed

definition sample_load_ops :: "(nat, unit) load_ops" where
  "sample_load_ops =
     \<lparr>lo_npm_reference = (\<lambda>u. None),
      lo_load = (\<lambda>_ u _ _. Inr (LoadedModule (Inl (replicate u CHR ''m'')) False u)),
      lo_fetch = (\<lambda>_. Inl ''offline'')\<rparr>"

theorem loads_are_checked_witness:
  "\<exists>target. ld_from_file_path sample_loader_env (replicate 4 CHR ''a'') = Some target \<and>
     load sample_loader_env sample_load_ops True None RmNone () 5
       = Inr \<lparr>ms_type = MtJavaScript, ms_code = Inl (replicate target CHR ''m''), ms_requested = 5, ms_found = target\<rparr>"
proof -
  have node: "ld_scheme sample_loader_env 5 \<noteq> ''node''" by (simp add: sample_loader_env_def)
  have ok: "load sample_loader_env sample_load_ops True None RmNone () 5
      = Inr \<lparr>ms_type = MtJavaScript, ms_code = Inl (replicate 4 CHR ''m''), ms_requested = 5, ms_found = 4\<rparr>"
    by (simp add: load_def load_target_def check_dynamic_import_read_def check_npm_source_read_def
        sample_loader_env_def sample_load_ops_def)
  show ?thesis
    using loads_are_checked [OF node ok] ok by (auto simp: sample_loader_env_def sample_load_ops_def)
qed

text \<open>
  Resolution and loading agree on Node's builtins: a node: URL that comes out of resolution is
  accepted by prepare_load and load as an empty module that touches neither graph nor
  lockfile, and any other spelling of a builtin, or an unknown one, is refused by both.
\<close>

theorem node_builtins_agree:
  assumes url_ops: "\<And>u. ld_strip ld (ld_strip ld u) = ld_strip ld u" "\<And>u. ld_path ld (ld_strip ld u) = ld_path ld u"
      "\<And>u. ld_scheme ld (ld_strip ld u) = ld_scheme ld u"
    and node: "ld_scheme ld url = ''node''"
  shows "resolve_specifier ld main_module specifier referrer cwd = Inr url \<longrightarrow>
      prepare_load ld gr frozen lifecycle url lockfile graph = (Inr (), lockfile, graph) \<and>
      load ld lo is_dynamic ref ty graph url
        = Inr \<lparr>ms_type = MtJavaScript, ms_code = Inl '''', ms_requested = url, ms_found = url\<rparr>"
    and "\<not> ld_is_builtin ld (ld_path ld url) \<or> ld_strip ld url \<noteq> url \<longrightarrow>
      \<not> is_ok (fst (prepare_load ld gr frozen lifecycle url lockfile graph)) \<and>
      \<not> is_ok (load ld lo is_dynamic ref ty graph url)"
proof -
  have canonical: "validate_node_builtin_identity ld url = Inr ()" if "normalize_node_builtin ld u = Inr url" for u
    using that url_ops by (auto simp: normalize_node_builtin_def validate_node_builtin_identity_def split: if_splits)
  have "\<exists>u. normalize_node_builtin ld u = Inr url" if r: "resolve_specifier ld main_module specifier referrer cwd = Inr url"
  proof -
    have via: "\<exists>u. normalize_node_builtin ld u = Inr url" if "node_or ld u = Inr url" for u
      using that node by (auto simp: node_or_def split: if_splits)
    show ?thesis
      using r node via
      by (auto simp: resolve_specifier_def bind_res_Inr split: if_splits sum.splits)
  qed
  with canonical show "resolve_specifier ld main_module specifier referrer cwd = Inr url \<longrightarrow>
      prepare_load ld gr frozen lifecycle url lockfile graph = (Inr (), lockfile, graph) \<and>
      load ld lo is_dynamic ref ty graph url
        = Inr \<lparr>ms_type = MtJavaScript, ms_code = Inl '''', ms_requested = url, ms_found = url\<rparr>"
    using node by (auto simp: prepare_load_def load_def)
  show "\<not> ld_is_builtin ld (ld_path ld url) \<or> ld_strip ld url \<noteq> url \<longrightarrow>
      \<not> is_ok (fst (prepare_load ld gr frozen lifecycle url lockfile graph)) \<and>
      \<not> is_ok (load ld lo is_dynamic ref ty graph url)"
    using node
    by (auto simp: prepare_load_def load_def validate_node_builtin_identity_def normalize_node_builtin_def)
qed

theorem node_builtins_agree_witness:
  "resolve_specifier sample_loader_env False ''node:fs?x'' '''' ''/'' = Inr 20 \<and>
   prepare_load sample_loader_env sample_graph_ops True Closing 20 None ([], []) = (Inr (), None, ([], [])) \<and>
   \<not> is_ok (fst (prepare_load sample_loader_env sample_graph_ops True Closing 21 None ([], [])))"
proof -
  have r: "resolve_specifier sample_loader_env False ''node:fs?x'' '''' ''/'' = Inr 20"
    by (simp add: resolve_specifier_def normalize_node_builtin_def sample_loader_env_def)
  have laws: "\<And>u. ld_strip sample_loader_env (ld_strip sample_loader_env u) = ld_strip sample_loader_env u"
    "\<And>u. ld_path sample_loader_env (ld_strip sample_loader_env u) = ld_path sample_loader_env u"
    "\<And>u. ld_scheme sample_loader_env (ld_strip sample_loader_env u) = ld_scheme sample_loader_env u"
    by (auto simp: sample_loader_env_def)
  have n20: "ld_scheme sample_loader_env 20 = ''node''" and n21: "ld_scheme sample_loader_env 21 = ''node''"
    by (simp_all add: sample_loader_env_def)
  show ?thesis
    using r node_builtins_agree(1) [OF laws n20, of False "''node:fs?x''" "''''" "''/''" sample_graph_ops True Closing
        None "([], [])"]
      node_builtins_agree(2) [OF laws n21, of sample_graph_ops True Closing None "([], [])"]
    by (simp add: sample_loader_env_def)
qed

end
