(* ===== verification/Ld_Run.thy ===== *)
theory Ld_Run
  imports Ld_Entry Ld_Redirect Ld_Lease Ld_Limits
begin

text \<open>
  In-process runs (src/src/lib.rs and src/src/runtime.rs): how a run is put together from the
  admission lease, the guard of the asynchronous entry points, the capture of stdio, the checks
  before the script, the main worker, the wait for its workers and the mapping of the result. The
  pieces are those of the other theories; what deno_runtime and tokio answer is a parameter.
\<close>

section \<open>The run itself\<close>

text \<open>
  What a run does that a host can observe. \<open>EvScript\<close> is the start of the main worker's code,
  \<open>EvWorkersAwaited\<close> the end of \<open>close_and_wait\<close>, \<open>EvOwnerClosed\<close> the drop of the
  \<open>WorkerLifecycleOwner\<close>.
\<close>

datatype run_event =
    EvServices
  | EvWorkerBuilt
  | EvScript
  | EvWorkersAwaited bool
  | EvSnapshotSaved
  | EvOwnerClosed

text \<open>
  An asynchronous function that may stop with an error, or be abandoned while it is awaited (\<open>None\<close>:
  its future is dropped, or a panic unwinds it), with the events so far.
\<close>

type_synonym 'a run_act = "'a libdeno_result option \<times> run_event list"

definition bind_run :: "'a run_act \<Rightarrow> ('a \<Rightarrow> 'b run_act) \<Rightarrow> 'b run_act" where
  "bind_run m f =
     (case m of
        (None, tr) \<Rightarrow> (None, tr)
      | (Some (Inl e), tr) \<Rightarrow> (Some (Inl e), tr)
      | (Some (Inr x), tr) \<Rightarrow> (fst (f x), tr @ snd (f x)))"

definition try_run :: "'a libdeno_result \<Rightarrow> 'a run_act" where
  "try_run r = (Some r, [])"

definition await_run :: "'a option \<Rightarrow> 'a run_act" where
  "await_run r = (map_option Inr r, [])"

definition emit_run :: "run_event \<Rightarrow> unit run_act" where
  "emit_run e = (Some (Inr ()), [e])"

text \<open>The events of a drop at the end of a scope, on every way out of it.\<close>

definition finally_run :: "'a run_act \<Rightarrow> run_event \<Rightarrow> 'a run_act" where
  "finally_run m e = (fst m, snd m @ [e])"

text \<open>
  What the run calls: \<open>'s\<close> is \<open>SharedServices\<close>, \<open>'p\<close> the parsed permissions, \<open>'u\<close>
  \<open>ModuleSpecifier\<close>. \<open>rv_worker\<close> is \<open>run_worker_cancellable\<close> of \<open>Ld_Limits\<close> on the main worker and the
  run's in-memory files; \<open>rv_cleaned\<close> is what \<open>close_and_wait\<close> returns. The remaining fields belong to
  the calls around the run.
\<close>

type_synonym cancellation = "(nat \<Rightarrow> bool) option"

record ('s, 'p, 'u) run_env =
  rv_now :: instant
  rv_entry :: "'u entry_env"
  rv_random :: "string + bytes"
  rv_from_options :: "permissions_options \<Rightarrow> string + 'p"
  rv_services :: "'s \<Rightarrow> 'p permissions_container \<Rightarrow> string + unit"
  rv_check_open :: "'p permissions_container \<Rightarrow> string \<Rightarrow> string + unit"
  rv_npm_resolver :: "'s \<Rightarrow> string + bool"
  rv_build_worker :: "'s \<Rightarrow> 'p permissions_container \<Rightarrow> 'u \<Rightarrow> libdeno_options \<Rightarrow> bool \<Rightarrow> unit libdeno_result"
  rv_worker :: "'s \<Rightarrow> 'u \<Rightarrow> ('u \<rightharpoonup> bytes) \<Rightarrow> duration option \<Rightarrow> cancellation
    \<Rightarrow> (exec_termination + unit libdeno_result) option"
  rv_cleaned :: "bool option"
  rv_exit_code :: int
  rv_watcher_exited :: bool
  rv_show_duration :: "duration \<Rightarrow> string"
  rv_new_shared :: "string \<Rightarrow> string list \<Rightarrow> (string + 's) option"
  rv_runtime_shared :: "('s libdeno_result) option"
  rv_runtime_cwd :: string
  rv_build_runtime :: "string + unit"
  rv_in_tokio :: bool
  rv_spawn :: "unit io_result"
  rv_worker_counts :: "nat \<times> nat"
  rv_others :: "64 word \<Rightarrow> 64 word"
  rv_out_blocks :: "(bytes \<times> bool) io_result"
  rv_err_blocks :: "(bytes \<times> bool) io_result"

definition cancelled_message :: libdeno_error where
  "cancelled_message = ErrTimeout ''execution cancellation requested; isolate terminated''"

text \<open>\<open>cancellation_checkpoint\<close>; the checkpoints of a run are numbered, for a request can come between.\<close>

definition cancellation_checkpoint :: "cancellation \<Rightarrow> nat \<Rightarrow> unit libdeno_result" where
  "cancellation_checkpoint cancellation k =
     (if (case cancellation of None \<Rightarrow> False | Some requested \<Rightarrow> requested k)
      then Inl cancelled_message else Inr ())"

definition validate_run_options :: "instant \<Rightarrow> libdeno_options \<Rightarrow> unit libdeno_result" where
  "validate_run_options now options =
     bind_res (validate_max_heap_bytes (lo_max_heap_bytes options)) (\<lambda>_.
     bind_res (validate_execution_deadline now (lo_execution_deadline options)) (\<lambda>_.
     bind_res (validate_prompt_capture (lo_prompt options) (lo_capture_stderr options)) (\<lambda>_.
     reject_zero_deadline (lo_execution_deadline options))))"

text \<open>The permission-bound services and the main module, with the run's in-memory files.\<close>

definition run_services ::
  "('s, 'p, 'u) run_env \<Rightarrow> 's \<Rightarrow> string \<Rightarrow> entry_source \<Rightarrow> libdeno_options
   \<Rightarrow> ('p permissions_container \<times> 'u \<times> ('u \<rightharpoonup> bytes)) run_act" where
  "run_services rv shared cwd entry options =
     bind_run (try_run (build_permissions (rv_from_options rv) (lo_permissions options)
        (lo_allow_all_permissions options) (lo_prompt options) cwd)) (\<lambda>permissions.
     bind_run (try_run (map_err ErrRuntime (rv_services rv shared permissions))) (\<lambda>_.
     bind_run (emit_run EvServices) (\<lambda>_.
     case resolve_main_module (rv_entry rv) (rv_random rv) entry cwd Map.empty of
       (resolved_main, files) \<Rightarrow>
         bind_run (try_run resolved_main) (\<lambda>main_module.
           try_run (Inr (permissions, main_module, files))))))"

text \<open>The result of the main worker, once its workers have been awaited.\<close>

definition worker_result ::
  "('s, 'p, 'u) run_env \<Rightarrow> exec_termination + unit libdeno_result \<Rightarrow> int libdeno_result" where
  "worker_result rv run_result =
     (case run_result of
        Inl (TermDeadline deadline) \<Rightarrow>
          Inl (ErrTimeout (''execution deadline of '' @ rv_show_duration rv deadline
            @ '' exceeded; isolate terminated''))
      | Inl TermCancelled \<Rightarrow> Inl cancelled_message
      | Inl (TermInfrastructure error) \<Rightarrow> Inl (ErrIo error)
      | Inr (Inr _) \<Rightarrow> Inr (rv_exit_code rv)
      | Inr (Inl e) \<Rightarrow> if rv_watcher_exited rv then Inr (rv_exit_code rv) else Inl e)"

text \<open>The part of the run that owns its workers.\<close>

definition run_main ::
  "('s, 'p, 'u) run_env \<Rightarrow> 's \<Rightarrow> libdeno_options \<Rightarrow> cancellation
   \<Rightarrow> 'p permissions_container \<times> 'u \<times> ('u \<rightharpoonup> bytes) \<Rightarrow> int run_act" where
  "run_main rv shared options cancellation start =
     (case start of (permissions, main_module, files) \<Rightarrow>
     finally_run
      (bind_run (try_run (cancellation_checkpoint cancellation 1)) (\<lambda>_.
       bind_run (try_run (check_entry_read_permission (rv_entry rv) (rv_check_open rv permissions)
         main_module)) (\<lambda>_.
       bind_run (try_run (map_err ErrRuntime (rv_npm_resolver rv shared))) (\<lambda>has_node_modules_dir.
       bind_run (try_run (cancellation_checkpoint cancellation 2)) (\<lambda>_.
       bind_run (try_run (rv_build_worker rv shared permissions main_module options has_node_modules_dir)) (\<lambda>_.
       bind_run (emit_run EvWorkerBuilt) (\<lambda>_.
       bind_run (try_run (cancellation_checkpoint cancellation 3)) (\<lambda>_.
       bind_run (emit_run EvScript) (\<lambda>_.
       bind_run (await_run (rv_worker rv shared main_module files (lo_execution_deadline options)
         cancellation)) (\<lambda>run_result.
       bind_run (await_run (rv_cleaned rv)) (\<lambda>workers_cleaned.
       bind_run (emit_run (EvWorkersAwaited workers_cleaned)) (\<lambda>_.
       bind_run (try_run (if \<not> workers_cleaned
         then Inl (ErrRuntime ''worker lifecycle cleanup ended before all workers stopped'')
         else worker_result rv run_result)) (\<lambda>exit_code.
       bind_run (emit_run EvSnapshotSaved) (\<lambda>_.
       try_run (Inr exit_code))))))))))))))) EvOwnerClosed)"

definition run_inner_with_cancellation ::
  "('s, 'p, 'u) run_env \<Rightarrow> 's \<Rightarrow> string \<Rightarrow> entry_source \<Rightarrow> libdeno_options \<Rightarrow> cancellation \<Rightarrow> int run_act" where
  "run_inner_with_cancellation rv shared cwd entry options cancellation =
     bind_run (try_run (cancellation_checkpoint cancellation 0)) (\<lambda>_.
     bind_run (try_run (validate_run_options (rv_now rv) options)) (\<lambda>_.
     bind_run (run_services rv shared cwd entry options) (\<lambda>start.
     run_main rv shared options cancellation start)))"

definition run_inner_with ::
  "('s, 'p, 'u) run_env \<Rightarrow> 's \<Rightarrow> string \<Rightarrow> entry_source \<Rightarrow> libdeno_options \<Rightarrow> int run_act" where
  "run_inner_with rv shared cwd entry options = run_inner_with_cancellation rv shared cwd entry options None"

text \<open>\<open>run_inner\<close> builds a resolver stack of its own.\<close>

definition fresh_shared ::
  "('s, 'p, 'u) run_env \<Rightarrow> entry_source \<Rightarrow> libdeno_options \<Rightarrow> (string \<times> 's) run_act" where
  "fresh_shared rv entry options =
     bind_run (try_run (entry_cwd (rv_entry rv) entry options)) (\<lambda>cwd.
     bind_run (try_run (config_start_paths (rv_entry rv) entry cwd)) (\<lambda>start_paths.
     bind_run (await_run (rv_new_shared rv cwd start_paths)) (\<lambda>built.
     bind_run (try_run (map_err ErrRuntime built)) (\<lambda>shared.
     try_run (Inr (cwd, shared))))))"

definition run_inner :: "('s, 'p, 'u) run_env \<Rightarrow> entry_source \<Rightarrow> libdeno_options \<Rightarrow> int run_act" where
  "run_inner rv entry options =
     bind_run (fresh_shared rv entry options) (\<lambda>(cwd, shared). run_inner_with rv shared cwd entry options)"

text \<open>The synchronous forms block on a runtime of their own.\<close>

definition block_on :: "('s, 'p, 'u) run_env \<Rightarrow> 'a run_act \<Rightarrow> 'a run_act" where
  "block_on rv m = bind_run (try_run (map_err ErrRuntime (rv_build_runtime rv))) (\<lambda>_. m)"

definition run_sync :: "('s, 'p, 'u) run_env \<Rightarrow> entry_source \<Rightarrow> libdeno_options \<Rightarrow> int run_act" where
  "run_sync rv entry options = block_on rv (run_inner rv entry options)"

definition run_sync_cancellable ::
  "('s, 'p, 'u) run_env \<Rightarrow> entry_source \<Rightarrow> libdeno_options \<Rightarrow> cancellation \<Rightarrow> int run_act" where
  "run_sync_cancellable rv entry options cancellation =
     block_on rv (bind_run (fresh_shared rv entry options) (\<lambda>(cwd, shared).
       run_inner_with_cancellation rv shared cwd entry options cancellation))"

text \<open>The reusable runtime takes the shared stack of \<open>shared_for_run\<close>.\<close>

definition run_with_sync_cancellable ::
  "('s, 'p, 'u) run_env \<Rightarrow> entry_source \<Rightarrow> libdeno_options \<Rightarrow> cancellation \<Rightarrow> int run_act" where
  "run_with_sync_cancellable rv entry options cancellation =
     block_on rv (bind_run (rv_runtime_shared rv, []) (\<lambda>shared.
       run_inner_with_cancellation rv shared (rv_runtime_cwd rv) entry options cancellation))"

definition run_with_sync :: "('s, 'p, 'u) run_env \<Rightarrow> entry_source \<Rightarrow> libdeno_options \<Rightarrow> int run_act" where
  "run_with_sync rv entry options = run_with_sync_cancellable rv entry options None"

section \<open>Around the run\<close>

text \<open>
  What the calling thread shares with a run: the word of \<open>RUN_STATE\<close>, the thread's
  \<open>RUN_ASYNC_IN_PROGRESS\<close>, and the descriptors and capture readers of the process.
\<close>

record proc =
  pc_lease :: "64 word"
  pc_in_progress :: bool
  pc_os :: os

text \<open>
  How a call ends: with a value, abandoned (its future was dropped or a panic unwinds it, and every
  guard with it), or with the abort of the process.
\<close>

datatype 'a ended = Ended 'a | Abandoned | HostAborted

type_synonym 'a call = "'a ended \<times> run_event list"

type_synonym captured_result = "captured_run_error + run_output"

definition map_call :: "('a \<Rightarrow> 'b) \<Rightarrow> 'a call \<times> 'w \<Rightarrow> 'b call \<times> 'w" where
  "map_call f c = (case c of ((r, tr), w) \<Rightarrow> ((map_ended f r, tr), w))"

text \<open>
  \<open>RunLease::acquire\<close> when no other thread changes the word between its accesses (their interleaving
  is the subject of \<open>Ld_Lease\<close>); \<open>counts\<close> are the two readings of the number of live workers.
\<close>

definition lease_acquire :: "bool \<Rightarrow> nat \<times> nat \<Rightarrow> 64 word \<Rightarrow> run_lease libdeno_result \<times> 64 word" where
  "lease_acquire captured counts state =
     (if captured
      then (case exclusive_check CAPTURE_MARKER (fst counts) of
              Inl e \<Rightarrow> (Inl e, state)
            | Inr _ \<Rightarrow>
                (case exclusive_exchange CAPTURE_MARKER state of
                   (Inl e, state') \<Rightarrow> (Inl e, state')
                 | (Inr _, state') \<Rightarrow>
                     (case exclusive_check CAPTURE_MARKER (snd counts) of
                        Inl e \<Rightarrow> (Inl e, 0)
                      | Inr _ \<Rightarrow> (Inr (Some CAPTURE_MARKER), state'))))
      else (case lease_load state of
              Inl e \<Rightarrow> (Inl e, state)
            | Inr cur \<Rightarrow> (Inr None, snd (lease_exchange cur state))))"

text \<open>
  A call that holds the lease while its body works on the descriptors. Meanwhile other threads may
  have changed the word (\<open>rv_others\<close>).
\<close>

definition with_lease ::
  "('s, 'p, 'u) run_env \<Rightarrow> bool \<Rightarrow> (libdeno_error \<Rightarrow> 'a) \<Rightarrow> (os \<Rightarrow> 'a call \<times> os) \<Rightarrow> proc \<Rightarrow> 'a call \<times> proc" where
  "with_lease rv captured failed body p =
     (case lease_acquire captured (rv_worker_counts rv) (pc_lease p) of
        (Inl e, state) \<Rightarrow> ((Ended (failed e), []), p\<lparr>pc_lease := state\<rparr>)
      | (Inr lease, state) \<Rightarrow>
          (case body (pc_os p) of
             (result, s) \<Rightarrow>
               (result, p\<lparr>pc_os := s, pc_lease := lease_drop lease (rv_others rv state)\<rparr>)))"

text \<open>
  The escape of a synchronous call from a tokio context: the body runs on a thread of its own, whose
  panic is an error of the call.
\<close>

definition escape_tokio ::
  "('s, 'p, 'u) run_env \<Rightarrow> (libdeno_error \<Rightarrow> 'a) \<Rightarrow> (os \<Rightarrow> 'a call \<times> os) \<Rightarrow> os \<Rightarrow> 'a call \<times> os" where
  "escape_tokio rv failed body s =
     (if \<not> rv_in_tokio rv then body s
      else case rv_spawn rv of
             Inl e \<Rightarrow> ((Ended (failed (ErrIo e)), []), s)
           | Inr _ \<Rightarrow>
               (case body s of
                  ((Abandoned, tr), t) \<Rightarrow> ((Ended (failed (ErrRuntime ''libdeno worker thread panicked'')), tr), t)
                | other \<Rightarrow> other))"

definition captures :: "libdeno_options \<Rightarrow> bool" where
  "captures options \<longleftrightarrow> lo_capture_stdout options \<or> lo_capture_stderr options"

text \<open>
  The capture around a run: the streams are redirected before it and given back after it; an
  abandoned run drops the \<open>OutputCapture\<close>. \<open>finish\<close> is the way the streams are collected.
\<close>

definition captured_run ::
  "(capture_pair \<Rightarrow> int libdeno_result \<Rightarrow> os \<Rightarrow> captured_result ended \<times> os)
   \<Rightarrow> libdeno_options \<Rightarrow> int run_act \<Rightarrow> os \<Rightarrow> captured_result call \<times> os" where
  "captured_run finish options run s =
     (case validate_prompt_capture (lo_prompt options) (lo_capture_stderr options) of
        Inl e \<Rightarrow> ((Ended (Inl (captured_run_error_new e)), []), s)
      | Inr _ \<Rightarrow>
          (case output_capture_new (lo_capture_stdout options) (lo_capture_stderr options) s of
             (Fail e, t) \<Rightarrow> ((Ended (Inl (captured_run_error_new (ErrIo e))), []), t)
           | (Aborted, t) \<Rightarrow> ((HostAborted, []), t)
           | (Ok pair, t) \<Rightarrow>
               (case run of
                  (Some result, tr) \<Rightarrow> (case finish pair result t of (r, u) \<Rightarrow> ((r, tr), u))
                | (None, tr) \<Rightarrow>
                    (case drop_pending pair t of
                       (Aborted, u) \<Rightarrow> ((HostAborted, tr), u)
                     | (_, u) \<Rightarrow> ((Abandoned, tr), u)))))"

definition finish_capture ::
  "('s, 'p, 'u) run_env \<Rightarrow> capture_pair \<Rightarrow> int libdeno_result \<Rightarrow> os \<Rightarrow> captured_result ended \<times> os" where
  "finish_capture rv pair result s =
     (case output_capture_finish pair (rv_out_blocks rv) (rv_err_blocks rv) s of
        (Ok collected, t) \<Rightarrow> (Ended (combine_capture result collected), t)
      | (Fail e, t) \<Rightarrow> (Ended (Inl (captured_run_error_new (ErrIo e))), t)
      | (Aborted, t) \<Rightarrow> (HostAborted, t))"

definition run_sync_output_cancellable ::
  "('s, 'p, 'u) run_env \<Rightarrow> entry_source \<Rightarrow> libdeno_options \<Rightarrow> cancellation \<Rightarrow> os \<Rightarrow> captured_result call \<times> os" where
  "run_sync_output_cancellable rv entry options cancellation =
     captured_run (finish_capture rv) options (run_sync_cancellable rv entry options cancellation)"

definition into_error :: "captured_result \<Rightarrow> run_output libdeno_result" where
  "into_error = map_err ce_error"

definition run_sync_output ::
  "('s, 'p, 'u) run_env \<Rightarrow> entry_source \<Rightarrow> libdeno_options \<Rightarrow> os \<Rightarrow> run_output libdeno_result call \<times> os" where
  "run_sync_output rv entry options s =
     map_call into_error (captured_run (finish_capture rv) options (run_sync rv entry options) s)"

definition run_with_sync_output_cancellable ::
  "('s, 'p, 'u) run_env \<Rightarrow> entry_source \<Rightarrow> libdeno_options \<Rightarrow> cancellation \<Rightarrow> os \<Rightarrow> captured_result call \<times> os" where
  "run_with_sync_output_cancellable rv entry options cancellation =
     captured_run (finish_capture rv) options (run_with_sync_cancellable rv entry options cancellation)"

section \<open>Entry points with a fresh resolver stack\<close>

definition run_with_output_observed ::
  "('s, 'p, 'u) run_env \<Rightarrow> entry_source \<Rightarrow> libdeno_options \<Rightarrow> proc \<Rightarrow> run_output libdeno_result call \<times> proc" where
  "run_with_output_observed rv entry options =
     with_lease rv (captures options) Inl (escape_tokio rv Inl (run_sync_output rv entry options))"

definition run_with_output_observed_cancellable ::
  "('s, 'p, 'u) run_env \<Rightarrow> entry_source \<Rightarrow> libdeno_options \<Rightarrow> cancellation \<Rightarrow> proc
   \<Rightarrow> captured_result call \<times> proc" where
  "run_with_output_observed_cancellable rv entry options cancellation =
     with_lease rv (captures options) (Inl \<circ> captured_run_error_new)
       (escape_tokio rv (Inl \<circ> captured_run_error_new)
         (run_sync_output_cancellable rv entry options cancellation))"

definition run_with_output_path ::
  "('s, 'p, 'u) run_env \<Rightarrow> string \<Rightarrow> libdeno_options \<Rightarrow> proc \<Rightarrow> run_output libdeno_result call \<times> proc" where
  "run_with_output_path rv entry options = run_with_output_observed rv (from_path entry) options"

definition exit_code_of :: "run_output libdeno_result \<Rightarrow> int libdeno_result" where
  "exit_code_of r = (case r of Inl e \<Rightarrow> Inl e | Inr out \<Rightarrow> Inr (ro_exit_code out))"

definition run_path ::
  "('s, 'p, 'u) run_env \<Rightarrow> string \<Rightarrow> libdeno_options \<Rightarrow> proc \<Rightarrow> int libdeno_result call \<times> proc" where
  "run_path rv entry options p = map_call exit_code_of (run_with_output_path rv entry options p)"

text \<open>A call that stops before the run, or goes on with a value.\<close>

definition then_call :: "'b libdeno_result \<Rightarrow> ('b \<Rightarrow> proc \<Rightarrow> 'a libdeno_result call \<times> proc) \<Rightarrow> proc
    \<Rightarrow> 'a libdeno_result call \<times> proc" where
  "then_call r f p = (case r of Inl e \<Rightarrow> ((Ended (Inl e), []), p) | Inr x \<Rightarrow> f x p)"

definition memory_entry ::
  "('s, 'p, 'u) run_env \<Rightarrow> bytes \<Rightarrow> source_lang \<Rightarrow> string \<Rightarrow> libdeno_options \<Rightarrow> entry_source libdeno_result" where
  "memory_entry rv code lang base_dir options =
     bind_res (effective_cwd (en_host (rv_entry rv)) options) (\<lambda>cwd.
       entry_source_memory (rv_entry rv) code lang base_dir cwd)"

definition run_source_with_output ::
  "('s, 'p, 'u) run_env \<Rightarrow> bytes \<Rightarrow> source_lang \<Rightarrow> string \<Rightarrow> libdeno_options \<Rightarrow> proc
   \<Rightarrow> run_output libdeno_result call \<times> proc" where
  "run_source_with_output rv code lang base_dir options =
     then_call (memory_entry rv code lang base_dir options) (\<lambda>entry. run_with_output_observed rv entry options)"

definition run_source ::
  "('s, 'p, 'u) run_env \<Rightarrow> bytes \<Rightarrow> source_lang \<Rightarrow> string \<Rightarrow> libdeno_options \<Rightarrow> proc
   \<Rightarrow> int libdeno_result call \<times> proc" where
  "run_source rv code lang base_dir options p =
     map_call exit_code_of (run_source_with_output rv code lang base_dir options p)"

text \<open>
  The deadline guard around a cancellable run: \<open>spawn\<close> is the outcome of its thread, and \<open>polls\<close> says
  at which checkpoint somebody has requested a cancellation of the context.
\<close>

definition run_until ::
  "instant option \<Rightarrow> cancel_ctx option \<Rightarrow> instant \<Rightarrow> unit io_result \<Rightarrow> (nat \<Rightarrow> bool)
   \<Rightarrow> (cancellation \<Rightarrow> proc \<Rightarrow> captured_result call \<times> proc) \<Rightarrow> proc \<Rightarrow> captured_result call \<times> proc" where
  "run_until absolute_deadline ctx now spawn polls run p =
     (case absolute_deadline_guard_new absolute_deadline ctx now spawn of
        (Inl e, _) \<Rightarrow> ((Ended (Inl (captured_run_error_new (ErrIo e))), []), p)
      | (Inr _, ctx') \<Rightarrow> run (map_option (\<lambda>c k. cc_requested c \<or> polls k) ctx') p)"

section \<open>Asynchronous entry points\<close>

definition async_in_progress :: libdeno_error where
  "async_in_progress = ErrConfiguration
     (''a run_async is already in progress on this thread; run_async futures must not be interleaved ''
      @ [CHR 0xE2, CHR 0x80, CHR 0x94] @ '' await them one at a time, or use run() for parallel runs'')"

text \<open>\<open>AsyncRunGuard\<close>: \<open>replace(true)\<close> on acquisition, \<open>set(false)\<close> on its drop.\<close>

definition with_async_guard ::
  "(libdeno_error \<Rightarrow> 'a) \<Rightarrow> (proc \<Rightarrow> 'a call \<times> proc) \<Rightarrow> proc \<Rightarrow> 'a call \<times> proc" where
  "with_async_guard failed body p =
     (if pc_in_progress p
      then ((Ended (failed async_in_progress), []), p\<lparr>pc_in_progress := True\<rparr>)
      else case body (p\<lparr>pc_in_progress := True\<rparr>) of
             (result, q) \<Rightarrow> (result, q\<lparr>pc_in_progress := False\<rparr>))"

definition check_async_context :: "('s, 'p, 'u) run_env \<Rightarrow> unit libdeno_result" where
  "check_async_context rv =
     (if \<not> rv_in_tokio rv
      then Inl (ErrConfiguration ''run_async must be called from inside a tokio runtime context; outside one, use run()'')
      else Inr ())"

text \<open>
  The collection of an asynchronous run: the streams are restored at once; what is left runs on the
  blocking pool if there is a capture, where the task can fail (its handle then drops the pending
  capture) and the waiting future can be dropped.
\<close>

datatype collect_task = CtDone | CtFailed string | CtDropped

definition finish_async ::
  "('s, 'p, 'u) run_env \<Rightarrow> collect_task \<Rightarrow> bool \<Rightarrow> capture_pair \<Rightarrow> int libdeno_result \<Rightarrow> os
   \<Rightarrow> captured_result ended \<times> os" where
  "finish_async rv task captured pair result s =
     (case output_capture_restore pair s of
        (Ok pending, t) \<Rightarrow>
          (case capture_collect pending (rv_out_blocks rv) (rv_err_blocks rv) t of
             (Ok collected, u) \<Rightarrow>
               ((if \<not> captured then Ended (combine_capture result collected)
                 else case task of
                        CtDone \<Rightarrow> Ended (combine_capture result collected)
                      | CtFailed e \<Rightarrow> Ended (combine_capture result
                          (Inl (IoError EkOther (''output collection task failed: '' @ e))))
                      | CtDropped \<Rightarrow> Abandoned), u)
           | (Fail e, u) \<Rightarrow> (Ended (Inl (captured_run_error_new (ErrIo e))), u)
           | (Aborted, u) \<Rightarrow> (HostAborted, u))
      | (Fail e, t) \<Rightarrow> (Ended (Inl (captured_run_error_new (ErrIo e))), t)
      | (Aborted, t) \<Rightarrow> (HostAborted, t))"

definition run_with_output_async_guarded ::
  "('s, 'p, 'u) run_env \<Rightarrow> collect_task \<Rightarrow> libdeno_options \<Rightarrow> int run_act \<Rightarrow> proc
   \<Rightarrow> captured_result call \<times> proc" where
  "run_with_output_async_guarded rv task options run =
     with_async_guard (Inl \<circ> captured_run_error_new)
       (with_lease rv (captures options) (Inl \<circ> captured_run_error_new)
         (captured_run (finish_async rv task (captures options)) options run))"

definition run_with_output_async ::
  "('s, 'p, 'u) run_env \<Rightarrow> collect_task \<Rightarrow> string \<Rightarrow> libdeno_options \<Rightarrow> proc
   \<Rightarrow> run_output libdeno_result call \<times> proc" where
  "run_with_output_async rv task entry options =
     then_call (check_async_context rv) (\<lambda>_ p. map_call into_error
       (run_with_output_async_guarded rv task options (run_inner rv (from_path entry) options) p))"

definition run_async ::
  "('s, 'p, 'u) run_env \<Rightarrow> collect_task \<Rightarrow> string \<Rightarrow> libdeno_options \<Rightarrow> proc \<Rightarrow> int libdeno_result call \<times> proc" where
  "run_async rv task entry options p = map_call exit_code_of (run_with_output_async rv task entry options p)"

definition run_source_with_output_async ::
  "('s, 'p, 'u) run_env \<Rightarrow> collect_task \<Rightarrow> bytes \<Rightarrow> source_lang \<Rightarrow> string \<Rightarrow> libdeno_options \<Rightarrow> proc
   \<Rightarrow> run_output libdeno_result call \<times> proc" where
  "run_source_with_output_async rv task code lang base_dir options =
     then_call (bind_res (check_async_context rv) (\<lambda>_. memory_entry rv code lang base_dir options)) (\<lambda>entry p.
       map_call into_error (run_with_output_async_guarded rv task options (run_inner rv entry options) p))"

definition run_source_async ::
  "('s, 'p, 'u) run_env \<Rightarrow> collect_task \<Rightarrow> bytes \<Rightarrow> source_lang \<Rightarrow> string \<Rightarrow> libdeno_options \<Rightarrow> proc
   \<Rightarrow> int libdeno_result call \<times> proc" where
  "run_source_async rv task code lang base_dir options p =
     map_call exit_code_of (run_source_with_output_async rv task code lang base_dir options p)"

section \<open>Entry points with the stack of a runtime\<close>

definition reject_capture_flags :: "libdeno_options \<Rightarrow> unit libdeno_result" where
  "reject_capture_flags options =
     (if captures options
      then Inl (ErrConfiguration ''run_with does not support output capture (it returns only the exit code); use run_with_output for capture on the reusable stack'')
      else Inr ())"

definition canonical :: "('s, 'p, 'u) run_env \<Rightarrow> string \<Rightarrow> string option" where
  "canonical rv p = (case he_canonicalize (en_host (rv_entry rv)) p of Inl _ \<Rightarrow> None | Inr c \<Rightarrow> Some c)"

definition reject_unusable_cwd :: "('s, 'p, 'u) run_env \<Rightarrow> libdeno_options \<Rightarrow> unit libdeno_result" where
  "reject_unusable_cwd rv options =
     (case lo_cwd options of
        None \<Rightarrow> Inr ()
      | Some cwd \<Rightarrow>
          if canonical rv cwd \<noteq> canonical rv (rv_runtime_cwd rv)
          then Inl (ErrConfiguration (''run_with ignores LibdenoOptions.cwd (the resolver stack is scoped to the runtime's directory ''
            @ rv_runtime_cwd rv @ ''); build the runtime for that directory instead, or omit cwd''))
          else Inr ())"

definition check_source_preconditions ::
  "('s, 'p, 'u) run_env \<Rightarrow> libdeno_options \<Rightarrow> bool \<Rightarrow> unit libdeno_result" where
  "check_source_preconditions rv options capture_flags_allowed =
     bind_res (if capture_flags_allowed then Inr () else reject_capture_flags options)
       (\<lambda>_. reject_unusable_cwd rv options)"

definition check_source_preconditions_async ::
  "('s, 'p, 'u) run_env \<Rightarrow> libdeno_options \<Rightarrow> unit libdeno_result" where
  "check_source_preconditions_async rv options =
     bind_res (check_async_context rv) (\<lambda>_. reject_unusable_cwd rv options)"

text \<open>\<open>then_captured\<close>: \<open>then_call\<close> for calls whose failure can carry captured output.\<close>

definition then_captured :: "unit libdeno_result \<Rightarrow> (proc \<Rightarrow> captured_result call \<times> proc) \<Rightarrow> proc
    \<Rightarrow> captured_result call \<times> proc" where
  "then_captured r f p =
     (case r of Inl e \<Rightarrow> ((Ended (Inl (captured_run_error_new e)), []), p) | Inr _ \<Rightarrow> f p)"

definition runtime_output_observed_cancellable ::
  "('s, 'p, 'u) run_env \<Rightarrow> entry_source \<Rightarrow> libdeno_options \<Rightarrow> cancellation \<Rightarrow> proc
   \<Rightarrow> captured_result call \<times> proc" where
  "runtime_output_observed_cancellable rv entry options cancellation =
     then_captured (reject_unusable_cwd rv options)
       (with_lease rv (captures options) (Inl \<circ> captured_run_error_new)
         (escape_tokio rv (Inl \<circ> captured_run_error_new)
           (run_with_sync_output_cancellable rv entry options cancellation)))"

definition run_with_output_observed_cancellable_until ::
  "('s, 'p, 'u) run_env \<Rightarrow> entry_source \<Rightarrow> libdeno_options \<Rightarrow> cancel_ctx option \<Rightarrow> instant option
   \<Rightarrow> instant \<Rightarrow> unit io_result \<Rightarrow> (nat \<Rightarrow> bool) \<Rightarrow> proc \<Rightarrow> captured_result call \<times> proc" where
  "run_with_output_observed_cancellable_until rv entry options ctx absolute_deadline now spawn polls =
     run_until absolute_deadline ctx now spawn polls (runtime_output_observed_cancellable rv entry options)"

definition runtime_output_observed ::
  "('s, 'p, 'u) run_env \<Rightarrow> entry_source \<Rightarrow> libdeno_options \<Rightarrow> proc \<Rightarrow> captured_result call \<times> proc" where
  "runtime_output_observed rv entry options = runtime_output_observed_cancellable rv entry options None"

definition runtime_output ::
  "('s, 'p, 'u) run_env \<Rightarrow> string \<Rightarrow> libdeno_options \<Rightarrow> proc \<Rightarrow> run_output libdeno_result call \<times> proc" where
  "runtime_output rv entry options p =
     map_call into_error (runtime_output_observed rv (from_path entry) options p)"

text \<open>\<open>run_with\<close> returns the exit code only: it rejects the capture flags and redirects nothing.\<close>

definition run_with_exit_code ::
  "('s, 'p, 'u) run_env \<Rightarrow> entry_source \<Rightarrow> libdeno_options \<Rightarrow> proc \<Rightarrow> int libdeno_result call \<times> proc" where
  "run_with_exit_code rv entry options =
     then_call (bind_res (reject_capture_flags options) (\<lambda>_. reject_unusable_cwd rv options)) (\<lambda>_.
       with_lease rv False Inl (escape_tokio rv Inl (\<lambda>s.
         case run_with_sync rv entry options of
           (None, tr) \<Rightarrow> ((Abandoned, tr), s)
         | (Some r, tr) \<Rightarrow> ((Ended r, tr), s))))"

definition run_with_path ::
  "('s, 'p, 'u) run_env \<Rightarrow> string \<Rightarrow> libdeno_options \<Rightarrow> proc \<Rightarrow> int libdeno_result call \<times> proc" where
  "run_with_path rv entry options = run_with_exit_code rv (from_path entry) options"

definition runtime_memory_entry ::
  "('s, 'p, 'u) run_env \<Rightarrow> bytes \<Rightarrow> source_lang \<Rightarrow> string \<Rightarrow> entry_source libdeno_result" where
  "runtime_memory_entry rv code lang base_dir =
     entry_source_memory (rv_entry rv) code lang base_dir (rv_runtime_cwd rv)"

definition run_with_source ::
  "('s, 'p, 'u) run_env \<Rightarrow> bytes \<Rightarrow> source_lang \<Rightarrow> string \<Rightarrow> libdeno_options \<Rightarrow> proc
   \<Rightarrow> int libdeno_result call \<times> proc" where
  "run_with_source rv code lang base_dir options =
     then_call (bind_res (check_source_preconditions rv options False) (\<lambda>_.
       runtime_memory_entry rv code lang base_dir)) (\<lambda>entry. run_with_exit_code rv entry options)"

definition run_with_output_source ::
  "('s, 'p, 'u) run_env \<Rightarrow> bytes \<Rightarrow> source_lang \<Rightarrow> string \<Rightarrow> libdeno_options \<Rightarrow> proc
   \<Rightarrow> run_output libdeno_result call \<times> proc" where
  "run_with_output_source rv code lang base_dir options =
     then_call (bind_res (check_source_preconditions rv options True) (\<lambda>_.
       runtime_memory_entry rv code lang base_dir)) (\<lambda>entry p.
       map_call into_error (runtime_output_observed rv entry options p))"

definition runtime_run ::
  "('s, 'p, 'u) run_env \<Rightarrow> entry_source \<Rightarrow> libdeno_options \<Rightarrow> int run_act" where
  "runtime_run rv entry options =
     bind_run (rv_runtime_shared rv, []) (\<lambda>shared. run_inner_with rv shared (rv_runtime_cwd rv) entry options)"

definition run_with_output_async_observed ::
  "('s, 'p, 'u) run_env \<Rightarrow> collect_task \<Rightarrow> entry_source \<Rightarrow> libdeno_options \<Rightarrow> proc
   \<Rightarrow> captured_result call \<times> proc" where
  "run_with_output_async_observed rv task entry options =
     then_captured (bind_res (check_async_context rv) (\<lambda>_. reject_unusable_cwd rv options))
       (run_with_output_async_guarded rv task options (runtime_run rv entry options))"

definition runtime_output_async ::
  "('s, 'p, 'u) run_env \<Rightarrow> collect_task \<Rightarrow> string \<Rightarrow> libdeno_options \<Rightarrow> proc
   \<Rightarrow> run_output libdeno_result call \<times> proc" where
  "runtime_output_async rv task entry options p =
     map_call into_error (run_with_output_async_observed rv task (from_path entry) options p)"

definition runtime_output_source_async ::
  "('s, 'p, 'u) run_env \<Rightarrow> collect_task \<Rightarrow> bytes \<Rightarrow> source_lang \<Rightarrow> string \<Rightarrow> libdeno_options \<Rightarrow> proc
   \<Rightarrow> run_output libdeno_result call \<times> proc" where
  "runtime_output_source_async rv task code lang base_dir options =
     then_call (bind_res (check_source_preconditions_async rv options) (\<lambda>_.
       runtime_memory_entry rv code lang base_dir)) (\<lambda>entry p.
       map_call into_error (run_with_output_async_observed rv task entry options p))"

definition runtime_run_async ::
  "('s, 'p, 'u) run_env \<Rightarrow> collect_task \<Rightarrow> string \<Rightarrow> libdeno_options \<Rightarrow> proc \<Rightarrow> int libdeno_result call \<times> proc" where
  "runtime_run_async rv task entry options p = map_call exit_code_of (runtime_output_async rv task entry options p)"

definition runtime_source_async ::
  "('s, 'p, 'u) run_env \<Rightarrow> collect_task \<Rightarrow> bytes \<Rightarrow> source_lang \<Rightarrow> string \<Rightarrow> libdeno_options \<Rightarrow> proc
   \<Rightarrow> int libdeno_result call \<times> proc" where
  "runtime_source_async rv task code lang base_dir options p =
     map_call exit_code_of (runtime_output_source_async rv task code lang base_dir options p)"

section \<open>Properties of the run\<close>

lemma bind_run_simps [simp]:
  "bind_run (None, tr) f = (None, tr)"
  "bind_run (Some (Inl e), tr) f = (Some (Inl e), tr)"
  "bind_run (Some (Inr x), tr) f = (fst (f x), tr @ snd (f x))"
  by (simp_all add: bind_run_def)

lemma try_run_simps [simp]:
  "bind_run (try_run (Inl e)) f = (Some (Inl e), [])"
  "bind_run (try_run (Inr x)) f = f x"
  by (simp_all add: try_run_def)

lemma run_act_simps [simp]:
  "bind_run (await_run None) f = (None, [])"
  "bind_run (await_run (Some x)) f = f x"
  "bind_run (emit_run e) g = (fst (g ()), e # snd (g ()))"
  by (simp_all add: await_run_def emit_run_def)

text \<open>An event of a sequence is one of its first part, or the first part succeeded and it is one of the rest.\<close>

lemma run_event_bind:
  "e \<in> set (snd (bind_run m f)) \<longleftrightarrow> e \<in> set (snd m) \<or> (\<exists>x. fst m = Some (Inr x) \<and> e \<in> set (snd (f x)))"
  by (cases m; cases "fst m"; cases "the (fst m)") auto

lemma run_event_simps [simp]:
  "snd (try_run r) = []" "fst (try_run r) = Some r" "snd (await_run a) = []"
  "fst (await_run a) = map_option Inr a" "snd (emit_run e) = [e]" "fst (emit_run e) = Some (Inr ())"
  "snd (finally_run m e) = snd m @ [e]" "fst (finally_run m e) = fst m"
  by (simp_all add: try_run_def await_run_def emit_run_def finally_run_def)

lemma cancellation_checkpoint_Inr:
  "cancellation_checkpoint cancellation k = Inr u \<longleftrightarrow>
   (\<forall>requested. cancellation = Some requested \<longrightarrow> \<not> requested k)"
  by (auto simp: cancellation_checkpoint_def split: option.splits)

text \<open>What the services of a run need, and that none of them is the script.\<close>

lemma run_services_ok:
  "fst (run_services rv shared cwd entry options) = Some (Inr (permissions, main_module, files)) \<longleftrightarrow>
   build_permissions (rv_from_options rv) (lo_permissions options) (lo_allow_all_permissions options)
     (lo_prompt options) cwd = Inr permissions \<and> is_ok (rv_services rv shared permissions) \<and>
   resolve_main_module (rv_entry rv) (rv_random rv) entry cwd Map.empty = (Inr main_module, files)"
proof (cases "build_permissions (rv_from_options rv) (lo_permissions options) (lo_allow_all_permissions options)
     (lo_prompt options) cwd")
  case (Inr p)
  show ?thesis
    by (cases "rv_services rv shared p";
        cases "resolve_main_module (rv_entry rv) (rv_random rv) entry cwd Map.empty";
        cases "fst (resolve_main_module (rv_entry rv) (rv_random rv) entry cwd Map.empty)")
      (auto simp: run_services_def Inr)
qed (simp add: run_services_def)

lemma run_services_events:
  "snd (run_services rv shared cwd entry options) =
    (if fst (run_services rv shared cwd entry options) \<in> range (Some \<circ> Inr) then [EvServices]
     else snd (run_services rv shared cwd entry options))"
  "set (snd (run_services rv shared cwd entry options)) \<subseteq> {EvServices}"
proof -
  let ?b = "build_permissions (rv_from_options rv) (lo_permissions options) (lo_allow_all_permissions options)
     (lo_prompt options) cwd"
  have "(fst (run_services rv shared cwd entry options) \<in> range (Some \<circ> Inr) \<longrightarrow>
      snd (run_services rv shared cwd entry options) = [EvServices]) \<and>
      set (snd (run_services rv shared cwd entry options)) \<subseteq> {EvServices}"
  proof (cases ?b)
    case (Inr p)
    show ?thesis
      by (cases "rv_services rv shared p";
          cases "resolve_main_module (rv_entry rv) (rv_random rv) entry cwd Map.empty";
          cases "fst (resolve_main_module (rv_entry rv) (rv_random rv) entry cwd Map.empty)")
        (auto simp: run_services_def Inr)
  qed (auto simp: run_services_def)
  then show "snd (run_services rv shared cwd entry options) =
    (if fst (run_services rv shared cwd entry options) \<in> range (Some \<circ> Inr) then [EvServices]
     else snd (run_services rv shared cwd entry options))"
    "set (snd (run_services rv shared cwd entry options)) \<subseteq> {EvServices}" by auto
qed

text \<open>The checks of \<open>run_main\<close> that stand before the script.\<close>

definition main_checks ::
  "('s, 'p, 'u) run_env \<Rightarrow> 's \<Rightarrow> libdeno_options \<Rightarrow> cancellation \<Rightarrow> 'p permissions_container \<Rightarrow> 'u \<Rightarrow> bool" where
  "main_checks rv shared options cancellation permissions main_module \<longleftrightarrow>
     (\<forall>requested. cancellation = Some requested \<longrightarrow> \<not> requested 1 \<and> \<not> requested 2 \<and> \<not> requested 3) \<and>
     is_ok (check_entry_read_permission (rv_entry rv) (rv_check_open rv permissions) main_module) \<and>
     (\<exists>dir. rv_npm_resolver rv shared = Inr dir \<and>
        is_ok (rv_build_worker rv shared permissions main_module options dir))"

text \<open>What happens from the start of the script on.\<close>

definition script_outcome ::
  "('s, 'p, 'u) run_env \<Rightarrow> (exec_termination + unit libdeno_result) option \<Rightarrow> int run_act" where
  "script_outcome rv worker =
     (case worker of
        None \<Rightarrow> (None, [])
      | Some run_result \<Rightarrow>
          (case rv_cleaned rv of
             None \<Rightarrow> (None, [])
           | Some False \<Rightarrow>
               (Some (Inl (ErrRuntime ''worker lifecycle cleanup ended before all workers stopped'')),
                [EvWorkersAwaited False])
           | Some True \<Rightarrow>
               (Some (worker_result rv run_result),
                EvWorkersAwaited True # (if is_ok (worker_result rv run_result) then [EvSnapshotSaved] else []))))"

lemma run_main_checked:
  assumes "main_checks rv shared options cancellation permissions main_module"
  shows "run_main rv shared options cancellation (permissions, main_module, files)
    = (case script_outcome rv (rv_worker rv shared main_module files (lo_execution_deadline options) cancellation) of
         (result, tr) \<Rightarrow> (result, [EvWorkerBuilt, EvScript] @ tr @ [EvOwnerClosed]))"
proof -
  obtain dir where npm: "rv_npm_resolver rv shared = Inr dir"
      and build: "rv_build_worker rv shared permissions main_module options dir = Inr ()"
    using assms by (auto simp: main_checks_def is_ok_iff)
  have check: "cancellation_checkpoint cancellation k = Inr ()" if "k \<in> {1, 2, 3}" for k
    using assms that by (auto simp: main_checks_def cancellation_checkpoint_Inr)
  have read: "check_entry_read_permission (rv_entry rv) (rv_check_open rv permissions) main_module = Inr ()"
    using assms by (simp add: main_checks_def is_ok_iff)
  let ?worker = "rv_worker rv shared main_module files (lo_execution_deadline options) cancellation"
  show ?thesis
  proof (cases ?worker)
    case None
    then show ?thesis
      by (simp add: run_main_def npm build check read script_outcome_def finally_run_def)
  next
    case (Some r)
    show ?thesis
    proof (cases "rv_cleaned rv")
      case None
      then show ?thesis
        by (simp add: run_main_def npm build check read Some script_outcome_def finally_run_def)
    next
      case (Some cleaned)
      then show ?thesis
        using \<open>?worker = Some r\<close>
        by (cases cleaned; cases "worker_result rv r")
          (simp_all add: run_main_def npm build check read script_outcome_def finally_run_def)
    qed
  qed
qed

lemma run_main_script:
  "EvScript \<in> set (snd (run_main rv shared options cancellation (permissions, main_module, files)))
   \<Longrightarrow> main_checks rv shared options cancellation permissions main_module"
  by (auto simp: run_main_def main_checks_def run_event_bind cancellation_checkpoint_Inr is_ok_iff
      map_err_def split: sum.splits)

text \<open>
  C6: No script runs before every check has passed. If the main worker's code starts, then no
  cancellation was requested at any of the four checkpoints, every limit is valid, the
  deadline is not zero, a prompt is not combined with the capture of stderr, the permissions
  could be built, the entry resolved, and exactly these permissions allow reading the module
  that runs.
\<close>

theorem script_needs_every_check:
  assumes "EvScript \<in> set (snd (run_inner_with_cancellation rv shared cwd entry options cancellation))"
  shows "(\<forall>requested. cancellation = Some requested \<longrightarrow> (\<forall>k < 4. \<not> requested k)) \<and>
    is_ok (validate_max_heap_bytes (lo_max_heap_bytes options)) \<and>
    is_ok (validate_execution_deadline (rv_now rv) (lo_execution_deadline options)) \<and>
    lo_execution_deadline options \<noteq> Some 0 \<and>
    \<not> (lo_prompt options \<and> lo_capture_stderr options) \<and>
    (\<exists>permissions main_module files.
       build_permissions (rv_from_options rv) (lo_permissions options) (lo_allow_all_permissions options)
         (lo_prompt options) cwd = Inr permissions \<and>
       resolve_main_module (rv_entry rv) (rv_random rv) entry cwd Map.empty = (Inr main_module, files) \<and>
       is_ok (check_entry_read_permission (rv_entry rv) (rv_check_open rv permissions) main_module))"
proof (intro conjI)
  let ?services = "run_services rv shared cwd entry options"
  have not_services: "EvScript \<notin> set (snd ?services)"
    using run_services_events(2) [of rv shared cwd entry options] by auto
  obtain start where c0: "cancellation_checkpoint cancellation 0 = Inr ()"
      and valid: "validate_run_options (rv_now rv) options = Inr ()"
      and start: "fst ?services = Some (Inr start)"
      and main: "EvScript \<in> set (snd (run_main rv shared options cancellation start))"
    using assms not_services by (auto simp: run_inner_with_cancellation_def run_event_bind)
  obtain permissions main_module files where eq: "start = (permissions, main_module, files)"
    by (cases start)
  have checks: "main_checks rv shared options cancellation permissions main_module"
    using main unfolding eq by (rule run_main_script)
  have "k = 0 \<or> k = 1 \<or> k = 2 \<or> k = 3" if "k < 4" for k :: nat using that by linarith
  then show "\<forall>requested. cancellation = Some requested \<longrightarrow> (\<forall>k < 4. \<not> requested k)"
    using c0 checks by (auto simp: cancellation_checkpoint_Inr main_checks_def)
  show "is_ok (validate_max_heap_bytes (lo_max_heap_bytes options))"
    "is_ok (validate_execution_deadline (rv_now rv) (lo_execution_deadline options))"
    using valid by (auto simp: validate_run_options_def bind_res_Inr)
  show "lo_execution_deadline options \<noteq> Some 0" "\<not> (lo_prompt options \<and> lo_capture_stderr options)"
    using valid
    by (auto simp: validate_run_options_def bind_res_Inr validate_prompt_capture_def reject_zero_deadline_def)
  show "\<exists>permissions main_module files.
      build_permissions (rv_from_options rv) (lo_permissions options) (lo_allow_all_permissions options)
        (lo_prompt options) cwd = Inr permissions \<and>
      resolve_main_module (rv_entry rv) (rv_random rv) entry cwd Map.empty = (Inr main_module, files) \<and>
      is_ok (check_entry_read_permission (rv_entry rv) (rv_check_open rv permissions) main_module)"
    using start checks unfolding eq run_services_ok main_checks_def by blast
qed

text \<open>
  C19: What a run reports once its script has started, for every outcome. The workers are
  awaited before anything is reported; if that fails, the run is an error whatever the script
  did; otherwise a deadline and a cancellation are timeouts, a script that ended or called
  Deno.exit gives its exit code and everything else its error. The npm snapshot is saved
  exactly for a run that succeeded, and the workers are told to close on every way out, also
  when the run is abandoned.
\<close>

theorem script_run_outcome:
  assumes "EvScript \<in> set (snd (run_inner_with_cancellation rv shared cwd entry options cancellation))"
  shows "\<exists>main_module files.
    resolve_main_module (rv_entry rv) (rv_random rv) entry cwd Map.empty = (Inr main_module, files) \<and>
    run_inner_with_cancellation rv shared cwd entry options cancellation =
      (case rv_worker rv shared main_module files (lo_execution_deadline options) cancellation of
         None \<Rightarrow> (None, [EvServices, EvWorkerBuilt, EvScript, EvOwnerClosed])
       | Some run_result \<Rightarrow>
           (case rv_cleaned rv of
              None \<Rightarrow> (None, [EvServices, EvWorkerBuilt, EvScript, EvOwnerClosed])
            | Some False \<Rightarrow>
                (Some (Inl (ErrRuntime ''worker lifecycle cleanup ended before all workers stopped'')),
                 [EvServices, EvWorkerBuilt, EvScript, EvWorkersAwaited False, EvOwnerClosed])
            | Some True \<Rightarrow>
                (case (case run_result of
                         Inl (TermDeadline deadline) \<Rightarrow>
                           Inl (ErrTimeout (''execution deadline of '' @ rv_show_duration rv deadline
                             @ '' exceeded; isolate terminated''))
                       | Inl TermCancelled \<Rightarrow>
                           Inl (ErrTimeout ''execution cancellation requested; isolate terminated'')
                       | Inl (TermInfrastructure error) \<Rightarrow> Inl (ErrIo error)
                       | Inr (Inr _) \<Rightarrow> Inr (rv_exit_code rv)
                       | Inr (Inl e) \<Rightarrow> if rv_watcher_exited rv then Inr (rv_exit_code rv) else Inl e) of
                   Inl e \<Rightarrow> (Some (Inl e),
                     [EvServices, EvWorkerBuilt, EvScript, EvWorkersAwaited True, EvOwnerClosed])
                 | Inr code \<Rightarrow> (Some (Inr code),
                     [EvServices, EvWorkerBuilt, EvScript, EvWorkersAwaited True, EvSnapshotSaved,
                      EvOwnerClosed]))))"
proof -
  let ?services = "run_services rv shared cwd entry options"
  have not_services: "EvScript \<notin> set (snd ?services)"
    using run_services_events(2) [of rv shared cwd entry options] by auto
  obtain start where c0: "cancellation_checkpoint cancellation 0 = Inr ()"
      and valid: "validate_run_options (rv_now rv) options = Inr ()"
      and start: "fst ?services = Some (Inr start)"
      and main: "EvScript \<in> set (snd (run_main rv shared options cancellation start))"
    using assms not_services by (auto simp: run_inner_with_cancellation_def run_event_bind)
  obtain permissions main_module files where eq: "start = (permissions, main_module, files)"
    by (cases start)
  have "?services = (Some (Inr start), [EvServices])"
    using start run_services_events(1) [of rv shared cwd entry options] by (cases ?services) auto
  then have "run_inner_with_cancellation rv shared cwd entry options cancellation =
      (case script_outcome rv (rv_worker rv shared main_module files (lo_execution_deadline options) cancellation) of
         (result, tr) \<Rightarrow> (result, [EvServices, EvWorkerBuilt, EvScript] @ tr @ [EvOwnerClosed]))"
    using run_main_checked [OF run_main_script [OF main [unfolded eq]], of files]
    by (simp add: run_inner_with_cancellation_def c0 valid eq split: prod.split)
  moreover have "resolve_main_module (rv_entry rv) (rv_random rv) entry cwd Map.empty = (Inr main_module, files)"
    using start unfolding eq run_services_ok by blast
  ultimately show ?thesis
    by (intro exI [of _ main_module] exI [of _ files])
      (auto simp: script_outcome_def worker_result_def cancelled_message_def
        split: option.split bool.split sum.split exec_termination.split)
qed

section \<open>What a call leaves behind\<close>

text \<open>The drop of a capture whose streams are still redirected.\<close>

lemma open_cleaned:
  assumes ro: "readers_open s" and t: "capture_open out err s pair t"
    and u: "\<And>c. c \<in> set (captured_streams pair) \<Longrightarrow>
        os_fds u (st_target c) = os_fds s (st_target c) \<and> os_fds u (the (st_saved c)) = None"
      "\<And>fd. fd \<notin> set (concat (map (\<lambda>c. [st_target c, the (st_saved c)]) (captured_streams pair))) \<Longrightarrow>
        os_fds u fd = os_fds t fd"
      "os_readers u = os_readers t"
      "os_threads u = os_threads s @ map (\<lambda>c. (st_reader c, True)) (captured_streams pair)"
  shows "all_cleaned s u"
proof -
  have reader: "os_fds s (st_reader c) = None" if "c \<in> set (captured_streams pair)" for c
    using t that by (auto simp: capture_open_def stream_open_def)
  have saved: "os_fds s (the (st_saved c)) = None" if "c \<in> set (captured_streams pair)" for c
    using t that by (auto simp: capture_open_def stream_open_def)
  have fds: "os_fds u fd = os_fds s fd" if "fd \<notin> st_reader ` set (captured_streams pair)" for fd
  proof (cases "\<exists>c \<in> set (captured_streams pair). fd = st_target c \<or> fd = the (st_saved c)")
    case True
    then show ?thesis using u(1) saved by auto
  next
    case False
    then have "os_fds u fd = os_fds t fd" using u(2) [of fd] by auto
    moreover have "fd \<notin> set (capture_fds pair)"
      using False that by (auto simp: capture_fds_def stream_fds_def)
    ultimately show ?thesis using t by (simp add: capture_open_def)
  qed
  have keep: "filter (\<lambda>x. fst x \<noteq> st_reader c) (os_threads s) = os_threads s"
    if "c \<in> set (captured_streams pair)" for c
    using reader [OF that] by (rule readers_open_fresh [OF ro])
  have readers: "os_readers u = os_readers s + length (captured_streams pair)"
    using t u(3) by (simp add: capture_open_def)
  have dist: "distinct (map st_reader (captured_streams pair))"
    using t by (auto simp: capture_open_def capture_fds_def stream_fds_def captured_streams_def split: option.splits)
  show ?thesis
    unfolding all_cleaned_def
    by (rule exI [of _ "map st_reader (captured_streams pair)"])
      (use fds reader keep readers u(4) dist in \<open>auto simp: captured_streams_def reader_exit_def set_fd_def
         core_defs fun_eq_iff split: option.splits\<close>)
qed

lemma outcome_drop_open:
  assumes ro: "readers_open s" and t: "capture_open out err s pair t"
  shows "outcome (drop_pending pair) (\<lambda>_. all_cleaned s) E t"
proof -
  have stop: "map (\<lambda>(r', stop). (r', stop \<or> r' = st_reader c)) (os_threads s) = os_threads s"
    if "c \<in> set (captured_streams pair)" for c
    using that t by (intro readers_open_set_stop [OF ro]) (auto simp: capture_open_def stream_open_def)
  have facts: "st_saved c \<noteq> None" "the (st_saved c) \<noteq> st_target c"
      "os_fds t (the (st_saved c)) \<noteq> None"
      "\<And>f k. os_fds t (the (st_saved c)) = Some (f, k) \<Longrightarrow> os_fds s (st_target c) = Some (f, st_target_flags c)"
    if "c \<in> set (captured_streams pair)" for c
    using that t by (auto simp: capture_open_def stream_open_def)
  show ?thesis
  proof (cases "fst pair"; cases "snd pair")
    assume "fst pair = None" "snd pair = None"
    then show ?thesis
      using t by (auto simp: drop_pending_def drop_stream_def captured_streams_def capture_open_def
          capture_fds_def core_defs fun_eq_iff intro!: all_cleaned_same)
  next
    fix c assume ab: "fst pair = None" "snd pair = Some c"
    then have c: "c \<in> set (captured_streams pair)" by (simp add: captured_streams_def)
    obtain d f k where d: "st_saved c = Some d" "os_fds t d = Some (f, k)" "d \<noteq> st_target c"
      using facts(1-3) [OF c] by auto
    have "outcome (stream_drop c) (\<lambda>_. all_cleaned s) E t"
      by (rule outcome_stream_drop [OF d(1,3,2)], rule open_cleaned [OF ro t])
        (use ab d facts(4) [OF c] stop [OF c] t in \<open>auto simp: captured_streams_def capture_open_def\<close>)
    then show ?thesis using ab by (simp add: drop_pending_def drop_stream_def)
  next
    fix c assume ab: "fst pair = Some c" "snd pair = None"
    then have c: "c \<in> set (captured_streams pair)" by (simp add: captured_streams_def)
    obtain d f k where d: "st_saved c = Some d" "os_fds t d = Some (f, k)" "d \<noteq> st_target c"
      using facts(1-3) [OF c] by auto
    have "outcome (stream_drop c) (\<lambda>_. all_cleaned s) E t"
      by (rule outcome_stream_drop [OF d(1,3,2)], rule open_cleaned [OF ro t])
        (use ab d facts(4) [OF c] stop [OF c] t in \<open>auto simp: captured_streams_def capture_open_def\<close>)
    then show ?thesis using ab by (simp add: drop_pending_def drop_stream_def)
  next
    fix c e assume ab: "fst pair = Some c" "snd pair = Some e"
    then have c: "c \<in> set (captured_streams pair)" and e: "e \<in> set (captured_streams pair)"
      by (simp_all add: captured_streams_def)
    obtain d f k where d: "st_saved c = Some d" "os_fds t d = Some (f, k)" "d \<noteq> st_target c"
      using facts(1-3) [OF c] by auto
    obtain d' f' k' where d': "st_saved e = Some d'" "os_fds t d' = Some (f', k')" "d' \<noteq> st_target e"
      using facts(1-3) [OF e] by auto
    have dis: "distinct [st_target c, d, st_reader c, st_target e, d', st_reader e]"
      using t ab d d' by (auto simp: capture_open_def capture_fds_def stream_fds_def captured_streams_def)
    have "outcome (stream_drop c) (\<lambda>_. outcome (stream_drop e) (\<lambda>_. all_cleaned s) E) E t"
    proof (rule outcome_stream_drop [OF d(1,3,2)])
      fix v :: os
      assume v: "os_fds v = (os_fds t)(st_target c \<mapsto> (f, st_target_flags c), d := None)"
        "os_readers v = os_readers t"
        "os_threads v = map (\<lambda>(r, stop). (r, stop \<or> r = st_reader c)) (os_threads t)"
      have d'v: "os_fds v d' = Some (f', k')" using v(1) d' dis by auto
      show "outcome (stream_drop e) (\<lambda>_. all_cleaned s) E v"
      proof (rule outcome_stream_drop [OF d'(1,3) d'v])
        fix u :: os
        assume u: "os_fds u = (os_fds v)(st_target e \<mapsto> (f', st_target_flags e), d' := None)"
          "os_readers u = os_readers v"
          "os_threads u = map (\<lambda>(r, stop). (r, stop \<or> r = st_reader e)) (os_threads v)"
        have streams: "captured_streams pair = [c, e]" using ab by (simp add: captured_streams_def)
        have threads: "os_threads t = os_threads s @ [(st_reader c, False), (st_reader e, False)]"
          using t streams by (simp add: capture_open_def)
        have targets: "os_fds s (st_target c) = Some (f, st_target_flags c)"
            "os_fds s (st_target e) = Some (f', st_target_flags e)"
          using facts(4) [OF c] facts(4) [OF e] d d' by simp_all
        show "all_cleaned s u"
        proof (rule open_cleaned [OF ro t], unfold streams)
          fix x assume "x \<in> set [c, e]"
          then show "os_fds u (st_target x) = os_fds s (st_target x) \<and> os_fds u (the (st_saved x)) = None"
            using dis targets by (auto simp: u v d d')
        next
          show "os_threads u = os_threads s @ map (\<lambda>c. (st_reader c, True)) [c, e]"
            using stop [OF c] stop [OF e] dis by (simp add: u v threads)
        qed (use d d' in \<open>simp_all add: u v\<close>)
      qed
    qed
    then show ?thesis using ab by (simp add: drop_pending_def drop_stream_def)
  qed
qed

definition leaves_clean :: "os \<Rightarrow> 'a ended \<Rightarrow> os \<Rightarrow> bool" where
  "leaves_clean s r t \<longleftrightarrow> r = HostAborted \<or> all_cleaned s t"

lemma leaves_clean_refl [simp]: "leaves_clean s r s"
  by (simp add: leaves_clean_def all_cleaned_same)

lemma finish_capture_clean:
  assumes "readers_open s" "capture_open out err s pair t"
  shows "case finish_capture rv pair result t of (r, u) \<Rightarrow> leaves_clean s r u"
  using outcome_capture_finish [OF assms, of "rv_out_blocks rv" "rv_err_blocks rv"]
  by (auto simp: finish_capture_def outcome_def leaves_clean_def split: prod.splits answer.splits)

lemma finish_async_clean:
  assumes "readers_open s" "capture_open out err s pair t"
  shows "case finish_async rv task captured pair result t of (r, u) \<Rightarrow> leaves_clean s r u"
proof -
  have "outcome (output_capture_restore pair)
      (\<lambda>p. outcome (capture_collect p (rv_out_blocks rv) (rv_err_blocks rv)) (\<lambda>_. all_cleaned s) (\<lambda>_. False))
      (\<lambda>_. False) t"
    using outcome_capture_finish [OF assms, of "rv_out_blocks rv" "rv_err_blocks rv"]
    by (simp add: output_capture_finish_def)
  then show ?thesis
    by (auto simp: finish_async_def outcome_def leaves_clean_def split: prod.splits answer.splits)
qed

lemma captured_run_clean:
  assumes ro: "readers_open s"
    and finish: "\<And>pair result t. capture_open (lo_capture_stdout options) (lo_capture_stderr options) s pair t \<Longrightarrow>
      case finish pair result t of (r, u) \<Rightarrow> leaves_clean s r u"
  shows "case captured_run finish options run s of (c, u) \<Rightarrow> leaves_clean s (fst c) u"
proof (cases "validate_prompt_capture (lo_prompt options) (lo_capture_stderr options)")
  case (Inr v)
  let ?new = "output_capture_new (lo_capture_stdout options) (lo_capture_stderr options) s"
  have new: "case ?new of (Ok pair, t) \<Rightarrow> capture_open (lo_capture_stdout options) (lo_capture_stderr options) s pair t
      | (Fail e, t) \<Rightarrow> all_cleaned s t | (Aborted, t) \<Rightarrow> True"
    using outcome_capture_new [OF ro, of "lo_capture_stdout options" "lo_capture_stderr options"
        "capture_open (lo_capture_stdout options) (lo_capture_stderr options) s" "all_cleaned s"]
    by (simp add: outcome_def)
  show ?thesis
  proof (cases ?new)
    case (Pair a t)
    show ?thesis
    proof (cases a)
      case (Ok pair)
      with new Pair have opened: "capture_open (lo_capture_stdout options) (lo_capture_stderr options) s pair t"
        by simp
      obtain result tr where run: "run = (result, tr)" by (cases run)
      show ?thesis
      proof (cases result)
        case None
        with outcome_drop_open [OF ro opened, of "\<lambda>_. False"] show ?thesis
          by (auto simp: captured_run_def Inr Pair Ok run outcome_def leaves_clean_def
              split: prod.splits answer.splits)
      next
        case (Some r)
        with finish [OF opened, of r] show ?thesis
          by (auto simp: captured_run_def Inr Pair Ok run split: prod.splits)
      qed
    qed (use new Pair Inr in \<open>simp_all add: captured_run_def leaves_clean_def\<close>)
  qed
qed (simp add: captured_run_def)

lemma escape_tokio_clean:
  assumes "case body s of (c, t) \<Rightarrow> leaves_clean s (fst c) t"
  shows "case escape_tokio rv failed body s of (c, t) \<Rightarrow> leaves_clean s (fst c) t"
  using assms
  by (auto simp: escape_tokio_def leaves_clean_def all_cleaned_same split: prod.splits ended.splits sum.splits)

text \<open>
  \<open>gives_back d p c\<close>: unless it ended with the abort of the process, the call has left the flag of
  the thread, the descriptors of the process and the word of the lease as they were in \<open>p\<close>; only what
  other threads added to the word (\<open>d\<close>) can still be in it.
\<close>

definition gives_back :: "64 word \<Rightarrow> proc \<Rightarrow> 'a call \<times> proc \<Rightarrow> bool" where
  "gives_back d p c \<longleftrightarrow>
     fst (fst c) = HostAborted \<or>
     pc_in_progress (snd c) = pc_in_progress p \<and> all_cleaned (pc_os p) (pc_os (snd c)) \<and>
     (pc_lease (snd c) = pc_lease p \<or> pc_lease (snd c) = pc_lease p + d)"

lemma gives_back_same [simp]: "gives_back d p (c, p)"
  by (simp add: gives_back_def all_cleaned_same)

lemma lease_acquire_cases:
  "lease_acquire captured counts state = (Inl e, state') \<Longrightarrow> state' = state"
  "lease_acquire captured counts state = (Inr lease, state') \<Longrightarrow>
   (lease = None \<and> state' = state + 1) \<or> (lease = Some CAPTURE_MARKER \<and> state = 0)"
  by (auto simp: lease_acquire_def exclusive_exchange_def lease_exchange_def lease_load_def
      split: if_splits sum.splits prod.splits)

lemma with_lease_gives_back:
  assumes body: "case body (pc_os p) of (c, t) \<Rightarrow> leaves_clean (pc_os p) (fst c) t"
    and others: "\<And>w. rv_others rv w = w + d"
  shows "gives_back d p (with_lease rv captured failed body p)"
proof (cases "lease_acquire captured (rv_worker_counts rv) (pc_lease p)")
  case (Pair r state)
  show ?thesis
  proof (cases r)
    case (Inl e)
    then show ?thesis
      using Pair lease_acquire_cases(1) [of captured _ _ e state]
      by (simp add: with_lease_def gives_back_def all_cleaned_same)
  next
    case (Inr lease)
    obtain c t where c: "body (pc_os p) = (c, t)" by (cases "body (pc_os p)")
    have "lease_drop lease (rv_others rv state) = pc_lease p \<or>
        lease_drop lease (rv_others rv state) = pc_lease p + d"
      using lease_acquire_cases(2) [of captured "rv_worker_counts rv" "pc_lease p" lease state] Pair Inr
      by (auto simp: lease_drop_def others)
    then show ?thesis
      using body by (auto simp: with_lease_def Pair Inr c gives_back_def leaves_clean_def)
  qed
qed

lemma with_async_guard_gives_back:
  assumes "gives_back d (p\<lparr>pc_in_progress := True\<rparr>) (body (p\<lparr>pc_in_progress := True\<rparr>))"
  shows "gives_back d p (with_async_guard failed body p)"
  using assms
  by (cases "body (p\<lparr>pc_in_progress := True\<rparr>)")
    (auto simp: with_async_guard_def gives_back_def all_cleaned_same)

lemma then_captured_gives_back: "gives_back d p (f p) \<Longrightarrow> gives_back d p (then_captured r f p)"
  by (auto simp: then_captured_def split: sum.split)

lemma then_call_gives_back: "(\<And>x. gives_back d p (f x p)) \<Longrightarrow> gives_back d p (then_call r f p)"
  by (auto simp: then_call_def split: sum.split)

lemma map_call_gives_back: "gives_back d p c \<Longrightarrow> gives_back d p (map_call f c)"
  by (cases c; cases "fst c"; cases "fst (fst c)") (auto simp: gives_back_def map_call_def)

lemma captured_sync_clean:
  "readers_open s \<Longrightarrow> case captured_run (finish_capture rv) options run s of (c, t) \<Rightarrow> leaves_clean s (fst c) t"
  by (rule captured_run_clean, assumption, rule finish_capture_clean)

lemma fresh_gives_back:
  assumes "readers_open (pc_os p)" and others: "\<And>w. rv_others rv w = w + d"
  shows "gives_back d p (run_with_output_observed rv entry options p)"
  unfolding run_with_output_observed_def
proof (rule with_lease_gives_back [OF _ others], rule escape_tokio_clean)
  show "case run_sync_output rv entry options (pc_os p) of (c, t) \<Rightarrow> leaves_clean (pc_os p) (fst c) t"
    using captured_sync_clean [OF assms(1), of rv options "run_sync rv entry options"]
    by (auto simp: run_sync_output_def map_call_def leaves_clean_def split: prod.splits)
qed

lemma guarded_gives_back:
  assumes ro: "readers_open (pc_os p)" and others: "\<And>w. rv_others rv w = w + d"
  shows "gives_back d p (run_with_output_async_guarded rv task options run p)"
  unfolding run_with_output_async_guarded_def
proof (rule with_async_guard_gives_back, rule with_lease_gives_back [OF _ others])
  show "case captured_run (finish_async rv task (captures options)) options run
      (pc_os (p\<lparr>pc_in_progress := True\<rparr>)) of (c, t) \<Rightarrow> leaves_clean (pc_os (p\<lparr>pc_in_progress := True\<rparr>)) (fst c) t"
    using ro by simp (rule captured_run_clean, assumption, rule finish_async_clean)
qed

lemma observed_gives_back:
  assumes "readers_open (pc_os p)" and others: "\<And>w. rv_others rv w = w + d"
  shows "gives_back d p (runtime_output_observed_cancellable rv entry options cancellation p)"
  unfolding runtime_output_observed_cancellable_def run_with_sync_output_cancellable_def
  by (rule then_captured_gives_back, rule with_lease_gives_back [OF _ others], rule escape_tokio_clean,
      rule captured_sync_clean [OF assms(1)])

text \<open>A run without capture does not touch the descriptors.\<close>

lemma escape_plain:
  "case escape_tokio rv failed (\<lambda>s. case run of
      (None, tr) \<Rightarrow> ((Abandoned, tr), s) | (Some r, tr) \<Rightarrow> ((Ended r, tr), s)) s of (c, t) \<Rightarrow> t = s"
  by (auto simp: escape_tokio_def split: prod.splits option.splits ended.splits sum.splits)

lemma exit_code_gives_back:
  assumes others: "\<And>w. rv_others rv w = w + d"
  shows "gives_back d p (run_with_exit_code rv entry options p) \<and>
    pc_os (snd (run_with_exit_code rv entry options p)) = pc_os p"
proof
  note plain = escape_plain [where failed = Inl and s = "pc_os p" and run = "run_with_sync rv entry options" and rv = rv]
  show "gives_back d p (run_with_exit_code rv entry options p)"
    unfolding run_with_exit_code_def
    by (rule then_call_gives_back, rule with_lease_gives_back [OF _ others])
      (use plain in \<open>auto split: prod.splits\<close>)
  show "pc_os (snd (run_with_exit_code rv entry options p)) = pc_os p"
    using plain by (auto simp: run_with_exit_code_def then_call_def with_lease_def split: prod.splits sum.splits)
qed

text \<open>
  C3: A call gives back what it took. Whatever the entry point, and however the call ends (a
  result, a refusal, a failed setup of the capture, a panic, a dropped future), the flag of
  the thread is as before, stdio is back on its own files with every internal descriptor
  closed once the readers have ended, and the word of the lease holds what it held and what
  other runs added to it. The one exception is the abort of the process when stdio cannot be
  restored. run_with and run_with_source do not touch the descriptors at all.
\<close>

theorem every_call_gives_back:
  assumes ro: "readers_open (pc_os p)" and others: "\<And>w. rv_others rv w = w + d"
  shows "gives_back d p (run_with_output_observed rv entry options p) \<and>
    gives_back d p (run_with_output_observed_cancellable rv entry options cancellation p) \<and>
    gives_back d p (run_source_with_output rv code lang base_dir options p) \<and>
    gives_back d p (run_with_output_async rv task path options p) \<and>
    gives_back d p (run_source_with_output_async rv task code lang base_dir options p) \<and>
    gives_back d p (runtime_output_observed_cancellable rv entry options cancellation p) \<and>
    gives_back d p (run_with_output_observed_cancellable_until rv entry options ctx deadline now spawn polls p) \<and>
    gives_back d p (run_with_output_source rv code lang base_dir options p) \<and>
    gives_back d p (run_with_output_async_observed rv task entry options p) \<and>
    gives_back d p (runtime_output_source_async rv task code lang base_dir options p) \<and>
    gives_back d p (run_with_exit_code rv entry options p) \<and>
        pc_os (snd (run_with_exit_code rv entry options p)) = pc_os p \<and>
    gives_back d p (run_with_source rv code lang base_dir options p) \<and>
        pc_os (snd (run_with_source rv code lang base_dir options p)) = pc_os p"
proof (intro conjI)
  note sync = captured_sync_clean [OF ro] and fresh = fresh_gives_back [OF ro others]
    and guarded = guarded_gives_back [OF ro others] and observed = observed_gives_back [OF ro others]
  show "gives_back d p (run_with_output_observed rv entry options p)" by (rule fresh)
  show "gives_back d p (run_with_output_observed_cancellable rv entry options cancellation p)"
    unfolding run_with_output_observed_cancellable_def run_sync_output_cancellable_def
    by (rule with_lease_gives_back [OF _ others], rule escape_tokio_clean, rule sync)
  show "gives_back d p (run_source_with_output rv code lang base_dir options p)"
    unfolding run_source_with_output_def by (rule then_call_gives_back, rule fresh)
  show "gives_back d p (run_with_output_async rv task path options p)"
    "gives_back d p (run_source_with_output_async rv task code lang base_dir options p)"
    unfolding run_with_output_async_def run_source_with_output_async_def
    by (rule then_call_gives_back, rule map_call_gives_back, rule guarded)+
  show "gives_back d p (runtime_output_observed_cancellable rv entry options cancellation p)" by (rule observed)
  show "gives_back d p (run_with_output_observed_cancellable_until rv entry options ctx deadline now spawn polls p)"
    using observed
    by (auto simp: run_with_output_observed_cancellable_until_def run_until_def split: prod.split sum.split)
  show "gives_back d p (run_with_output_source rv code lang base_dir options p)"
    unfolding run_with_output_source_def runtime_output_observed_def
    by (rule then_call_gives_back, rule map_call_gives_back, rule observed)
  show "gives_back d p (run_with_output_async_observed rv task entry options p)"
    unfolding run_with_output_async_observed_def by (rule then_captured_gives_back, rule guarded)
  show "gives_back d p (runtime_output_source_async rv task code lang base_dir options p)"
    unfolding runtime_output_source_async_def run_with_output_async_observed_def
    by (rule then_call_gives_back, rule map_call_gives_back, rule then_captured_gives_back, rule guarded)
  show "gives_back d p (run_with_exit_code rv entry options p)"
    "pc_os (snd (run_with_exit_code rv entry options p)) = pc_os p"
    using exit_code_gives_back [OF others] by simp_all
  show "gives_back d p (run_with_source rv code lang base_dir options p)"
    "pc_os (snd (run_with_source rv code lang base_dir options p)) = pc_os p"
    using exit_code_gives_back [OF others] by (auto simp: run_with_source_def then_call_def split: sum.split)
qed

text \<open>
  Two asynchronous runs are never interleaved on a thread: while one is in progress, another
  is refused with a configuration error before it takes the lease, redirects anything or polls
  its run, and the refusal does not clear the flag of the first; and a run that has ended
  clears it, so that the next one is not refused.
\<close>

theorem interleaved_async_runs_refused:
  shows "run_with_output_async_guarded rv task options run (p\<lparr>pc_in_progress := True\<rparr>)
      = ((Ended (Inl (captured_run_error_new async_in_progress)), []), p\<lparr>pc_in_progress := True\<rparr>)"
    and "\<not> pc_in_progress (snd (run_with_output_async_guarded rv task options run (p\<lparr>pc_in_progress := False\<rparr>)))"
  by (simp_all add: run_with_output_async_guarded_def with_async_guard_def split: prod.split)

section \<open>The entry points agree\<close>

lemma map_call_id: "map_call f (map_call g c) = map_call (f \<circ> g) c"
  by (cases c; cases "fst c"; cases "fst (fst c)") (auto simp: map_call_def)

lemma run_sync_is_cancellable: "run_sync rv entry options = run_sync_cancellable rv entry options None"
  by (simp add: run_sync_def run_sync_cancellable_def run_inner_def run_inner_with_def)

lemma escape_tokio_map:
  "escape_tokio rv (into_error \<circ> failed) (\<lambda>s. map_call into_error (body s)) s
     = map_call into_error (escape_tokio rv failed body s)"
  by (cases "body s"; cases "fst (fst (body s))")
    (auto simp: escape_tokio_def map_call_def split: prod.splits ended.splits sum.splits)

lemma with_lease_map:
  "with_lease rv captured (into_error \<circ> failed) (\<lambda>s. map_call into_error (body s)) p
     = map_call into_error (with_lease rv captured failed body p)"
  by (auto simp: with_lease_def map_call_def split: prod.splits sum.splits)

lemma into_error_new: "into_error \<circ> (Inl \<circ> captured_run_error_new) = Inl"
  by (auto simp: into_error_def captured_run_error_new_def)

lemma run_sync_output_eq:
  "run_sync_output rv entry options
     = (\<lambda>s. map_call into_error (captured_run (finish_capture rv) options (run_sync rv entry options) s))"
  by (simp add: fun_eq_iff run_sync_output_def)

lemma observed_is_cancellable:
  "run_with_output_observed rv entry options p
     = map_call into_error (run_with_output_observed_cancellable rv entry options None p)"
proof -
  have body: "escape_tokio rv Inl (run_sync_output rv entry options)
      = (\<lambda>s. map_call into_error (escape_tokio rv (Inl \<circ> captured_run_error_new)
          (run_sync_output_cancellable rv entry options None) s))"
    unfolding escape_tokio_map [symmetric] into_error_new run_sync_output_eq
      run_sync_output_cancellable_def run_sync_is_cancellable ..
  show ?thesis
    unfolding run_with_output_observed_def run_with_output_observed_cancellable_def body
      with_lease_map [symmetric] into_error_new ..
qed

lemma finish_async_done: "finish_async rv CtDone captured = finish_capture rv"
  by (auto simp: fun_eq_iff finish_async_def finish_capture_def output_capture_finish_def bind_act_def
      split: prod.splits answer.splits)

lemma outside_tokio:
  "run_sync (rv\<lparr>rv_in_tokio := b\<rparr>) entry options = run_sync rv entry options"
  "finish_capture (rv\<lparr>rv_in_tokio := b\<rparr>) = finish_capture rv"
  "run_sync_output (rv\<lparr>rv_in_tokio := b\<rparr>) entry options = run_sync_output rv entry options"
  "escape_tokio (rv\<lparr>rv_in_tokio := False\<rparr>) failed body = body"
proof -
  have result: "worker_result (rv\<lparr>rv_in_tokio := b\<rparr>) = worker_result rv"
    by (simp add: fun_eq_iff worker_result_def split: sum.split exec_termination.split)
  have services: "run_services (rv\<lparr>rv_in_tokio := b\<rparr>) = run_services rv"
    by (simp add: fun_eq_iff run_services_def split: prod.split)
  have main: "run_main (rv\<lparr>rv_in_tokio := b\<rparr>) = run_main rv"
    unfolding fun_eq_iff run_main_def result by (simp split: prod.split)
  show sync: "run_sync (rv\<lparr>rv_in_tokio := b\<rparr>) entry options = run_sync rv entry options"
    by (simp add: run_sync_def block_on_def run_inner_def fresh_shared_def run_inner_with_def
        run_inner_with_cancellation_def services main split: prod.split)
  show finish: "finish_capture (rv\<lparr>rv_in_tokio := b\<rparr>) = finish_capture rv"
    by (simp add: fun_eq_iff finish_capture_def)
  show "run_sync_output (rv\<lparr>rv_in_tokio := b\<rparr>) entry options = run_sync_output rv entry options"
    by (simp add: run_sync_output_eq sync finish)
  show "escape_tokio (rv\<lparr>rv_in_tokio := False\<rparr>) failed body = body"
    by (simp add: fun_eq_iff escape_tokio_def)
qed

lemma with_lease_outside: "with_lease (rv\<lparr>rv_in_tokio := b\<rparr>) = with_lease rv"
  by (simp add: fun_eq_iff with_lease_def split: prod.split sum.split)

text \<open>A call that does not depend on the flag of the thread gives the same result under the guard.\<close>

lemma with_async_guard_free:
  assumes "\<not> pc_in_progress p"
  shows "with_async_guard failed (with_lease rv captured failed' body) p = with_lease rv captured failed' body p"
proof (cases "lease_acquire captured (rv_worker_counts rv) (pc_lease p)")
  case (Pair r state)
  have "p\<lparr>pc_in_progress := False\<rparr> = p" using assms by simp
  then show ?thesis
    using assms by (cases r; cases "body (pc_os p)")
      (auto simp: with_async_guard_def with_lease_def Pair intro!: proc.equality)
qed

text \<open>
  C20: The entry points differ only in how they are called. A run with a cancellation context
  that is absent is the plain run; run_with_output_async inside a tokio context gives the
  result, the events and the state that run_with_output gives outside one, if the thread has
  no run in progress and the collecting task is awaited; and a run on the stack of a runtime
  is the run on a fresh stack whenever the runtime's directory and stack are the ones the
  fresh run would have used.
\<close>

theorem entry_points_agree:
  "run_with_output_observed rv entry options p
      = map_call into_error (run_with_output_observed_cancellable rv entry options None p) \<and>
    (rv_in_tokio rv \<and> rv_build_runtime rv = Inr () \<and> \<not> pc_in_progress p \<longrightarrow>
       run_with_output_async rv CtDone path options p
         = run_with_output_path (rv\<lparr>rv_in_tokio := False\<rparr>) path options p) \<and>
    (fresh_shared rv (from_path path) options = (Some (Inr (rv_runtime_cwd rv, shared)), []) \<and>
       rv_runtime_shared rv = Some (Inr shared) \<and> reject_unusable_cwd rv options = Inr () \<longrightarrow>
       runtime_output rv path options p = run_with_output_path rv path options p)"
proof (intro conjI)
  show "run_with_output_observed rv entry options p
      = map_call into_error (run_with_output_observed_cancellable rv entry options None p)"
    by (rule observed_is_cancellable)
  show "rv_in_tokio rv \<and> rv_build_runtime rv = Inr () \<and> \<not> pc_in_progress p \<longrightarrow>
      run_with_output_async rv CtDone path options p
        = run_with_output_path (rv\<lparr>rv_in_tokio := False\<rparr>) path options p"
  proof
    assume a: "rv_in_tokio rv \<and> rv_build_runtime rv = Inr () \<and> \<not> pc_in_progress p"
    let ?entry = "from_path path"
    have run: "run_inner rv ?entry options = run_sync rv ?entry options" using a by (simp add: run_sync_def block_on_def)
    have "run_with_output_async rv CtDone path options p = map_call into_error
        (with_lease rv (captures options) (Inl \<circ> captured_run_error_new)
          (captured_run (finish_capture rv) options (run_sync rv ?entry options)) p)"
      using a by (simp add: run_with_output_async_def then_call_def check_async_context_def run
          run_with_output_async_guarded_def finish_async_done with_async_guard_free)
    also have "\<dots> = with_lease rv (captures options) Inl (run_sync_output rv ?entry options) p"
      unfolding with_lease_map [symmetric] into_error_new run_sync_output_eq ..
    also have "\<dots> = run_with_output_path (rv\<lparr>rv_in_tokio := False\<rparr>) path options p"
      by (simp add: run_with_output_path_def run_with_output_observed_def outside_tokio with_lease_outside)
    finally show "run_with_output_async rv CtDone path options p
        = run_with_output_path (rv\<lparr>rv_in_tokio := False\<rparr>) path options p" .
  qed
  show "fresh_shared rv (from_path path) options = (Some (Inr (rv_runtime_cwd rv, shared)), []) \<and>
      rv_runtime_shared rv = Some (Inr shared) \<and> reject_unusable_cwd rv options = Inr () \<longrightarrow>
      runtime_output rv path options p = run_with_output_path rv path options p"
  proof
    assume a: "fresh_shared rv (from_path path) options = (Some (Inr (rv_runtime_cwd rv, shared)), []) \<and>
      rv_runtime_shared rv = Some (Inr shared) \<and> reject_unusable_cwd rv options = Inr ()"
    then have run: "run_with_sync_cancellable rv (from_path path) options None
        = run_sync_cancellable rv (from_path path) options None"
      by (simp add: run_with_sync_cancellable_def run_sync_cancellable_def)
    show "runtime_output rv path options p = run_with_output_path rv path options p"
      using a by (simp add: runtime_output_def runtime_output_observed_def runtime_output_observed_cancellable_def
          then_captured_def run_with_output_path_def observed_is_cancellable
          run_with_output_observed_cancellable_def run_sync_output_cancellable_def
          run_with_sync_output_cancellable_def run)
  qed
qed

text \<open>
  \<open>reject_unusable_cwd\<close> compares canonical forms: a \<open>cwd\<close> that cannot be resolved is refused like one
  that resolves elsewhere, as long as the runtime's own directory resolves.
\<close>

lemma unresolvable_cwd_is_rejected:
  "lo_cwd options = Some cwd \<Longrightarrow> canonical rv cwd = None \<Longrightarrow> canonical rv (rv_runtime_cwd rv) = Some c \<Longrightarrow>
   \<not> is_ok (reject_unusable_cwd rv options)"
  by (simp add: reject_unusable_cwd_def)

section \<open>Examples\<close>

text \<open>A host whose scripts all end with code 7; the shared stack is the directory it was built for.\<close>

definition sample_run_env :: "bool \<Rightarrow> (string, unit, string) run_env" where
  "sample_run_env tokio =
     \<lparr>rv_now = 0, rv_entry = sample_entry_env ''index.js'', rv_random = Inr [], rv_from_options = (\<lambda>_. Inr ()),
      rv_services = (\<lambda>_ _. Inr ()), rv_check_open = (\<lambda>_ p. Inr ()), rv_npm_resolver = (\<lambda>_. Inr False),
      rv_build_worker = (\<lambda>_ _ _ _ _. Inr ()), rv_worker = (\<lambda>_ _ _ _ _. Some (Inr (Inr ()))),
      rv_cleaned = Some True, rv_exit_code = 7, rv_watcher_exited = False, rv_show_duration = (\<lambda>_. ''''),
      rv_new_shared = (\<lambda>cwd _. Some (Inr cwd)), rv_runtime_shared = Some (Inr ''/work''),
      rv_runtime_cwd = ''/work'', rv_build_runtime = Inr (), rv_in_tokio = tokio, rv_spawn = Inr (),
      rv_worker_counts = (0, 0), rv_others = (\<lambda>w. w + 2), rv_out_blocks = Inr ([104, 105], False),
      rv_err_blocks = Inr ([], False)\<rparr>"

definition sample_run_options :: "bool \<Rightarrow> libdeno_options" where
  "sample_run_options capture =
     libdeno_options_default\<lparr>lo_allow_all_permissions := True, lo_capture_stdout := capture\<rparr>"

definition sample_proc :: proc where
  "sample_proc = \<lparr>pc_lease = 0, pc_in_progress = False, pc_os = sample_os []\<rparr>"

lemma sample_script_runs:
  "run_inner_with_cancellation (sample_run_env tokio) shared ''/work'' (EntryPath ''/work/a.js'')
     (sample_run_options False) (Some (\<lambda>_. False))
   = (Some (Inr 7), [EvServices, EvWorkerBuilt, EvScript, EvWorkersAwaited True, EvSnapshotSaved, EvOwnerClosed])"
  by code_simp

theorem script_needs_every_check_witness:
  "EvScript \<in> set (snd (run_inner_with_cancellation (sample_run_env False) ''/work'' ''/work'' (EntryPath ''/work/a.js'')
     (sample_run_options False) (Some (\<lambda>_. False)))) \<and>
   lo_execution_deadline (sample_run_options False) \<noteq> Some 0"
proof -
  have "EvScript \<in> set (snd (run_inner_with_cancellation (sample_run_env False) ''/work'' ''/work''
      (EntryPath ''/work/a.js'') (sample_run_options False) (Some (\<lambda>_. False))))"
    unfolding sample_script_runs by simp
  with script_needs_every_check [OF this] show ?thesis by blast
qed

theorem script_run_outcome_witness:
  "\<exists>main_module files. resolve_main_module (rv_entry (sample_run_env False)) (rv_random (sample_run_env False))
     (EntryPath ''/work/a.js'') ''/work'' Map.empty = (Inr main_module, files)"
proof -
  have "EvScript \<in> set (snd (run_inner_with_cancellation (sample_run_env False) ''/work'' ''/work''
      (EntryPath ''/work/a.js'') (sample_run_options False) (Some (\<lambda>_. False))))"
    unfolding sample_script_runs by simp
  from script_run_outcome [OF this] show ?thesis by blast
qed

theorem every_call_gives_back_witness:
  "gives_back 2 sample_proc (run_with_output_path (sample_run_env True) ''/work/a.js'' (sample_run_options True) sample_proc) \<and>
   fst (fst (run_with_output_path (sample_run_env True) ''/work/a.js'' (sample_run_options True) sample_proc))
     = Ended (Inr \<lparr>ro_exit_code = 7, ro_stdout = [104, 105], ro_stderr = [], ro_capture_truncated = False\<rparr>)"
proof
  have "readers_open (pc_os sample_proc)" by (simp add: sample_proc_def sample_os_readers)
  moreover have "\<And>w. rv_others (sample_run_env True) w = w + 2" by (simp add: sample_run_env_def)
  ultimately show "gives_back 2 sample_proc
      (run_with_output_path (sample_run_env True) ''/work/a.js'' (sample_run_options True) sample_proc)"
    unfolding run_with_output_path_def by (rule every_call_gives_back [THEN conjunct1])
  show "fst (fst (run_with_output_path (sample_run_env True) ''/work/a.js'' (sample_run_options True) sample_proc))
     = Ended (Inr \<lparr>ro_exit_code = 7, ro_stdout = [104, 105], ro_stderr = [], ro_capture_truncated = False\<rparr>)"
    by code_simp
qed

theorem entry_points_agree_witness:
  "run_with_output_async (sample_run_env True) CtDone ''/work/a.js'' (sample_run_options False) sample_proc
     = run_with_output_path ((sample_run_env True)\<lparr>rv_in_tokio := False\<rparr>) ''/work/a.js'' (sample_run_options False) sample_proc \<and>
   runtime_output (sample_run_env True) ''/work/a.js'' (sample_run_options False) sample_proc
     = run_with_output_path (sample_run_env True) ''/work/a.js'' (sample_run_options False) sample_proc"
proof
  have async: "rv_in_tokio (sample_run_env True) \<and> rv_build_runtime (sample_run_env True) = Inr () \<and>
      \<not> pc_in_progress sample_proc"
    by (simp add: sample_run_env_def sample_proc_def)
  then show "run_with_output_async (sample_run_env True) CtDone ''/work/a.js'' (sample_run_options False) sample_proc
     = run_with_output_path ((sample_run_env True)\<lparr>rv_in_tokio := False\<rparr>) ''/work/a.js'' (sample_run_options False)
         sample_proc"
    by (rule entry_points_agree [THEN conjunct2, THEN conjunct1, THEN mp])
  have "fresh_shared (sample_run_env True) (from_path ''/work/a.js'') (sample_run_options False)
      = (Some (Inr (rv_runtime_cwd (sample_run_env True), ''/work'')), [])" by code_simp
  moreover have "rv_runtime_shared (sample_run_env True) = Some (Inr ''/work'') \<and>
      reject_unusable_cwd (sample_run_env True) (sample_run_options False) = Inr ()"
    by (simp add: sample_run_env_def reject_unusable_cwd_def sample_run_options_def libdeno_options_default_def)
  ultimately show "runtime_output (sample_run_env True) ''/work/a.js'' (sample_run_options False) sample_proc
     = run_with_output_path (sample_run_env True) ''/work/a.js'' (sample_run_options False) sample_proc"
    by (intro entry_points_agree [THEN conjunct2, THEN conjunct2, THEN mp]) simp
qed

end
