(* ===== verification/Ld_Node.thy ===== *)
theory Ld_Node
  imports Ld_Loader
begin

text \<open>
  The adapters between the run and its resolvers: file reads of \<open>require\<close> and of the CommonJS analysis
  (src/src/node_loader.rs), and the resolver that the module graph is built with
  (src/src/graph.rs). The environment of the module loader gives the URL type, the broker and
  the permission checks; the npm package checker and the resolvers are parameters.
\<close>

section \<open>Reading files for require\<close>

text \<open>\<open>fs::canonicalize(path).unwrap_or(path)\<close>, and the package checker on a path.\<close>

definition canonical_or_same :: "'u loader_env \<Rightarrow> string \<Rightarrow> string" where
  "canonical_or_same ld path = (case ld_canonicalize ld path of Some c \<Rightarrow> c | None \<Rightarrow> path)"

definition path_in_npm_package :: "'u loader_env \<Rightarrow> ('u \<Rightarrow> bool) \<Rightarrow> string \<Rightarrow> bool" where
  "path_in_npm_package ld in_npm path =
     (case ld_from_file_path ld path of None \<Rightarrow> False | Some url \<Rightarrow> in_npm url)"

text \<open>\<open>FsCjsAnalysisSourceProvider::load_source\<close>: the path that is read, and the read.\<close>

definition cjs_read_path :: "'u loader_env \<Rightarrow> ('u \<Rightarrow> bool) \<Rightarrow> string \<Rightarrow> string + string" where
  "cjs_read_path ld in_npm path =
     (let canonical = canonical_or_same ld path
      in if \<not> ld_broker_installed ld \<and> ld_query_read_all ld then Inr canonical
         else if path_in_npm_package ld in_npm canonical \<and> \<not> ld_broker_installed ld then Inr canonical
         else ld_check_open ld canonical)"

definition load_source ::
  "'u loader_env \<Rightarrow> ('u \<Rightarrow> bool) \<Rightarrow> (string \<Rightarrow> string io_result) \<Rightarrow> 'u \<Rightarrow> string option" where
  "load_source ld in_npm read specifier =
     (case ld_to_file_path ld specifier of
        None \<Rightarrow> None
      | Some path \<Rightarrow>
          (case cjs_read_path ld in_npm path of
             Inl e \<Rightarrow> None
           | Inr read_path \<Rightarrow> (case read read_path of Inl e \<Rightarrow> None | Inr text \<Rightarrow> Some text)))"

text \<open>\<open>ensure_read_permission\<close>: its environment is the container of the caller.\<close>

definition ensure_read_permission :: "'u loader_env \<Rightarrow> ('u \<Rightarrow> bool) \<Rightarrow> string \<Rightarrow> string + string" where
  "ensure_read_permission ld in_npm path =
     (if \<not> ld_broker_installed ld \<and> ld_query_read_all ld then Inr path
      else let canonical = canonical_or_same ld path
           in if path_in_npm_package ld in_npm canonical \<and> \<not> ld_broker_installed ld then Inr canonical
              else ld_check_open ld canonical)"

text \<open>
  \<open>{path:?}\<close>: quotation marks, with the escapes of Rust for ASCII; other characters of a path are
  printed as they are.
\<close>

definition hex_lower :: "nat \<Rightarrow> string" where
  "hex_lower n = (let d = (\<lambda>i. ''0123456789abcdef'' ! i)
                  in if n < 16 then [d n] else [d (n div 16 mod 16), d (n mod 16)])"

definition debug_char :: "char \<Rightarrow> string" where
  "debug_char c =
     (if c = CHR 0x22 then [CHR 0x5C, CHR 0x22]
      else if c = CHR 0x5C then [CHR 0x5C, CHR 0x5C]
      else if c = CHR 0x0A then [CHR 0x5C, CHR ''n'']
      else if c = CHR 0x0D then [CHR 0x5C, CHR ''r'']
      else if c = CHR 0x09 then [CHR 0x5C, CHR ''t'']
      else if c = CHR 0x00 then [CHR 0x5C, CHR ''0'']
      else if of_char c < (32 :: nat) \<or> of_char c = (127 :: nat)
      then [CHR 0x5C] @ ''u{'' @ hex_lower (of_char c) @ ''}''
      else [c])"

definition path_debug :: "string \<Rightarrow> string" where
  "path_debug p = [CHR 0x22] @ concat (map debug_char p) @ [CHR 0x22]"

definition load_text_file_lossy ::
  "'u loader_env \<Rightarrow> (string \<Rightarrow> string io_result) \<Rightarrow> string \<Rightarrow> string + string" where
  "load_text_file_lossy ld read path =
     bind_res (if ld_broker_installed ld then ld_check_open ld (canonical_or_same ld path) else Inr path)
       (\<lambda>p. map_err (\<lambda>e. ''Failed to read '' @ path_debug p @ '': '' @ io_message e) (read p))"

text \<open>
  How \<open>deno_node\<close> reads a required file: it asks for the permission of the calling isolate and loads
  the path it got with the loader, which checks with its own container.
\<close>

definition require_read_file ::
  "'u loader_env \<Rightarrow> 'u loader_env \<Rightarrow> ('u \<Rightarrow> bool) \<Rightarrow> (string \<Rightarrow> string io_result) \<Rightarrow> string \<Rightarrow> string + string" where
  "require_read_file caller own in_npm read path =
     bind_res (ensure_read_permission caller in_npm path) (\<lambda>p. load_text_file_lossy own read p)"

section \<open>The resolver of the module graph\<close>

datatype resolution_mode = ModeImport | ModeRequire
datatype node_resolution_kind = NodeExecution | NodeTypes
datatype graph_resolution_kind = GraphExecution | GraphTypes

record 'u graph_range =
  rg_specifier :: 'u
  rg_start :: "nat \<times> nat"

text \<open>
  The resolver of the stack: \<open>'e\<close> is its error, shown in messages by \<open>rs_show\<close>. The settings of JSX
  belong to the workspace folder of the referrer. \<open>JsxConfig\<close> has the import source, the source for
  types, and the module name.
\<close>

record jsx_config =
  jx_import_source :: "string option"
  jx_import_source_types :: "string option"
  jx_module :: string

record ('u, 'e) stack_resolver =
  rs_resolve :: "string \<Rightarrow> 'u \<Rightarrow> nat \<times> nat \<Rightarrow> resolution_mode \<Rightarrow> node_resolution_kind \<Rightarrow> 'e + 'u"
  rs_npm_file :: "string \<Rightarrow> 'u \<Rightarrow> resolution_mode \<Rightarrow> node_resolution_kind \<Rightarrow> 'e + 'u"
  rs_show :: "'e \<Rightarrow> string"
  rs_jsx :: "'u \<Rightarrow> jsx_config option"

definition graph_resolver_resolve ::
  "('u, 'e) stack_resolver \<Rightarrow> string \<Rightarrow> 'u \<Rightarrow> resolution_mode \<Rightarrow> node_resolution_kind \<Rightarrow> string + 'u" where
  "graph_resolver_resolve rs raw_specifier referrer mode kind =
     map_err (\<lambda>e. cannot_resolve raw_specifier (rs_show rs e))
       (rs_resolve rs raw_specifier referrer (0, 0) mode kind)"

definition resolve_npm_req_ref_to_file ::
  "('u, 'e) stack_resolver \<Rightarrow> string \<Rightarrow> 'u \<Rightarrow> resolution_mode \<Rightarrow> node_resolution_kind \<Rightarrow> string + 'u" where
  "resolve_npm_req_ref_to_file rs npm_req_ref referrer mode kind =
     map_err (\<lambda>e. cannot_resolve npm_req_ref (rs_show rs e)) (rs_npm_file rs npm_req_ref referrer mode kind)"

text \<open>The \<open>Resolver\<close> of deno_graph; the error is passed on as a graph error.\<close>

fun node_kind :: "graph_resolution_kind \<Rightarrow> node_resolution_kind" where
  "node_kind GraphExecution = NodeExecution"
| "node_kind GraphTypes = NodeTypes"

definition graph_trait_resolve ::
  "('u, 'e) stack_resolver \<Rightarrow> string \<Rightarrow> 'u graph_range \<Rightarrow> graph_resolution_kind \<Rightarrow> 'e + 'u" where
  "graph_trait_resolve rs specifier_text referrer_range kind =
     rs_resolve rs specifier_text (rg_specifier referrer_range) (rg_start referrer_range) ModeImport
       (node_kind kind)"

definition default_jsx_import_source :: "('u, 'e) stack_resolver \<Rightarrow> 'u \<Rightarrow> string option" where
  "default_jsx_import_source rs referrer = Option.bind (rs_jsx rs referrer) jx_import_source"

definition default_jsx_import_source_types :: "('u, 'e) stack_resolver \<Rightarrow> 'u \<Rightarrow> string option" where
  "default_jsx_import_source_types rs referrer = Option.bind (rs_jsx rs referrer) jx_import_source_types"

definition jsx_import_source_module :: "('u, 'e) stack_resolver \<Rightarrow> string \<Rightarrow> 'u \<Rightarrow> string" where
  "jsx_import_source_module rs default_module referrer =
     (case rs_jsx rs referrer of None \<Rightarrow> default_module | Some config \<Rightarrow> jx_module config)"

section \<open>Resolution of package requests\<close>

text \<open>
  \<open>NpmLoadError\<close> of deno_graph, of which the code builds the first constructor; the answers to a
  batch of requests (\<open>'nv\<close> is the package that was found), and the result of the whole install.
\<close>

datatype npm_load_error = PackageReqResolution string | OtherNpmLoadError string

record 'nv pkg_reqs_result =
  pr_results :: "(npm_load_error + 'nv) list"
  pr_dep_graph :: "string + unit"

definition npm_disabled :: string where
  "npm_disabled = ''npm support is disabled in this build (enable the `npm` feature)''"

definition propagate_dep_graph_error :: "'nv pkg_reqs_result \<Rightarrow> 'nv pkg_reqs_result" where
  "propagate_dep_graph_error result =
     (case pr_dep_graph result of
        Inr _ \<Rightarrow> result
      | Inl e \<Rightarrow> result\<lparr>pr_results :=
          map (\<lambda>r. if is_ok r then Inl (PackageReqResolution e) else r) (pr_results result)\<rparr>)"

text \<open>\<open>None\<close> is a build without the npm feature.\<close>

definition resolve_pkg_reqs ::
  "('req list \<Rightarrow> 'nv pkg_reqs_result) option \<Rightarrow> 'req list \<Rightarrow> 'nv pkg_reqs_result" where
  "resolve_pkg_reqs npm_resolver package_reqs =
     (case npm_resolver of
        Some resolve \<Rightarrow> propagate_dep_graph_error (resolve package_reqs)
      | None \<Rightarrow>
          \<lparr>pr_results = map (\<lambda>_. Inl (PackageReqResolution npm_disabled)) package_reqs,
           pr_dep_graph = (if package_reqs = [] then Inr () else Inl npm_disabled)\<rparr>)"

section \<open>Properties of the reads\<close>

text \<open>
  The paths a file may be read under: the canonical one where the exemption applies, or what the
  check returned for it.
\<close>

definition may_read :: "'u loader_env \<Rightarrow> ('u \<Rightarrow> bool) \<Rightarrow> string \<Rightarrow> string \<Rightarrow> bool" where
  "may_read ld in_npm path p \<longleftrightarrow>
     (if \<not> ld_broker_installed ld \<and> (ld_query_read_all ld \<or> path_in_npm_package ld in_npm (canonical_or_same ld path))
      then p = canonical_or_same ld path
      else ld_check_open ld (canonical_or_same ld path) = Inr p)"

lemma cjs_read_path_may_read: "cjs_read_path ld in_npm path = Inr p \<longleftrightarrow> may_read ld in_npm path p"
  by (auto simp: cjs_read_path_def may_read_def Let_def)

lemma ensure_read_permission_Inr:
  "ensure_read_permission ld in_npm path = Inr p \<longleftrightarrow>
     (if \<not> ld_broker_installed ld \<and> ld_query_read_all ld then p = path else may_read ld in_npm path p)"
  by (auto simp: ensure_read_permission_def may_read_def Let_def)

lemma load_text_file_lossy_Inr:
  "load_text_file_lossy ld read path = Inr text \<longleftrightarrow>
     (\<exists>p. (if ld_broker_installed ld then ld_check_open ld (canonical_or_same ld path) = Inr p else p = path) \<and>
        read p = Inr text)"
proof (cases "ld_broker_installed ld")
  case True
  then show ?thesis
    by (cases "ld_check_open ld (canonical_or_same ld path)")
      (auto simp: load_text_file_lossy_def map_err_def split: sum.splits)
qed (auto simp: load_text_file_lossy_def map_err_def split: sum.splits)

lemma require_read_file_Inr:
  "require_read_file caller own in_npm read path = Inr text \<longleftrightarrow>
     (\<exists>p q. (if \<not> ld_broker_installed caller \<and> ld_query_read_all caller then p = path
            else may_read caller in_npm path p) \<and>
        (if ld_broker_installed own then ld_check_open own (canonical_or_same own p) = Inr q else q = p) \<and>
        read q = Inr text)"
  unfolding require_read_file_def bind_res_Inr ensure_read_permission_Inr load_text_file_lossy_Inr by blast

lemma load_source_Some:
  "load_source ld in_npm read specifier = Some text \<longleftrightarrow>
     (\<exists>path p. ld_to_file_path ld specifier = Some path \<and> may_read ld in_npm path p \<and> read p = Inr text)"
  by (auto simp: load_source_def simp flip: cjs_read_path_may_read split: option.splits sum.splits)

lemma may_read_unique: "may_read ld in_npm path p \<Longrightarrow> may_read ld in_npm path q \<Longrightarrow> p = q"
  by (auto simp: may_read_def split: if_splits)

text \<open>
  The CommonJS analysis and require see a file only under a path they were allowed. Two file
  systems that agree there are indistinguishable: the analysis depends on no other file. With
  a broker there is no exemption: a file that is required was passed by the caller's check and
  then, in its canonical form, by the loader's own check, and it is read under the path this
  check returned. Without one, a file outside the npm packages (after its symbolic links are
  resolved) is read only under the path that the caller's check returned, unless all reads are
  granted.
\<close>

theorem require_reads_allowed_paths:
  shows "(\<forall>path p. ld_to_file_path own specifier = Some path \<and> may_read own in_npm path p \<longrightarrow> read p = read' p) \<longrightarrow>
      load_source own in_npm read specifier = load_source own in_npm read' specifier"
    and "require_read_file caller own in_npm read path = Inr text \<longrightarrow>
      (ld_broker_installed caller \<and> ld_broker_installed own \<longrightarrow>
        (\<exists>p q. ld_check_open caller (canonical_or_same caller path) = Inr p \<and>
           ld_check_open own (canonical_or_same own p) = Inr q \<and> read q = Inr text))"
    and "require_read_file caller own in_npm read path = Inr text \<longrightarrow>
      (\<not> ld_broker_installed caller \<and> \<not> ld_broker_installed own \<and> \<not> ld_query_read_all caller \<longrightarrow>
        (if path_in_npm_package caller in_npm (canonical_or_same caller path)
         then read (canonical_or_same caller path) = Inr text
         else \<exists>p. ld_check_open caller (canonical_or_same caller path) = Inr p \<and> read p = Inr text))"
proof -
  show "(\<forall>path p. ld_to_file_path own specifier = Some path \<and> may_read own in_npm path p \<longrightarrow> read p = read' p) \<longrightarrow>
      load_source own in_npm read specifier = load_source own in_npm read' specifier"
  proof
    assume same: "\<forall>path p. ld_to_file_path own specifier = Some path \<and> may_read own in_npm path p \<longrightarrow> read p = read' p"
    have "load_source own in_npm read specifier = Some t \<longleftrightarrow> load_source own in_npm read' specifier = Some t" for t
      unfolding load_source_Some using same by metis
    then show "load_source own in_npm read specifier = load_source own in_npm read' specifier"
      by (metis not_None_eq)
  qed
next
  show "require_read_file caller own in_npm read path = Inr text \<longrightarrow>
      (ld_broker_installed caller \<and> ld_broker_installed own \<longrightarrow>
        (\<exists>p q. ld_check_open caller (canonical_or_same caller path) = Inr p \<and>
           ld_check_open own (canonical_or_same own p) = Inr q \<and> read q = Inr text))"
  proof (intro impI)
    assume r: "require_read_file caller own in_npm read path = Inr text"
      and b: "ld_broker_installed caller \<and> ld_broker_installed own"
    from r b obtain p q where p: "may_read caller in_npm path p"
      and q: "ld_check_open own (canonical_or_same own p) = Inr q" "read q = Inr text"
      unfolding require_read_file_Inr by metis
    from p b have "ld_check_open caller (canonical_or_same caller path) = Inr p" by (simp add: may_read_def)
    with q show "\<exists>p q. ld_check_open caller (canonical_or_same caller path) = Inr p \<and>
           ld_check_open own (canonical_or_same own p) = Inr q \<and> read q = Inr text" by blast
  qed
next
  show "require_read_file caller own in_npm read path = Inr text \<longrightarrow>
      (\<not> ld_broker_installed caller \<and> \<not> ld_broker_installed own \<and> \<not> ld_query_read_all caller \<longrightarrow>
        (if path_in_npm_package caller in_npm (canonical_or_same caller path)
         then read (canonical_or_same caller path) = Inr text
         else \<exists>p. ld_check_open caller (canonical_or_same caller path) = Inr p \<and> read p = Inr text))"
  proof (intro impI)
    assume r: "require_read_file caller own in_npm read path = Inr text"
      and n: "\<not> ld_broker_installed caller \<and> \<not> ld_broker_installed own \<and> \<not> ld_query_read_all caller"
    from r n obtain p where p: "may_read caller in_npm path p" "read p = Inr text"
      unfolding require_read_file_Inr by metis
    show "if path_in_npm_package caller in_npm (canonical_or_same caller path)
         then read (canonical_or_same caller path) = Inr text
         else \<exists>p. ld_check_open caller (canonical_or_same caller path) = Inr p \<and> read p = Inr text"
    proof (cases "path_in_npm_package caller in_npm (canonical_or_same caller path)")
      case True
      with p n show ?thesis by (simp add: may_read_def)
    next
      case False
      with p(1) n have "ld_check_open caller (canonical_or_same caller path) = Inr p" by (simp add: may_read_def)
      with p(2) False show ?thesis by simp
    qed
  qed
qed

text \<open>
  A link that leaves the packages is not exempt: \<open>/pkg/link\<close> is the secret, and the analysis answers
  nothing whatever that file holds.
\<close>

definition sample_node_env :: "string loader_env" where
  "sample_node_env =
     \<lparr>ld_parse = (\<lambda>s. Inr s), ld_scheme = (\<lambda>u. ''file''), ld_path = (\<lambda>u. u), ld_strip = (\<lambda>u. u),
      ld_from_directory_path = Some, ld_from_file_path = Some, ld_to_file_path = Some, ld_show = (\<lambda>u. u),
      ld_is_builtin = (\<lambda>_. False), ld_npm_is_managed = Inr True,
      ld_in_npm_package = Inr (\<lambda>u. take 5 u = ''/pkg/''), ld_graph_resolve = (\<lambda>s r. Inr s),
      ld_broker_installed = False, ld_query_read_all = False, ld_check_open = (\<lambda>p. Inl ''denied''),
      ld_canonicalize = (\<lambda>p. if p = ''/pkg/link'' then Some ''/secret'' else None)\<rparr>"

theorem require_reads_allowed_paths_witness:
  "load_source sample_node_env (\<lambda>u. take 5 u = ''/pkg/'') (\<lambda>p. Inr ''secret'') ''/pkg/link''
     = load_source sample_node_env (\<lambda>u. take 5 u = ''/pkg/'') (\<lambda>p. Inl (IoError EkOther '''')) ''/pkg/link'' \<and>
   require_read_file sample_node_env sample_node_env (\<lambda>u. take 5 u = ''/pkg/'') (\<lambda>p. Inr p) ''/pkg/main'' = Inr ''/pkg/main''"
proof -
  have "\<not> may_read sample_node_env (\<lambda>u. take 5 u = ''/pkg/'') ''/pkg/link'' p" for p
    by (simp add: may_read_def sample_node_env_def path_in_npm_package_def canonical_or_same_def)
  then have agree: "load_source sample_node_env (\<lambda>u. take 5 u = ''/pkg/'') (\<lambda>p. Inr ''secret'') ''/pkg/link''
     = load_source sample_node_env (\<lambda>u. take 5 u = ''/pkg/'') (\<lambda>p. Inl (IoError EkOther '''')) ''/pkg/link''"
    by (intro require_reads_allowed_paths(1) [rule_format]) (simp add: sample_node_env_def)
  have "require_read_file sample_node_env sample_node_env (\<lambda>u. take 5 u = ''/pkg/'') (\<lambda>p. Inr p) ''/pkg/main'' = Inr ''/pkg/main''"
    by (simp add: require_read_file_def ensure_read_permission_def load_text_file_lossy_def sample_node_env_def
        path_in_npm_package_def canonical_or_same_def)
  with agree show ?thesis by blast
qed

section \<open>Properties of the resolver\<close>

text \<open>
  A failed install is never lost. If the resolution of a batch of npm requests failed as a
  whole, then every request of the batch is answered with an error, its own one if it had one;
  otherwise the answers of the resolver are passed on unchanged. A build without npm answers
  every request with an error of its own, and fails as a whole only when something was
  requested.
\<close>

theorem npm_failures_reach_every_module:
  shows "pr_dep_graph (resolve_pkg_reqs npm_resolver reqs) = Inl e \<longrightarrow>
      list_all (\<lambda>r. \<not> is_ok r) (pr_results (resolve_pkg_reqs npm_resolver reqs))"
    and "npm_resolver = Some resolve \<longrightarrow>
      pr_dep_graph (resolve_pkg_reqs npm_resolver reqs) = pr_dep_graph (resolve reqs) \<and>
      length (pr_results (resolve_pkg_reqs npm_resolver reqs)) = length (pr_results (resolve reqs)) \<and>
      (\<forall>i < length (pr_results (resolve reqs)).
         pr_results (resolve_pkg_reqs npm_resolver reqs) ! i =
           (case (pr_dep_graph (resolve reqs), pr_results (resolve reqs) ! i) of
              (Inl message, Inr _) \<Rightarrow> Inl (PackageReqResolution message)
            | (_, own) \<Rightarrow> own))"
    and "npm_resolver = None \<longrightarrow>
      length (pr_results (resolve_pkg_reqs npm_resolver reqs)) = length reqs \<and>
      list_all (\<lambda>r. \<not> is_ok r) (pr_results (resolve_pkg_reqs npm_resolver reqs)) \<and>
      (is_ok (pr_dep_graph (resolve_pkg_reqs npm_resolver reqs)) \<longleftrightarrow> reqs = [])"
proof -
  have all: "list_all (\<lambda>r. \<not> is_ok r) (pr_results (propagate_dep_graph_error result))"
    if "pr_dep_graph (propagate_dep_graph_error result) = Inl e" for result :: "'d pkg_reqs_result"
    using that by (cases "pr_dep_graph result") (auto simp: propagate_dep_graph_error_def list_all_iff)
  show "pr_dep_graph (resolve_pkg_reqs npm_resolver reqs) = Inl e \<longrightarrow>
      list_all (\<lambda>r. \<not> is_ok r) (pr_results (resolve_pkg_reqs npm_resolver reqs))"
    using all by (cases npm_resolver) (auto simp: resolve_pkg_reqs_def list_all_iff)
next
  show "npm_resolver = Some resolve \<longrightarrow>
      pr_dep_graph (resolve_pkg_reqs npm_resolver reqs) = pr_dep_graph (resolve reqs) \<and>
      length (pr_results (resolve_pkg_reqs npm_resolver reqs)) = length (pr_results (resolve reqs)) \<and>
      (\<forall>i < length (pr_results (resolve reqs)).
         pr_results (resolve_pkg_reqs npm_resolver reqs) ! i =
           (case (pr_dep_graph (resolve reqs), pr_results (resolve reqs) ! i) of
              (Inl message, Inr _) \<Rightarrow> Inl (PackageReqResolution message)
            | (_, own) \<Rightarrow> own))"
    by (auto simp: resolve_pkg_reqs_def propagate_dep_graph_error_def is_ok_def split: sum.split)
next
  show "npm_resolver = None \<longrightarrow>
      length (pr_results (resolve_pkg_reqs npm_resolver reqs)) = length reqs \<and>
      list_all (\<lambda>r. \<not> is_ok r) (pr_results (resolve_pkg_reqs npm_resolver reqs)) \<and>
      (is_ok (pr_dep_graph (resolve_pkg_reqs npm_resolver reqs)) \<longleftrightarrow> reqs = [])"
    by (simp add: resolve_pkg_reqs_def list_all_iff)
qed

theorem npm_failures_reach_every_module_witness:
  "pr_results (resolve_pkg_reqs
     (Some (\<lambda>reqs. \<lparr>pr_results = [Inr ''chalk@5'', Inl (OtherNpmLoadError ''gone'')], pr_dep_graph = Inl ''no disk''\<rparr>))
     [''chalk'', ''left'']) ! 0 = Inl (PackageReqResolution ''no disk'')"
  using npm_failures_reach_every_module(2) [of "Some (\<lambda>reqs. \<lparr>pr_results = [Inr ''chalk@5'',
      Inl (OtherNpmLoadError ''gone'')], pr_dep_graph = Inl ''no disk''\<rparr>)"
      "\<lambda>reqs. \<lparr>pr_results = [Inr ''chalk@5'', Inl (OtherNpmLoadError ''gone'')], pr_dep_graph = Inl ''no disk''\<rparr>"
      "[''chalk'', ''left'']"]
  by simp

text \<open>
  The engine finds what the graph was built with. The graph resolves an import while it is
  built, and the engine resolves it again when the import runs. For a resolver whose answers
  do not depend on the position of the import (it is used for messages), both name the same
  module, with a node: URL in its canonical form, and both fail together.
\<close>

theorem graph_and_engine_resolve_alike:
  assumes loader: "ld_graph_resolve ld = (\<lambda>s r. graph_resolver_resolve rs s r ModeImport NodeExecution)"
    and position: "\<And>s r pos mode kind u. rs_resolve rs s r pos mode kind = Inr u \<longleftrightarrow>
      rs_resolve rs s r (0, 0) mode kind = Inr u"
    and referrer: "ld_parse ld referrer = Inr (rg_specifier import)" "referrer \<noteq> ''''" "referrer \<noteq> ''.''"
    and plain: "\<not> starts_with ''npm:'' specifier" "\<not> starts_with ''jsr:'' specifier"
      "\<And>url. ld_parse ld specifier = Inr url \<Longrightarrow> ld_scheme ld url \<noteq> ''node''"
  shows "graph_trait_resolve rs specifier import GraphExecution = Inr u \<Longrightarrow>
      resolve_specifier ld False specifier referrer cwd = node_or ld u"
    and "graph_trait_resolve rs specifier import GraphExecution = Inl e \<Longrightarrow>
      \<exists>m. resolve_specifier ld False specifier referrer cwd = Inl m"
proof -
  have ref: "resolve_referrer ld referrer cwd = Inr (rg_specifier import)"
    using referrer by (simp add: resolve_referrer_def)
  have man: "is_managed_npm_package ld specifier r = Inr False" for r
    using plain by (simp add: is_managed_npm_package_def)
  have engine: "resolve_specifier ld False specifier referrer cwd =
      bind_res (map_err (\<lambda>e. cannot_resolve specifier e)
        (graph_resolver_resolve rs specifier (rg_specifier import) ModeImport NodeExecution)) (node_or ld)"
    using plain(3) by (cases "ld_parse ld specifier") (simp_all add: resolve_specifier_def ref man loader)
  show "resolve_specifier ld False specifier referrer cwd = node_or ld u"
    if "graph_trait_resolve rs specifier import GraphExecution = Inr u"
  proof -
    have "rs_resolve rs specifier (rg_specifier import) (0, 0) ModeImport NodeExecution = Inr u"
      using that position by (metis graph_trait_resolve_def node_kind.simps(1))
    then show ?thesis by (simp add: engine graph_resolver_resolve_def)
  qed
  show "\<exists>m. resolve_specifier ld False specifier referrer cwd = Inl m"
    if "graph_trait_resolve rs specifier import GraphExecution = Inl e"
  proof (cases "rs_resolve rs specifier (rg_specifier import) (0, 0) ModeImport NodeExecution")
    case (Inr v)
    with that position show ?thesis by (metis graph_trait_resolve_def node_kind.simps(1) sum.distinct(1))
  qed (simp add: engine graph_resolver_resolve_def)
qed

definition sample_stack_resolver :: "(string, string) stack_resolver" where
  "sample_stack_resolver =
     \<lparr>rs_resolve = (\<lambda>s r pos mode kind. if s = ''chalk'' then Inr ''/pkg/chalk.js'' else Inl ''not found''),
      rs_npm_file = (\<lambda>s r mode kind. Inl ''not found''), rs_show = (\<lambda>e. e), rs_jsx = (\<lambda>_. None)\<rparr>"

definition sample_stack_env :: "string loader_env" where
  "sample_stack_env =
     sample_node_env\<lparr>ld_graph_resolve := (\<lambda>s r. graph_resolver_resolve sample_stack_resolver s r ModeImport NodeExecution)\<rparr>"

theorem graph_and_engine_resolve_alike_witness:
  "resolve_specifier sample_stack_env False ''chalk'' ''/app/main.js'' ''/app'' = Inr ''/pkg/chalk.js''"
proof -
  have "resolve_specifier sample_stack_env False ''chalk'' ''/app/main.js'' ''/app'' = node_or sample_stack_env ''/pkg/chalk.js''"
    by (rule graph_and_engine_resolve_alike(1) [where rs = sample_stack_resolver
          and import = "\<lparr>rg_specifier = ''/app/main.js'', rg_start = (3, 7)\<rparr>"])
      (simp_all add: sample_stack_env_def sample_node_env_def sample_stack_resolver_def graph_trait_resolve_def
        starts_with_def)
  then show ?thesis by (simp add: node_or_def sample_stack_env_def sample_node_env_def)
qed

end
