(* ===== verification/Ld_Failure.thy ===== *)
theory Ld_Failure
  imports Ld_Entry Ld_Task
begin

text \<open>
  Failures with more than one owner (\<open>ExecutionFailure::into_parts\<close> of src/src/executor.rs). Elsewhere an
  error is its variant and its message; here it also has the Rust errors behind it, which the
  classification of permission errors looks at, and the theorems say that a copy of a failure shows
  and classifies as the original.
\<close>

section \<open>Errors with their types\<close>

text \<open>
  \<open>std::io::Error\<close>: a code of the operating system, a kind with a message, or an error in it (its
  message, the error, and that error's source).
\<close>

datatype io_repr =
    IrOs int
  | IrSimple io_error_kind string
  | IrCustom io_error_kind string rust_error "rust_error option"

record os_errors =
  oe_kind :: "int \<Rightarrow> io_error_kind"
  oe_message :: "int \<Rightarrow> string"

fun raw_os_error :: "io_repr \<Rightarrow> int option" where
  "raw_os_error (IrOs code) = Some code"
| "raw_os_error _ = None"

fun ir_kind :: "os_errors \<Rightarrow> io_repr \<Rightarrow> io_error_kind" where
  "ir_kind os (IrOs code) = oe_kind os code"
| "ir_kind os (IrSimple kind _) = kind"
| "ir_kind os (IrCustom kind _ _ _) = kind"

fun ir_message :: "os_errors \<Rightarrow> io_repr \<Rightarrow> string" where
  "ir_message os (IrOs code) = oe_message os code"
| "ir_message os (IrSimple _ message) = message"
| "ir_message os (IrCustom _ message _ _) = message"

fun ir_inner :: "io_repr \<Rightarrow> rust_error option" where
  "ir_inner (IrCustom _ _ inner _) = Some inner"
| "ir_inner _ = None"

fun ir_source :: "io_repr \<Rightarrow> rust_error option" where
  "ir_source (IrCustom _ _ _ source) = source"
| "ir_source _ = None"

text \<open>\<open>CoreError\<close>: how it is shown, its JavaScript class, and its \<open>CoreErrorKind\<close>.\<close>

datatype core_error = CoreError (ce_message: string) (ce_class: string) (ce_kind: rust_error)

text \<open>\<open>LibdenoError\<close> and \<open>ExecutionError\<close>; an anyhow error is its message and its chain of errors.\<close>

datatype typed_libdeno_error =
    TeEntry string "rust_error list"
  | TePermission string
  | TeConfiguration string
  | TeRuntime string "rust_error list"
  | TeCore core_error
  | TeIo io_repr
  | TeTimeout string

datatype typed_execution_error =
    TxLibdeno typed_libdeno_error
  | TxUnsupported unsupported_capability
  | TxInternal string
  | TxCancelled
  | TxSupervisor supervisor_failure_category

text \<open>What the other theories keep of an error, and what the classification looks at.\<close>

fun untyped_libdeno :: "os_errors \<Rightarrow> typed_libdeno_error \<Rightarrow> libdeno_error" where
  "untyped_libdeno os (TeEntry message _) = ErrEntry message"
| "untyped_libdeno os (TePermission message) = ErrPermission message"
| "untyped_libdeno os (TeConfiguration message) = ErrConfiguration message"
| "untyped_libdeno os (TeRuntime message _) = ErrRuntime message"
| "untyped_libdeno os (TeCore e) = ErrCore (ce_message e)"
| "untyped_libdeno os (TeIo io) = ErrIo (IoError (ir_kind os io) (ir_message os io))"
| "untyped_libdeno os (TeTimeout message) = ErrTimeout message"

fun untyped :: "os_errors \<Rightarrow> typed_execution_error \<Rightarrow> execution_error" where
  "untyped os (TxLibdeno e) = EeLibdeno (untyped_libdeno os e)"
| "untyped os (TxUnsupported capability) = EeUnsupported capability"
| "untyped os (TxInternal message) = EeInternal message"
| "untyped os TxCancelled = EeCancelled"
| "untyped os (TxSupervisor category) = EeSupervisor category"

fun payload_of :: "os_errors \<Rightarrow> typed_libdeno_error \<Rightarrow> error_payload" where
  "payload_of os (TeRuntime _ chain) = EpRuntime chain"
| "payload_of os (TeCore e) = EpCore (ReCoreError (ce_kind e))"
| "payload_of os e = EpOther (untyped_libdeno os e)"

text \<open>
  The errors as links of a chain. The payload of a variant with \<open>#[from]\<close> is its source; \<open>Entry\<close> and
  the variants with a text have none.
\<close>

fun libdeno_node :: "typed_libdeno_error \<Rightarrow> rust_error" where
  "libdeno_node (TeRuntime _ chain) = ReOther (case chain of [] \<Rightarrow> None | e # _ \<Rightarrow> Some e)"
| "libdeno_node (TeCore e) = ReOther (Some (ReCoreError (ce_kind e)))"
| "libdeno_node (TeIo io) = ReOther (Some (ReOther (ir_source io)))"
| "libdeno_node _ = ReOther None"

fun execution_node :: "typed_execution_error \<Rightarrow> rust_error" where
  "execution_node (TxLibdeno e) = ReOther (Some (libdeno_node e))"
| "execution_node _ = ReOther None"

section \<open>SharedError\<close>

datatype shared_error_source = SesOwner | SesIoInner | SesCoreKind | SesCoreJsBoxInner

record shared_error =
  sh_owner :: typed_execution_error
  sh_message :: string
  sh_class :: string
  sh_source :: shared_error_source

definition shared_error_new ::
  "typed_execution_error \<Rightarrow> string \<Rightarrow> string \<Rightarrow> shared_error_source \<Rightarrow> shared_error" where
  "shared_error_new owner message class source =
     \<lparr>sh_owner = owner, sh_message = message, sh_class = class, sh_source = source\<rparr>"

fun js_box_inner :: "rust_error \<Rightarrow> rust_error" where
  "js_box_inner (ReJsErrorBox (Some inner) _) = inner"
| "js_box_inner box = box"

definition shared_source :: "shared_error \<Rightarrow> rust_error" where
  "shared_source s =
     (case sh_source s of
        SesOwner \<Rightarrow> execution_node (sh_owner s)
      | SesIoInner \<Rightarrow>
          (case sh_owner s of
             TxLibdeno (TeIo io) \<Rightarrow>
               (case ir_inner io of Some e \<Rightarrow> e | None \<Rightarrow> execution_node (sh_owner s))
           | _ \<Rightarrow> execution_node (sh_owner s))
      | SesCoreKind \<Rightarrow>
          (case sh_owner s of
             TxLibdeno (TeCore e) \<Rightarrow> ce_kind e
           | _ \<Rightarrow> execution_node (sh_owner s))
      | SesCoreJsBoxInner \<Rightarrow>
          (case sh_owner s of
             TxLibdeno (TeCore e) \<Rightarrow>
               (case ce_kind e of ReCoreJsBox box \<Rightarrow> js_box_inner box | kind \<Rightarrow> kind)
           | _ \<Rightarrow> execution_node (sh_owner s)))"

definition shared_node :: "shared_error \<Rightarrow> rust_error" where
  "shared_node s = ReOther (Some (shared_source s))"

text \<open>
  deno_error and deno_core: how \<open>CoreErrorKind::JsBox(JsErrorBox::from_err(shared)).into_box()\<close> is shown,
  its class, and the source of the box.
\<close>

record box_ops =
  bx_message :: "shared_error \<Rightarrow> string"
  bx_class :: "shared_error \<Rightarrow> string"
  bx_source :: "shared_error \<Rightarrow> rust_error option"

definition core_error_of_shared :: "box_ops \<Rightarrow> shared_error \<Rightarrow> core_error" where
  "core_error_of_shared bx s =
     CoreError (bx_message bx s) (bx_class bx s)
       (ReCoreJsBox (ReJsErrorBox (Some (shared_node s)) (bx_source bx s)))"

text \<open>
  The chain of \<open>anyhow::Error::new(shared)\<close> for an owner that holds an anyhow error itself: the shared
  error, its owner, the variant, and for \<open>Runtime\<close> the chain of the original.
\<close>

definition shared_chain :: "shared_error \<Rightarrow> rust_error list" where
  "shared_chain s =
     shared_node s # execution_node (sh_owner s)
     # (case sh_owner s of
          TxLibdeno e \<Rightarrow> libdeno_node e # (case e of TeRuntime _ chain \<Rightarrow> chain | _ \<Rightarrow> [])
        | _ \<Rightarrow> [])"

fun is_js_box :: "rust_error \<Rightarrow> bool" where
  "is_js_box (ReCoreJsBox _) = True"
| "is_js_box _ = False"

fun clone_libdeno_error ::
  "box_ops \<Rightarrow> os_errors \<Rightarrow> typed_libdeno_error \<Rightarrow> typed_execution_error \<Rightarrow> typed_libdeno_error" where
  "clone_libdeno_error bx os (TeEntry message _) owner =
     TeEntry message (shared_chain (shared_error_new owner message ''Error'' SesOwner))"
| "clone_libdeno_error bx os (TePermission message) owner = TePermission message"
| "clone_libdeno_error bx os (TeConfiguration message) owner = TeConfiguration message"
| "clone_libdeno_error bx os (TeRuntime message _) owner =
     TeRuntime message (shared_chain (shared_error_new owner message ''Error'' SesOwner))"
| "clone_libdeno_error bx os (TeCore e) owner =
     TeCore (core_error_of_shared bx (shared_error_new owner (ce_message e) (ce_class e)
       (if is_js_box (ce_kind e) then SesCoreJsBoxInner else SesCoreKind)))"
| "clone_libdeno_error bx os (TeIo io) owner =
     (case raw_os_error io of
        Some code \<Rightarrow> TeIo (IrOs code)
      | None \<Rightarrow>
          (let s = shared_error_new owner (ir_message os io) ''Error'' SesIoInner
           in TeIo (IrCustom (ir_kind os io) (sh_message s) (shared_node s) (Some (shared_source s)))))"
| "clone_libdeno_error bx os (TeTimeout message) owner = TeTimeout message"

fun clone_execution_error :: "box_ops \<Rightarrow> os_errors \<Rightarrow> typed_execution_error \<Rightarrow> typed_execution_error" where
  "clone_execution_error bx os (TxLibdeno e) = TxLibdeno (clone_libdeno_error bx os e (TxLibdeno e))"
| "clone_execution_error bx os (TxUnsupported capability) = TxUnsupported capability"
| "clone_execution_error bx os (TxInternal message) = TxInternal message"
| "clone_execution_error bx os TxCancelled = TxCancelled"
| "clone_execution_error bx os (TxSupervisor category) = TxSupervisor category"

section \<open>ExecutionFailure\<close>

record typed_failure =
  tf_error :: typed_execution_error
  tf_report :: execution_report
  tf_partial_output :: "execution_output option"

definition untyped_failure :: "os_errors \<Rightarrow> typed_failure \<Rightarrow> execution_failure" where
  "untyped_failure os f =
     \<lparr>ef_error = untyped os (tf_error f), ef_report = tf_report f, ef_partial_output = tf_partial_output f\<rparr>"

text \<open>
  \<open>into_parts\<close>: \<open>sole\<close> says whether this was the last owner of the error. Reports and outputs are
  cloned as they are.
\<close>

definition into_parts ::
  "box_ops \<Rightarrow> os_errors \<Rightarrow> bool \<Rightarrow> typed_failure
   \<Rightarrow> typed_execution_error \<times> execution_report \<times> execution_output option" where
  "into_parts bx os sole f =
     (if sole then tf_error f else clone_execution_error bx os (tf_error f), tf_report f, tf_partial_output f)"

section \<open>A copy is as good as the original\<close>

text \<open>
  What upstream documents: a box made of an error shows that error's message and class, and has no
  source, the error's source, or the error itself as its source; anyhow errors have at least one link;
  and what is found behind the source of a box is found behind its inner error.
\<close>

definition boxes_forward :: "box_ops \<Rightarrow> bool" where
  "boxes_forward bx \<longleftrightarrow>
     (\<forall>s. bx_message bx s = sh_message s \<and> bx_class bx s = sh_class s \<and>
          bx_source bx s \<in> {None, Some (shared_source s), Some (shared_node s)})"

fun box_consistent :: "rust_error \<Rightarrow> bool" where
  "box_consistent (ReCoreJsBox (ReJsErrorBox (Some inner) (Some source))) \<longleftrightarrow>
     (error_chain_has_permission_source source \<longrightarrow> error_chain_has_permission_source inner)"
| "box_consistent _ = True"

fun typed_consistent :: "typed_libdeno_error \<Rightarrow> bool" where
  "typed_consistent (TeRuntime _ chain) = (chain \<noteq> [])"
| "typed_consistent (TeCore e) = box_consistent (ce_kind e)"
| "typed_consistent _ = True"

lemma shared_node_permission [simp]:
  "error_chain_has_permission_source (shared_node s) = error_chain_has_permission_source (shared_source s)"
  by (simp add: shared_node_def)

lemma shared_error_new_simps [simp]:
  "sh_owner (shared_error_new owner message class source) = owner"
  "sh_message (shared_error_new owner message class source) = message"
  "sh_class (shared_error_new owner message class source) = class"
  "sh_source (shared_error_new owner message class source) = source"
  by (simp_all add: shared_error_new_def)

text \<open>The kind of a copied core error finds a denial exactly when the original kind does.\<close>

lemma js_box_inner_permission:
  "box_consistent (ReCoreJsBox box) \<Longrightarrow>
   error_chain_has_permission_source (js_box_inner box) = error_chain_has_permission_source box"
  by (induction box rule: js_box_inner.induct) (auto split: option.splits)

lemma shared_core_permission:
  assumes "box_consistent (ce_kind e)"
  shows "error_chain_has_permission_source (shared_source (shared_error_new (TxLibdeno (TeCore e)) m c
      (if is_js_box (ce_kind e) then SesCoreJsBoxInner else SesCoreKind)))
    = error_chain_has_permission_source (ce_kind e)"
  using assms js_box_inner_permission
  by (cases "ce_kind e") (simp_all add: shared_source_def)

lemma core_error_of_shared_permission:
  assumes "boxes_forward bx"
  shows "error_chain_has_permission_source (ce_kind (core_error_of_shared bx s))
    = error_chain_has_permission_source (shared_source s)"
proof -
  have "bx_source bx s \<in> {None, Some (shared_source s), Some (shared_node s)}"
    using assms by (simp add: boxes_forward_def)
  then show ?thesis by (auto simp: core_error_of_shared_def)
qed

lemma runtime_clone_permission:
  assumes "chain \<noteq> []"
  shows "list_ex error_chain_has_permission_source
      (shared_chain (shared_error_new (TxLibdeno (TeRuntime m chain)) m' c SesOwner))
    = list_ex error_chain_has_permission_source chain"
  using assms by (cases chain) (auto simp: shared_chain_def shared_source_def)

lemma clone_libdeno_error_permission:
  assumes "boxes_forward bx" "typed_consistent e"
  shows "is_permission_error (payload_of os (clone_libdeno_error bx os e (TxLibdeno e)))
    = is_permission_error (payload_of os e)"
proof (cases e)
  case (TeRuntime m chain)
  with assms runtime_clone_permission [of chain m m "''Error''"] show ?thesis by simp
next
  case (TeCore ce)
  with assms shared_core_permission [of ce "ce_message ce" "ce_class ce"] show ?thesis
    by (simp add: core_error_of_shared_permission)
next
  case (TeIo io)
  then show ?thesis by (cases "raw_os_error io") (simp_all add: Let_def)
qed simp_all

lemma clone_libdeno_error_untyped:
  assumes "boxes_forward bx"
  shows "untyped_libdeno os (clone_libdeno_error bx os e (TxLibdeno e)) = untyped_libdeno os e"
proof (cases e)
  case (TeCore ce)
  with assms show ?thesis by (simp add: core_error_of_shared_def boxes_forward_def)
next
  case (TeIo io)
  then show ?thesis by (cases io) (simp_all add: Let_def)
qed simp_all

text \<open>
  Whoever splits a failure gets the same failure. Whether the caller is the last owner of the
  error, and gets the error itself, or one of several, and gets a copy, the parts show the
  same variant, message and kind, the same report and output; the copy of a script's error has
  the JavaScript class of the original, the copy of an I/O error its operating system code;
  and the copy counts as a permission error exactly when the original does.
\<close>

theorem split_failures_are_equal:
  assumes "boxes_forward bx"
    and "into_parts bx os sole f = (error, report, partial)"
  shows "\<lparr>ef_error = untyped os error, ef_report = report, ef_partial_output = partial\<rparr> = untyped_failure os f \<and>
    (tf_error f = TxLibdeno e \<longrightarrow> typed_consistent e \<longrightarrow>
       (\<exists>e'. error = TxLibdeno e' \<and> is_permission_error (payload_of os e') = is_permission_error (payload_of os e))) \<and>
    (tf_error f = TxLibdeno (TeCore ce) \<longrightarrow> (\<exists>ce'. error = TxLibdeno (TeCore ce') \<and> ce_class ce' = ce_class ce)) \<and>
    (tf_error f = TxLibdeno (TeIo io) \<longrightarrow>
       (\<exists>io'. error = TxLibdeno (TeIo io') \<and> raw_os_error io' = raw_os_error io))"
proof (intro conjI impI)
  have error: "error = (if sole then tf_error f else clone_execution_error bx os (tf_error f))"
    and rest: "report = tf_report f" "partial = tf_partial_output f"
    using assms(2) by (auto simp: into_parts_def)
  have "untyped os error = untyped os (tf_error f)"
    using clone_libdeno_error_untyped [OF assms(1)] unfolding error by (cases "tf_error f") simp_all
  with rest show "\<lparr>ef_error = untyped os error, ef_report = report, ef_partial_output = partial\<rparr> = untyped_failure os f"
    by (simp add: untyped_failure_def)
  show "\<exists>e'. error = TxLibdeno e' \<and> is_permission_error (payload_of os e') = is_permission_error (payload_of os e)"
    if "tf_error f = TxLibdeno e" "typed_consistent e"
    using that clone_libdeno_error_permission [OF assms(1), of e os] unfolding error by simp
  show "\<exists>ce'. error = TxLibdeno (TeCore ce') \<and> ce_class ce' = ce_class ce" if "tf_error f = TxLibdeno (TeCore ce)"
    using that assms(1) unfolding error by (simp add: core_error_of_shared_def boxes_forward_def)
  show "\<exists>io'. error = TxLibdeno (TeIo io') \<and> raw_os_error io' = raw_os_error io"
    if "tf_error f = TxLibdeno (TeIo io)"
    using that unfolding error by (cases "raw_os_error io") (simp_all add: Let_def)
qed

definition sample_box_ops :: box_ops where
  "sample_box_ops = \<lparr>bx_message = sh_message, bx_class = sh_class, bx_source = (\<lambda>s. Some (shared_source s))\<rparr>"

definition sample_os_errors :: os_errors where
  "sample_os_errors = \<lparr>oe_kind = EkOs, oe_message = (\<lambda>_. ''os error'')\<rparr>"

text \<open>The denial of a read, as the check of an entry reports it, is still a denial in a copy.\<close>

definition sample_denial :: typed_failure where
  "sample_denial =
     \<lparr>tf_error = TxLibdeno (TeCore (CoreError ''denied'' ''NotCapable''
        (ReCoreJsBox (ReJsErrorBox (Some RePermissionDenied) None)))),
      tf_report = \<lparr>er_requested_backend = BkInProcess, er_dispatched_backend = None, er_elapsed = 0,
        er_backend_outcome = CoFailed, er_timing = phase_timing_default, er_cleanup_strength = None,
        er_transport_status = None\<rparr>,
      tf_partial_output = None\<rparr>"

theorem split_failures_are_equal_witness:
  "\<exists>e'. fst (into_parts sample_box_ops sample_os_errors False sample_denial) = TxLibdeno e' \<and>
     is_permission_error (payload_of sample_os_errors e')"
proof -
  have forward: "boxes_forward sample_box_ops" by (simp add: boxes_forward_def sample_box_ops_def)
  obtain error report partial where parts:
    "into_parts sample_box_ops sample_os_errors False sample_denial = (error, report, partial)"
    by (cases "into_parts sample_box_ops sample_os_errors False sample_denial") auto
  let ?denial = "TeCore (CoreError ''denied'' ''NotCapable'' (ReCoreJsBox (ReJsErrorBox (Some RePermissionDenied) None)))"
  have "tf_error sample_denial = TxLibdeno ?denial \<longrightarrow> typed_consistent ?denial \<longrightarrow>
      (\<exists>e'. error = TxLibdeno e' \<and>
         is_permission_error (payload_of sample_os_errors e') = is_permission_error (payload_of sample_os_errors ?denial))"
    using split_failures_are_equal [OF forward parts] by blast
  moreover have "tf_error sample_denial = TxLibdeno ?denial" by (simp add: sample_denial_def)
  ultimately show ?thesis by (simp add: parts)
qed

end
