(* ===== verification/Ld_Services.thy ===== *)
theory Ld_Services
  imports Ld_Reuse "HOL-Library.Sublist"
begin

text \<open>
  The construction of the resolver stack and of a run's services (src/src/services.rs with the
  factories of src/src/deno_resolver_adapter.rs), the npm lifecycle scripts, the npm state that child
  processes inherit, the blob store of the resolvers, and the check of the V8 version that a
  snapshot was made with (src/src/snapshot_identity.rs). Upstream constructions are outcomes.
\<close>

section \<open>The workspace factory\<close>

text \<open>
  The options of a \<open>WorkspaceFactory\<close> that the code sets; \<open>'w\<close> is the discovered workspace, whose
  configuration may name a mode for \<open>node_modules\<close>. The first factory discovers, the second has the mode
  pinned and is given the discovered workspace.
\<close>

datatype node_modules_dir_mode = NmAuto | NmManual | NmNone

record workspace_options =
  wo_initial_cwd :: path
  wo_start_paths :: "path list"
  wo_node_modules_dir :: "node_modules_dir_mode option"
  wo_lockfile_skip_write :: bool

definition new_workspace_factory ::
  "(workspace_options \<Rightarrow> 'w anyhow) \<Rightarrow> ('w \<Rightarrow> node_modules_dir_mode option anyhow) \<Rightarrow> path \<Rightarrow> path list
   \<Rightarrow> (workspace_options \<times> 'w) anyhow" where
  "new_workspace_factory discover configured_mode initial_cwd config_start_paths =
     (let options = \<lparr>wo_initial_cwd = initial_cwd, wo_start_paths = config_start_paths,
                     wo_node_modules_dir = None, wo_lockfile_skip_write = True\<rparr>
      in bind_res (discover options) (\<lambda>workspace.
         bind_res (configured_mode workspace) (\<lambda>configured.
           let mode = (case configured of Some m \<Rightarrow> m | None \<Rightarrow> NmAuto)
           in Inr (options\<lparr>wo_node_modules_dir := Some mode\<rparr>, workspace))))"

definition new_authoritative_workspace_factory ::
  "(workspace_options \<Rightarrow> 'w anyhow) \<Rightarrow> ('w \<Rightarrow> node_modules_dir_mode option anyhow) \<Rightarrow> path \<Rightarrow> path list
   \<Rightarrow> workspace_options \<times> 'w \<Rightarrow> (workspace_options \<times> 'w) anyhow" where
  "new_authoritative_workspace_factory discover configured_mode initial_cwd config_start_paths original =
     new_workspace_factory discover configured_mode initial_cwd config_start_paths"

section \<open>One build of the resolver stack\<close>

text \<open>
  What the constructions of \<open>build_once\<close> answer, in their order. \<open>sb_lock_config\<close> is the lock
  configuration of the root deno.json, if there is one: an error, nothing, or whether it is frozen.
  \<open>sb_initialize\<close> is the installer's initialization on the answer of the snapshot callback.
\<close>

record ('l, 'v, 'n) stack_build =
  sb_workspace_factory :: "unit anyhow"
  sb_workspace_directory :: "unit anyhow"
  sb_npmrc :: "unit anyhow"
  sb_manifest :: "manifest anyhow"
  sb_http_client :: "unit anyhow"
  sb_http_cache :: "unit anyhow"
  sb_global_http_cache :: "unit anyhow"
  sb_package_info_provider :: "unit anyhow"
  sb_lockfile :: "'l option anyhow"
  sb_lock_directory :: "unit anyhow"
  sb_lock_config :: "(string + bool option) option"
  sb_initialize :: "'v option \<Rightarrow> 'n anyhow"
  sb_graph_resolver :: "unit anyhow"
  sb_npm_process_state :: "unit anyhow"

record ('l, 'n) shared_services =
  ss_lockfile :: "'l option"
  ss_frozen_lockfile :: bool
  ss_input_manifest :: manifest
  ss_npm_snapshot_key :: "resolver_input_identity option"
  ss_npm_resolution :: 'n

definition frozen_setting :: "(string + bool option) option \<Rightarrow> bool" where
  "frozen_setting lock_config \<longleftrightarrow> lock_config = Some (Inr (Some True))"

definition frozen_lockfile :: "'l option \<Rightarrow> unit anyhow \<Rightarrow> (string + bool option) option \<Rightarrow> bool anyhow" where
  "frozen_lockfile lockfile directory lock_config =
     (if lockfile = None then Inr False
      else bind_res directory (\<lambda>_. Inr (frozen_setting lock_config)))"

text \<open>\<open>resolve_npm_resolution_snapshot\<close> on the process's cache of snapshots.\<close>

definition snapshot_callback ::
  "resolver_input_identity option \<Rightarrow> (resolver_input_identity \<times> 'v) list \<Rightarrow> 'v option" where
  "snapshot_callback key cache = Option.bind key (snapshot_get cache)"

definition build_once ::
  "('l, 'v, 'n) stack_build \<Rightarrow> (resolver_input_identity \<times> 'v) list \<Rightarrow> ('l, 'n) shared_services anyhow" where
  "build_once sb cache =
     bind_res (sb_workspace_factory sb) (\<lambda>_.
     bind_res (sb_workspace_directory sb) (\<lambda>_.
     bind_res (sb_npmrc sb) (\<lambda>_.
     bind_res (sb_manifest sb) (\<lambda>input_manifest.
     let key = managed_snapshot_key input_manifest in
     bind_res (sb_http_client sb) (\<lambda>_.
     bind_res (sb_http_cache sb) (\<lambda>_.
     bind_res (sb_global_http_cache sb) (\<lambda>_.
     bind_res (sb_package_info_provider sb) (\<lambda>_.
     bind_res (sb_lockfile sb) (\<lambda>lockfile.
     bind_res (frozen_lockfile lockfile (sb_lock_directory sb) (sb_lock_config sb)) (\<lambda>frozen.
     bind_res (sb_initialize sb (snapshot_callback key cache)) (\<lambda>npm_resolution.
     bind_res (sb_graph_resolver sb) (\<lambda>_.
     bind_res (sb_npm_process_state sb) (\<lambda>_.
       Inr \<lparr>ss_lockfile = lockfile, ss_frozen_lockfile = frozen, ss_input_manifest = input_manifest,
            ss_npm_snapshot_key = key, ss_npm_resolution = npm_resolution\<rparr>)))))))))))))"

section \<open>The npm state of child processes\<close>

datatype 'c npm_resolver = NrManaged 'c "path option" | NrByonm "path option"

datatype 'c npm_process_state_kind = NpManaged 'c | NpByonm

record 'c npm_process_state_provider =
  np_kind :: "'c npm_process_state_kind"
  np_local_node_modules_path :: "string option"

definition npm_process_state_inputs ::
  "(path \<Rightarrow> string) \<Rightarrow> 'c npm_resolver anyhow \<Rightarrow> ('c option \<times> string option) anyhow" where
  "npm_process_state_inputs to_string_lossy npm_resolver =
     bind_res npm_resolver (\<lambda>r. case r of
       NrManaged resolution root \<Rightarrow> Inr (Some resolution, map_option to_string_lossy root)
     | NrByonm root \<Rightarrow> Inr (None, map_option to_string_lossy root))"

definition create_npm_process_state_provider ::
  "(path \<Rightarrow> string) \<Rightarrow> 'c npm_resolver anyhow \<Rightarrow> 'c npm_process_state_provider anyhow" where
  "create_npm_process_state_provider to_string_lossy npm_resolver =
     bind_res (npm_process_state_inputs to_string_lossy npm_resolver) (\<lambda>(resolution, local_path).
       Inr \<lparr>np_kind = (case resolution of Some c \<Rightarrow> NpManaged c | None \<Rightarrow> NpByonm),
            np_local_node_modules_path = local_path\<rparr>)"

text \<open>
  The serialized state, with the derived layout of serde. \<open>snapshot_json\<close> serializes the present
  snapshot of a resolution; \<open>to_string\<close> is serde_json's, which can fail.
\<close>

definition npm_process_state_json :: "('c \<Rightarrow> json) \<Rightarrow> 'c npm_process_state_provider \<Rightarrow> json" where
  "npm_process_state_json snapshot_json np =
     JObject
       [(''kind'', case np_kind np of
           NpManaged resolution \<Rightarrow> JObject [(''Snapshot'', snapshot_json resolution)]
         | NpByonm \<Rightarrow> JString ''Byonm''),
        (''local_node_modules_path'',
          case np_local_node_modules_path np of None \<Rightarrow> JNull | Some p \<Rightarrow> JString p)]"

definition get_npm_process_state ::
  "('c \<Rightarrow> json) \<Rightarrow> (json \<Rightarrow> string option) \<Rightarrow> 'c npm_process_state_provider \<Rightarrow> string" where
  "get_npm_process_state snapshot_json to_string np =
     (case to_string (npm_process_state_json snapshot_json np) of Some s \<Rightarrow> s | None \<Rightarrow> ''{}'')"

section \<open>The blob store of the resolvers\<close>

record blob =
  bl_media_type :: string
  bl_bytes :: bytes

definition resolver_blob_get :: "('u \<Rightarrow> blob option) \<Rightarrow> ('u \<times> blob) option \<Rightarrow> 'u \<Rightarrow> blob option" where
  "resolver_blob_get store fallback url =
     (case store url of
        Some b \<Rightarrow> Some b
      | None \<Rightarrow> (case fallback of Some (root, b) \<Rightarrow> if root = url then Some b else None | None \<Rightarrow> None))"

section \<open>The services of a run\<close>

text \<open>
  Everything a run can change is a store of its own. Stores are numbered by an allocator; \<open>'s\<close> is the
  shared stack and \<open>'p\<close> the live permissions container. \<open>'b\<close> is a blob with its URL.
\<close>

record 'b file_fetcher =
  ff_blob_store :: nat
  ff_fallback :: "'b option"
  ff_memory_files :: nat
  ff_allow_remote :: bool

record ('b, 'p) graph_loader =
  gl_file_fetcher :: "'b file_fetcher"
  gl_include_npm_sources :: bool
  gl_permissions :: "'p option"
  gl_file_permission_api_name :: "string option"

record ('s, 'b, 'p) runtime_services =
  rv_shared :: 's
  rv_file_fetcher :: "'b file_fetcher"
  rv_graph_loader :: "('b, 'p) graph_loader"
  rv_graph :: nat
  rv_blob_store :: nat
  rv_memory_files :: nat
  rv_thread_messaging :: nat
  rv_worker_lifecycle :: nat
  rv_shared_array_buffers :: nat
  rv_compiled_wasm :: nat

definition runtime_services_new ::
  "'s \<Rightarrow> unit anyhow \<Rightarrow> 'p \<Rightarrow> nat \<Rightarrow> ('s, 'b, 'p) runtime_services anyhow \<times> nat" where
  "runtime_services_new shared in_npm_checker permissions next_store =
     (case in_npm_checker of
        Inl e \<Rightarrow> (Inl e, next_store)
      | Inr _ \<Rightarrow>
          (let fetcher = \<lparr>ff_blob_store = next_store + 1, ff_fallback = None, ff_memory_files = next_store,
                          ff_allow_remote = True\<rparr>
           in (Inr \<lparr>rv_shared = shared, rv_file_fetcher = fetcher,
                    rv_graph_loader = \<lparr>gl_file_fetcher = fetcher, gl_include_npm_sources = False,
                      gl_permissions = Some permissions, gl_file_permission_api_name = Some ''import''\<rparr>,
                    rv_graph = next_store + 2, rv_blob_store = next_store + 1, rv_memory_files = next_store,
                    rv_thread_messaging = next_store + 3, rv_worker_lifecycle = next_store + 4,
                    rv_shared_array_buffers = next_store + 5, rv_compiled_wasm = next_store + 6\<rparr>,
               next_store + 7)))"

definition worker_file_fetcher :: "'b option \<Rightarrow> ('s, 'b, 'p) runtime_services \<Rightarrow> 'b file_fetcher" where
  "worker_file_fetcher fallback rv =
     \<lparr>ff_blob_store = rv_blob_store rv, ff_fallback = fallback, ff_memory_files = rv_memory_files rv,
      ff_allow_remote = True\<rparr>"

section \<open>The V8 version of a snapshot\<close>

text \<open>\<open>equal\<close> of snapshot_identity.rs, a loop over the index.\<close>

function equal_loop :: "bytes \<Rightarrow> bytes \<Rightarrow> nat \<Rightarrow> bool" where
  "equal_loop left right index =
     (if index < length left
      then if left ! index \<noteq> right ! index then False else equal_loop left right (index + 1)
      else True)"
  by pat_completeness auto
termination by (relation "measure (\<lambda>(left, right, index). length left - index)") auto

declare equal_loop.simps [simp del]

definition identity_equal :: "bytes \<Rightarrow> bytes \<Rightarrow> bool" where
  "identity_equal left right = (if length left \<noteq> length right then False else equal_loop left right 0)"

section \<open>Lifecycle scripts\<close>

text \<open>
  \<open>ExitStatus\<close>, and what the calls on a started script answer: the wait within the timeout
  (\<open>None\<close> if it elapsed), the error of the kill, and the second wait. \<open>timeout\<close> is the limit as shown.
\<close>

record exit_status =
  xs_success :: bool
  xs_show :: string

record script_child =
  sc_wait :: "exit_status io_result option"
  sc_kill_error :: "io_error option"
  sc_kill_wait :: "exit_status io_result option"

definition LIFECYCLE_SCRIPT_TIMEOUT :: string where
  "LIFECYCLE_SCRIPT_TIMEOUT = ''60s''"

definition LIFECYCLE_KILL_WAIT_TIMEOUT :: string where
  "LIFECYCLE_KILL_WAIT_TIMEOUT = ''5s''"

definition lifecycle_label :: "string \<Rightarrow> string \<Rightarrow> string" where
  "lifecycle_label event package = ''lifecycle script `'' @ event @ ''` for package `'' @ package @ ''` ''"

definition unsupervised :: string where
  "unsupervised = ''; process-tree descendants are not supervised''"

definition kill_result :: "io_error option \<Rightarrow> string" where
  "kill_result kill_error = (case kill_error of Some e \<Rightarrow> io_message e | None \<Rightarrow> ''sent'')"

definition supervise_lifecycle_script ::
  "script_child \<Rightarrow> string \<Rightarrow> string \<Rightarrow> string \<Rightarrow> exit_status anyhow" where
  "supervise_lifecycle_script child package event timeout =
     (case sc_wait child of
        Some (Inr status) \<Rightarrow> Inr status
      | Some (Inl e) \<Rightarrow> Inl (lifecycle_label event package @ ''wait failed: '' @ io_message e)
      | None \<Rightarrow>
          Inl (lifecycle_label event package @ ''timed out after '' @ timeout @
            (case (sc_kill_error child, sc_kill_wait child) of
               (None, Some (Inr status)) \<Rightarrow> ''; direct child killed with '' @ xs_show status
             | (Some e, Some (Inr status)) \<Rightarrow>
                 ''; direct-child kill failed: '' @ io_message e @ ''; wait returned '' @ xs_show status
             | (kill_error, Some (Inl wait_error)) \<Rightarrow>
                 ''; kill result: '' @ kill_result kill_error @ ''; wait failed: '' @ io_message wait_error
             | (kill_error, None) \<Rightarrow>
                 ''; kill result: '' @ kill_result kill_error @ ''; direct child did not exit within ''
                 @ LIFECYCLE_KILL_WAIT_TIMEOUT) @ unsupervised))"

record script_package =
  sp_name :: string
  sp_version :: string
  sp_folder :: string
  sp_init_cwds :: "string list"
  sp_scripts :: "string \<Rightarrow> string option"

text \<open>The command \<open>sh -c script\<close> with its directory and the variables that are set for it.\<close>

record lifecycle_command =
  lc_event :: string
  lc_script :: string
  lc_cwd :: string
  lc_env :: "(string \<times> string) list"

definition lifecycle_events :: "string list" where
  "lifecycle_events = [''preinstall'', ''install'', ''postinstall'']"

definition lifecycle_path :: "string \<Rightarrow> string \<Rightarrow> script_package \<Rightarrow> string" where
  "lifecycle_path root_node_modules inherited pkg =
     path_join (path_join (sp_folder pkg) ''node_modules'') ''.bin'' @ '':'' @
     path_join root_node_modules ''.bin'' @ '':'' @ inherited"

definition lifecycle_command ::
  "string \<Rightarrow> string \<Rightarrow> script_package \<Rightarrow> string \<Rightarrow> lifecycle_command option" where
  "lifecycle_command root_node_modules inherited pkg event =
     map_option (\<lambda>script.
       let cwd = (case sp_init_cwds pkg of p # _ \<Rightarrow> p | [] \<Rightarrow> sp_folder pkg)
       in \<lparr>lc_event = event, lc_script = script, lc_cwd = cwd,
           lc_env = [(''PATH'', lifecycle_path root_node_modules inherited pkg), (''INIT_CWD'', cwd),
             (''npm_lifecycle_event'', event), (''npm_lifecycle_script'', script),
             (''npm_package_name'', sp_name pkg), (''npm_package_version'', sp_version pkg)]\<rparr>)
       (sp_scripts pkg event)"

definition planned_scripts :: "string \<Rightarrow> string \<Rightarrow> script_package \<Rightarrow> lifecycle_command list" where
  "planned_scripts root_node_modules inherited pkg =
     List.map_filter (lifecycle_command root_node_modules inherited pkg) lifecycle_events"

text \<open>
  The scripts of one package; \<open>spawn n\<close> is what the \<open>n\<close>-th start answers. Returned are the result, the
  number of starts so far and the commands that were started.
\<close>

fun run_package_scripts ::
  "(nat \<Rightarrow> script_child io_result) \<Rightarrow> string \<Rightarrow> nat \<Rightarrow> lifecycle_command list
   \<Rightarrow> unit anyhow \<times> nat \<times> lifecycle_command list" where
  "run_package_scripts spawn name n [] = (Inr (), n, [])"
| "run_package_scripts spawn name n (cmd # cmds) =
     (case spawn n of
        Inl e \<Rightarrow> (Inl (lifecycle_label (lc_event cmd) name @ ''could not start: '' @ io_message e), Suc n, [])
      | Inr child \<Rightarrow>
          (case supervise_lifecycle_script child name (lc_event cmd) LIFECYCLE_SCRIPT_TIMEOUT of
             Inl e \<Rightarrow> (Inl e, Suc n, [cmd])
           | Inr status \<Rightarrow>
               if \<not> xs_success status
               then (Inl (lifecycle_label (lc_event cmd) name @ ''failed with '' @ xs_show status), Suc n, [cmd])
               else (case run_package_scripts spawn name (Suc n) cmds of
                       (result, m, started) \<Rightarrow> (result, m, cmd # started))))"

text \<open>\<open>execute\<close>; also returned are the packages for which the callback was called.\<close>

fun execute_lifecycle_scripts ::
  "string \<Rightarrow> string \<Rightarrow> (nat \<Rightarrow> script_child io_result) \<Rightarrow> (script_package \<Rightarrow> string + unit) \<Rightarrow> nat
   \<Rightarrow> script_package list \<Rightarrow> unit anyhow \<times> lifecycle_command list \<times> script_package list" where
  "execute_lifecycle_scripts root inherited spawn on_ran n [] = (Inr (), [], [])"
| "execute_lifecycle_scripts root inherited spawn on_ran n (pkg # pkgs) =
     (case run_package_scripts spawn (sp_name pkg) n (planned_scripts root inherited pkg) of
        (Inl e, m, started) \<Rightarrow> (Inl e, started, [])
      | (Inr _, m, started) \<Rightarrow>
          (case on_ran pkg of
             Inl e \<Rightarrow> (Inl e, started, [pkg])
           | Inr _ \<Rightarrow>
               (case execute_lifecycle_scripts root inherited spawn on_ran m pkgs of
                  (result, later, reported) \<Rightarrow> (result, started @ later, pkg # reported))))"

section \<open>Properties of lifecycle scripts\<close>

lemma run_package_scripts_started:
  "run_package_scripts spawn name n cmds = (result, m, started) \<Longrightarrow>
     prefix started cmds \<and> (is_ok result \<longrightarrow> started = cmds)"
proof (induction cmds arbitrary: n result m started)
  case (Cons cmd cmds)
  show ?case
  proof (cases "spawn n")
    case (Inl e)
    with Cons.prems show ?thesis by auto
  next
    case child: (Inr child)
    show ?thesis
    proof (cases "supervise_lifecycle_script child name (lc_event cmd) LIFECYCLE_SCRIPT_TIMEOUT")
      case (Inl e)
      with child Cons.prems show ?thesis by auto
    next
      case (Inr status)
      obtain r k s where rest: "run_package_scripts spawn name (Suc n) cmds = (r, k, s)"
        by (cases "run_package_scripts spawn name (Suc n) cmds") auto
      with child Inr Cons.prems Cons.IH [OF rest] show ?thesis
        by (cases "xs_success status") auto
    qed
  qed
qed simp

text \<open>The statuses of the scripts that ended in time with success.\<close>

definition succeeds :: "script_child io_result \<Rightarrow> bool" where
  "succeeds answer =
     (case answer of
        Inl e \<Rightarrow> False
      | Inr child \<Rightarrow> (case sc_wait child of Some (Inr status) \<Rightarrow> xs_success status | _ \<Rightarrow> False))"

lemma run_package_scripts_ok:
  "run_package_scripts spawn name n cmds = (Inr u, m, started) \<Longrightarrow>
     m = n + length cmds \<and> (\<forall>i. n \<le> i \<and> i < m \<longrightarrow> succeeds (spawn i))"
proof (induction cmds arbitrary: n m started)
  case (Cons cmd cmds)
  obtain child where child: "spawn n = Inr child"
    using Cons.prems by (cases "spawn n") auto
  obtain status where status:
    "supervise_lifecycle_script child name (lc_event cmd) LIFECYCLE_SCRIPT_TIMEOUT = Inr status" "xs_success status"
    using Cons.prems child
    by (cases "supervise_lifecycle_script child name (lc_event cmd) LIFECYCLE_SCRIPT_TIMEOUT") (auto split: if_splits)
  obtain r k s where rest: "run_package_scripts spawn name (Suc n) cmds = (r, k, s)"
    by (cases "run_package_scripts spawn name (Suc n) cmds") auto
  then have ok: "r = Inr u" "k = m" using Cons.prems child status by auto
  have "sc_wait child = Some (Inr status)"
    using status by (auto simp: supervise_lifecycle_script_def split: option.splits sum.splits)
  then have "succeeds (spawn n)" using child status by (simp add: succeeds_def)
  moreover have "m = n + length (cmd # cmds)" "\<forall>i. Suc n \<le> i \<and> i < m \<longrightarrow> succeeds (spawn i)"
    using Cons.IH [of "Suc n" k s] rest ok by simp_all
  ultimately show ?case by (metis Suc_leI le_neq_implies_less)
qed auto

lemma execute_started:
  "execute_lifecycle_scripts root inherited spawn on_ran n pkgs = (result, started, reported) \<Longrightarrow>
     prefix started (concat (map (planned_scripts root inherited) pkgs)) \<and> prefix reported pkgs \<and>
     prefix (concat (map (planned_scripts root inherited) reported)) started \<and>
     (is_ok result \<longrightarrow> reported = pkgs \<and> list_all (\<lambda>pkg. is_ok (on_ran pkg)) pkgs)"
proof (induction pkgs arbitrary: n result started reported)
  case (Cons pkg pkgs)
  obtain r m s where p: "run_package_scripts spawn (sp_name pkg) n (planned_scripts root inherited pkg) = (r, m, s)"
    by (cases "run_package_scripts spawn (sp_name pkg) n (planned_scripts root inherited pkg)") auto
  note first = run_package_scripts_started [OF p]
  show ?case
  proof (cases r)
    case (Inl e)
    with Cons.prems p first show ?thesis by (auto intro: prefix_prefix)
  next
    case ok: (Inr u)
    show ?thesis
    proof (cases "on_ran pkg")
      case (Inl e)
      with Cons.prems p ok have "result = Inl e" "started = s" "reported = [pkg]" by simp_all
      with first ok show ?thesis by simp
    next
      case (Inr v)
      obtain r' later reported' where rest: "execute_lifecycle_scripts root inherited spawn on_ran m pkgs = (r', later, reported')"
        by (cases "execute_lifecycle_scripts root inherited spawn on_ran m pkgs") auto
      with Cons.prems p ok Inr have "result = r'" "started = s @ later" "reported = pkg # reported'" by auto
      with Cons.IH [OF rest] first ok Inr show ?thesis by simp
    qed
  qed
qed simp

text \<open>
  Lifecycle scripts run as npm runs them. Whatever the scripts do, those that were started are
  a first part of the declared order (package by package; preinstall, install, postinstall),
  nothing is started after the first failure, a package is reported as done only after all of
  its scripts were started; and the execution succeeds only if all were started and every
  package was reported. The scripts of one package succeed only if each could be started and
  ended in time with success.
\<close>

theorem lifecycle_scripts_in_order:
  shows "execute_lifecycle_scripts root inherited spawn on_ran n pkgs = (result, started, reported) \<Longrightarrow>
      prefix started (concat (map (planned_scripts root inherited) pkgs)) \<and> prefix reported pkgs \<and>
      prefix (concat (map (planned_scripts root inherited) reported)) started \<and>
      (is_ok result \<longrightarrow> started = concat (map (planned_scripts root inherited) pkgs) \<and> reported = pkgs \<and>
         list_all (\<lambda>pkg. is_ok (on_ran pkg)) pkgs)"
    and "run_package_scripts spawn name n cmds = (Inr u, m, cs) \<Longrightarrow>
      cs = cmds \<and> m = n + length cmds \<and> (\<forall>i. n \<le> i \<and> i < m \<longrightarrow> succeeds (spawn i))"
proof -
  show "prefix started (concat (map (planned_scripts root inherited) pkgs)) \<and> prefix reported pkgs \<and>
      prefix (concat (map (planned_scripts root inherited) reported)) started \<and>
      (is_ok result \<longrightarrow> started = concat (map (planned_scripts root inherited) pkgs) \<and> reported = pkgs \<and>
         list_all (\<lambda>pkg. is_ok (on_ran pkg)) pkgs)"
    if "execute_lifecycle_scripts root inherited spawn on_ran n pkgs = (result, started, reported)"
    using execute_started [OF that] by (auto intro: prefix_order.antisym)
  show "cs = cmds \<and> m = n + length cmds \<and> (\<forall>i. n \<le> i \<and> i < m \<longrightarrow> succeeds (spawn i))"
    if "run_package_scripts spawn name n cmds = (Inr u, m, cs)"
    using run_package_scripts_ok [OF that] run_package_scripts_started [OF that] by simp
qed

definition sample_script_package :: script_package where
  "sample_script_package =
     \<lparr>sp_name = ''addon'', sp_version = ''1.0.0'', sp_folder = ''/w/addon'', sp_init_cwds = [],
      sp_scripts = [''postinstall'' \<mapsto> ''node finish.js'', ''install'' \<mapsto> ''node-gyp rebuild'']\<rparr>"

text \<open>The first script hangs: the second is never started and the package is not reported.\<close>

theorem lifecycle_scripts_in_order_witness:
  "\<exists>result started. execute_lifecycle_scripts ''/w/node_modules'' ''/bin''
       (\<lambda>n. Inr \<lparr>sc_wait = None, sc_kill_error = None, sc_kill_wait = Some (Inr \<lparr>xs_success = False, xs_show = ''signal: 9''\<rparr>)\<rparr>)
       (\<lambda>_. Inr ()) 0 [sample_script_package] = (result, started, []) \<and> \<not> is_ok result \<and>
     map lc_script started = [''node-gyp rebuild'']"
proof -
  let ?spawn = "\<lambda>n::nat. Inr \<lparr>sc_wait = None, sc_kill_error = None,
      sc_kill_wait = Some (Inr \<lparr>xs_success = False, xs_show = ''signal: 9''\<rparr>)\<rparr> :: script_child io_result"
  let ?run = "execute_lifecycle_scripts ''/w/node_modules'' ''/bin'' ?spawn (\<lambda>_. Inr ()) 0 [sample_script_package]"
  have outcome: "map lc_script (fst (snd ?run)) = [''node-gyp rebuild'']" "snd (snd ?run) = []" "\<not> is_ok (fst ?run)"
    by (simp_all add: planned_scripts_def lifecycle_events_def map_filter_simps lifecycle_command_def
        sample_script_package_def Let_def supervise_lifecycle_script_def)
  obtain result started reported where run: "?run = (result, started, reported)" by (cases ?run) auto
  from lifecycle_scripts_in_order(1) [OF run] outcome show ?thesis unfolding run by auto
qed

section \<open>Properties of the builds\<close>

lemma build_once_Inr:
  assumes "build_once sb cache = Inr ss"
  shows "sb_manifest sb = Inr (ss_input_manifest ss)"
    and "ss_npm_snapshot_key ss = managed_snapshot_key (ss_input_manifest ss)"
    and "sb_lockfile sb = Inr (ss_lockfile ss)"
    and "ss_frozen_lockfile ss \<longleftrightarrow> ss_lockfile ss \<noteq> None \<and> frozen_setting (sb_lock_config sb)"
    and "sb_initialize sb (snapshot_callback (ss_npm_snapshot_key ss) cache) = Inr (ss_npm_resolution ss)"
  using assms unfolding build_once_def Let_def bind_res_Inr frozen_lockfile_def
  by (auto simp: bind_res_Inr split: if_splits)

lemma saved_last:
  assumes "is_current cd w m" "managed_snapshot_key m = Some key"
  shows "snapshot_get (saved_snapshots cd (earlier @ [(w, m, Some v)])) key = Some v"
  using assms snapshots.lookup_store [OF saved_snapshots_ok [of cd earlier], of key v]
  by (simp add: saved_snapshots_def save_npm_snapshot_cache_def)

text \<open>
  C37: The installer of a build is initialised with a resolution saved for the same inputs, or
  with none: every stack holds what sb_initialize answered to what it was given, and what it
  was given, if anything, is a snapshot that was saved while a manifest of exactly this
  identity was current, in a managed project without lockfile and credentials. A project that
  is not managed, has a lockfile or holds credentials is initialised with none; and when the
  last save was one for these inputs, the initialisation is given that snapshot. A stack is
  frozen only if it has a lockfile.
\<close>

theorem builds_start_from_saved_snapshots:
  assumes "build_once sb (saved_snapshots cd saves) = Inr ss"
  shows "(\<exists>given. sb_initialize sb given = Inr (ss_npm_resolution ss) \<and>
      (\<forall>v. given = Some v \<longrightarrow>
         (\<exists>w m. (w, m, Some v) \<in> set saves \<and> is_current cd w m \<and> mf_identity m = mf_identity (ss_input_manifest ss) \<and>
            \<not> ri_byonm (mf_identity m) \<and> \<not> ri_lockfile_present (mf_identity m) \<and>
            \<not> rb_npmrc_has_auth (mf_probe m) \<and> \<not> rb_npmrc_has_auth (mf_probe (ss_input_manifest ss))))) \<and>
    (ri_byonm (mf_identity (ss_input_manifest ss)) \<or> ri_lockfile_present (mf_identity (ss_input_manifest ss)) \<or>
     rb_npmrc_has_auth (mf_probe (ss_input_manifest ss)) \<longrightarrow>
       sb_initialize sb None = Inr (ss_npm_resolution ss)) \<and>
    (\<forall>earlier w m v. saves = earlier @ [(w, m, Some v)] \<and> is_current cd w m \<and>
       mf_identity m = mf_identity (ss_input_manifest ss) \<and>
       \<not> ri_byonm (mf_identity m) \<and> \<not> ri_lockfile_present (mf_identity m) \<and>
       \<not> rb_npmrc_has_auth (mf_probe m) \<and> \<not> rb_npmrc_has_auth (mf_probe (ss_input_manifest ss)) \<longrightarrow>
         sb_initialize sb (Some v) = Inr (ss_npm_resolution ss)) \<and>
    (ss_frozen_lockfile ss \<longrightarrow> ss_lockfile ss \<noteq> None)"
proof (intro conjI allI impI)
  note built = build_once_Inr [OF assms]
  let ?key = "ss_npm_snapshot_key ss" and ?cache = "saved_snapshots cd saves"
  have origin: "\<exists>w m. (w, m, Some v) \<in> set saves \<and> is_current cd w m \<and> mf_identity m = mf_identity (ss_input_manifest ss) \<and>
         \<not> ri_byonm (mf_identity m) \<and> \<not> ri_lockfile_present (mf_identity m) \<and>
         \<not> rb_npmrc_has_auth (mf_probe m) \<and> \<not> rb_npmrc_has_auth (mf_probe (ss_input_manifest ss))"
    if found: "snapshot_callback ?key ?cache = Some v" for v
  proof -
    obtain key where key: "?key = Some key"
      using found by (cases ?key) (auto simp: snapshot_callback_def)
    have id: "key = mf_identity (ss_input_manifest ss)" "\<not> rb_npmrc_has_auth (mf_probe (ss_input_manifest ss))"
      using key built(2) by (auto simp: managed_snapshot_key_def split: if_splits)
    have "snapshot_get ?cache key = Some v"
      using found key by (simp add: snapshot_callback_def)
    then obtain w m where "(w, m, Some v) \<in> set saves" "is_current cd w m" "managed_snapshot_key m = Some key"
      using saved_snapshot_origin by metis
    then show ?thesis
      using id by (intro exI [of _ w] exI [of _ m]) (auto simp: managed_snapshot_key_def split: if_splits)
  qed
  show "\<exists>given. sb_initialize sb given = Inr (ss_npm_resolution ss) \<and>
      (\<forall>v. given = Some v \<longrightarrow>
         (\<exists>w m. (w, m, Some v) \<in> set saves \<and> is_current cd w m \<and> mf_identity m = mf_identity (ss_input_manifest ss) \<and>
            \<not> ri_byonm (mf_identity m) \<and> \<not> ri_lockfile_present (mf_identity m) \<and>
            \<not> rb_npmrc_has_auth (mf_probe m) \<and> \<not> rb_npmrc_has_auth (mf_probe (ss_input_manifest ss))))"
    using built(5) origin by (intro exI [of _ "snapshot_callback ?key ?cache"]) simp
  show "sb_initialize sb None = Inr (ss_npm_resolution ss)"
    if "ri_byonm (mf_identity (ss_input_manifest ss)) \<or> ri_lockfile_present (mf_identity (ss_input_manifest ss)) \<or>
      rb_npmrc_has_auth (mf_probe (ss_input_manifest ss))"
  proof -
    have "?key = None" using built(2) that by (auto simp: managed_snapshot_key_def)
    with built(5) show ?thesis by (simp add: snapshot_callback_def)
  qed
  show "sb_initialize sb (Some v) = Inr (ss_npm_resolution ss)"
    if "saves = earlier @ [(w, m, Some v)] \<and> is_current cd w m \<and>
       mf_identity m = mf_identity (ss_input_manifest ss) \<and>
       \<not> ri_byonm (mf_identity m) \<and> \<not> ri_lockfile_present (mf_identity m) \<and>
       \<not> rb_npmrc_has_auth (mf_probe m) \<and> \<not> rb_npmrc_has_auth (mf_probe (ss_input_manifest ss))" for earlier w m v
  proof -
    have key: "?key = Some (mf_identity (ss_input_manifest ss))" "managed_snapshot_key m = ?key"
      using built(2) that by (auto simp: managed_snapshot_key_def)
    then have "snapshot_callback ?key ?cache = Some v"
      using that saved_last [of cd w m "mf_identity (ss_input_manifest ss)" earlier v]
      by (simp add: snapshot_callback_def)
    with built(5) show ?thesis by simp
  qed
  show "ss_lockfile ss \<noteq> None" if "ss_frozen_lockfile ss"
    using built(4) that by blast
qed

theorem builds_start_from_saved_snapshots_witness:
  "\<exists>m ss. build_once \<lparr>sb_workspace_factory = Inr (), sb_workspace_directory = Inr (), sb_npmrc = Inr (),
       sb_manifest = Inr m, sb_http_client = Inr (), sb_http_cache = Inr (), sb_global_http_cache = Inr (),
       sb_package_info_provider = Inr (), sb_lockfile = Inr (None :: unit option), sb_lock_directory = Inr (),
       sb_lock_config = Some (Inr (Some True)), sb_initialize = Inr, sb_graph_resolver = Inr (),
       sb_npm_process_state = Inr ()\<rparr> (saved_snapshots example_codecs [(example_world, m, Some (7 :: nat))]) = Inr ss
     \<and> ss_npm_resolution ss = Some 7 \<and> \<not> ri_lockfile_present (mf_identity (ss_input_manifest ss)) \<and> \<not> ss_frozen_lockfile ss"
proof -
  obtain m where m: "managed_snapshot_key m = Some (mf_identity m)" "is_current example_codecs example_world m"
    using example_managed by blast
  let ?sb = "\<lparr>sb_workspace_factory = Inr (), sb_workspace_directory = Inr (), sb_npmrc = Inr (),
       sb_manifest = Inr m, sb_http_client = Inr (), sb_http_cache = Inr (), sb_global_http_cache = Inr (),
       sb_package_info_provider = Inr (), sb_lockfile = Inr (None :: unit option), sb_lock_directory = Inr (),
       sb_lock_config = Some (Inr (Some True)), sb_initialize = Inr, sb_graph_resolver = Inr (),
       sb_npm_process_state = Inr ()\<rparr>"
  let ?cache = "saved_snapshots example_codecs [(example_world, m, Some (7 :: nat))]"
  have found: "snapshot_callback (managed_snapshot_key m) ?cache = Some 7"
    using example_saved [OF m, of "7 :: nat"] m(1) by (simp add: snapshot_callback_def)
  obtain ss where ss: "build_once ?sb ?cache = Inr ss" "ss_input_manifest ss = m" "ss_lockfile ss = None"
    using found by (simp add: build_once_def Let_def frozen_lockfile_def)
  note all = builds_start_from_saved_snapshots [OF ss(1)]
  have managed: "\<not> ri_byonm (mf_identity m)" "\<not> ri_lockfile_present (mf_identity m)" "\<not> rb_npmrc_has_auth (mf_probe m)"
    using m(1) by (auto simp: managed_snapshot_key_def split: if_splits)
  have "sb_initialize ?sb (Some 7) = Inr (ss_npm_resolution ss)"
    using all [THEN conjunct2, THEN conjunct2, THEN conjunct1, THEN spec [of _ "[]"], THEN spec [of _ example_world],
        THEN spec [of _ m], THEN spec [of _ 7]] m(2) managed ss(2) by simp
  moreover have "\<not> ss_frozen_lockfile ss"
    using all [THEN conjunct2, THEN conjunct2, THEN conjunct2] ss(3) by simp
  ultimately have "ss_npm_resolution ss = Some 7 \<and> \<not> ri_lockfile_present (mf_identity (ss_input_manifest ss)) \<and> \<not> ss_frozen_lockfile ss"
    using managed ss(2) by simp
  with ss(1) show ?thesis by blast
qed

section \<open>Properties of the services of a run\<close>

text \<open>The stores a run can change.\<close>

definition run_stores :: "('s, 'b, 'p) runtime_services \<Rightarrow> nat list" where
  "run_stores rv =
     [rv_memory_files rv, rv_blob_store rv, rv_graph rv, rv_thread_messaging rv, rv_worker_lifecycle rv,
      rv_shared_array_buffers rv, rv_compiled_wasm rv]"

text \<open>The services of the runs that are started on one stack, in order.\<close>

fun start_runs :: "'s \<Rightarrow> (unit anyhow \<times> 'p) list \<Rightarrow> nat \<Rightarrow> ('s, 'b, 'p) runtime_services list" where
  "start_runs shared [] next_store = []"
| "start_runs shared ((checker, permissions) # calls) next_store =
     (case runtime_services_new shared checker permissions next_store of
        (Inl _, n) \<Rightarrow> start_runs shared calls n
      | (Inr rv, n) \<Rightarrow> rv # start_runs shared calls n)"

lemma runtime_services_stores:
  "runtime_services_new shared checker permissions n = (Inr rv, m) \<Longrightarrow> run_stores rv = [n..<n + 7] \<and> m = n + 7"
  by (cases checker) (auto simp: runtime_services_new_def Let_def run_stores_def upt_rec)

lemma runtime_services_failed:
  "runtime_services_new shared checker permissions n = (Inl e, m) \<Longrightarrow> m = n"
  by (cases checker) (auto simp: runtime_services_new_def Let_def)

lemma start_runs_stores:
  "sorted_wrt (<) (concat (map run_stores (start_runs shared calls n :: ('s, 'b, 'p) runtime_services list))) \<and>
   (\<forall>s \<in> set (concat (map run_stores (start_runs shared calls n :: ('s, 'b, 'p) runtime_services list))). n \<le> s)"
proof (induction calls arbitrary: n)
  case (Cons call calls)
  obtain checker permissions where call: "call = (checker, permissions)" by (cases call)
  obtain r :: "('s, 'b, 'p) runtime_services anyhow" and m
    where new: "runtime_services_new shared checker permissions n = (r, m)" by fastforce
  show ?case
  proof (cases r)
    case (Inl e)
    with new have "runtime_services_new shared checker permissions n = (Inl e :: ('s, 'b, 'p) runtime_services anyhow, n)"
      using runtime_services_failed by metis
    with Cons.IH [of n] show ?thesis by (simp add: call)
  next
    case (Inr rv)
    let ?later = "concat (map run_stores (start_runs shared calls (n + 7) :: ('s, 'b, 'p) runtime_services list))"
    note here = runtime_services_stores [OF new [unfolded Inr]]
    then have split: "concat (map run_stores (start_runs shared (call # calls) n :: ('s, 'b, 'p) runtime_services list)) = [n..<n + 7] @ ?later"
      using new Inr by (simp add: call del: upt_Suc)
    have "\<forall>x \<in> set [n..<n + 7]. \<forall>y \<in> set ?later. x < y"
    proof (intro ballI)
      fix x y assume "x \<in> set [n..<n + 7]" "y \<in> set ?later"
      then have "x < n + 7" "n + 7 \<le> y" using Cons.IH [of "n + 7"] unfolding set_upt atLeastLessThan_iff by blast+
      then show "x < y" by simp
    qed
    moreover have "\<forall>y \<in> set ?later. n \<le> y"
    proof
      fix y assume "y \<in> set ?later"
      then have "n + 7 \<le> y" using Cons.IH [of "n + 7"] by blast
      then show "n \<le> y" by simp
    qed
    moreover have "sorted_wrt (<) ?later" using Cons.IH [of "n + 7"] by blast
    ultimately show ?thesis
      unfolding split sorted_wrt_append set_append ball_Un by (simp add: sorted_wrt_upt del: upt_Suc)
  qed
qed simp

lemma start_runs_origin:
  "(rv :: ('s, 'b, 'p) runtime_services) \<in> set (start_runs shared calls n) \<Longrightarrow>
   \<exists>checker permissions m. (checker, permissions) \<in> set calls \<and>
     fst (runtime_services_new shared checker permissions m) = Inr rv"
proof (induction calls arbitrary: n)
  case (Cons call calls)
  obtain checker permissions where call: "call = (checker, permissions)" by (cases call)
  obtain r :: "('s, 'b, 'p) runtime_services anyhow" and m
    where new: "runtime_services_new shared checker permissions n = (r, m)" by fastforce
  show ?case
  proof (cases "r = Inr rv")
    case True
    with new have "fst (runtime_services_new shared checker permissions n) = Inr rv" by simp
    then show ?thesis using call by (intro exI [of _ checker] exI [of _ permissions] exI [of _ n]) simp
  next
    case False
    with Cons.prems new have "rv \<in> set (start_runs shared calls m)" by (cases r) (auto simp: call)
    from Cons.IH [OF this] show ?thesis by (meson list.set_intros(2))
  qed
qed simp

text \<open>
  Runs that share a resolver stack share nothing else. Each run has stores of its own for in-
  memory files, blobs, the module graph, thread messages, the workers and what isolates pass
  to each other; its graph loads files only through the check of its own live permissions,
  under the name that covers static imports; and its web workers fetch from the stores of
  their run.
\<close>

theorem runs_share_only_the_stack:
  shows "distinct (concat (map run_stores (start_runs shared calls n)))"
    and "rv \<in> set (start_runs shared calls n) \<longrightarrow>
      rv_shared rv = shared \<and>
      (\<exists>permissions. gl_permissions (rv_graph_loader rv) = Some permissions \<and> permissions \<in> snd ` set calls) \<and>
      gl_file_permission_api_name (rv_graph_loader rv) = Some ''import'' \<and>
      \<not> gl_include_npm_sources (rv_graph_loader rv) \<and>
      gl_file_fetcher (rv_graph_loader rv) = rv_file_fetcher rv \<and>
      worker_file_fetcher fallback rv = (rv_file_fetcher rv)\<lparr>ff_fallback := fallback\<rparr>"
proof -
  show "distinct (concat (map run_stores (start_runs shared calls n)))"
    using start_runs_stores by (metis strict_sorted_iff)
  show "rv \<in> set (start_runs shared calls n) \<longrightarrow>
      rv_shared rv = shared \<and>
      (\<exists>permissions. gl_permissions (rv_graph_loader rv) = Some permissions \<and> permissions \<in> snd ` set calls) \<and>
      gl_file_permission_api_name (rv_graph_loader rv) = Some ''import'' \<and>
      \<not> gl_include_npm_sources (rv_graph_loader rv) \<and>
      gl_file_fetcher (rv_graph_loader rv) = rv_file_fetcher rv \<and>
      worker_file_fetcher fallback rv = (rv_file_fetcher rv)\<lparr>ff_fallback := fallback\<rparr>"
  proof
    assume "rv \<in> set (start_runs shared calls n)"
    then obtain checker permissions m where origin: "(checker, permissions) \<in> set calls"
      "fst (runtime_services_new shared checker permissions m) = Inr rv"
      using start_runs_origin by metis
    then have "rv_shared rv = shared \<and> gl_permissions (rv_graph_loader rv) = Some permissions \<and>
      gl_file_permission_api_name (rv_graph_loader rv) = Some ''import'' \<and>
      \<not> gl_include_npm_sources (rv_graph_loader rv) \<and>
      gl_file_fetcher (rv_graph_loader rv) = rv_file_fetcher rv \<and>
      worker_file_fetcher fallback rv = (rv_file_fetcher rv)\<lparr>ff_fallback := fallback\<rparr>"
      by (cases checker) (auto simp: runtime_services_new_def Let_def worker_file_fetcher_def)
    moreover have "permissions \<in> snd ` set calls" using origin(1) by force
    ultimately show "rv_shared rv = shared \<and>
      (\<exists>permissions. gl_permissions (rv_graph_loader rv) = Some permissions \<and> permissions \<in> snd ` set calls) \<and>
      gl_file_permission_api_name (rv_graph_loader rv) = Some ''import'' \<and>
      \<not> gl_include_npm_sources (rv_graph_loader rv) \<and>
      gl_file_fetcher (rv_graph_loader rv) = rv_file_fetcher rv \<and>
      worker_file_fetcher fallback rv = (rv_file_fetcher rv)\<lparr>ff_fallback := fallback\<rparr>"
      by blast
  qed
qed

definition sample_runs :: "(string, unit, string) runtime_services list" where
  "sample_runs = start_runs ''stack'' [(Inr (), ''net''), (Inr (), ''read'')] 0"

theorem runs_share_only_the_stack_witness:
  "worker_file_fetcher None (sample_runs ! 1) = (rv_file_fetcher (sample_runs ! 1))\<lparr>ff_fallback := None\<rparr> \<and>
   gl_permissions (rv_graph_loader (sample_runs ! 1)) = Some ''read''"
proof -
  have "sample_runs ! 1 \<in> set (start_runs ''stack'' [(Inr (), ''net''), (Inr (), ''read'')] 0)"
    by (simp add: sample_runs_def runtime_services_new_def Let_def)
  then have "worker_file_fetcher None (sample_runs ! 1) = (rv_file_fetcher (sample_runs ! 1))\<lparr>ff_fallback := None\<rparr>"
    using runs_share_only_the_stack(2) [of "sample_runs ! 1" "''stack''" _ 0 None] by blast
  then show ?thesis by (simp add: sample_runs_def runtime_services_new_def Let_def)
qed

section \<open>The snapshot's identity\<close>

lemma equal_loop_iff:
  "length left = length right \<Longrightarrow> index \<le> length left \<Longrightarrow>
   equal_loop left right index \<longleftrightarrow> drop index left = drop index right"
proof (induction left right index rule: equal_loop.induct)
  case (1 left right index)
  show ?case
  proof (cases "index < length left")
    case True
    then have "drop index left = left ! index # drop (index + 1) left"
        "drop index right = right ! index # drop (index + 1) right"
      using 1 by (simp_all add: Cons_nth_drop_Suc)
    with 1 True show ?thesis by (subst equal_loop.simps) simp
  next
    case False
    with 1 show ?thesis by (subst equal_loop.simps) simp
  qed
qed

text \<open>
  The loop over the bytes of the two V8 versions decides whether they are the same version.
\<close>

theorem identity_equal_decides: "identity_equal left right \<longleftrightarrow> left = right"
  by (auto simp: identity_equal_def equal_loop_iff)

end
