(* ===== verification/Ld_Control.thy ===== *)
theory Ld_Control
  imports Ld_Supervision
begin

text \<open>
  The waits that can be stopped: the control reader of a supervised child between its frames
  (src/src/subprocess.rs) and the wait of a capture reader for its pipe (src/src/pipe_read.rs), in their Unix
  forms. Each loop is a recursion over what its calls answer; it has no result yet (\<open>None\<close>) when the
  list ends first.
\<close>

section \<open>Waiting for a pipe\<close>

text \<open>One turn of \<open>wait_readable\<close>: the stop flag, and what \<open>poll\<close> answers if it is called.\<close>

datatype pipe_poll = PaError io_error | PaTimeout | PaReady

fun wait_readable :: "(bool \<times> pipe_poll) list \<Rightarrow> bool io_result option" where
  "wait_readable [] = None"
| "wait_readable ((stop, poll) # turns) =
     (if stop then Some (Inr False)
      else case poll of
             PaError e \<Rightarrow> if io_kind e = EkInterrupted then wait_readable turns else Some (Inl e)
           | PaTimeout \<Rightarrow> wait_readable turns
           | PaReady \<Rightarrow> Some (Inr True))"

section \<open>Peeking at the control stream\<close>

datatype control_peek_outcome = PkReady | PkIdle | PkClosed | PkStopped

datatype interrupted_peek_action = IaRetry | IaStopped

text \<open>A call of \<open>peek\<close> with what \<open>on_interrupted\<close> answers should it have been interrupted.\<close>

fun peek_control_with_retry ::
  "(nat io_result \<times> interrupted_peek_action io_result) list \<Rightarrow> control_peek_outcome io_result option" where
  "peek_control_with_retry [] = None"
| "peek_control_with_retry ((answer, on_interrupted) # calls) =
     (case answer of
        Inr n \<Rightarrow> Some (Inr (if n = 0 then PkClosed else PkReady))
      | Inl e \<Rightarrow>
          if io_kind e = EkInterrupted
          then (case on_interrupted of
                  Inl e' \<Rightarrow> Some (Inl e')
                | Inr IaRetry \<Rightarrow> peek_control_with_retry calls
                | Inr IaStopped \<Rightarrow> Some (Inr PkStopped))
          else if io_kind e = EkTimedOut \<or> io_kind e = EkWouldBlock then Some (Inr PkIdle)
          else Some (Inl e))"

text \<open>The closure the reader passes: the stop channel, then the read timeout once more.\<close>

definition on_interrupted :: "bool \<Rightarrow> unit io_result \<Rightarrow> interrupted_peek_action io_result" where
  "on_interrupted stop set_timeout =
     (if stop then Inr IaStopped else bind_res set_timeout (\<lambda>_. Inr IaRetry))"

section \<open>The control reader of the child\<close>

text \<open>
  One turn: the stop channel at its top, the read timeout, the peeks with the stop channel and the
  timeout after an interruption, the frame that is read if a byte is there, and the stop channel after
  the end of the stream or a failed read.
\<close>

record control_turn =
  cn_stop :: bool
  cn_set_timeout :: "unit io_result"
  cn_peeks :: "(nat io_result \<times> bool \<times> unit io_result) list"
  cn_frame :: "supervisor_frame io_result"
  cn_stop_after :: bool

definition turn_peek :: "control_turn \<Rightarrow> control_peek_outcome io_result option" where
  "turn_peek t =
     peek_control_with_retry (map (\<lambda>(answer, stop, timeout). (answer, on_interrupted stop timeout)) (cn_peeks t))"

fun child_control_loop ::
  "formats \<Rightarrow> 64 word \<Rightarrow> control_turn list \<Rightarrow> supervisor_cancellation
   \<Rightarrow> unit io_result option \<times> supervisor_cancellation" where
  "child_control_loop fm request_id [] cancellation = (None, cancellation)"
| "child_control_loop fm request_id (t # turns) cancellation =
     (if cn_stop t then (Some (Inr ()), cancellation)
      else case cn_set_timeout t of
        Inl e \<Rightarrow> (Some (Inl e), cancellation)
      | Inr _ \<Rightarrow>
          (case turn_peek t of
             None \<Rightarrow> (None, cancellation)
           | Some (Inl e) \<Rightarrow> (Some (Inl e), cancellation)
           | Some (Inr PkIdle) \<Rightarrow> child_control_loop fm request_id turns cancellation
           | Some (Inr PkStopped) \<Rightarrow> (Some (Inr ()), cancellation)
           | Some (Inr PkClosed) \<Rightarrow>
               (Some (if cn_stop_after t then Inr ()
                      else Inl (IoError EkUnexpectedEof ''supervisor control stream closed'')), cancellation)
           | Some (Inr PkReady) \<Rightarrow>
               (case cn_frame t of
                  Inl e \<Rightarrow> (Some (if cn_stop_after t then Inr () else Inl e), cancellation)
                | Inr frame \<Rightarrow>
                    (case child_control_frame fm request_id frame cancellation of
                       (Inl e, c) \<Rightarrow> (Some (Inl e), c)
                     | (Inr _, c) \<Rightarrow> child_control_loop fm request_id turns c))))"

text \<open>The thread: a reader that fails cancels the run.\<close>

definition child_control_reader ::
  "formats \<Rightarrow> 64 word \<Rightarrow> unit io_result \<Rightarrow> control_turn list \<Rightarrow> supervisor_cancellation
   \<Rightarrow> unit io_result option \<times> supervisor_cancellation" where
  "child_control_reader fm request_id first_timeout turns cancellation =
     (case (case first_timeout of
              Inl e \<Rightarrow> (Some (Inl e), cancellation)
            | Inr _ \<Rightarrow> child_control_loop fm request_id turns cancellation) of
        (result, c) \<Rightarrow>
          (result, case result of Some (Inl e) \<Rightarrow> sx_request CrUser c | _ \<Rightarrow> c))"

section \<open>Properties of the waits\<close>

text \<open>
  A reader that is told to stop stops. However often the wait is interrupted or times out, it
  returns at the latest in the first turn that sees the flag; it says that the pipe can be
  read only if a poll said so before any turn saw the flag, that it was stopped only if one
  did, and it fails only with the error of a poll that was not an interruption.
\<close>

theorem stopped_wait_returns:
  shows "i < length turns \<and> fst (turns ! i) \<longrightarrow> (\<exists>result. wait_readable turns = Some result)"
    and "wait_readable turns = Some (Inr ready) \<longrightarrow>
      (\<exists>i < length turns. list_all (\<lambda>(stop, _). \<not> stop) (take i turns) \<and>
         turns ! i \<in> (if ready then {(False, PaReady)} else {True} \<times> UNIV))"
    and "wait_readable turns = Some (Inl e) \<longrightarrow> io_kind e \<noteq> EkInterrupted \<and> (False, PaError e) \<in> set turns"
proof -
  show "i < length turns \<and> fst (turns ! i) \<longrightarrow> (\<exists>result. wait_readable turns = Some result)"
  proof (induction turns arbitrary: i rule: wait_readable.induct)
    case (2 stop poll turns)
    then show ?case by (cases i) (auto split: pipe_poll.split)
  qed simp
  show "wait_readable turns = Some (Inr ready) \<longrightarrow>
      (\<exists>i < length turns. list_all (\<lambda>(stop, _). \<not> stop) (take i turns) \<and>
         turns ! i \<in> (if ready then {(False, PaReady)} else {True} \<times> UNIV))"
  proof (induction turns)
    case (Cons turn turns)
    obtain stop poll where turn: "turn = (stop, poll)" by (cases turn)
    show ?case unfolding turn
    proof
      assume found: "wait_readable ((stop, poll) # turns) = Some (Inr ready)"
      show "\<exists>i < length ((stop, poll) # turns). list_all (\<lambda>(stop, _). \<not> stop) (take i ((stop, poll) # turns)) \<and>
         ((stop, poll) # turns) ! i \<in> (if ready then {(False, PaReady)} else {True} \<times> UNIV)"
      proof (cases "stop \<or> poll = PaReady")
        case True
        with found show ?thesis by (intro exI [of _ 0]) (auto split: if_splits)
      next
        case False
        then have "wait_readable turns = Some (Inr ready)"
          using found by (cases poll) (auto split: if_splits)
        then have "\<exists>i < length turns. list_all (\<lambda>(stop, _). \<not> stop) (take i turns) \<and>
            turns ! i \<in> (if ready then {(False, PaReady)} else {True} \<times> UNIV)"
          using Cons.IH by blast
        then obtain i where "i < length turns" "list_all (\<lambda>(stop, _). \<not> stop) (take i turns)"
            "turns ! i \<in> (if ready then {(False, PaReady)} else {True} \<times> UNIV)" by blast
        with False show ?thesis by (intro exI [of _ "Suc i"]) simp
      qed
    qed
  qed simp
  show "wait_readable turns = Some (Inl e) \<longrightarrow> io_kind e \<noteq> EkInterrupted \<and> (False, PaError e) \<in> set turns"
  proof (induction turns rule: wait_readable.induct)
    case (2 stop poll turns)
    then show ?case by (cases poll) auto
  qed simp
qed

theorem stopped_wait_returns_witness:
  "\<exists>result. wait_readable [(False, PaError (IoError EkInterrupted ''signal'')), (False, PaTimeout), (True, PaReady)] = Some result"
  by (rule stopped_wait_returns(1) [of 2, THEN mp]) simp

section \<open>Properties of the control reader\<close>

lemma child_control_frame_ok:
  "child_control_frame fm request_id frame c = (Inr u, c') \<Longrightarrow>
   \<exists>reason. sf_kind frame = FkCancel \<and> sf_request_id frame = request_id \<and>
     decode_payload (fm_reason fm) (sf_payload frame) = Inr reason \<and> c' = sx_request reason c"
  by (auto simp: child_control_frame_def Let_def split: if_splits sum.splits)

lemma child_control_frame_failed: "child_control_frame fm request_id frame c = (Inl e, c') \<Longrightarrow> c' = c"
  by (auto simp: child_control_frame_def Let_def split: if_splits sum.splits)

definition cancels :: "formats \<Rightarrow> 64 word \<Rightarrow> cancel_reason \<Rightarrow> control_turn \<Rightarrow> bool" where
  "cancels fm request_id reason t \<longleftrightarrow>
     (\<exists>frame. cn_frame t = Inr frame \<and> sf_kind frame = FkCancel \<and> sf_request_id frame = request_id \<and>
        decode_payload (fm_reason fm) (sf_payload frame) = Inr reason)"

text \<open>Every turn either ends the loop, leaving the cancellation as it is, or goes on, perhaps after a request.\<close>

lemma child_control_turn:
  obtains (ends) result where "child_control_loop fm request_id (t # turns) c = (result, c)"
      "turn_peek t \<noteq> None \<or> cn_stop t \<Longrightarrow> result \<noteq> None"
  | (idle) "child_control_loop fm request_id (t # turns) c = child_control_loop fm request_id turns c" "\<not> cn_stop t"
  | (cancel) reason where "cancels fm request_id reason t" "\<not> cn_stop t"
      "child_control_loop fm request_id (t # turns) c = child_control_loop fm request_id turns (sx_request reason c)"
proof (cases "cn_stop t")
  case True
  show ?thesis by (rule ends [of "Some (Inr ())"]) (use True in simp_all)
next
  case False
  show ?thesis
  proof (cases "cn_set_timeout t")
    case (Inl e)
    show ?thesis by (rule ends [of "Some (Inl e)"]) (use False Inl in simp_all)
  next
    case timeout: (Inr u)
    show ?thesis
    proof (cases "turn_peek t")
      case None
      show ?thesis by (rule ends [of None]) (use False timeout None in simp_all)
    next
      case (Some peek)
      show ?thesis
      proof (cases peek)
        case (Inl e)
        show ?thesis by (rule ends [of "Some (Inl e)"]) (use False timeout Some Inl in simp_all)
      next
        case (Inr outcome)
        show ?thesis
        proof (cases outcome)
          case PkIdle
          show ?thesis by (rule idle) (use False timeout Some Inr PkIdle in simp_all)
        next
          case PkStopped
          show ?thesis by (rule ends [of "Some (Inr ())"]) (use False timeout Some Inr PkStopped in simp_all)
        next
          case PkClosed
          show ?thesis
            by (rule ends [of "Some (if cn_stop_after t then Inr ()
                else Inl (IoError EkUnexpectedEof ''supervisor control stream closed''))"])
              (use False timeout Some Inr PkClosed in simp_all)
        next
          case PkReady
          show ?thesis
          proof (cases "cn_frame t")
            case (Inl e)
            show ?thesis by (rule ends [of "Some (if cn_stop_after t then Inr () else Inl e)"])
              (use False timeout Some Inr PkReady Inl in simp_all)
          next
            case frame: (Inr frame)
            obtain r c' where f: "child_control_frame fm request_id frame c = (r, c')"
              by (cases "child_control_frame fm request_id frame c") auto
            show ?thesis
            proof (cases r)
              case (Inl e)
              with f child_control_frame_failed have "c' = c" by blast
              then show ?thesis
                by (intro ends [of "Some (Inl e)"]) (use False timeout Some Inr PkReady frame f Inl in simp_all)
            next
              case ok: (Inr v)
              with f child_control_frame_ok obtain reason where "cancels fm request_id reason t" "c' = sx_request reason c"
                unfolding cancels_def using frame by blast
              then show ?thesis
                by (intro cancel [of reason]) (use False timeout Some Inr PkReady frame f ok in simp_all)
            qed
          qed
        qed
      qed
    qed
  qed
qed

declare child_control_loop.simps(2) [simp del]

lemma child_control_loop_reason_kept:
  "sx_requested_reason c = Some r \<Longrightarrow> child_control_loop fm request_id turns c = (result, c') \<Longrightarrow>
   sx_requested_reason c' = Some r"
proof (induction turns arbitrary: c)
  case (Cons t turns)
  show ?case
  proof (rule child_control_turn [of fm request_id t turns c])
    fix reason
    assume "child_control_loop fm request_id (t # turns) c = child_control_loop fm request_id turns (sx_request reason c)"
    then show ?thesis
      using Cons.IH [of "sx_request reason c"] Cons.prems supervisor_cancellation_cell.put_kept by metis
  qed (use Cons in simp_all)
qed simp

lemma child_control_loop_reason_new:
  "sx_requested_reason c = None \<Longrightarrow> child_control_loop fm request_id turns c = (result, c') \<Longrightarrow>
   sx_requested_reason c' = Some r \<Longrightarrow> \<exists>t \<in> set turns. cancels fm request_id r t"
proof (induction turns arbitrary: c)
  case (Cons t turns)
  show ?case
  proof (rule child_control_turn [of fm request_id t turns c])
    fix reason
    assume t: "cancels fm request_id reason t"
      "child_control_loop fm request_id (t # turns) c = child_control_loop fm request_id turns (sx_request reason c)"
    have "sx_requested_reason (sx_request reason c) = Some reason"
      by (rule supervisor_cancellation_cell.put_fresh) (rule Cons.prems(1))
    moreover have "child_control_loop fm request_id turns (sx_request reason c) = (result, c')"
      using t(2) Cons.prems(2) by simp
    ultimately have "sx_requested_reason c' = Some reason" by (rule child_control_loop_reason_kept)
    with Cons.prems(3) t(1) show ?thesis by simp
  next
    assume "child_control_loop fm request_id (t # turns) c = child_control_loop fm request_id turns c"
    with Cons.IH [of c] Cons.prems have "\<exists>t \<in> set turns. cancels fm request_id r t" by simp
    then show ?thesis by simp
  qed (use Cons in simp)
qed simp

lemma child_control_loop_ends:
  "\<exists>t \<in> set turns. cn_stop t \<Longrightarrow> \<forall>t \<in> set turns. turn_peek t \<noteq> None \<Longrightarrow>
   fst (child_control_loop fm request_id turns c) \<noteq> None"
proof (induction turns arbitrary: c)
  case (Cons t turns)
  have peek: "turn_peek t \<noteq> None" "\<forall>t \<in> set turns. turn_peek t \<noteq> None" using Cons.prems(2) by simp_all
  show ?case
  proof (cases "cn_stop t")
    case True
    then show ?thesis by (simp add: child_control_loop.simps(2))
  next
    case False
    with Cons.prems(1) have "\<exists>t \<in> set turns. cn_stop t" by simp
    from Cons.IH [OF this peek(2)] have later: "fst (child_control_loop fm request_id turns d) \<noteq> None" for d .
    show ?thesis
      by (rule child_control_turn [of fm request_id t turns c]) (use later peek(1) in simp_all)
  qed
qed simp

lemma sx_request_requested: "sx_is_requested (sx_request reason c)"
  by (simp add: sx_is_requested_def sx_request_def)

text \<open>
  What the control reader of a supervised child does to the run. It asks for a cancellation
  only when it read a CANCEL frame for this request, with the reason of that frame, or when it
  failed; the first reason stays. When it fails (the parent is gone, or sent what is no valid
  CANCEL), the run is never reported as completed or failed, whatever its result is. And it
  ends once it sees the stop.
\<close>

theorem control_reader_contract:
  assumes "child_control_reader fm request_id first_timeout turns c = (result, c')"
  shows "sx_requested_reason c = Some r \<longrightarrow> sx_requested_reason c' = Some r"
    and "sx_requested_reason c = None \<and> sx_requested_reason c' = Some r \<longrightarrow>
      (\<exists>t \<in> set turns. cancels fm request_id r t) \<or> r = CrUser \<and> (\<exists>e. result = Some (Inl e))"
    and "result = Some (Inl e) \<longrightarrow> sx_is_requested c' \<and>
      child_outcome is_permission c' runtime_result \<in> {(SoDeadline, None, None), (SoCancelled, None, None)}"
    and "first_timeout = Inr () \<and> (\<exists>t \<in> set turns. cn_stop t) \<and> (\<forall>t \<in> set turns. turn_peek t \<noteq> None) \<longrightarrow>
      result \<noteq> None"
proof -
  obtain res d where loop: "(case first_timeout of Inl e \<Rightarrow> (Some (Inl e), c)
      | Inr _ \<Rightarrow> child_control_loop fm request_id turns c) = (res, d)" by (cases first_timeout) fastforce+
  have res: "result = res" "c' = (case res of Some (Inl e) \<Rightarrow> sx_request CrUser d | _ \<Rightarrow> d)"
    using assms unfolding child_control_reader_def loop by (auto split: option.splits sum.splits)
  have kept: "sx_requested_reason d = Some r" if "sx_requested_reason c = Some r" for r
  proof (cases first_timeout)
    case (Inr u)
    with loop have "child_control_loop fm request_id turns c = (res, d)" by simp
    with that show ?thesis by (rule child_control_loop_reason_kept)
  qed (use loop that in simp)
  have new: "\<exists>t \<in> set turns. cancels fm request_id r t"
    if "sx_requested_reason c = None" "sx_requested_reason d = Some r" for r
  proof (cases first_timeout)
    case (Inr u)
    with loop have "child_control_loop fm request_id turns c = (res, d)" by simp
    with that show ?thesis using child_control_loop_reason_new by blast
  qed (use loop that in simp)
  have after: "sx_requested_reason c' = (case res of Some (Inl e) \<Rightarrow>
      Some (case sx_requested_reason d of None \<Rightarrow> CrUser | Some w \<Rightarrow> w) | _ \<Rightarrow> sx_requested_reason d)"
    unfolding res(2) using supervisor_cancellation_cell.put_get [of CrUser d] by (simp split: option.split sum.split)
  show "sx_requested_reason c = Some r \<longrightarrow> sx_requested_reason c' = Some r"
  proof
    assume "sx_requested_reason c = Some r"
    then have "sx_requested_reason d = Some r" by (rule kept)
    then show "sx_requested_reason c' = Some r" unfolding after by (simp split: option.split sum.split)
  qed
  show "sx_requested_reason c = None \<and> sx_requested_reason c' = Some r \<longrightarrow>
      (\<exists>t \<in> set turns. cancels fm request_id r t) \<or> r = CrUser \<and> (\<exists>e. result = Some (Inl e))"
    using new after res(1) by (cases "sx_requested_reason d") (auto split: option.splits sum.splits)
  show "result = Some (Inl e) \<longrightarrow> sx_is_requested c' \<and>
      child_outcome is_permission c' runtime_result \<in> {(SoDeadline, None, None), (SoCancelled, None, None)}"
    using res sx_request_requested by (auto simp: child_outcome_def)
  show "first_timeout = Inr () \<and> (\<exists>t \<in> set turns. cn_stop t) \<and> (\<forall>t \<in> set turns. turn_peek t \<noteq> None) \<longrightarrow>
      result \<noteq> None"
  proof
    assume t: "first_timeout = Inr () \<and> (\<exists>t \<in> set turns. cn_stop t) \<and> (\<forall>t \<in> set turns. turn_peek t \<noteq> None)"
    then have "fst (child_control_loop fm request_id turns c) \<noteq> None" using child_control_loop_ends by blast
    with t loop res(1) show "result \<noteq> None" by simp
  qed
qed

text \<open>The parent disappears while the script runs to its end: the run counts as cancelled.\<close>

definition sample_closed_turn :: control_turn where
  "sample_closed_turn =
     \<lparr>cn_stop = False, cn_set_timeout = Inr (), cn_peeks = [(Inr 0, False, Inr ())],
      cn_frame = Inl (invalid_data ''no frame''), cn_stop_after = False\<rparr>"

theorem control_reader_contract_witness:
  "\<exists>c'. child_control_reader sample_formats 1 (Inr ()) [sample_closed_turn] (sx_new cancel_ctx_new CrUser)
       = (Some (Inl (IoError EkUnexpectedEof ''supervisor control stream closed'')), c') \<and>
     child_outcome (\<lambda>_. False) c' (Inr 0) \<in> {(SoDeadline, None, None), (SoCancelled, None, None)}"
proof -
  have closed: "turn_peek sample_closed_turn = Some (Inr PkClosed)"
    by (simp add: turn_peek_def sample_closed_turn_def)
  obtain c' where run: "child_control_reader sample_formats 1 (Inr ()) [sample_closed_turn] (sx_new cancel_ctx_new CrUser)
       = (Some (Inl (IoError EkUnexpectedEof ''supervisor control stream closed'')), c')"
    using closed by (simp add: child_control_reader_def child_control_loop.simps(2)) (simp add: sample_closed_turn_def)
  show ?thesis
    by (rule exI [of _ c'], rule conjI [OF run],
        rule control_reader_contract(3) [OF run, THEN mp, THEN conjunct2]) simp
qed

end
