(* ===== verification/Ld_Overlapped.thy ===== *)
theory Ld_Overlapped
  imports Ld_Wire "HOL-Library.Sublist"
begin

text \<open>
  Writing a supervisor frame on Windows (src/src/supervisor.rs): overlapped sends with an event each, the
  wait for their completion, and the cancellation that must not return while the kernel may still read
  the buffer. The calls of Winsock are lists of answers; \<open>os\<close> is \<open>io::Error::from_raw_os_error\<close>.
\<close>

section \<open>Timeouts\<close>

definition round_up_ms :: "duration \<Rightarrow> nat" where
  "round_up_ms d = d div 10 ^ 6 + (if (d mod ns_per_sec) mod 10 ^ 6 \<noteq> 0 then 1 else 0)"

definition INFINITE :: nat where
  "INFINITE = 2 ^ 32 - 1"

definition duration_to_win_timeout_ms :: "duration \<Rightarrow> nat" where
  "duration_to_win_timeout_ms d = min (round_up_ms d) (2 ^ 32 - 1 - 1)"

definition win_duration_to_poll_timeout_ms :: "duration \<Rightarrow> int" where
  "win_duration_to_poll_timeout_ms d = int (min (round_up_ms d) (2 ^ 31 - 1))"

text \<open>Both waits last for \<open>poll_wait\<close>: the rest of the deadline, and 10 ms while a cancellation is watched.\<close>

definition win_wait_timeout :: "instant option \<Rightarrow> bool \<Rightarrow> instant \<Rightarrow> nat" where
  "win_wait_timeout deadline watched now =
     (case poll_wait deadline watched now of None \<Rightarrow> INFINITE | Some d \<Rightarrow> duration_to_win_timeout_ms d)"

definition win_poll_timeout :: "instant option \<Rightarrow> bool \<Rightarrow> instant \<Rightarrow> int" where
  "win_poll_timeout deadline watched now =
     (case poll_wait deadline watched now of None \<Rightarrow> - 1 | Some d \<Rightarrow> win_duration_to_poll_timeout_ms d)"

section \<open>Polling for a writable socket\<close>

datatype win_poll_answer = WpError int | WpTimeout | WpInvalid | WpHangup | WpWritable | WpOther

definition WSAEINTR :: int where "WSAEINTR = 10004"

definition WSAEWOULDBLOCK :: int where "WSAEWOULDBLOCK = 10035"

definition WSA_IO_PENDING :: int where "WSA_IO_PENDING = 997"

fun poll_socket_writable ::
  "(int \<Rightarrow> io_error) \<Rightarrow> instant option \<Rightarrow> bool \<Rightarrow> ((bool \<times> instant) \<times> win_poll_answer) list
   \<Rightarrow> unit io_result option" where
  "poll_socket_writable os deadline watched [] = None"
| "poll_socket_writable os deadline watched ((reading, answer) # turns) =
     (case check_write_conditions deadline watched reading of
        Inl e \<Rightarrow> Some (Inl e)
      | Inr _ \<Rightarrow>
          (case answer of
             WpError code \<Rightarrow>
               if code = WSAEINTR then poll_socket_writable os deadline watched turns else Some (Inl (os code))
           | WpTimeout \<Rightarrow> poll_socket_writable os deadline watched turns
           | WpInvalid \<Rightarrow> Some (Inl (IoError EkInvalidInput ''invalid supervisor socket''))
           | WpHangup \<Rightarrow> Some (Inl (IoError EkBrokenPipe ''supervisor peer closed''))
           | WpWritable \<Rightarrow> Some (Inr ())
           | WpOther \<Rightarrow> poll_socket_writable os deadline watched turns))"

section \<open>The wait for an overlapped send\<close>

text \<open>
  One turn of the wait: the check, the answer of \<open>WaitForSingleObject\<close>, what \<open>WSAGetOverlappedResult\<close>
  says of a signaled event, and whether the unbounded wait of \<open>cancel_and_reap_socket_write\<close> saw the
  event, should it be called. The event of a send is signaled once the send is over, so that the
  kernel no longer holds the buffer; that, and the process's death, is all that ends its use.
\<close>

datatype wait_answer = WaSignaled | WaFailed int | WaTimeout | WaOther

record wait_turn =
  wt_reading :: "bool \<times> instant"
  wt_answer :: wait_answer
  wt_completed :: "int + nat"
  wt_reap_signaled :: bool

datatype send_wait = SwMore | SwAborted | SwEnded "nat io_result" bool

text \<open>\<open>CancelIoEx\<close> and the wait for the event; \<open>None\<close> is the abort of the process, otherwise it is said
  whether the send is still in flight.\<close>

definition cancel_and_reap_socket_write :: "wait_turn \<Rightarrow> bool option" where
  "cancel_and_reap_socket_write t = (if wt_reap_signaled t then Some False else None)"

definition reap_with :: "wait_turn \<Rightarrow> io_error \<Rightarrow> send_wait" where
  "reap_with t e =
     (case cancel_and_reap_socket_write t of None \<Rightarrow> SwAborted | Some in_flight \<Rightarrow> SwEnded (Inl e) in_flight)"

fun await_send ::
  "(int \<Rightarrow> io_error) \<Rightarrow> instant option \<Rightarrow> bool \<Rightarrow> wait_turn list \<Rightarrow> send_wait" where
  "await_send os deadline watched [] = SwMore"
| "await_send os deadline watched (t # turns) =
     (case check_write_conditions deadline watched (wt_reading t) of
        Inl e \<Rightarrow> reap_with t e
      | Inr _ \<Rightarrow>
          (case wt_answer t of
             WaSignaled \<Rightarrow> SwEnded (map_err os (wt_completed t)) False
           | WaFailed code \<Rightarrow> reap_with t (os code)
           | WaTimeout \<Rightarrow> await_send os deadline watched turns
           | WaOther \<Rightarrow> reap_with t (IoError EkOther ''unexpected overlapped send wait result'')))"

section \<open>Writing\<close>

text \<open>
  What the function holds: events it created and has not closed, and whether the kernel may still use the
  buffer. One round: the check, the error of \<open>WSACreateEvent\<close>, the answer of \<open>WSASend\<close> (\<open>None\<close> if it
  did not fail), the polls after \<open>WSAEWOULDBLOCK\<close>, the turns of the wait, and the check after it.
\<close>

record win_state =
  win_events :: nat
  win_in_flight :: bool

record send_round =
  sn_reading :: "bool \<times> instant"
  sn_event_error :: "int option"
  sn_send_error :: "int option"
  sn_poll :: "((bool \<times> instant) \<times> win_poll_answer) list"
  sn_waits :: "wait_turn list"
  sn_after :: "bool \<times> instant"

text \<open>One send: the event is created, the send is started and awaited, and the event is closed.\<close>

datatype send_attempt = SaAgain | SaMore | SaAborted | SaReturn io_error | SaSent nat

definition attempt_send ::
  "(int \<Rightarrow> io_error) \<Rightarrow> instant option \<Rightarrow> bool \<Rightarrow> send_round \<Rightarrow> win_state \<Rightarrow> send_attempt \<times> win_state" where
  "attempt_send os deadline watched r st =
     (case sn_event_error r of
        Some code \<Rightarrow> (SaReturn (os code), st)
      | None \<Rightarrow>
          (let created = st\<lparr>win_events := win_events st + 1\<rparr>;
               failed = (case sn_send_error r of None \<Rightarrow> None
                         | Some code \<Rightarrow> if code = WSA_IO_PENDING then None else Some code)
           in case failed of
                Some code \<Rightarrow>
                  (if code = WSAEINTR then SaAgain
                   else if code = WSAEWOULDBLOCK
                   then (case poll_socket_writable os deadline watched (sn_poll r) of
                           None \<Rightarrow> SaMore | Some (Inl e) \<Rightarrow> SaReturn e | Some (Inr _) \<Rightarrow> SaAgain)
                   else SaReturn (os code), created\<lparr>win_events := win_events created - 1\<rparr>)
              | None \<Rightarrow>
                  (let sending = created\<lparr>win_in_flight := True\<rparr>
                   in case await_send os deadline watched (sn_waits r) of
                        SwMore \<Rightarrow> (SaMore, sending)
                      | SwAborted \<Rightarrow> (SaAborted, sending)
                      | SwEnded transferred in_flight \<Rightarrow>
                          (case transferred of
                             Inl e \<Rightarrow> SaReturn e
                           | Inr n \<Rightarrow>
                               if n = 0 then SaReturn (IoError EkWriteZero ''failed to write supervisor frame'')
                               else SaSent n,
                           sending\<lparr>win_in_flight := in_flight, win_events := win_events sending - 1\<rparr>))))"

datatype win_end = WnMore | WnAborted | WnReturned "unit io_result"

fun win_write_until ::
  "(int \<Rightarrow> io_error) \<Rightarrow> instant option \<Rightarrow> bool \<Rightarrow> bytes \<Rightarrow> send_round list \<Rightarrow> win_state
   \<Rightarrow> bytes \<times> win_end \<times> win_state" where
  "win_write_until os deadline watched data [] st = ([], WnMore, st)"
| "win_write_until os deadline watched data (r # rounds) st =
     (case check_write_conditions deadline watched (sn_reading r) of
        Inl e \<Rightarrow> ([], WnReturned (Inl e), st)
      | Inr _ \<Rightarrow>
          if data = [] then ([], WnReturned (Inr ()), st)
          else case attempt_send os deadline watched r st of
            (SaAgain, st) \<Rightarrow> win_write_until os deadline watched data rounds st
          | (SaMore, st) \<Rightarrow> ([], WnMore, st)
          | (SaAborted, st) \<Rightarrow> ([], WnAborted, st)
          | (SaReturn e, st) \<Rightarrow> ([], WnReturned (Inl e), st)
          | (SaSent n, st) \<Rightarrow>
              (case check_write_conditions deadline watched (sn_after r) of
                 Inl e \<Rightarrow> (take n data, WnReturned (Inl e), st)
               | Inr _ \<Rightarrow>
                   (case win_write_until os deadline watched (drop n data) rounds st of
                      (sent, result, final) \<Rightarrow> (take n data @ sent, result, final))))"

section \<open>Properties\<close>

lemma round_up_ms: "d \<le> round_up_ms d * 10 ^ 6 \<and> round_up_ms d * 10 ^ 6 < d + 10 ^ 6 \<and> (round_up_ms d = 0 \<longleftrightarrow> d = 0)"
proof -
  have m: "(d mod ns_per_sec) mod 10 ^ 6 = d mod 10 ^ 6" by (simp add: ns_per_sec_def mod_mod_cancel)
  define q where "q = d div 10 ^ 6"
  define r where "r = d mod 10 ^ 6"
  have d: "d = q * 10 ^ 6 + r" "r < 10 ^ 6" by (simp_all add: q_def r_def)
  have e: "round_up_ms d = q + (if r \<noteq> 0 then 1 else 0)"
    using m by (simp add: round_up_ms_def q_def r_def)
  show ?thesis unfolding e using d by (cases "r = 0") auto
qed

text \<open>
  No wait of the writer oversleeps. While a cancellation is watched, every wait is at most 10
  ms; with a deadline it is never unbounded, it does not outlast the deadline by a
  millisecond, and it is zero (a busy loop) only when the deadline is reached; the bounded
  waits never collide with the number that means forever.
\<close>

theorem win_waits_are_bounded:
  shows "watched \<longrightarrow> win_wait_timeout deadline watched now \<le> 10 \<and>
      0 \<le> win_poll_timeout deadline watched now \<and> win_poll_timeout deadline watched now \<le> 10"
    and "deadline = Some d \<longrightarrow>
      win_wait_timeout deadline watched now < INFINITE \<and> win_poll_timeout deadline watched now \<noteq> - 1 \<and>
      win_wait_timeout deadline watched now * 10 ^ 6 < saturating_duration_since d now + 10 ^ 6 \<and>
      (win_wait_timeout deadline watched now = 0 \<longleftrightarrow> saturating_duration_since d now = 0)"
proof -
  have ten: "round_up_ms (millis 10) = 10" by (simp add: round_up_ms_def millis_def ns_per_sec_def)
  have small: "round_up_ms d \<le> 10" if "d \<le> millis 10" for d
  proof -
    have "round_up_ms d * 10 ^ 6 < 11 * 10 ^ 6" using round_up_ms [of d] that by (simp add: millis_def)
    then show ?thesis by simp
  qed
  show "watched \<longrightarrow> win_wait_timeout deadline watched now \<le> 10 \<and>
      0 \<le> win_poll_timeout deadline watched now \<and> win_poll_timeout deadline watched now \<le> 10"
    using ten small
    by (cases deadline) (auto simp: win_wait_timeout_def win_poll_timeout_def poll_wait_def
        duration_to_win_timeout_ms_def win_duration_to_poll_timeout_ms_def min.coboundedI1)
  show "deadline = Some d \<longrightarrow>
      win_wait_timeout deadline watched now < INFINITE \<and> win_poll_timeout deadline watched now \<noteq> - 1 \<and>
      win_wait_timeout deadline watched now * 10 ^ 6 < saturating_duration_since d now + 10 ^ 6 \<and>
      (win_wait_timeout deadline watched now = 0 \<longleftrightarrow> saturating_duration_since d now = 0)"
  proof
    assume dl: "deadline = Some d"
    obtain w where w: "poll_wait deadline watched now = Some w" "w \<le> saturating_duration_since d now"
        "w = 0 \<longleftrightarrow> saturating_duration_since d now = 0"
      using dl by (cases watched) (auto simp: poll_wait_def millis_def min_def)
    have t: "win_wait_timeout deadline watched now = min (round_up_ms w) (2 ^ 32 - 1 - 1)"
        "win_poll_timeout deadline watched now = int (min (round_up_ms w) (2 ^ 31 - 1))"
      using w by (simp_all add: win_wait_timeout_def win_poll_timeout_def duration_to_win_timeout_ms_def
          win_duration_to_poll_timeout_ms_def)
    have "min (round_up_ms w) (2 ^ 32 - 1 - 1) * 10 ^ 6 \<le> round_up_ms w * 10 ^ 6" by simp
    also have "\<dots> < saturating_duration_since d now + 10 ^ 6" using round_up_ms [of w] w(2) by linarith
    finally have below: "win_wait_timeout deadline watched now * 10 ^ 6 < saturating_duration_since d now + 10 ^ 6"
      using t by simp
    have "win_wait_timeout deadline watched now = 0 \<longleftrightarrow> saturating_duration_since d now = 0"
      using t round_up_ms [of w] w(3) by (auto simp: min_def)
    moreover have "win_wait_timeout deadline watched now < INFINITE"
      unfolding t INFINITE_def by (rule le_less_trans [OF min.cobounded2]) simp
    ultimately show "win_wait_timeout deadline watched now < INFINITE \<and> win_poll_timeout deadline watched now \<noteq> - 1 \<and>
      win_wait_timeout deadline watched now * 10 ^ 6 < saturating_duration_since d now + 10 ^ 6 \<and>
      (win_wait_timeout deadline watched now = 0 \<longleftrightarrow> saturating_duration_since d now = 0)"
      using below t(2) by simp
  qed
qed

theorem win_waits_are_bounded_witness: "win_wait_timeout (Some 5) True 5 \<le> 10 \<and> win_wait_timeout (Some 5) True 5 < INFINITE"
  using win_waits_are_bounded(1) [of True "Some 5" 5] win_waits_are_bounded(2) [of "Some 5" 5 True 5] by simp

lemma await_send_released: "await_send os deadline watched turns = SwEnded r in_flight \<Longrightarrow> \<not> in_flight"
  by (induction turns)
    (auto simp: reap_with_def cancel_and_reap_socket_write_def split: sum.splits wait_answer.splits if_splits)

text \<open>An attempt that ends in anything but waiting or the abort has released the buffer and the event.\<close>

lemma attempt_send_released:
  assumes "attempt_send os deadline watched r st = (answer, st')" "\<not> win_in_flight st"
    and "answer \<noteq> SaMore" "answer \<noteq> SaAborted"
  shows "\<not> win_in_flight st' \<and> win_events st' = win_events st"
proof (cases "await_send os deadline watched (sn_waits r)")
  case (SwEnded transferred in_flight)
  with await_send_released [OF SwEnded] assms show ?thesis
    by (auto simp: attempt_send_def Let_def split: option.splits if_splits)
qed (use assms in \<open>auto simp: attempt_send_def Let_def split: option.splits if_splits\<close>)

text \<open>One round either ends the call, repeats it on the same data, or goes on with the rest.\<close>

lemma win_write_round:
  assumes "\<not> win_in_flight st"
  obtains (ends) sent result final where
      "win_write_until os deadline watched data (r # rounds) st = (sent, result, final)" "prefix sent data"
      "\<And>q. result = WnReturned q \<Longrightarrow> \<not> win_in_flight final \<and> win_events final = win_events st \<and> (is_ok q \<longrightarrow> sent = data)"
  | (again) st' where "\<not> win_in_flight st'" "win_events st' = win_events st"
      "win_write_until os deadline watched data (r # rounds) st = win_write_until os deadline watched data rounds st'"
  | (part) n st' where "\<not> win_in_flight st'" "win_events st' = win_events st"
      "win_write_until os deadline watched data (r # rounds) st =
         (case win_write_until os deadline watched (drop n data) rounds st' of
            (sent, result, final) \<Rightarrow> (take n data @ sent, result, final))"
proof (cases "check_write_conditions deadline watched (sn_reading r)")
  case (Inl e)
  show ?thesis by (rule ends [of "[]" "WnReturned (Inl e)" st]) (use Inl assms in auto)
next
  case ready: (Inr u)
  show ?thesis
  proof (cases "data = []")
    case True
    show ?thesis by (rule ends [of "[]" "WnReturned (Inr ())" st]) (use ready True assms in auto)
  next
    case False
    obtain answer st' where at: "attempt_send os deadline watched r st = (answer, st')"
      by (cases "attempt_send os deadline watched r st")
    note released = attempt_send_released [OF at assms]
    show ?thesis
    proof (cases answer)
      case SaAgain
      show ?thesis by (rule again [of st']) (use ready False at SaAgain released in auto)
    next
      case SaMore
      show ?thesis by (rule ends [of "[]" WnMore st']) (use ready False at SaMore in auto)
    next
      case SaAborted
      show ?thesis by (rule ends [of "[]" WnAborted st']) (use ready False at SaAborted in auto)
    next
      case (SaReturn e)
      show ?thesis by (rule ends [of "[]" "WnReturned (Inl e)" st']) (use ready False at SaReturn released in auto)
    next
      case (SaSent n)
      show ?thesis
      proof (cases "check_write_conditions deadline watched (sn_after r)")
        case (Inl e)
        show ?thesis
          by (rule ends [of "take n data" "WnReturned (Inl e)" st'])
            (use ready False at SaSent Inl released in \<open>auto simp: take_is_prefix\<close>)
      next
        case (Inr v)
        show ?thesis by (rule part [of st' n]) (use ready False at SaSent Inr released in auto)
      qed
    qed
  qed
qed

declare win_write_until.simps(2) [simp del]

lemma win_write_until_released:
  assumes "win_write_until os deadline watched data rounds st = (sent, result, final)" "\<not> win_in_flight st"
  shows "prefix sent data \<and>
    (\<forall>q. result = WnReturned q \<longrightarrow> \<not> win_in_flight final \<and> win_events final = win_events st \<and> (is_ok q \<longrightarrow> sent = data))"
  using assms
proof (induction rounds arbitrary: data st sent result final)
  case (Cons r rounds)
  show ?case
  proof (rule win_write_round [OF Cons.prems(2), of os deadline watched data r rounds])
    fix sent' result' final'
    assume "win_write_until os deadline watched data (r # rounds) st = (sent', result', final')" "prefix sent' data"
      "\<And>q. result' = WnReturned q \<Longrightarrow> \<not> win_in_flight final' \<and> win_events final' = win_events st \<and> (is_ok q \<longrightarrow> sent' = data)"
    with Cons.prems(1) show ?thesis by simp
  next
    fix st' assume "\<not> win_in_flight st'" "win_events st' = win_events st"
      "win_write_until os deadline watched data (r # rounds) st = win_write_until os deadline watched data rounds st'"
    with Cons.IH [of data st' sent result final] Cons.prems(1) show ?thesis by simp
  next
    fix n st' assume p: "\<not> win_in_flight st'" "win_events st' = win_events st"
      "win_write_until os deadline watched data (r # rounds) st =
         (case win_write_until os deadline watched (drop n data) rounds st' of
            (sent, result, final) \<Rightarrow> (take n data @ sent, result, final))"
    obtain s q f where rest: "win_write_until os deadline watched (drop n data) rounds st' = (s, q, f)"
      by (cases "win_write_until os deadline watched (drop n data) rounds st'") auto
    with p Cons.prems(1) have now: "sent = take n data @ s" "result = q" "final = f" by simp_all
    note ih = Cons.IH [OF rest p(1)]
    have "prefix (take n data @ s) (take n data @ drop n data)" using ih by (simp del: append_take_drop_id)
    with ih now p(2) show ?thesis by simp
  qed
qed simp

text \<open>
  C38: The buffer of an overlapped send is never in use when the writer returns. Whatever
  Winsock answers, and whether the frame was sent, refused, timed out or cancelled, a return
  finds no send in flight and no event left open; while one may still be in flight the only
  ways on are to wait and to abort the process. What was sent is a first part of the data, and
  all of it when the call succeeds.
\<close>

theorem overlapped_write_releases_buffer:
  assumes "win_write_until os deadline watched data rounds st = (sent, result, final)" "\<not> win_in_flight st"
  shows "prefix sent data \<and>
    (result = WnReturned r \<longrightarrow> \<not> win_in_flight final \<and> win_events final = win_events st) \<and>
    (result = WnReturned (Inr u) \<longrightarrow> sent = data)"
  using win_write_until_released [OF assms] by auto

text \<open>A send that is cancelled while the kernel holds the buffer: the writer waits for the event first.\<close>

theorem overlapped_write_releases_buffer_witness:
  "\<exists>final. win_write_until (\<lambda>code. IoError (EkOs code) '''') None True [1, 2, 3]
       [\<lparr>sn_reading = (False, 0), sn_event_error = None, sn_send_error = Some WSA_IO_PENDING, sn_poll = [],
         sn_waits = [\<lparr>wt_reading = (False, 0), wt_answer = WaTimeout, wt_completed = Inl 0, wt_reap_signaled = True\<rparr>,
                     \<lparr>wt_reading = (True, 1), wt_answer = WaTimeout, wt_completed = Inl 0, wt_reap_signaled = True\<rparr>],
         sn_after = (False, 0)\<rparr>] \<lparr>win_events = 0, win_in_flight = False\<rparr> = ([], WnReturned (Inl cancelled_error), final) \<and>
     \<not> win_in_flight final \<and> win_events final = 0"
proof -
  let ?rounds = "[\<lparr>sn_reading = (False, 0), sn_event_error = None, sn_send_error = Some WSA_IO_PENDING, sn_poll = [],
         sn_waits = [\<lparr>wt_reading = (False, 0), wt_answer = WaTimeout, wt_completed = Inl 0, wt_reap_signaled = True\<rparr>,
                     \<lparr>wt_reading = (True, 1), wt_answer = WaTimeout, wt_completed = Inl 0, wt_reap_signaled = True\<rparr>],
         sn_after = (False, 0)\<rparr>]"
  obtain final where run: "win_write_until (\<lambda>code. IoError (EkOs code) '''') None True [1, 2, 3] ?rounds
      \<lparr>win_events = 0, win_in_flight = False\<rparr> = ([], WnReturned (Inl cancelled_error), final)"
    by (simp add: win_write_until.simps(2) attempt_send_def Let_def check_write_conditions_def reap_with_def
        cancel_and_reap_socket_write_def)
  with overlapped_write_releases_buffer [OF run] show ?thesis by simp
qed

end
