(* ===== verification/Ld_Watch.thy ===== *)
theory Ld_Watch
  imports Ld_Supervised
begin

text \<open>
  The control worker of the parent of a supervised run (\<open>supervisor_control_loop\<close> of
  src/src/subprocess.rs), call by call: it watches for a cancellation or the deadline, records the
  cancellation, writes the CANCEL frame and gives the child its grace. \<open>Ld_Supervision\<close> has all of this as
  the one step \<open>worker_cancel\<close>; the theory shows that the loop does what that step says.
\<close>

section \<open>The loop\<close>

text \<open>
  What \<open>recv_timeout\<close> answers on the stop channel. Only a message ends the watch; the grace also ends
  when the sender is gone.
\<close>

datatype stop_signal = SgStop | SgDisconnected | SgTimeout

text \<open>
  One turn of the watch: the stop channel, the terminal flag, the requests that other threads made
  before the check, and the clock for the deadline.
\<close>

record watch_turn =
  wt_stop :: stop_signal
  wt_terminal :: bool
  wt_requests :: "cancel_reason list"
  wt_now :: instant

text \<open>One turn of the grace: the clock, the stop channel and the terminal flag.\<close>

record grace_turn =
  gt_now :: instant
  gt_stop :: stop_signal
  gt_terminal :: bool

text \<open>
  What the worker meets once the cancellation is requested: the terminal flag, the clock for the
  grace, the session as the lock finds it (the reader shares it), the clock for the bound of the
  write, the calls of the write, and the grace. Each deadline is a sum that is replaced by the clock
  read again when it does not exist.
\<close>

record cancel_turn =
  kt_terminal :: bool
  kt_now :: instant
  kt_later :: instant
  kt_session :: parent_session
  kt_write_now :: instant
  kt_write_later :: instant
  kt_writes :: "write_call list"
  kt_grace :: "grace_turn list"

text \<open>
  Where the loop is: its result (\<open>None\<close> while it still waits), the shared cancellation, the session it
  left behind if it took the lock, the bytes it wrote, and whether it shut the stream down.
\<close>

record watch_state =
  we_result :: "unit io_result option"
  we_cancellation :: supervisor_cancellation
  we_session :: "parent_session option"
  we_sent :: bytes
  we_shutdown :: bool

definition untouched :: "unit io_result option \<Rightarrow> supervisor_cancellation \<Rightarrow> watch_state" where
  "untouched result c =
     \<lparr>we_result = result, we_cancellation = c, we_session = None, we_sent = [], we_shutdown = False\<rparr>"

fun grace_wait :: "instant \<Rightarrow> grace_turn list \<Rightarrow> unit io_result option \<times> bool" where
  "grace_wait grace_deadline [] = (None, False)"
| "grace_wait grace_deadline (g # gs) =
     (if saturating_duration_since grace_deadline (gt_now g) = 0 then (Some (Inr ()), True)
      else case gt_stop g of
             SgTimeout \<Rightarrow> if gt_terminal g then (Some (Inr ()), False) else grace_wait grace_deadline gs
           | _ \<Rightarrow> (Some (Inr ()), False))"

definition grace_deadline :: "cancel_turn \<Rightarrow> instant" where
  "grace_deadline k = supervisor_deadline_after (kt_now k) (kt_later k) SUPERVISOR_CANCEL_GRACE"

text \<open>The CANCEL frame: what is written, the result and whether the stream is shut down.\<close>

definition send_cancel_frame ::
  "formats \<Rightarrow> cancel_reason \<Rightarrow> cancel_turn \<Rightarrow> bytes \<times> unit io_result option \<times> bool" where
  "send_cancel_frame fm reason k =
     (case bind_res (encode_payload (fm_reason fm) reason) (frame_new FkCancel SUPERVISOR_REQUEST_ID) of
        Inl e \<Rightarrow> ([], Some (Inl e), False)
      | Inr frame \<Rightarrow>
          (case write_frame_until frame
              (Some (min (supervisor_deadline_after (kt_write_now k) (kt_write_later k) (millis 100)) (grace_deadline k)))
              False (kt_writes k) of
             (sent, Some (Inl e), _) \<Rightarrow> (sent, Some (Inl e), True)
           | (sent, result, _) \<Rightarrow> (sent, result, False)))"

definition cancel_child :: "formats \<Rightarrow> supervisor_cancellation \<Rightarrow> cancel_turn \<Rightarrow> watch_state" where
  "cancel_child fm c k =
     (if kt_terminal k then untouched (Some (Inr ())) c
      else case send_cancel (sx_reason c) (kt_session k) of
        (Inl e, p) \<Rightarrow> (untouched (Some (Inl e)) c)\<lparr>we_session := Some p\<rparr>
      | (Inr should_send, p) \<Rightarrow>
          (case (if should_send then send_cancel_frame fm (sx_reason c) k else ([], Some (Inr ()), False)) of
             (sent, Some (Inr _), _) \<Rightarrow>
               (case grace_wait (grace_deadline k) (kt_grace k) of
                  (result, shut) \<Rightarrow> \<lparr>we_result = result, we_cancellation = c, we_session = Some p,
                     we_sent = sent, we_shutdown = shut\<rparr>)
           | (sent, result, shut) \<Rightarrow> \<lparr>we_result = result, we_cancellation = c, we_session = Some p,
                we_sent = sent, we_shutdown = shut\<rparr>))"

fun supervisor_control_loop ::
  "formats \<Rightarrow> instant option \<Rightarrow> watch_turn list \<Rightarrow> cancel_turn \<Rightarrow> supervisor_cancellation \<Rightarrow> watch_state" where
  "supervisor_control_loop fm deadline [] k c = untouched None c"
| "supervisor_control_loop fm deadline (t # ts) k c =
     (let c = fold sx_request (wt_requests t) c
      in if wt_stop t = SgStop \<or> wt_terminal t then untouched (Some (Inr ())) c
         else if sx_is_requested c then cancel_child fm c k
         else if due deadline (wt_now t) then cancel_child fm (sx_request CrDeadline c) k
         else supervisor_control_loop fm deadline ts k c)"

text \<open>\<open>SupervisorControlWorker::join\<close>: a panic of the worker is an error of its own.\<close>

definition control_worker_join :: "unit io_result option \<Rightarrow> unit io_result" where
  "control_worker_join result =
     (case result of Some r \<Rightarrow> r | None \<Rightarrow> Inl (IoError EkOther ''supervisor control worker panicked''))"

section \<open>The grace\<close>

lemma grace_wait_ends:
  "(\<exists>g \<in> set gs. at \<le> gt_now g \<or> gt_stop g \<noteq> SgTimeout \<or> gt_terminal g) \<Longrightarrow> fst (grace_wait at gs) = Some (Inr ())"
  by (induction gs) (auto simp: saturating_duration_since_def split: stop_signal.split)

lemma grace_wait_shut:
  "grace_wait at gs = (result, shut) \<Longrightarrow>
   (result = None \<longrightarrow> \<not> shut \<and> (\<forall>g \<in> set gs. gt_now g < at \<and> gt_stop g = SgTimeout \<and> \<not> gt_terminal g)) \<and>
   (shut \<longrightarrow> (\<exists>g \<in> set gs. at \<le> gt_now g)) \<and> (\<forall>e. result \<noteq> Some (Inl e))"
proof (induction gs)
  case (Cons g gs)
  show ?case
  proof (cases "at \<le> gt_now g \<or> gt_stop g \<noteq> SgTimeout \<or> gt_terminal g")
    case True
    then show ?thesis
      using Cons.prems by (cases "gt_stop g") (auto simp: saturating_duration_since_def split: if_splits)
  next
    case False
    with Cons show ?thesis by (auto simp: saturating_duration_since_def)
  qed
qed simp

section \<open>What a cancellation writes\<close>

lemma cancel_frame_exists:
  assumes "formats_ok fm"
  obtains payload where "encode_payload (fm_reason fm) reason = Inr payload"
    "frame_new FkCancel SUPERVISOR_REQUEST_ID payload = Inr (plain_frame FkCancel SUPERVISOR_REQUEST_ID payload)"
    "frame_wf (plain_frame FkCancel SUPERVISOR_REQUEST_ID payload)"
proof -
  have "serde_total (fm_reason fm) reason" using assms by (simp add: formats_ok_def)
  from serde_total_payload [OF this] obtain payload where "encode_payload (fm_reason fm) reason = Inr payload"
    "length payload \<le> MAX_SUPERVISOR_FRAME_PAYLOAD" by blast
  with that show thesis by (simp add: frame_new_def plain_frame_def frame_wf_def)
qed

definition cancel_bytes :: "formats \<Rightarrow> cancel_reason \<Rightarrow> bytes" where
  "cancel_bytes fm reason =
     (case encode_payload (fm_reason fm) reason of
        Inl _ \<Rightarrow> [] | Inr payload \<Rightarrow> frame_bytes (plain_frame FkCancel SUPERVISOR_REQUEST_ID payload))"

lemma send_cancel_frame_sent:
  assumes ok: "formats_ok fm" and send: "send_cancel_frame fm reason k = (sent, result, shut)"
  shows "(\<exists>rest. cancel_bytes fm reason = sent @ rest) \<and> (result = Some (Inr u) \<longrightarrow> sent = cancel_bytes fm reason) \<and>
    (shut \<longleftrightarrow> (\<exists>e. result = Some (Inl e)))"
proof -
  obtain payload where p: "encode_payload (fm_reason fm) reason = Inr payload"
    "frame_new FkCancel SUPERVISOR_REQUEST_ID payload = Inr (plain_frame FkCancel SUPERVISOR_REQUEST_ID payload)"
    "frame_wf (plain_frame FkCancel SUPERVISOR_REQUEST_ID payload)"
    using cancel_frame_exists [OF ok] by metis
  let ?frame = "plain_frame FkCancel SUPERVISOR_REQUEST_ID payload"
  let ?deadline = "Some (min (supervisor_deadline_after (kt_write_now k) (kt_write_later k) (millis 100)) (grace_deadline k))"
  obtain s r x where w: "write_frame_until ?frame ?deadline False (kt_writes k) = (s, r, x)"
    by (cases "write_frame_until ?frame ?deadline False (kt_writes k)") auto
  have "(sent, result, shut) = (s, r, case r of Some (Inl e) \<Rightarrow> True | _ \<Rightarrow> False)"
    using send p(1,2) w by (simp add: send_cancel_frame_def bind_res_def split: option.splits sum.splits)
  with write_frame_sent [OF p(3) w] p(1) show ?thesis
    by (auto simp: cancel_bytes_def split: option.splits sum.splits)
qed

section \<open>What the worker does\<close>

lemma sx_request_consistent: "sx_consistent c \<Longrightarrow> sx_consistent (sx_request r c)"
  by (simp add: sx_consistent_def sx_is_requested_def sx_requested_reason_def sx_request_def get_or_insert_def
      split: option.split)

lemma sx_requests_consistent: "sx_consistent c \<Longrightarrow> sx_consistent (fold sx_request rs c)"
  by (induction rs arbitrary: c) (simp_all add: sx_request_consistent)

lemma sx_requests_kept: "sx_requested_reason c = Some r \<Longrightarrow> sx_requested_reason (fold sx_request rs c) = Some r"
  by (rule supervisor_cancellation_cell.fold_kept)

text \<open>A turn asks the worker to act.\<close>

definition wakes :: "instant option \<Rightarrow> watch_turn \<Rightarrow> bool" where
  "wakes deadline t \<longleftrightarrow> wt_requests t \<noteq> [] \<or> due deadline (wt_now t)"

lemma control_loop_cases:
  assumes c: "sx_consistent c"
  obtains (idle) result d where "supervisor_control_loop fm deadline ts k c = untouched result d"
      "result = None \<or> result = Some (Inr ())" "\<And>r. sx_requested_reason c = Some r \<Longrightarrow> sx_requested_reason d = Some r"
      "\<forall>t \<in> set ts. \<not> wakes deadline t \<Longrightarrow> d = c"
      "\<exists>t \<in> set ts. wt_stop t = SgStop \<or> wt_terminal t \<or> wakes deadline t \<Longrightarrow> result \<noteq> None"
  | (acts) r d where "supervisor_control_loop fm deadline ts k c = cancel_child fm d k"
      "sx_requested_reason d = Some r" "\<And>r. sx_requested_reason c = Some r \<Longrightarrow> sx_requested_reason d = Some r"
      "sx_is_requested c \<or> (\<exists>t \<in> set ts. wakes deadline t)"
  using c
proof (induction ts arbitrary: c thesis)
  case Nil
  show ?case by (rule Nil.prems(1) [of None c]) simp_all
next
  case (Cons t ts)
  let ?d = "fold sx_request (wt_requests t) c"
  have d: "sx_consistent ?d" by (rule sx_requests_consistent) (rule Cons.prems(3))
  have kept: "sx_requested_reason c = Some r \<Longrightarrow> sx_requested_reason ?d = Some r" for r by (rule sx_requests_kept)
  have same: "?d = c" if "\<not> wakes deadline t" using that by (simp add: wakes_def)
  have wake: "sx_is_requested c \<or> wakes deadline t" if "sx_is_requested ?d \<or> due deadline (wt_now t)"
    using that same by (auto simp: wakes_def)
  consider (told) "wt_stop t = SgStop \<or> wt_terminal t"
    | (requested) "\<not> (wt_stop t = SgStop \<or> wt_terminal t)" "sx_is_requested ?d"
    | (expired) "\<not> (wt_stop t = SgStop \<or> wt_terminal t)" "\<not> sx_is_requested ?d" "due deadline (wt_now t)"
    | (waits) "\<not> (wt_stop t = SgStop \<or> wt_terminal t)" "\<not> sx_is_requested ?d" "\<not> due deadline (wt_now t)"
    by blast
  then show ?case
  proof cases
    case told
    show ?thesis
      by (rule Cons.prems(1) [of "Some (Inr ())" ?d]) (use told kept same in \<open>simp_all add: Let_def\<close>)
  next
    case requested
    then obtain r where "sx_requested_reason ?d = Some r" using d by (auto simp: sx_consistent_def)
    then show ?thesis
      by (rule Cons.prems(2) [of ?d, rotated]) (use requested kept wake in \<open>simp_all add: Let_def, blast\<close>)
  next
    case expired
    have none: "sx_requested_reason ?d = None" using d expired(2) by (simp add: sx_consistent_def)
    have "sx_requested_reason c = None" using kept none by (cases "sx_requested_reason c") auto
    moreover have "sx_requested_reason (sx_request CrDeadline ?d) = Some CrDeadline"
      by (rule supervisor_cancellation_cell.put_fresh) (rule none)
    ultimately show ?thesis
      by (intro Cons.prems(2) [of "sx_request CrDeadline ?d" CrDeadline])
        (use expired wake in \<open>simp_all add: Let_def wakes_def\<close>)
  next
    case waits
    then have "sx_requested_reason ?d = None" using d by (simp add: sx_consistent_def)
    then have c_none: "sx_requested_reason c = None" using kept by (cases "sx_requested_reason c") auto
    have quiet: "wt_requests t = []"
      using waits(2) by (cases "wt_requests t" rule: rev_cases)
        (auto simp: sx_is_requested_def sx_request_def)
    have loop: "supervisor_control_loop fm deadline (t # ts) k c = supervisor_control_loop fm deadline ts k c"
      using waits quiet by (simp add: Let_def)
    have asleep: "\<not> wakes deadline t" using quiet waits(3) by (simp add: wakes_def)
    show ?thesis
    proof (rule Cons.IH [OF _ _ Cons.prems(3)])
      fix result d
      assume "supervisor_control_loop fm deadline ts k c = untouched result d" "result = None \<or> result = Some (Inr ())"
        "\<And>r. sx_requested_reason c = Some r \<Longrightarrow> sx_requested_reason d = Some r"
        "\<forall>t \<in> set ts. \<not> wakes deadline t \<Longrightarrow> d = c"
        "\<exists>t \<in> set ts. wt_stop t = SgStop \<or> wt_terminal t \<or> wakes deadline t \<Longrightarrow> result \<noteq> None"
      then show ?thesis
        by (intro Cons.prems(1) [of result d]) (use waits(1) asleep in \<open>simp_all only: loop list.set ball_simps bex_simps, blast+\<close>)
    next
      fix r d
      assume "supervisor_control_loop fm deadline ts k c = cancel_child fm d k" "sx_requested_reason d = Some r"
        "\<And>r. sx_requested_reason c = Some r \<Longrightarrow> sx_requested_reason d = Some r"
        "sx_is_requested c \<or> (\<exists>t \<in> set ts. wakes deadline t)"
      then show ?thesis by (intro Cons.prems(2) [of d r]) (simp_all only: loop list.set bex_simps, blast+)
    qed
  qed
qed

lemma cancel_child_terminal: "kt_terminal k \<Longrightarrow> cancel_child fm d k = untouched (Some (Inr ())) d"
  by (simp add: cancel_child_def)

lemma cancel_child_sends:
  assumes ok: "formats_ok fm" and r: "sx_requested_reason d = Some r" and alive: "\<not> kt_terminal k"
    and sc: "send_cancel r (kt_session k) = (should_send, p)"
  obtains sent rest result shut where
    "cancel_child fm d k = \<lparr>we_result = result, we_cancellation = d, we_session = Some p, we_sent = sent, we_shutdown = shut\<rparr>"
    "sent @ rest = (if should_send = Inr True then cancel_bytes fm r else [])"
    "result = Some (Inr ()) \<longrightarrow> rest = []"
    "(\<exists>e. should_send = Inl e) \<longrightarrow> (\<exists>e. result = Some (Inl e))"
    "(\<nexists>e. should_send = Inl e) \<and> (\<nexists>e. result = Some (Inl e)) \<longrightarrow>
       (result, shut) = grace_wait (grace_deadline k) (kt_grace k) \<or>
       fst (snd (send_cancel_frame fm r k)) = None"
    "(\<nexists>e. should_send = Inl e) \<and> (\<exists>e. result = Some (Inl e)) \<longrightarrow> shut"
proof (cases should_send)
  case (Inl e)
  show ?thesis
    by (rule that [of "Some (Inl e)" "[]" False "[]"])
      (use Inl alive sc r in \<open>simp_all add: cancel_child_def sx_reason_def untouched_def\<close>)
next
  case (Inr send)
  obtain sent result shut where wr: "(if send then send_cancel_frame fm r k else ([], Some (Inr ()), False)) = (sent, result, shut)"
    by (cases "if send then send_cancel_frame fm r k else ([], Some (Inr ()), False)") auto
  obtain g x where grace: "grace_wait (grace_deadline k) (kt_grace k) = (g, x)" by (cases "grace_wait (grace_deadline k) (kt_grace k)") auto
  have sent: "(\<exists>rest. sent @ rest = (if send then cancel_bytes fm r else [])) \<and>
      (result = Some (Inr ()) \<longrightarrow> sent = (if send then cancel_bytes fm r else [])) \<and> (shut \<longleftrightarrow> (\<exists>e. result = Some (Inl e)))"
    using wr send_cancel_frame_sent [OF ok, of r k sent result shut "()"] by (cases send) (auto intro: sym)
  then obtain rest where rest: "sent @ rest = (if send then cancel_bytes fm r else [])" by blast
  have reason: "sx_reason d = r" by (simp add: sx_reason_def r)
  have run: "cancel_child fm d k = (case result of
      Some (Inr _) \<Rightarrow> \<lparr>we_result = g, we_cancellation = d, we_session = Some p, we_sent = sent, we_shutdown = x\<rparr>
    | _ \<Rightarrow> \<lparr>we_result = result, we_cancellation = d, we_session = Some p, we_sent = sent, we_shutdown = shut\<rparr>)"
    by (simp only: cancel_child_def alive if_False reason sc Inr prod.case sum.case wr grace)
      (simp split: option.split sum.split)
  show ?thesis
  proof (cases "result = Some (Inr ())")
    case True
    then have "rest = []" using sent rest by auto
    with True run rest Inr grace grace_wait_shut [OF grace] show ?thesis
      by (intro that [of g sent x rest]) auto
  next
    case False
    then consider "result = None" | e where "result = Some (Inl e)" by (cases result) (auto, metis old.sum.exhaust unit.exhaust)
    then have run: "cancel_child fm d k = \<lparr>we_result = result, we_cancellation = d, we_session = Some p, we_sent = sent, we_shutdown = shut\<rparr>"
      using run by cases simp_all
    have answer: "fst (snd (send_cancel_frame fm r k)) = result" using wr False by (simp split: if_splits)
    have shut: "\<exists>e. result = Some (Inl e) \<Longrightarrow> shut" using sent by blast
    have unanswered: "\<nexists>e. result = Some (Inl e) \<Longrightarrow> fst (snd (send_cancel_frame fm r k)) = None"
      unfolding answer using False by (cases result) (auto, metis old.sum.exhaust unit.exhaust)
    show ?thesis
      by (rule that [OF run]) (use rest Inr False shut unanswered in simp_all)
  qed
qed

section \<open>The loop and the step\<close>

text \<open>While the worker watches, nothing has been cancelled, and the session can be.\<close>

lemma watching_send_cancel:
  assumes "session_reachable env s" and "sy_worker s = WkWatching"
  shows "\<exists>send p. send_cancel r (sy_parent s) = (Inr send, p)"
proof -
  note inv = session_reachable_inv [OF assms(1), THEN conjunct1]
  have fresh: "ps_cancel_reason (sy_parent s) = None"
    using session_invD(6) [OF inv] assms(2) by (auto simp: cancel_inv_def)
  have "ps_state (sy_parent s) \<noteq> PsAwaitHello"
    using session_invD(5) [OF inv] assms(2) fresh by (cases "sy_pphase s") (auto split: if_splits)
  show ?thesis
  proof (cases "ps_state (sy_parent s) = PsTerminal")
    case True
    with fresh have "send_cancel r (sy_parent s) = (Inr False, sy_parent s)" by (simp add: send_cancel_def)
    then show ?thesis by blast
  next
    case False
    with send_cancel_fresh [OF fresh, of r] \<open>ps_state (sy_parent s) \<noteq> PsAwaitHello\<close>
    have "\<exists>p. send_cancel r (sy_parent s) = (Inr True, p)" by simp
    then show ?thesis by blast
  qed
qed

lemma worker_cancel_cases:
  assumes ok: "formats_ok fm" and r: "sx_requested_reason (sy_cancel s) = Some r"
    and sc: "send_cancel r (sy_parent s) = (Inr send, p)"
  shows "sy_parent (worker_cancel fm s) = p" "sy_worker (worker_cancel fm s) = WkGrace"
    "concat (map frame_bytes (sy_down (worker_cancel fm s)))
       = concat (map frame_bytes (sy_down s)) @ (if send then cancel_bytes fm r else [])"
proof -
  obtain payload where p: "encode_payload (fm_reason fm) r = Inr payload"
    "frame_new FkCancel SUPERVISOR_REQUEST_ID payload = Inr (plain_frame FkCancel SUPERVISOR_REQUEST_ID payload)"
    using cancel_frame_exists [OF ok] by metis
  have step: "worker_cancel fm s = write_cancel fm r send (s\<lparr>sy_parent := p, sy_worker := WkGrace\<rparr>)"
    using r sc by (simp add: worker_cancel_def sx_reason_def)
  show "sy_parent (worker_cancel fm s) = p" "sy_worker (worker_cancel fm s) = WkGrace"
    "concat (map frame_bytes (sy_down (worker_cancel fm s)))
       = concat (map frame_bytes (sy_down s)) @ (if send then cancel_bytes fm r else [])"
    unfolding step using p by (simp_all add: write_cancel_def send_down_def cancel_bytes_def)
qed

text \<open>
  C25: The loop of the control worker refines the one step that the model of the session has
  for it. In a reachable state in which the worker watches, if the loop gets to the session
  and finds it in that state, then it leaves it as the step does, the step is one that
  succeeds, and what the loop has written is the beginning of what the step puts on the
  stream: all of it when the loop returns without an error, and after an error the stream is
  shut down.
\<close>

theorem control_loop_refines_step:
  assumes reachable: "session_reachable env s" and watching: "sy_worker s = WkWatching"
    and c: "sx_consistent c"
    and loop: "supervisor_control_loop (se_formats env) deadline ts k c = w"
    and found: "kt_session k = sy_parent s" "we_cancellation w = sy_cancel s" "we_session w = Some p"
  shows "sy_parent (worker_cancel (se_formats env) s) = p \<and> sy_worker (worker_cancel (se_formats env) s) = WkGrace \<and>
    (\<exists>rest. concat (map frame_bytes (sy_down (worker_cancel (se_formats env) s)))
          = concat (map frame_bytes (sy_down s)) @ we_sent w @ rest \<and>
       (we_result w = Some (Inr ()) \<longrightarrow> rest = [])) \<and>
    (\<forall>e. we_result w = Some (Inl e) \<longrightarrow> we_shutdown w)"
proof -
  have ok: "formats_ok (se_formats env)"
    using session_reachable_inv [OF reachable] by (simp add: env_ok_def)
  show ?thesis
  proof (rule control_loop_cases [OF c, of "se_formats env" deadline ts k])
    fix result d
    assume "supervisor_control_loop (se_formats env) deadline ts k c = untouched result d"
    with loop have "w = untouched result d" by simp
    with found(3) show ?thesis by (simp add: untouched_def)
  next
    fix r d
    assume acts: "supervisor_control_loop (se_formats env) deadline ts k c = cancel_child (se_formats env) d k"
      and r: "sx_requested_reason d = Some r"
    have alive: "\<not> kt_terminal k"
    proof
      assume "kt_terminal k"
      with acts loop have "w = untouched (Some (Inr ())) d" by (simp add: cancel_child_terminal)
      with found(3) show False by (simp add: untouched_def)
    qed
    obtain send q where sc: "send_cancel r (kt_session k) = (Inr send, q)"
      using watching_send_cancel [OF reachable watching] found(1) by metis
    obtain sent rest result shut where run: "cancel_child (se_formats env) d k
        = \<lparr>we_result = result, we_cancellation = d, we_session = Some q, we_sent = sent, we_shutdown = shut\<rparr>"
      and rest: "sent @ rest = (if (Inr send :: io_error + bool) = Inr True then cancel_bytes (se_formats env) r else [])"
        "result = Some (Inr ()) \<longrightarrow> rest = []"
      and failed: "(\<nexists>e. (Inr send :: io_error + bool) = Inl e) \<and> (\<exists>e. result = Some (Inl e)) \<longrightarrow> shut"
      by (rule cancel_child_sends [OF ok r alive sc])
    have w: "w = \<lparr>we_result = result, we_cancellation = d, we_session = Some q, we_sent = sent, we_shutdown = shut\<rparr>"
      using acts loop run by simp
    have reason: "sx_requested_reason (sy_cancel s) = Some r" using r found(2) w by simp
    note step = worker_cancel_cases [OF ok reason, of send q]
    have "p = q" using found(3) w by simp
    moreover have "(if send then cancel_bytes (se_formats env) r else []) = sent @ rest" using rest(1) by simp
    ultimately show ?thesis
      using step sc found(1) rest(2) failed w by (intro conjI exI [of _ rest]) simp_all
  qed
qed

text \<open>
  The worker stays out of a run that nobody asked it to end: if no cancellation was requested
  before it started and no turn of its watch sees a request or the deadline, it writes
  nothing, leaves the session, the stream and the cancellation alone, and returns only when it
  is told to stop or sees the terminal. If it is asked, it returns once the write has been
  answered and the grace is over or cut short.
\<close>

theorem control_loop_acts_when_asked:
  assumes c: "sx_consistent c" and ok: "formats_ok fm"
  shows "(\<not> sx_is_requested c \<and> (\<forall>t \<in> set ts. \<not> wakes deadline t) \<longrightarrow>
      (\<exists>result. supervisor_control_loop fm deadline ts k c = untouched result c \<and> (\<forall>e. result \<noteq> Some (Inl e)))) \<and>
    ((\<exists>t \<in> set ts. wt_stop t = SgStop \<or> wt_terminal t \<or> wakes deadline t) \<and>
     (\<forall>r. fst (snd (send_cancel_frame fm r k)) \<noteq> None) \<and>
     (\<exists>g \<in> set (kt_grace k). grace_deadline k \<le> gt_now g \<or> gt_stop g \<noteq> SgTimeout \<or> gt_terminal g) \<longrightarrow>
      we_result (supervisor_control_loop fm deadline ts k c) \<noteq> None)"
proof (rule control_loop_cases [OF c, of fm deadline ts k])
  fix result d
  assume i: "supervisor_control_loop fm deadline ts k c = untouched result d" "result = None \<or> result = Some (Inr ())"
    "\<forall>t \<in> set ts. \<not> wakes deadline t \<Longrightarrow> d = c"
    "\<exists>t \<in> set ts. wt_stop t = SgStop \<or> wt_terminal t \<or> wakes deadline t \<Longrightarrow> result \<noteq> None"
  have "we_result (untouched result d) = result" by (simp add: untouched_def)
  with i show ?thesis by auto
next
  fix r d
  assume a: "supervisor_control_loop fm deadline ts k c = cancel_child fm d k" "sx_requested_reason d = Some r"
    "sx_is_requested c \<or> (\<exists>t \<in> set ts. wakes deadline t)"
  have ends: "we_result (cancel_child fm d k) \<noteq> None"
    if answered: "fst (snd (send_cancel_frame fm r k)) \<noteq> None"
      and grace: "\<exists>g \<in> set (kt_grace k). grace_deadline k \<le> gt_now g \<or> gt_stop g \<noteq> SgTimeout \<or> gt_terminal g"
  proof (cases "kt_terminal k")
    case True
    then show ?thesis by (simp add: cancel_child_terminal untouched_def)
  next
    case False
    obtain send p where sc: "send_cancel r (kt_session k) = (send, p)" by (cases "send_cancel r (kt_session k)")
    obtain sent rest result shut where run: "cancel_child fm d k
        = \<lparr>we_result = result, we_cancellation = d, we_session = Some p, we_sent = sent, we_shutdown = shut\<rparr>"
      and error: "(\<exists>e. send = Inl e) \<longrightarrow> (\<exists>e. result = Some (Inl e))"
      and waited: "(\<nexists>e. send = Inl e) \<and> (\<nexists>e. result = Some (Inl e)) \<longrightarrow>
         (result, shut) = grace_wait (grace_deadline k) (kt_grace k) \<or> fst (snd (send_cancel_frame fm r k)) = None"
      by (rule cancel_child_sends [OF ok a(2) False sc])
    show ?thesis
    proof (cases "\<exists>e. result = Some (Inl e)")
      case True
      with run show ?thesis by auto
    next
      case False
      with error waited answered have "(result, shut) = grace_wait (grace_deadline k) (kt_grace k)" by blast
      then have "result = fst (grace_wait (grace_deadline k) (kt_grace k))" by (metis fst_conv)
      with grace_wait_ends [OF grace] run show ?thesis by simp
    qed
  qed
  show ?thesis
  proof (intro conjI impI)
    assume "\<not> sx_is_requested c \<and> (\<forall>t \<in> set ts. \<not> wakes deadline t)"
    with a(3) show "\<exists>result. supervisor_control_loop fm deadline ts k c = untouched result c \<and> (\<forall>e. result \<noteq> Some (Inl e))"
      by simp
  next
    assume "(\<exists>t \<in> set ts. wt_stop t = SgStop \<or> wt_terminal t \<or> wakes deadline t) \<and>
      (\<forall>r. fst (snd (send_cancel_frame fm r k)) \<noteq> None) \<and>
      (\<exists>g \<in> set (kt_grace k). grace_deadline k \<le> gt_now g \<or> gt_stop g \<noteq> SgTimeout \<or> gt_terminal g)"
    note asked = this [THEN conjunct2]
    show "we_result (supervisor_control_loop fm deadline ts k c) \<noteq> None"
      unfolding a(1) by (rule ends [OF asked [THEN conjunct1, THEN spec] asked [THEN conjunct2]])
  qed
qed

section \<open>Examples\<close>

text \<open>A run up to the moment at which START is authorised and its deadline passes.\<close>

lemma reach_session_step: "session_reachable env s \<Longrightarrow> session_step env s t \<Longrightarrow> session_reachable env t"
  using session_reachable_inv by (auto simp: session_step_in_def intro: reach_step)

definition sample_watched :: "supervisor_cancellation" where
  "sample_watched = sx_request CrDeadline (sx_new cancel_ctx_new CrUser)"

definition sample_started_parent :: parent_session where
  "sample_started_parent = (parent_new SUPERVISOR_REQUEST_ID)\<lparr>ps_state := PsAwaitStarted, ps_request_sent := True\<rparr>"

lemma sample_watching:
  obtains s where "session_reachable sample_env s" "sy_worker s = WkWatching" "sy_cancel s = sample_watched"
    "sy_parent s = sample_started_parent"
proof -
  let ?s = "sample_session cancel_ctx_new"
  let ?p = "parent_new SUPERVISOR_REQUEST_ID"
  let ?hello = "plain_frame FkHello 0 sample_token" and ?request = "plain_frame FkRequest SUPERVISOR_REQUEST_ID []"
    and ?accepted = "plain_frame FkAccepted SUPERVISOR_REQUEST_ID []" and ?start = "plain_frame FkStart SUPERVISOR_REQUEST_ID []"
  let ?c = "child_new\<lparr>ch_request_id := Some SUPERVISOR_REQUEST_ID, ch_state := ChAwaitStart\<rparr>"
  let ?sl = "?s\<lparr>sy_pphase := PpHello\<rparr>"
  let ?s1 = "?sl\<lparr>sy_cphase := CpRequest, sy_up := [?hello]\<rparr>"
  let ?s2 = "?s\<lparr>sy_cphase := CpRequest, sy_parent := ?p\<lparr>ps_state := PsAwaitAccepted\<rparr>, sy_pphase := PpRequest\<rparr>"
  let ?s3 = "?s2\<lparr>sy_parent := ?p\<lparr>ps_state := PsAwaitAccepted, ps_request_sent := True\<rparr>, sy_pphase := PpAccepted,
    sy_down := [?request]\<rparr>"
  let ?s4 = "?s3\<lparr>sy_child := ?c, sy_cphase := CpNext, sy_down := [], sy_up := [?accepted]\<rparr>"
  let ?s5 = "?s4\<lparr>sy_parent := ?p\<lparr>ps_state := PsAccepted, ps_request_sent := True\<rparr>, sy_pphase := PpAuthorize, sy_up := []\<rparr>"
  let ?s6 = "?s5\<lparr>sy_parent := sample_started_parent, sy_pphase := PpStart, sy_authorized := True\<rparr>"
  let ?s7 = "?s6\<lparr>sy_pphase := PpRead, sy_worker := WkWatching, sy_down := [?start]\<rparr>"
  note start = sample_session_def session_start_def sample_env_def
  note undue = handshake_io_def sx_is_requested_def sx_new_def cancel_ctx_new_def
  have small: "frame_new kind i [] = Inr (plain_frame kind i [])" "frame_new kind i sample_token = Inr (plain_frame kind i sample_token)"
    for kind i
    by (rule frame_new_small, simp add: MAX_SUPERVISOR_FRAME_PAYLOAD_def sample_token_def)+
  have "session_step sample_env ?s (parent_listen ?s)"
    by (intro ss_parent ps_listen) (simp_all add: start)
  with sample_reachable(1) have "session_reachable sample_env (parent_listen ?s)" by (rule reach_session_step)
  moreover have "parent_listen ?s = ?sl"
    by (simp add: parent_listen_def undue start)
  ultimately have r0: "session_reachable sample_env ?sl" by simp
  have "child_hello (se_token sample_env) ?sl = ?s1"
    by (simp add: child_hello_def send_up_def small start)
  then have "session_step sample_env ?sl ?s1"
    using cs_hello [of ?sl sample_env] by (intro ss_child) (simp_all add: start)
  with r0 have r1: "session_reachable sample_env ?s1" by (rule reach_session_step)
  have "parent_hello (se_token sample_env) ?hello (?s1\<lparr>sy_up := []\<rparr>) = ?s2"
    by (simp add: parent_hello_def accept_hello_def token_authenticate_iff start parent_new_def)
  then have "session_step sample_env ?s1 ?s2"
    using ps_hello [of ?s1 ?hello "[]" sample_env] by (intro ss_parent) (simp_all add: start)
  with r1 have r2: "session_reachable sample_env ?s2" by (rule reach_session_step)
  have "parent_request (se_request sample_env) ?s2 = ?s3"
    by (simp add: parent_request_def undue send_request_def send_down_def small start parent_new_def)
  then have "session_step sample_env ?s2 ?s3"
    using ps_request [of ?s2 sample_env] by (intro ss_parent) (simp_all add: start)
  with r2 have r3: "session_reachable sample_env ?s3" by (rule reach_session_step)
  have "child_request (se_formats sample_env) ?request (?s3\<lparr>sy_down := []\<rparr>) = ?s4"
    by (simp add: child_request_def receive_parent_frame_def child_new_def send_up_def small start)
  then have "session_step sample_env ?s3 ?s4"
    using cs_request [of ?s3 ?request "[]" sample_env] by (intro ss_child) (simp_all add: start)
  with r3 have r4: "session_reachable sample_env ?s4" by (rule reach_session_step)
  have "parent_accepted (se_formats sample_env) ?s4 = ?s5"
    by (simp add: parent_accepted_def undue receive_child_frame_def start parent_new_def)
  then have "session_step sample_env ?s4 ?s5"
    using ps_accepted [of ?s4 sample_env] by (intro ss_parent) (simp_all add: start)
  with r4 have r5: "session_reachable sample_env ?s5" by (rule reach_session_step)
  have "parent_authorize (se_formats sample_env) ?s5 = ?s6"
    by (simp add: parent_authorize_def authorize_start_def send_down_def small start parent_new_def sample_started_parent_def
        sx_requested_reason_def sx_new_def cancel_ctx_new_def)
  then have "session_step sample_env ?s5 ?s6"
    using ps_authorize [of ?s5 sample_env] by (intro ss_parent) (simp_all add: start)
  with r5 have r6: "session_reachable sample_env ?s6" by (rule reach_session_step)
  have "parent_start ?s6 = ?s7"
    by (simp add: parent_start_def undue send_down_def small start)
  then have "session_step sample_env ?s6 ?s7"
    using ps_start [of ?s6 sample_env] by (intro ss_parent) (simp_all add: start)
  with r6 have r7: "session_reachable sample_env ?s7" by (rule reach_session_step)
  have "session_reachable sample_env (?s7\<lparr>sy_cancel := sx_request CrDeadline (sy_cancel ?s7)\<rparr>)"
    by (rule reach_session_step [OF r7 ss_cancel])
  then show thesis by (rule that) (simp_all add: start sample_watched_def)
qed

definition sample_turns :: "watch_turn list" where
  "sample_turns =
     [\<lparr>wt_stop = SgTimeout, wt_terminal = False, wt_requests = [], wt_now = 1\<rparr>,
      \<lparr>wt_stop = SgTimeout, wt_terminal = False, wt_requests = [], wt_now = 5\<rparr>]"

definition sample_cancel_turn :: cancel_turn where
  "sample_cancel_turn =
     \<lparr>kt_terminal = False, kt_now = 10, kt_later = 10, kt_session = sample_started_parent, kt_write_now = 11,
      kt_write_later = 11, kt_writes = map send_call [Inr 18, Inr 0, Inr 1, Inr 0],
      kt_grace = [\<lparr>gt_now = 20, gt_stop = SgTimeout, gt_terminal = False\<rparr>,
        \<lparr>gt_now = 10 + secs 2, gt_stop = SgTimeout, gt_terminal = False\<rparr>]\<rparr>"

lemma sample_loop:
  "supervisor_control_loop sample_formats (Some 5) sample_turns sample_cancel_turn (sx_new cancel_ctx_new CrUser)
     = cancel_child sample_formats sample_watched sample_cancel_turn"
  by (simp add: sample_turns_def Let_def sx_is_requested_def sx_new_def cancel_ctx_new_def sample_watched_def due_def)

lemma sample_watched_reason: "sx_requested_reason sample_watched = Some CrDeadline"
  unfolding sample_watched_def by (rule supervisor_cancellation_cell.put_fresh)
    (simp add: sx_requested_reason_def sx_new_def cancel_ctx_new_def)

lemma sample_consistent: "sx_consistent (sx_new cancel_ctx_new CrUser)"
  by (simp add: sx_consistent_def sx_is_requested_def sx_requested_reason_def sx_new_def cancel_ctx_new_def)

lemma sample_cancel_sends:
  "send_cancel CrDeadline sample_started_parent = (Inr True, sample_started_parent\<lparr>ps_state := PsCancelling,
     ps_cancel_reason := Some CrDeadline, ps_cancel_sent := True\<rparr>)"
  by (simp add: send_cancel_def record_cancel_def sample_started_parent_def parent_new_def)

lemma sample_cancel_child:
  obtains p sent rest result shut where "cancel_child sample_formats sample_watched sample_cancel_turn
    = \<lparr>we_result = result, we_cancellation = sample_watched, we_session = Some p, we_sent = sent, we_shutdown = shut\<rparr>"
    "ps_cancel_sent p"
proof -
  have "\<not> kt_terminal sample_cancel_turn" "send_cancel CrDeadline (kt_session sample_cancel_turn)
      = (Inr True, sample_started_parent\<lparr>ps_state := PsCancelling, ps_cancel_reason := Some CrDeadline, ps_cancel_sent := True\<rparr>)"
    by (simp_all add: sample_cancel_turn_def sample_cancel_sends)
  from cancel_child_sends [OF sample_formats_ok sample_watched_reason this] show thesis
    by (metis (lifting) that parent_session.select_convs(4) parent_session.surjective parent_session.update_convs(4))
qed

theorem control_loop_refines_step_witness:
  "\<exists>s p. session_reachable sample_env s \<and> sy_parent (worker_cancel sample_formats s) = p \<and> ps_cancel_sent p \<and>
     we_session (supervisor_control_loop sample_formats (Some 5) sample_turns sample_cancel_turn
       (sx_new cancel_ctx_new CrUser)) = Some p"
proof -
  obtain s where s: "session_reachable sample_env s" "sy_worker s = WkWatching" "sy_cancel s = sample_watched"
    "sy_parent s = sample_started_parent" by (rule sample_watching)
  obtain p sent rest result shut where run: "cancel_child sample_formats sample_watched sample_cancel_turn
      = \<lparr>we_result = result, we_cancellation = sample_watched, we_session = Some p, we_sent = sent, we_shutdown = shut\<rparr>"
    and p: "ps_cancel_sent p" by (rule sample_cancel_child)
  have fm: "se_formats sample_env = sample_formats" by (simp add: sample_env_def)
  have "sy_parent (worker_cancel sample_formats s) = p"
    using control_loop_refines_step [OF s(1,2) sample_consistent sample_loop [folded fm], of p] s(3,4)
    unfolding fm run by (simp add: sample_cancel_turn_def)
  with s(1) p run sample_loop show ?thesis by auto
qed

lemma sample_cancel_answered: "fst (snd (send_cancel_frame sample_formats r sample_cancel_turn)) = Some (Inr ())"
proof -
  have eight: "length (u64_to_be_bytes SUPERVISOR_REQUEST_ID) = 8" by (rule u64_codec.enc_length)
  have deadline: "\<not> min (supervisor_deadline_after 11 11 (millis 100)) (grace_deadline sample_cancel_turn) \<le> Suc 0"
    by (simp add: grace_deadline_def sample_cancel_turn_def supervisor_deadline_after_def checked_add_instant_def
        min_le_iff_disj)
  have payload: "encode_payload (fm_reason sample_formats) r = Inr [reason_byte r]"
    by (simp add: encode_payload_def sample_formats_def MAX_SUPERVISOR_FRAME_PAYLOAD_def)
  have frame: "frame_new FkCancel SUPERVISOR_REQUEST_ID [reason_byte r] = Inr (plain_frame FkCancel SUPERVISOR_REQUEST_ID [reason_byte r])"
    by (rule frame_new_small) (simp add: MAX_SUPERVISOR_FRAME_PAYLOAD_def)
  have calls: "kt_writes sample_cancel_turn = map send_call [Inr 18, Inr 0, Inr 1, Inr 0]"
    "kt_write_now sample_cancel_turn = 11" "kt_write_later sample_cancel_turn = 11"
    by (simp_all add: sample_cancel_turn_def)
  show ?thesis
    unfolding send_cancel_frame_def payload bind_res_simps frame sum.case calls
    using eight by (simp add: write_frame_until_def encode_header_def send_call_def check_write_conditions_def deadline
        MAX_SUPERVISOR_FRAME_PAYLOAD_def)
qed

theorem control_loop_acts_when_asked_witness:
  "we_result (supervisor_control_loop sample_formats (Some 5) sample_turns sample_cancel_turn
     (sx_new cancel_ctx_new CrUser)) \<noteq> None"
proof -
  have wakes: "\<exists>t \<in> set sample_turns. wakes (Some 5) t" by (simp add: sample_turns_def wakes_def due_def)
  have grace: "\<exists>g \<in> set (kt_grace sample_cancel_turn). grace_deadline sample_cancel_turn \<le> gt_now g"
    by (simp add: sample_cancel_turn_def grace_deadline_def supervisor_deadline_after_def checked_add_instant_def
        SUPERVISOR_CANCEL_GRACE_def)
  have "\<forall>r. fst (snd (send_cancel_frame sample_formats r sample_cancel_turn)) \<noteq> None"
    by (simp add: sample_cancel_answered)
  with wakes grace control_loop_acts_when_asked [OF sample_consistent sample_formats_ok, of sample_turns "Some 5" sample_cancel_turn]
  show ?thesis by blast
qed

end
