(* ===== verification/Ld_Apple.thy ===== *)
theory Ld_Apple
  imports Ld_Wire
begin

text \<open>
  Reading a frame on an Apple host (src/src/supervisor.rs): the stream has no read timeout there, and
  a read that would block polls for the rest of its deadline. The theory shows that it returns what
  \<open>read_until\<close> of \<open>Ld_Wire\<close> returns.
\<close>

section \<open>Waiting for the stream\<close>

text \<open>
  What \<^verbatim>\<open>poll\<close> answers: an error, nothing within the timeout, or the events, with what
  \<^verbatim>\<open>SO_ERROR\<close> says when there is an error on the socket (or the error of asking).
\<close>

datatype read_poll =
    RpFailed io_error | RpTimeout | RpInvalid | RpSocketError "int io_result" | RpReadable | RpOther

definition poll_socket_error :: "int io_result \<Rightarrow> io_error" where
  "poll_socket_error asked =
     (case asked of
        Inl e \<Rightarrow> e
      | Inr code \<Rightarrow>
          if code \<noteq> 0 then IoError (EkOs code) [] else IoError EkConnectionAborted ''supervisor read poll failed'')"

fun poll_readable ::
  "instant option \<Rightarrow> bool \<Rightarrow> ((bool \<times> instant) \<times> read_poll) list \<Rightarrow> unit io_result option" where
  "poll_readable deadline watched [] = None"
| "poll_readable deadline watched ((reading, answer) # turns) =
     (if watched \<and> fst reading then Some (Inl cancelled_error)
      else if due deadline (snd reading) then Some (Inl deadline_error)
      else case answer of
             RpFailed e \<Rightarrow>
               if io_kind e = EkInterrupted then poll_readable deadline watched turns else Some (Inl e)
           | RpTimeout \<Rightarrow> poll_readable deadline watched turns
           | RpInvalid \<Rightarrow> Some (Inl (IoError (EkOs 9) []))
           | RpSocketError asked \<Rightarrow> Some (Inl (poll_socket_error asked))
           | RpReadable \<Rightarrow> Some (Inr ())
           | RpOther \<Rightarrow> poll_readable deadline watched turns)"

text \<open>A read of the stream, with the poll that follows if it would block.\<close>

record apple_call =
  ac_cancelled :: bool
  ac_now :: instant
  ac_answer :: "bytes io_result"
  ac_poll :: "((bool \<times> instant) \<times> read_poll) list"

fun apple_read_until :: "instant option \<Rightarrow> bool \<Rightarrow> nat \<Rightarrow> apple_call list \<Rightarrow> bytes io_result option \<times> apple_call list" where
  "apple_read_until deadline watched n [] = (if n = 0 then Some (Inr []) else None, [])"
| "apple_read_until deadline watched n (c # cs) =
     (if n = 0 then (Some (Inr []), c # cs)
      else if watched \<and> ac_cancelled c then (Some (Inl cancelled_error), c # cs)
      else if due deadline (ac_now c) then (Some (Inl deadline_error), c # cs)
      else case ac_answer c of
             Inr block \<Rightarrow>
               if block = [] then (Some (Inl truncated_error), cs)
               else if n < length block then (Some (Inr (take n block)), c\<lparr>ac_answer := Inr (drop n block)\<rparr> # cs)
               else (case apple_read_until deadline watched (n - length block) cs of
                       (r, cs) \<Rightarrow> (map_option (\<lambda>r. bind_res r (\<lambda>bs. Inr (block @ bs))) r, cs))
           | Inl error \<Rightarrow>
               if io_kind error = EkInterrupted then apple_read_until deadline watched n cs
               else if io_kind error = EkTimedOut \<or> io_kind error = EkWouldBlock
               then (case poll_readable deadline watched (ac_poll c) of
                       None \<Rightarrow> (None, cs)
                     | Some (Inl e) \<Rightarrow> (Some (Inl e), cs)
                     | Some (Inr _) \<Rightarrow> apple_read_until deadline watched n cs)
               else (Some (Inl error), cs))"

section \<open>It reads what the other reader reads\<close>

text \<open>The two polls differ only in the event they wait for.\<close>

definition writable_answer :: "read_poll \<Rightarrow> poll_answer" where
  "writable_answer answer =
     (case answer of
        RpFailed e \<Rightarrow> PollFailed e | RpTimeout \<Rightarrow> PollTimeout | RpInvalid \<Rightarrow> PollInvalid
      | RpSocketError asked \<Rightarrow> PollHangup (poll_socket_error asked) | RpReadable \<Rightarrow> PollWritable | RpOther \<Rightarrow> PollOther)"

lemma poll_readable_writable:
  "poll_readable deadline watched turns
     = poll_writable deadline watched (map (\<lambda>(reading, answer). (reading, writable_answer answer)) turns)"
proof (induction turns)
  case (Cons turn turns)
  obtain reading answer where "turn = (reading, answer)" by (cases turn)
  with Cons show ?case by (cases answer) (simp_all add: writable_answer_def check_write_conditions_def)
qed simp

text \<open>A poll that answers: the stream is readable, or the wait was cancelled or timed out.\<close>

definition poll_ends :: "instant option \<Rightarrow> bool \<Rightarrow> apple_call \<Rightarrow> bool" where
  "poll_ends deadline watched c \<longleftrightarrow>
     poll_readable deadline watched (ac_poll c) = Some (Inr ()) \<or>
     watched \<and> poll_readable deadline watched (ac_poll c) = Some (Inl cancelled_error) \<or>
     deadline \<noteq> None \<and> poll_readable deadline watched (ac_poll c) = Some (Inl deadline_error)"

text \<open>The same read with a read timeout: its second look sees what the poll saw.\<close>

definition timed_call :: "instant option \<Rightarrow> bool \<Rightarrow> apple_call \<Rightarrow> read_call" where
  "timed_call deadline watched c =
     \<lparr>rc_cancelled = ac_cancelled c, rc_now = ac_now c, rc_set_timeout = Inr (), rc_answer = ac_answer c,
      rc_cancelled_after = (poll_readable deadline watched (ac_poll c) = Some (Inl cancelled_error)),
      rc_now_after = (if poll_readable deadline watched (ac_poll c) = Some (Inl deadline_error)
                      then (case deadline of None \<Rightarrow> 0 | Some at \<Rightarrow> at) else ac_now c)\<rparr>"

lemma timed_call_simps [simp]:
  "rc_cancelled (timed_call deadline watched c) = ac_cancelled c" "rc_now (timed_call deadline watched c) = ac_now c"
  "rc_set_timeout (timed_call deadline watched c) = Inr ()" "rc_answer (timed_call deadline watched c) = ac_answer c"
  by (simp_all add: timed_call_def)

text \<open>
  The reader of an Apple host, which polls when a read would block, returns what the reader
  with a read timeout returns, for every sequence of answers in which the polls end with a
  readable stream, the cancellation or the deadline.
\<close>

theorem apple_read_is_timed_read:
  assumes "\<forall>c \<in> set cs. poll_ends deadline watched c"
  shows "fst (apple_read_until deadline watched n cs)
    = fst (read_until deadline watched n (map (timed_call deadline watched) cs))"
  using assms
proof (induction cs arbitrary: n)
  case (Cons c cs)
  have IH: "fst (apple_read_until deadline watched m cs)
      = fst (read_until deadline watched m (map (timed_call deadline watched) cs))" for m
    using Cons by simp
  have differ: "cancelled_error \<noteq> deadline_error" by (simp add: cancelled_error_def deadline_error_def)
  have ends: "poll_ends deadline watched c" using Cons.prems by simp
  show ?case
  proof (cases "ac_answer c")
    case (Inr block)
    obtain r cs1 where apple: "apple_read_until deadline watched (n - length block) cs = (r, cs1)"
      by (cases "apple_read_until deadline watched (n - length block) cs")
    obtain cs2 where "read_until deadline watched (n - length block) (map (timed_call deadline watched) cs) = (r, cs2)"
      using IH [of "n - length block"] apple by (metis fst_conv surj_pair)
    with apple Inr show ?thesis by simp
  next
    case (Inl e)
    let ?p = "poll_readable deadline watched (ac_poll c)"
    let ?c = "timed_call deadline watched c"
    consider "?p = Some (Inr ())" | "watched" "?p = Some (Inl cancelled_error)"
      | "deadline \<noteq> None" "?p = Some (Inl deadline_error)"
      using ends by (auto simp: poll_ends_def)
    then show ?thesis
    proof cases
      case 1
      then have "\<not> rc_cancelled_after ?c" "rc_now_after ?c = ac_now c" by (simp_all add: timed_call_def)
      with 1 Inl IH [of n] show ?thesis by simp
    next
      case 2
      then have "rc_cancelled_after ?c" by (simp add: timed_call_def)
      with 2 Inl IH [of n] show ?thesis by simp
    next
      case 3
      then have "\<not> rc_cancelled_after ?c" "due deadline (rc_now_after ?c)"
        using differ by (auto simp: timed_call_def due_def)
      with 3 Inl IH [of n] show ?thesis by simp
    qed
  qed
qed simp

text \<open>Two bytes arrive in two parts, with a poll between them; then the deadline passes.\<close>

theorem apple_read_is_timed_read_witness:
  "fst (read_until (Some 9) False 3 (map (timed_call (Some 9) False)
     [\<lparr>ac_cancelled = False, ac_now = 1, ac_answer = Inr [1], ac_poll = [((False, 1), RpReadable)]\<rparr>,
      \<lparr>ac_cancelled = False, ac_now = 2, ac_answer = Inl (IoError EkWouldBlock []),
        ac_poll = [((False, 2), RpTimeout), ((False, 3), RpReadable)]\<rparr>,
      \<lparr>ac_cancelled = False, ac_now = 3, ac_answer = Inr [2], ac_poll = [((False, 3), RpReadable)]\<rparr>,
      \<lparr>ac_cancelled = False, ac_now = 4, ac_answer = Inl (IoError EkWouldBlock []),
        ac_poll = [((False, 4), RpOther), ((False, 9), RpTimeout)]\<rparr>])) = Some (Inl deadline_error)"
  by (subst apple_read_is_timed_read [symmetric]) (simp_all add: poll_ends_def due_def)

end
