(* ===== verification/Ld_Diagnostics.thy ===== *)
theory Ld_Diagnostics
  imports Ld_Timing Ld_Caches
begin

text \<open>
  The \<^verbatim>\<open>phase-diagnostics\<close> feature of src/src/timing.rs on Linux: the sample of the process's resources, read
  from the text of \<^verbatim>\<open>/proc/self/status\<close> and the entries of \<^verbatim>\<open>/proc/self/fd\<close>, and the view of a timing
  that a report shows. A file that cannot be read is \<open>None\<close>. The text is ASCII, as the kernel writes it.
\<close>

section \<open>Reading the status of the process\<close>

text \<open>\<open>str::lines\<close>: lines end with a newline, perhaps after a carriage return; a last empty line is none.\<close>

definition strip_cr :: "string \<Rightarrow> string" where
  "strip_cr line = (if line \<noteq> [] \<and> last line = CHR 0x0D then butlast line else line)"

fun split_lines :: "string \<Rightarrow> string \<Rightarrow> string list" where
  "split_lines line [] = (if line = [] then [] else [line])"
| "split_lines line (c # cs) =
     (if c = CHR 0x0A then strip_cr line # split_lines [] cs else split_lines (line @ [c]) cs)"

definition str_lines :: "string \<Rightarrow> string list" where
  "str_lines text = split_lines [] text"

definition is_whitespace :: "char \<Rightarrow> bool" where
  "is_whitespace c \<longleftrightarrow> c \<in> {CHR '' '', CHR 0x09, CHR 0x0A, CHR 0x0B, CHR 0x0C, CHR 0x0D}"

definition str_trim :: "string \<Rightarrow> string" where
  "str_trim s = rev (dropWhile is_whitespace (rev (dropWhile is_whitespace s)))"

text \<open>The first word of \<open>split_whitespace\<close>.\<close>

definition first_word :: "string \<Rightarrow> string option" where
  "first_word s =
     (case dropWhile is_whitespace s of
        [] \<Rightarrow> None | w \<Rightarrow> Some (takeWhile (\<lambda>c. \<not> is_whitespace c) w))"

definition str_strip_prefix :: "string \<Rightarrow> string \<Rightarrow> string option" where
  "str_strip_prefix pre s = (if take (length pre) s = pre then Some (drop (length pre) s) else None)"

fun find_map :: "('a \<Rightarrow> 'b option) \<Rightarrow> 'a list \<Rightarrow> 'b option" where
  "find_map f [] = None"
| "find_map f (x # xs) = (case f x of Some y \<Rightarrow> Some y | None \<Rightarrow> find_map f xs)"

definition thread_count :: "string option \<Rightarrow> nat option" where
  "thread_count status =
     Option.bind status (\<lambda>text.
       find_map (\<lambda>line. Option.bind (str_strip_prefix ''Threads:'' line) (\<lambda>v. parse_usize (str_trim v)))
         (str_lines text))"

definition fd_count :: "string list option \<Rightarrow> nat option" where
  "fd_count entries = map_option length entries"

text \<open>The kilobytes of the first line that has a value, as bytes if they fit a \<^verbatim>\<open>u64\<close>.\<close>

definition rss_bytes :: "string option \<Rightarrow> nat option" where
  "rss_bytes status =
     Option.bind status (\<lambda>text.
       Option.bind (find_map (\<lambda>line. Option.bind (str_strip_prefix ''VmRSS:'' line) first_word) (str_lines text)) (\<lambda>v.
         Option.bind (parse_usize v) (\<lambda>kilobytes.
           if kilobytes * 1024 < 2 ^ 64 then Some (kilobytes * 1024) else None)))"

definition sampled_resources :: "string option \<Rightarrow> string option \<Rightarrow> string list option \<Rightarrow> resource_sample" where
  "sampled_resources threads_status rss_status fds =
     \<lparr>rs_threads = thread_count threads_status, rs_fds = fd_count fds, rs_rss_bytes = rss_bytes rss_status\<rparr>"

section \<open>A timing with samples\<close>

definition enabled_with :: "resource_sample \<Rightarrow> execution_timing" where
  "enabled_with sample =
     Some \<lparr>tg_phases = phase_timing_default\<lparr>pt_resources_start := sample\<rparr>, tg_queue_wait_recorded = False\<rparr>"

definition snapshot_with :: "resource_sample \<Rightarrow> execution_timing \<Rightarrow> phase_timing" where
  "snapshot_with sample timing =
     (case timing of
        None \<Rightarrow> phase_timing_default
      | Some st \<Rightarrow> (tg_phases st)\<lparr>pt_resources_end := sample\<rparr>)"

record phase_diagnostics =
  pd_admission_ns :: nat
  pd_queue_wait_ns :: nat
  pd_resolver_manifest_probe_ns :: "nat option"
  pd_resolver_reuse_ns :: "nat option"
  pd_resolver_rebuild_ns :: "nat option"
  pd_permission_runtime_services_ns :: "nat option"
  pd_graph_build_ns :: "nat option"
  pd_main_worker_bootstrap_ns :: "nat option"
  pd_user_execution_ns :: "nat option"
  pd_output_drain_ns :: "nat option"
  pd_cancel_kill_reap_ns :: "nat option"
  pd_parent_threads_before :: "nat option"
  pd_parent_threads_after :: "nat option"
  pd_parent_fds_before :: "nat option"
  pd_parent_fds_after :: "nat option"
  pd_parent_rss_bytes_before :: "nat option"
  pd_parent_rss_bytes_after :: "nat option"

text \<open>Durations are counted in nanoseconds, so \<open>as_nanos\<close> is the number itself.\<close>

definition sanitized_snapshot :: "phase_timing \<Rightarrow> phase_diagnostics" where
  "sanitized_snapshot t =
     \<lparr>pd_admission_ns = pt_admission t, pd_queue_wait_ns = pt_queue_wait t,
      pd_resolver_manifest_probe_ns = pt_resolver_manifest_probe t, pd_resolver_reuse_ns = pt_resolver_reuse t,
      pd_resolver_rebuild_ns = pt_resolver_rebuild t,
      pd_permission_runtime_services_ns = pt_permission_runtime_services t, pd_graph_build_ns = pt_graph_build t,
      pd_main_worker_bootstrap_ns = pt_main_worker_bootstrap t, pd_user_execution_ns = pt_user_execution t,
      pd_output_drain_ns = pt_output_drain t, pd_cancel_kill_reap_ns = pt_cancel_kill_reap t,
      pd_parent_threads_before = rs_threads (pt_resources_start t),
      pd_parent_threads_after = rs_threads (pt_resources_end t),
      pd_parent_fds_before = rs_fds (pt_resources_start t), pd_parent_fds_after = rs_fds (pt_resources_end t),
      pd_parent_rss_bytes_before = rs_rss_bytes (pt_resources_start t),
      pd_parent_rss_bytes_after = rs_rss_bytes (pt_resources_end t)\<rparr>"

section \<open>Properties\<close>

lemma find_map_Some: "find_map f xs = Some y \<Longrightarrow> \<exists>x \<in> set xs. f x = Some y"
  by (induction xs) (auto split: option.splits)

lemma str_strip_prefix_Some: "str_strip_prefix pre s = Some rest \<longleftrightarrow> s = pre @ rest"
  by (auto simp: str_strip_prefix_def) (metis append_take_drop_id)

lemma parse_usize_bound: "parse_usize s = Some n \<Longrightarrow> n < 2 ^ 64"
  by (auto simp: parse_usize_def Let_def split: option.splits if_splits)

text \<open>
  A sample says only what the status says: a thread count is the number on a line of the
  threads, a resident size is the kilobytes of a line of the resident set, in bytes and within a
  \<^verbatim>\<open>u64\<close>; a file that cannot be read gives neither.
\<close>

lemma sample_from_status:
  "thread_count status = Some n \<Longrightarrow> \<exists>body v. status = Some body \<and> ''Threads:'' @ v \<in> set (str_lines body) \<and>
     parse_usize (str_trim v) = Some n"
  "rss_bytes status = Some b \<Longrightarrow> \<exists>body v w kb. status = Some body \<and> ''VmRSS:'' @ v \<in> set (str_lines body) \<and>
     first_word v = Some w \<and> parse_usize w = Some kb \<and> b = kb * 1024 \<and> b < 2 ^ 64"
proof -
  assume "thread_count status = Some n"
  then obtain body where body: "status = Some body"
    "find_map (\<lambda>line. Option.bind (str_strip_prefix ''Threads:'' line) (\<lambda>v. parse_usize (str_trim v))) (str_lines body) = Some n"
    by (auto simp: thread_count_def bind_eq_Some_conv)
  from find_map_Some [OF body(2)] show "\<exists>body v. status = Some body \<and> ''Threads:'' @ v \<in> set (str_lines body) \<and>
     parse_usize (str_trim v) = Some n"
    using body(1) by (auto simp: bind_eq_Some_conv str_strip_prefix_Some)
next
  assume "rss_bytes status = Some b"
  then obtain body w kb where body: "status = Some body" "parse_usize w = Some kb" "b = kb * 1024" "b < 2 ^ 64"
    "find_map (\<lambda>line. Option.bind (str_strip_prefix ''VmRSS:'' line) first_word) (str_lines body) = Some w"
    by (auto simp: rss_bytes_def bind_eq_Some_conv split: if_splits)
  from find_map_Some [OF body(5)] show "\<exists>body v w kb. status = Some body \<and> ''VmRSS:'' @ v \<in> set (str_lines body) \<and>
     first_word v = Some w \<and> parse_usize w = Some kb \<and> b = kb * 1024 \<and> b < 2 ^ 64"
    using body(1-4) by (auto simp: bind_eq_Some_conv str_strip_prefix_Some)
qed

text \<open>
  The samples never touch the phases: whatever was sampled at the two ends, the phases and the
  queue wait that a sequence of observations leaves are those of a build that samples nothing.
\<close>

definition observations :: "(phase \<times> instant \<times> instant) list \<Rightarrow> execution_timing \<Rightarrow> execution_timing" where
  "observations spans timing = fold (\<lambda>(ph, started, now). timing_span ph started now) spans timing"

lemma phases_add_start:
  "phases_add ph e (p\<lparr>pt_resources_start := s\<rparr>) = (phases_add ph e p)\<lparr>pt_resources_start := s\<rparr>"
  by (cases ph) simp_all

lemma observations_start:
  "observations spans (Some \<lparr>tg_phases = p\<lparr>pt_resources_start := s\<rparr>, tg_queue_wait_recorded = q\<rparr>)
     = map_option (\<lambda>st. st\<lparr>tg_phases := (tg_phases st)\<lparr>pt_resources_start := s\<rparr>\<rparr>)
         (observations spans (Some \<lparr>tg_phases = p, tg_queue_wait_recorded = q\<rparr>))"
proof (induction spans arbitrary: p)
  case (Cons span spans)
  obtain ph a b where "span = (ph, a, b)" by (cases span)
  then show ?case
    using Cons [of "phases_add ph (saturating_duration_since b a) p"]
    by (simp add: observations_def timing_span_def timing_add_def phases_add_start)
qed (simp add: observations_def)

theorem samples_leave_phases_alone:
  "(snapshot_with after (observations spans (enabled_with before)))
      \<lparr>pt_resources_start := resource_sample_default, pt_resources_end := resource_sample_default\<rparr>
     = (timing_snapshot (observations spans timing_enabled))\<lparr>pt_resources_start := resource_sample_default\<rparr>"
proof -
  obtain st where st: "observations spans timing_enabled = Some st"
    by (induction spans rule: rev_induct)
      (auto simp: observations_def timing_enabled_def timing_span_def timing_add_def)
  have "observations spans (enabled_with before) = Some (st\<lparr>tg_phases := (tg_phases st)\<lparr>pt_resources_start := before\<rparr>\<rparr>)"
    using observations_start [where spans = spans and p = phase_timing_default and s = before and q = False] st
    by (simp add: enabled_with_def timing_enabled_def)
  then show ?thesis by (simp add: snapshot_with_def timing_snapshot_def st)
qed

lemma sample_status:
  "sampled_resources (Some ''Name: host\<newline>Threads:\<newline>Threads: 12\<newline>VmRSS: 2048 kB\<newline>'')
     (Some ''Name: host\<newline>Threads: 12\<newline>VmRSS: 2048 kB\<newline>'') (Some [''0'', ''1'', ''2''])
   = \<lparr>rs_threads = Some 12, rs_fds = Some 3, rs_rss_bytes = Some 2097152\<rparr>"
  by (simp add: sampled_resources_def thread_count_def rss_bytes_def fd_count_def str_lines_def strip_cr_def
      str_strip_prefix_def str_trim_def is_whitespace_def first_word_def parse_usize_def digit_value_def)

end
