(* ===== verification/Spec2Isabelle.thy ===== *)
theory Spec2Isabelle
  imports Ld_NodeIpc Ld_Sched_Main Ld_Permissions Ld_Threads Ld_Workers Ld_Capture
    Ld_Supervision_Main Ld_Executor Ld_Broker Ld_Http Ld_Reuse Ld_Redirect Ld_Entry Ld_Guards Ld_Loader Ld_Run Ld_Node
    Ld_Failure Ld_Services Ld_Control Ld_Overlapped Ld_Watch Ld_Apple Ld_Diagnostics
begin

text \<open>
  A verification development for \<open>libdeno\<close>, a Rust library that embeds the Deno runtime. The
  library runs a user's entry module either in the process or in a supervised child process,
  under permissions, limits, cancellation, admission control and output capture. This
  development models that control plane; the JavaScript engine, the crates of the Deno project
  and the operating system appear as parameters or as lists of the outcomes of their calls.

  Parts of the program and the theories that model them (paths are below \<open>src/src/\<close>).

  \<^item> \<open>Ld_Prelude\<close>: instants and durations with the checked and saturating operations of
    \<open>std::time\<close>, I/O errors, \<open>LibdenoError\<close>, results and their bind, reachability and the locale
    \<open>invariant_system\<close>, of which every state machine below is an interpretation.
  \<^item> \<open>Ld_Token\<close> (\<open>token.rs\<close>, \<open>budget.rs\<close>, the token of \<open>supervisor.rs\<close>): random hexadecimal tokens,
    constant-time comparison, the supervisor token and its codec, resource budgets.
  \<^item> \<open>Ld_Limits\<close>, \<open>Ld_NodeIpc\<close> (\<open>limits.rs\<close>): cancellation contexts, deadline guards, heap caps,
    \<open>run_with_termination\<close> with its watchdog thread, the worker's life cycle loop, and the
    inherited Node IPC descriptor.
  \<^item> \<open>Ld_Timing\<close>, \<open>Ld_Diagnostics\<close>, \<open>Ld_Task\<close> (\<open>timing.rs\<close>, \<open>executor.rs\<close>): phase timing, samples, reports, failures and
    \<open>TaskControl\<close>, the life cycle of one submission.
  \<^item> \<open>Ld_Scheduler\<close>, \<open>Ld_Schedule\<close> (\<open>AdmissionScheduler\<close> of \<open>executor.rs\<close>): the state under the
    scheduler's lock with one function for each of its critical sections, and the interleaving of
    clients, manager threads and task threads as a step relation. \<open>Ld_Sched_Inv\<close>,
    \<open>Ld_Sched_Steps\<close>, \<open>Ld_Sched_Props\<close> and \<open>Ld_Sched_Main\<close> hold its invariant, the preservation
    lemmas and the properties.
  \<^item> \<open>Ld_Permissions\<close> (\<open>permissions.rs\<close>): the permission flags and the container they build.
  \<^item> \<open>Ld_Threads\<close> (\<open>thread_messaging.rs\<close>), \<open>Ld_Workers\<close> (\<open>worker_lifecycle.rs\<close>): messages between
    worker threads, and the registry that stops and counts workers.
  \<^item> \<open>Ld_Capture\<close> (\<open>output.rs\<close> and the output readers of \<open>subprocess.rs\<close>): bounded capture.
  \<^item> \<open>Ld_Wire\<close>, \<open>Ld_Session\<close> (\<open>supervisor.rs\<close>): frames on the wire, payloads and the two session
    automata.
  \<^item> \<open>Ld_Supervision\<close>, \<open>Ld_Supervision_Main\<close> (\<open>subprocess.rs\<close>): the parent driver, its control
    worker, the child and its control reader as one system over two byte streams; every frame of
    the handshake fails once a cancellation was requested or the effective deadline passed. \<open>Ld_Control\<close>
    (\<open>subprocess.rs\<close>, \<open>pipe_read.rs\<close>) has the waits between the frames, \<open>Ld_Watch\<close>
    the loop of the control worker, \<open>Ld_Overlapped\<close> and \<open>Ld_Apple\<close> (\<open>supervisor.rs\<close>) the
    writer of frames on Windows and their reader on an Apple host.
  \<^item> \<open>Ld_Options\<close> (\<open>lib.rs\<close>, \<open>subprocess.rs\<close>), \<open>Ld_Supervised\<close>, \<open>Ld_Subprocess\<close> (\<open>subprocess.rs\<close>):
    the options and their checks, the whole supervised run around its session (spawn, handshake,
    reaping, verdict), and the plain subprocess backend with both child modes.
  \<^item> \<open>Ld_Executor\<close> (\<open>executor.rs\<close>): the builder, the dispatch of submissions, and synchronous and
    asynchronous execution over the backends above. \<open>Ld_Failure\<close> has failures with several owners.
  \<^item> \<open>Ld_Broker\<close> (\<open>permission_broker.rs\<close>): the line protocol of the permission broker and its
    installation. \<open>Ld_Http\<close> (\<open>http.rs\<close>): module fetches and npm downloads.
  \<^item> \<open>Ld_Caches\<close>, \<open>Ld_Npm\<close>, \<open>Ld_Manifest\<close> (\<open>analysis_cache.rs\<close>, \<open>npm_cache.rs\<close>), \<open>Ld_Reuse\<close>
    (\<open>runtime.rs\<close>, \<open>services.rs\<close>), \<open>Ld_Services\<close> (\<open>services.rs\<close>, \<open>deno_resolver_adapter.rs\<close>): the
    caches, the manifest of everything a resolver stack was built from, the reuse of one stack by
    concurrent runs, and the construction of stacks and of a run's services.
  \<^item> \<open>Ld_Lease\<close> (\<open>lib.rs\<close>), \<open>Ld_Redirect\<close> (\<open>output.rs\<close>), \<open>Ld_Entry\<close> (\<open>lib.rs\<close>), \<open>Ld_Guards\<close>
    (\<open>runtime_guards.rs\<close>, \<open>worker_factory.rs\<close>), \<open>Ld_Loader\<close> (\<open>module_loader.rs\<close>), \<open>Ld_Node\<close>
    (\<open>node_loader.rs\<close>, \<open>graph.rs\<close>), \<open>Ld_Run\<close> (\<open>lib.rs\<close>, \<open>runtime.rs\<close>): a run in the process: its
    lease on the process, the redirection of stdio, the entry module, the guards of the worker's ops,
    module loading, the reads of require, and the composition of all of it behind every public
    entry point.

  How state is modelled. A critical section (what runs under one lock) is one function on the
  record of the locked state. Threads are interleaved by inductive step relations over records
  that hold the shared state and each thread's position. A loop that makes system calls is a
  recursion over the list of their outcomes; it returns \<open>None\<close> when the list ends before the
  loop does, and the theorems that it returns name the outcome that ends it. The scheduler's
  \<open>promote_loop\<close> terminates by a measure on the queue. No fuel is used elsewhere. Time is a natural
  number of nanoseconds with the representation bounds of \<open>Instant\<close> and \<open>Duration\<close>; lengths,
  limits and identifiers on the wire are words or are bounded where the source bounds them. Code
  that is not in the repository (deno_graph, the resolvers, the permission descriptors, V8,
  serde, reqwest) is a parameter: an argument or a field of an environment record.

  What the lemmas show. For the scheduler: exactly one result per submission, results are
  final, the limits on slots and on queued submissions, FIFO dispatch, at most one start per submission, cancelled submissions never
  start, shutdown starts nothing, no deadlock, and a manager for pending work. For the supervised
  run: honest peers never reject each other, cancellation before START prevents the run, both
  sides agree on the result, a run can complete exactly while no cancellation or deadline stops its
  handshake, the caller's verdict is the session's, strangers on the port cannot take or abort the handshake, and its child is always reaped; the child of a plain run is reaped unless waiting for it fails;
  no buffer is left with the Windows kernel. For the wire: frames survive any fragmentation in
  both directions and only frames are accepted. For permissions: a declarative reading of the flags,
  the classification of denials, and a broker that fails closed. For capture: exactly the prefix
  below the limit, and stdio restored on every path. For a run in the process: no script before
  every check, everything given back however a call ends, entry points that agree, and one
  reported outcome. For modules: frozen builds change no checksum
  and, when they fail, no graph, loads and the reads
  of require are checked, the graph and the engine resolve alike, and install failures reach every module. For the
  resolver stack: no run uses a stale one, edits of every watched file are seen (up to a collision of
  the 64-bit hashes), a build starts from the snapshot saved for its inputs, caches are transparent, and runs share
  nothing else. For the workers of a run: they share its limits and replaced ops and never its Node IPC
  descriptor. For cancellation: the first reason wins.

  Bounds. A module fetch sends at most 3 requests and an npm download at most 33, all within 300
  seconds; a stack is built at most twice per attempt to stabilise; refreshes of a runtime are counted
  below 2 to the 64, and freshness is claimed under that bound; captured output stays below its limit and the
  number of capture readers is limited by a budget; poll timeouts are rounded up and never become the
  number that means forever.

  Not modelled. The other Windows variants, the installation of the
  TLS provider, option sets that are only handed to upstream constructors, JavaScript sources of the
  guards, Debug output, plain accessors, test hooks, the host binaries and the
  Python bindings: they hold no state of the program's own or only call into upstream crates and the
  operating system.
\<close>

end
